(* ===== verification/Prelude.thy ===== *)
theory Prelude
  imports Main
begin

text \<open>
  Shared vocabulary of the k23VM development.

  A Rust function of the crate returns normally, returns an \<open>Err\<close> of
  \<open>crate::Result\<close>, or panics (\<open>unwrap\<close>, \<open>expect\<close>, \<open>assert!\<close>, \<open>todo!\<close>, an index out of
  range, or an arithmetic overflow: \<open>src/Cargo.toml\<close> sets \<open>overflow-checks = true\<close> in the
  release profile, so an overflow panics in every profile). The type \<open>outcome\<close> keeps the three
  apart. The combinators below are the ones the source uses on \<open>Result\<close>: the \<open>?\<close> operator
  (\<open>and_then\<close>), \<open>for\<close> loops over a mutable state (\<open>for_each\<close>), and
  \<open>collect::<Result<Vec<_>, _>>()\<close> (\<open>collect\<close>). Machine integers that the source keeps in
  \<open>u8\<close>, \<open>u32\<close>, \<open>u64\<close> or \<open>usize\<close> (64 bits on every supported target) are natural numbers
  with the width written out in the checked operations.
\<close>

section \<open>Outcomes\<close>

datatype ('e, 'a) outcome = Ok 'a | Err 'e | Panic string

named_theorems outcome_simps \<open>rewrite rules that run the outcome monad\<close>

fun and_then :: "('e, 'a) outcome \<Rightarrow> ('a \<Rightarrow> ('e, 'b) outcome) \<Rightarrow> ('e, 'b) outcome" where
  "and_then (Ok a) f = f a"
| "and_then (Err e) f = Err e"
| "and_then (Panic m) f = Panic m"

definition map_ok :: "('a \<Rightarrow> 'b) \<Rightarrow> ('e, 'a) outcome \<Rightarrow> ('e, 'b) outcome" where
  "map_ok f r = and_then r (\<lambda>a. Ok (f a))"

fun is_ok :: "('e, 'a) outcome \<Rightarrow> bool" where
  "is_ok (Ok a) = True"
| "is_ok (Err e) = False"
| "is_ok (Panic m) = False"

fun is_panic :: "('e, 'a) outcome \<Rightarrow> bool" where
  "is_panic (Ok a) = False"
| "is_panic (Err e) = False"
| "is_panic (Panic m) = True"

text \<open>\<open>assert!(b, msg)\<close>, and \<open>Option::expect\<close> / \<open>Option::unwrap\<close>.\<close>

definition assert_that :: "bool \<Rightarrow> string \<Rightarrow> ('e, unit) outcome" where
  "assert_that b msg = (if b then Ok () else Panic msg)"

definition expect :: "'a option \<Rightarrow> string \<Rightarrow> ('e, 'a) outcome" where
  "expect x msg = (case x of Some a \<Rightarrow> Ok a | None \<Rightarrow> Panic msg)"

text \<open>\<open>Option::ok_or\<close>.\<close>

definition ok_or :: "'a option \<Rightarrow> 'e \<Rightarrow> ('e, 'a) outcome" where
  "ok_or x e = (case x of Some a \<Rightarrow> Ok a | None \<Rightarrow> Err e)"

text \<open>A \<open>for x in xs\<close> loop whose body updates a state and may leave early with \<open>?\<close> or a panic.\<close>

fun for_each :: "('s \<Rightarrow> 'a \<Rightarrow> ('e, 's) outcome) \<Rightarrow> 's \<Rightarrow> 'a list \<Rightarrow> ('e, 's) outcome" where
  "for_each f s [] = Ok s"
| "for_each f s (x # xs) = and_then (f s x) (\<lambda>s'. for_each f s' xs)"

fun collect :: "('a \<Rightarrow> ('e, 'b) outcome) \<Rightarrow> 'a list \<Rightarrow> ('e, 'b list) outcome" where
  "collect f [] = Ok []"
| "collect f (x # xs) = and_then (f x) (\<lambda>y. and_then (collect f xs) (\<lambda>ys. Ok (y # ys)))"

lemma and_then_eq_Ok_iff [simp]:
  "and_then r f = Ok b \<longleftrightarrow> (\<exists>a. r = Ok a \<and> f a = Ok b)"
  by (cases r) auto

lemma Ok_eq_and_then_iff [simp]:
  "Ok b = and_then r f \<longleftrightarrow> (\<exists>a. r = Ok a \<and> f a = Ok b)"
  by (cases r) auto

lemma and_then_eq_Err_iff:
  "and_then r f = Err e \<longleftrightarrow> r = Err e \<or> (\<exists>a. r = Ok a \<and> f a = Err e)"
  by (cases r) auto

lemma and_then_assoc [outcome_simps]:
  "and_then (and_then r f) g = and_then r (\<lambda>a. and_then (f a) g)"
  by (cases r) auto

lemma and_then_Ok_right [simp]: "and_then r Ok = r"
  by (cases r) auto

lemma and_then_cong [fundef_cong]:
  "r = r' \<Longrightarrow> (\<And>a. r' = Ok a \<Longrightarrow> f a = f' a) \<Longrightarrow> and_then r f = and_then r' f'"
  by (cases r) auto

lemma is_ok_iff: "is_ok r \<longleftrightarrow> (\<exists>a. r = Ok a)"
  by (cases r) auto

lemma is_panic_iff: "is_panic r \<longleftrightarrow> (\<exists>m. r = Panic m)"
  by (cases r) auto

lemma assert_that_eq_Ok_iff [simp]: "assert_that b m = Ok u \<longleftrightarrow> b"
  by (auto simp: assert_that_def)

lemma assert_that_True [simp]: "assert_that True m = Ok ()"
  by (simp add: assert_that_def)

lemma assert_that_False [simp]: "assert_that False m = Panic m"
  by (simp add: assert_that_def)

lemma expect_eq_Ok_iff [simp]: "expect x m = Ok a \<longleftrightarrow> x = Some a"
  by (auto simp: expect_def split: option.splits)

lemma expect_Some [simp]: "expect (Some a) m = Ok a"
  by (simp add: expect_def)

lemma expect_None [simp]: "expect None m = Panic m"
  by (simp add: expect_def)

lemma ok_or_simps [simp]: "ok_or (Some a) e = Ok a" "ok_or None e = Err e"
  by (simp_all add: ok_or_def)

lemma map_ok_eq_Ok_iff [simp]: "map_ok f r = Ok b \<longleftrightarrow> (\<exists>a. r = Ok a \<and> f a = b)"
  by (cases r) (auto simp: map_ok_def)

lemma map_ok_simps [simp]:
  "map_ok f (Ok a) = Ok (f a)" "map_ok f (Err e) = Err e" "map_ok f (Panic m) = Panic m"
  by (simp_all add: map_ok_def)

subsection \<open>Loops\<close>

lemma for_each_append:
  "for_each f s (xs @ ys) = and_then (for_each f s xs) (\<lambda>s'. for_each f s' ys)"
  by (induction xs arbitrary: s) (auto simp: outcome_simps)

text \<open>The loop rule: what every iteration keeps, the loop keeps.\<close>

lemma for_each_invariant:
  assumes "for_each f s xs = Ok s'" and "P s"
    and "\<And>s x s'. x \<in> set xs \<Longrightarrow> P s \<Longrightarrow> f s x = Ok s' \<Longrightarrow> P s'"
  shows "P s'"
  using assms by (induction xs arbitrary: s) auto

text \<open>The same rule for total correctness: no iteration fails, so the loop does not.\<close>

lemma for_each_total:
  assumes "P s"
    and "\<And>s x. x \<in> set xs \<Longrightarrow> P s \<Longrightarrow> \<exists>s'. f s x = Ok s' \<and> P s'"
  shows "\<exists>s'. for_each f s xs = Ok s' \<and> P s'"
  using assms
proof (induction xs arbitrary: s)
  case Nil
  then show ?case by simp
next
  case (Cons x xs)
  from Cons.prems(1) obtain s1 where "f s x = Ok s1" "P s1"
    using Cons.prems(2)[of x s] by auto
  moreover have "\<exists>s'. for_each f s1 xs = Ok s' \<and> P s'"
    using \<open>P s1\<close> Cons.prems(2) by (intro Cons.IH) auto
  ultimately show ?case by simp
qed

lemma collect_Ok_length: "collect f xs = Ok ys \<Longrightarrow> length ys = length xs"
  by (induction xs arbitrary: ys) auto

lemma collect_Ok_nth:
  "collect f xs = Ok ys \<Longrightarrow> i < length xs \<Longrightarrow> f (xs ! i) = Ok (ys ! i)"
proof (induction xs arbitrary: ys i)
  case Nil
  then show ?case by simp
next
  case (Cons x xs)
  then show ?case by (cases i) auto
qed

lemma collect_Ok_map: "(\<And>x. x \<in> set xs \<Longrightarrow> f x = Ok (g x)) \<Longrightarrow> collect f xs = Ok (map g xs)"
  by (induction xs) auto

section \<open>Checked machine arithmetic\<close>

abbreviation u32_bound :: nat where "u32_bound \<equiv> 2 ^ 32"
abbreviation u64_bound :: nat where "u64_bound \<equiv> 2 ^ 64"

text \<open>
  Addition, subtraction and multiplication at a width, with overflow checks: the first argument
  is the number of values of the type (\<open>2 ^ 8\<close>, \<open>2 ^ 32\<close> or \<open>2 ^ 64\<close>).
\<close>

definition add_chk :: "nat \<Rightarrow> nat \<Rightarrow> nat \<Rightarrow> ('e, nat) outcome" where
  "add_chk b x y = (if x + y < b then Ok (x + y) else Panic ''attempt to add with overflow'')"

definition sub_chk :: "nat \<Rightarrow> nat \<Rightarrow> ('e, nat) outcome" where
  "sub_chk x y = (if y \<le> x then Ok (x - y) else Panic ''attempt to subtract with overflow'')"

definition mul_chk :: "nat \<Rightarrow> nat \<Rightarrow> nat \<Rightarrow> ('e, nat) outcome" where
  "mul_chk b x y = (if x * y < b then Ok (x * y) else Panic ''attempt to multiply with overflow'')"

text \<open>\<open>u64::checked_mul\<close>, \<open>saturating_add\<close> and the \<open>try_from\<close> conversions between widths.\<close>

definition checked_mul :: "nat \<Rightarrow> nat \<Rightarrow> nat \<Rightarrow> nat option" where
  "checked_mul b x y = (if x * y < b then Some (x * y) else None)"

definition saturating_add :: "nat \<Rightarrow> nat \<Rightarrow> nat \<Rightarrow> nat" where
  "saturating_add b x y = (if x + y < b then x + y else b - 1)"

definition try_into :: "nat \<Rightarrow> nat \<Rightarrow> nat option" where
  "try_into b x = (if x < b then Some x else None)"

lemma add_chk_eq_Ok_iff [simp]: "add_chk b x y = Ok z \<longleftrightarrow> x + y < b \<and> z = x + y"
  by (auto simp: add_chk_def)

lemma sub_chk_eq_Ok_iff [simp]: "sub_chk x y = Ok z \<longleftrightarrow> y \<le> x \<and> z = x - y"
  by (auto simp: sub_chk_def)

lemma mul_chk_eq_Ok_iff [simp]: "mul_chk b x y = Ok z \<longleftrightarrow> x * y < b \<and> z = x * y"
  by (auto simp: mul_chk_def)

section \<open>Dense entity maps\<close>

text \<open>
  \<open>cranelift_entity::PrimaryMap<K, V>\<close> is a vector indexed by the entity's number: \<open>push\<close>
  appends and returns the index, \<open>get\<close> is partial, the index operator panics out of range.
\<close>

definition pm_get :: "'a list \<Rightarrow> nat \<Rightarrow> 'a option" where
  "pm_get xs i = (if i < length xs then Some (xs ! i) else None)"

definition pm_index :: "'a list \<Rightarrow> nat \<Rightarrow> ('e, 'a) outcome" where
  "pm_index xs i = expect (pm_get xs i) ''index out of bounds''"

definition pm_push :: "'a list \<Rightarrow> 'a \<Rightarrow> nat \<times> 'a list" where
  "pm_push xs x = (length xs, xs @ [x])"

text \<open>The reserved value of an entity index (\<open>ReservedValue::reserved_value\<close>): \<open>u32::MAX\<close>.\<close>

definition reserved_value :: nat where
  "reserved_value = 2 ^ 32 - 1"

lemma pm_get_eq_Some_iff [simp]: "pm_get xs i = Some x \<longleftrightarrow> i < length xs \<and> xs ! i = x"
  by (auto simp: pm_get_def)

lemma pm_get_eq_None_iff [simp]: "pm_get xs i = None \<longleftrightarrow> length xs \<le> i"
  by (auto simp: pm_get_def)

lemma pm_index_eq_Ok_iff [simp]: "pm_index xs i = Ok x \<longleftrightarrow> i < length xs \<and> xs ! i = x"
  by (auto simp: pm_index_def)

lemma pm_index_Ok: "i < length xs \<Longrightarrow> pm_index xs i = Ok (xs ! i)"
  by simp

lemma pm_index_simps [simp]:
  "pm_index (x # xs) 0 = Ok x"
  "pm_index (x # xs) (Suc i) = pm_index xs i"
  by (auto simp: pm_index_def pm_get_def)

section \<open>Sums over finite maps of counters\<close>

lemma sum_list_map_filter_eq_count:
  "length (filter P xs) = (\<Sum>x\<leftarrow>xs. if P x then 1 else 0)"
  by (induction xs) auto

end
