(* ===== verification/Wasm_Types.thy ===== *)
theory Wasm_Types
  imports Prelude
begin

text \<open>
  The WebAssembly type language of \<open>src/src/translate/types.rs\<close>, the index spaces of
  \<open>src/src/indices.rs\<close> it refers to, and the \<open>TypeTrace\<close> trait of
  \<open>src/src/type_registry.rs\<close> that visits and rewrites every type reference inside a type.

  Every struct is a record, every enum a datatype with the source's variants (prefixed where the
  bare name is taken: \<open>HT_\<close> for heap types, \<open>CT_\<close> for composite types). A newtype around
  \<open>u32\<close> is a natural number. \<open>trace\<close> takes a closure that may update captured state and may
  stop with an error; \<open>trace_mut\<close> a closure that returns the new index (no caller of
  \<open>trace_mut\<close> captures mutable state). The lemmas reduce both to the list of edges of a type:
  \<open>trace\<close> is a loop over the edges, \<open>trace_mut\<close> maps them.
\<close>

section \<open>Index spaces\<close>

type_synonym TypeIndex = nat
type_synonym FuncIndex = nat
type_synonym DefinedFuncIndex = nat
type_synonym TableIndex = nat
type_synonym DefinedTableIndex = nat
type_synonym MemoryIndex = nat
type_synonym DefinedMemoryIndex = nat
type_synonym GlobalIndex = nat
type_synonym DefinedGlobalIndex = nat
type_synonym ElemIndex = nat
type_synonym DataIndex = nat
type_synonym FuncRefIndex = nat
type_synonym TagIndex = nat
type_synonym ModuleInternedTypeIndex = nat
type_synonym ModuleInternedRecGroupIndex = nat
type_synonym VMSharedTypeIndex = nat
type_synonym RecGroupRelativeTypeIndex = nat

datatype EntityIndex =
    Function FuncIndex
  | Table TableIndex
  | Memory MemoryIndex
  | Global GlobalIndex
  | Tag TagIndex

datatype CanonicalizedTypeIndex =
    Shared VMSharedTypeIndex
  | Module ModuleInternedTypeIndex
  | RecGroup RecGroupRelativeTypeIndex

section \<open>Types\<close>

datatype WasmHeapTypeInner =
    HT_Extern | HT_NoExtern
  | HT_Func | HT_ConcreteFunc CanonicalizedTypeIndex | HT_NoFunc
  | HT_Any | HT_Eq | HT_I31
  | HT_Array | HT_ConcreteArray CanonicalizedTypeIndex
  | HT_Struct | HT_ConcreteStruct CanonicalizedTypeIndex
  | HT_None
  | HT_Exn | HT_NoExn
  | HT_Cont | HT_NoCont

record WasmHeapType =
  ht_shared :: bool
  ht_ty :: WasmHeapTypeInner

record WasmRefType =
  nullable :: bool
  heap_type :: WasmHeapType

datatype WasmValType = I32 | I64 | F32 | F64 | V128 | Ref WasmRefType

datatype WasmHeapTopTypeInner = Top_Extern | Top_Any | Top_Func | Top_Exn | Top_Cont

record WasmHeapTopType =
  top_shared :: bool
  top_inner :: WasmHeapTopTypeInner

record WasmFuncType =
  params :: "WasmValType list"
  results :: "WasmValType list"

datatype WasmStorageType = SI8 | SI16 | SVal WasmValType

record WasmFieldType =
  field_mutable :: bool
  element_type :: WasmStorageType

datatype WasmArrayType = WasmArrayType WasmFieldType

record WasmStructType =
  struct_fields :: "WasmFieldType list"

datatype WasmCompositeTypeInner =
    CT_Func WasmFuncType
  | CT_Array WasmArrayType
  | CT_Struct WasmStructType

record WasmCompositeType =
  composite_inner :: WasmCompositeTypeInner
  composite_shared :: bool

record WasmSubType =
  is_final :: bool
  supertype :: "CanonicalizedTypeIndex option"
  composite_type :: WasmCompositeType

datatype WasmRecGroup = WasmRecGroup "WasmSubType list"

definition EXTERNREF :: WasmRefType where
  "EXTERNREF = \<lparr>nullable = True, heap_type = \<lparr>ht_shared = False, ht_ty = HT_Extern\<rparr>\<rparr>"

definition FUNCREF :: WasmRefType where
  "FUNCREF = \<lparr>nullable = True, heap_type = \<lparr>ht_shared = False, ht_ty = HT_Func\<rparr>\<rparr>"

subsection \<open>Heap types\<close>

definition heap_type_new :: "bool \<Rightarrow> WasmHeapTypeInner \<Rightarrow> WasmHeapType" where
  "heap_type_new sh t = \<lparr>ht_shared = sh, ht_ty = t\<rparr>"

definition top_type :: "WasmHeapType \<Rightarrow> WasmHeapTopType" where
  "top_type h = \<lparr>top_shared = ht_shared h,
     top_inner = (case ht_ty h of
         HT_Func \<Rightarrow> Top_Func | HT_ConcreteFunc _ \<Rightarrow> Top_Func | HT_NoFunc \<Rightarrow> Top_Func
       | HT_Extern \<Rightarrow> Top_Extern | HT_NoExtern \<Rightarrow> Top_Extern
       | HT_Any \<Rightarrow> Top_Any | HT_Eq \<Rightarrow> Top_Any | HT_I31 \<Rightarrow> Top_Any
       | HT_Array \<Rightarrow> Top_Any | HT_ConcreteArray _ \<Rightarrow> Top_Any
       | HT_Struct \<Rightarrow> Top_Any | HT_ConcreteStruct _ \<Rightarrow> Top_Any | HT_None \<Rightarrow> Top_Any
       | HT_Exn \<Rightarrow> Top_Exn | HT_NoExn \<Rightarrow> Top_Exn
       | HT_Cont \<Rightarrow> Top_Cont | HT_NoCont \<Rightarrow> Top_Cont)\<rparr>"

definition is_vmgcref_type :: "WasmHeapType \<Rightarrow> bool" where
  "is_vmgcref_type h = (case top_inner (top_type h) of
       Top_Any \<Rightarrow> True | Top_Extern \<Rightarrow> True
     | Top_Func \<Rightarrow> False | Top_Exn \<Rightarrow> False | Top_Cont \<Rightarrow> False)"

definition is_vmgcref_type_and_not_i31 :: "WasmHeapType \<Rightarrow> bool" where
  "is_vmgcref_type_and_not_i31 h \<longleftrightarrow> is_vmgcref_type h \<and> ht_ty h \<noteq> HT_I31"

definition ref_is_vmgcref_type :: "WasmRefType \<Rightarrow> bool" where
  "ref_is_vmgcref_type r = is_vmgcref_type (heap_type r)"

definition ref_is_vmgcref_type_and_not_i31 :: "WasmRefType \<Rightarrow> bool" where
  "ref_is_vmgcref_type_and_not_i31 r = is_vmgcref_type_and_not_i31 (heap_type r)"

subsection \<open>Accessors generated by \<open>enum_accessors!\<close>\<close>

definition new_func :: "bool \<Rightarrow> WasmFuncType \<Rightarrow> WasmCompositeType" where
  "new_func sh t = \<lparr>composite_inner = CT_Func t, composite_shared = sh\<rparr>"

definition new_array :: "bool \<Rightarrow> WasmArrayType \<Rightarrow> WasmCompositeType" where
  "new_array sh t = \<lparr>composite_inner = CT_Array t, composite_shared = sh\<rparr>"

definition new_struct :: "bool \<Rightarrow> WasmStructType \<Rightarrow> WasmCompositeType" where
  "new_struct sh t = \<lparr>composite_inner = CT_Struct t, composite_shared = sh\<rparr>"

fun inner_as_func :: "WasmCompositeTypeInner \<Rightarrow> WasmFuncType option" where
  "inner_as_func (CT_Func t) = Some t"
| "inner_as_func _ = None"

fun inner_as_array :: "WasmCompositeTypeInner \<Rightarrow> WasmArrayType option" where
  "inner_as_array (CT_Array t) = Some t"
| "inner_as_array _ = None"

fun inner_as_struct :: "WasmCompositeTypeInner \<Rightarrow> WasmStructType option" where
  "inner_as_struct (CT_Struct t) = Some t"
| "inner_as_struct _ = None"

definition composite_as_func :: "WasmCompositeType \<Rightarrow> WasmFuncType option" where
  "composite_as_func c = inner_as_func (composite_inner c)"

definition composite_as_array :: "WasmCompositeType \<Rightarrow> WasmArrayType option" where
  "composite_as_array c = inner_as_array (composite_inner c)"

definition composite_as_struct :: "WasmCompositeType \<Rightarrow> WasmStructType option" where
  "composite_as_struct c = inner_as_struct (composite_inner c)"

definition as_func :: "WasmSubType \<Rightarrow> WasmFuncType option" where
  "as_func t = composite_as_func (composite_type t)"

definition as_array :: "WasmSubType \<Rightarrow> WasmArrayType option" where
  "as_array t = composite_as_array (composite_type t)"

definition as_struct :: "WasmSubType \<Rightarrow> WasmStructType option" where
  "as_struct t = composite_as_struct (composite_type t)"

definition unwrap_func :: "WasmSubType \<Rightarrow> ('e, WasmFuncType) outcome" where
  "unwrap_func t = expect (as_func t) ''expected &WasmFuncType''"

section \<open>Tracing type references\<close>

text \<open>\<open>trace\<close>: visit every \<open>CanonicalizedTypeIndex\<close> inside a type, in order.\<close>

type_synonym ('e, 's) visitor = "'s \<Rightarrow> CanonicalizedTypeIndex \<Rightarrow> ('e, 's) outcome"

definition trace_heap_type :: "('e, 's) visitor \<Rightarrow> 's \<Rightarrow> WasmHeapType \<Rightarrow> ('e, 's) outcome" where
  "trace_heap_type func s h = (case ht_ty h of
       HT_ConcreteFunc index \<Rightarrow> func s index
     | HT_ConcreteArray index \<Rightarrow> func s index
     | HT_ConcreteStruct index \<Rightarrow> func s index
     | _ \<Rightarrow> Ok s)"

definition trace_ref_type :: "('e, 's) visitor \<Rightarrow> 's \<Rightarrow> WasmRefType \<Rightarrow> ('e, 's) outcome" where
  "trace_ref_type func s r = trace_heap_type func s (heap_type r)"

fun trace_val_type :: "('e, 's) visitor \<Rightarrow> 's \<Rightarrow> WasmValType \<Rightarrow> ('e, 's) outcome" where
  "trace_val_type func s (Ref r) = trace_ref_type func s r"
| "trace_val_type func s _ = Ok s"

fun trace_storage_type :: "('e, 's) visitor \<Rightarrow> 's \<Rightarrow> WasmStorageType \<Rightarrow> ('e, 's) outcome" where
  "trace_storage_type func s (SVal v) = trace_val_type func s v"
| "trace_storage_type func s _ = Ok s"

definition trace_field_type :: "('e, 's) visitor \<Rightarrow> 's \<Rightarrow> WasmFieldType \<Rightarrow> ('e, 's) outcome" where
  "trace_field_type func s f = trace_storage_type func s (element_type f)"

definition trace_func_type :: "('e, 's) visitor \<Rightarrow> 's \<Rightarrow> WasmFuncType \<Rightarrow> ('e, 's) outcome" where
  "trace_func_type func s t =
     and_then (for_each (trace_val_type func) s (params t))
       (\<lambda>s'. for_each (trace_val_type func) s' (results t))"

fun trace_array_type :: "('e, 's) visitor \<Rightarrow> 's \<Rightarrow> WasmArrayType \<Rightarrow> ('e, 's) outcome" where
  "trace_array_type func s (WasmArrayType f) = trace_field_type func s f"

definition trace_struct_type :: "('e, 's) visitor \<Rightarrow> 's \<Rightarrow> WasmStructType \<Rightarrow> ('e, 's) outcome" where
  "trace_struct_type func s t = for_each (trace_field_type func) s (struct_fields t)"

definition trace_composite_type ::
  "('e, 's) visitor \<Rightarrow> 's \<Rightarrow> WasmCompositeType \<Rightarrow> ('e, 's) outcome" where
  "trace_composite_type func s c = (case composite_inner c of
       CT_Func t \<Rightarrow> trace_func_type func s t
     | CT_Array t \<Rightarrow> trace_array_type func s t
     | CT_Struct t \<Rightarrow> trace_struct_type func s t)"

definition trace_sub_type :: "('e, 's) visitor \<Rightarrow> 's \<Rightarrow> WasmSubType \<Rightarrow> ('e, 's) outcome" where
  "trace_sub_type func s t =
     and_then (case supertype t of Some sup_idx \<Rightarrow> func s sup_idx | None \<Rightarrow> Ok s)
       (\<lambda>s'. trace_composite_type func s' (composite_type t))"

fun trace_rec_group :: "('e, 's) visitor \<Rightarrow> 's \<Rightarrow> WasmRecGroup \<Rightarrow> ('e, 's) outcome" where
  "trace_rec_group func s (WasmRecGroup ts) = for_each (trace_sub_type func) s ts"

text \<open>\<open>trace_mut\<close>: rewrite every index in place.\<close>

type_synonym 'e rewriter = "CanonicalizedTypeIndex \<Rightarrow> ('e, CanonicalizedTypeIndex) outcome"

definition trace_mut_heap_type :: "'e rewriter \<Rightarrow> WasmHeapType \<Rightarrow> ('e, WasmHeapType) outcome" where
  "trace_mut_heap_type func h = (case ht_ty h of
       HT_ConcreteFunc index \<Rightarrow> map_ok (\<lambda>i. h\<lparr>ht_ty := HT_ConcreteFunc i\<rparr>) (func index)
     | HT_ConcreteArray index \<Rightarrow> map_ok (\<lambda>i. h\<lparr>ht_ty := HT_ConcreteArray i\<rparr>) (func index)
     | HT_ConcreteStruct index \<Rightarrow> map_ok (\<lambda>i. h\<lparr>ht_ty := HT_ConcreteStruct i\<rparr>) (func index)
     | _ \<Rightarrow> Ok h)"

definition trace_mut_ref_type :: "'e rewriter \<Rightarrow> WasmRefType \<Rightarrow> ('e, WasmRefType) outcome" where
  "trace_mut_ref_type func r =
     map_ok (\<lambda>h. r\<lparr>heap_type := h\<rparr>) (trace_mut_heap_type func (heap_type r))"

fun trace_mut_val_type :: "'e rewriter \<Rightarrow> WasmValType \<Rightarrow> ('e, WasmValType) outcome" where
  "trace_mut_val_type func (Ref r) = map_ok Ref (trace_mut_ref_type func r)"
| "trace_mut_val_type func t = Ok t"

fun trace_mut_storage_type :: "'e rewriter \<Rightarrow> WasmStorageType \<Rightarrow> ('e, WasmStorageType) outcome" where
  "trace_mut_storage_type func (SVal v) = map_ok SVal (trace_mut_val_type func v)"
| "trace_mut_storage_type func t = Ok t"

definition trace_mut_field_type :: "'e rewriter \<Rightarrow> WasmFieldType \<Rightarrow> ('e, WasmFieldType) outcome" where
  "trace_mut_field_type func f =
     map_ok (\<lambda>t. f\<lparr>element_type := t\<rparr>) (trace_mut_storage_type func (element_type f))"

definition trace_mut_func_type :: "'e rewriter \<Rightarrow> WasmFuncType \<Rightarrow> ('e, WasmFuncType) outcome" where
  "trace_mut_func_type func t =
     and_then (collect (trace_mut_val_type func) (params t))
       (\<lambda>ps. and_then (collect (trace_mut_val_type func) (results t))
         (\<lambda>rs. Ok (t\<lparr>params := ps, results := rs\<rparr>)))"

fun trace_mut_array_type :: "'e rewriter \<Rightarrow> WasmArrayType \<Rightarrow> ('e, WasmArrayType) outcome" where
  "trace_mut_array_type func (WasmArrayType f) = map_ok WasmArrayType (trace_mut_field_type func f)"

definition trace_mut_struct_type ::
  "'e rewriter \<Rightarrow> WasmStructType \<Rightarrow> ('e, WasmStructType) outcome" where
  "trace_mut_struct_type func t =
     map_ok (\<lambda>fs. t\<lparr>struct_fields := fs\<rparr>) (collect (trace_mut_field_type func) (struct_fields t))"

definition trace_mut_composite_type ::
  "'e rewriter \<Rightarrow> WasmCompositeType \<Rightarrow> ('e, WasmCompositeType) outcome" where
  "trace_mut_composite_type func c = (case composite_inner c of
       CT_Func t \<Rightarrow> map_ok (\<lambda>u. c\<lparr>composite_inner := CT_Func u\<rparr>) (trace_mut_func_type func t)
     | CT_Array t \<Rightarrow> map_ok (\<lambda>u. c\<lparr>composite_inner := CT_Array u\<rparr>) (trace_mut_array_type func t)
     | CT_Struct t \<Rightarrow> map_ok (\<lambda>u. c\<lparr>composite_inner := CT_Struct u\<rparr>) (trace_mut_struct_type func t))"

definition trace_mut_sub_type :: "'e rewriter \<Rightarrow> WasmSubType \<Rightarrow> ('e, WasmSubType) outcome" where
  "trace_mut_sub_type func t =
     and_then (case supertype t of Some sup_idx \<Rightarrow> map_ok Some (func sup_idx) | None \<Rightarrow> Ok None)
       (\<lambda>super. and_then (trace_mut_composite_type func (composite_type t))
         (\<lambda>c. Ok (t\<lparr>supertype := super, composite_type := c\<rparr>)))"

subsection \<open>Canonicalization\<close>

text \<open>The closure of \<open>canonicalize_for_runtime_usage\<close>; \<open>unreachable!()\<close> panics.\<close>

fun canonicalize_index_for_runtime_usage ::
  "(ModuleInternedTypeIndex \<Rightarrow> ('e, VMSharedTypeIndex) outcome) \<Rightarrow> 'e rewriter" where
  "canonicalize_index_for_runtime_usage module_to_engine (Shared i) = Ok (Shared i)"
| "canonicalize_index_for_runtime_usage module_to_engine (RecGroup i) =
     Panic ''internal error: entered unreachable code''"
| "canonicalize_index_for_runtime_usage module_to_engine (Module i) =
     map_ok Shared (module_to_engine i)"

definition canonicalize_for_runtime_usage ::
  "(ModuleInternedTypeIndex \<Rightarrow> ('e, VMSharedTypeIndex) outcome) \<Rightarrow> WasmSubType \<Rightarrow>
     ('e, WasmSubType) outcome" where
  "canonicalize_for_runtime_usage module_to_engine =
     trace_mut_sub_type (canonicalize_index_for_runtime_usage module_to_engine)"

text \<open>
  The closure of \<open>canonicalize_for_hash_consing\<close>: indices at or above the start of the rec group
  become relative to it, older ones become engine indices.
\<close>

fun canonicalize_index_for_hash_consing ::
  "nat \<times> nat \<Rightarrow> (ModuleInternedTypeIndex \<Rightarrow> ('e, VMSharedTypeIndex) outcome) \<Rightarrow> 'e rewriter" where
  "canonicalize_index_for_hash_consing rec_group_range module_to_engine (Shared i) = Ok (Shared i)"
| "canonicalize_index_for_hash_consing rec_group_range module_to_engine (RecGroup i) =
     Panic ''internal error: entered unreachable code''"
| "canonicalize_index_for_hash_consing rec_group_range module_to_engine (Module module_index) =
     (if fst rec_group_range \<le> module_index
      then and_then
             (assert_that (module_index < snd rec_group_range)
                ''assertion failed: module_index < rec_group_range.end'')
             (\<lambda>_. Ok (RecGroup (module_index - fst rec_group_range)))
      else map_ok Shared (module_to_engine module_index))"

definition canonicalize_for_hash_consing ::
  "nat \<times> nat \<Rightarrow> (ModuleInternedTypeIndex \<Rightarrow> ('e, VMSharedTypeIndex) outcome) \<Rightarrow> WasmSubType \<Rightarrow>
     ('e, WasmSubType) outcome" where
  "canonicalize_for_hash_consing rec_group_range module_to_engine =
     trace_mut_sub_type (canonicalize_index_for_hash_consing rec_group_range module_to_engine)"

fun check_runtime_index :: "(unit, unit) visitor" where
  "check_runtime_index s (Shared i) = Ok ()"
| "check_runtime_index s (Module i) = Err ()"
| "check_runtime_index s (RecGroup i) = Err ()"

definition is_canonicalized_for_runtime_usage :: "WasmSubType \<Rightarrow> bool" where
  "is_canonicalized_for_runtime_usage t = is_ok (trace_sub_type check_runtime_index () t)"

fun check_hash_consing_index :: "(unit, unit) visitor" where
  "check_hash_consing_index s (Shared i) = Ok ()"
| "check_hash_consing_index s (RecGroup i) = Ok ()"
| "check_hash_consing_index s (Module i) = Err ()"

definition is_canonicalized_for_hash_consing :: "WasmRecGroup \<Rightarrow> bool" where
  "is_canonicalized_for_hash_consing g = is_ok (trace_rec_group check_hash_consing_index () g)"

section \<open>Edges: what a trace visits\<close>

definition edges_heap_type :: "WasmHeapType \<Rightarrow> CanonicalizedTypeIndex list" where
  "edges_heap_type h = (case ht_ty h of
       HT_ConcreteFunc i \<Rightarrow> [i] | HT_ConcreteArray i \<Rightarrow> [i] | HT_ConcreteStruct i \<Rightarrow> [i] | _ \<Rightarrow> [])"

fun edges_val_type :: "WasmValType \<Rightarrow> CanonicalizedTypeIndex list" where
  "edges_val_type (Ref r) = edges_heap_type (heap_type r)"
| "edges_val_type _ = []"

fun edges_storage_type :: "WasmStorageType \<Rightarrow> CanonicalizedTypeIndex list" where
  "edges_storage_type (SVal v) = edges_val_type v"
| "edges_storage_type _ = []"

definition edges_field_type :: "WasmFieldType \<Rightarrow> CanonicalizedTypeIndex list" where
  "edges_field_type f = edges_storage_type (element_type f)"

fun edges_array_type :: "WasmArrayType \<Rightarrow> CanonicalizedTypeIndex list" where
  "edges_array_type (WasmArrayType f) = edges_field_type f"

definition edges_composite_type :: "WasmCompositeType \<Rightarrow> CanonicalizedTypeIndex list" where
  "edges_composite_type c = (case composite_inner c of
       CT_Func t \<Rightarrow> concat (map edges_val_type (params t)) @ concat (map edges_val_type (results t))
     | CT_Array t \<Rightarrow> edges_array_type t
     | CT_Struct t \<Rightarrow> concat (map edges_field_type (struct_fields t)))"

definition edges_sub_type :: "WasmSubType \<Rightarrow> CanonicalizedTypeIndex list" where
  "edges_sub_type t =
     (case supertype t of Some sup_idx \<Rightarrow> [sup_idx] | None \<Rightarrow> []) @ edges_composite_type (composite_type t)"

fun edges_rec_group :: "WasmRecGroup \<Rightarrow> CanonicalizedTypeIndex list" where
  "edges_rec_group (WasmRecGroup ts) = concat (map edges_sub_type ts)"

named_theorems trace_defs \<open>definitions of the trace functions and of the edges\<close>

lemmas trace_fun_defs [trace_defs] =
  trace_heap_type_def trace_ref_type_def trace_field_type_def trace_func_type_def
  trace_struct_type_def trace_composite_type_def trace_sub_type_def

lemmas edges_defs [trace_defs] =
  edges_heap_type_def edges_field_type_def edges_composite_type_def edges_sub_type_def

lemmas trace_mut_fun_defs =
  trace_mut_heap_type_def trace_mut_ref_type_def trace_mut_field_type_def trace_mut_func_type_def
  trace_mut_struct_type_def trace_mut_composite_type_def trace_mut_sub_type_def

lemma for_each_concat:
  assumes "\<And>s x. x \<in> set xs \<Longrightarrow> g s x = for_each f s (h x)"
  shows "for_each g s xs = for_each f s (concat (map h xs))"
  using assms by (induction xs arbitrary: s) (auto simp: for_each_append)

lemma trace_heap_type_edges: "trace_heap_type f s h = for_each f s (edges_heap_type h)"
  by (auto simp: trace_heap_type_def edges_heap_type_def split: WasmHeapTypeInner.splits)

lemma trace_val_type_edges: "trace_val_type f s t = for_each f s (edges_val_type t)"
  by (cases t) (auto simp: trace_ref_type_def trace_heap_type_edges)

lemma trace_field_type_edges: "trace_field_type f s t = for_each f s (edges_field_type t)"
  by (cases "element_type t")
    (auto simp: trace_field_type_def edges_field_type_def trace_val_type_edges)

lemma trace_composite_type_edges:
  "trace_composite_type f s c = for_each f s (edges_composite_type c)"
proof (cases "composite_inner c")
  case (CT_Func t)
  then show ?thesis
    by (simp add: trace_composite_type_def trace_func_type_def edges_composite_type_def
        for_each_append for_each_concat [of _ _ f edges_val_type] trace_val_type_edges)
next
  case (CT_Array t)
  then show ?thesis
    by (cases t) (simp add: trace_composite_type_def edges_composite_type_def trace_field_type_edges)
next
  case (CT_Struct t)
  then show ?thesis
    by (simp add: trace_composite_type_def trace_struct_type_def edges_composite_type_def
        for_each_concat [of _ _ f edges_field_type] trace_field_type_edges)
qed

lemma trace_sub_type_edges: "trace_sub_type f s t = for_each f s (edges_sub_type t)"
  by (cases "supertype t")
    (simp_all add: trace_sub_type_def edges_sub_type_def trace_composite_type_edges)

lemma trace_rec_group_edges: "trace_rec_group f s g = for_each f s (edges_rec_group g)"
  by (cases g) (simp add: for_each_concat [of _ _ f edges_sub_type] trace_sub_type_edges)

subsection \<open>Rewriting maps the edges\<close>

lemma collect_append:
  "collect f (xs @ ys) =
     and_then (collect f xs) (\<lambda>us. and_then (collect f ys) (\<lambda>vs. Ok (us @ vs)))"
  by (induction xs) (auto simp: outcome_simps)

text \<open>If the rewriter succeeds on a container, it succeeded on its edges, and they were mapped.\<close>

lemma trace_mut_heap_type_edges:
  "trace_mut_heap_type f h = Ok h' \<Longrightarrow> collect f (edges_heap_type h) = Ok (edges_heap_type h')"
  by (auto simp: trace_mut_heap_type_def edges_heap_type_def split: WasmHeapTypeInner.splits)

lemma trace_mut_val_type_edges:
  "trace_mut_val_type f t = Ok t' \<Longrightarrow> collect f (edges_val_type t) = Ok (edges_val_type t')"
  by (cases t) (auto simp: trace_mut_ref_type_def dest: trace_mut_heap_type_edges)

lemma trace_mut_field_type_edges:
  "trace_mut_field_type f t = Ok t' \<Longrightarrow> collect f (edges_field_type t) = Ok (edges_field_type t')"
  by (cases "element_type t")
    (auto simp: trace_mut_field_type_def edges_field_type_def dest: trace_mut_val_type_edges)

lemma collect_concat_edges:
  assumes "\<And>x y. x \<in> set xs \<Longrightarrow> g x = Ok y \<Longrightarrow> collect f (h x) = Ok (h y)"
    and "collect g xs = Ok ys"
  shows "collect f (concat (map h xs)) = Ok (concat (map h ys))"
  using assms by (induction xs arbitrary: ys) (auto simp: collect_append)

lemma trace_mut_composite_type_edges:
  assumes "trace_mut_composite_type f c = Ok c'"
  shows "collect f (edges_composite_type c) = Ok (edges_composite_type c')"
proof (cases "composite_inner c")
  case (CT_Func t)
  with assms obtain ps rs where
    "collect (trace_mut_val_type f) (params t) = Ok ps"
    "collect (trace_mut_val_type f) (results t) = Ok rs"
    "c' = c\<lparr>composite_inner := CT_Func (t\<lparr>params := ps, results := rs\<rparr>)\<rparr>"
    by (auto simp: trace_mut_composite_type_def trace_mut_func_type_def)
  with CT_Func show ?thesis
    by (simp add: edges_composite_type_def collect_append
        collect_concat_edges [of _ "trace_mut_val_type f", OF trace_mut_val_type_edges])
next
  case (CT_Array t)
  then show ?thesis using assms
    by (cases t) (auto simp: trace_mut_composite_type_def edges_composite_type_def
        dest: trace_mut_field_type_edges)
next
  case (CT_Struct t)
  then show ?thesis using assms
    by (auto simp: trace_mut_composite_type_def trace_mut_struct_type_def edges_composite_type_def
        collect_concat_edges [of _ "trace_mut_field_type f", OF trace_mut_field_type_edges])
qed

lemma trace_mut_sub_type_edges:
  assumes "trace_mut_sub_type f t = Ok t'"
  shows "collect f (edges_sub_type t) = Ok (edges_sub_type t')"
  using assms
  by (cases "supertype t")
    (auto simp: trace_mut_sub_type_def edges_sub_type_def dest: trace_mut_composite_type_edges)

text \<open>Conversely, if the rewriter succeeds on every edge, it succeeds on the container.\<close>

lemma collect_exists:
  "(\<And>x. x \<in> set xs \<Longrightarrow> \<exists>y. f x = Ok y) \<Longrightarrow> \<exists>ys. collect f xs = Ok ys"
  by (induction xs) auto

lemma trace_mut_val_type_total:
  assumes "\<And>i. i \<in> set (edges_val_type t) \<Longrightarrow> \<exists>j. f i = Ok j"
  shows "\<exists>t'. trace_mut_val_type f t = Ok t'"
  using assms
  by (cases t)
    (auto simp: trace_mut_ref_type_def trace_mut_heap_type_def edges_heap_type_def
      split: WasmHeapTypeInner.splits)

lemma trace_mut_field_type_total:
  assumes "\<And>i. i \<in> set (edges_field_type t) \<Longrightarrow> \<exists>j. f i = Ok j"
  shows "\<exists>t'. trace_mut_field_type f t = Ok t'"
proof (cases "element_type t")
  case (SVal v)
  with assms have "\<exists>v'. trace_mut_val_type f v = Ok v'"
    by (intro trace_mut_val_type_total) (simp add: edges_field_type_def)
  with SVal show ?thesis by (auto simp: trace_mut_field_type_def)
qed (simp_all add: trace_mut_field_type_def)

lemma trace_mut_composite_type_total:
  assumes "\<And>i. i \<in> set (edges_composite_type c) \<Longrightarrow> \<exists>j. f i = Ok j"
  shows "\<exists>c'. trace_mut_composite_type f c = Ok c'"
proof (cases "composite_inner c")
  case (CT_Func t)
  with assms have "\<exists>ps. collect (trace_mut_val_type f) (params t) = Ok ps"
    and "\<exists>rs. collect (trace_mut_val_type f) (results t) = Ok rs"
    by (auto intro!: collect_exists trace_mut_val_type_total simp: edges_composite_type_def)
  with CT_Func show ?thesis
    by (auto simp: trace_mut_composite_type_def trace_mut_func_type_def)
next
  case (CT_Array t)
  obtain ft where ft: "t = WasmArrayType ft" by (cases t)
  with CT_Array assms have "\<exists>ft'. trace_mut_field_type f ft = Ok ft'"
    by (intro trace_mut_field_type_total) (simp add: edges_composite_type_def)
  with CT_Array ft show ?thesis by (auto simp: trace_mut_composite_type_def)
next
  case (CT_Struct t)
  with assms have "\<exists>fs. collect (trace_mut_field_type f) (struct_fields t) = Ok fs"
    by (auto intro!: collect_exists trace_mut_field_type_total simp: edges_composite_type_def)
  with CT_Struct show ?thesis
    by (auto simp: trace_mut_composite_type_def trace_mut_struct_type_def)
qed

lemma trace_mut_sub_type_total:
  assumes "\<And>i. i \<in> set (edges_sub_type t) \<Longrightarrow> \<exists>j. f i = Ok j"
  shows "\<exists>t'. trace_mut_sub_type f t = Ok t'"
proof -
  have "\<exists>c'. trace_mut_composite_type f (composite_type t) = Ok c'"
    using assms by (intro trace_mut_composite_type_total) (simp add: edges_sub_type_def)
  then show ?thesis using assms
    by (cases "supertype t") (auto simp: trace_mut_sub_type_def edges_sub_type_def)
qed

end
