(* ===== verification/Entities.thy ===== *)
theory Entities
  imports Wasm_Types
begin

text \<open>
  Descriptions of the entities of a module (\<open>TableDesc\<close>, \<open>MemoryDesc\<close>, \<open>GlobalDesc\<close> of
  \<open>src/src/translate/mod.rs\<close>, \<open>EntityType\<close> of \<open>src/src/translate/types.rs\<close>), the trap codes
  of \<open>src/src/trap.rs\<close> and the crate's error type (\<open>src/src/errors.rs\<close>), which mentions both.
  The lemmas show the byte-size arithmetic of a memory description and the two round trips of the
  trap encoding.
\<close>

section \<open>Descriptions\<close>

record TableDesc =
  table_element_type :: WasmRefType
  table64 :: bool
  table_minimum :: nat
  table_maximum :: "nat option"
  table_shared :: bool

record MemoryDesc =
  memory_minimum :: nat
  memory_maximum :: "nat option"
  offset_guard_size :: nat
  page_size_log2 :: nat
  memory64 :: bool
  memory_shared :: bool

record GlobalDesc =
  content_type :: WasmValType
  global_mutable :: bool
  global_shared :: bool

datatype EntityType =
    ET_Function CanonicalizedTypeIndex
  | ET_Table TableDesc
  | ET_Memory MemoryDesc
  | ET_Global GlobalDesc

section \<open>Traps\<close>

datatype Trap =
    InternalAssertionFailed | HeapMisaligned | TableOutOfBounds | IndirectCallToNull
  | BadSignature | UnreachableCodeReached | NullReference | NullI31Ref
  | StackOverflow | MemoryOutOfBounds | IntegerOverflow | IntegerDivisionByZero
  | BadConversionToInteger

text \<open>\<open>impl From<Trap> for u8\<close>; the \<open>as u8\<close> discriminants of the first eight variants agree.\<close>

fun trap_to_u8 :: "Trap \<Rightarrow> nat" where
  "trap_to_u8 InternalAssertionFailed = 0"
| "trap_to_u8 HeapMisaligned = 1"
| "trap_to_u8 TableOutOfBounds = 2"
| "trap_to_u8 IndirectCallToNull = 3"
| "trap_to_u8 BadSignature = 4"
| "trap_to_u8 UnreachableCodeReached = 5"
| "trap_to_u8 NullReference = 6"
| "trap_to_u8 NullI31Ref = 7"
| "trap_to_u8 StackOverflow = 8"
| "trap_to_u8 MemoryOutOfBounds = 9"
| "trap_to_u8 IntegerOverflow = 10"
| "trap_to_u8 IntegerDivisionByZero = 11"
| "trap_to_u8 BadConversionToInteger = 12"

definition trap_try_from_u8 :: "nat \<Rightarrow> Trap option" where
  "trap_try_from_u8 value =
     (if value = 0 then Some InternalAssertionFailed
      else if value = 1 then Some HeapMisaligned
      else if value = 2 then Some TableOutOfBounds
      else if value = 3 then Some IndirectCallToNull
      else if value = 4 then Some BadSignature
      else if value = 5 then Some UnreachableCodeReached
      else if value = 6 then Some NullReference
      else if value = 7 then Some NullI31Ref
      else if value = 8 then Some StackOverflow
      else if value = 9 then Some MemoryOutOfBounds
      else if value = 10 then Some IntegerOverflow
      else if value = 11 then Some IntegerDivisionByZero
      else if value = 12 then Some BadConversionToInteger
      else None)"

text \<open>
  Cranelift's \<open>TrapCode\<close> is either one of its five reserved codes or a user code, a
  non-zero \<open>u8\<close>; \<open>TrapCode::unwrap_user\<close> builds the latter.
\<close>

datatype TrapCode =
    STACK_OVERFLOW | HEAP_OUT_OF_BOUNDS | INTEGER_OVERFLOW | INTEGER_DIVISION_BY_ZERO
  | BAD_CONVERSION_TO_INTEGER | UserTrap nat

definition TRAP_OFFSET :: nat where
  "TRAP_OFFSET = 1"

definition user_trap_code :: "Trap \<Rightarrow> TrapCode" where
  "user_trap_code t = UserTrap (trap_to_u8 t + TRAP_OFFSET)"

definition TRAP_INTERNAL_ASSERT :: TrapCode where
  "TRAP_INTERNAL_ASSERT = user_trap_code InternalAssertionFailed"
definition TRAP_HEAP_MISALIGNED :: TrapCode where
  "TRAP_HEAP_MISALIGNED = user_trap_code HeapMisaligned"
definition TRAP_TABLE_OUT_OF_BOUNDS :: TrapCode where
  "TRAP_TABLE_OUT_OF_BOUNDS = user_trap_code TableOutOfBounds"
definition TRAP_INDIRECT_CALL_TO_NULL :: TrapCode where
  "TRAP_INDIRECT_CALL_TO_NULL = user_trap_code IndirectCallToNull"
definition TRAP_BAD_SIGNATURE :: TrapCode where
  "TRAP_BAD_SIGNATURE = user_trap_code BadSignature"
definition TRAP_UNREACHABLE :: TrapCode where
  "TRAP_UNREACHABLE = user_trap_code UnreachableCodeReached"
definition TRAP_NULL_REFERENCE :: TrapCode where
  "TRAP_NULL_REFERENCE = user_trap_code NullReference"
definition TRAP_I31_NULL_REFERENCE :: TrapCode where
  "TRAP_I31_NULL_REFERENCE = user_trap_code NullI31Ref"

lemmas trap_code_defs =
  user_trap_code_def TRAP_OFFSET_def TRAP_INTERNAL_ASSERT_def TRAP_HEAP_MISALIGNED_def
  TRAP_TABLE_OUT_OF_BOUNDS_def TRAP_INDIRECT_CALL_TO_NULL_def TRAP_BAD_SIGNATURE_def
  TRAP_UNREACHABLE_def TRAP_NULL_REFERENCE_def TRAP_I31_NULL_REFERENCE_def

definition from_trap_code :: "TrapCode \<Rightarrow> Trap option" where
  "from_trap_code code =
     (if code = STACK_OVERFLOW then Some StackOverflow
      else if code = HEAP_OUT_OF_BOUNDS then Some MemoryOutOfBounds
      else if code = INTEGER_OVERFLOW then Some IntegerOverflow
      else if code = INTEGER_DIVISION_BY_ZERO then Some IntegerDivisionByZero
      else if code = BAD_CONVERSION_TO_INTEGER then Some BadConversionToInteger
      else if code = TRAP_INTERNAL_ASSERT then Some InternalAssertionFailed
      else if code = TRAP_HEAP_MISALIGNED then Some HeapMisaligned
      else if code = TRAP_TABLE_OUT_OF_BOUNDS then Some TableOutOfBounds
      else if code = TRAP_INDIRECT_CALL_TO_NULL then Some IndirectCallToNull
      else if code = TRAP_BAD_SIGNATURE then Some BadSignature
      else if code = TRAP_UNREACHABLE then Some UnreachableCodeReached
      else if code = TRAP_NULL_REFERENCE then Some NullReference
      else if code = TRAP_I31_NULL_REFERENCE then Some NullI31Ref
      else None)"

section \<open>Errors\<close>

text \<open>Payloads that belong to other crates (\<open>gimli\<close>, \<open>wat\<close>) are kept as strings.\<close>

datatype Error =
    InvalidWebAssembly string nat
  | MissingImport string string EntityType
  | Unsupported string
  | Cranelift string string
  | Gimli string
  | Wat string
  | TrapError Trap string
  | MmapFailed
  | AlreadyDefined string string

type_synonym 'a result = "(Error, 'a) outcome"

section \<open>Memory sizes\<close>

text \<open>Constants of \<open>src/src/lib.rs\<close>.\<close>

definition WASM32_MAX_SIZE :: nat where
  "WASM32_MAX_SIZE = 2 ^ 32"
definition DEFAULT_OFFSET_GUARD_SIZE :: nat where
  "DEFAULT_OFFSET_GUARD_SIZE = 0x80000000"
definition MEMORY_MAX :: nat where
  "MEMORY_MAX = 2 ^ 32"
definition TABLE_MAX :: nat where
  "TABLE_MAX = 2 ^ 10"
definition MAX_WASM_STACK :: nat where
  "MAX_WASM_STACK = 512 * 1024"

definition DEFAULT_PAGE_SIZE_LOG2 :: nat where
  "DEFAULT_PAGE_SIZE_LOG2 = 16"

datatype SizeOverflow = SizeOverflow

text \<open>
  \<open>page_size\<close>: the debug assertion first, then the shift \<open>1 << page_size_log2\<close> at \<open>u64\<close>.
\<close>

definition page_size :: "MemoryDesc \<Rightarrow> (SizeOverflow, nat) outcome" where
  "page_size m =
     and_then (assert_that (page_size_log2 m = 16 \<or> page_size_log2 m = 0)
                 ''invalid page_size_log2; must be 16 or 0'')
       (\<lambda>_. Ok (2 ^ page_size_log2 m))"

definition minimum_byte_size :: "MemoryDesc \<Rightarrow> (SizeOverflow, nat) outcome" where
  "minimum_byte_size m =
     and_then (page_size m) (\<lambda>p. ok_or (checked_mul u64_bound (memory_minimum m) p) SizeOverflow)"

text \<open>
  \<open>0_u64 - self.page_size()\<close> subtracts a non-zero value from zero: with overflow checks on it
  panics.
\<close>

definition max_size_based_on_index_type :: "MemoryDesc \<Rightarrow> (SizeOverflow, nat) outcome" where
  "max_size_based_on_index_type m =
     (if memory64 m then and_then (page_size m) (\<lambda>p. sub_chk 0 p) else Ok WASM32_MAX_SIZE)"

definition maximum_byte_size :: "MemoryDesc \<Rightarrow> (SizeOverflow, nat) outcome" where
  "maximum_byte_size m = (case memory_maximum m of
       Some mx \<Rightarrow>
         and_then (page_size m) (\<lambda>p. ok_or (checked_mul u64_bound mx p) SizeOverflow)
     | None \<Rightarrow>
         and_then (minimum_byte_size m)
           (\<lambda>mn. and_then (max_size_based_on_index_type m) (\<lambda>b. Ok (max mn b))))"

definition page_size_valid :: "MemoryDesc \<Rightarrow> bool" where
  "page_size_valid m \<longleftrightarrow> page_size_log2 m = 16 \<or> page_size_log2 m = 0"

lemma page_size_Ok: "page_size_valid m \<Longrightarrow> page_size m = Ok (2 ^ page_size_log2 m)"
  by (auto simp: page_size_def page_size_valid_def)

lemma minimum_byte_size_eq:
  "page_size_valid m \<Longrightarrow> minimum_byte_size m =
     (if memory_minimum m * 2 ^ page_size_log2 m < u64_bound
      then Ok (memory_minimum m * 2 ^ page_size_log2 m) else Err SizeOverflow)"
  by (simp add: minimum_byte_size_def page_size_Ok checked_mul_def)

text \<open>For a 32-bit memory without a declared maximum the effective maximum covers the minimum.\<close>

lemma maximum_byte_size_no_max:
  assumes "page_size_valid m" "memory_maximum m = None" "\<not> memory64 m"
    and "memory_minimum m * 2 ^ page_size_log2 m < u64_bound"
  shows "maximum_byte_size m = Ok (max (memory_minimum m * 2 ^ page_size_log2 m) (2 ^ 32))"
  using assms
  by (simp add: maximum_byte_size_def minimum_byte_size_eq max_size_based_on_index_type_def
      WASM32_MAX_SIZE_def)

section \<open>Properties\<close>

text \<open>The conversions between traps and their codes are inverse to each other: a byte decodes to a trap
  exactly when the trap encodes to that byte; the code generator's code for each of the eight user
  traps decodes to that trap; and no two trap codes decode to the same trap.
\<close>

theorem trap_codes_round_trip:
  "(trap_try_from_u8 n = Some t \<longleftrightarrow> n = trap_to_u8 t) \<and>
   (from_trap_code (user_trap_code t) = Some t \<longleftrightarrow> trap_to_u8 t < 8) \<and>
   (from_trap_code c = Some t \<and> from_trap_code d = Some t \<longrightarrow> c = d)"
proof (intro conjI impI)
  show "trap_try_from_u8 n = Some t \<longleftrightarrow> n = trap_to_u8 t"
    by (cases t) (auto simp: trap_try_from_u8_def)
  show "from_trap_code (user_trap_code t) = Some t \<longleftrightarrow> trap_to_u8 t < 8"
    by (cases t) (auto simp: from_trap_code_def trap_code_defs)
  show "c = d" if "from_trap_code c = Some t \<and> from_trap_code d = Some t"
    using that by (cases t) (auto simp: from_trap_code_def trap_code_defs split: if_splits)
qed

theorem trap_codes_round_trip_witness:
  "from_trap_code (UserTrap 3) = Some TableOutOfBounds \<and>
   {c. from_trap_code c = Some TableOutOfBounds} = {UserTrap 3}"
proof -
  have "from_trap_code (UserTrap 3) = Some TableOutOfBounds"
    by (simp add: from_trap_code_def trap_code_defs)
  then show ?thesis
    using trap_codes_round_trip [where t = TableOutOfBounds and d = "UserTrap 3"] by blast
qed

text \<open>The size arithmetic of memories: for a valid page size and limits in order, no size computation
  panics, and when the maximum size is representable so is the minimum, which is not larger. Only
  64-bit memories without a declared maximum are excluded.
\<close>

theorem memory_sizes_ordered:
  assumes "page_size_valid m"
    and "case memory_maximum m of Some mx \<Rightarrow> memory_minimum m \<le> mx | None \<Rightarrow> \<not> memory64 m"
  shows "\<not> is_panic (minimum_byte_size m) \<and> \<not> is_panic (maximum_byte_size m) \<and>
    (\<forall>mx. maximum_byte_size m = Ok mx \<longrightarrow>
       (\<exists>mn. minimum_byte_size m = Ok mn \<and> mn \<le> mx \<and> mx < 2 ^ 64))"
proof (cases "memory_maximum m")
  case None
  with assms show ?thesis
    by (auto simp: maximum_byte_size_def minimum_byte_size_eq max_size_based_on_index_type_def
        WASM32_MAX_SIZE_def)
next
  case (Some mx)
  with assms have "memory_minimum m * 2 ^ page_size_log2 m < b" if "mx * 2 ^ page_size_log2 m < b" for b
    using that by (auto intro: le_less_trans [OF mult_le_mono1])
  with Some assms show ?thesis
    by (auto simp: maximum_byte_size_def minimum_byte_size_eq page_size_Ok checked_mul_def split: if_splits)
qed

definition one_page :: MemoryDesc where
  "one_page = \<lparr>memory_minimum = 1, memory_maximum = Some 2, offset_guard_size = 0,
     page_size_log2 = 16, memory64 = False, memory_shared = False\<rparr>"

theorem memory_sizes_ordered_witness:
  "maximum_byte_size one_page = Ok 131072 \<and> (\<exists>mn. minimum_byte_size one_page = Ok mn \<and> mn \<le> 131072)"
proof -
  have "maximum_byte_size one_page = Ok 131072"
    by (simp add: one_page_def maximum_byte_size_def page_size_def checked_mul_def)
  moreover have "page_size_valid one_page"
    "case memory_maximum one_page of Some mx \<Rightarrow> memory_minimum one_page \<le> mx | None \<Rightarrow> \<not> memory64 one_page"
    by (simp_all add: one_page_def page_size_valid_def)
  ultimately show ?thesis using memory_sizes_ordered [of one_page] by blast
qed

text \<open>A 64-bit memory without a declared maximum cannot be sized: the subtraction that is meant to wrap
  around is checked and panics.
\<close>

theorem memory64_without_maximum_panics:
  assumes "page_size_valid m" and "memory_maximum m = None" and "memory64 m"
    and "minimum_byte_size m = Ok mn"
  shows "maximum_byte_size m = Panic ''attempt to subtract with overflow''"
  using assms
  by (simp add: maximum_byte_size_def max_size_based_on_index_type_def page_size_Ok sub_chk_def)

theorem memory64_without_maximum_panics_witness:
  "maximum_byte_size (one_page\<lparr>memory_maximum := None, memory64 := True\<rparr>) =
     Panic ''attempt to subtract with overflow''"
  by (rule memory64_without_maximum_panics [where mn = 65536])
    (simp_all add: one_page_def page_size_valid_def minimum_byte_size_def page_size_def checked_mul_def)

end
