(* ===== verification/Module_Types.thy ===== *)
theory Module_Types
  imports Entities
begin

text \<open>
  Module-level type canonicalization: \<open>src/src/translate/module_types.rs\<close> (the interner
  \<open>ModuleTypesBuilder\<close>) and \<open>src/src/translate/type_convert.rs\<close> (the converter from
  \<open>wasmparser\<close> types).

  The \<open>wasmparser\<close> crate is not part of the repository: its type syntax is the input data below
  (the variants are those the converter matches on), and the validator's type information is the
  record \<open>TypesRef\<close>, a parameter of the definitions. The lemmas show that interning keeps the
  builder's invariant: the recursion groups tile the type list, every interned identifier points
  into it, and every type reference inside a group points below the end of that group.
\<close>

section \<open>The wasmparser input\<close>

type_synonym CoreTypeId = nat
type_synonym RecGroupId = nat

datatype UnpackedIndex = UModule nat | URecGroup nat | UId CoreTypeId

datatype AbstractHeapType =
    A_Func | A_Extern | A_Any | A_None | A_NoExtern | A_NoFunc | A_Eq | A_Struct | A_Array
  | A_I31 | A_Exn | A_NoExn | A_Cont | A_NoCont

datatype wp_HeapType = WP_Concrete UnpackedIndex | WP_Abstract bool AbstractHeapType

record wp_RefType =
  wp_is_nullable :: bool
  wp_heap_type :: wp_HeapType

datatype wp_ValType = WP_I32 | WP_I64 | WP_F32 | WP_F64 | WP_V128 | WP_Ref wp_RefType

datatype wp_StorageType = WP_SI8 | WP_SI16 | WP_SVal wp_ValType

record wp_FieldType =
  wp_mutable :: bool
  wp_element_type :: wp_StorageType

record wp_FuncType =
  wp_params :: "wp_ValType list"
  wp_results :: "wp_ValType list"

datatype wp_CompositeInnerType =
    WP_Func wp_FuncType
  | WP_Array wp_FieldType
  | WP_Struct "wp_FieldType list"
  | WP_Cont

record wp_CompositeType =
  wp_inner :: wp_CompositeInnerType
  wp_shared :: bool

record wp_SubType =
  wp_is_final :: bool
  wp_supertype_idx :: "UnpackedIndex option"
  wp_composite_type :: wp_CompositeType

text \<open>The validator's view of the types of the module under translation.\<close>

record TypesRef =
  types_id :: nat
  rec_group_elements_of :: "RecGroupId \<Rightarrow> CoreTypeId list"
  sub_type_of :: "CoreTypeId \<Rightarrow> wp_SubType"
  core_type_at_in_module :: "nat \<Rightarrow> CoreTypeId"
  rec_group_id_of :: "CoreTypeId \<Rightarrow> RecGroupId"

section \<open>Interned types\<close>

record ModuleTypes =
  wasm_types :: "WasmSubType list"
  rec_groups :: "(nat \<times> nat) list"
  seen_types :: "CoreTypeId \<rightharpoonup> ModuleInternedTypeIndex"

definition module_types_default :: ModuleTypes where
  "module_types_default = \<lparr>wasm_types = [], rec_groups = [], seen_types = Map.empty\<rparr>"

definition len_wasm_types :: "ModuleTypes \<Rightarrow> nat" where
  "len_wasm_types t = length (wasm_types t)"

definition get_wasm_type :: "ModuleTypes \<Rightarrow> ModuleInternedTypeIndex \<Rightarrow> WasmSubType option" where
  "get_wasm_type t i = pm_get (wasm_types t) i"

definition rec_group_elements ::
  "ModuleTypes \<Rightarrow> ModuleInternedRecGroupIndex \<Rightarrow> (ModuleInternedTypeIndex list) result" where
  "rec_group_elements t g =
     map_ok (\<lambda>rng. [fst rng ..< snd rng]) (pm_index (rec_groups t) g)"

section \<open>The type converter\<close>

text \<open>
  \<open>WasmparserTypeConverter\<close> borrows the interned types and the module; of the module it reads
  only \<open>module.types\<close>, the second argument here.
\<close>

definition concrete_heap_type :: "WasmSubType \<Rightarrow> ModuleInternedTypeIndex \<Rightarrow> WasmHeapType" where
  "concrete_heap_type ty index =
     (case composite_inner (composite_type ty) of
        CT_Func _ \<Rightarrow>
          heap_type_new (composite_shared (composite_type ty)) (HT_ConcreteFunc (Module index))
      | CT_Array _ \<Rightarrow>
          heap_type_new (composite_shared (composite_type ty)) (HT_ConcreteArray (Module index))
      | CT_Struct _ \<Rightarrow>
          heap_type_new (composite_shared (composite_type ty)) (HT_ConcreteStruct (Module index)))"

fun lookup_type_index ::
  "ModuleTypes \<Rightarrow> ModuleInternedTypeIndex list \<Rightarrow> UnpackedIndex \<Rightarrow>
     ModuleInternedTypeIndex result" where
  "lookup_type_index types module_types (UModule index) = pm_index module_types index"
| "lookup_type_index types module_types (UId i) = expect (seen_types types i) ''no entry found for key''"
| "lookup_type_index types module_types (URecGroup _) =
     Panic ''internal error: entered unreachable code''"

fun lookup_heap_type ::
  "ModuleTypes \<Rightarrow> ModuleInternedTypeIndex list \<Rightarrow> UnpackedIndex \<Rightarrow> WasmHeapType result" where
  "lookup_heap_type types module_types (UModule module_index) =
     and_then (pm_index module_types module_index)
       (\<lambda>index. case get_wasm_type types index of
          Some ty \<Rightarrow> Ok (concrete_heap_type ty index)
        | None \<Rightarrow> Panic ''not yet implemented'')"
| "lookup_heap_type types module_types (UId i) =
     and_then (expect (seen_types types i) ''no entry found for key'')
       (\<lambda>index. case get_wasm_type types index of
          Some ty \<Rightarrow> Ok (concrete_heap_type ty index)
        | None \<Rightarrow> Panic ''not yet implemented'')"
| "lookup_heap_type types module_types (URecGroup _) =
     Panic ''internal error: entered unreachable code''"

fun convert_abstract_heap_type :: "AbstractHeapType \<Rightarrow> WasmHeapTypeInner" where
  "convert_abstract_heap_type A_Func = HT_Func"
| "convert_abstract_heap_type A_Extern = HT_Extern"
| "convert_abstract_heap_type A_Any = HT_Any"
| "convert_abstract_heap_type A_None = HT_None"
| "convert_abstract_heap_type A_NoExtern = HT_NoExtern"
| "convert_abstract_heap_type A_NoFunc = HT_NoFunc"
| "convert_abstract_heap_type A_Eq = HT_Eq"
| "convert_abstract_heap_type A_Struct = HT_Struct"
| "convert_abstract_heap_type A_Array = HT_Array"
| "convert_abstract_heap_type A_I31 = HT_I31"
| "convert_abstract_heap_type A_Exn = HT_Exn"
| "convert_abstract_heap_type A_NoExn = HT_NoExn"
| "convert_abstract_heap_type A_Cont = HT_Cont"
| "convert_abstract_heap_type A_NoCont = HT_NoCont"

fun convert_heap_type ::
  "ModuleTypes \<Rightarrow> ModuleInternedTypeIndex list \<Rightarrow> wp_HeapType \<Rightarrow> WasmHeapType result" where
  "convert_heap_type types module_types (WP_Concrete index) =
     lookup_heap_type types module_types index"
| "convert_heap_type types module_types (WP_Abstract sh ty) =
     Ok \<lparr>ht_shared = sh, ht_ty = convert_abstract_heap_type ty\<rparr>"

definition convert_ref_type ::
  "ModuleTypes \<Rightarrow> ModuleInternedTypeIndex list \<Rightarrow> wp_RefType \<Rightarrow> WasmRefType result" where
  "convert_ref_type types module_types ty =
     map_ok (\<lambda>h. \<lparr>nullable = wp_is_nullable ty, heap_type = h\<rparr>)
       (convert_heap_type types module_types (wp_heap_type ty))"

fun convert_val_type ::
  "ModuleTypes \<Rightarrow> ModuleInternedTypeIndex list \<Rightarrow> wp_ValType \<Rightarrow> WasmValType result" where
  "convert_val_type types module_types WP_I32 = Ok I32"
| "convert_val_type types module_types WP_I64 = Ok I64"
| "convert_val_type types module_types WP_F32 = Ok F32"
| "convert_val_type types module_types WP_F64 = Ok F64"
| "convert_val_type types module_types WP_V128 = Ok V128"
| "convert_val_type types module_types (WP_Ref ty) =
     map_ok Ref (convert_ref_type types module_types ty)"

fun convert_storage_type ::
  "ModuleTypes \<Rightarrow> ModuleInternedTypeIndex list \<Rightarrow> wp_StorageType \<Rightarrow> WasmStorageType result" where
  "convert_storage_type types module_types WP_SI8 = Ok SI8"
| "convert_storage_type types module_types WP_SI16 = Ok SI16"
| "convert_storage_type types module_types (WP_SVal ty) =
     map_ok SVal (convert_val_type types module_types ty)"

definition convert_field_type ::
  "ModuleTypes \<Rightarrow> ModuleInternedTypeIndex list \<Rightarrow> wp_FieldType \<Rightarrow> WasmFieldType result" where
  "convert_field_type types module_types ty =
     map_ok (\<lambda>t. \<lparr>field_mutable = wp_mutable ty, element_type = t\<rparr>)
       (convert_storage_type types module_types (wp_element_type ty))"

definition convert_struct_type ::
  "ModuleTypes \<Rightarrow> ModuleInternedTypeIndex list \<Rightarrow> wp_FieldType list \<Rightarrow>
     WasmStructType result" where
  "convert_struct_type types module_types field_tys =
     map_ok (\<lambda>fs. \<lparr>struct_fields = fs\<rparr>) (collect (convert_field_type types module_types) field_tys)"

definition convert_array_type ::
  "ModuleTypes \<Rightarrow> ModuleInternedTypeIndex list \<Rightarrow> wp_FieldType \<Rightarrow> WasmArrayType result" where
  "convert_array_type types module_types ty =
     map_ok WasmArrayType (convert_field_type types module_types ty)"

definition convert_func_type ::
  "ModuleTypes \<Rightarrow> ModuleInternedTypeIndex list \<Rightarrow> wp_FuncType \<Rightarrow> WasmFuncType result" where
  "convert_func_type types module_types ty =
     and_then (collect (convert_val_type types module_types) (wp_params ty))
       (\<lambda>ps. and_then (collect (convert_val_type types module_types) (wp_results ty))
         (\<lambda>rs. Ok \<lparr>params = ps, results = rs\<rparr>))"

definition convert_composite_type ::
  "ModuleTypes \<Rightarrow> ModuleInternedTypeIndex list \<Rightarrow> wp_CompositeType \<Rightarrow>
     WasmCompositeType result" where
  "convert_composite_type types module_types ty = (case wp_inner ty of
       WP_Func func \<Rightarrow>
         map_ok (new_func (wp_shared ty)) (convert_func_type types module_types func)
     | WP_Array array \<Rightarrow>
         map_ok (new_array (wp_shared ty)) (convert_array_type types module_types array)
     | WP_Struct strct \<Rightarrow>
         map_ok (new_struct (wp_shared ty)) (convert_struct_type types module_types strct)
     | WP_Cont \<Rightarrow> Panic ''not yet implemented'')"

definition convert_sub_type ::
  "ModuleTypes \<Rightarrow> ModuleInternedTypeIndex list \<Rightarrow> wp_SubType \<Rightarrow> WasmSubType result" where
  "convert_sub_type types module_types ty =
     and_then
       (case wp_supertype_idx ty of
          None \<Rightarrow> Ok None
        | Some index \<Rightarrow> map_ok (\<lambda>i. Some (Module i)) (lookup_type_index types module_types index))
       (\<lambda>super. and_then (convert_composite_type types module_types (wp_composite_type ty))
         (\<lambda>c. Ok \<lparr>is_final = wp_is_final ty, supertype = super, composite_type = c\<rparr>))"

section \<open>The builder\<close>

record RecGroupInProgress =
  rgp_index :: ModuleInternedRecGroupIndex
  rgp_start :: ModuleInternedTypeIndex
  rgp_end :: ModuleInternedTypeIndex

record ModuleTypesBuilder =
  validator_id :: nat
  built_types :: ModuleTypes
  seen_rec_groups :: "RecGroupId \<rightharpoonup> ModuleInternedRecGroupIndex"
  rec_group_in_progress :: "RecGroupInProgress option"

definition builder_new :: "nat \<Rightarrow> ModuleTypesBuilder" where
  "builder_new vid = \<lparr>validator_id = vid, built_types = module_types_default,
     seen_rec_groups = Map.empty, rec_group_in_progress = None\<rparr>"

definition builder_finish :: "ModuleTypesBuilder \<Rightarrow> ModuleTypes" where
  "builder_finish b = built_types b"

definition next_rec_group_index :: "ModuleTypesBuilder \<Rightarrow> ModuleInternedRecGroupIndex" where
  "next_rec_group_index b = length (rec_groups (built_types b))"

definition next_type_index :: "ModuleTypesBuilder \<Rightarrow> ModuleInternedTypeIndex" where
  "next_type_index b = length (wasm_types (built_types b))"

definition push_rec_group ::
  "ModuleTypesBuilder \<Rightarrow> nat \<times> nat \<Rightarrow> ModuleInternedRecGroupIndex \<times> ModuleTypesBuilder" where
  "push_rec_group b rng =
     (let (idx, gs) = pm_push (rec_groups (built_types b)) rng
      in (idx, b\<lparr>built_types := (built_types b)\<lparr>rec_groups := gs\<rparr>\<rparr>))"

definition push_type ::
  "ModuleTypesBuilder \<Rightarrow> WasmSubType \<Rightarrow> ModuleInternedTypeIndex \<times> ModuleTypesBuilder" where
  "push_type b ty =
     (let (idx, ts) = pm_push (wasm_types (built_types b)) ty
      in (idx, b\<lparr>built_types := (built_types b)\<lparr>wasm_types := ts\<rparr>\<rparr>))"

text \<open>One iteration of the reservation loop of \<open>start_rec_group\<close>.\<close>

definition reserve_type ::
  "nat \<Rightarrow> (CoreTypeId \<rightharpoonup> ModuleInternedTypeIndex) \<Rightarrow> nat \<times> CoreTypeId \<Rightarrow>
     (CoreTypeId \<rightharpoonup> ModuleInternedTypeIndex) result" where
  "reserve_type base seen p =
     (case p of (i, wasmparser_id) \<Rightarrow>
        and_then (assert_that (seen wasmparser_id = None) ''should not have already inserted'')
          (\<lambda>_. Ok (seen(wasmparser_id \<mapsto> base + i))))"

definition start_rec_group ::
  "TypesRef \<Rightarrow> CoreTypeId list \<Rightarrow> ModuleTypesBuilder \<Rightarrow> ModuleTypesBuilder result" where
  "start_rec_group validator_types elems b =
     and_then (assert_that (rec_group_in_progress b = None)
                 ''assertion failed: self.rec_group_in_progress.is_none()'')
     (\<lambda>_. and_then (assert_that (types_id validator_types = validator_id b)
                 ''assertion failed: validator id'')
     (\<lambda>_. and_then
        (for_each (reserve_type (len_wasm_types (built_types b)))
           (seen_types (built_types b)) (zip [0..<length elems] elems))
     (\<lambda>seen. Ok (b\<lparr>built_types := (built_types b)\<lparr>seen_types := seen\<rparr>,
        rec_group_in_progress := Some \<lparr>rgp_index = next_rec_group_index b,
          rgp_start = next_type_index b,
          rgp_end = len_wasm_types (built_types b) + length elems\<rparr>\<rparr>))))"

definition wasm_sub_type_in_rec_group ::
  "ModuleTypesBuilder \<Rightarrow> CoreTypeId \<Rightarrow> WasmSubType \<Rightarrow> ModuleTypesBuilder result" where
  "wasm_sub_type_in_rec_group b i ty =
     and_then (assert_that (rec_group_in_progress b \<noteq> None)
                 ''must be defining a rec group to define new types'')
     (\<lambda>_. case push_type b ty of (module_interned_index, b') \<Rightarrow>
        and_then (assert_that (seen_types (built_types b') i = Some module_interned_index)
                    ''should have reserved the right module-interned index'')
          (\<lambda>_. Ok b'))"

definition end_rec_group ::
  "ModuleTypesBuilder \<Rightarrow> RecGroupId \<Rightarrow>
     (ModuleInternedRecGroupIndex \<times> ModuleTypesBuilder) result" where
  "end_rec_group b0 rec_group_id =
     and_then (expect (rec_group_in_progress b0) ''should be defining a rec group'')
     (\<lambda>p. let b = b0\<lparr>rec_group_in_progress := None\<rparr> in
       and_then (assert_that (rgp_start p < len_wasm_types (built_types b))
                   ''assertion failed: start.index() < self.types.len_wasm_types()'')
       (\<lambda>_. and_then (assert_that (rgp_end p = next_type_index b)
                   ''should have defined the number of types declared in start_rec_group'')
       (\<lambda>_. case push_rec_group b (rgp_start p, rgp_end p) of (idx, b') \<Rightarrow>
         and_then (assert_that (idx = rgp_index p) ''assertion failed: idx == rec_group_index'')
         (\<lambda>_. Ok (rgp_index p,
            b'\<lparr>seen_rec_groups := (seen_rec_groups b')(rec_group_id \<mapsto> rgp_index p)\<rparr>)))))"

text \<open>The conversion loop of \<open>define_new_rec_group\<close>: convert one element and push it.\<close>

definition define_rec_group_element ::
  "ModuleInternedTypeIndex list \<Rightarrow> TypesRef \<Rightarrow> ModuleTypesBuilder \<Rightarrow> CoreTypeId \<Rightarrow>
     ModuleTypesBuilder result" where
  "define_rec_group_element module_types validator_types b i =
     and_then (convert_sub_type (built_types b) module_types (sub_type_of validator_types i))
       (wasm_sub_type_in_rec_group b i)"

definition define_new_rec_group ::
  "ModuleInternedTypeIndex list \<Rightarrow> TypesRef \<Rightarrow> RecGroupId \<Rightarrow> ModuleTypesBuilder \<Rightarrow>
     (ModuleInternedRecGroupIndex \<times> ModuleTypesBuilder) result" where
  "define_new_rec_group module_types validator_types rec_group_id b =
     and_then (start_rec_group validator_types (rec_group_elements_of validator_types rec_group_id) b)
     (\<lambda>b1. and_then
       (for_each (define_rec_group_element module_types validator_types) b1
          (rec_group_elements_of validator_types rec_group_id))
     (\<lambda>b2. end_rec_group b2 rec_group_id))"

definition intern_rec_group ::
  "ModuleInternedTypeIndex list \<Rightarrow> TypesRef \<Rightarrow> RecGroupId \<Rightarrow> ModuleTypesBuilder \<Rightarrow>
     (ModuleInternedRecGroupIndex \<times> ModuleTypesBuilder) result" where
  "intern_rec_group module_types validator_types rec_group_id b =
     and_then (assert_that (types_id validator_types = validator_id b)
                 ''assertion failed: validator id'')
     (\<lambda>_. case seen_rec_groups b rec_group_id of
        Some interned \<Rightarrow> Ok (interned, b)
      | None \<Rightarrow> define_new_rec_group module_types validator_types rec_group_id b)"

section \<open>Invariants\<close>

text \<open>The recursion groups are non-empty, adjacent ranges that cover the type list.\<close>

fun tiles :: "nat \<Rightarrow> (nat \<times> nat) list \<Rightarrow> nat \<Rightarrow> bool" where
  "tiles s [] e \<longleftrightarrow> s = e"
| "tiles s ((a, b) # gs) e \<longleftrightarrow> a = s \<and> a < b \<and> tiles b gs e"

fun index_below :: "nat \<Rightarrow> CanonicalizedTypeIndex \<Rightarrow> bool" where
  "index_below n (Module j) \<longleftrightarrow> j < n"
| "index_below n _ \<longleftrightarrow> False"

definition refs_below :: "nat \<Rightarrow> WasmSubType \<Rightarrow> bool" where
  "refs_below n t \<longleftrightarrow> list_all (index_below n) (edges_sub_type t)"

definition group_wf :: "WasmSubType list \<Rightarrow> nat \<times> nat \<Rightarrow> bool" where
  "group_wf ts g \<longleftrightarrow> list_all (\<lambda>i. refs_below (snd g) (ts ! i)) [fst g ..< snd g]"

definition module_types_wf :: "ModuleTypes \<Rightarrow> bool" where
  "module_types_wf t \<longleftrightarrow>
     tiles 0 (rec_groups t) (length (wasm_types t)) \<and>
     list_all (group_wf (wasm_types t)) (rec_groups t)"

definition builder_inv :: "ModuleTypesBuilder \<Rightarrow> bool" where
  "builder_inv b \<longleftrightarrow>
     module_types_wf (built_types b) \<and>
     ran (seen_types (built_types b)) \<subseteq> {..<length (wasm_types (built_types b))} \<and>
     ran (seen_rec_groups b) \<subseteq> {..<length (rec_groups (built_types b))} \<and>
     rec_group_in_progress b = None"

lemma tiles_append:
  "tiles s (gs @ [(e, e')]) e' \<longleftrightarrow> tiles s gs e \<and> e < e'"
  by (induction gs arbitrary: s) auto

lemma tiles_le: "tiles s gs e \<Longrightarrow> s \<le> e"
  by (induction s gs e rule: tiles.induct) auto

lemma tiles_group_bounds: "tiles s gs e \<Longrightarrow> (a, b) \<in> set gs \<Longrightarrow> s \<le> a \<and> a < b \<and> b \<le> e"
  by (induction s gs e rule: tiles.induct) (auto dest: tiles_le)

subsection \<open>Converted types refer to interned types only\<close>

definition converter_ok :: "nat \<Rightarrow> ModuleTypes \<Rightarrow> ModuleInternedTypeIndex list \<Rightarrow> bool" where
  "converter_ok n types module_types \<longleftrightarrow>
     ran (seen_types types) \<subseteq> {..<n} \<and> set module_types \<subseteq> {..<n}"

lemma lookup_type_index_below:
  "lookup_type_index types mt u = Ok j \<Longrightarrow> converter_ok n types mt \<Longrightarrow> j < n"
  by (cases u) (auto simp: converter_ok_def ran_def dest: nth_mem)

lemma lookup_heap_type_below:
  assumes "lookup_heap_type types mt u = Ok h" and "converter_ok n types mt"
  shows "list_all (index_below n) (edges_heap_type h)"
proof -
  have "\<exists>j ty. j < n \<and> h = concrete_heap_type ty j"
    using assms
    by (cases u) (auto 4 4 simp: converter_ok_def ran_def split: option.splits dest: nth_mem)
  then obtain j ty where "j < n" and "h = concrete_heap_type ty j" by blast
  then show ?thesis
    by (cases "composite_inner (composite_type ty)")
      (auto simp: concrete_heap_type_def heap_type_new_def edges_heap_type_def)
qed

lemma convert_val_type_below:
  assumes "convert_val_type types mt t = Ok t'" and ok: "converter_ok n types mt"
  shows "list_all (index_below n) (edges_val_type t')"
proof (cases t)
  case (WP_Ref r)
  with assms(1) obtain h where h: "convert_heap_type types mt (wp_heap_type r) = Ok h"
    and t': "t' = Ref \<lparr>nullable = wp_is_nullable r, heap_type = h\<rparr>"
    by (auto simp: convert_ref_type_def)
  have "list_all (index_below n) (edges_heap_type h)"
  proof (cases "wp_heap_type r")
    case (WP_Concrete u)
    with h ok show ?thesis by (auto dest: lookup_heap_type_below)
  next
    case (WP_Abstract sh a)
    with h show ?thesis by (cases a) (auto simp: edges_heap_type_def)
  qed
  with t' show ?thesis by simp
qed (use assms in auto)

lemma convert_field_type_below:
  assumes "convert_field_type types mt t = Ok t'" and "converter_ok n types mt"
  shows "list_all (index_below n) (edges_field_type t')"
  using assms
  by (cases "wp_element_type t")
    (auto simp: convert_field_type_def edges_field_type_def dest: convert_val_type_below)

lemma collect_list_all_concat:
  assumes "collect f xs = Ok ys" and "\<And>x y. f x = Ok y \<Longrightarrow> list_all P (h y)"
  shows "list_all P (concat (map h ys))"
  using assms by (induction xs arbitrary: ys) auto

lemma convert_composite_type_below:
  assumes "convert_composite_type types mt t = Ok t'" and ok: "converter_ok n types mt"
  shows "list_all (index_below n) (edges_composite_type t')"
proof (cases "wp_inner t")
  case (WP_Func f)
  with assms obtain ps rs where
    "collect (convert_val_type types mt) (wp_params f) = Ok ps"
    "collect (convert_val_type types mt) (wp_results f) = Ok rs"
    "composite_inner t' = CT_Func \<lparr>params = ps, results = rs\<rparr>"
    by (auto simp: convert_composite_type_def convert_func_type_def new_func_def)
  with ok show ?thesis
    by (auto simp: edges_composite_type_def intro!: collect_list_all_concat convert_val_type_below)
next
  case (WP_Array a)
  with assms show ?thesis
    by (auto simp: convert_composite_type_def convert_array_type_def new_array_def
        edges_composite_type_def dest: convert_field_type_below)
next
  case (WP_Struct fs)
  with assms obtain gs where
    "collect (convert_field_type types mt) fs = Ok gs"
    "composite_inner t' = CT_Struct \<lparr>struct_fields = gs\<rparr>"
    by (auto simp: convert_composite_type_def convert_struct_type_def new_struct_def)
  with ok show ?thesis
    by (auto simp: edges_composite_type_def intro!: collect_list_all_concat convert_field_type_below)
next
  case WP_Cont
  with assms show ?thesis by (simp add: convert_composite_type_def)
qed

lemma convert_sub_type_below:
  assumes "convert_sub_type types mt t = Ok t'" and "converter_ok n types mt"
  shows "refs_below n t'"
  using assms
  by (auto simp: convert_sub_type_def refs_below_def edges_sub_type_def
      split: option.splits dest!: lookup_type_index_below convert_composite_type_below)

subsection \<open>Interning keeps the invariant\<close>

lemma reserve_type_eq_Ok_iff [simp]:
  "reserve_type base seen (i, x) = Ok seen' \<longleftrightarrow> seen x = None \<and> seen' = seen(x \<mapsto> base + i)"
  by (auto simp: reserve_type_def)

lemma reserve_types_ran:
  assumes "for_each (reserve_type base) seen (zip [k..<k + length elems] elems) = Ok seen'"
    and "ran seen \<subseteq> {..<m}" and "base + k + length elems \<le> m"
  shows "ran seen' \<subseteq> {..<m}"
  using assms
proof (induction elems arbitrary: k seen)
  case Nil
  then show ?case by simp
next
  case (Cons x elems)
  have upt: "[k..<k + length (x # elems)] = k # [Suc k..<Suc k + length elems]"
    by (simp add: upt_rec)
  from Cons.prems(1) have
    rest: "for_each (reserve_type base) (seen(x \<mapsto> base + k)) (zip [Suc k..<Suc k + length elems] elems)
             = Ok seen'"
    unfolding upt by (auto simp del: upt_Suc)
  have "ran (seen(x \<mapsto> base + k)) \<subseteq> {..<m}"
    using Cons.prems(2,3) by (auto simp: ran_def)
  then show ?case by (rule Cons.IH [OF rest]) (use Cons.prems(3) in simp)
qed

text \<open>What the conversion loop keeps: only the type list grows, by types below \<open>n\<close>.\<close>

definition defining :: "nat \<Rightarrow> ModuleTypesBuilder \<Rightarrow> ModuleTypesBuilder \<Rightarrow> bool" where
  "defining n b1 b \<longleftrightarrow> (\<exists>new.
     b = b1\<lparr>built_types := (built_types b1)\<lparr>wasm_types := wasm_types (built_types b1) @ new\<rparr>\<rparr> \<and>
     list_all (refs_below n) new)"

lemma define_rec_group_element_defining:
  assumes "define_rec_group_element mt vt b i = Ok b'" and "defining n b1 b"
    and "converter_ok n (built_types b1) mt"
  shows "defining n b1 b'"
proof -
  from assms(2) obtain new where new:
    "b = b1\<lparr>built_types := (built_types b1)\<lparr>wasm_types := wasm_types (built_types b1) @ new\<rparr>\<rparr>"
    "list_all (refs_below n) new"
    by (auto simp: defining_def)
  from assms(1) obtain t where t: "convert_sub_type (built_types b) mt (sub_type_of vt i) = Ok t"
    and b': "b' = b\<lparr>built_types := (built_types b)\<lparr>wasm_types := wasm_types (built_types b) @ [t]\<rparr>\<rparr>"
    by (auto simp: define_rec_group_element_def wasm_sub_type_in_rec_group_def push_type_def
        pm_push_def)
  have "converter_ok n (built_types b) mt"
    using assms(3) new(1) by (simp add: converter_ok_def)
  with t have "refs_below n t" by (rule convert_sub_type_below)
  with new b' show ?thesis
    by (auto simp: defining_def intro!: exI [of _ "new @ [t]"])
qed

lemma group_wf_append: "snd g \<le> length ts \<Longrightarrow> group_wf ts g \<Longrightarrow> group_wf (ts @ new) g"
  by (auto simp: group_wf_def list_all_iff nth_append)

lemma define_new_rec_group_inv:
  assumes inv: "builder_inv b"
    and mt: "set mt \<subseteq> {..<length (wasm_types (built_types b))}"
    and def: "define_new_rec_group mt vt g b = Ok (i, b')"
  shows "builder_inv b' \<and> seen_rec_groups b' g = Some i \<and> i < length (rec_groups (built_types b')) \<and>
    (\<exists>new. wasm_types (built_types b') = wasm_types (built_types b) @ new) \<and>
    validator_id b' = validator_id b"
proof -
  let ?elems = "rec_group_elements_of vt g" and ?base = "length (wasm_types (built_types b))"
  let ?n = "?base + length ?elems"
  from def obtain b1 b2 where
    start: "start_rec_group vt ?elems b = Ok b1" and
    loop: "for_each (define_rec_group_element mt vt) b1 ?elems = Ok b2" and
    fin: "end_rec_group b2 g = Ok (i, b')"
    by (auto simp: define_new_rec_group_def)
  from start obtain seen where
    seen: "for_each (reserve_type ?base) (seen_types (built_types b)) (zip [0..<length ?elems] ?elems)
       = Ok seen" and
    b1: "b1 = b\<lparr>built_types := (built_types b)\<lparr>seen_types := seen\<rparr>,
        rec_group_in_progress := Some \<lparr>rgp_index = length (rec_groups (built_types b)),
          rgp_start = ?base, rgp_end = ?n\<rparr>\<rparr>"
    by (auto simp: start_rec_group_def len_wasm_types_def next_rec_group_index_def next_type_index_def)
  have seen_ran: "ran seen \<subseteq> {..<?n}"
    using reserve_types_ran [of ?base "seen_types (built_types b)" 0 ?elems seen ?n] seen inv
    by (fastforce simp: builder_inv_def)
  have conv: "converter_ok ?n (built_types b1) mt"
    using seen_ran mt by (auto simp: converter_ok_def b1)
  have "defining ?n b1 b1"
    by (auto simp: defining_def intro: exI [of _ "[]"])
  then have "defining ?n b1 b2"
    using for_each_invariant [OF loop, of "defining ?n b1"] conv
    by (blast intro: define_rec_group_element_defining)
  then obtain new where
    b2: "b2 = b1\<lparr>built_types := (built_types b1)\<lparr>wasm_types := wasm_types (built_types b) @ new\<rparr>\<rparr>" and
    new: "list_all (refs_below ?n) new"
    by (auto simp: defining_def b1)
  from fin have len: "?n = ?base + length new" and lt: "?base < ?n" and
    i: "i = length (rec_groups (built_types b))" and
    b': "b' = b\<lparr>built_types := \<lparr>wasm_types = wasm_types (built_types b) @ new,
        rec_groups = rec_groups (built_types b) @ [(?base, ?n)], seen_types = seen\<rparr>,
        seen_rec_groups := (seen_rec_groups b)(g \<mapsto> i)\<rparr>"
    using inv
    by (auto simp: end_rec_group_def b2 b1 push_rec_group_def pm_push_def len_wasm_types_def
        next_type_index_def Let_def builder_inv_def)
  have old: "list_all (group_wf (wasm_types (built_types b) @ new)) (rec_groups (built_types b))"
    using inv
    by (auto simp: builder_inv_def module_types_wf_def list_all_iff
        intro!: group_wf_append dest!: tiles_group_bounds)
  have "group_wf (wasm_types (built_types b) @ new) (?base, ?n)"
    using new len by (auto simp: group_wf_def list_all_iff nth_append)
  then have "builder_inv b'"
    using inv old seen_ran len lt
    by (auto simp: builder_inv_def module_types_wf_def tiles_append b' i ran_def
        split: if_splits)
  then show ?thesis by (auto simp: b' i)
qed


lemma builder_new_inv: "builder_inv (builder_new vid)"
  by (simp add: builder_inv_def builder_new_def module_types_wf_def module_types_default_def)

lemma intern_rec_group_inv:
  assumes inv: "builder_inv b" and mt: "set mt \<subseteq> {..<length (wasm_types (built_types b))}"
    and intern: "intern_rec_group mt vt g b = Ok (i, b')"
  shows "builder_inv b' \<and> i < length (rec_groups (built_types b')) \<and>
    (\<exists>new. wasm_types (built_types b') = wasm_types (built_types b) @ new) \<and>
    seen_rec_groups b' g = Some i \<and> types_id vt = validator_id b'"
proof (cases "seen_rec_groups b g")
  case None
  with intern have "define_new_rec_group mt vt g b = Ok (i, b')" "types_id vt = validator_id b"
    by (auto simp: intern_rec_group_def)
  with define_new_rec_group_inv [OF inv mt, of vt g i b'] show ?thesis by auto
next
  case (Some j)
  with intern inv show ?thesis
    by (auto simp: intern_rec_group_def builder_inv_def ran_def)
qed

lemma rec_group_elements_below:
  assumes "module_types_wf t" and "rec_group_elements t g = Ok elems"
  shows "set elems \<subseteq> {..<length (wasm_types t)}"
proof -
  from assms(2) have "g < length (rec_groups t)" and elems: "elems = [fst (rec_groups t ! g) ..< snd (rec_groups t ! g)]"
    by (auto simp: rec_group_elements_def)
  then have "rec_groups t ! g \<in> set (rec_groups t)" by simp
  then have "snd (rec_groups t ! g) \<le> length (wasm_types t)"
    using assms(1) tiles_group_bounds [of 0 "rec_groups t" "length (wasm_types t)"
        "fst (rec_groups t ! g)" "snd (rec_groups t ! g)"]
    by (auto simp: module_types_wf_def)
  then show ?thesis by (auto simp: elems)
qed

text \<open>C24.
  Interning a recursion group keeps the builder's invariant: the groups tile the type list, every
  reference inside a group points below the group's end, types already interned are not touched,
  and the same group interned again gets the same index and changes nothing.
\<close>

theorem intern_rec_group_ok:
  assumes "builder_inv b" and "set mt \<subseteq> {..<length (wasm_types (built_types b))}"
    and "intern_rec_group mt vt g b = Ok (i, b')"
  shows "builder_inv b' \<and> i < length (rec_groups (built_types b')) \<and>
    (\<exists>new. wasm_types (built_types b') = wasm_types (built_types b) @ new) \<and>
    intern_rec_group mt' vt g b' = Ok (i, b')"
  using intern_rec_group_inv [OF assms] by (auto simp: intern_rec_group_def)

text \<open>A validator that knows one group of two function types, the second taking the first.\<close>

definition sample_types_ref :: TypesRef where
  "sample_types_ref = \<lparr>types_id = 7, rec_group_elements_of = (\<lambda>_. [10, 11]),
     sub_type_of = (\<lambda>i. \<lparr>wp_is_final = True, wp_supertype_idx = None, wp_composite_type =
       \<lparr>wp_inner = WP_Func \<lparr>wp_params = (if i = 10 then [WP_I32] else
            [WP_Ref \<lparr>wp_is_nullable = True, wp_heap_type = WP_Concrete (UId 10)\<rparr>]),
          wp_results = []\<rparr>, wp_shared = False\<rparr>\<rparr>),
     core_type_at_in_module = (\<lambda>i. 10 + i), rec_group_id_of = (\<lambda>_. 0)\<rparr>"

theorem intern_rec_group_ok_witness:
  "\<exists>i b. intern_rec_group [] sample_types_ref 0 (builder_new 7) = Ok (i, b) \<and> builder_inv b"
proof -
  have "is_ok (intern_rec_group [] sample_types_ref 0 (builder_new 7))" by code_simp
  then obtain i b where ib: "intern_rec_group [] sample_types_ref 0 (builder_new 7) = Ok (i, b)"
    by (auto simp: is_ok_iff)
  with intern_rec_group_ok [OF builder_new_inv _ ib] show ?thesis by auto
qed

end
