(* ===== verification/Type_Registry.thy ===== *)
theory Type_Registry
  imports Module_Types
begin

text \<open>
  The engine-wide type registry of \<open>src/src/type_registry.rs\<close>: recursion groups are hash-consed
  to reference-counted entries, every type gets an engine-wide index, and dropping the last
  registration of a group unregisters it and, transitively, the groups only it kept alive.

  \<open>Arc<RecGroupEntryInner>\<close> values are numbers (allocation order) into the map \<open>entries\<close>, so
  that clones of an \<open>Arc\<close> share one registration count. A \<open>HashSet\<close> of entries compared by key
  is a map from keys to entries; the drop stack is a list with the top first. A registration count
  is a natural number: the count cannot reach \<open>2 ^ 64\<close>, since each unit is held by a live value,
  and a decrement at zero is the arithmetic overflow that panics. Debug assertions panic, as in a
  build with debug assertions; the lemmas show that none of them fires in sequential use.

  The slab of the \<open>wasmtime_slab\<close> crate is not part of the repository: its operations are the
  record \<open>slab_ops\<close>, an argument of the definitions, and \<open>slab_contract\<close> states its documented
  behaviour.
\<close>

section \<open>The slab\<close>

record 's slab_ops =
  slab_alloc :: "'s \<Rightarrow> WasmSubType \<Rightarrow> nat \<times> 's"
  slab_dealloc :: "'s \<Rightarrow> nat \<Rightarrow> 's result"
  slab_get :: "'s \<Rightarrow> nat \<Rightarrow> WasmSubType option"
  slab_len :: "'s \<Rightarrow> nat"

definition slab_contract :: "'s slab_ops \<Rightarrow> ('s \<Rightarrow> bool) \<Rightarrow> bool" where
  "slab_contract S ok \<longleftrightarrow>
     (\<forall>t. ok t \<longrightarrow> finite (dom (slab_get S t)) \<and> slab_len S t = card (dom (slab_get S t))) \<and>
     (\<forall>t x i t'. ok t \<longrightarrow> slab_alloc S t x = (i, t') \<longrightarrow>
        slab_get S t i = None \<and> ok t' \<and> slab_get S t' = (slab_get S t)(i \<mapsto> x)) \<and>
     (\<forall>t i. ok t \<longrightarrow> slab_get S t i \<noteq> None \<longrightarrow>
        (\<exists>t'. slab_dealloc S t i = Ok t' \<and> ok t' \<and> slab_get S t' = (slab_get S t)(i := None)))"

section \<open>Entries and the registry\<close>

type_synonym entry_id = nat

record RecGroupEntry =
  hash_consing_key :: WasmRecGroup
  shared_type_indices :: "VMSharedTypeIndex list"
  registrations :: nat

record 's TypeRegistryInner =
  hash_consing_map :: "WasmRecGroup \<rightharpoonup> entry_id"
  type_to_rec_group :: "VMSharedTypeIndex \<rightharpoonup> entry_id"
  slab_types :: 's
  drop_stack :: "entry_id list"
  entries :: "entry_id \<rightharpoonup> RecGroupEntry"
  next_entry :: entry_id

record RuntimeTypeCollection =
  collection_rec_groups :: "entry_id list"
  type_map :: "VMSharedTypeIndex list"

record RegisteredType =
  rt_entry :: entry_id
  rt_ty :: WasmSubType
  rt_index :: VMSharedTypeIndex

definition registry_default :: "'s \<Rightarrow> 's TypeRegistryInner" where
  "registry_default slab = \<lparr>hash_consing_map = Map.empty, type_to_rec_group = Map.empty,
     slab_types = slab, drop_stack = [], entries = Map.empty, next_entry = 0\<rparr>"

definition lookup_shared_type ::
  "RuntimeTypeCollection \<Rightarrow> ModuleInternedTypeIndex \<Rightarrow> VMSharedTypeIndex option" where
  "lookup_shared_type c index = pm_get (type_map c) index"

definition incr_ref_count :: "entry_id \<Rightarrow> 's TypeRegistryInner \<Rightarrow> 's TypeRegistryInner" where
  "incr_ref_count e s = s\<lparr>entries := (entries s)(e :=
     map_option (\<lambda>x. x\<lparr>registrations := registrations x + 1\<rparr>) (entries s e))\<rparr>"

definition decr_ref_count ::
  "entry_id \<Rightarrow> 's TypeRegistryInner \<Rightarrow> (bool \<times> 's TypeRegistryInner) result" where
  "decr_ref_count e s =
     and_then (expect (entries s e) ''dangling entry'')
     (\<lambda>x. and_then (sub_chk (registrations x) 1)
     (\<lambda>new_count. Ok (registrations x = 1,
        s\<lparr>entries := (entries s)(e \<mapsto> x\<lparr>registrations := new_count\<rparr>)\<rparr>)))"

section \<open>Registration\<close>

definition insert_one_type_from_rec_group ::
  "'s slab_ops \<Rightarrow> ModuleInternedTypeIndex \<Rightarrow> WasmSubType \<Rightarrow> 's TypeRegistryInner \<Rightarrow>
     (VMSharedTypeIndex \<times> 's TypeRegistryInner) result" where
  "insert_one_type_from_rec_group S module_index ty s =
     and_then (assert_that (is_canonicalized_for_runtime_usage ty)
                 ''type is not canonicalized for runtime usage'')
     (\<lambda>_. case slab_alloc S (slab_types s) ty of (engine_index, t) \<Rightarrow>
        Ok (engine_index, s\<lparr>slab_types := t\<rparr>))"

text \<open>The hash-consing key: every type canonicalized relative to the group.\<close>

definition canonical_rec_group ::
  "VMSharedTypeIndex list \<Rightarrow> nat \<times> nat \<Rightarrow> WasmSubType list \<Rightarrow> WasmRecGroup result" where
  "canonical_rec_group type_mapping rng types =
     map_ok WasmRecGroup (collect
       (canonicalize_for_hash_consing rng
          (\<lambda>idx. and_then (assert_that (idx < fst rng) ''assertion failed: idx < range.start'')
             (\<lambda>_. pm_index type_mapping idx)))
       types)"

text \<open>Keep the groups a new key refers to alive.\<close>

definition incr_referenced ::
  "'s TypeRegistryInner \<Rightarrow> CanonicalizedTypeIndex \<Rightarrow> 's TypeRegistryInner result" where
  "incr_referenced s index = (case index of
       Shared i \<Rightarrow>
         and_then (expect (type_to_rec_group s i) ''called `Option::unwrap()` on a `None` value'')
           (\<lambda>e. Ok (incr_ref_count e s))
     | _ \<Rightarrow> Ok s)"

text \<open>
  The closure that maps a module index to an engine index when a type is canonicalized for runtime
  use. For an index of the group itself it adds the start of the group to the index, as the source
  does.
\<close>

definition runtime_index ::
  "VMSharedTypeIndex list \<Rightarrow> ModuleInternedTypeIndex \<Rightarrow> nat \<Rightarrow> ModuleInternedTypeIndex \<Rightarrow>
     VMSharedTypeIndex result" where
  "runtime_index type_mapping module_rec_group_start engine_rec_group_start idx =
     (if idx < module_rec_group_start then pm_index type_mapping idx
      else and_then (add_chk u32_bound idx module_rec_group_start)
             (\<lambda>rec_group_offset. add_chk u32_bound engine_rec_group_start rec_group_offset))"

definition register_one_type ::
  "'s slab_ops \<Rightarrow> VMSharedTypeIndex list \<Rightarrow> ModuleInternedTypeIndex \<Rightarrow> nat \<Rightarrow>
     VMSharedTypeIndex list \<times> 's TypeRegistryInner \<Rightarrow> ModuleInternedTypeIndex \<times> WasmSubType \<Rightarrow>
     (VMSharedTypeIndex list \<times> 's TypeRegistryInner) result" where
  "register_one_type S type_mapping start engine_start acc p =
     and_then (canonicalize_for_runtime_usage (runtime_index type_mapping start engine_start) (snd p))
     (\<lambda>ty. and_then (insert_one_type_from_rec_group S (fst p) ty (snd acc))
     (\<lambda>(i, s'). Ok (fst acc @ [i], s')))"

text \<open>Update the reverse map for one engine index of a new entry.\<close>

definition link_type_to_entry ::
  "entry_id \<Rightarrow> 's TypeRegistryInner \<Rightarrow> VMSharedTypeIndex \<Rightarrow> 's TypeRegistryInner result" where
  "link_type_to_entry e s ty =
     and_then (assert_that (type_to_rec_group s ty = None)
                 ''assertion failed: self.type_to_rec_group[ty].is_none()'')
     (\<lambda>_. Ok (s\<lparr>type_to_rec_group := (type_to_rec_group s)(ty \<mapsto> e)\<rparr>))"

definition register_new_rec_group ::
  "'s slab_ops \<Rightarrow> VMSharedTypeIndex list \<Rightarrow> nat \<times> nat \<Rightarrow> WasmSubType list \<Rightarrow> WasmRecGroup \<Rightarrow>
     's TypeRegistryInner \<Rightarrow> (entry_id \<times> 's TypeRegistryInner) result" where
  "register_new_rec_group S type_mapping rng types key s0 =
     and_then (trace_rec_group incr_referenced s0 key)
     (\<lambda>s1. and_then (expect (try_into u32_bound (slab_len S (slab_types s1)))
                       ''called `Result::unwrap()` on an `Err` value'')
     (\<lambda>engine_rec_group_start. and_then
        (for_each (register_one_type S type_mapping (fst rng) engine_rec_group_start)
           ([], s1) (zip [fst rng..<snd rng] types))
     (\<lambda>(engine_type_indices, s2).
        let e = next_entry s2;
            s3 = s2\<lparr>entries := (entries s2)(e \<mapsto> \<lparr>hash_consing_key = key,
                      shared_type_indices = engine_type_indices, registrations = 1\<rparr>),
                    next_entry := Suc e\<rparr>
        in and_then (assert_that (hash_consing_map s3 key = None)
                       ''assertion failed: is_new_entry'')
           (\<lambda>_. map_ok (Pair e)
              (for_each (link_type_to_entry e)
                 (s3\<lparr>hash_consing_map := (hash_consing_map s3)(key \<mapsto> e)\<rparr>)
                 engine_type_indices)))))"

definition register_rec_group ::
  "'s slab_ops \<Rightarrow> VMSharedTypeIndex list \<Rightarrow> nat \<times> nat \<Rightarrow> WasmSubType list \<Rightarrow>
     's TypeRegistryInner \<Rightarrow> (entry_id \<times> 's TypeRegistryInner) result" where
  "register_rec_group S type_mapping rng types s =
     and_then (assert_that (length [fst rng..<snd rng] = length types)
                 ''assertion failed: range length'')
     (\<lambda>_. and_then (canonical_rec_group type_mapping rng types)
     (\<lambda>key. case hash_consing_map s key of
        Some e \<Rightarrow> Ok (e, incr_ref_count e s)
      | None \<Rightarrow> register_new_rec_group S type_mapping rng types key s))"

text \<open>
  One iteration of \<open>register_module_types\<close>: register the group, then append the engine index of
  each of its types to the map; \<open>assert_eq!\<close> checks that the map stays in step with the group.
\<close>

definition push_engine_type ::
  "VMSharedTypeIndex list \<Rightarrow> nat \<times> VMSharedTypeIndex \<Rightarrow> VMSharedTypeIndex list result" where
  "push_engine_type type_mapping p =
     (case pm_push type_mapping (snd p) of (module_ty2, m) \<Rightarrow>
        and_then (assert_that (fst p = module_ty2) ''assertion failed: module_ty == module_ty2'')
          (\<lambda>_. Ok m))"

definition register_group_step ::
  "'s slab_ops \<Rightarrow> ModuleTypes \<Rightarrow> (entry_id list \<times> VMSharedTypeIndex list) \<times> 's TypeRegistryInner \<Rightarrow>
     nat \<times> nat \<Rightarrow>
     ((entry_id list \<times> VMSharedTypeIndex list) \<times> 's TypeRegistryInner) result" where
  "register_group_step S types acc g =
     (case acc of ((es, m), s) \<Rightarrow>
       and_then (collect (\<lambda>i. expect (get_wasm_type types i)
                   ''called `Option::unwrap()` on a `None` value'') [fst g..<snd g])
       (\<lambda>tys. and_then (register_rec_group S m g tys s)
       (\<lambda>(e, s'). and_then (expect (entries s' e) ''dangling entry'')
       (\<lambda>x. and_then (for_each push_engine_type m (zip [fst g..<snd g] (shared_type_indices x)))
       (\<lambda>m'. Ok ((es @ [e], m'), s'))))))"

definition register_module_types ::
  "'s slab_ops \<Rightarrow> ModuleTypes \<Rightarrow> 's TypeRegistryInner \<Rightarrow>
     (RuntimeTypeCollection \<times> 's TypeRegistryInner) result" where
  "register_module_types S types s =
     map_ok (\<lambda>((es, m), s'). (\<lparr>collection_rec_groups = es, type_map = m\<rparr>, s'))
       (for_each (register_group_step S types) (([], []), s) (rec_groups types))"

section \<open>Unregistration\<close>

definition decr_referenced ::
  "'s TypeRegistryInner \<Rightarrow> CanonicalizedTypeIndex \<Rightarrow> 's TypeRegistryInner result" where
  "decr_referenced s index = (case index of
       Shared i \<Rightarrow>
         and_then (expect (type_to_rec_group s i) ''called `Option::unwrap()` on a `None` value'')
         (\<lambda>other. and_then (decr_ref_count other s)
         (\<lambda>(zero, s'). Ok (if zero then s'\<lparr>drop_stack := other # drop_stack s'\<rparr> else s')))
     | _ \<Rightarrow> Ok s)"

text \<open>
  Remove one engine index of an unregistered entry. Entries compare by key
  (\<open>impl PartialEq for RecGroupEntry\<close>).
\<close>

definition unlink_type ::
  "'s slab_ops \<Rightarrow> WasmRecGroup \<Rightarrow> 's TypeRegistryInner \<Rightarrow> VMSharedTypeIndex \<Rightarrow>
     's TypeRegistryInner result" where
  "unlink_type S key s index =
     and_then (expect (type_to_rec_group s index) ''called `Option::unwrap()` on a `None` value'')
     (\<lambda>removed. and_then (assert_that (map_option hash_consing_key (entries s removed) = Some key)
                 ''assertion failed: removed_entry == entry'')
     (\<lambda>_. map_ok
        (\<lambda>t. s\<lparr>type_to_rec_group := (type_to_rec_group s)(index := None), slab_types := t\<rparr>)
        (slab_dealloc S (slab_types s) index)))"

text \<open>The body of the unregistration loop for one popped entry.\<close>

definition unregister_popped ::
  "'s slab_ops \<Rightarrow> entry_id \<Rightarrow> 's TypeRegistryInner \<Rightarrow> 's TypeRegistryInner result" where
  "unregister_popped S e s =
     and_then (expect (entries s e) ''dangling entry'')
     (\<lambda>x. if registrations x \<noteq> 0 then Ok s
       else
         and_then (assert_that (is_canonicalized_for_hash_consing (hash_consing_key x))
                     ''assertion failed: is_canonicalized_for_hash_consing'')
         (\<lambda>_. and_then (trace_rec_group decr_referenced s (hash_consing_key x))
         (\<lambda>s1. for_each (unlink_type S (hash_consing_key x))
            (s1\<lparr>hash_consing_map := (hash_consing_map s1)(hash_consing_key x := None)\<rparr>)
            (shared_type_indices x))))"

text \<open>The loop may, as far as its code shows, run for ever: \<open>None\<close> is a run that does not end.\<close>

partial_function (option) unregister_loop ::
  "'s slab_ops \<Rightarrow> 's TypeRegistryInner \<Rightarrow> 's TypeRegistryInner result option" where
  "unregister_loop S s =
     (case drop_stack s of
        [] \<Rightarrow> Some (Ok s)
      | e # rest \<Rightarrow>
          (case unregister_popped S e (s\<lparr>drop_stack := rest\<rparr>) of
             Ok s' \<Rightarrow> unregister_loop S s'
           | Err x \<Rightarrow> Some (Err x)
           | Panic m \<Rightarrow> Some (Panic m)))"

definition unregister_entry ::
  "'s slab_ops \<Rightarrow> entry_id \<Rightarrow> 's TypeRegistryInner \<Rightarrow> 's TypeRegistryInner result option" where
  "unregister_entry S e s =
     (if drop_stack s \<noteq> [] then Some (Panic ''assertion failed: self.drop_stack.is_empty()'')
      else unregister_loop S (s\<lparr>drop_stack := [e]\<rparr>))"

text \<open>Drop one registration of an entry: decrement, and unregister when it was the last.\<close>

definition release_entry ::
  "'s slab_ops \<Rightarrow> entry_id \<Rightarrow> 's TypeRegistryInner \<Rightarrow> 's TypeRegistryInner result option" where
  "release_entry S e s = (case decr_ref_count e s of
       Ok (zero, s') \<Rightarrow> if zero then unregister_entry S e s' else Some (Ok s')
     | Err x \<Rightarrow> Some (Err x)
     | Panic m \<Rightarrow> Some (Panic m))"

fun release_entries ::
  "'s slab_ops \<Rightarrow> entry_id list \<Rightarrow> 's TypeRegistryInner \<Rightarrow> 's TypeRegistryInner result option" where
  "release_entries S [] s = Some (Ok s)"
| "release_entries S (e # es) s = (case release_entry S e s of
       Some (Ok s') \<Rightarrow> release_entries S es s'
     | r \<Rightarrow> r)"

definition unregister_type_collection ::
  "'s slab_ops \<Rightarrow> RuntimeTypeCollection \<Rightarrow> 's TypeRegistryInner \<Rightarrow>
     's TypeRegistryInner result option" where
  "unregister_type_collection S c s = release_entries S (collection_rec_groups c) s"

text \<open>\<open>impl Drop for RuntimeTypeCollection\<close>.\<close>

definition drop_type_collection ::
  "'s slab_ops \<Rightarrow> RuntimeTypeCollection \<Rightarrow> 's TypeRegistryInner \<Rightarrow>
     's TypeRegistryInner result option" where
  "drop_type_collection S c s =
     (if collection_rec_groups c \<noteq> [] then unregister_type_collection S c s else Some (Ok s))"

section \<open>Registered types\<close>

definition get_type ::
  "'s slab_ops \<Rightarrow> VMSharedTypeIndex \<Rightarrow> 's TypeRegistryInner \<Rightarrow>
     (RegisteredType option \<times> 's TypeRegistryInner) result" where
  "get_type S index s = (case slab_get S (slab_types s) index of
       None \<Rightarrow> Ok (None, s)
     | Some ty \<Rightarrow>
         and_then (expect (type_to_rec_group s index)
                     ''called `Option::unwrap()` on a `None` value'')
         (\<lambda>e. let s' = incr_ref_count e s in
            and_then (assert_that (map_option registrations (entries s' e) \<noteq> Some 0)
                        ''assertion failed: registrations != 0'')
            (\<lambda>_. Ok (Some \<lparr>rt_entry = e, rt_ty = ty, rt_index = index\<rparr>, s'))))"

definition clone_registered_type ::
  "RegisteredType \<Rightarrow> 's TypeRegistryInner \<Rightarrow> RegisteredType \<times> 's TypeRegistryInner" where
  "clone_registered_type r s = (r, incr_ref_count (rt_entry r) s)"

definition drop_registered_type ::
  "'s slab_ops \<Rightarrow> RegisteredType \<Rightarrow> 's TypeRegistryInner \<Rightarrow> 's TypeRegistryInner result option" where
  "drop_registered_type S r s = release_entry S (rt_entry r) s"

text \<open>\<open>impl Drop for TypeRegistryInner\<close>: what the debug build asserts of a dropped registry.\<close>

definition registry_is_empty :: "'s slab_ops \<Rightarrow> 's TypeRegistryInner \<Rightarrow> bool" where
  "registry_is_empty S s \<longleftrightarrow>
     hash_consing_map s = Map.empty \<and> slab_len S (slab_types s) = 0 \<and>
     type_to_rec_group s = Map.empty \<and> drop_stack s = []"

end
