(* ===== verification/Type_Registry_Inv.thy ===== *)
theory Type_Registry_Inv
  imports Type_Registry
begin

text \<open>
  Correctness of the type registry of \<open>Type_Registry\<close>: reference counts and unregistration.

  The registration count of an entry is the number of its outside owners plus the number of
  references from the keys of the entries that are still registered. The owners are a ghost map
  \<open>ext\<close> from entries to numbers: a \<open>RuntimeTypeCollection\<close> owns one unit of each of its entries, a
  \<open>RegisteredType\<close> one unit of its entry. References between entries go from a younger entry to
  an older one, so there are no cycles, and counting frees every entry that nobody owns.
\<close>

section \<open>The structural invariant\<close>

definition live :: "'s TypeRegistryInner \<Rightarrow> entry_id set" where
  "live s = ran (hash_consing_map s)"

text \<open>What of an entry never changes: its key and its engine indices.\<close>

definition skel ::
  "'s TypeRegistryInner \<Rightarrow> entry_id \<Rightarrow> (WasmRecGroup \<times> VMSharedTypeIndex list) option" where
  "skel s e = map_option (\<lambda>x. (hash_consing_key x, shared_type_indices x)) (entries s e)"

definition regs :: "'s TypeRegistryInner \<Rightarrow> entry_id \<Rightarrow> nat" where
  "regs s e = (case entries s e of Some x \<Rightarrow> registrations x | None \<Rightarrow> 0)"

fun edge_ok :: "(VMSharedTypeIndex \<rightharpoonup> entry_id) \<Rightarrow> entry_id \<Rightarrow> CanonicalizedTypeIndex \<Rightarrow> bool" where
  "edge_ok m e (Shared j) \<longleftrightarrow> (case m j of Some e' \<Rightarrow> e' < e | None \<Rightarrow> False)"
| "edge_ok m e (RecGroup _) \<longleftrightarrow> True"
| "edge_ok m e (Module _) \<longleftrightarrow> False"

fun points_to :: "(VMSharedTypeIndex \<rightharpoonup> entry_id) \<Rightarrow> entry_id \<Rightarrow> CanonicalizedTypeIndex \<Rightarrow> bool" where
  "points_to m e (Shared j) \<longleftrightarrow> m j = Some e"
| "points_to m e _ \<longleftrightarrow> False"

definition edge_count ::
  "(VMSharedTypeIndex \<rightharpoonup> entry_id) \<Rightarrow> entry_id \<Rightarrow> CanonicalizedTypeIndex list \<Rightarrow> nat" where
  "edge_count m e cs = length (filter (points_to m e) cs)"

definition refs_from ::
  "(VMSharedTypeIndex \<rightharpoonup> entry_id) \<Rightarrow> WasmRecGroup set \<Rightarrow> entry_id \<Rightarrow> nat" where
  "refs_from m K e = (\<Sum>k\<in>K. edge_count m e (edges_rec_group k))"

fun group_size :: "WasmRecGroup \<Rightarrow> nat" where
  "group_size (WasmRecGroup ts) = length ts"

definition struct_inv ::
  "'s slab_ops \<Rightarrow> ('s \<Rightarrow> bool) \<Rightarrow> 's TypeRegistryInner \<Rightarrow> bool" where
  "struct_inv S ok s \<longleftrightarrow>
     ok (slab_types s) \<and>
     dom (slab_get S (slab_types s)) = dom (type_to_rec_group s) \<and>
     finite (dom (hash_consing_map s)) \<and>
     ran (type_to_rec_group s) \<subseteq> live s \<and>
     (\<forall>k e. hash_consing_map s k = Some e \<longrightarrow>
        e < next_entry s \<and>
        (\<exists>is. skel s e = Some (k, is) \<and> distinct is \<and> length is = group_size k \<and>
           (\<forall>i. type_to_rec_group s i = Some e \<longleftrightarrow> i \<in> set is)) \<and>
        list_all (edge_ok (type_to_rec_group s) e) (edges_rec_group k))"

text \<open>The counts are exact, and the entries with count zero are those on the drop stack.\<close>

definition counts_inv :: "(entry_id \<Rightarrow> nat) \<Rightarrow> 's TypeRegistryInner \<Rightarrow> bool" where
  "counts_inv ext s \<longleftrightarrow>
     (\<forall>e\<in>live s. regs s e =
        ext e + refs_from (type_to_rec_group s) (dom (hash_consing_map s)) e) \<and>
     (\<forall>e. e \<notin> live s \<longrightarrow> ext e = 0) \<and>
     distinct (drop_stack s) \<and>
     set (drop_stack s) = {e \<in> live s. regs s e = 0}"

definition loop_inv ::
  "'s slab_ops \<Rightarrow> ('s \<Rightarrow> bool) \<Rightarrow> (entry_id \<Rightarrow> nat) \<Rightarrow> 's TypeRegistryInner \<Rightarrow> bool" where
  "loop_inv S ok ext s \<longleftrightarrow> struct_inv S ok s \<and> counts_inv ext s"

text \<open>The invariant between two operations: the drop stack is empty.\<close>

definition registry_inv ::
  "'s slab_ops \<Rightarrow> ('s \<Rightarrow> bool) \<Rightarrow> (entry_id \<Rightarrow> nat) \<Rightarrow> 's TypeRegistryInner \<Rightarrow> bool" where
  "registry_inv S ok ext s \<longleftrightarrow> loop_inv S ok ext s \<and> drop_stack s = []"

text \<open>What an operation that only changes counts and the drop stack leaves alone.\<close>

definition same_frame :: "'s TypeRegistryInner \<Rightarrow> 's TypeRegistryInner \<Rightarrow> bool" where
  "same_frame s s' \<longleftrightarrow>
     hash_consing_map s' = hash_consing_map s \<and> type_to_rec_group s' = type_to_rec_group s \<and>
     slab_types s' = slab_types s \<and> next_entry s' = next_entry s \<and> skel s' = skel s"

text \<open>What unregistration does to the types that stay: nothing.\<close>

definition shrinks :: "'s slab_ops \<Rightarrow> 's TypeRegistryInner \<Rightarrow> 's TypeRegistryInner \<Rightarrow> bool" where
  "shrinks S s s' \<longleftrightarrow>
     hash_consing_map s' \<subseteq>\<^sub>m hash_consing_map s \<and>
     type_to_rec_group s' \<subseteq>\<^sub>m type_to_rec_group s \<and>
     slab_get S (slab_types s') \<subseteq>\<^sub>m slab_get S (slab_types s) \<and>
     next_entry s' = next_entry s \<and> skel s' = skel s"

lemma same_frame_refl [simp]: "same_frame s s"
  by (simp add: same_frame_def)

lemma same_frame_trans: "same_frame s t \<Longrightarrow> same_frame t u \<Longrightarrow> same_frame s u"
  by (simp add: same_frame_def)

lemma same_frame_shrinks: "same_frame s s' \<Longrightarrow> shrinks S s s'"
  by (simp add: same_frame_def shrinks_def map_le_def)

lemma shrinks_refl [simp]: "shrinks S s s"
  by (simp add: shrinks_def)

lemma shrinks_trans: "shrinks S s t \<Longrightarrow> shrinks S t u \<Longrightarrow> shrinks S s u"
  by (auto simp: shrinks_def intro: map_le_trans)

lemma same_frame_live: "same_frame s s' \<Longrightarrow> live s' = live s"
  by (simp add: same_frame_def live_def)

lemma struct_inv_frame: "same_frame s s' \<Longrightarrow> struct_inv S ok s \<Longrightarrow> struct_inv S ok s'"
  by (simp add: struct_inv_def same_frame_def live_def)

lemma edge_count_simps [simp]:
  "edge_count m e [] = 0"
  "edge_count m e (c # cs) = (if points_to m e c then 1 else 0) + edge_count m e cs"
  by (simp_all add: edge_count_def)

lemma edge_count_cong:
  "(\<And>j. m j = Some e \<longleftrightarrow> m' j = Some e) \<Longrightarrow> edge_count m e cs = edge_count m' e cs"
proof (induction cs)
  case (Cons c cs)
  then show ?case by (cases c) auto
qed simp

lemma edge_count_zero_iff: "edge_count m e cs = 0 \<longleftrightarrow> (\<forall>c\<in>set cs. \<not> points_to m e c)"
  by (auto simp: edge_count_def filter_empty_conv)

lemma edge_ok_not_points_to: "edge_ok m e c \<Longrightarrow> e \<le> e' \<Longrightarrow> \<not> points_to m e' c"
  by (cases c) (auto split: option.splits)

lemma struct_inv_keyD:
  assumes "struct_inv S ok s" and "hash_consing_map s k = Some e"
  obtains "is" x where "skel s e = Some (k, is)" "distinct is" "e < next_entry s"
    "\<And>i. type_to_rec_group s i = Some e \<longleftrightarrow> i \<in> set is"
    "\<And>c. c \<in> set (edges_rec_group k) \<Longrightarrow> edge_ok (type_to_rec_group s) e c"
    "entries s e = Some x" "hash_consing_key x = k" "shared_type_indices x = is"
    "length is = group_size k"
  using assms unfolding struct_inv_def skel_def list_all_iff by (auto 4 4)

lemma struct_inv_inj:
  assumes "struct_inv S ok s" "hash_consing_map s k = Some e" "hash_consing_map s k' = Some e"
  shows "k = k'"
  using struct_inv_keyD [OF assms(1,2)] struct_inv_keyD [OF assms(1,3)]
  by (metis option.inject prod.inject)

lemma live_key: "e \<in> live s \<longleftrightarrow> (\<exists>k. hash_consing_map s k = Some e)"
  by (auto simp: live_def ran_def)

lemma struct_inv_ttrg_live:
  "struct_inv S ok s \<Longrightarrow> type_to_rec_group s i = Some e \<Longrightarrow> e \<in> live s"
  by (auto simp: struct_inv_def ran_def)

section \<open>Reference counts\<close>

lemma incr_ref_count_frame: "same_frame s (incr_ref_count e s)"
  by (auto simp: same_frame_def incr_ref_count_def skel_def fun_eq_iff option.map_comp comp_def)

lemma incr_ref_count_regs:
  assumes "entries s e \<noteq> None"
  shows "regs (incr_ref_count e s) e' = regs s e' + (if e' = e then 1 else 0)"
  using assms by (auto simp: regs_def incr_ref_count_def split: option.splits)

lemma incr_ref_count_drop_stack [simp]: "drop_stack (incr_ref_count e s) = drop_stack s"
  by (simp add: incr_ref_count_def)

lemma live_entry:
  assumes "struct_inv S ok s" and "e \<in> live s"
  shows "entries s e \<noteq> None"
  using assms by (auto simp: live_key elim: struct_inv_keyD)

text \<open>Taking one more unit of a live entry, from outside.\<close>

lemma incr_ref_count_inv:
  assumes inv: "registry_inv S ok ext s" and e: "e \<in> live s"
  shows "registry_inv S ok (ext(e := ext e + 1)) (incr_ref_count e s)"
proof -
  let ?s = "incr_ref_count e s"
  have st: "struct_inv S ok s" and ct: "counts_inv ext s" and ds: "drop_stack s = []"
    using inv by (auto simp: registry_inv_def loop_inv_def)
  have fr: "same_frame s ?s" by (rule incr_ref_count_frame)
  have r: "regs ?s e' = regs s e' + (if e' = e then 1 else 0)" for e'
    using live_entry [OF st e] by (rule incr_ref_count_regs)
  have "counts_inv (ext(e := ext e + 1)) ?s"
    using ct ds e fr unfolding counts_inv_def same_frame_live [OF fr] r
    by (auto simp: same_frame_def)
  then show ?thesis
    using struct_inv_frame [OF fr st] ds by (simp add: registry_inv_def loop_inv_def)
qed

lemma decr_ref_count_Ok:
  assumes "entries s e \<noteq> None" and "0 < regs s e"
  obtains s' where "decr_ref_count e s = Ok (regs s e = 1, s')" "same_frame s s'"
    "drop_stack s' = drop_stack s"
    "\<And>e'. regs s' e' = regs s e' - (if e' = e then 1 else 0)"
proof -
  from assms obtain x where x: "entries s e = Some x" by auto
  let ?s = "s\<lparr>entries := (entries s)(e \<mapsto> x\<lparr>registrations := registrations x - 1\<rparr>)\<rparr>"
  have "decr_ref_count e s = Ok (regs s e = 1, ?s)"
    using assms x by (auto simp: decr_ref_count_def regs_def sub_chk_def)
  moreover have "same_frame s ?s"
    using x by (auto simp: same_frame_def skel_def fun_eq_iff)
  moreover have "regs ?s e' = regs s e' - (if e' = e then 1 else 0)" for e'
    using x by (auto simp: regs_def)
  ultimately show ?thesis using that [of ?s] by simp
qed

section \<open>Unregistration\<close>

text \<open>
  The trace that gives back the references of an unregistered entry \<open>e\<close>. In every state of it the
  count of an entry is what it should be without \<open>e\<close>, plus the edges not yet given back.
\<close>

definition decr_trace_inv ::
  "(entry_id \<Rightarrow> nat) \<Rightarrow> entry_id \<Rightarrow> 's TypeRegistryInner \<Rightarrow> CanonicalizedTypeIndex list \<Rightarrow>
     's TypeRegistryInner \<Rightarrow> bool" where
  "decr_trace_inv want e s0 cs s \<longleftrightarrow>
     same_frame s0 s \<and>
     (\<forall>e'\<in>live s0. regs s e' = want e' + edge_count (type_to_rec_group s0) e' cs) \<and>
     distinct (drop_stack s) \<and>
     set (drop_stack s) = {e' \<in> live s0. e' \<noteq> e \<and> regs s e' = 0}"

lemma decr_referenced_step:
  assumes inv: "decr_trace_inv want e s0 (c # cs) s" and st: "struct_inv S ok s0"
    and ok: "edge_ok (type_to_rec_group s0) e c"
  shows "\<exists>s'. decr_referenced s c = Ok s' \<and> decr_trace_inv want e s0 cs s'"
proof (cases c)
  case (Shared j)
  with ok obtain o' where o': "type_to_rec_group s0 j = Some o'" "o' < e"
    by (auto split: option.splits)
  have fr: "same_frame s0 s" using inv by (simp add: decr_trace_inv_def)
  have live: "o' \<in> live s0" using st o'(1) by (rule struct_inv_ttrg_live)
  have ent: "entries s o' \<noteq> None"
    using live_entry [OF struct_inv_frame [OF fr st]] live same_frame_live [OF fr] by simp
  have pos: "0 < regs s o'"
    using inv live o' Shared by (auto simp: decr_trace_inv_def)
  obtain s1 where s1: "decr_ref_count o' s = Ok (regs s o' = 1, s1)" "same_frame s s1"
    "drop_stack s1 = drop_stack s"
    "\<And>e'. regs s1 e' = regs s e' - (if e' = o' then 1 else 0)"
    using decr_ref_count_Ok [OF ent pos] by blast
  let ?s' = "if regs s o' = 1 then s1\<lparr>drop_stack := o' # drop_stack s1\<rparr> else s1"
  have step: "decr_referenced s c = Ok ?s'"
    using Shared o' fr s1(1) by (auto simp: decr_referenced_def same_frame_def)
  have regs': "regs ?s' e' = regs s e' - (if e' = o' then 1 else 0)" for e'
    using s1(4) by (auto simp: regs_def)
  have fr': "same_frame s0 ?s'"
    using same_frame_trans [OF fr s1(2)] by (auto simp: same_frame_def skel_def fun_eq_iff)
  have "o' \<notin> set (drop_stack s)" using inv pos by (auto simp: decr_trace_inv_def)
  then have ds: "distinct (drop_stack ?s')"
    and ds': "set (drop_stack ?s') = set (drop_stack s) \<union> (if regs s o' = 1 then {o'} else {})"
    using s1(3) inv by (auto simp: decr_trace_inv_def)
  have "set (drop_stack ?s') = {e' \<in> live s0. e' \<noteq> e \<and> regs ?s' e' = 0}"
    using inv live o'(2) pos unfolding ds' regs' by (auto simp: decr_trace_inv_def split: if_splits)
  moreover have "regs ?s' e' = want e' + edge_count (type_to_rec_group s0) e' cs" if "e' \<in> live s0" for e'
    using inv that o'(1) Shared unfolding regs' by (auto simp: decr_trace_inv_def)
  ultimately show ?thesis
    using step fr' ds by (auto simp: decr_trace_inv_def)
next
  case (RecGroup j)
  then show ?thesis using inv by (auto simp: decr_trace_inv_def decr_referenced_def)
next
  case (Module j)
  then show ?thesis using ok by simp
qed

lemma decr_referenced_trace:
  assumes "decr_trace_inv want e s0 cs s" and "struct_inv S ok s0"
    and "\<And>c. c \<in> set cs \<Longrightarrow> edge_ok (type_to_rec_group s0) e c"
  shows "\<exists>s'. for_each decr_referenced s cs = Ok s' \<and> decr_trace_inv want e s0 [] s'"
  using assms
proof (induction cs arbitrary: s)
  case (Cons c cs)
  then obtain s1 where "decr_referenced s c = Ok s1" "decr_trace_inv want e s0 cs s1"
    using decr_referenced_step by (metis list.set_intros(1))
  with Cons show ?case by simp
qed simp

text \<open>The loop that removes the engine indices of the entry.\<close>

lemma unlink_types:
  assumes "slab_contract S ok" and "ok (slab_types s)"
    and "dom (slab_get S (slab_types s)) = dom (type_to_rec_group s)"
    and "\<And>i. i \<in> set is \<Longrightarrow> type_to_rec_group s i = Some e" and "distinct is"
    and "skel s e = Some (key, is0)"
  shows "\<exists>s'. for_each (unlink_type S key) s is = Ok s' \<and> ok (slab_types s') \<and>
    slab_get S (slab_types s') = slab_get S (slab_types s) |` (- set is) \<and>
    type_to_rec_group s' = type_to_rec_group s |` (- set is) \<and>
    s' = s\<lparr>type_to_rec_group := type_to_rec_group s', slab_types := slab_types s'\<rparr>"
  using assms
proof (induction "is" arbitrary: s)
  case Nil
  then show ?case by simp
next
  case (Cons i "is")
  have i: "type_to_rec_group s i = Some e" using Cons.prems(4) by simp
  with Cons.prems(3) have "slab_get S (slab_types s) i \<noteq> None" by blast
  with Cons.prems(1,2) obtain t where t: "slab_dealloc S (slab_types s) i = Ok t" "ok t"
    "slab_get S t = (slab_get S (slab_types s))(i := None)"
    unfolding slab_contract_def by blast
  let ?s = "s\<lparr>type_to_rec_group := (type_to_rec_group s)(i := None), slab_types := t\<rparr>"
  have step: "unlink_type S key s i = Ok ?s"
    using i t(1) Cons.prems(6) by (auto simp: unlink_type_def skel_def)
  have skel: "skel ?s = skel s" by (simp add: skel_def fun_eq_iff)
  have dom: "dom (slab_get S (slab_types ?s)) = dom (type_to_rec_group ?s)"
    using t(3) Cons.prems(3) by simp
  have "\<exists>s'. for_each (unlink_type S key) ?s is = Ok s' \<and> ok (slab_types s') \<and>
    slab_get S (slab_types s') = slab_get S (slab_types ?s) |` (- set is) \<and>
    type_to_rec_group s' = type_to_rec_group ?s |` (- set is) \<and>
    s' = ?s\<lparr>type_to_rec_group := type_to_rec_group s', slab_types := slab_types s'\<rparr>"
    using Cons.prems(1,4-6) t(2) by (intro Cons.IH [OF _ _ dom]) (auto simp: skel)
  with step t(3) show ?case by (auto simp: restrict_map_def fun_eq_iff)
qed


text \<open>One iteration of the loop: the popped entry goes, the counts stay exact.\<close>

lemma unregister_popped_trace:
  assumes inv: "loop_inv S ok ext s" and ds: "drop_stack s = e # rest"
    and k: "hash_consing_map s k = Some e"
  shows "\<exists>s1. trace_rec_group decr_referenced (s\<lparr>drop_stack := rest\<rparr>) k = Ok s1 \<and>
    decr_trace_inv
      (\<lambda>e'. ext e' + refs_from (type_to_rec_group s) (dom (hash_consing_map s) - {k}) e') e
      (s\<lparr>drop_stack := rest\<rparr>) [] s1"
proof -
  let ?s = "s\<lparr>drop_stack := rest\<rparr>"
  have st: "struct_inv S ok s" and ct: "counts_inv ext s"
    using inv by (auto simp: loop_inv_def)
  have fr: "same_frame s ?s" by (simp add: same_frame_def skel_def fun_eq_iff)
  have regs: "regs ?s = regs s" by (simp add: regs_def fun_eq_iff)
  have fin: "finite (dom (hash_consing_map s))" using st by (simp add: struct_inv_def)
  have split: "refs_from m (dom (hash_consing_map s)) e' =
      refs_from m (dom (hash_consing_map s) - {k}) e' + edge_count m e' (edges_rec_group k)" for m e'
    unfolding refs_from_def
    using sum.remove [OF fin, of k "\<lambda>k. edge_count m e' (edges_rec_group k)"] k by (simp add: domI)
  have "decr_trace_inv
      (\<lambda>e'. ext e' + refs_from (type_to_rec_group s) (dom (hash_consing_map s) - {k}) e') e
      ?s (edges_rec_group k) ?s"
    using ct ds same_frame_live [OF fr] unfolding decr_trace_inv_def counts_inv_def regs split
    by auto
  moreover have "edge_ok (type_to_rec_group s) e c" if "c \<in> set (edges_rec_group k)" for c
    using st k that by (auto elim: struct_inv_keyD)
  ultimately show ?thesis
    using struct_inv_frame [OF fr st]
    by (auto simp: trace_rec_group_edges intro!: decr_referenced_trace)
qed

lemma is_canonicalized_for_hash_consing_iff:
  "is_canonicalized_for_hash_consing k \<longleftrightarrow>
     (\<forall>c\<in>set (edges_rec_group k). \<forall>j. c \<noteq> Module j)"
proof -
  have "is_ok (for_each check_hash_consing_index () cs) \<longleftrightarrow> (\<forall>c\<in>set cs. \<forall>j. c \<noteq> Module j)" for cs
  proof (induction cs)
    case (Cons c cs)
    then show ?case by (cases c) auto
  qed simp
  then show ?thesis
    by (simp add: is_canonicalized_for_hash_consing_def trace_rec_group_edges)
qed

text \<open>The registry without entry \<open>e\<close>, as the structural invariant sees it.\<close>

lemma struct_inv_remove:
  assumes st: "struct_inv S ok s" and k: "hash_consing_map s k = Some e"
    and skel: "skel s e = Some (k, is)" "skel s' = skel s"
    and noref: "\<forall>k'\<in>dom (hash_consing_map s) - {k}. \<forall>c\<in>set (edges_rec_group k').
        \<not> points_to (type_to_rec_group s) e c"
    and hcm: "hash_consing_map s' = (hash_consing_map s)(k := None)"
    and ttrg: "type_to_rec_group s' = type_to_rec_group s |` (- set is)"
    and slab: "slab_get S (slab_types s') = slab_get S (slab_types s) |` (- set is)"
      "ok (slab_types s')"
    and nxt: "next_entry s' = next_entry s"
  shows "struct_inv S ok s'" and "live s' = live s - {e}"
    and "\<And>e' j. e' \<noteq> e \<Longrightarrow> type_to_rec_group s' j = Some e' \<longleftrightarrow> type_to_rec_group s j = Some e'"
proof -
  obtain is0 where "skel s e = Some (k, is0)"
    and idx: "\<And>i. type_to_rec_group s i = Some e \<longleftrightarrow> i \<in> set is0"
    using struct_inv_keyD [OF st k] by metis
  with skel have idx: "\<And>i. type_to_rec_group s i = Some e \<longleftrightarrow> i \<in> set is" by auto
  show other: "\<And>e' j. e' \<noteq> e \<Longrightarrow> type_to_rec_group s' j = Some e' \<longleftrightarrow> type_to_rec_group s j = Some e'"
    using idx ttrg by (metis ComplI option.inject restrict_in restrict_out option.distinct(1) ComplD)
  show live: "live s' = live s - {e}"
    unfolding set_eq_iff Diff_iff singleton_iff live_key hcm fun_upd_apply
    using struct_inv_inj [OF st k] k by (metis option.distinct(1) option.inject)
  have "ran (type_to_rec_group s') \<subseteq> live s'"
    unfolding live using st idx by (auto simp: ttrg struct_inv_def ran_def restrict_map_def)
  moreover have "dom (slab_get S (slab_types s')) = dom (type_to_rec_group s')"
    using st by (simp add: slab ttrg struct_inv_def)
  moreover have "finite (dom (hash_consing_map s'))"
    using st by (simp add: hcm struct_inv_def)
  moreover have "e' < next_entry s' \<and>
        (\<exists>is. skel s' e' = Some (k', is) \<and> distinct is \<and> length is = group_size k' \<and>
           (\<forall>i. type_to_rec_group s' i = Some e' \<longleftrightarrow> i \<in> set is)) \<and>
        list_all (edge_ok (type_to_rec_group s') e') (edges_rec_group k')"
    if k': "hash_consing_map s' k' = Some e'" for k' e'
  proof -
    have hk': "hash_consing_map s k' = Some e'" "k' \<noteq> k" using k' by (auto simp: hcm split: if_splits)
    then have "e' \<noteq> e" using struct_inv_inj [OF st k] by auto
    from struct_inv_keyD [OF st hk'(1)] obtain is' where
      is': "skel s e' = Some (k', is')" "distinct is'" "e' < next_entry s"
        "\<And>i. type_to_rec_group s i = Some e' \<longleftrightarrow> i \<in> set is'"
        "\<And>c. c \<in> set (edges_rec_group k') \<Longrightarrow> edge_ok (type_to_rec_group s) e' c"
        "length is' = group_size k'"
      by metis
    have "edge_ok (type_to_rec_group s') e' c" if c: "c \<in> set (edges_rec_group k')" for c
    proof (cases c)
      case (Shared j)
      with is'(5) [OF c] obtain e2 where e2: "type_to_rec_group s j = Some e2" "e2 < e'"
        by (auto split: option.splits)
      moreover have "e2 \<noteq> e" using noref [rule_format, of k' c] hk' c e2(1) Shared by (auto simp: domI)
      ultimately show ?thesis using other [of e2 j] Shared by simp
    qed (use is'(5) [OF c] in auto)
    then show ?thesis
      using is' other [OF \<open>e' \<noteq> e\<close>] nxt skel(2) by (auto simp: list_all_iff)
  qed
  ultimately show "struct_inv S ok s'"
    unfolding struct_inv_def using slab(2) by blast
qed

lemma unregister_popped_inv:
  assumes slab: "slab_contract S ok" and inv: "loop_inv S ok ext s" and ds: "drop_stack s = e # rest"
  shows "\<exists>s'. unregister_popped S e (s\<lparr>drop_stack := rest\<rparr>) = Ok s' \<and> loop_inv S ok ext s' \<and>
    live s' = live s - {e} \<and> e \<in> live s \<and> shrinks S s s'"
proof -
  let ?s = "s\<lparr>drop_stack := rest\<rparr>"
  have st: "struct_inv S ok s" and ct: "counts_inv ext s"
    using inv by (auto simp: loop_inv_def)
  have e: "e \<in> live s" "regs s e = 0" using ct ds by (auto simp: counts_inv_def)
  then obtain k where k: "hash_consing_map s k = Some e" by (auto simp: live_key)
  obtain "is" x where x: "skel s e = Some (k, is)" "distinct is"
    "\<And>i. type_to_rec_group s i = Some e \<longleftrightarrow> i \<in> set is"
    "\<And>c. c \<in> set (edges_rec_group k) \<Longrightarrow> edge_ok (type_to_rec_group s) e c"
    "entries s e = Some x" "hash_consing_key x = k" "shared_type_indices x = is"
    using struct_inv_keyD [OF st k] by metis
  have zero: "ext e = 0" "refs_from (type_to_rec_group s) (dom (hash_consing_map s)) e = 0"
    using ct e by (auto simp: counts_inv_def)
  obtain s1 where s1: "trace_rec_group decr_referenced ?s k = Ok s1" and
    tr: "decr_trace_inv
      (\<lambda>e'. ext e' + refs_from (type_to_rec_group s) (dom (hash_consing_map s) - {k}) e') e ?s [] s1"
    using unregister_popped_trace [OF inv ds k] by blast
  let ?s2 = "s1\<lparr>hash_consing_map := (hash_consing_map s1)(k := None)\<rparr>"
  have fr: "hash_consing_map s1 = hash_consing_map s" "type_to_rec_group s1 = type_to_rec_group s"
    "slab_types s1 = slab_types s" "next_entry s1 = next_entry s" "skel s1 = skel s"
    using tr by (auto simp: decr_trace_inv_def same_frame_def skel_def fun_eq_iff)
  have sk2: "skel ?s2 = skel s" using fr(5) by (simp add: skel_def fun_eq_iff)
  obtain s' where s': "for_each (unlink_type S k) ?s2 is = Ok s'" "ok (slab_types s')"
    "slab_get S (slab_types s') = slab_get S (slab_types s) |` (- set is)"
    "type_to_rec_group s' = type_to_rec_group s |` (- set is)"
    "s' = ?s2\<lparr>type_to_rec_group := type_to_rec_group s', slab_types := slab_types s'\<rparr>"
    using unlink_types [OF slab, of ?s2 "is" e k "is"] st x sk2 fr
    by (auto simp: struct_inv_def)
  have s'_sel: "hash_consing_map s' = (hash_consing_map s)(k := None)" "next_entry s' = next_entry s"
    "skel s' = skel s" "drop_stack s' = drop_stack s1" "regs s' = regs s1"
    using fr sk2 by (subst s'(5); simp add: skel_def regs_def fun_eq_iff)+
  have canon: "is_canonicalized_for_hash_consing k"
    using x(4) by (force simp: is_canonicalized_for_hash_consing_iff)
  have run: "unregister_popped S e ?s = Ok s'"
    using x(5-7) e(2) s1 s'(1) canon by (auto simp: unregister_popped_def regs_def)
  have noref: "\<forall>k'\<in>dom (hash_consing_map s) - {k}. \<forall>c\<in>set (edges_rec_group k').
      \<not> points_to (type_to_rec_group s) e c"
    using zero(2) st by (auto simp: refs_from_def struct_inv_def edge_count_zero_iff)
  note rm = struct_inv_remove [OF st k x(1) s'_sel(3) noref s'_sel(1) s'(4) s'(3,2) s'_sel(2)]
  have refs: "refs_from (type_to_rec_group s') (dom (hash_consing_map s')) e' =
      refs_from (type_to_rec_group s) (dom (hash_consing_map s) - {k}) e'" if "e' \<noteq> e" for e'
    using rm(3) [OF that] by (auto simp: refs_from_def s'_sel intro!: sum.cong edge_count_cong)
  have "counts_inv ext s'"
    using tr ct zero refs fr unfolding counts_inv_def rm(2) s'_sel decr_trace_inv_def
    by (auto simp: live_def)
  moreover have "shrinks S s s'"
    using s'_sel s'(3,4) by (auto simp: shrinks_def map_le_def restrict_map_def dom_def)
  ultimately show ?thesis using run rm(1,2) e(1) by (auto simp: loop_inv_def)
qed


text \<open>The loop ends, and leaves a registry without entries of count zero.\<close>

lemma unregister_loop_inv:
  assumes slab: "slab_contract S ok" and inv: "loop_inv S ok ext s"
  shows "\<exists>s'. unregister_loop S s = Some (Ok s') \<and> registry_inv S ok ext s' \<and> shrinks S s s'"
  using inv
proof (induction "card (live s)" arbitrary: s rule: less_induct)
  case less
  show ?case
  proof (cases "drop_stack s")
    case Nil
    then show ?thesis
      using less.prems by (auto simp: unregister_loop.simps registry_inv_def)
  next
    case (Cons e rest)
    obtain s1 where s1: "unregister_popped S e (s\<lparr>drop_stack := rest\<rparr>) = Ok s1"
      "loop_inv S ok ext s1" "live s1 = live s - {e}" "e \<in> live s" "shrinks S s s1"
      using unregister_popped_inv [OF slab less.prems Cons] by blast
    have "finite (live s)"
      using less.prems by (auto simp: live_def loop_inv_def struct_inv_def intro: finite_ran)
    then have "card (live s1) < card (live s)"
      unfolding s1(3) using s1(4) by (rule card_Diff1_less)
    from less.hyps [OF this s1(2)] obtain s' where
      "unregister_loop S s1 = Some (Ok s')" "registry_inv S ok ext s'" "shrinks S s1 s'"
      by blast
    then show ?thesis
      using Cons s1(1,5) by (auto simp: unregister_loop.simps [of S s] intro: shrinks_trans)
  qed
qed

lemma release_entry_inv:
  assumes slab: "slab_contract S ok" and inv: "registry_inv S ok ext s" and e: "0 < ext e"
  shows "\<exists>s'. release_entry S e s = Some (Ok s') \<and>
    registry_inv S ok (ext(e := ext e - 1)) s' \<and> shrinks S s s'"
proof -
  have st: "struct_inv S ok s" and ct: "counts_inv ext s" and ds: "drop_stack s = []"
    using inv by (auto simp: registry_inv_def loop_inv_def)
  have live: "e \<in> live s" using ct e by (auto simp: counts_inv_def)
  have "0 < regs s e" using ct live e by (auto simp: counts_inv_def)
  then obtain s1 where s1: "decr_ref_count e s = Ok (regs s e = 1, s1)" "same_frame s s1"
    "drop_stack s1 = []" "\<And>e'. regs s1 e' = regs s e' - (if e' = e then 1 else 0)"
    using decr_ref_count_Ok [OF live_entry [OF st live]] ds by metis
  note live1 = same_frame_live [OF s1(2)]
  have cnt: "regs s1 e' = (ext(e := ext e - 1)) e' +
      refs_from (type_to_rec_group s1) (dom (hash_consing_map s1)) e'" if "e' \<in> live s" for e'
    using ct that e s1(2) by (auto simp: s1(4) counts_inv_def same_frame_def)
  have none: "{e' \<in> live s. regs s e' = 0} = {}" using ct ds by (auto simp: counts_inv_def)
  have out: "\<forall>e'. e' \<notin> live s \<longrightarrow> (ext(e := ext e - 1)) e' = 0"
    using ct live by (auto simp: counts_inv_def)
  show ?thesis
  proof (cases "regs s e = 1")
    case True
    let ?s = "s1\<lparr>drop_stack := [e]\<rparr>"
    have fr: "same_frame s ?s"
      using s1(2) by (simp add: same_frame_def skel_def fun_eq_iff)
    have regs: "regs ?s = regs s1" by (simp add: regs_def fun_eq_iff)
    have "{e' \<in> live s. regs s1 e' = 0} = {e}"
      using none live True by (auto simp: s1(4) split: if_splits)
    then have "counts_inv (ext(e := ext e - 1)) ?s"
      using cnt out unfolding counts_inv_def same_frame_live [OF fr] regs by simp
    then have "loop_inv S ok (ext(e := ext e - 1)) ?s"
      using struct_inv_frame [OF fr st] by (simp add: loop_inv_def)
    from unregister_loop_inv [OF slab this] show ?thesis
      using s1(1,3) True same_frame_shrinks [OF fr]
      by (auto simp: release_entry_def unregister_entry_def intro: shrinks_trans)
  next
    case False
    then have "{e' \<in> live s. regs s1 e' = 0} = {}"
      using none \<open>0 < regs s e\<close> by (auto simp: s1(4) split: if_splits)
    then have "counts_inv (ext(e := ext e - 1)) s1"
      using cnt out s1(3) unfolding counts_inv_def live1 by simp
    then show ?thesis
      using False s1 struct_inv_frame [OF s1(2) st] same_frame_shrinks [OF s1(2)]
      by (auto simp: release_entry_def registry_inv_def loop_inv_def)
  qed
qed

text \<open>A collection owns one unit per occurrence of an entry in its list.\<close>

lemma release_entries_inv:
  assumes slab: "slab_contract S ok" and "registry_inv S ok (\<lambda>e. ext e + count_list es e) s"
  shows "\<exists>s'. release_entries S es s = Some (Ok s') \<and> registry_inv S ok ext s' \<and> shrinks S s s'"
  using assms(2)
proof (induction es arbitrary: s)
  case Nil
  then show ?case by simp
next
  case (Cons e es)
  let ?ext = "\<lambda>e'. ext e' + count_list (e # es) e'"
  obtain s1 where s1: "release_entry S e s = Some (Ok s1)"
    "registry_inv S ok (?ext(e := ?ext e - 1)) s1" "shrinks S s s1"
    using release_entry_inv [OF slab Cons.prems, of e] by auto
  have "?ext(e := ?ext e - 1) = (\<lambda>e'. ext e' + count_list es e')"
    by (auto simp: fun_eq_iff)
  with s1 Cons.IH [of s1] show ?case by (auto intro: shrinks_trans)
qed

section \<open>Nothing leaks\<close>

lemma registry_inv_unowned:
  assumes slab: "slab_contract S ok" and inv: "registry_inv S ok ext s" and ext: "\<And>e. ext e = 0"
  shows "registry_is_empty S s"
proof -
  have st: "struct_inv S ok s" and ct: "counts_inv ext s" and ds: "drop_stack s = []"
    using inv by (auto simp: registry_inv_def loop_inv_def)
  have fin: "finite (dom (hash_consing_map s))" using st by (simp add: struct_inv_def)
  have "live s = {}"
  proof (rule ccontr)
    assume ne: "live s \<noteq> {}"
    have finl: "finite (live s)" using fin by (simp add: live_def finite_ran)
    define e where "e = Max (live s)"
    have e: "e \<in> live s" "\<And>e'. e' \<in> live s \<Longrightarrow> e' \<le> e"
      using ne finl by (auto simp: e_def)
    have "edge_count (type_to_rec_group s) e (edges_rec_group k) = 0" if "k \<in> dom (hash_consing_map s)" for k
    proof -
      from that obtain e' where k: "hash_consing_map s k = Some e'" by blast
      then have "e' \<le> e" using e(2) by (auto simp: live_key)
      then show ?thesis
        using struct_inv_keyD [OF st k] edge_ok_not_points_to
        by (metis edge_count_zero_iff)
    qed
    then have "refs_from (type_to_rec_group s) (dom (hash_consing_map s)) e = 0"
      by (simp add: refs_from_def)
    then have "regs s e = 0" using ct e(1) ext by (simp add: counts_inv_def)
    then show False using ct ds e(1) by (auto simp: counts_inv_def)
  qed
  then have "hash_consing_map s = Map.empty"
    by (auto simp: live_def ran_def fun_eq_iff) (metis not_Some_eq)
  moreover have tt: "type_to_rec_group s = Map.empty"
    using st \<open>live s = {}\<close> by (auto simp: struct_inv_def ran_def fun_eq_iff)
  moreover have "slab_len S (slab_types s) = 0"
    using slab st tt by (auto simp: slab_contract_def struct_inv_def)
  ultimately show ?thesis using ds by (simp add: registry_is_empty_def)
qed

end
