(* ===== verification/Type_Registry_Reg.thy ===== *)
theory Type_Registry_Reg
  imports Type_Registry_Inv
begin

text \<open>
  Correctness of the registration half of \<open>Type_Registry\<close>: registering a recursion group either
  finds its entry or makes a new one, keeps the invariant of \<open>Type_Registry_Inv\<close>, and gives equal
  groups equal engine indices.
\<close>

section \<open>Canonicalization\<close>

lemma collect_set:
  assumes "collect f xs = Ok ys" and "y \<in> set ys"
  obtains x where "x \<in> set xs" "f x = Ok y"
proof -
  have "\<exists>x\<in>set xs. f x = Ok y"
    using assms by (induction xs arbitrary: ys) auto
  then show ?thesis using that by blast
qed

text \<open>The index map \<open>m\<close> covers the types before the group, and every engine index in it is known.\<close>

definition mapping_ok ::
  "VMSharedTypeIndex list \<Rightarrow> nat \<times> nat \<Rightarrow> WasmSubType list \<Rightarrow> bool" where
  "mapping_ok m rng types \<longleftrightarrow>
     length m = fst rng \<and> fst rng \<le> snd rng \<and> length types = snd rng - fst rng \<and>
     list_all (refs_below (snd rng)) types"

lemma refs_belowD:
  assumes "refs_below n t" and "c \<in> set (edges_sub_type t)"
  obtains j where "c = Module j" "j < n"
  using assms by (cases c) (auto simp: refs_below_def list_all_iff)

lemma canonical_rec_group_total:
  assumes "mapping_ok m rng types"
  shows "\<exists>key. canonical_rec_group m rng types = Ok key"
proof -
  let ?f = "\<lambda>idx. and_then (assert_that (idx < fst rng) ''assertion failed: idx < range.start'')
             (\<lambda>_. pm_index m idx) :: nat result"
  have "\<exists>t'. canonicalize_for_hash_consing rng ?f t = Ok t'" if "t \<in> set types" for t
    unfolding canonicalize_for_hash_consing_def
  proof (rule trace_mut_sub_type_total)
    fix c assume c: "c \<in> set (edges_sub_type t)"
    have "refs_below (snd rng) t" using assms that by (auto simp: mapping_ok_def list_all_iff)
    then obtain j where "c = Module j" "j < snd rng" using c by (rule refs_belowD)
    then show "\<exists>d. canonicalize_index_for_hash_consing rng ?f c = Ok d"
      using assms by (auto simp: mapping_ok_def)
  qed
  then have "\<exists>ts. collect (canonicalize_for_hash_consing rng ?f) types = Ok ts"
    by (rule collect_exists)
  then show ?thesis by (auto simp: canonical_rec_group_def)
qed

lemma canonical_rec_group_size: "canonical_rec_group m rng types = Ok key \<Longrightarrow> group_size key = length types"
  by (auto simp: canonical_rec_group_def dest: collect_Ok_length)

lemma canonical_rec_group_edges:
  assumes key: "canonical_rec_group m rng types = Ok key" and ok: "mapping_ok m rng types"
    and c: "c \<in> set (edges_rec_group key)"
  shows "(\<exists>j. c = RecGroup j) \<or> (\<exists>j < length m. c = Shared (m ! j))"
proof -
  let ?f = "\<lambda>idx. and_then (assert_that (idx < fst rng) ''assertion failed: idx < range.start'')
             (\<lambda>_. pm_index m idx) :: nat result"
  from key obtain ts where ts: "collect (canonicalize_for_hash_consing rng ?f) types = Ok ts"
    "key = WasmRecGroup ts"
    by (auto simp: canonical_rec_group_def)
  have "collect (canonicalize_index_for_hash_consing rng ?f) (concat (map edges_sub_type types))
      = Ok (concat (map edges_sub_type ts))"
    by (rule collect_concat_edges [OF _ ts(1)])
      (simp add: canonicalize_for_hash_consing_def trace_mut_sub_type_edges)
  moreover have "c \<in> set (concat (map edges_sub_type ts))" using c ts(2) by simp
  ultimately obtain d where d: "d \<in> set (concat (map edges_sub_type types))"
    "canonicalize_index_for_hash_consing rng ?f d = Ok c"
    by (rule collect_set)
  then obtain t where t: "t \<in> set types" "d \<in> set (edges_sub_type t)" by auto
  then have "refs_below (snd rng) t" using ok by (auto simp: mapping_ok_def list_all_iff)
  then obtain j where "d = Module j" using t(2) by (rule refs_belowD)
  with d(2) show ?thesis by (auto split: if_splits)
qed

lemma is_canonicalized_for_runtime_usage_iff:
  "is_canonicalized_for_runtime_usage t \<longleftrightarrow> (\<forall>c\<in>set (edges_sub_type t). \<exists>j. c = Shared j)"
proof -
  have "is_ok (for_each check_runtime_index () cs) \<longleftrightarrow> (\<forall>c\<in>set cs. \<exists>j. c = Shared j)" for cs
  proof (induction cs)
    case (Cons c cs)
    then show ?case by (cases c) auto
  qed simp
  then show ?thesis
    by (simp add: is_canonicalized_for_runtime_usage_def trace_sub_type_edges)
qed

lemma canonicalize_for_runtime_usage_canonical:
  assumes "canonicalize_for_runtime_usage f t = Ok t'"
  shows "is_canonicalized_for_runtime_usage t'"
proof -
  have edges: "collect (canonicalize_index_for_runtime_usage f) (edges_sub_type t) = Ok (edges_sub_type t')"
    using assms by (simp add: canonicalize_for_runtime_usage_def trace_mut_sub_type_edges)
  have "\<exists>j. c = Shared j" if c: "c \<in> set (edges_sub_type t')" for c
  proof -
    obtain d where "canonicalize_index_for_runtime_usage f d = Ok c"
      using edges c by (rule collect_set)
    then show ?thesis by (cases d) auto
  qed
  then show ?thesis by (simp add: is_canonicalized_for_runtime_usage_iff)
qed

text \<open>The engine index arithmetic does not overflow while the number of types is small enough.\<close>

lemma canonicalize_for_runtime_usage_total:
  assumes "refs_below n t" and "length m = start" and "start \<le> n" and "engine_start + 2 * n < 2 ^ 32"
  shows "\<exists>t'. canonicalize_for_runtime_usage (runtime_index m start engine_start) t = Ok t'"
  unfolding canonicalize_for_runtime_usage_def
proof (rule trace_mut_sub_type_total)
  fix c assume "c \<in> set (edges_sub_type t)"
  with assms(1) obtain j where "c = Module j" "j < n" by (rule refs_belowD)
  then show "\<exists>d. canonicalize_index_for_runtime_usage (runtime_index m start engine_start) c = Ok d"
    using assms by (auto simp: runtime_index_def)
qed

section \<open>A new group\<close>

lemma incr_referenced_trace:
  assumes "struct_inv S ok s"
    and "\<And>c. c \<in> set cs \<Longrightarrow> edge_ok (type_to_rec_group s) e c"
  shows "\<exists>s'. for_each incr_referenced s cs = Ok s' \<and> same_frame s s' \<and>
    drop_stack s' = drop_stack s \<and>
    (\<forall>e'. regs s' e' = regs s e' + edge_count (type_to_rec_group s) e' cs)"
  using assms
proof (induction cs arbitrary: s)
  case Nil
  then show ?case by simp
next
  case (Cons c cs)
  have "\<exists>s1. incr_referenced s c = Ok s1 \<and> same_frame s s1 \<and> drop_stack s1 = drop_stack s \<and>
      (\<forall>e'. regs s1 e' = regs s e' + edge_count (type_to_rec_group s) e' [c])"
  proof (cases c)
    case (Shared j)
    with Cons.prems(2) [of c] obtain e' where e': "type_to_rec_group s j = Some e'"
      by (auto split: option.splits)
    then have "entries s e' \<noteq> None"
      using Cons.prems(1) by (meson live_entry struct_inv_ttrg_live)
    then show ?thesis
      using Shared e' incr_ref_count_frame
      by (auto simp: incr_referenced_def incr_ref_count_regs)
  qed (use Cons.prems(2) [of c] in \<open>auto simp: incr_referenced_def\<close>)
  then obtain s1 where s1: "incr_referenced s c = Ok s1" "same_frame s s1"
    "drop_stack s1 = drop_stack s"
    "\<And>e'. regs s1 e' = regs s e' + edge_count (type_to_rec_group s) e' [c]"
    by blast
  have tt: "type_to_rec_group s1 = type_to_rec_group s" using s1(2) by (simp add: same_frame_def)
  obtain s2 where "for_each incr_referenced s1 cs = Ok s2" "same_frame s1 s2"
    "drop_stack s2 = drop_stack s1"
    "\<And>e'. regs s2 e' = regs s1 e' + edge_count (type_to_rec_group s1) e' cs"
    using Cons.IH [of s1] Cons.prems(2) struct_inv_frame [OF s1(2) Cons.prems(1)] tt by auto
  then show ?case
    using s1 tt by (auto intro: same_frame_trans)
qed

text \<open>Allocating the engine indices of the group.\<close>

lemma register_types:
  assumes slab: "slab_contract S ok" and "ok (slab_types s)"
    and types: "list_all (refs_below n) types" and m: "length m = start" "start \<le> n"
    and bound: "engine_start + 2 * n < 2 ^ 32" and len: "length js = length types"
  shows "\<exists>is t. for_each (register_one_type S m start engine_start) (is0, s) (zip js types) =
      Ok (is0 @ is, s\<lparr>slab_types := t\<rparr>) \<and> ok t \<and> length is = length types \<and> distinct is \<and>
      set is \<inter> dom (slab_get S (slab_types s)) = {} \<and>
      dom (slab_get S t) = dom (slab_get S (slab_types s)) \<union> set is \<and>
      slab_get S (slab_types s) \<subseteq>\<^sub>m slab_get S t"
  using assms(2) types len
proof (induction types arbitrary: js is0 s)
  case Nil
  then show ?case by (auto intro!: exI [of _ "[]"] exI [of _ "slab_types s"])
next
  case (Cons ty types)
  from Cons.prems(3) obtain j js' where js: "js = j # js'" by (cases js) auto
  obtain ty' where ty': "canonicalize_for_runtime_usage (runtime_index m start engine_start) ty = Ok ty'"
    using canonicalize_for_runtime_usage_total [of n ty m start engine_start] Cons.prems(2) m bound
    by auto
  obtain i t1 where t1: "slab_alloc S (slab_types s) ty' = (i, t1)" by fastforce
  then have al: "slab_get S (slab_types s) i = None" "ok t1"
    "slab_get S t1 = (slab_get S (slab_types s))(i \<mapsto> ty')"
    using slab Cons.prems(1) unfolding slab_contract_def by blast+
  let ?s1 = "s\<lparr>slab_types := t1\<rparr>"
  have step: "register_one_type S m start engine_start (is0, s) (j, ty) = Ok (is0 @ [i], ?s1)"
    using ty' t1 canonicalize_for_runtime_usage_canonical [OF ty']
    by (simp add: register_one_type_def insert_one_type_from_rec_group_def)
  obtain "is" t where rest:
    "for_each (register_one_type S m start engine_start) (is0 @ [i], ?s1) (zip js' types) =
      Ok ((is0 @ [i]) @ is, ?s1\<lparr>slab_types := t\<rparr>)" "ok t" "length is = length types" "distinct is"
    "set is \<inter> dom (slab_get S (slab_types ?s1)) = {}"
    "dom (slab_get S t) = dom (slab_get S (slab_types ?s1)) \<union> set is"
    "slab_get S (slab_types ?s1) \<subseteq>\<^sub>m slab_get S t"
    using Cons.IH [of ?s1 js' "is0 @ [i]"] Cons.prems al(2) js by auto
  have le: "slab_get S (slab_types s) \<subseteq>\<^sub>m slab_get S t"
    using rest(7) al by (auto simp: map_le_def split: if_splits) (metis domI option.distinct(1))
  show ?case
    using step rest al le js
    by (intro exI [of _ "i # is"] exI [of _ t]) auto
qed

text \<open>Linking the engine indices to the new entry.\<close>

lemma link_types:
  assumes "distinct is" and "\<And>i. i \<in> set is \<Longrightarrow> tt i = None" and "type_to_rec_group s = tt"
  shows "for_each (link_type_to_entry e) s is =
    Ok (s\<lparr>type_to_rec_group := \<lambda>i. if i \<in> set is then Some e else tt i\<rparr>)"
  using assms
proof (induction "is" arbitrary: s tt)
  case (Cons i "is")
  let ?s = "s\<lparr>type_to_rec_group := tt(i \<mapsto> e)\<rparr>"
  have "link_type_to_entry e s i = Ok ?s"
    using Cons.prems by (simp add: link_type_to_entry_def)
  moreover have "for_each (link_type_to_entry e) ?s is =
      Ok (?s\<lparr>type_to_rec_group := \<lambda>j. if j \<in> set is then Some e else (tt(i \<mapsto> e)) j\<rparr>)"
    using Cons.prems by (intro Cons.IH) auto
  ultimately show ?case
    by (auto intro!: arg_cong [of _ _ "\<lambda>f. s\<lparr>type_to_rec_group := f\<rparr>"])
qed simp

text \<open>What registration does to the types that are already there: nothing.\<close>

definition grows :: "'s slab_ops \<Rightarrow> 's TypeRegistryInner \<Rightarrow> 's TypeRegistryInner \<Rightarrow> bool" where
  "grows S s s' \<longleftrightarrow>
     hash_consing_map s \<subseteq>\<^sub>m hash_consing_map s' \<and>
     type_to_rec_group s \<subseteq>\<^sub>m type_to_rec_group s' \<and>
     slab_get S (slab_types s) \<subseteq>\<^sub>m slab_get S (slab_types s') \<and>
     (\<forall>e\<in>live s. skel s' e = skel s e)"

lemma grows_refl [simp]: "grows S s s"
  by (simp add: grows_def)

lemma grows_live: "grows S s t \<Longrightarrow> live s \<subseteq> live t"
  by (auto simp: grows_def live_key map_le_def) (metis domI)

lemma grows_trans: "grows S s t \<Longrightarrow> grows S t u \<Longrightarrow> grows S s u"
  using grows_live [of S s t] by (auto simp: grows_def intro: map_le_trans)

lemma same_frame_grows: "same_frame s s' \<Longrightarrow> grows S s s'"
  by (simp add: same_frame_def grows_def)

text \<open>The registry with a new entry \<open>e\<close>, as the structural invariant sees it.\<close>

lemma struct_inv_insert:
  assumes st: "struct_inv S ok s" and e: "e = next_entry s" and k: "hash_consing_map s k = None"
    and edges: "\<And>c. c \<in> set (edges_rec_group k) \<Longrightarrow> edge_ok (type_to_rec_group s) e c"
    and "is": "distinct is" "set is \<inter> dom (type_to_rec_group s) = {}" "length is = group_size k"
    and skel: "skel s' = (skel s)(e \<mapsto> (k, is))"
    and hcm: "hash_consing_map s' = (hash_consing_map s)(k \<mapsto> e)"
    and ttrg: "type_to_rec_group s' =
      (\<lambda>i. if i \<in> set is then Some e else type_to_rec_group s i)"
    and slab: "dom (slab_get S (slab_types s')) = dom (slab_get S (slab_types s)) \<union> set is"
      "ok (slab_types s')"
    and nxt: "next_entry s' = Suc e"
  shows "struct_inv S ok s'" and "live s' = insert e (live s)" and "e \<notin> live s"
    and "\<And>e' j. e' \<noteq> e \<Longrightarrow> type_to_rec_group s' j = Some e' \<longleftrightarrow> type_to_rec_group s j = Some e'"
    and "\<And>k'. k' \<in> dom (hash_consing_map s') \<Longrightarrow>
      edge_count (type_to_rec_group s') e (edges_rec_group k') = 0"
proof -
  have lt: "e' < e" if "e' \<in> live s" for e'
    using st that e by (auto simp: live_key struct_inv_def)
  then show fresh: "e \<notin> live s" by blast
  show other: "\<And>e' j. e' \<noteq> e \<Longrightarrow> type_to_rec_group s' j = Some e' \<longleftrightarrow> type_to_rec_group s j = Some e'"
    using "is"(2) by (auto simp: ttrg)
  have mono: "edge_ok (type_to_rec_group s') e' c" if "edge_ok (type_to_rec_group s) e' c" for e' c
    using that "is"(2) by (cases c) (auto simp: ttrg split: option.splits)
  have new: "type_to_rec_group s' i = Some e \<longleftrightarrow> i \<in> set is" for i
    using st fresh by (auto simp: ttrg dest: struct_inv_ttrg_live)
  show live: "live s' = insert e (live s)"
    unfolding set_eq_iff insert_iff live_key hcm fun_upd_apply using k
    by (metis option.distinct(1) option.inject)
  have keys: "e' < next_entry s' \<and>
        (\<exists>is. skel s' e' = Some (k', is) \<and> distinct is \<and> length is = group_size k' \<and>
           (\<forall>i. type_to_rec_group s' i = Some e' \<longleftrightarrow> i \<in> set is)) \<and>
        list_all (edge_ok (type_to_rec_group s') e') (edges_rec_group k')"
    if k': "hash_consing_map s' k' = Some e'" for k' e'
  proof (cases "k' = k")
    case True
    then show ?thesis
      using k' "is"(1,3) new edges mono nxt by (auto simp: hcm skel list_all_iff)
  next
    case False
    then have hk': "hash_consing_map s k' = Some e'" using k' by (simp add: hcm)
    then have "e' < e" using lt by (auto simp: live_key)
    then show ?thesis
      using struct_inv_keyD [OF st hk'] other [of e'] mono nxt
      by (auto simp: skel list_all_iff)
  qed
  show "edge_count (type_to_rec_group s') e (edges_rec_group k') = 0"
    if "k' \<in> dom (hash_consing_map s')" for k'
  proof -
    from that obtain e' where "hash_consing_map s' k' = Some e'" by blast
    from keys [OF this] nxt have "e' \<le> e" "list_all (edge_ok (type_to_rec_group s') e') (edges_rec_group k')"
      by auto
    then show ?thesis
      by (auto simp: edge_count_zero_iff list_all_iff dest: edge_ok_not_points_to)
  qed
  have "ran (type_to_rec_group s') \<subseteq> live s'"
    unfolding live using st by (auto simp: ttrg struct_inv_def ran_def)
  moreover have "dom (slab_get S (slab_types s')) = dom (type_to_rec_group s')"
    using st by (auto simp: slab ttrg struct_inv_def split: if_splits)
  moreover have "finite (dom (hash_consing_map s'))"
    using st by (simp add: hcm struct_inv_def)
  ultimately show "struct_inv S ok s'"
    unfolding struct_inv_def using slab(2) keys by blast
qed


lemma canonical_key_edges_ok:
  assumes st: "struct_inv S ok s" and m: "mapping_ok m rng types" "set m \<subseteq> dom (type_to_rec_group s)"
    and key: "canonical_rec_group m rng types = Ok key" and c: "c \<in> set (edges_rec_group key)"
  shows "edge_ok (type_to_rec_group s) (next_entry s) c"
  using canonical_rec_group_edges [OF key m(1) c]
proof (elim disjE exE conjE)
  fix j assume j: "j < length m" "c = Shared (m ! j)"
  then have "m ! j \<in> dom (type_to_rec_group s)" using m(2) nth_mem by blast
  then obtain e' where e': "type_to_rec_group s (m ! j) = Some e'" by blast
  then have "e' < next_entry s"
    using struct_inv_ttrg_live [OF st e'] st by (auto simp: live_key struct_inv_def)
  with e' j show ?thesis by simp
qed simp

lemma slab_len_extend:
  assumes "slab_contract S ok" and "ok t" and "ok t'"
    and "dom (slab_get S t') = dom (slab_get S t) \<union> set is"
  shows "slab_len S t' \<le> slab_len S t + length is"
proof -
  have "slab_len S t' = card (dom (slab_get S t'))" "slab_len S t = card (dom (slab_get S t))"
    using assms(1-3) by (auto simp: slab_contract_def)
  moreover have "card (dom (slab_get S t) \<union> set is) \<le> card (dom (slab_get S t)) + card (set is)"
    by (rule card_Un_le)
  ultimately show ?thesis
    using card_length [of "is"] unfolding assms(4) by linarith
qed

text \<open>The counts of the registry with a new entry \<open>e\<close>.\<close>

lemma counts_inv_insert:
  assumes ct: "counts_inv ext s" and ds: "drop_stack s = []"
    and fin: "finite (dom (hash_consing_map s))"
    and hcm: "hash_consing_map s' = (hash_consing_map s)(k \<mapsto> e)" "hash_consing_map s k = None"
    and live: "live s' = insert e (live s)" "e \<notin> live s"
    and other: "\<And>e' j. e' \<noteq> e \<Longrightarrow> type_to_rec_group s' j = Some e' \<longleftrightarrow> type_to_rec_group s j = Some e'"
    and none: "\<And>k'. k' \<in> dom (hash_consing_map s') \<Longrightarrow>
      edge_count (type_to_rec_group s') e (edges_rec_group k') = 0"
    and regs: "\<And>e'. regs s' e' = (if e' = e then 1
      else regs s e' + edge_count (type_to_rec_group s) e' (edges_rec_group k))"
    and ds': "drop_stack s' = []"
  shows "counts_inv (ext(e := ext e + 1)) s'"
proof -
  have "refs_from (type_to_rec_group s') (dom (hash_consing_map s')) e = 0"
    using none by (simp add: refs_from_def)
  moreover have "refs_from (type_to_rec_group s') (dom (hash_consing_map s')) e' =
      refs_from (type_to_rec_group s) (dom (hash_consing_map s)) e' +
      edge_count (type_to_rec_group s) e' (edges_rec_group k)" if "e' \<noteq> e" for e'
    using fin hcm(2) edge_count_cong [OF other [OF that]]
    by (simp add: refs_from_def hcm(1) domIff)
  ultimately show ?thesis
    using ct ds live(2) unfolding counts_inv_def live(1) ds' regs by auto
qed

lemma register_new_rec_group_inv:
  assumes slab: "slab_contract S ok" and inv: "registry_inv S ok ext s"
    and m: "mapping_ok m rng types" "set m \<subseteq> dom (type_to_rec_group s)"
    and key: "canonical_rec_group m rng types = Ok key" "hash_consing_map s key = None"
    and bound: "slab_len S (slab_types s) + 2 * snd rng < 2 ^ 32"
  shows "\<exists>e s' is. register_new_rec_group S m rng types key s = Ok (e, s') \<and>
    registry_inv S ok (ext(e := ext e + 1)) s' \<and> grows S s s' \<and>
    hash_consing_map s' key = Some e \<and> skel s' e = Some (key, is) \<and> length is = length types \<and>
    slab_len S (slab_types s') \<le> slab_len S (slab_types s) + length types"
proof -
  have st: "struct_inv S ok s" and ct: "counts_inv ext s" and ds: "drop_stack s = []"
    using inv by (auto simp: registry_inv_def loop_inv_def)
  define e where "e = next_entry s"
  note edges = canonical_key_edges_ok [OF st m key(1), folded e_def]
  obtain s1 where s1: "for_each incr_referenced s (edges_rec_group key) = Ok s1" "same_frame s s1"
    "drop_stack s1 = []"
    "\<And>e'. regs s1 e' = regs s e' + edge_count (type_to_rec_group s) e' (edges_rec_group key)"
    using incr_referenced_trace [OF st edges] ds by auto
  have fr: "hash_consing_map s1 = hash_consing_map s" "type_to_rec_group s1 = type_to_rec_group s"
    "slab_types s1 = slab_types s" "next_entry s1 = e" "skel s1 = skel s"
    using s1(2) by (auto simp: same_frame_def e_def)
  obtain "is" t where reg:
    "for_each (register_one_type S m (fst rng) (slab_len S (slab_types s))) ([], s1)
       (zip [fst rng..<snd rng] types) = Ok (is, s1\<lparr>slab_types := t\<rparr>)"
    "ok t" "length is = length types" "distinct is"
    "set is \<inter> dom (slab_get S (slab_types s)) = {}"
    "dom (slab_get S t) = dom (slab_get S (slab_types s)) \<union> set is"
    "slab_get S (slab_types s) \<subseteq>\<^sub>m slab_get S t"
    using register_types [OF slab, of s1 "snd rng" types m "fst rng" "slab_len S (slab_types s)"
        "[fst rng..<snd rng]" "[]"] m(1) bound st fr(3)
    by (auto simp: mapping_ok_def struct_inv_def)
  define s' where "s' = s1\<lparr>slab_types := t, entries := (entries s1)(e \<mapsto>
      \<lparr>hash_consing_key = key, shared_type_indices = is, registrations = 1\<rparr>), next_entry := Suc e,
      hash_consing_map := (hash_consing_map s)(key \<mapsto> e),
      type_to_rec_group := \<lambda>i. if i \<in> set is then Some e else type_to_rec_group s i\<rparr>"
  have dom: "dom (slab_get S (slab_types s)) = dom (type_to_rec_group s)"
    using st by (simp add: struct_inv_def)
  have run: "register_new_rec_group S m rng types key s = Ok (e, s')"
    using s1(1) reg(1,4,5) bound key(2) dom fr
    by (auto simp: register_new_rec_group_def trace_rec_group_edges try_into_def Let_def s'_def
        intro!: link_types)
  have s'_sel: "skel s' = (skel s)(e \<mapsto> (key, is))"
    "hash_consing_map s' = (hash_consing_map s)(key \<mapsto> e)"
    "type_to_rec_group s' = (\<lambda>i. if i \<in> set is then Some e else type_to_rec_group s i)"
    "slab_types s' = t" "next_entry s' = Suc e" "drop_stack s' = []"
    "regs s' = (regs s1)(e := 1)"
    using fr s1(3) by (auto simp: s'_def skel_def regs_def fun_eq_iff)
  have "struct_inv S ok s'" and live: "live s' = insert e (live s)" and fresh: "e \<notin> live s"
    and other: "\<And>e' j. e' \<noteq> e \<Longrightarrow> type_to_rec_group s' j = Some e' \<longleftrightarrow> type_to_rec_group s j = Some e'"
    and none: "\<And>k'. k' \<in> dom (hash_consing_map s') \<Longrightarrow>
      edge_count (type_to_rec_group s') e (edges_rec_group k') = 0"
    using struct_inv_insert [OF st e_def key(2) edges reg(4) _ _ s'_sel(1-3), unfolded s'_sel(4)]
      reg(2,3,5,6) dom s'_sel(5) canonical_rec_group_size [OF key(1)] by auto
  moreover have "counts_inv (ext(e := ext e + 1)) s'"
    using st s1(4)
    by (intro counts_inv_insert [OF ct ds _ s'_sel(2) key(2) live fresh other none _ s'_sel(6)])
      (auto simp: struct_inv_def s'_sel(7))
  moreover have "grows S s s'"
    using key(2) reg(5,7) fresh dom
    by (auto simp: grows_def s'_sel map_le_def)
  moreover have "slab_len S t \<le> slab_len S (slab_types s) + length types"
    using slab_len_extend [OF slab _ reg(2,6)] st reg(3) by (simp add: struct_inv_def)
  ultimately show ?thesis
    using run s'_sel reg(3) by (auto simp: registry_inv_def loop_inv_def)
qed


section \<open>Groups and modules\<close>

text \<open>What registering a group promises: its entry is known by its key, and owns the indices.\<close>

definition group_registered ::
  "WasmRecGroup \<Rightarrow> entry_id \<Rightarrow> VMSharedTypeIndex list \<Rightarrow> 's TypeRegistryInner \<Rightarrow> bool" where
  "group_registered key e is s \<longleftrightarrow>
     hash_consing_map s key = Some e \<and> skel s e = Some (key, is)"

lemma group_registered_indices:
  assumes st: "struct_inv S ok s" and g: "group_registered key e is s" and i: "i \<in> set is"
  shows "type_to_rec_group s i = Some e"
proof -
  have k: "hash_consing_map s key = Some e" and sk: "skel s e = Some (key, is)"
    using g by (auto simp: group_registered_def)
  obtain is' where "skel s e = Some (key, is')" "\<And>i. type_to_rec_group s i = Some e \<longleftrightarrow> i \<in> set is'"
    using struct_inv_keyD [OF st k] by metis
  with sk i show ?thesis by auto
qed

lemma register_rec_group_inv:
  assumes slab: "slab_contract S ok" and inv: "registry_inv S ok ext s"
    and m: "mapping_ok m rng types" "set m \<subseteq> dom (type_to_rec_group s)"
    and bound: "slab_len S (slab_types s) + 2 * snd rng < 2 ^ 32"
  shows "\<exists>e s' is key. register_rec_group S m rng types s = Ok (e, s') \<and>
    canonical_rec_group m rng types = Ok key \<and>
    registry_inv S ok (ext(e := ext e + 1)) s' \<and> grows S s s' \<and>
    group_registered key e is s' \<and> length is = length types \<and>
    slab_len S (slab_types s') \<le> slab_len S (slab_types s) + length types"
proof -
  obtain key where key: "canonical_rec_group m rng types = Ok key"
    using canonical_rec_group_total [OF m(1)] by blast
  have len: "length [fst rng..<snd rng] = length types" using m(1) by (simp add: mapping_ok_def)
  show ?thesis
  proof (cases "hash_consing_map s key")
    case None
    with len key register_new_rec_group_inv [OF slab inv m key None bound] show ?thesis
      by (auto simp: register_rec_group_def group_registered_def)
  next
    case (Some e)
    have st: "struct_inv S ok s" using inv by (simp add: registry_inv_def loop_inv_def)
    obtain "is" where "skel s e = Some (key, is)" "length is = group_size key"
      using struct_inv_keyD [OF st Some] by metis
    moreover have "e \<in> live s" using Some by (auto simp: live_key)
    moreover have "same_frame s (incr_ref_count e s)" by (rule incr_ref_count_frame)
    ultimately show ?thesis
      using Some len key incr_ref_count_inv [OF inv, of e] canonical_rec_group_size [OF key]
      by (auto simp: register_rec_group_def group_registered_def same_frame_def
          intro!: same_frame_grows)
  qed
qed

lemma skel_entries: "skel s e = Some (k, is) \<longleftrightarrow>
    (\<exists>x. entries s e = Some x \<and> hash_consing_key x = k \<and> shared_type_indices x = is)"
  by (auto simp: skel_def)

lemma push_engine_types:
  assumes "length m = k" and "length is = n"
  shows "for_each push_engine_type m (zip [k..<k + n] is) = Ok (m @ is)"
  using assms
proof (induction "is" arbitrary: m k n)
  case (Cons i "is")
  have "[k..<k + n] = k # [Suc k..<Suc k + length is]"
    using Cons.prems(2) upt_conv_Cons [of k "k + n"] by (auto simp del: upt_Suc)
  then show ?case
    using Cons.IH [of "m @ [i]" "Suc k" "length is"] Cons.prems
    by (simp add: push_engine_type_def pm_push_def del: upt_Suc)
qed simp

lemma collect_types:
  assumes "b \<le> length (wasm_types types)"
  shows "collect (\<lambda>i. expect (get_wasm_type types i) msg) [a..<b] =
    Ok (map (\<lambda>i. wasm_types types ! i) [a..<b])"
  using assms by (intro collect_Ok_map) (simp add: get_wasm_type_def pm_get_def)

text \<open>The state of the loop of \<open>register_module_types\<close> before the group that starts at \<open>a\<close>.\<close>

definition module_loop_inv ::
  "'s slab_ops \<Rightarrow> ('s \<Rightarrow> bool) \<Rightarrow> (entry_id \<Rightarrow> nat) \<Rightarrow> 's TypeRegistryInner \<Rightarrow> nat \<Rightarrow>
     (entry_id list \<times> VMSharedTypeIndex list) \<times> 's TypeRegistryInner \<Rightarrow> bool" where
  "module_loop_inv S ok ext s0 a acc \<longleftrightarrow> (case acc of ((es, m), s) \<Rightarrow>
     registry_inv S ok (\<lambda>e. ext e + count_list es e) s \<and> grows S s0 s \<and>
     length m = a \<and> set m \<subseteq> {i. \<exists>e\<in>set es. type_to_rec_group s i = Some e} \<and>
     slab_len S (slab_types s) \<le> slab_len S (slab_types s0) + a)"

lemma register_group_step_inv:
  assumes slab: "slab_contract S ok" and inv: "module_loop_inv S ok ext s0 a ((es, m), s)"
    and g: "group_wf (wasm_types types) (a, b)" "a < b" "b \<le> length (wasm_types types)"
    and bound: "slab_len S (slab_types s0) + 3 * length (wasm_types types) < 2 ^ 32"
  shows "\<exists>e is key s'. register_group_step S types ((es, m), s) (a, b) = Ok ((es @ [e], m @ is), s') \<and>
    module_loop_inv S ok ext s0 b ((es @ [e], m @ is), s') \<and> grows S s s' \<and>
    canonical_rec_group m (a, b) (map (\<lambda>i. wasm_types types ! i) [a..<b]) = Ok key \<and>
    group_registered key e is s' \<and> length is = b - a"
proof -
  let ?tys = "map (\<lambda>i. wasm_types types ! i) [a..<b]"
  have ri: "registry_inv S ok (\<lambda>e. ext e + count_list es e) s" and gr: "grows S s0 s"
    and m: "length m = a" "set m \<subseteq> {i. \<exists>e\<in>set es. type_to_rec_group s i = Some e}"
    and sl: "slab_len S (slab_types s) \<le> slab_len S (slab_types s0) + a"
    using inv by (auto simp: module_loop_inv_def)
  have mok: "mapping_ok m (a, b) ?tys"
    using m(1) g by (auto simp: mapping_ok_def group_wf_def list_all_iff)
  have "slab_len S (slab_types s) + 2 * snd (a, b) < 2 ^ 32"
    using sl g(2,3) bound by simp
  moreover have "set m \<subseteq> dom (type_to_rec_group s)" using m(2) by blast
  ultimately obtain e s' "is" key where r: "register_rec_group S m (a, b) ?tys s = Ok (e, s')"
    "canonical_rec_group m (a, b) ?tys = Ok key"
    "registry_inv S ok ((\<lambda>e. ext e + count_list es e)(e := ext e + count_list es e + 1)) s'"
    "grows S s s'" "group_registered key e is s'" "length is = length ?tys"
    "slab_len S (slab_types s') \<le> slab_len S (slab_types s) + length ?tys"
    using register_rec_group_inv [OF slab ri mok] by blast
  have ext: "(\<lambda>e. ext e + count_list es e)(e := ext e + count_list es e + 1) =
      (\<lambda>e'. ext e' + count_list (es @ [e]) e')"
    by (auto simp: fun_eq_iff)
  have st': "struct_inv S ok s'" using r(3) by (simp add: registry_inv_def loop_inv_def)
  have new: "type_to_rec_group s' i = Some e" if i: "i \<in> set is" for i
    using st' r(5) i by (rule group_registered_indices)
  have old: "type_to_rec_group s' i = Some e'" if "type_to_rec_group s i = Some e'" for i e'
    using r(4) that by (force simp: grows_def map_le_def dom_def)
  have "set (m @ is) \<subseteq> {i. \<exists>e'\<in>set (es @ [e]). type_to_rec_group s' i = Some e'}"
    using m(2) new old by fastforce
  then have "module_loop_inv S ok ext s0 b ((es @ [e], m @ is), s')"
    using r m(1) g(2) sl grows_trans [OF gr r(4)] unfolding ext by (simp add: module_loop_inv_def)
  moreover have "register_group_step S types ((es, m), s) (a, b) = Ok ((es @ [e], m @ is), s')"
    using r(1,5,6) push_engine_types [OF m(1), of "is" "b - a"] g(2) collect_types [OF g(3)]
    by (auto simp: register_group_step_def group_registered_def skel_entries)
  ultimately show ?thesis using r by auto
qed


text \<open>A group that is already registered is found again, whatever was registered since.\<close>

lemma group_registered_grows: "group_registered key e is s \<Longrightarrow> grows S s t \<Longrightarrow> group_registered key e is t"
  unfolding group_registered_def grows_def live_def map_le_def by (metis domI ranI)

lemma register_group_step_again:
  assumes key: "canonical_rec_group m (a, b) (map (\<lambda>i. wasm_types types ! i) [a..<b]) = Ok key"
    and g: "group_registered key e is t" "length is = b - a"
    and ab: "a < b" "b \<le> length (wasm_types types)" "length m = a"
  shows "register_group_step S types ((es, m), t) (a, b) = Ok ((es @ [e], m @ is), incr_ref_count e t)"
proof -
  have "skel (incr_ref_count e t) e = Some (key, is)"
    using g incr_ref_count_frame [of t e] by (simp add: group_registered_def same_frame_def)
  then show ?thesis
    using g ab key push_engine_types [OF ab(3) g(2)]
    by (auto simp: register_group_step_def register_rec_group_def group_registered_def skel_entries
        collect_types [OF ab(2)])
qed

lemma register_groups_inv:
  assumes slab: "slab_contract S ok"
    and bound: "slab_len S (slab_types s0) + 3 * length (wasm_types types) < 2 ^ 32"
    and "tiles a gs (length (wasm_types types))" and "list_all (group_wf (wasm_types types)) gs"
    and "module_loop_inv S ok ext s0 a ((es, m), s)"
  shows "\<exists>es' m' s'. for_each (register_group_step S types) ((es, m), s) gs = Ok ((es @ es', m @ m'), s') \<and>
    module_loop_inv S ok ext s0 (length (wasm_types types)) ((es @ es', m @ m'), s') \<and> grows S s s' \<and>
    length es' = length gs \<and>
    (\<forall>t us. grows S s' t \<longrightarrow> (\<exists>t'. same_frame t t' \<and>
       for_each (register_group_step S types) ((us, m), t) gs = Ok ((us @ es', m @ m'), t')))"
  using assms(3-5)
proof (induction gs arbitrary: a es m s)
  case Nil
  then show ?case
    by (intro exI [of _ "[]"] exI [of _ s]) (auto intro: same_frame_refl)
next
  case (Cons g gs)
  obtain b where g: "g = (a, b)" "a < b" "tiles b gs (length (wasm_types types))"
    using Cons.prems(1) by (cases g) auto
  have b: "b \<le> length (wasm_types types)" using g(3) by (rule tiles_le)
  have wf: "group_wf (wasm_types types) (a, b)" using Cons.prems(2) g(1) by simp
  have len: "length m = a" using Cons.prems(3) by (simp add: module_loop_inv_def)
  obtain e "is" key s1 where s1:
    "register_group_step S types ((es, m), s) (a, b) = Ok ((es @ [e], m @ is), s1)"
    "module_loop_inv S ok ext s0 b ((es @ [e], m @ is), s1)" "grows S s s1"
    "canonical_rec_group m (a, b) (map (\<lambda>i. wasm_types types ! i) [a..<b]) = Ok key"
    "group_registered key e is s1" "length is = b - a"
    using register_group_step_inv [OF slab Cons.prems(3) wf g(2) b bound] by blast
  obtain es' m' s' where s':
    "for_each (register_group_step S types) ((es @ [e], m @ is), s1) gs =
       Ok (((es @ [e]) @ es', (m @ is) @ m'), s')"
    "module_loop_inv S ok ext s0 (length (wasm_types types)) (((es @ [e]) @ es', (m @ is) @ m'), s')"
    "grows S s1 s'" "length es' = length gs" and
    again: "\<And>t us. grows S s' t \<Longrightarrow> \<exists>t'. same_frame t t' \<and>
       for_each (register_group_step S types) ((us, m @ is), t) gs = Ok ((us @ es', (m @ is) @ m'), t')"
    using Cons.IH [OF g(3) _ s1(2)] Cons.prems(2) by auto
  have "\<exists>t'. same_frame t t' \<and> for_each (register_group_step S types) ((us, m), t) (g # gs) =
      Ok ((us @ (e # es'), m @ (is @ m')), t')" if t: "grows S s' t" for t us
  proof -
    have reg: "group_registered key e is t"
      using group_registered_grows [OF s1(5) grows_trans [OF s'(3) t]] .
    have "grows S s' (incr_ref_count e t)"
      using grows_trans [OF t same_frame_grows [OF incr_ref_count_frame]] .
    from again [OF this, of "us @ [e]"] show ?thesis
      using register_group_step_again [OF s1(4) reg s1(6) g(2) b len, of S us] g(1)
      by (auto intro: same_frame_trans [OF incr_ref_count_frame])
  qed
  then show ?case
    using s1(1) s' g(1) grows_trans [OF s1(3) s'(3)]
    by (intro exI [of _ "e # es'"] exI [of _ "is @ m'"] exI [of _ s']) auto
qed

lemma module_loop_inv_init:
  "registry_inv S ok ext s \<Longrightarrow> module_loop_inv S ok ext s 0 (([], []), s)"
  by (simp add: module_loop_inv_def)

end
