(* ===== verification/Type_Registry_Sys.thy ===== *)
theory Type_Registry_Sys
  imports Type_Registry_Reg
begin

text \<open>
  The type registry in use: a transition system whose states are the registry and the values that
  own registrations (collections of registered modules, and registered types), with one step per
  public operation of \<open>src/src/type_registry.rs\<close>. The invariant of \<open>Type_Registry_Inv\<close> holds in every
  reachable state, so no operation panics or runs for ever, and nothing leaks. The last section
  takes the steps at the granularity the lock gives them, where dropping a registered type
  decrements the count before it takes the lock.
\<close>

section \<open>Sequential use\<close>

type_synonym 's registry_system =
  "'s TypeRegistryInner \<times> RuntimeTypeCollection list \<times> RegisteredType list"

text \<open>The units of each entry that the living values own.\<close>

definition owned :: "RuntimeTypeCollection list \<Rightarrow> RegisteredType list \<Rightarrow> entry_id \<Rightarrow> nat" where
  "owned cs rs e =
     (\<Sum>c\<leftarrow>cs. count_list (collection_rec_groups c) e) + count_list (map rt_entry rs) e"

inductive registry_step ::
  "'s slab_ops \<Rightarrow> 's registry_system \<Rightarrow> 's registry_system \<Rightarrow> bool" for S where
  step_register: "module_types_wf types \<Longrightarrow>
     slab_len S (slab_types s) + 3 * length (wasm_types types) < 2 ^ 32 \<Longrightarrow>
     register_module_types S types s = Ok (c, s') \<Longrightarrow>
     registry_step S (s, cs, rs) (s', c # cs, rs)"
| step_drop_collection: "drop_type_collection S c s = Some (Ok s') \<Longrightarrow>
     registry_step S (s, cs @ c # ds, rs) (s', cs @ ds, rs)"
| step_get_type: "get_type S i s = Ok (Some r, s') \<Longrightarrow>
     registry_step S (s, cs, rs) (s', cs, r # rs)"
| step_clone: "r \<in> set rs \<Longrightarrow> clone_registered_type r s = (r', s') \<Longrightarrow>
     registry_step S (s, cs, rs) (s', cs, r' # rs)"
| step_drop_type: "drop_registered_type S r s = Some (Ok s') \<Longrightarrow>
     registry_step S (s, cs, rs @ r # qs) (s', cs, rs @ qs)"

inductive registry_reachable :: "'s slab_ops \<Rightarrow> 's \<Rightarrow> 's registry_system \<Rightarrow> bool" for S slab where
  reach_init: "registry_reachable S slab (registry_default slab, [], [])"
| reach_step: "registry_reachable S slab x \<Longrightarrow> registry_step S x y \<Longrightarrow> registry_reachable S slab y"

inductive_cases registry_stepE: "registry_step S (s, cs, rs) y"

lemma owned_simps:
  "owned [] [] e = 0"
  "owned (cs @ c # ds) rs e = owned (cs @ ds) rs e + count_list (collection_rec_groups c) e"
  "owned (c # cs) rs e = owned cs rs e + count_list (collection_rec_groups c) e"
  "owned cs (rs @ r # qs) e = owned cs (rs @ qs) e + (if rt_entry r = e then 1 else 0)"
  "owned cs (r # rs) e = owned cs rs e + (if rt_entry r = e then 1 else 0)"
  by (auto simp: owned_def)

lemma registry_inv_default:
  assumes "ok slab" and "slab_get S slab = Map.empty"
  shows "registry_inv S ok (\<lambda>_. 0) (registry_default slab)"
  using assms
  by (auto simp: registry_inv_def loop_inv_def struct_inv_def counts_inv_def registry_default_def
      live_def)

subsection \<open>Every operation keeps the invariant\<close>

lemma register_module_types_inv:
  assumes slab: "slab_contract S ok" and inv: "registry_inv S ok ext s" and wf: "module_types_wf types"
    and bound: "slab_len S (slab_types s) + 3 * length (wasm_types types) < 2 ^ 32"
  shows "\<exists>c s'. register_module_types S types s = Ok (c, s') \<and>
    registry_inv S ok (\<lambda>e. ext e + count_list (collection_rec_groups c) e) s' \<and> grows S s s' \<and>
    length (collection_rec_groups c) = length (rec_groups types) \<and>
    length (type_map c) = length (wasm_types types) \<and>
    set (type_map c) \<subseteq> dom (slab_get S (slab_types s')) \<and>
    (\<forall>t. grows S s' t \<longrightarrow> (\<exists>t'. same_frame t t' \<and> register_module_types S types t = Ok (c, t')))"
proof -
  have "tiles 0 (rec_groups types) (length (wasm_types types))"
    "list_all (group_wf (wasm_types types)) (rec_groups types)"
    using wf by (auto simp: module_types_wf_def)
  from register_groups_inv [OF slab bound this module_loop_inv_init [OF inv]]
  obtain es m s' where r:
    "for_each (register_group_step S types) (([], []), s) (rec_groups types) = Ok ((es, m), s')"
    "module_loop_inv S ok ext s (length (wasm_types types)) ((es, m), s')" "grows S s s'"
    "length es = length (rec_groups types)" and
    again: "\<forall>t us. grows S s' t \<longrightarrow> (\<exists>t'. same_frame t t' \<and>
       for_each (register_group_step S types) ((us, []), t) (rec_groups types) = Ok ((us @ es, m), t'))"
    by auto
  have "dom (slab_get S (slab_types s')) = dom (type_to_rec_group s')"
    using r(2) by (simp add: module_loop_inv_def registry_inv_def loop_inv_def struct_inv_def)
  then have "set m \<subseteq> dom (slab_get S (slab_types s'))"
    using r(2) by (auto simp: module_loop_inv_def)
  moreover have "\<exists>t'. same_frame t t' \<and>
      register_module_types S types t = Ok (\<lparr>collection_rec_groups = es, type_map = m\<rparr>, t')"
    if "grows S s' t" for t
    using again [rule_format, OF that, of "[]"] by (auto simp: register_module_types_def)
  ultimately show ?thesis
    using r by (auto simp: register_module_types_def module_loop_inv_def)
qed

lemma drop_type_collection_inv:
  assumes slab: "slab_contract S ok"
    and inv: "registry_inv S ok (\<lambda>e. ext e + count_list (collection_rec_groups c) e) s"
  shows "\<exists>s'. drop_type_collection S c s = Some (Ok s') \<and> registry_inv S ok ext s' \<and> shrinks S s s'"
  using release_entries_inv [OF slab inv] inv
  by (auto simp: drop_type_collection_def unregister_type_collection_def)

lemma get_type_inv:
  assumes inv: "registry_inv S ok ext s"
  shows "case slab_get S (slab_types s) i of
      None \<Rightarrow> get_type S i s = Ok (None, s)
    | Some ty \<Rightarrow> \<exists>e s'. get_type S i s = Ok (Some \<lparr>rt_entry = e, rt_ty = ty, rt_index = i\<rparr>, s') \<and>
        registry_inv S ok (ext(e := ext e + 1)) s' \<and> same_frame s s' \<and>
        type_to_rec_group s i = Some e"
proof (cases "slab_get S (slab_types s) i")
  case None
  then show ?thesis by (simp add: get_type_def)
next
  case (Some ty)
  have st: "struct_inv S ok s" using inv by (simp add: registry_inv_def loop_inv_def)
  with Some obtain e where e: "type_to_rec_group s i = Some e"
    unfolding struct_inv_def by (metis domD domI)
  have live: "e \<in> live s" using st e by (rule struct_inv_ttrg_live)
  have "entries s e \<noteq> None" using st live by (rule live_entry)
  then have "map_option registrations (entries (incr_ref_count e s) e) \<noteq> Some 0"
    by (auto simp: incr_ref_count_def)
  then show ?thesis
    using Some e incr_ref_count_inv [OF inv live] incr_ref_count_frame [of s e]
    by (auto simp: get_type_def Let_def)
qed

lemma clone_registered_type_inv:
  assumes inv: "registry_inv S ok ext s" and "0 < ext (rt_entry r)"
  shows "registry_inv S ok (ext(rt_entry r := ext (rt_entry r) + 1)) (snd (clone_registered_type r s))"
proof -
  have "rt_entry r \<in> live s"
    using assms by (auto simp: registry_inv_def loop_inv_def counts_inv_def)
  then show ?thesis using incr_ref_count_inv [OF inv] by (simp add: clone_registered_type_def)
qed

lemma registry_inv_cong: "registry_inv S ok ext s \<Longrightarrow> (\<And>e. ext e = ext' e) \<Longrightarrow> registry_inv S ok ext' s"
  by (metis ext)

lemma registry_step_inv:
  assumes slab: "slab_contract S ok" and step: "registry_step S (s, cs, rs) (s', cs', rs')"
    and inv: "registry_inv S ok (owned cs rs) s"
  shows "registry_inv S ok (owned cs' rs') s'"
  using step
proof cases
  case (step_register types c)
  from register_module_types_inv [OF slab inv step_register(3,4)] step_register(5)
  have "registry_inv S ok (\<lambda>e. owned cs rs e + count_list (collection_rec_groups c) e) s'"
    by auto
  then show ?thesis
    using step_register by (auto elim!: registry_inv_cong simp: owned_simps)
next
  case (step_drop_collection c us ds)
  have "registry_inv S ok (\<lambda>e. owned (us @ ds) rs e + count_list (collection_rec_groups c) e) s"
    using inv step_drop_collection by (auto elim!: registry_inv_cong simp: owned_simps)
  from drop_type_collection_inv [OF slab this] show ?thesis
    using step_drop_collection by auto
next
  case (step_get_type i r)
  then have "registry_inv S ok ((owned cs rs)(rt_entry r := owned cs rs (rt_entry r) + 1)) s'"
    using get_type_inv [OF inv, of i] by (auto split: option.splits)
  then show ?thesis
    using step_get_type by (auto elim!: registry_inv_cong simp: owned_simps)
next
  case (step_clone r r')
  then have "0 < owned cs rs (rt_entry r)"
    by (auto simp: owned_def count_list_0_iff)
  from clone_registered_type_inv [OF inv this] show ?thesis
    using step_clone by (auto elim!: registry_inv_cong simp: owned_simps clone_registered_type_def)
next
  case (step_drop_type r us qs)
  have "0 < owned cs rs (rt_entry r)" using step_drop_type by (auto simp: owned_simps)
  from release_entry_inv [OF slab inv this] show ?thesis
    using step_drop_type
    by (auto elim!: registry_inv_cong simp: owned_simps drop_registered_type_def)
qed

lemma registry_reachable_inv:
  assumes slab: "slab_contract S ok" "ok slab" "slab_get S slab = Map.empty"
    and "registry_reachable S slab (s, cs, rs)"
  shows "registry_inv S ok (owned cs rs) s"
  using assms(4)
proof (induction "(s, cs, rs)" arbitrary: s cs rs)
  case reach_init
  show ?case
    using registry_inv_default [of ok slab S] slab by (auto elim!: registry_inv_cong simp: owned_simps)
next
  case (reach_step x)
  then show ?case
    using registry_step_inv [OF slab(1)] by (metis prod_cases3)
qed


section \<open>A slab that meets the contract\<close>

text \<open>A slab that never reuses an index: an instance of the parameter for concrete runs.\<close>

type_synonym list_slab = "WasmSubType option list"

definition list_slab_ops :: "list_slab slab_ops" where
  "list_slab_ops = \<lparr>
     slab_alloc = \<lambda>t x. (length t, t @ [Some x]),
     slab_dealloc = \<lambda>t i. if i < length t \<and> t ! i \<noteq> None then Ok (t[i := None])
       else Panic ''attempted to deallocate a free slot'',
     slab_get = \<lambda>t i. if i < length t then t ! i else None,
     slab_len = \<lambda>t. length (filter (\<lambda>x. x \<noteq> None) t)\<rparr>"

lemma list_slab_get_snoc:
  "slab_get list_slab_ops (t @ [x]) = (slab_get list_slab_ops t)(length t := x)"
  by (auto simp: list_slab_ops_def fun_eq_iff nth_append)

lemma list_slab_card:
  "finite (dom (slab_get list_slab_ops t)) \<and>
   card (dom (slab_get list_slab_ops t)) = slab_len list_slab_ops t"
proof (induction t rule: rev_induct)
  case Nil
  then show ?case by (simp add: list_slab_ops_def dom_def)
next
  case (snoc x t)
  have "length t \<notin> dom (slab_get list_slab_ops t)" by (simp add: list_slab_ops_def domIff)
  moreover have "slab_len list_slab_ops (t @ [x]) = slab_len list_slab_ops t + (if x = None then 0 else 1)"
    by (simp add: list_slab_ops_def)
  ultimately show ?case unfolding list_slab_get_snoc dom_fun_upd using snoc by simp
qed

lemma list_slab_contract: "slab_contract list_slab_ops (\<lambda>_. True)"
proof -
  have "slab_get list_slab_ops (t[i := None]) = (slab_get list_slab_ops t)(i := None)" for t i
    by (auto simp: list_slab_ops_def fun_eq_iff nth_list_update)
  moreover have "slab_get list_slab_ops (t @ [Some x]) = (slab_get list_slab_ops t)(length t \<mapsto> x)" for t x
    by (rule list_slab_get_snoc)
  ultimately show ?thesis
    using list_slab_card unfolding slab_contract_def
    by (auto simp: list_slab_ops_def split: if_splits)
qed

lemma list_slab_empty: "slab_get list_slab_ops [] = Map.empty"
  by (simp add: list_slab_ops_def fun_eq_iff)

text \<open>Sample types: \<open>(func)\<close>, and \<open>(func (param (ref null i)))\<close> for an earlier function type \<open>i\<close>.\<close>

definition plain_func :: WasmSubType where
  "plain_func = \<lparr>is_final = True, supertype = None,
     composite_type = new_func False \<lparr>params = [], results = []\<rparr>\<rparr>"

definition func_taking :: "ModuleInternedTypeIndex \<Rightarrow> WasmSubType" where
  "func_taking i = \<lparr>is_final = True, supertype = None,
     composite_type = new_func False \<lparr>params = [Ref \<lparr>nullable = True,
       heap_type = heap_type_new False (HT_ConcreteFunc (Module i))\<rparr>], results = []\<rparr>\<rparr>"

definition two_groups :: ModuleTypes where
  "two_groups = \<lparr>wasm_types = [plain_func, func_taking 0], rec_groups = [(0, 1), (1, 2)],
     seen_types = Map.empty\<rparr>"

lemma two_groups_wf: "module_types_wf two_groups"
  by code_simp

lemma list_registry_inv: "registry_inv list_slab_ops (\<lambda>_. True) (\<lambda>_. 0) (registry_default [])"
  by (rule registry_inv_default) (simp_all add: list_slab_empty)

lemma two_groups_reachable:
  "\<exists>c s. register_module_types list_slab_ops two_groups (registry_default []) = Ok (c, s) \<and>
     registry_inv list_slab_ops (\<lambda>_. True) (\<lambda>e. 0 + count_list (collection_rec_groups c) e) s \<and>
     registry_reachable list_slab_ops [] (s, [c], [])"
proof -
  have bound: "slab_len list_slab_ops (slab_types (registry_default [])) + 3 * length (wasm_types two_groups)
      < 2 ^ 32"
    by (simp add: two_groups_def registry_default_def list_slab_ops_def)
  from register_module_types_inv [OF list_slab_contract list_registry_inv two_groups_wf bound]
  obtain c s where c: "register_module_types list_slab_ops two_groups (registry_default []) = Ok (c, s)"
    "registry_inv list_slab_ops (\<lambda>_. True) (\<lambda>e. 0 + count_list (collection_rec_groups c) e) s"
    by blast
  then show ?thesis
    by (blast intro: reach_init reach_step step_register [OF two_groups_wf bound])
qed

section \<open>Properties of the registry\<close>

text \<open>C2.
  Registering a module's types never panics and keeps the registry's invariant: the module gets one
  engine index per type, each of them known to the registry, and one unit of the registration count
  of each of its recursion groups; what was registered before is left alone.
\<close>

theorem register_module_types_ok:
  assumes "slab_contract S ok" and "registry_inv S ok ext s" and "module_types_wf types"
    and "slab_len S (slab_types s) + 3 * length (wasm_types types) < 2 ^ 32"
  shows "\<exists>c s'. register_module_types S types s = Ok (c, s') \<and>
    registry_inv S ok (\<lambda>e. ext e + count_list (collection_rec_groups c) e) s' \<and> grows S s s' \<and>
    length (collection_rec_groups c) = length (rec_groups types) \<and>
    length (type_map c) = length (wasm_types types) \<and>
    (\<forall>i < length (wasm_types types). \<exists>j. lookup_shared_type c i = Some j \<and>
       slab_get S (slab_types s') j \<noteq> None)"
proof -
  obtain c s' where c: "register_module_types S types s = Ok (c, s')"
    "registry_inv S ok (\<lambda>e. ext e + count_list (collection_rec_groups c) e) s'" "grows S s s'"
    "length (collection_rec_groups c) = length (rec_groups types)"
    "length (type_map c) = length (wasm_types types)"
    "set (type_map c) \<subseteq> dom (slab_get S (slab_types s'))"
    using register_module_types_inv [OF assms] by blast
  have "\<exists>j. lookup_shared_type c i = Some j \<and> slab_get S (slab_types s') j \<noteq> None"
    if "i < length (wasm_types types)" for i
    using that c(5,6) nth_mem [of i "type_map c"] by (force simp: lookup_shared_type_def)
  with c show ?thesis by blast
qed

theorem register_module_types_ok_witness:
  "\<exists>c s'. register_module_types list_slab_ops two_groups (registry_default []) = Ok (c, s') \<and>
    length (type_map c) = 2"
  using register_module_types_ok [OF list_slab_contract list_registry_inv two_groups_wf]
  by (auto simp: two_groups_def registry_default_def list_slab_ops_def)



text \<open>C5.
  Dropping a module's collection always ends without a panic, gives back exactly the units the
  collection owned, keeps the invariant, and leaves the types that others still own untouched: the
  entry, the engine indices and the stored types of every entry with an owner stay as they are.
\<close>

theorem drop_type_collection_ok:
  assumes "slab_contract S ok"
    and "registry_inv S ok (\<lambda>e. ext e + count_list (collection_rec_groups c) e) s"
  shows "\<exists>s'. drop_type_collection S c s = Some (Ok s') \<and> registry_inv S ok ext s' \<and>
    (\<forall>e i. 0 < ext e \<and> type_to_rec_group s i = Some e \<longrightarrow>
       type_to_rec_group s' i = Some e \<and>
       slab_get S (slab_types s') i = slab_get S (slab_types s) i)"
proof -
  obtain s' where s': "drop_type_collection S c s = Some (Ok s')" "registry_inv S ok ext s'"
    "shrinks S s s'"
    using drop_type_collection_inv [OF assms] by blast
  have st: "struct_inv S ok s" and st': "struct_inv S ok s'"
    using assms(2) s'(2) by (auto simp: registry_inv_def loop_inv_def)
  have "type_to_rec_group s' i = Some e \<and> slab_get S (slab_types s') i = slab_get S (slab_types s) i"
    if e: "0 < ext e" and i: "type_to_rec_group s i = Some e" for e i
  proof -
    have "e \<in> live s'" using s'(2) e by (auto simp: registry_inv_def loop_inv_def counts_inv_def)
    then obtain k where k: "hash_consing_map s' k = Some e" by (auto simp: live_key)
    then have k0: "hash_consing_map s k = Some e"
      using s'(3) by (force simp: shrinks_def map_le_def)
    obtain "is" js where "skel s e = Some (k, is)" "skel s' e = Some (k, js)"
      "\<And>i. type_to_rec_group s i = Some e \<longleftrightarrow> i \<in> set is"
      "\<And>i. type_to_rec_group s' i = Some e \<longleftrightarrow> i \<in> set js"
      using struct_inv_keyD [OF st k0] struct_inv_keyD [OF st' k] by metis
    then have *: "type_to_rec_group s' i = Some e" using i s'(3) by (auto simp: shrinks_def)
    then have "i \<in> dom (slab_get S (slab_types s'))" using st' by (auto simp: struct_inv_def)
    then show ?thesis using * s'(3) by (auto simp: shrinks_def map_le_def)
  qed
  with s' show ?thesis by blast
qed

theorem drop_type_collection_ok_witness:
  "\<exists>c s' s''. register_module_types list_slab_ops two_groups (registry_default []) = Ok (c, s') \<and>
     drop_type_collection list_slab_ops c s' = Some (Ok s'') \<and>
     registry_inv list_slab_ops (\<lambda>_. True) (\<lambda>_. 0) s''"
proof -
  obtain c s' where c: "register_module_types list_slab_ops two_groups (registry_default []) = Ok (c, s')"
    "registry_inv list_slab_ops (\<lambda>_. True) (\<lambda>e. 0 + count_list (collection_rec_groups c) e) s'"
    using two_groups_reachable by blast
  with drop_type_collection_ok [OF list_slab_contract c(2)] show ?thesis by blast
qed

text \<open>C6.
  In every state that sequential use of the registry reaches (registering and dropping modules,
  looking up, cloning and dropping types, in any order), the registration count of each entry is
  exact, and every drop that is possible returns: no step panics and the unregistration loop ends.
\<close>

theorem registry_reachable_safe:
  assumes "slab_contract S ok" and "ok slab" and "slab_get S slab = Map.empty"
    and "registry_reachable S slab (s, cs, rs)"
  shows "registry_inv S ok (owned cs rs) s \<and>
    (\<forall>c\<in>set cs. \<exists>s'. drop_type_collection S c s = Some (Ok s')) \<and>
    (\<forall>r\<in>set rs. \<exists>s'. drop_registered_type S r s = Some (Ok s')) \<and>
    (\<forall>i. \<exists>r s'. get_type S i s = Ok (r, s'))"
proof (intro conjI ballI allI)
  show inv: "registry_inv S ok (owned cs rs) s" by (rule registry_reachable_inv [OF assms])
  show "\<exists>s'. drop_type_collection S c s = Some (Ok s')" if c: "c \<in> set cs" for c
  proof -
    obtain us ds where "cs = us @ c # ds" using split_list [OF c] by blast
    then have "registry_inv S ok (\<lambda>e. owned (us @ ds) rs e + count_list (collection_rec_groups c) e) s"
      using inv by (auto elim!: registry_inv_cong simp: owned_simps)
    from drop_type_collection_inv [OF assms(1) this] show ?thesis by blast
  qed
  show "\<exists>s'. drop_registered_type S r s = Some (Ok s')" if "r \<in> set rs" for r
  proof -
    have "0 < owned cs rs (rt_entry r)" using that by (auto simp: owned_def count_list_0_iff)
    from release_entry_inv [OF assms(1) inv this] show ?thesis
      by (auto simp: drop_registered_type_def)
  qed
  show "\<exists>r s'. get_type S i s = Ok (r, s')" for i
    using get_type_inv [OF inv, of i] by (auto split: option.splits)
qed

theorem registry_reachable_safe_witness:
  "\<exists>c s s'. register_module_types list_slab_ops two_groups (registry_default []) = Ok (c, s) \<and>
     drop_type_collection list_slab_ops c s = Some (Ok s')"
proof -
  obtain c s where "register_module_types list_slab_ops two_groups (registry_default []) = Ok (c, s)"
    "registry_reachable list_slab_ops [] (s, [c], [])"
    using two_groups_reachable by blast
  with registry_reachable_safe [OF list_slab_contract TrueI list_slab_empty] show ?thesis
    by fastforce
qed

text \<open>C22.
  Nothing leaks: in every reachable state in which all collections and all registered types have
  been dropped, the registry is empty, so the assertions of its own destructor hold.
\<close>

theorem registry_drop_asserts:
  assumes "slab_contract S ok" and "ok slab" and "slab_get S slab = Map.empty"
    and "registry_reachable S slab (s, [], [])"
  shows "registry_is_empty S s"
  using registry_inv_unowned [OF assms(1) registry_reachable_inv [OF assms]]
  by (simp add: owned_simps)

theorem registry_drop_asserts_witness:
  "\<exists>c s s'. register_module_types list_slab_ops two_groups (registry_default []) = Ok (c, s) \<and>
     drop_type_collection list_slab_ops c s = Some (Ok s') \<and> registry_is_empty list_slab_ops s'"
proof -
  obtain c s where c: "register_module_types list_slab_ops two_groups (registry_default []) = Ok (c, s)"
    "registry_inv list_slab_ops (\<lambda>_. True) (\<lambda>e. 0 + count_list (collection_rec_groups c) e) s"
    "registry_reachable list_slab_ops [] (s, [c], [])"
    using two_groups_reachable by blast
  obtain s' where s': "drop_type_collection list_slab_ops c s = Some (Ok s')"
    using drop_type_collection_inv [OF list_slab_contract c(2)] by blast
  have "registry_reachable list_slab_ops [] (s', [], [])"
    using reach_step [OF c(3)] step_drop_collection [OF s', of "[]" "[]"] by simp
  from registry_drop_asserts [OF list_slab_contract TrueI list_slab_empty this] show ?thesis
    using c(1) s' by blast
qed


section \<open>Where the source goes wrong\<close>

text \<open>
  A recursion group whose second type takes a reference to its first, after another group: the
  index of the first type within the group is 1, the group starts at 1.
\<close>

definition group_with_inner_reference :: ModuleTypes where
  "group_with_inner_reference = \<lparr>wasm_types = [func_taking 0, plain_func, func_taking 1],
     rec_groups = [(0, 1), (1, 3)], seen_types = Map.empty\<rparr>"


text \<open>
  The registry used by several threads. Dropping a \<open>RegisteredType\<close> first decrements the count, with
  an atomic operation, and takes the write lock only afterwards, when it saw the count reach zero.
  A state has the living registered types and the entries whose dropping thread has seen zero and
  waits for the lock.
\<close>

inductive racing_step ::
  "'s slab_ops \<Rightarrow> 's TypeRegistryInner \<times> RegisteredType list \<times> entry_id list \<Rightarrow>
     's TypeRegistryInner \<times> RegisteredType list \<times> entry_id list \<Rightarrow> bool" for S where
  race_get: "get_type S i s = Ok (Some r, s') \<Longrightarrow> racing_step S (s, rs, ps) (s', r # rs, ps)"
| race_decr: "decr_ref_count (rt_entry r) s = Ok (zero, s') \<Longrightarrow>
     racing_step S (s, rs @ r # qs, ps)
       (s', rs @ qs, if zero then rt_entry r # ps else ps)"
| race_unregister: "unregister_entry S e s = Some (Ok s') \<Longrightarrow>
     racing_step S (s, rs, ps @ e # qs) (s', rs, ps @ qs)"

text \<open>One function type, owned by one registered type.\<close>

definition plain_entry :: "nat \<Rightarrow> RecGroupEntry" where
  "plain_entry n = \<lparr>hash_consing_key = WasmRecGroup [plain_func], shared_type_indices = [0],
     registrations = n\<rparr>"

definition plain_registry :: "nat \<Rightarrow> list_slab TypeRegistryInner" where
  "plain_registry n = \<lparr>hash_consing_map = [WasmRecGroup [plain_func] \<mapsto> 0],
     type_to_rec_group = [0 \<mapsto> 0], slab_types = [Some plain_func], drop_stack = [],
     entries = [0 \<mapsto> plain_entry n], next_entry = 1\<rparr>"

definition plain_handle :: RegisteredType where
  "plain_handle = \<lparr>rt_entry = 0, rt_ty = plain_func, rt_index = 0\<rparr>"

definition plain_unregistered :: "list_slab TypeRegistryInner" where
  "plain_unregistered = \<lparr>hash_consing_map = Map.empty, type_to_rec_group = Map.empty,
     slab_types = [None], drop_stack = [], entries = [0 \<mapsto> plain_entry 0], next_entry = 1\<rparr>"

lemma plain_get: "get_type list_slab_ops 0 (plain_registry n) = Ok (Some plain_handle, plain_registry (Suc n))"
  by (simp add: get_type_def plain_registry_def list_slab_ops_def incr_ref_count_def plain_handle_def
      plain_entry_def)

lemma plain_decr: "decr_ref_count 0 (plain_registry (Suc n)) = Ok (n = 0, plain_registry n)"
  by (simp add: decr_ref_count_def plain_registry_def plain_entry_def sub_chk_def)

lemma plain_func_edges: "edges_sub_type plain_func = []"
  by code_simp

lemma plain_canonical: "is_canonicalized_for_hash_consing (WasmRecGroup [plain_func])"
  by code_simp

lemma plain_unregister: "unregister_entry list_slab_ops 0 (plain_registry 0) = Some (Ok plain_unregistered)"
  by (simp add: unregister_entry_def plain_registry_def plain_entry_def unregister_loop.simps
      unregister_popped_def plain_canonical trace_rec_group_edges plain_func_edges unlink_type_def
      list_slab_ops_def plain_unregistered_def del: trace_rec_group.simps)

text \<open>C27.
  Two threads can unregister the same entry: after the first thread's decrement to zero and before
  it gets the lock, a second thread looks the type up (the count is one again), drops it (zero
  again) and unregisters the entry. When the first thread gets the lock, the count is still zero,
  and unregistering the entry again panics. The re-check of the count under the lock does not
  notice that the entry is gone.
\<close>

theorem double_unregistration:
  "\<exists>s. (racing_step list_slab_ops)\<^sup>*\<^sup>* (plain_registry 1, [plain_handle], []) (s, [], [0]) \<and>
     unregister_entry list_slab_ops 0 s =
       Some (Panic ''called `Option::unwrap()` on a `None` value'')"
proof -
  let ?step = "racing_step list_slab_ops"
  have 1: "?step (plain_registry 1, [plain_handle], []) (plain_registry 0, [], [0])"
    using race_decr [of plain_handle "plain_registry 1" True "plain_registry 0" _ "[]" "[]" "[]"]
      plain_decr [of 0] by (simp add: plain_handle_def)
  have 2: "?step (plain_registry 0, [], [0]) (plain_registry 1, [plain_handle], [0])"
    using race_get [OF plain_get [of 0], of "[]" "[0]"] by simp
  have 3: "?step (plain_registry 1, [plain_handle], [0]) (plain_registry 0, [], [0, 0])"
    using race_decr [of plain_handle "plain_registry 1" True "plain_registry 0" _ "[]" "[]" "[0]"]
      plain_decr [of 0] by (simp add: plain_handle_def)
  have 4: "?step (plain_registry 0, [], [0, 0]) (plain_unregistered, [], [0])"
    using race_unregister [OF plain_unregister, of "[]" "[]" "[0]"] by simp
  have "?step\<^sup>*\<^sup>* (plain_registry 1, [plain_handle], []) (plain_unregistered, [], [0])"
    using 1 2 3 4 by (meson converse_rtranclp_into_rtranclp rtranclp.rtrancl_refl)
  moreover have "unregister_entry list_slab_ops 0 plain_unregistered =
      Some (Panic ''called `Option::unwrap()` on a `None` value'')"
    by (simp add: unregister_entry_def plain_unregistered_def plain_entry_def unregister_loop.simps
        unregister_popped_def plain_canonical trace_rec_group_edges plain_func_edges unlink_type_def
        del: trace_rec_group.simps)
  ultimately show ?thesis by blast
qed

end
