(* ===== verification/Translated_Module.thy ===== *)
theory Translated_Module
  imports Module_Types
begin

text \<open>
  The data the translator produces: constant expressions (\<open>src/src/translate/const_expr.rs\<close>) and the
  translated module with its descriptions (\<open>src/src/translate/mod.rs\<close>). Functions, tables, memories
  and globals live in index spaces that start with the imported entities; the locale \<open>index_split\<close>
  states what the conversions between an index space and its defined part promise, and it is
  interpreted for the four spaces.
\<close>

section \<open>Constant expressions\<close>

text \<open>The operators of \<open>wasmparser\<close> that the conversion matches on; all others are \<open>O_Other\<close>.\<close>

datatype wp_Operator =
    O_I32Const int | O_I64Const int | O_F32Const nat | O_F64Const nat | O_V128Const "nat list"
  | O_RefNull | O_RefFunc nat | O_GlobalGet nat | O_RefI31
  | O_I32Add | O_I32Sub | O_I32Mul | O_I64Add | O_I64Sub | O_I64Mul
  | O_End | O_Other string

datatype ConstOp =
    I32Const int | I64Const int | F32Const nat | F64Const nat | V128Const nat
  | GlobalGet GlobalIndex | RefI31 | RefNull | RefFunc FuncIndex
  | I32Add | I32Sub | I32Mul | I64Add | I64Sub | I64Mul

record ConstExpr =
  ops :: "ConstOp list"

text \<open>\<open>u128::from_le_bytes\<close>.\<close>

fun from_le_bytes :: "nat list \<Rightarrow> nat" where
  "from_le_bytes [] = 0"
| "from_le_bytes (b # bs) = b + 256 * from_le_bytes bs"

fun const_op_from_wasmparser :: "wp_Operator \<Rightarrow> nat \<Rightarrow> ConstOp result" where
  "const_op_from_wasmparser (O_I32Const value) offset = Ok (I32Const value)"
| "const_op_from_wasmparser (O_I64Const value) offset = Ok (I64Const value)"
| "const_op_from_wasmparser (O_F32Const value) offset = Ok (F32Const value)"
| "const_op_from_wasmparser (O_F64Const value) offset = Ok (F64Const value)"
| "const_op_from_wasmparser (O_V128Const value) offset = Ok (V128Const (from_le_bytes value))"
| "const_op_from_wasmparser O_RefNull offset = Ok RefNull"
| "const_op_from_wasmparser (O_RefFunc function_index) offset = Ok (RefFunc function_index)"
| "const_op_from_wasmparser (O_GlobalGet global_index) offset = Ok (GlobalGet global_index)"
| "const_op_from_wasmparser O_RefI31 offset = Ok RefI31"
| "const_op_from_wasmparser O_I32Add offset = Ok I32Add"
| "const_op_from_wasmparser O_I32Sub offset = Ok I32Sub"
| "const_op_from_wasmparser O_I32Mul offset = Ok I32Mul"
| "const_op_from_wasmparser O_I64Add offset = Ok I64Add"
| "const_op_from_wasmparser O_I64Sub offset = Ok I64Sub"
| "const_op_from_wasmparser O_I64Mul offset = Ok I64Mul"
| "const_op_from_wasmparser op offset = Err (Unsupported ''unsupported opcode in const expression'')"

text \<open>
  The loop of \<open>ConstExpr::from_wasmparser\<close> over the operators with their offsets; the reader may
  fail at any of them.
\<close>

type_synonym wp_ConstExpr = "(wp_Operator \<times> nat) result list"

fun const_expr_loop ::
  "wp_ConstExpr \<Rightarrow> ConstOp list \<Rightarrow> FuncIndex list \<Rightarrow> (ConstExpr \<times> FuncIndex list) result" where
  "const_expr_loop [] acc escaped = Ok (\<lparr>ops = acc\<rparr>, escaped)"
| "const_expr_loop (item # iter) acc escaped =
     and_then item (\<lambda>(op, offset).
       if op = O_End \<and> iter = [] then Ok (\<lparr>ops = acc\<rparr>, escaped)
       else and_then (const_op_from_wasmparser op offset)
              (\<lambda>c. const_expr_loop iter (acc @ [c])
                 (case op of O_RefFunc f \<Rightarrow> escaped @ [f] | _ \<Rightarrow> escaped)))"

definition const_expr_from_wasmparser :: "wp_ConstExpr \<Rightarrow> (ConstExpr \<times> FuncIndex list) result" where
  "const_expr_from_wasmparser expr = const_expr_loop expr [] []"

text \<open>The functions a constant expression refers to.\<close>

definition func_refs_of :: "ConstOp list \<Rightarrow> FuncIndex list" where
  "func_refs_of cs = concat (map (\<lambda>c. case c of RefFunc f \<Rightarrow> [f] | _ \<Rightarrow> []) cs)"

lemma func_refs_of_simps [simp]:
  "func_refs_of [] = []" "func_refs_of (xs @ ys) = func_refs_of xs @ func_refs_of ys"
  by (simp_all add: func_refs_of_def)

lemma const_op_func_ref:
  "const_op_from_wasmparser op off = Ok c \<Longrightarrow>
     func_refs_of [c] = (case op of O_RefFunc f \<Rightarrow> [f] | _ \<Rightarrow> [])"
  by (cases op) (auto simp: func_refs_of_def)

lemma const_expr_loop_escaped:
  assumes "const_expr_loop items acc (func_refs_of acc) = Ok (e, esc)"
  shows "esc = func_refs_of (ops e)"
  using assms
proof (induction items arbitrary: acc)
  case (Cons item iter)
  from Cons.prems obtain op off where item: "item = Ok (op, off)" by auto
  show ?case
  proof (cases "op = O_End \<and> iter = []")
    case True
    with Cons.prems item show ?thesis by auto
  next
    case False
    with Cons.prems item obtain c where c: "const_op_from_wasmparser op off = Ok c"
      "const_expr_loop iter (acc @ [c]) (case op of O_RefFunc f \<Rightarrow> func_refs_of acc @ [f]
         | _ \<Rightarrow> func_refs_of acc) = Ok (e, esc)"
      by auto
    have "(case op of O_RefFunc f \<Rightarrow> func_refs_of acc @ [f] | _ \<Rightarrow> func_refs_of acc) =
        func_refs_of (acc @ [c])"
      using const_op_func_ref [OF c(1)] by (cases op) auto
    with Cons.IH [of "acc @ [c]"] c(2) show ?thesis by simp
  qed
qed auto

section \<open>Descriptions from the parser\<close>

record wp_TableType =
  wpt_element_type :: wp_RefType
  wpt_table64 :: bool
  wpt_initial :: nat
  wpt_maximum :: "nat option"
  wpt_shared :: bool

record wp_MemoryType =
  wpm_initial :: nat
  wpm_maximum :: "nat option"
  wpm_shared :: bool
  wpm_memory64 :: bool
  wpm_page_size_log2 :: "nat option"

record wp_GlobalType =
  wpg_content_type :: wp_ValType
  wpg_mutable :: bool
  wpg_shared :: bool

definition table_desc_from_wasmparser ::
  "ModuleTypes \<Rightarrow> ModuleInternedTypeIndex list \<Rightarrow> wp_TableType \<Rightarrow> TableDesc result" where
  "table_desc_from_wasmparser types module_types ty =
     map_ok (\<lambda>t. \<lparr>table_element_type = t, table64 = wpt_table64 ty, table_minimum = wpt_initial ty,
          table_maximum = wpt_maximum ty, table_shared = wpt_shared ty\<rparr>)
       (convert_ref_type types module_types (wpt_element_type ty))"

definition memory_desc_from_wasmparser :: "wp_MemoryType \<Rightarrow> MemoryDesc result" where
  "memory_desc_from_wasmparser ty =
     map_ok (\<lambda>log2. \<lparr>memory_minimum = wpm_initial ty, memory_maximum = wpm_maximum ty,
          offset_guard_size = DEFAULT_OFFSET_GUARD_SIZE, page_size_log2 = log2,
          memory64 = wpm_memory64 ty, memory_shared = wpm_shared ty\<rparr>)
       (case wpm_page_size_log2 ty of
          None \<Rightarrow> Ok DEFAULT_PAGE_SIZE_LOG2
        | Some log2 \<Rightarrow> expect (try_into (2 ^ 8) log2) ''called `Result::unwrap()` on an `Err` value'')"

definition global_desc_from_wasmparser ::
  "ModuleTypes \<Rightarrow> ModuleInternedTypeIndex list \<Rightarrow> wp_GlobalType \<Rightarrow> GlobalDesc result" where
  "global_desc_from_wasmparser types module_types ty =
     map_ok (\<lambda>t. \<lparr>content_type = t, global_mutable = wpg_mutable ty, global_shared = wpg_shared ty\<rparr>)
       (convert_val_type types module_types (wpg_content_type ty))"

section \<open>The translated module\<close>

record FunctionDesc =
  signature :: TypeIndex
  func_ref :: FuncRefIndex

definition is_escaping :: "FunctionDesc \<Rightarrow> bool" where
  "is_escaping f \<longleftrightarrow> func_ref f \<noteq> reserved_value"

datatype TableInitialValue = TI_RefNull | TI_ConstExpr ConstExpr

datatype TableSegmentElements = Functions "FuncIndex list" | Expressions "ConstExpr list"

record TableSegment =
  segment_table_index :: TableIndex
  segment_offset :: ConstExpr
  segment_elements :: TableSegmentElements

record TableInitializers =
  initial_values :: "TableInitialValue list"
  segments :: "TableSegment list"

record MemoryInitializer =
  init_memory_index :: MemoryIndex
  init_offset :: ConstExpr
  init_data :: "nat list"

record Import =
  import_module :: string
  import_name :: string
  import_ty :: EntityType

record TranslatedModule =
  mod_name :: "string option"
  mod_types :: "ModuleInternedTypeIndex list"
  mod_functions :: "FunctionDesc list"
  tables :: "TableDesc list"
  memories :: "MemoryDesc list"
  globals :: "GlobalDesc list"
  start_func :: "FuncIndex option"
  mod_imports :: "Import list"
  mod_exports :: "(string \<times> EntityIndex) list"
  global_initializers :: "ConstExpr list"
  table_initializers :: TableInitializers
  memory_initializers :: "MemoryInitializer list"
  passive_table_initializers :: "ElemIndex \<rightharpoonup> TableSegmentElements"
  passive_memory_initializers :: "DataIndex \<rightharpoonup> nat list"
  active_table_initializers :: "ElemIndex set"
  active_memory_initializers :: "DataIndex set"
  num_imported_functions :: nat
  num_imported_tables :: nat
  num_imported_memories :: nat
  num_imported_globals :: nat
  num_escaped_functions :: nat

definition module_default :: TranslatedModule where
  "module_default = \<lparr>mod_name = None, mod_types = [], mod_functions = [], tables = [], memories = [],
     globals = [], start_func = None, mod_imports = [], mod_exports = [], global_initializers = [],
     table_initializers = \<lparr>initial_values = [], segments = []\<rparr>, memory_initializers = [],
     passive_table_initializers = Map.empty, passive_memory_initializers = Map.empty,
     active_table_initializers = {}, active_memory_initializers = {}, num_imported_functions = 0,
     num_imported_tables = 0, num_imported_memories = 0, num_imported_globals = 0,
     num_escaped_functions = 0\<rparr>"

subsection \<open>Index conversions\<close>

definition func_index :: "TranslatedModule \<Rightarrow> DefinedFuncIndex \<Rightarrow> FuncIndex result" where
  "func_index m i = add_chk u32_bound (num_imported_functions m) i"

definition is_imported_func :: "TranslatedModule \<Rightarrow> FuncIndex \<Rightarrow> bool" where
  "is_imported_func m i \<longleftrightarrow> i < num_imported_functions m"

definition defined_func_index :: "TranslatedModule \<Rightarrow> FuncIndex \<Rightarrow> DefinedFuncIndex option" where
  "defined_func_index m i =
     (if is_imported_func m i then None else Some (i - num_imported_functions m))"

definition table_index :: "TranslatedModule \<Rightarrow> DefinedTableIndex \<Rightarrow> TableIndex result" where
  "table_index m i = add_chk u32_bound (num_imported_tables m) i"

definition is_imported_table :: "TranslatedModule \<Rightarrow> TableIndex \<Rightarrow> bool" where
  "is_imported_table m i \<longleftrightarrow> i < num_imported_tables m"

definition defined_table_index :: "TranslatedModule \<Rightarrow> TableIndex \<Rightarrow> DefinedTableIndex option" where
  "defined_table_index m i =
     (if is_imported_table m i then None else Some (i - num_imported_tables m))"

definition is_imported_memory :: "TranslatedModule \<Rightarrow> MemoryIndex \<Rightarrow> bool" where
  "is_imported_memory m i \<longleftrightarrow> i < num_imported_memories m"

definition defined_memory_index :: "TranslatedModule \<Rightarrow> MemoryIndex \<Rightarrow> DefinedMemoryIndex option" where
  "defined_memory_index m i =
     (if is_imported_memory m i then None else Some (i - num_imported_memories m))"

definition global_index :: "TranslatedModule \<Rightarrow> DefinedGlobalIndex \<Rightarrow> GlobalIndex result" where
  "global_index m i = add_chk u32_bound (num_imported_globals m) i"

definition is_imported_global :: "TranslatedModule \<Rightarrow> GlobalIndex \<Rightarrow> bool" where
  "is_imported_global m i \<longleftrightarrow> i < num_imported_globals m"

definition defined_global_index :: "TranslatedModule \<Rightarrow> GlobalIndex \<Rightarrow> DefinedGlobalIndex option" where
  "defined_global_index m i =
     (if is_imported_global m i then None else Some (i - num_imported_globals m))"

definition num_functions :: "TranslatedModule \<Rightarrow> nat result" where
  "num_functions m = expect (try_into u32_bound (length (mod_functions m)))
     ''called `Result::unwrap()` on an `Err` value''"

definition num_tables :: "TranslatedModule \<Rightarrow> nat result" where
  "num_tables m = expect (try_into u32_bound (length (tables m)))
     ''called `Result::unwrap()` on an `Err` value''"

definition num_memories :: "TranslatedModule \<Rightarrow> nat result" where
  "num_memories m = expect (try_into u32_bound (length (memories m)))
     ''called `Result::unwrap()` on an `Err` value''"

definition num_globals :: "TranslatedModule \<Rightarrow> nat result" where
  "num_globals m = expect (try_into u32_bound (length (globals m)))
     ''called `Result::unwrap()` on an `Err` value''"

definition num_defined_tables :: "TranslatedModule \<Rightarrow> nat result" where
  "num_defined_tables m = and_then (num_tables m) (\<lambda>n. sub_chk n (num_imported_tables m))"

definition num_defined_memories :: "TranslatedModule \<Rightarrow> nat result" where
  "num_defined_memories m = and_then (num_memories m) (\<lambda>n. sub_chk n (num_imported_memories m))"

definition num_defined_globals :: "TranslatedModule \<Rightarrow> nat result" where
  "num_defined_globals m = and_then (num_globals m) (\<lambda>n. sub_chk n (num_imported_globals m))"

subsection \<open>The index-space contract\<close>

text \<open>
  What an index space promises: an index is imported or it is the index of exactly one defined
  entity, and the defined entities follow the imported ones in order.
\<close>

locale index_split =
  fixes imported :: "TranslatedModule \<Rightarrow> nat"
    and to_defined :: "TranslatedModule \<Rightarrow> nat \<Rightarrow> nat option"
    and is_imported :: "TranslatedModule \<Rightarrow> nat \<Rightarrow> bool"
  assumes is_imported_iff: "is_imported m i \<longleftrightarrow> i < imported m"
    and to_defined_eq: "to_defined m i = (if is_imported m i then None else Some (i - imported m))"
begin

lemma to_defined_None_iff: "to_defined m i = None \<longleftrightarrow> is_imported m i"
  by (simp add: to_defined_eq)

lemma to_defined_Some_iff: "to_defined m i = Some d \<longleftrightarrow> i = imported m + d"
  by (auto simp: to_defined_eq is_imported_iff)

lemma to_defined_inj: "to_defined m i = Some d \<Longrightarrow> to_defined m j = Some d \<Longrightarrow> i = j"
  by (simp add: to_defined_Some_iff)

text \<open>Filtering the keys of the space by definedness enumerates the defined entities in order.\<close>

lemma defined_keys:
  "imported m \<le> n \<Longrightarrow> List.map_filter (to_defined m) [0..<n] = [0..<n - imported m]"
proof (induction n)
  case (Suc n)
  show ?case
  proof (cases "imported m \<le> n")
    case True
    then show ?thesis
      using Suc.IH by (simp add: List.map_filter_def to_defined_eq is_imported_iff Suc_diff_le)
  next
    case False
    with Suc.prems have "imported m = Suc n" by simp
    then show ?thesis by (auto simp: List.map_filter_def to_defined_eq is_imported_iff)
  qed
qed (simp add: List.map_filter_def)

end

interpretation func_space: index_split num_imported_functions defined_func_index is_imported_func
  by unfold_locales (simp_all add: is_imported_func_def defined_func_index_def)

interpretation table_space: index_split num_imported_tables defined_table_index is_imported_table
  by unfold_locales (simp_all add: is_imported_table_def defined_table_index_def)

interpretation memory_space: index_split num_imported_memories defined_memory_index is_imported_memory
  by unfold_locales (simp_all add: is_imported_memory_def defined_memory_index_def)

interpretation global_space: index_split num_imported_globals defined_global_index is_imported_global
  by unfold_locales (simp_all add: is_imported_global_def defined_global_index_def)

end
