(* ===== verification/Module_Translator.thy ===== *)
theory Module_Translator
  imports Translated_Module
begin

text \<open>
  The module translator of \<open>src/src/translate/module_translator.rs\<close>: it folds the sections of a
  WebAssembly binary into a \<open>ModuleTranslation\<close>. Each section method is one definition; the loop
  over a section's reader is \<open>for_each\<close> over the list of what the reader yields, where any item may
  be a parse error.

  The parser, the validator and the readers of custom sections are the \<open>wasmparser\<close> crate's: the
  parsed items are data, the validator is an abstract state \<open>'v\<close> with the operations of the record
  \<open>validator_ops\<close>. Capacity reservations and tracing have no counterpart. The DWARF sections belong
  to \<open>gimli\<close>: of them only the bytes are kept.
\<close>

section \<open>What the parser yields\<close>

datatype wp_TypeRef =
    TR_Func nat | TR_Table wp_TableType | TR_Memory wp_MemoryType | TR_Global wp_GlobalType | TR_Tag

record wp_Import =
  wpi_module :: string
  wpi_name :: string
  wpi_ty :: wp_TypeRef

datatype wp_TableInit = WTI_RefNull | WTI_Expr wp_ConstExpr

record wp_Table =
  wptab_ty :: wp_TableType
  wptab_init :: wp_TableInit

record wp_Global =
  wpglob_ty :: wp_GlobalType
  wpglob_init_expr :: wp_ConstExpr

datatype wp_ExternalKind = EK_Func | EK_Table | EK_Memory | EK_Tag | EK_Global

record wp_Export =
  wpe_name :: string
  wpe_kind :: wp_ExternalKind
  wpe_index :: nat

datatype wp_ElementItems =
    EI_Functions "nat result list" | EI_Expressions "wp_ConstExpr result list"

datatype wp_ElementKind =
    EKind_Active "nat option" wp_ConstExpr | EKind_Passive | EKind_Declared

record wp_Element =
  wpel_items :: wp_ElementItems
  wpel_kind :: wp_ElementKind

datatype wp_DataKind = DKind_Active nat wp_ConstExpr | DKind_Passive

record wp_Data =
  wpd_kind :: wp_DataKind
  wpd_data :: "nat list"

type_synonym wp_NameMap = "(nat \<times> string) result list"
type_synonym wp_IndirectNameMap = "(nat \<times> wp_NameMap) result list"

datatype wp_Name =
    N_Module string
  | N_Function wp_NameMap | N_Local wp_IndirectNameMap | N_Global wp_NameMap | N_Data wp_NameMap
  | N_Type wp_NameMap | N_Label wp_IndirectNameMap | N_Table wp_NameMap | N_Memory wp_NameMap
  | N_Element wp_NameMap | N_Field wp_IndirectNameMap | N_Tag wp_NameMap | N_Unknown

record wp_ProducersField =
  wpp_name :: string
  wpp_values :: "(string \<times> string) result list"

type_synonym wp_FunctionBody = nat
type_synonym wp_FuncToValidate = nat

datatype Payload =
    P_Version
  | P_TypeSection nat
  | P_ImportSection "wp_Import result list"
  | P_FunctionSection "nat result list"
  | P_TableSection "wp_Table result list"
  | P_MemorySection "wp_MemoryType result list"
  | P_TagSection
  | P_GlobalSection "wp_Global result list"
  | P_ExportSection "wp_Export result list"
  | P_StartSection nat
  | P_ElementSection "wp_Element result list"
  | P_DataCountSection nat
  | P_DataSection "wp_Data result list"
  | P_CodeSectionStart nat nat
  | P_CodeSectionEntry wp_FunctionBody
  | P_CustomSection string "nat list"
  | P_End
  | P_ComponentSection
  | P_Unknown

section \<open>The result of the translation\<close>

datatype WasmFeature =
    THREADS | BULK_MEMORY | EXCEPTIONS | MULTI_VALUE | MUTABLE_GLOBAL | SATURATING_FLOAT_TO_INT
  | SIGN_EXTENSION | SIMD | TAIL_CALL | REFERENCE_TYPES | GC | MEMORY64 | RELAXED_SIMD
  | EXTENDED_CONST | MULTI_MEMORY | SHARED_EVERYTHING_THREADS

record Names =
  name_funcs :: "FuncIndex \<rightharpoonup> string"
  name_locals :: "FuncIndex \<rightharpoonup> (nat \<rightharpoonup> string)"
  name_globals :: "GlobalIndex \<rightharpoonup> string"
  name_data :: "DataIndex \<rightharpoonup> string"
  name_labels :: "FuncIndex \<rightharpoonup> (nat \<rightharpoonup> string)"
  name_types :: "TypeIndex \<rightharpoonup> string"
  name_tables :: "TableIndex \<rightharpoonup> string"
  name_memories :: "MemoryIndex \<rightharpoonup> string"
  name_elements :: "ElemIndex \<rightharpoonup> string"
  name_fields :: "FuncIndex \<rightharpoonup> (nat \<rightharpoonup> string)"
  name_tags :: "TagIndex \<rightharpoonup> string"

datatype ProducersLanguage = PL_Wat | PL_C | PL_Cpp | PL_Rust | PL_JavaScript | PL_Other string

datatype ProducersTool =
    PT_Wabt | PT_Llvm | PT_Clang | PT_Lld | PT_Binaryen | PT_Rustc | PT_WasmBindgen | PT_WasmPack
  | PT_Webassemblyjs | PT_WasmSnip | PT_Javy | PT_Other string

datatype ProducersSdk = PS_Emscripten | PS_Webpack | PS_Other string

record Producers =
  prod_language :: "(ProducersLanguage \<times> string) list"
  prod_processed_by :: "(ProducersTool \<times> string) list"
  prod_sdk :: "(ProducersSdk \<times> string) list"

text \<open>The fields of \<open>gimli::Dwarf\<close> that the translator sets; the empty list is the default.\<close>

record Dwarf =
  debug_abbrev :: "nat list"
  debug_addr :: "nat list"
  dw_debug_info :: "nat list"
  debug_line :: "nat list"
  debug_line_str :: "nat list"
  debug_str :: "nat list"
  debug_str_offsets :: "nat list"
  debug_sup_str :: "nat list option"
  debug_types :: "nat list"
  range_lists :: "nat list \<times> nat list"
  location_lists :: "nat list \<times> nat list"

record DebugInfo =
  dbg_names :: Names
  dbg_producers :: Producers
  code_section_offset :: nat
  dwarf :: Dwarf
  debug_loc :: "nat list"
  debug_loclists :: "nat list"
  debug_ranges :: "nat list"
  debug_rnglists :: "nat list"
  debug_cu_index :: "nat list"
  debug_tu_index :: "nat list"

record FunctionBodyData =
  body_bytes :: wp_FunctionBody
  body_validator :: wp_FuncToValidate

record ModuleTranslation =
  tr_module :: TranslatedModule
  function_bodies :: "FunctionBodyData list"
  debug_info :: DebugInfo
  required_features :: "WasmFeature set"

definition names_default :: Names where
  "names_default = \<lparr>name_funcs = Map.empty, name_locals = Map.empty, name_globals = Map.empty,
     name_data = Map.empty, name_labels = Map.empty, name_types = Map.empty,
     name_tables = Map.empty, name_memories = Map.empty, name_elements = Map.empty,
     name_fields = Map.empty, name_tags = Map.empty\<rparr>"

definition dwarf_default :: Dwarf where
  "dwarf_default = \<lparr>debug_abbrev = [], debug_addr = [], dw_debug_info = [], debug_line = [],
     debug_line_str = [], debug_str = [], debug_str_offsets = [], debug_sup_str = None,
     debug_types = [], range_lists = ([], []), location_lists = ([], [])\<rparr>"

definition debug_info_default :: DebugInfo where
  "debug_info_default = \<lparr>dbg_names = names_default,
     dbg_producers = \<lparr>prod_language = [], prod_processed_by = [], prod_sdk = []\<rparr>,
     code_section_offset = 0, dwarf = dwarf_default, debug_loc = [], debug_loclists = [],
     debug_ranges = [], debug_rnglists = [], debug_cu_index = [], debug_tu_index = []\<rparr>"

definition translation_default :: ModuleTranslation where
  "translation_default = \<lparr>tr_module = module_default, function_bodies = [],
     debug_info = debug_info_default, required_features = {}\<rparr>"

text \<open>
  The validator: \<open>v_payload\<close> is the validation of one section, \<open>v_code_entry\<close> that of one function
  body, \<open>v_types\<close> is \<open>Validator::types(0).unwrap()\<close>. The three readers parse custom sections.
\<close>

record 'v validator_ops =
  v_payload :: "'v \<Rightarrow> Payload \<Rightarrow> 'v result"
  v_code_entry :: "'v \<Rightarrow> wp_FunctionBody \<Rightarrow> (wp_FuncToValidate \<times> 'v) result"
  v_types :: "'v \<Rightarrow> TypesRef"
  v_id :: "'v \<Rightarrow> nat"
  v_reset :: "'v \<Rightarrow> 'v"
  read_target_features :: "nat list \<Rightarrow> (nat \<times> string) list result"
  read_names :: "nat list \<Rightarrow> wp_Name result list"
  read_producers :: "nat list \<Rightarrow> wp_ProducersField result list result"

record 'v ModuleTranslator =
  tr_result :: ModuleTranslation
  validator :: 'v
  tr_types :: ModuleTypesBuilder

definition translator_new :: "'v validator_ops \<Rightarrow> 'v \<Rightarrow> 'v ModuleTranslator" where
  "translator_new V v = \<lparr>tr_result = translation_default, validator = v,
     tr_types = builder_new (v_id V v)\<rparr>"

abbreviation the_module :: "'v ModuleTranslator \<Rightarrow> TranslatedModule" where
  "the_module t \<equiv> tr_module (tr_result t)"

abbreviation set_module :: "TranslatedModule \<Rightarrow> 'v ModuleTranslator \<Rightarrow> 'v ModuleTranslator" where
  "set_module m t \<equiv> t\<lparr>tr_result := (tr_result t)\<lparr>tr_module := m\<rparr>\<rparr>"

abbreviation set_debug_info :: "DebugInfo \<Rightarrow> ModuleTranslation \<Rightarrow> ModuleTranslation" where
  "set_debug_info d r \<equiv> r\<lparr>debug_info := d\<rparr>"

section \<open>Escaping functions\<close>

text \<open>\<open>EntityRef::from_u32\<close> asserts that the number is not the reserved one.\<close>

definition from_u32 :: "nat \<Rightarrow> nat result" where
  "from_u32 x = and_then (assert_that (x < reserved_value) ''assertion failed: x < u32::MAX'') (\<lambda>_. Ok x)"

definition flag_func_as_escaped :: "TranslatedModule \<Rightarrow> FuncIndex \<Rightarrow> TranslatedModule result" where
  "flag_func_as_escaped m i =
     and_then (pm_index (mod_functions m) i)
     (\<lambda>ty. if is_escaping ty then Ok m
       else and_then (from_u32 (num_escaped_functions m))
         (\<lambda>index. map_ok
            (\<lambda>n. m\<lparr>mod_functions := (mod_functions m)[i := ty\<lparr>func_ref := index\<rparr>],
                   num_escaped_functions := n\<rparr>)
            (add_chk u32_bound (num_escaped_functions m) 1)))"

section \<open>Sections\<close>

text \<open>One recursion group of the type section; the state carries the running type index.\<close>

definition translate_rec_group ::
  "'v validator_ops \<Rightarrow> 'v ModuleTranslator \<times> nat \<Rightarrow> nat \<Rightarrow> ('v ModuleTranslator \<times> nat) result" where
  "translate_rec_group V st iter = (case st of (t, type_index) \<Rightarrow>
     let validator_types = v_types V (validator t);
         core_type_id = core_type_at_in_module validator_types type_index;
         rec_group_id = rec_group_id_of validator_types core_type_id
     in and_then (assert_that
          (let es = rec_group_elements_of validator_types rec_group_id in es \<noteq> [] \<and> hd es = core_type_id)
          ''assertion failed: position == Some(0)'')
        (\<lambda>_. and_then (intern_rec_group (mod_types (the_module t)) validator_types rec_group_id (tr_types t))
        (\<lambda>(interned, b). and_then (rec_group_elements (built_types b) interned)
        (\<lambda>elems.
           let m = (the_module t)\<lparr>mod_types := mod_types (the_module t) @ elems\<rparr>
           in map_ok (\<lambda>i. (set_module m (t\<lparr>tr_types := b\<rparr>), i))
                (add_chk u32_bound type_index (length elems))))))"

definition translate_type_section ::
  "'v validator_ops \<Rightarrow> nat \<Rightarrow> 'v ModuleTranslator \<Rightarrow> 'v ModuleTranslator result" where
  "translate_type_section V count t =
     map_ok fst (for_each (translate_rec_group V) (t, 0) [0..<count])"

definition translate_import ::
  "ModuleTypes \<Rightarrow> TranslatedModule \<Rightarrow> wp_Import result \<Rightarrow> TranslatedModule result" where
  "translate_import mtypes m item = and_then item (\<lambda>import.
     and_then
       (case wpi_ty import of
          TR_Func index \<Rightarrow>
            and_then (add_chk u32_bound (num_imported_functions m) 1)
            (\<lambda>n. map_ok (\<lambda>interned_index.
               (ET_Function (Module interned_index),
                m\<lparr>num_imported_functions := n, mod_functions := mod_functions m @
                   [\<lparr>signature = index, func_ref = reserved_value\<rparr>]\<rparr>))
               (pm_index (mod_types m) index))
        | TR_Table ty \<Rightarrow>
            and_then (add_chk u32_bound (num_imported_tables m) 1)
            (\<lambda>n. map_ok (\<lambda>table. (ET_Table table,
                m\<lparr>num_imported_tables := n, tables := tables m @ [table]\<rparr>))
               (table_desc_from_wasmparser mtypes (mod_types m) ty))
        | TR_Memory ty \<Rightarrow>
            and_then (add_chk u32_bound (num_imported_memories m) 1)
            (\<lambda>n. map_ok (\<lambda>memory. (ET_Memory memory,
                m\<lparr>num_imported_memories := n, memories := memories m @ [memory]\<rparr>))
               (memory_desc_from_wasmparser ty))
        | TR_Global ty \<Rightarrow>
            and_then (add_chk u32_bound (num_imported_globals m) 1)
            (\<lambda>n. map_ok (\<lambda>global. (ET_Global global,
                m\<lparr>num_imported_globals := n, globals := globals m @ [global]\<rparr>))
               (global_desc_from_wasmparser mtypes (mod_types m) ty))
        | TR_Tag \<Rightarrow> Panic ''internal error: entered unreachable code'')
       (\<lambda>(index, m'). Ok (m'\<lparr>mod_imports := mod_imports m' @
          [\<lparr>import_module = wpi_module import, import_name = wpi_name import, import_ty = index\<rparr>]\<rparr>)))"

definition translate_function :: "TranslatedModule \<Rightarrow> nat result \<Rightarrow> TranslatedModule result" where
  "translate_function m item =
     map_ok (\<lambda>index. m\<lparr>mod_functions := mod_functions m @
       [\<lparr>signature = index, func_ref = reserved_value\<rparr>]\<rparr>) item"

definition translate_table ::
  "ModuleTypes \<Rightarrow> TranslatedModule \<Rightarrow> wp_Table result \<Rightarrow> TranslatedModule result" where
  "translate_table mtypes m0 item = and_then item (\<lambda>table.
     and_then (table_desc_from_wasmparser mtypes (mod_types m0) (wptab_ty table))
     (\<lambda>plan. let m = m0\<lparr>tables := tables m0 @ [plan]\<rparr> in
       and_then
         (case wptab_init table of
            WTI_RefNull \<Rightarrow> Ok (TI_RefNull, m)
          | WTI_Expr expr \<Rightarrow>
              and_then (const_expr_from_wasmparser expr)
              (\<lambda>(e, escaped). map_ok (Pair (TI_ConstExpr e)) (for_each flag_func_as_escaped m escaped)))
         (\<lambda>(init, m'). Ok (m'\<lparr>table_initializers := (table_initializers m')\<lparr>initial_values :=
            initial_values (table_initializers m') @ [init]\<rparr>\<rparr>))))"

definition translate_memory ::
  "TranslatedModule \<Rightarrow> wp_MemoryType result \<Rightarrow> TranslatedModule result" where
  "translate_memory m item = and_then item (\<lambda>ty.
     map_ok (\<lambda>d. m\<lparr>memories := memories m @ [d]\<rparr>) (memory_desc_from_wasmparser ty))"

definition parse_tag_section :: "'a result" where
  "parse_tag_section = Err (Unsupported ''exception handling'')"

definition translate_global ::
  "ModuleTypes \<Rightarrow> TranslatedModule \<Rightarrow> wp_Global result \<Rightarrow> TranslatedModule result" where
  "translate_global mtypes m0 item = and_then item (\<lambda>global.
     and_then (global_desc_from_wasmparser mtypes (mod_types m0) (wpglob_ty global))
     (\<lambda>d. let m = m0\<lparr>globals := globals m0 @ [d]\<rparr> in
       and_then (const_expr_from_wasmparser (wpglob_init_expr global))
       (\<lambda>(init_expr, escaped). and_then (for_each flag_func_as_escaped m escaped)
       (\<lambda>m'. Ok (m'\<lparr>global_initializers := global_initializers m' @ [init_expr]\<rparr>)))))"

text \<open>\<open>IndexMap::insert\<close>: replace the value of a known key in place, append a new key.\<close>

fun im_insert :: "'k \<Rightarrow> 'v \<Rightarrow> ('k \<times> 'v) list \<Rightarrow> ('k \<times> 'v) list" where
  "im_insert k v [] = [(k, v)]"
| "im_insert k v ((k', v') # xs) = (if k' = k then (k', v) # xs else (k', v') # im_insert k v xs)"

definition translate_export ::
  "ModuleTranslation \<Rightarrow> wp_Export result \<Rightarrow> ModuleTranslation result" where
  "translate_export r item = and_then item (\<lambda>export.
     let index = wpe_index export; name = wpe_name export;
         info = debug_info r; names = dbg_names info;
         named = (\<lambda>n. set_debug_info (info\<lparr>dbg_names := n\<rparr>) r)
     in and_then
       (case wpe_kind export of
          EK_Func \<Rightarrow> map_ok (\<lambda>m. (Function index,
              (named (names\<lparr>name_funcs := (name_funcs names)(index \<mapsto> name)\<rparr>))\<lparr>tr_module := m\<rparr>))
            (flag_func_as_escaped (tr_module r) index)
        | EK_Table \<Rightarrow> Ok (Table index,
              named (names\<lparr>name_tables := (name_tables names)(index \<mapsto> name)\<rparr>))
        | EK_Memory \<Rightarrow> Ok (Memory index,
              named (names\<lparr>name_memories := (name_memories names)(index \<mapsto> name)\<rparr>))
        | EK_Tag \<Rightarrow> Ok (Tag index,
              named (names\<lparr>name_tags := (name_tags names)(index \<mapsto> name)\<rparr>))
        | EK_Global \<Rightarrow> Ok (Global index,
              named (names\<lparr>name_globals := (name_globals names)(index \<mapsto> name)\<rparr>)))
       (\<lambda>(entity, r'). Ok (r'\<lparr>tr_module := (tr_module r')\<lparr>mod_exports :=
          im_insert name entity (mod_exports (tr_module r'))\<rparr>\<rparr>)))"

text \<open>The loop over the expressions of an element segment.\<close>

definition translate_element_expr ::
  "TranslatedModule \<times> ConstExpr list \<Rightarrow> wp_ConstExpr result \<Rightarrow> (TranslatedModule \<times> ConstExpr list) result" where
  "translate_element_expr st item = and_then item (\<lambda>expr.
     and_then (const_expr_from_wasmparser expr)
     (\<lambda>(e, escaped). map_ok (\<lambda>m. (m, snd st @ [e])) (for_each flag_func_as_escaped (fst st) escaped)))"

definition translate_element_items ::
  "TranslatedModule \<Rightarrow> wp_ElementItems \<Rightarrow> (TranslatedModule \<times> TableSegmentElements) result" where
  "translate_element_items m items = (case items of
       EI_Functions funcs \<Rightarrow> map_ok (\<lambda>out. (m, Functions out)) (collect (\<lambda>f. f) funcs)
     | EI_Expressions exprs \<Rightarrow>
         map_ok (\<lambda>(m', out). (m', Expressions out)) (for_each translate_element_expr (m, []) exprs))"

text \<open>The second \<open>match\<close>: an active segment is queued, a passive one stored, a declared one dropped.\<close>

definition place_element ::
  "TranslatedModule \<Rightarrow> ElemIndex \<Rightarrow> TableSegmentElements \<Rightarrow> wp_ElementKind \<Rightarrow> TranslatedModule result" where
  "place_element m elem_index elements kind = (case kind of
       EKind_Active ti offset_expr \<Rightarrow>
         and_then (const_expr_from_wasmparser offset_expr)
         (\<lambda>(offset, escaped). and_then (assert_that (escaped = []) ''assertion failed: escaped.is_empty()'')
         (\<lambda>_. Ok (m\<lparr>table_initializers := (table_initializers m)\<lparr>segments :=
             segments (table_initializers m) @ [\<lparr>segment_table_index = (case ti of Some i \<Rightarrow> i | None \<Rightarrow> 0),
               segment_offset = offset, segment_elements = elements\<rparr>]\<rparr>,
             active_table_initializers := insert elem_index (active_table_initializers m)\<rparr>)))
     | EKind_Passive \<Rightarrow> Ok (m\<lparr>passive_table_initializers :=
           (passive_table_initializers m)(elem_index \<mapsto> elements)\<rparr>)
     | EKind_Declared \<Rightarrow> Ok m)"

definition translate_element ::
  "TranslatedModule \<Rightarrow> nat \<times> wp_Element result \<Rightarrow> TranslatedModule result" where
  "translate_element m p = and_then (snd p) (\<lambda>element.
     and_then (expect (try_into u32_bound (fst p)) ''called `Result::unwrap()` on an `Err` value'')
     (\<lambda>elem_index. and_then (translate_element_items m (wpel_items element))
     (\<lambda>(m', elements). place_element m' elem_index elements (wpel_kind element))))"

definition translate_data ::
  "TranslatedModule \<Rightarrow> nat \<times> wp_Data result \<Rightarrow> TranslatedModule result" where
  "translate_data m p = and_then (snd p) (\<lambda>entry.
     and_then (expect (try_into u32_bound (fst p)) ''called `Result::unwrap()` on an `Err` value'')
     (\<lambda>data_index. case wpd_kind entry of
          DKind_Active memory_index offset_expr \<Rightarrow>
            and_then (const_expr_from_wasmparser offset_expr)
            (\<lambda>(offset, escaped). and_then (assert_that (escaped = []) ''assertion failed: escaped.is_empty()'')
            (\<lambda>_. Ok (m\<lparr>memory_initializers := memory_initializers m @
                [\<lparr>init_memory_index = memory_index, init_offset = offset, init_data = wpd_data entry\<rparr>],
                active_memory_initializers := insert data_index (active_memory_initializers m)\<rparr>)))
        | DKind_Passive \<Rightarrow> Ok (m\<lparr>passive_memory_initializers :=
              (passive_memory_initializers m)(data_index \<mapsto> wpd_data entry)\<rparr>)))"

end
