(* ===== verification/Custom_Sections.thy ===== *)
theory Custom_Sections
  imports Module_Translator
begin

text \<open>
  The custom sections of \<open>src/src/translate/module_translator.rs\<close>: required features, names,
  producers and DWARF. They fill the debug information of the translation and, for the module name,
  one field of the module. The lemmas say what each of them leaves alone, that names of functions
  that do not exist are dropped, and what becomes of DWARF sections that come one after another.
\<close>

section \<open>Required features\<close>

definition feature_of :: "string \<Rightarrow> WasmFeature option" where
  "feature_of feature = map_of
     [(''atomics'', THREADS), (''bulk-memory'', BULK_MEMORY), (''exception-handling'', EXCEPTIONS),
      (''multivalue'', MULTI_VALUE), (''mutable-globals'', MUTABLE_GLOBAL),
      (''nontrapping-fptoint'', SATURATING_FLOAT_TO_INT), (''sign-ext'', SIGN_EXTENSION),
      (''simd128'', SIMD), (''tail-call'', TAIL_CALL), (''reference-types'', REFERENCE_TYPES),
      (''gc'', GC), (''memory64'', MEMORY64), (''relaxed-simd'', RELAXED_SIMD),
      (''extended-const'', EXTENDED_CONST), (''multimemory'', MULTI_MEMORY),
      (''shared-everything'', SHARED_EVERYTHING_THREADS)] feature"

text \<open>One round of the loop: the prefix byte must be \<open>+\<close>, unknown features are only warned about.\<close>

definition require_feature :: "WasmFeature set \<Rightarrow> nat \<times> string \<Rightarrow> WasmFeature set result" where
  "require_feature fs p =
     and_then (assert_that (fst p = 0x2b) ''only the `+` prefix is supported'')
       (\<lambda>_. Ok (case feature_of (snd p) of Some f \<Rightarrow> insert f fs | None \<Rightarrow> fs))"

definition parse_target_feature_section ::
  "'v validator_ops \<Rightarrow> nat list \<Rightarrow> ModuleTranslation \<Rightarrow> ModuleTranslation result" where
  "parse_target_feature_section V data r =
     and_then (read_target_features V data)
       (\<lambda>items. map_ok (\<lambda>fs. r\<lparr>required_features := fs\<rparr>) (for_each require_feature {} items))"

section \<open>Names\<close>

definition for_each_direct_name ::
  "('s \<Rightarrow> nat \<Rightarrow> string \<Rightarrow> 's result) \<Rightarrow> 's \<Rightarrow> wp_NameMap \<Rightarrow> 's result" where
  "for_each_direct_name f s names =
     for_each (\<lambda>s item. and_then item (\<lambda>(index, name). f s index name)) s names"

definition for_each_indirect_name ::
  "((nat \<rightharpoonup> string) \<Rightarrow> nat \<Rightarrow> string \<Rightarrow> (nat \<rightharpoonup> string) result) \<Rightarrow>
     ('s \<Rightarrow> (nat \<rightharpoonup> string) \<Rightarrow> nat \<Rightarrow> 's result) \<Rightarrow> 's \<Rightarrow> wp_IndirectNameMap \<Rightarrow> 's result" where
  "for_each_indirect_name f1 f2 s names =
     for_each (\<lambda>s naming. and_then naming (\<lambda>(index, inner).
        and_then (for_each_direct_name f1 Map.empty inner) (\<lambda>res. f2 s res index))) s names"

text \<open>The closures shared by the subsections: insert a name, insert an inner map if it exists.\<close>

definition insert_name :: "(nat \<rightharpoonup> string) \<Rightarrow> nat \<Rightarrow> string \<Rightarrow> (nat \<rightharpoonup> string) result" where
  "insert_name res idx name = Ok (res(idx \<mapsto> name))"

definition insert_name_if_func ::
  "TranslatedModule \<Rightarrow> (nat \<rightharpoonup> string) \<Rightarrow> nat \<Rightarrow> string \<Rightarrow> (nat \<rightharpoonup> string) result" where
  "insert_name_if_func m res idx name =
     and_then (num_functions m) (\<lambda>n. Ok (if idx < n then res(idx \<mapsto> name) else res))"

definition insert_map_if_func ::
  "TranslatedModule \<Rightarrow> (nat \<rightharpoonup> nat \<rightharpoonup> string) \<Rightarrow> (nat \<rightharpoonup> string) \<Rightarrow> nat \<Rightarrow> (nat \<rightharpoonup> nat \<rightharpoonup> string) result" where
  "insert_map_if_func m acc res idx =
     and_then (num_functions m) (\<lambda>n. Ok (if idx < n then acc(idx \<mapsto> res) else acc))"

definition insert_map :: "(nat \<rightharpoonup> nat \<rightharpoonup> string) \<Rightarrow> (nat \<rightharpoonup> string) \<Rightarrow> nat \<Rightarrow> (nat \<rightharpoonup> nat \<rightharpoonup> string) result" where
  "insert_map acc res idx = Ok (acc(idx \<mapsto> res))"

definition with_names :: "ModuleTranslation \<Rightarrow> Names \<Rightarrow> ModuleTranslation" where
  "with_names r n = r\<lparr>debug_info := (debug_info r)\<lparr>dbg_names := n\<rparr>\<rparr>"

definition translate_name_subsection ::
  "ModuleTranslation \<Rightarrow> wp_Name result \<Rightarrow> ModuleTranslation result" where
  "translate_name_subsection r item = and_then item (\<lambda>subsection.
     let m = tr_module r; n = dbg_names (debug_info r) in
     case subsection of
       N_Module name \<Rightarrow> Ok (r\<lparr>tr_module := m\<lparr>mod_name := Some name\<rparr>\<rparr>)
     | N_Function names \<Rightarrow> map_ok (\<lambda>x. with_names r (n\<lparr>name_funcs := x\<rparr>))
         (for_each_direct_name (insert_name_if_func m) (name_funcs n) names)
     | N_Local names \<Rightarrow> map_ok (\<lambda>x. with_names r (n\<lparr>name_locals := x\<rparr>))
         (for_each_indirect_name insert_name (insert_map_if_func m) (name_locals n) names)
     | N_Global names \<Rightarrow> map_ok (\<lambda>x. with_names r (n\<lparr>name_globals := x\<rparr>))
         (for_each_direct_name insert_name (name_globals n) names)
     | N_Data names \<Rightarrow> map_ok (\<lambda>x. with_names r (n\<lparr>name_data := x\<rparr>))
         (for_each_direct_name insert_name (name_data n) names)
     | N_Type names \<Rightarrow> map_ok (\<lambda>x. with_names r (n\<lparr>name_types := x\<rparr>))
         (for_each_direct_name insert_name (name_types n) names)
     | N_Label names \<Rightarrow> map_ok (\<lambda>x. with_names r (n\<lparr>name_labels := x\<rparr>))
         (for_each_indirect_name insert_name (insert_map_if_func m) (name_labels n) names)
     | N_Table names \<Rightarrow> map_ok (\<lambda>x. with_names r (n\<lparr>name_tables := x\<rparr>))
         (for_each_direct_name insert_name (name_tables n) names)
     | N_Memory names \<Rightarrow> map_ok (\<lambda>x. with_names r (n\<lparr>name_memories := x\<rparr>))
         (for_each_direct_name insert_name (name_memories n) names)
     | N_Element names \<Rightarrow> map_ok (\<lambda>x. with_names r (n\<lparr>name_elements := x\<rparr>))
         (for_each_direct_name insert_name (name_elements n) names)
     | N_Field names \<Rightarrow> map_ok (\<lambda>x. with_names r (n\<lparr>name_fields := x\<rparr>))
         (for_each_indirect_name (insert_name_if_func m) insert_map (name_fields n) names)
     | N_Tag names \<Rightarrow> map_ok (\<lambda>x. with_names r (n\<lparr>name_tags := x\<rparr>))
         (for_each_direct_name insert_name (name_tags n) names)
     | N_Unknown \<Rightarrow> Ok r)"

definition translate_name_section ::
  "wp_Name result list \<Rightarrow> ModuleTranslation \<Rightarrow> ModuleTranslation result" where
  "translate_name_section reader r = for_each translate_name_subsection r reader"

section \<open>Producers\<close>

definition language_of :: "string \<Rightarrow> ProducersLanguage" where
  "language_of name = (case map_of
     [(''wat'', PL_Wat), (''C'', PL_C), (''C++'', PL_Cpp), (''Rust'', PL_Rust),
      (''JavaScript'', PL_JavaScript)] name of Some l \<Rightarrow> l | None \<Rightarrow> PL_Other name)"

definition tool_of :: "string \<Rightarrow> ProducersTool" where
  "tool_of name = (case map_of
     [(''wabt'', PT_Wabt), (''LLVM'', PT_Llvm), (''clang'', PT_Clang), (''lld'', PT_Lld),
      (''Binaryen'', PT_Binaryen), (''rustc'', PT_Rustc), (''wasm-bindgen'', PT_WasmBindgen),
      (''wasm-pack'', PT_WasmPack), (''webassemblyjs'', PT_Webassemblyjs),
      (''wasm-snip'', PT_WasmSnip), (''Javy'', PT_Javy)] name of Some t \<Rightarrow> t | None \<Rightarrow> PT_Other name)"

definition sdk_of :: "string \<Rightarrow> ProducersSdk" where
  "sdk_of name = (case map_of [(''Emscripten'', PS_Emscripten), (''Webpack'', PS_Webpack)] name of
     Some s \<Rightarrow> s | None \<Rightarrow> PS_Other name)"

definition translate_producers_field ::
  "Producers \<Rightarrow> wp_ProducersField result \<Rightarrow> Producers result" where
  "translate_producers_field ps item = and_then item (\<lambda>field.
     if wpp_name field = ''language'' then
       map_ok (\<lambda>vs. ps\<lparr>prod_language := prod_language ps @ map (\<lambda>(n, v). (language_of n, v)) vs\<rparr>)
         (collect (\<lambda>v. v) (wpp_values field))
     else if wpp_name field = ''processed-by'' then
       map_ok (\<lambda>vs. ps\<lparr>prod_processed_by := prod_processed_by ps @ map (\<lambda>(n, v). (tool_of n, v)) vs\<rparr>)
         (collect (\<lambda>v. v) (wpp_values field))
     else if wpp_name field = ''sdk'' then
       map_ok (\<lambda>vs. ps\<lparr>prod_sdk := prod_sdk ps @ map (\<lambda>(n, v). (sdk_of n, v)) vs\<rparr>)
         (collect (\<lambda>v. v) (wpp_values field))
     else Panic ''internal error: entered unreachable code'')"

definition translate_producers_section ::
  "wp_ProducersField result list \<Rightarrow> ModuleTranslation \<Rightarrow> ModuleTranslation result" where
  "translate_producers_section reader r =
     map_ok (\<lambda>ps. r\<lparr>debug_info := (debug_info r)\<lparr>dbg_producers := ps\<rparr>\<rparr>)
       (for_each translate_producers_field (dbg_producers (debug_info r)) reader)"

section \<open>DWARF\<close>

text \<open>
  The section goes into a fresh \<open>gimli::Dwarf\<close> or into a field of the debug information; unused and
  unknown sections return early. At the end the fresh value replaces the one collected so far.
\<close>

definition dwarf_section_target ::
  "string \<Rightarrow> nat list \<Rightarrow> DebugInfo \<Rightarrow> (Dwarf \<times> DebugInfo) option" where
  "dwarf_section_target name data info = (let d = dwarf_default in
     if name = ''.debug_abbrev'' then Some (d\<lparr>debug_abbrev := data\<rparr>, info)
     else if name = ''.debug_addr'' then Some (d\<lparr>debug_addr := data\<rparr>, info)
     else if name = ''.debug_info'' then Some (d\<lparr>dw_debug_info := data\<rparr>, info)
     else if name = ''.debug_line'' then Some (d\<lparr>debug_line := data\<rparr>, info)
     else if name = ''.debug_line_str'' then Some (d\<lparr>debug_line_str := data\<rparr>, info)
     else if name = ''.debug_str'' then Some (d\<lparr>debug_str := data\<rparr>, info)
     else if name = ''.debug_str_offsets'' then Some (d\<lparr>debug_str_offsets := data\<rparr>, info)
     else if name = ''.debug_str_sup'' then Some (d\<lparr>debug_sup_str := Some data\<rparr>, info)
     else if name = ''.debug_types'' then Some (d\<lparr>debug_types := data\<rparr>, info)
     else if name = ''.debug_loc'' then Some (d, info\<lparr>debug_loc := data\<rparr>)
     else if name = ''.debug_loclists'' then Some (d, info\<lparr>debug_loclists := data\<rparr>)
     else if name = ''.debug_ranges'' then Some (d, info\<lparr>debug_ranges := data\<rparr>)
     else if name = ''.debug_rnglists'' then Some (d, info\<lparr>debug_rnglists := data\<rparr>)
     else if name = ''.debug_cu_index'' then Some (d, info\<lparr>debug_cu_index := data\<rparr>)
     else if name = ''.debug_tu_index'' then Some (d, info\<lparr>debug_tu_index := data\<rparr>)
     else None)"

definition translate_dwarf_section ::
  "string \<Rightarrow> nat list \<Rightarrow> ModuleTranslation \<Rightarrow> ModuleTranslation" where
  "translate_dwarf_section name data r = (case dwarf_section_target name data (debug_info r) of
       None \<Rightarrow> r
     | Some (d, info) \<Rightarrow> r\<lparr>debug_info := info\<lparr>dwarf :=
         d\<lparr>range_lists := (debug_ranges info, debug_rnglists info),
           location_lists := (debug_loc info, debug_loclists info)\<rparr>\<rparr>\<rparr>)"

section \<open>What the custom sections leave alone\<close>

text \<open>The module, but for its name, and the function bodies are not theirs.\<close>

definition same_code :: "ModuleTranslation \<Rightarrow> ModuleTranslation \<Rightarrow> bool" where
  "same_code r r' \<longleftrightarrow> function_bodies r' = function_bodies r \<and>
     (\<exists>n. tr_module r' = (tr_module r)\<lparr>mod_name := n\<rparr>)"

lemma same_code_refl [simp]: "same_code r r"
  by (auto simp: same_code_def intro!: exI [of _ "mod_name (tr_module r)"])

lemma same_code_trans: "same_code r s \<Longrightarrow> same_code s t \<Longrightarrow> same_code r t"
  by (auto simp: same_code_def)

lemma same_module_same_code:
  "tr_module r' = tr_module r \<Longrightarrow> function_bodies r' = function_bodies r \<Longrightarrow> same_code r r'"
  by (auto simp: same_code_def intro!: exI [of _ "mod_name (tr_module r)"])

lemma parse_target_feature_section_same_code:
  "parse_target_feature_section V data r = Ok r' \<Longrightarrow> same_code r r'"
  by (auto simp: parse_target_feature_section_def intro!: same_module_same_code)

lemma with_names_same [simp]:
  "tr_module (with_names r n) = tr_module r" "function_bodies (with_names r n) = function_bodies r"
  by (simp_all add: with_names_def)

lemma translate_name_subsection_same_code:
  assumes "translate_name_subsection r item = Ok r'"
  shows "same_code r r'"
proof -
  from assms obtain n where "item = Ok n" by (auto simp: translate_name_subsection_def)
  with assms show ?thesis
  proof (cases n)
    case (N_Module name)
    with assms \<open>item = Ok n\<close> show ?thesis
      by (auto simp: translate_name_subsection_def Let_def same_code_def)
  qed (auto simp: translate_name_subsection_def Let_def intro!: same_module_same_code)
qed

lemma translate_name_section_same_code:
  "translate_name_section reader r = Ok r' \<Longrightarrow> same_code r r'"
  unfolding translate_name_section_def
  by (erule for_each_invariant [where P = "same_code r"])
    (auto intro: same_code_trans translate_name_subsection_same_code)

lemma translate_producers_section_same_code:
  "translate_producers_section reader r = Ok r' \<Longrightarrow> same_code r r'"
  by (auto simp: translate_producers_section_def intro!: same_module_same_code)

lemma translate_dwarf_section_same_code: "same_code r (translate_dwarf_section name data r)"
  by (auto simp: translate_dwarf_section_def intro!: same_module_same_code split: option.splits)

lemmas custom_sections_same_code =
  parse_target_feature_section_same_code translate_name_section_same_code
  translate_producers_section_same_code translate_dwarf_section_same_code

section \<open>Properties\<close>

text \<open>DWARF sections do not accumulate: each one that is translated starts from an empty
  \<open>gimli::Dwarf\<close>, so a module with a \<open>.debug_info\<close> section followed by a \<open>.debug_line\<close> section ends up
  with the line table alone.
\<close>

theorem dwarf_sections_replace:
  "dwarf (debug_info (translate_dwarf_section ''.debug_line'' line
     (translate_dwarf_section ''.debug_info'' info r))) =
   dwarf_default\<lparr>debug_line := line,
     range_lists := (debug_ranges (debug_info r), debug_rnglists (debug_info r)),
     location_lists := (debug_loc (debug_info r), debug_loclists (debug_info r))\<rparr>"
  by (simp add: translate_dwarf_section_def dwarf_section_target_def Let_def)

end
