(* ===== verification/Translate.thy ===== *)
theory Translate
  imports Custom_Sections
begin

text \<open>
  \<open>ModuleTranslator::translate_payload\<close> and \<open>translate\<close> of
  \<open>src/src/translate/module_translator.rs\<close>, and the invariant that the translation of any sequence
  of sections keeps: the index spaces agree with the initializers, the imports are counted, and the
  functions that can escape from the module are numbered without gaps.
\<close>

section \<open>Payloads\<close>

definition starts_with :: "string \<Rightarrow> string \<Rightarrow> bool" where
  "starts_with pre s \<longleftrightarrow> take (length pre) s = pre"

text \<open>\<open>str::trim_end_matches\<close>, on the reversed string.\<close>

function trim_start_matches :: "string \<Rightarrow> string \<Rightarrow> string" where
  "trim_start_matches pat s =
     (if pat \<noteq> [] \<and> starts_with pat s then trim_start_matches pat (drop (length pat) s) else s)"
  by auto
termination
proof (relation "measure (length \<circ> snd)", goal_cases)
  case 1
  then show ?case by simp
next
  case (2 pat s)
  then have "take (length pat) s = pat" and "pat \<noteq> []" by (auto simp: starts_with_def)
  then have "s \<noteq> []" by auto
  then show ?case using \<open>pat \<noteq> []\<close> by simp
qed

declare trim_start_matches.simps [simp del]

definition is_debug_section :: "string \<Rightarrow> bool" where
  "is_debug_section name \<longleftrightarrow>
     starts_with ''.debug_'' (rev (trim_start_matches (rev ''.dwo'') (rev name)))"

text \<open>Run a section method that only touches the module.\<close>

definition on_module ::
  "(TranslatedModule \<Rightarrow> TranslatedModule result) \<Rightarrow> 'v ModuleTranslator \<Rightarrow> 'v ModuleTranslator result" where
  "on_module f t = map_ok (\<lambda>m. set_module m t) (f (the_module t))"

definition on_result ::
  "(ModuleTranslation \<Rightarrow> ModuleTranslation result) \<Rightarrow> 'v ModuleTranslator \<Rightarrow> 'v ModuleTranslator result" where
  "on_result f t = map_ok (\<lambda>r. t\<lparr>tr_result := r\<rparr>) (f (tr_result t))"

definition translate_custom_section ::
  "'v validator_ops \<Rightarrow> string \<Rightarrow> nat list \<Rightarrow> ModuleTranslation \<Rightarrow> ModuleTranslation result" where
  "translate_custom_section V name data r =
     (if name = ''target_features'' then parse_target_feature_section V data r
      else if name = ''name'' then translate_name_section (read_names V data) r
      else if name = ''producers'' then
        and_then (read_producers V data) (\<lambda>reader. translate_producers_section reader r)
      else if is_debug_section name then Ok (translate_dwarf_section name data r)
      else Ok r)"

text \<open>What a section does once the validator has accepted it.\<close>

definition translate_section ::
  "'v validator_ops \<Rightarrow> 'v ModuleTranslator \<Rightarrow> Payload \<Rightarrow> 'v ModuleTranslator result" where
  "translate_section V t p = (case p of
       P_TypeSection count \<Rightarrow> translate_type_section V count t
     | P_ImportSection items \<Rightarrow>
         on_module (\<lambda>m. for_each (translate_import (built_types (tr_types t))) m items) t
     | P_FunctionSection items \<Rightarrow> on_module (\<lambda>m. for_each translate_function m items) t
     | P_TableSection items \<Rightarrow>
         on_module (\<lambda>m. for_each (translate_table (built_types (tr_types t))) m items) t
     | P_MemorySection items \<Rightarrow> on_module (\<lambda>m. for_each translate_memory m items) t
     | P_TagSection \<Rightarrow> parse_tag_section
     | P_GlobalSection items \<Rightarrow>
         on_module (\<lambda>m. for_each (translate_global (built_types (tr_types t))) m items) t
     | P_ExportSection items \<Rightarrow> on_result (\<lambda>r. for_each translate_export r items) t
     | P_StartSection func \<Rightarrow> on_module (\<lambda>m. Ok (m\<lparr>start_func := Some func\<rparr>)) t
     | P_ElementSection items \<Rightarrow>
         on_module (\<lambda>m. for_each translate_element m (zip [0..<length items] items)) t
     | P_DataSection items \<Rightarrow>
         on_module (\<lambda>m. for_each translate_data m (zip [0..<length items] items)) t
     | P_CodeSectionStart count start \<Rightarrow>
         on_result (\<lambda>r. Ok (r\<lparr>debug_info := (debug_info r)\<lparr>code_section_offset := start\<rparr>\<rparr>)) t
     | _ \<Rightarrow> Ok t)"

definition translate_payload ::
  "'v validator_ops \<Rightarrow> 'v ModuleTranslator \<Rightarrow> Payload result \<Rightarrow> 'v ModuleTranslator result" where
  "translate_payload V t item = and_then item (\<lambda>p. case p of
       P_CodeSectionEntry body \<Rightarrow>
         and_then (v_code_entry V (validator t) body)
         (\<lambda>(f, v). Ok (t\<lparr>validator := v, tr_result := (tr_result t)\<lparr>function_bodies :=
            function_bodies (tr_result t) @ [\<lparr>body_bytes = body, body_validator = f\<rparr>]\<rparr>\<rparr>))
     | P_CustomSection name data \<Rightarrow> on_result (translate_custom_section V name data) t
     | P_ComponentSection \<Rightarrow> Err (Unsupported ''component model is unsupported'')
     | P_Unknown \<Rightarrow> Ok t
     | _ \<Rightarrow> and_then (v_payload V (validator t) p)
              (\<lambda>v. translate_section V (t\<lparr>validator := v\<rparr>) p))"

definition translate ::
  "'v validator_ops \<Rightarrow> 'v \<Rightarrow> Payload result list \<Rightarrow> ((ModuleTranslation \<times> ModuleTypes) \<times> 'v) result" where
  "translate V v payloads =
     and_then (for_each (translate_payload V) (translator_new V v) payloads)
     (\<lambda>t. let m = the_module t in
        and_then (num_tables m) (\<lambda>nt. and_then (assert_that (num_imported_tables m \<le> nt)
          ''assertion failed: num_tables() >= num_imported_tables'')
        (\<lambda>_. and_then (num_memories m) (\<lambda>nm. and_then (assert_that (num_imported_memories m \<le> nm)
          ''assertion failed: num_memories() >= num_imported_memories'')
        (\<lambda>_. and_then (num_globals m) (\<lambda>ng. and_then (assert_that (num_imported_globals m \<le> ng)
          ''assertion failed: num_globals() >= num_imported_globals'')
        (\<lambda>_. Ok ((tr_result t, builder_finish (tr_types t)), v_reset V (validator t)))))))))"

section \<open>Escaping functions\<close>

definition escapes :: "TranslatedModule \<Rightarrow> FuncIndex \<Rightarrow> bool" where
  "escapes m f \<longleftrightarrow> f < length (mod_functions m) \<and> is_escaping (mod_functions m ! f)"

definition escaped_refs :: "FunctionDesc list \<Rightarrow> FuncRefIndex list" where
  "escaped_refs fs = map func_ref (filter is_escaping fs)"

text \<open>The escaping functions carry the numbers below \<open>num_escaped_functions\<close>, each once.\<close>

definition escaped_wf :: "TranslatedModule \<Rightarrow> bool" where
  "escaped_wf m \<longleftrightarrow> distinct (escaped_refs (mod_functions m)) \<and>
     set (escaped_refs (mod_functions m)) = {..<num_escaped_functions m}"

lemma escaped_refs_simps [simp]:
  "escaped_refs [] = []" "escaped_refs (xs @ ys) = escaped_refs xs @ escaped_refs ys"
  "escaped_refs (f # fs) = (if is_escaping f then [func_ref f] else []) @ escaped_refs fs"
  by (simp_all add: escaped_refs_def)

lemma reserved_not_escaping [simp]: "\<not> is_escaping \<lparr>signature = i, func_ref = reserved_value\<rparr>"
  by (simp add: is_escaping_def)

lemma flag_func_as_escaped_Ok:
  assumes flag: "flag_func_as_escaped m i = Ok m'" and wf: "escaped_wf m"
  shows "escaped_wf m'" and "escapes m' i" and "escapes m f \<Longrightarrow> escapes m' f"
    and "\<exists>fs n. m' = m\<lparr>mod_functions := fs, num_escaped_functions := n\<rparr> \<and>
      length fs = length (mod_functions m)"
proof -
  let ?fs = "mod_functions m"
  from flag have i: "i < length ?fs" by (auto simp: flag_func_as_escaped_def)
  have "escaped_wf m' \<and> escapes m' i \<and> (\<forall>f. escapes m f \<longrightarrow> escapes m' f) \<and>
    (\<exists>fs n. m' = m\<lparr>mod_functions := fs, num_escaped_functions := n\<rparr> \<and> length fs = length ?fs)"
  proof (cases "is_escaping (?fs ! i)")
    case True
    with flag i have "m' = m" by (auto simp: flag_func_as_escaped_def)
    with True i wf show ?thesis
      by (auto simp: escapes_def intro!: exI [of _ "?fs"] exI [of _ "num_escaped_functions m"])
  next
    case False
    let ?n = "num_escaped_functions m"
    let ?y = "(?fs ! i)\<lparr>func_ref := ?n\<rparr>"
    from False flag i have m': "m' = m\<lparr>mod_functions := ?fs[i := ?y], num_escaped_functions := ?n + 1\<rparr>"
      and lt: "?n < reserved_value"
      by (auto simp: flag_func_as_escaped_def from_u32_def)
    have y: "is_escaping ?y" using lt by (simp add: is_escaping_def)
    have old: "escaped_refs ?fs = escaped_refs (take i ?fs) @ escaped_refs (drop (Suc i) ?fs)"
      using False by (subst id_take_nth_drop [OF i]) simp
    have new: "escaped_refs (?fs[i := ?y]) =
        escaped_refs (take i ?fs) @ ?n # escaped_refs (drop (Suc i) ?fs)"
      using y i by (simp add: upd_conv_take_nth_drop)
    have "escaped_wf m'"
      using wf unfolding escaped_wf_def m' by (auto simp: new old lessThan_Suc)
    with y i False m' show ?thesis
      by (auto simp: escapes_def nth_list_update)
  qed
  then show "escaped_wf m'" "escapes m' i" "escapes m f \<Longrightarrow> escapes m' f"
    "\<exists>fs n. m' = m\<lparr>mod_functions := fs, num_escaped_functions := n\<rparr> \<and> length fs = length ?fs"
    by blast+
qed

text \<open>What flagging a list of functions does.\<close>

definition flagged :: "TranslatedModule \<Rightarrow> FuncIndex list \<Rightarrow> TranslatedModule \<Rightarrow> bool" where
  "flagged m fs m' \<longleftrightarrow> escaped_wf m' \<and> (\<forall>f\<in>set fs. escapes m' f) \<and>
     (\<forall>f. escapes m f \<longrightarrow> escapes m' f) \<and>
     (\<exists>gs n. m' = m\<lparr>mod_functions := gs, num_escaped_functions := n\<rparr> \<and>
        length gs = length (mod_functions m))"

lemma flag_funcs:
  assumes "for_each flag_func_as_escaped m fs = Ok m'" and "escaped_wf m"
  shows "flagged m fs m'"
  using assms
proof (induction fs arbitrary: m)
  case Nil
  then show ?case
    by (auto simp: flagged_def intro!: exI [of _ "mod_functions m'"] exI [of _ "num_escaped_functions m'"])
next
  case (Cons f fs)
  from Cons.prems obtain m1 where m1: "flag_func_as_escaped m f = Ok m1"
    "for_each flag_func_as_escaped m1 fs = Ok m'" by auto
  note one = flag_func_as_escaped_Ok [OF m1(1) Cons.prems(2)]
  have "flagged m1 fs m'" using Cons.IH [OF m1(2) one(1)] .
  moreover obtain gs n gs' n' where "m1 = m\<lparr>mod_functions := gs, num_escaped_functions := n\<rparr>"
    "length gs = length (mod_functions m)"
    "m' = m1\<lparr>mod_functions := gs', num_escaped_functions := n'\<rparr>" "length gs' = length (mod_functions m1)"
    using one(4) \<open>flagged m1 fs m'\<close> by (auto simp: flagged_def)
  then have "m' = m\<lparr>mod_functions := gs', num_escaped_functions := n'\<rparr> \<and>
      length gs' = length (mod_functions m)" by simp
  ultimately show ?case
    using one(2,3) unfolding flagged_def by auto
qed

section \<open>The invariant of the module\<close>

fun is_func_type :: "EntityType \<Rightarrow> bool" where
  "is_func_type (ET_Function _) = True" | "is_func_type _ = False"
fun is_table_type :: "EntityType \<Rightarrow> bool" where
  "is_table_type (ET_Table _) = True" | "is_table_type _ = False"
fun is_memory_type :: "EntityType \<Rightarrow> bool" where
  "is_memory_type (ET_Memory _) = True" | "is_memory_type _ = False"
fun is_global_type :: "EntityType \<Rightarrow> bool" where
  "is_global_type (ET_Global _) = True" | "is_global_type _ = False"

definition imports_of :: "(EntityType \<Rightarrow> bool) \<Rightarrow> TranslatedModule \<Rightarrow> nat" where
  "imports_of P m = length (filter (P \<circ> import_ty) (mod_imports m))"

text \<open>The constant expressions that instantiation evaluates.\<close>

definition init_exprs :: "TranslatedModule \<Rightarrow> ConstExpr set" where
  "init_exprs m = set (global_initializers m) \<union>
     {e. TI_ConstExpr e \<in> set (initial_values (table_initializers m))} \<union>
     {e. \<exists>seg\<in>set (segments (table_initializers m)). \<exists>es.
        segment_elements seg = Expressions es \<and> e \<in> set es}"

definition counts_wf :: "TranslatedModule \<Rightarrow> bool" where
  "counts_wf m \<longleftrightarrow>
     length (tables m) = num_imported_tables m + length (initial_values (table_initializers m)) \<and>
     length (globals m) = num_imported_globals m + length (global_initializers m) \<and>
     num_imported_functions m \<le> length (mod_functions m) \<and>
     num_imported_memories m \<le> length (memories m) \<and>
     imports_of is_func_type m = num_imported_functions m \<and>
     imports_of is_table_type m = num_imported_tables m \<and>
     imports_of is_memory_type m = num_imported_memories m \<and>
     imports_of is_global_type m = num_imported_globals m"

definition refs_escape :: "TranslatedModule \<Rightarrow> bool" where
  "refs_escape m \<longleftrightarrow>
     (\<forall>e\<in>init_exprs m. \<forall>f\<in>set (func_refs_of (ops e)). escapes m f) \<and>
     (\<forall>name f. (name, Function f) \<in> set (mod_exports m) \<longrightarrow> escapes m f)"

definition module_inv :: "TranslatedModule \<Rightarrow> bool" where
  "module_inv m \<longleftrightarrow> escaped_wf m \<and> counts_wf m \<and> refs_escape m"

lemma module_inv_default: "module_inv module_default"
  by (simp add: module_inv_def escaped_wf_def counts_wf_def refs_escape_def init_exprs_def
      imports_of_def module_default_def)

lemmas module_inv_defs = module_inv_def escaped_wf_def counts_wf_def refs_escape_def init_exprs_def
  imports_of_def escapes_def

text \<open>
  The frame rule of the invariant: an operation keeps it that keeps the numbering and the counts,
  takes no function out of the escaping ones, and adds expressions and exports only of escaping
  functions.
\<close>

lemma module_inv_update:
  assumes "module_inv m" and "escaped_wf m'" and "\<And>f. escapes m f \<Longrightarrow> escapes m' f"
    and "counts_wf m'"
    and "\<And>e f. e \<in> init_exprs m' \<Longrightarrow> f \<in> set (func_refs_of (ops e)) \<Longrightarrow> e \<in> init_exprs m \<or> escapes m' f"
    and "\<And>name f. (name, Function f) \<in> set (mod_exports m') \<Longrightarrow>
      (name, Function f) \<in> set (mod_exports m) \<or> escapes m' f"
  shows "module_inv m'"
  using assms unfolding module_inv_def refs_escape_def by blast

lemma flagged_module_inv:
  assumes inv: "module_inv m" and fl: "flagged m fs m'"
  shows "module_inv m'" and "mod_types m' = mod_types m"
proof -
  from fl obtain gs n where m': "m' = m\<lparr>mod_functions := gs, num_escaped_functions := n\<rparr>"
    "length gs = length (mod_functions m)" by (auto simp: flagged_def)
  then show "mod_types m' = mod_types m" by simp
  have "counts_wf m'" "init_exprs m' = init_exprs m" "mod_exports m' = mod_exports m"
    using inv m' by (simp_all add: module_inv_def counts_wf_def imports_of_def init_exprs_def)
  then show "module_inv m'"
    using inv fl by (intro module_inv_update [OF inv]) (auto simp: flagged_def)
qed

subsection \<open>Every section keeps the invariant\<close>

text \<open>The operations that do not touch functions, expressions or exports only have to count.\<close>

lemma module_inv_same_funcs:
  assumes inv: "module_inv m" and "mod_functions m' = mod_functions m"
    and "num_escaped_functions m' = num_escaped_functions m"
    and "init_exprs m' \<subseteq> init_exprs m" and "mod_exports m' = mod_exports m" and "counts_wf m'"
  shows "module_inv m'"
  using assms by (intro module_inv_update [OF inv]) (auto simp: module_inv_def escaped_wf_def escapes_def)

lemma counts_wfD: "module_inv m \<Longrightarrow> counts_wf m"
  by (simp add: module_inv_def)

lemma escaped_wf_append:
  assumes "escaped_wf m" and "\<not> is_escaping f"
    and "mod_functions m' = mod_functions m @ [f]" and "num_escaped_functions m' = num_escaped_functions m"
  shows "escaped_wf m'" and "escapes m g \<Longrightarrow> escapes m' g"
  using assms by (auto simp: escaped_wf_def escapes_def nth_append)

lemma translate_function_inv:
  assumes "translate_function m item = Ok m'" and inv: "module_inv m"
  shows "module_inv m' \<and> mod_types m' = mod_types m"
proof -
  from assms obtain i where m': "m' = m\<lparr>mod_functions := mod_functions m @
      [\<lparr>signature = i, func_ref = reserved_value\<rparr>]\<rparr>"
    by (auto simp: translate_function_def)
  have wf: "escaped_wf m" using inv by (simp add: module_inv_def)
  have "escaped_wf m'" "\<And>g. escapes m g \<Longrightarrow> escapes m' g"
    using escaped_wf_append [OF wf reserved_not_escaping [of i], of m'] m' by auto
  moreover have "counts_wf m'" "init_exprs m' = init_exprs m" "mod_exports m' = mod_exports m"
    using inv m' by (auto simp: module_inv_def counts_wf_def imports_of_def init_exprs_def)
  ultimately show ?thesis
    using m' by (auto intro!: module_inv_update [OF inv])
qed

lemma translate_memory_inv:
  assumes "translate_memory m item = Ok m'" and inv: "module_inv m"
  shows "module_inv m' \<and> mod_types m' = mod_types m"
proof -
  from assms obtain d where m': "m' = m\<lparr>memories := memories m @ [d]\<rparr>"
    by (auto simp: translate_memory_def)
  have "module_inv m'"
    using counts_wfD [OF inv] m'
    by (intro module_inv_same_funcs [OF inv]) (auto simp: counts_wf_def imports_of_def init_exprs_def)
  with m' show ?thesis by simp
qed

lemma translate_import_inv:
  assumes "translate_import mt m item = Ok m'" and inv: "module_inv m"
  shows "module_inv m' \<and> mod_types m' = mod_types m"
proof -
  from assms obtain imp where item: "item = Ok imp" by (auto simp: translate_import_def)
  note cw = counts_wfD [OF inv]
  have wf: "escaped_wf m" using inv by (simp add: module_inv_def)
  show ?thesis
  proof (cases "wpi_ty imp")
    case (TR_Func i)
    with assms item obtain t where m': "m' = m\<lparr>num_imported_functions := num_imported_functions m + 1,
        mod_functions := mod_functions m @ [\<lparr>signature = i, func_ref = reserved_value\<rparr>],
        mod_imports := mod_imports m @ [\<lparr>import_module = wpi_module imp, import_name = wpi_name imp,
          import_ty = ET_Function t\<rparr>]\<rparr>"
      by (auto simp: translate_import_def)
    have "escaped_wf m'" "\<And>g. escapes m g \<Longrightarrow> escapes m' g"
      using escaped_wf_append [OF wf reserved_not_escaping [of i], of m'] m' by auto
    moreover have "counts_wf m'" "init_exprs m' = init_exprs m" "mod_exports m' = mod_exports m"
      using cw m' by (auto simp: counts_wf_def imports_of_def init_exprs_def)
    ultimately show ?thesis
      using m' by (auto intro!: module_inv_update [OF inv])
  next
    case (TR_Table ty)
    with assms item obtain d where m': "m' = m\<lparr>num_imported_tables := num_imported_tables m + 1,
        tables := tables m @ [d],
        mod_imports := mod_imports m @ [\<lparr>import_module = wpi_module imp, import_name = wpi_name imp,
          import_ty = ET_Table d\<rparr>]\<rparr>"
      by (auto simp: translate_import_def)
    then have "module_inv m'"
      using cw by (intro module_inv_same_funcs [OF inv]) (auto simp: counts_wf_def imports_of_def init_exprs_def)
    with m' show ?thesis by simp
  next
    case (TR_Memory ty)
    with assms item obtain d where m': "m' = m\<lparr>num_imported_memories := num_imported_memories m + 1,
        memories := memories m @ [d],
        mod_imports := mod_imports m @ [\<lparr>import_module = wpi_module imp, import_name = wpi_name imp,
          import_ty = ET_Memory d\<rparr>]\<rparr>"
      by (auto simp: translate_import_def)
    then have "module_inv m'"
      using cw by (intro module_inv_same_funcs [OF inv]) (auto simp: counts_wf_def imports_of_def init_exprs_def)
    with m' show ?thesis by simp
  next
    case (TR_Global ty)
    with assms item obtain d where m': "m' = m\<lparr>num_imported_globals := num_imported_globals m + 1,
        globals := globals m @ [d],
        mod_imports := mod_imports m @ [\<lparr>import_module = wpi_module imp, import_name = wpi_name imp,
          import_ty = ET_Global d\<rparr>]\<rparr>"
      by (auto simp: translate_import_def)
    then have "module_inv m'"
      using cw by (intro module_inv_same_funcs [OF inv]) (auto simp: counts_wf_def imports_of_def init_exprs_def)
    with m' show ?thesis by simp
  next
    case TR_Tag
    with assms item show ?thesis by (simp add: translate_import_def)
  qed
qed


lemma const_expr_escaped: "const_expr_from_wasmparser x = Ok (e, esc) \<Longrightarrow> esc = func_refs_of (ops e)"
  using const_expr_loop_escaped [of x "[]" e esc] by (simp add: const_expr_from_wasmparser_def)

text \<open>Flagging after a change that does not touch the functions.\<close>

lemma flag_funcs_after:
  assumes fl: "for_each flag_func_as_escaped m1 fs = Ok m2" and inv: "module_inv m"
    and same: "mod_functions m1 = mod_functions m" "num_escaped_functions m1 = num_escaped_functions m"
  obtains gs n where "m2 = m1\<lparr>mod_functions := gs, num_escaped_functions := n\<rparr>"
    "length gs = length (mod_functions m)" "escaped_wf m2" "\<And>f. f \<in> set fs \<Longrightarrow> escapes m2 f"
    "\<And>f. escapes m f \<Longrightarrow> escapes m2 f"
proof -
  have "escaped_wf m1" using inv same by (simp add: module_inv_def escaped_wf_def)
  from flag_funcs [OF fl this] show ?thesis
    using that same by (auto simp: flagged_def escapes_def)
qed

lemma escapes_cong: "mod_functions m' = mod_functions m \<Longrightarrow> escapes m' f = escapes m f"
  by (simp add: escapes_def)

lemma escaped_wf_cong:
  "mod_functions m' = mod_functions m \<Longrightarrow> num_escaped_functions m' = num_escaped_functions m \<Longrightarrow>
     escaped_wf m' = escaped_wf m"
  by (simp add: escaped_wf_def)

lemma translate_global_inv:
  assumes "translate_global mt m item = Ok m'" and inv: "module_inv m"
  shows "module_inv m' \<and> mod_types m' = mod_types m"
proof -
  from assms obtain d e m1 where
    fl: "for_each flag_func_as_escaped (m\<lparr>globals := globals m @ [d]\<rparr>) (func_refs_of (ops e)) = Ok m1" and
    m': "m' = m1\<lparr>global_initializers := global_initializers m1 @ [e]\<rparr>"
    by (auto simp: translate_global_def Let_def dest: const_expr_escaped)
  obtain gs n where m1:
    "m1 = m\<lparr>globals := globals m @ [d], mod_functions := gs, num_escaped_functions := n\<rparr>"
    "length gs = length (mod_functions m)" "escaped_wf m1"
    "\<And>f. f \<in> set (func_refs_of (ops e)) \<Longrightarrow> escapes m1 f" "\<And>f. escapes m f \<Longrightarrow> escapes m1 f"
    by (rule flag_funcs_after [OF fl inv]) auto
  have esc: "escapes m' f = escapes m1 f" for f using m' by (simp add: escapes_def)
  have "counts_wf m'" "mod_exports m' = mod_exports m" "mod_types m' = mod_types m"
    using counts_wfD [OF inv] m1(1,2) m' by (auto simp: counts_wf_def imports_of_def)
  moreover have "init_exprs m' = insert e (init_exprs m)"
    using m1(1) m' by (auto simp: init_exprs_def)
  moreover have "escaped_wf m'" using m1(3) m' by (simp add: escaped_wf_def)
  ultimately show ?thesis
    using m1(4,5) by (auto intro!: module_inv_update [OF inv] simp: esc)
qed

lemma translate_table_inv:
  assumes "translate_table mt m item = Ok m'" and inv: "module_inv m"
  shows "module_inv m' \<and> mod_types m' = mod_types m"
proof -
  from assms obtain t d where item: "item = Ok t" and
    d: "table_desc_from_wasmparser mt (mod_types m) (wptab_ty t) = Ok d"
    by (auto simp: translate_table_def)
  let ?m = "m\<lparr>tables := tables m @ [d]\<rparr>"
  show ?thesis
  proof (cases "wptab_init t")
    case WTI_RefNull
    with assms item d have m': "m' = ?m\<lparr>table_initializers := (table_initializers m)\<lparr>initial_values :=
            initial_values (table_initializers m) @ [TI_RefNull]\<rparr>\<rparr>"
      by (auto simp: translate_table_def Let_def)
    then have "module_inv m'"
      using counts_wfD [OF inv]
      by (intro module_inv_same_funcs [OF inv]) (auto simp: counts_wf_def imports_of_def init_exprs_def)
    with m' show ?thesis by simp
  next
    case (WTI_Expr x)
    with assms item d obtain e m1 where
      fl: "for_each flag_func_as_escaped ?m (func_refs_of (ops e)) = Ok m1" and
      m': "m' = m1\<lparr>table_initializers := (table_initializers m1)\<lparr>initial_values :=
            initial_values (table_initializers m1) @ [TI_ConstExpr e]\<rparr>\<rparr>"
      by (auto simp: translate_table_def Let_def dest: const_expr_escaped)
    obtain gs n where m1: "m1 = ?m\<lparr>mod_functions := gs, num_escaped_functions := n\<rparr>"
      "length gs = length (mod_functions m)" "escaped_wf m1"
      "\<And>f. f \<in> set (func_refs_of (ops e)) \<Longrightarrow> escapes m1 f" "\<And>f. escapes m f \<Longrightarrow> escapes m1 f"
      by (rule flag_funcs_after [OF fl inv]) auto
    have esc: "escapes m' f = escapes m1 f" for f using m' by (simp add: escapes_def)
    have "counts_wf m'" "mod_exports m' = mod_exports m" "mod_types m' = mod_types m"
      using counts_wfD [OF inv] m1(1,2) m' by (auto simp: counts_wf_def imports_of_def)
    moreover have "init_exprs m' = insert e (init_exprs m)"
      using m1(1) m' by (auto simp: init_exprs_def)
    moreover have "escaped_wf m'" using m1(3) m' by (simp add: escaped_wf_def)
    ultimately show ?thesis
      using m1(4,5) by (auto intro!: module_inv_update [OF inv] simp: esc)
  qed
qed

lemma set_im_insert: "set (im_insert k v xs) \<subseteq> insert (k, v) (set xs)"
  by (induction k v xs rule: im_insert.induct) auto

lemma translate_export_inv:
  assumes "translate_export r item = Ok r'" and inv: "module_inv (tr_module r)"
  shows "module_inv (tr_module r') \<and> mod_types (tr_module r') = mod_types (tr_module r)"
proof -
  from assms obtain x where item: "item = Ok x" by (auto simp: translate_export_def Let_def)
  have "\<exists>m1 entity. tr_module r' = m1\<lparr>mod_exports := im_insert (wpe_name x) entity (mod_exports m1)\<rparr> \<and>
    flagged (tr_module r) [] m1 \<and> (\<forall>f. entity = Function f \<longrightarrow> escapes m1 f)"
  proof (cases "wpe_kind x")
    case EK_Func
    with assms item obtain m1 where fl: "flag_func_as_escaped (tr_module r) (wpe_index x) = Ok m1"
      "tr_module r' = m1\<lparr>mod_exports := im_insert (wpe_name x) (Function (wpe_index x)) (mod_exports m1)\<rparr>"
      by (auto simp: translate_export_def Let_def)
    have "flagged (tr_module r) [wpe_index x] m1"
      using flag_funcs [of "tr_module r" "[wpe_index x]" m1] fl(1) inv by (simp add: module_inv_def)
    with fl(2) show ?thesis
      by (intro exI [of _ m1] exI [of _ "Function (wpe_index x)"]) (auto simp: flagged_def)
  qed (use assms item flag_funcs [of "tr_module r" "[]" "tr_module r"] in
      \<open>auto simp: translate_export_def Let_def module_inv_def intro!: exI [of _ "tr_module r"]\<close>)
  then obtain m1 entity where m':
    "tr_module r' = m1\<lparr>mod_exports := im_insert (wpe_name x) entity (mod_exports m1)\<rparr>" and
    m1: "flagged (tr_module r) [] m1" and ent: "\<And>f. entity = Function f \<Longrightarrow> escapes m1 f"
    by blast
  have inv1: "module_inv m1" "mod_types m1 = mod_types (tr_module r)"
    using flagged_module_inv [OF inv m1] by auto
  have "counts_wf (tr_module r')" "init_exprs (tr_module r') = init_exprs m1" "escaped_wf (tr_module r')"
    using inv1(1) m' by (auto simp: module_inv_def counts_wf_def imports_of_def init_exprs_def escaped_wf_def)
  moreover have "escapes (tr_module r') f = escapes m1 f" for f using m' by (simp add: escapes_def)
  moreover have "set (mod_exports (tr_module r')) \<subseteq> insert (wpe_name x, entity) (set (mod_exports m1))"
    using m' set_im_insert by simp
  ultimately have "module_inv (tr_module r')"
    using ent by (intro module_inv_update [OF inv1(1)]) auto
  with inv1(2) m' show ?thesis by simp
qed


lemma translate_element_exprs_inv:
  assumes "for_each translate_element_expr (m, []) items = Ok (m', out)" and inv: "module_inv m"
  shows "module_inv m' \<and> mod_types m' = mod_types m \<and>
    (\<forall>e\<in>set out. \<forall>f\<in>set (func_refs_of (ops e)). escapes m' f)"
proof -
  let ?P = "\<lambda>(m', out). module_inv m' \<and> mod_types m' = mod_types m \<and>
    (\<forall>e\<in>set out. \<forall>f\<in>set (func_refs_of (ops e)). escapes m' f)"
  have "?P st'" if step: "translate_element_expr st item = Ok st'" and P: "?P st" for st item st'
  proof -
    obtain m1 out1 where st: "st = (m1, out1)" by (cases st)
    from step obtain e m2 where fl: "for_each flag_func_as_escaped m1 (func_refs_of (ops e)) = Ok m2"
      and st': "st' = (m2, out1 @ [e])"
      by (auto simp: translate_element_expr_def st dest: const_expr_escaped)
    have inv1: "module_inv m1" using P st by simp
    then have "flagged m1 (func_refs_of (ops e)) m2"
      using flag_funcs [OF fl] by (simp add: module_inv_def)
    with flagged_module_inv [OF inv1 this] P show ?thesis
      by (auto simp: st st' flagged_def)
  qed
  then have "?P (m', out)"
    using for_each_invariant [OF assms(1), of ?P] inv by simp
  then show ?thesis by simp
qed

definition elements_escape :: "TranslatedModule \<Rightarrow> TableSegmentElements \<Rightarrow> bool" where
  "elements_escape m elements \<longleftrightarrow> (\<forall>es e f. elements = Expressions es \<longrightarrow> e \<in> set es \<longrightarrow>
     f \<in> set (func_refs_of (ops e)) \<longrightarrow> escapes m f)"

lemma translate_element_items_inv:
  assumes "translate_element_items m items = Ok (m', elements)" and inv: "module_inv m"
  shows "module_inv m' \<and> mod_types m' = mod_types m \<and> elements_escape m' elements"
proof (cases items)
  case (EI_Functions fs)
  with assms show ?thesis by (auto simp: translate_element_items_def elements_escape_def)
next
  case (EI_Expressions xs)
  with assms obtain out where "for_each translate_element_expr (m, []) xs = Ok (m', out)"
    "elements = Expressions out" by (auto simp: translate_element_items_def)
  with translate_element_exprs_inv [OF _ inv] show ?thesis by (auto simp: elements_escape_def)
qed

lemma place_element_inv:
  assumes pl: "place_element m i elements kind = Ok m'" and inv: "module_inv m"
    and el: "elements_escape m elements"
  shows "module_inv m' \<and> mod_types m' = mod_types m"
proof (cases kind)
  case (EKind_Active ti x)
  with pl obtain off where m': "m' = m\<lparr>table_initializers := (table_initializers m)\<lparr>segments :=
             segments (table_initializers m) @ [\<lparr>segment_table_index = (case ti of Some i \<Rightarrow> i | None \<Rightarrow> 0),
               segment_offset = off, segment_elements = elements\<rparr>]\<rparr>,
             active_table_initializers := insert i (active_table_initializers m)\<rparr>"
    by (auto simp: place_element_def)
  have sub: "init_exprs m' \<subseteq> init_exprs m \<union> {e. \<exists>es. elements = Expressions es \<and> e \<in> set es}"
    by (auto simp: m' init_exprs_def)
  have fields: "counts_wf m'" "escaped_wf m'" "mod_exports m' = mod_exports m"
    using inv by (auto simp: m' module_inv_def counts_wf_def imports_of_def escaped_wf_def)
  have esc: "escapes m' f = escapes m f" for f by (simp add: m' escapes_def)
  have "module_inv m'"
  proof (rule module_inv_update [OF inv fields(2) _ fields(1)])
    show "e \<in> init_exprs m \<or> escapes m' f"
      if "e \<in> init_exprs m'" "f \<in> set (func_refs_of (ops e))" for e f
      using sub that el unfolding esc elements_escape_def by blast
  qed (simp_all add: esc fields)
  with m' show ?thesis by simp
next
  case EKind_Passive
  with pl have m': "m' = m\<lparr>passive_table_initializers := (passive_table_initializers m)(i \<mapsto> elements)\<rparr>"
    by (simp add: place_element_def)
  then have "module_inv m'"
    using counts_wfD [OF inv]
    by (intro module_inv_same_funcs [OF inv]) (auto simp: counts_wf_def imports_of_def init_exprs_def)
  with m' show ?thesis by simp
next
  case EKind_Declared
  with pl inv show ?thesis by (simp add: place_element_def)
qed

lemma translate_element_inv:
  assumes "translate_element m p = Ok m'" and inv: "module_inv m"
  shows "module_inv m' \<and> mod_types m' = mod_types m"
proof -
  from assms(1) obtain el where el: "snd p = Ok el" by (auto simp: translate_element_def)
  with assms(1) obtain m1 elements i where
    "translate_element_items m (wpel_items el) = Ok (m1, elements)"
    "place_element m1 i elements (wpel_kind el) = Ok m'"
    by (auto simp: translate_element_def)
  with translate_element_items_inv [OF _ inv] place_element_inv show ?thesis by metis
qed

lemma translate_data_inv:
  assumes "translate_data m p = Ok m'" and inv: "module_inv m"
  shows "module_inv m' \<and> mod_types m' = mod_types m"
proof -
  from assms(1) obtain d where d: "snd p = Ok d" by (auto simp: translate_data_def)
  with assms(1) have "\<exists>a b c. m' = m\<lparr>memory_initializers := a, active_memory_initializers := b\<rparr> \<or>
      m' = m\<lparr>passive_memory_initializers := c\<rparr>"
    by (cases "wpd_kind d") (auto simp: translate_data_def)
  then have m': "mod_functions m' = mod_functions m" "num_escaped_functions m' = num_escaped_functions m"
    "mod_exports m' = mod_exports m" "mod_types m' = mod_types m" "init_exprs m' = init_exprs m" "counts_wf m'"
    using counts_wfD [OF inv] by (auto simp: init_exprs_def counts_wf_def imports_of_def)
  then show ?thesis by (auto intro!: module_inv_same_funcs [OF inv])
qed

lemmas section_item_inv =
  translate_import_inv translate_function_inv translate_table_inv translate_memory_inv
  translate_global_inv translate_element_inv translate_data_inv

text \<open>The loop over a section's items.\<close>

lemma for_each_module_inv:
  assumes "for_each f m items = Ok m'" and "module_inv m"
    and "\<And>m item m'. f m item = Ok m' \<Longrightarrow> module_inv m \<Longrightarrow> module_inv m' \<and> mod_types m' = mod_types m"
  shows "module_inv m' \<and> mod_types m' = mod_types m"
  using for_each_invariant [OF assms(1), of "\<lambda>m'. module_inv m' \<and> mod_types m' = mod_types m"]
    assms(2,3) by metis

section \<open>The invariant of the translator\<close>

definition types_below :: "'v ModuleTranslator \<Rightarrow> bool" where
  "types_below t \<longleftrightarrow>
     set (mod_types (the_module t)) \<subseteq> {..<length (wasm_types (built_types (tr_types t)))}"

definition translator_inv :: "'v ModuleTranslator \<Rightarrow> bool" where
  "translator_inv t \<longleftrightarrow> builder_inv (tr_types t) \<and> types_below t \<and> module_inv (the_module t)"

lemma translate_rec_group_inv:
  assumes tr: "translate_rec_group V (t, k) i = Ok (t', k')" and inv: "translator_inv t"
  shows "translator_inv t'"
proof -
  let ?m = "the_module t"
  from tr obtain g b interned elems where
    g: "intern_rec_group (mod_types ?m) (v_types V (validator t)) g (tr_types t) = Ok (interned, b)" and
    elems: "rec_group_elements (built_types b) interned = Ok elems" and
    t': "t' = set_module (?m\<lparr>mod_types := mod_types ?m @ elems\<rparr>) (t\<lparr>tr_types := b\<rparr>)"
    by (auto simp: translate_rec_group_def Let_def)
  from inv have bi: "builder_inv (tr_types t)" and tb: "types_below t" and mi: "module_inv ?m"
    by (auto simp: translator_inv_def)
  from intern_rec_group_inv [OF bi _ g] tb obtain new where b: "builder_inv b"
    "wasm_types (built_types b) = wasm_types (built_types (tr_types t)) @ new"
    by (auto simp: types_below_def)
  have "set elems \<subseteq> {..<length (wasm_types (built_types b))}"
    using rec_group_elements_below [OF _ elems] b(1) by (simp add: builder_inv_def)
  then have "types_below t'" using tb b(2) t' by (auto simp: types_below_def)
  moreover have "module_inv (the_module t')"
    using mi counts_wfD [OF mi] t'
    by (intro module_inv_same_funcs [OF mi]) (auto simp: init_exprs_def counts_wf_def imports_of_def)
  ultimately show ?thesis using b(1) t' by (simp add: translator_inv_def)
qed

lemma translate_type_section_inv:
  assumes "translate_type_section V count t = Ok t'" and "translator_inv t"
  shows "translator_inv t'"
proof -
  from assms(1) obtain k where "for_each (translate_rec_group V) (t, 0) [0..<count] = Ok (t', k)"
    by (auto simp: translate_type_section_def)
  from for_each_invariant [OF this, of "\<lambda>st. translator_inv (fst st)"] assms(2) show ?thesis
    by (metis translate_rec_group_inv fst_conv prod.collapse)
qed


lemma on_module_inv:
  assumes "on_module f t = Ok t'" and "translator_inv t"
    and "\<And>m m'. f m = Ok m' \<Longrightarrow> module_inv m \<Longrightarrow> module_inv m' \<and> mod_types m' = mod_types m"
  shows "translator_inv t'"
  using assms by (auto simp: on_module_def translator_inv_def types_below_def)

lemma on_result_inv:
  assumes "on_result f t = Ok t'" and "translator_inv t"
    and "\<And>r r'. f r = Ok r' \<Longrightarrow> module_inv (tr_module r) \<Longrightarrow>
      module_inv (tr_module r') \<and> mod_types (tr_module r') = mod_types (tr_module r)"
  shows "translator_inv t'"
  using assms by (auto simp: on_result_def translator_inv_def types_below_def)

lemma translate_exports_inv:
  assumes "for_each translate_export r items = Ok r'" and "module_inv (tr_module r)"
  shows "module_inv (tr_module r') \<and> mod_types (tr_module r') = mod_types (tr_module r)"
  using for_each_invariant [OF assms(1),
      of "\<lambda>r'. module_inv (tr_module r') \<and> mod_types (tr_module r') = mod_types (tr_module r)"]
    assms(2) translate_export_inv by metis

lemma same_code_inv:
  assumes "same_code r r'" and inv: "module_inv (tr_module r)"
  shows "module_inv (tr_module r') \<and> mod_types (tr_module r') = mod_types (tr_module r)"
proof -
  from assms obtain n where m': "tr_module r' = (tr_module r)\<lparr>mod_name := n\<rparr>"
    by (auto simp: same_code_def)
  then have "module_inv (tr_module r')"
    using counts_wfD [OF inv]
    by (intro module_inv_same_funcs [OF inv]) (auto simp: counts_wf_def imports_of_def init_exprs_def)
  with m' show ?thesis by simp
qed

lemma translate_custom_section_same_code:
  "translate_custom_section V name data r = Ok r' \<Longrightarrow> same_code r r'"
  by (auto simp: translate_custom_section_def split: if_splits intro: custom_sections_same_code)

lemma translate_section_inv:
  assumes "translate_section V t p = Ok t'" and "translator_inv t"
  shows "translator_inv t'"
proof (cases p)
  case (P_TypeSection n)
  with assms show ?thesis by (auto simp: translate_section_def dest: translate_type_section_inv)
next
  case (P_ExportSection items)
  with assms show ?thesis
    by (auto simp: translate_section_def elim!: on_result_inv dest: translate_exports_inv)
next
  case (P_StartSection f)
  have "module_inv (m\<lparr>start_func := Some f\<rparr>)" if "module_inv m" for m
    using counts_wfD [OF that]
    by (intro module_inv_same_funcs [OF that]) (auto simp: counts_wf_def imports_of_def init_exprs_def)
  with P_StartSection assms show ?thesis
    by (auto simp: translate_section_def elim!: on_module_inv)
next
  case (P_CodeSectionStart c n)
  with assms show ?thesis
    by (auto simp: translate_section_def elim!: on_result_inv)
qed (use assms in \<open>auto simp: translate_section_def parse_tag_section_def elim!: on_module_inv
      dest: for_each_module_inv [OF _ _ section_item_inv(1)] for_each_module_inv [OF _ _ section_item_inv(2)]
        for_each_module_inv [OF _ _ section_item_inv(3)] for_each_module_inv [OF _ _ section_item_inv(4)]
        for_each_module_inv [OF _ _ section_item_inv(5)] for_each_module_inv [OF _ _ section_item_inv(6)]
        for_each_module_inv [OF _ _ section_item_inv(7)]\<close>)

lemma translate_payload_inv:
  assumes tr: "translate_payload V t item = Ok t'" and inv: "translator_inv t"
  shows "translator_inv t'"
proof -
  from tr obtain p where item: "item = Ok p" by (auto simp: translate_payload_def)
  have valid: "translator_inv (t\<lparr>validator := v\<rparr>)" for v
    using inv by (simp add: translator_inv_def types_below_def)
  show ?thesis
  proof (cases p)
    case (P_CodeSectionEntry b)
    with tr item inv show ?thesis
      by (auto simp: translate_payload_def translator_inv_def types_below_def)
  next
    case (P_CustomSection name data)
    with tr item inv show ?thesis
      by (auto simp: translate_payload_def elim!: on_result_inv
          dest: translate_custom_section_same_code same_code_inv)
  qed (use tr item inv valid in \<open>auto simp: translate_payload_def dest: translate_section_inv\<close>)
qed

lemma translator_new_inv: "translator_inv (translator_new V v)"
  by (simp add: translator_inv_def types_below_def translator_new_def translation_default_def
      builder_new_inv module_inv_default) (simp add: module_default_def)

lemma translate_payloads_inv:
  assumes "for_each (translate_payload V) (translator_new V v) payloads = Ok t"
  shows "translator_inv t"
  using for_each_invariant [OF assms, of translator_inv] translator_new_inv translate_payload_inv
  by metis


section \<open>Properties\<close>

text \<open>C7.
  Whatever sequence of sections a binary has, a translation that succeeds yields a consistent
  module: the escaping functions are numbered from 0 without gaps or duplicates, there is one
  initializer per defined table and global, the numbers of imported entities agree with the import
  list, every exported function and every function that a constant initializer refers to is
  escaping, and every type of the module is an interned type of a well-formed type collection.
\<close>

theorem translate_consistent:
  assumes "translate V v payloads = Ok ((tr, mtypes), v')"
  shows "module_inv (tr_module tr) \<and> module_types_wf mtypes \<and>
    set (mod_types (tr_module tr)) \<subseteq> {..<length (wasm_types mtypes)}"
proof -
  from assms obtain t where "for_each (translate_payload V) (translator_new V v) payloads = Ok t"
    and t: "tr = tr_result t" "mtypes = built_types (tr_types t)"
    by (auto simp: translate_def Let_def builder_finish_def)
  from translate_payloads_inv [OF this(1)] show ?thesis
    by (auto simp: t translator_inv_def builder_inv_def types_below_def)
qed

text \<open>The debug assertions at the end of \<open>translate\<close> never fire: once all sections are translated and
  the index spaces have fewer than \<open>2 ^ 32\<close> entries, the translation is returned.
\<close>

theorem translate_returns:
  assumes "for_each (translate_payload V) (translator_new V v) payloads = Ok t"
    and "length (tables (the_module t)) < 2 ^ 32" and "length (memories (the_module t)) < 2 ^ 32"
    and "length (globals (the_module t)) < 2 ^ 32"
  shows "translate V v payloads = Ok ((tr_result t, built_types (tr_types t)), v_reset V (validator t))"
  using assms counts_wfD [of "the_module t"] translate_payloads_inv [OF assms(1)]
  by (simp add: translate_def Let_def num_tables_def num_memories_def num_globals_def try_into_def
      builder_finish_def translator_inv_def counts_wf_def)

text \<open>
  A sample: one recursion group of two function types, an imported and a defined function, a
  global that holds a reference to the defined function, and an export of the imported one.
\<close>

definition accepting_validator :: "unit validator_ops" where
  "accepting_validator = \<lparr>v_payload = (\<lambda>_ _. Ok ()), v_code_entry = (\<lambda>_ b. Ok (b, ())),
     v_types = (\<lambda>_. sample_types_ref), v_id = (\<lambda>_. 7), v_reset = (\<lambda>v. v),
     read_target_features = (\<lambda>_. Ok []), read_names = (\<lambda>_. []), read_producers = (\<lambda>_. Ok [])\<rparr>"

definition sample_payloads :: "Payload result list" where
  "sample_payloads = [Ok P_Version, Ok (P_TypeSection 1),
     Ok (P_ImportSection [Ok \<lparr>wpi_module = ''env'', wpi_name = ''f'', wpi_ty = TR_Func 0\<rparr>]),
     Ok (P_FunctionSection [Ok 1]),
     Ok (P_GlobalSection [Ok \<lparr>wpglob_ty = \<lparr>wpg_content_type =
         WP_Ref \<lparr>wp_is_nullable = True, wp_heap_type = WP_Abstract False A_Func\<rparr>,
         wpg_mutable = False, wpg_shared = False\<rparr>,
       wpglob_init_expr = [Ok (O_RefFunc 1, 0), Ok (O_End, 2)]\<rparr>]),
     Ok (P_ExportSection [Ok \<lparr>wpe_name = ''g'', wpe_kind = EK_Func, wpe_index = 0\<rparr>]),
     Ok (P_CodeSectionStart 1 40), Ok (P_CodeSectionEntry 42), Ok P_End]"

lemmas translation_run_defs =
  sample_payloads_def accepting_validator_def sample_types_ref_def translate_payload_def
  translate_section_def translator_new_def translation_default_def module_default_def builder_new_def
  module_types_default_def translate_type_section_def translate_rec_group_def Let_def
  intern_rec_group_def define_new_rec_group_def start_rec_group_def len_wasm_types_def
  next_rec_group_index_def next_type_index_def define_rec_group_element_def convert_sub_type_def
  convert_composite_type_def convert_func_type_def convert_ref_type_def get_wasm_type_def pm_get_def
  concrete_heap_type_def wasm_sub_type_in_rec_group_def push_type_def pm_push_def end_rec_group_def
  push_rec_group_def rec_group_elements_def pm_index_def on_module_def on_result_def
  translate_import_def translate_function_def translate_global_def global_desc_from_wasmparser_def
  const_expr_from_wasmparser_def flag_func_as_escaped_def from_u32_def is_escaping_def reserved_value_def
  translate_export_def new_func_def debug_info_default_def names_default_def add_chk_def upt_rec

lemma sample_translation:
  "\<exists>t. for_each (translate_payload accepting_validator) (translator_new accepting_validator ()) sample_payloads
     = Ok t \<and> length (tables (the_module t)) = 0 \<and> length (memories (the_module t)) = 0 \<and>
     length (globals (the_module t)) = 1 \<and>
     map func_ref (mod_functions (the_module t)) = [1, 0]"
  by (simp add: translation_run_defs)

theorem translate_returns_witness:
  "\<exists>tr mt. translate accepting_validator () sample_payloads = Ok ((tr, mt), ())"
proof -
  obtain t where t: "for_each (translate_payload accepting_validator)
      (translator_new accepting_validator ()) sample_payloads = Ok t"
    "length (tables (the_module t)) = 0" "length (memories (the_module t)) = 0"
    "length (globals (the_module t)) = 1"
    using sample_translation by blast
  from translate_returns [OF t(1)] t(2-4) show ?thesis by simp
qed

theorem translate_consistent_witness:
  "\<exists>tr mt. translate accepting_validator () sample_payloads = Ok ((tr, mt), ()) \<and> module_inv (tr_module tr)"
proof -
  obtain t where t: "for_each (translate_payload accepting_validator)
      (translator_new accepting_validator ()) sample_payloads = Ok t"
    "length (tables (the_module t)) = 0" "length (memories (the_module t)) = 0"
    "length (globals (the_module t)) = 1"
    using sample_translation by blast
  have "num_imported_tables (the_module t) = 0" "num_imported_memories (the_module t) = 0"
    "num_imported_globals (the_module t) \<le> 1"
    using counts_wfD [of "the_module t"] translate_payloads_inv [OF t(1)] t(2-4)
    by (auto simp: translator_inv_def counts_wf_def)
  with t have run: "translate accepting_validator () sample_payloads =
      Ok ((tr_result t, built_types (tr_types t)), ())"
    by (simp add: translate_def Let_def num_tables_def num_memories_def num_globals_def try_into_def
        builder_finish_def)
  from translate_consistent [OF run] run show ?thesis by blast
qed

end
