(* ===== verification/VM_Offsets.thy ===== *)
theory VM_Offsets
  imports Translated_Module
begin

text \<open>
  The layout of a \<open>VMContext\<close>: \<open>src/src/runtime/vmoffsets.rs\<close>, with the sizes and field offsets of
  the \<open>repr(C)\<close> structures of \<open>src/src/runtime/vmcontext.rs\<close> on the supported 64-bit targets. The
  static part has seven pointer-sized fields; eight arrays follow it, whose lengths depend on the
  module. The locale \<open>vmctx_array\<close> is the contract of one array accessor; it is interpreted for the
  eight of them, and the properties show that no two elements of a context overlap.
\<close>

section \<open>Structure sizes\<close>

datatype vm_struct =
    VMFuncRef | VMFunctionImport | VMTableImport | VMMemoryImport | VMGlobalImport
  | VMTableDefinition | VMMemoryDefinition | VMGlobalDefinition

text \<open>\<open>u32_size_of\<close>: three pointers and a padded \<open>u32\<close>, three pointers, and pairs of words.\<close>

fun u32_size_of :: "vm_struct \<Rightarrow> nat" where
  "u32_size_of VMFuncRef = 32"
| "u32_size_of VMFunctionImport = 24"
| "u32_size_of VMTableImport = 16"
| "u32_size_of VMMemoryImport = 16"
| "u32_size_of VMGlobalImport = 16"
| "u32_size_of VMTableDefinition = 16"
| "u32_size_of VMMemoryDefinition = 16"
| "u32_size_of VMGlobalDefinition = 16"

section \<open>Static offsets\<close>

record StaticVMOffsets =
  ptr_size :: nat

definition vmctx_magic :: "StaticVMOffsets \<Rightarrow> nat result" where
  "vmctx_magic s = Ok 0"

definition vmctx_builtin_functions :: "StaticVMOffsets \<Rightarrow> nat result" where
  "vmctx_builtin_functions s = and_then (vmctx_magic s) (\<lambda>x. add_chk (2 ^ 8) x (ptr_size s))"

definition vmctx_type_ids :: "StaticVMOffsets \<Rightarrow> nat result" where
  "vmctx_type_ids s = and_then (vmctx_builtin_functions s) (\<lambda>x. add_chk (2 ^ 8) x (ptr_size s))"

definition vmctx_stack_limit :: "StaticVMOffsets \<Rightarrow> nat result" where
  "vmctx_stack_limit s = and_then (vmctx_type_ids s) (\<lambda>x. add_chk (2 ^ 8) x (ptr_size s))"

definition vmctx_last_wasm_exit_fp :: "StaticVMOffsets \<Rightarrow> nat result" where
  "vmctx_last_wasm_exit_fp s = and_then (vmctx_stack_limit s) (\<lambda>x. add_chk (2 ^ 8) x (ptr_size s))"

definition vmctx_last_wasm_exit_pc :: "StaticVMOffsets \<Rightarrow> nat result" where
  "vmctx_last_wasm_exit_pc s = and_then (vmctx_last_wasm_exit_fp s) (\<lambda>x. add_chk (2 ^ 8) x (ptr_size s))"

definition vmctx_last_wasm_entry_fp :: "StaticVMOffsets \<Rightarrow> nat result" where
  "vmctx_last_wasm_entry_fp s = and_then (vmctx_last_wasm_exit_pc s) (\<lambda>x. add_chk (2 ^ 8) x (ptr_size s))"

definition static_size :: "StaticVMOffsets \<Rightarrow> nat result" where
  "static_size s = and_then (vmctx_last_wasm_entry_fp s) (\<lambda>x. add_chk (2 ^ 8) x (ptr_size s))"

definition size_of_vmshared_type_index :: "StaticVMOffsets \<Rightarrow> nat" where
  "size_of_vmshared_type_index s = 4"

lemmas static_offset_defs =
  vmctx_magic_def vmctx_builtin_functions_def vmctx_type_ids_def vmctx_stack_limit_def
  vmctx_last_wasm_exit_fp_def vmctx_last_wasm_exit_pc_def vmctx_last_wasm_entry_fp_def static_size_def

section \<open>Offsets for a module\<close>

record VMOffsets =
  vo_num_imported_funcs :: nat
  vo_num_imported_tables :: nat
  vo_num_imported_memories :: nat
  vo_num_imported_globals :: nat
  vo_num_defined_tables :: nat
  vo_num_defined_memories :: nat
  vo_num_defined_globals :: nat
  vo_num_escaped_funcs :: nat
  static_offsets :: StaticVMOffsets
  vo_func_refs :: nat
  vo_imported_functions :: nat
  vo_imported_tables :: nat
  vo_imported_memories :: nat
  vo_imported_globals :: nat
  vo_tables :: nat
  vo_memories :: nat
  vo_globals :: nat
  vo_size :: nat

text \<open>The closure \<open>member_offset\<close> of \<open>for_module\<close>: return the running offset and advance it.\<close>

definition member_offset :: "nat \<Rightarrow> vm_struct \<Rightarrow> nat \<Rightarrow> (nat \<times> nat) result" where
  "member_offset offset ty count =
     and_then (mul_chk u32_bound (u32_size_of ty) count)
       (\<lambda>size_of_member. map_ok (Pair offset) (add_chk u32_bound offset size_of_member))"

definition for_module :: "nat \<Rightarrow> TranslatedModule \<Rightarrow> VMOffsets result" where
  "for_module psize m = (let static = \<lparr>ptr_size = psize\<rparr> in
     and_then (static_size static) (\<lambda>o0.
     and_then (num_defined_tables m) (\<lambda>ndt.
     and_then (num_defined_memories m) (\<lambda>ndm.
     and_then (num_defined_globals m) (\<lambda>ndg.
     and_then (member_offset o0 VMFuncRef (num_escaped_functions m)) (\<lambda>(frefs, o1).
     and_then (member_offset o1 VMFunctionImport (num_imported_functions m)) (\<lambda>(ifuncs, o2).
     and_then (member_offset o2 VMTableImport (num_imported_tables m)) (\<lambda>(itabs, o3).
     and_then (member_offset o3 VMMemoryImport (num_imported_memories m)) (\<lambda>(imems, o4).
     and_then (member_offset o4 VMGlobalImport (num_imported_globals m)) (\<lambda>(iglobs, o5).
     and_then (member_offset o5 VMTableDefinition ndt) (\<lambda>(tabs, o6).
     and_then (member_offset o6 VMMemoryDefinition ndm) (\<lambda>(mems, o7).
     and_then (member_offset o7 VMGlobalDefinition ndg) (\<lambda>(globs, o8).
       Ok \<lparr>vo_num_imported_funcs = num_imported_functions m,
         vo_num_imported_tables = num_imported_tables m,
         vo_num_imported_memories = num_imported_memories m,
         vo_num_imported_globals = num_imported_globals m,
         vo_num_defined_tables = ndt, vo_num_defined_memories = ndm, vo_num_defined_globals = ndg,
         vo_num_escaped_funcs = num_escaped_functions m, static_offsets = static,
         vo_func_refs = frefs, vo_imported_functions = ifuncs, vo_imported_tables = itabs,
         vo_imported_memories = imems, vo_imported_globals = iglobs, vo_tables = tabs,
         vo_memories = mems, vo_globals = globs, vo_size = o8\<rparr>)))))))))))))"

text \<open>The shape shared by the array accessors: bounds assertion, then checked arithmetic.\<close>

definition array_offset :: "nat \<Rightarrow> nat \<Rightarrow> vm_struct \<Rightarrow> nat \<Rightarrow> nat result" where
  "array_offset start count ty index =
     and_then (assert_that (index < count) ''assertion failed: index.as_u32() < self.num'')
       (\<lambda>_. and_then (mul_chk u32_bound index (u32_size_of ty))
         (\<lambda>x. add_chk u32_bound start x))"

definition vmctx_vmfunc_ref :: "VMOffsets \<Rightarrow> FuncRefIndex \<Rightarrow> nat result" where
  "vmctx_vmfunc_ref v index =
     and_then (assert_that (index \<noteq> reserved_value) ''assertion failed: !index.is_reserved_value()'')
       (\<lambda>_. array_offset (vo_func_refs v) (vo_num_escaped_funcs v) VMFuncRef index)"

definition vmctx_vmfunction_import :: "VMOffsets \<Rightarrow> FuncIndex \<Rightarrow> nat result" where
  "vmctx_vmfunction_import v =
     array_offset (vo_imported_functions v) (vo_num_imported_funcs v) VMFunctionImport"

definition vmctx_vmtable_import :: "VMOffsets \<Rightarrow> TableIndex \<Rightarrow> nat result" where
  "vmctx_vmtable_import v =
     array_offset (vo_imported_tables v) (vo_num_imported_tables v) VMTableImport"

definition vmctx_vmmemory_import :: "VMOffsets \<Rightarrow> MemoryIndex \<Rightarrow> nat result" where
  "vmctx_vmmemory_import v =
     array_offset (vo_imported_memories v) (vo_num_imported_memories v) VMMemoryImport"

definition vmctx_vmglobal_import :: "VMOffsets \<Rightarrow> GlobalIndex \<Rightarrow> nat result" where
  "vmctx_vmglobal_import v =
     array_offset (vo_imported_globals v) (vo_num_imported_globals v) VMGlobalImport"

definition vmctx_vmtable_definition :: "VMOffsets \<Rightarrow> DefinedTableIndex \<Rightarrow> nat result" where
  "vmctx_vmtable_definition v = array_offset (vo_tables v) (vo_num_defined_tables v) VMTableDefinition"

definition vmctx_vmmemory_definition :: "VMOffsets \<Rightarrow> DefinedMemoryIndex \<Rightarrow> nat result" where
  "vmctx_vmmemory_definition v =
     array_offset (vo_memories v) (vo_num_defined_memories v) VMMemoryDefinition"

definition vmctx_vmglobal_definition :: "VMOffsets \<Rightarrow> DefinedGlobalIndex \<Rightarrow> nat result" where
  "vmctx_vmglobal_definition v =
     array_offset (vo_globals v) (vo_num_defined_globals v) VMGlobalDefinition"

text \<open>The accessors of structure fields add the field's offset.\<close>

definition field_at :: "nat result \<Rightarrow> nat \<Rightarrow> nat result" where
  "field_at base off = and_then base (\<lambda>b. add_chk u32_bound b off)"

definition vmctx_vmfunc_ref_array_call :: "VMOffsets \<Rightarrow> FuncRefIndex \<Rightarrow> nat result" where
  "vmctx_vmfunc_ref_array_call v i = field_at (vmctx_vmfunc_ref v i) 0"
definition vmctx_vmfunc_ref_wasm_call :: "VMOffsets \<Rightarrow> FuncRefIndex \<Rightarrow> nat result" where
  "vmctx_vmfunc_ref_wasm_call v i = field_at (vmctx_vmfunc_ref v i) 8"
definition vmctx_vmfunc_ref_vmctx :: "VMOffsets \<Rightarrow> FuncRefIndex \<Rightarrow> nat result" where
  "vmctx_vmfunc_ref_vmctx v i = field_at (vmctx_vmfunc_ref v i) 16"
definition vmctx_vmfunc_ref_type_index :: "VMOffsets \<Rightarrow> FuncRefIndex \<Rightarrow> nat result" where
  "vmctx_vmfunc_ref_type_index v i = field_at (vmctx_vmfunc_ref v i) 24"
definition vmctx_vmfunction_import_wasm_call :: "VMOffsets \<Rightarrow> FuncIndex \<Rightarrow> nat result" where
  "vmctx_vmfunction_import_wasm_call v i = field_at (vmctx_vmfunction_import v i) 0"
definition vmctx_vmfunction_import_array_call :: "VMOffsets \<Rightarrow> FuncIndex \<Rightarrow> nat result" where
  "vmctx_vmfunction_import_array_call v i = field_at (vmctx_vmfunction_import v i) 8"
definition vmctx_vmfunction_import_vmctx :: "VMOffsets \<Rightarrow> FuncIndex \<Rightarrow> nat result" where
  "vmctx_vmfunction_import_vmctx v i = field_at (vmctx_vmfunction_import v i) 16"
definition vmctx_vmtable_import_from :: "VMOffsets \<Rightarrow> TableIndex \<Rightarrow> nat result" where
  "vmctx_vmtable_import_from v i = field_at (vmctx_vmtable_import v i) 0"
definition vmctx_vmtable_import_vmctx :: "VMOffsets \<Rightarrow> TableIndex \<Rightarrow> nat result" where
  "vmctx_vmtable_import_vmctx v i = field_at (vmctx_vmtable_import v i) 8"
definition vmctx_vmmemory_import_from :: "VMOffsets \<Rightarrow> MemoryIndex \<Rightarrow> nat result" where
  "vmctx_vmmemory_import_from v i = field_at (vmctx_vmmemory_import v i) 0"
definition vmctx_vmmemory_import_vmctx :: "VMOffsets \<Rightarrow> MemoryIndex \<Rightarrow> nat result" where
  "vmctx_vmmemory_import_vmctx v i = field_at (vmctx_vmmemory_import v i) 8"
definition vmctx_vmglobal_import_from :: "VMOffsets \<Rightarrow> GlobalIndex \<Rightarrow> nat result" where
  "vmctx_vmglobal_import_from v i = field_at (vmctx_vmglobal_import v i) 0"
definition vmctx_vmglobal_import_vmctx :: "VMOffsets \<Rightarrow> GlobalIndex \<Rightarrow> nat result" where
  "vmctx_vmglobal_import_vmctx v i = field_at (vmctx_vmglobal_import v i) 8"
definition vmctx_vmtable_definition_base :: "VMOffsets \<Rightarrow> DefinedTableIndex \<Rightarrow> nat result" where
  "vmctx_vmtable_definition_base v i = field_at (vmctx_vmtable_definition v i) 0"
definition vmctx_vmtable_definition_current_length :: "VMOffsets \<Rightarrow> DefinedTableIndex \<Rightarrow> nat result" where
  "vmctx_vmtable_definition_current_length v i = field_at (vmctx_vmtable_definition v i) 8"
definition vmctx_vmmemory_definition_base :: "VMOffsets \<Rightarrow> DefinedMemoryIndex \<Rightarrow> nat result" where
  "vmctx_vmmemory_definition_base v i = field_at (vmctx_vmmemory_definition v i) 0"
definition vmctx_vmmemory_definition_current_length :: "VMOffsets \<Rightarrow> DefinedMemoryIndex \<Rightarrow> nat result" where
  "vmctx_vmmemory_definition_current_length v i = field_at (vmctx_vmmemory_definition v i) 8"

section \<open>The arrays of a context\<close>

fun array_start :: "VMOffsets \<Rightarrow> vm_struct \<Rightarrow> nat" where
  "array_start v VMFuncRef = vo_func_refs v"
| "array_start v VMFunctionImport = vo_imported_functions v"
| "array_start v VMTableImport = vo_imported_tables v"
| "array_start v VMMemoryImport = vo_imported_memories v"
| "array_start v VMGlobalImport = vo_imported_globals v"
| "array_start v VMTableDefinition = vo_tables v"
| "array_start v VMMemoryDefinition = vo_memories v"
| "array_start v VMGlobalDefinition = vo_globals v"

fun array_count :: "VMOffsets \<Rightarrow> vm_struct \<Rightarrow> nat" where
  "array_count v VMFuncRef = vo_num_escaped_funcs v"
| "array_count v VMFunctionImport = vo_num_imported_funcs v"
| "array_count v VMTableImport = vo_num_imported_tables v"
| "array_count v VMMemoryImport = vo_num_imported_memories v"
| "array_count v VMGlobalImport = vo_num_imported_globals v"
| "array_count v VMTableDefinition = vo_num_defined_tables v"
| "array_count v VMMemoryDefinition = vo_num_defined_memories v"
| "array_count v VMGlobalDefinition = vo_num_defined_globals v"

definition array_end :: "VMOffsets \<Rightarrow> vm_struct \<Rightarrow> nat" where
  "array_end v k = array_start v k + u32_size_of k * array_count v k"

text \<open>The accessor of an element, by the structure the array holds.\<close>

fun element_offset :: "VMOffsets \<Rightarrow> vm_struct \<Rightarrow> nat \<Rightarrow> nat result" where
  "element_offset v VMFuncRef = vmctx_vmfunc_ref v"
| "element_offset v VMFunctionImport = vmctx_vmfunction_import v"
| "element_offset v VMTableImport = vmctx_vmtable_import v"
| "element_offset v VMMemoryImport = vmctx_vmmemory_import v"
| "element_offset v VMGlobalImport = vmctx_vmglobal_import v"
| "element_offset v VMTableDefinition = vmctx_vmtable_definition v"
| "element_offset v VMMemoryDefinition = vmctx_vmmemory_definition v"
| "element_offset v VMGlobalDefinition = vmctx_vmglobal_definition v"

text \<open>The contract of one accessor.\<close>

locale vmctx_array =
  fixes accessor :: "VMOffsets \<Rightarrow> nat \<Rightarrow> nat result" and kind :: vm_struct
  assumes accessor_in: "array_end v kind < 2 ^ 32 \<Longrightarrow> i < array_count v kind \<Longrightarrow>
      accessor v i = Ok (array_start v kind + i * u32_size_of kind)"
    and accessor_out: "array_count v kind \<le> i \<Longrightarrow> is_panic (accessor v i)"
begin

lemma accessor_Ok_iff:
  "array_end v kind < 2 ^ 32 \<Longrightarrow>
     accessor v i = Ok a \<longleftrightarrow> i < array_count v kind \<and> a = array_start v kind + i * u32_size_of kind"
  using accessor_in [of v i] accessor_out [of v i] by (cases "i < array_count v kind") (auto simp: is_panic_iff)

lemma accessor_inside:
  assumes "array_end v kind < 2 ^ 32" and "accessor v i = Ok a"
  shows "array_start v kind \<le> a" and "a + u32_size_of kind \<le> array_end v kind"
proof -
  from assms have i: "i < array_count v kind" and a: "a = array_start v kind + i * u32_size_of kind"
    by (auto simp: accessor_Ok_iff)
  from i have "Suc i * u32_size_of kind \<le> array_count v kind * u32_size_of kind"
    by (intro mult_le_mono1) simp
  then show "a + u32_size_of kind \<le> array_end v kind"
    by (simp add: a array_end_def mult.commute)
  show "array_start v kind \<le> a" by (simp add: a)
qed

lemma accessor_disjoint:
  assumes "array_end v kind < 2 ^ 32" and "accessor v i = Ok a" and "accessor v j = Ok b" and "i < j"
  shows "a + u32_size_of kind \<le> b"
proof -
  from assms have "a = array_start v kind + i * u32_size_of kind"
    "b = array_start v kind + j * u32_size_of kind"
    by (auto simp: accessor_Ok_iff)
  moreover have "Suc i * u32_size_of kind \<le> j * u32_size_of kind"
    using assms(4) by (intro mult_le_mono1) simp
  ultimately show ?thesis by simp
qed

end

lemma array_offset_in:
  assumes "start + u32_size_of k * count < 2 ^ 32" and "i < count"
  shows "array_offset start count k i = Ok (start + i * u32_size_of k)"
proof -
  have "i * u32_size_of k \<le> count * u32_size_of k"
    using assms(2) by (intro mult_le_mono1) simp
  then have "start + i * u32_size_of k < 2 ^ 32" and "i * u32_size_of k < 2 ^ 32"
    using assms(1) unfolding mult.commute [of "u32_size_of k"] by linarith+
  with assms(2) show ?thesis by (simp add: array_offset_def)
qed

lemma array_offset_out: "count \<le> i \<Longrightarrow> is_panic (array_offset start count k i)"
  by (simp add: array_offset_def)

text \<open>The eight arrays meet the contract.\<close>

lemma vmctx_vmfunc_ref_in:
  assumes "array_end v VMFuncRef < 2 ^ 32" and "i < vo_num_escaped_funcs v"
  shows "vmctx_vmfunc_ref v i = Ok (vo_func_refs v + i * 32)"
proof -
  have "i \<noteq> reserved_value"
    using assms by (auto simp: array_end_def reserved_value_def)
  then show ?thesis
    using assms array_offset_in [of "vo_func_refs v" VMFuncRef "vo_num_escaped_funcs v" i]
    by (simp add: vmctx_vmfunc_ref_def array_end_def)
qed

lemma vmctx_vmfunc_ref_out: "vo_num_escaped_funcs v \<le> i \<Longrightarrow> is_panic (vmctx_vmfunc_ref v i)"
  by (cases "i = reserved_value") (simp_all add: vmctx_vmfunc_ref_def array_offset_out)

interpretation func_ref_array: vmctx_array vmctx_vmfunc_ref VMFuncRef
  by unfold_locales (simp_all add: vmctx_vmfunc_ref_in vmctx_vmfunc_ref_out)

interpretation function_import_array: vmctx_array vmctx_vmfunction_import VMFunctionImport
  by unfold_locales
    (simp_all add: vmctx_vmfunction_import_def array_offset_out array_offset_in array_end_def)

interpretation table_import_array: vmctx_array vmctx_vmtable_import VMTableImport
  by unfold_locales
    (simp_all add: vmctx_vmtable_import_def array_offset_out array_offset_in array_end_def)

interpretation memory_import_array: vmctx_array vmctx_vmmemory_import VMMemoryImport
  by unfold_locales
    (simp_all add: vmctx_vmmemory_import_def array_offset_out array_offset_in array_end_def)

interpretation global_import_array: vmctx_array vmctx_vmglobal_import VMGlobalImport
  by unfold_locales
    (simp_all add: vmctx_vmglobal_import_def array_offset_out array_offset_in array_end_def)

interpretation table_array: vmctx_array vmctx_vmtable_definition VMTableDefinition
  by unfold_locales
    (simp_all add: vmctx_vmtable_definition_def array_offset_out array_offset_in array_end_def)

interpretation memory_array: vmctx_array vmctx_vmmemory_definition VMMemoryDefinition
  by unfold_locales
    (simp_all add: vmctx_vmmemory_definition_def array_offset_out array_offset_in array_end_def)

interpretation global_array: vmctx_array vmctx_vmglobal_definition VMGlobalDefinition
  by unfold_locales
    (simp_all add: vmctx_vmglobal_definition_def array_offset_out array_offset_in array_end_def)

lemma element_offset_array: "vmctx_array (\<lambda>v. element_offset v k) k"
  by (cases k) (simp_all add: func_ref_array.vmctx_array_axioms function_import_array.vmctx_array_axioms
      table_import_array.vmctx_array_axioms memory_import_array.vmctx_array_axioms
      global_import_array.vmctx_array_axioms table_array.vmctx_array_axioms
      memory_array.vmctx_array_axioms global_array.vmctx_array_axioms)


section \<open>The layout\<close>

text \<open>The place of an array in the context.\<close>

fun array_rank :: "vm_struct \<Rightarrow> nat" where
  "array_rank VMFuncRef = 0"
| "array_rank VMFunctionImport = 1"
| "array_rank VMTableImport = 2"
| "array_rank VMMemoryImport = 3"
| "array_rank VMGlobalImport = 4"
| "array_rank VMTableDefinition = 5"
| "array_rank VMMemoryDefinition = 6"
| "array_rank VMGlobalDefinition = 7"

lemma array_rank_inj: "array_rank k = array_rank k' \<Longrightarrow> k = k'"
  by (cases k; cases k') auto

lemma member_offset_eq_Ok_iff [simp]:
  "member_offset off k n = Ok (a, off') \<longleftrightarrow>
     a = off \<and> off' = off + u32_size_of k * n \<and> off' < 2 ^ 32"
  by (auto simp: member_offset_def)

lemma static_size_eq [simp]: "static_size s = Ok n \<longleftrightarrow> n = 7 * ptr_size s \<and> n < 2 ^ 8"
  by (auto simp: static_offset_defs)

text \<open>The arrays follow the static part and each other without gaps.\<close>

lemma for_module_layout:
  assumes "for_module p m = Ok v"
  shows "vo_func_refs v = 7 * p" and "vo_imported_functions v = array_end v VMFuncRef"
    and "vo_imported_tables v = array_end v VMFunctionImport"
    and "vo_imported_memories v = array_end v VMTableImport"
    and "vo_imported_globals v = array_end v VMMemoryImport"
    and "vo_tables v = array_end v VMGlobalImport"
    and "vo_memories v = array_end v VMTableDefinition"
    and "vo_globals v = array_end v VMMemoryDefinition"
    and "vo_size v = array_end v VMGlobalDefinition" and "vo_size v < 2 ^ 32"
    and "vo_num_imported_funcs v = num_imported_functions m"
    and "vo_num_escaped_funcs v = num_escaped_functions m"
  using assms by (auto simp: for_module_def Let_def array_end_def)

lemma for_module_order:
  assumes "for_module p m = Ok v" and "array_rank k < array_rank k'"
  shows "array_end v k \<le> array_start v k'"
  using assms(2) for_module_layout [OF assms(1)] unfolding array_end_def
  by (cases k; cases k') simp_all

lemma for_module_array_bounds:
  assumes "for_module p m = Ok v"
  shows "7 * p \<le> array_start v k" and "array_end v k \<le> vo_size v" and "array_end v k < 2 ^ 32"
proof -
  note l = for_module_layout [OF assms]
  show "7 * p \<le> array_start v k"
    using for_module_order [OF assms, of VMFuncRef k] l(1)
    by (cases k) (simp_all add: array_end_def)
  show "array_end v k \<le> vo_size v"
    using for_module_order [OF assms, of k VMGlobalDefinition] l(9)
    by (cases k) (simp_all add: array_end_def)
  then show "array_end v k < 2 ^ 32" using l(10) by simp
qed

lemma element_bounds:
  assumes v: "for_module p m = Ok v" and "element_offset v k i = Ok a"
  shows "array_start v k \<le> a" and "a + u32_size_of k \<le> array_end v k"
  using vmctx_array.accessor_inside [OF element_offset_array for_module_array_bounds(3) [OF v] assms(2)]
  by auto

text \<open>C8.
  The layout of a \<open>VMContext\<close> is sound: two different elements of its arrays never overlap, every
  element lies after the static fields and before the end of the context, and the size of the
  context fits 32 bits. This is what makes the pointer arithmetic of generated code and of the
  instance accessors address the intended fields.
\<close>

theorem vmctx_elements_disjoint:
  assumes "for_module p m = Ok v" and "element_offset v k i = Ok a" and "element_offset v k' j = Ok b"
    and "(k, i) \<noteq> (k', j)"
  shows "(a + u32_size_of k \<le> b \<or> b + u32_size_of k' \<le> a) \<and>
    7 * p \<le> a \<and> a + u32_size_of k \<le> vo_size v \<and> vo_size v < 2 ^ 32"
proof -
  note ab = element_bounds [OF assms(1,2)] element_bounds [OF assms(1,3)]
  have inside: "7 * p \<le> a" "a + u32_size_of k \<le> vo_size v" "vo_size v < 2 ^ 32"
    using ab for_module_array_bounds [OF assms(1), of k] for_module_layout(10) [OF assms(1)] by auto
  have "a + u32_size_of k \<le> b \<or> b + u32_size_of k' \<le> a"
  proof (cases "k = k'")
    case True
    note disj = vmctx_array.accessor_disjoint [OF element_offset_array for_module_array_bounds(3) [OF assms(1)]]
    show ?thesis
      using assms(2-4) True disj [of k i a j b] disj [of k j b i a] by (cases i j rule: linorder_cases) auto
  next
    case False
    then have "array_rank k < array_rank k' \<or> array_rank k' < array_rank k"
      using array_rank_inj by (meson nat_neq_iff)
    then show ?thesis
      using for_module_order [OF assms(1), of k k'] for_module_order [OF assms(1), of k' k] ab by auto
  qed
  with inside show ?thesis by simp
qed

definition sample_module :: TranslatedModule where
  "sample_module = module_default\<lparr>num_imported_functions := 1, num_escaped_functions := 2,
     mod_functions := [\<lparr>signature = 0, func_ref = 1\<rparr>, \<lparr>signature = 1, func_ref = 0\<rparr>],
     globals := [\<lparr>content_type = I32, global_mutable = False, global_shared = False\<rparr>],
     global_initializers := [\<lparr>ops = [I32Const 7]\<rparr>]\<rparr>"

lemma sample_offsets:
  "\<exists>v. for_module 8 sample_module = Ok v \<and> vmctx_vmfunc_ref v 1 = Ok 88 \<and>
     vmctx_vmglobal_definition v 0 = Ok 144 \<and> vo_size v = 160"
  by (simp add: for_module_def sample_module_def module_default_def Let_def num_defined_tables_def
      num_defined_memories_def num_defined_globals_def num_tables_def num_memories_def num_globals_def
      try_into_def vmctx_vmfunc_ref_def vmctx_vmglobal_definition_def array_offset_def
      reserved_value_def)

theorem vmctx_elements_disjoint_witness:
  "\<exists>v a b. for_module 8 sample_module = Ok v \<and> element_offset v VMFuncRef 1 = Ok a \<and>
     element_offset v VMGlobalDefinition 0 = Ok b \<and> (a + 32 \<le> b \<or> b + 16 \<le> a)"
proof -
  obtain v where v: "for_module 8 sample_module = Ok v" "element_offset v VMFuncRef 1 = Ok 88"
    "element_offset v VMGlobalDefinition 0 = Ok 144"
    using sample_offsets by auto
  with vmctx_elements_disjoint [OF v] show ?thesis by auto
qed

text \<open>On a 64-bit target the array of globals starts at a multiple of 16, the alignment of
  \<open>VMGlobalDefinition\<close>, exactly when the module imports an odd number of functions: nothing in
  \<open>for_module\<close> aligns it. Every array start is a multiple of 8.
\<close>

theorem globals_alignment:
  assumes "for_module 8 m = Ok v"
  shows "(vo_globals v mod 16 = 0 \<longleftrightarrow> odd (num_imported_functions m)) \<and> array_start v k mod 8 = 0"
proof -
  note l = for_module_layout [OF assms]
  let ?n = "num_imported_functions m"
  obtain r where r: "vo_globals v = 56 + 24 * ?n + 16 * r"
    using l by (auto simp: array_end_def intro: that [of "2 * vo_num_escaped_funcs v +
      vo_num_imported_tables v + vo_num_imported_memories v + vo_num_imported_globals v +
      vo_num_defined_tables v + vo_num_defined_memories v"])
  have "vo_globals v mod 16 = 0 \<longleftrightarrow> odd ?n"
    unfolding r by presburger
  moreover have "8 dvd array_start v k"
    using l by (cases k) (auto simp: array_end_def intro!: dvd_add)
  ultimately show ?thesis by auto
qed

theorem globals_alignment_witness:
  "\<exists>v. for_module 8 sample_module = Ok v \<and> vo_globals v mod 16 = 0"
proof -
  obtain v where v: "for_module 8 sample_module = Ok v" using sample_offsets by blast
  have "odd (num_imported_functions sample_module)" by (simp add: sample_module_def)
  with globals_alignment [OF v] v show ?thesis by blast
qed

end
