(* ===== verification/Const_Eval.thy ===== *)
theory Const_Eval
  imports Translated_Module
begin

text \<open>
  Wasm values in memory (\<open>VMVal\<close> and \<open>VMGlobalDefinition\<close> of \<open>src/src/runtime/vmcontext.rs\<close>) and the
  interpreter of constant expressions (\<open>src/src/runtime/const_eval.rs\<close>).

  A \<open>VMVal\<close> is an untagged union of 16 bytes on a little-endian target: a list of 16 optional bytes,
  where \<open>None\<close> is a byte that was not written; reading such a byte is undefined behaviour in the source
  and a panic here. The interpreter is compared with a typed specification: on an expression the
  specification accepts, it returns the encoding of the specification's value.
\<close>

section \<open>Bytes\<close>

fun to_le_bytes :: "nat \<Rightarrow> nat \<Rightarrow> nat list" where
  "to_le_bytes 0 x = []"
| "to_le_bytes (Suc n) x = x mod 256 # to_le_bytes n (x div 256)"

lemma length_to_le_bytes [simp]: "length (to_le_bytes n x) = n"
  by (induction n arbitrary: x) auto

lemma from_to_le_bytes: "from_le_bytes (to_le_bytes n x) = x mod 256 ^ n"
  by (induction n arbitrary: x) (auto simp: mod_mult2_eq)

lemma take_to_le_bytes: "k \<le> n \<Longrightarrow> take k (to_le_bytes n x) = to_le_bytes k x"
proof (induction k arbitrary: n x)
  case (Suc k)
  then show ?case by (cases n) auto
qed simp

text \<open>Two's complement at a width.\<close>

definition to_signed :: "nat \<Rightarrow> nat \<Rightarrow> int" where
  "to_signed w x = (if x < 2 ^ (w - 1) then int x else int x - 2 ^ w)"

definition unsigned_of :: "nat \<Rightarrow> int \<Rightarrow> nat" where
  "unsigned_of w i = nat (i mod 2 ^ w)"

definition signed_range :: "nat \<Rightarrow> int \<Rightarrow> bool" where
  "signed_range w i \<longleftrightarrow> - (2 ^ (w - 1)) \<le> i \<and> i < 2 ^ (w - 1)"

lemma unsigned_of_less: "unsigned_of w i < 2 ^ w"
proof -
  have "i mod 2 ^ w < 2 ^ w" by simp
  then have "nat (i mod 2 ^ w) < nat (2 ^ w)" by (simp add: nat_less_iff)
  then show ?thesis by (simp add: unsigned_of_def nat_power_eq)
qed

lemma unsigned_of_cases:
  assumes "0 < w" and "signed_range w i"
  shows "unsigned_of w i = (if 0 \<le> i then nat i else nat (i + 2 ^ w))"
proof (cases "0 \<le> i")
  case True
  have "(2::int) ^ (w - 1) \<le> 2 ^ w" by (rule power_increasing) auto
  then have "i < 2 ^ w" using assms(2) unfolding signed_range_def by linarith
  then have "i mod 2 ^ w = i" using True by (rule mod_pos_pos_trivial [rotated])
  then show ?thesis using True by (simp add: unsigned_of_def)
next
  case False
  obtain v where w: "w = Suc v" using assms(1) by (cases w) auto
  have "i mod 2 ^ w = (i + 2 ^ w) mod 2 ^ w" by simp
  also have "\<dots> = i + 2 ^ w"
    using False assms(2) by (intro mod_pos_pos_trivial) (auto simp: signed_range_def w)
  finally show ?thesis using False by (simp add: unsigned_of_def)
qed

lemma to_signed_unsigned_of:
  assumes "0 < w" and "signed_range w i"
  shows "to_signed w (unsigned_of w i) = i"
proof -
  obtain v where w: "w = Suc v" using assms(1) by (cases w) auto
  show ?thesis
  proof (cases "0 \<le> i")
    case True
    then have "nat i < 2 ^ v"
      using assms(2) by (simp add: signed_range_def w nat_less_iff)
    with True show ?thesis
      using unsigned_of_cases [OF assms] by (simp add: to_signed_def w)
  next
    case False
    then have "2 ^ v \<le> nat (i + 2 ^ w)"
      using assms(2) by (simp add: signed_range_def w le_nat_iff)
    with False show ?thesis
      using unsigned_of_cases [OF assms] assms(2) by (simp add: to_signed_def w signed_range_def)
  qed
qed

lemma to_signed_range: "0 < w \<Longrightarrow> x < 2 ^ w \<Longrightarrow> signed_range w (to_signed w x)"
proof -
  assume "0 < w" and x: "x < 2 ^ w"
  then obtain v where w: "w = Suc v" by (cases w) auto
  have "int x < int (2 * 2 ^ v)" using x by (simp only: of_nat_less_iff w power_Suc)
  then have "int x < 2 * 2 ^ v" by simp
  moreover have "x < 2 ^ v \<longleftrightarrow> int x < 2 ^ v" by (metis of_nat_less_iff of_nat_numeral of_nat_power)
  ultimately show ?thesis by (auto simp: to_signed_def signed_range_def w)
qed

section \<open>\<open>VMVal\<close>\<close>

type_synonym VMVal = "nat option list"

definition union_of :: "nat list \<Rightarrow> VMVal" where
  "union_of bs = map Some bs @ replicate (16 - length bs) None"

definition vmval_i64 :: "int \<Rightarrow> VMVal" where
  "vmval_i64 i = union_of (to_le_bytes 8 (unsigned_of 64 i))"

text \<open>\<open>VMVal::i32\<close> widens to \<open>i64\<close> with the sign.\<close>

definition vmval_i32 :: "int \<Rightarrow> VMVal" where
  "vmval_i32 i = vmval_i64 i"

definition vmval_u64 :: "nat \<Rightarrow> VMVal result" where
  "vmval_u64 i = (if i < 2 ^ 63 then Ok (vmval_i64 (int i))
     else Panic ''called `Result::unwrap()` on an `Err` value'')"

definition vmval_u32 :: "nat \<Rightarrow> VMVal result" where
  "vmval_u32 i = vmval_u64 i"

definition vmval_f32 :: "nat \<Rightarrow> VMVal" where
  "vmval_f32 i = union_of (to_le_bytes 4 i)"

definition vmval_f64 :: "nat \<Rightarrow> VMVal" where
  "vmval_f64 i = union_of (to_le_bytes 8 i)"

definition vmval_v128 :: "nat \<Rightarrow> VMVal" where
  "vmval_v128 i = union_of (to_le_bytes 16 i)"

definition vmval_funcref :: "nat \<Rightarrow> VMVal" where
  "vmval_funcref ptr = union_of (to_le_bytes 8 ptr)"

definition vmval_externref :: "nat \<Rightarrow> VMVal result" where
  "vmval_externref e = and_then (assert_that (e = 0) ''gc not supported'')
     (\<lambda>_. Ok (union_of (to_le_bytes 4 e)))"

definition vmval_anyref :: "nat \<Rightarrow> VMVal result" where
  "vmval_anyref r = and_then (assert_that (r = 0) ''gc not supported'')
     (\<lambda>_. Ok (union_of (to_le_bytes 4 r)))"

definition read_union :: "nat \<Rightarrow> VMVal \<Rightarrow> nat result" where
  "read_union n v = expect (map_option from_le_bytes (those (take n v))) ''read of an uninitialised byte''"

definition get_i32 :: "VMVal \<Rightarrow> int result" where
  "get_i32 v = map_ok (to_signed 32) (read_union 4 v)"

definition get_i64 :: "VMVal \<Rightarrow> int result" where
  "get_i64 v = map_ok (to_signed 64) (read_union 8 v)"

definition get_u32 :: "VMVal \<Rightarrow> nat result" where
  "get_u32 v = map_ok (unsigned_of 32) (get_i32 v)"

definition get_u64 :: "VMVal \<Rightarrow> nat result" where
  "get_u64 v = map_ok (unsigned_of 64) (get_i64 v)"

definition get_f32 :: "VMVal \<Rightarrow> nat result" where
  "get_f32 v = read_union 4 v"

definition get_f64 :: "VMVal \<Rightarrow> nat result" where
  "get_f64 v = read_union 8 v"

definition get_v128 :: "VMVal \<Rightarrow> nat result" where
  "get_v128 v = read_union 16 v"

definition get_funcref :: "VMVal \<Rightarrow> nat result" where
  "get_funcref v = read_union 8 v"

definition get_externref :: "VMVal \<Rightarrow> nat result" where
  "get_externref v = and_then (read_union 4 v)
     (\<lambda>e. and_then (assert_that (e = 0) ''gc not supported'') (\<lambda>_. Ok e))"

definition get_anyref :: "VMVal \<Rightarrow> nat result" where
  "get_anyref v = and_then (read_union 4 v)
     (\<lambda>r. and_then (assert_that (r = 0) ''gc not supported'') (\<lambda>_. Ok r))"

text \<open>\<open>VMGlobalDefinition::from_vmval\<close> copies the 16 bytes; \<open>to_vmval\<close> reads back by type.\<close>

definition global_from_vmval :: "VMVal \<Rightarrow> VMVal" where
  "global_from_vmval v = v"

definition global_to_vmval :: "VMVal \<Rightarrow> wp_ValType \<Rightarrow> VMVal result" where
  "global_to_vmval data ty = (case ty of
       WP_I32 \<Rightarrow> map_ok (\<lambda>x. union_of (to_le_bytes 4 x)) (read_union 4 data)
     | WP_I64 \<Rightarrow> map_ok (\<lambda>x. union_of (to_le_bytes 8 x)) (read_union 8 data)
     | WP_F32 \<Rightarrow> map_ok (\<lambda>x. union_of (to_le_bytes 4 x)) (read_union 4 data)
     | WP_F64 \<Rightarrow> map_ok (\<lambda>x. union_of (to_le_bytes 8 x)) (read_union 8 data)
     | WP_V128 \<Rightarrow> Ok data
     | WP_Ref _ \<Rightarrow> Panic ''not yet implemented'')"

lemma those_map_Some [simp]: "those (map Some xs) = Some xs"
  by (induction xs) auto

lemma read_union_of:
  assumes "k \<le> n" and "n \<le> 16"
  shows "read_union k (union_of (to_le_bytes n x)) = Ok (x mod 256 ^ k)"
proof -
  have "take k (union_of (to_le_bytes n x)) = map Some (to_le_bytes k x)"
    using assms by (simp add: union_of_def take_map take_to_le_bytes)
  then show ?thesis by (simp add: read_union_def from_to_le_bytes)
qed

lemma mod_unsigned_of:
  assumes "w \<le> v"
  shows "unsigned_of v i mod 2 ^ w = unsigned_of w i"
proof -
  have "i mod 2 ^ v mod 2 ^ w = i mod 2 ^ w"
    by (rule mod_mod_cancel) (simp add: le_imp_power_dvd assms)
  then have "nat (i mod 2 ^ v mod 2 ^ w) = nat (i mod 2 ^ w)" by simp
  then show ?thesis by (simp add: unsigned_of_def nat_mod_distrib nat_power_eq)
qed

lemma get_i32_i32 [simp]: "signed_range 32 i \<Longrightarrow> get_i32 (vmval_i32 i) = Ok i"
  using mod_unsigned_of [of 32 64 i] to_signed_unsigned_of [of 32 i]
  by (simp add: get_i32_def vmval_i32_def vmval_i64_def read_union_of)

lemma get_i64_i64 [simp]: "signed_range 64 i \<Longrightarrow> get_i64 (vmval_i64 i) = Ok i"
  using unsigned_of_less [of 64 i] to_signed_unsigned_of [of 64 i]
  by (simp add: get_i64_def vmval_i64_def read_union_of)

section \<open>The evaluator\<close>

definition wrap :: "nat \<Rightarrow> int \<Rightarrow> int" where
  "wrap w x = to_signed w (unsigned_of w x)"

lemma wrap_range: "0 < w \<Longrightarrow> signed_range w (wrap w x)"
  by (simp add: wrap_def to_signed_range unsigned_of_less)

text \<open>The stack has its top first; \<open>pop2\<close> returns the lower operand first.\<close>

definition pop2 :: "VMVal list \<Rightarrow> ((VMVal \<times> VMVal) \<times> VMVal list) result" where
  "pop2 st = (case st of v2 # v1 # rest \<Rightarrow> Ok ((v1, v2), rest)
     | _ \<Rightarrow> Panic ''called `Option::unwrap()` on a `None` value'')"

definition binop_i32 :: "(int \<Rightarrow> int \<Rightarrow> int) \<Rightarrow> VMVal list \<Rightarrow> VMVal list result" where
  "binop_i32 f st = and_then (pop2 st) (\<lambda>((arg1, arg2), rest).
     and_then (get_i32 arg1) (\<lambda>a. and_then (get_i32 arg2) (\<lambda>b.
       Ok (vmval_i32 (wrap 32 (f a b)) # rest))))"

definition binop_i64 :: "(int \<Rightarrow> int \<Rightarrow> int) \<Rightarrow> VMVal list \<Rightarrow> VMVal list result" where
  "binop_i64 f st = and_then (pop2 st) (\<lambda>((arg1, arg2), rest).
     and_then (get_i64 arg1) (\<lambda>a. and_then (get_i64 arg2) (\<lambda>b.
       Ok (vmval_i64 (wrap 64 (f a b)) # rest))))"

fun const_step :: "VMVal list \<Rightarrow> ConstOp \<Rightarrow> VMVal list result" where
  "const_step st (I32Const v) = Ok (vmval_i32 v # st)"
| "const_step st (I64Const v) = Ok (vmval_i64 v # st)"
| "const_step st (F32Const v) = Ok (vmval_f32 v # st)"
| "const_step st (F64Const v) = Ok (vmval_f64 v # st)"
| "const_step st (V128Const v) = Ok (vmval_v128 v # st)"
| "const_step st I32Add = binop_i32 (+) st"
| "const_step st I32Sub = binop_i32 (-) st"
| "const_step st I32Mul = binop_i32 (*) st"
| "const_step st I64Add = binop_i64 (+) st"
| "const_step st I64Sub = binop_i64 (-) st"
| "const_step st I64Mul = binop_i64 (*) st"
| "const_step st (GlobalGet _) = Panic ''not yet implemented''"
| "const_step st RefI31 = Panic ''not yet implemented''"
| "const_step st RefNull = Panic ''not yet implemented''"
| "const_step st (RefFunc _) = Panic ''not yet implemented''"

text \<open>\<open>eval\<close> returns the value and the evaluator's stack, which later evaluations reuse.\<close>

definition const_eval :: "VMVal list \<Rightarrow> ConstExpr \<Rightarrow> (VMVal \<times> VMVal list) result" where
  "const_eval st expr = and_then (for_each const_step st (ops expr))
     (\<lambda>st'. and_then (assert_that (length st' = 1) ''assertion failed: self.stack.len() == 1'')
       (\<lambda>_. Ok (hd st', tl st')))"

section \<open>The specification\<close>

datatype const_val = CI32 int | CI64 int | CF32 nat | CF64 nat | CV128 nat

fun encode_val :: "const_val \<Rightarrow> VMVal" where
  "encode_val (CI32 i) = vmval_i32 i"
| "encode_val (CI64 i) = vmval_i64 i"
| "encode_val (CF32 i) = vmval_f32 i"
| "encode_val (CF64 i) = vmval_f64 i"
| "encode_val (CV128 i) = vmval_v128 i"

fun val_ok :: "const_val \<Rightarrow> bool" where
  "val_ok (CI32 i) = signed_range 32 i"
| "val_ok (CI64 i) = signed_range 64 i"
| "val_ok (CF32 i) \<longleftrightarrow> i < 2 ^ 32"
| "val_ok (CF64 i) \<longleftrightarrow> i < 2 ^ 64"
| "val_ok (CV128 i) \<longleftrightarrow> i < 2 ^ 128"

text \<open>
  The instructions of the WebAssembly specification on typed stacks; \<open>None\<close> where an operand is
  missing, has the wrong type, is out of range, or the instruction is not supported.
\<close>

definition checked_push :: "const_val \<Rightarrow> const_val list \<Rightarrow> const_val list option" where
  "checked_push v st = (if val_ok v then Some (v # st) else None)"

fun spec_step :: "const_val list \<Rightarrow> ConstOp \<Rightarrow> const_val list option" where
  "spec_step st (I32Const v) = checked_push (CI32 v) st"
| "spec_step st (I64Const v) = checked_push (CI64 v) st"
| "spec_step st (F32Const v) = checked_push (CF32 v) st"
| "spec_step st (F64Const v) = checked_push (CF64 v) st"
| "spec_step st (V128Const v) = checked_push (CV128 v) st"
| "spec_step (CI32 b # CI32 a # st) I32Add = Some (CI32 (wrap 32 (a + b)) # st)"
| "spec_step (CI32 b # CI32 a # st) I32Sub = Some (CI32 (wrap 32 (a - b)) # st)"
| "spec_step (CI32 b # CI32 a # st) I32Mul = Some (CI32 (wrap 32 (a * b)) # st)"
| "spec_step (CI64 b # CI64 a # st) I64Add = Some (CI64 (wrap 64 (a + b)) # st)"
| "spec_step (CI64 b # CI64 a # st) I64Sub = Some (CI64 (wrap 64 (a - b)) # st)"
| "spec_step (CI64 b # CI64 a # st) I64Mul = Some (CI64 (wrap 64 (a * b)) # st)"
| "spec_step st op = None"

fun spec_run :: "const_val list \<Rightarrow> ConstOp list \<Rightarrow> const_val list option" where
  "spec_run st [] = Some st"
| "spec_run st (op # rest) = (case spec_step st op of Some st' \<Rightarrow> spec_run st' rest | None \<Rightarrow> None)"

fun_cases spec_step_SomeE: "spec_step st op = Some st'"

lemma const_step_refines:
  assumes "spec_step st op = Some st'" and "list_all val_ok st"
  shows "const_step (map encode_val st) op = Ok (map encode_val st') \<and> list_all val_ok st'"
  using assms
  by (elim spec_step_SomeE)
    (auto simp: checked_push_def binop_i32_def binop_i64_def pop2_def wrap_range split: if_splits)

lemma const_run_refines:
  assumes "spec_run st cs = Some st'" and "list_all val_ok st"
  shows "for_each const_step (map encode_val st) cs = Ok (map encode_val st') \<and> list_all val_ok st'"
  using assms
proof (induction st cs rule: spec_run.induct)
  case (2 st op rest)
  then obtain st1 where "spec_step st op = Some st1" "spec_run st1 rest = Some st'"
    by (auto split: option.splits)
  with 2 const_step_refines show ?case by auto
qed simp

section \<open>Properties\<close>





text \<open>A 32-bit constant that has its sign bit set does not survive as an unsigned 64-bit number: read
  with \<open>get_u64\<close>, as the initialization of memories and tables does with segment offsets, it is
  larger than every 32-bit offset.
\<close>

theorem i32_offset_sign_extends:
  assumes "signed_range 32 i" and "i < 0"
  shows "get_u64 (vmval_i32 i) = Ok (nat (i + 2 ^ 64)) \<and> 2 ^ 64 - 2 ^ 31 \<le> nat (i + 2 ^ 64)"
proof -
  have r: "signed_range 64 i" using assms by (simp add: signed_range_def)
  then have "get_u64 (vmval_i32 i) = Ok (nat (i + 2 ^ 64))"
    using unsigned_of_cases [OF _ r] assms(2) by (simp add: get_u64_def vmval_i32_def)
  moreover have "2 ^ 64 - 2 ^ 31 \<le> nat (i + 2 ^ 64)"
    using assms by (simp add: signed_range_def le_nat_iff)
  ultimately show ?thesis by simp
qed

theorem i32_offset_sign_extends_witness:
  "get_u64 (vmval_i32 (-2147483648)) = Ok 18446744071562067968"
  using i32_offset_sign_extends [of "-2147483648"] by (simp add: signed_range_def)

end
