(* ===== verification/Compile.thy ===== *)
theory Compile
  imports Module_Translator
begin

text \<open>
  The compilation pipeline of \<open>src/src/compile\<close>: compile keys, the list of compilation jobs, the
  index of their outputs, linking, and the table of trap locations. The \<open>Compiler\<close> trait object and
  Cranelift's text section builder are parameters (records of operations); machine code buffers are
  the data Cranelift hands back. The crate declares no builtin functions, so a relocation against a
  builtin ends in the \<open>unreachable!()\<close> of \<open>BuiltinFunctionIndex::name\<close>
  (\<open>src/src/builtins.rs\<close>).
\<close>

section \<open>Compile keys\<close>

text \<open>A key is a namespace, bit-packed from a kind and a module number, and an index.\<close>

datatype CompileKey = CompileKey (key_namespace: nat) (key_index: nat)

definition KIND_BITS :: nat where
  "KIND_BITS = 3"
definition KIND_OFFSET :: nat where
  "KIND_OFFSET = 32 - KIND_BITS"
definition KIND_MASK :: nat where
  "KIND_MASK = (2 ^ KIND_BITS - 1) * 2 ^ KIND_OFFSET"

definition key_kind :: "CompileKey \<Rightarrow> nat" where
  "key_kind k = and (key_namespace k) KIND_MASK"

text \<open>The assertion of the \<open>const fn\<close> is checked at compile time for the four kinds.\<close>

definition new_kind :: "nat \<Rightarrow> nat" where
  "new_kind kind = push_bit KIND_OFFSET kind"

definition WASM_FUNCTION_KIND :: nat where
  "WASM_FUNCTION_KIND = new_kind 0"
definition ARRAY_TO_WASM_TRAMPOLINE_KIND :: nat where
  "ARRAY_TO_WASM_TRAMPOLINE_KIND = new_kind 2"
definition WASM_TO_ARRAY_TRAMPOLINE_KIND :: nat where
  "WASM_TO_ARRAY_TRAMPOLINE_KIND = new_kind 3"
definition WASM_TO_BUILTIN_TRAMPOLINE_KIND :: nat where
  "WASM_TO_BUILTIN_TRAMPOLINE_KIND = new_kind 4"

definition wasm_function :: "DefinedFuncIndex \<Rightarrow> CompileKey" where
  "wasm_function i = CompileKey (or WASM_FUNCTION_KIND 0) i"

definition array_to_wasm_trampoline :: "DefinedFuncIndex \<Rightarrow> CompileKey" where
  "array_to_wasm_trampoline i = CompileKey (or ARRAY_TO_WASM_TRAMPOLINE_KIND 0) i"

definition wasm_to_builtin_trampoline :: "nat \<Rightarrow> CompileKey" where
  "wasm_to_builtin_trampoline i = CompileKey WASM_TO_BUILTIN_TRAMPOLINE_KIND i"

text \<open>The derived order: by namespace, then by index.\<close>

instantiation CompileKey :: linorder
begin

definition less_eq_CompileKey :: "CompileKey \<Rightarrow> CompileKey \<Rightarrow> bool" where
  "less_eq_CompileKey a b \<longleftrightarrow> key_namespace a < key_namespace b \<or>
     key_namespace a = key_namespace b \<and> key_index a \<le> key_index b"

definition less_CompileKey :: "CompileKey \<Rightarrow> CompileKey \<Rightarrow> bool" where
  "less_CompileKey a b \<longleftrightarrow> a \<le> b \<and> \<not> b \<le> (a :: CompileKey)"

instance
proof
  fix x y z :: CompileKey
  show "x < y \<longleftrightarrow> x \<le> y \<and> \<not> y \<le> x" by (rule less_CompileKey_def)
  show "x \<le> x" by (simp add: less_eq_CompileKey_def)
  show "x \<le> y \<Longrightarrow> y \<le> z \<Longrightarrow> x \<le> z" by (auto simp: less_eq_CompileKey_def)
  show "x \<le> y \<Longrightarrow> y \<le> x \<Longrightarrow> x = y" by (auto simp: less_eq_CompileKey_def intro: CompileKey.expand)
  show "x \<le> y \<or> y \<le> x" by (auto simp: less_eq_CompileKey_def)
qed

end

section \<open>Ordered maps\<close>

text \<open>A \<open>BTreeMap\<close> as the list of its entries in key order.\<close>

fun bt_insert :: "'k::linorder \<Rightarrow> 'v \<Rightarrow> ('k \<times> 'v) list \<Rightarrow> ('k \<times> 'v) list" where
  "bt_insert k v [] = [(k, v)]"
| "bt_insert k v ((k', v') # m) =
     (if k < k' then (k, v) # (k', v') # m
      else if k = k' then (k, v) # m
      else (k', v') # bt_insert k v m)"

definition bt_remove :: "'k \<Rightarrow> ('k \<times> 'v) list \<Rightarrow> ('k \<times> 'v) list" where
  "bt_remove k m = filter (\<lambda>e. fst e \<noteq> k) m"

section \<open>Compiled functions\<close>

datatype RelocTarget = RT_User nat | RT_LibCall string | RT_Other string

record MachReloc =
  mr_offset :: nat
  mr_kind :: nat
  mr_target :: RelocTarget
  mr_addend :: int

record MachBuffer =
  buffer_data :: "nat list"
  buffer_relocs :: "MachReloc list"
  buffer_traps :: "(nat \<times> TrapCode) list"

text \<open>Source positions: \<open>u32::MAX\<close> stands for none.\<close>

definition filepos_default :: nat where
  "filepos_default = u32_bound - 1"

definition file_offset :: "nat \<Rightarrow> nat option" where
  "file_offset pos = (if pos = u32_bound - 1 then None else Some pos)"

record CompiledFunction =
  cf_buffer :: MachBuffer
  cf_name_map :: "(nat \<times> nat) list"
  cf_alignment :: nat
  cf_start_srcloc :: nat

text \<open>\<open>CompiledFunction::new\<close>, with the default metadata.\<close>

definition compiled_function_new :: "MachBuffer \<Rightarrow> (nat \<times> nat) list \<Rightarrow> nat \<Rightarrow> CompiledFunction" where
  "compiled_function_new buffer name_map alignment = \<lparr>cf_buffer = buffer, cf_name_map = name_map,
     cf_alignment = alignment, cf_start_srcloc = filepos_default\<rparr>"

definition NS_WASM_FUNC :: nat where
  "NS_WASM_FUNC = 0"
definition NS_BUILTIN :: nat where
  "NS_BUILTIN = 1"

datatype RelocationTarget = R_Wasm FuncIndex | R_Builtin nat

record Relocation =
  rel_kind :: nat
  rel_target :: RelocationTarget
  rel_addend :: int
  rel_offset :: nat

definition from_mach_reloc :: "(nat \<times> nat) list \<Rightarrow> MachReloc \<Rightarrow> Relocation result" where
  "from_mach_reloc name_map r =
     and_then (case mr_target r of
         RT_User user_func_ref \<Rightarrow>
           and_then (pm_index name_map user_func_ref)
           (\<lambda>(namespace, index).
              if namespace = NS_WASM_FUNC then map_ok R_Wasm (from_u32 index)
              else if namespace = NS_BUILTIN then map_ok R_Builtin (from_u32 index)
              else Panic ''unknown namespace'')
       | RT_LibCall l \<Rightarrow> Panic ''not yet implemented: libcalls''
       | RT_Other t \<Rightarrow> Panic ''unsupported relocation target'')
     (\<lambda>target. Ok \<lparr>rel_kind = mr_kind r, rel_target = target, rel_addend = mr_addend r,
        rel_offset = mr_offset r\<rparr>)"

definition relocations :: "CompiledFunction \<Rightarrow> Relocation list result" where
  "relocations f = collect (from_mach_reloc (cf_name_map f)) (buffer_relocs (cf_buffer f))"

text \<open>The traps of a function: offset in the function and trap.\<close>

definition function_traps :: "CompiledFunction \<Rightarrow> (nat \<times> Trap) list result" where
  "function_traps f = collect
     (\<lambda>(offset, code). map_ok (Pair offset) (expect (from_trap_code code) ''unexpected trap code''))
     (buffer_traps (cf_buffer f))"

section \<open>Jobs\<close>

text \<open>The \<open>Compiler\<close> trait.\<close>

record compiler_ops =
  compile_function ::
    "ModuleTranslation \<Rightarrow> DefinedFuncIndex \<Rightarrow> FunctionBodyData \<Rightarrow> ModuleTypes \<Rightarrow> CompiledFunction result"
  compile_array_to_wasm_trampoline ::
    "ModuleTranslation \<Rightarrow> ModuleTypes \<Rightarrow> DefinedFuncIndex \<Rightarrow> CompiledFunction result"
  compile_wasm_to_builtin :: "nat \<Rightarrow> CompiledFunction result"

text \<open>The closures that \<open>CompileInputs\<close> collects.\<close>

datatype CompileInput =
    Function_Job DefinedFuncIndex FunctionBodyData
  | Trampoline_Job DefinedFuncIndex

definition inputs_of_function ::
  "ModuleTranslation \<Rightarrow> CompileInput list \<Rightarrow> DefinedFuncIndex \<times> FunctionBodyData \<Rightarrow>
     CompileInput list result" where
  "inputs_of_function tr inputs entry = (case entry of (i, body) \<Rightarrow>
     and_then (func_index (tr_module tr) i)
     (\<lambda>fi. and_then (pm_index (mod_functions (tr_module tr)) fi)
     (\<lambda>desc. Ok (inputs @ [Function_Job i body] @
        (if is_escaping desc then [Trampoline_Job i] else [])))))"

definition inputs_from_module ::
  "ModuleTranslation \<Rightarrow> FunctionBodyData list \<Rightarrow> CompileInput list result" where
  "inputs_from_module tr bodies = for_each (inputs_of_function tr) [] (enumerate 0 bodies)"

record CompileOutput =
  out_key :: CompileKey
  out_function :: CompiledFunction

fun run_input ::
  "compiler_ops \<Rightarrow> ModuleTranslation \<Rightarrow> ModuleTypes \<Rightarrow> CompileInput \<Rightarrow> CompileOutput result" where
  "run_input c tr types (Function_Job i body) =
     map_ok (\<lambda>f. \<lparr>out_key = wasm_function i, out_function = f\<rparr>) (compile_function c tr i body types)"
| "run_input c tr types (Trampoline_Job i) =
     map_ok (\<lambda>f. \<lparr>out_key = array_to_wasm_trampoline i, out_function = f\<rparr>)
       (compile_array_to_wasm_trampoline c tr types i)"

text \<open>No builtin has a name: the generated \<open>name\<close> has no arm.\<close>

definition builtin_name :: "nat \<Rightarrow> string result" where
  "builtin_name i = Panic ''internal error: entered unreachable code''"

definition builtins_of :: "CompileOutput \<Rightarrow> nat list result" where
  "builtins_of out = map_ok
     (\<lambda>rs. concat (map (\<lambda>r. case rel_target r of R_Wasm _ \<Rightarrow> [] | R_Builtin i \<Rightarrow> [i]) rs))
     (relocations (out_function out))"

definition compile_required_builtin_trampolines ::
  "compiler_ops \<Rightarrow> CompileOutput list \<Rightarrow> CompileOutput list result" where
  "compile_required_builtin_trampolines c outputs =
     and_then (map_ok concat (collect builtins_of outputs))
     (\<lambda>indices. and_then (collect (\<lambda>i. and_then (builtin_name i)
           (\<lambda>_. map_ok (\<lambda>f. \<lparr>out_key = wasm_to_builtin_trampoline i, out_function = f\<rparr>)
              (compile_wasm_to_builtin c i))) (rev (remdups (rev indices))))
     (\<lambda>new. Ok (outputs @ new)))"

text \<open>The index of the outputs by kind and key.\<close>

type_synonym output_indices = "nat \<rightharpoonup> (CompileKey \<times> nat) list"

definition index_output :: "output_indices \<Rightarrow> nat \<times> CompileOutput \<Rightarrow> output_indices" where
  "index_output m entry = (case entry of (index, out) \<Rightarrow>
     let kind = key_kind (out_key out);
         inner = (case m kind of Some i \<Rightarrow> i | None \<Rightarrow> [])
     in m(kind \<mapsto> bt_insert (out_key out) index inner))"

record UnlinkedCompileOutputs =
  unl_indices :: output_indices
  unl_outputs :: "CompileOutput list"

definition compile_inputs ::
  "compiler_ops \<Rightarrow> ModuleTranslation \<Rightarrow> ModuleTypes \<Rightarrow> CompileInput list \<Rightarrow>
     UnlinkedCompileOutputs result" where
  "compile_inputs c tr types inputs =
     and_then (collect (run_input c tr types) inputs)
     (\<lambda>outs. and_then (compile_required_builtin_trampolines c outs)
     (\<lambda>outputs. Ok \<lparr>unl_indices = foldl index_output Map.empty (enumerate 0 outputs),
        unl_outputs = outputs\<rparr>))"

section \<open>Linking\<close>

text \<open>Cranelift's \<open>TextSectionBuilder\<close>: append code, patch a relocation, take the bytes.\<close>

record 't text_ops =
  text_append :: "'t \<Rightarrow> nat list \<Rightarrow> nat \<Rightarrow> nat \<times> 't"
  text_resolve_reloc :: "'t \<Rightarrow> nat \<Rightarrow> nat \<Rightarrow> int \<Rightarrow> nat \<Rightarrow> bool \<times> 't"
  text_finish :: "'t \<Rightarrow> nat list"

record FunctionLoc =
  loc_start :: nat
  loc_length :: nat

record CompiledFunctionInfo =
  wasm_func_loc :: FunctionLoc
  host_to_wasm_trampoline :: "FunctionLoc option"
  info_start_srcloc :: nat

record TrapsBuilder =
  tb_offsets :: "nat list"
  tb_traps :: "Trap list"
  tb_last_offset :: nat

definition push_trap :: "FunctionLoc \<Rightarrow> TrapsBuilder \<Rightarrow> nat \<times> Trap \<Rightarrow> TrapsBuilder result" where
  "push_trap func b entry = (case entry of (offset, trap) \<Rightarrow>
     and_then (add_chk u32_bound (loc_start func) offset)
     (\<lambda>pos. and_then (assert_that (tb_last_offset b \<le> pos) ''assertion failed: pos >= self.last_offset'')
     (\<lambda>_. Ok \<lparr>tb_offsets = tb_offsets b @ [pos], tb_traps = tb_traps b @ [trap], tb_last_offset = pos\<rparr>)))"

definition push_traps :: "FunctionLoc \<Rightarrow> (nat \<times> Trap) list \<Rightarrow> TrapsBuilder \<Rightarrow> TrapsBuilder result" where
  "push_traps func traps b =
     and_then (for_each (push_trap func) b traps)
     (\<lambda>b'. and_then (add_chk u32_bound (loc_start func) (loc_length func))
     (\<lambda>stop. Ok (b'\<lparr>tb_last_offset := stop\<rparr>)))"

text \<open>The output a relocation refers to.\<close>

definition reloc_output ::
  "TranslatedModule \<Rightarrow> output_indices \<Rightarrow> RelocationTarget \<Rightarrow> nat result" where
  "reloc_output m indices target = (case target of
       R_Wasm callee_index \<Rightarrow>
         and_then (expect (defined_func_index m callee_index) ''called `Option::unwrap()` on a `None` value'')
         (\<lambda>i. expect (Option.bind (indices WASM_FUNCTION_KIND) (\<lambda>inner. map_of inner (wasm_function i)))
            ''no entry found for key'')
     | R_Builtin index \<Rightarrow>
         expect (Option.bind (indices WASM_TO_BUILTIN_TRAMPOLINE_KIND)
           (\<lambda>inner. map_of inner (wasm_to_builtin_trampoline index))) ''no entry found for key'')"

text \<open>
  \<open>debug_assert!(text_builder.resolve_reloc(..))\<close>: with debug assertions the relocation is resolved
  and checked; without them the call is not made at all. \<open>debug\<close> tells the two builds apart.
\<close>

definition resolve_reloc ::
  "bool \<Rightarrow> 't text_ops \<Rightarrow> TranslatedModule \<Rightarrow> output_indices \<Rightarrow> nat \<Rightarrow> 't \<Rightarrow> Relocation \<Rightarrow> 't result" where
  "resolve_reloc debug T m indices off t r =
     and_then (reloc_output m indices (rel_target r))
     (\<lambda>target.
        if debug then
          (case text_resolve_reloc T t (off + rel_offset r) (rel_kind r) (rel_addend r) target of
             (resolved, t') \<Rightarrow> and_then (assert_that resolved ''assertion failed: text_builder.resolve_reloc'') (\<lambda>_. Ok t'))
        else Ok t)"

definition link_output ::
  "bool \<Rightarrow> 't text_ops \<Rightarrow> TranslatedModule \<Rightarrow> output_indices \<Rightarrow>
     't \<times> FunctionLoc list \<times> TrapsBuilder \<Rightarrow> CompileOutput \<Rightarrow> ('t \<times> FunctionLoc list \<times> TrapsBuilder) result" where
  "link_output debug T m indices st out = (case st of (t, locs, traps) \<Rightarrow>
     let f = out_function out; body = buffer_data (cf_buffer f) in
     case text_append T t body (cf_alignment f) of (off, t1) \<Rightarrow>
       and_then (relocations f)
       (\<lambda>rs. and_then (for_each (resolve_reloc debug T m indices off) t1 rs)
       (\<lambda>t2. and_then (expect (try_into u32_bound off) ''called `Result::unwrap()` on an `Err` value'')
       (\<lambda>start. and_then (expect (try_into u32_bound (length body)) ''called `Result::unwrap()` on an `Err` value'')
       (\<lambda>len. let loc = \<lparr>loc_start = start, loc_length = len\<rparr> in
          and_then (function_traps f)
          (\<lambda>ts. and_then (push_traps loc ts traps)
          (\<lambda>traps'. Ok (t2, locs @ [loc], traps'))))))))"

text \<open>The information of one function; trampolines are taken out of their map as they are found.\<close>

definition info_of_function ::
  "CompileOutput list \<Rightarrow> FunctionLoc list \<Rightarrow>
     (CompileKey \<times> nat) list \<times> CompiledFunctionInfo list \<Rightarrow> CompileKey \<times> nat \<Rightarrow>
     ((CompileKey \<times> nat) list \<times> CompiledFunctionInfo list) result" where
  "info_of_function outputs locs st entry = (case (st, entry) of ((trampolines, infos), (key, index)) \<Rightarrow>
     and_then (from_u32 (key_index key))
     (\<lambda>i. let tkey = array_to_wasm_trampoline i in
        and_then (case map_of trampolines tkey of
             None \<Rightarrow> Ok None | Some j \<Rightarrow> map_ok Some (pm_index locs j))
        (\<lambda>tramp. and_then (pm_index outputs index)
        (\<lambda>out. and_then (pm_index locs index)
        (\<lambda>loc. Ok (bt_remove tkey trampolines,
           infos @ [\<lparr>wasm_func_loc = loc, host_to_wasm_trampoline = tramp,
              info_start_srcloc = cf_start_srcloc (out_function out)\<rparr>]))))))"

definition link_and_finish ::
  "bool \<Rightarrow> 't text_ops \<Rightarrow> 't \<Rightarrow> TranslatedModule \<Rightarrow> UnlinkedCompileOutputs \<Rightarrow>
     (nat list \<times> CompiledFunctionInfo list \<times> nat list \<times> Trap list) result" where
  "link_and_finish debug T t0 m u =
     and_then (for_each (link_output debug T m (unl_indices u))
         (t0, [], \<lparr>tb_offsets = [], tb_traps = [], tb_last_offset = 0\<rparr>) (unl_outputs u))
     (\<lambda>(t, locs, traps).
        let functions = (case unl_indices u WASM_FUNCTION_KIND of Some i \<Rightarrow> i | None \<Rightarrow> []);
            trampolines = (case unl_indices u ARRAY_TO_WASM_TRAMPOLINE_KIND of Some i \<Rightarrow> i | None \<Rightarrow> []) in
        and_then (for_each (info_of_function (unl_outputs u) locs) (trampolines, []) functions)
        (\<lambda>(_, infos). Ok (text_finish T t, infos, tb_offsets traps, tb_traps traps)))"

section \<open>Facts about keys and jobs\<close>

lemma kind_consts [simp]:
  "WASM_FUNCTION_KIND = 0" "ARRAY_TO_WASM_TRAMPOLINE_KIND = 2 ^ 30"
  "WASM_TO_BUILTIN_TRAMPOLINE_KIND = 2 ^ 31"
  by (simp_all add: WASM_FUNCTION_KIND_def ARRAY_TO_WASM_TRAMPOLINE_KIND_def
      WASM_TO_BUILTIN_TRAMPOLINE_KIND_def new_kind_def KIND_OFFSET_def KIND_BITS_def push_bit_eq_mult)

lemma key_kind_simps [simp]:
  "key_kind (wasm_function i) = 0" "key_kind (array_to_wasm_trampoline i) = 2 ^ 30"
  by (simp_all add: key_kind_def wasm_function_def array_to_wasm_trampoline_def KIND_MASK_def
      KIND_OFFSET_def KIND_BITS_def)

lemma key_less_simps [simp]:
  "wasm_function i < wasm_function j \<longleftrightarrow> i < j"
  "array_to_wasm_trampoline i < array_to_wasm_trampoline j \<longleftrightarrow> i < j"
  "wasm_function i = wasm_function j \<longleftrightarrow> i = j"
  "array_to_wasm_trampoline i = array_to_wasm_trampoline j \<longleftrightarrow> i = j"
  by (auto simp: less_CompileKey_def less_eq_CompileKey_def wasm_function_def array_to_wasm_trampoline_def)

lemma key_index_simps [simp]:
  "key_index (wasm_function i) = i" "key_index (array_to_wasm_trampoline i) = i"
  by (simp_all add: wasm_function_def array_to_wasm_trampoline_def)

text \<open>A loop that appends what each element yields.\<close>

lemma for_each_append_collect:
  assumes "\<And>acc x. x \<in> set xs \<Longrightarrow> f acc x = map_ok (\<lambda>ys. acc @ ys) (g x)"
  shows "for_each f acc xs = map_ok (\<lambda>yss. acc @ concat yss) (collect g xs)"
  using assms
proof (induction xs arbitrary: acc)
  case (Cons x xs)
  have IH: "for_each f acc' xs = map_ok (\<lambda>yss. acc' @ concat yss) (collect g xs)" for acc'
    using Cons.IH Cons.prems by simp
  from Cons.prems [of x acc] show ?case
    by (cases "g x"; cases "collect g xs") (simp_all add: IH map_ok_def)
qed (simp add: map_ok_def)

fun job_key :: "CompileInput \<Rightarrow> CompileKey" where
  "job_key (Function_Job i body) = wasm_function i"
| "job_key (Trampoline_Job i) = array_to_wasm_trampoline i"

definition escapes_at :: "TranslatedModule \<Rightarrow> DefinedFuncIndex \<Rightarrow> bool" where
  "escapes_at m i \<longleftrightarrow> is_escaping (mod_functions m ! (num_imported_functions m + i))"

definition keys_upto :: "TranslatedModule \<Rightarrow> nat \<Rightarrow> CompileKey list" where
  "keys_upto m n = concat (map (\<lambda>i. wasm_function i #
     (if escapes_at m i then [array_to_wasm_trampoline i] else [])) [0..<n])"

lemma inputs_keys:
  assumes "inputs_from_module tr bodies = Ok inputs"
  shows "map job_key inputs = keys_upto (tr_module tr) (length bodies)"
proof -
  let ?m = "tr_module tr"
  define g where "g = (\<lambda>(i, body). and_then (func_index ?m i)
     (\<lambda>fi. and_then (pm_index (mod_functions ?m) fi)
     (\<lambda>desc. Ok ([Function_Job i body] @ (if is_escaping desc then [Trampoline_Job i] else [])) :: CompileInput list result)))"
  have "inputs_of_function tr acc x = map_ok (\<lambda>ys. acc @ ys) (g x)" for acc x
    by (cases x; cases "func_index ?m (fst x)")
      (auto simp: inputs_of_function_def g_def map_ok_def pm_index_def expect_def split: option.splits)
  then have "for_each (inputs_of_function tr) [] (enumerate 0 bodies) =
      map_ok (\<lambda>yss. [] @ concat yss) (collect g (enumerate 0 bodies))"
    by (rule for_each_append_collect)
  with assms obtain yss where ys: "collect g (enumerate 0 bodies) = Ok yss" "inputs = concat yss"
    by (auto simp: inputs_from_module_def)
  have len: "length yss = length bodies" using collect_Ok_length [OF ys(1)] by simp
  have "map job_key (yss ! i) =
      wasm_function i # (if escapes_at ?m i then [array_to_wasm_trampoline i] else [])"
    if "i < length bodies" for i
  proof -
    have "g (enumerate 0 bodies ! i) = Ok (yss ! i)"
      using collect_Ok_nth [OF ys(1)] that by simp
    then show ?thesis
      using that
      by (auto simp: g_def nth_enumerate_eq func_index_def escapes_at_def dest!: sym [of _ "yss ! i"])
  qed
  then have "map (map job_key) yss = map (\<lambda>i. wasm_function i #
      (if escapes_at ?m i then [array_to_wasm_trampoline i] else [])) [0..<length bodies]"
    using len by (intro nth_equalityI) auto
  then show ?thesis by (simp add: ys(2) keys_upto_def map_concat)
qed

lemma run_input_key: "run_input c tr types j = Ok out \<Longrightarrow> out_key out = job_key j"
  by (cases j) auto

lemma compile_keys:
  assumes "compile_inputs c tr types inputs = Ok u"
  shows "map out_key (unl_outputs u) = map job_key inputs"
    "unl_indices u = foldl index_output Map.empty (enumerate 0 (unl_outputs u))"
proof -
  from assms obtain outs outputs where o: "collect (run_input c tr types) inputs = Ok outs"
    "compile_required_builtin_trampolines c outs = Ok outputs" "unl_outputs u = outputs"
    "unl_indices u = foldl index_output Map.empty (enumerate 0 outputs)"
    by (auto simp: compile_inputs_def)
  from o(2) obtain indices new where i: "collect (\<lambda>i. and_then (builtin_name i)
           (\<lambda>_. map_ok (\<lambda>f. \<lparr>out_key = wasm_to_builtin_trampoline i, out_function = f\<rparr>)
              (compile_wasm_to_builtin c i))) indices = Ok new" "outputs = outs @ new"
    by (auto simp: compile_required_builtin_trampolines_def)
  from i(1) have "new = []" by (cases indices) (auto simp: builtin_name_def)
  with i o have outs: "unl_outputs u = outs" by simp
  have "length outs = length inputs" using collect_Ok_length [OF o(1)] by simp
  moreover have "out_key (outs ! i) = job_key (inputs ! i)" if "i < length inputs" for i
    using run_input_key [OF collect_Ok_nth [OF o(1) that]] .
  ultimately show "map out_key (unl_outputs u) = map job_key inputs"
    using outs by (intro nth_equalityI) auto
  show "unl_indices u = foldl index_output Map.empty (enumerate 0 (unl_outputs u))"
    using o by simp
qed

section \<open>The index of the outputs\<close>

definition kind_entries :: "nat \<Rightarrow> CompileOutput list \<Rightarrow> (CompileKey \<times> nat) list" where
  "kind_entries kind outs =
     filter (\<lambda>e. key_kind (fst e) = kind) (zip (map out_key outs) [0..<length outs])"

text \<open>Keys of one kind come in increasing order.\<close>

definition kinds_sorted :: "CompileKey list \<Rightarrow> bool" where
  "kinds_sorted ks \<longleftrightarrow> sorted_wrt (\<lambda>a b. key_kind a = key_kind b \<longrightarrow> a < b) ks"

lemma keys_upto_Suc:
  "keys_upto m (Suc n) = keys_upto m n @ wasm_function n #
     (if escapes_at m n then [array_to_wasm_trampoline n] else [])"
  by (simp add: keys_upto_def)

lemma keys_upto_set:
  "set (keys_upto m n) = wasm_function ` {..<n} \<union> array_to_wasm_trampoline ` {i. i < n \<and> escapes_at m i}"
  by (induction n) (auto simp: keys_upto_Suc keys_upto_def lessThan_Suc less_Suc_eq)

lemma trampoline_key_in_keys:
  "array_to_wasm_trampoline i \<in> set (keys_upto m n) \<longleftrightarrow> i < n \<and> escapes_at m i"
proof -
  have "array_to_wasm_trampoline i \<noteq> wasm_function j" for j
    using key_kind_simps by (metis power_not_zero zero_neq_numeral)
  then show ?thesis by (auto simp: keys_upto_set)
qed

lemma keys_upto_sorted: "kinds_sorted (keys_upto m n)"
proof (induction n)
  case (Suc n)
  then show ?case
    by (auto simp: keys_upto_Suc kinds_sorted_def sorted_wrt_append keys_upto_set)
qed (simp add: keys_upto_def kinds_sorted_def)

lemma bt_insert_last: "\<forall>e\<in>set m. fst e < k \<Longrightarrow> bt_insert k v m = m @ [(k, v)]"
  by (induction k v m rule: bt_insert.induct) (auto dest: order.asym)

lemma index_outputs:
  assumes "kinds_sorted (map out_key outs)"
  shows "foldl index_output Map.empty (enumerate 0 outs) kind =
    (if kind_entries kind outs = [] then None else Some (kind_entries kind outs))"
  using assms
proof (induction outs arbitrary: kind rule: rev_induct)
  case (snoc out outs)
  let ?M = "foldl index_output Map.empty (enumerate 0 outs)" and ?k = "key_kind (out_key out)"
  have IH: "?M kind = (if kind_entries kind outs = [] then None else Some (kind_entries kind outs))" for kind
    using snoc by (simp add: kinds_sorted_def sorted_wrt_append)
  have less: "\<forall>e\<in>set (kind_entries ?k outs). fst e < out_key out"
    using snoc.prems by (fastforce simp: kind_entries_def kinds_sorted_def sorted_wrt_append
        dest: set_zip_leftD)
  have inner: "(case ?M ?k of Some i \<Rightarrow> i | None \<Rightarrow> []) = kind_entries ?k outs"
    using IH [of ?k] by auto
  have snoc_entries: "kind_entries kind (outs @ [out]) =
      kind_entries kind outs @ (if ?k = kind then [(out_key out, length outs)] else [])"
    by (simp add: kind_entries_def)
  have "foldl index_output Map.empty (enumerate 0 (outs @ [out])) =
      ?M(?k \<mapsto> kind_entries ?k outs @ [(out_key out, length outs)])"
    by (simp add: enumerate_append_eq index_output_def Let_def inner bt_insert_last [OF less])
  with IH show ?case by (simp add: snoc_entries)
qed (simp add: kind_entries_def)

lemma kind_entries_nth:
  assumes "(k, p) \<in> set (kind_entries kind outs)"
  shows "p < length outs" "out_key (outs ! p) = k" "key_kind k = kind"
  using assms by (auto simp: kind_entries_def in_set_zip)

lemma map_of_kind_entries:
  assumes "kinds_sorted (map out_key outs)" and "key_kind k = kind"
  shows "map_of (kind_entries kind outs) k = None \<longleftrightarrow> k \<notin> out_key ` set outs"
proof -
  have "k \<in> out_key ` set outs \<longleftrightarrow> (\<exists>p. (k, p) \<in> set (zip (map out_key outs) [0..<length outs]))"
    by (force simp: in_set_zip in_set_conv_nth)
  then show ?thesis
    using assms(2) by (force simp: map_of_eq_None_iff kind_entries_def image_iff)
qed

lemma map_fst_filter_zip:
  "length xs = length ys \<Longrightarrow> map fst (filter (\<lambda>e. P (fst e)) (zip xs ys)) = filter P xs"
  by (induction xs ys rule: list_induct2) auto

lemma functions_entries:
  assumes "map out_key outs = keys_upto m n"
  shows "map fst (kind_entries 0 outs) = map wasm_function [0..<n]"
proof -
  have "map fst (kind_entries 0 outs) = filter (\<lambda>k. key_kind k = 0) (map out_key outs)"
    unfolding kind_entries_def by (rule map_fst_filter_zip) simp
  moreover have "filter (\<lambda>k. key_kind k = 0) (keys_upto m n) = map wasm_function [0..<n]"
    by (induction n) (auto simp: keys_upto_Suc, simp add: keys_upto_def)
  ultimately show ?thesis using assms by simp
qed

section \<open>The information of each function\<close>

lemma map_of_bt_remove: "map_of (bt_remove k m) k' = (if k' = k then None else map_of m k')"
  by (induction m) (auto simp: bt_remove_def)

lemma info_loop:
  assumes "for_each (info_of_function outputs locs) (tramps, infos) es = Ok (tramps', infos')"
    and "distinct (map fst es)" and "\<forall>e\<in>set es. \<exists>i. fst e = wasm_function i"
  shows "\<exists>new. infos' = infos @ new \<and> list_all2 (\<lambda>e info.
      snd e < length locs \<and> wasm_func_loc info = locs ! snd e \<and>
      host_to_wasm_trampoline info =
        map_option (nth locs) (map_of tramps (array_to_wasm_trampoline (key_index (fst e))))) es new"
  using assms
proof (induction es arbitrary: tramps infos)
  case (Cons e es)
  from Cons.prems(1) obtain st where step: "info_of_function outputs locs (tramps, infos) e = Ok st"
    and rest: "for_each (info_of_function outputs locs) st es = Ok (tramps', infos')"
    by auto
  define k where "k = array_to_wasm_trampoline (key_index (fst e))"
  from step obtain info where st: "st = (bt_remove k tramps, infos @ [info])"
    and info: "snd e < length locs" "wasm_func_loc info = locs ! snd e"
      "host_to_wasm_trampoline info = map_option (nth locs) (map_of tramps k)"
    by (cases e) (auto simp: info_of_function_def from_u32_def k_def Let_def split: option.splits)
  from Cons.IH [of "bt_remove k tramps" "infos @ [info]"] rest st Cons.prems(2,3) obtain new where
    new: "infos' = (infos @ [info]) @ new" "list_all2 (\<lambda>e info.
      snd e < length locs \<and> wasm_func_loc info = locs ! snd e \<and>
      host_to_wasm_trampoline info =
        map_option (nth locs) (map_of (bt_remove k tramps) (array_to_wasm_trampoline (key_index (fst e))))) es new"
    by auto
  have "map_of (bt_remove k tramps) (array_to_wasm_trampoline (key_index (fst e'))) =
      map_of tramps (array_to_wasm_trampoline (key_index (fst e')))" if "e' \<in> set es" for e'
  proof -
    from that Cons.prems(2,3) obtain i j where ij: "fst e = wasm_function i" "fst e' = wasm_function j"
      by auto
    moreover from that Cons.prems(2) have "fst e \<noteq> fst e'" by force
    ultimately show ?thesis by (auto simp: map_of_bt_remove k_def)
  qed
  with new(2) have "list_all2 (\<lambda>e info.
      snd e < length locs \<and> wasm_func_loc info = locs ! snd e \<and>
      host_to_wasm_trampoline info =
        map_option (nth locs) (map_of tramps (array_to_wasm_trampoline (key_index (fst e))))) es new"
    by (auto simp: list_all2_conv_all_nth)
  with new(1) info k_def show ?case by (intro exI [of _ "info # new"]) auto
qed auto

section \<open>The layout of the text section\<close>

text \<open>
  What linking relies on of the text section builder: appended code starts at or behind the end of
  what is there, and relocations change no lengths.
\<close>

definition text_contract :: "'t text_ops \<Rightarrow> ('t \<Rightarrow> nat) \<Rightarrow> bool" where
  "text_contract T len \<longleftrightarrow>
     (\<forall>t body al off t'. text_append T t body al = (off, t') \<longrightarrow> len t \<le> off \<and> len t' = off + length body) \<and>
     (\<forall>t off kind addend target r t'. text_resolve_reloc T t off kind addend target = (r, t') \<longrightarrow> len t' = len t) \<and>
     (\<forall>t. len t \<le> length (text_finish T t))"

definition loc_end :: "FunctionLoc \<Rightarrow> nat" where
  "loc_end l = loc_start l + loc_length l"

definition layout_inv :: "('t \<Rightarrow> nat) \<Rightarrow> 't \<times> FunctionLoc list \<times> TrapsBuilder \<Rightarrow> bool" where
  "layout_inv len st \<longleftrightarrow> (case st of (t, locs, b) \<Rightarrow>
     sorted_wrt (\<lambda>l l'. loc_end l \<le> loc_start l') locs \<and> (\<forall>l\<in>set locs. loc_end l \<le> len t))"

definition traps_inv :: "TrapsBuilder \<Rightarrow> bool" where
  "traps_inv b \<longleftrightarrow> length (tb_offsets b) = length (tb_traps b) \<and> sorted (tb_offsets b) \<and>
     (\<forall>x\<in>set (tb_offsets b). x < 2 ^ 32)"

lemma resolve_relocs_len:
  assumes "text_contract T len" and "for_each (resolve_reloc debug T m ix off) t rs = Ok t'"
  shows "len t' = len t"
  using assms(2)
proof (rule for_each_invariant [where P = "\<lambda>x. len x = len t"])
  fix s x s'
  assume "len s = len t" "resolve_reloc debug T m ix off s x = Ok s'"
  then show "len s' = len t"
    using assms(1) unfolding text_contract_def
    by (auto simp: resolve_reloc_def split: if_splits prod.splits)
qed simp

lemma link_output_layout:
  assumes "text_contract T len" and "layout_inv len st" and "link_output debug T m ix st out = Ok st'"
  shows "layout_inv len st' \<and> (\<exists>loc. fst (snd st') = fst (snd st) @ [loc] \<and>
    loc_length loc = length (buffer_data (cf_buffer (out_function out))))"
proof -
  obtain t locs b where st: "st = (t, locs, b)" using prod_cases3 by blast
  let ?body = "buffer_data (cf_buffer (out_function out))"
  obtain off t1 where a: "text_append T t ?body (cf_alignment (out_function out)) = (off, t1)"
    by fastforce
  from assms(3) obtain rs t2 b' where
    rs: "for_each (resolve_reloc debug T m ix off) t1 rs = Ok t2"
    and st': "st' = (t2, locs @ [\<lparr>loc_start = off, loc_length = length ?body\<rparr>], b')"
    by (auto simp: link_output_def st a Let_def try_into_def split: if_splits)
  have "len t \<le> off" "len t1 = off + length ?body"
    using assms(1) a unfolding text_contract_def by blast+
  moreover have "len t2 = len t1" by (rule resolve_relocs_len [OF assms(1) rs])
  ultimately show ?thesis
    using assms(2) st' by (fastforce simp: layout_inv_def st sorted_wrt_append loc_end_def)
qed

lemma link_outputs_layout:
  assumes "text_contract T len" and "layout_inv len (t, locs, b)"
    and "for_each (link_output debug T m ix) (t, locs, b) outs = Ok (t', locs', b')"
  shows "layout_inv len (t', locs', b') \<and> (\<exists>new. locs' = locs @ new \<and>
    map loc_length new = map (\<lambda>out. length (buffer_data (cf_buffer (out_function out)))) outs)"
  using assms(2,3)
proof (induction outs arbitrary: t locs b)
  case (Cons out outs)
  from Cons.prems(2) obtain t1 locs1 b1 where
    one: "link_output debug T m ix (t, locs, b) out = Ok (t1, locs1, b1)"
    and rest: "for_each (link_output debug T m ix) (t1, locs1, b1) outs = Ok (t', locs', b')"
    by auto
  from link_output_layout [OF assms(1) Cons.prems(1) one] obtain loc where
    "layout_inv len (t1, locs1, b1)" "locs1 = locs @ [loc]"
    "loc_length loc = length (buffer_data (cf_buffer (out_function out)))"
    by auto
  with Cons.IH [OF _ rest] show ?case by fastforce
qed simp

section \<open>The table of trap locations\<close>

definition traps_upto :: "nat \<Rightarrow> TrapsBuilder \<Rightarrow> bool" where
  "traps_upto n b \<longleftrightarrow> traps_inv b \<and> (\<forall>x\<in>set (tb_offsets b). x \<le> tb_last_offset b) \<and> tb_last_offset b \<le> n"

lemma push_traps_upto:
  assumes "traps_upto (loc_start func) b" and "push_traps func ts b = Ok b'"
    and "\<forall>e\<in>set ts. fst e \<le> loc_length func"
  shows "traps_upto (loc_end func) b'"
proof -
  from assms(2) obtain b1 where b1: "for_each (push_trap func) b ts = Ok b1"
    and b': "b' = b1\<lparr>tb_last_offset := loc_end func\<rparr>"
    by (auto simp: push_traps_def loc_end_def)
  have "traps_upto (loc_end func) b1"
  proof (rule for_each_invariant [OF b1])
    show "traps_upto (loc_end func) b" using assms(1) by (simp add: traps_upto_def loc_end_def)
    fix s x s'
    assume x: "x \<in> set ts" and s: "traps_upto (loc_end func) s" "push_trap func s x = Ok s'"
    obtain offset trap where xe: "x = (offset, trap)" by fastforce
    have "offset \<le> loc_length func" using assms(3) x xe by auto
    with s show "traps_upto (loc_end func) s'"
      by (fastforce simp: xe push_trap_def traps_upto_def traps_inv_def sorted_append loc_end_def)
  qed
  then show ?thesis by (auto simp: traps_upto_def traps_inv_def b')
qed

text \<open>What Cranelift promises of a buffer: traps lie in the code.\<close>

definition traps_in_body :: "CompiledFunction \<Rightarrow> bool" where
  "traps_in_body f \<longleftrightarrow> (\<forall>e\<in>set (buffer_traps (cf_buffer f)). fst e \<le> length (buffer_data (cf_buffer f)))"

lemma function_traps_fst:
  "function_traps f = Ok ts \<Longrightarrow> map fst ts = map fst (buffer_traps (cf_buffer f))"
proof -
  have "collect (\<lambda>(offset, code). map_ok (Pair offset) (expect (from_trap_code code) msg)) raw =
      (Ok ts :: (nat \<times> Trap) list result) \<Longrightarrow> map fst ts = map fst raw" for raw msg
    by (induction raw arbitrary: ts) auto
  then show "function_traps f = Ok ts \<Longrightarrow> map fst ts = map fst (buffer_traps (cf_buffer f))"
    unfolding function_traps_def .
qed

lemma link_output_traps:
  assumes T: "text_contract T len" and "traps_upto (len t) b"
    and link: "link_output debug T m ix (t, locs, b) out = Ok (t', locs', b')"
    and body: "traps_in_body (out_function out)"
  shows "traps_upto (len t') b'"
proof -
  let ?f = "out_function out" and ?body = "buffer_data (cf_buffer (out_function out))"
  obtain off t1 where a: "text_append T t ?body (cf_alignment ?f) = (off, t1)" by fastforce
  from link obtain rs ts where
    rs: "for_each (resolve_reloc debug T m ix off) t1 rs = Ok t'"
    and ts: "function_traps ?f = Ok ts"
    and pt: "push_traps \<lparr>loc_start = off, loc_length = length ?body\<rparr> ts b = Ok b'"
    by (auto simp: link_output_def a Let_def try_into_def split: if_splits)
  have len: "len t \<le> off" "len t1 = off + length ?body"
    using T a unfolding text_contract_def by blast+
  have "fst ` set ts = fst ` set (buffer_traps (cf_buffer ?f))"
    using function_traps_fst [OF ts] by (metis list.set_map)
  with body have "\<forall>e\<in>set ts. fst e \<le> length ?body"
    unfolding traps_in_body_def by (metis (no_types, lifting) imageE imageI)
  moreover have "traps_upto off b" using assms(2) len(1) by (simp add: traps_upto_def)
  ultimately have "traps_upto (off + length ?body) b'"
    using push_traps_upto [OF _ pt] by (simp add: loc_end_def)
  then show ?thesis using resolve_relocs_len [OF T rs] len(2) by simp
qed

lemma link_outputs_traps:
  assumes "text_contract T len" and "traps_upto (len t) b"
    and "for_each (link_output debug T m ix) (t, locs, b) outs = Ok (t', locs', b')"
    and "\<forall>out\<in>set outs. traps_in_body (out_function out)"
  shows "traps_upto (len t') b'"
proof -
  have "(\<lambda>(t, locs, b). traps_upto (len t) b) (t', locs', b')"
    by (rule for_each_invariant [OF assms(3)])
      (use assms(2,4) link_output_traps [OF assms(1)] in auto)
  then show ?thesis by simp
qed

section \<open>Properties\<close>

text \<open>
  Linking the outputs of the jobs of a module: the positions, the entries of the function index and
  the information read off them.
\<close>

lemma link_entries:
  assumes "map out_key outs = keys_upto m n" and "unl_outputs u = outs"
    and "unl_indices u = foldl index_output Map.empty (enumerate 0 outs)"
    and "link_and_finish debug T t0 m u = Ok (code, infos, offs, traps)" and "text_contract T len"
  shows "\<exists>locs. map loc_length locs = map (\<lambda>out. length (buffer_data (cf_buffer (out_function out)))) outs \<and>
    sorted_wrt (\<lambda>l l'. loc_end l \<le> loc_start l') locs \<and> (\<forall>l\<in>set locs. loc_end l \<le> length code) \<and>
    list_all2 (\<lambda>e info. snd e < length locs \<and> wasm_func_loc info = locs ! snd e \<and>
      host_to_wasm_trampoline info = map_option (nth locs)
        (map_of (kind_entries (2 ^ 30) outs) (array_to_wasm_trampoline (key_index (fst e)))))
      (kind_entries 0 outs) infos"
proof -
  have sorted: "kinds_sorted (map out_key outs)" using assms(1) keys_upto_sorted by simp
  have entries: "(case unl_indices u kind of Some i \<Rightarrow> i | None \<Rightarrow> []) = kind_entries kind outs" for kind
    using index_outputs [OF sorted, of kind] by (simp add: assms(3))
  from assms(4) obtain t locs b tramps' where
    locs: "for_each (link_output debug T m (unl_indices u))
        (t0, [], \<lparr>tb_offsets = [], tb_traps = [], tb_last_offset = 0\<rparr>) outs = Ok (t, locs, b)"
    and infos: "for_each (info_of_function outs locs) (kind_entries (2 ^ 30) outs, [])
        (kind_entries 0 outs) = Ok (tramps', infos)"
    and code: "code = text_finish T t"
    by (auto simp: link_and_finish_def Let_def entries assms(2))
  from link_outputs_layout [OF assms(5) _ locs] have "layout_inv len (t, locs, b)"
    and lengths: "map loc_length locs = map (\<lambda>out. length (buffer_data (cf_buffer (out_function out)))) outs"
    by (auto simp: layout_inv_def)
  moreover have "len t \<le> length code" using assms(5) code by (auto simp: text_contract_def)
  ultimately have layout: "sorted_wrt (\<lambda>l l'. loc_end l \<le> loc_start l') locs"
    "\<forall>l\<in>set locs. loc_end l \<le> length code"
    by (auto simp: layout_inv_def)
  have fe: "map fst (kind_entries 0 outs) = map wasm_function [0..<n]"
    by (rule functions_entries [OF assms(1)])
  then have "distinct (map fst (kind_entries 0 outs))" by (simp add: distinct_map inj_on_def)
  moreover have "fst ` set (kind_entries 0 outs) = wasm_function ` {..<n}"
    using fe by (metis atLeast_upt list.set_map)
  then have "\<forall>e\<in>set (kind_entries 0 outs). \<exists>i. fst e = wasm_function i" by blast
  ultimately obtain new where "infos = [] @ new" "list_all2 (\<lambda>e info. snd e < length locs \<and>
      wasm_func_loc info = locs ! snd e \<and> host_to_wasm_trampoline info = map_option (nth locs)
        (map_of (kind_entries (2 ^ 30) outs) (array_to_wasm_trampoline (key_index (fst e)))))
      (kind_entries 0 outs) new"
    using info_loop [OF infos] by blast
  with lengths layout show ?thesis by auto
qed

text \<open>C12.
  Compiling and linking a module: there is one \<open>CompiledFunctionInfo\<close> per function body, in order;
  function \<open>i\<close> is located where the output of its own compilation job was placed, with the length of
  that job's code; it has a host-to-wasm trampoline exactly when the function was flagged as
  escaping, and that is the place of its own trampoline job. The places of distinct jobs do not
  overlap and lie inside the text section.
\<close>

theorem link_function_infos:
  assumes "inputs_from_module tr bodies = Ok inputs" and "compile_inputs c tr types inputs = Ok u"
    and "link_and_finish debug T t0 (tr_module tr) u = Ok (code, infos, offs, traps)"
    and "text_contract T len"
  shows "length infos = length bodies \<and> (\<exists>locs. length locs = length inputs \<and>
    sorted_wrt (\<lambda>l l'. loc_end l \<le> loc_start l') locs \<and> (\<forall>l\<in>set locs. loc_end l \<le> length code) \<and>
    (\<forall>i<length bodies. (\<exists>p<length inputs. job_key (inputs ! p) = wasm_function i \<and>
        wasm_func_loc (infos ! i) = locs ! p \<and>
        loc_length (locs ! p) = length (buffer_data (cf_buffer (out_function (unl_outputs u ! p))))) \<and>
      (case host_to_wasm_trampoline (infos ! i) of
         None \<Rightarrow> \<not> escapes_at (tr_module tr) i
       | Some l \<Rightarrow> escapes_at (tr_module tr) i \<and>
           (\<exists>q<length inputs. job_key (inputs ! q) = array_to_wasm_trampoline i \<and> l = locs ! q))))"
proof -
  let ?m = "tr_module tr" and ?outs = "unl_outputs u" and ?n = "length bodies"
  note keys = compile_keys [OF assms(2)]
  have out_keys: "map out_key ?outs = keys_upto ?m ?n" using keys(1) inputs_keys [OF assms(1)] by simp
  have lens: "length ?outs = length inputs" using keys(1) by (metis length_map)
  have key_at: "job_key (inputs ! p) = out_key (?outs ! p)" if "p < length ?outs" for p
    using keys(1) that lens by (metis nth_map)
  from link_entries [OF out_keys refl keys(2) assms(3,4)] obtain locs where
    lengths: "map loc_length locs = map (\<lambda>out. length (buffer_data (cf_buffer (out_function out)))) ?outs"
    and layout: "sorted_wrt (\<lambda>l l'. loc_end l \<le> loc_start l') locs" "\<forall>l\<in>set locs. loc_end l \<le> length code"
    and infos: "list_all2 (\<lambda>e info. snd e < length locs \<and> wasm_func_loc info = locs ! snd e \<and>
      host_to_wasm_trampoline info = map_option (nth locs)
        (map_of (kind_entries (2 ^ 30) ?outs) (array_to_wasm_trampoline (key_index (fst e)))))
      (kind_entries 0 ?outs) infos"
    by blast
  have n: "length locs = length inputs" using lengths lens by (metis length_map)
  have fe: "map fst (kind_entries 0 ?outs) = map wasm_function [0..<?n]" by (rule functions_entries [OF out_keys])
  have fe_len: "length (kind_entries 0 ?outs) = ?n" using arg_cong [OF fe, of length] by simp
  have per_function: "(\<exists>p<length inputs. job_key (inputs ! p) = wasm_function i \<and>
        wasm_func_loc (infos ! i) = locs ! p \<and>
        loc_length (locs ! p) = length (buffer_data (cf_buffer (out_function (?outs ! p))))) \<and>
      (case host_to_wasm_trampoline (infos ! i) of None \<Rightarrow> \<not> escapes_at ?m i
       | Some l \<Rightarrow> escapes_at ?m i \<and>
           (\<exists>q<length inputs. job_key (inputs ! q) = array_to_wasm_trampoline i \<and> l = locs ! q))"
    if i: "i < ?n" for i
  proof
    obtain p where e: "kind_entries 0 ?outs ! i = (wasm_function i, p)"
      using arg_cong [OF fe, of "\<lambda>xs. xs ! i"] i fe_len by (cases "kind_entries 0 ?outs ! i") auto
    then have "(wasm_function i, p) \<in> set (kind_entries 0 ?outs)" using i fe_len by (metis nth_mem)
    note p = kind_entries_nth [OF this]
    have info: "wasm_func_loc (infos ! i) = locs ! p" "host_to_wasm_trampoline (infos ! i) =
        map_option (nth locs) (map_of (kind_entries (2 ^ 30) ?outs) (array_to_wasm_trampoline i))"
      using list_all2_nthD [OF infos, of i] i fe_len e by auto
    show "\<exists>p<length inputs. job_key (inputs ! p) = wasm_function i \<and> wasm_func_loc (infos ! i) = locs ! p \<and>
        loc_length (locs ! p) = length (buffer_data (cf_buffer (out_function (?outs ! p))))"
      using p info(1) key_at lens arg_cong [OF lengths, of "\<lambda>xs. xs ! p"] n by auto
    let ?t = "map_of (kind_entries (2 ^ 30) ?outs) (array_to_wasm_trampoline i)"
    have none: "?t = None \<longleftrightarrow> \<not> escapes_at ?m i"
      using map_of_kind_entries [of ?outs "array_to_wasm_trampoline i" "2 ^ 30"] out_keys i
        keys_upto_sorted [of ?m ?n] trampoline_key_in_keys [of i ?m ?n] list.set_map [of out_key ?outs]
      by simp
    show "case host_to_wasm_trampoline (infos ! i) of None \<Rightarrow> \<not> escapes_at ?m i
       | Some l \<Rightarrow> escapes_at ?m i \<and>
           (\<exists>q<length inputs. job_key (inputs ! q) = array_to_wasm_trampoline i \<and> l = locs ! q)"
    proof (cases ?t)
      case (Some q)
      from kind_entries_nth [OF map_of_SomeD [OF Some]] Some none info(2) key_at lens show ?thesis by auto
    qed (use none info(2) in simp)
  qed
  have "length infos = ?n" using list_all2_lengthD [OF infos] fe_len by simp
  with n layout per_function show ?thesis by blast
qed

text \<open>A text section builder that appends without padding, and a compiler that emits one byte.\<close>

definition plain_text :: "nat list text_ops" where
  "plain_text = \<lparr>text_append = (\<lambda>t body al. (length t, t @ body)),
     text_resolve_reloc = (\<lambda>t off kind addend target. (True, t[off := target])), text_finish = (\<lambda>t. t)\<rparr>"

definition byte_code :: "nat \<Rightarrow> CompiledFunction" where
  "byte_code b = \<lparr>cf_buffer = \<lparr>buffer_data = [b], buffer_relocs = [],
     buffer_traps = [(0, UserTrap 3)]\<rparr>, cf_name_map = [], cf_alignment = 1, cf_start_srcloc = 0\<rparr>"

definition byte_compiler :: compiler_ops where
  "byte_compiler = \<lparr>compile_function = (\<lambda>tr i body types. Ok (byte_code 17)),
     compile_array_to_wasm_trampoline = (\<lambda>tr types i. Ok (byte_code 34)),
     compile_wasm_to_builtin = (\<lambda>i. Ok (byte_code 51))\<rparr>"

definition one_function :: ModuleTranslation where
  "one_function = translation_default\<lparr>tr_module := module_default\<lparr>num_escaped_functions := 1,
     mod_functions := [\<lparr>signature = 0, func_ref = 0\<rparr>]\<rparr>\<rparr>"

lemma plain_text_contract: "text_contract plain_text length"
  by (auto simp: text_contract_def plain_text_def)

lemma one_function_links:
  "inputs_from_module one_function [body] = Ok [Function_Job 0 body, Trampoline_Job 0]"
  "\<exists>u. compile_inputs byte_compiler one_function types [Function_Job 0 body, Trampoline_Job 0] = Ok u \<and>
     map out_function (unl_outputs u) = [byte_code 17, byte_code 34] \<and>
     (\<exists>infos. link_and_finish True plain_text [] (tr_module one_function) u =
        Ok ([17, 34], infos, [0, 1], [TableOutOfBounds, TableOutOfBounds]))"
  by (simp_all add: inputs_from_module_def inputs_of_function_def one_function_def translation_default_def
      module_default_def func_index_def add_chk_def is_escaping_def reserved_value_def compile_inputs_def
      byte_compiler_def compile_required_builtin_trampolines_def builtins_of_def relocations_def
      byte_code_def index_output_def link_and_finish_def link_output_def plain_text_def Let_def
      try_into_def function_traps_def from_trap_code_def trap_code_defs push_traps_def push_trap_def
      info_of_function_def from_u32_def)

theorem link_function_infos_witness:
  "\<forall>types body. \<exists>u infos.
     compile_inputs byte_compiler one_function types [Function_Job 0 body, Trampoline_Job 0] = Ok u \<and>
     link_and_finish True plain_text [] (tr_module one_function) u =
        Ok ([17, 34], infos, [0, 1], [TableOutOfBounds, TableOutOfBounds]) \<and> length infos = 1"
proof (intro allI)
  fix types body
  obtain u infos where
    u: "compile_inputs byte_compiler one_function types [Function_Job 0 body, Trampoline_Job 0] = Ok u"
    and l: "link_and_finish True plain_text [] (tr_module one_function) u =
        Ok ([17, 34], infos, [0, 1], [TableOutOfBounds, TableOutOfBounds])"
    using one_function_links(2) by blast
  have "length infos = length [body]"
    using link_function_infos [OF one_function_links(1) u l plain_text_contract] by blast
  with u l show "\<exists>u infos.
     compile_inputs byte_compiler one_function types [Function_Job 0 body, Trampoline_Job 0] = Ok u \<and>
     link_and_finish True plain_text [] (tr_module one_function) u =
        Ok ([17, 34], infos, [0, 1], [TableOutOfBounds, TableOutOfBounds]) \<and> length infos = 1"
    by auto
qed

text \<open>The call \<open>text_builder.resolve_reloc\<close> stands inside \<open>debug_assert!\<close>: in a build without debug
  assertions linking gives the same result whatever \<open>resolve_reloc\<close> does, so no relocation between
  functions is ever applied.
\<close>

theorem release_link_ignores_relocations:
  "link_and_finish False (T\<lparr>text_resolve_reloc := patch\<rparr>) t0 m u = link_and_finish False T t0 m u"
proof -
  have "resolve_reloc False (T\<lparr>text_resolve_reloc := patch\<rparr>) m ix = resolve_reloc False T m ix" for ix
    by (intro ext) (simp add: resolve_reloc_def)
  then have "link_output False (T\<lparr>text_resolve_reloc := patch\<rparr>) m ix = link_output False T m ix" for ix
    by (intro ext) (simp add: link_output_def)
  then show ?thesis by (simp add: link_and_finish_def)
qed

end
