(* ===== verification/Mmap.thy ===== *)
theory Mmap
  imports Entities
begin

text \<open>
  Page-granular memory: the rounding helpers of \<open>src/src/utils.rs\<close>, the owned mappings of
  \<open>src/src/placeholder/mmap.rs\<close> and the growable vectors of \<open>src/src/runtime/mmap_vec.rs\<close>.

  The operating system is a parameter: \<open>os_mmap\<close>, \<open>os_mprotect\<close> and \<open>os_munmap\<close> work on a kernel
  state, and \<open>os_contract\<close> states what the manual pages promise of them. A mapping is owned by one
  value; the elements stored in a vector are kept with the vector.
\<close>

section \<open>The operating system\<close>

datatype prot = PROT_NONE | PROT_RW | PROT_READ | PROT_RX

record 'k os_ops =
  host_page_size :: nat
  os_mmap :: "'k \<Rightarrow> nat \<Rightarrow> prot \<Rightarrow> (nat \<times> 'k) option"
  os_mprotect :: "'k \<Rightarrow> nat \<Rightarrow> nat \<Rightarrow> prot \<Rightarrow> 'k option"
  os_munmap :: "'k \<Rightarrow> nat \<Rightarrow> nat \<Rightarrow> 'k option"
  prot_at :: "'k \<Rightarrow> nat \<Rightarrow> prot option"

definition is_power_of_two :: "nat \<Rightarrow> bool" where
  "is_power_of_two n \<longleftrightarrow> (\<exists>i<64. n = 2 ^ i)"

text \<open>The first multiple of \<open>p\<close> that is not below \<open>n\<close>.\<close>

definition page_ceil :: "nat \<Rightarrow> nat \<Rightarrow> nat" where
  "page_ceil p n = (n + p - 1) div p * p"

definition os_contract :: "'k os_ops \<Rightarrow> bool" where
  "os_contract S \<longleftrightarrow>
     is_power_of_two (host_page_size S) \<and>
     (\<forall>k size p a k'. os_mmap S k size p = Some (a, k') \<longrightarrow>
        0 < a \<and> a mod host_page_size S = 0 \<and> a + size < 2 ^ 64 \<and>
        (\<forall>x. prot_at S k' x = (if a \<le> x \<and> x < a + size then Some p else prot_at S k x)) \<and>
        (\<forall>x. a \<le> x \<and> x < a + size \<longrightarrow> prot_at S k x = None)) \<and>
     (\<forall>k a len p k'. os_mprotect S k a len p = Some k' \<longrightarrow>
        (\<forall>x. prot_at S k' x =
           (if a \<le> x \<and> x < page_ceil (host_page_size S) (a + len) then Some p else prot_at S k x))) \<and>
     (\<forall>k a len k'. os_munmap S k a len = Some k' \<longrightarrow>
        (\<forall>x. prot_at S k' x =
           (if a \<le> x \<and> x < page_ceil (host_page_size S) (a + len) then None else prot_at S k x)))"

section \<open>Rounding to host pages\<close>

definition usize_is_multiple_of_host_page_size :: "'k os_ops \<Rightarrow> nat \<Rightarrow> bool" where
  "usize_is_multiple_of_host_page_size S bytes \<longleftrightarrow> bytes mod host_page_size S = 0"

text \<open>
  \<open>val & !page_size_minus_one\<close> on \<open>u64\<close>; \<open>val\<close> is below \<open>2 ^ 64\<close>, so the complement may as well be
  taken on unbounded integers.
\<close>

definition round_u64_up_to_host_pages :: "'k os_ops \<Rightarrow> nat \<Rightarrow> nat result" where
  "round_u64_up_to_host_pages S bytes = (let page_size = host_page_size S in
     and_then (assert_that (is_power_of_two page_size) ''assertion failed: page_size.is_power_of_two()'')
     (\<lambda>_. and_then (expect (if 1 \<le> page_size then Some (page_size - 1) else None)
                      ''called `Option::unwrap()` on a `None` value'')
     (\<lambda>page_size_minus_one.
        if bytes + page_size_minus_one < u64_bound
        then Ok (nat (and (int (bytes + page_size_minus_one)) (not (int page_size_minus_one))))
        else Panic ''too large to be rounded up to a multiple of the host page size'')))"

text \<open>\<open>usize\<close> has 64 bits, so both conversions succeed.\<close>

definition round_usize_up_to_host_pages :: "'k os_ops \<Rightarrow> nat \<Rightarrow> nat result" where
  "round_usize_up_to_host_pages S bytes =
     and_then (expect (try_into u64_bound bytes) ''called `Result::unwrap()` on an `Err` value'')
     (\<lambda>b. and_then (round_u64_up_to_host_pages S b)
     (\<lambda>rounded. expect (try_into u64_bound rounded) ''called `Result::unwrap()` on an `Err` value''))"

lemma and_not_mask_int: "and (x::int) (not (2 ^ n - 1)) = x div 2 ^ n * 2 ^ n"
proof -
  have "and x (not (mask n)) = push_bit n (drop_bit n x)"
    by (rule bit_eqI) (auto simp: bit_simps)
  then show ?thesis by (simp add: mask_eq_exp_minus_1 push_bit_eq_mult drop_bit_eq_div)
qed

lemma round_u64_eq:
  assumes "is_power_of_two (host_page_size S)"
  shows "round_u64_up_to_host_pages S n =
    (if n + host_page_size S - 1 < u64_bound then Ok (page_ceil (host_page_size S) n)
     else Panic ''too large to be rounded up to a multiple of the host page size'')"
proof -
  from assms obtain i where i: "host_page_size S = 2 ^ i" by (auto simp: is_power_of_two_def)
  let ?v = "n + (2 ^ i - 1)"
  have e: "int (2 ^ i - 1) = 2 ^ i - 1" by (simp add: of_nat_diff)
  have "nat (and (int ?v) (not (int (2 ^ i - 1)))) = ?v div 2 ^ i * 2 ^ i"
    by (simp only: e and_not_mask_int) (metis nat_int of_nat_mult of_nat_numeral of_nat_power zdiv_int)
  then show ?thesis
    using assms i
    by (simp add: round_u64_up_to_host_pages_def Let_def page_ceil_def Suc_le_eq)
qed

lemma page_ceil_bounds:
  assumes "0 < p"
  shows "n \<le> page_ceil p n" "page_ceil p n < n + p" "page_ceil p n mod p = 0"
proof -
  have "(n + p - 1) div p * p + (n + p - 1) mod p = n + p - 1" by (rule div_mult_mod_eq)
  moreover have "(n + p - 1) mod p < p" using assms by simp
  ultimately show "n \<le> page_ceil p n" "page_ceil p n < n + p"
    using assms unfolding page_ceil_def by linarith+
  show "page_ceil p n mod p = 0" by (simp add: page_ceil_def)
qed

lemma page_ceil_multiple: "0 < p \<Longrightarrow> n mod p = 0 \<Longrightarrow> page_ceil p n = n"
proof -
  assume p: "0 < p" and n: "n mod p = 0"
  then have "n \<le> page_ceil p n" "page_ceil p n < n + p" "page_ceil p n mod p = 0"
    by (simp_all add: page_ceil_bounds)
  with n p show ?thesis
    by (metis add_diff_inverse_nat dvd_diff_nat leD mod_eq_0_iff_dvd nat_dvd_not_less
        not_less zero_less_diff diff_is_0_eq less_diff_conv2 add.commute)
qed

lemma page_ceil_least: "0 < p \<Longrightarrow> n \<le> m \<Longrightarrow> m mod p = 0 \<Longrightarrow> page_ceil p n \<le> m"
  by (metis page_ceil_multiple div_le_mono mult_le_mono1 page_ceil_def add_le_mono1 diff_le_mono)

lemma page_ceil_mono: "n \<le> m \<Longrightarrow> page_ceil p n \<le> page_ceil p m"
  unfolding page_ceil_def by (intro mult_le_mono1 div_le_mono) simp

lemma power_of_two_pos: "is_power_of_two p \<Longrightarrow> 0 < p"
  by (auto simp: is_power_of_two_def)

lemma page_room:
  assumes "is_power_of_two p" and "n mod p = 0" and "n < 2 ^ 64"
  shows "n + p \<le> 2 ^ 64"
proof -
  from assms(1) obtain i where i: "i < 64" "p = 2 ^ i" by (auto simp: is_power_of_two_def)
  then have "p dvd 2 ^ 64" by (simp only: le_imp_power_dvd less_imp_le)
  with assms(2) have "p dvd 2 ^ 64 - n" by (simp add: mod_eq_0_iff_dvd dvd_diff_nat del: power_numeral)
  with assms(3) have "p \<le> 2 ^ 64 - n" by (intro dvd_imp_le) auto
  with assms(3) show ?thesis by linarith
qed

lemma round_usize_Ok_iff:
  assumes "is_power_of_two (host_page_size S)"
  shows "round_usize_up_to_host_pages S n = Ok r \<longleftrightarrow>
    n + host_page_size S - 1 < u64_bound \<and> r = page_ceil (host_page_size S) n"
proof -
  have p: "0 < host_page_size S" using assms by (rule power_of_two_pos)
  have "page_ceil (host_page_size S) n < u64_bound" if "n + host_page_size S - 1 < u64_bound"
    using page_ceil_bounds(2) [OF p, of n] that by linarith
  then show ?thesis
    using assms p
    by (auto simp: round_usize_up_to_host_pages_def round_u64_eq try_into_def)
qed

section \<open>Mappings\<close>

record Mmap =
  mm_ptr :: nat
  mm_len :: nat

text \<open>The empty mapping points at an empty static slice: a dangling, well-aligned pointer.\<close>

definition mmap_new_empty :: Mmap where
  "mmap_new_empty = \<lparr>mm_ptr = 1, mm_len = 0\<rparr>"

definition map_anonymous :: "'k os_ops \<Rightarrow> prot \<Rightarrow> nat \<Rightarrow> 'k \<Rightarrow> (Mmap \<times> 'k) result" where
  "map_anonymous S p bytes k = (case os_mmap S k bytes p of
       None \<Rightarrow> Err MmapFailed
     | Some (a, k') \<Rightarrow> Ok (\<lparr>mm_ptr = a, mm_len = bytes\<rparr>, k'))"

definition mmap_new :: "'k os_ops \<Rightarrow> nat \<Rightarrow> 'k \<Rightarrow> (Mmap \<times> 'k) result" where
  "mmap_new S bytes k =
     and_then (assert_that (usize_is_multiple_of_host_page_size S bytes)
                 ''assertion failed: usize_is_multiple_of_host_page_size(size)'')
     (\<lambda>_. map_anonymous S PROT_RW bytes k)"

definition mmap_with_reserve :: "'k os_ops \<Rightarrow> nat \<Rightarrow> 'k \<Rightarrow> (Mmap \<times> 'k) result" where
  "mmap_with_reserve S bytes k =
     and_then (assert_that (usize_is_multiple_of_host_page_size S bytes)
                 ''assertion failed: usize_is_multiple_of_host_page_size(size)'')
     (\<lambda>_. and_then (assert_that (0 < bytes) ''assertion failed: size > 0'')
     (\<lambda>_. map_anonymous S PROT_NONE bytes k))"

text \<open>The bounds of \<open>slice(range)\<close>: the start and the length of the slice it returns.\<close>

definition mmap_slice :: "Mmap \<Rightarrow> nat \<Rightarrow> nat \<Rightarrow> (nat \<times> nat) result" where
  "mmap_slice m start stop =
     and_then (assert_that (stop \<le> mm_len m) ''assertion failed: range.end <= self.len()'')
     (\<lambda>_. and_then (expect (if start \<le> stop then Some (stop - start) else None)
                      ''called `Option::unwrap()` on a `None` value'')
     (\<lambda>len. Ok (mm_ptr m + start, len)))"

definition protect :: "'k os_ops \<Rightarrow> nat \<Rightarrow> nat \<Rightarrow> prot \<Rightarrow> 'k \<Rightarrow> 'k result" where
  "protect S a len p k = (case os_mprotect S k a len p of None \<Rightarrow> Err MmapFailed | Some k' \<Rightarrow> Ok k')"

definition make_accessible :: "'k os_ops \<Rightarrow> Mmap \<Rightarrow> nat \<Rightarrow> nat \<Rightarrow> 'k \<Rightarrow> 'k result" where
  "make_accessible S m start len k =
     and_then (add_chk u64_bound start len)
     (\<lambda>e. and_then (assert_that (e \<le> mm_len m) ''assertion failed: start + len <= self.memory.len()'')
     (\<lambda>_. and_then (assert_that (mm_ptr m + start \<le> mm_ptr m + mm_len m)
                      ''assertion failed: ptr + start <= ptr + self.memory.len()'')
     (\<lambda>_. and_then (assert_that ((mm_ptr m + start) mod host_page_size S = 0)
                      ''changing of protections isn't page-aligned'')
     (\<lambda>_. protect S (mm_ptr m + start) len PROT_RW k))))"

definition protect_range :: "'k os_ops \<Rightarrow> prot \<Rightarrow> Mmap \<Rightarrow> nat \<Rightarrow> nat \<Rightarrow> 'k \<Rightarrow> 'k result" where
  "protect_range S p m start stop k =
     and_then (assert_that (start \<le> mm_len m) ''assertion failed: range.start <= self.len()'')
     (\<lambda>_. and_then (assert_that (stop \<le> mm_len m) ''assertion failed: range.end <= self.len()'')
     (\<lambda>_. and_then (assert_that (start mod host_page_size S = 0)
                      ''changing of protections isn't page-aligned'')
     (\<lambda>_. and_then (expect (if start \<le> stop then Some (stop - start) else None)
                      ''called `Option::unwrap()` on a `None` value'')
     (\<lambda>len. protect S (mm_ptr m + start) len p k))))"

text \<open>Branch protection adds a flag to read and execute; it is not told apart here.\<close>

definition make_executable :: "'k os_ops \<Rightarrow> Mmap \<Rightarrow> nat \<Rightarrow> nat \<Rightarrow> 'k \<Rightarrow> 'k result" where
  "make_executable S = protect_range S PROT_RX"

definition make_readonly :: "'k os_ops \<Rightarrow> Mmap \<Rightarrow> nat \<Rightarrow> nat \<Rightarrow> 'k \<Rightarrow> 'k result" where
  "make_readonly S = protect_range S PROT_READ"

definition drop_mmap :: "'k os_ops \<Rightarrow> Mmap \<Rightarrow> 'k \<Rightarrow> 'k result" where
  "drop_mmap S m k =
     (if mm_len m = 0 then Ok k
      else expect (os_munmap S k (mm_ptr m) (mm_len m)) ''munmap failed'')"

section \<open>Vectors\<close>

text \<open>
  A vector of elements of one type. \<open>vec_elems\<close> is what the mapping holds; anonymous mappings start
  out zeroed, \<open>z\<close> below is the element that all-zero bytes represent. Lengths are in elements.
\<close>

record 'a MmapVec =
  vec_mmap :: Mmap
  vec_len :: nat
  vec_elems :: "nat \<Rightarrow> 'a"

definition vec_new :: "'a \<Rightarrow> 'a MmapVec" where
  "vec_new z = \<lparr>vec_mmap = mmap_new_empty, vec_len = 0, vec_elems = \<lambda>_. z\<rparr>"

definition vec_new_zeroed :: "'k os_ops \<Rightarrow> 'a \<Rightarrow> nat \<Rightarrow> 'k \<Rightarrow> ('a MmapVec \<times> 'k) result" where
  "vec_new_zeroed S z len k =
     map_ok (\<lambda>(m, k'). (\<lparr>vec_mmap = m, vec_len = len, vec_elems = \<lambda>_. z\<rparr>, k')) (mmap_new S len k)"

definition vec_with_reserved :: "'k os_ops \<Rightarrow> 'a \<Rightarrow> nat \<Rightarrow> 'k \<Rightarrow> ('a MmapVec \<times> 'k) result" where
  "vec_with_reserved S z capacity k =
     map_ok (\<lambda>(m, k'). (\<lparr>vec_mmap = m, vec_len = 0, vec_elems = \<lambda>_. z\<rparr>, k'))
       (mmap_with_reserve S capacity k)"

definition vec_slice :: "'a MmapVec \<Rightarrow> 'a list" where
  "vec_slice v = map (vec_elems v) [0..<vec_len v]"

definition vec_accessible :: "'k os_ops \<Rightarrow> 'a MmapVec \<Rightarrow> nat result" where
  "vec_accessible S v = and_then (round_usize_up_to_host_pages S (vec_len v))
     (\<lambda>a. and_then (assert_that (a \<le> mm_len (vec_mmap v))
                      ''assertion failed: accessible <= self.mmap.len()'') (\<lambda>_. Ok a))"

text \<open>\<open>try_grow\<close> returns the old length; it updates the length before it asks for access.\<close>

definition vec_try_grow ::
  "'k os_ops \<Rightarrow> nat \<Rightarrow> 'a MmapVec \<Rightarrow> 'k \<Rightarrow> (nat \<times> 'a MmapVec \<times> 'k) result" where
  "vec_try_grow S additional v k =
     and_then (vec_accessible S v)
     (\<lambda>old_accessible. and_then (add_chk u64_bound (vec_len v) additional)
     (\<lambda>new_len.
        if new_len < mm_len (vec_mmap v) then
          (let v' = v\<lparr>vec_len := new_len\<rparr> in
           and_then (vec_accessible S v')
           (\<lambda>accessible.
              if old_accessible < accessible then
                map_ok (\<lambda>k'. (vec_len v, v', k'))
                  (make_accessible S (vec_mmap v) old_accessible (accessible - old_accessible) k)
              else Ok (vec_len v, v', k)))
        else Panic ''oom''))"

text \<open>
  The extensions run under a guard whose destructor restores the length unless \<open>finish\<close> is reached:
  a failure returns the vector as it was.
\<close>

definition vec_try_extend_from_slice ::
  "'k os_ops \<Rightarrow> 'a list \<Rightarrow> 'a MmapVec \<Rightarrow> 'k \<Rightarrow> unit result \<times> 'a MmapVec \<times> 'k" where
  "vec_try_extend_from_slice S other v k = (case vec_try_grow S (length other) v k of
       Ok (old_len, v', k') \<Rightarrow>
         (Ok (), v'\<lparr>vec_elems := \<lambda>i. if old_len \<le> i \<and> i < old_len + length other
                                  then other ! (i - old_len) else vec_elems v' i\<rparr>, k')
     | Err e \<Rightarrow> (Err e, v, k)
     | Panic m \<Rightarrow> (Panic m, v, k))"

definition vec_try_extend_with ::
  "'k os_ops \<Rightarrow> nat \<Rightarrow> 'a \<Rightarrow> 'a MmapVec \<Rightarrow> 'k \<Rightarrow> unit result \<times> 'a MmapVec \<times> 'k" where
  "vec_try_extend_with S count elem v k = (case vec_try_grow S count v k of
       Ok (old_len, v', k') \<Rightarrow>
         (Ok (), v'\<lparr>vec_elems := \<lambda>i. if old_len \<le> i \<and> i < vec_len v' then elem else vec_elems v' i\<rparr>, k')
     | Err e \<Rightarrow> (Err e, v, k)
     | Panic m \<Rightarrow> (Panic m, v, k))"

definition vec_from_slice ::
  "'k os_ops \<Rightarrow> 'a \<Rightarrow> 'a list \<Rightarrow> 'k \<Rightarrow> ('a MmapVec \<times> 'k) result" where
  "vec_from_slice S z xs k =
     (if xs = [] then Ok (vec_new z, k)
      else and_then (round_usize_up_to_host_pages S (length xs))
        (\<lambda>capacity. and_then (vec_with_reserved S z capacity k)
        (\<lambda>(v, k'). case vec_try_extend_from_slice S xs v k' of (r, v', k'') \<Rightarrow> map_ok (\<lambda>_. (v', k'')) r)))"

definition vec_into_parts :: "'a MmapVec \<Rightarrow> Mmap \<times> nat" where
  "vec_into_parts v = (vec_mmap v, vec_len v)"

section \<open>Facts about mappings\<close>

lemma os_contract_page: "os_contract S \<Longrightarrow> is_power_of_two (host_page_size S)"
  by (simp add: os_contract_def)

lemma os_contract_pos: "os_contract S \<Longrightarrow> 0 < host_page_size S"
  using os_contract_page power_of_two_pos by blast

lemma os_mmap_facts:
  assumes "os_contract S" and "os_mmap S k n p = Some (a, k')"
  shows "0 < a" "a mod host_page_size S = 0" "a + n < 2 ^ 64"
    "prot_at S k' x = (if a \<le> x \<and> x < a + n then Some p else prot_at S k x)"
    "a \<le> x \<Longrightarrow> x < a + n \<Longrightarrow> prot_at S k x = None"
  using assms unfolding os_contract_def by blast+

lemma os_mprotect_facts:
  assumes "os_contract S" and "os_mprotect S k a len p = Some k'"
  shows "prot_at S k' x =
    (if a \<le> x \<and> x < page_ceil (host_page_size S) (a + len) then Some p else prot_at S k x)"
  using assms unfolding os_contract_def by blast

lemma map_anonymous_Ok:
  "map_anonymous S p n k = Ok (m, k') \<longleftrightarrow>
     os_mmap S k n p = Some (mm_ptr m, k') \<and> mm_len m = n"
  by (cases m) (auto simp: map_anonymous_def split: option.splits)

lemma mmap_with_reserve_Ok:
  "mmap_with_reserve S n k = Ok (m, k') \<longleftrightarrow>
     n mod host_page_size S = 0 \<and> 0 < n \<and> os_mmap S k n PROT_NONE = Some (mm_ptr m, k') \<and> mm_len m = n"
  by (auto simp: mmap_with_reserve_def usize_is_multiple_of_host_page_size_def map_anonymous_Ok)

lemma mmap_new_Ok:
  "mmap_new S n k = Ok (m, k') \<longleftrightarrow>
     n mod host_page_size S = 0 \<and> os_mmap S k n PROT_RW = Some (mm_ptr m, k') \<and> mm_len m = n"
  by (auto simp: mmap_new_def usize_is_multiple_of_host_page_size_def map_anonymous_Ok)

text \<open>Growing the accessible prefix of a mapping from one page boundary to another.\<close>

lemma make_accessible_Ok:
  assumes "os_contract S" and "make_accessible S m start len k = Ok k'"
    and "(start + len) mod host_page_size S = 0" and "mm_ptr m mod host_page_size S = 0"
  shows "start + len \<le> mm_len m"
    "prot_at S k' (mm_ptr m + x) = (if start \<le> x \<and> x < start + len then Some PROT_RW
       else prot_at S k (mm_ptr m + x))"
    "y < mm_ptr m \<or> mm_ptr m + mm_len m \<le> y \<Longrightarrow> prot_at S k' y = prot_at S k y"
proof -
  have e: "page_ceil (host_page_size S) (mm_ptr m + start + len) = mm_ptr m + start + len"
    using assms(3,4) os_contract_pos [OF assms(1)]
    by (intro page_ceil_multiple) (simp_all add: mod_eq_0_iff_dvd add.assoc dvd_add)
  from assms(2) show len: "start + len \<le> mm_len m" by (auto simp: make_accessible_def)
  from assms(2) have "os_mprotect S k (mm_ptr m + start) len PROT_RW = Some k'"
    by (auto simp: make_accessible_def protect_def split: option.splits)
  then have p: "prot_at S k' z = (if mm_ptr m + start \<le> z \<and> z < mm_ptr m + start + len
      then Some PROT_RW else prot_at S k z)" for z
    using os_mprotect_facts [OF assms(1)] e by (simp add: add.assoc)
  show "prot_at S k' (mm_ptr m + x) = (if start \<le> x \<and> x < start + len then Some PROT_RW
       else prot_at S k (mm_ptr m + x))"
    using p by auto
  show "prot_at S k' y = prot_at S k y" if "y < mm_ptr m \<or> mm_ptr m + mm_len m \<le> y"
    using p [of y] len that by auto
qed

lemma make_accessible_no_panic:
  assumes "start + len \<le> mm_len m" and "mm_len m < u64_bound"
    and "(mm_ptr m + start) mod host_page_size S = 0"
  shows "make_accessible S m start len k = protect S (mm_ptr m + start) len PROT_RW k"
  using assms by (simp add: make_accessible_def add_chk_def assert_that_def)

section \<open>Facts about vectors\<close>

text \<open>The invariant of a vector of bytes: its pages up to the rounded length are accessible.\<close>

definition vec_inv :: "'k os_ops \<Rightarrow> 'a MmapVec \<Rightarrow> 'k \<Rightarrow> bool" where
  "vec_inv S v k \<longleftrightarrow> (let m = vec_mmap v; p = host_page_size S in
     mm_ptr m mod p = 0 \<and> mm_len m mod p = 0 \<and> mm_ptr m + mm_len m < 2 ^ 64 \<and>
     vec_len v < mm_len m \<and>
     (\<forall>x < page_ceil p (vec_len v). prot_at S k (mm_ptr m + x) = Some PROT_RW))"

definition same_outside :: "'k os_ops \<Rightarrow> Mmap \<Rightarrow> 'k \<Rightarrow> 'k \<Rightarrow> bool" where
  "same_outside S m k k' \<longleftrightarrow>
     (\<forall>y. y < mm_ptr m \<or> mm_ptr m + mm_len m \<le> y \<longrightarrow> prot_at S k' y = prot_at S k y)"

lemma vec_accessible_Ok:
  assumes "os_contract S" and "mm_len (vec_mmap v) mod host_page_size S = 0"
    and "mm_len (vec_mmap v) < u64_bound" and "vec_len v < mm_len (vec_mmap v)"
  shows "vec_accessible S v = Ok (page_ceil (host_page_size S) (vec_len v))"
proof -
  let ?p = "host_page_size S"
  have p: "0 < ?p" using assms(1) by (rule os_contract_pos)
  have c: "page_ceil ?p (vec_len v) \<le> mm_len (vec_mmap v)"
    using assms p by (intro page_ceil_least) auto
  have "mm_len (vec_mmap v) + ?p \<le> u64_bound"
    using assms(1-3) by (intro page_room) (auto simp: os_contract_page)
  with assms(4) p have "vec_len v + ?p - 1 < u64_bound" by linarith
  then show ?thesis
    using c round_usize_Ok_iff [OF os_contract_page [OF assms(1)]]
    by (simp add: vec_accessible_def assert_that_def)
qed

lemma vec_try_grow_eq:
  assumes "os_contract S" and "vec_inv S v k"
  shows "vec_try_grow S n v k =
    (let p = host_page_size S; m = vec_mmap v; a = page_ceil p (vec_len v);
         b = page_ceil p (vec_len v + n); v' = v\<lparr>vec_len := vec_len v + n\<rparr> in
     if \<not> vec_len v + n < u64_bound then Panic ''attempt to add with overflow''
     else if \<not> vec_len v + n < mm_len m then Panic ''oom''
     else if a < b then map_ok (\<lambda>k'. (vec_len v, v', k')) (protect S (mm_ptr m + a) (b - a) PROT_RW k)
     else Ok (vec_len v, v', k))"
proof -
  let ?p = "host_page_size S" and ?m = "vec_mmap v" and ?l = "vec_len v + n"
  have p: "0 < ?p" using assms(1) by (rule os_contract_pos)
  from assms(2) have m: "mm_ptr ?m mod ?p = 0" "mm_len ?m mod ?p = 0" "mm_len ?m < u64_bound"
    "vec_len v < mm_len ?m"
    by (auto simp: vec_inv_def Let_def)
  have a: "vec_accessible S v = Ok (page_ceil ?p (vec_len v))"
    using assms(1) m by (intro vec_accessible_Ok)
  show ?thesis
  proof (cases "?l < mm_len ?m")
    case True
    have b: "vec_accessible S (v\<lparr>vec_len := ?l\<rparr>) = Ok (page_ceil ?p ?l)"
      using vec_accessible_Ok [of S "v\<lparr>vec_len := ?l\<rparr>"] assms(1) m True by simp
    have "page_ceil ?p ?l \<le> mm_len ?m" using p True m by (intro page_ceil_least) auto
    moreover have "(mm_ptr ?m + page_ceil ?p (vec_len v)) mod ?p = 0"
      using m(1) page_ceil_bounds(3) [OF p] by (simp add: mod_eq_0_iff_dvd dvd_add)
    ultimately have "make_accessible S ?m (page_ceil ?p (vec_len v))
        (page_ceil ?p ?l - page_ceil ?p (vec_len v)) k =
      protect S (mm_ptr ?m + page_ceil ?p (vec_len v)) (page_ceil ?p ?l - page_ceil ?p (vec_len v)) PROT_RW k"
      if "page_ceil ?p (vec_len v) < page_ceil ?p ?l"
      using that m by (intro make_accessible_no_panic) auto
    with a b True m(3) show ?thesis
      by (simp add: vec_try_grow_def Let_def add_chk_def)
  qed (simp add: vec_try_grow_def Let_def a add_chk_def)
qed

lemma vec_try_grow_Ok:
  assumes "os_contract S" and "vec_inv S v k" and "vec_try_grow S n v k = Ok (old, v', k')"
  shows "old = vec_len v" "v' = v\<lparr>vec_len := vec_len v + n\<rparr>" "vec_inv S v' k'"
    "same_outside S (vec_mmap v) k k'"
proof -
  let ?p = "host_page_size S" and ?m = "vec_mmap v" and ?l = "vec_len v + n"
  let ?a = "page_ceil ?p (vec_len v)" and ?b = "page_ceil ?p ?l"
  have p: "0 < ?p" using assms(1) by (rule os_contract_pos)
  from assms(2) have m: "mm_ptr ?m mod ?p = 0" "mm_len ?m mod ?p = 0" "mm_ptr ?m + mm_len ?m < u64_bound"
    and rw: "\<forall>x < ?a. prot_at S k (mm_ptr ?m + x) = Some PROT_RW"
    by (auto simp: vec_inv_def Let_def)
  from assms(3) have l: "?l < mm_len ?m"
    by (auto simp: vec_try_grow_eq [OF assms(1,2)] Let_def split: if_splits)
  show old: "old = vec_len v" and v': "v' = v\<lparr>vec_len := vec_len v + n\<rparr>"
    using assms(3) by (auto simp: vec_try_grow_eq [OF assms(1,2)] Let_def split: if_splits)
  have b: "?b \<le> mm_len ?m" using p l m by (intro page_ceil_least) auto
  have ab: "?a \<le> ?b" by (intro page_ceil_mono) simp
  have "(\<forall>x < ?b. prot_at S k' (mm_ptr ?m + x) = Some PROT_RW) \<and> same_outside S ?m k k'"
  proof (cases "?a < ?b")
    case False
    with assms(3) l have "k' = k"
      by (auto simp: vec_try_grow_eq [OF assms(1,2)] Let_def split: if_splits)
    with False ab rw show ?thesis by (simp add: same_outside_def)
  next
    case True
    with assms(3) l have "protect S (mm_ptr ?m + ?a) (?b - ?a) PROT_RW k = Ok k'"
      by (auto simp: vec_try_grow_eq [OF assms(1,2)] Let_def split: if_splits)
    then have pr: "os_mprotect S k (mm_ptr ?m + ?a) (?b - ?a) PROT_RW = Some k'"
      by (auto simp: protect_def split: option.splits)
    have "page_ceil ?p (mm_ptr ?m + ?a + (?b - ?a)) = mm_ptr ?m + ?b"
      using m(1) page_ceil_bounds(3) [OF p] p True
      by (subst page_ceil_multiple) (auto simp: mod_eq_0_iff_dvd dvd_add)
    with os_mprotect_facts [OF assms(1) pr]
    have "prot_at S k' x = (if mm_ptr ?m + ?a \<le> x \<and> x < mm_ptr ?m + ?b then Some PROT_RW
        else prot_at S k x)" for x
      by simp
    with rw b show ?thesis by (auto simp: same_outside_def)
  qed
  with m l v' show "vec_inv S v' k'" "same_outside S (vec_mmap v) k k'"
    by (auto simp: vec_inv_def Let_def)
qed

lemma vec_with_reserved_Ok:
  assumes "os_contract S" and "vec_with_reserved S z n k = Ok (v, k')"
  shows "vec_inv S v k'" "vec_len v = 0" "mm_len (vec_mmap v) = n" "vec_elems v = (\<lambda>_. z)"
    "x < n \<Longrightarrow> prot_at S k (mm_ptr (vec_mmap v) + x) = None"
    "y < mm_ptr (vec_mmap v) \<or> mm_ptr (vec_mmap v) + n \<le> y \<Longrightarrow> prot_at S k' y = prot_at S k y"
proof -
  from assms(2) obtain m where m: "mmap_with_reserve S n k = Ok (m, k')"
    and v: "v = \<lparr>vec_mmap = m, vec_len = 0, vec_elems = \<lambda>_. z\<rparr>"
    by (auto simp: vec_with_reserved_def)
  then have mm: "n mod host_page_size S = 0" "0 < n" "os_mmap S k n PROT_NONE = Some (mm_ptr m, k')"
    "mm_len m = n"
    by (auto simp: mmap_with_reserve_Ok)
  note f = os_mmap_facts [OF assms(1) mm(3)]
  show "vec_len v = 0" "mm_len (vec_mmap v) = n" "vec_elems v = (\<lambda>_. z)" using v mm by auto
  have "page_ceil (host_page_size S) 0 = 0" using os_contract_pos [OF assms(1)]
    by (intro page_ceil_multiple) auto
  then show "vec_inv S v k'" using f v mm by (auto simp: vec_inv_def Let_def)
  show "prot_at S k (mm_ptr (vec_mmap v) + x) = None" if "x < n" using f(5) v that by auto
  show "prot_at S k' y = prot_at S k y" if "y < mm_ptr (vec_mmap v) \<or> mm_ptr (vec_mmap v) + n \<le> y"
    using f(4) [of y] v that by auto
qed

lemma vec_extend_from_slice_facts:
  assumes "os_contract S" and "vec_inv S v k"
    and "vec_try_extend_from_slice S xs v k = (Ok (), v', k')"
  shows "vec_inv S v' k'" "vec_slice v' = vec_slice v @ xs" "vec_mmap v' = vec_mmap v"
    "same_outside S (vec_mmap v) k k'"
proof -
  from assms(3) obtain old w where g: "vec_try_grow S (length xs) v k = Ok (old, w, k')"
    and v': "v' = w\<lparr>vec_elems := \<lambda>i. if old \<le> i \<and> i < old + length xs then xs ! (i - old) else vec_elems w i\<rparr>"
    by (auto simp: vec_try_extend_from_slice_def split: outcome.splits)
  note f = vec_try_grow_Ok [OF assms(1,2) g]
  show "vec_inv S v' k'" using f(3) v' by (simp add: vec_inv_def Let_def)
  show "vec_mmap v' = vec_mmap v" "same_outside S (vec_mmap v) k k'" using f v' by auto
  show "vec_slice v' = vec_slice v @ xs"
    using v' f(1,2) by (intro nth_equalityI) (auto simp: vec_slice_def nth_append)
qed

lemma vec_extend_with_facts:
  assumes "os_contract S" and "vec_inv S v k"
    and "vec_try_extend_with S n x v k = (Ok (), v', k')"
  shows "vec_inv S v' k'" "vec_slice v' = vec_slice v @ replicate n x" "vec_mmap v' = vec_mmap v"
    "vec_len v' = vec_len v + n" "same_outside S (vec_mmap v) k k'"
proof -
  from assms(3) obtain old w where g: "vec_try_grow S n v k = Ok (old, w, k')"
    and v': "v' = w\<lparr>vec_elems := \<lambda>i. if old \<le> i \<and> i < vec_len w then x else vec_elems w i\<rparr>"
    by (auto simp: vec_try_extend_with_def split: outcome.splits)
  note f = vec_try_grow_Ok [OF assms(1,2) g]
  show "vec_inv S v' k'" using f(3) v' by (simp add: vec_inv_def Let_def)
  show "vec_mmap v' = vec_mmap v" "vec_len v' = vec_len v + n" "same_outside S (vec_mmap v) k k'"
    using f v' by auto
  show "vec_slice v' = vec_slice v @ replicate n x"
    using v' f(1,2) by (intro nth_equalityI) (auto simp: vec_slice_def nth_append)
qed

section \<open>A bump allocator\<close>

text \<open>
  An operating system that meets the contract: everything below the break is or was mapped, new
  mappings go above it, and pages are 4096 bytes.
\<close>

type_synonym bump_kernel = "nat \<times> (nat \<Rightarrow> prot option)"

definition bump_mmap :: "bump_kernel \<Rightarrow> nat \<Rightarrow> prot \<Rightarrow> (nat \<times> bump_kernel) option" where
  "bump_mmap k n p = (let a = page_ceil 4096 (max 1 (fst k)) in
     if n = 0 \<or> 2 ^ 64 \<le> a + n then None
     else Some (a, a + n, \<lambda>x. if a \<le> x \<and> x < a + n then Some p else if x < fst k then snd k x else None))"

definition bump_set :: "bump_kernel \<Rightarrow> nat \<Rightarrow> nat \<Rightarrow> prot option \<Rightarrow> bump_kernel" where
  "bump_set k a b p = (fst k, \<lambda>x. if a \<le> x \<and> x < b then p else snd k x)"

definition bump_os :: "bump_kernel os_ops" where
  "bump_os = \<lparr>host_page_size = 4096, os_mmap = bump_mmap,
     os_mprotect = (\<lambda>k a len p. if page_ceil 4096 (a + len) \<le> fst k
        then Some (bump_set k a (page_ceil 4096 (a + len)) (Some p)) else None),
     os_munmap = (\<lambda>k a len. Some (bump_set k a (page_ceil 4096 (a + len)) None)),
     prot_at = (\<lambda>k x. if x < fst k then snd k x else None)\<rparr>"

lemma bump_os_simps [simp]:
  "host_page_size bump_os = 4096" "os_mmap bump_os = bump_mmap"
  "prot_at bump_os k x = (if x < fst k then snd k x else None)"
  by (simp_all add: bump_os_def)

lemma bump_os_calls:
  "os_mprotect bump_os k a len p = (if page_ceil 4096 (a + len) \<le> fst k
     then Some (bump_set k a (page_ceil 4096 (a + len)) (Some p)) else None)"
  "os_munmap bump_os k a len = Some (bump_set k a (page_ceil 4096 (a + len)) None)"
  by (simp_all add: bump_os_def)

lemma bump_mmap_facts:
  assumes "bump_mmap k n p = Some (a, k')"
  shows "0 < a" "a mod 4096 = 0" "a + n < 2 ^ 64" "fst k \<le> a" "fst k' = a + n"
    "snd k' x = (if a \<le> x \<and> x < a + n then Some p else if x < fst k then snd k x else None)"
  using assms page_ceil_bounds [of 4096 "max 1 (fst k)"]
  by (auto simp: bump_mmap_def Let_def split: if_splits)

lemma is_power_of_two_4096: "is_power_of_two 4096"
  unfolding is_power_of_two_def by (intro exI [of _ 12]) simp

lemma bump_os_contract: "os_contract bump_os"
proof -
  have B: "prot_at bump_os k' x = (if a \<le> x \<and> x < a + n then Some p else prot_at bump_os k x)"
    "a \<le> x \<and> x < a + n \<Longrightarrow> prot_at bump_os k x = None"
    if "bump_mmap k n p = Some (a, k')" for k n p a k' x
    using bump_mmap_facts [OF that] by auto
  have C: "prot_at bump_os k' x =
      (if a \<le> x \<and> x < page_ceil 4096 (a + len) then Some p else prot_at bump_os k x)"
    if "os_mprotect bump_os k a len p = Some k'" for k a len p k' x
    using that by (auto simp: bump_os_def bump_set_def split: if_splits)
  have D: "prot_at bump_os k' x =
      (if a \<le> x \<and> x < page_ceil 4096 (a + len) then None else prot_at bump_os k x)"
    if "os_munmap bump_os k a len = Some k'" for k a len k' x
    using that by (auto simp: bump_os_def bump_set_def)
  show ?thesis
    unfolding os_contract_def bump_os_simps(1,2)
    by (intro conjI allI impI; (rule is_power_of_two_4096 | rule B C D bump_mmap_facts(1-3); assumption))
qed

section \<open>Properties\<close>

lemma vec_from_slice_grow:
  assumes "os_contract S" and "xs \<noteq> []" and "length xs + host_page_size S \<le> 2 ^ 64"
    and "vec_with_reserved S z (page_ceil (host_page_size S) (length xs)) k = Ok (v, k1)"
  shows "vec_from_slice S z xs k =
    (case vec_try_extend_from_slice S xs v k1 of (r, v', k') \<Rightarrow> map_ok (\<lambda>_. (v', k')) r)"
proof -
  have "round_usize_up_to_host_pages S (length xs) = Ok (page_ceil (host_page_size S) (length xs))"
    using assms(2,3) os_contract_pos [OF assms(1)] round_usize_Ok_iff [OF os_contract_page [OF assms(1)]]
    by (cases xs) auto
  with assms(2,4) show ?thesis by (simp add: vec_from_slice_def split: prod.splits)
qed

text \<open>Copying a slice into fresh memory: when \<open>MmapVec::from_slice\<close> succeeds, the vector holds exactly the
  slice and every byte of it is mapped readable and writable; the only error is a failed system
  call; a panic is only possible for a slice whose length is a multiple of the page size.
\<close>

theorem from_slice_ok:
  assumes "os_contract S" and "xs \<noteq> []" and "length xs + host_page_size S \<le> 2 ^ 64"
  shows "case vec_from_slice S z xs k of
      Ok (v, k') \<Rightarrow> vec_slice v = xs \<and>
        (\<forall>i < length xs. prot_at S k' (mm_ptr (vec_mmap v) + i) = Some PROT_RW)
    | Err e \<Rightarrow> e = MmapFailed
    | Panic m \<Rightarrow> length xs mod host_page_size S = 0"
proof -
  let ?p = "host_page_size S" and ?c = "page_ceil (host_page_size S) (length xs)"
  note pos = os_contract_pos [OF assms(1)]
  have c: "0 < ?c" "?c mod ?p = 0" "length xs \<le> ?c"
    using page_ceil_bounds [OF pos, of "length xs"] assms(2) by (cases xs; simp)+
  have round: "round_usize_up_to_host_pages S (length xs) = Ok ?c"
    using assms(2,3) pos round_usize_Ok_iff [OF os_contract_page [OF assms(1)]] by (cases xs) auto
  show ?thesis
  proof (cases "os_mmap S k ?c PROT_NONE")
    case None
    then have "vec_with_reserved S z ?c k = Err MmapFailed"
      using c by (simp add: vec_with_reserved_def mmap_with_reserve_def assert_that_def
          usize_is_multiple_of_host_page_size_def map_anonymous_def)
    with round assms(2) show ?thesis by (simp add: vec_from_slice_def)
  next
    case (Some r)
    then obtain v k1 where v: "vec_with_reserved S z ?c k = Ok (v, k1)"
      using c by (cases r) (simp add: vec_with_reserved_def mmap_with_reserve_def assert_that_def
          usize_is_multiple_of_host_page_size_def map_anonymous_def)
    note w = vec_with_reserved_Ok [OF assms(1) v]
    note g = vec_from_slice_grow [OF assms v]
    have slice_v: "vec_slice v = []" using w(2) by (simp add: vec_slice_def)
    show ?thesis
    proof (cases "vec_try_extend_from_slice S xs v k1")
      case (fields r v' k')
      show ?thesis
      proof (cases r)
        case (Ok u)
        with fields have e: "vec_try_extend_from_slice S xs v k1 = (Ok (), v', k')" by simp
        note f = vec_extend_from_slice_facts [OF assms(1) w(1) e]
        have "vec_len v' = length xs" using f(2) slice_v by (simp add: vec_slice_def map_eq_conv)
          (metis diff_zero length_map length_upt)
        moreover have "length xs \<le> page_ceil ?p (length xs)" by (rule c(3))
        ultimately show ?thesis using g e f slice_v by (auto simp: vec_inv_def Let_def)
      next
        case (Err e)
        have "e = MmapFailed"
          using fields Err vec_try_grow_eq [OF assms(1) w(1)]
          by (auto simp: vec_try_extend_from_slice_def Let_def protect_def
              split: outcome.splits option.splits if_splits)
        with g fields Err show ?thesis by simp
      next
        case (Panic m)
        have "\<not> length xs < ?c"
          using fields Panic vec_try_grow_eq [OF assms(1) w(1)] w(2,3) assms(3) pos
          by (auto simp: vec_try_extend_from_slice_def Let_def protect_def
              split: outcome.splits option.splits if_splits)
        with c g fields Panic show ?thesis by simp
      qed
    qed
  qed
qed

theorem from_slice_ok_witness:
  "\<exists>v k'. vec_from_slice bump_os 0 [10, 20, 30 :: nat] (0, \<lambda>_. None) = Ok (v, k') \<and>
     vec_slice v = [10, 20, 30] \<and> (\<forall>i < 3. prot_at bump_os k' (mm_ptr (vec_mmap v) + i) = Some PROT_RW)"
proof -
  have "\<exists>v k'. vec_from_slice bump_os 0 [10, 20, 30 :: nat] (0, \<lambda>_. None) = Ok (v, k')"
    using is_power_of_two_4096
    by (simp add: vec_from_slice_def round_usize_up_to_host_pages_def round_u64_eq try_into_def
        vec_with_reserved_def mmap_with_reserve_def map_anonymous_def vec_accessible_def assert_that_def
        usize_is_multiple_of_host_page_size_def page_ceil_def vec_try_extend_from_slice_def
        vec_try_grow_def make_accessible_def protect_def bump_os_def bump_mmap_def bump_set_def
        add_chk_def Let_def)
  then show ?thesis
    using from_slice_ok [OF bump_os_contract, of "[10, 20, 30 :: nat]" 0 "(0, \<lambda>_. None)"]
    by (auto simp del: bump_os_simps(3))
qed

text \<open>The capacity check is strict: a slice that fills its pages exactly never fits the memory that
  was reserved for it, so code whose size is a multiple of the page size cannot be loaded.
\<close>

theorem from_slice_full_pages_panics:
  assumes "os_contract S" and "xs \<noteq> []" and "length xs + host_page_size S \<le> 2 ^ 64"
    and "length xs mod host_page_size S = 0" and "os_mmap S k (length xs) PROT_NONE = Some r"
  shows "vec_from_slice S z xs k = Panic ''oom''"
proof -
  note pos = os_contract_pos [OF assms(1)]
  have c: "page_ceil (host_page_size S) (length xs) = length xs"
    using pos assms(4) by (rule page_ceil_multiple)
  obtain v k1 where v: "vec_with_reserved S z (length xs) k = Ok (v, k1)"
    using assms(2,4,5) by (cases r) (simp add: vec_with_reserved_def mmap_with_reserve_def assert_that_def
        usize_is_multiple_of_host_page_size_def map_anonymous_def)
  note w = vec_with_reserved_Ok [OF assms(1) v]
  have "vec_try_grow S (length xs) v k1 = Panic ''oom''"
    using w(2,3) assms(3) pos by (simp add: vec_try_grow_eq [OF assms(1) w(1)] Let_def)
  then show ?thesis
    using vec_from_slice_grow [OF assms(1-3), of z k v k1] v c
    by (simp add: vec_try_extend_from_slice_def)
qed

theorem from_slice_full_pages_panics_witness:
  "vec_from_slice bump_os 0 (replicate 4096 (0 :: nat)) (0, \<lambda>_. None) = Panic ''oom''"
  by (rule from_slice_full_pages_panics [OF bump_os_contract])
    (simp_all add: bump_mmap_def page_ceil_def)

end
