(* ===== verification/Instance_Alloc.thy ===== *)
theory Instance_Alloc
  imports Mmap VM_Offsets Const_Eval
begin

text \<open>
  The memory an instance owns: linear memories (\<open>src/src/runtime/memory.rs\<close>), tables
  (\<open>src/src/runtime/table.rs\<close>), the context (\<open>src/src/runtime/owned_vmcontext.rs\<close>), the default methods
  of the allocator trait (\<open>src/src/runtime/instance_allocator.rs\<close>) and the allocator the crate ships
  (\<open>src/src/placeholder/instance_allocator.rs\<close>).

  Operations thread the kernel state through failures as well, since a failed allocation drops what
  it had mapped.
\<close>

section \<open>Operations on the kernel state\<close>

type_synonym ('a, 'k) io = "'k \<Rightarrow> 'a result \<times> 'k"

definition io_of :: "('k \<Rightarrow> ('a \<times> 'k) result) \<Rightarrow> ('a, 'k) io" where
  "io_of f k = (case f k of Ok (a, k') \<Rightarrow> (Ok a, k') | Err e \<Rightarrow> (Err e, k) | Panic m \<Rightarrow> (Panic m, k))"

definition io_step :: "('k \<Rightarrow> 'k result) \<Rightarrow> (unit, 'k) io" where
  "io_step f = io_of (\<lambda>k. map_ok (Pair ()) (f k))"

definition io_pure :: "'a result \<Rightarrow> ('a, 'k) io" where
  "io_pure r k = (r, k)"

definition io_then :: "('a, 'k) io \<Rightarrow> ('a \<Rightarrow> ('b, 'k) io) \<Rightarrow> ('b, 'k) io" where
  "io_then f g k = (case f k of (Ok a, k') \<Rightarrow> g a k' | (Err e, k') \<Rightarrow> (Err e, k') | (Panic m, k') \<Rightarrow> (Panic m, k'))"

text \<open>
  Run an operation while owning a mapping: when it fails, by an error or by unwinding, the owner's
  destructor unmaps it.
\<close>

definition io_owning :: "'k os_ops \<Rightarrow> Mmap \<Rightarrow> ('a, 'k) io \<Rightarrow> ('a, 'k) io" where
  "io_owning S m f k = (case f k of
       (Ok a, k') \<Rightarrow> (Ok a, k')
     | (Err e, k') \<Rightarrow> io_then (io_step (drop_mmap S m)) (\<lambda>_. io_pure (Err e)) k'
     | (Panic msg, k') \<Rightarrow> io_then (io_step (drop_mmap S m)) (\<lambda>_. io_pure (Panic msg)) k')"

section \<open>Linear memories\<close>

record Memory =
  mem_mmap :: Mmap
  mem_len :: nat
  mem_maximum :: "nat option"
  mem_page_size_log2 :: nat
  mem_offset_guard_size :: nat
  mem_bytes :: "nat \<Rightarrow> nat"

definition memory_try_new ::
  "'k os_ops \<Rightarrow> MemoryDesc \<Rightarrow> nat \<Rightarrow> nat option \<Rightarrow> (Memory, 'k) io" where
  "memory_try_new S desc actual_minimum_bytes actual_maximum_bytes =
     io_then (io_pure (expect (try_into u64_bound (offset_guard_size desc))
                         ''called `Result::unwrap()` on an `Err` value''))
     (\<lambda>g. io_then (io_pure (round_usize_up_to_host_pages S g))
     (\<lambda>offset_guard_bytes. io_then (io_pure (round_usize_up_to_host_pages S MEMORY_MAX))
     (\<lambda>bound_bytes.
        (let allocation_bytes = min bound_bytes
               (case actual_maximum_bytes of Some b \<Rightarrow> b | None \<Rightarrow> u64_bound - 1) in
         io_then (io_pure (add_chk u64_bound allocation_bytes offset_guard_bytes))
         (\<lambda>request_bytes. io_then (io_of (mmap_with_reserve S request_bytes))
         (\<lambda>mmap. io_owning S mmap
            (io_then
               (if 0 < actual_minimum_bytes then
                  io_then (io_pure (round_usize_up_to_host_pages S actual_minimum_bytes))
                    (\<lambda>accessible. io_step (make_accessible S mmap 0 accessible))
                else io_pure (Ok ()))
               (\<lambda>_. io_pure (Ok \<lparr>mem_mmap = mmap, mem_len = actual_minimum_bytes,
                   mem_maximum = actual_maximum_bytes, mem_page_size_log2 = page_size_log2 desc,
                   mem_offset_guard_size = offset_guard_bytes, mem_bytes = \<lambda>_. 0\<rparr>)))))))))"

text \<open>The bytes \<open>as_slice_mut\<close> hands out.\<close>

definition memory_as_slice :: "Memory \<Rightarrow> nat list result" where
  "memory_as_slice m =
     map_ok (\<lambda>(start, len). map (mem_bytes m) [0..<len]) (mmap_slice (mem_mmap m) 0 (mem_len m))"

record VMMemoryDefinitionValue =
  md_base :: nat
  md_current_length :: nat

definition as_vmmemory_definition :: "Memory \<Rightarrow> VMMemoryDefinitionValue" where
  "as_vmmemory_definition m = \<lparr>md_base = mm_ptr (mem_mmap m), md_current_length = mem_len m\<rparr>"

section \<open>Tables\<close>

text \<open>An element is a function reference: the address of a \<open>VMFuncRef\<close>, or null.\<close>

record Table =
  tab_elements :: "nat option MmapVec"
  tab_maximum :: "nat option"

definition table_reserve :: "nat option \<Rightarrow> nat" where
  "table_reserve actual_maximum =
     min TABLE_MAX (case actual_maximum of Some b \<Rightarrow> b | None \<Rightarrow> u64_bound - 1)"

text \<open>Extend the fresh vector by the declared minimum number of null references.\<close>

definition table_fill ::
  "'k os_ops \<Rightarrow> TableDesc \<Rightarrow> nat option \<Rightarrow> nat option MmapVec \<Rightarrow> (Table, 'k) io" where
  "table_fill S desc actual_maximum elements =
     io_then (io_pure (expect (try_into u64_bound (table_minimum desc))
                         ''called `Result::unwrap()` on an `Err` value''))
       (\<lambda>count k. case vec_try_extend_with S count None elements k of
           (Ok _, elements', k') \<Rightarrow> (Ok \<lparr>tab_elements = elements', tab_maximum = actual_maximum\<rparr>, k')
         | (Err e, _, k') \<Rightarrow> (Err e, k')
         | (Panic msg, _, k') \<Rightarrow> (Panic msg, k'))"

definition table_try_new :: "'k os_ops \<Rightarrow> TableDesc \<Rightarrow> nat option \<Rightarrow> (Table, 'k) io" where
  "table_try_new S desc actual_maximum =
     (if table_reserve actual_maximum = 0 then
        io_pure (Ok \<lparr>tab_elements = vec_new None, tab_maximum = actual_maximum\<rparr>)
      else
        io_then (io_pure (round_usize_up_to_host_pages S (table_reserve actual_maximum)))
        (\<lambda>capacity. io_then (io_of (vec_with_reserved S None capacity))
        (\<lambda>elements. io_owning S (vec_mmap elements) (table_fill S desc actual_maximum elements))))"

record VMTableDefinitionValue =
  td_base :: nat
  td_current_length :: nat

definition as_vmtable_definition :: "Table \<Rightarrow> VMTableDefinitionValue" where
  "as_vmtable_definition t =
     \<lparr>td_base = mm_ptr (vec_mmap (tab_elements t)), td_current_length = vec_len (tab_elements t)\<rparr>"

section \<open>The context\<close>

text \<open>The values stored in a context (\<open>src/src/runtime/vmcontext.rs\<close>); pointers are addresses.\<close>

record VMFuncRefValue =
  fr_array_call :: nat
  fr_wasm_call :: nat
  fr_vmctx :: nat
  fr_type_index :: VMSharedTypeIndex

record VMFunctionImportValue =
  fi_wasm_call :: nat
  fi_array_call :: nat
  fi_vmctx :: nat

text \<open>\<open>VMTableImport\<close>, \<open>VMMemoryImport\<close> and \<open>VMGlobalImport\<close> have the same two fields.\<close>

record VMImportValue =
  im_from :: nat
  im_vmctx :: nat

datatype vm_cell =
    MagicCell nat
  | PtrCell nat
  | FuncRefCell VMFuncRefValue
  | FunctionImportCell VMFunctionImportValue
  | TableImportCell VMImportValue
  | MemoryImportCell VMImportValue
  | GlobalImportCell VMImportValue
  | TableCell VMTableDefinitionValue
  | MemoryCell VMMemoryDefinitionValue
  | GlobalCell VMVal

text \<open>
  The bytes of the context, and on top of them the typed values that have been stored: \<open>ctx_cells\<close>
  gives the value stored at an offset.
\<close>

record OwnedVMContext =
  ctx_vec :: "nat MmapVec"
  ctx_cells :: "nat \<Rightarrow> vm_cell option"

definition vmctx_try_new :: "'k os_ops \<Rightarrow> VMOffsets \<Rightarrow> (OwnedVMContext, 'k) io" where
  "vmctx_try_new S offsets =
     io_then (io_pure (round_usize_up_to_host_pages S (vo_size offsets)))
     (\<lambda>len. io_then (io_of (vec_new_zeroed S 0 len))
     (\<lambda>vec. io_pure (Ok \<lparr>ctx_vec = vec, ctx_cells = \<lambda>_. None\<rparr>)))"

definition vmctx_as_ptr :: "OwnedVMContext \<Rightarrow> nat" where
  "vmctx_as_ptr ctx = mm_ptr (vec_mmap (ctx_vec ctx))"

definition plus_offset :: "OwnedVMContext \<Rightarrow> nat \<Rightarrow> nat" where
  "plus_offset ctx off = vmctx_as_ptr ctx + off"

section \<open>The allocator\<close>

record 'k allocator_ops =
  allocate_vmctx :: "TranslatedModule \<Rightarrow> VMOffsets \<Rightarrow> (OwnedVMContext, 'k) io"
  deallocate_vmctx :: "OwnedVMContext \<Rightarrow> (unit, 'k) io"
  allocate_memory :: "TranslatedModule \<Rightarrow> MemoryDesc \<Rightarrow> DefinedMemoryIndex \<Rightarrow> (Memory, 'k) io"
  deallocate_memory :: "DefinedMemoryIndex \<Rightarrow> Memory \<Rightarrow> (unit, 'k) io"
  allocate_table :: "TranslatedModule \<Rightarrow> TableDesc \<Rightarrow> DefinedTableIndex \<Rightarrow> (Table, 'k) io"
  deallocate_table :: "DefinedTableIndex \<Rightarrow> Table \<Rightarrow> (unit, 'k) io"

text \<open>
  The loop shared by \<open>allocate_memories\<close> and \<open>allocate_tables\<close>: the resources allocated so far stay with
  the caller when an allocation fails.
\<close>

fun allocate_defined ::
  "(nat \<Rightarrow> nat option) \<Rightarrow> ('d \<Rightarrow> nat \<Rightarrow> ('r, 'k) io) \<Rightarrow> (nat \<times> 'd) list \<Rightarrow> 'r list \<Rightarrow> 'k \<Rightarrow>
     unit result \<times> 'r list \<times> 'k" where
  "allocate_defined def alloc [] rs k = (Ok (), rs, k)"
| "allocate_defined def alloc ((index, plan) # rest) rs k = (case def index of
       None \<Rightarrow> allocate_defined def alloc rest rs k
     | Some def_index \<Rightarrow> (case alloc plan def_index k of
           (Ok r, k') \<Rightarrow>
             if def_index = length rs then allocate_defined def alloc rest (rs @ [r]) k'
             else (Panic ''assertion failed: def_index == new_def_index'', rs @ [r], k')
         | (Err e, k') \<Rightarrow> (Err e, rs, k')
         | (Panic m, k') \<Rightarrow> (Panic m, rs, k')))"

definition allocate_memories ::
  "'k allocator_ops \<Rightarrow> TranslatedModule \<Rightarrow> Memory list \<Rightarrow> 'k \<Rightarrow> unit result \<times> Memory list \<times> 'k" where
  "allocate_memories A m =
     allocate_defined (defined_memory_index m) (allocate_memory A m) (enumerate 0 (memories m))"

definition allocate_tables ::
  "'k allocator_ops \<Rightarrow> TranslatedModule \<Rightarrow> Table list \<Rightarrow> 'k \<Rightarrow> unit result \<times> Table list \<times> 'k" where
  "allocate_tables A m =
     allocate_defined (defined_table_index m) (allocate_table A m) (enumerate 0 (tables m))"

fun deallocate_all :: "(nat \<Rightarrow> 'r \<Rightarrow> (unit, 'k) io) \<Rightarrow> (nat \<times> 'r) list \<Rightarrow> (unit, 'k) io" where
  "deallocate_all dealloc [] = io_pure (Ok ())"
| "deallocate_all dealloc ((i, r) # rest) = io_then (dealloc i r) (\<lambda>_. deallocate_all dealloc rest)"

definition deallocate_memories :: "'k allocator_ops \<Rightarrow> Memory list \<Rightarrow> (unit, 'k) io" where
  "deallocate_memories A ms = deallocate_all (deallocate_memory A) (enumerate 0 ms)"

definition deallocate_tables :: "'k allocator_ops \<Rightarrow> Table list \<Rightarrow> (unit, 'k) io" where
  "deallocate_tables A ts = deallocate_all (deallocate_table A) (enumerate 0 ts)"

text \<open>The closure of \<open>allocate_module\<close>: tables, memories, context; what was allocated stays on failure.\<close>

definition allocate_resources ::
  "'k allocator_ops \<Rightarrow> TranslatedModule \<Rightarrow> VMOffsets \<Rightarrow> 'k \<Rightarrow>
     OwnedVMContext result \<times> Table list \<times> Memory list \<times> 'k" where
  "allocate_resources A m offsets k = (case allocate_tables A m [] k of
       (Ok _, ts, k1) \<Rightarrow> (case allocate_memories A m [] k1 of
           (Ok _, ms, k2) \<Rightarrow> (case allocate_vmctx A m offsets k2 of (r, k3) \<Rightarrow> (r, ts, ms, k3))
         | (Err e, ms, k2) \<Rightarrow> (Err e, ts, ms, k2)
         | (Panic p, ms, k2) \<Rightarrow> (Panic p, ts, ms, k2))
     | (Err e, ts, k1) \<Rightarrow> (Err e, ts, [], k1)
     | (Panic p, ts, k1) \<Rightarrow> (Panic p, ts, [], k1))"

definition cleanup ::
  "'k allocator_ops \<Rightarrow> Table list \<Rightarrow> Memory list \<Rightarrow> 'a result \<Rightarrow> ('a, 'k) io" where
  "cleanup A ts ms r = io_then (deallocate_memories A ms)
     (\<lambda>_. io_then (deallocate_tables A ts) (\<lambda>_. io_pure r))"

text \<open>
  \<open>allocate_module\<close>: an error cleans up the memories and the tables; a panic unwinds, which drops
  them as well.
\<close>

definition allocate_module ::
  "'k allocator_ops \<Rightarrow> TranslatedModule \<Rightarrow> VMOffsets \<Rightarrow>
     (OwnedVMContext \<times> Table list \<times> Memory list, 'k) io" where
  "allocate_module A m offsets =
     io_then (io_pure (and_then (num_tables m) (\<lambda>n. sub_chk n (num_imported_tables m))))
     (\<lambda>_. io_then (io_pure (and_then (num_memories m) (\<lambda>n. sub_chk n (num_imported_memories m))))
     (\<lambda>_ k. case allocate_resources A m offsets k of
         (Ok vmctx, ts, ms, k') \<Rightarrow> (Ok (vmctx, ts, ms), k')
       | (Err e, ts, ms, k') \<Rightarrow> cleanup A ts ms (Err e) k'
       | (Panic p, ts, ms, k') \<Rightarrow> cleanup A ts ms (Panic p) k'))"

section \<open>The placeholder allocator\<close>

text \<open>\<open>.ok()\<close> of a size computation; a panic stays a panic.\<close>

definition ok_of :: "(SizeOverflow, 'a) outcome \<Rightarrow> 'a option result" where
  "ok_of r = (case r of Ok a \<Rightarrow> Ok (Some a) | Err e \<Rightarrow> Ok None | Panic m \<Rightarrow> Panic m)"

definition placeholder_allocate_memory :: "'k os_ops \<Rightarrow> MemoryDesc \<Rightarrow> (Memory, 'k) io" where
  "placeholder_allocate_memory S desc =
     io_then (io_pure (ok_of (minimum_byte_size desc)))
     (\<lambda>mn. io_then (io_pure (expect (Option.bind mn (try_into u64_bound))
                         ''memory minimum size exceeds memory limits''))
     (\<lambda>minimum. io_then (io_pure (ok_of (maximum_byte_size desc)))
     (\<lambda>mx. memory_try_new S desc minimum (Option.bind mx (try_into u64_bound)))))"

definition placeholder_allocate_table :: "'k os_ops \<Rightarrow> TableDesc \<Rightarrow> (Table, 'k) io" where
  "placeholder_allocate_table S desc =
     table_try_new S desc (Option.bind (table_maximum desc) (try_into u64_bound))"

definition placeholder_ops :: "'k os_ops \<Rightarrow> 'k allocator_ops" where
  "placeholder_ops S = \<lparr>allocate_vmctx = (\<lambda>_ plan. vmctx_try_new S plan),
     deallocate_vmctx = (\<lambda>ctx. io_step (drop_mmap S (vec_mmap (ctx_vec ctx)))),
     allocate_memory = (\<lambda>_ desc _. placeholder_allocate_memory S desc),
     deallocate_memory = (\<lambda>_ m. io_step (drop_mmap S (mem_mmap m))),
     allocate_table = (\<lambda>_ desc _. placeholder_allocate_table S desc),
     deallocate_table = (\<lambda>_ t. io_step (drop_mmap S (vec_mmap (tab_elements t))))\<rparr>"

section \<open>Running operations\<close>

lemma io_pure_iff [simp]: "io_pure r k = (r', k') \<longleftrightarrow> r = r' \<and> k' = k"
  by (auto simp: io_pure_def)

lemma io_then_Ok [simp]:
  "io_then f g k = (Ok b, k') \<longleftrightarrow> (\<exists>a k1. f k = (Ok a, k1) \<and> g a k1 = (Ok b, k'))"
  by (auto simp: io_then_def split: prod.splits outcome.splits)

lemma io_then_Err [simp]:
  "io_then f g k = (Err e, k') \<longleftrightarrow>
     f k = (Err e, k') \<or> (\<exists>a k1. f k = (Ok a, k1) \<and> g a k1 = (Err e, k'))"
  by (auto simp: io_then_def split: prod.splits outcome.splits)

lemma io_of_Ok [simp]: "io_of f k = (Ok a, k') \<longleftrightarrow> f k = Ok (a, k')"
  by (auto simp: io_of_def split: outcome.splits)

lemma io_of_Err [simp]: "io_of f k = (Err e, k') \<longleftrightarrow> f k = Err e \<and> k' = k"
  by (auto simp: io_of_def split: outcome.splits)

lemma io_step_Ok [simp]: "io_step f k = (Ok u, k') \<longleftrightarrow> f k = Ok k'"
  by (auto simp: io_step_def)

lemma io_step_Err [simp]: "io_step f k = (Err e, k') \<longleftrightarrow> f k = Err e \<and> k' = k"
  by (auto simp: io_step_def map_ok_def elim!: and_then.elims)

lemma try_into_Some_iff [simp]: "try_into b x = Some y \<longleftrightarrow> x < b \<and> y = x"
  by (auto simp: try_into_def)

section \<open>Ownership of address ranges\<close>

definition bytes_of :: "Mmap \<Rightarrow> nat set" where
  "bytes_of m = {mm_ptr m ..< mm_ptr m + mm_len m}"

definition page_aligned :: "'k os_ops \<Rightarrow> Mmap \<Rightarrow> bool" where
  "page_aligned S m \<longleftrightarrow> mm_len m = 0 \<or>
     mm_ptr m mod host_page_size S = 0 \<and> mm_len m mod host_page_size S = 0"

text \<open>The address range \<open>R\<close> was unmapped and is now mapped; nothing else changed.\<close>

definition extends :: "'k os_ops \<Rightarrow> nat set \<Rightarrow> 'k \<Rightarrow> 'k \<Rightarrow> bool" where
  "extends S R k k' \<longleftrightarrow> (\<forall>x. if x \<in> R then prot_at S k x = None \<and> prot_at S k' x \<noteq> None
     else prot_at S k' x = prot_at S k x)"

lemma extends_empty [simp]: "extends S {} k k' \<longleftrightarrow> prot_at S k' = prot_at S k"
  by (auto simp: extends_def)

lemma extends_trans: "extends S R k k1 \<Longrightarrow> extends S Q k1 k2 \<Longrightarrow> extends S (R \<union> Q) k k2"
  unfolding extends_def by (metis Un_iff)

lemma extends_disjoint: "extends S R k k1 \<Longrightarrow> extends S Q k1 k2 \<Longrightarrow> R \<inter> Q = {}"
  unfolding extends_def by (metis disjoint_iff)

lemma drop_mmap_prot:
  assumes "os_contract S" and "page_aligned S m" and "drop_mmap S m k = Ok k'"
  shows "prot_at S k' x = (if x \<in> bytes_of m then None else prot_at S k x)"
proof (cases "mm_len m = 0")
  case True
  with assms(3) show ?thesis by (simp add: drop_mmap_def bytes_of_def)
next
  case False
  with assms(2) have "page_ceil (host_page_size S) (mm_ptr m + mm_len m) = mm_ptr m + mm_len m"
    using os_contract_pos [OF assms(1)]
    by (intro page_ceil_multiple) (auto simp: page_aligned_def mod_eq_0_iff_dvd dvd_add)
  moreover from False assms(3) have "os_munmap S k (mm_ptr m) (mm_len m) = Some k'"
    by (simp add: drop_mmap_def)
  moreover have "os_munmap S k a len = Some k' \<Longrightarrow> prot_at S k' x =
      (if a \<le> x \<and> x < page_ceil (host_page_size S) (a + len) then None else prot_at S k x)" for a len
    using assms(1) unfolding os_contract_def by blast
  ultimately show ?thesis by (simp add: bytes_of_def)
qed

text \<open>An operation that only changes what it owns and fails leaves no trace.\<close>

lemma io_owning_Ok [simp]: "io_owning S m f k = (Ok a, k') \<longleftrightarrow> f k = (Ok a, k')"
  by (auto simp: io_owning_def io_then_def io_step_def io_of_def io_pure_def
      split: prod.splits outcome.splits)

lemma io_owning_Err:
  assumes "os_contract S" and "page_aligned S m" and "extends S (bytes_of m) k k1"
    and "\<And>k2. f k1 = (Err e, k2) \<Longrightarrow> \<forall>x. x \<notin> bytes_of m \<longrightarrow> prot_at S k2 x = prot_at S k1 x"
    and "io_owning S m f k1 = (Err e, k')"
  shows "prot_at S k' = prot_at S k"
proof -
  from assms(5) obtain k2 where k2: "f k1 = (Err e, k2)" "drop_mmap S m k2 = Ok k'"
    by (auto simp: io_owning_def drop_mmap_def expect_def split: prod.splits outcome.splits if_splits
        option.splits simp del: io_then_Ok)
  have "prot_at S k' x = prot_at S k x" for x
    using drop_mmap_prot [OF assms(1,2) k2(2), of x] assms(3) assms(4) [OF k2(1)]
    by (auto simp: extends_def split: if_splits)
  then show ?thesis by blast
qed

lemma mmap_reserve_extends:
  assumes "os_contract S" and "mmap_with_reserve S n k = Ok (m, k')"
  shows "page_aligned S m" "extends S (bytes_of m) k k'" "mm_len m = n"
    "mm_ptr m mod host_page_size S = 0" "n mod host_page_size S = 0" "mm_ptr m + n < 2 ^ 64"
    "x \<in> bytes_of m \<Longrightarrow> prot_at S k' x = Some PROT_NONE"
proof -
  from assms(2) have m: "n mod host_page_size S = 0" "0 < n"
    "os_mmap S k n PROT_NONE = Some (mm_ptr m, k')" "mm_len m = n"
    by (auto simp: mmap_with_reserve_Ok)
  note f = os_mmap_facts [OF assms(1) m(3)]
  show "mm_len m = n" "mm_ptr m mod host_page_size S = 0" "n mod host_page_size S = 0"
    "mm_ptr m + n < 2 ^ 64"
    using m f by auto
  then show "page_aligned S m" by (auto simp: page_aligned_def)
  show "x \<in> bytes_of m \<Longrightarrow> prot_at S k' x = Some PROT_NONE"
    using f(4) m by (auto simp: bytes_of_def)
  show "extends S (bytes_of m) k k'"
    unfolding extends_def using f(4,5) m by (auto simp: bytes_of_def)
qed

section \<open>Facts about memories\<close>

text \<open>What is reserved for a memory with the given maximum: the address space and its guard.\<close>

definition reservation :: "'k os_ops \<Rightarrow> nat option \<Rightarrow> nat \<Rightarrow> nat" where
  "reservation S mx guard = (let p = host_page_size S in
     min (page_ceil p MEMORY_MAX) (case mx of Some b \<Rightarrow> b | None \<Rightarrow> 2 ^ 64 - 1) + page_ceil p guard)"

text \<open>The prefix that holds the contents is accessible, the rest of the reservation is not.\<close>

definition memory_mapped :: "'k os_ops \<Rightarrow> Memory \<Rightarrow> 'k \<Rightarrow> bool" where
  "memory_mapped S m k \<longleftrightarrow> page_ceil (host_page_size S) (mem_len m) \<le> mm_len (mem_mmap m) \<and>
     (\<forall>x < mm_len (mem_mmap m). prot_at S k (mm_ptr (mem_mmap m) + x) =
        Some (if x < page_ceil (host_page_size S) (mem_len m) then PROT_RW else PROT_NONE))"

lemma memory_try_new_Ok:
  assumes "os_contract S" and "memory_try_new S desc mn mx k = (Ok m, k')"
  shows "mem_len m = mn" "mem_bytes m = (\<lambda>_. 0)" "page_aligned S (mem_mmap m)"
    "extends S (bytes_of (mem_mmap m)) k k'" "memory_mapped S m k'"
    "mm_len (mem_mmap m) = reservation S mx (offset_guard_size desc)"
proof -
  let ?p = "host_page_size S"
  note pos = os_contract_pos [OF assms(1)]
  note r = round_usize_Ok_iff [OF os_contract_page [OF assms(1)]]
  from assms(2) obtain k1 where
    res: "mmap_with_reserve S (reservation S mx (offset_guard_size desc)) k = Ok (mem_mmap m, k1)"
    and acc: "if 0 < mn then make_accessible S (mem_mmap m) 0 (page_ceil ?p mn) k1 = Ok k' else k' = k1"
    and m: "mem_len m = mn" "mem_bytes m = (\<lambda>_. 0)"
    by (auto simp: memory_try_new_def r reservation_def Let_def split: if_splits)
  note f = mmap_reserve_extends [OF assms(1) res]
  show "mem_len m = mn" "mem_bytes m = (\<lambda>_. 0)" by (fact m)+
  show "page_aligned S (mem_mmap m)" by (fact f(1))
  show "mm_len (mem_mmap m) = reservation S mx (offset_guard_size desc)" by (fact f(3))
  have none: "prot_at S k1 (mm_ptr (mem_mmap m) + x) = Some PROT_NONE" if "x < mm_len (mem_mmap m)" for x
    using f(7) that by (simp add: bytes_of_def)
  have zero: "page_ceil ?p 0 = 0" using pos by (intro page_ceil_multiple) auto
  have "extends S (bytes_of (mem_mmap m)) k k' \<and> memory_mapped S m k'"
  proof (cases "0 < mn")
    case False
    with acc m none f(2) zero show ?thesis by (auto simp: memory_mapped_def)
  next
    case True
    with acc have a: "make_accessible S (mem_mmap m) 0 (page_ceil ?p mn) k1 = Ok k'" by simp
    have al: "(0 + page_ceil ?p mn) mod ?p = 0" using page_ceil_bounds(3) [OF pos] by simp
    note g = make_accessible_Ok [OF assms(1) a al f(4)]
    have p: "prot_at S k' (mm_ptr (mem_mmap m) + x) =
        Some (if x < page_ceil ?p mn then PROT_RW else PROT_NONE)" if "x < mm_len (mem_mmap m)" for x
      using g(2) [of x] none [OF that] by simp
    have "extends S (bytes_of (mem_mmap m)) k k'"
      unfolding extends_def
    proof (intro allI)
      fix x
      show "if x \<in> bytes_of (mem_mmap m) then prot_at S k x = None \<and> prot_at S k' x \<noteq> None
          else prot_at S k' x = prot_at S k x"
      proof (cases "x \<in> bytes_of (mem_mmap m)")
        case True
        then obtain y where "x = mm_ptr (mem_mmap m) + y" "y < mm_len (mem_mmap m)"
          by (auto simp: bytes_of_def) (metis le_Suc_ex nat_add_left_cancel_less)
        with p f(2) True show ?thesis by (auto simp: extends_def split: if_splits)
      next
        case False
        then show ?thesis using g(3) [of x] f(2) by (auto simp: bytes_of_def extends_def)
      qed
    qed
    with p g(1) m show ?thesis by (auto simp: memory_mapped_def)
  qed
  then show "extends S (bytes_of (mem_mmap m)) k k'" "memory_mapped S m k'" by blast+
qed

lemma make_accessible_Err: "make_accessible S m a n k = Err e \<Longrightarrow> e = MmapFailed"
  by (auto simp: make_accessible_def protect_def assert_that_def add_chk_def
      split: if_splits option.splits)

lemma memory_try_new_Err:
  assumes "os_contract S" and "memory_try_new S desc mn mx k = (Err e, k')"
  shows "prot_at S k' = prot_at S k"
proof -
  let ?n = "reservation S mx (offset_guard_size desc)"
  note r = round_usize_Ok_iff [OF os_contract_page [OF assms(1)]]
  have pure: "expect x msg \<noteq> Err e" "round_usize_up_to_host_pages S n \<noteq> Err e"
    "add_chk b i j \<noteq> Err e" for x :: "nat option" and msg n b i j
    by (auto simp: expect_def add_chk_def round_usize_up_to_host_pages_def try_into_def
        round_u64_up_to_host_pages_def Let_def assert_that_def split: option.splits if_splits)
  consider "k' = k" | m k1 where "mmap_with_reserve S ?n k = Ok (m, k1)"
    "io_owning S m (io_then
       (if 0 < mn then io_then (io_pure (round_usize_up_to_host_pages S mn))
          (\<lambda>accessible. io_step (make_accessible S m 0 accessible)) else io_pure (Ok ()))
       (\<lambda>_. io_pure (Ok \<lparr>mem_mmap = m, mem_len = mn, mem_maximum = mx,
          mem_page_size_log2 = page_size_log2 desc,
          mem_offset_guard_size = page_ceil (host_page_size S) (offset_guard_size desc),
          mem_bytes = \<lambda>_. 0\<rparr>))) k1 = (Err e, k')"
    using assms(2)
    by (auto simp: memory_try_new_def r reservation_def Let_def pure)
  then show ?thesis
  proof cases
    case (2 m k1)
    note f = mmap_reserve_extends [OF assms(1) 2(1)]
    show ?thesis
      by (rule io_owning_Err [OF assms(1) f(1,2) _ 2(2)]) (auto simp: pure split: if_splits)
  qed simp
qed

section \<open>Facts about tables and contexts\<close>

lemma vec_inv_region:
  assumes "vec_inv S v k" shows "page_aligned S (vec_mmap v)"
  using assms by (auto simp: vec_inv_def page_aligned_def Let_def)

lemma vec_with_reserved_region:
  assumes "os_contract S" and "vec_with_reserved S z n k = Ok (v, k')"
  shows "extends S (bytes_of (vec_mmap v)) k k'"
  using assms mmap_reserve_extends(2) [OF assms(1)] by (auto simp: vec_with_reserved_def)

lemma os_mprotect_mapped:
  assumes "os_contract S" and "os_mprotect S k a n p = Some k'" and "prot_at S k x \<noteq> None"
  shows "prot_at S k' x \<noteq> None"
  using os_mprotect_facts [OF assms(1,2), of x] assms(3) by simp

lemma vec_try_grow_mapped:
  assumes "os_contract S" and "vec_inv S v k" and "vec_try_grow S n v k = Ok (old, v', k')"
    and "extends S (bytes_of (vec_mmap v)) k0 k"
  shows "extends S (bytes_of (vec_mmap v)) k0 k'"
proof -
  have "prot_at S k' x \<noteq> None" if "prot_at S k x \<noteq> None" for x
    using assms(3) that os_mprotect_mapped [OF assms(1)]
    by (auto simp: vec_try_grow_eq [OF assms(1,2)] Let_def protect_def split: if_splits option.splits)
  moreover have "prot_at S k' x = prot_at S k x" if "x \<notin> bytes_of (vec_mmap v)" for x
    using vec_try_grow_Ok(4) [OF assms(1-3)] that by (auto simp: same_outside_def bytes_of_def not_le)
  ultimately show ?thesis
    using assms(4) unfolding extends_def by metis
qed

definition table_limits_ok :: "TableDesc \<Rightarrow> bool" where
  "table_limits_ok d \<longleftrightarrow> (case table_maximum d of Some mx \<Rightarrow> table_minimum d \<le> mx | None \<Rightarrow> True)"

lemma table_fill_Ok:
  assumes "table_fill S desc mx v k = (Ok t, k')"
  shows "vec_try_extend_with S (table_minimum desc) None v k = (Ok (), tab_elements t, k')"
proof -
  from assms have "(case vec_try_extend_with S (table_minimum desc) None v k of
      (Ok _, v', k') \<Rightarrow> (Ok \<lparr>tab_elements = v', tab_maximum = mx\<rparr>, k')
    | (Err e, _, k') \<Rightarrow> (Err e, k') | (Panic msg, _, k') \<Rightarrow> (Panic msg, k')) = (Ok t, k')"
    by (auto simp: table_fill_def)
  then show ?thesis
    by (cases "vec_try_extend_with S (table_minimum desc) None v k") (auto split: outcome.splits)
qed

lemma table_try_new_Ok:
  assumes "os_contract S" and "table_try_new S desc mx k = (Ok t, k')"
  shows "page_aligned S (vec_mmap (tab_elements t))"
    "extends S (bytes_of (vec_mmap (tab_elements t))) k k'"
    "table_reserve mx \<noteq> 0 \<Longrightarrow> vec_slice (tab_elements t) = replicate (table_minimum desc) None"
    "table_reserve mx \<noteq> 0 \<Longrightarrow> vec_len (tab_elements t) = table_minimum desc"
    "table_reserve mx \<noteq> 0 \<Longrightarrow>
       mm_len (vec_mmap (tab_elements t)) = page_ceil (host_page_size S) (table_reserve mx)"
    "table_reserve mx \<noteq> 0 \<Longrightarrow> vec_inv S (tab_elements t) k'"
    "table_reserve mx = 0 \<Longrightarrow> vec_slice (tab_elements t) = []"
proof -
  let ?r = "table_reserve mx" and ?p = "host_page_size S"
  have "page_aligned S (vec_mmap (tab_elements t)) \<and>
    extends S (bytes_of (vec_mmap (tab_elements t))) k k' \<and>
    (?r \<noteq> 0 \<longrightarrow> vec_slice (tab_elements t) = replicate (table_minimum desc) None \<and>
       vec_len (tab_elements t) = table_minimum desc \<and>
       mm_len (vec_mmap (tab_elements t)) = page_ceil ?p ?r \<and> vec_inv S (tab_elements t) k') \<and>
    (?r = 0 \<longrightarrow> vec_slice (tab_elements t) = [])"
  proof (cases "?r = 0")
    case True
    with assms(2) have "t = \<lparr>tab_elements = vec_new None, tab_maximum = mx\<rparr>" "k' = k"
      by (auto simp: table_try_new_def)
    with True show ?thesis
      by (auto simp: vec_new_def mmap_new_empty_def page_aligned_def bytes_of_def vec_slice_def)
  next
    case False
    with assms(2) obtain v k1 where res: "vec_with_reserved S None (page_ceil ?p ?r) k = Ok (v, k1)"
      and fill: "table_fill S desc mx v k1 = (Ok t, k')"
      by (auto simp: table_try_new_def round_usize_Ok_iff [OF os_contract_page [OF assms(1)]])
    note ext = table_fill_Ok [OF fill]
    note f = vec_with_reserved_Ok [OF assms(1) res]
    note g = vec_extend_with_facts [OF assms(1) f(1) ext]
    have "\<exists>old w. vec_try_grow S (table_minimum desc) v k1 = Ok (old, w, k')"
      using ext by (auto simp: vec_try_extend_with_def split: outcome.splits)
    then have "extends S (bytes_of (vec_mmap v)) k k'"
      using vec_try_grow_mapped [OF assms(1) f(1)] vec_with_reserved_region [OF assms(1) res] by blast
    with g f False vec_inv_region [OF g(1)] show ?thesis by (simp add: vec_slice_def)
  qed
  then show "page_aligned S (vec_mmap (tab_elements t))"
    "extends S (bytes_of (vec_mmap (tab_elements t))) k k'"
    "table_reserve mx \<noteq> 0 \<Longrightarrow> vec_slice (tab_elements t) = replicate (table_minimum desc) None"
    "table_reserve mx \<noteq> 0 \<Longrightarrow> vec_len (tab_elements t) = table_minimum desc"
    "table_reserve mx \<noteq> 0 \<Longrightarrow>
       mm_len (vec_mmap (tab_elements t)) = page_ceil (host_page_size S) (table_reserve mx)"
    "table_reserve mx \<noteq> 0 \<Longrightarrow> vec_inv S (tab_elements t) k'"
    "table_reserve mx = 0 \<Longrightarrow> vec_slice (tab_elements t) = []"
    by blast+
qed

lemma table_try_new_Err:
  assumes "os_contract S" and "table_try_new S desc mx k = (Err e, k')"
  shows "prot_at S k' = prot_at S k"
proof -
  note r = round_usize_Ok_iff [OF os_contract_page [OF assms(1)]]
  have pure: "expect x msg \<noteq> Err e" "round_usize_up_to_host_pages S n \<noteq> Err e"
    for x :: "nat option" and msg n
    by (auto simp: expect_def round_usize_up_to_host_pages_def try_into_def
        round_u64_up_to_host_pages_def Let_def assert_that_def split: option.splits if_splits)
  have fill: "k2 = k1" if "table_fill S desc mx v k1 = (Err e, k2)" for v k1 k2
    using that by (auto simp: table_fill_def pure vec_try_extend_with_def split: prod.splits outcome.splits)
  from assms(2) consider "k' = k" | v k1 where
    "vec_with_reserved S None (page_ceil (host_page_size S) (table_reserve mx)) k = Ok (v, k1)"
    "io_owning S (vec_mmap v) (table_fill S desc mx v) k1 = (Err e, k')"
    by (auto simp: table_try_new_def r pure split: if_splits)
  then show ?thesis
  proof cases
    case (2 v k1)
    note w = vec_with_reserved_Ok(1) [OF assms(1) 2(1)]
    show ?thesis
      by (rule io_owning_Err [OF assms(1) vec_inv_region [OF w] vec_with_reserved_region [OF assms(1) 2(1)] _ 2(2)])
        (use fill in auto)
  qed simp
qed

lemma vmctx_try_new_Ok:
  assumes "os_contract S" and "vmctx_try_new S offsets k = (Ok c, k')"
  shows "page_aligned S (vec_mmap (ctx_vec c))" "extends S (bytes_of (vec_mmap (ctx_vec c))) k k'"
    "vo_size offsets \<le> mm_len (vec_mmap (ctx_vec c))" "ctx_cells c = (\<lambda>_. None)"
    "0 < vo_size offsets \<Longrightarrow> 0 < vmctx_as_ptr c"
proof -
  note pos = os_contract_pos [OF assms(1)]
  from assms(2) obtain v where v: "vec_new_zeroed S 0 (page_ceil (host_page_size S) (vo_size offsets)) k = Ok (v, k')"
    and c: "c = \<lparr>ctx_vec = v, ctx_cells = \<lambda>_. None\<rparr>"
    by (auto simp: vmctx_try_new_def round_usize_Ok_iff [OF os_contract_page [OF assms(1)]])
  then have m: "mm_len (vec_mmap v) = page_ceil (host_page_size S) (vo_size offsets)"
    "os_mmap S k (mm_len (vec_mmap v)) PROT_RW = Some (mm_ptr (vec_mmap v), k')"
    by (auto simp: vec_new_zeroed_def mmap_new_Ok)
  note f = os_mmap_facts [OF assms(1) m(2)]
  show "page_aligned S (vec_mmap (ctx_vec c))"
    using f m c page_ceil_bounds [OF pos] by (auto simp: page_aligned_def)
  show "extends S (bytes_of (vec_mmap (ctx_vec c))) k k'"
    unfolding extends_def using f(4,5) c by (auto simp: bytes_of_def)
  show "vo_size offsets \<le> mm_len (vec_mmap (ctx_vec c))" "ctx_cells c = (\<lambda>_. None)"
    using m c page_ceil_bounds [OF pos] by auto
  show "0 < vmctx_as_ptr c" using f(1) c by (simp add: vmctx_as_ptr_def)
qed

section \<open>The allocation contract\<close>

text \<open>
  What the module allocation relies on: an allocation that succeeds maps a fresh region of whole
  pages and returns a resource that fits its description; one that fails leaves the address space
  as it was.
\<close>

locale resource_allocation =
  fixes alloc :: "'k os_ops \<Rightarrow> 'd \<Rightarrow> ('r, 'k) io"
    and region :: "'r \<Rightarrow> Mmap"
    and fits :: "'k os_ops \<Rightarrow> 'd \<Rightarrow> 'r \<Rightarrow> bool"
  assumes alloc_Ok: "os_contract S \<Longrightarrow> alloc S d k = (Ok r, k') \<Longrightarrow>
      page_aligned S (region r) \<and> extends S (bytes_of (region r)) k k' \<and> fits S d r"
    and alloc_Err: "os_contract S \<Longrightarrow> alloc S d k = (Err e, k') \<Longrightarrow> prot_at S k' = prot_at S k"
begin

definition regions :: "'r list \<Rightarrow> nat set" where
  "regions rs = (\<Union>r\<in>set rs. bytes_of (region r))"

definition held :: "'k os_ops \<Rightarrow> 'r list \<Rightarrow> 'k \<Rightarrow> 'k \<Rightarrow> bool" where
  "held S rs k k' \<longleftrightarrow> extends S (regions rs) k k' \<and> (\<forall>r\<in>set rs. page_aligned S (region r)) \<and>
     sorted_wrt (\<lambda>a b. bytes_of (region a) \<inter> bytes_of (region b) = {}) rs"

lemma regions_simps [simp]:
  "regions [] = {}" "regions (r # rs) = bytes_of (region r) \<union> regions rs"
  "regions (rs @ rs') = regions rs \<union> regions rs'"
  by (auto simp: regions_def)

lemma held_Nil [simp]: "held S [] k k' \<longleftrightarrow> prot_at S k' = prot_at S k"
  by (simp add: held_def)

lemma held_push:
  assumes "os_contract S" and "held S rs k0 k" and "alloc S d k = (Ok r, k')"
  shows "held S (rs @ [r]) k0 k'"
proof -
  note f = alloc_Ok [OF assms(1,3)]
  have "regions rs \<inter> bytes_of (region r) = {}"
    using assms(2) f by (auto simp: held_def dest: extends_disjoint)
  moreover have "extends S (regions (rs @ [r])) k0 k'"
    using assms(2) f by (auto simp: held_def intro: extends_trans)
  ultimately show ?thesis
    using assms(2) f by (auto simp: held_def sorted_wrt_append regions_def)
qed

lemma held_same: "held S rs k0 k \<Longrightarrow> prot_at S k' = prot_at S k \<Longrightarrow> held S rs k0 k'"
  by (simp add: held_def extends_def)

lemma allocate_defined_held:
  assumes "os_contract S" and "held S rs k0 k"
    and "allocate_defined def (\<lambda>d i. alloc S d) items rs k = (r, rs', k')" and "\<not> is_panic r"
  shows "held S rs' k0 k' \<and> (\<exists>new. rs' = rs @ new \<and>
    (r = Ok () \<longrightarrow> list_all2 (fits S) (map snd (filter (\<lambda>(i, d). def i \<noteq> None) items)) new))"
  using assms(2-)
proof (induction def "\<lambda>d (i :: nat). alloc S d" items rs k rule: allocate_defined.induct)
  case (2 def index plan rest rs k)
  show ?case
  proof (cases "def index")
    case None
    with 2 show ?thesis by simp
  next
    case (Some j)
    obtain q k1 where q: "alloc S plan k = (q, k1)" by fastforce
    show ?thesis
    proof (cases q)
      case (Ok a)
      with 2(4,5) Some q have j: "j = length rs" by (auto split: if_splits)
      have h: "held S (rs @ [a]) k0 k1" using assms(1) 2(3) q Ok by (auto intro: held_push)
      have "fits S plan a" using alloc_Ok [OF assms(1)] q Ok by blast
      with 2(2) [OF Some q [symmetric] Ok j h] 2(4,5) Some q Ok j show ?thesis by auto
    next
      case (Err e)
      with 2(3,4) Some q alloc_Err [OF assms(1)] held_same show ?thesis by fastforce
    next
      case (Panic p)
      with 2(4,5) Some q show ?thesis by auto
    qed
  qed
qed auto

lemma deallocate_all_prot:
  assumes "os_contract S" and "\<forall>r\<in>set rs. page_aligned S (region r)"
    and "deallocate_all (\<lambda>_ r. io_step (drop_mmap S (region r))) (enumerate i rs) k = (Ok u, k')"
  shows "prot_at S k' x = (if x \<in> regions rs then None else prot_at S k x)"
  using assms(2,3)
proof (induction rs arbitrary: i k)
  case (Cons r rs)
  from Cons.prems obtain k1 where k1: "drop_mmap S (region r) k = Ok k1"
    "deallocate_all (\<lambda>_ r. io_step (drop_mmap S (region r))) (enumerate (Suc i) rs) k1 = (Ok u, k')"
    by auto
  have "prot_at S k1 x = (if x \<in> bytes_of (region r) then None else prot_at S k x)"
    using drop_mmap_prot [OF assms(1) _ k1(1)] Cons.prems by simp
  with Cons.IH [OF _ k1(2)] Cons.prems show ?case by auto
qed simp

end

text \<open>The resources fit: sizes and contents are what the description asks for.\<close>

definition memory_fits :: "'k os_ops \<Rightarrow> MemoryDesc \<Rightarrow> Memory \<Rightarrow> bool" where
  "memory_fits S d m \<longleftrightarrow> minimum_byte_size d = Ok (mem_len m) \<and> mem_bytes m = (\<lambda>_. 0) \<and>
     mem_len m \<le> mm_len (mem_mmap m)"

definition table_fits :: "'k os_ops \<Rightarrow> TableDesc \<Rightarrow> Table \<Rightarrow> bool" where
  "table_fits S d t \<longleftrightarrow>
     (table_limits_ok d \<longrightarrow> vec_slice (tab_elements t) = replicate (table_minimum d) None)"

lemma ok_of_Ok: "ok_of r = Ok (Some a) \<longleftrightarrow> r = Ok a"
  by (auto simp: ok_of_def split: outcome.splits)

lemma placeholder_memory_Ok:
  assumes "placeholder_allocate_memory S d k = (Ok m, k')"
  shows "\<exists>mn mx. minimum_byte_size d = Ok mn \<and> ok_of (maximum_byte_size d) = Ok mx \<and>
    memory_try_new S d mn (Option.bind mx (try_into u64_bound)) k = (Ok m, k')"
  using assms by (auto simp: placeholder_allocate_memory_def ok_of_Ok bind_eq_Some_conv)

interpretation memory_alloc: resource_allocation placeholder_allocate_memory mem_mmap memory_fits
proof
  fix S :: "'k os_ops" and d k m k' e
  assume c: "os_contract S"
  show "page_aligned S (mem_mmap m) \<and> extends S (bytes_of (mem_mmap m)) k k' \<and> memory_fits S d m"
    if "placeholder_allocate_memory S d k = (Ok m, k')"
  proof -
    from placeholder_memory_Ok [OF that] obtain mn mx where
      m: "minimum_byte_size d = Ok mn" "memory_try_new S d mn mx k = (Ok m, k')"
      by blast
    note f = memory_try_new_Ok [OF c m(2)]
    have "mn \<le> page_ceil (host_page_size S) mn" using page_ceil_bounds(1) os_contract_pos [OF c] by blast
    with f m(1) show ?thesis by (auto simp: memory_fits_def memory_mapped_def)
  qed
  show "prot_at S k' = prot_at S k" if "placeholder_allocate_memory S d k = (Err e, k')"
  proof -
    have "ok_of r \<noteq> Err e" "expect x msg \<noteq> Err e"
      for r :: "(SizeOverflow, nat) outcome" and x :: "nat option" and msg
      by (auto simp: ok_of_def expect_def split: outcome.splits option.splits)
    with that show ?thesis
      using memory_try_new_Err [OF c] by (auto simp: placeholder_allocate_memory_def)
  qed
qed

interpretation table_alloc:
  resource_allocation placeholder_allocate_table "\<lambda>t. vec_mmap (tab_elements t)" table_fits
proof
  fix S :: "'k os_ops" and d :: TableDesc and k t k' e
  assume c: "os_contract S"
  let ?mx = "Option.bind (table_maximum d) (try_into u64_bound)"
  show "page_aligned S (vec_mmap (tab_elements t)) \<and>
      extends S (bytes_of (vec_mmap (tab_elements t))) k k' \<and> table_fits S d t"
    if "placeholder_allocate_table S d k = (Ok t, k')"
  proof -
    have new: "table_try_new S d ?mx k = (Ok t, k')"
      using that by (simp add: placeholder_allocate_table_def)
    note f = table_try_new_Ok [OF c new]
    have "table_minimum d = 0" if "table_reserve ?mx = 0" "table_limits_ok d"
      using that by (auto simp: table_reserve_def table_limits_ok_def TABLE_MAX_def try_into_def
          split: option.splits if_splits)
    with f show ?thesis by (cases "table_reserve ?mx = 0") (simp_all add: table_fits_def)
  qed
  show "prot_at S k' = prot_at S k" if "placeholder_allocate_table S d k = (Err e, k')"
    using table_try_new_Err [OF c] that by (auto simp: placeholder_allocate_table_def)
qed

section \<open>Allocating a module\<close>

lemma enumerate_drop:
  "map snd (filter (\<lambda>(i, x). n \<le> i) (enumerate a xs)) = drop (n - a) xs"
proof (induction xs arbitrary: a)
  case (Cons x xs)
  show ?case
  proof (cases "n \<le> a")
    case True
    then show ?thesis using Cons.IH [of "Suc a"] by simp
  next
    case False
    then have "n - a = Suc (n - Suc a)" by simp
    then show ?thesis using False Cons.IH [of "Suc a"] by simp
  qed
qed simp

lemma defined_items:
  "map snd (filter (\<lambda>(i, d). defined_memory_index m i \<noteq> None) (enumerate 0 xs)) =
     drop (num_imported_memories m) xs"
  "map snd (filter (\<lambda>(i, d). defined_table_index m i \<noteq> None) (enumerate 0 ys)) =
     drop (num_imported_tables m) ys"
proof -
  have "(defined_memory_index m i \<noteq> None) = (num_imported_memories m \<le> i)"
    "(defined_table_index m i \<noteq> None) = (num_imported_tables m \<le> i)" for i
    by (simp_all only: memory_space.to_defined_None_iff memory_space.is_imported_iff
        table_space.to_defined_None_iff table_space.is_imported_iff not_less)
  then show "map snd (filter (\<lambda>(i, d). defined_memory_index m i \<noteq> None) (enumerate 0 xs)) =
      drop (num_imported_memories m) xs"
    "map snd (filter (\<lambda>(i, d). defined_table_index m i \<noteq> None) (enumerate 0 ys)) =
      drop (num_imported_tables m) ys"
    by (simp_all only: enumerate_drop diff_zero)
qed

lemma placeholder_ops_simps [simp]:
  "allocate_memory (placeholder_ops S) m = (\<lambda>d i. placeholder_allocate_memory S d)"
  "allocate_table (placeholder_ops S) m = (\<lambda>d i. placeholder_allocate_table S d)"
  "allocate_vmctx (placeholder_ops S) m offsets = vmctx_try_new S offsets"
  "deallocate_memory (placeholder_ops S) = (\<lambda>i x. io_step (drop_mmap S (mem_mmap x)))"
  "deallocate_table (placeholder_ops S) = (\<lambda>i x. io_step (drop_mmap S (vec_mmap (tab_elements x))))"
  by (simp_all add: placeholder_ops_def)

lemma allocate_tables_facts:
  assumes "os_contract S" and "allocate_tables (placeholder_ops S) m [] k = (r, ts, k')" and "\<not> is_panic r"
  shows "table_alloc.held S ts k k'"
    "r = Ok () \<Longrightarrow> list_all2 (table_fits S) (drop (num_imported_tables m) (tables m)) ts"
proof -
  have "table_alloc.held S [] k k" by simp
  note f = table_alloc.allocate_defined_held [OF assms(1) this]
  show "table_alloc.held S ts k k'"
    "r = Ok () \<Longrightarrow> list_all2 (table_fits S) (drop (num_imported_tables m) (tables m)) ts"
    using f assms(2,3) by (auto simp: allocate_tables_def defined_items(2) [symmetric])
qed

lemma allocate_memories_facts:
  assumes "os_contract S" and "allocate_memories (placeholder_ops S) m [] k = (r, ms, k')" and "\<not> is_panic r"
  shows "memory_alloc.held S ms k k'"
    "r = Ok () \<Longrightarrow> list_all2 (memory_fits S) (drop (num_imported_memories m) (memories m)) ms"
proof -
  have "memory_alloc.held S [] k k" by simp
  note f = memory_alloc.allocate_defined_held [OF assms(1) this]
  show "memory_alloc.held S ms k k'"
    "r = Ok () \<Longrightarrow> list_all2 (memory_fits S) (drop (num_imported_memories m) (memories m)) ms"
    using f assms(2,3) by (auto simp: allocate_memories_def defined_items(1) [symmetric])
qed

text \<open>Cleaning up returns the result it was given or panics; it does not fail.\<close>

lemma deallocate_all_no_Err:
  "deallocate_all (\<lambda>i x. io_step (drop_mmap S (f x))) xs k \<noteq> (Err e, k')"
proof (induction xs arbitrary: k)
  case (Cons p xs)
  then show ?case by (cases p) (auto simp: drop_mmap_def expect_def split: if_splits option.splits)
qed simp

lemma cleanup_prot:
  assumes "os_contract S" and "table_alloc.held S ts k k1" and "memory_alloc.held S ms k1 k2"
    and "prot_at S k3 = prot_at S k2" and "cleanup (placeholder_ops S) ts ms (Err e) k3 = (Err e, k')"
  shows "prot_at S k' = prot_at S k"
proof -
  from assms(5) obtain u v k4 where
    d: "deallocate_all (\<lambda>i x. io_step (drop_mmap S (mem_mmap x))) (enumerate 0 ms) k3 = (Ok u, k4)"
    "deallocate_all (\<lambda>i x. io_step (drop_mmap S (vec_mmap (tab_elements x)))) (enumerate 0 ts) k4 = (Ok v, k')"
    by (auto simp: cleanup_def deallocate_memories_def deallocate_tables_def deallocate_all_no_Err)
  have al: "\<forall>r\<in>set ms. page_aligned S (mem_mmap r)"
    "\<forall>r\<in>set ts. page_aligned S (vec_mmap (tab_elements r))"
    using assms(2,3) by (auto simp: memory_alloc.held_def table_alloc.held_def)
  have "prot_at S k' x = prot_at S k x" for x
    using memory_alloc.deallocate_all_prot [OF assms(1) al(1) d(1), of x]
      table_alloc.deallocate_all_prot [OF assms(1) al(2) d(2), of x] assms(2-4)
    by (auto simp: memory_alloc.held_def table_alloc.held_def extends_def split: if_splits)
  then show ?thesis by blast
qed

lemma allocate_resources_held:
  assumes "os_contract S" and "allocate_resources (placeholder_ops S) m offsets k = (r, ts, ms, k')"
    and "\<not> is_panic r"
  shows "\<exists>k1 k2. table_alloc.held S ts k k1 \<and> memory_alloc.held S ms k1 k2 \<and>
    (case r of
       Ok c \<Rightarrow> vmctx_try_new S offsets k2 = (Ok c, k') \<and>
         list_all2 (table_fits S) (drop (num_imported_tables m) (tables m)) ts \<and>
         list_all2 (memory_fits S) (drop (num_imported_memories m) (memories m)) ms
     | _ \<Rightarrow> prot_at S k' = prot_at S k2)"
proof -
  obtain rt ts' k1 where t: "allocate_tables (placeholder_ops S) m [] k = (rt, ts', k1)"
    using prod_cases3 by blast
  obtain rm ms' k2 where mm: "allocate_memories (placeholder_ops S) m [] k1 = (rm, ms', k2)"
    using prod_cases3 by blast
  show ?thesis
  proof (cases rt)
    case (Ok u)
    with t have ht: "table_alloc.held S ts' k k1"
      "list_all2 (table_fits S) (drop (num_imported_tables m) (tables m)) ts'"
      using allocate_tables_facts [OF assms(1) t] by simp_all
    show ?thesis
    proof (cases rm)
      case Ok': (Ok v)
      obtain rv k3 where v: "vmctx_try_new S offsets k2 = (rv, k3)" by fastforce
      then have r: "r = rv" "ts = ts'" "ms = ms'" "k' = k3"
        using assms(2) t mm Ok Ok' by (auto simp: allocate_resources_def)
      have "k' = k2" if "rv = Err e" for e
        using v r that by (auto simp: vmctx_try_new_def io_then_def io_pure_def io_of_def
            split: outcome.splits)
      with ht r v assms(3) show ?thesis
        using allocate_memories_facts [OF assms(1) mm] Ok'
        by (intro exI [of _ k1] exI [of _ k2]) (cases rv; auto)
    next
      case (Err e)
      then have "r = Err e" "ts = ts'" "ms = ms'" "k' = k2"
        using assms(2) t mm Ok by (auto simp: allocate_resources_def)
      with ht show ?thesis using allocate_memories_facts(1) [OF assms(1) mm] Err
        by (intro exI [of _ k1] exI [of _ k2]) auto
    qed (use assms(2,3) t mm Ok in \<open>auto simp: allocate_resources_def\<close>)
  next
    case (Err e)
    then have "r = Err e" "ts = ts'" "ms = []" "k' = k1"
      using assms(2) t by (auto simp: allocate_resources_def)
    then show ?thesis using allocate_tables_facts(1) [OF assms(1) t] Err
      by (intro exI [of _ k1] exI [of _ k1]) auto
  qed (use assms(2,3) t in \<open>auto simp: allocate_resources_def\<close>)
qed

lemma allocate_module_eq:
  assumes "allocate_module A m offsets k = (r, k')" and "\<not> is_panic r"
  shows "num_imported_tables m \<le> length (tables m)" "num_imported_memories m \<le> length (memories m)"
    "(case allocate_resources A m offsets k of
         (Ok vmctx, ts, ms, k') \<Rightarrow> (Ok (vmctx, ts, ms), k')
       | (Err e, ts, ms, k') \<Rightarrow> cleanup A ts ms (Err e) k'
       | (Panic p, ts, ms, k') \<Rightarrow> cleanup A ts ms (Panic p) k') = (r, k')"
  using assms
  by (auto simp: allocate_module_def io_then_def io_pure_def num_tables_def num_memories_def
      try_into_def expect_def sub_chk_def split: if_splits)

lemma allocate_module_Ok:
  assumes "allocate_module A m offsets k = (Ok (c, ts, ms), k')"
  shows "allocate_resources A m offsets k = (Ok c, ts, ms, k')"
  using allocate_module_eq(3) [OF assms]
  by (auto simp: cleanup_def split: prod.splits outcome.splits)

lemma cleanup_Err:
  assumes "cleanup (placeholder_ops S) ts ms r k = (Err e, k')"
  shows "r = Err e"
  using assms
  by (auto simp: cleanup_def deallocate_memories_def deallocate_tables_def deallocate_all_no_Err)

lemma allocate_module_Err:
  assumes "allocate_module (placeholder_ops S) m offsets k = (Err e, k')"
  shows "\<exists>ts ms k1. allocate_resources (placeholder_ops S) m offsets k = (Err e, ts, ms, k1) \<and>
    cleanup (placeholder_ops S) ts ms (Err e :: (OwnedVMContext \<times> Table list \<times> Memory list) result) k1 =
      (Err e, k')"
  using allocate_module_eq(3) [OF assms] cleanup_Err [of S]
  by (auto split: prod.splits outcome.splits) blast+

section \<open>Running the allocator\<close>

definition page_table :: TableDesc where
  "page_table = \<lparr>table_element_type = FUNCREF, table64 = False, table_minimum = 600,
     table_maximum = None, table_shared = False\<rparr>"

lemma round_bump:
  "n + 4096 \<le> u64_bound \<Longrightarrow> round_usize_up_to_host_pages bump_os n = Ok (page_ceil 4096 n)"
  using round_usize_Ok_iff [OF os_contract_page [OF bump_os_contract]] by auto

lemmas alloc_eval = bump_os_calls io_then_def io_pure_def io_of_def io_step_def io_owning_def round_bump
  vec_with_reserved_def mmap_with_reserve_def usize_is_multiple_of_host_page_size_def
  map_anonymous_def vec_accessible_def vec_try_grow_def vec_try_extend_with_def make_accessible_def
  protect_def bump_mmap_def bump_set_def page_ceil_def add_chk_def try_into_def Let_def

text \<open>A module with one table of two elements and one memory of one page.\<close>

definition small_module :: TranslatedModule where
  "small_module = module_default\<lparr>tables := [page_table\<lparr>table_minimum := 2\<rparr>],
     memories := [one_page\<lparr>memory_maximum := None\<rparr>]\<rparr>"

definition small_offsets :: VMOffsets where
  "small_offsets = \<lparr>vo_num_imported_funcs = 0, vo_num_imported_tables = 0,
     vo_num_imported_memories = 0, vo_num_imported_globals = 0, vo_num_defined_tables = 1,
     vo_num_defined_memories = 1, vo_num_defined_globals = 0, vo_num_escaped_funcs = 0,
     static_offsets = \<lparr>ptr_size = 8\<rparr>, vo_func_refs = 56, vo_imported_functions = 56,
     vo_imported_tables = 56, vo_imported_memories = 56, vo_imported_globals = 56, vo_tables = 56,
     vo_memories = 72, vo_globals = 88, vo_size = 88\<rparr>"

lemmas small_eval = allocate_module_def allocate_resources_def allocate_tables_def
  allocate_memories_def small_module_def module_default_def page_table_def one_page_def
  num_tables_def num_memories_def placeholder_allocate_table_def placeholder_allocate_memory_def
  table_try_new_def table_fill_def table_reserve_def memory_try_new_def ok_of_def
  minimum_byte_size_def maximum_byte_size_def max_size_based_on_index_type_def page_size_def
  checked_mul_def defined_table_index_def defined_memory_index_def is_imported_table_def
  is_imported_memory_def MEMORY_MAX_def TABLE_MAX_def WASM32_MAX_SIZE_def vmctx_try_new_def
  vec_new_zeroed_def mmap_new_def small_offsets_def cleanup_def deallocate_memories_def
  deallocate_tables_def drop_mmap_def sub_chk_def expect_def alloc_eval assert_that_def

section \<open>Properties\<close>

text \<open>C29.
  Allocating the resources of a module either succeeds or leaves no trace: when any of the
  allocations fails, everything mapped before is unmapped again, and the address space is what it
  was.
\<close>

theorem allocate_module_no_leak:
  assumes "os_contract S" and "allocate_module (placeholder_ops S) m offsets k = (Err e, k')"
  shows "prot_at S k' = prot_at S k"
proof -
  from allocate_module_Err [OF assms(2)] obtain ts ms k1 where
    r: "allocate_resources (placeholder_ops S) m offsets k = (Err e, ts, ms, k1)"
    and c: "cleanup (placeholder_ops S) ts ms
      (Err e :: (OwnedVMContext \<times> Table list \<times> Memory list) result) k1 = (Err e, k')"
    by blast
  from allocate_resources_held [OF assms(1) r] obtain k2 k3 where
    "table_alloc.held S ts k k2" "memory_alloc.held S ms k2 k3" "prot_at S k1 = prot_at S k3"
    by auto
  from cleanup_prot [OF assms(1) this c] show ?thesis .
qed

theorem allocate_module_no_leak_witness:
  "case allocate_module (placeholder_ops bump_os) small_module small_offsets (2 ^ 64 - 2 ^ 20, \<lambda>_. None) of
     (Err e, k') \<Rightarrow> e = MmapFailed \<and> (\<forall>x. prot_at bump_os k' x = None)
   | _ \<Rightarrow> False"
proof -
  have "\<exists>k'. allocate_module (placeholder_ops bump_os) small_module small_offsets
      (2 ^ 64 - 2 ^ 20, \<lambda>_. None) = (Err MmapFailed, k')"
    by (simp add: small_eval)
  then obtain k' where k': "allocate_module (placeholder_ops bump_os) small_module small_offsets
      (2 ^ 64 - 2 ^ 20, \<lambda>_. None) = (Err MmapFailed, k')"
    by blast
  have "prot_at bump_os k' = prot_at bump_os (2 ^ 64 - 2 ^ 20, \<lambda>_. None)"
    by (rule allocate_module_no_leak [OF bump_os_contract k'])
  then have "\<forall>x. prot_at bump_os k' x = None" by simp
  with k' show ?thesis by (simp del: bump_os_simps(3))
qed





end
