(* ===== verification/Code_Memory.thy ===== *)
theory Code_Memory
  imports Compile Instance_Alloc
begin

text \<open>
  Executable code at run time: \<open>src/src/runtime/code_memory.rs\<close> (the mapping that holds the text
  section of a module and its table of trap locations) and
  \<open>src/src/placeholder/code_registry.rs\<close> (the global registry that tells which module a program
  counter belongs to). \<open>slice::binary_search_by_key\<close> is the standard library's halving loop.
\<close>

section \<open>Code memory\<close>

record CodeMemory =
  cm_mmap :: Mmap
  cm_len :: nat
  cm_bytes :: "nat \<Rightarrow> nat"
  cm_published :: bool
  cm_trap_offsets :: "nat list"
  cm_traps :: "Trap list"

definition code_memory_new :: "nat MmapVec \<Rightarrow> nat list \<Rightarrow> Trap list \<Rightarrow> CodeMemory" where
  "code_memory_new vec offs ts = (case vec_into_parts vec of (mmap, len) \<Rightarrow>
     \<lparr>cm_mmap = mmap, cm_len = len, cm_bytes = vec_elems vec, cm_published = False,
      cm_trap_offsets = offs, cm_traps = ts\<rparr>)"

definition publish :: "'k os_ops \<Rightarrow> CodeMemory \<Rightarrow> (CodeMemory, 'k) io" where
  "publish S cm =
     io_then (io_pure (assert_that (\<not> cm_published cm) ''assertion failed: !self.published''))
     (\<lambda>_. let cm' = cm\<lparr>cm_published := True\<rparr> in
        if mm_len (cm_mmap cm) = 0 then io_pure (Ok cm')
        else io_then (io_step (make_readonly S (cm_mmap cm) 0 (cm_len cm)))
          (\<lambda>_. io_then (io_step (make_executable S (cm_mmap cm) 0 (cm_len cm)))
          (\<lambda>_. io_pure (Ok cm'))))"

text \<open>The address and length of \<open>text()\<close>.\<close>

definition code_text :: "CodeMemory \<Rightarrow> (nat \<times> nat) result" where
  "code_text cm = mmap_slice (cm_mmap cm) 0 (cm_len cm)"

definition resolve_function_loc :: "CodeMemory \<Rightarrow> FunctionLoc \<Rightarrow> nat result" where
  "resolve_function_loc cm loc =
     and_then (code_text cm)
     (\<lambda>(start, len). and_then (add_chk u64_bound start (loc_start loc))
     (\<lambda>addr. and_then (assert_that (start \<le> addr \<and>
           saturating_add u64_bound addr (loc_length loc) \<le> start + len)
           ''assertion failed: text_range.start <= addr'')
     (\<lambda>_. Ok addr)))"

text \<open>
  The binary search of the standard library: halve the part of the slice that may hold the key,
  then compare once.
\<close>

function search_base :: "nat list \<Rightarrow> nat \<Rightarrow> nat \<Rightarrow> nat \<Rightarrow> nat" where
  "search_base xs key base sz =
     (if sz \<le> 1 then base
      else let half = sz div 2; mid = base + half in
        search_base xs key (if key < xs ! mid then base else mid) (sz - half))"
  by pat_completeness auto
termination by (relation "measure (\<lambda>(xs, key, base, sz). sz)") auto

declare search_base.simps [simp del]

definition binary_search :: "nat list \<Rightarrow> nat \<Rightarrow> nat option" where
  "binary_search xs key =
     (if xs = [] then None
      else let base = search_base xs key 0 (length xs) in
        if xs ! base = key then Some base else None)"

definition lookup_trap_code :: "CodeMemory \<Rightarrow> nat \<Rightarrow> Trap option result" where
  "lookup_trap_code cm offset =
     and_then (expect (try_into u32_bound offset) ''called `Result::unwrap()` on an `Err` value'')
     (\<lambda>key. case binary_search (cm_trap_offsets cm) key of
         None \<Rightarrow> Ok None
       | Some index \<Rightarrow> map_ok Some (pm_index (cm_traps cm) index))"

section \<open>The registry of code\<close>

text \<open>A \<open>BTreeMap\<close> from the last address of a region to its first address and the code.\<close>

type_synonym code_registry = "(nat \<times> nat \<times> CodeMemory) list"

definition lookup_code :: "code_registry \<Rightarrow> nat \<Rightarrow> (CodeMemory \<times> nat) option" where
  "lookup_code all_modules pc = (case dropWhile (\<lambda>e. fst e < pc) all_modules of
       [] \<Rightarrow> None
     | (stop, start, cm) # _ \<Rightarrow> if start \<le> pc then Some (cm, pc - start) else None)"

definition register_code :: "CodeMemory \<Rightarrow> code_registry \<Rightarrow> code_registry result" where
  "register_code cm all_modules =
     and_then (code_text cm)
     (\<lambda>(start, len). if len = 0 then Ok all_modules
        else and_then (add_chk u64_bound start len)
          (\<lambda>e. and_then (assert_that (map_of all_modules (e - 1) = None) ''assertion failed: prev.is_none()'')
          (\<lambda>_. Ok (bt_insert (e - 1) (start, cm) all_modules))))"

section \<open>Binary search\<close>

lemma search_base_ge:
  assumes "sorted xs" and "0 < sz" and "base + sz \<le> length xs"
    and "base + sz < length xs \<Longrightarrow> key < xs ! (base + sz)" and "base = 0 \<or> xs ! base \<le> key"
  shows "\<exists>b. search_base xs key base sz = b \<and> b < length xs \<and>
    (Suc b < length xs \<longrightarrow> key < xs ! Suc b) \<and> (b = 0 \<or> xs ! b \<le> key)"
  using assms
proof (induction xs key base sz rule: search_base.induct)
  case (1 xs key base sz)
  let ?half = "sz div 2" and ?mid = "base + sz div 2"
  show ?case
  proof (cases "sz \<le> 1")
    case True
    with 1(3) have "sz = 1" by simp
    with 1 show ?thesis by (simp add: search_base.simps)
  next
    case False
    let ?base' = "if key < xs ! ?mid then base else ?mid"
    have half: "0 < ?half" "?half < sz" using False by auto
    have "?base' + (sz - ?half) \<le> length xs" using 1(4) half by auto
    moreover have "key < xs ! (?base' + (sz - ?half))" if less: "?base' + (sz - ?half) < length xs"
    proof (cases "key < xs ! ?mid")
      case True
      have "?mid \<le> base + (sz - ?half)" by linarith
      then have "xs ! ?mid \<le> xs ! (base + (sz - ?half))"
        using less True 1(2) by (intro sorted_nth_mono) auto
      with True show ?thesis by simp
    next
      case f: False
      then show ?thesis using less 1(5) half by simp
    qed
    moreover have "?base' = 0 \<or> xs ! ?base' \<le> key" using 1(6) by auto
    ultimately show ?thesis
      using 1(1) [OF False refl refl 1(2)] half False
      by (simp add: search_base.simps [of xs key base sz] Let_def)
  qed
qed

lemma binary_search_Some:
  assumes "sorted xs" and "binary_search xs key = Some i"
  shows "i < length xs" "xs ! i = key"
proof -
  from assms(2) have "xs \<noteq> []" "i = search_base xs key 0 (length xs)" "xs ! i = key"
    by (auto simp: binary_search_def Let_def split: if_splits)
  then show "i < length xs" "xs ! i = key"
    using search_base_ge [of xs "length xs" 0 key] assms(1) by auto
qed

lemma binary_search_None_iff:
  assumes "sorted xs"
  shows "binary_search xs key = None \<longleftrightarrow> key \<notin> set xs"
proof
  assume "key \<notin> set xs"
  then show "binary_search xs key = None"
    using binary_search_Some [OF assms] by (metis not_Some_eq nth_mem)
next
  assume none: "binary_search xs key = None"
  show "key \<notin> set xs"
  proof
    assume "key \<in> set xs"
    then obtain j where j: "j < length xs" "xs ! j = key" by (auto simp: in_set_conv_nth)
    define b where "b = search_base xs key 0 (length xs)"
    have b: "b < length xs" "Suc b < length xs \<Longrightarrow> key < xs ! Suc b" "b = 0 \<or> xs ! b \<le> key"
      using search_base_ge [of xs "length xs" 0 key] assms j by (force simp: b_def)+
    have "xs ! b \<noteq> key" using none j by (auto simp: binary_search_def Let_def b_def split: if_splits)
    moreover have "j \<le> b"
    proof (rule ccontr)
      assume "\<not> j \<le> b"
      then have "Suc b \<le> j" by simp
      with j b(2) sorted_nth_mono [OF assms, of "Suc b" j] show False by auto
    qed
    ultimately show False
      using b j sorted_nth_mono [OF assms, of j b] by auto
  qed
qed

lemma lookup_trap_code_eq:
  assumes "sorted (cm_trap_offsets cm)" and "length (cm_trap_offsets cm) = length (cm_traps cm)"
    and "offset < 2 ^ 32"
  shows "\<exists>r. lookup_trap_code cm offset = Ok r \<and> (r = None \<longleftrightarrow> offset \<notin> set (cm_trap_offsets cm)) \<and>
    (\<forall>t. r = Some t \<longrightarrow> (offset, t) \<in> set (zip (cm_trap_offsets cm) (cm_traps cm)))"
proof (cases "binary_search (cm_trap_offsets cm) offset")
  case None
  then show ?thesis
    using assms(3) binary_search_None_iff [OF assms(1), of offset]
    by (intro exI [of _ None]) (simp add: lookup_trap_code_def)
next
  case (Some i)
  note i = binary_search_Some [OF assms(1) Some]
  with assms(2,3) Some have "lookup_trap_code cm offset = Ok (Some (cm_traps cm ! i))"
    by (simp add: lookup_trap_code_def)
  moreover have "(offset, cm_traps cm ! i) \<in> set (zip (cm_trap_offsets cm) (cm_traps cm))"
    using i assms(2) by (auto simp: in_set_zip intro!: exI [of _ i])
  ultimately show ?thesis using i by (auto dest: nth_mem)
qed

section \<open>The trap table of a linked module\<close>

text \<open>The traps of one output, at their addresses relative to the text section.\<close>

definition located_traps :: "FunctionLoc \<Rightarrow> CompileOutput \<Rightarrow> (nat \<times> TrapCode) list" where
  "located_traps loc out =
     map (\<lambda>(x, code). (loc_start loc + x, code)) (buffer_traps (cf_buffer (out_function out)))"

lemma push_traps_zip:
  assumes "push_traps loc ts b = Ok b'" and "length (tb_offsets b) = length (tb_traps b)"
  shows "zip (tb_offsets b') (tb_traps b') =
      zip (tb_offsets b) (tb_traps b) @ map (\<lambda>(x, t). (loc_start loc + x, t)) ts"
    "length (tb_offsets b') = length (tb_traps b')"
proof -
  from assms(1) obtain b1 where b1: "for_each (push_trap loc) b ts = Ok b1"
    and b': "tb_offsets b' = tb_offsets b1" "tb_traps b' = tb_traps b1"
    by (auto simp: push_traps_def)
  have "zip (tb_offsets b1) (tb_traps b1) =
      zip (tb_offsets b) (tb_traps b) @ map (\<lambda>(x, t). (loc_start loc + x, t)) ts \<and>
    length (tb_offsets b1) = length (tb_traps b1)"
    using b1 assms(2)
  proof (induction ts arbitrary: b)
    case (Cons e ts)
    then obtain b2 where step: "push_trap loc b e = Ok b2" and rest: "for_each (push_trap loc) b2 ts = Ok b1"
      by auto
    obtain x t where e: "e = (x, t)" by fastforce
    from step have b2: "tb_offsets b2 = tb_offsets b @ [loc_start loc + x]" "tb_traps b2 = tb_traps b @ [t]"
      unfolding e push_trap_def by auto
    from Cons.IH [OF rest] Cons.prems(2) show ?case by (simp add: b2 e)
  qed simp
  with b' show "zip (tb_offsets b') (tb_traps b') =
      zip (tb_offsets b) (tb_traps b) @ map (\<lambda>(x, t). (loc_start loc + x, t)) ts"
    "length (tb_offsets b') = length (tb_traps b')"
    by simp_all
qed

lemma function_traps_codes:
  "function_traps f = Ok ts \<Longrightarrow>
     map (\<lambda>(x, code). (x, from_trap_code code)) (buffer_traps (cf_buffer f)) = map (\<lambda>(x, t). (x, Some t)) ts"
proof -
  have "collect (\<lambda>(offset, code). map_ok (Pair offset) (expect (from_trap_code code) msg)) raw =
      (Ok ts :: (nat \<times> Trap) list result) \<Longrightarrow>
      map (\<lambda>(x, code). (x, from_trap_code code)) raw = map (\<lambda>(x, t). (x, Some t)) ts" for raw msg
    by (induction raw arbitrary: ts) auto
  then show "function_traps f = Ok ts \<Longrightarrow>
     map (\<lambda>(x, code). (x, from_trap_code code)) (buffer_traps (cf_buffer f)) = map (\<lambda>(x, t). (x, Some t)) ts"
    unfolding function_traps_def .
qed

definition decode_trap :: "nat \<times> TrapCode \<Rightarrow> nat \<times> Trap option" where
  "decode_trap e = (fst e, from_trap_code (snd e))"

definition recorded :: "TrapsBuilder \<Rightarrow> (nat \<times> Trap option) list" where
  "recorded b = map (\<lambda>(x, t). (x, Some t)) (zip (tb_offsets b) (tb_traps b))"

lemma link_output_recorded:
  assumes "link_output debug T m ix (t, locs, b) out = Ok (t', locs', b')"
    and "length (tb_offsets b) = length (tb_traps b)"
  shows "\<exists>loc. locs' = locs @ [loc] \<and>
    recorded b' = recorded b @ map decode_trap (located_traps loc out) \<and>
    length (tb_offsets b') = length (tb_traps b')"
proof -
  from assms(1) obtain loc ts where ts: "function_traps (out_function out) = Ok ts"
    and pt: "push_traps loc ts b = Ok b'" and locs: "locs' = locs @ [loc]"
    by (auto simp: link_output_def Let_def split: prod.splits)
  have "map decode_trap (located_traps loc out) =
      map (\<lambda>(x, t). (loc_start loc + x, t)) (map (\<lambda>(x, code). (x, from_trap_code code))
        (buffer_traps (cf_buffer (out_function out))))"
    by (auto simp: located_traps_def decode_trap_def)
  also have "\<dots> = map (\<lambda>(x, t). (x, Some t)) (map (\<lambda>(x, t). (loc_start loc + x, t)) ts)"
    by (subst function_traps_codes [OF ts]) (simp add: case_prod_unfold comp_def)
  finally show ?thesis
    using push_traps_zip [OF pt assms(2)] locs by (simp add: recorded_def)
qed

lemma link_outputs_recorded:
  assumes "for_each (link_output debug T m ix) (t, locs, b) outs = Ok (t', locs', b')"
    and "length (tb_offsets b) = length (tb_traps b)"
  shows "\<exists>new. locs' = locs @ new \<and> length new = length outs \<and>
    recorded b' = recorded b @ concat (map2 (\<lambda>loc out. map decode_trap (located_traps loc out)) new outs)"
  using assms
proof (induction outs arbitrary: t locs b)
  case (Cons out outs)
  from Cons.prems(1) obtain t1 locs1 b1 where
    one: "link_output debug T m ix (t, locs, b) out = Ok (t1, locs1, b1)"
    and rest: "for_each (link_output debug T m ix) (t1, locs1, b1) outs = Ok (t', locs', b')"
    by auto
  from link_output_recorded [OF one Cons.prems(2)] obtain loc where loc: "locs1 = locs @ [loc]"
    "recorded b1 = recorded b @ map decode_trap (located_traps loc out)"
    "length (tb_offsets b1) = length (tb_traps b1)"
    by blast
  from Cons.IH [OF rest loc(3)] obtain new where "locs' = locs1 @ new" "length new = length outs"
    "recorded b' = recorded b1 @ concat (map2 (\<lambda>loc out. map decode_trap (located_traps loc out)) new outs)"
    by blast
  with loc show ?case by (intro exI [of _ "loc # new"]) simp
qed simp

section \<open>The invariant of the code registry\<close>

lemma option_ext: "(\<And>v. x = Some v \<longleftrightarrow> y = Some v) \<Longrightarrow> x = y"
  by (cases x) (auto, metis not_None_eq)


text \<open>Regions are listed in increasing order and do not overlap.\<close>

definition registry_regions :: "code_registry \<Rightarrow> bool" where
  "registry_regions r \<longleftrightarrow> (\<forall>e\<in>set r. fst (snd e) \<le> fst e) \<and> sorted_wrt (\<lambda>a b. fst a < fst (snd b)) r"

definition region_free :: "nat \<Rightarrow> nat \<Rightarrow> code_registry \<Rightarrow> bool" where
  "region_free start stop r \<longleftrightarrow> (\<forall>e\<in>set r. stop < fst (snd e) \<or> fst e < start)"

lemma set_bt_insert: "map_of r k = None \<Longrightarrow> set (bt_insert k v r) = insert (k, v) (set r)"
  by (induction k v r rule: bt_insert.induct) (auto split: if_splits)

lemma bt_insert_regions:
  assumes "registry_regions r" and "region_free start stop r" and "start \<le> stop"
  shows "registry_regions (bt_insert stop (start, cm) r)"
  using assms
proof (induction stop "(start, cm)" r rule: bt_insert.induct)
  case (2 k k' v' m)
  note prems = 2(2-4) and hyp = 2(1)
  have "registry_regions m" "region_free start k m"
    using prems by (auto simp: registry_regions_def region_free_def)
  then have IH: "registry_regions (bt_insert k (start, cm) m)" if "\<not> k < k'" "k \<noteq> k'"
    using hyp that prems(3) by blast
  have keys: "e = (k, start, cm) \<or> e \<in> set m" if "e \<in> set (bt_insert k (start, cm) m)" for e
    using that by (induction k "(start, cm)" m rule: bt_insert.induct) (auto split: if_splits)
  have free: "k < fst v' \<or> k' < start" and v': "fst v' \<le> k'"
    and above: "\<forall>e\<in>set m. k' < fst (snd e)"
    using prems by (auto simp: registry_regions_def region_free_def)
  show ?case
  proof (cases "k < k'")
    case True
    with free prems(3) have "k < fst v'" by linarith
    with True above v' prems show ?thesis by (fastforce simp: registry_regions_def)
  next
    case False
    moreover from this free v' prems(3) have "k' < start" by linarith
    ultimately show ?thesis
      using IH keys above v' prems(3) by (fastforce simp: registry_regions_def)
  qed
qed (auto simp: registry_regions_def)

lemma lookup_code_eq:
  assumes "registry_regions r"
  shows "lookup_code r pc = Some (cm, off) \<longleftrightarrow>
    (\<exists>start stop. (stop, start, cm) \<in> set r \<and> start \<le> pc \<and> pc \<le> stop \<and> off = pc - start)"
  using assms
proof (induction r)
  case (Cons e r)
  obtain stop start cm' where e: "e = (stop, start, cm')" using prod_cases3 by blast
  have "registry_regions r" using Cons.prems by (simp add: registry_regions_def)
  note IH = Cons.IH [OF this]
  show ?case
  proof (cases "stop < pc")
    case True
    then have "lookup_code (e # r) pc = lookup_code r pc" by (simp add: lookup_code_def e)
    with IH True show ?thesis by (auto simp: e)
  next
    case False
    then have "lookup_code (e # r) pc = (if start \<le> pc then Some (cm', pc - start) else None)"
      by (simp add: lookup_code_def e)
    moreover have "\<not> start' \<le> pc" if "(stop', start', c) \<in> set r" for stop' start' c
      using Cons.prems that False by (fastforce simp: e registry_regions_def)
    ultimately show ?thesis using False by (force simp: e not_less)
  qed
qed (simp add: lookup_code_def)

section \<open>Properties\<close>

text \<open>C13.
  From a trap recorded by the compiler to its lookup at run time: linking in a table of traps that
  lie in their function's code makes \<open>lookup_trap_code\<close> total on \<open>u32\<close> offsets; it answers
  \<open>None\<close> exactly for the offsets at which no linked function traps, and otherwise with the trap of
  a function recorded for that offset.
\<close>

theorem linked_traps_found:
  assumes "for_each (link_output debug T m ix) (t0, [], \<lparr>tb_offsets = [], tb_traps = [], tb_last_offset = 0\<rparr>)
      outs = Ok (t, locs, b)"
    and "text_contract T len" and "\<forall>out\<in>set outs. traps_in_body (out_function out)" and "x < 2 ^ 32"
  shows "\<exists>r. lookup_trap_code (code_memory_new vec (tb_offsets b) (tb_traps b)) x = Ok r \<and>
    (case r of
       None \<Rightarrow> \<forall>p < length outs. x \<notin> fst ` set (located_traps (locs ! p) (outs ! p))
     | Some trap \<Rightarrow> \<exists>p < length outs. \<exists>code. (x, code) \<in> set (located_traps (locs ! p) (outs ! p)) \<and>
         from_trap_code code = Some trap)"
proof -
  let ?cm = "code_memory_new vec (tb_offsets b) (tb_traps b)"
  have "traps_upto (len t) b"
    by (rule link_outputs_traps [OF assms(2) _ assms(1,3)]) (simp add: traps_upto_def traps_inv_def)
  then have inv: "sorted (tb_offsets b)" "length (tb_offsets b) = length (tb_traps b)"
    by (auto simp: traps_upto_def traps_inv_def)
  have len: "length locs = length outs"
    and rec: "recorded b = concat (map2 (\<lambda>loc out. map decode_trap (located_traps loc out)) locs outs)"
    using link_outputs_recorded [OF assms(1)] by (auto simp: recorded_def)
  have set_rec: "(x, t) \<in> set (recorded b) \<longleftrightarrow> (\<exists>p < length outs. \<exists>code.
      (x, code) \<in> set (located_traps (locs ! p) (outs ! p)) \<and> from_trap_code code = t)" for t
  proof -
    have "(x, t) \<in> set (recorded b) \<longleftrightarrow> (\<exists>p < length outs. (x, t) \<in> decode_trap ` set (located_traps (locs ! p) (outs ! p)))"
      using len by (auto simp: rec set_zip)
    then show ?thesis by (force simp: decode_trap_def)
  qed
  have zip_rec: "(x, Some trap) \<in> set (recorded b)" if "(x, trap) \<in> set (zip (tb_offsets b) (tb_traps b))" for trap
    using that by (force simp: recorded_def)
  have dom: "x \<in> set (tb_offsets b) \<longleftrightarrow> (\<exists>t. (x, t) \<in> set (recorded b))"
    using inv(2) by (force simp: recorded_def in_set_zip in_set_conv_nth)
  obtain r where r: "lookup_trap_code ?cm x = Ok r" "r = None \<longleftrightarrow> x \<notin> set (tb_offsets b)"
    "\<forall>trap. r = Some trap \<longrightarrow> (x, trap) \<in> set (zip (tb_offsets b) (tb_traps b))"
    using lookup_trap_code_eq [of ?cm x] inv assms(4) by (auto simp: code_memory_new_def vec_into_parts_def)
  show ?thesis
  proof (cases r)
    case None
    with r(2) dom have "\<not> (\<exists>t. (x, t) \<in> set (recorded b))" by simp
    then have "\<forall>p < length outs. x \<notin> fst ` set (located_traps (locs ! p) (outs ! p))"
      unfolding set_rec by force
    with None r(1) show ?thesis by (intro exI [of _ r]) simp
  next
    case (Some trap)
    with r(3) zip_rec set_rec [of "Some trap"] show ?thesis by (intro exI [of _ r]) (simp add: r(1))
  qed
qed

theorem linked_traps_found_witness:
  "\<exists>t locs b. for_each (link_output True plain_text module_default Map.empty)
      ([], [], \<lparr>tb_offsets = [], tb_traps = [], tb_last_offset = 0\<rparr>)
      [\<lparr>out_key = wasm_function 0, out_function = byte_code 17\<rparr>] = Ok (t, locs, b) \<and>
    lookup_trap_code (code_memory_new (vec_new 0) (tb_offsets b) (tb_traps b)) 5 = Ok None"
proof -
  let ?out = "\<lparr>out_key = wasm_function 0, out_function = byte_code 17\<rparr>"
  have "\<exists>t b. for_each (link_output True plain_text module_default Map.empty)
      ([], [], \<lparr>tb_offsets = [], tb_traps = [], tb_last_offset = 0\<rparr>)
      [?out] = Ok (t, [\<lparr>loc_start = 0, loc_length = 1\<rparr>], b)"
    by (simp add: link_output_def plain_text_def byte_code_def relocations_def Let_def try_into_def
        function_traps_def from_trap_code_def trap_code_defs push_traps_def push_trap_def add_chk_def)
  then obtain t b where l: "for_each (link_output True plain_text module_default Map.empty)
      ([], [], \<lparr>tb_offsets = [], tb_traps = [], tb_last_offset = 0\<rparr>)
      [?out] = Ok (t, [\<lparr>loc_start = 0, loc_length = 1\<rparr>], b)"
    by blast
  have "\<forall>out\<in>set [?out]. traps_in_body (out_function out)" by (simp add: traps_in_body_def byte_code_def)
  from linked_traps_found [OF l plain_text_contract this, of 5 "vec_new 0"]
  have "lookup_trap_code (code_memory_new (vec_new 0) (tb_offsets b) (tb_traps b)) 5 = Ok None"
    by (auto simp: located_traps_def byte_code_def split: option.splits)
  with l show ?thesis by blast
qed

text \<open>C14.
  The registry finds code by program counter: registering code at addresses no other code has
  keeps the regions disjoint and ordered, and afterwards \<open>lookup_code\<close> answers the addresses of
  the new code with that code and the offset in it, and every other address as before. So every
  instruction of a function of the code, at the address \<open>resolve_function_loc\<close> computes, is found
  with its offset in the text section.
\<close>

theorem register_code_lookup:
  assumes "registry_regions r" and "register_code cm r = Ok r'" and "code_text cm = Ok (start, len)"
    and "0 < len" and "region_free start (start + len - 1) r"
  shows "registry_regions r' \<and>
    (\<forall>pc. lookup_code r' pc =
       (if start \<le> pc \<and> pc < start + len then Some (cm, pc - start) else lookup_code r pc)) \<and>
    (\<forall>loc addr k. resolve_function_loc cm loc = Ok addr \<and> addr + loc_length loc < 2 ^ 64 \<and> k < loc_length loc \<longrightarrow>
       lookup_code r' (addr + k) = Some (cm, loc_start loc + k))"
proof -
  define stop where "stop = start + len - 1"
  have stop: "start \<le> stop" "start + len = Suc stop" using assms(4) by (simp_all add: stop_def)
  from assms(2-4) have r': "r' = bt_insert stop (start, cm) r" and none: "map_of r stop = None"
    by (auto simp: register_code_def stop_def)
  have reg: "registry_regions r'" unfolding r'
    using bt_insert_regions [OF assms(1) _ stop(1)] assms(5) by (simp add: stop_def)
  have set_r': "set r' = insert (stop, start, cm) (set r)" by (simp add: r' set_bt_insert [OF none])
  have look: "lookup_code r' pc =
      (if start \<le> pc \<and> pc < start + len then Some (cm, pc - start) else lookup_code r pc)" for pc
  proof (rule option_ext)
    fix v :: "CodeMemory \<times> nat"
    obtain c off where v: "v = (c, off)" by fastforce
    have "\<not> (start \<le> pc \<and> pc < start + len)" if "(stop', start', c) \<in> set r" "start' \<le> pc" "pc \<le> stop'"
      for stop' start' c
      using assms(5) that by (fastforce simp: region_free_def)
    moreover have "lookup_code r' pc = Some (c, off) \<longleftrightarrow> start \<le> pc \<and> pc < start + len \<and> c = cm \<and> off = pc - start \<or>
        (\<exists>start stop. (stop, start, c) \<in> set r \<and> start \<le> pc \<and> pc \<le> stop \<and> off = pc - start)"
      unfolding lookup_code_eq [OF reg] set_r' stop(2) less_Suc_eq_le by auto
    ultimately show "lookup_code r' pc = Some v \<longleftrightarrow>
        (if start \<le> pc \<and> pc < start + len then Some (cm, pc - start) else lookup_code r pc) = Some v"
      by (auto simp: v lookup_code_eq [OF assms(1)])
  qed
  moreover have "lookup_code r' (addr + k) = Some (cm, loc_start loc + k)"
    if "resolve_function_loc cm loc = Ok addr" "addr + loc_length loc < 2 ^ 64" "k < loc_length loc" for loc addr k
  proof -
    from that(1) have "addr = start + loc_start loc" "saturating_add u64_bound addr (loc_length loc) \<le> start + len"
      using assms(3) by (auto simp: resolve_function_loc_def)
    moreover from this(2) that(2) have "addr + loc_length loc \<le> start + len"
      by (simp add: saturating_add_def)
    ultimately show ?thesis using that(3) by (simp add: look)
  qed
  ultimately show ?thesis using reg by blast
qed

definition sample_code :: CodeMemory where
  "sample_code = \<lparr>cm_mmap = \<lparr>mm_ptr = 4096, mm_len = 4096\<rparr>, cm_len = 16, cm_bytes = \<lambda>_. 0,
     cm_published = False, cm_trap_offsets = [], cm_traps = []\<rparr>"

theorem register_code_lookup_witness:
  "\<exists>r'. register_code sample_code [] = Ok r' \<and> lookup_code r' 4103 = Some (sample_code, 7) \<and>
     lookup_code r' 4112 = None"
proof -
  have c: "code_text sample_code = Ok (4096, 16)"
    by (simp add: code_text_def mmap_slice_def sample_code_def)
  have r: "\<exists>r'. register_code sample_code [] = Ok r'"
    by (simp add: register_code_def c add_chk_def)
  then obtain r' where r': "register_code sample_code [] = Ok r'" by blast
  from register_code_lookup [OF _ this c] r' show ?thesis
    by (auto simp: registry_regions_def region_free_def lookup_code_def)
qed

lemma publish_eq:
  assumes "\<not> cm_published cm" and "cm_len cm \<le> mm_len (cm_mmap cm)" and "mm_len (cm_mmap cm) \<noteq> 0"
  shows "publish S cm k = (case os_mprotect S k (mm_ptr (cm_mmap cm)) (cm_len cm) PROT_READ of
      None \<Rightarrow> (Err MmapFailed, k)
    | Some k1 \<Rightarrow> (case os_mprotect S k1 (mm_ptr (cm_mmap cm)) (cm_len cm) PROT_RX of
        None \<Rightarrow> (Err MmapFailed, k1) | Some k2 \<Rightarrow> (Ok (cm\<lparr>cm_published := True\<rparr>), k2)))"
proof -
  have ro: "make_readonly S (cm_mmap cm) 0 (cm_len cm) k1 =
      protect S (mm_ptr (cm_mmap cm)) (cm_len cm) PROT_READ k1"
    and rx: "make_executable S (cm_mmap cm) 0 (cm_len cm) k1 =
      protect S (mm_ptr (cm_mmap cm)) (cm_len cm) PROT_RX k1" for k1
    using assms(2) by (simp_all add: make_readonly_def make_executable_def protect_range_def)
  show ?thesis
    using assms(1,3)
    by (simp add: publish_def io_then_def io_step_def io_of_def io_pure_def Let_def ro rx protect_def
        split: option.splits)
qed

text \<open>What a successful or failed \<open>publish\<close> does to the protections.\<close>

lemma publish_prot:
  assumes "os_contract S" and "\<not> cm_published cm" and "cm_len cm \<le> mm_len (cm_mmap cm)"
    and "mm_len (cm_mmap cm) \<noteq> 0" and "page_aligned S (cm_mmap cm)" and "publish S cm k = (r, k')"
  shows "same_outside S (cm_mmap cm) k k'"
    "prot_at S k x \<noteq> None \<Longrightarrow> prot_at S k' x \<noteq> None"
    "(r = Err MmapFailed \<or> r = Ok (cm\<lparr>cm_published := True\<rparr>) \<and>
        (\<forall>x < cm_len cm. prot_at S k' (mm_ptr (cm_mmap cm) + x) = Some PROT_RX))"
proof -
  let ?m = "cm_mmap cm" and ?p = "host_page_size S"
  have p: "0 < ?p" using assms(1) by (rule os_contract_pos)
  have stop: "mm_ptr ?m + cm_len cm \<le> page_ceil ?p (mm_ptr ?m + cm_len cm)"
    "page_ceil ?p (mm_ptr ?m + cm_len cm) \<le> mm_ptr ?m + mm_len ?m"
    using assms(3-5) p page_ceil_bounds(1) [OF p]
    by (auto intro!: page_ceil_least simp: page_aligned_def mod_eq_0_iff_dvd dvd_add)
  note run = assms(6) [unfolded publish_eq [OF assms(2-4)]]
  note ro = os_mprotect_facts [OF assms(1), of k "mm_ptr ?m" "cm_len cm" PROT_READ]
    and rx = os_mprotect_facts [OF assms(1), of _ "mm_ptr ?m" "cm_len cm" PROT_RX]
  show "same_outside S (cm_mmap cm) k k'"
    using run ro rx stop by (auto simp: same_outside_def split: option.splits)
  show "prot_at S k' x \<noteq> None" if "prot_at S k x \<noteq> None"
    using run that os_mprotect_mapped [OF assms(1)] by (auto split: option.splits)
  show "r = Err MmapFailed \<or> r = Ok (cm\<lparr>cm_published := True\<rparr>) \<and>
      (\<forall>x < cm_len cm. prot_at S k' (mm_ptr (cm_mmap cm) + x) = Some PROT_RX)"
    using run rx stop by (auto split: option.splits)
qed

text \<open>C28.
  Publishing code: on a fresh code memory \<open>publish\<close> never panics and fails only when a system call
  does; when it succeeds every byte of the text section is readable and executable and no longer
  writable, and no byte outside the mapping changes.
\<close>

theorem publish_write_xor_execute:
  assumes "os_contract S" and "\<not> cm_published cm" and "cm_len cm \<le> mm_len (cm_mmap cm)"
    and "mm_ptr (cm_mmap cm) mod host_page_size S = 0" and "mm_len (cm_mmap cm) mod host_page_size S = 0"
  shows "case publish S cm k of
      (Ok cm', k') \<Rightarrow> cm' = cm\<lparr>cm_published := True\<rparr> \<and>
        (\<forall>x < cm_len cm. prot_at S k' (mm_ptr (cm_mmap cm) + x) = Some PROT_RX) \<and>
        same_outside S (cm_mmap cm) k k'
    | (Err e, k') \<Rightarrow> e = MmapFailed
    | (Panic m, k') \<Rightarrow> False"
proof (cases "mm_len (cm_mmap cm) = 0")
  case True
  with assms show ?thesis
    by (simp add: publish_def io_then_def io_pure_def same_outside_def)
next
  case False
  have al: "page_aligned S (cm_mmap cm)" using assms(4,5) by (simp add: page_aligned_def)
  obtain r k' where run: "publish S cm k = (r, k')" by fastforce
  note f = publish_prot [OF assms(1-3) False al run]
  from f(1,3) run show ?thesis by (cases r) auto
qed

theorem publish_write_xor_execute_witness:
  "\<exists>cm' k'. publish bump_os sample_code (8192, \<lambda>_. Some PROT_RW) = (Ok cm', k') \<and>
     prot_at bump_os k' 4100 = Some PROT_RX"
proof -
  have "\<exists>cm' k'. publish bump_os sample_code (8192, \<lambda>_. Some PROT_RW) = (Ok cm', k')"
    by (simp add: publish_def sample_code_def make_readonly_def make_executable_def protect_range_def
        protect_def bump_os_calls page_ceil_def bump_set_def Let_def io_pure_iff)
  then obtain cm' k' where run: "publish bump_os sample_code (8192, \<lambda>_. Some PROT_RW) = (Ok cm', k')" by blast
  have "\<forall>x < cm_len sample_code. prot_at bump_os k' (mm_ptr (cm_mmap sample_code) + x) = Some PROT_RX"
    using publish_write_xor_execute [OF bump_os_contract, of sample_code "(8192, \<lambda>_. Some PROT_RW)"]
    unfolding run by (simp add: sample_code_def)
  then have "prot_at bump_os k' (mm_ptr (cm_mmap sample_code) + 4) = Some PROT_RX"
    by (rule allE [of _ 4]) (simp add: sample_code_def del: bump_os_simps)
  with run show ?thesis by (auto simp: sample_code_def)
qed

end
