(* ===== verification/Engine_Module.thy ===== *)
theory Engine_Module
  imports Type_Registry_Sys Translate Code_Memory
begin

text \<open>
  Compiled modules: \<open>src/src/module.rs\<close> and \<open>src/src/engine.rs\<close>. \<open>from_bytes\<close> runs the whole pipeline
  (translate, compile, link, register the types, map and publish the code, register the code, lay
  out the context) and threads the state the pipeline shares with the rest of the engine: the type
  registry, the kernel's mappings and the registry of code. An error path drops what was built so
  far, in the order of Rust's destructors; the destructor of a type collection may loop, which the
  \<open>option\<close> accounts for. The binary is given as the payloads \<open>wasmparser\<close> finds in it.
\<close>

section \<open>The engine\<close>

record ('v, 's, 'k, 't) Engine =
  eng_validator :: "'v validator_ops"
  eng_compiler :: compiler_ops
  eng_text :: "'t text_ops"
  eng_text_section_builder :: "nat \<Rightarrow> 't"
  eng_pointer_bytes :: nat
  eng_slab :: "'s slab_ops"
  eng_os :: "'k os_ops"
  eng_debug :: bool

record ('s, 'k) world =
  w_registry :: "'s TypeRegistryInner"
  w_kernel :: 'k
  w_code :: code_registry

section \<open>Modules\<close>

record Module =
  m_translated :: TranslatedModule
  m_offsets :: VMOffsets
  m_code :: CodeMemory
  m_type_collection :: RuntimeTypeCollection
  m_function_info :: "CompiledFunctionInfo list"

text \<open>\<open>MmapVec::from_slice\<close>, with the kernel state of its failures: the vector is dropped.\<close>

definition vec_from_slice_io :: "'k os_ops \<Rightarrow> 'a \<Rightarrow> 'a list \<Rightarrow> ('a MmapVec, 'k) io" where
  "vec_from_slice_io S z xs =
     (if xs = [] then io_pure (Ok (vec_new z))
      else io_then (io_pure (round_usize_up_to_host_pages S (length xs)))
        (\<lambda>capacity. io_then (io_of (vec_with_reserved S z capacity))
        (\<lambda>v. io_owning S (vec_mmap v) (\<lambda>k.
           case vec_try_extend_from_slice S xs v k of (r, v', k') \<Rightarrow> (map_ok (\<lambda>_. v') r, k')))))"

definition load_code :: "'k os_ops \<Rightarrow> nat list \<Rightarrow> nat list \<Rightarrow> Trap list \<Rightarrow> (CodeMemory, 'k) io" where
  "load_code S code offs traps =
     io_then (vec_from_slice_io S 0 code)
     (\<lambda>vec. io_owning S (vec_mmap vec) (publish S (code_memory_new vec offs traps)))"

definition compile_module ::
  "('v, 's, 'k, 't) Engine \<Rightarrow> ModuleTranslation \<Rightarrow> ModuleTypes \<Rightarrow>
     (nat list \<times> CompiledFunctionInfo list \<times> nat list \<times> Trap list) result" where
  "compile_module E tr types = (let bodies = function_bodies tr; tr' = tr\<lparr>function_bodies := []\<rparr> in
     and_then (inputs_from_module tr' bodies)
     (\<lambda>inputs. and_then (compile_inputs (eng_compiler E) tr' types inputs)
     (\<lambda>u. link_and_finish (eng_debug E) (eng_text E) (eng_text_section_builder E (length (unl_outputs u)))
        (tr_module tr') u)))"

text \<open>Leave with an error after the types have been registered: their collection is dropped.\<close>

definition fail_dropping_types ::
  "'s slab_ops \<Rightarrow> RuntimeTypeCollection \<Rightarrow> Error \<Rightarrow> ('s, 'k) world \<Rightarrow>
     (Error \<times> ('s, 'k) world, 'a) outcome option" where
  "fail_dropping_types S c e w = (case drop_type_collection S c (w_registry w) of
       None \<Rightarrow> None
     | Some (Ok r) \<Rightarrow> Some (Err (e, w\<lparr>w_registry := r\<rparr>))
     | Some (Err e') \<Rightarrow> Some (Err (e', w))
     | Some (Panic m) \<Rightarrow> Some (Panic m))"

text \<open>
  The second half of \<open>from_bytes\<close>: from the linked code to the module. A panic takes the state with
  it and is not tracked further.
\<close>

definition finish_module ::
  "('v, 's, 'k, 't) Engine \<Rightarrow> TranslatedModule \<Rightarrow> ModuleTypes \<Rightarrow>
     nat list \<times> CompiledFunctionInfo list \<times> nat list \<times> Trap list \<Rightarrow> ('s, 'k) world \<Rightarrow>
     (Error \<times> ('s, 'k) world, Module \<times> ('s, 'k) world) outcome option" where
  "finish_module E m types linked w = (case linked of (code, function_info, trap_offsets, traps) \<Rightarrow>
     case register_module_types (eng_slab E) types (w_registry w) of
       Err e \<Rightarrow> Some (Err (e, w))
     | Panic msg \<Rightarrow> Some (Panic msg)
     | Ok (types', registry) \<Rightarrow> (let w1 = w\<lparr>w_registry := registry\<rparr> in
         case load_code (eng_os E) code trap_offsets traps (w_kernel w1) of
           (Err e, k) \<Rightarrow> fail_dropping_types (eng_slab E) types' e (w1\<lparr>w_kernel := k\<rparr>)
         | (Panic msg, k) \<Rightarrow> Some (Panic msg)
         | (Ok cm, k) \<Rightarrow> Some (
             and_then (case register_code cm (w_code w1) of
                 Ok reg \<Rightarrow> Ok reg | Err e \<Rightarrow> Err (e, w1) | Panic msg \<Rightarrow> Panic msg)
             (\<lambda>reg. and_then (case for_module (eng_pointer_bytes E) m of
                 Ok offsets \<Rightarrow> Ok offsets | Err e \<Rightarrow> Err (e, w1) | Panic msg \<Rightarrow> Panic msg)
             (\<lambda>offsets. Ok (\<lparr>m_translated = m, m_offsets = offsets, m_code = cm,
                 m_type_collection = types', m_function_info = function_info\<rparr>,
                 w1\<lparr>w_kernel := k, w_code := reg\<rparr>))))))"

definition from_bytes ::
  "('v, 's, 'k, 't) Engine \<Rightarrow> 'v \<Rightarrow> Payload result list \<Rightarrow> ('s, 'k) world \<Rightarrow>
     (Error \<times> ('s, 'k) world, Module \<times> ('s, 'k) world) outcome option" where
  "from_bytes E v payloads w =
     (case translate (eng_validator E) v payloads of
        Err e \<Rightarrow> Some (Err (e, w))
      | Panic msg \<Rightarrow> Some (Panic msg)
      | Ok ((tr, types), v') \<Rightarrow> (case compile_module E tr types of
            Err e \<Rightarrow> Some (Err (e, w))
          | Panic msg \<Rightarrow> Some (Panic msg)
          | Ok linked \<Rightarrow> finish_module E (tr_module tr) types linked w))"

text \<open>\<open>get_export\<close>: the first export with the name.\<close>

definition module_get_export :: "Module \<Rightarrow> string \<Rightarrow> EntityIndex option" where
  "module_get_export m name = map_of (mod_exports (m_translated m)) name"

definition module_type_ids :: "Module \<Rightarrow> VMSharedTypeIndex list" where
  "module_type_ids m = type_map (m_type_collection m)"

section \<open>Loading code\<close>

lemma vec_extend_mapped:
  assumes "os_contract S" and "vec_inv S v k" and "vec_try_extend_from_slice S xs v k = (Ok (), v', k')"
    and "extends S (bytes_of (vec_mmap v)) k0 k"
  shows "extends S (bytes_of (vec_mmap v)) k0 k'"
  using assms(3) vec_try_grow_mapped [OF assms(1,2) _ assms(4)]
  by (auto simp: vec_try_extend_from_slice_def split: outcome.splits)

lemma vec_slice_len: "vec_slice v = xs \<Longrightarrow> vec_len v = length xs"
  by (auto simp: vec_slice_def)

text \<open>The vector \<open>from_slice\<close> builds, after the reservation succeeded.\<close>

lemma vec_from_slice_io_cases:
  assumes "os_contract S" and "xs \<noteq> []" and "vec_from_slice_io S z xs k = (r, k')" and "\<not> is_panic r"
  shows "r = Err MmapFailed \<and> k' = k \<or> (\<exists>v k1. vec_with_reserved S z (page_ceil (host_page_size S) (length xs)) k = Ok (v, k1) \<and>
    io_owning S (vec_mmap v) (\<lambda>k. case vec_try_extend_from_slice S xs v k of
      (r, v', k') \<Rightarrow> (map_ok (\<lambda>_. v') r, k')) k1 = (r, k'))"
proof -
  let ?n = "page_ceil (host_page_size S) (length xs)"
  show ?thesis
  proof (cases "round_usize_up_to_host_pages S (length xs)")
    case (Ok n)
    then have n: "n = ?n" using round_usize_Ok_iff [OF os_contract_page [OF assms(1)]] by simp
    show ?thesis
    proof (cases "vec_with_reserved S z ?n k")
      case r: (Ok p)
      with assms(2,3) Ok n show ?thesis
        by (cases p) (simp add: vec_from_slice_io_def io_then_def io_pure_def io_of_def)
    next
      case (Err e)
      then have "e = MmapFailed"
        by (auto simp: vec_with_reserved_def mmap_with_reserve_def map_anonymous_def assert_that_def
            map_ok_def and_then_eq_Err_iff split: if_splits option.splits)
      with assms(2,3) Ok n Err show ?thesis
        by (simp add: vec_from_slice_io_def io_then_def io_pure_def io_of_def)
    next
      case (Panic m)
      with assms(2,3,4) Ok n show ?thesis
        by (auto simp: vec_from_slice_io_def io_then_def io_pure_def io_of_def)
    qed
  next
    case (Err e)
    then show ?thesis
      by (auto simp: round_usize_up_to_host_pages_def round_u64_up_to_host_pages_def try_into_def Let_def
          expect_def assert_that_def and_then_eq_Err_iff split: if_splits option.splits)
  next
    case (Panic m)
    with assms(2,3,4) show ?thesis by (auto simp: vec_from_slice_io_def io_then_def io_pure_def)
  qed
qed

lemma vec_from_slice_io_Ok:
  assumes "os_contract S" and "vec_from_slice_io S z xs k = (Ok v, k')"
  shows "vec_slice v = xs" "page_aligned S (vec_mmap v)"
    "extends S (bytes_of (vec_mmap v)) k k'" "xs \<noteq> [] \<Longrightarrow> mm_len (vec_mmap v) \<noteq> 0"
    "vec_len v \<le> mm_len (vec_mmap v)"
proof -
  have "vec_slice v = xs \<and> page_aligned S (vec_mmap v) \<and> extends S (bytes_of (vec_mmap v)) k k' \<and>
      (xs \<noteq> [] \<longrightarrow> mm_len (vec_mmap v) \<noteq> 0) \<and> vec_len v \<le> mm_len (vec_mmap v)"
  proof (cases "xs = []")
    case True
    with assms(2) show ?thesis
      by (auto simp: vec_from_slice_io_def vec_new_def vec_slice_def mmap_new_empty_def page_aligned_def bytes_of_def)
  next
    case False
    from vec_from_slice_io_cases [OF assms(1) False assms(2)] obtain w k1 where
      w: "vec_with_reserved S z (page_ceil (host_page_size S) (length xs)) k = Ok (w, k1)"
      and ext: "(case vec_try_extend_from_slice S xs w k1 of (r, v', k') \<Rightarrow> (map_ok (\<lambda>_. v') r, k')) = (Ok v, k')"
      by auto
    from ext have e: "vec_try_extend_from_slice S xs w k1 = (Ok (), v, k')" by (auto split: prod.splits)
    note f = vec_with_reserved_Ok [OF assms(1) w] and g = vec_extend_from_slice_facts [OF assms(1) _ e]
    have "extends S (bytes_of (vec_mmap w)) k k'"
      by (rule vec_extend_mapped [OF assms(1) f(1) e vec_with_reserved_region [OF assms(1) w]])
    moreover have "vec_slice w = []" using f(2) by (simp add: vec_slice_def)
    ultimately show ?thesis
      using g [OF f(1)] vec_inv_region [of S v k'] by (auto simp: vec_inv_def Let_def)
  qed
  then show "vec_slice v = xs" "page_aligned S (vec_mmap v)"
    "extends S (bytes_of (vec_mmap v)) k k'" "xs \<noteq> [] \<Longrightarrow> mm_len (vec_mmap v) \<noteq> 0"
    "vec_len v \<le> mm_len (vec_mmap v)"
    by blast+
qed

lemma vec_from_slice_io_Err:
  assumes "os_contract S" and "vec_from_slice_io S z xs k = (Err e, k')"
  shows "prot_at S k' = prot_at S k"
proof (cases "xs = []")
  case True
  with assms(2) show ?thesis by (simp add: vec_from_slice_io_def)
next
  case False
  from vec_from_slice_io_cases [OF assms(1) False assms(2)] consider "k' = k" | w k1 where
    "vec_with_reserved S z (page_ceil (host_page_size S) (length xs)) k = Ok (w, k1)"
    "io_owning S (vec_mmap w) (\<lambda>k. case vec_try_extend_from_slice S xs w k of
       (r, v', k') \<Rightarrow> (map_ok (\<lambda>_. v') r, k')) k1 = (Err e, k')"
    by auto
  then show ?thesis
  proof cases
    case (2 w k1)
    note f = vec_with_reserved_Ok(1) [OF assms(1) 2(1)] vec_with_reserved_region [OF assms(1) 2(1)]
    show ?thesis
      by (rule io_owning_Err [OF assms(1) vec_inv_region [OF f(1)] f(2) _ 2(2)])
        (auto simp: vec_try_extend_from_slice_def split: prod.splits outcome.splits)
  qed simp
qed

lemma load_code_Ok:
  assumes "os_contract S" and "load_code S code offs traps k = (Ok cm, k')"
  shows "cm_published cm" "map (cm_bytes cm) [0..<cm_len cm] = code" "cm_len cm \<le> mm_len (cm_mmap cm)"
    "cm_trap_offsets cm = offs" "cm_traps cm = traps" "extends S (bytes_of (cm_mmap cm)) k k'"
    "x < length code \<Longrightarrow> prot_at S k' (mm_ptr (cm_mmap cm) + x) = Some PROT_RX"
proof -
  from assms(2) obtain vec k1 where v: "vec_from_slice_io S 0 code k = (Ok vec, k1)"
    and pub: "publish S (code_memory_new vec offs traps) k1 = (Ok cm, k')"
    by (auto simp: load_code_def)
  let ?cm = "code_memory_new vec offs traps"
  note f = vec_from_slice_io_Ok [OF assms(1) v]
  have new: "cm_mmap ?cm = vec_mmap vec" "cm_len ?cm = vec_len vec" "cm_bytes ?cm = vec_elems vec"
    "cm_trap_offsets ?cm = offs" "cm_traps ?cm = traps" "\<not> cm_published ?cm"
    by (simp_all add: code_memory_new_def vec_into_parts_def)
  have cm: "cm = ?cm\<lparr>cm_published := True\<rparr>" 
    using pub by (auto simp: publish_def Let_def split: if_splits)
  have len: "vec_len vec = length code" using f(1) by (rule vec_slice_len)
  show "cm_published cm" "map (cm_bytes cm) [0..<cm_len cm] = code" "cm_len cm \<le> mm_len (cm_mmap cm)"
    "cm_trap_offsets cm = offs" "cm_traps cm = traps"
    using f(1,5) by (simp_all add: cm new vec_slice_def)
  have "extends S (bytes_of (cm_mmap cm)) k k' \<and>
    (\<forall>x < length code. prot_at S k' (mm_ptr (cm_mmap cm) + x) = Some PROT_RX)"
  proof (cases "mm_len (vec_mmap vec) = 0")
    case True
    with pub f have "k' = k1" "length code = 0" by (auto simp: publish_def Let_def new)
    with f(3) show ?thesis by (simp add: cm new)
  next
    case False
    note g = publish_prot [OF assms(1) new(6) _ _ _ pub, unfolded new, OF f(5) False f(2)]
    from f(3) g(1,2) have "extends S (bytes_of (vec_mmap vec)) k k'"
      unfolding extends_def same_outside_def bytes_of_def
      by (smt (verit) atLeastLessThan_iff not_le)
    with g(3) len show ?thesis by (simp add: cm new)
  qed
  then show "extends S (bytes_of (cm_mmap cm)) k k'"
    "x < length code \<Longrightarrow> prot_at S k' (mm_ptr (cm_mmap cm) + x) = Some PROT_RX"
    by blast+
qed

lemma load_code_Err:
  assumes "os_contract S" and "load_code S code offs traps k = (Err e, k')"
  shows "prot_at S k' = prot_at S k"
proof -
  consider "vec_from_slice_io S 0 code k = (Err e, k')" | vec k1 where
    "vec_from_slice_io S 0 code k = (Ok vec, k1)"
    "io_owning S (vec_mmap vec) (publish S (code_memory_new vec offs traps)) k1 = (Err e, k')"
    using assms(2) by (auto simp: load_code_def)
  then show ?thesis
  proof cases
    case 1
    then show ?thesis by (rule vec_from_slice_io_Err [OF assms(1)])
  next
    case (2 vec k1)
    let ?cm = "code_memory_new vec offs traps"
    note f = vec_from_slice_io_Ok [OF assms(1) 2(1)]
    have new: "cm_mmap ?cm = vec_mmap vec" "cm_len ?cm = vec_len vec" "\<not> cm_published ?cm"
      by (simp_all add: code_memory_new_def vec_into_parts_def)
    have "\<forall>x. x \<notin> bytes_of (vec_mmap vec) \<longrightarrow> prot_at S k2 x = prot_at S k1 x"
      if "publish S ?cm k1 = (Err e, k2)" for k2
    proof (cases "mm_len (vec_mmap vec) = 0")
      case True
      with that show ?thesis by (simp add: publish_def Let_def new assert_that_def)
    next
      case False
      note g = publish_prot(1) [OF assms(1) new(3) _ _ _ that, unfolded new, OF f(5) False f(2)]
      then show ?thesis by (auto simp: same_outside_def bytes_of_def not_le)
    qed
    then show ?thesis by (rule io_owning_Err [OF assms(1) f(2,3) _ 2(2)])
  qed
qed

section \<open>Locations of the functions of a module\<close>

definition locs_inside :: "nat \<Rightarrow> CompiledFunctionInfo \<Rightarrow> bool" where
  "locs_inside n info \<longleftrightarrow> loc_end (wasm_func_loc info) \<le> n \<and>
     (\<forall>l. host_to_wasm_trampoline info = Some l \<longrightarrow> loc_end l \<le> n)"

lemma compile_module_inside:
  assumes "compile_module E tr types = Ok (code, infos, offs, traps)" and "text_contract (eng_text E) len"
  shows "\<forall>info\<in>set infos. locs_inside (length code) info"
proof -
  let ?tr = "tr\<lparr>function_bodies := []\<rparr>"
  from assms(1) obtain inputs u where inputs: "inputs_from_module ?tr (function_bodies tr) = Ok inputs"
    and u: "compile_inputs (eng_compiler E) ?tr types inputs = Ok u"
    and link: "link_and_finish (eng_debug E) (eng_text E)
      (eng_text_section_builder E (length (unl_outputs u))) (tr_module ?tr) u = Ok (code, infos, offs, traps)"
    by (auto simp: compile_module_def Let_def)
  have keys: "map out_key (unl_outputs u) = keys_upto (tr_module ?tr) (length (function_bodies tr))"
    using compile_keys(1) [OF u] inputs_keys [OF inputs] by simp
  from link_entries [OF keys refl compile_keys(2) [OF u] link assms(2)] obtain locs where
    inside: "\<forall>l\<in>set locs. loc_end l \<le> length code"
    and lens: "map loc_length locs = map (\<lambda>out. length (buffer_data (cf_buffer (out_function out)))) (unl_outputs u)"
    and infos: "list_all2 (\<lambda>e info. snd e < length locs \<and> wasm_func_loc info = locs ! snd e \<and>
      host_to_wasm_trampoline info = map_option (nth locs)
        (map_of (kind_entries (2 ^ 30) (unl_outputs u)) (array_to_wasm_trampoline (key_index (fst e)))))
      (kind_entries 0 (unl_outputs u)) infos"
    by blast
  have n: "length locs = length (unl_outputs u)" using lens by (metis length_map)
  show ?thesis
  proof
    fix info assume "info \<in> set infos"
    then obtain i where i: "i < length infos" "infos ! i = info" by (auto simp: in_set_conv_nth)
    obtain e where "wasm_func_loc info = locs ! snd e" "snd e < length locs"
      "host_to_wasm_trampoline info = map_option (nth locs)
        (map_of (kind_entries (2 ^ 30) (unl_outputs u)) (array_to_wasm_trampoline (key_index (fst e))))"
      using list_all2_nthD2 [OF infos i(1)] i(2) by auto
    moreover have "q < length locs" if "map_of (kind_entries (2 ^ 30) (unl_outputs u)) key = Some q" for key q
      using kind_entries_nth(1) [OF map_of_SomeD [OF that]] n by simp
    ultimately show "locs_inside (length code) info"
      using inside by (auto simp: locs_inside_def)
  qed
qed

text \<open>The contract of a loaded module.\<close>

definition module_loaded :: "('v, 's, 'k, 't) Engine \<Rightarrow> Module \<Rightarrow> 'k \<Rightarrow> bool" where
  "module_loaded E m k \<longleftrightarrow> module_inv (m_translated m) \<and>
     for_module (eng_pointer_bytes E) (m_translated m) = Ok (m_offsets m) \<and>
     set (mod_types (m_translated m)) \<subseteq> {..<length (type_map (m_type_collection m))} \<and>
     cm_published (m_code m) \<and> cm_len (m_code m) \<le> mm_len (cm_mmap (m_code m)) \<and>
     (\<forall>x < cm_len (m_code m). prot_at (eng_os E) k (mm_ptr (cm_mmap (m_code m)) + x) = Some PROT_RX) \<and>
     (\<forall>info\<in>set (m_function_info m). locs_inside (cm_len (m_code m)) info)"

section \<open>Properties\<close>

text \<open>Operations that panic or succeed, but return no error.\<close>

lemma no_Err [simp]:
  "add_chk b x y \<noteq> Err e" "mul_chk b x y \<noteq> Err e" "sub_chk x y \<noteq> Err e" "expect z msg \<noteq> Err e"
  "assert_that c msg \<noteq> Err e"
  by (auto simp: add_chk_def mul_chk_def sub_chk_def expect_def assert_that_def split: option.splits)

lemma register_code_no_Err [simp]: "register_code cm r \<noteq> Err e"
  by (auto simp: register_code_def code_text_def mmap_slice_def and_then_eq_Err_iff split: if_splits)

lemma for_module_no_Err [simp]: "for_module p m \<noteq> Err e"
  by (auto simp: for_module_def Let_def and_then_eq_Err_iff static_offset_defs member_offset_def map_ok_def
      num_defined_tables_def num_defined_memories_def num_defined_globals_def num_tables_def
      num_memories_def num_globals_def split: prod.splits)

lemma finish_module_sound:
  assumes "slab_contract (eng_slab E) ok" and "registry_inv (eng_slab E) ok ext (w_registry w)"
    and "os_contract (eng_os E)" and "module_types_wf types"
    and "slab_len (eng_slab E) (slab_types (w_registry w)) + 3 * length (wasm_types types) < 2 ^ 32"
    and "module_inv m" and "set (mod_types m) \<subseteq> {..<length (wasm_types types)}"
    and "\<forall>info\<in>set infos. locs_inside (length code) info"
  shows "case finish_module E m types (code, infos, offs, traps) w of
      None \<Rightarrow> False
    | Some (Panic msg) \<Rightarrow> True
    | Some (Err (e, w')) \<Rightarrow> registry_inv (eng_slab E) ok ext (w_registry w') \<and>
        prot_at (eng_os E) (w_kernel w') = prot_at (eng_os E) (w_kernel w) \<and> w_code w' = w_code w
    | Some (Ok (md, w')) \<Rightarrow> module_loaded E md (w_kernel w') \<and>
        registry_inv (eng_slab E) ok
          (\<lambda>e. ext e + count_list (collection_rec_groups (m_type_collection md)) e) (w_registry w') \<and>
        extends (eng_os E) (bytes_of (cm_mmap (m_code md))) (w_kernel w) (w_kernel w') \<and>
        register_code (m_code md) (w_code w) = Ok (w_code w')"
proof -
  obtain c r where c: "register_module_types (eng_slab E) types (w_registry w) = Ok (c, r)"
    "registry_inv (eng_slab E) ok (\<lambda>e. ext e + count_list (collection_rec_groups c) e) r"
    "length (type_map c) = length (wasm_types types)"
    using register_module_types_inv [OF assms(1,2,4,5)] by blast
  obtain res k where l: "load_code (eng_os E) code offs traps (w_kernel w) = (res, k)" by fastforce
  show ?thesis
  proof (cases res)
    case (Err e)
    obtain r' where "drop_type_collection (eng_slab E) c r = Some (Ok r')"
      "registry_inv (eng_slab E) ok ext r'"
      using drop_type_collection_inv [OF assms(1) c(2)] by blast
    with Err l c(1) load_code_Err [OF assms(3) l [unfolded Err]] show ?thesis
      by (simp add: finish_module_def fail_dropping_types_def Let_def)
  next
    case (Ok cm)
    note f = load_code_Ok [OF assms(3) l [unfolded Ok]]
    have len: "cm_len cm = length code" using arg_cong [OF f(2), of length] by simp
    have "module_loaded E \<lparr>m_translated = m, m_offsets = v, m_code = cm, m_type_collection = c,
        m_function_info = infos\<rparr> k" if "for_module (eng_pointer_bytes E) m = Ok v" for v
      using f(1,3,7) len assms(6-8) c(3) that by (simp add: module_loaded_def)
    with c f(6) l Ok show ?thesis
      by (auto simp: finish_module_def Let_def and_then_eq_Err_iff split: outcome.splits)
  qed (use l c(1) in \<open>simp add: finish_module_def Let_def\<close>)
qed

text \<open>C11.
  Loading a module is all or nothing. \<open>Module::from_bytes\<close> always terminates; on an error the type
  registry is back at its invariant without the module's registrations, nothing stays mapped and
  no code is registered. On success the module is loaded: its translation is consistent, the
  context layout is the one computed for it, every one of its types has an engine type, all
  its code is mapped executable, every function and trampoline lies inside it, the registry
  counts exactly its registrations, only the code's pages were mapped, and its code is registered.
\<close>

theorem from_bytes_sound:
  assumes "slab_contract (eng_slab E) ok" and "registry_inv (eng_slab E) ok ext (w_registry w)"
    and "os_contract (eng_os E)" and "text_contract (eng_text E) len"
    and "\<forall>tr types v'. translate (eng_validator E) v payloads = Ok ((tr, types), v') \<longrightarrow>
      slab_len (eng_slab E) (slab_types (w_registry w)) + 3 * length (wasm_types types) < 2 ^ 32"
  shows "case from_bytes E v payloads w of
      None \<Rightarrow> False
    | Some (Panic msg) \<Rightarrow> True
    | Some (Err (e, w')) \<Rightarrow> registry_inv (eng_slab E) ok ext (w_registry w') \<and>
        prot_at (eng_os E) (w_kernel w') = prot_at (eng_os E) (w_kernel w) \<and> w_code w' = w_code w
    | Some (Ok (m, w')) \<Rightarrow> module_loaded E m (w_kernel w') \<and>
        registry_inv (eng_slab E) ok
          (\<lambda>e. ext e + count_list (collection_rec_groups (m_type_collection m)) e) (w_registry w') \<and>
        extends (eng_os E) (bytes_of (cm_mmap (m_code m))) (w_kernel w) (w_kernel w') \<and>
        register_code (m_code m) (w_code w) = Ok (w_code w')"
proof (cases "translate (eng_validator E) v payloads")
  case (Ok p)
  obtain tr types v' where p: "p = ((tr, types), v')" using prod.exhaust by metis
  with Ok have t: "translate (eng_validator E) v payloads = Ok ((tr, types), v')" by simp
  then obtain st where "for_each (translate_payload (eng_validator E)) (translator_new (eng_validator E) v) payloads = Ok st"
    "tr = tr_result st" "types = built_types (tr_types st)"
    by (auto simp: translate_def Let_def builder_finish_def)
  with translate_payloads_inv have inv: "module_inv (tr_module tr)" "module_types_wf types"
    "set (mod_types (tr_module tr)) \<subseteq> {..<length (wasm_types types)}"
    by (fastforce simp: translator_inv_def builder_inv_def types_below_def)+
  show ?thesis
  proof (cases "compile_module E tr types")
    case c: (Ok linked)
    obtain code infos offs traps where l: "linked = (code, infos, offs, traps)" by (cases linked)
    have "\<forall>info\<in>set infos. locs_inside (length code) info"
      by (rule compile_module_inside [OF _ assms(4)]) (use c l in simp)
    from finish_module_sound [OF assms(1-3) inv(2) _ inv(1,3) this] assms(5) t show ?thesis
      by (simp add: from_bytes_def c l)
  qed (use t assms(2) in \<open>simp_all add: from_bytes_def\<close>)
qed (use assms(2) in \<open>simp_all add: from_bytes_def\<close>)

definition sample_engine :: "(unit, WasmSubType option list, bump_kernel, nat list) Engine" where
  "sample_engine = \<lparr>eng_validator = accepting_validator, eng_compiler = byte_compiler, eng_text = plain_text,
     eng_text_section_builder = (\<lambda>_. []), eng_pointer_bytes = 8, eng_slab = list_slab_ops,
     eng_os = bump_os, eng_debug = True\<rparr>"

definition fresh_world :: "(WasmSubType option list, bump_kernel) world" where
  "fresh_world = \<lparr>w_registry = registry_default [], w_kernel = (0, \<lambda>_. None), w_code = []\<rparr>"

lemma sample_module_translates:
  "\<exists>tr types. translate accepting_validator () sample_payloads = Ok ((tr, types), ()) \<and>
     length (function_bodies tr) = 1 \<and> num_imported_functions (tr_module tr) = 1 \<and>
     map func_ref (mod_functions (tr_module tr)) = [1, 0] \<and> length (wasm_types types) = 2 \<and>
     (\<exists>v. for_module 8 (tr_module tr) = Ok v)"
  by (simp add: translation_run_defs translate_def num_tables_def num_memories_def num_globals_def
      try_into_def builder_finish_def for_module_def static_offset_defs num_defined_tables_def
      num_defined_memories_def num_defined_globals_def member_offset_def mul_chk_def sub_chk_def)

lemma sample_compiles:
  assumes "length (function_bodies tr) = 1" and "num_imported_functions (tr_module tr) = 1"
    and "map func_ref (mod_functions (tr_module tr)) = [1, 0]"
  shows "\<exists>infos. compile_module sample_engine tr types =
    Ok ([17, 34], infos, [0, 1], [TableOutOfBounds, TableOutOfBounds])"
proof -
  obtain body where b: "function_bodies tr = [body]" using assms(1) by (auto simp: length_Suc_conv)
  obtain f g where fs: "mod_functions (tr_module tr) = [f, g]" "func_ref f = 1" "func_ref g = 0"
    using assms(3) by (auto simp: map_eq_Cons_conv)
  show ?thesis
    by (simp add: compile_module_def sample_engine_def Let_def b fs assms(2)
      inputs_from_module_def inputs_of_function_def func_index_def add_chk_def is_escaping_def
      reserved_value_def compile_inputs_def byte_compiler_def compile_required_builtin_trampolines_def
      builtins_of_def relocations_def byte_code_def index_output_def link_and_finish_def link_output_def
      plain_text_def try_into_def function_traps_def from_trap_code_def trap_code_defs push_traps_def
      push_trap_def info_of_function_def from_u32_def)
qed

lemma sample_loads:
  "\<exists>cm k. load_code bump_os [17, 34] offs traps (0, \<lambda>_. None) = (Ok cm, k) \<and>
     (\<exists>r. register_code cm [] = Ok r)"
  using is_power_of_two_4096
  by (simp add: load_code_def vec_from_slice_io_def round_usize_up_to_host_pages_def round_u64_eq
      vec_with_reserved_def mmap_with_reserve_def map_anonymous_def vec_accessible_def assert_that_def
      usize_is_multiple_of_host_page_size_def page_ceil_def vec_try_extend_from_slice_def
      vec_try_grow_def make_accessible_def protect_def bump_os_calls bump_mmap_def bump_set_def
      add_chk_def Let_def try_into_def io_then_def io_pure_def io_of_def io_owning_def io_step_def
      publish_def code_memory_new_def vec_into_parts_def make_readonly_def make_executable_def
      protect_range_def register_code_def code_text_def mmap_slice_def)

theorem from_bytes_sound_witness:
  "\<exists>m w'. from_bytes sample_engine () sample_payloads fresh_world = Some (Ok (m, w')) \<and>
     module_loaded sample_engine m (w_kernel w')"
proof -
  obtain tr types v where t: "translate accepting_validator () sample_payloads = Ok ((tr, types), ())"
    and facts: "length (function_bodies tr) = 1" "num_imported_functions (tr_module tr) = 1"
      "map func_ref (mod_functions (tr_module tr)) = [1, 0]"
    and n: "length (wasm_types types) = 2" and off: "for_module 8 (tr_module tr) = Ok v"
    using sample_module_translates by (elim exE conjE) (rule that)
  have bound: "\<forall>tr types v'. translate (eng_validator sample_engine) () sample_payloads = Ok ((tr, types), v') \<longrightarrow>
      slab_len (eng_slab sample_engine) (slab_types (w_registry fresh_world)) + 3 * length (wasm_types types) < 2 ^ 32"
    using t n by (simp add: sample_engine_def fresh_world_def registry_default_def list_slab_ops_def)
  note sound = from_bytes_sound [of sample_engine "\<lambda>_. True" "\<lambda>_. 0" fresh_world length "()" sample_payloads]
  obtain infos where c: "compile_module sample_engine tr types =
      Ok ([17, 34], infos, [0, 1], [TableOutOfBounds, TableOutOfBounds])"
    using sample_compiles [OF facts] by blast
  obtain cm k r where l: "load_code bump_os [17, 34] [0, 1] [TableOutOfBounds, TableOutOfBounds] (0, \<lambda>_. None) = (Ok cm, k)"
    "register_code cm [] = Ok r"
    using sample_loads by blast
  have "module_types_wf types"
    using t translate_payloads_inv
    by (fastforce simp: translate_def Let_def builder_finish_def translator_inv_def builder_inv_def)
  with register_module_types_inv [OF list_slab_contract list_registry_inv this] n
  obtain tc reg where "register_module_types list_slab_ops types (registry_default []) = Ok (tc, reg)"
    by (auto simp: registry_default_def list_slab_ops_def)
  with t c l off have run: "\<exists>m w'. from_bytes sample_engine () sample_payloads fresh_world = Some (Ok (m, w'))"
    by (simp add: from_bytes_def finish_module_def sample_engine_def fresh_world_def)
  then obtain m w' where "from_bytes sample_engine () sample_payloads fresh_world = Some (Ok (m, w'))" by blast
  with sound bound list_slab_contract list_registry_inv bump_os_contract plain_text_contract show ?thesis
    by (simp add: sample_engine_def fresh_world_def)
qed

end
