(* ===== verification/Vm_Instance.thy ===== *)
theory Vm_Instance
  imports Engine_Module
begin

text \<open>
  Instances: \<open>src/src/runtime/instance.rs\<close> and the export and import records of
  \<open>src/src/runtime/mod.rs\<close>. The context is raw memory; what is stored in it is kept as typed cells by
  offset, and a write removes every cell it overlaps, so that a read after initialization shows that
  no later write reached the field. Addresses the host chooses (the builtin array, the
  type-id array of a module) are parameters.
\<close>

section \<open>Cells of a context\<close>

fun cell_size :: "vm_cell \<Rightarrow> nat" where
  "cell_size (MagicCell _) = 4"
| "cell_size (PtrCell _) = 8"
| "cell_size (FuncRefCell _) = u32_size_of VMFuncRef"
| "cell_size (FunctionImportCell _) = u32_size_of VMFunctionImport"
| "cell_size (TableImportCell _) = u32_size_of VMTableImport"
| "cell_size (MemoryImportCell _) = u32_size_of VMMemoryImport"
| "cell_size (GlobalImportCell _) = u32_size_of VMGlobalImport"
| "cell_size (TableCell _) = u32_size_of VMTableDefinition"
| "cell_size (MemoryCell _) = u32_size_of VMMemoryDefinition"
| "cell_size (GlobalCell _) = u32_size_of VMGlobalDefinition"

text \<open>\<open>*vmctx.plus_offset_mut(off) = value\<close>.\<close>

definition ctx_write :: "OwnedVMContext \<Rightarrow> nat \<Rightarrow> vm_cell \<Rightarrow> OwnedVMContext" where
  "ctx_write ctx off c = ctx\<lparr>ctx_cells := \<lambda>x.
     if x = off then Some c
     else (case ctx_cells ctx x of
         None \<Rightarrow> None
       | Some d \<Rightarrow> if x + cell_size d \<le> off \<or> off + cell_size c \<le> x then Some d else None)\<rparr>"

text \<open>A typed read; what was never stored there cannot be read.\<close>

definition ctx_read :: "(vm_cell \<Rightarrow> 'a option) \<Rightarrow> OwnedVMContext \<Rightarrow> nat \<Rightarrow> 'a result" where
  "ctx_read view ctx off = expect (Option.bind (ctx_cells ctx off) view) ''read of an uninitialised field''"

section \<open>Imports and exports\<close>

record Imports =
  imp_functions :: "VMFunctionImportValue list"
  imp_tables :: "VMImportValue list"
  imp_memories :: "VMImportValue list"
  imp_globals :: "VMImportValue list"

definition imports_default :: Imports where
  "imports_default = \<lparr>imp_functions = [], imp_tables = [], imp_memories = [], imp_globals = []\<rparr>"

record ExportedTable =
  et_definition :: nat
  et_vmctx :: nat
  et_table :: TableDesc

record ExportedMemory =
  em_definition :: nat
  em_vmctx :: nat
  em_memory :: MemoryDesc

record ExportedGlobal =
  eg_definition :: nat
  eg_vmctx :: nat
  eg_ty :: GlobalDesc

text \<open>An exported function is the non-null address of its \<open>VMFuncRef\<close>.\<close>

datatype Export =
    Export_Function nat
  | Export_Table ExportedTable
  | Export_Memory ExportedMemory
  | Export_Global ExportedGlobal

text \<open>Handles into a store, as instances cache them.\<close>

datatype Extern = Extern_Func nat | Extern_Table nat | Extern_Memory nat | Extern_Global nat

record Instance =
  in_module :: Module
  in_vmctx :: OwnedVMContext
  in_tables :: "Table list"
  in_memories :: "Memory list"
  in_dropped_elems :: "ElemIndex set"
  in_dropped_data :: "DataIndex set"
  in_exports :: "Extern option list"

section \<open>Initialization of the context\<close>

record host_addresses =
  builtin_functions_addr :: nat
  type_ids_addr :: "VMSharedTypeIndex list \<Rightarrow> nat"

definition VMCONTEXT_MAGIC :: nat where
  "VMCONTEXT_MAGIC = from_le_bytes (map of_char ''vmcx'')"

definition NonNull :: "nat \<Rightarrow> nat result" where
  "NonNull a = expect (if a = 0 then None else Some a) ''called `Option::unwrap()` on a `None` value''"

definition shared_type_of :: "Module \<Rightarrow> FunctionDesc \<Rightarrow> VMSharedTypeIndex result" where
  "shared_type_of m func =
     and_then (pm_index (mod_types (m_translated m)) (signature func))
     (\<lambda>index. expect (lookup_shared_type (m_type_collection m) index)
        ''called `Option::unwrap()` on a `None` value'')"

text \<open>The \<open>VMFuncRef\<close> of an escaping function, defined or imported.\<close>

definition func_ref_value ::
  "Module \<Rightarrow> Imports \<Rightarrow> nat \<Rightarrow> FuncIndex \<Rightarrow> FunctionDesc \<Rightarrow> VMFuncRefValue result" where
  "func_ref_value m imports vmctx index func =
     (case defined_func_index (m_translated m) index of
        Some def_index \<Rightarrow>
          and_then (pm_index (m_function_info m) def_index)
          (\<lambda>info. and_then (expect (host_to_wasm_trampoline info) ''escaping function requires trampoline'')
          (\<lambda>array_call. and_then (resolve_function_loc (m_code m) array_call)
          (\<lambda>array_addr. and_then (and_then (resolve_function_loc (m_code m) (wasm_func_loc info)) NonNull)
          (\<lambda>wasm_addr. and_then (shared_type_of m func)
          (\<lambda>ty. Ok \<lparr>fr_array_call = array_addr, fr_wasm_call = wasm_addr, fr_vmctx = vmctx,
              fr_type_index = ty\<rparr>)))))
      | None \<Rightarrow>
          and_then (pm_index (imp_functions imports) index)
          (\<lambda>import. and_then (shared_type_of m func)
          (\<lambda>ty. Ok \<lparr>fr_array_call = fi_array_call import, fr_wasm_call = fi_wasm_call import,
              fr_vmctx = fi_vmctx import, fr_type_index = ty\<rparr>)))"

definition init_func_ref ::
  "Module \<Rightarrow> Imports \<Rightarrow> OwnedVMContext \<Rightarrow> FuncIndex \<times> FunctionDesc \<Rightarrow> OwnedVMContext result" where
  "init_func_ref m imports ctx entry = (case entry of (index, func) \<Rightarrow>
     and_then (func_ref_value m imports (vmctx_as_ptr ctx) index func)
     (\<lambda>v. and_then (vmctx_vmfunc_ref (m_offsets m) (func_ref func))
     (\<lambda>off. Ok (ctx_write ctx off (FuncRefCell v)))))"

definition initialize_vmfunc_refs :: "Module \<Rightarrow> Imports \<Rightarrow> OwnedVMContext \<Rightarrow> OwnedVMContext result" where
  "initialize_vmfunc_refs m imports ctx = for_each (init_func_ref m imports) ctx
     (filter (\<lambda>(index, f). is_escaping f) (enumerate 0 (mod_functions (m_translated m))))"

text \<open>\<open>ptr::copy_nonoverlapping\<close> into an array of the context: no bound is checked.\<close>

definition copy_cells ::
  "nat \<Rightarrow> vm_struct \<Rightarrow> ('a \<Rightarrow> vm_cell) \<Rightarrow> 'a list \<Rightarrow> OwnedVMContext \<Rightarrow> OwnedVMContext" where
  "copy_cells start kind mk xs ctx =
     foldl (\<lambda>ctx (i, x). ctx_write ctx (start + i * u32_size_of kind) (mk x)) ctx (enumerate 0 xs)"

definition init_table :: "Module \<Rightarrow> Table list \<Rightarrow> OwnedVMContext \<Rightarrow> TableIndex \<Rightarrow> OwnedVMContext result" where
  "init_table m ts ctx index = (case defined_table_index (m_translated m) index of
       None \<Rightarrow> Ok ctx
     | Some def_index \<Rightarrow>
         and_then (vmctx_vmtable_definition (m_offsets m) def_index)
         (\<lambda>off. and_then (pm_index ts def_index)
         (\<lambda>t. Ok (ctx_write ctx off (TableCell (as_vmtable_definition t))))))"

definition init_memory ::
  "Module \<Rightarrow> Memory list \<Rightarrow> OwnedVMContext \<Rightarrow> MemoryIndex \<times> MemoryDesc \<Rightarrow> OwnedVMContext result" where
  "init_memory m ms ctx entry = (case entry of (index, plan) \<Rightarrow>
     case defined_memory_index (m_translated m) index of
       None \<Rightarrow> Ok ctx
     | Some def_index \<Rightarrow>
         and_then (assert_that (\<not> memory_shared plan) ''shared memories are not currently supported'')
         (\<lambda>_. and_then (vmctx_vmmemory_definition (m_offsets m) def_index)
         (\<lambda>off. and_then (pm_index ms def_index)
         (\<lambda>mem. Ok (ctx_write ctx off (MemoryCell (as_vmmemory_definition mem)))))))"

definition init_global ::
  "Module \<Rightarrow> VMVal list \<times> OwnedVMContext \<Rightarrow> DefinedGlobalIndex \<times> ConstExpr \<Rightarrow>
     (VMVal list \<times> OwnedVMContext) result" where
  "init_global m st entry = (case (st, entry) of ((const_eval_stack, ctx), (def_index, init_expr)) \<Rightarrow>
     and_then (const_eval const_eval_stack init_expr)
     (\<lambda>(val, stack). and_then (vmctx_vmglobal_definition (m_offsets m) def_index)
     (\<lambda>off. Ok (stack, ctx_write ctx off (GlobalCell (global_from_vmval val))))))"

text \<open>The static fields of the context.\<close>

definition init_static_fields :: "host_addresses \<Rightarrow> Module \<Rightarrow> OwnedVMContext \<Rightarrow> OwnedVMContext result" where
  "init_static_fields H m ctx =
     and_then (vmctx_magic (static_offsets (m_offsets m)))
     (\<lambda>off. let ctx1 = ctx_write ctx off (MagicCell VMCONTEXT_MAGIC) in
      and_then (vmctx_builtin_functions (static_offsets (m_offsets m)))
     (\<lambda>off. let ctx2 = ctx_write ctx1 off (PtrCell (builtin_functions_addr H)) in
      and_then (vmctx_type_ids (static_offsets (m_offsets m)))
     (\<lambda>off. Ok (ctx_write ctx2 off (PtrCell (type_ids_addr H (module_type_ids m)))))))"

definition copy_imports :: "Module \<Rightarrow> Imports \<Rightarrow> OwnedVMContext \<Rightarrow> OwnedVMContext" where
  "copy_imports m imports ctx =
     copy_cells (vo_imported_globals (m_offsets m)) VMGlobalImport GlobalImportCell (imp_globals imports)
    (copy_cells (vo_imported_memories (m_offsets m)) VMMemoryImport MemoryImportCell (imp_memories imports)
    (copy_cells (vo_imported_tables (m_offsets m)) VMTableImport TableImportCell (imp_tables imports)
    (copy_cells (vo_imported_functions (m_offsets m)) VMFunctionImport FunctionImportCell (imp_functions imports)
       ctx)))"

definition initialize_vmctx ::
  "host_addresses \<Rightarrow> Module \<Rightarrow> Imports \<Rightarrow> Table list \<Rightarrow> Memory list \<Rightarrow> VMVal list \<Rightarrow> OwnedVMContext \<Rightarrow>
     (VMVal list \<times> OwnedVMContext) result" where
  "initialize_vmctx H m imports ts ms stack ctx =
     and_then (init_static_fields H m ctx)
     (\<lambda>ctx1. and_then (initialize_vmfunc_refs m imports ctx1)
     (\<lambda>ctx2. and_then (for_each (init_table m ts) (copy_imports m imports ctx2)
                 [0..<length (tables (m_translated m))])
     (\<lambda>ctx3. and_then (for_each (init_memory m ms) ctx3 (enumerate 0 (memories (m_translated m))))
     (\<lambda>ctx4. for_each (init_global m) (stack, ctx4)
        (enumerate 0 (global_initializers (m_translated m)))))))"

section \<open>Initialization of tables and memories\<close>

text \<open>\<open>slice.fill(val)\<close> and \<open>slice[offset..offset + src.len()].copy_from_slice(src)\<close>.\<close>

definition vec_fill :: "'a \<Rightarrow> 'a MmapVec \<Rightarrow> 'a MmapVec" where
  "vec_fill x v = v\<lparr>vec_elems := \<lambda>i. if i < vec_len v then x else vec_elems v i\<rparr>"

definition overwrite :: "nat \<Rightarrow> nat \<Rightarrow> 'a list \<Rightarrow> (nat \<Rightarrow> 'a) \<Rightarrow> (nat \<Rightarrow> 'a) result" where
  "overwrite len offset xs f =
     and_then (add_chk u64_bound offset (length xs))
     (\<lambda>stop. and_then (assert_that (stop \<le> len) ''range end index out of range for slice'')
     (\<lambda>_. Ok (\<lambda>i. if offset \<le> i \<and> i < stop then xs ! (i - offset) else f i)))"

definition initial_value :: "VMVal list \<Rightarrow> TableInitialValue \<Rightarrow> (nat option \<times> VMVal list) result" where
  "initial_value stack init = (case init of
       TI_RefNull \<Rightarrow> Ok (None, stack)
     | TI_ConstExpr expr \<Rightarrow> and_then (const_eval stack expr)
         (\<lambda>(v, stack'). and_then (and_then (get_funcref v) NonNull) (\<lambda>p. Ok (Some p, stack'))))"

definition apply_initial_value ::
  "VMVal list \<times> Table list \<Rightarrow> DefinedTableIndex \<times> TableInitialValue \<Rightarrow> (VMVal list \<times> Table list) result" where
  "apply_initial_value st entry = (case (st, entry) of ((stack, ts), (def_index, init)) \<Rightarrow>
     and_then (initial_value stack init)
     (\<lambda>(val, stack'). and_then (pm_index ts def_index)
     (\<lambda>t. Ok (stack', ts[def_index := t\<lparr>tab_elements := vec_fill val (tab_elements t)\<rparr>]))))"

definition segment_element :: "VMVal list \<times> nat option list \<Rightarrow> ConstExpr \<Rightarrow> (VMVal list \<times> nat option list) result" where
  "segment_element st expr = (case st of (stack, xs) \<Rightarrow>
     and_then (const_eval stack expr)
     (\<lambda>(v, stack'). and_then (and_then (get_funcref v) NonNull) (\<lambda>p. Ok (stack', xs @ [Some p]))))"

definition segment_values ::
  "VMVal list \<Rightarrow> TableSegmentElements \<Rightarrow> (VMVal list \<times> nat option list) result" where
  "segment_values stack elements = (case elements of
       Functions funcs \<Rightarrow> Panic ''not yet implemented''
     | Expressions exprs \<Rightarrow> for_each segment_element (stack, []) exprs)"

definition eval_offset :: "VMVal list \<Rightarrow> ConstExpr \<Rightarrow> (nat \<times> VMVal list) result" where
  "eval_offset stack expr =
     and_then (const_eval stack expr)
     (\<lambda>(v, stack'). and_then (get_u64 v)
     (\<lambda>n. and_then (expect (try_into u64_bound n) ''called `Result::unwrap()` on an `Err` value'')
     (\<lambda>offset. Ok (offset, stack'))))"

definition apply_table_segment ::
  "Module \<Rightarrow> VMVal list \<times> Table list \<Rightarrow> TableSegment \<Rightarrow> (VMVal list \<times> Table list) result" where
  "apply_table_segment m st segment = (case st of (stack, ts) \<Rightarrow>
     and_then (segment_values stack (segment_elements segment))
     (\<lambda>(stack1, elements). and_then (eval_offset stack1 (segment_offset segment))
     (\<lambda>(offset, stack2). case defined_table_index (m_translated m) (segment_table_index segment) of
         None \<Rightarrow> Panic ''not yet implemented: initializing imported table''
       | Some def_index \<Rightarrow> and_then (pm_index ts def_index)
           (\<lambda>t. and_then (overwrite (vec_len (tab_elements t)) offset elements (vec_elems (tab_elements t)))
           (\<lambda>f. Ok (stack2, ts[def_index := t\<lparr>tab_elements := (tab_elements t)\<lparr>vec_elems := f\<rparr>\<rparr>]))))))"

definition initialize_tables :: "Module \<Rightarrow> VMVal list \<Rightarrow> Table list \<Rightarrow> (VMVal list \<times> Table list) result" where
  "initialize_tables m stack ts = (let init = table_initializers (m_translated m) in
     and_then (for_each apply_initial_value (stack, ts) (enumerate 0 (initial_values init)))
     (\<lambda>st. for_each (apply_table_segment m) st (segments init)))"

definition apply_memory_segment ::
  "Module \<Rightarrow> VMVal list \<times> Memory list \<Rightarrow> MemoryInitializer \<Rightarrow> (VMVal list \<times> Memory list) result" where
  "apply_memory_segment m st init = (case st of (stack, ms) \<Rightarrow>
     and_then (eval_offset stack (init_offset init))
     (\<lambda>(offset, stack'). case defined_memory_index (m_translated m) (init_memory_index init) of
         None \<Rightarrow> Panic ''not yet implemented: initializing imported table''
       | Some def_index \<Rightarrow> and_then (pm_index ms def_index)
           (\<lambda>mem. and_then (memory_as_slice mem)
           (\<lambda>bytes. and_then (overwrite (length bytes) offset (init_data init) (mem_bytes mem))
           (\<lambda>f. Ok (stack', ms[def_index := mem\<lparr>mem_bytes := f\<rparr>]))))))"

definition initialize_memories :: "Module \<Rightarrow> VMVal list \<Rightarrow> Memory list \<Rightarrow> (VMVal list \<times> Memory list) result" where
  "initialize_memories m stack ms =
     for_each (apply_memory_segment m) (stack, ms) (memory_initializers (m_translated m))"

section \<open>Instances\<close>

text \<open>What initialization computes from the allocated resources; it touches no kernel state.\<close>

definition initialize_instance ::
  "host_addresses \<Rightarrow> Module \<Rightarrow> Imports \<Rightarrow> VMVal list \<Rightarrow> OwnedVMContext \<Rightarrow> Table list \<Rightarrow> Memory list \<Rightarrow>
     (Instance \<times> VMVal list) result" where
  "initialize_instance H m imports stack ctx ts ms =
     and_then (initialize_vmctx H m imports ts ms stack ctx)
     (\<lambda>(stack1, ctx'). and_then (initialize_tables m stack1 ts)
     (\<lambda>(stack2, ts'). and_then (initialize_memories m stack2 ms)
     (\<lambda>(stack3, ms'). Ok (\<lparr>in_module = m, in_vmctx = ctx', in_tables = ts', in_memories = ms',
          in_dropped_elems = active_table_initializers (m_translated m),
          in_dropped_data = active_memory_initializers (m_translated m),
          in_exports = replicate (length (mod_exports (m_translated m))) None\<rparr>, stack3))))"

text \<open>
  Leaving early drops the locals in reverse order of their declaration: memories, tables, context.
\<close>

definition drop_resources ::
  "'k os_ops \<Rightarrow> OwnedVMContext \<Rightarrow> Table list \<Rightarrow> Memory list \<Rightarrow> (unit, 'k) io" where
  "drop_resources S ctx ts ms =
     io_then (deallocate_all (\<lambda>_ m. io_step (drop_mmap S (mem_mmap m))) (enumerate 0 ms))
     (\<lambda>_. io_then (deallocate_all (\<lambda>_ t. io_step (drop_mmap S (vec_mmap (tab_elements t)))) (enumerate 0 ts))
     (\<lambda>_. io_step (drop_mmap S (vec_mmap (ctx_vec ctx)))))"

definition instance_new_unchecked ::
  "'k os_ops \<Rightarrow> 'k allocator_ops \<Rightarrow> host_addresses \<Rightarrow> Module \<Rightarrow> Imports \<Rightarrow> VMVal list \<Rightarrow>
     (Instance \<times> VMVal list, 'k) io" where
  "instance_new_unchecked S A H m imports stack =
     io_then (allocate_module A (m_translated m) (m_offsets m))
     (\<lambda>(ctx, ts, ms) k. case initialize_instance H m imports stack ctx ts ms of
         Ok r \<Rightarrow> (Ok r, k)
       | Err e \<Rightarrow> io_then (drop_resources S ctx ts ms) (\<lambda>_. io_pure (Err e)) k
       | Panic msg \<Rightarrow> io_then (drop_resources S ctx ts ms) (\<lambda>_. io_pure (Panic msg)) k)"

section \<open>Accessors\<close>

definition get_func_ref :: "Instance \<Rightarrow> FuncIndex \<Rightarrow> nat option result" where
  "get_func_ref inst index =
     (if index = reserved_value then Ok None
      else and_then (pm_index (mod_functions (m_translated (in_module inst))) index)
        (\<lambda>func. and_then (vmctx_vmfunc_ref (m_offsets (in_module inst)) (func_ref func))
        (\<lambda>off. Ok (Some (plus_offset (in_vmctx inst) off)))))"

definition get_exported_func :: "Instance \<Rightarrow> FuncIndex \<Rightarrow> nat result" where
  "get_exported_func inst index =
     and_then (get_func_ref inst index)
     (\<lambda>r. and_then (expect r ''called `Option::unwrap()` on a `None` value'') NonNull)"

definition imported_function :: "Instance \<Rightarrow> FuncIndex \<Rightarrow> VMFunctionImportValue result" where
  "imported_function inst index =
     and_then (vmctx_vmfunction_import (m_offsets (in_module inst)) index)
       (ctx_read (\<lambda>c. case c of FunctionImportCell v \<Rightarrow> Some v | _ \<Rightarrow> None) (in_vmctx inst))"

definition imported_table :: "Instance \<Rightarrow> TableIndex \<Rightarrow> VMImportValue result" where
  "imported_table inst index =
     and_then (vmctx_vmtable_import (m_offsets (in_module inst)) index)
       (ctx_read (\<lambda>c. case c of TableImportCell v \<Rightarrow> Some v | _ \<Rightarrow> None) (in_vmctx inst))"

definition imported_memory :: "Instance \<Rightarrow> MemoryIndex \<Rightarrow> VMImportValue result" where
  "imported_memory inst index =
     and_then (vmctx_vmmemory_import (m_offsets (in_module inst)) index)
       (ctx_read (\<lambda>c. case c of MemoryImportCell v \<Rightarrow> Some v | _ \<Rightarrow> None) (in_vmctx inst))"

definition imported_global :: "Instance \<Rightarrow> GlobalIndex \<Rightarrow> VMImportValue result" where
  "imported_global inst index =
     and_then (vmctx_vmglobal_import (m_offsets (in_module inst)) index)
       (ctx_read (\<lambda>c. case c of GlobalImportCell v \<Rightarrow> Some v | _ \<Rightarrow> None) (in_vmctx inst))"

definition table_ptr :: "Instance \<Rightarrow> DefinedTableIndex \<Rightarrow> nat result" where
  "table_ptr inst index =
     map_ok (plus_offset (in_vmctx inst)) (vmctx_vmtable_definition (m_offsets (in_module inst)) index)"

definition memory_ptr :: "Instance \<Rightarrow> DefinedMemoryIndex \<Rightarrow> nat result" where
  "memory_ptr inst index =
     map_ok (plus_offset (in_vmctx inst)) (vmctx_vmmemory_definition (m_offsets (in_module inst)) index)"

definition global_ptr :: "Instance \<Rightarrow> DefinedGlobalIndex \<Rightarrow> nat result" where
  "global_ptr inst index =
     map_ok (plus_offset (in_vmctx inst)) (vmctx_vmglobal_definition (m_offsets (in_module inst)) index)"

text \<open>The definition and context of an entity: its own for a defined one, the import's otherwise.\<close>

definition entity_pointers ::
  "Instance \<Rightarrow> nat option \<Rightarrow> (nat \<Rightarrow> nat result) \<Rightarrow> VMImportValue result \<Rightarrow> (nat \<times> nat) result" where
  "entity_pointers inst def ptr import = (case def of
       Some def_index \<Rightarrow> map_ok (\<lambda>p. (p, vmctx_as_ptr (in_vmctx inst))) (ptr def_index)
     | None \<Rightarrow> map_ok (\<lambda>i. (im_from i, im_vmctx i)) import)"

definition get_exported_table :: "Instance \<Rightarrow> TableIndex \<Rightarrow> ExportedTable result" where
  "get_exported_table inst index = (let m = m_translated (in_module inst) in
     and_then (entity_pointers inst (defined_table_index m index) (table_ptr inst) (imported_table inst index))
     (\<lambda>(definition, vmctx). and_then (pm_index (tables m) index)
     (\<lambda>t. Ok \<lparr>et_definition = definition, et_vmctx = vmctx, et_table = t\<rparr>)))"

definition get_exported_memory :: "Instance \<Rightarrow> MemoryIndex \<Rightarrow> ExportedMemory result" where
  "get_exported_memory inst index = (let m = m_translated (in_module inst) in
     and_then (entity_pointers inst (defined_memory_index m index) (memory_ptr inst) (imported_memory inst index))
     (\<lambda>(definition, vmctx). and_then (pm_index (memories m) index)
     (\<lambda>t. Ok \<lparr>em_definition = definition, em_vmctx = vmctx, em_memory = t\<rparr>)))"

definition get_exported_global :: "Instance \<Rightarrow> GlobalIndex \<Rightarrow> ExportedGlobal result" where
  "get_exported_global inst index = (let m = m_translated (in_module inst) in
     and_then (entity_pointers inst (defined_global_index m index) (global_ptr inst) (imported_global inst index))
     (\<lambda>(definition, vmctx). and_then (pm_index (globals m) index)
     (\<lambda>t. Ok \<lparr>eg_definition = definition, eg_vmctx = vmctx, eg_ty = t\<rparr>)))"

definition get_export_by_index :: "Instance \<Rightarrow> EntityIndex \<Rightarrow> Export result" where
  "get_export_by_index inst index = (case index of
       Function i \<Rightarrow> map_ok Export_Function (get_exported_func inst i)
     | Global i \<Rightarrow> map_ok Export_Global (get_exported_global inst i)
     | Table i \<Rightarrow> map_ok Export_Table (get_exported_table inst i)
     | Memory i \<Rightarrow> map_ok Export_Memory (get_exported_memory inst i)
     | Tag i \<Rightarrow> Panic ''not yet implemented'')"

text \<open>The debugging views: the static fields and the arrays of the context.\<close>

definition instance_magic :: "Instance \<Rightarrow> nat result" where
  "instance_magic inst =
     and_then (vmctx_magic (static_offsets (m_offsets (in_module inst))))
       (ctx_read (\<lambda>c. case c of MagicCell v \<Rightarrow> Some v | _ \<Rightarrow> None) (in_vmctx inst))"

definition read_array ::
  "(vm_cell \<Rightarrow> 'a option) \<Rightarrow> OwnedVMContext \<Rightarrow> nat \<Rightarrow> vm_struct \<Rightarrow> nat \<Rightarrow> 'a list result" where
  "read_array view ctx start kind n =
     collect (\<lambda>i. ctx_read view ctx (start + i * u32_size_of kind)) [0..<n]"

definition vmctx_table_definitions :: "Instance \<Rightarrow> VMTableDefinitionValue list result" where
  "vmctx_table_definitions inst =
     and_then (num_defined_tables (m_translated (in_module inst)))
       (read_array (\<lambda>c. case c of TableCell v \<Rightarrow> Some v | _ \<Rightarrow> None) (in_vmctx inst)
          (vo_tables (m_offsets (in_module inst))) VMTableDefinition)"

definition vmctx_memory_definitions :: "Instance \<Rightarrow> VMMemoryDefinitionValue list result" where
  "vmctx_memory_definitions inst =
     and_then (num_defined_memories (m_translated (in_module inst)))
       (read_array (\<lambda>c. case c of MemoryCell v \<Rightarrow> Some v | _ \<Rightarrow> None) (in_vmctx inst)
          (vo_memories (m_offsets (in_module inst))) VMMemoryDefinition)"

definition vmctx_global_definitions :: "Instance \<Rightarrow> VMVal list result" where
  "vmctx_global_definitions inst =
     and_then (num_defined_globals (m_translated (in_module inst)))
       (read_array (\<lambda>c. case c of GlobalCell v \<Rightarrow> Some v | _ \<Rightarrow> None) (in_vmctx inst)
          (vo_globals (m_offsets (in_module inst))) VMGlobalDefinition)"

definition vmctx_func_refs :: "Instance \<Rightarrow> VMFuncRefValue list result" where
  "vmctx_func_refs inst =
     read_array (\<lambda>c. case c of FuncRefCell v \<Rightarrow> Some v | _ \<Rightarrow> None) (in_vmctx inst)
       (vo_func_refs (m_offsets (in_module inst))) VMFuncRef (num_escaped_functions (m_translated (in_module inst)))"

definition vmctx_function_imports :: "Instance \<Rightarrow> VMFunctionImportValue list result" where
  "vmctx_function_imports inst =
     read_array (\<lambda>c. case c of FunctionImportCell v \<Rightarrow> Some v | _ \<Rightarrow> None) (in_vmctx inst)
       (vo_imported_functions (m_offsets (in_module inst))) VMFunctionImport
       (num_imported_functions (m_translated (in_module inst)))"

definition vmctx_table_imports :: "Instance \<Rightarrow> VMImportValue list result" where
  "vmctx_table_imports inst =
     read_array (\<lambda>c. case c of TableImportCell v \<Rightarrow> Some v | _ \<Rightarrow> None) (in_vmctx inst)
       (vo_imported_tables (m_offsets (in_module inst))) VMTableImport
       (num_imported_tables (m_translated (in_module inst)))"

definition vmctx_memory_imports :: "Instance \<Rightarrow> VMImportValue list result" where
  "vmctx_memory_imports inst =
     read_array (\<lambda>c. case c of MemoryImportCell v \<Rightarrow> Some v | _ \<Rightarrow> None) (in_vmctx inst)
       (vo_imported_memories (m_offsets (in_module inst))) VMMemoryImport
       (num_imported_memories (m_translated (in_module inst)))"

definition vmctx_global_imports :: "Instance \<Rightarrow> VMImportValue list result" where
  "vmctx_global_imports inst =
     read_array (\<lambda>c. case c of GlobalImportCell v \<Rightarrow> Some v | _ \<Rightarrow> None) (in_vmctx inst)
       (vo_imported_globals (m_offsets (in_module inst))) VMGlobalImport
       (num_imported_globals (m_translated (in_module inst)))"

section \<open>Slots of a context\<close>

text \<open>
  The fields of a context on a 64-bit target: seven static words and the elements of the arrays.
  \<open>holds\<close> says that the given fields hold the given values.
\<close>

datatype slot = Static nat | Elem vm_struct nat

fun slot_off :: "VMOffsets \<Rightarrow> slot \<Rightarrow> nat" where
  "slot_off v (Static n) = 8 * n"
| "slot_off v (Elem k i) = array_start v k + i * u32_size_of k"

fun slot_size :: "slot \<Rightarrow> nat" where
  "slot_size (Static n) = 8"
| "slot_size (Elem k i) = u32_size_of k"

fun slot_ok :: "VMOffsets \<Rightarrow> slot \<Rightarrow> bool" where
  "slot_ok v (Static n) \<longleftrightarrow> n < 7"
| "slot_ok v (Elem k i) \<longleftrightarrow> i < array_count v k"

definition holds :: "VMOffsets \<Rightarrow> (slot \<Rightarrow> vm_cell option) \<Rightarrow> OwnedVMContext \<Rightarrow> bool" where
  "holds v M ctx \<longleftrightarrow> (\<forall>s c. M s = Some c \<longrightarrow>
     slot_ok v s \<and> cell_size c \<le> slot_size s \<and> ctx_cells ctx (slot_off v s) = Some c)"

lemma elem_inside:
  assumes "i < array_count v k"
  shows "slot_off v (Elem k i) + slot_size (Elem k i) \<le> array_end v k"
proof -
  have "Suc i * u32_size_of k \<le> array_count v k * u32_size_of k"
    using assms by (intro mult_le_mono1) simp
  then show ?thesis by (simp add: array_end_def mult.commute)
qed

lemma elem_before:
  assumes "i < j"
  shows "slot_off v (Elem k i) + slot_size (Elem k i) \<le> slot_off v (Elem k j)"
proof -
  have "Suc i * u32_size_of k \<le> j * u32_size_of k" using assms by (intro mult_le_mono1) simp
  then show ?thesis by simp
qed

lemma slots_disjoint:
  assumes v: "for_module 8 m = Ok v" and "slot_ok v s" and "slot_ok v t" and "s \<noteq> t"
  shows "slot_off v s + slot_size s \<le> slot_off v t \<or> slot_off v t + slot_size t \<le> slot_off v s"
proof -
  have static: "slot_off v (Static n) + slot_size (Static n) \<le> slot_off v (Elem k i)" if "n < 7" for n k i
    using for_module_array_bounds(1) [OF v, of k] that by simp
  have elem: "slot_off v (Elem k i) + slot_size (Elem k i) \<le> slot_off v (Elem k' j)"
    if "array_rank k < array_rank k'" "i < array_count v k" for k i k' j
    using elem_inside [OF that(2)] for_module_order [OF v that(1)] by simp
  show ?thesis
  proof (cases s)
    case s: (Static a)
    show ?thesis
    proof (cases t)
      case (Static b)
      with s assms(4) have "a < b \<or> b < a" by auto
      then show ?thesis using s Static by auto
    next
      case (Elem k i)
      show ?thesis using static [of a k i] assms(2) unfolding s Elem by simp
    qed
  next
    case s: (Elem k i)
    show ?thesis
    proof (cases t)
      case (Static b)
      show ?thesis using static [of b k i] assms(3) unfolding s Static by simp
    next
      case t: (Elem k' j)
      consider "k = k'" "i < j" | "k = k'" "j < i" | "array_rank k < array_rank k'" | "array_rank k' < array_rank k"
        using assms(4) s t array_rank_inj by (metis linorder_neqE_nat)
      then show ?thesis
        using elem_before [of i j v k] elem_before [of j i v k] elem [of k k' i j] elem [of k' k j i]
          assms(2,3) unfolding s t by cases auto
    qed
  qed
qed

lemma holds_write:
  assumes v: "for_module 8 m = Ok v" and "holds v M ctx" and s: "slot_ok v s" "cell_size c \<le> slot_size s"
    and off: "off = slot_off v s"
  shows "holds v (M(s \<mapsto> c)) (ctx_write ctx off c)"
  unfolding holds_def
proof (intro allI impI)
  fix t d
  assume t: "(M(s \<mapsto> c)) t = Some d"
  show "slot_ok v t \<and> cell_size d \<le> slot_size t \<and> ctx_cells (ctx_write ctx off c) (slot_off v t) = Some d"
  proof (cases "t = s")
    case True
    with t s off show ?thesis by (simp add: ctx_write_def)
  next
    case False
    with t assms(2) have d: "slot_ok v t" "cell_size d \<le> slot_size t" "ctx_cells ctx (slot_off v t) = Some d"
      by (auto simp: holds_def)
    from slots_disjoint [OF v s(1) d(1)] False
    have "slot_off v t + cell_size d \<le> off \<or> off + cell_size c \<le> slot_off v t"
      using s(2) d(2) off by auto
    moreover have "0 < cell_size c" "0 < cell_size d" by (cases c; simp) (cases d; simp)
    ultimately show ?thesis using d by (auto simp: ctx_write_def)
  qed
qed

lemma ctx_write_ptr [simp]: "vmctx_as_ptr (ctx_write ctx off c) = vmctx_as_ptr ctx"
  by (simp add: ctx_write_def vmctx_as_ptr_def)

lemma holds_weaken: "holds v M ctx \<Longrightarrow> M' \<subseteq>\<^sub>m M \<Longrightarrow> holds v M' ctx"
  unfolding holds_def map_le_def by (metis domI)

text \<open>Copying an array of values into an array of the context.\<close>

definition copied :: "vm_struct \<Rightarrow> ('a \<Rightarrow> vm_cell) \<Rightarrow> 'a list \<Rightarrow> slot \<Rightarrow> vm_cell option" where
  "copied k mk xs s = (case s of Elem k' i \<Rightarrow> if k' = k \<and> i < length xs then Some (mk (xs ! i)) else None
     | Static n \<Rightarrow> None)"

lemma holds_copy_cells:
  assumes v: "for_module 8 m = Ok v" and "holds v M ctx" and "length xs \<le> array_count v k"
    and "\<And>x. cell_size (mk x) = u32_size_of k"
  shows "holds v (M ++ copied k mk xs) (copy_cells (array_start v k) k mk xs ctx)"
  using assms(3)
proof (induction xs rule: rev_induct)
  case Nil
  have "copied k mk [] = Map.empty" by (rule ext) (simp add: copied_def split: slot.splits)
  with assms(2) show ?case by (simp add: copy_cells_def)
next
  case (snoc x xs)
  have "copied k mk (xs @ [x]) = (copied k mk xs)(Elem k (length xs) \<mapsto> mk x)"
    by (rule ext) (auto simp: copied_def nth_append split: slot.splits)
  then have M: "M ++ copied k mk (xs @ [x]) = (M ++ copied k mk xs)(Elem k (length xs) \<mapsto> mk x)" by simp
  have c: "copy_cells (array_start v k) k mk (xs @ [x]) ctx =
      ctx_write (copy_cells (array_start v k) k mk xs ctx) (slot_off v (Elem k (length xs))) (mk x)"
    by (simp add: copy_cells_def enumerate_append_eq)
  show ?case
    unfolding M c by (rule holds_write [OF v snoc.IH]) (use snoc.prems assms(4) in simp_all)
qed

lemma copy_cells_ptr [simp]: "vmctx_as_ptr (copy_cells a k mk xs ctx) = vmctx_as_ptr ctx"
proof -
  have "vmctx_as_ptr (foldl (\<lambda>ctx (i, x). ctx_write ctx (a + i * u32_size_of k) (mk x)) ctx es) = vmctx_as_ptr ctx" for es
    by (induction es arbitrary: ctx) auto
  then show ?thesis by (simp add: copy_cells_def)
qed

text \<open>
  A loop whose steps each fill at most one element of an array: after it every element that was to be
  filled holds an acceptable value, and all other fields are as before. \<open>J\<close> is what the loop keeps
  of its state.
\<close>

lemma array_loop_holds:
  fixes ctx_of :: "'st \<Rightarrow> OwnedVMContext"
  assumes v: "for_module 8 m = Ok v" and "for_each step st xs = Ok st'"
    and "holds v M (ctx_of st)" and "J st" and "distinct xs"
    and inj: "\<And>x y. x \<in> set xs \<Longrightarrow> y \<in> set xs \<Longrightarrow> idx x = idx y \<Longrightarrow> idx x \<noteq> None \<Longrightarrow> x = y"
    and step: "\<And>st x st'. x \<in> set xs \<Longrightarrow> step st x = Ok st' \<Longrightarrow> J st \<Longrightarrow> J st' \<and>
      (case idx x of None \<Rightarrow> ctx_of st' = ctx_of st
       | Some i \<Rightarrow> \<exists>c. ctx_of st' = ctx_write (ctx_of st) (array_start v k + i * u32_size_of k) c \<and>
           i < array_count v k \<and> cell_size c \<le> u32_size_of k \<and> cell_ok x c)"
  shows "\<exists>M'. holds v M' (ctx_of st') \<and> J st' \<and> (\<forall>s. (\<forall>i. s \<noteq> Elem k i) \<longrightarrow> M' s = M s) \<and>
    (\<forall>x\<in>set xs. \<forall>i. idx x = Some i \<longrightarrow> (\<exists>c. M' (Elem k i) = Some c \<and> cell_ok x c))"
proof -
  define filled where "filled ys = {Elem k i | i x. x \<in> set ys \<and> idx x = Some i}" for ys
  have "\<exists>M'. holds v M' (ctx_of st') \<and> J st' \<and> (\<forall>s. s \<notin> filled ys \<longrightarrow> M' s = M s) \<and>
    (\<forall>x\<in>set ys. \<forall>i. idx x = Some i \<longrightarrow> (\<exists>c. M' (Elem k i) = Some c \<and> cell_ok x c))"
    if "for_each step st ys = Ok st'" "holds v M (ctx_of st)" "J st" "distinct ys" "set ys \<subseteq> set xs"
    for st M ys
    using that
  proof (induction ys arbitrary: st M)
    case (Cons x ys)
    from Cons.prems(1) obtain st1 where one: "step st x = Ok st1" and rest: "for_each step st1 ys = Ok st'"
      by auto
    have x: "J st1" "case idx x of None \<Rightarrow> ctx_of st1 = ctx_of st
       | Some i \<Rightarrow> \<exists>c. ctx_of st1 = ctx_write (ctx_of st) (array_start v k + i * u32_size_of k) c \<and>
           i < array_count v k \<and> cell_size c \<le> u32_size_of k \<and> cell_ok x c"
      using step [of x st st1] one Cons.prems(3,5) by simp_all
    have ys: "distinct ys" "set ys \<subseteq> set xs" using Cons.prems(4,5) by auto
    show ?case
    proof (cases "idx x")
      case None
      with x(2) have "holds v M (ctx_of st1)" using Cons.prems(2) by simp
      moreover have "filled (x # ys) = filled ys" using None by (auto simp: filled_def)
      ultimately show ?thesis using Cons.IH [OF rest _ x(1) ys, of M] None by simp
    next
      case (Some i)
      with x obtain c where c: "ctx_of st1 = ctx_write (ctx_of st) (slot_off v (Elem k i)) c"
        "slot_ok v (Elem k i)" "cell_size c \<le> slot_size (Elem k i)" "cell_ok x c"
        by auto
      have h: "holds v (M(Elem k i \<mapsto> c)) (ctx_of st1)"
        unfolding c(1) by (rule holds_write [OF v Cons.prems(2) c(2,3) refl])
      from Cons.IH [OF rest h x(1) ys] obtain M' where
        M': "holds v M' (ctx_of st')" "J st'" "\<forall>s. s \<notin> filled ys \<longrightarrow> M' s = (M(Elem k i \<mapsto> c)) s"
          "\<forall>x\<in>set ys. \<forall>i. idx x = Some i \<longrightarrow> (\<exists>c. M' (Elem k i) = Some c \<and> cell_ok x c)"
        by blast
      have "idx y \<noteq> Some i" if "y \<in> set ys" for y
        using Cons.prems(4,5) inj [of x y] Some that by auto
      then have "M' (Elem k i) = Some c" using M'(3) by (auto simp: filled_def)
      moreover have "filled (x # ys) = insert (Elem k i) (filled ys)" using Some by (auto simp: filled_def)
      then have "M' s = M s" if "s \<notin> filled (x # ys)" for s using M'(3) that by simp
      ultimately show ?thesis using M' c(4) Some by (intro exI [of _ M']) auto
    qed
  qed (auto simp: filled_def)
  from this [OF assms(2-5) subset_refl] obtain M' where M': "holds v M' (ctx_of st')" "J st'"
    "\<And>s. s \<notin> filled xs \<Longrightarrow> M' s = M s"
    "\<forall>x\<in>set xs. \<forall>i. idx x = Some i \<longrightarrow> (\<exists>c. M' (Elem k i) = Some c \<and> cell_ok x c)"
    by blast
  have "M' s = M s" if "\<forall>i. s \<noteq> Elem k i" for s by (rule M'(3)) (use that in \<open>auto simp: filled_def\<close>)
  with M' show ?thesis by blast
qed

lemma distinct_map_filter_nth:
  assumes "distinct (map f (filter P xs))" and "i < j" and "j < length xs" and "P (xs ! i)" and "P (xs ! j)"
  shows "f (xs ! i) \<noteq> f (xs ! j)"
proof -
  have "xs = take j xs @ xs ! j # drop (Suc j) xs" using assms(3) by (rule id_take_nth_drop)
  then have "filter P xs = filter P (take j xs) @ xs ! j # filter P (drop (Suc j) xs)"
    using assms(5) by (metis filter.simps(2) filter_append)
  with assms(1) have "f (xs ! j) \<notin> f ` set (filter P (take j xs))" by auto
  moreover have "xs ! i \<in> set (filter P (take j xs))"
    using assms(2-4) by (auto simp: in_set_conv_nth intro!: exI [of _ i])
  ultimately show ?thesis by (metis imageI)
qed

text \<open>The function references of the escaping functions.\<close>

lemma vmfunc_refs_hold:
  assumes v: "for_module 8 (m_translated m) = Ok (m_offsets m)" and "holds (m_offsets m) M ctx"
    and "vmctx_as_ptr ctx = p" and "initialize_vmfunc_refs m imports ctx = Ok ctx'"
    and "escaped_wf (m_translated m)"
  shows "\<exists>M'. holds (m_offsets m) M' ctx' \<and> vmctx_as_ptr ctx' = p \<and>
    (\<forall>s. (\<forall>i. s \<noteq> Elem VMFuncRef i) \<longrightarrow> M' s = M s) \<and>
    (\<forall>i < length (mod_functions (m_translated m)). is_escaping (mod_functions (m_translated m) ! i) \<longrightarrow>
      (\<exists>r. func_ref_value m imports p i (mod_functions (m_translated m) ! i) = Ok r \<and>
         M' (Elem VMFuncRef (func_ref (mod_functions (m_translated m) ! i))) = Some (FuncRefCell r)))"
proof -
  let ?fs = "mod_functions (m_translated m)" and ?v = "m_offsets m"
  let ?xs = "filter (\<lambda>(index, f). is_escaping f) (enumerate 0 ?fs)"
  have mem: "x \<in> set ?xs \<longleftrightarrow> fst x < length ?fs \<and> ?fs ! fst x = snd x \<and> is_escaping (snd x)" for x
    by (auto simp: in_set_enumerate_eq)
  have "distinct (map func_ref (filter is_escaping ?fs))"
    using assms(5) by (simp add: escaped_wf_def escaped_refs_def)
  then have same: "i = j" if "i < length ?fs" "j < length ?fs" "is_escaping (?fs ! i)" "is_escaping (?fs ! j)"
    "func_ref (?fs ! i) = func_ref (?fs ! j)" for i j
    using distinct_map_filter_nth [of func_ref is_escaping ?fs i j]
      distinct_map_filter_nth [of func_ref is_escaping ?fs j i] that
    by (metis linorder_neqE_nat)
  have "\<exists>M'. holds ?v M' ctx' \<and> vmctx_as_ptr ctx' = p \<and> (\<forall>s. (\<forall>i. s \<noteq> Elem VMFuncRef i) \<longrightarrow> M' s = M s) \<and>
    (\<forall>x\<in>set ?xs. \<forall>i. Some (func_ref (snd x)) = Some i \<longrightarrow> (\<exists>c. M' (Elem VMFuncRef i) = Some c \<and>
       (\<exists>r. func_ref_value m imports p (fst x) (snd x) = Ok r \<and> c = FuncRefCell r)))"
  proof (rule array_loop_holds [where ctx_of = "\<lambda>c. c" and J = "\<lambda>c. vmctx_as_ptr c = p",
      OF v assms(4) [unfolded initialize_vmfunc_refs_def] assms(2,3)])
    show "x = y" if "x \<in> set ?xs" "y \<in> set ?xs" "Some (func_ref (snd x)) = Some (func_ref (snd y))" for x y
      using that(1,2) [unfolded mem] that(3) same [of "fst x" "fst y"] by (auto simp: prod_eq_iff)
  qed (use func_ref_array.accessor_Ok_iff [OF for_module_array_bounds(3) [OF v]] in
      \<open>auto simp: init_func_ref_def case_prod_unfold\<close>)
  then obtain M' where M': "holds ?v M' ctx'" "vmctx_as_ptr ctx' = p"
    "\<forall>s. (\<forall>i. s \<noteq> Elem VMFuncRef i) \<longrightarrow> M' s = M s"
    "\<forall>x\<in>set ?xs. \<exists>c. M' (Elem VMFuncRef (func_ref (snd x))) = Some c \<and>
       (\<exists>r. func_ref_value m imports p (fst x) (snd x) = Ok r \<and> c = FuncRefCell r)"
    by blast
  then show ?thesis using mem by (intro exI [of _ M']) fastforce
qed

text \<open>The tables, memories and globals the module defines.\<close>

lemma tables_hold:
  assumes v: "for_module 8 (m_translated m) = Ok (m_offsets m)" and "holds (m_offsets m) M ctx"
    and "vmctx_as_ptr ctx = p"
    and "for_each (init_table m ts) ctx [0..<length (tables (m_translated m))] = Ok ctx'"
  shows "\<exists>M'. holds (m_offsets m) M' ctx' \<and> vmctx_as_ptr ctx' = p \<and>
    (\<forall>s. (\<forall>i. s \<noteq> Elem VMTableDefinition i) \<longrightarrow> M' s = M s) \<and>
    (\<forall>i. num_imported_tables (m_translated m) + i < length (tables (m_translated m)) \<longrightarrow> i < length ts \<and>
       M' (Elem VMTableDefinition i) = Some (TableCell (as_vmtable_definition (ts ! i))))"
proof -
  let ?v = "m_offsets m" and ?t = "m_translated m" and ?xs = "[0..<length (tables (m_translated m))]"
  have "\<exists>M'. holds ?v M' ctx' \<and> vmctx_as_ptr ctx' = p \<and> (\<forall>s. (\<forall>i. s \<noteq> Elem VMTableDefinition i) \<longrightarrow> M' s = M s) \<and>
    (\<forall>x\<in>set ?xs. \<forall>i. defined_table_index ?t x = Some i \<longrightarrow> (\<exists>c. M' (Elem VMTableDefinition i) = Some c \<and>
       (\<forall>j. x = num_imported_tables ?t + j \<longrightarrow> j < length ts \<and> c = TableCell (as_vmtable_definition (ts ! j)))))"
  proof (rule array_loop_holds [where ctx_of = "\<lambda>c. c" and J = "\<lambda>c. vmctx_as_ptr c = p", OF v assms(4,2,3)])
    show "x = y" if "defined_table_index ?t x = defined_table_index ?t y" "defined_table_index ?t x \<noteq> None" for x y
      using that by (auto simp: defined_table_index_def is_imported_table_def split: if_splits)
  qed (use table_array.accessor_Ok_iff [OF for_module_array_bounds(3) [OF v]] in
      \<open>auto simp: init_table_def defined_table_index_def split: if_splits\<close>)
  then obtain M' where M': "holds ?v M' ctx'" "vmctx_as_ptr ctx' = p"
    "\<forall>s. (\<forall>i. s \<noteq> Elem VMTableDefinition i) \<longrightarrow> M' s = M s"
    "\<forall>x\<in>set ?xs. \<forall>i. defined_table_index ?t x = Some i \<longrightarrow> (\<exists>c. M' (Elem VMTableDefinition i) = Some c \<and>
       (\<forall>j. x = num_imported_tables ?t + j \<longrightarrow> j < length ts \<and> c = TableCell (as_vmtable_definition (ts ! j))))"
    by blast
  have "defined_table_index ?t (num_imported_tables ?t + i) = Some i" for i
    by (simp add: defined_table_index_def is_imported_table_def)
  with M' show ?thesis by (intro exI [of _ M']) fastforce
qed

lemma memories_hold:
  assumes v: "for_module 8 (m_translated m) = Ok (m_offsets m)" and "holds (m_offsets m) M ctx"
    and "vmctx_as_ptr ctx = p"
    and "for_each (init_memory m ms) ctx (enumerate 0 (memories (m_translated m))) = Ok ctx'"
  shows "\<exists>M'. holds (m_offsets m) M' ctx' \<and> vmctx_as_ptr ctx' = p \<and>
    (\<forall>s. (\<forall>i. s \<noteq> Elem VMMemoryDefinition i) \<longrightarrow> M' s = M s) \<and>
    (\<forall>i. num_imported_memories (m_translated m) + i < length (memories (m_translated m)) \<longrightarrow> i < length ms \<and>
       M' (Elem VMMemoryDefinition i) = Some (MemoryCell (as_vmmemory_definition (ms ! i))))"
proof -
  let ?v = "m_offsets m" and ?t = "m_translated m" and ?xs = "enumerate 0 (memories (m_translated m))"
  have "\<exists>M'. holds ?v M' ctx' \<and> vmctx_as_ptr ctx' = p \<and> (\<forall>s. (\<forall>i. s \<noteq> Elem VMMemoryDefinition i) \<longrightarrow> M' s = M s) \<and>
    (\<forall>x\<in>set ?xs. \<forall>i. defined_memory_index ?t (fst x) = Some i \<longrightarrow> (\<exists>c. M' (Elem VMMemoryDefinition i) = Some c \<and>
       (\<forall>j. fst x = num_imported_memories ?t + j \<longrightarrow> j < length ms \<and> c = MemoryCell (as_vmmemory_definition (ms ! j)))))"
  proof (rule array_loop_holds [where ctx_of = "\<lambda>c. c" and J = "\<lambda>c. vmctx_as_ptr c = p", OF v assms(4,2,3)])
    show "x = y" if "x \<in> set ?xs" "y \<in> set ?xs" "defined_memory_index ?t (fst x) = defined_memory_index ?t (fst y)"
      "defined_memory_index ?t (fst x) \<noteq> None" for x y
    proof -
      have "fst x = fst y"
        using that(3,4) by (auto simp: defined_memory_index_def is_imported_memory_def split: if_splits)
      with that(1,2) show ?thesis by (auto simp: in_set_enumerate_eq prod_eq_iff)
    qed
  qed (use memory_array.accessor_Ok_iff [OF for_module_array_bounds(3) [OF v]] in
      \<open>auto simp: init_memory_def defined_memory_index_def split: if_splits\<close>)
  then obtain M' where M': "holds ?v M' ctx'" "vmctx_as_ptr ctx' = p"
    "\<forall>s. (\<forall>i. s \<noteq> Elem VMMemoryDefinition i) \<longrightarrow> M' s = M s"
    "\<forall>x\<in>set ?xs. \<forall>i. defined_memory_index ?t (fst x) = Some i \<longrightarrow> (\<exists>c. M' (Elem VMMemoryDefinition i) = Some c \<and>
       (\<forall>j. fst x = num_imported_memories ?t + j \<longrightarrow> j < length ms \<and> c = MemoryCell (as_vmmemory_definition (ms ! j))))"
    by blast
  have "i < length ms \<and> M' (Elem VMMemoryDefinition i) = Some (MemoryCell (as_vmmemory_definition (ms ! i)))"
    if "num_imported_memories ?t + i < length (memories ?t)" for i
  proof -
    let ?j = "num_imported_memories ?t + i"
    have "(?j, memories ?t ! ?j) \<in> set ?xs" using that by (simp add: in_set_enumerate_eq)
    moreover have "defined_memory_index ?t ?j = Some i"
      by (simp add: defined_memory_index_def is_imported_memory_def)
    ultimately show ?thesis using M'(4) by fastforce
  qed
  with M' show ?thesis by (intro exI [of _ M']) blast
qed

lemma const_eval_stack: "const_eval st e = Ok (v, st') \<Longrightarrow> st' = []"
  by (auto simp: const_eval_def length_Suc_conv)

lemma globals_hold:
  assumes v: "for_module 8 (m_translated m) = Ok (m_offsets m)" and "holds (m_offsets m) M ctx"
    and "vmctx_as_ptr ctx = p"
    and "for_each (init_global m) ([], ctx) (enumerate 0 (global_initializers (m_translated m))) = Ok (stack, ctx')"
  shows "\<exists>M'. holds (m_offsets m) M' ctx' \<and> vmctx_as_ptr ctx' = p \<and> stack = [] \<and>
    (\<forall>s. (\<forall>i. s \<noteq> Elem VMGlobalDefinition i) \<longrightarrow> M' s = M s) \<and>
    (\<forall>i < length (global_initializers (m_translated m)).
       \<exists>val. const_eval [] (global_initializers (m_translated m) ! i) = Ok (val, []) \<and>
         M' (Elem VMGlobalDefinition i) = Some (GlobalCell val))"
proof -
  let ?v = "m_offsets m" and ?t = "m_translated m" and ?xs = "enumerate 0 (global_initializers (m_translated m))"
  have "\<exists>M'. holds ?v M' (snd (stack, ctx')) \<and> (vmctx_as_ptr (snd (stack, ctx')) = p \<and> fst (stack, ctx') = []) \<and>
    (\<forall>s. (\<forall>i. s \<noteq> Elem VMGlobalDefinition i) \<longrightarrow> M' s = M s) \<and>
    (\<forall>x\<in>set ?xs. \<forall>i. Some (fst x) = Some i \<longrightarrow> (\<exists>c. M' (Elem VMGlobalDefinition i) = Some c \<and>
       (\<exists>val. const_eval [] (snd x) = Ok (val, []) \<and> c = GlobalCell val)))"
  proof (rule array_loop_holds [where J = "\<lambda>st. vmctx_as_ptr (snd st) = p \<and> fst st = []", OF v assms(4)])
    show "x = y" if "x \<in> set ?xs" "y \<in> set ?xs" "Some (fst x) = Some (fst y)" for x y
      using that by (auto simp: in_set_enumerate_eq prod_eq_iff)
  qed (use assms(2,3) global_array.accessor_Ok_iff [OF for_module_array_bounds(3) [OF v]] in
      \<open>auto simp: init_global_def case_prod_unfold global_from_vmval_def dest: const_eval_stack\<close>)
  then obtain M' where M': "holds ?v M' ctx'" "vmctx_as_ptr ctx' = p" "stack = []"
    "\<forall>s. (\<forall>i. s \<noteq> Elem VMGlobalDefinition i) \<longrightarrow> M' s = M s"
    "\<forall>x\<in>set ?xs. \<exists>val. const_eval [] (snd x) = Ok (val, []) \<and> M' (Elem VMGlobalDefinition (fst x)) = Some (GlobalCell val)"
    by (elim exE conjE) (rule that; fastforce)
  have "\<exists>val. const_eval [] (global_initializers ?t ! i) = Ok (val, []) \<and> M' (Elem VMGlobalDefinition i) = Some (GlobalCell val)"
    if "i < length (global_initializers ?t)" for i
    using M'(5) [rule_format, of "(i, global_initializers ?t ! i)"] that by (simp add: in_set_enumerate_eq)
  with M' show ?thesis by blast
qed

lemma for_module_static: "for_module p m = Ok v \<Longrightarrow> static_offsets v = \<lparr>ptr_size = p\<rparr>"
  by (auto simp: for_module_def Let_def)

lemma static_fields_hold:
  assumes v: "for_module 8 (m_translated m) = Ok (m_offsets m)" and "init_static_fields H m ctx = Ok ctx'"
  shows "holds (m_offsets m) [Static 0 \<mapsto> MagicCell VMCONTEXT_MAGIC,
      Static 1 \<mapsto> PtrCell (builtin_functions_addr H),
      Static 2 \<mapsto> PtrCell (type_ids_addr H (module_type_ids m))] ctx' \<and> vmctx_as_ptr ctx' = vmctx_as_ptr ctx"
proof -
  let ?v = "m_offsets m"
  have s: "static_offsets ?v = \<lparr>ptr_size = 8\<rparr>" using v by (rule for_module_static)
  have "holds ?v Map.empty ctx" by (simp add: holds_def)
  then have "holds ?v [Static 0 \<mapsto> MagicCell VMCONTEXT_MAGIC,
      Static 1 \<mapsto> PtrCell (builtin_functions_addr H),
      Static 2 \<mapsto> PtrCell (type_ids_addr H (module_type_ids m))]
    (ctx_write (ctx_write (ctx_write ctx 0 (MagicCell VMCONTEXT_MAGIC)) 8 (PtrCell (builtin_functions_addr H)))
      16 (PtrCell (type_ids_addr H (module_type_ids m))))"
    by (intro holds_write [OF v]) simp_all
  with assms(2) show ?thesis by (auto simp: init_static_fields_def static_offset_defs s)
qed

definition imports_match :: "Module \<Rightarrow> Imports \<Rightarrow> bool" where
  "imports_match m i \<longleftrightarrow>
     length (imp_functions i) = num_imported_functions (m_translated m) \<and>
     length (imp_tables i) = num_imported_tables (m_translated m) \<and>
     length (imp_memories i) = num_imported_memories (m_translated m) \<and>
     length (imp_globals i) = num_imported_globals (m_translated m)"

lemma for_module_counts:
  assumes "for_module p m = Ok v"
  shows "array_count v VMFunctionImport = num_imported_functions m"
    "array_count v VMTableImport = num_imported_tables m"
    "array_count v VMMemoryImport = num_imported_memories m"
    "array_count v VMGlobalImport = num_imported_globals m"
  using assms by (auto simp: for_module_def Let_def)

lemma imports_hold:
  assumes v: "for_module 8 (m_translated m) = Ok (m_offsets m)" and "holds (m_offsets m) M ctx"
    and "imports_match m imports"
  shows "holds (m_offsets m) (M ++ copied VMFunctionImport FunctionImportCell (imp_functions imports)
      ++ copied VMTableImport TableImportCell (imp_tables imports)
      ++ copied VMMemoryImport MemoryImportCell (imp_memories imports)
      ++ copied VMGlobalImport GlobalImportCell (imp_globals imports)) (copy_imports m imports ctx)"
proof -
  note n = for_module_counts [OF v]
  note c = holds_copy_cells [OF v]
  have starts: "vo_imported_functions (m_offsets m) = array_start (m_offsets m) VMFunctionImport"
    "vo_imported_tables (m_offsets m) = array_start (m_offsets m) VMTableImport"
    "vo_imported_memories (m_offsets m) = array_start (m_offsets m) VMMemoryImport"
    "vo_imported_globals (m_offsets m) = array_start (m_offsets m) VMGlobalImport"
    by simp_all
  show ?thesis
    unfolding copy_imports_def starts
    by (intro c assms(2)) (use n assms(3) in \<open>simp_all add: imports_match_def\<close>)
qed

section \<open>Properties\<close>

text \<open>The accessor of an element of the context leads to a cell with the given value.\<close>

definition elem_cell :: "VMOffsets \<Rightarrow> OwnedVMContext \<Rightarrow> vm_struct \<Rightarrow> nat \<Rightarrow> vm_cell \<Rightarrow> bool" where
  "elem_cell v ctx k i c \<longleftrightarrow> (\<exists>off. element_offset v k i = Ok off \<and> ctx_cells ctx off = Some c)"

lemma holds_elem:
  assumes v: "for_module 8 m = Ok v" and "holds v M ctx" and "M (Elem k i) = Some c"
  shows "elem_cell v ctx k i c"
proof -
  from assms(2,3) have "i < array_count v k" "ctx_cells ctx (array_start v k + i * u32_size_of k) = Some c"
    by (force simp: holds_def)+
  with vmctx_array.accessor_in [OF element_offset_array for_module_array_bounds(3) [OF v]]
  show ?thesis by (auto simp: elem_cell_def)
qed

lemma copied_simps [simp]:
  "copied k mk xs (Static n) = None"
  "copied k mk xs (Elem k' i) = (if k' = k \<and> i < length xs then Some (mk (xs ! i)) else None)"
  by (simp_all add: copied_def)

lemma initialize_vmctx_holds:
  assumes v: "for_module 8 (m_translated m) = Ok (m_offsets m)" and "escaped_wf (m_translated m)"
    and "imports_match m imports" and "initialize_vmctx H m imports ts ms [] ctx = Ok (stack, ctx')"
  shows "\<exists>M. holds (m_offsets m) M ctx' \<and> vmctx_as_ptr ctx' = vmctx_as_ptr ctx \<and> stack = [] \<and>
    M (Static 0) = Some (MagicCell VMCONTEXT_MAGIC) \<and>
    M (Static 1) = Some (PtrCell (builtin_functions_addr H)) \<and>
    M (Static 2) = Some (PtrCell (type_ids_addr H (module_type_ids m))) \<and>
    (\<forall>i < length (mod_functions (m_translated m)). is_escaping (mod_functions (m_translated m) ! i) \<longrightarrow>
      (\<exists>r. func_ref_value m imports (vmctx_as_ptr ctx) i (mod_functions (m_translated m) ! i) = Ok r \<and>
         M (Elem VMFuncRef (func_ref (mod_functions (m_translated m) ! i))) = Some (FuncRefCell r))) \<and>
    (\<forall>i < length (imp_functions imports). M (Elem VMFunctionImport i) = Some (FunctionImportCell (imp_functions imports ! i))) \<and>
    (\<forall>i < length (imp_tables imports). M (Elem VMTableImport i) = Some (TableImportCell (imp_tables imports ! i))) \<and>
    (\<forall>i < length (imp_memories imports). M (Elem VMMemoryImport i) = Some (MemoryImportCell (imp_memories imports ! i))) \<and>
    (\<forall>i < length (imp_globals imports). M (Elem VMGlobalImport i) = Some (GlobalImportCell (imp_globals imports ! i))) \<and>
    (\<forall>i. num_imported_tables (m_translated m) + i < length (tables (m_translated m)) \<longrightarrow> i < length ts \<and>
       M (Elem VMTableDefinition i) = Some (TableCell (as_vmtable_definition (ts ! i)))) \<and>
    (\<forall>i. num_imported_memories (m_translated m) + i < length (memories (m_translated m)) \<longrightarrow> i < length ms \<and>
       M (Elem VMMemoryDefinition i) = Some (MemoryCell (as_vmmemory_definition (ms ! i)))) \<and>
    (\<forall>i < length (global_initializers (m_translated m)).
       \<exists>val. const_eval [] (global_initializers (m_translated m) ! i) = Ok (val, []) \<and>
         M (Elem VMGlobalDefinition i) = Some (GlobalCell val))"
proof -
  let ?v = "m_offsets m" and ?p = "vmctx_as_ptr ctx"
  from assms(4) obtain c1 c2 c3 c4 where
    c1: "init_static_fields H m ctx = Ok c1" and c2: "initialize_vmfunc_refs m imports c1 = Ok c2"
    and c3: "for_each (init_table m ts) (copy_imports m imports c2) [0..<length (tables (m_translated m))] = Ok c3"
    and c4: "for_each (init_memory m ms) c3 (enumerate 0 (memories (m_translated m))) = Ok c4"
    and c5: "for_each (init_global m) ([], c4) (enumerate 0 (global_initializers (m_translated m))) = Ok (stack, ctx')"
    by (auto simp: initialize_vmctx_def)
  note h1 = static_fields_hold [OF v c1]
  from vmfunc_refs_hold [OF v conjunct1 [OF h1] conjunct2 [OF h1] c2 assms(2)] obtain M2 where
    h2: "holds ?v M2 c2" "vmctx_as_ptr c2 = ?p" and m2: "\<forall>s. (\<forall>i. s \<noteq> Elem VMFuncRef i) \<longrightarrow> M2 s = [Static 0 \<mapsto> MagicCell VMCONTEXT_MAGIC,
      Static 1 \<mapsto> PtrCell (builtin_functions_addr H), Static 2 \<mapsto> PtrCell (type_ids_addr H (module_type_ids m))] s"
    and f2: "\<forall>i < length (mod_functions (m_translated m)). is_escaping (mod_functions (m_translated m) ! i) \<longrightarrow>
      (\<exists>r. func_ref_value m imports ?p i (mod_functions (m_translated m) ! i) = Ok r \<and>
         M2 (Elem VMFuncRef (func_ref (mod_functions (m_translated m) ! i))) = Some (FuncRefCell r))"
    by blast
  have p3: "vmctx_as_ptr (copy_imports m imports c2) = ?p" using h2(2) by (simp add: copy_imports_def)
  from tables_hold [OF v imports_hold [OF v h2(1) assms(3)] p3 c3] obtain M3 where
    h3: "holds ?v M3 c3" "vmctx_as_ptr c3 = ?p" and m3: "\<forall>s. (\<forall>i. s \<noteq> Elem VMTableDefinition i) \<longrightarrow> M3 s = (M2
      ++ copied VMFunctionImport FunctionImportCell (imp_functions imports)
      ++ copied VMTableImport TableImportCell (imp_tables imports)
      ++ copied VMMemoryImport MemoryImportCell (imp_memories imports)
      ++ copied VMGlobalImport GlobalImportCell (imp_globals imports)) s"
    and t3: "\<forall>i. num_imported_tables (m_translated m) + i < length (tables (m_translated m)) \<longrightarrow> i < length ts \<and>
       M3 (Elem VMTableDefinition i) = Some (TableCell (as_vmtable_definition (ts ! i)))"
    by blast
  from memories_hold [OF v h3 c4] obtain M4 where
    h4: "holds ?v M4 c4" "vmctx_as_ptr c4 = ?p" and m4: "\<forall>s. (\<forall>i. s \<noteq> Elem VMMemoryDefinition i) \<longrightarrow> M4 s = M3 s"
    and t4: "\<forall>i. num_imported_memories (m_translated m) + i < length (memories (m_translated m)) \<longrightarrow> i < length ms \<and>
       M4 (Elem VMMemoryDefinition i) = Some (MemoryCell (as_vmmemory_definition (ms ! i)))"
    by blast
  from globals_hold [OF v h4 c5] obtain M5 where
    h5: "holds ?v M5 ctx'" "vmctx_as_ptr ctx' = ?p" "stack = []"
    and m5: "\<forall>s. (\<forall>i. s \<noteq> Elem VMGlobalDefinition i) \<longrightarrow> M5 s = M4 s"
    and t5: "\<forall>i < length (global_initializers (m_translated m)).
       \<exists>val. const_eval [] (global_initializers (m_translated m) ! i) = Ok (val, []) \<and>
         M5 (Elem VMGlobalDefinition i) = Some (GlobalCell val)"
    by blast
  show ?thesis
    by (rule exI [of _ M5], intro conjI; (fact h5 | fact t5 | use m2 f2 m3 t3 m4 t4 m5 in \<open>simp add: map_add_Some_iff\<close>))
qed

text \<open>Initializing tables and memories moves and resizes nothing.\<close>

lemma map_list_update_same: "i < length xs \<Longrightarrow> f y = f (xs ! i) \<Longrightarrow> map f (xs[i := y]) = map f xs"
  by (metis list_update_id map_update)

lemma initialize_tables_definitions:
  assumes "initialize_tables m stack ts = Ok (stack', ts')"
  shows "map as_vmtable_definition ts' = map as_vmtable_definition ts"
proof -
  let ?P = "\<lambda>st :: VMVal list \<times> Table list. map as_vmtable_definition (snd st) = map as_vmtable_definition ts"
  from assms obtain st1 where
    one: "for_each apply_initial_value (stack, ts) (enumerate 0 (initial_values (table_initializers (m_translated m)))) = Ok st1"
    and two: "for_each (apply_table_segment m) st1 (segments (table_initializers (m_translated m))) = Ok (stack', ts')"
    by (auto simp: initialize_tables_def Let_def)
  have "?P st1"
    by (rule for_each_invariant [OF one])
      (auto simp: apply_initial_value_def as_vmtable_definition_def vec_fill_def map_list_update_same)
  then have "?P (stack', ts')"
    by (rule for_each_invariant [OF two])
      (auto simp: apply_table_segment_def as_vmtable_definition_def map_list_update_same split: option.splits)
  then show ?thesis by simp
qed

lemma initialize_memories_definitions:
  assumes "initialize_memories m stack ms = Ok (stack', ms')"
  shows "map as_vmmemory_definition ms' = map as_vmmemory_definition ms"
proof -
  have "map as_vmmemory_definition (snd (stack', ms')) = map as_vmmemory_definition ms"
    by (rule for_each_invariant [OF assms [unfolded initialize_memories_def],
          of "\<lambda>st. map as_vmmemory_definition (snd st) = map as_vmmemory_definition ms"])
      (auto simp: apply_memory_segment_def as_vmmemory_definition_def map_list_update_same split: option.splits)
  then show ?thesis by simp
qed

text \<open>C10.
  A context after initialization: whatever the module, each of its fields reads back as the value
  it was given. The magic number, the builtin array and the type ids are in place; every
  escaping function has its function reference where compiled code looks for it (its own code
  addresses and context, or those of the import); every import, and every table, memory and
  global the module defines is found by its accessor. No initialization step overwrites another's
  field, although the imports are copied without a bounds check.
\<close>

theorem vmctx_initialized:
  assumes "for_module 8 (m_translated m) = Ok (m_offsets m)" and "module_inv (m_translated m)"
    and "imports_match m imports" and "initialize_vmctx H m imports ts ms [] ctx = Ok (stack, ctx')"
  shows "ctx_cells ctx' 0 = Some (MagicCell VMCONTEXT_MAGIC) \<and>
    ctx_cells ctx' 8 = Some (PtrCell (builtin_functions_addr H)) \<and>
    ctx_cells ctx' 16 = Some (PtrCell (type_ids_addr H (module_type_ids m))) \<and>
    (\<forall>i f. pm_get (mod_functions (m_translated m)) i = Some f \<and> is_escaping f \<longrightarrow>
      (\<exists>r. func_ref_value m imports (vmctx_as_ptr ctx) i f = Ok r \<and>
         elem_cell (m_offsets m) ctx' VMFuncRef (func_ref f) (FuncRefCell r))) \<and>
    (\<forall>i x. pm_get (imp_functions imports) i = Some x \<longrightarrow>
       elem_cell (m_offsets m) ctx' VMFunctionImport i (FunctionImportCell x)) \<and>
    (\<forall>i x. pm_get (imp_tables imports) i = Some x \<longrightarrow>
       elem_cell (m_offsets m) ctx' VMTableImport i (TableImportCell x)) \<and>
    (\<forall>i x. pm_get (imp_memories imports) i = Some x \<longrightarrow>
       elem_cell (m_offsets m) ctx' VMMemoryImport i (MemoryImportCell x)) \<and>
    (\<forall>i x. pm_get (imp_globals imports) i = Some x \<longrightarrow>
       elem_cell (m_offsets m) ctx' VMGlobalImport i (GlobalImportCell x)) \<and>
    (\<forall>i. num_imported_tables (m_translated m) + i < length (tables (m_translated m)) \<longrightarrow> i < length ts \<and>
       elem_cell (m_offsets m) ctx' VMTableDefinition i (TableCell (as_vmtable_definition (ts ! i)))) \<and>
    (\<forall>i. num_imported_memories (m_translated m) + i < length (memories (m_translated m)) \<longrightarrow> i < length ms \<and>
       elem_cell (m_offsets m) ctx' VMMemoryDefinition i (MemoryCell (as_vmmemory_definition (ms ! i)))) \<and>
    (\<forall>i e. pm_get (global_initializers (m_translated m)) i = Some e \<longrightarrow>
       (\<exists>val. const_eval [] e = Ok (val, []) \<and>
          elem_cell (m_offsets m) ctx' VMGlobalDefinition i (GlobalCell val)))"
proof -
  have "escaped_wf (m_translated m)" using assms(2) by (simp add: module_inv_def)
  from initialize_vmctx_holds [OF assms(1) this assms(3,4)] obtain M where
    h: "holds (m_offsets m) M ctx'"
    and s: "M (Static 0) = Some (MagicCell VMCONTEXT_MAGIC)"
      "M (Static 1) = Some (PtrCell (builtin_functions_addr H))"
      "M (Static 2) = Some (PtrCell (type_ids_addr H (module_type_ids m)))"
    and f: "\<forall>i < length (mod_functions (m_translated m)). is_escaping (mod_functions (m_translated m) ! i) \<longrightarrow>
      (\<exists>r. func_ref_value m imports (vmctx_as_ptr ctx) i (mod_functions (m_translated m) ! i) = Ok r \<and>
         M (Elem VMFuncRef (func_ref (mod_functions (m_translated m) ! i))) = Some (FuncRefCell r))"
    and i: "\<forall>i < length (imp_functions imports). M (Elem VMFunctionImport i) = Some (FunctionImportCell (imp_functions imports ! i))"
      "\<forall>i < length (imp_tables imports). M (Elem VMTableImport i) = Some (TableImportCell (imp_tables imports ! i))"
      "\<forall>i < length (imp_memories imports). M (Elem VMMemoryImport i) = Some (MemoryImportCell (imp_memories imports ! i))"
      "\<forall>i < length (imp_globals imports). M (Elem VMGlobalImport i) = Some (GlobalImportCell (imp_globals imports ! i))"
    and d: "\<forall>i. num_imported_tables (m_translated m) + i < length (tables (m_translated m)) \<longrightarrow> i < length ts \<and>
       M (Elem VMTableDefinition i) = Some (TableCell (as_vmtable_definition (ts ! i)))"
      "\<forall>i. num_imported_memories (m_translated m) + i < length (memories (m_translated m)) \<longrightarrow> i < length ms \<and>
       M (Elem VMMemoryDefinition i) = Some (MemoryCell (as_vmmemory_definition (ms ! i)))"
      "\<forall>i < length (global_initializers (m_translated m)).
       \<exists>val. const_eval [] (global_initializers (m_translated m) ! i) = Ok (val, []) \<and>
         M (Elem VMGlobalDefinition i) = Some (GlobalCell val)"
    by blast
  have static: "ctx_cells ctx' (8 * n) = Some c" if "M (Static n) = Some c" for n c
    using h that by (force simp: holds_def)
  note elem = holds_elem [OF assms(1) h]
  show ?thesis
    using static [OF s(1)] static [OF s(2)] static [OF s(3)] f i d elem by (intro conjI allI impI) auto
qed

text \<open>A module with an imported function that escapes and a global.\<close>

definition tiny_offsets :: VMOffsets where
  "tiny_offsets = \<lparr>vo_num_imported_funcs = 1, vo_num_imported_tables = 0,
     vo_num_imported_memories = 0, vo_num_imported_globals = 0, vo_num_defined_tables = 0,
     vo_num_defined_memories = 0, vo_num_defined_globals = 1, vo_num_escaped_funcs = 1,
     static_offsets = \<lparr>ptr_size = 8\<rparr>, vo_func_refs = 56, vo_imported_functions = 88,
     vo_imported_tables = 112, vo_imported_memories = 112, vo_imported_globals = 112, vo_tables = 112,
     vo_memories = 112, vo_globals = 112, vo_size = 128\<rparr>"

definition tiny_module :: Module where
  "tiny_module = \<lparr>m_translated = module_default\<lparr>mod_types := [0], num_imported_functions := 1,
       mod_imports := [\<lparr>import_module = ''env'', import_name = ''f'', import_ty = ET_Function (Module 0)\<rparr>],
       num_escaped_functions := 1, mod_functions := [\<lparr>signature = 0, func_ref = 0\<rparr>],
       globals := [\<lparr>content_type = I32, global_mutable = False, global_shared = False\<rparr>],
       global_initializers := [\<lparr>ops = [I32Const 7]\<rparr>]\<rparr>,
     m_offsets = tiny_offsets, m_code = sample_code,
     m_type_collection = \<lparr>collection_rec_groups = [], type_map = [5]\<rparr>, m_function_info = []\<rparr>"

definition tiny_imports :: Imports where
  "tiny_imports = imports_default\<lparr>imp_functions := [\<lparr>fi_wasm_call = 100, fi_array_call = 200, fi_vmctx = 300\<rparr>]\<rparr>"

definition tiny_context :: OwnedVMContext where
  "tiny_context = \<lparr>ctx_vec = (vec_new 0)\<lparr>vec_mmap := \<lparr>mm_ptr = 4096, mm_len = 4096\<rparr>\<rparr>, ctx_cells = \<lambda>_. None\<rparr>"

definition no_addresses :: host_addresses where
  "no_addresses = \<lparr>builtin_functions_addr = 16, type_ids_addr = \<lambda>_. 32\<rparr>"

lemma tiny_facts:
  "for_module 8 (m_translated tiny_module) = Ok (m_offsets tiny_module)"
  "module_inv (m_translated tiny_module)" "imports_match tiny_module tiny_imports"
  "\<exists>ctx'. initialize_vmctx no_addresses tiny_module tiny_imports [] [] [] tiny_context = Ok ([], ctx')"
  by (auto simp: tiny_module_def tiny_offsets_def module_default_def for_module_def Let_def try_into_def
      num_defined_tables_def num_defined_memories_def num_defined_globals_def num_tables_def num_memories_def
      num_globals_def module_inv_defs tiny_imports_def imports_default_def imports_match_def
      is_escaping_def reserved_value_def escaped_refs_def escapes_def func_refs_of_def
      initialize_vmctx_def init_static_fields_def static_offset_defs initialize_vmfunc_refs_def
      init_func_ref_def func_ref_value_def defined_func_index_def is_imported_func_def shared_type_of_def
      lookup_shared_type_def pm_get_def vmctx_vmfunc_ref_def array_offset_def add_chk_def mul_chk_def
      init_global_def const_eval_def vmctx_vmglobal_definition_def)

theorem vmctx_initialized_witness:
  "\<exists>ctx' val. initialize_vmctx no_addresses tiny_module tiny_imports [] [] [] tiny_context = Ok ([], ctx') \<and>
     elem_cell (m_offsets tiny_module) ctx' VMFunctionImport 0
       (FunctionImportCell \<lparr>fi_wasm_call = 100, fi_array_call = 200, fi_vmctx = 300\<rparr>) \<and>
     elem_cell (m_offsets tiny_module) ctx' VMGlobalDefinition 0 (GlobalCell val)"
proof -
  obtain ctx' where run: "initialize_vmctx no_addresses tiny_module tiny_imports [] [] [] tiny_context = Ok ([], ctx')"
    using tiny_facts(4) by blast
  have i: "pm_get (imp_functions tiny_imports) 0 = Some \<lparr>fi_wasm_call = 100, fi_array_call = 200, fi_vmctx = 300\<rparr>"
    "pm_get (global_initializers (m_translated tiny_module)) 0 = Some \<lparr>ops = [I32Const 7]\<rparr>"
    by (simp_all add: tiny_imports_def tiny_module_def pm_get_def)
  from vmctx_initialized [OF tiny_facts(1-3) run] i run show ?thesis by blast
qed

text \<open>What an export of an entity of a given kind leads to in a fresh instance.\<close>

lemma initialize_instance_parts:
  assumes "initialize_instance H m imports stack ctx ts ms = Ok (inst, stack')"
  shows "in_module inst = m" "\<exists>st. initialize_vmctx H m imports ts ms stack ctx = Ok (st, in_vmctx inst)"
    "map as_vmtable_definition (in_tables inst) = map as_vmtable_definition ts"
    "map as_vmmemory_definition (in_memories inst) = map as_vmmemory_definition ms"
  using assms initialize_tables_definitions initialize_memories_definitions
  by (auto simp: initialize_instance_def)

lemma elem_cellD:
  "elem_cell v ctx VMTableImport i c \<Longrightarrow> \<exists>off. vmctx_vmtable_import v i = Ok off \<and> ctx_cells ctx off = Some c"
  "elem_cell v ctx VMMemoryImport i c \<Longrightarrow> \<exists>off. vmctx_vmmemory_import v i = Ok off \<and> ctx_cells ctx off = Some c"
  "elem_cell v ctx VMGlobalImport i c \<Longrightarrow> \<exists>off. vmctx_vmglobal_import v i = Ok off \<and> ctx_cells ctx off = Some c"
  "elem_cell v ctx VMTableDefinition i c \<Longrightarrow> \<exists>off. vmctx_vmtable_definition v i = Ok off \<and> ctx_cells ctx off = Some c"
  "elem_cell v ctx VMMemoryDefinition i c \<Longrightarrow> \<exists>off. vmctx_vmmemory_definition v i = Ok off \<and> ctx_cells ctx off = Some c"
  "elem_cell v ctx VMGlobalDefinition i c \<Longrightarrow> \<exists>off. vmctx_vmglobal_definition v i = Ok off \<and> ctx_cells ctx off = Some c"
  "elem_cell v ctx VMFuncRef i c \<Longrightarrow> \<exists>off. vmctx_vmfunc_ref v i = Ok off \<and> ctx_cells ctx off = Some c"
  by (simp_all add: elem_cell_def)

lemma initialize_instance_cells:
  assumes v: "for_module 8 (m_translated m) = Ok (m_offsets m)" and "module_inv (m_translated m)"
    and "imports_match m imports" and "initialize_instance H m imports [] ctx ts ms = Ok (inst, stack')"
  shows "\<exists>M. holds (m_offsets m) M (in_vmctx inst) \<and> vmctx_as_ptr (in_vmctx inst) = vmctx_as_ptr ctx \<and>
    (\<forall>i f. pm_get (mod_functions (m_translated m)) i = Some f \<and> is_escaping f \<longrightarrow>
      (\<exists>r. func_ref_value m imports (vmctx_as_ptr ctx) i f = Ok r \<and> M (Elem VMFuncRef (func_ref f)) = Some (FuncRefCell r))) \<and>
    (\<forall>i < num_imported_tables (m_translated m). M (Elem VMTableImport i) = Some (TableImportCell (imp_tables imports ! i))) \<and>
    (\<forall>i < num_imported_memories (m_translated m). M (Elem VMMemoryImport i) = Some (MemoryImportCell (imp_memories imports ! i))) \<and>
    (\<forall>i < num_imported_globals (m_translated m). M (Elem VMGlobalImport i) = Some (GlobalImportCell (imp_globals imports ! i))) \<and>
    (\<forall>i. num_imported_tables (m_translated m) + i < length (tables (m_translated m)) \<longrightarrow>
       M (Elem VMTableDefinition i) = Some (TableCell (as_vmtable_definition (in_tables inst ! i)))) \<and>
    (\<forall>i. num_imported_memories (m_translated m) + i < length (memories (m_translated m)) \<longrightarrow>
       M (Elem VMMemoryDefinition i) = Some (MemoryCell (as_vmmemory_definition (in_memories inst ! i)))) \<and>
    (\<forall>i. num_imported_globals (m_translated m) + i < length (globals (m_translated m)) \<longrightarrow>
       (\<exists>val. const_eval [] (global_initializers (m_translated m) ! i) = Ok (val, []) \<and>
         M (Elem VMGlobalDefinition i) = Some (GlobalCell val)))"
proof -
  note parts = initialize_instance_parts [OF assms(4)]
  have wf: "escaped_wf (m_translated m)" "counts_wf (m_translated m)" using assms(2) by (simp_all add: module_inv_def)
  obtain st where run: "initialize_vmctx H m imports ts ms [] ctx = Ok (st, in_vmctx inst)" using parts(2) by blast
  have same: "i < length ts \<Longrightarrow> as_vmtable_definition (in_tables inst ! i) = as_vmtable_definition (ts ! i)"
    "i < length ms \<Longrightarrow> as_vmmemory_definition (in_memories inst ! i) = as_vmmemory_definition (ms ! i)" for i
    using parts(3,4) by (metis length_map nth_map)+
  from initialize_vmctx_holds [OF v wf(1) assms(3) run] show ?thesis
    by (elim exE, rename_tac M, rule_tac x = M in exI)
      (use wf(2) assms(3) in \<open>simp add: same imports_match_def counts_wf_def\<close>)
qed

text \<open>C15.
  The exports of a fresh instance lead where they should. The export of an imported table,
  memory or global is the importer's entity itself: the definition and the context that were
  supplied. The export of a defined one is the address of its own field in this instance's
  context, and that field describes the table or memory the instance owns (also after its
  segments were applied), or the value its initializer evaluates to. The export of an escaping
  function is the non-null address of its function reference.
\<close>

theorem exports_of_fresh_instance:
  assumes "for_module 8 (m_translated m) = Ok (m_offsets m)" and "module_inv (m_translated m)"
    and "imports_match m imports" and "0 < vmctx_as_ptr ctx"
    and "initialize_instance H m imports [] ctx ts ms = Ok (inst, stack')"
  shows "(\<forall>i t. pm_get (tables (m_translated m)) i = Some t \<longrightarrow> (\<exists>e. get_exported_table inst i = Ok e \<and> et_table e = t \<and>
      (if i < num_imported_tables (m_translated m)
       then et_definition e = im_from (imp_tables imports ! i) \<and> et_vmctx e = im_vmctx (imp_tables imports ! i)
       else et_vmctx e = vmctx_as_ptr (in_vmctx inst) \<and>
         (\<exists>off. et_definition e = plus_offset (in_vmctx inst) off \<and> ctx_cells (in_vmctx inst) off =
            Some (TableCell (as_vmtable_definition (in_tables inst ! (i - num_imported_tables (m_translated m))))))))) \<and>
    (\<forall>i t. pm_get (memories (m_translated m)) i = Some t \<longrightarrow> (\<exists>e. get_exported_memory inst i = Ok e \<and> em_memory e = t \<and>
      (if i < num_imported_memories (m_translated m)
       then em_definition e = im_from (imp_memories imports ! i) \<and> em_vmctx e = im_vmctx (imp_memories imports ! i)
       else em_vmctx e = vmctx_as_ptr (in_vmctx inst) \<and>
         (\<exists>off. em_definition e = plus_offset (in_vmctx inst) off \<and> ctx_cells (in_vmctx inst) off =
            Some (MemoryCell (as_vmmemory_definition (in_memories inst ! (i - num_imported_memories (m_translated m))))))))) \<and>
    (\<forall>i t. pm_get (globals (m_translated m)) i = Some t \<longrightarrow> (\<exists>e. get_exported_global inst i = Ok e \<and> eg_ty e = t \<and>
      (if i < num_imported_globals (m_translated m)
       then eg_definition e = im_from (imp_globals imports ! i) \<and> eg_vmctx e = im_vmctx (imp_globals imports ! i)
       else eg_vmctx e = vmctx_as_ptr (in_vmctx inst) \<and>
         (\<exists>off val. eg_definition e = plus_offset (in_vmctx inst) off \<and> ctx_cells (in_vmctx inst) off = Some (GlobalCell val) \<and>
            const_eval [] (global_initializers (m_translated m) ! (i - num_imported_globals (m_translated m))) = Ok (val, []))))) \<and>
    (\<forall>i f. pm_get (mod_functions (m_translated m)) i = Some f \<and> is_escaping f \<and> i \<noteq> reserved_value \<longrightarrow>
      (\<exists>off r. get_exported_func inst i = Ok (plus_offset (in_vmctx inst) off) \<and>
         ctx_cells (in_vmctx inst) off = Some (FuncRefCell r) \<and>
         func_ref_value m imports (vmctx_as_ptr ctx) i f = Ok r))"
proof -
  let ?t = "m_translated m" and ?v = "m_offsets m" and ?c = "in_vmctx inst"
  have m [simp]: "in_module inst = m" by (rule initialize_instance_parts(1) [OF assms(5)])
  from initialize_instance_cells [OF assms(1-3,5)] obtain M where
    h: "holds ?v M ?c" and p: "vmctx_as_ptr ?c = vmctx_as_ptr ctx"
    and f: "\<forall>i f. pm_get (mod_functions ?t) i = Some f \<and> is_escaping f \<longrightarrow>
      (\<exists>r. func_ref_value m imports (vmctx_as_ptr ctx) i f = Ok r \<and> M (Elem VMFuncRef (func_ref f)) = Some (FuncRefCell r))"
    and imp: "\<forall>i < num_imported_tables ?t. M (Elem VMTableImport i) = Some (TableImportCell (imp_tables imports ! i))"
      "\<forall>i < num_imported_memories ?t. M (Elem VMMemoryImport i) = Some (MemoryImportCell (imp_memories imports ! i))"
      "\<forall>i < num_imported_globals ?t. M (Elem VMGlobalImport i) = Some (GlobalImportCell (imp_globals imports ! i))"
    and d: "\<forall>i. num_imported_tables ?t + i < length (tables ?t) \<longrightarrow>
        M (Elem VMTableDefinition i) = Some (TableCell (as_vmtable_definition (in_tables inst ! i)))"
      "\<forall>i. num_imported_memories ?t + i < length (memories ?t) \<longrightarrow>
        M (Elem VMMemoryDefinition i) = Some (MemoryCell (as_vmmemory_definition (in_memories inst ! i)))"
      "\<forall>i. num_imported_globals ?t + i < length (globals ?t) \<longrightarrow>
        (\<exists>val. const_eval [] (global_initializers ?t ! i) = Ok (val, []) \<and> M (Elem VMGlobalDefinition i) = Some (GlobalCell val))"
    by (elim exE conjE) (rule that)
  note cell = holds_elem [OF assms(1) h, THEN elem_cellD(1)] holds_elem [OF assms(1) h, THEN elem_cellD(2)]
    holds_elem [OF assms(1) h, THEN elem_cellD(3)] holds_elem [OF assms(1) h, THEN elem_cellD(4)]
    holds_elem [OF assms(1) h, THEN elem_cellD(5)] holds_elem [OF assms(1) h, THEN elem_cellD(6)]
    holds_elem [OF assms(1) h, THEN elem_cellD(7)]
  show ?thesis
  proof (intro conjI allI impI, goal_cases)
    case (1 i t)
    then show ?case
      using cell(1) [OF imp(1) [rule_format], of i] cell(4) [OF d(1) [rule_format], of "i - num_imported_tables ?t"]
      by (cases "i < num_imported_tables ?t") (auto simp: Let_def get_exported_table_def entity_pointers_def defined_table_index_def is_imported_table_def
          imported_table_def table_ptr_def ctx_read_def)
  next
    case (2 i t)
    then show ?case
      using cell(2) [OF imp(2) [rule_format], of i] cell(5) [OF d(2) [rule_format], of "i - num_imported_memories ?t"]
      by (cases "i < num_imported_memories ?t") (auto simp: Let_def get_exported_memory_def entity_pointers_def defined_memory_index_def is_imported_memory_def
          imported_memory_def memory_ptr_def ctx_read_def)
  next
    case (3 i t)
    then show ?case
      using cell(3) [OF imp(3) [rule_format], of i] cell(6) [of "i - num_imported_globals ?t"] d(3) [rule_format, of "i - num_imported_globals ?t"]
      by (cases "i < num_imported_globals ?t") (auto simp: Let_def get_exported_global_def entity_pointers_def defined_global_index_def is_imported_global_def
          imported_global_def global_ptr_def ctx_read_def, blast)
  next
    case (4 i f)
    then obtain r where r: "func_ref_value m imports (vmctx_as_ptr ctx) i f = Ok r"
      "M (Elem VMFuncRef (func_ref f)) = Some (FuncRefCell r)" using f by blast
    moreover obtain off where "vmctx_vmfunc_ref ?v (func_ref f) = Ok off" "ctx_cells ?c off = Some (FuncRefCell r)"
      using cell(7) [OF r(2)] by blast
    ultimately show ?case
      using 4 p assms(4)
      by (intro exI [of _ off] exI [of _ r]) (auto simp: get_exported_func_def get_func_ref_def NonNull_def plus_offset_def)
  qed
qed

theorem exports_of_fresh_instance_witness:
  "\<exists>inst off r e. initialize_instance no_addresses tiny_module tiny_imports [] tiny_context [] [] = Ok (inst, []) \<and>
     get_exported_func inst 0 = Ok (4096 + off) \<and> ctx_cells (in_vmctx inst) off = Some (FuncRefCell r) \<and>
     fr_wasm_call r = 100 \<and> get_exported_global inst 0 = Ok e \<and> eg_vmctx e = 4096"
proof -
  obtain ctx' where "initialize_vmctx no_addresses tiny_module tiny_imports [] [] [] tiny_context = Ok ([], ctx')"
    using tiny_facts(4) by blast
  then obtain inst where inst: "initialize_instance no_addresses tiny_module tiny_imports [] tiny_context [] [] = Ok (inst, [])"
    by (simp add: initialize_instance_def initialize_tables_def initialize_memories_def tiny_module_def module_default_def)
  have "0 < vmctx_as_ptr tiny_context" by (simp add: tiny_context_def vmctx_as_ptr_def)
  note exports = exports_of_fresh_instance [OF tiny_facts(1-3) this inst, THEN conjunct2, THEN conjunct2]
  have p: "vmctx_as_ptr (in_vmctx inst) = 4096"
    using initialize_instance_cells [OF tiny_facts(1-3) inst] by (auto simp: tiny_context_def vmctx_as_ptr_def)
  obtain e where e: "get_exported_global inst 0 = Ok e" "eg_vmctx e = 4096"
    using exports [THEN conjunct1, rule_format, of 0] p by (auto simp: tiny_module_def module_default_def)
  obtain off r where r: "get_exported_func inst 0 = Ok (plus_offset (in_vmctx inst) off)"
    "ctx_cells (in_vmctx inst) off = Some (FuncRefCell r)"
    "func_ref_value tiny_module tiny_imports (vmctx_as_ptr tiny_context) 0 \<lparr>signature = 0, func_ref = 0\<rparr> = Ok r"
    using exports [THEN conjunct2, rule_format, of 0 "\<lparr>signature = 0, func_ref = 0\<rparr>"]
    by (auto simp: tiny_module_def is_escaping_def reserved_value_def)
  have "fr_wasm_call r = 100"
    using r(3) by (auto simp: func_ref_value_def tiny_module_def tiny_imports_def imports_default_def
        defined_func_index_def is_imported_func_def)
  with inst e r p show ?thesis by (auto simp: plus_offset_def)
qed

end
