(* ===== verification/Clif.thy ===== *)
theory Clif
  imports Entities
begin

text \<open>
  The interface of Cranelift that \<open>src/src/cranelift\<close> is written against. Cranelift is not part of the
  repository: the instruction builder is a parameter, a record of its operations over an arbitrary
  builder state. Instructions are the calls of the builder's methods, as data. What the code
  relies on is \<open>clif_contract\<close>: executing the straight-line code built so far gives values the
  documented meaning of the instructions, later instructions do not change earlier values, and a
  trap ends the run.
\<close>

section \<open>Types and instructions\<close>

type_synonym ir_Value = nat
type_synonym ir_Block = nat
type_synonym ir_Inst = nat
type_synonym GlobalValue = nat
type_synonym SigRef = nat
type_synonym ir_FuncRef = nat

datatype (plugins only: code) ir_Type =
    IR_I8 | IR_I16 | IR_I32 | IR_I64 | IR_F32 | IR_F64
  | IR_I8X16 | IR_I16X8 | IR_I32X4 | IR_I64X2 | IR_F32X4 | IR_F64X2

fun ty_bits :: "ir_Type \<Rightarrow> nat" where
  "ty_bits IR_I8 = 8" | "ty_bits IR_I16 = 16" | "ty_bits IR_I32 = 32" | "ty_bits IR_I64 = 64"
| "ty_bits IR_F32 = 32" | "ty_bits IR_F64 = 64" | "ty_bits _ = 128"

definition ty_bytes :: "ir_Type \<Rightarrow> nat" where
  "ty_bytes t = ty_bits t div 8"

fun is_vector :: "ir_Type \<Rightarrow> bool" where
  "is_vector IR_I8 = False" | "is_vector IR_I16 = False" | "is_vector IR_I32 = False"
| "is_vector IR_I64 = False" | "is_vector IR_F32 = False" | "is_vector IR_F64 = False"
| "is_vector _ = True"

datatype (plugins only: code) IntCC =
    CC_Equal | CC_NotEqual | CC_SignedLessThan | CC_SignedGreaterThanOrEqual | CC_SignedGreaterThan
  | CC_SignedLessThanOrEqual | CC_UnsignedLessThan | CC_UnsignedGreaterThanOrEqual
  | CC_UnsignedGreaterThan | CC_UnsignedLessThanOrEqual

datatype FloatCC =
    FC_Equal | FC_NotEqual | FC_LessThan | FC_LessThanOrEqual | FC_GreaterThan | FC_GreaterThanOrEqual

datatype (plugins only: code) ir_Binop =
    Iadd | Isub | Imul | Sdiv | Udiv | Srem | Urem | Band | Bor | Bxor | Ishl | Sshr | Ushr | Rotl | Rotr
  | Fadd | Fsub | Fmul | Fdiv | Fmin | Fmax | Fcopysign

datatype (plugins only: code) ir_Unop = Clz | Ctz | Popcnt | Sqrt | Ceil | Floor | Trunc | Nearest | Fabs | Fneg

datatype (plugins only: code) ir_Cvtop =
    Ireduce | Sextend | Uextend | Fcvt_to_sint | Fcvt_to_uint | Fcvt_to_sint_sat | Fcvt_to_uint_sat
  | Fdemote | Fpromote | Fcvt_from_sint | Fcvt_from_uint

datatype (plugins only: code) ir_Opcode =
    Op_Load | Uload8 | Sload8 | Uload16 | Sload16 | Uload32 | Sload32
  | Op_Store | Istore8 | Istore16 | Istore32

text \<open>Instructions on vectors, beside those above that also apply to vectors.\<close>

datatype (plugins only: code) ir_Vunop =
    Ineg | Iabs | Bnot | Swiden_low | Swiden_high | Uwiden_low | Uwiden_high | Fvpromote_low | Fvdemote
  | Vany_true | Vall_true

datatype (plugins only: code) ir_Vbinop =
    Sadd_sat | Uadd_sat | Ssub_sat | Usub_sat | Smin | Umin | Smax | Umax | Avg_round | Band_not | Swizzle
  | Snarrow | Unarrow | Uunarrow | Iadd_pairwise | Sqmul_round_sat | X86_pshufb | X86_pmulhrsw | X86_pmaddubsw

datatype (plugins only: code) ir_Vternop = Bitselect | X86_blendv | Fma

datatype (plugins only: code) ir_Vmake = Splat | Scalar_to_vector | Vhigh_bits | X86_cvtt2dq

datatype (plugins only: code) ir_Vload = Sload8x8 | Uload8x8 | Sload16x4 | Uload16x4 | Sload32x2 | Uload32x2

text \<open>The flags of a memory access, as the calls that set them.\<close>

datatype AliasRegion = Alias_Heap | Alias_Table

record MemFlags =
  mf_trusted :: bool
  mf_little :: bool
  mf_checked :: bool
  mf_aligned :: bool
  mf_readonly :: bool
  mf_alias :: "AliasRegion option"
  mf_trap_code :: "TrapCode option option"

definition memflags_new :: MemFlags where
  "memflags_new = \<lparr>mf_trusted = False, mf_little = False, mf_checked = False, mf_aligned = False,
     mf_readonly = False, mf_alias = None, mf_trap_code = None\<rparr>"

definition memflags_trusted :: MemFlags where
  "memflags_trusted = memflags_new\<lparr>mf_trusted := True\<rparr>"

datatype (plugins only: code) inst =
    Iconst ir_Type int
  | F32const nat
  | F64const nat
  | Vconst ir_Type "nat list"
  | Binary ir_Binop ir_Value ir_Value
  | Unary ir_Unop ir_Value
  | Convert ir_Cvtop ir_Type ir_Value
  | Bitcast ir_Type MemFlags ir_Value
  | Icmp IntCC ir_Value ir_Value
  | Icmp_imm IntCC ir_Value int
  | Fcmp FloatCC ir_Value ir_Value
  | Iadd_imm ir_Value int
  | Imul_imm ir_Value int
  | Band_imm ir_Value int
  | Ishl_imm ir_Value int
  | Select ir_Value ir_Value ir_Value
  | Select_spectre_guard ir_Value ir_Value ir_Value
  | Uadd_overflow_trap ir_Value ir_Value TrapCode
  | Global_value ir_Type GlobalValue
  | Load ir_Opcode ir_Type MemFlags ir_Value int
  | Store ir_Opcode MemFlags ir_Value ir_Value int
  | Trap_inst TrapCode
  | Trapnz ir_Value TrapCode
  | Trapz ir_Value TrapCode
  | Fence
  | Jump ir_Block "ir_Value list"
  | Brif ir_Value ir_Block "ir_Value list" ir_Block "ir_Value list"
  | Br_table ir_Value ir_Block "ir_Block list"
  | Return_inst "ir_Value list"
  | Call_inst ir_FuncRef "ir_Value list"
  | Call_indirect_inst SigRef ir_Value "ir_Value list"
  | Vec_unary ir_Vunop ir_Value
  | Vec_binary ir_Vbinop ir_Value ir_Value
  | Vec_ternary ir_Vternop ir_Value ir_Value ir_Value
  | Vec_make ir_Vmake ir_Type ir_Value
  | Vec_load ir_Vload MemFlags ir_Value int
  | Insertlane ir_Value ir_Value nat
  | Extractlane ir_Value nat
  | Shuffle ir_Value ir_Value "nat list"

section \<open>The builder\<close>

datatype GlobalValueData = GV_VMContext | GV_Load GlobalValue int ir_Type MemFlags

text \<open>
  Signatures: the parameter types, of which the first is the special context parameter, and the
  return types, all with the normal purpose.
\<close>

record Signature =
  sig_params :: "ir_Type list"
  sig_returns :: "ir_Type list"

record ExtFuncData =
  ef_namespace :: nat
  ef_index :: nat
  ef_signature :: SigRef
  ef_colocated :: bool

text \<open>
  \<open>ins\<close> stands for the methods that return the instruction's first result, \<open>ins_inst\<close> for those that
  return the instruction.
\<close>

record 'b clif_ops =
  ins :: "inst \<Rightarrow> 'b \<Rightarrow> ir_Value \<times> 'b"
  ins_inst :: "inst \<Rightarrow> 'b \<Rightarrow> ir_Inst \<times> 'b"
  inst_results :: "'b \<Rightarrow> ir_Inst \<Rightarrow> ir_Value list"
  value_type_of :: "'b \<Rightarrow> ir_Value \<Rightarrow> ir_Type"
  create_global_value :: "GlobalValueData \<Rightarrow> 'b \<Rightarrow> GlobalValue \<times> 'b"
  import_signature :: "Signature \<Rightarrow> 'b \<Rightarrow> SigRef \<times> 'b"
  import_function :: "ExtFuncData \<Rightarrow> 'b \<Rightarrow> ir_FuncRef \<times> 'b"
  signature_of :: "'b \<Rightarrow> SigRef \<Rightarrow> Signature"
  ext_func_signature :: "'b \<Rightarrow> ir_FuncRef \<Rightarrow> SigRef"
  special_vmctx :: "'b \<Rightarrow> ir_Value option"
  func_signature :: "'b \<Rightarrow> Signature"
  create_block :: "'b \<Rightarrow> ir_Block \<times> 'b"
  append_block_param :: "ir_Block \<Rightarrow> ir_Type \<Rightarrow> 'b \<Rightarrow> ir_Value \<times> 'b"
  declare_stack_map :: "ir_Value \<Rightarrow> 'b \<Rightarrow> 'b"
  block_params :: "'b \<Rightarrow> ir_Block \<Rightarrow> ir_Value list"
  switch_to_block :: "ir_Block \<Rightarrow> 'b \<Rightarrow> 'b"
  seal_block :: "ir_Block \<Rightarrow> 'b \<Rightarrow> 'b"
  change_jump_destination :: "ir_Inst \<Rightarrow> ir_Block \<Rightarrow> ir_Block \<Rightarrow> 'b \<Rightarrow> 'b"
  use_var :: "nat \<Rightarrow> 'b \<Rightarrow> ir_Value \<times> 'b"
  def_var :: "nat \<Rightarrow> ir_Value \<Rightarrow> 'b \<Rightarrow> 'b"
  set_val_label :: "ir_Value \<Rightarrow> nat \<Rightarrow> 'b \<Rightarrow> 'b"
  is_unreachable :: "'b \<Rightarrow> bool"
  declare_var :: "nat \<Rightarrow> ir_Type \<Rightarrow> 'b \<Rightarrow> 'b"
  declare_var_stack_map :: "nat \<Rightarrow> 'b \<Rightarrow> 'b"
  append_params_for_function_params :: "ir_Block \<Rightarrow> 'b \<Rightarrow> 'b"
  append_params_for_function_returns :: "ir_Block \<Rightarrow> 'b \<Rightarrow> 'b"
  ensure_inserted_block :: "'b \<Rightarrow> 'b"
  set_srcloc :: "nat \<Rightarrow> 'b \<Rightarrow> 'b"
  finalize :: "'b \<Rightarrow> 'b"

text \<open>One run of the code built so far.\<close>

record 'b clif_run =
  run_defined :: "'b \<Rightarrow> ir_Value \<Rightarrow> bool"
  run_value :: "'b \<Rightarrow> ir_Value \<Rightarrow> nat"
  run_global :: "'b \<Rightarrow> GlobalValue \<Rightarrow> nat"
  run_trap :: "'b \<Rightarrow> TrapCode option"

section \<open>The contract of the integer instructions\<close>

definition wrap_ty :: "ir_Type \<Rightarrow> int \<Rightarrow> nat" where
  "wrap_ty t n = nat (n mod 2 ^ ty_bits t)"

definition bool_value :: "bool \<Rightarrow> nat" where
  "bool_value b = (if b then 1 else 0)"

fun unsigned_cc :: "IntCC \<Rightarrow> nat \<Rightarrow> nat \<Rightarrow> bool option" where
  "unsigned_cc CC_Equal x y = Some (x = y)"
| "unsigned_cc CC_NotEqual x y = Some (x \<noteq> y)"
| "unsigned_cc CC_UnsignedLessThan x y = Some (x < y)"
| "unsigned_cc CC_UnsignedGreaterThanOrEqual x y = Some (y \<le> x)"
| "unsigned_cc CC_UnsignedGreaterThan x y = Some (y < x)"
| "unsigned_cc CC_UnsignedLessThanOrEqual x y = Some (x \<le> y)"
| "unsigned_cc _ x y = None"

datatype clif_outcome = Gives ir_Type nat | Traps TrapCode | Continues

text \<open>
  What Cranelift documents of the instructions used in address computations; \<open>None\<close> leaves an
  instruction unspecified here.
\<close>

definition clif_meaning ::
  "(ir_Value \<Rightarrow> nat) \<Rightarrow> (ir_Value \<Rightarrow> ir_Type) \<Rightarrow> (GlobalValue \<Rightarrow> nat) \<Rightarrow> inst \<Rightarrow> clif_outcome option" where
  "clif_meaning v t g i = (case i of
       Iconst ty c \<Rightarrow> Some (Gives ty (wrap_ty ty c))
     | Binary bop x y \<Rightarrow>
         if bop = Iadd then Some (Gives (t x) (wrap_ty (t x) (int (v x) + int (v y)))) else None
     | Convert cop ty x \<Rightarrow>
         if cop = Uextend \<and> ty_bits (t x) \<le> ty_bits ty then Some (Gives ty (v x)) else None
     | Icmp cc x y \<Rightarrow> map_option (\<lambda>r. Gives IR_I8 (bool_value r)) (unsigned_cc cc (v x) (v y))
     | Icmp_imm cc x k \<Rightarrow>
         map_option (\<lambda>r. Gives IR_I8 (bool_value r)) (unsigned_cc cc (v x) (wrap_ty (t x) k))
     | Iadd_imm x k \<Rightarrow> Some (Gives (t x) (wrap_ty (t x) (int (v x) + k)))
     | Imul_imm x k \<Rightarrow> Some (Gives (t x) (wrap_ty (t x) (int (v x) * k)))
     | Band_imm x k \<Rightarrow> Some (Gives (t x) (nat (and (int (v x)) k)))
     | Ishl_imm x k \<Rightarrow>
         Some (Gives (t x) (wrap_ty (t x) (int (v x) * 2 ^ nat (k mod int (ty_bits (t x))))))
     | Select_spectre_guard c x y \<Rightarrow>
         if t x = t y then Some (Gives (t x) (if v c \<noteq> 0 then v x else v y)) else None
     | Uadd_overflow_trap x y code \<Rightarrow>
         Some (if v x + v y < 2 ^ ty_bits (t x) then Gives (t x) (v x + v y) else Traps code)
     | Global_value ty gv \<Rightarrow> Some (Gives ty (wrap_ty ty (int (g gv))))
     | Trap_inst code \<Rightarrow> Some (Traps code)
     | Trapnz x code \<Rightarrow> Some (if v x \<noteq> 0 then Traps code else Continues)
     | Trapz x code \<Rightarrow> Some (if v x = 0 then Traps code else Continues)
     | _ \<Rightarrow> None)"

text \<open>The operands of these instructions.\<close>

definition operands :: "inst \<Rightarrow> ir_Value list" where
  "operands i = (case i of
       Binary bop x y \<Rightarrow> [x, y]
     | Convert cop ty x \<Rightarrow> [x]
     | Icmp cc x y \<Rightarrow> [x, y]
     | Icmp_imm cc x k \<Rightarrow> [x]
     | Iadd_imm x k \<Rightarrow> [x]
     | Imul_imm x k \<Rightarrow> [x]
     | Band_imm x k \<Rightarrow> [x]
     | Ishl_imm x k \<Rightarrow> [x]
     | Select_spectre_guard c x y \<Rightarrow> [c, x, y]
     | Uadd_overflow_trap x y code \<Rightarrow> [x, y]
     | Trapnz x code \<Rightarrow> [x]
     | Trapz x code \<Rightarrow> [x]
     | _ \<Rightarrow> [])"

definition run_keeps :: "'b clif_ops \<Rightarrow> 'b clif_run \<Rightarrow> 'b \<Rightarrow> 'b \<Rightarrow> bool" where
  "run_keeps C R b b' \<longleftrightarrow> (\<forall>x. run_defined R b x \<longrightarrow> run_defined R b' x \<and>
     run_value R b' x = run_value R b x \<and> value_type_of C b' x = value_type_of C b x) \<and>
     run_global R b' = run_global R b"

definition outcome_of :: "'b clif_ops \<Rightarrow> 'b clif_run \<Rightarrow> 'b \<Rightarrow> inst \<Rightarrow> clif_outcome option" where
  "outcome_of C R b i = clif_meaning (run_value R b) (value_type_of C b) (run_global R b) i"

definition clif_contract :: "'b clif_ops \<Rightarrow> 'b clif_run \<Rightarrow> bool" where
  "clif_contract C R \<longleftrightarrow>
     (\<forall>b x. run_defined R b x \<longrightarrow> run_value R b x < 2 ^ ty_bits (value_type_of C b x)) \<and>
     (\<forall>b i v b'. ins C i b = (v, b') \<longrightarrow> run_keeps C R b b' \<and>
       (run_trap R b \<noteq> None \<longrightarrow> run_trap R b' = run_trap R b) \<and>
       (run_trap R b = None \<and> (\<forall>x\<in>set (operands i). run_defined R b x) \<longrightarrow>
         (case outcome_of C R b i of
            Some (Gives ty n) \<Rightarrow> run_trap R b' = None \<and> run_defined R b' v \<and>
              value_type_of C b' v = ty \<and> run_value R b' v = n
          | Some (Traps code) \<Rightarrow> run_trap R b' = Some code
          | _ \<Rightarrow> True))) \<and>
     (\<forall>b i n b'. ins_inst C i b = (n, b') \<longrightarrow> run_keeps C R b b' \<and>
       (run_trap R b \<noteq> None \<longrightarrow> run_trap R b' = run_trap R b) \<and>
       (run_trap R b = None \<and> (\<forall>x\<in>set (operands i). run_defined R b x) \<longrightarrow>
         (case outcome_of C R b i of
            Some (Traps code) \<Rightarrow> run_trap R b' = Some code
          | Some Continues \<Rightarrow> run_trap R b' = None
          | _ \<Rightarrow> True)))"

lemma run_keeps_refl [simp]: "run_keeps C R b b"
  by (simp add: run_keeps_def)

lemma run_keeps_trans: "run_keeps C R a b \<Longrightarrow> run_keeps C R b c \<Longrightarrow> run_keeps C R a c"
  by (simp add: run_keeps_def)

lemma clif_bounded:
  "clif_contract C R \<Longrightarrow> run_defined R b x \<Longrightarrow> run_value R b x < 2 ^ ty_bits (value_type_of C b x)"
  by (simp add: clif_contract_def)

lemma clif_ins:
  assumes "clif_contract C R" and "ins C i b = (v, b')"
  shows "run_keeps C R b b'" "run_trap R b \<noteq> None \<Longrightarrow> run_trap R b' = run_trap R b"
    "run_trap R b = None \<Longrightarrow> \<forall>x\<in>set (operands i). run_defined R b x \<Longrightarrow> outcome_of C R b i = Some (Gives ty n) \<Longrightarrow>
      run_trap R b' = None \<and> run_defined R b' v \<and> value_type_of C b' v = ty \<and> run_value R b' v = n"
    "run_trap R b = None \<Longrightarrow> \<forall>x\<in>set (operands i). run_defined R b x \<Longrightarrow> outcome_of C R b i = Some (Traps code) \<Longrightarrow>
      run_trap R b' = Some code"
  using assms unfolding clif_contract_def by (fastforce split: option.splits clif_outcome.splits)+

lemma clif_ins_inst:
  assumes "clif_contract C R" and "ins_inst C i b = (n, b')"
  shows "run_keeps C R b b'" "run_trap R b \<noteq> None \<Longrightarrow> run_trap R b' = run_trap R b"
    "run_trap R b = None \<Longrightarrow> \<forall>x\<in>set (operands i). run_defined R b x \<Longrightarrow> outcome_of C R b i = Some (Traps code) \<Longrightarrow>
      run_trap R b' = Some code"
    "run_trap R b = None \<Longrightarrow> \<forall>x\<in>set (operands i). run_defined R b x \<Longrightarrow> outcome_of C R b i = Some Continues \<Longrightarrow>
      run_trap R b' = None"
  using assms unfolding clif_contract_def by (fastforce split: option.splits clif_outcome.splits)+

end
