(* ===== verification/Heap_Bounds.thy ===== *)
theory Heap_Bounds
  imports Clif Instance_Alloc
begin

text \<open>
  Bounds checks of the code compiled for memory and table accesses:
  \<open>src/src/cranelift/memory.rs\<close> and \<open>CraneliftTable\<close> of \<open>src/src/cranelift/mod.rs\<close>. Proof-carrying
  code (memory types and value facts) is left out: \<open>Engine::default\<close> does not enable it in the
  target, so no memory type is ever made, and facts annotate values without changing the code.
\<close>

section \<open>The environment\<close>

text \<open>What the code asks of the target, such as the lowerings to x86 instructions that it has.\<close>

datatype X86Lowering = L_Blendv ir_Type | L_Pshufb | L_Pmulhrsw | L_Pmaddubsw

record TargetIsa =
  isa_pointer_type :: ir_Type
  isa_page_size_align_log2 :: nat
  isa_is_x86_64 :: bool
  isa_has_native_fma :: bool
  isa_has_lowering :: "X86Lowering \<Rightarrow> bool"

record TranslationEnvironment =
  te_isa :: TargetIsa
  te_module :: TranslatedModule
  te_types :: ModuleTypes
  te_offsets :: VMOffsets
  te_vmctx :: "GlobalValue option"
  te_relaxed_simd_deterministic :: bool
  te_heap_access_spectre_mitigation :: bool
  te_table_access_spectre_mitigation :: bool

definition pointer_type :: "TranslationEnvironment \<Rightarrow> ir_Type" where
  "pointer_type env = isa_pointer_type (te_isa env)"

section \<open>Memories\<close>

record CraneliftMemory =
  hm_base_gv :: GlobalValue
  hm_index_type :: ir_Type
  hm_bound :: nat
  hm_min_size :: nat
  hm_max_size :: "nat option"
  hm_offset_guard_size :: nat
  hm_page_size_log2 :: nat

text \<open>The offset and memory of an access; alignment is only a hint.\<close>

record MemArg =
  ma_offset :: nat
  ma_memory :: nat

datatype 'a Reachability = Reachable 'a | Unreachable

type_synonym ('a, 'b) emitter = "'b \<Rightarrow> ('a \<times> 'b) result"

definition cast_index_to_pointer_ty ::
  "'b clif_ops \<Rightarrow> ir_Value \<Rightarrow> ir_Type \<Rightarrow> ir_Type \<Rightarrow> (ir_Value, 'b) emitter" where
  "cast_index_to_pointer_ty C index index_ty pointer_ty b =
     (if index_ty = pointer_ty then Ok (index, b)
      else and_then (assert_that (ty_bits index_ty < ty_bits pointer_ty)
                       ''assertion failed: index_ty.bits() < pointer_ty.bits()'')
        (\<lambda>_. Ok (ins C (Convert Uextend pointer_ty index) b)))"

definition compute_addr ::
  "'b clif_ops \<Rightarrow> CraneliftMemory \<Rightarrow> ir_Type \<Rightarrow> ir_Value \<Rightarrow> nat \<Rightarrow> (ir_Value, 'b) emitter" where
  "compute_addr C mem addr_ty index offset b =
     and_then (assert_that (value_type_of C b index = addr_ty)
                 ''assertion `left == right` failed'')
     (\<lambda>_. case ins C (Global_value addr_ty (hm_base_gv mem)) b of (heap_base, b1) \<Rightarrow>
       case ins C (Binary Iadd heap_base index) b1 of (base_and_index, b2) \<Rightarrow>
         if offset = 0 then Ok (base_and_index, b2)
         else case ins C (Iconst addr_ty (int offset)) b2 of (offset_val, b3) \<Rightarrow>
           Ok (ins C (Binary Iadd base_and_index offset_val) b3))"

definition explicit_check_oob_condition_and_compute_addr ::
  "'b clif_ops \<Rightarrow> CraneliftMemory \<Rightarrow> ir_Type \<Rightarrow> ir_Value \<Rightarrow> nat \<Rightarrow> bool \<Rightarrow> ir_Value \<Rightarrow> (ir_Value, 'b) emitter" where
  "explicit_check_oob_condition_and_compute_addr C mem addr_ty index offset spectre oob_condition b =
     (if spectre
      then and_then (compute_addr C mem addr_ty index offset b)
        (\<lambda>(addr, b1). case ins C (Iconst addr_ty 0) b1 of (null, b2) \<Rightarrow>
           Ok (ins C (Select_spectre_guard oob_condition null addr) b2))
      else case ins_inst C (Trapnz oob_condition HEAP_OUT_OF_BOUNDS) b of (_, b1) \<Rightarrow>
        compute_addr C mem addr_ty index offset b1)"

text \<open>\<open>saturating_add\<close> of 64-bit numbers.\<close>

definition saturating_add :: "nat \<Rightarrow> nat \<Rightarrow> nat" where
  "saturating_add x y = min (x + y) (u64_bound - 1)"

definition bounds_check_and_compute_addr ::
  "'b clif_ops \<Rightarrow> TranslationEnvironment \<Rightarrow> CraneliftMemory \<Rightarrow> ir_Value \<Rightarrow> nat \<Rightarrow> nat \<Rightarrow>
     (ir_Value Reachability, 'b) emitter" where
  "bounds_check_and_compute_addr C env mem orig_index offset access_size b =
     and_then (cast_index_to_pointer_ty C orig_index (hm_index_type mem) (pointer_type env) b)
     (\<lambda>(index, b1). let offset_and_size = offset + access_size in
      and_then (assert_that (isa_page_size_align_log2 (te_isa env) \<le> hm_page_size_log2 mem)
                  ''k23's memories require the ability to use virtual memory'')
     (\<lambda>_. if hm_bound mem < offset_and_size
        then case ins_inst C (Trap_inst HEAP_OUT_OF_BOUNDS) b1 of (_, b2) \<Rightarrow> Ok (Unreachable, b2)
        else if hm_index_type mem = IR_I32 \<and> 2 ^ 32 - 1 \<le>
            saturating_add (saturating_add (hm_bound mem) (hm_offset_guard_size mem)) offset_and_size
        then map_ok (\<lambda>(addr, b2). (Reachable addr, b2)) (compute_addr C mem (pointer_type env) index offset b1)
        else let adjusted_bound = hm_bound mem - offset_and_size in
          and_then (expect (try_into (2 ^ 63) adjusted_bound) ''called `Result::unwrap()` on an `Err` value'')
          (\<lambda>k. case ins C (Iconst (pointer_type env) (int k)) b1 of (adjusted_bound_value, b2) \<Rightarrow>
             case ins C (Icmp CC_UnsignedGreaterThan index adjusted_bound_value) b2 of (oob, b3) \<Rightarrow>
               map_ok (\<lambda>(addr, b4). (Reachable addr, b4))
                 (explicit_check_oob_condition_and_compute_addr C mem (pointer_type env) index offset
                    (te_heap_access_spectre_mitigation env) oob b3))))"

definition heap_flags :: MemFlags where
  "heap_flags = memflags_new\<lparr>mf_little := True, mf_alias := Some Alias_Heap\<rparr>"

definition prepare_addr ::
  "'b clif_ops \<Rightarrow> TranslationEnvironment \<Rightarrow> CraneliftMemory \<Rightarrow> ir_Value \<Rightarrow> nat \<Rightarrow> MemArg \<Rightarrow>
     ((MemFlags \<times> ir_Value \<times> ir_Value) Reachability, 'b) emitter" where
  "prepare_addr C env mem index access_size memarg b =
     and_then
       (if ma_offset memarg < u32_bound
        then bounds_check_and_compute_addr C env mem index (ma_offset memarg) access_size b
        else and_then (expect (try_into (2 ^ 63) (ma_offset memarg)) ''called `Result::unwrap()` on an `Err` value'')
          (\<lambda>k. case ins C (Iconst (hm_index_type mem) (int k)) b of (offset, b1) \<Rightarrow>
             case ins C (Uadd_overflow_trap index offset HEAP_OUT_OF_BOUNDS) b1 of (adjusted_index, b2) \<Rightarrow>
               bounds_check_and_compute_addr C env mem adjusted_index 0 access_size b2))
     (\<lambda>(addr, b'). case addr of
         Unreachable \<Rightarrow> Ok (Unreachable, b')
       | Reachable a \<Rightarrow> Ok (Reachable (heap_flags, index, a), b'))"

definition prepare_atomic_addr ::
  "'b clif_ops \<Rightarrow> TranslationEnvironment \<Rightarrow> CraneliftMemory \<Rightarrow> ir_Value \<Rightarrow> nat \<Rightarrow> MemArg \<Rightarrow>
     ((MemFlags \<times> ir_Value \<times> ir_Value) Reachability, 'b) emitter" where
  "prepare_atomic_addr C env mem index loaded_bytes memarg b =
     and_then
       (if 1 < loaded_bytes
        then and_then
          (if ma_offset memarg = 0 then Ok (index, b)
           else and_then (expect (try_into (2 ^ 63) (ma_offset memarg)) ''called `Result::unwrap()` on an `Err` value'')
             (\<lambda>k. Ok (ins C (Iadd_imm index (int k)) b)))
          (\<lambda>(effective_addr, b1). and_then (assert_that (is_power_of_two loaded_bytes)
                                    ''assertion failed: loaded_bytes.is_power_of_two()'')
          (\<lambda>_. case ins C (Band_imm effective_addr (int loaded_bytes - 1)) b1 of (misalignment, b2) \<Rightarrow>
             case ins C (Icmp_imm CC_NotEqual misalignment 0) b2 of (f, b3) \<Rightarrow>
               Ok (snd (ins_inst C (Trapnz f TRAP_HEAP_MISALIGNED) b3))))
        else Ok b)
     (\<lambda>b'. prepare_addr C env mem index loaded_bytes memarg b')"

section \<open>Tables\<close>

record CraneliftTable =
  ct_base_gv :: GlobalValue
  ct_bound :: nat
  ct_element_size :: nat

text \<open>\<open>trailing_zeros\<close> of a power of two.\<close>

fun trailing_zeros :: "nat \<Rightarrow> nat" where
  "trailing_zeros n = (if n = 0 \<or> odd n then 0 else Suc (trailing_zeros (n div 2)))"

declare trailing_zeros.simps [simp del]

definition table_flags :: MemFlags where
  "table_flags = memflags_new\<lparr>mf_aligned := True, mf_alias := Some Alias_Table\<rparr>"

definition table_prepare_addr ::
  "'b clif_ops \<Rightarrow> CraneliftTable \<Rightarrow> ir_Value \<Rightarrow> ir_Type \<Rightarrow> bool \<Rightarrow> (ir_Value \<times> MemFlags, 'b) emitter" where
  "table_prepare_addr C table index0 pointer_ty spectre b =
     (let index_ty = value_type_of C b index0 in
      and_then (expect (try_into (2 ^ 63) (ct_bound table)) ''called `Result::unwrap()` on an `Err` value'')
      (\<lambda>k. case ins C (Iconst index_ty (int k)) b of (bound, b1) \<Rightarrow>
        case ins C (Icmp CC_UnsignedGreaterThanOrEqual index0 bound) b1 of (oob, b2) \<Rightarrow>
        let b3 = (if spectre then b2 else snd (ins_inst C (Trapnz oob TRAP_TABLE_OUT_OF_BOUNDS) b2)) in
        case (if index_ty \<noteq> pointer_ty then ins C (Convert Uextend pointer_ty index0) b3 else (index0, b3)) of (index, b4) \<Rightarrow>
        case ins C (Global_value pointer_ty (ct_base_gv table)) b4 of (base, b5) \<Rightarrow>
        case (if ct_element_size table = 1 then (index, b5)
              else if is_power_of_two (ct_element_size table)
              then ins C (Ishl_imm index (int (trailing_zeros (ct_element_size table)))) b5
              else ins C (Imul_imm index (int (ct_element_size table))) b5) of (offset, b6) \<Rightarrow>
        case ins C (Binary Iadd base offset) b6 of (element_addr, b7) \<Rightarrow>
        if spectre
        then case ins C (Iconst pointer_ty 0) b7 of (zero, b8) \<Rightarrow>
          case ins C (Select_spectre_guard oob zero element_addr) b8 of (addr, b9) \<Rightarrow>
            Ok ((addr, table_flags\<lparr>mf_trap_code := Some (Some TRAP_TABLE_OUT_OF_BOUNDS)\<rparr>), b9)
        else Ok ((element_addr, table_flags\<lparr>mf_trap_code := Some None\<rparr>), b7)))"

section \<open>Running address computations\<close>

lemmas clif_eval = outcome_of_def clif_meaning_def operands_def

lemma ins_gives:
  assumes "clif_contract C R" and "ins C i b = (v, b')" and "run_trap R b = None"
    and "\<forall>x\<in>set (operands i). run_defined R b x" and "outcome_of C R b i = Some (Gives ty n)"
  shows "run_trap R b' = None" "run_keeps C R b b'" "run_defined R b' v"
    "value_type_of C b' v = ty" "run_value R b' v = n"
  using clif_ins(1,3) [OF assms(1,2)] assms(3-5) by blast+

lemma keepsD:
  assumes "run_keeps C R b b'" and "run_defined R b x"
  shows "run_defined R b' x" "run_value R b' x = run_value R b x" "value_type_of C b' x = value_type_of C b x"
  using assms by (auto simp: run_keeps_def)

lemma keeps_global: "run_keeps C R b b' \<Longrightarrow> run_global R b' = run_global R b"
  by (simp add: run_keeps_def)

lemma wrap_ty_nat: "wrap_ty t (int n) = n mod 2 ^ ty_bits t"
  by (simp add: wrap_ty_def flip: zmod_int) (metis nat_int of_nat_numeral of_nat_power zmod_int)

lemma run_iadd:
  assumes "clif_contract C R" and "ins C (Binary Iadd x y) b = (v, b')" and "run_trap R b = None"
    and "run_defined R b x" and "run_defined R b y"
  shows "run_trap R b' = None" "run_keeps C R b b'" "run_defined R b' v"
    "value_type_of C b' v = value_type_of C b x"
    "run_value R b' v = (run_value R b x + run_value R b y) mod 2 ^ ty_bits (value_type_of C b x)"
  using ins_gives [OF assms(1-3)] assms(4,5)
    wrap_ty_nat [of "value_type_of C b x" "run_value R b x + run_value R b y"]
  by (simp_all add: clif_eval)

lemma run_iconst:
  assumes "clif_contract C R" and "ins C (Iconst ty (int n)) b = (v, b')" and "run_trap R b = None"
  shows "run_trap R b' = None" "run_keeps C R b b'" "run_defined R b' v"
    "value_type_of C b' v = ty" "run_value R b' v = n mod 2 ^ ty_bits ty"
  using ins_gives [OF assms(1-3)] by (simp_all add: clif_eval wrap_ty_nat)

lemma run_global_value:
  assumes "clif_contract C R" and "ins C (Global_value ty gv) b = (v, b')" and "run_trap R b = None"
  shows "run_trap R b' = None" "run_keeps C R b b'" "run_defined R b' v"
    "value_type_of C b' v = ty" "run_value R b' v = run_global R b gv mod 2 ^ ty_bits ty"
  using ins_gives [OF assms(1-3)] by (simp_all add: clif_eval wrap_ty_nat)

lemma run_uextend:
  assumes "clif_contract C R" and "ins C (Convert Uextend ty x) b = (v, b')" and "run_trap R b = None"
    and "run_defined R b x" and "ty_bits (value_type_of C b x) \<le> ty_bits ty"
  shows "run_trap R b' = None" "run_keeps C R b b'" "run_defined R b' v"
    "value_type_of C b' v = ty" "run_value R b' v = run_value R b x"
  using ins_gives [OF assms(1-3)] assms(4,5) by (simp_all add: clif_eval)

lemma run_icmp:
  assumes "clif_contract C R" and "ins C (Icmp cc x y) b = (v, b')" and "run_trap R b = None"
    and "run_defined R b x" and "run_defined R b y"
    and "unsigned_cc cc (run_value R b x) (run_value R b y) = Some r"
  shows "run_trap R b' = None" "run_keeps C R b b'" "run_defined R b' v"
    "run_value R b' v = bool_value r"
  using ins_gives [OF assms(1-3)] assms(4-6) by (simp_all add: clif_eval)

lemma run_spectre_guard:
  assumes "clif_contract C R" and "ins C (Select_spectre_guard c x y) b = (v, b')" and "run_trap R b = None"
    and "run_defined R b c" and "run_defined R b x" and "run_defined R b y"
    and "value_type_of C b x = value_type_of C b y"
  shows "run_trap R b' = None" "run_keeps C R b b'" "run_defined R b' v"
    "value_type_of C b' v = value_type_of C b x"
    "run_value R b' v = (if run_value R b c \<noteq> 0 then run_value R b x else run_value R b y)"
  using ins_gives [OF assms(1-3)] assms(4-7) by (simp_all add: clif_eval)

lemma run_trapnz:
  assumes "clif_contract C R" and "ins_inst C (Trapnz x code) b = (n, b')" and "run_trap R b = None"
    and "run_defined R b x"
  shows "run_keeps C R b b'" "run_trap R b' = (if run_value R b x \<noteq> 0 then Some code else None)"
  using clif_ins_inst [OF assms(1,2)] assms(3,4) by (auto simp: clif_eval)

lemma compute_addr_run:
  assumes C: "clif_contract C R" and "compute_addr C mem ty index offset b = Ok (a, b')"
    and "run_trap R b = None" and "run_defined R b index"
  shows "run_trap R b' = None \<and> run_keeps C R b b' \<and> run_defined R b' a \<and> value_type_of C b' a = ty \<and>
    run_value R b' a = (run_global R b (hm_base_gv mem) + run_value R b index + offset) mod 2 ^ ty_bits ty"
proof -
  obtain heap b1 where 1: "ins C (Global_value ty (hm_base_gv mem)) b = (heap, b1)" by fastforce
  obtain bi b2 where 2: "ins C (Binary Iadd heap index) b1 = (bi, b2)" by fastforce
  note r1 = run_global_value [OF C 1 assms(3)]
  note k1 = keepsD [OF r1(2) assms(4)]
  note r2 = run_iadd [OF C 2 r1(1,3) k1(1)]
  show ?thesis
  proof (cases "offset = 0")
    case True
    with assms(2) 1 2 r1 r2 k1 run_keeps_trans [OF r1(2) r2(2)] show ?thesis
      by (auto simp: compute_addr_def mod_add_left_eq)
  next
    case False
    obtain ov b3 where 3: "ins C (Iconst ty (int offset)) b2 = (ov, b3)" by fastforce
    obtain v b4 where 4: "ins C (Binary Iadd bi ov) b3 = (v, b4)" by fastforce
    note r3 = run_iconst [OF C 3 r2(1)]
    note k3 = keepsD [OF r3(2) r2(3)]
    note r4 = run_iadd [OF C 4 r3(1) k3(1) r3(3)]
    have "run_keeps C R b b4" using r1(2) r2(2) r3(2) r4(2) by (meson run_keeps_trans)
    with False assms(2) 1 2 3 4 r1 r2 r3 r4 k1 k3 show ?thesis
      by (auto simp: compute_addr_def mod_add_left_eq mod_add_right_eq)
  qed
qed

lemma compute_addr_trapped:
  assumes "clif_contract C R" and "compute_addr C mem ty index offset b = Ok (a, b')"
    and "run_trap R b = Some code"
  shows "run_trap R b' = Some code"
  using assms(2,3) clif_ins(2) [OF assms(1)]
  by (auto simp: compute_addr_def split: prod.splits if_splits)

lemma explicit_check_run:
  assumes C: "clif_contract C R" and "run_trap R b = None" and "run_defined R b index" and "run_defined R b oob"
    and e: "explicit_check_oob_condition_and_compute_addr C mem ty index offset spectre oob b = Ok (a, b')"
  shows "if run_value R b oob = 0 then run_trap R b' = None \<and>
      run_value R b' a = (run_global R b (hm_base_gv mem) + run_value R b index + offset) mod 2 ^ ty_bits ty
    else if spectre then run_trap R b' = None \<and> run_value R b' a = 0
    else run_trap R b' = Some HEAP_OUT_OF_BOUNDS"
proof (cases spectre)
  case True
  with e obtain addr b1 where 1: "compute_addr C mem ty index offset b = Ok (addr, b1)"
    by (auto simp: explicit_check_oob_condition_and_compute_addr_def)
  obtain null b2 where 2: "ins C (Iconst ty (int 0)) b1 = (null, b2)" by fastforce
  note r1 = compute_addr_run [OF C 1 assms(2,3)]
  note r2 = run_iconst [OF C 2 conjunct1 [OF r1]]
  have k: "run_keeps C R b b2" using r1 r2(2) by (blast intro: run_keeps_trans)
  have d: "run_defined R b1 addr" and t: "value_type_of C b1 addr = ty" using r1 by blast+
  have 3: "ins C (Select_spectre_guard oob null addr) b2 = (a, b')"
    using e True 1 2 by (auto simp: explicit_check_oob_condition_and_compute_addr_def)
  have "value_type_of C b2 null = value_type_of C b2 addr" using t r2(4) keepsD(3) [OF r2(2) d] by simp
  note r3 = run_spectre_guard [OF C 3 r2(1) keepsD(1) [OF k assms(4)] r2(3) keepsD(1) [OF r2(2) d] this]
  show ?thesis
    using r1 r2(5) r3 keepsD(2) [OF k assms(4)] keepsD(2) [OF r2(2) d] True by simp
next
  case False
  obtain n b1 where 1: "ins_inst C (Trapnz oob HEAP_OUT_OF_BOUNDS) b = (n, b1)" by fastforce
  with e False have 2: "compute_addr C mem ty index offset b1 = Ok (a, b')"
    by (simp add: explicit_check_oob_condition_and_compute_addr_def)
  note r1 = run_trapnz [OF C 1 assms(2,4)]
  show ?thesis
  proof (cases "run_value R b oob = 0")
    case True
    with compute_addr_run [OF C 2 _ keepsD(1) [OF r1(1) assms(3)]] r1 show ?thesis
      by (simp add: keepsD(2) [OF r1(1) assms(3)] keeps_global)
  next
    case nz: False
    with compute_addr_trapped [OF C 2] r1 False show ?thesis by simp
  qed
qed

text \<open>Whether an access is emitted without an explicit check.\<close>

definition unchecked_access :: "CraneliftMemory \<Rightarrow> nat \<Rightarrow> bool" where
  "unchecked_access mem offset_and_size \<longleftrightarrow> hm_index_type mem = IR_I32 \<and>
     2 ^ 32 - 1 \<le> saturating_add (saturating_add (hm_bound mem) (hm_offset_guard_size mem)) offset_and_size"

text \<open>
  What a bounds-checked address computation does on a 64-bit target, for every index the access
  can have at run time.
\<close>

lemma bounds_check_run:
  assumes C: "clif_contract C R" and nt: "run_trap R b = None" and def: "run_defined R b index"
    and ty: "value_type_of C b index = hm_index_type mem" "hm_index_type mem = IR_I32 \<or> hm_index_type mem = IR_I64"
      "pointer_type env = IR_I64"
    and bc: "bounds_check_and_compute_addr C env mem index offset sz b = Ok (r, b')"
  shows "case r of
      Unreachable \<Rightarrow> hm_bound mem < offset + sz \<and> run_trap R b' = Some HEAP_OUT_OF_BOUNDS
    | Reachable a \<Rightarrow> offset + sz \<le> hm_bound mem \<and>
        (if unchecked_access mem (offset + sz) \<or> run_value R b index + offset + sz \<le> hm_bound mem
         then run_trap R b' = None \<and>
           run_value R b' a = (run_global R b (hm_base_gv mem) + run_value R b index + offset) mod 2 ^ 64
         else if te_heap_access_spectre_mitigation env then run_trap R b' = None \<and> run_value R b' a = 0
         else run_trap R b' = Some HEAP_OUT_OF_BOUNDS)"
proof -
  let ?v = "run_value R b index" and ?g = "run_global R b (hm_base_gv mem)"
  from bc obtain i1 b1 where cast: "cast_index_to_pointer_ty C index (hm_index_type mem) IR_I64 b = Ok (i1, b1)"
    by (auto simp: bounds_check_and_compute_addr_def ty(3))
  have c: "run_trap R b1 = None" "run_keeps C R b b1" "run_defined R b1 i1" "run_value R b1 i1 = ?v"
    "value_type_of C b1 i1 = IR_I64"
    using cast run_uextend [OF C, of IR_I64 index b i1 b1] nt def ty
    by (auto simp: cast_index_to_pointer_ty_def split: if_splits)
  note g = keeps_global [OF c(2)]
  consider (trap) "hm_bound mem < offset + sz"
    | (free) "offset + sz \<le> hm_bound mem" "unchecked_access mem (offset + sz)"
    | (check) "offset + sz \<le> hm_bound mem" "\<not> unchecked_access mem (offset + sz)" by linarith
  then show ?thesis
  proof cases
    case trap
    obtain n b2 where t: "ins_inst C (Trap_inst HEAP_OUT_OF_BOUNDS) b1 = (n, b2)" by fastforce
    have "run_trap R b2 = Some HEAP_OUT_OF_BOUNDS"
      by (rule clif_ins_inst(3) [OF C t c(1)]) (simp_all add: clif_eval)
    with bc trap cast t show ?thesis
      by (auto simp: bounds_check_and_compute_addr_def ty(3) Let_def)
  next
    case free
    with bc cast obtain a where r: "r = Reachable a" "compute_addr C mem IR_I64 i1 offset b1 = Ok (a, b')"
      by (auto simp: bounds_check_and_compute_addr_def ty(3) Let_def unchecked_access_def)
    from compute_addr_run [OF C r(2) c(1,3)] free r(1) show ?thesis by (simp add: c(4) g)
  next
    case check
    let ?k = "hm_bound mem - (offset + sz)"
    obtain bv b2 where 2: "ins C (Iconst IR_I64 (int ?k)) b1 = (bv, b2)" by fastforce
    obtain oob b3 where 3: "ins C (Icmp CC_UnsignedGreaterThan i1 bv) b2 = (oob, b3)" by fastforce
    from bc cast check 2 3 obtain a where k: "?k < 2 ^ 63" and r: "r = Reachable a"
      "explicit_check_oob_condition_and_compute_addr C mem IR_I64 i1 offset (te_heap_access_spectre_mitigation env) oob b3 = Ok (a, b')"
      by (auto simp: bounds_check_and_compute_addr_def ty(3) Let_def unchecked_access_def)
    note r2 = run_iconst [OF C 2 c(1)]
    note k2 = keepsD [OF r2(2) c(3)]
    have v2: "run_value R b2 bv = ?k" using r2(5) k by simp
    have "unsigned_cc CC_UnsignedGreaterThan (run_value R b2 i1) (run_value R b2 bv) = Some (?k < ?v)"
      by (simp add: k2(2) c(4) v2)
    note r3 = run_icmp [OF C 3 r2(1) k2(1) r2(3) this]
    note k3 = keepsD [OF r3(2) k2(1)]
    from explicit_check_run [OF C r3(1) k3(1) r3(3) r(2)] check r(1) show ?thesis
      by (auto simp: r3(4) k3(2) k2(2) c(4) keeps_global [OF r3(2)] keeps_global [OF r2(2)] g bool_value_def)
  qed
qed

text \<open>
  A large static offset is added to the index first, with an overflow trap; the effective index
  and offset of an access are then these.
\<close>

lemma prepare_addr_run:
  assumes C: "clif_contract C R" and nt: "run_trap R b = None" and def: "run_defined R b index"
    and ty: "value_type_of C b index = hm_index_type mem" "hm_index_type mem = IR_I32 \<or> hm_index_type mem = IR_I64"
      "pointer_type env = IR_I64"
    and small: "ma_offset memarg < 2 ^ 32"
    and p: "prepare_addr C env mem index sz memarg b = Ok (r, b')"
  shows "case r of
      Unreachable \<Rightarrow> hm_bound mem < ma_offset memarg + sz \<and> run_trap R b' = Some HEAP_OUT_OF_BOUNDS
    | Reachable (fl, w, a) \<Rightarrow> fl = heap_flags \<and> w = index \<and> ma_offset memarg + sz \<le> hm_bound mem \<and>
        (if unchecked_access mem (ma_offset memarg + sz) \<or> run_value R b index + ma_offset memarg + sz \<le> hm_bound mem
         then run_trap R b' = None \<and>
           run_value R b' a = (run_global R b (hm_base_gv mem) + run_value R b index + ma_offset memarg) mod 2 ^ 64
         else if te_heap_access_spectre_mitigation env then run_trap R b' = None \<and> run_value R b' a = 0
         else run_trap R b' = Some HEAP_OUT_OF_BOUNDS)"
proof -
  from p small obtain r1 b1 where r1: "bounds_check_and_compute_addr C env mem index (ma_offset memarg) sz b = Ok (r1, b1)"
    and r: "(case r1 of Unreachable \<Rightarrow> Ok (Unreachable, b1) | Reachable a \<Rightarrow> Ok (Reachable (heap_flags, index, a), b1)) = (Ok (r, b') :: _ result)"
    by (auto simp: prepare_addr_def)
  show ?thesis
    using bounds_check_run [OF C nt def ty r1] r by (cases r1) auto
qed

section \<open>A machine that runs the code\<close>

text \<open>A builder that executes what it is given, to show that the contract can hold.\<close>

record machine =
  mc_values :: "(ir_Type \<times> nat) list"
  mc_globals :: "GlobalValue \<Rightarrow> nat"
  mc_stopped :: "TrapCode option"

definition machine_type :: "machine \<Rightarrow> ir_Value \<Rightarrow> ir_Type" where
  "machine_type m x = (if x < length (mc_values m) then fst (mc_values m ! x) else IR_I64)"

definition machine_value :: "machine \<Rightarrow> ir_Value \<Rightarrow> nat" where
  "machine_value m x = (if x < length (mc_values m) then snd (mc_values m ! x) mod 2 ^ ty_bits (machine_type m x) else 0)"

definition machine_step :: "inst \<Rightarrow> machine \<Rightarrow> nat \<times> machine" where
  "machine_step i m = (length (mc_values m),
     if mc_stopped m \<noteq> None then m
     else case clif_meaning (machine_value m) (machine_type m) (mc_globals m) i of
         Some (Gives ty n) \<Rightarrow> m\<lparr>mc_values := mc_values m @ [(ty, n)]\<rparr>
       | Some (Traps code) \<Rightarrow> m\<lparr>mc_stopped := Some code\<rparr>
       | _ \<Rightarrow> m)"

definition machine_ops :: "machine clif_ops" where
  "machine_ops = \<lparr>ins = machine_step, ins_inst = machine_step, inst_results = \<lambda>_ _. [],
     value_type_of = machine_type, create_global_value = \<lambda>_ m. (0, m), import_signature = \<lambda>_ m. (0, m),
     import_function = \<lambda>_ m. (0, m), signature_of = \<lambda>_ _. \<lparr>sig_params = [], sig_returns = []\<rparr>,
     ext_func_signature = \<lambda>_ _. 0, special_vmctx = \<lambda>_. None,
     func_signature = \<lambda>_. \<lparr>sig_params = [], sig_returns = []\<rparr>, create_block = \<lambda>m. (0, m),
     append_block_param = \<lambda>_ _ m. (0, m), declare_stack_map = \<lambda>_ m. m, block_params = \<lambda>_ _. [],
     switch_to_block = \<lambda>_ m. m, seal_block = \<lambda>_ m. m, change_jump_destination = \<lambda>_ _ _ m. m,
     use_var = \<lambda>_ m. (0, m), def_var = \<lambda>_ _ m. m, set_val_label = \<lambda>_ _ m. m, is_unreachable = \<lambda>_. False,
     declare_var = \<lambda>_ _ m. m, declare_var_stack_map = \<lambda>_ m. m, append_params_for_function_params = \<lambda>_ m. m,
     append_params_for_function_returns = \<lambda>_ m. m, ensure_inserted_block = \<lambda>m. m, set_srcloc = \<lambda>_ m. m,
     finalize = \<lambda>m. m\<rparr>"

definition machine_run :: "machine clif_run" where
  "machine_run = \<lparr>run_defined = \<lambda>m x. x < length (mc_values m), run_value = machine_value,
     run_global = mc_globals, run_trap = mc_stopped\<rparr>"

lemma machine_contract: "clif_contract machine_ops machine_run"
proof -
  have bounded: "n < 2 ^ ty_bits ty"
    if "clif_meaning (machine_value m) (machine_type m) (mc_globals m) i = Some (Gives ty n)"
      "\<forall>x\<in>set (operands i). x < length (mc_values m)" for m i ty n
  proof -
    have v: "machine_value m x < 2 ^ ty_bits (machine_type m x)" for x
      by (simp add: machine_value_def)
    have w: "wrap_ty t k < 2 ^ ty_bits t" for t k
      by (simp add: wrap_ty_def nat_less_iff)
    have le: "machine_value m x < 2 ^ k" if "ty_bits (machine_type m x) \<le> k" for x k
      using less_le_trans [OF v [of x]] that by simp
    have a: "nat (and (int (machine_value m x)) k) < 2 ^ ty_bits (machine_type m x)" for x k
      using le_less_trans [OF _ v [of x]] by (simp add: nat_le_iff)
    from that(1) show ?thesis
      by (cases i) (auto simp: clif_meaning_def bool_value_def v w le a split: if_splits)
  qed
  have keeps: "run_keeps machine_ops machine_run m (snd (machine_step i m))" for i m
    by (auto simp: run_keeps_def machine_step_def machine_run_def machine_ops_def machine_type_def
        machine_value_def nth_append split: option.splits clif_outcome.splits)
  show ?thesis
    unfolding clif_contract_def
  proof (intro conjI allI impI)
    fix m x
    show "run_value machine_run m x < 2 ^ ty_bits (value_type_of machine_ops m x)"
      by (simp add: machine_run_def machine_ops_def machine_value_def)
  next
    fix m i v m'
    assume "ins machine_ops i m = (v, m')"
    then have s: "machine_step i m = (v, m')" by (simp add: machine_ops_def)
    show "run_keeps machine_ops machine_run m m'" using keeps [of m i] s by simp
    show "run_trap machine_run m' = run_trap machine_run m" if "run_trap machine_run m \<noteq> None"
      using s that by (auto simp: machine_step_def machine_run_def)
    show "case outcome_of machine_ops machine_run m i of
          Some (Gives ty n) \<Rightarrow> run_trap machine_run m' = None \<and> run_defined machine_run m' v \<and>
            value_type_of machine_ops m' v = ty \<and> run_value machine_run m' v = n
        | Some (Traps code) \<Rightarrow> run_trap machine_run m' = Some code
        | _ \<Rightarrow> True"
      if "run_trap machine_run m = None \<and> (\<forall>x\<in>set (operands i). run_defined machine_run m x)"
      using s that bounded [of m i]
      by (auto simp: outcome_of_def machine_step_def machine_run_def machine_ops_def machine_type_def
          machine_value_def split: option.splits clif_outcome.splits)
  next
    fix m i v m'
    assume "ins_inst machine_ops i m = (v, m')"
    then have s: "machine_step i m = (v, m')" by (simp add: machine_ops_def)
    show "run_keeps machine_ops machine_run m m'" using keeps [of m i] s by simp
    show "run_trap machine_run m' = run_trap machine_run m" if "run_trap machine_run m \<noteq> None"
      using s that by (auto simp: machine_step_def machine_run_def)
    show "case outcome_of machine_ops machine_run m i of
          Some (Traps code) \<Rightarrow> run_trap machine_run m' = Some code
        | Some Continues \<Rightarrow> run_trap machine_run m' = None
        | _ \<Rightarrow> True"
      if "run_trap machine_run m = None \<and> (\<forall>x\<in>set (operands i). run_defined machine_run m x)"
      using s that by (auto simp: outcome_of_def machine_step_def machine_run_def machine_ops_def
          split: option.splits clif_outcome.splits)
  qed
qed

end
