(* ===== verification/Cranelift_Env.thy ===== *)
theory Cranelift_Env
  imports Heap_Bounds Compile
begin

text \<open>
  The translation environment of \<open>src/src/cranelift/env.rs\<close> with the type mappings of
  \<open>src/src/utils.rs\<close>: how compiled code finds the tables, memories, globals and functions of its
  instance, and the code emitted for calls. The environment caches the context's global value,
  so the operations that may create it return the environment as well.
\<close>

section \<open>Types and signatures\<close>

definition reference_type :: "WasmHeapType \<Rightarrow> ir_Type \<Rightarrow> ir_Type result" where
  "reference_type wasm_ht pointer_ty = (case top_inner (top_type wasm_ht) of
       Top_Func \<Rightarrow> Ok pointer_ty
     | Top_Any \<Rightarrow> Ok IR_I32
     | Top_Extern \<Rightarrow> Ok IR_I32
     | Top_Exn \<Rightarrow> Panic ''not yet implemented''
     | Top_Cont \<Rightarrow> Panic ''not yet implemented'')"

fun value_type :: "WasmValType \<Rightarrow> ir_Type \<Rightarrow> ir_Type result" where
  "value_type I32 p = Ok IR_I32"
| "value_type I64 p = Ok IR_I64"
| "value_type F32 p = Ok IR_F32"
| "value_type F64 p = Ok IR_F64"
| "value_type V128 p = Ok IR_I8X16"
| "value_type (Ref rf) p = reference_type (heap_type rf) p"

text \<open>The context parameters of caller and callee come first.\<close>

definition blank_sig :: "ir_Type \<Rightarrow> Signature" where
  "blank_sig p = \<lparr>sig_params = [p, p], sig_returns = []\<rparr>"

definition wasm_call_signature :: "ir_Type \<Rightarrow> WasmFuncType \<Rightarrow> Signature result" where
  "wasm_call_signature p func_ty = (let sig = blank_sig p in
     and_then (collect (\<lambda>t. value_type t p) (params func_ty))
     (\<lambda>ps. and_then (collect (\<lambda>t. value_type t p) (results func_ty))
     (\<lambda>rs. Ok (sig\<lparr>sig_params := sig_params sig @ ps, sig_returns := sig_returns sig @ rs\<rparr>))))"

definition env_reference_type :: "TranslationEnvironment \<Rightarrow> WasmHeapType \<Rightarrow> (ir_Type \<times> bool) result" where
  "env_reference_type env hty =
     and_then (reference_type hty (pointer_type env))
     (\<lambda>ty. case top_inner (top_type hty) of
         Top_Extern \<Rightarrow> Ok (ty, True)
       | Top_Any \<Rightarrow> Ok (ty, True)
       | Top_Func \<Rightarrow> Ok (ty, False)
       | _ \<Rightarrow> Panic ''not yet implemented'')"

definition env_convert_heap_type :: "TranslationEnvironment \<Rightarrow> wp_HeapType \<Rightarrow> WasmHeapType result" where
  "env_convert_heap_type env ty = convert_heap_type (te_types env) (mod_types (te_module env)) ty"

definition is_wasm_parameter :: "nat \<Rightarrow> bool" where
  "is_wasm_parameter index \<longleftrightarrow> 2 \<le> index"

section \<open>Locations\<close>

text \<open>\<open>TranslationEnvironment::new\<close>.\<close>

definition env_new ::
  "TargetIsa \<Rightarrow> TranslatedModule \<Rightarrow> ModuleTypes \<Rightarrow> TranslationEnvironment result" where
  "env_new isa m types =
     and_then (for_module (ty_bytes (isa_pointer_type isa)) m)
     (\<lambda>offsets. Ok \<lparr>te_isa = isa, te_module = m, te_types = types, te_offsets = offsets, te_vmctx = None,
        te_relaxed_simd_deterministic = False, te_heap_access_spectre_mitigation = True,
        te_table_access_spectre_mitigation = True\<rparr>)"

definition env_vmctx ::
  "'b clif_ops \<Rightarrow> TranslationEnvironment \<Rightarrow> 'b \<Rightarrow> GlobalValue \<times> TranslationEnvironment \<times> 'b" where
  "env_vmctx C env b = (case te_vmctx env of
       Some vmctx \<Rightarrow> (vmctx, env, b)
     | None \<Rightarrow> (case create_global_value C GV_VMContext b of (vmctx, b') \<Rightarrow>
         (vmctx, env\<lparr>te_vmctx := Some vmctx\<rparr>, b')))"

definition vmctx_val ::
  "'b clif_ops \<Rightarrow> TranslationEnvironment \<Rightarrow> 'b \<Rightarrow> ir_Value \<times> TranslationEnvironment \<times> 'b" where
  "vmctx_val C env b = (case env_vmctx C env b of (vmctx, env', b1) \<Rightarrow>
     case ins C (Global_value (pointer_type env) vmctx) b1 of (v, b2) \<Rightarrow> (v, env', b2))"

text \<open>\<open>i32::try_from(..).unwrap()\<close> of an offset.\<close>

definition to_i32 :: "nat \<Rightarrow> int result" where
  "to_i32 n = map_ok int (expect (try_into (2 ^ 31) n) ''called `Result::unwrap()` on an `Err` value'')"

definition readonly_flags :: MemFlags where
  "readonly_flags = memflags_trusted\<lparr>mf_readonly := True\<rparr>"

definition load_pointer ::
  "'b clif_ops \<Rightarrow> TranslationEnvironment \<Rightarrow> GlobalValue \<Rightarrow> nat \<Rightarrow> 'b \<Rightarrow> (GlobalValue \<times> 'b) result" where
  "load_pointer C env base offset b =
     and_then (to_i32 offset)
     (\<lambda>off. Ok (create_global_value C (GV_Load base off (pointer_type env) readonly_flags) b))"

definition get_global_location ::
  "'b clif_ops \<Rightarrow> TranslationEnvironment \<Rightarrow> GlobalIndex \<Rightarrow> 'b \<Rightarrow>
     ((GlobalValue \<times> int) \<times> TranslationEnvironment \<times> 'b) result" where
  "get_global_location C env index b = (case env_vmctx C env b of (vmctx, env', b1) \<Rightarrow>
     case defined_global_index (te_module env) index of
       Some def_index \<Rightarrow>
         and_then (vmctx_vmglobal_definition (te_offsets env) def_index)
         (\<lambda>off. and_then (to_i32 off) (\<lambda>offset. Ok ((vmctx, offset), env', b1)))
     | None \<Rightarrow>
         and_then (vmctx_vmglobal_import_from (te_offsets env) index)
         (\<lambda>from_offset. and_then (load_pointer C env vmctx from_offset b1)
         (\<lambda>(global, b2). Ok ((global, 0), env', b2))))"

datatype CraneliftGlobal = CG_Const ir_Value | CG_Memory GlobalValue int ir_Type | CG_Custom

definition make_global ::
  "'b clif_ops \<Rightarrow> TranslationEnvironment \<Rightarrow> GlobalIndex \<Rightarrow> 'b \<Rightarrow>
     (CraneliftGlobal \<times> TranslationEnvironment \<times> 'b) result" where
  "make_global C env index b =
     and_then (pm_index (globals (te_module env)) index)
     (\<lambda>global. and_then (assert_that (\<not> global_shared global) ''assertion failed: !global.shared'')
     (\<lambda>_. and_then (get_global_location C env index b)
     (\<lambda>((gv, offset), env', b'). and_then (value_type (content_type global) (pointer_type env))
     (\<lambda>ty. Ok (CG_Memory gv offset ty, env', b')))))"

definition make_table ::
  "'b clif_ops \<Rightarrow> TranslationEnvironment \<Rightarrow> TableIndex \<Rightarrow> 'b \<Rightarrow>
     (CraneliftTable \<times> TranslationEnvironment \<times> 'b) result" where
  "make_table C env index b =
     and_then (pm_index (tables (te_module env)) index)
     (\<lambda>table. case env_vmctx C env b of (vmctx, env', b1) \<Rightarrow>
      and_then (case defined_table_index (te_module env) index of
          Some def_index \<Rightarrow>
            and_then (vmctx_vmtable_definition_base (te_offsets env) def_index)
            (\<lambda>off. and_then (to_i32 off) (\<lambda>base_offset. Ok ((vmctx, base_offset), b1)))
        | None \<Rightarrow>
            and_then (vmctx_vmtable_import_from (te_offsets env) index)
            (\<lambda>from_offset. and_then (load_pointer C env vmctx from_offset b1)
            (\<lambda>(gv, b2). Ok ((gv, 0), b2))))
     (\<lambda>((base, base_offset), b2).
      case create_global_value C (GV_Load base base_offset (pointer_type env)
             (readonly_flags\<lparr>mf_checked := True\<rparr>)) b2 of (table_base, b3) \<Rightarrow>
      and_then (if ref_is_vmgcref_type (table_element_type table) then Ok (ty_bytes IR_I32)
                else map_ok (\<lambda>(ty, _). ty_bytes ty) (env_reference_type env (heap_type (table_element_type table))))
     (\<lambda>element_size. if Some (table_minimum table) = table_maximum table
        then Ok (\<lparr>ct_base_gv = table_base, ct_bound = table_minimum table, ct_element_size = element_size\<rparr>, env', b3)
        else Panic ''not yet implemented: resizable tables'')))"

text \<open>A size computation that has no error value in the source.\<close>

definition never_err :: "(SizeOverflow, 'a) outcome \<Rightarrow> 'a result" where
  "never_err r = (case r of Ok a \<Rightarrow> Ok a | Err e \<Rightarrow> Panic ''unreachable'' | Panic msg \<Rightarrow> Panic msg)"

text \<open>
  \<open>make_memory\<close>. A size that does not fit becomes \<open>u64::MAX\<close>, after assertions on the only memory it
  can be.
\<close>

definition make_memory ::
  "'b clif_ops \<Rightarrow> TranslationEnvironment \<Rightarrow> MemoryIndex \<Rightarrow> 'b \<Rightarrow>
     (CraneliftMemory \<times> TranslationEnvironment \<times> 'b) result" where
  "make_memory C env index b =
     and_then (pm_index (memories (te_module env)) index)
     (\<lambda>plan. case env_vmctx C env b of (vmctx, env', b1) \<Rightarrow>
      and_then (case defined_memory_index (te_module env) index of
          Some def_index \<Rightarrow>
            if memory_shared plan then Panic ''not yet implemented: shared memory''
            else and_then (vmctx_vmmemory_definition_base (te_offsets env) def_index)
              (\<lambda>off. and_then (to_i32 off) (\<lambda>base_offset. Ok ((vmctx, base_offset), b1)))
        | None \<Rightarrow>
            and_then (vmctx_vmmemory_import_from (te_offsets env) index)
            (\<lambda>from_offset. and_then (load_pointer C env vmctx from_offset b1)
            (\<lambda>(gv, b2). Ok ((gv, 0), b2))))
     (\<lambda>((base, base_offset), b2).
      case create_global_value C (GV_Load base base_offset (pointer_type env)
             (readonly_flags\<lparr>mf_checked := True\<rparr>)) b2 of (heap_base, b3) \<Rightarrow>
      and_then (case minimum_byte_size plan of
          Ok n \<Rightarrow> Ok n
        | Err _ \<Rightarrow> and_then (assert_that (memory_minimum plan = 2 ^ 48) ''assertion `left == right` failed'')
            (\<lambda>_. and_then (assert_that (page_size_log2 plan = 16) ''assertion `left == right` failed'')
            (\<lambda>_. Ok (u64_bound - 1)))
        | Panic msg \<Rightarrow> Panic msg)
     (\<lambda>min_size. and_then (ok_of (maximum_byte_size plan))
     (\<lambda>max_size. and_then (never_err (max_size_based_on_index_type plan))
     (\<lambda>bound. Ok (\<lparr>hm_base_gv = heap_base, hm_index_type = (if memory64 plan then IR_I64 else IR_I32),
         hm_bound = bound, hm_min_size = min_size, hm_max_size = max_size,
         hm_offset_guard_size = offset_guard_size plan, hm_page_size_log2 = page_size_log2 plan\<rparr>, env', b3))))))"

section \<open>Functions and calls\<close>

definition make_direct_func ::
  "'b clif_ops \<Rightarrow> TranslationEnvironment \<Rightarrow> FuncIndex \<Rightarrow> 'b \<Rightarrow> (ir_FuncRef \<times> 'b) result" where
  "make_direct_func C env index b =
     and_then (pm_index (mod_functions (te_module env)) index)
     (\<lambda>f. and_then (pm_index (mod_types (te_module env)) (signature f))
     (\<lambda>ty_index. and_then (expect (get_wasm_type (te_types env) ty_index) ''called `Option::unwrap()` on a `None` value'')
     (\<lambda>ty. and_then (unwrap_func ty)
     (\<lambda>sig. and_then (wasm_call_signature (pointer_type env) sig)
     (\<lambda>csig. case import_signature C csig b of (sref, b1) \<Rightarrow>
        Ok (import_function C \<lparr>ef_namespace = NS_WASM_FUNC, ef_index = index, ef_signature = sref,
          ef_colocated = (defined_func_index (te_module env) index \<noteq> None)\<rparr> b1))))))"

definition make_indirect_sig ::
  "'b clif_ops \<Rightarrow> TranslationEnvironment \<Rightarrow> TypeIndex \<Rightarrow> 'b \<Rightarrow> (SigRef \<times> 'b) result" where
  "make_indirect_sig C env sig_index b =
     and_then (pm_index (mod_types (te_module env)) sig_index)
     (\<lambda>interned_index. and_then (expect (get_wasm_type (te_types env) interned_index)
                                  ''called `Option::unwrap()` on a `None` value'')
     (\<lambda>ty. and_then (unwrap_func ty)
     (\<lambda>func_ty. and_then (wasm_call_signature (pointer_type env) func_ty)
     (\<lambda>sig. Ok (import_signature C sig b)))))"

definition caller_vmctx :: "'b clif_ops \<Rightarrow> 'b \<Rightarrow> ir_Value result" where
  "caller_vmctx C b = expect (special_vmctx C b) ''called `Option::unwrap()` on a `None` value''"

text \<open>\<open>CallBuilder::direct_call\<close>, for regular calls.\<close>

definition direct_call ::
  "'b clif_ops \<Rightarrow> TranslationEnvironment \<Rightarrow> FuncIndex \<Rightarrow> ir_FuncRef \<Rightarrow> ir_Value list \<Rightarrow> 'b \<Rightarrow>
     (ir_Inst \<times> TranslationEnvironment \<times> 'b) result" where
  "direct_call C env callee_index callee call_args b =
     and_then (caller_vmctx C b)
     (\<lambda>caller. if \<not> is_imported_func (te_module env) callee_index
        then case ins_inst C (Call_inst callee (caller # caller # call_args)) b of (n, b1) \<Rightarrow> Ok (n, env, b1)
        else let sig_ref = ext_func_signature C b callee in
          case vmctx_val C env b of (base, env', b1) \<Rightarrow>
          and_then (and_then (vmctx_vmfunction_import_wasm_call (te_offsets env) callee_index) to_i32)
          (\<lambda>body_offset. case ins C (Load Op_Load (pointer_type env) readonly_flags base body_offset) b1 of (func_addr, b2) \<Rightarrow>
           and_then (and_then (vmctx_vmfunction_import_vmctx (te_offsets env) callee_index) to_i32)
          (\<lambda>vmctx_offset. case ins C (Load Op_Load (pointer_type env) readonly_flags base vmctx_offset) b2 of (vmctx, b3) \<Rightarrow>
           case ins_inst C (Call_indirect_inst sig_ref func_addr (vmctx # caller # call_args)) b3 of (n, b4) \<Rightarrow>
             Ok (n, env', b4))))"

datatype CheckIndirectCallTypeSignature = Check_Runtime | StaticMatch bool | StaticTrap

text \<open>
  The type check of an indirect call. The expected type id is read from the \<open>type_ids\<close> array at the
  module's type index.
\<close>

definition runtime_type_check ::
  "'b clif_ops \<Rightarrow> TranslationEnvironment \<Rightarrow> TypeIndex \<Rightarrow> ir_Value \<Rightarrow> 'b \<Rightarrow> (TranslationEnvironment \<times> 'b) result" where
  "runtime_type_check C env ty_index funcref_ptr b = (case vmctx_val C env b of (vmctx, env', b1) \<Rightarrow>
     and_then (vmctx_type_ids (static_offsets (te_offsets env)))
     (\<lambda>ids_off. case ins C (Load Op_Load (pointer_type env) readonly_flags vmctx (int ids_off)) b1 of (type_ids, b2) \<Rightarrow>
      and_then (and_then (expect (checked_mul u32_bound ty_index (ty_bytes IR_I32))
                  ''called `Option::unwrap()` on a `None` value'') to_i32)
     (\<lambda>offset. case ins C (Load Op_Load IR_I32 readonly_flags type_ids offset) b2 of (expected_type_id, b3) \<Rightarrow>
      case ins C (Load Op_Load IR_I32 (readonly_flags\<lparr>mf_trap_code := Some (Some TRAP_INDIRECT_CALL_TO_NULL)\<rparr>)
             funcref_ptr 24) b3 of (actual_type_id, b4) \<Rightarrow>
      case ins C (Icmp CC_Equal expected_type_id actual_type_id) b4 of (cmp, b5) \<Rightarrow>
        Ok (env', snd (ins_inst C (Trapz cmp TRAP_BAD_SIGNATURE) b5)))))"

definition check_indirect_call_type_signature ::
  "'b clif_ops \<Rightarrow> TranslationEnvironment \<Rightarrow> TableIndex \<Rightarrow> TypeIndex \<Rightarrow> ir_Value \<Rightarrow> 'b \<Rightarrow>
     (CheckIndirectCallTypeSignature \<times> TranslationEnvironment \<times> 'b) result" where
  "check_indirect_call_type_signature C env tbl_index ty_index funcref_ptr b =
     and_then (pm_index (tables (te_module env)) tbl_index)
     (\<lambda>table. let ety = table_element_type table in
      and_then (assert_that (\<not> ht_shared (heap_type ety)) ''shared heap types not supported'')
     (\<lambda>_. case ht_ty (heap_type ety) of
         HT_Func \<Rightarrow> map_ok (\<lambda>(env', b'). (Check_Runtime, env', b')) (runtime_type_check C env ty_index funcref_ptr b)
       | HT_ConcreteFunc (Module expected_type) \<Rightarrow>
           and_then (pm_index (mod_types (te_module env)) ty_index)
           (\<lambda>actual_ty. if actual_ty = expected_type then Ok (StaticMatch (nullable ety), env, b)
              else let b1 = (if nullable ety
                  then snd (ins C (Load Op_Load IR_I32 (readonly_flags\<lparr>mf_trap_code := Some (Some TRAP_INDIRECT_CALL_TO_NULL)\<rparr>)
                         funcref_ptr 24) b)
                  else b) in
                Ok (StaticTrap, env, snd (ins_inst C (Trap_inst TRAP_BAD_SIGNATURE) b1)))
       | HT_NoFunc \<Rightarrow>
           and_then (assert_that (nullable ety) ''assertion failed: table.element_type.nullable'')
           (\<lambda>_. Ok (StaticTrap, env, snd (ins_inst C (Trap_inst TRAP_INDIRECT_CALL_TO_NULL) b)))
       | HT_ConcreteFunc _ \<Rightarrow>
           Panic ''encountered shared or rec group indices during compilation. this is a bug''
       | _ \<Rightarrow> Panic ''internal error: entered unreachable code''))"

definition load_func_and_vmctx ::
  "'b clif_ops \<Rightarrow> TranslationEnvironment \<Rightarrow> ir_Value \<Rightarrow> TrapCode option \<Rightarrow> 'b \<Rightarrow> (ir_Value \<times> ir_Value) \<times> 'b" where
  "load_func_and_vmctx C env callee trap_code b =
     (case ins C (Load Op_Load (pointer_type env) (readonly_flags\<lparr>mf_trap_code := Some trap_code\<rparr>) callee 8) b of
        (func_addr, b1) \<Rightarrow> case ins C (Load Op_Load (pointer_type env) readonly_flags callee 16) b1 of
        (callee_vmctx, b2) \<Rightarrow> ((func_addr, callee_vmctx), b2))"

definition unchecked_indirect_call ::
  "'b clif_ops \<Rightarrow> SigRef \<Rightarrow> ir_Value \<Rightarrow> ir_Value \<Rightarrow> ir_Value list \<Rightarrow> 'b \<Rightarrow> (ir_Inst \<times> 'b) result" where
  "unchecked_indirect_call C sig_ref func_addr callee_vmctx call_args b =
     and_then (caller_vmctx C b)
     (\<lambda>caller. Ok (ins_inst C (Call_indirect_inst sig_ref func_addr (callee_vmctx # caller # call_args)) b))"

definition indirect_call ::
  "'b clif_ops \<Rightarrow> TranslationEnvironment \<Rightarrow> TableIndex \<Rightarrow> CraneliftTable \<Rightarrow> TypeIndex \<Rightarrow> SigRef \<Rightarrow> ir_Value \<Rightarrow>
     ir_Value list \<Rightarrow> 'b \<Rightarrow> (ir_Inst Reachability \<times> TranslationEnvironment \<times> 'b) result" where
  "indirect_call C env tbl_index table ty_index sig_ref callee call_args b =
     and_then (table_prepare_addr C table callee (pointer_type env) (te_table_access_spectre_mitigation env) b)
     (\<lambda>((table_entry_addr, flags), b1).
      case ins C (Load Op_Load (pointer_type env) flags table_entry_addr 0) b1 of (funcref_ptr, b2) \<Rightarrow>
      and_then (check_indirect_call_type_signature C env tbl_index ty_index funcref_ptr b2)
     (\<lambda>(check, env', b3). case check of
         StaticTrap \<Rightarrow> Ok (Unreachable, env', b3)
       | _ \<Rightarrow> let trap_code = (case check of StaticMatch may_be_null \<Rightarrow>
                  if may_be_null then Some TRAP_INDIRECT_CALL_TO_NULL else None | _ \<Rightarrow> None) in
           case load_func_and_vmctx C env' funcref_ptr trap_code b3 of ((func_ptr, callee_vmctx), b4) \<Rightarrow>
           map_ok (\<lambda>(n, b5). (Reachable n, env', b5))
             (unchecked_indirect_call C sig_ref func_ptr callee_vmctx call_args b4)))"

section \<open>References\<close>

definition translate_ref_null ::
  "'b clif_ops \<Rightarrow> TranslationEnvironment \<Rightarrow> WasmHeapType \<Rightarrow> 'b \<Rightarrow> (ir_Value \<times> 'b) result" where
  "translate_ref_null C env hty b =
     and_then (assert_that (\<not> ht_shared hty) ''assertion failed: !hty.shared'')
     (\<lambda>_. and_then (env_reference_type env hty) (\<lambda>(ty, _). Ok (ins C (Iconst ty 0) b)))"

definition translate_ref_is_null :: "'b clif_ops \<Rightarrow> ir_Value \<Rightarrow> 'b \<Rightarrow> ir_Value \<times> 'b" where
  "translate_ref_is_null C value b = (case ins C (Icmp_imm CC_Equal value 0) b of (byte_is_null, b1) \<Rightarrow>
     ins C (Convert Uextend IR_I32 byte_is_null) b1)"

end
