(* ===== verification/Memory_Safety.thy ===== *)
theory Memory_Safety
  imports Cranelift_Env
begin

text \<open>
  Where the memory accesses of compiled code land: the bounds checks of
  \<open>src/src/cranelift/memory.rs\<close> against the reservation that \<open>src/src/runtime/memory.rs\<close> makes. Accesses
  without an explicit check rely on the reservation being as large as the bound and the guard that
  the compiler assumes.
\<close>

section \<open>The compiler's view of a memory\<close>

lemma make_memory_32:
  assumes "make_memory C env i b = Ok (mem, env', b')" and "memories (te_module env) ! i = plan"
    and "\<not> memory64 plan"
  shows "hm_index_type mem = IR_I32" "hm_bound mem = 2 ^ 32" "hm_offset_guard_size mem = offset_guard_size plan"
proof -
  have "max_size_based_on_index_type plan = Ok WASM32_MAX_SIZE"
    using assms(3) by (simp add: max_size_based_on_index_type_def)
  with assms show "hm_index_type mem = IR_I32" "hm_bound mem = 2 ^ 32"
    "hm_offset_guard_size mem = offset_guard_size plan"
    by (auto simp: make_memory_def never_err_def WASM32_MAX_SIZE_def case_prod_unfold)
qed

text \<open>For 32-bit memories no explicit check is ever emitted.\<close>

lemma unchecked_32:
  assumes "make_memory C env i b = Ok (mem, env', b')" and "memories (te_module env) ! i = plan"
    and "\<not> memory64 plan"
  shows "unchecked_access mem n"
  using make_memory_32 [OF assms] by (simp add: unchecked_access_def saturating_add_def)

lemma access_32:
  assumes C: "clif_contract C R" and mem: "make_memory C env i b0 = Ok (mem, env', b1)"
    "memories (te_module env) ! i = plan" "\<not> memory64 plan"
    and run: "run_trap R b = None" "run_defined R b index" "value_type_of C b index = IR_I32"
    and ptr: "pointer_type env = IR_I64"
    and off: "ma_offset memarg < 2 ^ 32"
    and acc: "prepare_addr C env mem index sz memarg b = Ok (Reachable (fl, w, a), b')"
  shows "run_trap R b' = None" "ma_offset memarg + sz \<le> 2 ^ 32"
    "run_value R b' a = (run_global R b (hm_base_gv mem) + run_value R b index + ma_offset memarg) mod 2 ^ 64"
proof -
  note m = make_memory_32 [OF mem]
  have ty: "value_type_of C b index = hm_index_type mem" "hm_index_type mem = IR_I32 \<or> hm_index_type mem = IR_I64"
    using run(3) m(1) by simp_all
  from prepare_addr_run [OF C run(1,2) ty ptr off acc] unchecked_32 [OF mem]
  show "run_trap R b' = None" "ma_offset memarg + sz \<le> 2 ^ 32"
    "run_value R b' a = (run_global R b (hm_base_gv mem) + run_value R b index + ma_offset memarg) mod 2 ^ 64"
    by (simp_all add: m(2))
qed

section \<open>The reservation\<close>

lemma memory_try_new_top:
  assumes "os_contract S" and "memory_try_new S desc mn mx k = (Ok m, k')"
  shows "mm_ptr (mem_mmap m) + mm_len (mem_mmap m) < 2 ^ 64"
proof -
  note r = round_usize_Ok_iff [OF os_contract_page [OF assms(1)]]
  from assms(2) obtain k1 where
    res: "mmap_with_reserve S (reservation S mx (offset_guard_size desc)) k = Ok (mem_mmap m, k1)"
    by (auto simp: memory_try_new_def r reservation_def Let_def split: if_splits)
  show ?thesis using mmap_reserve_extends(3,6) [OF assms(1) res] by simp
qed

lemma allocated_memory:
  assumes "os_contract S" and "placeholder_allocate_memory S plan k = (Ok m, k')" and "maximum_byte_size plan = Ok mx"
    and "mx < 2 ^ 64"
  shows "mm_len (mem_mmap m) = reservation S (Some mx) (offset_guard_size plan)"
    "mm_ptr (mem_mmap m) + mm_len (mem_mmap m) < 2 ^ 64" "memory_mapped S m k'"
    "minimum_byte_size plan = Ok (mem_len m)"
proof -
  from placeholder_memory_Ok [OF assms(2)] assms(3,4) obtain mn where
    mn: "minimum_byte_size plan = Ok mn" and new: "memory_try_new S plan mn (Some mx) k = (Ok m, k')"
    by (auto simp: ok_of_def try_into_def)
  note f = memory_try_new_Ok [OF assms(1) new]
  show "mm_len (mem_mmap m) = reservation S (Some mx) (offset_guard_size plan)" by (fact f(6))
  show "mm_ptr (mem_mmap m) + mm_len (mem_mmap m) < 2 ^ 64" by (rule memory_try_new_top [OF assms(1) new])
  show "memory_mapped S m k'" by (fact f(5))
  show "minimum_byte_size plan = Ok (mem_len m)" using mn f(1) by simp
qed

section \<open>Table accesses\<close>

lemma trailing_zeros_power: "trailing_zeros (2 ^ i) = i"
  by (induction i) (subst trailing_zeros.simps, simp)+

lemma run_ishl_imm:
  assumes "clif_contract C R" and "ins C (Ishl_imm x (int n)) b = (v, b')" and "run_trap R b = None"
    and "run_defined R b x" and "value_type_of C b x = IR_I64" and "n < 64"
  shows "run_trap R b' = None" "run_keeps C R b b'" "run_defined R b' v" "value_type_of C b' v = IR_I64"
    "run_value R b' v = (run_value R b x * 2 ^ n) mod 2 ^ 64"
  using ins_gives [OF assms(1-3)] assms(4-6) wrap_ty_nat [of IR_I64 "run_value R b x * 2 ^ n"]
  by (simp_all add: clif_eval)

lemma run_imul_imm:
  assumes "clif_contract C R" and "ins C (Imul_imm x (int n)) b = (v, b')" and "run_trap R b = None"
    and "run_defined R b x" and "value_type_of C b x = IR_I64"
  shows "run_trap R b' = None" "run_keeps C R b b'" "run_defined R b' v" "value_type_of C b' v = IR_I64"
    "run_value R b' v = (run_value R b x * n) mod 2 ^ 64"
  using ins_gives [OF assms(1-3)] assms(4,5) wrap_ty_nat [of IR_I64 "run_value R b x * n"]
  by (simp_all add: clif_eval)

text \<open>The element offset, by shifting where the element size is a power of two.\<close>

lemma run_element_offset:
  assumes C: "clif_contract C R" and "run_trap R b = None" and "run_defined R b x" and "value_type_of C b x = IR_I64"
    and e: "(if es = 1 then (x, b) else if is_power_of_two es then ins C (Ishl_imm x (int (trailing_zeros es))) b
      else ins C (Imul_imm x (int es)) b) = (v, b')"
  shows "run_trap R b' = None \<and> run_keeps C R b b' \<and> run_defined R b' v \<and> value_type_of C b' v = IR_I64 \<and>
    run_value R b' v = (run_value R b x * es) mod 2 ^ 64"
proof -
  have lt: "run_value R b x < 2 ^ 64" using clif_bounded [OF C assms(3)] assms(4) by simp
  consider (one) "es = 1" | (pow) i where "es \<noteq> 1" "i < 64" "es = 2 ^ i" | (mul) "es \<noteq> 1" "\<not> is_power_of_two es"
    unfolding is_power_of_two_def by blast
  then show ?thesis
  proof cases
    case one with e assms(2-4) lt show ?thesis by simp
  next
    case pow
    then have "is_power_of_two es" by (auto simp: is_power_of_two_def)
    with e pow have "ins C (Ishl_imm x (int i)) b = (v, b')" by (simp add: trailing_zeros_power)
    from run_ishl_imm [OF C this assms(2-4) pow(2)] pow(3) show ?thesis by simp
  next
    case mul
    with e have "ins C (Imul_imm x (int es)) b = (v, b')" by simp
    from run_imul_imm [OF C this assms(2-4)] show ?thesis by simp
  qed
qed

lemma run_element_address:
  assumes C: "clif_contract C R"
    and 4: "(if t \<noteq> IR_I64 then ins C (Convert Uextend IR_I64 i) b3 else (i, b3)) = (ix, b4)"
    and 5: "ins C (Global_value IR_I64 gv) b4 = (base, b5)"
    and 6: "(if es = 1 then (ix, b5) else if is_power_of_two es then ins C (Ishl_imm ix (int (trailing_zeros es))) b5
      else ins C (Imul_imm ix (int es)) b5) = (off, b6)"
    and 7: "ins C (Binary Iadd base off) b6 = (ea, b7)"
  shows "run_trap R b3 = None \<Longrightarrow> run_defined R b3 i \<Longrightarrow> value_type_of C b3 i = t \<Longrightarrow> t = IR_I32 \<or> t = IR_I64 \<Longrightarrow>
      run_trap R b7 = None \<and> run_keeps C R b3 b7 \<and> run_defined R b7 ea \<and> value_type_of C b7 ea = IR_I64 \<and>
      run_value R b7 ea = (run_global R b3 gv + run_value R b3 i * es) mod 2 ^ 64"
    and "run_trap R b3 = Some code \<Longrightarrow> run_trap R b7 = Some code"
proof -
  assume nt: "run_trap R b3 = None" and def: "run_defined R b3 i" and ty: "value_type_of C b3 i = t" "t = IR_I32 \<or> t = IR_I64"
  have r4: "run_trap R b4 = None \<and> run_keeps C R b3 b4 \<and> run_defined R b4 ix \<and> value_type_of C b4 ix = IR_I64 \<and>
      run_value R b4 ix = run_value R b3 i"
    using run_uextend [OF C, of IR_I64 i b3 ix b4] 4 nt def ty by (auto split: if_splits)
  note r5 = run_global_value [OF C 5 conjunct1 [OF r4]]
  have ix: "run_defined R b5 ix" "value_type_of C b5 ix = IR_I64" "run_value R b5 ix = run_value R b3 i"
    using r4 keepsD [OF r5(2), of ix] by auto
  note r6 = run_element_offset [OF C r5(1) ix(1,2) 6]
  have k6: "run_keeps C R b5 b6" and off: "run_trap R b6 = None" "run_defined R b6 off" using r6 by blast+
  note base = keepsD [OF k6 r5(3)]
  note r7 = run_iadd [OF C 7 off(1) base(1) off(2)]
  have "run_keeps C R b3 b7" using r4 r5(2) k6 r7(2) by (blast intro: run_keeps_trans)
  moreover have "run_global R b4 = run_global R b3" using r4 by (simp add: run_keeps_def)
  ultimately show "run_trap R b7 = None \<and> run_keeps C R b3 b7 \<and> run_defined R b7 ea \<and> value_type_of C b7 ea = IR_I64 \<and>
      run_value R b7 ea = (run_global R b3 gv + run_value R b3 i * es) mod 2 ^ 64"
    using r5 r6 r7 ix base by (simp add: mod_add_eq)
next
  assume "run_trap R b3 = Some code"
  with 4 5 6 7 clif_ins(2) [OF C] show "run_trap R b7 = Some code" by (auto split: if_splits)
qed

section \<open>A concrete access\<close>

text \<open>A module with one memory on a 64-bit host with 64 KiB Wasm pages, and code that has an index at hand.\<close>

definition access_env :: "MemoryDesc \<Rightarrow> TranslationEnvironment" where
  "access_env plan = \<lparr>te_isa = \<lparr>isa_pointer_type = IR_I64, isa_page_size_align_log2 = 12, isa_is_x86_64 = False,
     isa_has_native_fma = True, isa_has_lowering = \<lambda>_. False\<rparr>,
     te_module = module_default\<lparr>memories := [plan]\<rparr>, te_types = module_types_default, te_offsets = small_offsets,
     te_vmctx = None, te_relaxed_simd_deterministic = False, te_heap_access_spectre_mitigation = True,
     te_table_access_spectre_mitigation = True\<rparr>"

definition access_machine :: "nat \<Rightarrow> nat \<Rightarrow> machine" where
  "access_machine base i = \<lparr>mc_values = [(IR_I32, i)], mc_globals = (\<lambda>_. base), mc_stopped = None\<rparr>"

text \<open>A memory of one page without a maximum, with a guard of 2 GiB; its reservation is made on an empty address space.\<close>

definition guarded_page :: MemoryDesc where
  "guarded_page = one_page\<lparr>memory_maximum := None, offset_guard_size := 2 ^ 31\<rparr>"

lemma access_memory:
  assumes "memory_maximum plan = None \<or> memory_maximum plan = Some 2"
    and "memory_minimum plan = 1" "page_size_log2 plan = 16" "\<not> memory64 plan" "\<not> memory_shared plan"
  shows "\<exists>mem env'. make_memory machine_ops (access_env plan) 0 m = Ok (mem, env', m) \<and>
    hm_base_gv mem = 0 \<and> hm_page_size_log2 mem = 16"
proof -
  have base: "vmctx_vmmemory_definition_base small_offsets 0 = Ok 72"
    by (simp add: vmctx_vmmemory_definition_base_def field_at_def vmctx_vmmemory_definition_def
        small_offsets_def array_offset_def add_chk_def mul_chk_def assert_that_def)
  show ?thesis
    using assms base
    by (auto simp: make_memory_def access_env_def module_default_def env_vmctx_def machine_ops_def
        defined_memory_index_def is_imported_memory_def to_i32_def try_into_def expect_def
        minimum_byte_size_def maximum_byte_size_def max_size_based_on_index_type_def page_size_def
        checked_mul_def WASM32_MAX_SIZE_def ok_of_def never_err_def pointer_type_def)
qed

lemma access_runs:
  assumes "make_memory machine_ops (access_env plan) 0 m0 = Ok (mem, env', m1)" and "\<not> memory64 plan"
    and "hm_page_size_log2 mem = 16" and "0 < ma_offset arg" "ma_offset arg + sz \<le> 2 ^ 32"
      "ma_offset arg < 2 ^ 32"
  shows "\<exists>fl w a m'. prepare_addr machine_ops (access_env plan) mem 0 sz arg (access_machine base i) =
    Ok (Reachable (fl, w, a), m')"
proof -
  have "memories (te_module (access_env plan)) ! 0 = plan" by (simp add: access_env_def)
  note mem = make_memory_32 [OF assms(1) this assms(2)]
  have "2 ^ 32 - 1 \<le> saturating_add (saturating_add (hm_bound mem) (hm_offset_guard_size mem)) (ma_offset arg + sz)"
    by (simp add: mem saturating_add_def)
  with assms(3-) mem(1,2) show ?thesis
    by (simp add: prepare_addr_def bounds_check_and_compute_addr_def cast_index_to_pointer_ty_def
        pointer_type_def access_env_def access_machine_def compute_addr_def machine_ops_def machine_step_def
        clif_meaning_def machine_type_def assert_that_def Let_def)
qed

lemma access_start:
  "run_trap machine_run (access_machine base i) = None" "run_defined machine_run (access_machine base i) 0"
  "value_type_of machine_ops (access_machine base i) 0 = IR_I32"
  "run_global machine_run (access_machine base i) gv = base"
  "i < 2 ^ 32 \<Longrightarrow> run_value machine_run (access_machine base i) 0 = i"
  by (simp_all add: access_machine_def machine_run_def machine_ops_def machine_type_def machine_value_def)

lemma guarded_page_allocates:
  "\<exists>m k'. placeholder_allocate_memory bump_os guarded_page (0, \<lambda>_. None) = (Ok m, k')"
  by (simp add: guarded_page_def small_eval)

lemma one_page_allocates:
  "\<exists>m k'. placeholder_allocate_memory bump_os one_page (0, \<lambda>_. None) = (Ok m, k') \<and> mm_ptr (mem_mmap m) = 4096"
  by (simp add: small_eval)

section \<open>Properties\<close>



text \<open>C32.
  A static offset beyond the guard region is not checked either: the condition under which the
  check is omitted adds the offset and access size where the comment derives a subtraction, so it
  always holds. At the largest index the access then ends beyond the bound and the guard.
\<close>

theorem large_offset_escapes_guard:
  assumes "clif_contract C R"
    and "make_memory C env i b0 = Ok (mem, env', b1)" and "memories (te_module env) ! i = plan"
    and "\<not> memory64 plan" and "pointer_type env = IR_I64"
    and "run_trap R b = None" and "run_defined R b index" and "value_type_of C b index = IR_I32"
    and "run_value R b index = 2 ^ 32 - 1"
    and "run_global R b (hm_base_gv mem) + 2 ^ 33 \<le> 2 ^ 64"
    and "offset_guard_size plan + 1 < ma_offset memarg + sz" and "ma_offset memarg < 2 ^ 32"
    and "prepare_addr C env mem index sz memarg b = Ok (Reachable (fl, w, a), b')"
  shows "run_trap R b' = None \<and>
    run_global R b (hm_base_gv mem) + hm_bound mem + hm_offset_guard_size mem < run_value R b' a + sz"
proof -
  note acc = access_32 [OF assms(1-4,6-8,5,12,13)] and m = make_memory_32 [OF assms(2-4)]
  have "run_global R b (hm_base_gv mem) + run_value R b index + ma_offset memarg < 2 ^ 64"
    using assms(9,10,12) by simp
  then have "run_value R b' a = run_global R b (hm_base_gv mem) + run_value R b index + ma_offset memarg"
    using acc(3) by simp
  with acc(1) m assms(9,11) show ?thesis by simp
qed

theorem large_offset_escapes_guard_witness:
  "\<exists>mem env' fl w a b'. make_memory machine_ops (access_env one_page) 0 (access_machine 0 0) = Ok (mem, env', access_machine 0 0) \<and>
     prepare_addr machine_ops (access_env one_page) mem 0 4 \<lparr>ma_offset = 65536, ma_memory = 0\<rparr>
       (access_machine 4096 4294967295) = Ok (Reachable (fl, w, a), b') \<and> run_trap machine_run b' = None \<and>
     4096 + hm_bound mem + hm_offset_guard_size mem < run_value machine_run b' a + 4"
proof -
  let ?E = "access_env one_page" and ?g = "\<lparr>ma_offset = 65536, ma_memory = 0\<rparr>" and ?b = "access_machine 4096 4294967295"
  obtain mem env' where mem: "make_memory machine_ops ?E 0 (access_machine 0 0) = Ok (mem, env', access_machine 0 0)"
    "hm_base_gv mem = 0" "hm_page_size_log2 mem = 16"
    using access_memory [of one_page "access_machine 0 0"] by (auto simp: one_page_def)
  have plan: "memories (te_module ?E) ! 0 = one_page" "pointer_type ?E = IR_I64" "\<not> memory64 one_page"
    by (simp_all add: access_env_def pointer_type_def one_page_def)
  obtain fl w a b' where acc: "prepare_addr machine_ops ?E mem 0 4 ?g ?b = Ok (Reachable (fl, w, a), b')"
    using access_runs [OF mem(1) plan(3) mem(3), of ?g 4] by fastforce
  have "run_trap machine_run b' = None \<and> run_global machine_run ?b (hm_base_gv mem) + hm_bound mem +
      hm_offset_guard_size mem < run_value machine_run b' a + 4"
    by (rule large_offset_escapes_guard [OF machine_contract mem(1) plan(1,3,2) access_start(1-3) _ _ _ _ acc])
      (simp_all add: access_start one_page_def)
  with mem(1) acc show ?thesis by (auto simp: access_start)
qed

text \<open>C33.
  A small declared maximum shrinks the reservation but not the bound the compiler assumes: the
  reservation covers the maximum and the guard, and the access at the largest index, which no code
  checks, lands outside the memory's mapping.
\<close>

theorem small_maximum_escapes_mapping:
  assumes "clif_contract C R" and "os_contract S"
    and "make_memory C env i b0 = Ok (mem, env', b1)" and "memories (te_module env) ! i = plan"
    and "\<not> memory64 plan" and "pointer_type env = IR_I64"
    and "placeholder_allocate_memory S plan k = (Ok m, k')" and "maximum_byte_size plan = Ok mx"
    and "mx + page_ceil (host_page_size S) (offset_guard_size plan) < 2 ^ 32"
    and "run_trap R b = None" and "run_defined R b index" and "value_type_of C b index = IR_I32"
    and "run_value R b index = 2 ^ 32 - 1"
    and "run_global R b (hm_base_gv mem) = mm_ptr (mem_mmap m)" and "mm_ptr (mem_mmap m) + 2 ^ 33 \<le> 2 ^ 64"
    and "ma_offset memarg < 2 ^ 32"
    and "prepare_addr C env mem index sz memarg b = Ok (Reachable (fl, w, a), b')"
  shows "run_trap R b' = None \<and> run_value R b' a \<notin> bytes_of (mem_mmap m)"
proof -
  note acc = access_32 [OF assms(1,3-5,10-12,6,16,17)]
  have mx: "mx < 2 ^ 64" using assms(9) by simp
  note al = allocated_memory [OF assms(2,7,8) mx]
  have len: "mm_len (mem_mmap m) \<le> mx + page_ceil (host_page_size S) (offset_guard_size plan)"
    using al(1) by (simp add: reservation_def Let_def)
  have "mm_ptr (mem_mmap m) + run_value R b index + ma_offset memarg < 2 ^ 64"
    using assms(13,15,16) by simp
  then have "run_value R b' a = mm_ptr (mem_mmap m) + run_value R b index + ma_offset memarg"
    using acc(3) assms(14) by simp
  with acc(1) len assms(9,13) show ?thesis by (simp add: bytes_of_def)
qed

theorem small_maximum_escapes_mapping_witness:
  "\<exists>m k' mem env' fl w a b'. placeholder_allocate_memory bump_os one_page (0, \<lambda>_. None) = (Ok m, k') \<and>
     make_memory machine_ops (access_env one_page) 0 (access_machine 0 0) = Ok (mem, env', access_machine 0 0) \<and>
     prepare_addr machine_ops (access_env one_page) mem 0 4 \<lparr>ma_offset = 8, ma_memory = 0\<rparr>
       (access_machine 4096 4294967295) = Ok (Reachable (fl, w, a), b') \<and> run_trap machine_run b' = None \<and>
     run_value machine_run b' a \<notin> bytes_of (mem_mmap m)"
proof -
  let ?E = "access_env one_page" and ?g = "\<lparr>ma_offset = 8, ma_memory = 0\<rparr>" and ?b = "access_machine 4096 4294967295"
  obtain m k' where m: "placeholder_allocate_memory bump_os one_page (0, \<lambda>_. None) = (Ok m, k')" "mm_ptr (mem_mmap m) = 4096"
    using one_page_allocates by blast
  obtain mem env' where mem: "make_memory machine_ops ?E 0 (access_machine 0 0) = Ok (mem, env', access_machine 0 0)"
    "hm_base_gv mem = 0" "hm_page_size_log2 mem = 16"
    using access_memory [of one_page "access_machine 0 0"] by (auto simp: one_page_def)
  have plan: "memories (te_module ?E) ! 0 = one_page" "pointer_type ?E = IR_I64" "\<not> memory64 one_page"
    "maximum_byte_size one_page = Ok 131072"
    by (simp_all add: access_env_def pointer_type_def one_page_def maximum_byte_size_def page_size_def checked_mul_def)
  obtain fl w a b' where acc: "prepare_addr machine_ops ?E mem 0 4 ?g ?b = Ok (Reachable (fl, w, a), b')"
    using access_runs [OF mem(1) plan(3) mem(3), of ?g 4] by fastforce
  have "run_trap machine_run b' = None \<and> run_value machine_run b' a \<notin> bytes_of (mem_mmap m)"
    by (rule small_maximum_escapes_mapping [OF machine_contract bump_os_contract mem(1) plan(1,3,2) m(1) plan(4)
          _ access_start(1-3) _ _ _ _ acc])
      (simp_all add: access_start m(2) one_page_def page_ceil_def)
  with m(1) mem(1) acc show ?thesis by auto
qed

text \<open>C34.
  Every table access of compiled code is bounds checked: on a 64-bit target an index below the bound
  gives the address of exactly that element, inside the table's elements; any other index gives the
  null address with the out-of-bounds trap code attached to the access when the mitigation is on, and
  traps at once when it is off.
\<close>

theorem table_access_checked:
  assumes C: "clif_contract C R" and nt: "run_trap R b = None" and def: "run_defined R b i"
    and ty: "value_type_of C b i = IR_I32 \<or> value_type_of C b i = IR_I64" and bound: "ct_bound table < 2 ^ 32"
    and fits: "run_global R b (ct_base_gv table) + ct_bound table * ct_element_size table \<le> 2 ^ 64" "0 < ct_element_size table"
    and p: "table_prepare_addr C table i IR_I64 spectre b = Ok ((a, fl), b')"
  shows "if run_value R b i < ct_bound table
    then run_trap R b' = None \<and>
      run_value R b' a = run_global R b (ct_base_gv table) + run_value R b i * ct_element_size table \<and>
      run_value R b' a + ct_element_size table \<le> run_global R b (ct_base_gv table) + ct_bound table * ct_element_size table
    else if spectre then run_trap R b' = None \<and> run_value R b' a = 0 \<and> mf_trap_code fl = Some (Some TRAP_TABLE_OUT_OF_BOUNDS)
    else run_trap R b' = Some TRAP_TABLE_OUT_OF_BOUNDS"
proof -
  let ?g = "run_global R b (ct_base_gv table)" and ?v = "run_value R b i" and ?es = "ct_element_size table" and ?n = "ct_bound table"
  obtain bd b1 where 1: "ins C (Iconst (value_type_of C b i) (int ?n)) b = (bd, b1)" by fastforce
  obtain oob b2 where 2: "ins C (Icmp CC_UnsignedGreaterThanOrEqual i bd) b1 = (oob, b2)" by fastforce
  define b3 where "b3 = (if spectre then b2 else snd (ins_inst C (Trapnz oob TRAP_TABLE_OUT_OF_BOUNDS) b2))"
  obtain ix b4 where 4: "(if value_type_of C b i \<noteq> IR_I64 then ins C (Convert Uextend IR_I64 i) b3 else (i, b3)) = (ix, b4)" by fastforce
  obtain base b5 where 5: "ins C (Global_value IR_I64 (ct_base_gv table)) b4 = (base, b5)" by fastforce
  obtain off b6 where 6: "(if ?es = 1 then (ix, b5) else if is_power_of_two ?es then ins C (Ishl_imm ix (int (trailing_zeros ?es))) b5
      else ins C (Imul_imm ix (int ?es)) b5) = (off, b6)" by fastforce
  obtain ea b7 where 7: "ins C (Binary Iadd base off) b6 = (ea, b7)" by fastforce
  obtain z b8 where 8: "ins C (Iconst IR_I64 (int 0)) b7 = (z, b8)" by fastforce
  obtain sel b9 where 9: "ins C (Select_spectre_guard oob z ea) b8 = (sel, b9)" by fastforce
  have res: "if spectre then a = sel \<and> b' = b9 \<and> fl = table_flags\<lparr>mf_trap_code := Some (Some TRAP_TABLE_OUT_OF_BOUNDS)\<rparr>
      else a = ea \<and> b' = b7"
    using p 1 2 4 5 6 7 8 9 b3_def bound by (auto simp: table_prepare_addr_def Let_def split: if_splits)
  have n: "?n mod 2 ^ ty_bits (value_type_of C b i) = ?n" using ty bound by auto
  note r1 = run_iconst [OF C 1 nt]
  note k1 = keepsD [OF r1(2) def]
  have "unsigned_cc CC_UnsignedGreaterThanOrEqual (run_value R b1 i) (run_value R b1 bd) = Some (?n \<le> ?v)"
    by (simp add: k1(2) r1(5) n)
  note r2 = run_icmp [OF C 2 r1(1) k1(1) r1(3) this]
  have i2: "run_keeps C R b b2" using r1(2) r2(2) by (rule run_keeps_trans)
  show ?thesis
  proof (cases "spectre \<or> ?v < ?n")
    case True
    have k3: "run_keeps C R b2 b3" "run_trap R b3 = None"
      using run_trapnz [OF C _ r2(1,3), of TRAP_TABLE_OUT_OF_BOUNDS "fst (ins_inst C (Trapnz oob TRAP_TABLE_OUT_OF_BOUNDS) b2)"]
        True r2 by (auto simp: b3_def bool_value_def)
    note i3 = keepsD [OF run_keeps_trans [OF i2 k3(1)] def]
    note e = run_element_address(1) [OF C 4 5 6 7 k3(2) i3(1,3) ty]
    have ea: "run_trap R b7 = None" "run_keeps C R b2 b7" "run_defined R b7 ea" "value_type_of C b7 ea = IR_I64"
      using e k3(1) by (blast intro: run_keeps_trans)+
    note r8 = run_iconst [OF C 8 ea(1)]
    note oob8 = keepsD [OF run_keeps_trans [OF ea(2) r8(2)] r2(3)] and ea8 = keepsD [OF r8(2) ea(3)]
    have "value_type_of C b8 z = value_type_of C b8 ea" using r8(4) ea8(3) ea(4) by simp
    note r9 = run_spectre_guard [OF C 9 r8(1) oob8(1) r8(3) ea8(1) this]
    have g: "run_global R b3 = run_global R b" using keeps_global [OF run_keeps_trans [OF i2 k3(1)]] .
    have small: "?g + ?v * ?es + ?es \<le> ?g + ?n * ?es" if "?v < ?n"
      using mult_le_mono1 [OF Suc_leI [OF that], of ?es] by simp
    then have "(?g + ?v * ?es) mod 2 ^ 64 = ?g + ?v * ?es" if "?v < ?n"
      using that fits by (intro mod_less) linarith
    with True res e r2(4) r8(5) r9 oob8(2) ea8(2) keepsD(2) [OF ea(2) r2(3)] g i3(2) small show ?thesis
      by (auto simp: bool_value_def split: if_splits)
  next
    case False
    then have "run_trap R b3 = Some TRAP_TABLE_OUT_OF_BOUNDS"
      using run_trapnz(2) [OF C _ r2(1,3), of TRAP_TABLE_OUT_OF_BOUNDS "fst (ins_inst C (Trapnz oob TRAP_TABLE_OUT_OF_BOUNDS) b2)" b3]
        r2(4) by (simp add: b3_def bool_value_def)
    from run_element_address(2) [OF C 4 5 6 7 this] False res show ?thesis by simp
  qed
qed

theorem table_access_checked_witness:
  "\<exists>a fl b'. table_prepare_addr machine_ops \<lparr>ct_base_gv = 0, ct_bound = 10, ct_element_size = 8\<rparr> 0 IR_I64 True
       (access_machine 4096 9) = Ok ((a, fl), b') \<and>
     run_trap machine_run b' = None \<and> run_value machine_run b' a = 4168"
proof -
  let ?t = "\<lparr>ct_base_gv = 0, ct_bound = 10, ct_element_size = 8\<rparr>"
  have "\<exists>a fl b'. table_prepare_addr machine_ops ?t 0 IR_I64 True (access_machine 4096 9) = Ok ((a, fl), b')"
    by (simp add: table_prepare_addr_def Let_def try_into_def expect_def case_prod_unfold)
  then obtain a fl b' where p: "table_prepare_addr machine_ops ?t 0 IR_I64 True (access_machine 4096 9) = Ok ((a, fl), b')"
    by blast
  have "run_trap machine_run b' = None \<and> run_value machine_run b' a = 4168"
    using table_access_checked [OF machine_contract access_start(1,2) _ _ _ _ p] by (simp add: access_start)
  with p show ?thesis by blast
qed

end
