(* ===== verification/Func_State.thy ===== *)
theory Func_State
  imports Cranelift_Env
begin

text \<open>
  The state of the translation of one function body: \<open>src/src/cranelift/state.rs\<close>. Vectors are lists
  in the order of the source, with the top of a stack at the end. Debug assertions are on.
\<close>

section \<open>Control frames\<close>

datatype BlockType = BT_Empty | BT_Type wp_ValType | BT_FuncType nat

datatype ElseData = NoElse ir_Inst ir_Block | WithElse ir_Block

datatype ControlStackFrame =
    Frame_If (fr_destination: ir_Block) (fr_else_data: ElseData) (num_param_values: nat)
      (num_return_values: nat) (original_stack_size: nat) (fr_exit_is_branched_to: bool)
      (fr_blocktype: BlockType) (head_is_reachable: bool) (consequent_ends_reachable: "bool option")
  | Frame_Block (fr_destination: ir_Block) (num_param_values: nat) (num_return_values: nat)
      (original_stack_size: nat) (fr_exit_is_branched_to: bool)
  | Frame_Loop (fr_destination: ir_Block) (fr_header: ir_Block) (num_param_values: nat)
      (num_return_values: nat) (original_stack_size: nat)

definition following_code :: "ControlStackFrame \<Rightarrow> ir_Block" where
  "following_code f = fr_destination f"

fun br_destination :: "ControlStackFrame \<Rightarrow> ir_Block" where
  "br_destination (Frame_If dst ed np nr sz ex bt hr ce) = dst"
| "br_destination (Frame_Block dst np nr sz ex) = dst"
| "br_destination (Frame_Loop dst header np nr sz) = header"

fun is_loop :: "ControlStackFrame \<Rightarrow> bool" where
  "is_loop (Frame_Loop dst header np nr sz) = True"
| "is_loop f = False"

fun exit_is_branched_to :: "ControlStackFrame \<Rightarrow> bool" where
  "exit_is_branched_to (Frame_If dst ed np nr sz ex bt hr ce) = ex"
| "exit_is_branched_to (Frame_Block dst np nr sz ex) = ex"
| "exit_is_branched_to (Frame_Loop dst header np nr sz) = False"

fun set_branched_to_exit :: "ControlStackFrame \<Rightarrow> ControlStackFrame" where
  "set_branched_to_exit (Frame_If dst ed np nr sz ex bt hr ce) = Frame_If dst ed np nr sz True bt hr ce"
| "set_branched_to_exit (Frame_Block dst np nr sz ex) = Frame_Block dst np nr sz True"
| "set_branched_to_exit (Frame_Loop dst header np nr sz) = Frame_Loop dst header np nr sz"

text \<open>How many values a branch to the frame carries.\<close>

definition branch_arity :: "ControlStackFrame \<Rightarrow> nat" where
  "branch_arity f = (if is_loop f then num_param_values f else num_return_values f)"

fun is_if :: "ControlStackFrame \<Rightarrow> bool" where
  "is_if (Frame_If dst ed np nr sz ex bt hr ce) = True"
| "is_if f = False"

definition truncate_value_stack_to_else_params :: "ControlStackFrame \<Rightarrow> ir_Value list \<Rightarrow> ir_Value list result" where
  "truncate_value_stack_to_else_params f st =
     and_then (assert_that (is_if f) ''assertion failed: matches!(self, &ControlStackFrame::If { .. })'')
     (\<lambda>_. Ok (take (original_stack_size f) st))"

definition truncate_value_stack_to_original_size :: "ControlStackFrame \<Rightarrow> ir_Value list \<Rightarrow> ir_Value list result" where
  "truncate_value_stack_to_original_size f st =
     (if is_if f
      then and_then (assert_that (num_param_values f \<le> original_stack_size f)
                       ''assertion failed: num_param_values <= self.original_stack_size()'')
        (\<lambda>_. Ok (take (original_stack_size f - num_param_values f) st))
      else Ok (take (original_stack_size f) st))"

section \<open>The state\<close>

record FuncTranslationState =
  fs_stack :: "ir_Value list"
  control_stack :: "ControlStackFrame list"
  reachable :: bool
  fs_signatures :: "TypeIndex \<rightharpoonup> SigRef \<times> nat"
  fs_functions :: "FuncIndex \<rightharpoonup> ir_FuncRef \<times> nat"
  fs_tables :: "TableIndex \<rightharpoonup> CraneliftTable"
  fs_memories :: "MemoryIndex \<rightharpoonup> CraneliftMemory"
  fs_globals :: "GlobalIndex \<rightharpoonup> CraneliftGlobal"

definition func_state_new :: FuncTranslationState where
  "func_state_new = \<lparr>fs_stack = [], control_stack = [], reachable = True, fs_signatures = Map.empty,
     fs_functions = Map.empty, fs_tables = Map.empty, fs_memories = Map.empty, fs_globals = Map.empty\<rparr>"

definition func_state_clear :: "FuncTranslationState \<Rightarrow> FuncTranslationState result" where
  "func_state_clear s =
     and_then (assert_that (fs_stack s = []) ''assertion failed: self.stack.is_empty()'')
     (\<lambda>_. and_then (assert_that (control_stack s = []) ''assertion failed: self.control_stack.is_empty()'')
     (\<lambda>_. Ok (s\<lparr>reachable := True, fs_signatures := Map.empty, fs_functions := Map.empty,
        fs_tables := Map.empty, fs_memories := Map.empty, fs_globals := Map.empty\<rparr>)))"

definition push1 :: "ir_Value \<Rightarrow> FuncTranslationState \<Rightarrow> FuncTranslationState" where
  "push1 v s = s\<lparr>fs_stack := fs_stack s @ [v]\<rparr>"

definition pushn :: "ir_Value list \<Rightarrow> FuncTranslationState \<Rightarrow> FuncTranslationState" where
  "pushn vs s = s\<lparr>fs_stack := fs_stack s @ vs\<rparr>"

definition pop_or :: "string \<Rightarrow> FuncTranslationState \<Rightarrow> (ir_Value \<times> FuncTranslationState) result" where
  "pop_or msg s = (if fs_stack s = [] then Panic msg
     else Ok (last (fs_stack s), s\<lparr>fs_stack := butlast (fs_stack s)\<rparr>))"

definition pop1 :: "FuncTranslationState \<Rightarrow> (ir_Value \<times> FuncTranslationState) result" where
  "pop1 = pop_or ''attempted to pop a value from an empty stack''"

definition peek1 :: "FuncTranslationState \<Rightarrow> ir_Value result" where
  "peek1 s = (if fs_stack s = [] then Panic ''attempted to peek at a value on an empty stack''
     else Ok (last (fs_stack s)))"

definition pop2 :: "FuncTranslationState \<Rightarrow> ((ir_Value \<times> ir_Value) \<times> FuncTranslationState) result" where
  "pop2 s = (let pop = pop_or ''called `Option::unwrap()` on a `None` value'' in
     and_then (pop s) (\<lambda>(v2, s1). and_then (pop s1) (\<lambda>(v1, s2). Ok ((v1, v2), s2))))"

definition pop3 :: "FuncTranslationState \<Rightarrow> ((ir_Value \<times> ir_Value \<times> ir_Value) \<times> FuncTranslationState) result" where
  "pop3 s = (let pop = pop_or ''called `Option::unwrap()` on a `None` value'' in
     and_then (pop s) (\<lambda>(v3, s1). and_then (pop s1) (\<lambda>(v2, s2). and_then (pop s2)
     (\<lambda>(v1, s3). Ok ((v1, v2, v3), s3)))))"

definition ensure_length_is_at_least :: "nat \<Rightarrow> FuncTranslationState \<Rightarrow> unit result" where
  "ensure_length_is_at_least n s =
     assert_that (n \<le> length (fs_stack s)) ''attempted to access more values than the stack has''"

definition popn :: "nat \<Rightarrow> FuncTranslationState \<Rightarrow> FuncTranslationState result" where
  "popn n s = and_then (ensure_length_is_at_least n s)
     (\<lambda>_. Ok (s\<lparr>fs_stack := take (length (fs_stack s) - n) (fs_stack s)\<rparr>))"

definition peekn :: "nat \<Rightarrow> FuncTranslationState \<Rightarrow> ir_Value list result" where
  "peekn n s = and_then (ensure_length_is_at_least n s)
     (\<lambda>_. Ok (drop (length (fs_stack s) - n) (fs_stack s)))"

text \<open>The values that \<open>peekn_mut\<close> hands out, written back after they were changed.\<close>

definition poken :: "ir_Value list \<Rightarrow> FuncTranslationState \<Rightarrow> FuncTranslationState" where
  "poken vs s = s\<lparr>fs_stack := take (length (fs_stack s) - length vs) (fs_stack s) @ vs\<rparr>"

definition push_block :: "ir_Block \<Rightarrow> nat \<Rightarrow> nat \<Rightarrow> FuncTranslationState \<Rightarrow> FuncTranslationState result" where
  "push_block following num_params num_results s =
     and_then (assert_that (num_params \<le> length (fs_stack s)) ''assertion failed: num_param_types <= self.stack.len()'')
     (\<lambda>_. Ok (s\<lparr>control_stack := control_stack s @
        [Frame_Block following num_params num_results (length (fs_stack s) - num_params) False]\<rparr>))"

definition push_loop ::
  "ir_Block \<Rightarrow> ir_Block \<Rightarrow> nat \<Rightarrow> nat \<Rightarrow> FuncTranslationState \<Rightarrow> FuncTranslationState result" where
  "push_loop header following num_params num_results s =
     and_then (assert_that (num_params \<le> length (fs_stack s)) ''assertion failed: num_param_types <= self.stack.len()'')
     (\<lambda>_. Ok (s\<lparr>control_stack := control_stack s @
        [Frame_Loop following header num_params num_results (length (fs_stack s) - num_params)]\<rparr>))"

text \<open>The parameters of an \<open>if\<close> are pushed a second time, for its \<open>else\<close>.\<close>

definition push_if ::
  "ir_Block \<Rightarrow> ElseData \<Rightarrow> nat \<Rightarrow> nat \<Rightarrow> BlockType \<Rightarrow> FuncTranslationState \<Rightarrow> FuncTranslationState result" where
  "push_if dst else_data num_params num_results blocktype s =
     and_then (assert_that (num_params \<le> length (fs_stack s)) ''assertion failed: num_param_types <= self.stack.len()'')
     (\<lambda>_. let stack' = fs_stack s @ drop (length (fs_stack s) - num_params) (fs_stack s) in
        Ok (s\<lparr>fs_stack := stack', control_stack := control_stack s @
          [Frame_If dst else_data num_params num_results (length stack' - num_params) False blocktype
             (reachable s) None]\<rparr>))"

definition func_state_initialize :: "Signature \<Rightarrow> ir_Block \<Rightarrow> FuncTranslationState \<Rightarrow> FuncTranslationState result" where
  "func_state_initialize sig exit_block s =
     and_then (func_state_clear s) (push_block exit_block 0 (length (sig_returns sig)))"

section \<open>Caches of module entities\<close>

definition num_wasm_parameters :: "Signature \<Rightarrow> nat" where
  "num_wasm_parameters sig = length (filter is_wasm_parameter [0..<length (sig_params sig)])"

definition get_direct_func ::
  "'b clif_ops \<Rightarrow> TranslationEnvironment \<Rightarrow> FuncIndex \<Rightarrow> FuncTranslationState \<Rightarrow> 'b \<Rightarrow>
     ((ir_FuncRef \<times> nat) \<times> FuncTranslationState \<times> 'b) result" where
  "get_direct_func C env index s b = (case fs_functions s index of
       Some entry \<Rightarrow> Ok (entry, s, b)
     | None \<Rightarrow> and_then (make_direct_func C env index b)
         (\<lambda>(fref, b1). let entry = (fref, num_wasm_parameters (signature_of C b1 (ext_func_signature C b1 fref))) in
            Ok (entry, s\<lparr>fs_functions := (fs_functions s)(index \<mapsto> entry)\<rparr>, b1)))"

definition get_indirect_sig ::
  "'b clif_ops \<Rightarrow> TranslationEnvironment \<Rightarrow> TypeIndex \<Rightarrow> FuncTranslationState \<Rightarrow> 'b \<Rightarrow>
     ((SigRef \<times> nat) \<times> FuncTranslationState \<times> 'b) result" where
  "get_indirect_sig C env index s b = (case fs_signatures s index of
       Some entry \<Rightarrow> Ok (entry, s, b)
     | None \<Rightarrow> and_then (make_indirect_sig C env index b)
         (\<lambda>(sig, b1). let entry = (sig, num_wasm_parameters (signature_of C b1 sig)) in
            Ok (entry, s\<lparr>fs_signatures := (fs_signatures s)(index \<mapsto> entry)\<rparr>, b1)))"

definition get_global ::
  "'b clif_ops \<Rightarrow> TranslationEnvironment \<Rightarrow> GlobalIndex \<Rightarrow> FuncTranslationState \<Rightarrow> 'b \<Rightarrow>
     (CraneliftGlobal \<times> FuncTranslationState \<times> TranslationEnvironment \<times> 'b) result" where
  "get_global C env index s b = (case fs_globals s index of
       Some g \<Rightarrow> Ok (g, s, env, b)
     | None \<Rightarrow> and_then (make_global C env index b)
         (\<lambda>(g, env', b1). Ok (g, s\<lparr>fs_globals := (fs_globals s)(index \<mapsto> g)\<rparr>, env', b1)))"

definition get_memory ::
  "'b clif_ops \<Rightarrow> TranslationEnvironment \<Rightarrow> MemoryIndex \<Rightarrow> FuncTranslationState \<Rightarrow> 'b \<Rightarrow>
     (CraneliftMemory \<times> FuncTranslationState \<times> TranslationEnvironment \<times> 'b) result" where
  "get_memory C env index s b = (case fs_memories s index of
       Some m \<Rightarrow> Ok (m, s, env, b)
     | None \<Rightarrow> and_then (make_memory C env index b)
         (\<lambda>(m, env', b1). Ok (m, s\<lparr>fs_memories := (fs_memories s)(index \<mapsto> m)\<rparr>, env', b1)))"

definition get_table ::
  "'b clif_ops \<Rightarrow> TranslationEnvironment \<Rightarrow> TableIndex \<Rightarrow> FuncTranslationState \<Rightarrow> 'b \<Rightarrow>
     (CraneliftTable \<times> FuncTranslationState \<times> TranslationEnvironment \<times> 'b) result" where
  "get_table C env index s b = (case fs_tables s index of
       Some t \<Rightarrow> Ok (t, s, env, b)
     | None \<Rightarrow> and_then (make_table C env index b)
         (\<lambda>(t, env', b1). Ok (t, s\<lparr>fs_tables := (fs_tables s)(index \<mapsto> t)\<rparr>, env', b1)))"

section \<open>Lemmas\<close>

lemma num_wasm_parameters_eq: "num_wasm_parameters sig = length (sig_params sig) - 2"
proof -
  have "filter is_wasm_parameter [0..<n] = [2..<n]" for n
    by (induction n) (auto simp: is_wasm_parameter_def)
  then show ?thesis by (simp add: num_wasm_parameters_def)
qed

lemma pop_or_append [simp]: "fs_stack s = xs @ [v] \<Longrightarrow> pop_or msg s = Ok (v, s\<lparr>fs_stack := xs\<rparr>)"
  by (simp add: pop_or_def)

lemma pop1_append: "fs_stack s = xs @ [v] \<Longrightarrow> pop1 s = Ok (v, s\<lparr>fs_stack := xs\<rparr>)"
  by (simp add: pop1_def)

lemma peek1_append: "fs_stack s = xs @ [v] \<Longrightarrow> peek1 s = Ok v"
  by (simp add: peek1_def)

lemma pop2_append: "fs_stack s = xs @ [v1, v2] \<Longrightarrow> pop2 s = Ok ((v1, v2), s\<lparr>fs_stack := xs\<rparr>)"
  using pop_or_append [of s "xs @ [v1]" v2] by (simp add: pop2_def)

lemma pop3_append: "fs_stack s = xs @ [v1, v2, v3] \<Longrightarrow> pop3 s = Ok ((v1, v2, v3), s\<lparr>fs_stack := xs\<rparr>)"
  using pop_or_append [of s "xs @ [v1, v2]" v3] pop_or_append [of _ "xs @ [v1]" v2] by (simp add: pop3_def)

lemma popn_append: "fs_stack s = xs @ vs \<Longrightarrow> popn (length vs) s = Ok (s\<lparr>fs_stack := xs\<rparr>)"
  by (simp add: popn_def ensure_length_is_at_least_def)

lemma peekn_append: "fs_stack s = xs @ vs \<Longrightarrow> peekn (length vs) s = Ok vs"
  by (simp add: peekn_def ensure_length_is_at_least_def)

lemma poken_append: "fs_stack s = xs @ vs \<Longrightarrow> length ws = length vs \<Longrightarrow> poken ws s = s\<lparr>fs_stack := xs @ ws\<rparr>"
  by (simp add: poken_def)

end
