(* ===== verification/Code_Translator.thy ===== *)
theory Code_Translator
  imports Func_State
begin

text \<open>
  The translation of Wasm operators into Cranelift code: \<open>src/src/cranelift/code_translator.rs\<close>
  with the block helpers of \<open>src/src/cranelift/utils.rs\<close> and the operator hooks of
  \<open>src/src/cranelift/env.rs\<close>. The 128-bit SIMD operators are left out; everything else that the
  match statement lists is here. Operators that differ only in the width or signedness of their
  operands share a constructor, as they share an arm of the match or a call with the width as argument.
\<close>

section \<open>Translation steps\<close>

text \<open>The translation state, environment and function builder that every step passes on.\<close>

type_synonym 'b tr_st = "FuncTranslationState \<times> TranslationEnvironment \<times> 'b"
type_synonym ('a, 'b) tr = "'b tr_st \<Rightarrow> ('a \<times> 'b tr_st) result"

definition tr_ok :: "'a \<Rightarrow> ('a, 'b) tr" where
  "tr_ok a st = Ok (a, st)"

definition tr_then :: "('a, 'b) tr \<Rightarrow> ('a \<Rightarrow> ('c, 'b) tr) \<Rightarrow> ('c, 'b) tr" where
  "tr_then m f st = and_then (m st) (\<lambda>(a, st'). f a st')"

definition tr_of :: "'a result \<Rightarrow> ('a, 'b) tr" where
  "tr_of r st = map_ok (\<lambda>a. (a, st)) r"

definition tr_state :: "(FuncTranslationState \<Rightarrow> ('a \<times> FuncTranslationState) result) \<Rightarrow> ('a, 'b) tr" where
  "tr_state f = (\<lambda>(s, env, b). map_ok (\<lambda>(a, s'). (a, s', env, b)) (f s))"

definition tr_modify :: "(FuncTranslationState \<Rightarrow> FuncTranslationState result) \<Rightarrow> (unit, 'b) tr" where
  "tr_modify f = tr_state (\<lambda>s. map_ok (Pair ()) (f s))"

definition tr_read :: "(FuncTranslationState \<Rightarrow> 'a result) \<Rightarrow> ('a, 'b) tr" where
  "tr_read f = tr_state (\<lambda>s. map_ok (\<lambda>a. (a, s)) (f s))"

definition tr_build :: "('b \<Rightarrow> 'a \<times> 'b) \<Rightarrow> ('a, 'b) tr" where
  "tr_build f = (\<lambda>(s, env, b). case f b of (a, b') \<Rightarrow> Ok (a, s, env, b'))"

definition tr_builder :: "('b \<Rightarrow> 'b) \<Rightarrow> (unit, 'b) tr" where
  "tr_builder f = tr_build (\<lambda>b. ((), f b))"

definition tr_ask :: "(TranslationEnvironment \<Rightarrow> 'b \<Rightarrow> 'a) \<Rightarrow> ('a, 'b) tr" where
  "tr_ask f = (\<lambda>(s, env, b). Ok (f env b, s, env, b))"

definition tr_pop1 :: "(ir_Value, 'b) tr" where "tr_pop1 = tr_state pop1"
definition tr_pop2 :: "(ir_Value \<times> ir_Value, 'b) tr" where "tr_pop2 = tr_state pop2"
definition tr_pop3 :: "(ir_Value \<times> ir_Value \<times> ir_Value, 'b) tr" where "tr_pop3 = tr_state pop3"
definition tr_push1 :: "ir_Value \<Rightarrow> (unit, 'b) tr" where "tr_push1 v = tr_modify (\<lambda>s. Ok (push1 v s))"
definition tr_pushn :: "ir_Value list \<Rightarrow> (unit, 'b) tr" where "tr_pushn vs = tr_modify (\<lambda>s. Ok (pushn vs s))"
definition tr_peekn :: "nat \<Rightarrow> (ir_Value list, 'b) tr" where "tr_peekn n = tr_read (peekn n)"
definition tr_popn :: "nat \<Rightarrow> (unit, 'b) tr" where "tr_popn n = tr_modify (popn n)"
definition tr_set_reachable :: "bool \<Rightarrow> (unit, 'b) tr" where
  "tr_set_reachable r = tr_modify (\<lambda>s. Ok (s\<lparr>reachable := r\<rparr>))"

text \<open>Instructions, for their first result, for the instruction, and for neither.\<close>

definition tr_ins :: "'b clif_ops \<Rightarrow> inst \<Rightarrow> (ir_Value, 'b) tr" where
  "tr_ins C i = tr_build (ins C i)"

definition tr_inst :: "'b clif_ops \<Rightarrow> inst \<Rightarrow> (ir_Inst, 'b) tr" where
  "tr_inst C i = tr_build (ins_inst C i)"

definition tr_emit :: "'b clif_ops \<Rightarrow> inst \<Rightarrow> (unit, 'b) tr" where
  "tr_emit C i = tr_builder (\<lambda>b. snd (ins_inst C i b))"

definition tr_type_of :: "'b clif_ops \<Rightarrow> ir_Value \<Rightarrow> (ir_Type, 'b) tr" where
  "tr_type_of C v = tr_ask (\<lambda>env b. value_type_of C b v)"

fun tr_each :: "('a \<Rightarrow> ('c, 'b) tr) \<Rightarrow> 'a list \<Rightarrow> ('c list, 'b) tr" where
  "tr_each f [] = tr_ok []"
| "tr_each f (x # xs) = tr_then (f x) (\<lambda>y. tr_then (tr_each f xs) (\<lambda>ys. tr_ok (y # ys)))"

section \<open>Blocks\<close>

text \<open>What the translator asks of the validator of the function body.\<close>

record FuncValidator =
  sub_type_at :: "nat \<Rightarrow> wp_SubType option"
  get_operand_type :: "nat \<Rightarrow> wp_ValType option option"

fun wp_unwrap_func :: "wp_CompositeInnerType \<Rightarrow> wp_FuncType result" where
  "wp_unwrap_func (WP_Func f) = Ok f"
| "wp_unwrap_func _ = Panic ''not a func''"

fun blocktype_params_results :: "FuncValidator \<Rightarrow> BlockType \<Rightarrow> (wp_ValType list \<times> wp_ValType list) result" where
  "blocktype_params_results V BT_Empty = Ok ([], [])"
| "blocktype_params_results V (BT_Type ty) = Ok ([], [ty])"
| "blocktype_params_results V (BT_FuncType ty_index) =
     and_then (expect (sub_type_at V ty_index) ''should be valid'')
     (\<lambda>sub. and_then (wp_unwrap_func (wp_inner (wp_composite_type sub)))
     (\<lambda>ty. Ok (wp_params ty, wp_results ty)))"

text \<open>The type of a block parameter and whether it is tracked in stack maps.\<close>

fun block_param_type :: "TranslationEnvironment \<Rightarrow> wp_ValType \<Rightarrow> (ir_Type \<times> bool) result" where
  "block_param_type env WP_I32 = Ok (IR_I32, False)"
| "block_param_type env WP_I64 = Ok (IR_I64, False)"
| "block_param_type env WP_F32 = Ok (IR_F32, False)"
| "block_param_type env WP_F64 = Ok (IR_F64, False)"
| "block_param_type env (WP_Ref rt) =
     and_then (env_convert_heap_type env (wp_heap_type rt)) (env_reference_type env)"
| "block_param_type env WP_V128 = Ok (IR_I8X16, False)"

definition tr_block_param :: "'b clif_ops \<Rightarrow> ir_Block \<Rightarrow> wp_ValType \<Rightarrow> (unit, 'b) tr" where
  "tr_block_param C block ty = (\<lambda>(s, env, b).
     and_then (block_param_type env ty)
     (\<lambda>(t, needs_stack_map). case append_block_param C block t b of (val, b1) \<Rightarrow>
        Ok ((), s, env, if needs_stack_map then declare_stack_map C val b1 else b1)))"

definition block_with_params :: "'b clif_ops \<Rightarrow> wp_ValType list \<Rightarrow> (ir_Block, 'b) tr" where
  "block_with_params C tys =
     tr_then (tr_build (create_block C))
     (\<lambda>block. tr_then (tr_each (tr_block_param C block) tys) (\<lambda>_. tr_ok block))"

section \<open>Vector types\<close>

definition bitcast_flags :: MemFlags where
  "bitcast_flags = memflags_new\<lparr>mf_little := True\<rparr>"

definition optionally_bitcast_vector :: "'b clif_ops \<Rightarrow> ir_Value \<Rightarrow> ir_Type \<Rightarrow> (ir_Value, 'b) tr" where
  "optionally_bitcast_vector C value needed_type =
     tr_then (tr_type_of C value)
     (\<lambda>ty. if ty \<noteq> needed_type then tr_ins C (Bitcast needed_type bitcast_flags value) else tr_ok value)"

definition is_non_canonical_v128 :: "ir_Type \<Rightarrow> bool" where
  "is_non_canonical_v128 ty \<longleftrightarrow> ty \<in> {IR_I64X2, IR_I32X4, IR_I16X8, IR_F32X4, IR_F64X2}"

definition canonicalise_value :: "'b clif_ops \<Rightarrow> ir_Value \<Rightarrow> (ir_Value, 'b) tr" where
  "canonicalise_value C v = tr_then (tr_type_of C v)
     (\<lambda>ty. if is_non_canonical_v128 ty then tr_ins C (Bitcast IR_I8X16 bitcast_flags v) else tr_ok v)"

definition canonicalise_v128_values :: "'b clif_ops \<Rightarrow> ir_Value list \<Rightarrow> (ir_Value list, 'b) tr" where
  "canonicalise_v128_values C vals =
     tr_then (tr_ask (\<lambda>env b. list_ex (\<lambda>v. is_non_canonical_v128 (value_type_of C b v)) vals))
     (\<lambda>any_non_canonical. if \<not> any_non_canonical then tr_ok vals else tr_each (canonicalise_value C) vals)"

definition canonicalise_then_jump :: "'b clif_ops \<Rightarrow> ir_Block \<Rightarrow> ir_Value list \<Rightarrow> (ir_Inst, 'b) tr" where
  "canonicalise_then_jump C dst vs =
     tr_then (canonicalise_v128_values C vs) (\<lambda>canonicalised. tr_inst C (Jump dst canonicalised))"

definition canonicalise_brif ::
  "'b clif_ops \<Rightarrow> ir_Value \<Rightarrow> ir_Block \<Rightarrow> ir_Value list \<Rightarrow> ir_Block \<Rightarrow> ir_Value list \<Rightarrow> (ir_Inst, 'b) tr" where
  "canonicalise_brif C cond block_then params_then block_else params_else =
     tr_then (canonicalise_v128_values C params_then)
     (\<lambda>canonicalised_then. tr_then (canonicalise_v128_values C params_else)
     (\<lambda>canonicalised_else. tr_inst C (Brif cond block_then canonicalised_then block_else canonicalised_else)))"

text \<open>
  \<open>bitcast_arguments\<close>: which arguments need a bitcast to the type of their parameter. The zip panics
  when the lengths differ.
\<close>

fun zip_eq :: "'a list \<Rightarrow> 'c list \<Rightarrow> ('a \<times> 'c) list result" where
  "zip_eq [] [] = Ok []"
| "zip_eq (x # xs) (y # ys) = map_ok (\<lambda>ps. (x, y) # ps) (zip_eq xs ys)"
| "zip_eq _ _ = Panic ''iterators are different in length''"

definition needs_bitcast :: "'b clif_ops \<Rightarrow> 'b \<Rightarrow> ir_Type \<times> ir_Value \<Rightarrow> (bool \<times> ir_Type \<times> ir_Value) result" where
  "needs_bitcast C b = (\<lambda>(param_type, arg).
     if is_vector param_type
     then and_then (assert_that (is_vector (value_type_of C b arg)) ''unexpected type mismatch'')
       (\<lambda>_. Ok (value_type_of C b arg \<noteq> param_type, param_type, arg))
     else Ok (False, param_type, arg))"

definition bitcast_arguments ::
  "'b clif_ops \<Rightarrow> 'b \<Rightarrow> ir_Value list \<Rightarrow> ir_Type list \<Rightarrow> (nat \<Rightarrow> bool) \<Rightarrow> (bool \<times> ir_Type \<times> ir_Value) list result" where
  "bitcast_arguments C b arguments ptys param_predicate =
     and_then (zip_eq (map snd (filter (\<lambda>(i, _). param_predicate i) (List.enumerate 0 ptys))) arguments)
       (collect (needs_bitcast C b))"

definition apply_bitcast :: "'b clif_ops \<Rightarrow> bool \<times> ir_Type \<times> ir_Value \<Rightarrow> (ir_Value, 'b) tr" where
  "apply_bitcast C = (\<lambda>(change, t, arg).
     if change then tr_ins C (Bitcast t bitcast_flags arg) else tr_ok arg)"

definition bitcast_values ::
  "'b clif_ops \<Rightarrow> ('b \<Rightarrow> ir_Type list) \<Rightarrow> (nat \<Rightarrow> bool) \<Rightarrow> ir_Value list \<Rightarrow> (ir_Value list, 'b) tr" where
  "bitcast_values C ptys param_predicate arguments =
     tr_then (\<lambda>(s, env, b). map_ok (\<lambda>changes. (changes, s, env, b))
               (bitcast_arguments C b arguments (ptys b) param_predicate))
     (\<lambda>changes. tr_then (tr_each (apply_bitcast C) changes)
     (\<lambda>vs. tr_then (tr_modify (\<lambda>s. Ok (poken vs s))) (\<lambda>_. tr_ok vs)))"

text \<open>All returns have the normal purpose, so all of them are Wasm returns.\<close>

definition bitcast_wasm_returns :: "'b clif_ops \<Rightarrow> ir_Value list \<Rightarrow> (ir_Value list, 'b) tr" where
  "bitcast_wasm_returns C arguments =
     bitcast_values C (\<lambda>b. sig_returns (func_signature C b)) (\<lambda>_. True) arguments"

definition bitcast_wasm_params :: "'b clif_ops \<Rightarrow> SigRef \<Rightarrow> ir_Value list \<Rightarrow> (ir_Value list, 'b) tr" where
  "bitcast_wasm_params C callee_signature arguments =
     bitcast_values C (\<lambda>b. sig_params (signature_of C b callee_signature)) is_wasm_parameter arguments"

section \<open>Operators\<close>

datatype Width = W32 | W64
datatype Signedness = Signed | Unsigned

datatype (plugins only: code) IntBinop =
    WAdd | WSub | WMul | WDiv Signedness | WRem Signedness | WAnd | WOr | WXor | WShl | WShr Signedness | WRotl | WRotr

datatype (plugins only: code) IntUnop = WClz | WCtz | WPopcnt

datatype (plugins only: code) IntRelop =
    WEq | WNe | WLt Signedness | WGt Signedness | WLe Signedness | WGe Signedness

datatype (plugins only: code) FloatBinop = FAdd | FSub | FMul | FDiv | FMin | FMax | FCopysign
datatype (plugins only: code) FloatUnop = FSqrt | FCeil | FFloor | FTrunc | FNearest | FAbs | FNeg
datatype (plugins only: code) FloatRelop = FEq | FNe | FLt | FGt | FLe | FGe

text \<open>Conversions: of the integer width, the float width and the signedness, where an operator has them.\<close>

datatype (plugins only: code) Cvtop =
    I32WrapI64 | I64ExtendI32 Signedness | ITruncF Width Width Signedness | ITruncSatF Width Width Signedness
  | F32DemoteF64 | F64PromoteF32 | FConvertI Width Width Signedness | FReinterpretI Width | IReinterpretF Width

datatype (plugins only: code) Extop = I32Extend8S | I32Extend16S | I64Extend8S | I64Extend16S | I64Extend32S

datatype (plugins only: code) Loadop =
    ILoad Width | FLoad Width | ILoad8 Width Signedness | ILoad16 Width Signedness | I64Load32 Signedness

datatype (plugins only: code) Storeop = IStore Width | FStore Width | IStore8 Width | IStore16 Width | I64Store32

datatype (plugins only: code) Proposal =
    GarbageCollection | MemoryControl | SharedEverythingThreads | ExceptionHandling
  | LegacyExceptionHandling | StackSwitching | WideArithmetic

text \<open>Atomic accesses, of the value and access types.\<close>

datatype (plugins only: code) AtomicOp = Atomic_Load | Atomic_Store | Atomic_Rmw | Atomic_Cas

text \<open>Numeric operators.\<close>

datatype (plugins only: code) NumOp =
    I32Const int | I64Const int | N_F32Const nat | N_F64Const nat
  | IBinop Width IntBinop | IUnop Width IntUnop | IEqz Width | IRelop Width IntRelop
  | FBinop Width FloatBinop | FUnop Width FloatUnop | FRelop Width FloatRelop | Cvt Cvtop | Extend Extop

text \<open>Operators on whole tables, memories and segments, and function references.\<close>

datatype (plugins only: code) BulkOp =
    TableFill TableIndex | TableGet TableIndex | TableSet TableIndex | TableGrow TableIndex | TableSize TableIndex
  | TableInit nat TableIndex | TableCopy TableIndex TableIndex | ElemDrop nat
  | MemoryGrow MemoryIndex | MemorySize MemoryIndex | MemoryInit nat MemoryIndex | MemoryCopy MemoryIndex MemoryIndex
  | MemoryFill MemoryIndex | DataDrop nat | RefFunc FuncIndex | RefI31 | I31GetS | I31GetU
  | AtomicWait Width MemArg | AtomicNotify MemArg | Atomic AtomicOp MemArg

text \<open>
  The operators on vectors, of the shape where an operator exists for several; combinations that are not
  operators of Wasm, such as a product of bytes, do not occur.
\<close>

datatype (plugins only: code) Shape = S_I8x16 | S_I16x8 | S_I32x4 | S_I64x2 | S_F32x4 | S_F64x2

datatype (plugins only: code) Half = Low | High

datatype (plugins only: code) VIntBinop =
    VAdd | VAddSat Signedness | VSub | VSubSat Signedness | VMin Signedness | VMax Signedness | VAvgrU | VMul

datatype (plugins only: code) VBitop = VOr | VXor | VAnd | VAndNot

datatype (plugins only: code) VShiftop = VShl | VShr Signedness

datatype (plugins only: code) VectorOp =
    V_Const "nat list" | V_Load MemArg | V_Load8x8 Signedness MemArg | V_Load16x4 Signedness MemArg
  | V_Load32x2 Signedness MemArg | V_Store MemArg | V_Splat Shape | V_LoadSplat Shape MemArg | V_LoadZero Shape MemArg
  | V_LoadLane Shape MemArg nat | V_StoreLane Shape MemArg nat
  | V_ExtractLaneExtend Shape Signedness nat | V_ExtractLane Shape nat | V_ReplaceLane Shape nat
  | V_Shuffle "nat list" | V_Swizzle | V_IBinop Shape VIntBinop | V_INeg Shape | V_IAbs Shape | V_Popcnt
  | V_Bitop VBitop | V_Not | V_Shift Shape VShiftop | V_Bitselect | V_AnyTrue | V_AllTrue Shape | V_Bitmask Shape
  | V_ICmp Shape IntRelop | V_FCmp Shape FloatRelop | V_FBinop Shape FloatBinop | V_PMax Shape | V_PMin Shape
  | V_FUnop Shape FloatUnop
  | V_F32x4ConvertI32x4 Signedness | V_F64x2ConvertLowI32x4 Signedness | V_F64x2PromoteLowF32x4 | V_F32x4DemoteF64x2Zero
  | V_I32x4TruncSatF32x4 Signedness | V_I32x4TruncSatF64x2Zero Signedness
  | V_Narrow Shape Signedness | V_Extend Half Shape Signedness | V_ExtAddPairwise Shape Signedness
  | V_I32x4DotI16x8S | V_I16x8Q15MulrSatS | V_ExtMul Half Shape Signedness
  | V_RelaxedMax Shape | V_RelaxedMin Shape | V_RelaxedSwizzle | V_RelaxedMadd Shape | V_RelaxedNmadd Shape
  | V_RelaxedLaneselect Shape | V_I32x4RelaxedTruncF32x4 Signedness | V_I32x4RelaxedTruncF64x2Zero Signedness
  | V_I16x8RelaxedQ15mulrS | V_I16x8RelaxedDotI8x16I7x16S | V_I32x4RelaxedDotI8x16I7x16AddS

datatype (plugins only: code) Operator =
    O_Unreachable | O_Nop | O_Drop | O_Select | O_TypedSelect
  | O_Block BlockType | O_Loop BlockType | O_If BlockType | O_Else | O_End
  | O_Br nat | O_BrIf nat | O_BrTable "nat list" nat | O_Return
  | O_Call FuncIndex | O_CallIndirect TypeIndex TableIndex | O_ReturnCall FuncIndex
  | O_ReturnCallIndirect TypeIndex TableIndex | O_CallRef TypeIndex | O_ReturnCallRef TypeIndex
  | O_LocalGet nat | O_LocalSet nat | O_LocalTee nat | O_GlobalGet GlobalIndex | O_GlobalSet GlobalIndex
  | O_Num NumOp | O_Load Loadop MemArg | O_Store Storeop MemArg | O_Bulk BulkOp
  | O_RefNull wp_HeapType | O_RefIsNull | O_RefAsNonNull | O_BrOnNull nat | O_BrOnNonNull nat
  | O_AtomicFence | O_Vector VectorOp | O_Unsupported Proposal

fun int_ty :: "Width \<Rightarrow> ir_Type" where "int_ty W32 = IR_I32" | "int_ty W64 = IR_I64"
fun float_ty :: "Width \<Rightarrow> ir_Type" where "float_ty W32 = IR_F32" | "float_ty W64 = IR_F64"

fun int_binop :: "IntBinop \<Rightarrow> ir_Binop" where
  "int_binop WAdd = Iadd" | "int_binop WSub = Isub" | "int_binop WMul = Imul"
| "int_binop (WDiv Signed) = Sdiv" | "int_binop (WDiv Unsigned) = Udiv"
| "int_binop (WRem Signed) = Srem" | "int_binop (WRem Unsigned) = Urem"
| "int_binop WAnd = Band" | "int_binop WOr = Bor" | "int_binop WXor = Bxor" | "int_binop WShl = Ishl"
| "int_binop (WShr Signed) = Sshr" | "int_binop (WShr Unsigned) = Ushr"
| "int_binop WRotl = Rotl" | "int_binop WRotr = Rotr"

fun int_unop :: "IntUnop \<Rightarrow> ir_Unop" where
  "int_unop WClz = Clz" | "int_unop WCtz = Ctz" | "int_unop WPopcnt = Popcnt"

fun int_relop :: "IntRelop \<Rightarrow> IntCC" where
  "int_relop WEq = CC_Equal" | "int_relop WNe = CC_NotEqual"
| "int_relop (WLt Signed) = CC_SignedLessThan" | "int_relop (WLt Unsigned) = CC_UnsignedLessThan"
| "int_relop (WLe Signed) = CC_SignedLessThanOrEqual" | "int_relop (WLe Unsigned) = CC_UnsignedLessThanOrEqual"
| "int_relop (WGt Signed) = CC_SignedGreaterThan" | "int_relop (WGt Unsigned) = CC_UnsignedGreaterThan"
| "int_relop (WGe Signed) = CC_SignedGreaterThanOrEqual" | "int_relop (WGe Unsigned) = CC_UnsignedGreaterThanOrEqual"

fun float_binop :: "FloatBinop \<Rightarrow> ir_Binop" where
  "float_binop FAdd = Fadd" | "float_binop FSub = Fsub" | "float_binop FMul = Fmul" | "float_binop FDiv = Fdiv"
| "float_binop FMin = Fmin" | "float_binop FMax = Fmax" | "float_binop FCopysign = Fcopysign"

fun float_unop :: "FloatUnop \<Rightarrow> ir_Unop" where
  "float_unop FSqrt = Sqrt" | "float_unop FCeil = Ceil" | "float_unop FFloor = Floor" | "float_unop FTrunc = Trunc"
| "float_unop FNearest = Nearest" | "float_unop FAbs = Fabs" | "float_unop FNeg = Fneg"

fun float_relop :: "FloatRelop \<Rightarrow> FloatCC" where
  "float_relop FEq = FC_Equal" | "float_relop FNe = FC_NotEqual" | "float_relop FLt = FC_LessThan"
| "float_relop FGt = FC_GreaterThan" | "float_relop FLe = FC_LessThanOrEqual" | "float_relop FGe = FC_GreaterThanOrEqual"

fun cvt_inst :: "Cvtop \<Rightarrow> ir_Value \<Rightarrow> inst" where
  "cvt_inst I32WrapI64 v = Convert Ireduce IR_I32 v"
| "cvt_inst (I64ExtendI32 Signed) v = Convert Sextend IR_I64 v"
| "cvt_inst (I64ExtendI32 Unsigned) v = Convert Uextend IR_I64 v"
| "cvt_inst (ITruncF w fw Signed) v = Convert Fcvt_to_sint (int_ty w) v"
| "cvt_inst (ITruncF w fw Unsigned) v = Convert Fcvt_to_uint (int_ty w) v"
| "cvt_inst (ITruncSatF w fw Signed) v = Convert Fcvt_to_sint_sat (int_ty w) v"
| "cvt_inst (ITruncSatF w fw Unsigned) v = Convert Fcvt_to_uint_sat (int_ty w) v"
| "cvt_inst F32DemoteF64 v = Convert Fdemote IR_F32 v"
| "cvt_inst F64PromoteF32 v = Convert Fpromote IR_F64 v"
| "cvt_inst (FConvertI fw w Signed) v = Convert Fcvt_from_sint (float_ty fw) v"
| "cvt_inst (FConvertI fw w Unsigned) v = Convert Fcvt_from_uint (float_ty fw) v"
| "cvt_inst (FReinterpretI w) v = Bitcast (float_ty w) memflags_new v"
| "cvt_inst (IReinterpretF w) v = Bitcast (int_ty w) memflags_new v"

fun extend_types :: "Extop \<Rightarrow> ir_Type \<times> ir_Type" where
  "extend_types I32Extend8S = (IR_I8, IR_I32)" | "extend_types I32Extend16S = (IR_I16, IR_I32)"
| "extend_types I64Extend8S = (IR_I8, IR_I64)" | "extend_types I64Extend16S = (IR_I16, IR_I64)"
| "extend_types I64Extend32S = (IR_I32, IR_I64)"

fun load_opcode :: "Loadop \<Rightarrow> ir_Opcode \<times> ir_Type" where
  "load_opcode (ILoad w) = (Op_Load, int_ty w)"
| "load_opcode (FLoad w) = (Op_Load, float_ty w)"
| "load_opcode (ILoad8 w Signed) = (Sload8, int_ty w)" | "load_opcode (ILoad8 w Unsigned) = (Uload8, int_ty w)"
| "load_opcode (ILoad16 w Signed) = (Sload16, int_ty w)" | "load_opcode (ILoad16 w Unsigned) = (Uload16, int_ty w)"
| "load_opcode (I64Load32 Signed) = (Sload32, IR_I64)" | "load_opcode (I64Load32 Unsigned) = (Uload32, IR_I64)"

fun store_opcode :: "Storeop \<Rightarrow> ir_Opcode" where
  "store_opcode (IStore w) = Op_Store" | "store_opcode (FStore w) = Op_Store"
| "store_opcode (IStore8 w) = Istore8" | "store_opcode (IStore16 w) = Istore16" | "store_opcode I64Store32 = Istore32"

fun unsupported_message :: "Proposal \<Rightarrow> string" where
  "unsupported_message GarbageCollection = ''Garbage Collection Proposal''"
| "unsupported_message MemoryControl = ''proposed memory-control operator''"
| "unsupported_message SharedEverythingThreads = ''Shared-Everything Threads Proposal''"
| "unsupported_message ExceptionHandling = ''Exception Handling Proposal''"
| "unsupported_message LegacyExceptionHandling = ''Legacy Exception Handling Proposal''"
| "unsupported_message StackSwitching = ''Stack Switching Proposal''"
| "unsupported_message WideArithmetic = ''Wide Arithmetic Proposal''"

section \<open>Hooks of the environment\<close>

text \<open>\<open>todo!()\<close>: most hooks are not implemented yet.\<close>

definition todo :: "('a, 'b) tr" where
  "todo st = Panic ''not yet implemented''"

definition translate_custom_global_get :: "GlobalIndex \<Rightarrow> (ir_Value, 'b) tr" where
  "translate_custom_global_get index = todo"
definition translate_custom_global_set :: "GlobalIndex \<Rightarrow> ir_Value \<Rightarrow> (unit, 'b) tr" where
  "translate_custom_global_set index value = todo"
definition translate_call_ref :: "SigRef \<Rightarrow> ir_Value \<Rightarrow> ir_Value list \<Rightarrow> bool \<Rightarrow> (ir_Inst, 'b) tr" where
  "translate_call_ref sig_ref callee vs may_be_null = todo"
definition translate_return_call :: "FuncIndex \<Rightarrow> ir_FuncRef \<Rightarrow> ir_Value list \<Rightarrow> (unit, 'b) tr" where
  "translate_return_call callee_index callee vs = todo"
definition translate_return_call_indirect ::
  "TableIndex \<Rightarrow> TypeIndex \<Rightarrow> SigRef \<Rightarrow> ir_Value \<Rightarrow> ir_Value list \<Rightarrow> (unit, 'b) tr" where
  "translate_return_call_indirect tbl type_idx sig_ref callee vs = todo"
definition translate_return_call_ref :: "SigRef \<Rightarrow> ir_Value \<Rightarrow> ir_Value list \<Rightarrow> (unit, 'b) tr" where
  "translate_return_call_ref sig_ref callee vs = todo"
definition translate_memory_grow :: "MemoryIndex \<Rightarrow> ir_Value \<Rightarrow> (ir_Value, 'b) tr" where
  "translate_memory_grow mem delta = todo"
definition translate_memory_size :: "MemoryIndex \<Rightarrow> (ir_Value, 'b) tr" where
  "translate_memory_size mem = todo"
definition translate_memory_copy ::
  "MemoryIndex \<Rightarrow> MemoryIndex \<Rightarrow> ir_Value \<Rightarrow> ir_Value \<Rightarrow> ir_Value \<Rightarrow> (unit, 'b) tr" where
  "translate_memory_copy src_index dst_index src_pos dst_pos len = todo"
definition translate_memory_fill :: "MemoryIndex \<Rightarrow> ir_Value \<Rightarrow> ir_Value \<Rightarrow> ir_Value \<Rightarrow> (unit, 'b) tr" where
  "translate_memory_fill mem dst value len = todo"
definition translate_memory_init :: "MemoryIndex \<Rightarrow> nat \<Rightarrow> ir_Value \<Rightarrow> ir_Value \<Rightarrow> ir_Value \<Rightarrow> (unit, 'b) tr" where
  "translate_memory_init mem data dst src len = todo"
definition translate_data_drop :: "nat \<Rightarrow> (unit, 'b) tr" where
  "translate_data_drop data = todo"
definition translate_table_size :: "TableIndex \<Rightarrow> (ir_Value, 'b) tr" where
  "translate_table_size tbl = todo"
definition translate_table_grow :: "TableIndex \<Rightarrow> ir_Value \<Rightarrow> ir_Value \<Rightarrow> (ir_Value, 'b) tr" where
  "translate_table_grow tbl delta initial_value = todo"
definition translate_table_get :: "TableIndex \<Rightarrow> ir_Value \<Rightarrow> (ir_Value, 'b) tr" where
  "translate_table_get tbl index = todo"
definition translate_table_set :: "TableIndex \<Rightarrow> ir_Value \<Rightarrow> ir_Value \<Rightarrow> (unit, 'b) tr" where
  "translate_table_set tbl value index = todo"
definition translate_table_copy :: "TableIndex \<Rightarrow> TableIndex \<Rightarrow> ir_Value \<Rightarrow> ir_Value \<Rightarrow> ir_Value \<Rightarrow> (unit, 'b) tr" where
  "translate_table_copy src_index dst_index dst src len = todo"
definition translate_table_fill :: "TableIndex \<Rightarrow> ir_Value \<Rightarrow> ir_Value \<Rightarrow> ir_Value \<Rightarrow> (unit, 'b) tr" where
  "translate_table_fill tbl dst value len = todo"
definition translate_table_init :: "TableIndex \<Rightarrow> nat \<Rightarrow> ir_Value \<Rightarrow> ir_Value \<Rightarrow> ir_Value \<Rightarrow> (unit, 'b) tr" where
  "translate_table_init tbl elem dst src len = todo"
definition translate_elem_drop :: "nat \<Rightarrow> (unit, 'b) tr" where
  "translate_elem_drop elem = todo"
definition translate_atomic_wait :: "MemoryIndex \<Rightarrow> ir_Value \<Rightarrow> ir_Value \<Rightarrow> ir_Value \<Rightarrow> (ir_Value, 'b) tr" where
  "translate_atomic_wait mem address expected_value timeout = todo"
definition translate_atomic_notify :: "MemoryIndex \<Rightarrow> ir_Value \<Rightarrow> ir_Value \<Rightarrow> (ir_Value, 'b) tr" where
  "translate_atomic_notify mem address count = todo"
definition translate_ref_func :: "FuncIndex \<Rightarrow> (ir_Value, 'b) tr" where
  "translate_ref_func index = todo"
definition translate_ref_i31 :: "ir_Value \<Rightarrow> (ir_Value, 'b) tr" where
  "translate_ref_i31 value = todo"
definition translate_i31_get_s :: "ir_Value \<Rightarrow> (ir_Value, 'b) tr" where
  "translate_i31_get_s value = todo"
definition translate_i31_get_u :: "ir_Value \<Rightarrow> (ir_Value, 'b) tr" where
  "translate_i31_get_u value = todo"

text \<open>\<open>translate_atomic_load\<close>, \<open>translate_atomic_store\<close>, \<open>translate_atomic_rmw\<close> and \<open>translate_atomic_cas\<close>.\<close>

definition translate_atomic :: "AtomicOp \<Rightarrow> MemArg \<Rightarrow> (unit, 'b) tr" where
  "translate_atomic aop memarg = todo"

lemmas hook_defs = translate_custom_global_get_def translate_custom_global_set_def translate_call_ref_def
  translate_return_call_def translate_return_call_indirect_def translate_return_call_ref_def
  translate_memory_grow_def translate_memory_size_def translate_memory_copy_def translate_memory_fill_def
  translate_memory_init_def translate_data_drop_def translate_table_size_def translate_table_grow_def
  translate_table_get_def translate_table_set_def translate_table_copy_def translate_table_fill_def
  translate_table_init_def translate_elem_drop_def translate_atomic_wait_def translate_atomic_notify_def
  translate_ref_func_def translate_ref_i31_def translate_i31_get_s_def translate_i31_get_u_def
  translate_atomic_def

text \<open>The environment's own operations, as steps.\<close>

definition tr_ref_is_null :: "'b clif_ops \<Rightarrow> ir_Value \<Rightarrow> (ir_Value, 'b) tr" where
  "tr_ref_is_null C v = tr_build (translate_ref_is_null C v)"

definition tr_direct_func :: "'b clif_ops \<Rightarrow> FuncIndex \<Rightarrow> (ir_FuncRef \<times> nat, 'b) tr" where
  "tr_direct_func C index = (\<lambda>(s, env, b).
     map_ok (\<lambda>(entry, s', b'). (entry, s', env, b')) (get_direct_func C env index s b))"

definition tr_indirect_sig :: "'b clif_ops \<Rightarrow> TypeIndex \<Rightarrow> (SigRef \<times> nat, 'b) tr" where
  "tr_indirect_sig C index = (\<lambda>(s, env, b).
     map_ok (\<lambda>(entry, s', b'). (entry, s', env, b')) (get_indirect_sig C env index s b))"

definition tr_global :: "'b clif_ops \<Rightarrow> GlobalIndex \<Rightarrow> (CraneliftGlobal, 'b) tr" where
  "tr_global C index = (\<lambda>(s, env, b). get_global C env index s b)"

definition tr_memory :: "'b clif_ops \<Rightarrow> MemoryIndex \<Rightarrow> (CraneliftMemory, 'b) tr" where
  "tr_memory C index = (\<lambda>(s, env, b). get_memory C env index s b)"

definition tr_table :: "'b clif_ops \<Rightarrow> TableIndex \<Rightarrow> (CraneliftTable, 'b) tr" where
  "tr_table C index = (\<lambda>(s, env, b). get_table C env index s b)"

definition tr_prepare_addr ::
  "'b clif_ops \<Rightarrow> CraneliftMemory \<Rightarrow> ir_Value \<Rightarrow> nat \<Rightarrow> MemArg \<Rightarrow>
     ((MemFlags \<times> ir_Value \<times> ir_Value) Reachability, 'b) tr" where
  "tr_prepare_addr C mem index access_size memarg = (\<lambda>(s, env, b).
     map_ok (\<lambda>(r, b'). (r, s, env, b')) (prepare_addr C env mem index access_size memarg b))"

definition translate_call :: "'b clif_ops \<Rightarrow> FuncIndex \<Rightarrow> ir_FuncRef \<Rightarrow> ir_Value list \<Rightarrow> (ir_Inst, 'b) tr" where
  "translate_call C callee_index callee call_args = (\<lambda>(s, env, b).
     map_ok (\<lambda>(n, env', b'). (n, s, env', b')) (direct_call C env callee_index callee call_args b))"

definition translate_call_indirect ::
  "'b clif_ops \<Rightarrow> TableIndex \<Rightarrow> CraneliftTable \<Rightarrow> TypeIndex \<Rightarrow> SigRef \<Rightarrow> ir_Value \<Rightarrow> ir_Value list \<Rightarrow>
     (ir_Inst Reachability, 'b) tr" where
  "translate_call_indirect C tbl table sig_index sig_ref callee call_args = (\<lambda>(s, env, b).
     map_ok (\<lambda>(r, env', b'). (r, s, env', b')) (indirect_call C env tbl table sig_index sig_ref callee call_args b))"

text \<open>The macro \<open>unwrap_or_return_unreachable_state\<close>.\<close>

definition unwrap_or_unreachable :: "'a Reachability \<Rightarrow> ('a \<Rightarrow> (unit, 'b) tr) \<Rightarrow> (unit, 'b) tr" where
  "unwrap_or_unreachable r f = (case r of Reachable a \<Rightarrow> f a | Unreachable \<Rightarrow> tr_set_reachable False)"

end
