(* ===== verification/Translate_Vector.thy ===== *)
theory Translate_Vector
  imports Code_Translator
begin

text \<open>
  Loads, stores and the vector operators of \<open>src/src/cranelift/code_translator.rs\<close>. Vectors are kept on the stack at
  whatever type the last instruction gave them, and are cast to the type that an operator needs.
\<close>

section \<open>Memory\<close>

fun mem_op_size :: "ir_Opcode \<Rightarrow> ir_Type \<Rightarrow> nat" where
  "mem_op_size Istore8 ty = 1" | "mem_op_size Sload8 ty = 1" | "mem_op_size Uload8 ty = 1"
| "mem_op_size Istore16 ty = 2" | "mem_op_size Sload16 ty = 2" | "mem_op_size Uload16 ty = 2"
| "mem_op_size Istore32 ty = 4" | "mem_op_size Sload32 ty = 4" | "mem_op_size Uload32 ty = 4"
| "mem_op_size Op_Store ty = ty_bytes ty" | "mem_op_size Op_Load ty = ty_bytes ty"

definition translate_load :: "'b clif_ops \<Rightarrow> MemArg \<Rightarrow> ir_Opcode \<Rightarrow> ir_Type \<Rightarrow> (unit Reachability, 'b) tr" where
  "translate_load C memarg opcode result_ty =
     tr_then tr_pop1
     (\<lambda>index. tr_then (tr_memory C (ma_memory memarg))
     (\<lambda>mem. tr_then (tr_prepare_addr C mem index (mem_op_size opcode result_ty) memarg)
     (\<lambda>r. case r of
         Unreachable \<Rightarrow> tr_ok Unreachable
       | Reachable (flags, _, base) \<Rightarrow>
           tr_then (tr_ins C (Load opcode result_ty flags base 0))
           (\<lambda>v. tr_then (tr_push1 v) (\<lambda>_. tr_ok (Reachable ()))))))"

definition translate_op_load :: "'b clif_ops \<Rightarrow> Loadop \<Rightarrow> MemArg \<Rightarrow> (unit, 'b) tr" where
  "translate_op_load C l memarg = (case load_opcode l of (opcode, result_ty) \<Rightarrow>
     tr_then (translate_load C memarg opcode result_ty) (\<lambda>r. unwrap_or_unreachable r tr_ok))"

definition translate_store :: "'b clif_ops \<Rightarrow> MemArg \<Rightarrow> ir_Opcode \<Rightarrow> (unit, 'b) tr" where
  "translate_store C memarg opcode =
     tr_then tr_pop1
     (\<lambda>val. tr_then tr_pop1
     (\<lambda>index. tr_then (tr_type_of C val)
     (\<lambda>val_ty. tr_then (tr_memory C (ma_memory memarg))
     (\<lambda>mem. tr_then (tr_prepare_addr C mem index (mem_op_size opcode val_ty) memarg)
     (\<lambda>r. unwrap_or_unreachable r (\<lambda>(flags, _, base). tr_emit C (Store opcode flags val base 0)))))))"

section \<open>Types of vectors\<close>

fun shape_ty :: "Shape \<Rightarrow> ir_Type" where
  "shape_ty S_I8x16 = IR_I8X16" | "shape_ty S_I16x8 = IR_I16X8" | "shape_ty S_I32x4 = IR_I32X4"
| "shape_ty S_I64x2 = IR_I64X2" | "shape_ty S_F32x4 = IR_F32X4" | "shape_ty S_F64x2 = IR_F64X2"

text \<open>Cranelift's \<open>Type::lane_type\<close>.\<close>

fun lane_type :: "ir_Type \<Rightarrow> ir_Type" where
  "lane_type IR_I8X16 = IR_I8" | "lane_type IR_I16X8 = IR_I16" | "lane_type IR_I32X4 = IR_I32"
| "lane_type IR_I64X2 = IR_I64" | "lane_type IR_F32X4 = IR_F32" | "lane_type IR_F64X2 = IR_F64" | "lane_type t = t"

text \<open>The returned type of an operator; the other operators of the match are translated without it.\<close>

definition type_of :: "VectorOp \<Rightarrow> ir_Type result" where
  "type_of operator = (case operator of
       V_Load m \<Rightarrow> Ok IR_I8X16 | V_Store m \<Rightarrow> Ok IR_I8X16 | V_Const bytes \<Rightarrow> Ok IR_I8X16 | V_Not \<Rightarrow> Ok IR_I8X16
     | V_Bitop bop \<Rightarrow> Ok IR_I8X16 | V_AnyTrue \<Rightarrow> Ok IR_I8X16 | V_Bitselect \<Rightarrow> Ok IR_I8X16
     | V_Shuffle lanes \<Rightarrow> Ok IR_I8X16 | V_Popcnt \<Rightarrow> Ok IR_I8X16
     | V_Splat sh \<Rightarrow> Ok (shape_ty sh) | V_LoadSplat sh m \<Rightarrow> Ok (shape_ty sh) | V_LoadZero sh m \<Rightarrow> Ok (shape_ty sh)
     | V_LoadLane sh m lane \<Rightarrow> Ok (shape_ty sh) | V_StoreLane sh m lane \<Rightarrow> Ok (shape_ty sh)
     | V_ExtractLaneExtend sh sx lane \<Rightarrow> Ok (shape_ty sh) | V_ExtractLane sh lane \<Rightarrow> Ok (shape_ty sh)
     | V_ReplaceLane sh lane \<Rightarrow> Ok (shape_ty sh) | V_ICmp sh rop \<Rightarrow> Ok (shape_ty sh) | V_FCmp sh rop \<Rightarrow> Ok (shape_ty sh)
     | V_INeg sh \<Rightarrow> Ok (shape_ty sh) | V_IAbs sh \<Rightarrow> Ok (shape_ty sh) | V_AllTrue sh \<Rightarrow> Ok (shape_ty sh)
     | V_Bitmask sh \<Rightarrow> Ok (shape_ty sh) | V_Shift sh sop \<Rightarrow> Ok (shape_ty sh) | V_IBinop sh bop \<Rightarrow> Ok (shape_ty sh)
     | V_FBinop sh bop \<Rightarrow> Ok (shape_ty sh) | V_FUnop sh uop \<Rightarrow> Ok (shape_ty sh)
     | V_PMax sh \<Rightarrow> Ok (shape_ty sh) | V_PMin sh \<Rightarrow> Ok (shape_ty sh)
     | V_I32x4TruncSatF32x4 sx \<Rightarrow> Ok IR_I32X4 | V_F32x4ConvertI32x4 sx \<Rightarrow> Ok IR_F32X4
     | V_RelaxedLaneselect sh \<Rightarrow> Ok (shape_ty sh) | V_RelaxedMax sh \<Rightarrow> Ok (shape_ty sh) | V_RelaxedMin sh \<Rightarrow> Ok (shape_ty sh)
     | V_RelaxedMadd sh \<Rightarrow> Ok (shape_ty sh) | V_RelaxedNmadd sh \<Rightarrow> Ok (shape_ty sh)
     | _ \<Rightarrow> Panic ''not implemented: Currently only SIMD instructions are mapped to their return type'')"

section \<open>Operands\<close>

definition pop1_with_bitcast :: "'b clif_ops \<Rightarrow> ir_Type \<Rightarrow> (ir_Value, 'b) tr" where
  "pop1_with_bitcast C needed_type = tr_then tr_pop1 (\<lambda>v. optionally_bitcast_vector C v needed_type)"

definition pop2_with_bitcast :: "'b clif_ops \<Rightarrow> ir_Type \<Rightarrow> (ir_Value \<times> ir_Value, 'b) tr" where
  "pop2_with_bitcast C needed_type =
     tr_then tr_pop2
     (\<lambda>(a, b). tr_then (optionally_bitcast_vector C a needed_type)
     (\<lambda>bitcast_a. tr_then (optionally_bitcast_vector C b needed_type)
     (\<lambda>bitcast_b. tr_ok (bitcast_a, bitcast_b))))"

definition pop3_with_bitcast :: "'b clif_ops \<Rightarrow> ir_Type \<Rightarrow> (ir_Value \<times> ir_Value \<times> ir_Value, 'b) tr" where
  "pop3_with_bitcast C needed_type =
     tr_then tr_pop3
     (\<lambda>(a, b, c). tr_then (optionally_bitcast_vector C a needed_type)
     (\<lambda>bitcast_a. tr_then (optionally_bitcast_vector C b needed_type)
     (\<lambda>bitcast_b. tr_then (optionally_bitcast_vector C c needed_type)
     (\<lambda>bitcast_c. tr_ok (bitcast_a, bitcast_b, bitcast_c)))))"

text \<open>Arms that cast their operands, build one value from them and push it.\<close>

definition vec1 :: "'b clif_ops \<Rightarrow> ir_Type \<Rightarrow> (ir_Value \<Rightarrow> (ir_Value, 'b) tr) \<Rightarrow> (unit, 'b) tr" where
  "vec1 C ty f = tr_then (pop1_with_bitcast C ty) (\<lambda>a. tr_then (f a) tr_push1)"

definition vec2 :: "'b clif_ops \<Rightarrow> ir_Type \<Rightarrow> (ir_Value \<Rightarrow> ir_Value \<Rightarrow> (ir_Value, 'b) tr) \<Rightarrow> (unit, 'b) tr" where
  "vec2 C ty f = tr_then (pop2_with_bitcast C ty) (\<lambda>(a, b). tr_then (f a b) tr_push1)"

definition vec3 :: "'b clif_ops \<Rightarrow> ir_Type \<Rightarrow> (ir_Value \<Rightarrow> ir_Value \<Rightarrow> ir_Value \<Rightarrow> (ir_Value, 'b) tr) \<Rightarrow> (unit, 'b) tr" where
  "vec3 C ty f = tr_then (pop3_with_bitcast C ty) (\<lambda>(a, b, c). tr_then (f a b c) tr_push1)"

definition translate_vector_icmp :: "'b clif_ops \<Rightarrow> IntCC \<Rightarrow> ir_Type \<Rightarrow> (unit, 'b) tr" where
  "translate_vector_icmp C cc needed_type =
     tr_then tr_pop2
     (\<lambda>(a, b). tr_then (optionally_bitcast_vector C a needed_type)
     (\<lambda>bitcast_a. tr_then (optionally_bitcast_vector C b needed_type)
     (\<lambda>bitcast_b. tr_then (tr_ins C (Icmp cc bitcast_a bitcast_b)) tr_push1)))"

definition translate_vector_fcmp :: "'b clif_ops \<Rightarrow> FloatCC \<Rightarrow> ir_Type \<Rightarrow> (unit, 'b) tr" where
  "translate_vector_fcmp C cc needed_type =
     tr_then tr_pop2
     (\<lambda>(a, b). tr_then (optionally_bitcast_vector C a needed_type)
     (\<lambda>bitcast_a. tr_then (optionally_bitcast_vector C b needed_type)
     (\<lambda>bitcast_b. tr_then (tr_ins C (Fcmp cc bitcast_a bitcast_b)) tr_push1)))"

section \<open>Instructions\<close>

fun vec_binop :: "VIntBinop \<Rightarrow> ir_Value \<Rightarrow> ir_Value \<Rightarrow> inst" where
  "vec_binop VAdd a b = Binary Iadd a b" | "vec_binop VSub a b = Binary Isub a b" | "vec_binop VMul a b = Binary Imul a b"
| "vec_binop (VAddSat Signed) a b = Vec_binary Sadd_sat a b" | "vec_binop (VAddSat Unsigned) a b = Vec_binary Uadd_sat a b"
| "vec_binop (VSubSat Signed) a b = Vec_binary Ssub_sat a b" | "vec_binop (VSubSat Unsigned) a b = Vec_binary Usub_sat a b"
| "vec_binop (VMin Signed) a b = Vec_binary Smin a b" | "vec_binop (VMin Unsigned) a b = Vec_binary Umin a b"
| "vec_binop (VMax Signed) a b = Vec_binary Smax a b" | "vec_binop (VMax Unsigned) a b = Vec_binary Umax a b"
| "vec_binop VAvgrU a b = Vec_binary Avg_round a b"

fun vec_bitop :: "VBitop \<Rightarrow> ir_Value \<Rightarrow> ir_Value \<Rightarrow> inst" where
  "vec_bitop VOr a b = Binary Bor a b" | "vec_bitop VXor a b = Binary Bxor a b"
| "vec_bitop VAnd a b = Binary Band a b" | "vec_bitop VAndNot a b = Vec_binary Band_not a b"

fun vec_shift :: "VShiftop \<Rightarrow> ir_Binop" where
  "vec_shift VShl = Ishl" | "vec_shift (VShr Unsigned) = Ushr" | "vec_shift (VShr Signed) = Sshr"

fun widen :: "Half \<Rightarrow> Signedness \<Rightarrow> ir_Vunop" where
  "widen Low Signed = Swiden_low" | "widen High Signed = Swiden_high"
| "widen Low Unsigned = Uwiden_low" | "widen High Unsigned = Uwiden_high"

definition tr_extend :: "'b clif_ops \<Rightarrow> Signedness \<Rightarrow> ir_Value \<Rightarrow> (ir_Value, 'b) tr" where
  "tr_extend C sx v = tr_ins C (Convert (case sx of Signed \<Rightarrow> Sextend | Unsigned \<Rightarrow> Uextend) IR_I32 v)"

definition fcvt_from :: "Signedness \<Rightarrow> ir_Cvtop" where
  "fcvt_from sx = (case sx of Signed \<Rightarrow> Fcvt_from_sint | Unsigned \<Rightarrow> Fcvt_from_uint)"

definition fcvt_sat :: "Signedness \<Rightarrow> ir_Cvtop" where
  "fcvt_sat sx = (case sx of Signed \<Rightarrow> Fcvt_to_sint_sat | Unsigned \<Rightarrow> Fcvt_to_uint_sat)"

text \<open>The upper half of the result of a conversion from doubles is zero.\<close>

definition narrow_with_zero :: "'b clif_ops \<Rightarrow> Signedness \<Rightarrow> ir_Value \<Rightarrow> (ir_Value, 'b) tr" where
  "narrow_with_zero C sx converted_a =
     tr_then (tr_ins C (Vconst IR_I64X2 (replicate 16 0)))
     (\<lambda>zero. tr_ins C (Vec_binary (case sx of Signed \<Rightarrow> Snarrow | Unsigned \<Rightarrow> Uunarrow) converted_a zero))"

definition pairwise_widened :: "'b clif_ops \<Rightarrow> Signedness \<Rightarrow> ir_Value \<Rightarrow> (ir_Value, 'b) tr" where
  "pairwise_widened C sx a =
     tr_then (tr_ins C (Vec_unary (widen Low sx) a))
     (\<lambda>widen_low. tr_then (tr_ins C (Vec_unary (widen High sx) a))
     (\<lambda>widen_high. tr_ins C (Vec_binary Iadd_pairwise widen_low widen_high)))"

definition extended_product :: "'b clif_ops \<Rightarrow> Half \<Rightarrow> Signedness \<Rightarrow> ir_Value \<Rightarrow> ir_Value \<Rightarrow> (ir_Value, 'b) tr" where
  "extended_product C half sx a b =
     tr_then (tr_ins C (Vec_unary (widen half sx) a))
     (\<lambda>wa. tr_then (tr_ins C (Vec_unary (widen half sx) b))
     (\<lambda>wb. tr_ins C (Binary Imul wa wb)))"

definition dot_product :: "'b clif_ops \<Rightarrow> ir_Value \<Rightarrow> ir_Value \<Rightarrow> (ir_Value, 'b) tr" where
  "dot_product C a b =
     tr_then (extended_product C Low Signed a b)
     (\<lambda>low. tr_then (extended_product C High Signed a b)
     (\<lambda>high. tr_ins C (Vec_binary Iadd_pairwise low high)))"

text \<open>\<open>pmax\<close> and \<open>pmin\<close>: the second operand when the comparison of \<open>x\<close> with \<open>y\<close> holds, else the first.\<close>

definition pseudo_select :: "'b clif_ops \<Rightarrow> ir_Type \<Rightarrow> ir_Value \<times> ir_Value \<Rightarrow> ir_Value \<Rightarrow> ir_Value \<Rightarrow> (ir_Value, 'b) tr" where
  "pseudo_select C ty = (\<lambda>(x, y) a b.
     tr_then (tr_ins C (Fcmp FC_LessThan x y))
     (\<lambda>cmp. tr_then (optionally_bitcast_vector C cmp ty)
     (\<lambda>cmp'. tr_ins C (Vec_ternary Bitselect cmp' b a))))"

text \<open>Relaxed operators have a deterministic translation and one for targets with a better instruction.\<close>

definition relaxed :: "(TargetIsa \<Rightarrow> bool) \<Rightarrow> ('a, 'b) tr \<Rightarrow> ('a, 'b) tr \<Rightarrow> ('a, 'b) tr" where
  "relaxed better deterministic native =
     tr_then (tr_ask (\<lambda>env b. te_relaxed_simd_deterministic env \<or> \<not> better (te_isa env)))
     (\<lambda>d. if d then deterministic else native)"

definition use_lowering :: "X86Lowering \<Rightarrow> TargetIsa \<Rightarrow> bool" where
  "use_lowering l isa = isa_has_lowering isa l"

definition no_native_fma :: "TargetIsa \<Rightarrow> bool" where
  "no_native_fma isa \<longleftrightarrow> \<not> isa_has_native_fma isa"

definition multiply_add :: "'b clif_ops \<Rightarrow> ir_Value \<Rightarrow> ir_Value \<Rightarrow> ir_Value \<Rightarrow> (ir_Value, 'b) tr" where
  "multiply_add C a b c = relaxed no_native_fma (tr_ins C (Vec_ternary Fma a b c))
     (tr_then (tr_ins C (Binary Fmul a b)) (\<lambda>mul. tr_ins C (Binary Fadd mul c)))"

definition relaxed_dot :: "'b clif_ops \<Rightarrow> ir_Value \<Rightarrow> ir_Value \<Rightarrow> (ir_Value, 'b) tr" where
  "relaxed_dot C a b = relaxed (use_lowering L_Pmaddubsw) (dot_product C a b) (tr_ins C (Vec_binary X86_pmaddubsw a b))"

section \<open>Memory\<close>

definition vec_load_extend :: "'b clif_ops \<Rightarrow> ir_Vload \<Rightarrow> MemArg \<Rightarrow> (unit, 'b) tr" where
  "vec_load_extend C opc memarg =
     tr_then tr_pop1
     (\<lambda>index. tr_then (tr_memory C (ma_memory memarg))
     (\<lambda>mem. tr_then (tr_prepare_addr C mem index 8 memarg)
     (\<lambda>r. unwrap_or_unreachable r (\<lambda>(flags, _, base). tr_then (tr_ins C (Vec_load opc flags base 0)) tr_push1))))"

text \<open>A load of one lane, followed by \<open>f\<close> on the loaded value.\<close>

definition vec_load_lane :: "'b clif_ops \<Rightarrow> MemArg \<Rightarrow> ir_Type \<Rightarrow> (ir_Value \<Rightarrow> (ir_Value, 'b) tr) \<Rightarrow> (unit, 'b) tr" where
  "vec_load_lane C memarg ty f =
     tr_then (translate_load C memarg Op_Load (lane_type ty))
     (\<lambda>r. unwrap_or_unreachable r (\<lambda>_. tr_then tr_pop1 (\<lambda>v. tr_then (f v) tr_push1)))"

section \<open>The operators\<close>

text \<open>The type of the operator, for the arms that use it.\<close>

definition with_type :: "VectorOp \<Rightarrow> (ir_Type \<Rightarrow> ('a, 'b) tr) \<Rightarrow> ('a, 'b) tr" where
  "with_type oper f = tr_then (tr_of (type_of oper)) f"

definition translate_vector :: "'b clif_ops \<Rightarrow> VectorOp \<Rightarrow> (unit, 'b) tr" where
  "translate_vector C oper = (case oper of
       V_Const bytes \<Rightarrow> tr_then (tr_ins C (Vconst IR_I8X16 bytes)) tr_push1
     | V_Load memarg \<Rightarrow> tr_then (translate_load C memarg Op_Load IR_I8X16) (\<lambda>r. unwrap_or_unreachable r tr_ok)
     | V_Load8x8 sx memarg \<Rightarrow> vec_load_extend C (case sx of Signed \<Rightarrow> Sload8x8 | Unsigned \<Rightarrow> Uload8x8) memarg
     | V_Load16x4 sx memarg \<Rightarrow> vec_load_extend C (case sx of Signed \<Rightarrow> Sload16x4 | Unsigned \<Rightarrow> Uload16x4) memarg
     | V_Load32x2 sx memarg \<Rightarrow> vec_load_extend C (case sx of Signed \<Rightarrow> Sload32x2 | Unsigned \<Rightarrow> Uload32x2) memarg
     | V_Store memarg \<Rightarrow> todo
     | V_Splat sh \<Rightarrow> with_type oper (\<lambda>ty. tr_then tr_pop1
         (\<lambda>v. tr_then (if sh \<in> {S_I8x16, S_I16x8} then tr_ins C (Convert Ireduce (lane_type ty) v) else tr_ok v)
         (\<lambda>w. tr_then (tr_ins C (Vec_make Splat ty w)) tr_push1)))
     | V_LoadSplat sh memarg \<Rightarrow> with_type oper (\<lambda>ty. vec_load_lane C memarg ty (\<lambda>v. tr_ins C (Vec_make Splat ty v)))
     | V_LoadZero sh memarg \<Rightarrow> with_type oper (\<lambda>ty. vec_load_lane C memarg ty (\<lambda>v. tr_ins C (Vec_make Scalar_to_vector ty v)))
     | V_LoadLane sh memarg lane \<Rightarrow> with_type oper (\<lambda>ty. tr_then (pop1_with_bitcast C ty)
         (\<lambda>vector. vec_load_lane C memarg ty (\<lambda>replacement. tr_ins C (Insertlane vector replacement lane))))
     | V_StoreLane sh memarg lane \<Rightarrow> with_type oper (\<lambda>ty. tr_then (pop1_with_bitcast C ty)
         (\<lambda>vector. tr_then (tr_ins C (Extractlane vector lane))
         (\<lambda>v. tr_then (tr_push1 v) (\<lambda>_. translate_store C memarg Op_Store))))
     | V_ExtractLaneExtend sh sx lane \<Rightarrow> with_type oper (\<lambda>ty. vec1 C ty
         (\<lambda>vector. tr_then (tr_ins C (Extractlane vector lane)) (tr_extend C sx)))
     | V_ExtractLane sh lane \<Rightarrow> with_type oper (\<lambda>ty. vec1 C ty (\<lambda>vector. tr_ins C (Extractlane vector lane)))
     | V_ReplaceLane sh lane \<Rightarrow> tr_then tr_pop2
         (\<lambda>(vector, replacement). with_type oper
         (\<lambda>ty. tr_then (if sh \<in> {S_I8x16, S_I16x8} then tr_ins C (Convert Ireduce (lane_type ty) replacement) else tr_ok replacement)
         (\<lambda>r. tr_then (optionally_bitcast_vector C vector ty)
         (\<lambda>vector'. tr_then (tr_ins C (Insertlane vector' r lane)) tr_push1))))
     | V_Shuffle lanes \<Rightarrow> vec2 C IR_I8X16 (\<lambda>a b. tr_ins C (Shuffle a b lanes))
     | V_Swizzle \<Rightarrow> vec2 C IR_I8X16 (\<lambda>a b. tr_ins C (Vec_binary Swizzle a b))
     | V_IBinop sh bop \<Rightarrow> with_type oper (\<lambda>ty. vec2 C ty (\<lambda>a b. tr_ins C (vec_binop bop a b)))
     | V_INeg sh \<Rightarrow> with_type oper (\<lambda>ty. vec1 C ty (\<lambda>a. tr_ins C (Vec_unary Ineg a)))
     | V_IAbs sh \<Rightarrow> with_type oper (\<lambda>ty. vec1 C ty (\<lambda>a. tr_ins C (Vec_unary Iabs a)))
     | V_Popcnt \<Rightarrow> with_type oper (\<lambda>ty. vec1 C ty (\<lambda>a. tr_ins C (Unary Popcnt a)))
     | V_Bitop bop \<Rightarrow> with_type oper (\<lambda>ty. vec2 C ty (\<lambda>a b. tr_ins C (vec_bitop bop a b)))
     | V_Not \<Rightarrow> tr_then tr_pop1 (\<lambda>a. tr_then (tr_ins C (Vec_unary Bnot a)) tr_push1)
     | V_Shift sh sop \<Rightarrow> tr_then tr_pop2
         (\<lambda>(a, b). with_type oper (\<lambda>ty. tr_then (optionally_bitcast_vector C a ty)
         (\<lambda>bitcast_a. tr_then (tr_ins C (Binary (vec_shift sop) bitcast_a b)) tr_push1)))
     | V_Bitselect \<Rightarrow> vec3 C IR_I8X16 (\<lambda>a b c. tr_ins C (Vec_ternary Bitselect c a b))
     | V_AnyTrue \<Rightarrow> with_type oper (\<lambda>ty. vec1 C ty (\<lambda>a. tr_then (tr_ins C (Vec_unary Vany_true a)) (tr_extend C Unsigned)))
     | V_AllTrue sh \<Rightarrow> with_type oper (\<lambda>ty. vec1 C ty (\<lambda>a. tr_then (tr_ins C (Vec_unary Vall_true a)) (tr_extend C Unsigned)))
     | V_Bitmask sh \<Rightarrow> with_type oper (\<lambda>ty. vec1 C ty (\<lambda>a. tr_ins C (Vec_make Vhigh_bits IR_I32 a)))
     | V_ICmp sh rop \<Rightarrow> with_type oper (translate_vector_icmp C (int_relop rop))
     | V_FCmp sh rop \<Rightarrow> with_type oper (translate_vector_fcmp C (float_relop rop))
     | V_FBinop sh bop \<Rightarrow> with_type oper (\<lambda>ty. vec2 C ty (\<lambda>a b. tr_ins C (Binary (float_binop bop) a b)))
     | V_PMax sh \<Rightarrow> with_type oper (\<lambda>ty. vec2 C ty (\<lambda>a b. pseudo_select C ty (a, b) a b))
     | V_PMin sh \<Rightarrow> with_type oper (\<lambda>ty. vec2 C ty (\<lambda>a b. pseudo_select C ty (b, a) a b))
     | V_FUnop sh uop \<Rightarrow> with_type oper (\<lambda>ty. vec1 C ty (\<lambda>a. tr_ins C (Unary (float_unop uop) a)))
     | V_F32x4ConvertI32x4 sx \<Rightarrow> vec1 C IR_I32X4 (\<lambda>a. tr_ins C (Convert (fcvt_from sx) IR_F32X4 a))
     | V_F64x2ConvertLowI32x4 sx \<Rightarrow> vec1 C IR_I32X4 (\<lambda>a. tr_then (tr_ins C (Vec_unary (widen Low sx) a))
         (\<lambda>widened_a. tr_ins C (Convert (fcvt_from sx) IR_F64X2 widened_a)))
     | V_F64x2PromoteLowF32x4 \<Rightarrow> vec1 C IR_F32X4 (\<lambda>a. tr_ins C (Vec_unary Fvpromote_low a))
     | V_F32x4DemoteF64x2Zero \<Rightarrow> vec1 C IR_F64X2 (\<lambda>a. tr_ins C (Vec_unary Fvdemote a))
     | V_I32x4TruncSatF32x4 sx \<Rightarrow> vec1 C IR_F32X4 (\<lambda>a. tr_ins C (Convert (fcvt_sat sx) IR_I32X4 a))
     | V_I32x4TruncSatF64x2Zero sx \<Rightarrow> vec1 C IR_F64X2 (\<lambda>a. tr_then (tr_ins C (Convert (fcvt_sat sx) IR_I64X2 a)) (narrow_with_zero C sx))
     | V_Narrow sh sx \<Rightarrow> vec2 C (shape_ty sh) (\<lambda>a b. tr_ins C (Vec_binary (case sx of Signed \<Rightarrow> Snarrow | Unsigned \<Rightarrow> Unarrow) a b))
     | V_Extend half sh sx \<Rightarrow> vec1 C (shape_ty sh) (\<lambda>a. tr_ins C (Vec_unary (widen half sx) a))
     | V_ExtAddPairwise sh sx \<Rightarrow> vec1 C (shape_ty sh) (pairwise_widened C sx)
     | V_I32x4DotI16x8S \<Rightarrow> vec2 C IR_I16X8 (dot_product C)
     | V_I16x8Q15MulrSatS \<Rightarrow> vec2 C IR_I16X8 (\<lambda>a b. tr_ins C (Vec_binary Sqmul_round_sat a b))
     | V_ExtMul half sh sx \<Rightarrow> vec2 C (shape_ty sh) (extended_product C half sx)
     | V_RelaxedMax sh \<Rightarrow> with_type oper (\<lambda>ty. vec2 C ty (\<lambda>a b. relaxed isa_is_x86_64
         (tr_ins C (Binary Fmax a b)) (pseudo_select C ty (a, b) a b)))
     | V_RelaxedMin sh \<Rightarrow> with_type oper (\<lambda>ty. vec2 C ty (\<lambda>a b. relaxed isa_is_x86_64
         (tr_ins C (Binary Fmin a b)) (pseudo_select C ty (b, a) a b)))
     | V_RelaxedSwizzle \<Rightarrow> vec2 C IR_I8X16 (\<lambda>a b. relaxed (use_lowering L_Pshufb)
         (tr_ins C (Vec_binary Swizzle a b)) (tr_ins C (Vec_binary X86_pshufb a b)))
     | V_RelaxedMadd sh \<Rightarrow> with_type oper (\<lambda>ty. vec3 C ty (multiply_add C))
     | V_RelaxedNmadd sh \<Rightarrow> with_type oper (\<lambda>ty. vec3 C ty (\<lambda>a b c. tr_then (tr_ins C (Unary Fneg a))
         (\<lambda>a'. multiply_add C a' b c)))
     | V_RelaxedLaneselect sh \<Rightarrow> with_type oper (\<lambda>ty. vec3 C ty (\<lambda>a b c. relaxed (use_lowering (L_Blendv ty))
         (tr_ins C (Vec_ternary Bitselect c a b)) (tr_ins C (Vec_ternary X86_blendv c a b))))
     | V_I32x4RelaxedTruncF32x4 sx \<Rightarrow> (case sx of
         Signed \<Rightarrow> vec1 C IR_F32X4 (\<lambda>a. relaxed isa_is_x86_64
           (tr_ins C (Convert Fcvt_to_sint_sat IR_I32X4 a)) (tr_ins C (Vec_make X86_cvtt2dq IR_I32X4 a)))
       | Unsigned \<Rightarrow> vec1 C IR_F32X4 (\<lambda>a. tr_ins C (Convert Fcvt_to_uint_sat IR_I32X4 a)))
     | V_I32x4RelaxedTruncF64x2Zero sx \<Rightarrow> (case sx of
         Signed \<Rightarrow> vec1 C IR_F64X2 (\<lambda>a. tr_then (relaxed isa_is_x86_64
           (tr_ins C (Convert Fcvt_to_sint_sat IR_I64X2 a)) (tr_ins C (Vec_make X86_cvtt2dq IR_I64X2 a))) (narrow_with_zero C Signed))
       | Unsigned \<Rightarrow> vec1 C IR_F64X2 (\<lambda>a. tr_then (tr_ins C (Convert Fcvt_to_uint_sat IR_I64X2 a)) (narrow_with_zero C Unsigned)))
     | V_I16x8RelaxedQ15mulrS \<Rightarrow> vec2 C IR_I16X8 (\<lambda>a b. relaxed (use_lowering L_Pmulhrsw)
         (tr_ins C (Vec_binary Sqmul_round_sat a b)) (tr_ins C (Vec_binary X86_pmulhrsw a b)))
     | V_I16x8RelaxedDotI8x16I7x16S \<Rightarrow> vec2 C IR_I8X16 (relaxed_dot C)
     | V_I32x4RelaxedDotI8x16I7x16AddS \<Rightarrow> tr_then (pop1_with_bitcast C IR_I32X4)
         (\<lambda>c. vec2 C IR_I8X16 (\<lambda>a b. tr_then (relaxed_dot C a b)
         (\<lambda>dot. tr_then (pairwise_widened C Signed dot)
         (\<lambda>dot32. tr_ins C (Binary Iadd dot32 c))))))"

end
