(* ===== verification/Translate_Operator.thy ===== *)
theory Translate_Operator
  imports Translate_Vector
begin

text \<open>
  \<open>translate_operator\<close> and \<open>translate_unreachable_operator\<close> of \<open>src/src/cranelift/code_translator.rs\<close>, an
  operation for every arm of their match statements.
\<close>

section \<open>Frames\<close>

text \<open>The index of the frame at a relative depth.\<close>

definition control_index :: "nat \<Rightarrow> FuncTranslationState \<Rightarrow> nat result" where
  "control_index depth s = (let n = length (control_stack s) in
     if n = 0 \<or> n - 1 < depth then Panic ''called `Option::unwrap()` on a `None` value'' else Ok (n - 1 - depth))"

definition pop_frame :: "FuncTranslationState \<Rightarrow> (ControlStackFrame \<times> FuncTranslationState) result" where
  "pop_frame s = (if control_stack s = [] then Panic ''called `Option::unwrap()` on a `None` value''
     else Ok (last (control_stack s), s\<lparr>control_stack := butlast (control_stack s)\<rparr>))"

text \<open>A branch marks its target frame and yields its arity and destination.\<close>

definition branch_target :: "nat \<Rightarrow> FuncTranslationState \<Rightarrow> ((nat \<times> ir_Block) \<times> FuncTranslationState) result" where
  "branch_target depth s = and_then (control_index depth s)
     (\<lambda>i. let frame = control_stack s ! i in
        Ok ((branch_arity frame, br_destination frame),
          s\<lparr>control_stack := (control_stack s)[i := set_branched_to_exit frame]\<rparr>))"

definition translate_br_if_args :: "nat \<Rightarrow> (ir_Block \<times> ir_Value list, 'b) tr" where
  "translate_br_if_args relative_depth =
     tr_then (tr_state (branch_target relative_depth))
     (\<lambda>(return_count, dst). tr_then (tr_peekn return_count) (\<lambda>inputs. tr_ok (dst, inputs)))"

section \<open>Blocks\<close>

definition translate_block :: "FuncValidator \<Rightarrow> 'b clif_ops \<Rightarrow> BlockType \<Rightarrow> (unit, 'b) tr" where
  "translate_block V C blockty =
     tr_then (tr_of (blocktype_params_results V blockty))
     (\<lambda>(ps, rs). tr_then (block_with_params C rs)
     (\<lambda>next_block. tr_modify (push_block next_block (length ps) (length rs))))"

definition translate_loop :: "FuncValidator \<Rightarrow> 'b clif_ops \<Rightarrow> BlockType \<Rightarrow> (unit, 'b) tr" where
  "translate_loop V C blockty =
     tr_then (tr_of (blocktype_params_results V blockty))
     (\<lambda>(ps, rs). tr_then (block_with_params C ps)
     (\<lambda>loop_body. tr_then (block_with_params C rs)
     (\<lambda>next_block. tr_then (tr_peekn (length ps))
     (\<lambda>vs. tr_then (canonicalise_then_jump C loop_body vs)
     (\<lambda>_. tr_then (tr_modify (push_loop loop_body next_block (length ps) (length rs)))
     (\<lambda>_. tr_then (tr_popn (length ps))
     (\<lambda>_. tr_then (tr_ask (\<lambda>env b. block_params C b loop_body))
     (\<lambda>bps. tr_then (tr_pushn bps)
     (\<lambda>_. tr_builder (switch_to_block C loop_body))))))))))"

definition branch_to_else ::
  "'b clif_ops \<Rightarrow> ir_Value \<Rightarrow> ir_Block \<Rightarrow> wp_ValType list \<Rightarrow> wp_ValType list \<Rightarrow> (ir_Block \<times> ElseData, 'b) tr" where
  "branch_to_else C val next_block ps rs =
     tr_then (block_with_params C rs)
     (\<lambda>dst. if ps = rs
        then tr_then (tr_peekn (length ps))
          (\<lambda>vs. tr_then (canonicalise_brif C val next_block [] dst vs)
          (\<lambda>branch_inst. tr_ok (dst, NoElse branch_inst dst)))
        else tr_then (block_with_params C ps)
          (\<lambda>else_block. tr_then (tr_peekn (length ps))
          (\<lambda>vs. tr_then (canonicalise_brif C val next_block [] else_block vs)
          (\<lambda>_. tr_then (tr_builder (seal_block C else_block))
          (\<lambda>_. tr_ok (dst, WithElse else_block))))))"

definition translate_if :: "FuncValidator \<Rightarrow> 'b clif_ops \<Rightarrow> BlockType \<Rightarrow> (unit, 'b) tr" where
  "translate_if V C blockty =
     tr_then tr_pop1
     (\<lambda>val. tr_then (tr_build (create_block C))
     (\<lambda>next_block. tr_then (tr_of (blocktype_params_results V blockty))
     (\<lambda>(ps, rs). tr_then (branch_to_else C val next_block ps rs)
     (\<lambda>(dst, else_data). tr_then (tr_builder (seal_block C next_block))
     (\<lambda>_. tr_then (tr_builder (switch_to_block C next_block))
     (\<lambda>_. tr_modify (push_if dst else_data (length ps) (length rs) blockty)))))))"

text \<open>
  What \<open>else\<close> does in reachable and unreachable code alike: it records how the consequent ended,
  and when the head was reachable it enters the alternative, whose block \<open>body\<close> prepares.
\<close>

definition start_else :: "'b clif_ops \<Rightarrow> (ControlStackFrame \<Rightarrow> (ir_Block, 'b) tr) \<Rightarrow> (unit, 'b) tr" where
  "start_else C body = (\<lambda>(s, env, b).
     if control_stack s = [] then Panic ''called `Option::unwrap()` on a `None` value''
     else case last (control_stack s) of
         Frame_If dst ed np nr sz ex bt hr ce \<Rightarrow>
           and_then (assert_that (ce = None) ''assertion failed: consequent_ends_reachable.is_none()'')
           (\<lambda>_. let frame = Frame_If dst ed np nr sz ex bt hr (Some (reachable s));
                s1 = s\<lparr>control_stack := butlast (control_stack s) @ [frame]\<rparr> in
              if hr then tr_then (body frame) (\<lambda>else_block. tr_builder (switch_to_block C else_block))
                (s1\<lparr>reachable := True\<rparr>, env, b)
              else Ok ((), s1, env, b))
       | _ \<Rightarrow> Panic ''internal error: entered unreachable code'')"

definition redirect_else :: "'b clif_ops \<Rightarrow> ir_Inst \<Rightarrow> ir_Block \<Rightarrow> ir_Block \<Rightarrow> (ir_Block, 'b) tr" where
  "redirect_else C branch_inst placeholder else_block =
     tr_then (tr_builder (change_jump_destination C branch_inst placeholder else_block))
     (\<lambda>_. tr_then (tr_builder (seal_block C else_block)) (\<lambda>_. tr_ok else_block))"

definition finish_consequent :: "FuncValidator \<Rightarrow> 'b clif_ops \<Rightarrow> ControlStackFrame \<Rightarrow> (ir_Block, 'b) tr" where
  "finish_consequent V C frame = (case fr_else_data frame of
       NoElse branch_inst placeholder \<Rightarrow>
         tr_then (tr_of (blocktype_params_results V (fr_blocktype frame)))
         (\<lambda>(ps, _). tr_then (tr_of (assert_that (length ps = num_return_values frame) ''assertion `left == right` failed''))
         (\<lambda>_. tr_then (block_with_params C ps)
         (\<lambda>else_block. tr_then (tr_peekn (length ps))
         (\<lambda>vs. tr_then (canonicalise_then_jump C (fr_destination frame) vs)
         (\<lambda>_. tr_then (tr_popn (length ps))
         (\<lambda>_. redirect_else C branch_inst placeholder else_block))))))
     | WithElse else_block \<Rightarrow>
         tr_then (tr_peekn (num_return_values frame))
         (\<lambda>vs. tr_then (canonicalise_then_jump C (fr_destination frame) vs)
         (\<lambda>_. tr_then (tr_popn (num_return_values frame)) (\<lambda>_. tr_ok else_block))))"

definition translate_else :: "FuncValidator \<Rightarrow> 'b clif_ops \<Rightarrow> (unit, 'b) tr" where
  "translate_else V C = start_else C (finish_consequent V C)"

definition drop_consequent :: "FuncValidator \<Rightarrow> 'b clif_ops \<Rightarrow> ControlStackFrame \<Rightarrow> (ir_Block, 'b) tr" where
  "drop_consequent V C frame =
     (let truncate = tr_modify (\<lambda>s. map_ok (\<lambda>st. s\<lparr>fs_stack := st\<rparr>)
            (truncate_value_stack_to_else_params frame (fs_stack s))) in
      case fr_else_data frame of
        NoElse branch_inst placeholder \<Rightarrow>
          tr_then (tr_of (blocktype_params_results V (fr_blocktype frame)))
          (\<lambda>(ps, _). tr_then (block_with_params C ps)
          (\<lambda>else_block. tr_then truncate (\<lambda>_. redirect_else C branch_inst placeholder else_block)))
      | WithElse else_block \<Rightarrow> tr_then truncate (\<lambda>_. tr_ok else_block))"

definition truncate_to_frame :: "ControlStackFrame \<Rightarrow> (unit, 'b) tr" where
  "truncate_to_frame frame = tr_modify (\<lambda>s. map_ok (\<lambda>st. s\<lparr>fs_stack := st\<rparr>)
     (truncate_value_stack_to_original_size frame (fs_stack s)))"

fun seal_header :: "'b clif_ops \<Rightarrow> ControlStackFrame \<Rightarrow> (unit, 'b) tr" where
  "seal_header C (Frame_Loop dst header np nr sz) = tr_builder (seal_block C header)"
| "seal_header C frame = tr_ok ()"

definition translate_end :: "'b clif_ops \<Rightarrow> (unit, 'b) tr" where
  "translate_end C =
     tr_then (tr_state pop_frame)
     (\<lambda>frame. tr_then (tr_peekn (num_return_values frame))
     (\<lambda>return_args. tr_then (canonicalise_then_jump C (following_code frame) return_args)
     (\<lambda>_. tr_then (tr_builder (switch_to_block C (following_code frame)))
     (\<lambda>_. tr_then (tr_builder (seal_block C (following_code frame)))
     (\<lambda>_. tr_then (seal_header C frame)
     (\<lambda>_. tr_then (truncate_to_frame frame)
     (\<lambda>_. tr_then (tr_ask (\<lambda>env b. block_params C b (following_code frame))) tr_pushn)))))))"

fun reachable_anyway :: "ControlStackFrame \<Rightarrow> bool" where
  "reachable_anyway (Frame_If dst ed np nr sz ex bt hr (Some ce)) = (hr \<and> ce)"
| "reachable_anyway (Frame_If dst ed np nr sz ex bt hr None) = hr"
| "reachable_anyway _ = False"

definition translate_unreachable_end :: "'b clif_ops \<Rightarrow> (unit, 'b) tr" where
  "translate_unreachable_end C =
     tr_then (tr_state pop_frame)
     (\<lambda>frame. tr_then (truncate_to_frame frame)
     (\<lambda>_. tr_then (seal_header C frame)
     (\<lambda>_. if exit_is_branched_to frame \<or> reachable_anyway frame
        then tr_then (tr_builder (switch_to_block C (following_code frame)))
          (\<lambda>_. tr_then (tr_builder (seal_block C (following_code frame)))
          (\<lambda>_. tr_then (tr_ask (\<lambda>env b. block_params C b (following_code frame)))
          (\<lambda>bps. tr_then (tr_pushn bps) (\<lambda>_. tr_set_reachable True))))
        else tr_ok ())))"

definition translate_unreachable_operator :: "FuncValidator \<Rightarrow> 'b clif_ops \<Rightarrow> Operator \<Rightarrow> (unit, 'b) tr" where
  "translate_unreachable_operator V C oper = (case oper of
       O_If blockty \<Rightarrow> tr_modify (push_if reserved_value (NoElse reserved_value reserved_value) 0 0 blockty)
     | O_Loop blockty \<Rightarrow> tr_modify (push_block reserved_value 0 0)
     | O_Block blockty \<Rightarrow> tr_modify (push_block reserved_value 0 0)
     | O_Else \<Rightarrow> start_else C (drop_consequent V C)
     | O_End \<Rightarrow> translate_unreachable_end C
     | _ \<Rightarrow> tr_ok ())"

section \<open>Branches\<close>

definition translate_br :: "'b clif_ops \<Rightarrow> nat \<Rightarrow> (unit, 'b) tr" where
  "translate_br C relative_depth =
     tr_then (tr_state (branch_target relative_depth))
     (\<lambda>(return_count, dst). tr_then (tr_peekn return_count)
     (\<lambda>destination_args. tr_then (canonicalise_then_jump C dst destination_args)
     (\<lambda>_. tr_then (tr_popn return_count) (\<lambda>_. tr_set_reachable False))))"

definition translate_br_if :: "'b clif_ops \<Rightarrow> nat \<Rightarrow> (unit, 'b) tr" where
  "translate_br_if C relative_depth =
     tr_then tr_pop1
     (\<lambda>val. tr_then (translate_br_if_args relative_depth)
     (\<lambda>(dst, inputs). tr_then (tr_build (create_block C))
     (\<lambda>next_block. tr_then (canonicalise_brif C val dst inputs next_block [])
     (\<lambda>_. tr_then (tr_builder (seal_block C next_block))
     (\<lambda>_. tr_builder (switch_to_block C next_block))))))"

text \<open>
  The blocks that split the edges of a \<open>br_table\<close> with arguments, one per depth. The source keeps them
  in a map and in a sequence; the association list is both.
\<close>

definition edge_block :: "'b clif_ops \<Rightarrow> nat \<Rightarrow> (nat \<times> ir_Block) list \<Rightarrow> (ir_Block \<times> (nat \<times> ir_Block) list, 'b) tr" where
  "edge_block C depth seq = (case map_of seq depth of
       Some block \<Rightarrow> tr_ok (block, seq)
     | None \<Rightarrow> tr_then (tr_build (create_block C)) (\<lambda>block. tr_ok (block, seq @ [(depth, block)])))"

fun edge_blocks ::
  "'b clif_ops \<Rightarrow> nat list \<Rightarrow> (nat \<times> ir_Block) list \<Rightarrow> (ir_Block list \<times> (nat \<times> ir_Block) list, 'b) tr" where
  "edge_blocks C [] seq = tr_ok ([], seq)"
| "edge_blocks C (d # ds) seq = tr_then (edge_block C d seq)
     (\<lambda>(block, seq1). tr_then (edge_blocks C ds seq1) (\<lambda>(data, seq2). tr_ok (block # data, seq2)))"

definition translate_edge :: "'b clif_ops \<Rightarrow> nat \<Rightarrow> nat \<times> ir_Block \<Rightarrow> (ir_Inst, 'b) tr" where
  "translate_edge C return_count = (\<lambda>(depth, dest_block).
     tr_then (tr_builder (switch_to_block C dest_block))
     (\<lambda>_. tr_then (tr_builder (seal_block C dest_block))
     (\<lambda>_. tr_then (tr_state (branch_target depth))
     (\<lambda>(_, real_dest_block). tr_then (tr_peekn return_count) (canonicalise_then_jump C real_dest_block)))))"

definition translate_br_table :: "'b clif_ops \<Rightarrow> nat list \<Rightarrow> nat \<Rightarrow> (unit, 'b) tr" where
  "translate_br_table C targets dflt =
     tr_then (tr_read (\<lambda>s. map_ok (\<lambda>i. branch_arity (control_stack s ! i))
               (control_index (fold min targets dflt) s)))
     (\<lambda>jump_args_count. tr_then tr_pop1
     (\<lambda>val. tr_then
        (if jump_args_count = 0
         then tr_then (tr_each (\<lambda>depth. tr_then (tr_state (branch_target depth)) (\<lambda>(_, dst). tr_ok dst)) targets)
           (\<lambda>data. tr_then (tr_state (branch_target dflt))
           (\<lambda>(_, block). tr_emit C (Br_table val block data)))
         else tr_then (edge_blocks C targets [])
           (\<lambda>(data, seq). tr_then (edge_block C dflt seq)
           (\<lambda>(default_branch_block, seq'). tr_then (tr_emit C (Br_table val default_branch_block data))
           (\<lambda>_. tr_then (tr_each (translate_edge C jump_args_count) seq')
           (\<lambda>_. tr_popn jump_args_count)))))
     (\<lambda>_. tr_set_reachable False)))"

definition translate_return :: "'b clif_ops \<Rightarrow> (unit, 'b) tr" where
  "translate_return C =
     tr_then (tr_read (\<lambda>s. map_ok num_return_values (pm_index (control_stack s) 0)))
     (\<lambda>return_count. tr_then (tr_peekn return_count)
     (\<lambda>return_args. tr_then (bitcast_wasm_returns C return_args)
     (\<lambda>return_args'. tr_then (tr_emit C (Return_inst return_args'))
     (\<lambda>_. tr_then (tr_popn return_count) (\<lambda>_. tr_set_reachable False)))))"

definition translate_br_on_null :: "'b clif_ops \<Rightarrow> nat \<Rightarrow> (unit, 'b) tr" where
  "translate_br_on_null C relative_depth =
     tr_then tr_pop1
     (\<lambda>r. tr_then (translate_br_if_args relative_depth)
     (\<lambda>(dst, inputs). tr_then (tr_ref_is_null C r)
     (\<lambda>is_null. tr_then (tr_build (create_block C))
     (\<lambda>else_block. tr_then (canonicalise_brif C is_null dst inputs else_block [])
     (\<lambda>_. tr_then (tr_builder (seal_block C else_block))
     (\<lambda>_. tr_then (tr_builder (switch_to_block C else_block)) (\<lambda>_. tr_push1 r)))))))"

definition translate_br_on_non_null :: "'b clif_ops \<Rightarrow> nat \<Rightarrow> (unit, 'b) tr" where
  "translate_br_on_non_null C relative_depth =
     tr_then (tr_read peek1)
     (\<lambda>r. tr_then (tr_ref_is_null C r)
     (\<lambda>is_null. tr_then (translate_br_if_args relative_depth)
     (\<lambda>(dst, inputs). tr_then (tr_build (create_block C))
     (\<lambda>else_block. tr_then (canonicalise_brif C is_null else_block [] dst inputs)
     (\<lambda>_. tr_then tr_pop1
     (\<lambda>_. tr_then (tr_builder (seal_block C else_block))
     (\<lambda>_. tr_builder (switch_to_block C else_block))))))))"

section \<open>Calls\<close>

definition finish_call :: "'b clif_ops \<Rightarrow> SigRef \<Rightarrow> nat \<Rightarrow> ir_Inst \<Rightarrow> (unit, 'b) tr" where
  "finish_call C sig num_args call =
     tr_then (tr_ask (\<lambda>env b. (inst_results C b call, length (sig_returns (signature_of C b sig)))))
     (\<lambda>(results, expected). tr_then (tr_of (assert_that (length results = expected)
          ''results should match the call signature''))
     (\<lambda>_. tr_then (tr_popn num_args) (\<lambda>_. tr_pushn results)))"

definition call_args :: "'b clif_ops \<Rightarrow> SigRef \<Rightarrow> nat \<Rightarrow> (ir_Value list, 'b) tr" where
  "call_args C sig num_args = tr_then (tr_peekn num_args) (bitcast_wasm_params C sig)"

definition translate_op_call :: "'b clif_ops \<Rightarrow> FuncIndex \<Rightarrow> (unit, 'b) tr" where
  "translate_op_call C function_index =
     tr_then (tr_direct_func C function_index)
     (\<lambda>(fref, num_args). tr_then (tr_ask (\<lambda>env b. ext_func_signature C b fref))
     (\<lambda>sig. tr_then (call_args C sig num_args)
     (\<lambda>vs. tr_then (translate_call C function_index fref vs) (finish_call C sig num_args))))"

definition translate_op_call_indirect :: "'b clif_ops \<Rightarrow> TypeIndex \<Rightarrow> TableIndex \<Rightarrow> (unit, 'b) tr" where
  "translate_op_call_indirect C type_idx tbl =
     tr_then (tr_indirect_sig C type_idx)
     (\<lambda>(sigref, num_args). tr_then tr_pop1
     (\<lambda>callee. tr_then (call_args C sigref num_args)
     (\<lambda>vs. tr_then (tr_table C tbl)
     (\<lambda>table. tr_then (translate_call_indirect C tbl table type_idx sigref callee vs)
     (\<lambda>call. unwrap_or_unreachable call (finish_call C sigref num_args))))))"

definition translate_op_return_call :: "'b clif_ops \<Rightarrow> FuncIndex \<Rightarrow> (unit, 'b) tr" where
  "translate_op_return_call C function_index =
     tr_then (tr_direct_func C function_index)
     (\<lambda>(fref, num_args). tr_then (tr_ask (\<lambda>env b. ext_func_signature C b fref))
     (\<lambda>sig. tr_then (call_args C sig num_args)
     (\<lambda>vs. tr_then (translate_return_call function_index fref vs)
     (\<lambda>_. tr_then (tr_popn num_args) (\<lambda>_. tr_set_reachable False)))))"

definition translate_op_return_call_indirect :: "'b clif_ops \<Rightarrow> TypeIndex \<Rightarrow> TableIndex \<Rightarrow> (unit, 'b) tr" where
  "translate_op_return_call_indirect C type_idx tbl =
     tr_then (tr_indirect_sig C type_idx)
     (\<lambda>(sigref, num_args). tr_then tr_pop1
     (\<lambda>callee. tr_then (call_args C sigref num_args)
     (\<lambda>vs. tr_then (translate_return_call_indirect tbl type_idx sigref callee vs)
     (\<lambda>_. tr_then (tr_popn num_args) (\<lambda>_. tr_set_reachable False)))))"

fun needs_null_check :: "wp_ValType option \<Rightarrow> bool result" where
  "needs_null_check None = Ok True"
| "needs_null_check (Some (WP_Ref rt)) = Ok (wp_is_nullable rt)"
| "needs_null_check (Some _) = Panic ''expected reference type''"

definition translate_op_call_ref :: "FuncValidator \<Rightarrow> 'b clif_ops \<Rightarrow> TypeIndex \<Rightarrow> (unit, 'b) tr" where
  "translate_op_call_ref V C type_idx =
     tr_then (tr_indirect_sig C type_idx)
     (\<lambda>(sigref, num_args). tr_then tr_pop1
     (\<lambda>callee. tr_then (tr_of (and_then (expect (get_operand_type V 0) ''expected operand on stack'') needs_null_check))
     (\<lambda>null_check. tr_then (call_args C sigref num_args)
     (\<lambda>vs. tr_then (translate_call_ref sigref callee vs null_check) (finish_call C sigref num_args)))))"

definition translate_op_return_call_ref :: "'b clif_ops \<Rightarrow> TypeIndex \<Rightarrow> (unit, 'b) tr" where
  "translate_op_return_call_ref C type_idx =
     tr_then (tr_indirect_sig C type_idx)
     (\<lambda>(sigref, num_args). tr_then tr_pop1
     (\<lambda>callee. tr_then (call_args C sigref num_args)
     (\<lambda>vs. tr_then (translate_return_call_ref sigref callee vs)
     (\<lambda>_. tr_then (tr_popn num_args) (\<lambda>_. tr_set_reachable False)))))"

section \<open>Variables and parametric operators\<close>

definition canonical_vector :: "'b clif_ops \<Rightarrow> ir_Value \<Rightarrow> (ir_Value, 'b) tr" where
  "canonical_vector C v = tr_then (tr_type_of C v)
     (\<lambda>ty. if is_vector ty then optionally_bitcast_vector C v IR_I8X16 else tr_ok v)"

definition translate_select :: "'b clif_ops \<Rightarrow> (unit, 'b) tr" where
  "translate_select C =
     tr_then tr_pop3
     (\<lambda>(arg1, arg2, cond). tr_then (canonical_vector C arg1)
     (\<lambda>arg1'. tr_then (canonical_vector C arg2)
     (\<lambda>arg2'. tr_then (tr_ins C (Select cond arg1' arg2')) tr_push1)))"

definition translate_local_get :: "'b clif_ops \<Rightarrow> nat \<Rightarrow> (unit, 'b) tr" where
  "translate_local_get C local_index =
     tr_then (tr_build (use_var C local_index))
     (\<lambda>val. tr_then (tr_push1 val) (\<lambda>_. tr_builder (set_val_label C val local_index)))"

definition define_local :: "'b clif_ops \<Rightarrow> nat \<Rightarrow> ir_Value \<Rightarrow> (unit, 'b) tr" where
  "define_local C local_index v =
     tr_then (canonical_vector C v)
     (\<lambda>val. tr_then (tr_builder (def_var C local_index val))
     (\<lambda>_. tr_builder (set_val_label C val local_index)))"

definition global_flags :: MemFlags where
  "global_flags = memflags_trusted\<lparr>mf_alias := Some Alias_Table\<rparr>"

definition translate_global_get :: "'b clif_ops \<Rightarrow> GlobalIndex \<Rightarrow> (unit, 'b) tr" where
  "translate_global_get C index =
     tr_then (tr_global C index)
     (\<lambda>g. tr_then (case g of
         CG_Const val \<Rightarrow> tr_ok val
       | CG_Memory gv offset ty \<Rightarrow>
           tr_then (tr_ask (\<lambda>env b. pointer_type env))
           (\<lambda>p. tr_then (tr_ins C (Global_value p gv))
           (\<lambda>addr. tr_ins C (Load Op_Load ty global_flags addr offset)))
       | CG_Custom \<Rightarrow> translate_custom_global_get index) tr_push1)"

definition translate_global_set :: "'b clif_ops \<Rightarrow> GlobalIndex \<Rightarrow> (unit, 'b) tr" where
  "translate_global_set C index =
     tr_then (tr_global C index)
     (\<lambda>g. case g of
         CG_Const val \<Rightarrow> tr_of (Panic ''global is a constant'')
       | CG_Memory gv offset ty \<Rightarrow>
           tr_then (tr_ask (\<lambda>env b. pointer_type env))
           (\<lambda>p. tr_then (tr_ins C (Global_value p gv))
           (\<lambda>addr. tr_then tr_pop1
           (\<lambda>v. tr_then (if is_vector ty then optionally_bitcast_vector C v IR_I8X16 else tr_ok v)
           (\<lambda>val. tr_then (tr_type_of C val)
           (\<lambda>vty. tr_then (tr_of (assert_that (ty = vty) ''assertion `left == right` failed''))
           (\<lambda>_. tr_emit C (Store Op_Store global_flags val addr offset)))))))
       | CG_Custom \<Rightarrow> tr_then tr_pop1 (translate_custom_global_set index))"

section \<open>Numeric operators\<close>

definition translate_unary :: "'b clif_ops \<Rightarrow> (ir_Value \<Rightarrow> inst) \<Rightarrow> (unit, 'b) tr" where
  "translate_unary C f = tr_then tr_pop1 (\<lambda>v. tr_then (tr_ins C (f v)) tr_push1)"

definition translate_binary :: "'b clif_ops \<Rightarrow> ir_Binop \<Rightarrow> (unit, 'b) tr" where
  "translate_binary C bop = tr_then tr_pop2 (\<lambda>(arg1, arg2). tr_then (tr_ins C (Binary bop arg1 arg2)) tr_push1)"

text \<open>\<open>translate_icmp\<close> and \<open>translate_fcmp\<close>.\<close>

definition translate_compare :: "'b clif_ops \<Rightarrow> (ir_Value \<Rightarrow> ir_Value \<Rightarrow> inst) \<Rightarrow> (unit, 'b) tr" where
  "translate_compare C f =
     tr_then tr_pop2
     (\<lambda>(arg0, arg1). tr_then (tr_ins C (f arg0 arg1))
     (\<lambda>val. tr_then (tr_ins C (Convert Uextend IR_I32 val)) tr_push1))"

definition translate_eqz :: "'b clif_ops \<Rightarrow> (unit, 'b) tr" where
  "translate_eqz C =
     tr_then tr_pop1
     (\<lambda>arg. tr_then (tr_ins C (Icmp_imm CC_Equal arg 0))
     (\<lambda>val. tr_then (tr_ins C (Convert Uextend IR_I32 val)) tr_push1))"

definition translate_extend :: "'b clif_ops \<Rightarrow> ir_Type \<times> ir_Type \<Rightarrow> (unit, 'b) tr" where
  "translate_extend C = (\<lambda>(narrow, wide).
     tr_then (translate_unary C (Convert Ireduce narrow)) (\<lambda>_. translate_unary C (Convert Sextend wide)))"

definition translate_num :: "'b clif_ops \<Rightarrow> NumOp \<Rightarrow> (unit, 'b) tr" where
  "translate_num C oper = (case oper of
       I32Const value \<Rightarrow> tr_then (tr_ins C (Iconst IR_I32 value)) tr_push1
     | I64Const value \<Rightarrow> tr_then (tr_ins C (Iconst IR_I64 value)) tr_push1
     | N_F32Const bits \<Rightarrow> tr_then (tr_ins C (F32const bits)) tr_push1
     | N_F64Const bits \<Rightarrow> tr_then (tr_ins C (F64const bits)) tr_push1
     | IBinop w bop \<Rightarrow> translate_binary C (int_binop bop)
     | IUnop w uop \<Rightarrow> translate_unary C (Unary (int_unop uop))
     | IEqz w \<Rightarrow> translate_eqz C
     | IRelop w rop \<Rightarrow> translate_compare C (Icmp (int_relop rop))
     | FBinop w bop \<Rightarrow> translate_binary C (float_binop bop)
     | FUnop w uop \<Rightarrow> translate_unary C (Unary (float_unop uop))
     | FRelop w rop \<Rightarrow> translate_compare C (Fcmp (float_relop rop))
     | Cvt cop \<Rightarrow> translate_unary C (cvt_inst cop)
     | Extend eop \<Rightarrow> translate_extend C (extend_types eop))"

section \<open>Tables, memories and segments\<close>

text \<open>The address of an atomic wait or notify, with the offset added to it.\<close>

definition atomic_address :: "'b clif_ops \<Rightarrow> MemArg \<Rightarrow> ir_Value \<Rightarrow> (ir_Value, 'b) tr" where
  "atomic_address C memarg addr =
     (if ma_offset memarg = 0 then tr_ok addr
      else tr_then (tr_of (expect (try_into (2 ^ 63) (ma_offset memarg)) ''called `Result::unwrap()` on an `Err` value''))
        (\<lambda>k. tr_then (tr_ins C (Iconst IR_I32 (int k)))
        (\<lambda>offset. tr_ins C (Uadd_overflow_trap addr offset HEAP_OUT_OF_BOUNDS))))"

definition tr_pops3 :: "(ir_Value \<Rightarrow> ir_Value \<Rightarrow> ir_Value \<Rightarrow> ('a, 'b) tr) \<Rightarrow> ('a, 'b) tr" where
  "tr_pops3 f = tr_then tr_pop1 (\<lambda>v3. tr_then tr_pop1 (\<lambda>v2. tr_then tr_pop1 (\<lambda>v1. f v1 v2 v3)))"

definition translate_bulk :: "'b clif_ops \<Rightarrow> BulkOp \<Rightarrow> (unit, 'b) tr" where
  "translate_bulk C oper = (case oper of
       TableFill tbl \<Rightarrow> tr_pops3 (\<lambda>dst val len. translate_table_fill tbl dst val len)
     | TableGet tbl \<Rightarrow> tr_then tr_pop1 (\<lambda>index. tr_then (translate_table_get tbl index) tr_push1)
     | TableSet tbl \<Rightarrow> tr_then tr_pop1 (\<lambda>value. tr_then tr_pop1 (\<lambda>index. translate_table_set tbl value index))
     | TableGrow tbl \<Rightarrow> tr_then tr_pop1 (\<lambda>delta. tr_then tr_pop1
         (\<lambda>init_value. tr_then (translate_table_grow tbl delta init_value) tr_push1))
     | TableSize tbl \<Rightarrow> tr_then (translate_table_size tbl) tr_push1
     | TableInit elem tbl \<Rightarrow> tr_pops3 (\<lambda>dst src len. translate_table_init tbl elem dst src len)
     | TableCopy dst_table src_table \<Rightarrow> tr_pops3 (\<lambda>dst src len. translate_table_copy dst_table src_table dst src len)
     | ElemDrop elem \<Rightarrow> translate_elem_drop elem
     | MemoryGrow mem \<Rightarrow> tr_then tr_pop1 (\<lambda>delta. tr_then (translate_memory_grow mem delta) tr_push1)
     | MemorySize mem \<Rightarrow> tr_then (translate_memory_size mem) tr_push1
     | MemoryInit data mem \<Rightarrow> tr_pops3 (\<lambda>dst src len. translate_memory_init mem data dst src len)
     | MemoryCopy src_mem dst_mem \<Rightarrow> tr_pops3 (\<lambda>dst_pos src_pos len. translate_memory_copy src_mem dst_mem src_pos dst_pos len)
     | MemoryFill mem \<Rightarrow> tr_pops3 (\<lambda>dst val len. translate_memory_fill mem dst val len)
     | DataDrop data \<Rightarrow> translate_data_drop data
     | RefFunc index \<Rightarrow> tr_then (translate_ref_func index) tr_push1
     | RefI31 \<Rightarrow> tr_then tr_pop1 (\<lambda>val. tr_then (translate_ref_i31 val) tr_push1)
     | I31GetS \<Rightarrow> tr_then tr_pop1 (\<lambda>i31ref. tr_then (translate_i31_get_s i31ref) tr_push1)
     | I31GetU \<Rightarrow> tr_then tr_pop1 (\<lambda>i31ref. tr_then (translate_i31_get_u i31ref) tr_push1)
     | AtomicWait w memarg \<Rightarrow> tr_then tr_pop1 (\<lambda>timeout. tr_then tr_pop1
         (\<lambda>expected. tr_then (tr_type_of C expected)
         (\<lambda>ty. tr_then (tr_of (assert_that (ty = int_ty w) ''assertion `left == right` failed''))
         (\<lambda>_. tr_then tr_pop1 (\<lambda>addr. tr_then (atomic_address C memarg addr)
         (\<lambda>effective_addr. tr_then (translate_atomic_wait (ma_memory memarg) effective_addr expected timeout) tr_push1))))))
     | AtomicNotify memarg \<Rightarrow> tr_then tr_pop1 (\<lambda>count. tr_then tr_pop1
         (\<lambda>addr. tr_then (atomic_address C memarg addr)
         (\<lambda>effective_addr. tr_then (translate_atomic_notify (ma_memory memarg) effective_addr count) tr_push1)))
     | Atomic aop memarg \<Rightarrow> translate_atomic aop memarg)"

section \<open>The operators\<close>

definition translate_ref_as_non_null :: "'b clif_ops \<Rightarrow> (unit, 'b) tr" where
  "translate_ref_as_non_null C =
     tr_then tr_pop1
     (\<lambda>r. tr_then (tr_ref_is_null C r)
     (\<lambda>is_null. tr_then (tr_emit C (Trapnz is_null TRAP_NULL_REFERENCE)) (\<lambda>_. tr_push1 r)))"

definition translate_op_ref_null :: "'b clif_ops \<Rightarrow> wp_HeapType \<Rightarrow> (unit, 'b) tr" where
  "translate_op_ref_null C hty =
     tr_then (\<lambda>(s, env, b). and_then (env_convert_heap_type env hty)
       (\<lambda>h. map_ok (\<lambda>(v, b'). (v, s, env, b')) (translate_ref_null C env h b))) tr_push1"

definition translate_reachable_operator :: "FuncValidator \<Rightarrow> 'b clif_ops \<Rightarrow> Operator \<Rightarrow> (unit, 'b) tr" where
  "translate_reachable_operator V C oper = (case oper of
       O_Unreachable \<Rightarrow> tr_then (tr_emit C (Trap_inst TRAP_UNREACHABLE)) (\<lambda>_. tr_set_reachable False)
     | O_Nop \<Rightarrow> tr_ok ()
     | O_Drop \<Rightarrow> tr_then tr_pop1 (\<lambda>_. tr_ok ())
     | O_Select \<Rightarrow> translate_select C
     | O_TypedSelect \<Rightarrow> translate_select C
     | O_Block blockty \<Rightarrow> translate_block V C blockty
     | O_Loop blockty \<Rightarrow> translate_loop V C blockty
     | O_If blockty \<Rightarrow> translate_if V C blockty
     | O_Else \<Rightarrow> translate_else V C
     | O_End \<Rightarrow> translate_end C
     | O_Br depth \<Rightarrow> translate_br C depth
     | O_BrIf depth \<Rightarrow> translate_br_if C depth
     | O_BrTable targets dflt \<Rightarrow> translate_br_table C targets dflt
     | O_Return \<Rightarrow> translate_return C
     | O_Call f \<Rightarrow> translate_op_call C f
     | O_CallIndirect ty tbl \<Rightarrow> translate_op_call_indirect C ty tbl
     | O_ReturnCall f \<Rightarrow> translate_op_return_call C f
     | O_ReturnCallIndirect ty tbl \<Rightarrow> translate_op_return_call_indirect C ty tbl
     | O_CallRef ty \<Rightarrow> translate_op_call_ref V C ty
     | O_ReturnCallRef ty \<Rightarrow> translate_op_return_call_ref C ty
     | O_LocalGet index \<Rightarrow> translate_local_get C index
     | O_LocalSet index \<Rightarrow> tr_then tr_pop1 (define_local C index)
     | O_LocalTee index \<Rightarrow> tr_then (tr_read peek1) (define_local C index)
     | O_GlobalGet index \<Rightarrow> translate_global_get C index
     | O_GlobalSet index \<Rightarrow> translate_global_set C index
     | O_Num n \<Rightarrow> translate_num C n
     | O_Load l memarg \<Rightarrow> translate_op_load C l memarg
     | O_Store st memarg \<Rightarrow> translate_store C memarg (store_opcode st)
     | O_Bulk bulk \<Rightarrow> translate_bulk C bulk
     | O_RefNull hty \<Rightarrow> translate_op_ref_null C hty
     | O_RefIsNull \<Rightarrow> tr_then tr_pop1 (\<lambda>value. tr_then (tr_ref_is_null C value) tr_push1)
     | O_RefAsNonNull \<Rightarrow> translate_ref_as_non_null C
     | O_BrOnNull depth \<Rightarrow> translate_br_on_null C depth
     | O_BrOnNonNull depth \<Rightarrow> translate_br_on_non_null C depth
     | O_AtomicFence \<Rightarrow> tr_emit C Fence
     | O_Vector vop \<Rightarrow> translate_vector C vop
     | O_Unsupported proposal \<Rightarrow> tr_of (Err (Unsupported (unsupported_message proposal))))"

definition translate_operator :: "FuncValidator \<Rightarrow> 'b clif_ops \<Rightarrow> Operator \<Rightarrow> (unit, 'b) tr" where
  "translate_operator V C oper = (\<lambda>(s, env, b).
     if \<not> reachable s then translate_unreachable_operator V C oper (s, env, b)
     else and_then (assert_that (\<not> is_unreachable C b) ''assertion failed: !builder.is_unreachable()'')
       (\<lambda>_. translate_reachable_operator V C oper (s, env, b)))"

end
