(* ===== verification/Func_Translator.thy ===== *)
theory Func_Translator
  imports Translate_Operator
begin

text \<open>
  The translation of a whole function body: \<open>src/src/cranelift/func_translator.rs\<close>. The binary reader
  and the function validator belong to wasmparser: a body is what its reader returns, position by
  position, and the validator is a parameter with its own state.
\<close>

section \<open>Bodies and validators\<close>

record FunctionBody =
  fb_start :: nat
  fb_local_count :: "unit result"
  fb_locals :: "(nat \<times> (nat \<times> wp_ValType) result) list"
  fb_operators :: "(nat \<times> Operator result) list"
  fb_end :: nat

record 'v validator_ops =
  val_view :: "'v \<Rightarrow> FuncValidator"
  val_define_locals :: "nat \<Rightarrow> nat \<Rightarrow> wp_ValType \<Rightarrow> 'v \<Rightarrow> 'v result"
  val_op :: "nat \<Rightarrow> Operator \<Rightarrow> 'v \<Rightarrow> 'v result"
  val_finish :: "nat \<Rightarrow> 'v \<Rightarrow> unit result"

definition cur_srcloc :: "nat \<Rightarrow> nat result" where
  "cur_srcloc pos = expect (try_into u32_bound pos) ''called `Result::unwrap()` on an `Err` value''"

definition tr_srcloc :: "'b clif_ops \<Rightarrow> nat \<Rightarrow> (unit, 'b) tr" where
  "tr_srcloc C pos = tr_then (tr_of (cur_srcloc pos)) (\<lambda>loc. tr_builder (set_srcloc C loc))"

section \<open>Parameters and locals\<close>

definition VMCTX_LABEL :: nat where
  "VMCTX_LABEL = 0xfffffffe"

text \<open>One parameter of the signature; the first one has the context purpose.\<close>

definition declare_parameter :: "'b clif_ops \<Rightarrow> ir_Block \<Rightarrow> nat \<times> 'b \<Rightarrow> nat \<times> ir_Type \<Rightarrow> (nat \<times> 'b) result" where
  "declare_parameter C entry_block = (\<lambda>(next_local, b) (i, ty).
     and_then (if is_wasm_parameter i
         then let b1 = declare_var C next_local ty b in
           and_then (pm_index (block_params C b1 entry_block) i) (\<lambda>v. Ok (next_local + 1, def_var C next_local v b1))
         else Ok (next_local, b))
     (\<lambda>(next_local', b'). if i = 0
         then and_then (pm_index (block_params C b' entry_block) i) (\<lambda>v. Ok (next_local', set_val_label C v VMCTX_LABEL b'))
         else Ok (next_local', b')))"

definition declare_wasm_parameters :: "'b clif_ops \<Rightarrow> ir_Block \<Rightarrow> (nat, 'b) tr" where
  "declare_wasm_parameters C entry_block = (\<lambda>(s, env, b).
     map_ok (\<lambda>(num_params, b'). (num_params, s, env, b'))
       (for_each (declare_parameter C entry_block) (0, b) (List.enumerate 0 (sig_params (func_signature C b)))))"

text \<open>The initial value of a local: zero, or none for a reference that cannot be null.\<close>

definition local_init :: "'b clif_ops \<Rightarrow> wp_ValType \<Rightarrow> (ir_Type \<times> ir_Value option \<times> bool, 'b) tr" where
  "local_init C wasm_type = (case wasm_type of
       WP_I32 \<Rightarrow> tr_then (tr_ins C (Iconst IR_I32 0)) (\<lambda>v. tr_ok (IR_I32, Some v, False))
     | WP_I64 \<Rightarrow> tr_then (tr_ins C (Iconst IR_I64 0)) (\<lambda>v. tr_ok (IR_I64, Some v, False))
     | WP_F32 \<Rightarrow> tr_then (tr_ins C (F32const 0)) (\<lambda>v. tr_ok (IR_F32, Some v, False))
     | WP_F64 \<Rightarrow> tr_then (tr_ins C (F64const 0)) (\<lambda>v. tr_ok (IR_F64, Some v, False))
     | WP_V128 \<Rightarrow> tr_then (tr_ins C (Vconst IR_I8X16 (replicate 16 0))) (\<lambda>v. tr_ok (IR_I8X16, Some v, False))
     | WP_Ref rt \<Rightarrow> (\<lambda>(s, env, b).
         and_then (env_convert_heap_type env (wp_heap_type rt))
         (\<lambda>hty. and_then (env_reference_type env hty)
         (\<lambda>(ty, needs_stack_map). if wp_is_nullable rt
            then map_ok (\<lambda>(v, b'). ((ty, Some v, needs_stack_map), s, env, b')) (translate_ref_null C env hty b)
            else Ok ((ty, None, needs_stack_map), s, env, b)))))"

fun declare_local_vars :: "'b clif_ops \<Rightarrow> ir_Type \<times> ir_Value option \<times> bool \<Rightarrow> nat \<Rightarrow> nat \<times> 'b \<Rightarrow> nat \<times> 'b" where
  "declare_local_vars C desc 0 nb = nb"
| "declare_local_vars C (ty, init, needs_stack_map) (Suc n) (next_local, b) =
     (let b1 = declare_var C next_local ty b;
          b2 = (if needs_stack_map then declare_var_stack_map C next_local b1 else b1);
          b3 = (case init of
                  Some v \<Rightarrow> set_val_label C v next_local (def_var C next_local v b2)
                | None \<Rightarrow> b2) in
      declare_local_vars C (ty, init, needs_stack_map) n (next_local + 1, b3))"

definition declare_locals :: "'b clif_ops \<Rightarrow> nat \<Rightarrow> wp_ValType \<Rightarrow> nat \<Rightarrow> (nat, 'b) tr" where
  "declare_locals C count wasm_type next_local =
     tr_then (local_init C wasm_type)
     (\<lambda>desc. tr_build (\<lambda>b. declare_local_vars C desc count (next_local, b)))"

fun translate_local_groups ::
  "'b clif_ops \<Rightarrow> 'v validator_ops \<Rightarrow> (nat \<times> (nat \<times> wp_ValType) result) list \<Rightarrow> nat \<Rightarrow> 'v \<Rightarrow> ('v, 'b) tr" where
  "translate_local_groups C V [] next_local v = tr_ok v"
| "translate_local_groups C V ((pos, decl) # rest) next_local v =
     tr_then (tr_srcloc C pos)
     (\<lambda>_. tr_then (tr_of decl)
     (\<lambda>(count, ty). tr_then (tr_of (val_define_locals V pos count ty v))
     (\<lambda>v'. tr_then (declare_locals C count ty next_local)
     (\<lambda>next_local'. translate_local_groups C V rest next_local' v'))))"

definition translate_local_decls ::
  "'b clif_ops \<Rightarrow> 'v validator_ops \<Rightarrow> FunctionBody \<Rightarrow> nat \<Rightarrow> 'v \<Rightarrow> ('v, 'b) tr" where
  "translate_local_decls C V body num_params v =
     tr_then (tr_of (fb_local_count body)) (\<lambda>_. translate_local_groups C V (fb_locals body) num_params v)"

section \<open>The operators of a body\<close>

text \<open>Every operator is translated before it is validated.\<close>

fun translate_operators ::
  "'b clif_ops \<Rightarrow> 'v validator_ops \<Rightarrow> (nat \<times> Operator result) list \<Rightarrow> 'v \<Rightarrow> ('v, 'b) tr" where
  "translate_operators C V [] v = tr_ok v"
| "translate_operators C V ((pos, read) # rest) v =
     tr_then (tr_srcloc C pos)
     (\<lambda>_. tr_then (tr_of read)
     (\<lambda>oper. tr_then (translate_operator (val_view V v) C oper)
     (\<lambda>_. tr_then (tr_of (val_op V pos oper v))
     (\<lambda>v'. translate_operators C V rest v'))))"

definition return_results :: "'b clif_ops \<Rightarrow> (unit, 'b) tr" where
  "return_results C = (\<lambda>(s, env, b).
     if reachable s \<and> \<not> is_unreachable C b
     then tr_then (bitcast_wasm_returns C (fs_stack s)) (\<lambda>vs. tr_emit C (Return_inst vs)) (s, env, b)
     else Ok ((), s, env, b))"

definition translate_function_body :: "'b clif_ops \<Rightarrow> 'v validator_ops \<Rightarrow> FunctionBody \<Rightarrow> 'v \<Rightarrow> (unit, 'b) tr" where
  "translate_function_body C V body v =
     tr_then (tr_read (\<lambda>s. assert_that (length (control_stack s) = 1) ''State not initialized''))
     (\<lambda>_. tr_then (translate_operators C V (fb_operators body) v)
     (\<lambda>v'. tr_then (tr_of (val_finish V (fb_end body) v'))
     (\<lambda>_. tr_then (return_results C)
     (\<lambda>_. tr_modify (\<lambda>s. Ok (s\<lparr>fs_stack := []\<rparr>))))))"

text \<open>\<open>FuncTranslator::translate_body\<close>, on the translator's state and a builder for the empty function.\<close>

definition translate_body :: "'b clif_ops \<Rightarrow> 'v validator_ops \<Rightarrow> FunctionBody \<Rightarrow> 'v \<Rightarrow> (unit, 'b) tr" where
  "translate_body C V body v =
     tr_then (tr_srcloc C (fb_start body))
     (\<lambda>_. tr_then (tr_build (create_block C))
     (\<lambda>entry_block. tr_then (tr_builder (append_params_for_function_params C entry_block))
     (\<lambda>_. tr_then (tr_builder (switch_to_block C entry_block))
     (\<lambda>_. tr_then (tr_builder (seal_block C entry_block))
     (\<lambda>_. tr_then (tr_builder (ensure_inserted_block C))
     (\<lambda>_. tr_then (declare_wasm_parameters C entry_block)
     (\<lambda>num_params. tr_then (tr_build (create_block C))
     (\<lambda>exit_block. tr_then (tr_builder (append_params_for_function_returns C exit_block))
     (\<lambda>_. tr_then (tr_ask (\<lambda>env b. func_signature C b))
     (\<lambda>sig. tr_then (tr_modify (func_state_initialize sig exit_block))
     (\<lambda>_. tr_then (translate_local_decls C V body num_params v)
     (\<lambda>v'. tr_then (translate_function_body C V body v')
     (\<lambda>_. tr_builder (finalize C))))))))))))))"

end
