(* ===== verification/Builder_Types.thy ===== *)
theory Builder_Types
  imports Func_Translator
begin

text \<open>
  What the translator relies on of Cranelift's function builder, as far as types and control flow
  are concerned. A view of the builder gives the values and blocks that exist, the types of the declared
  block parameters, the branches into a block, and the types of variables. A value keeps its type; an
  instruction whose operands fit has a result of the documented type; a branch whose arguments fit the
  parameters of its targets becomes a predecessor of them; and the parameters of a block are the
  declared ones until variables are looked up in it.
\<close>

section \<open>The typing of instructions\<close>

definition is_int_ty :: "ir_Type \<Rightarrow> bool" where
  "is_int_ty t \<longleftrightarrow> t \<in> {IR_I8, IR_I16, IR_I32, IR_I64}"

definition is_float_ty :: "ir_Type \<Rightarrow> bool" where
  "is_float_ty t \<longleftrightarrow> t \<in> {IR_F32, IR_F64}"

definition float_op :: "ir_Binop \<Rightarrow> bool" where
  "float_op bop \<longleftrightarrow> bop \<in> {Fadd, Fsub, Fmul, Fdiv, Fmin, Fmax, Fcopysign}"

definition float_un :: "ir_Unop \<Rightarrow> bool" where
  "float_un uop \<longleftrightarrow> uop \<in> {Sqrt, Ceil, Floor, Trunc, Nearest, Fabs, Fneg}"

fun convert_fits :: "ir_Cvtop \<Rightarrow> ir_Type \<Rightarrow> ir_Type \<Rightarrow> bool" where
  "convert_fits Ireduce t u = (is_int_ty t \<and> is_int_ty u \<and> ty_bits u < ty_bits t)"
| "convert_fits Sextend t u = (is_int_ty t \<and> is_int_ty u \<and> ty_bits t < ty_bits u)"
| "convert_fits Uextend t u = (is_int_ty t \<and> is_int_ty u \<and> ty_bits t < ty_bits u)"
| "convert_fits Fdemote t u = (t = IR_F64 \<and> u = IR_F32)"
| "convert_fits Fpromote t u = (t = IR_F32 \<and> u = IR_F64)"
| "convert_fits Fcvt_from_sint t u = (is_int_ty t \<and> is_float_ty u)"
| "convert_fits Fcvt_from_uint t u = (is_int_ty t \<and> is_float_ty u)"
| "convert_fits _ t u = (is_float_ty t \<and> is_int_ty u)"

text \<open>The result type of an instruction whose operands have fitting types \<open>t\<close>.\<close>

definition result_type :: "(ir_Value \<Rightarrow> ir_Type) \<Rightarrow> inst \<Rightarrow> ir_Type option" where
  "result_type t i = (case i of
       Iconst ty c \<Rightarrow> if is_int_ty ty then Some ty else None
     | F32const bits \<Rightarrow> Some IR_F32
     | F64const bits \<Rightarrow> Some IR_F64
     | Vconst ty bytes \<Rightarrow> if is_vector ty then Some ty else None
     | Binary bop x y \<Rightarrow>
         if t x = t y \<and> (if float_op bop then is_float_ty (t x) else is_int_ty (t x)) then Some (t x) else None
     | Unary uop x \<Rightarrow> if (if float_un uop then is_float_ty (t x) else is_int_ty (t x)) then Some (t x) else None
     | Convert cop ty x \<Rightarrow> if convert_fits cop (t x) ty then Some ty else None
     | Bitcast ty fl x \<Rightarrow> if ty_bits (t x) = ty_bits ty then Some ty else None
     | Icmp cc x y \<Rightarrow> if t x = t y \<and> is_int_ty (t x) then Some IR_I8 else None
     | Icmp_imm cc x k \<Rightarrow> if is_int_ty (t x) then Some IR_I8 else None
     | Fcmp cc x y \<Rightarrow> if t x = t y \<and> is_float_ty (t x) then Some IR_I8 else None
     | Select c x y \<Rightarrow> if t x = t y \<and> is_int_ty (t c) then Some (t x) else None
     | Load opc ty fl a off \<Rightarrow> Some ty
     | Global_value ty gv \<Rightarrow> Some ty
     | _ \<Rightarrow> None)"

definition value_args :: "inst \<Rightarrow> ir_Value list" where
  "value_args i = (case i of
       Binary bop x y \<Rightarrow> [x, y]
     | Unary uop x \<Rightarrow> [x]
     | Convert cop ty x \<Rightarrow> [x]
     | Bitcast ty fl x \<Rightarrow> [x]
     | Icmp cc x y \<Rightarrow> [x, y]
     | Icmp_imm cc x k \<Rightarrow> [x]
     | Fcmp cc x y \<Rightarrow> [x, y]
     | Select c x y \<Rightarrow> [c, x, y]
     | _ \<Rightarrow> [])"

text \<open>The blocks that an instruction branches to, with the arguments for each.\<close>

definition branches :: "inst \<Rightarrow> (ir_Block \<times> ir_Value list) list" where
  "branches i = (case i of
       Jump k vs \<Rightarrow> [(k, vs)]
     | Brif c k vs l ws \<Rightarrow> [(k, vs), (l, ws)]
     | Br_table c k ks \<Rightarrow> (k, []) # map (\<lambda>j. (j, [])) ks
     | _ \<Rightarrow> [])"

section \<open>The view of a builder\<close>

record 'b clif_view =
  cv_value :: "'b \<Rightarrow> ir_Value \<Rightarrow> bool"
  cv_block :: "'b \<Rightarrow> ir_Block \<Rightarrow> bool"
  cv_params :: "'b \<Rightarrow> ir_Block \<Rightarrow> ir_Type list"
  cv_untouched :: "'b \<Rightarrow> ir_Block \<Rightarrow> bool"
  cv_entered :: "'b \<Rightarrow> ir_Block \<Rightarrow> bool"
  cv_preds :: "'b \<Rightarrow> ir_Block \<Rightarrow> ir_Inst set"
  cv_insts :: "'b \<Rightarrow> ir_Inst set"
  cv_current :: "'b \<Rightarrow> ir_Block"
  cv_filled :: "'b \<Rightarrow> bool"
  cv_var :: "'b \<Rightarrow> nat \<Rightarrow> ir_Type option"
  cv_sig :: "'b \<Rightarrow> SigRef \<Rightarrow> bool"
  cv_func :: "'b \<Rightarrow> ir_FuncRef \<Rightarrow> bool"

definition typed :: "'b clif_ops \<Rightarrow> 'b clif_view \<Rightarrow> 'b \<Rightarrow> ir_Value \<Rightarrow> ir_Type \<Rightarrow> bool" where
  "typed C G b v t \<longleftrightarrow> cv_value G b v \<and> value_type_of C b v = t"

abbreviation typed_list :: "'b clif_ops \<Rightarrow> 'b clif_view \<Rightarrow> 'b \<Rightarrow> ir_Value list \<Rightarrow> ir_Type list \<Rightarrow> bool" where
  "typed_list C G b \<equiv> list_all2 (typed C G b)"

text \<open>What every operation keeps, but for the declared parameters of the blocks in \<open>K\<close>.\<close>

definition keeps_but :: "ir_Block set \<Rightarrow> 'b clif_ops \<Rightarrow> 'b clif_view \<Rightarrow> 'b \<Rightarrow> 'b \<Rightarrow> bool" where
  "keeps_but K C G b b' \<longleftrightarrow>
     (\<forall>v t. typed C G b v t \<longrightarrow> typed C G b' v t) \<and>
     (\<forall>k. cv_block G b k \<longrightarrow> cv_block G b' k \<and> (k \<notin> K \<longrightarrow> cv_params G b' k = cv_params G b k)) \<and>
     (\<forall>k. cv_block G b k \<and> cv_untouched G b k \<and> \<not> cv_entered G b' k \<longrightarrow> cv_untouched G b' k) \<and>
     (\<forall>k. cv_entered G b k \<longrightarrow> cv_entered G b' k) \<and>
     cv_insts G b \<subseteq> cv_insts G b' \<and> cv_var G b' = cv_var G b \<and>
     (\<forall>r. cv_sig G b r \<longrightarrow> cv_sig G b' r \<and> signature_of C b' r = signature_of C b r) \<and>
     (\<forall>f. cv_func G b f \<longrightarrow> cv_func G b' f \<and> ext_func_signature C b' f = ext_func_signature C b f) \<and>
     func_signature C b' = func_signature C b"

abbreviation keeps :: "'b clif_ops \<Rightarrow> 'b clif_view \<Rightarrow> 'b \<Rightarrow> 'b \<Rightarrow> bool" where
  "keeps \<equiv> keeps_but {}"

definition same_flow :: "'b clif_ops \<Rightarrow> 'b clif_view \<Rightarrow> 'b \<Rightarrow> 'b \<Rightarrow> bool" where
  "same_flow C G b b' \<longleftrightarrow> cv_preds G b' = cv_preds G b \<and> cv_entered G b' = cv_entered G b \<and>
     cv_current G b' = cv_current G b \<and> (\<not> is_unreachable C b \<longrightarrow> \<not> is_unreachable C b')"

text \<open>An operation that neither declares parameters nor changes the control flow.\<close>

definition straight :: "'b clif_ops \<Rightarrow> 'b clif_view \<Rightarrow> 'b \<Rightarrow> 'b \<Rightarrow> bool" where
  "straight C G b b' \<longleftrightarrow> keeps C G b b' \<and> same_flow C G b b'"

section \<open>The contract\<close>

definition branch_fits :: "'b clif_ops \<Rightarrow> 'b clif_view \<Rightarrow> 'b \<Rightarrow> ir_Block \<times> ir_Value list \<Rightarrow> bool" where
  "branch_fits C G b = (\<lambda>(k, vs). cv_block G b k \<and> typed_list C G b vs (cv_params G b k))"

definition instruction_contract :: "'b clif_ops \<Rightarrow> 'b clif_view \<Rightarrow> bool" where
  "instruction_contract C G \<longleftrightarrow>
     (\<forall>b i v b'. ins C i b = (v, b') \<longrightarrow> straight C G b b' \<and>
       (\<forall>t. (\<forall>x\<in>set (value_args i). cv_value G b x) \<and> result_type (value_type_of C b) i = Some t \<longrightarrow>
         typed C G b' v t)) \<and>
     (\<forall>b i n b'. ins_inst C i b = (n, b') \<longrightarrow> keeps C G b b' \<and>
       cv_entered G b' = cv_entered G b \<and> cv_current G b' = cv_current G b \<and>
       (\<not> is_unreachable C b \<longrightarrow> \<not> is_unreachable C b') \<and> n \<notin> cv_insts G b \<and> n \<in> cv_insts G b' \<and>
       (list_all (branch_fits C G b) (branches i) \<longrightarrow>
         cv_preds G b' = (\<lambda>k. if k \<in> fst ` set (branches i) then insert n (cv_preds G b k) else cv_preds G b k))) \<and>
     (\<forall>b f vs n b'. ins_inst C (Call_inst f vs) b = (n, b') \<and> cv_func G b f \<and> cv_sig G b (ext_func_signature C b f) \<longrightarrow>
       typed_list C G b' (inst_results C b' n) (sig_returns (signature_of C b (ext_func_signature C b f)))) \<and>
     (\<forall>b r a vs n b'. ins_inst C (Call_indirect_inst r a vs) b = (n, b') \<and> cv_sig G b r \<longrightarrow>
       typed_list C G b' (inst_results C b' n) (sig_returns (signature_of C b r)))"

definition block_contract :: "'b clif_ops \<Rightarrow> 'b clif_view \<Rightarrow> bool" where
  "block_contract C G \<longleftrightarrow>
     (\<forall>b k. cv_block G b k \<and> cv_untouched G b k \<longrightarrow> typed_list C G b (block_params C b k) (cv_params G b k)) \<and>
     (\<forall>b k. cv_preds G b k \<subseteq> cv_insts G b) \<and>
     (\<forall>b k b'. create_block C b = (k, b') \<longrightarrow> straight C G b b' \<and> \<not> cv_block G b k \<and> cv_block G b' k \<and>
       cv_params G b' k = [] \<and> cv_untouched G b' k \<and> \<not> cv_entered G b' k) \<and>
     (\<forall>b k t v b'. append_block_param C k t b = (v, b') \<and> cv_block G b k \<longrightarrow>
       keeps_but {k} C G b b' \<and> same_flow C G b b' \<and> cv_params G b' k = cv_params G b k @ [t]) \<and>
     (\<forall>b k. let b' = switch_to_block C k b in keeps C G b b' \<and> cv_preds G b' = cv_preds G b \<and>
       cv_entered G b' = (cv_entered G b)(k := True) \<and> cv_current G b' = k \<and> \<not> cv_filled G b' \<and>
       cv_untouched G b' = cv_untouched G b \<and> (cv_preds G b k \<noteq> {} \<longrightarrow> \<not> is_unreachable C b')) \<and>
     (\<forall>b k. let b' = seal_block C k b in keeps C G b b' \<and> cv_preds G b' = cv_preds G b \<and>
       cv_entered G b' = cv_entered G b \<and> cv_current G b' = cv_current G b \<and> cv_filled G b' = cv_filled G b \<and>
       (\<not> cv_filled G b \<and> cv_untouched G b (cv_current G b) \<longrightarrow> cv_untouched G b' (cv_current G b)) \<and>
       (cv_preds G b (cv_current G b) \<noteq> {} \<longrightarrow> \<not> is_unreachable C b')) \<and>
     (\<forall>b n k l. let b' = change_jump_destination C n k l b in k \<noteq> l \<and> n \<in> cv_preds G b k \<longrightarrow>
       keeps C G b b' \<and> cv_entered G b' = cv_entered G b \<and> cv_current G b' = cv_current G b \<and>
       cv_preds G b' = (cv_preds G b)(k := cv_preds G b k - {n}, l := insert n (cv_preds G b l)))"

definition variable_contract :: "'b clif_ops \<Rightarrow> 'b clif_view \<Rightarrow> bool" where
  "variable_contract C G \<longleftrightarrow>
     (\<forall>b x v b'. use_var C x b = (v, b') \<longrightarrow> straight C G b b' \<and> (\<forall>t. cv_var G b x = Some t \<longrightarrow> typed C G b' v t)) \<and>
     (\<forall>b x v. straight C G b (def_var C x v b)) \<and>
     (\<forall>b x v. straight C G b (set_val_label C v x b)) \<and>
     (\<forall>b v. straight C G b (declare_stack_map C v b)) \<and>
     (\<forall>b pos. straight C G b (set_srcloc C pos b)) \<and>
     (\<forall>b d gv b'. create_global_value C d b = (gv, b') \<longrightarrow> straight C G b b') \<and>
     (\<forall>b sg r b'. import_signature C sg b = (r, b') \<longrightarrow> straight C G b b' \<and> cv_sig G b' r \<and> signature_of C b' r = sg) \<and>
     (\<forall>b d f b'. import_function C d b = (f, b') \<longrightarrow> straight C G b b' \<and> cv_func G b' f \<and>
       ext_func_signature C b' f = ef_signature d)"

definition builder_contract :: "'b clif_ops \<Rightarrow> 'b clif_view \<Rightarrow> bool" where
  "builder_contract C G \<longleftrightarrow> instruction_contract C G \<and> block_contract C G \<and> variable_contract C G"

section \<open>Consequences\<close>

lemma keeps_butD:
  assumes "keeps_but K C G b b'"
  shows "typed C G b v t \<Longrightarrow> typed C G b' v t" "typed_list C G b vs ts \<Longrightarrow> typed_list C G b' vs ts"
    "cv_block G b k \<Longrightarrow> cv_block G b' k" "cv_block G b k \<Longrightarrow> k \<notin> K \<Longrightarrow> cv_params G b' k = cv_params G b k"
    "cv_block G b k \<Longrightarrow> cv_untouched G b k \<Longrightarrow> \<not> cv_entered G b' k \<Longrightarrow> cv_untouched G b' k"
    "cv_insts G b \<subseteq> cv_insts G b'" "cv_var G b' = cv_var G b" "func_signature C b' = func_signature C b"
    "cv_sig G b r \<Longrightarrow> cv_sig G b' r" "cv_sig G b r \<Longrightarrow> signature_of C b' r = signature_of C b r"
    "cv_func G b f \<Longrightarrow> cv_func G b' f" "cv_func G b f \<Longrightarrow> ext_func_signature C b' f = ext_func_signature C b f"
  using assms by (auto simp: keeps_but_def elim: list_all2_mono)

lemma keeps_refl [simp]: "keeps_but K C G b b"
  by (auto simp: keeps_but_def)

lemma keeps_trans: "keeps_but K C G a b \<Longrightarrow> keeps_but L C G b c \<Longrightarrow> keeps_but (K \<union> L) C G a c"
  unfolding keeps_but_def by (elim conjE, intro conjI) (blast | simp | auto)+

lemma keeps_trans': "keeps C G a b \<Longrightarrow> keeps C G b c \<Longrightarrow> keeps C G a c"
  using keeps_trans [of "{}" C G a b "{}"] by simp

lemma straight_refl [simp]: "straight C G b b"
  by (simp add: straight_def same_flow_def)

lemma straight_trans: "straight C G a b \<Longrightarrow> straight C G b c \<Longrightarrow> straight C G a c"
  unfolding straight_def same_flow_def by (intro conjI) (blast intro: keeps_trans' | simp)+

lemma straightD:
  assumes "straight C G b b'"
  shows "keeps C G b b'" "cv_preds G b' = cv_preds G b" "cv_entered G b' = cv_entered G b"
    "cv_current G b' = cv_current G b" "\<not> is_unreachable C b \<Longrightarrow> \<not> is_unreachable C b'"
  using assms by (auto simp: straight_def same_flow_def)

lemma contract_ins:
  assumes "builder_contract C G" and "ins C i b = (v, b')"
  shows "straight C G b b'"
    "\<forall>x\<in>set (value_args i). cv_value G b x \<Longrightarrow> result_type (value_type_of C b) i = Some t \<Longrightarrow> typed C G b' v t"
  using assms by (auto simp: builder_contract_def instruction_contract_def)

lemma contract_inst:
  assumes "builder_contract C G" and "ins_inst C i b = (n, b')"
  shows "keeps C G b b'" "cv_entered G b' = cv_entered G b" "cv_current G b' = cv_current G b"
    "\<not> is_unreachable C b \<Longrightarrow> \<not> is_unreachable C b'" "n \<notin> cv_insts G b" "n \<in> cv_insts G b'"
    "list_all (branch_fits C G b) (branches i) \<Longrightarrow> cv_preds G b' =
       (\<lambda>k. if k \<in> fst ` set (branches i) then insert n (cv_preds G b k) else cv_preds G b k)"
  using assms unfolding builder_contract_def instruction_contract_def by blast+

lemma contract_emit:
  assumes "builder_contract C G" and "branches i = []"
  shows "straight C G b (snd (ins_inst C i b))"
proof -
  obtain n b' where "ins_inst C i b = (n, b')" by fastforce
  from contract_inst [OF assms(1) this] this assms(2) show ?thesis by (simp add: straight_def same_flow_def)
qed

lemma contract_create_block:
  assumes "builder_contract C G" and "create_block C b = (k, b')"
  shows "straight C G b b'" "\<not> cv_block G b k" "cv_block G b' k" "cv_params G b' k = []"
    "cv_untouched G b' k" "\<not> cv_entered G b' k"
  using assms unfolding builder_contract_def block_contract_def by blast+

lemma contract_append_param:
  assumes "builder_contract C G" and "append_block_param C k t b = (v, b')" and "cv_block G b k"
  shows "keeps_but {k} C G b b'" "same_flow C G b b'" "cv_params G b' k = cv_params G b k @ [t]"
  using assms unfolding builder_contract_def block_contract_def by blast+

lemma contract_block_params:
  assumes "builder_contract C G" and "cv_block G b k" and "cv_untouched G b k"
  shows "typed_list C G b (block_params C b k) (cv_params G b k)"
  using assms by (simp add: builder_contract_def block_contract_def)

lemma contract_preds: "builder_contract C G \<Longrightarrow> cv_preds G b k \<subseteq> cv_insts G b"
  unfolding builder_contract_def block_contract_def by blast

lemma contract_switch:
  assumes "builder_contract C G"
  shows "keeps C G b (switch_to_block C k b)" "cv_preds G (switch_to_block C k b) = cv_preds G b"
    "cv_entered G (switch_to_block C k b) = (cv_entered G b)(k := True)" "cv_current G (switch_to_block C k b) = k"
    "\<not> cv_filled G (switch_to_block C k b)" "cv_untouched G (switch_to_block C k b) = cv_untouched G b"
    "cv_preds G b k \<noteq> {} \<Longrightarrow> \<not> is_unreachable C (switch_to_block C k b)"
  using assms unfolding builder_contract_def block_contract_def Let_def by blast+

lemma contract_seal:
  assumes "builder_contract C G"
  shows "keeps C G b (seal_block C k b)" "cv_preds G (seal_block C k b) = cv_preds G b"
    "cv_entered G (seal_block C k b) = cv_entered G b" "cv_current G (seal_block C k b) = cv_current G b"
    "cv_filled G (seal_block C k b) = cv_filled G b"
    "\<not> cv_filled G b \<Longrightarrow> cv_untouched G b (cv_current G b) \<Longrightarrow> cv_untouched G (seal_block C k b) (cv_current G b)"
    "cv_preds G b (cv_current G b) \<noteq> {} \<Longrightarrow> \<not> is_unreachable C (seal_block C k b)"
  using assms unfolding builder_contract_def block_contract_def Let_def by blast+

lemma contract_change_jump:
  assumes "builder_contract C G" and "k \<noteq> l" and "n \<in> cv_preds G b k"
  shows "keeps C G b (change_jump_destination C n k l b)"
    "cv_entered G (change_jump_destination C n k l b) = cv_entered G b"
    "cv_current G (change_jump_destination C n k l b) = cv_current G b"
    "cv_preds G (change_jump_destination C n k l b) =
       (cv_preds G b)(k := cv_preds G b k - {n}, l := insert n (cv_preds G b l))"
  using assms unfolding builder_contract_def block_contract_def Let_def by blast+

lemma contract_use_var:
  assumes "builder_contract C G" and "use_var C x b = (v, b')"
  shows "straight C G b b'" "cv_var G b x = Some t \<Longrightarrow> typed C G b' v t"
  using assms by (auto simp: builder_contract_def variable_contract_def)

lemma contract_straight:
  assumes "builder_contract C G"
  shows "straight C G b (def_var C x v b)" "straight C G b (set_val_label C v x b)"
    "straight C G b (declare_stack_map C v b)" "straight C G b (set_srcloc C pos b)"
    "create_global_value C d b = (gv, b') \<Longrightarrow> straight C G b b'"
  using assms by (auto simp: builder_contract_def variable_contract_def)

lemma contract_import_signature:
  assumes "builder_contract C G" and "import_signature C sg b = (r, b')"
  shows "straight C G b b'" "cv_sig G b' r" "signature_of C b' r = sg"
  using assms by (auto simp: builder_contract_def variable_contract_def)

lemma contract_import_function:
  assumes "builder_contract C G" and "import_function C d b = (f, b')"
  shows "straight C G b b'" "cv_func G b' f" "ext_func_signature C b' f = ef_signature d"
  using assms by (auto simp: builder_contract_def variable_contract_def)

lemma contract_call:
  assumes "builder_contract C G" and "ins_inst C (Call_inst f vs) b = (n, b')" "cv_func G b f" "cv_sig G b (ext_func_signature C b f)"
  shows "typed_list C G b' (inst_results C b' n) (sig_returns (signature_of C b (ext_func_signature C b f)))"
  using assms by (simp add: builder_contract_def instruction_contract_def)

lemma contract_call_indirect:
  assumes "builder_contract C G" and "ins_inst C (Call_indirect_inst r a vs) b = (n, b')" "cv_sig G b r"
  shows "typed_list C G b' (inst_results C b' n) (sig_returns (signature_of C b r))"
  using assms by (simp add: builder_contract_def instruction_contract_def)

section \<open>Steps\<close>

lemma tr_then_Ok [simp]: "tr_then m f st = Ok r \<longleftrightarrow> (\<exists>a st'. m st = Ok (a, st') \<and> f a st' = Ok r)"
  by (auto simp: tr_then_def)

lemmas tr_defs = tr_then_def tr_ok_def tr_of_def tr_state_def tr_modify_def tr_read_def tr_build_def tr_builder_def
  tr_ask_def tr_pop1_def tr_pop2_def tr_pop3_def tr_push1_def tr_pushn_def tr_peekn_def tr_popn_def
  tr_set_reachable_def tr_ins_def tr_inst_def tr_emit_def tr_type_of_def push1_def pushn_def

text \<open>Declaring the parameters of a block one by one.\<close>

lemma block_params_declared:
  assumes C: "builder_contract C G" and "collect (block_param_type env) tys = Ok ps" and "cv_block G b k"
    and "cv_untouched G b k" and "\<not> cv_entered G b k"
  shows "\<exists>us b'. tr_each (tr_block_param C k) tys (s, env, b) = Ok (us, s, env, b') \<and> keeps_but {k} C G b b' \<and>
    same_flow C G b b' \<and> cv_params G b' k = cv_params G b k @ map fst ps \<and> cv_untouched G b' k"
  using assms(2-)
proof (induction tys arbitrary: ps b)
  case Nil
  then show ?case by (auto simp: tr_ok_def same_flow_def)
next
  case (Cons ty tys)
  from Cons.prems(1) obtain t fl ps' where ps: "block_param_type env ty = Ok (t, fl)" "collect (block_param_type env) tys = Ok ps'"
    "ps = (t, fl) # ps'" by auto
  obtain v b1 where v: "append_block_param C k t b = (v, b1)" by fastforce
  define b2 where "b2 = (if fl then declare_stack_map C v b1 else b1)"
  note a = contract_append_param [OF C v Cons.prems(2)]
  have st: "straight C G b1 b2" using contract_straight(3) [OF C] by (simp add: b2_def)
  have k12: "keeps_but {k} C G b b2" using keeps_trans [OF a(1) straightD(1) [OF st]] by simp
  have flow: "same_flow C G b b2" using a(2) st by (auto simp: same_flow_def straight_def)
  have b1: "cv_block G b1 k" using keeps_butD(3) [OF a(1) Cons.prems(2)] .
  have par: "cv_params G b2 k = cv_params G b k @ [t]"
    using keeps_butD(4) [OF straightD(1) [OF st] b1] a(3) by simp
  have e2: "\<not> cv_entered G b2 k" using flow Cons.prems(4) by (simp add: same_flow_def)
  have u2: "cv_untouched G b2 k" using keeps_butD(5) [OF k12 Cons.prems(2,3) e2] .
  from Cons.IH [OF ps(2) keeps_butD(3) [OF k12 Cons.prems(2)] u2 e2] obtain us b' where
    r: "tr_each (tr_block_param C k) tys (s, env, b2) = Ok (us, s, env, b')" "keeps_but {k} C G b2 b'"
      "same_flow C G b2 b'" "cv_params G b' k = cv_params G b2 k @ map fst ps'" "cv_untouched G b' k" by blast
  have "tr_block_param C k ty (s, env, b) = Ok ((), s, env, b2)"
    using ps(1) v by (simp add: tr_block_param_def b2_def)
  with r(1) have "tr_each (tr_block_param C k) (ty # tys) (s, env, b) = Ok (() # us, s, env, b')"
    by (simp add: tr_then_def tr_ok_def)
  moreover have "keeps_but {k} C G b b'" using keeps_trans [OF k12 r(2)] by simp
  moreover have "same_flow C G b b'" using flow r(3) by (auto simp: same_flow_def)
  ultimately show ?case using r(4,5) par ps(3) by auto
qed

text \<open>\<open>block_with_params\<close> makes a new block with parameters of the given types.\<close>

lemma block_with_params_run:
  assumes C: "builder_contract C G" and p: "collect (block_param_type env) tys = Ok ps"
  obtains k b' where "block_with_params C tys (s, env, b) = Ok (k, s, env, b')" "straight C G b b'"
    "\<not> cv_block G b k" "cv_block G b' k" "cv_params G b' k = map fst ps" "cv_untouched G b' k" "\<not> cv_entered G b' k"
proof -
  obtain k b1 where k: "create_block C b = (k, b1)" by fastforce
  note c = contract_create_block [OF C k]
  from block_params_declared [OF C p c(3,5,6)] obtain us b' where
    r: "tr_each (tr_block_param C k) tys (s, env, b1) = Ok (us, s, env, b')" "keeps_but {k} C G b1 b'"
      "same_flow C G b1 b'" "cv_params G b' k = cv_params G b1 k @ map fst ps" "cv_untouched G b' k" by blast
  have "keeps_but {k} C G b b'" using keeps_trans [OF straightD(1) [OF c(1)] r(2)] by simp
  then have "keeps C G b b'" using c(2) by (auto simp: keeps_but_def)
  then have "straight C G b b'" using c(1) r(3) by (auto simp: straight_def same_flow_def)
  moreover have "block_with_params C tys (s, env, b) = Ok (k, s, env, b')"
    using k r(1) by (simp add: block_with_params_def tr_defs)
  moreover have "\<not> cv_entered G b' k" using r(3) c(6) by (simp add: same_flow_def)
  ultimately show thesis using that c r keeps_butD(3) [OF r(2) c(3)] by simp
qed

end
