(* ===== verification/Stack_Typing.thy ===== *)
theory Stack_Typing
  imports Builder_Types
begin

text \<open>
  The validity of operator sequences, as far as the translator depends on it, and the invariant that
  ties the translator's stacks to it. Types are the Cranelift types that Wasm types are translated
  to, and after an operator that does not return anything is accepted up to the end of the block, so
  that this checker accepts the bodies that WebAssembly validation accepts, but for an \<open>if\<close> without
  \<open>else\<close> whose parameter types are proper subtypes of its result types.
\<close>

section \<open>Types of operators\<close>

text \<open>The types of values on the stack; all vectors are stored as bytes.\<close>

definition canonical :: "ir_Type \<Rightarrow> bool" where
  "canonical t \<longleftrightarrow> t \<in> {IR_I32, IR_I64, IR_F32, IR_F64, IR_I8X16}"

text \<open>What operators refer to: the types of locals, globals, functions and function types, and memory indices.\<close>

record type_ctx =
  tc_local :: "nat \<Rightarrow> ir_Type option"
  tc_global :: "GlobalIndex \<Rightarrow> ir_Type option"
  tc_func :: "FuncIndex \<Rightarrow> (ir_Type list \<times> ir_Type list) option"
  tc_type :: "TypeIndex \<Rightarrow> (ir_Type list \<times> ir_Type list) option"
  tc_index :: "MemoryIndex \<Rightarrow> ir_Type option"
  tc_ref :: "wp_HeapType \<Rightarrow> ir_Type option"

fun cvt_type :: "Cvtop \<Rightarrow> ir_Type \<times> ir_Type" where
  "cvt_type I32WrapI64 = (IR_I64, IR_I32)"
| "cvt_type (I64ExtendI32 sx) = (IR_I32, IR_I64)"
| "cvt_type (ITruncF w fw sx) = (float_ty fw, int_ty w)"
| "cvt_type (ITruncSatF w fw sx) = (float_ty fw, int_ty w)"
| "cvt_type F32DemoteF64 = (IR_F64, IR_F32)"
| "cvt_type F64PromoteF32 = (IR_F32, IR_F64)"
| "cvt_type (FConvertI fw w sx) = (int_ty w, float_ty fw)"
| "cvt_type (FReinterpretI w) = (int_ty w, float_ty w)"
| "cvt_type (IReinterpretF w) = (float_ty w, int_ty w)"

fun num_type :: "NumOp \<Rightarrow> ir_Type list \<times> ir_Type list" where
  "num_type (I32Const n) = ([], [IR_I32])"
| "num_type (I64Const n) = ([], [IR_I64])"
| "num_type (N_F32Const n) = ([], [IR_F32])"
| "num_type (N_F64Const n) = ([], [IR_F64])"
| "num_type (IBinop w bop) = ([int_ty w, int_ty w], [int_ty w])"
| "num_type (IUnop w uop) = ([int_ty w], [int_ty w])"
| "num_type (IEqz w) = ([int_ty w], [IR_I32])"
| "num_type (IRelop w rop) = ([int_ty w, int_ty w], [IR_I32])"
| "num_type (FBinop w bop) = ([float_ty w, float_ty w], [float_ty w])"
| "num_type (FUnop w uop) = ([float_ty w], [float_ty w])"
| "num_type (FRelop w rop) = ([float_ty w, float_ty w], [IR_I32])"
| "num_type (Cvt cop) = ([fst (cvt_type cop)], [snd (cvt_type cop)])"
| "num_type (Extend eop) = ([snd (extend_types eop)], [snd (extend_types eop)])"

fun store_type :: "Storeop \<Rightarrow> ir_Type" where
  "store_type (IStore w) = int_ty w" | "store_type (FStore w) = float_ty w"
| "store_type (IStore8 w) = int_ty w" | "store_type (IStore16 w) = int_ty w" | "store_type I64Store32 = IR_I64"

text \<open>Operators that take and give values of fixed types.\<close>

definition fixed_type :: "type_ctx \<Rightarrow> Operator \<Rightarrow> (ir_Type list \<times> ir_Type list) option" where
  "fixed_type T oper = (case oper of
       O_Nop \<Rightarrow> Some ([], [])
     | O_AtomicFence \<Rightarrow> Some ([], [])
     | O_LocalGet x \<Rightarrow> map_option (\<lambda>t. ([], [t])) (tc_local T x)
     | O_LocalSet x \<Rightarrow> map_option (\<lambda>t. ([t], [])) (tc_local T x)
     | O_LocalTee x \<Rightarrow> map_option (\<lambda>t. ([t], [t])) (tc_local T x)
     | O_GlobalGet x \<Rightarrow> map_option (\<lambda>t. ([], [t])) (tc_global T x)
     | O_GlobalSet x \<Rightarrow> map_option (\<lambda>t. ([t], [])) (tc_global T x)
     | O_Num n \<Rightarrow> Some (num_type n)
     | O_Load l m \<Rightarrow> map_option (\<lambda>t. ([t], [snd (load_opcode l)])) (tc_index T (ma_memory m))
     | O_Store st m \<Rightarrow> map_option (\<lambda>t. ([t, store_type st], [])) (tc_index T (ma_memory m))
     | O_Call f \<Rightarrow> tc_func T f
     | O_CallIndirect ty tbl \<Rightarrow> map_option (\<lambda>(ps, rs). (ps @ [IR_I32], rs)) (tc_type T ty)
     | O_RefNull h \<Rightarrow> map_option (\<lambda>t. ([], [t])) (tc_ref T h)
     | _ \<Rightarrow> None)"

section \<open>The checker\<close>

text \<open>
  The frame of a block: its kind, the types of its parameters and results and of the operands above
  its base, which are unknown after an operator that does not return. For an \<open>if\<close> the
  kind says whether its \<open>else\<close> may still come, and whether it may be left out. The operands of a frame
  that is entered where they are unknown are unknown.
\<close>

datatype vkind = VBlock | VLoop | VIf bool bool

record vframe =
  vf_kind :: vkind
  vf_params :: "ir_Type list"
  vf_results :: "ir_Type list"
  vf_ops :: "ir_Type list option"

definition label_types :: "vframe \<Rightarrow> ir_Type list" where
  "label_types f = (if vf_kind f = VLoop then vf_params f else vf_results f)"

definition strip_suffix :: "'a list \<Rightarrow> 'a list \<Rightarrow> 'a list option" where
  "strip_suffix ts os = (if length ts \<le> length os \<and> drop (length os - length ts) os = ts
     then Some (take (length os - length ts) os) else None)"

definition on_top :: "(vframe \<Rightarrow> vframe option) \<Rightarrow> vframe list \<Rightarrow> vframe list option" where
  "on_top g vs = (if vs = [] then None else map_option (\<lambda>f. butlast vs @ [f]) (g (last vs)))"

definition apply_type :: "ir_Type list \<Rightarrow> ir_Type list \<Rightarrow> vframe \<Rightarrow> vframe option" where
  "apply_type ts us f = (case vf_ops f of
       None \<Rightarrow> Some f
     | Some os \<Rightarrow> map_option (\<lambda>r. f\<lparr>vf_ops := Some (r @ us)\<rparr>) (strip_suffix ts os))"

text \<open>Operators that never return, or that the translator does not implement.\<close>

definition give_up :: "vframe \<Rightarrow> vframe option" where
  "give_up f = Some (f\<lparr>vf_ops := None\<rparr>)"

definition check_drop :: "vframe \<Rightarrow> vframe option" where
  "check_drop f = (case vf_ops f of
       None \<Rightarrow> Some f
     | Some os \<Rightarrow> if os = [] then None else Some (f\<lparr>vf_ops := Some (butlast os)\<rparr>))"

definition check_select :: "vframe \<Rightarrow> vframe option" where
  "check_select f = (case vf_ops f of
       None \<Rightarrow> Some f
     | Some os \<Rightarrow> if length os < 3 then None
         else let t = os ! (length os - 2) in apply_type [t, t, IR_I32] [t] f)"

text \<open>The operator applies to a reference, an integer as far as Cranelift is concerned.\<close>

definition check_ref :: "(ir_Type \<Rightarrow> ir_Type list \<times> ir_Type list) \<Rightarrow> vframe \<Rightarrow> vframe option" where
  "check_ref g f = (case vf_ops f of
       None \<Rightarrow> Some f
     | Some os \<Rightarrow> if os = [] \<or> \<not> is_int_ty (last os) then None
         else case g (last os) of (ts, us) \<Rightarrow> apply_type ts us f)"

text \<open>The Wasm types and the Cranelift types of a block.\<close>

definition block_types ::
  "FuncValidator \<Rightarrow> TranslationEnvironment \<Rightarrow> BlockType \<Rightarrow> (bool \<times> ir_Type list \<times> ir_Type list) option" where
  "block_types V env bt = (case blocktype_params_results V bt of
       Ok (ps, rs) \<Rightarrow> (case (collect (block_param_type env) ps, collect (block_param_type env) rs) of
           (Ok pts, Ok rts) \<Rightarrow> Some (ps = rs, map fst pts, map fst rts)
         | _ \<Rightarrow> None)
     | _ \<Rightarrow> None)"

definition enter_block :: "vkind \<Rightarrow> ir_Type list \<Rightarrow> ir_Type list \<Rightarrow> ir_Type list \<Rightarrow> vframe list \<Rightarrow> vframe list option" where
  "enter_block kind ts ps rs vs =
     map_option (\<lambda>vs'. vs' @ [\<lparr>vf_kind = kind, vf_params = ps, vf_results = rs,
         vf_ops = (if vf_ops (last vs) = None then None else Some ps)\<rparr>])
       (on_top (apply_type (ps @ ts) []) vs)"

definition results_ready :: "vframe \<Rightarrow> bool" where
  "results_ready f \<longleftrightarrow> vf_ops f = None \<or> vf_ops f = Some (vf_results f)"

definition check_else :: "vframe list \<Rightarrow> vframe list option" where
  "check_else vs = (if vs = [] \<or> \<not> results_ready (last vs) then None
     else case vf_kind (last vs) of
         VIf True same \<Rightarrow> Some (butlast vs @ [(last vs)\<lparr>vf_kind := VIf False same,
           vf_ops := (if butlast vs \<noteq> [] \<and> vf_ops (last (butlast vs)) = None then None else Some (vf_params (last vs)))\<rparr>])
       | _ \<Rightarrow> None)"

definition check_end :: "vframe list \<Rightarrow> vframe list option" where
  "check_end vs = (if vs = [] \<or> \<not> results_ready (last vs) \<or> vf_kind (last vs) = VIf True False then None
     else if butlast vs = [] then Some []
     else on_top (apply_type [] (vf_results (last vs))) (butlast vs))"

definition frame_at :: "vframe list \<Rightarrow> nat \<Rightarrow> vframe option" where
  "frame_at vs d = (if d < length vs then Some (vs ! (length vs - 1 - d)) else None)"

definition check_branch :: "vframe list \<Rightarrow> nat \<Rightarrow> (ir_Type list \<Rightarrow> vframe \<Rightarrow> vframe option) \<Rightarrow> vframe list option" where
  "check_branch vs d g = (case frame_at vs d of None \<Rightarrow> None | Some f \<Rightarrow> on_top (g (label_types f)) vs)"

definition leave :: "ir_Type list \<Rightarrow> vframe \<Rightarrow> vframe option" where
  "leave ts f = Option.bind (apply_type ts [] f) give_up"

definition check_operator ::
  "FuncValidator \<Rightarrow> TranslationEnvironment \<Rightarrow> type_ctx \<Rightarrow> Operator \<Rightarrow> vframe list \<Rightarrow> vframe list option" where
  "check_operator V env T oper vs = (case oper of
       O_Drop \<Rightarrow> on_top check_drop vs
     | O_Select \<Rightarrow> on_top check_select vs
     | O_TypedSelect \<Rightarrow> on_top check_select vs
     | O_Block bt \<Rightarrow> Option.bind (block_types V env bt) (\<lambda>(same, ps, rs). enter_block VBlock [] ps rs vs)
     | O_Loop bt \<Rightarrow> Option.bind (block_types V env bt) (\<lambda>(same, ps, rs). enter_block VLoop [] ps rs vs)
     | O_If bt \<Rightarrow> Option.bind (block_types V env bt) (\<lambda>(same, ps, rs). enter_block (VIf True same) [IR_I32] ps rs vs)
     | O_Else \<Rightarrow> check_else vs
     | O_End \<Rightarrow> check_end vs
     | O_Br d \<Rightarrow> check_branch vs d leave
     | O_BrIf d \<Rightarrow> check_branch vs d (\<lambda>ts. apply_type (ts @ [IR_I32]) ts)
     | O_BrTable ds d \<Rightarrow> if list_all (\<lambda>e. map_option label_types (frame_at vs e) = map_option label_types (frame_at vs d)) ds
         then check_branch vs d (\<lambda>ts. leave (ts @ [IR_I32])) else None
     | O_Return \<Rightarrow> if vs = [] then None else on_top (leave (vf_results (hd vs))) vs
     | O_RefIsNull \<Rightarrow> on_top (check_ref (\<lambda>t. ([t], [IR_I32]))) vs
     | O_RefAsNonNull \<Rightarrow> on_top (check_ref (\<lambda>t. ([t], [t]))) vs
     | O_BrOnNull d \<Rightarrow> check_branch vs d (\<lambda>ts. check_ref (\<lambda>t. (ts @ [t], ts @ [t])))
     | O_BrOnNonNull d \<Rightarrow> check_branch vs d (\<lambda>ts. if ts = [] then (\<lambda>_. None) else check_ref (\<lambda>t. (ts, butlast ts)))
     | O_Unreachable \<Rightarrow> on_top give_up vs
     | O_ReturnCall f \<Rightarrow> on_top give_up vs
     | O_ReturnCallIndirect ty tbl \<Rightarrow> on_top give_up vs
     | O_CallRef ty \<Rightarrow> on_top give_up vs
     | O_ReturnCallRef ty \<Rightarrow> on_top give_up vs
     | O_Bulk bulk \<Rightarrow> on_top give_up vs
     | O_Unsupported proposal \<Rightarrow> on_top give_up vs
     | _ \<Rightarrow> Option.bind (fixed_type T oper) (\<lambda>(ts, us). on_top (apply_type ts us) vs))"

section \<open>The invariant\<close>

text \<open>The copy of its parameters that an \<open>if\<close> keeps below its operands until its \<open>else\<close>.\<close>

definition frame_dup :: "vframe \<Rightarrow> ir_Type list" where
  "frame_dup f = (case vf_kind f of VIf True same \<Rightarrow> vf_params f | _ \<Rightarrow> [])"

definition segment :: "vframe \<Rightarrow> ir_Type list" where
  "segment f = frame_dup f @ (case vf_ops f of Some os \<Rightarrow> os | None \<Rightarrow> [])"

definition stack_types :: "vframe list \<Rightarrow> ir_Type list" where
  "stack_types vs = concat (map segment vs)"

text \<open>The part of the stack that belongs to the frames around the last one, with the copy of that one.\<close>

definition base_types :: "vframe list \<Rightarrow> ir_Type list" where
  "base_types vs = stack_types (butlast vs) @ frame_dup (last vs)"

text \<open>The branch that jumps over an \<open>if\<close> without \<open>else\<close>, which an \<open>else\<close> would redirect.\<close>

fun own_branch :: "ControlStackFrame \<Rightarrow> ir_Inst set" where
  "own_branch (Frame_If dst (NoElse n ph) np nr sz ex bt hr None) = {n}"
| "own_branch _ = {}"

fun frame_blocks :: "ControlStackFrame \<Rightarrow> ir_Block list" where
  "frame_blocks (Frame_If dst (WithElse eb) np nr sz ex bt hr None) = [dst, eb]"
| "frame_blocks f = [fr_destination f]"

fun else_ready ::
  "'b clif_view \<Rightarrow> FuncValidator \<Rightarrow> TranslationEnvironment \<Rightarrow> 'b \<Rightarrow> vframe \<Rightarrow> bool \<Rightarrow> ir_Block \<Rightarrow> BlockType \<Rightarrow> ElseData \<Rightarrow> bool" where
  "else_ready G V E b f same dst bt (NoElse n ph) \<longleftrightarrow> same \<and> ph = dst \<and> n \<in> cv_preds G b dst \<and>
     vf_params f = vf_results f \<and> block_types V E bt = Some (same, vf_params f, vf_results f)"
| "else_ready G V E b f same dst bt (WithElse eb) \<longleftrightarrow> \<not> same \<and> cv_block G b eb \<and> cv_preds G b eb \<noteq> {}"

text \<open>The translator's frame of a kind of block, with \<open>n\<close> values on the stack around it.\<close>

definition frame_shape ::
  "'b clif_view \<Rightarrow> FuncValidator \<Rightarrow> TranslationEnvironment \<Rightarrow> 'b \<Rightarrow> nat \<Rightarrow> ControlStackFrame \<Rightarrow> vframe \<Rightarrow> bool" where
  "frame_shape G V E b n tf f = (let np = length (vf_params f); nr = length (vf_results f); dst = fr_destination tf in
     case vf_kind f of
       VBlock \<Rightarrow> (\<exists>ex. tf = Frame_Block dst np nr n ex)
     | VLoop \<Rightarrow> (\<exists>header. tf = Frame_Loop dst header np nr n \<and> cv_block G b header \<and> cv_params G b header = vf_params f)
     | VIf pending same \<Rightarrow> (\<exists>ed ex bt ce. tf = Frame_If dst ed np nr (n + np) ex bt True ce \<and> pending = (ce = None) \<and>
         (pending \<longrightarrow> else_ready G V E b f same dst bt ed) \<and> (ce = Some True \<longrightarrow> cv_preds G b dst \<noteq> {})))"

definition frame_ok ::
  "'b clif_view \<Rightarrow> FuncValidator \<Rightarrow> TranslationEnvironment \<Rightarrow> 'b \<Rightarrow> nat \<Rightarrow> ControlStackFrame \<Rightarrow> vframe \<Rightarrow> bool" where
  "frame_ok G V E b n tf f \<longleftrightarrow> frame_shape G V E b n tf f \<and> list_all canonical (vf_params f @ vf_results f) \<and>
     cv_block G b (fr_destination tf) \<and> cv_params G b (fr_destination tf) = vf_results f \<and>
     cv_untouched G b (fr_destination tf) \<and> \<not> cv_entered G b (fr_destination tf) \<and>
     (exit_is_branched_to tf \<longrightarrow> cv_preds G b (fr_destination tf) - own_branch tf \<noteq> {})"

definition frames_ok ::
  "'b clif_view \<Rightarrow> FuncValidator \<Rightarrow> TranslationEnvironment \<Rightarrow> 'b \<Rightarrow> ControlStackFrame list \<Rightarrow> vframe list \<Rightarrow> bool" where
  "frames_ok G V E b tfs vs \<longleftrightarrow> length tfs = length vs \<and> distinct (concat (map frame_blocks tfs)) \<and>
     (\<forall>i < length vs. frame_ok G V E b (length (stack_types (take i vs))) (tfs ! i) (vs ! i)) \<and>
     (\<forall>f \<in> set (butlast vs). vf_ops f \<noteq> None)"

text \<open>Frames that were pushed in unreachable code, above \<open>n\<close> values.\<close>

fun dead_frame :: "nat \<Rightarrow> ControlStackFrame \<Rightarrow> vframe \<Rightarrow> bool" where
  "dead_frame n (Frame_Block dst np nr sz ex) f \<longleftrightarrow> np = 0 \<and> n \<le> sz \<and> \<not> ex \<and> vf_kind f \<in> {VBlock, VLoop}"
| "dead_frame n (Frame_If dst ed np nr sz ex bt hr ce) f \<longleftrightarrow> np = 0 \<and> n \<le> sz \<and> \<not> ex \<and> \<not> hr \<and>
     (case vf_kind f of VIf pending same \<Rightarrow> pending = (ce = None) | _ \<Rightarrow> False)"
| "dead_frame n (Frame_Loop dst header np nr sz) f \<longleftrightarrow> False"

text \<open>The environment changes only by caching the context pointer.\<close>

definition env_of :: "TranslationEnvironment \<Rightarrow> TranslationEnvironment \<Rightarrow> bool" where
  "env_of E env \<longleftrightarrow> (\<exists>x. env = E\<lparr>te_vmctx := x\<rparr>)"

text \<open>Cached globals, functions and signatures have the types that the checker assumes of them.\<close>

definition sig_fits :: "ir_Type list \<times> ir_Type list \<Rightarrow> Signature \<Rightarrow> bool" where
  "sig_fits ty sg \<longleftrightarrow> ty = (drop 2 (sig_params sg), sig_returns sg)"

definition caches_ok :: "'b clif_ops \<Rightarrow> 'b clif_view \<Rightarrow> type_ctx \<Rightarrow> FuncTranslationState \<Rightarrow> 'b \<Rightarrow> bool" where
  "caches_ok C G T s b \<longleftrightarrow>
     (\<forall>x g. fs_globals s x = Some g \<longrightarrow> (\<exists>gv off t. g = CG_Memory gv off t \<and> tc_global T x = Some t)) \<and>
     (\<forall>x f n. fs_functions s x = Some (f, n) \<longrightarrow> cv_func G b f \<and> cv_sig G b (ext_func_signature C b f) \<and>
       (\<exists>ty. tc_func T x = Some ty \<and> sig_fits ty (signature_of C b (ext_func_signature C b f)) \<and> n = length (fst ty))) \<and>
     (\<forall>x r n. fs_signatures s x = Some (r, n) \<longrightarrow> cv_sig G b r \<and>
       (\<exists>ty. tc_type T x = Some ty \<and> sig_fits ty (signature_of C b r) \<and> n = length (fst ty)))"

text \<open>The types of globals and functions, as the environment gives them.\<close>

definition func_type_sig :: "TranslationEnvironment \<Rightarrow> TypeIndex \<Rightarrow> Signature result" where
  "func_type_sig env idx = and_then (pm_index (mod_types (te_module env)) idx)
     (\<lambda>i. and_then (expect (get_wasm_type (te_types env) i) ''called `Option::unwrap()` on a `None` value'')
     (\<lambda>ty. and_then (unwrap_func ty) (wasm_call_signature (pointer_type env))))"

definition ctx_ok :: "'b clif_ops \<Rightarrow> 'b clif_view \<Rightarrow> TranslationEnvironment \<Rightarrow> type_ctx \<Rightarrow> 'b \<Rightarrow> bool" where
  "ctx_ok C G E T b \<longleftrightarrow> pointer_type E \<in> {IR_I32, IR_I64} \<and> tc_local T = cv_var G b \<and>
     (\<forall>x t. cv_var G b x = Some t \<longrightarrow> canonical t) \<and>
     (\<forall>x t. tc_global T x = Some t \<longrightarrow> x < length (globals (te_module E)) \<and>
       value_type (content_type (globals (te_module E) ! x)) (pointer_type E) = Ok t) \<and>
     (\<forall>x ty. tc_func T x = Some ty \<longrightarrow> x < length (mod_functions (te_module E)) \<and>
       (\<exists>sg. func_type_sig E (signature (mod_functions (te_module E) ! x)) = Ok sg \<and> sig_fits ty sg)) \<and>
     (\<forall>x ty. tc_type T x = Some ty \<longrightarrow> (\<exists>sg. func_type_sig E x = Ok sg \<and> sig_fits ty sg)) \<and>
     (\<forall>x t. tc_index T x = Some t \<longrightarrow> canonical t) \<and>
     (\<forall>h t. tc_ref T h = Some t \<longrightarrow>
       (\<exists>fl. block_param_type E (WP_Ref \<lparr>wp_is_nullable = True, wp_heap_type = h\<rparr>) = Ok (t, fl)))"

definition common_inv ::
  "'b clif_ops \<Rightarrow> 'b clif_view \<Rightarrow> TranslationEnvironment \<Rightarrow> type_ctx \<Rightarrow> 'b tr_st \<Rightarrow> vframe list \<Rightarrow> bool" where
  "common_inv C G E T = (\<lambda>(s, env, b) vs. env_of E env \<and> ctx_ok C G E T b \<and> caches_ok C G T s b \<and>
     vs \<noteq> [] \<and> sig_returns (func_signature C b) = vf_results (hd vs))"

definition live_inv ::
  "'b clif_ops \<Rightarrow> 'b clif_view \<Rightarrow> FuncValidator \<Rightarrow> TranslationEnvironment \<Rightarrow> FuncTranslationState \<Rightarrow> 'b \<Rightarrow> vframe list \<Rightarrow> bool" where
  "live_inv C G V E s b vs \<longleftrightarrow> frames_ok G V E b (control_stack s) vs \<and> vf_ops (last vs) \<noteq> None \<and>
     typed_list C G b (fs_stack s) (stack_types vs) \<and> list_all canonical (stack_types vs) \<and> \<not> is_unreachable C b"

definition dead_inv ::
  "'b clif_ops \<Rightarrow> 'b clif_view \<Rightarrow> FuncValidator \<Rightarrow> TranslationEnvironment \<Rightarrow> FuncTranslationState \<Rightarrow> 'b \<Rightarrow> vframe list \<Rightarrow> bool" where
  "dead_inv C G V E s b vs \<longleftrightarrow> (\<exists>L D LV DV. control_stack s = L @ D \<and> vs = LV @ DV \<and> LV \<noteq> [] \<and>
     frames_ok G V E b L LV \<and> list_all canonical (base_types LV) \<and>
     length (base_types LV) \<le> length (fs_stack s) \<and>
     typed_list C G b (take (length (base_types LV)) (fs_stack s)) (base_types LV) \<and>
     list_all2 (dead_frame (length (base_types LV))) D DV)"

definition typing_inv ::
  "'b clif_ops \<Rightarrow> 'b clif_view \<Rightarrow> FuncValidator \<Rightarrow> TranslationEnvironment \<Rightarrow> type_ctx \<Rightarrow> 'b tr_st \<Rightarrow> vframe list \<Rightarrow> bool" where
  "typing_inv C G V E T = (\<lambda>(s, env, b) vs. common_inv C G E T (s, env, b) vs \<and>
     (if reachable s then live_inv C G V E s b vs else dead_inv C G V E s b vs))"

section \<open>Stack layout\<close>

lemma list_all2_split: "list_all2 P xs (ys @ zs) \<Longrightarrow> \<exists>us vs. xs = us @ vs \<and> list_all2 P us ys \<and> list_all2 P vs zs"
  by (auto simp: list_all2_append2)

lemma stack_types_append [simp]: "stack_types (xs @ ys) = stack_types xs @ stack_types ys"
  by (simp add: stack_types_def)

lemma stack_types_single [simp]: "stack_types [f] = segment f" "stack_types [] = []"
  by (simp_all add: stack_types_def)

lemma base_types_snoc [simp]: "base_types (vs @ [f]) = stack_types vs @ frame_dup f"
  by (simp add: base_types_def)

lemma segment_Some: "vf_ops f = Some os \<Longrightarrow> segment f = frame_dup f @ os"
  by (simp add: segment_def)

lemma frame_dup_ops [simp]: "frame_dup (f\<lparr>vf_ops := x\<rparr>) = frame_dup f"
  by (auto simp: frame_dup_def split: vkind.split bool.split)

lemma strip_suffix_Some: "strip_suffix ts os = Some r \<longleftrightarrow> os = r @ ts"
  by (auto simp: strip_suffix_def) (metis append_take_drop_id)

lemma on_top_Some: "on_top g vs = Some vs' \<longleftrightarrow> (\<exists>us f f'. vs = us @ [f] \<and> g f = Some f' \<and> vs' = us @ [f'])"
  by (cases vs rule: rev_cases) (auto simp: on_top_def)

text \<open>The last frame's operands play no part in the shape of the frames.\<close>

lemma frame_ok_ops [simp]: "frame_ok G V E b n tf (f\<lparr>vf_ops := x\<rparr>) = frame_ok G V E b n tf f"
proof -
  have "else_ready G V E b (f\<lparr>vf_ops := x\<rparr>) same dst bt ed = else_ready G V E b f same dst bt ed" for same dst bt ed
    by (cases ed) auto
  then show ?thesis by (simp add: frame_ok_def frame_shape_def Let_def split: vkind.split)
qed

lemma frames_ok_snoc:
  "frames_ok G V E b (tfs @ [tf]) (vs @ [f]) \<longleftrightarrow> length tfs = length vs \<and>
     distinct (concat (map frame_blocks (tfs @ [tf]))) \<and>
     (\<forall>i < length vs. frame_ok G V E b (length (stack_types (take i vs))) (tfs ! i) (vs ! i)) \<and>
     frame_ok G V E b (length (stack_types vs)) tf f \<and> (\<forall>f \<in> set vs. vf_ops f \<noteq> None)"
  by (auto simp: frames_ok_def nth_append less_Suc_eq)

lemma frames_ok_butlast: "frames_ok G V E b (tfs @ [tf]) (vs @ [f]) \<Longrightarrow> frames_ok G V E b tfs vs"
  unfolding frames_ok_snoc unfolding frames_ok_def by (auto dest: in_set_butlastD)

lemma frames_ok_last_ops [simp]:
  "frames_ok G V E b tfs (vs @ [f\<lparr>vf_ops := x\<rparr>]) = frames_ok G V E b tfs (vs @ [f])"
  by (cases tfs rule: rev_cases) (simp_all add: frames_ok_snoc, simp add: frames_ok_def)

lemma frame_shape_If:
  "vf_kind f = VIf pending same \<Longrightarrow> frame_shape G V E b n tf f \<longleftrightarrow>
     (\<exists>ed ex bt ce. tf = Frame_If (fr_destination tf) ed (length (vf_params f)) (length (vf_results f))
        (n + length (vf_params f)) ex bt True ce \<and> pending = (ce = None) \<and>
        (pending \<longrightarrow> else_ready G V E b f same (fr_destination tf) bt ed) \<and>
        (ce = Some True \<longrightarrow> cv_preds G b (fr_destination tf) \<noteq> {}))"
  by (simp add: frame_shape_def Let_def)

text \<open>Frames survive what keeps their blocks.\<close>

lemma frame_ok_keeps:
  assumes "frame_ok G V E b n tf f" and "keeps C G b b'"
    and "\<forall>k \<in> set (frame_blocks tf). (cv_entered G b' k \<longrightarrow> cv_entered G b k) \<and> cv_preds G b k \<subseteq> cv_preds G b' k"
  shows "frame_ok G V E b' n tf f"
proof -
  have dst: "fr_destination tf \<in> set (frame_blocks tf)" by (cases tf rule: frame_blocks.cases) auto
  have er: "else_ready G V E b' f same (fr_destination tf) bt ed"
    if "else_ready G V E b f same (fr_destination tf) bt ed" "tf = Frame_If (fr_destination tf) ed np nr sz ex bt hr None"
    for same bt ed np nr sz ex hr
  proof (cases ed)
    case (NoElse n ph)
    then show ?thesis using that assms(3) dst by auto
  next
    case (WithElse eb)
    then have "eb \<in> set (frame_blocks tf)" using that(2) by (metis frame_blocks.simps(1) list.set_intros)
    then show ?thesis using that(1) WithElse assms(3) keeps_butD(3) [OF assms(2)] by auto
  qed
  have shape: "frame_shape G V E b n tf f" and pre: "cv_preds G b (fr_destination tf) \<subseteq> cv_preds G b' (fr_destination tf)"
    using assms(1,3) dst by (auto simp: frame_ok_def)
  have "frame_shape G V E b' n tf f"
  proof (cases "vf_kind f")
    case (VIf pending same)
    from shape [unfolded frame_shape_If [OF VIf]] obtain ed ex bt ce where tf: "tf = Frame_If (fr_destination tf) ed (length (vf_params f))
        (length (vf_results f)) (n + length (vf_params f)) ex bt True ce" "pending = (ce = None)"
      "pending \<longrightarrow> else_ready G V E b f same (fr_destination tf) bt ed" "ce = Some True \<longrightarrow> cv_preds G b (fr_destination tf) \<noteq> {}"
      by (elim exE conjE) (rule that)
    have "else_ready G V E b' f same (fr_destination tf) bt ed" if "pending"
      using er [of same bt ed] tf that by blast
    moreover have "cv_preds G b' (fr_destination tf) \<noteq> {}" if "ce = Some True" using tf(4) pre that by blast
    ultimately show ?thesis unfolding frame_shape_If [OF VIf] using tf(1,2) by blast
  qed (use shape keeps_butD(3,4) [OF assms(2)] in \<open>auto simp: frame_shape_def Let_def\<close>)
  moreover have "cv_untouched G b' (fr_destination tf)"
    using assms dst keeps_butD(5) [OF assms(2)] unfolding frame_ok_def by blast
  moreover have "cv_preds G b' (fr_destination tf) - own_branch tf \<noteq> {}" if "exit_is_branched_to tf"
    using assms(1) pre that unfolding frame_ok_def by blast
  ultimately show ?thesis
    using assms(1,3) dst keeps_butD(3,4) [OF assms(2)] unfolding frame_ok_def by simp blast
qed

lemma frames_ok_keeps:
  assumes "frames_ok G V E b tfs vs" and "keeps C G b b'"
    and "\<forall>tf \<in> set tfs. \<forall>k \<in> set (frame_blocks tf).
      (cv_entered G b' k \<longrightarrow> cv_entered G b k) \<and> cv_preds G b k \<subseteq> cv_preds G b' k"
  shows "frames_ok G V E b' tfs vs"
  using assms(1,3) frame_ok_keeps [OF _ assms(2)] unfolding frames_ok_def by (metis nth_mem)

lemma frames_ok_straight:
  assumes "frames_ok G V E b tfs vs" and "straight C G b b'"
  shows "frames_ok G V E b' tfs vs"
  by (rule frames_ok_keeps [OF assms(1) straightD(1) [OF assms(2)]]) (simp add: straightD [OF assms(2)])

lemma frames_ok_blocks:
  assumes "frames_ok G V E b tfs vs" and "tf \<in> set tfs" and "k \<in> set (frame_blocks tf)"
  shows "cv_block G b k"
proof -
  from assms(1,2) obtain i where i: "i < length vs" "tfs ! i = tf" "length tfs = length vs"
    "frame_ok G V E b (length (stack_types (take i vs))) tf (vs ! i)"
    unfolding frames_ok_def by (metis in_set_conv_nth)
  show ?thesis
    using i(4) assms(3)
    by (cases tf rule: frame_blocks.cases) (auto simp: frame_ok_def frame_shape_def Let_def split: vkind.splits)
qed

lemma env_of_types:
  assumes "env_of E env"
  shows "pointer_type env = pointer_type E" "block_param_type env ty = block_param_type E ty"
    "te_module env = te_module E" "te_types env = te_types E"
proof -
  from assms obtain x where e: "env = E\<lparr>te_vmctx := x\<rparr>" by (auto simp: env_of_def)
  show p: "pointer_type env = pointer_type E" and "te_module env = te_module E" "te_types env = te_types E"
    by (simp_all add: e pointer_type_def)
  have "env_reference_type env = env_reference_type E" by (rule ext) (simp add: env_reference_type_def p)
  moreover have "env_convert_heap_type env h = env_convert_heap_type E h" for h
    by (simp add: e env_convert_heap_type_def)
  ultimately show "block_param_type env ty = block_param_type E ty" by (cases ty) simp_all
qed

lemma caches_keeps:
  assumes "caches_ok C G T s b" and "keeps C G b b'"
    and "fs_globals s' = fs_globals s" "fs_functions s' = fs_functions s" "fs_signatures s' = fs_signatures s"
  shows "caches_ok C G T s' b'"
  using assms(1) keeps_butD(9-12) [OF assms(2)] unfolding caches_ok_def assms(3-5) by metis

lemma ctx_keeps: "ctx_ok C G E T b \<Longrightarrow> keeps C G b b' \<Longrightarrow> ctx_ok C G E T b'"
  by (simp add: ctx_ok_def keeps_butD(7))

lemma common_keeps:
  assumes "common_inv C G E T (s, env, b) vs" and "keeps C G b b'" and "env_of E env'" and "caches_ok C G T s' b'"
    and "vs' \<noteq> []" and "vf_results (hd vs') = vf_results (hd vs)"
  shows "common_inv C G E T (s', env', b') vs'"
  using assms ctx_keeps [OF _ assms(2)] keeps_butD(8) [OF assms(2)] by (simp add: common_inv_def)

lemma hd_results: "vf_results f' = vf_results f \<Longrightarrow> vf_results (hd (us @ [f'])) = vf_results (hd (us @ [f]))"
  by (cases us) auto

section \<open>Straight-line steps\<close>

text \<open>
  A reachable operator that takes values of types \<open>ts\<close> and gives values of types \<open>us\<close>: the values are on
  the stack, and giving the results keeps the invariant, also when the code after it is unreachable.
\<close>

lemma straight_step:
  assumes inv: "typing_inv C G V E T (s, env, b) vs" and reach: "reachable s"
    and chk: "on_top (apply_type ts us) vs = Some vs'"
  obtains xs ws where "fs_stack s = xs @ ws" "typed_list C G b ws ts" "list_all canonical ts" "\<not> is_unreachable C b"
    "\<And>s' env' b' zs. straight C G b b' \<Longrightarrow> env_of E env' \<Longrightarrow> caches_ok C G T s' b' \<Longrightarrow>
       control_stack s' = control_stack s \<Longrightarrow> reachable s' \<Longrightarrow> fs_stack s' = xs @ zs \<Longrightarrow> typed_list C G b' zs us \<Longrightarrow>
       list_all canonical us \<Longrightarrow> typing_inv C G V E T (s', env', b') vs'"
    "\<And>s' env' b' zs. straight C G b b' \<Longrightarrow> env_of E env' \<Longrightarrow> caches_ok C G T s' b' \<Longrightarrow>
       control_stack s' = control_stack s \<Longrightarrow> \<not> reachable s' \<Longrightarrow> fs_stack s' = xs @ zs \<Longrightarrow> typing_inv C G V E T (s', env', b') vs'"
proof -
  from inv reach have com: "common_inv C G E T (s, env, b) vs" and live: "live_inv C G V E s b vs"
    by (simp_all add: typing_inv_def)
  from chk obtain us0 f f' where vs: "vs = us0 @ [f]" "apply_type ts us f = Some f'" "vs' = us0 @ [f']"
    by (auto simp: on_top_Some)
  from live vs(1) obtain os where os: "vf_ops f = Some os" by (auto simp: live_inv_def)
  with vs(2) obtain r where r: "os = r @ ts" "f' = f\<lparr>vf_ops := Some (r @ us)\<rparr>"
    by (auto simp: apply_type_def strip_suffix_Some)
  let ?B = "stack_types us0 @ frame_dup f"
  from live vs(1) os r(1) have ty: "typed_list C G b (fs_stack s) ((?B @ r) @ ts)" "list_all canonical ((?B @ r) @ ts)"
    by (auto simp: live_inv_def segment_Some)
  from list_all2_split [OF ty(1)] obtain xs ws where st: "fs_stack s = xs @ ws" "typed_list C G b xs (?B @ r)"
    "typed_list C G b ws ts" by blast
  have frames: "frames_ok G V E b' (control_stack s) (us0 @ [f])" if "straight C G b b'" for b'
    using live vs(1) frames_ok_straight [OF _ that] by (simp add: live_inv_def)
  have com': "common_inv C G E T (s', env', b') vs'" if "straight C G b b'" "env_of E env'" "caches_ok C G T s' b'" for s' env' b'
    by (rule common_keeps [OF com straightD(1) [OF that(1)] that(2,3)]) (use hd_results [of f' f us0] in \<open>simp_all add: vs r\<close>)
  have 1: "typing_inv C G V E T (s', env', b') vs'"
    if "straight C G b b'" "env_of E env'" "caches_ok C G T s' b'" "control_stack s' = control_stack s" "reachable s'"
      "fs_stack s' = xs @ zs" "typed_list C G b' zs us" "list_all canonical us" for s' env' b' zs
  proof -
    have "typed_list C G b' (xs @ zs) ((?B @ r) @ us)"
      using keeps_butD(2) [OF straightD(1) [OF that(1)] st(2)] that(7) by (rule list_all2_appendI)
    then show ?thesis
      using com' that frames live ty(2) straightD(5) [OF that(1)]
      by (simp add: typing_inv_def live_inv_def vs(3) r(2) segment_Some)
  qed
  have 2: "typing_inv C G V E T (s', env', b') vs'"
    if "straight C G b b'" "env_of E env'" "caches_ok C G T s' b'" "control_stack s' = control_stack s" "\<not> reachable s'"
      "fs_stack s' = xs @ zs" for s' env' b' zs
  proof -
    obtain ys zs' where ys: "xs = ys @ zs'" "typed_list C G b ys ?B" using list_all2_split [OF st(2)] by blast
    have "length ?B = length ys" using list_all2_lengthD [OF ys(2)] by simp
    then have "dead_inv C G V E s' b' vs'"
      unfolding dead_inv_def
      using that frames ty(2) keeps_butD(2) [OF straightD(1) [OF that(1)] ys(2)]
      by (intro exI [of _ "control_stack s"] exI [of _ "[]"] exI [of _ vs'] exI [of _ "[]"]) (simp add: vs(3) r(2) ys(1))
    with com' that show ?thesis by (simp add: typing_inv_def)
  qed
  show thesis
    by (rule that [OF st(1,3) _ _ 1 2]) (use ty(2) live in \<open>simp_all add: live_inv_def\<close>)
qed

end
