(* ===== verification/Operator_Typing.thy ===== *)
theory Operator_Typing
  imports Stack_Typing
begin

text \<open>
  The operators without control flow keep the typing invariant: the translator finds the operands on
  its stack and pushes results of the types that the checker expects.
\<close>

section \<open>Single instructions\<close>

lemma typed_list_1: "typed_list C G b ws [t] \<longleftrightarrow> (\<exists>v. ws = [v] \<and> typed C G b v t)"
  by (auto simp: list_all2_Cons2)

lemma typed_list_2: "typed_list C G b ws [t, u] \<longleftrightarrow> (\<exists>v w. ws = [v, w] \<and> typed C G b v t \<and> typed C G b w u)"
  by (auto simp: list_all2_Cons2)

lemma typed_list_3:
  "typed_list C G b ws [t, u, x] \<longleftrightarrow> (\<exists>v w y. ws = [v, w, y] \<and> typed C G b v t \<and> typed C G b w u \<and> typed C G b y x)"
  by (auto simp: list_all2_Cons2)

lemma ins_typed:
  assumes "builder_contract C G" and "ins C i b = (v, b')" and "\<forall>x \<in> set (value_args i). cv_value G b x"
    and "result_type (value_type_of C b) i = Some t"
  shows "straight C G b b'" "typed C G b' v t"
  using contract_ins [OF assms(1,2)] assms(3,4) by auto

lemma int_ty_facts [simp]: "is_int_ty (int_ty w)" "canonical (int_ty w)" "is_float_ty (float_ty w)" "canonical (float_ty w)"
  "\<not> is_float_ty (int_ty w)" "ty_bits (int_ty w) = ty_bits (float_ty w)"
  by (cases w; simp add: is_int_ty_def canonical_def is_float_ty_def)+

lemma op_classes [simp]: "\<not> float_op (int_binop bop)" "float_op (float_binop fop)" "\<not> float_un (int_unop uop)" "float_un (float_unop gop)"
proof -
  show "\<not> float_op (int_binop bop)" by (cases bop rule: int_binop.cases) (simp_all add: float_op_def)
  show "float_op (float_binop fop)" by (cases fop) (simp_all add: float_op_def)
  show "\<not> float_un (int_unop uop)" by (cases uop) (simp_all add: float_un_def)
  show "float_un (float_unop gop)" by (cases gop) (simp_all add: float_un_def)
qed

lemma type_classes [simp]: "is_int_ty IR_I32" "is_int_ty IR_I64" "is_int_ty IR_I8" "is_int_ty IR_I16"
  "is_float_ty IR_F32" "is_float_ty IR_F64" "canonical IR_I32" "canonical IR_I64" "canonical IR_F32" "canonical IR_F64"
  by (simp_all add: is_int_ty_def is_float_ty_def canonical_def)

text \<open>Arms of the match that take one or two operands and give one result.\<close>

lemma translate_unary_run:
  assumes C: "builder_contract C G" and "fs_stack s = xs @ [v]" and "typed C G b v t"
    and "\<forall>x. value_args (f x) = [x]" and "\<forall>ty. ty v = t \<longrightarrow> result_type ty (f v) = Some u"
  shows "\<exists>w b'. translate_unary C f (s, env, b) = Ok ((), s\<lparr>fs_stack := xs @ [w]\<rparr>, env, b') \<and>
    straight C G b b' \<and> typed C G b' w u"
proof -
  obtain w b' where w: "ins C (f v) b = (w, b')" by fastforce
  have "straight C G b b'" "typed C G b' w u"
    using ins_typed [OF C w] assms(3-5) by (auto simp: typed_def)
  moreover have "translate_unary C f (s, env, b) = Ok ((), s\<lparr>fs_stack := xs @ [w]\<rparr>, env, b')"
    using pop1_append [OF assms(2)] w by (simp add: translate_unary_def tr_defs)
  ultimately show ?thesis by blast
qed

lemma translate_binary_run:
  assumes C: "builder_contract C G" and "fs_stack s = xs @ [v, w]" and "typed C G b v t" "typed C G b w t"
    and "if float_op bop then is_float_ty t else is_int_ty t"
  shows "\<exists>z b'. translate_binary C bop (s, env, b) = Ok ((), s\<lparr>fs_stack := xs @ [z]\<rparr>, env, b') \<and>
    straight C G b b' \<and> typed C G b' z t"
proof -
  obtain z b' where z: "ins C (Binary bop v w) b = (z, b')" by fastforce
  have "straight C G b b'" "typed C G b' z t"
    using ins_typed [OF C z, of t] assms(3-5) by (auto simp: typed_def value_args_def result_type_def)
  moreover have "translate_binary C bop (s, env, b) = Ok ((), s\<lparr>fs_stack := xs @ [z]\<rparr>, env, b')"
    using pop2_append [OF assms(2)] z by (simp add: translate_binary_def tr_defs)
  ultimately show ?thesis by blast
qed

lemma extend_bool_run:
  assumes C: "builder_contract C G" and "ins C i b = (v, b1)" and "\<forall>x \<in> set (value_args i). cv_value G b x"
    and "result_type (value_type_of C b) i = Some IR_I8"
  shows "\<exists>z b'. ins C (Convert Uextend IR_I32 v) b1 = (z, b') \<and> straight C G b b' \<and> typed C G b' z IR_I32"
proof -
  obtain z b' where z: "ins C (Convert Uextend IR_I32 v) b1 = (z, b')" by fastforce
  note 1 = ins_typed [OF assms]
  have "straight C G b1 b'" "typed C G b' z IR_I32"
    using ins_typed [OF C z, of IR_I32] 1(2) by (auto simp: typed_def value_args_def result_type_def)
  with 1(1) z show ?thesis by (blast intro: straight_trans)
qed

lemma translate_compare_run:
  assumes C: "builder_contract C G" and "fs_stack s = xs @ [v, w]" and "typed C G b v t" "typed C G b w t"
    and "value_args (f v w) = [v, w]" and "\<forall>ty. ty v = t \<and> ty w = t \<longrightarrow> result_type ty (f v w) = Some IR_I8"
  shows "\<exists>z b'. translate_compare C f (s, env, b) = Ok ((), s\<lparr>fs_stack := xs @ [z]\<rparr>, env, b') \<and>
    straight C G b b' \<and> typed C G b' z IR_I32"
proof -
  obtain c b1 where c: "ins C (f v w) b = (c, b1)" by fastforce
  from extend_bool_run [OF C c] assms(3-6) obtain z b' where
    z: "ins C (Convert Uextend IR_I32 c) b1 = (z, b')" "straight C G b b'" "typed C G b' z IR_I32"
    by (auto simp: typed_def)
  moreover have "translate_compare C f (s, env, b) = Ok ((), s\<lparr>fs_stack := xs @ [z]\<rparr>, env, b')"
    using pop2_append [OF assms(2)] c z(1) by (simp add: translate_compare_def tr_defs)
  ultimately show ?thesis by blast
qed

lemma translate_eqz_run:
  assumes C: "builder_contract C G" and "fs_stack s = xs @ [v]" and "typed C G b v t" "is_int_ty t"
  shows "\<exists>z b'. translate_eqz C (s, env, b) = Ok ((), s\<lparr>fs_stack := xs @ [z]\<rparr>, env, b') \<and>
    straight C G b b' \<and> typed C G b' z IR_I32"
proof -
  obtain c b1 where c: "ins C (Icmp_imm CC_Equal v 0) b = (c, b1)" by fastforce
  from extend_bool_run [OF C c] assms(3,4) obtain z b' where
    z: "ins C (Convert Uextend IR_I32 c) b1 = (z, b')" "straight C G b b'" "typed C G b' z IR_I32"
    by (auto simp: typed_def value_args_def result_type_def)
  moreover have "translate_eqz C (s, env, b) = Ok ((), s\<lparr>fs_stack := xs @ [z]\<rparr>, env, b')"
    using pop1_append [OF assms(2)] c z(1) by (simp add: translate_eqz_def tr_defs)
  ultimately show ?thesis by blast
qed

lemma translate_const_run:
  assumes C: "builder_contract C G" and "value_args i = []" and "\<forall>ty. result_type ty i = Some t"
  shows "\<exists>z b'. tr_then (tr_ins C i) tr_push1 (s, env, b) = Ok ((), s\<lparr>fs_stack := fs_stack s @ [z]\<rparr>, env, b') \<and>
    straight C G b b' \<and> typed C G b' z t"
proof -
  obtain z b' where z: "ins C i b = (z, b')" by fastforce
  have "tr_then (tr_ins C i) tr_push1 (s, env, b) = Ok ((), s\<lparr>fs_stack := fs_stack s @ [z]\<rparr>, env, b')"
    using z by (simp add: tr_defs)
  with ins_typed [OF C z] assms(2,3) show ?thesis by auto
qed

lemma cvt_inst_typed: "value_args (cvt_inst cop v) = [v]"
  "ty v = fst (cvt_type cop) \<Longrightarrow> result_type ty (cvt_inst cop v) = Some (snd (cvt_type cop))"
  by (cases "(cop, v)" rule: cvt_inst.cases; auto simp: value_args_def result_type_def)+

section \<open>Numeric operators\<close>

lemma translate_extend_run:
  assumes C: "builder_contract C G" and "fs_stack s = xs @ [v]" and "typed C G b v (snd (extend_types eop))"
  shows "\<exists>z b'. translate_extend C (extend_types eop) (s, env, b) = Ok ((), s\<lparr>fs_stack := xs @ [z]\<rparr>, env, b') \<and>
    straight C G b b' \<and> typed C G b' z (snd (extend_types eop))"
proof -
  obtain n w where nw: "extend_types eop = (n, w)" by fastforce
  then have fits: "convert_fits Ireduce w n" "convert_fits Sextend n w" by (cases eop; auto)+
  from translate_unary_run [OF C assms(2), of b w "Convert Ireduce n" n env] assms(3) nw fits obtain y b1 where
    1: "translate_unary C (Convert Ireduce n) (s, env, b) = Ok ((), s\<lparr>fs_stack := xs @ [y]\<rparr>, env, b1)"
      "straight C G b b1" "typed C G b1 y n"
    by (auto simp: value_args_def result_type_def simp del: convert_fits.simps)
  from translate_unary_run [OF C, of "s\<lparr>fs_stack := xs @ [y]\<rparr>" xs y b1 n "Convert Sextend w" w env] 1(3) fits obtain z b' where
    2: "translate_unary C (Convert Sextend w) (s\<lparr>fs_stack := xs @ [y]\<rparr>, env, b1) = Ok ((), s\<lparr>fs_stack := xs @ [z]\<rparr>, env, b')"
      "straight C G b1 b'" "typed C G b' z w"
    by (auto simp: value_args_def result_type_def simp del: convert_fits.simps)
  have "translate_extend C (extend_types eop) (s, env, b) = Ok ((), s\<lparr>fs_stack := xs @ [z]\<rparr>, env, b')"
    using 1(1) 2(1) by (simp add: translate_extend_def nw tr_then_def)
  with 1(2) 2(2,3) nw show ?thesis by (auto intro: straight_trans)
qed

lemma translate_num_run:
  assumes C: "builder_contract C G" and "num_type n = (ts, us)" and "fs_stack s = xs @ ws" and "typed_list C G b ws ts"
  shows "\<exists>z b'. translate_num C n (s, env, b) = Ok ((), s\<lparr>fs_stack := xs @ [z]\<rparr>, env, b') \<and>
    straight C G b b' \<and> (\<exists>u. us = [u] \<and> typed C G b' z u \<and> canonical u)"
proof -
  note rt = result_type_def value_args_def typed_list_1 typed_list_2
  show ?thesis
  proof (cases n)
    case (I32Const x)
    with assms translate_const_run [OF C, of "Iconst IR_I32 x" IR_I32 s env b] show ?thesis
      by (auto simp: translate_num_def rt)
  next
    case (I64Const x)
    with assms translate_const_run [OF C, of "Iconst IR_I64 x" IR_I64 s env b] show ?thesis
      by (auto simp: translate_num_def rt)
  next
    case (N_F32Const x)
    with assms translate_const_run [OF C, of "F32const x" IR_F32 s env b] show ?thesis
      by (auto simp: translate_num_def rt)
  next
    case (N_F64Const x)
    with assms translate_const_run [OF C, of "F64const x" IR_F64 s env b] show ?thesis
      by (auto simp: translate_num_def rt)
  next
    case (IBinop w bop)
    with assms obtain v1 v2 where "ws = [v1, v2]" "typed C G b v1 (int_ty w)" "typed C G b v2 (int_ty w)" by (auto simp: typed_list_2)
    with IBinop assms translate_binary_run [OF C, of s xs v1 v2 b "int_ty w" "int_binop bop" env] show ?thesis
      by (auto simp: translate_num_def)
  next
    case (FBinop w bop)
    with assms obtain v1 v2 where "ws = [v1, v2]" "typed C G b v1 (float_ty w)" "typed C G b v2 (float_ty w)" by (auto simp: typed_list_2)
    with FBinop assms translate_binary_run [OF C, of s xs v1 v2 b "float_ty w" "float_binop bop" env] show ?thesis
      by (auto simp: translate_num_def)
  next
    case (IUnop w uop)
    with assms obtain v where "ws = [v]" "typed C G b v (int_ty w)" by (auto simp: typed_list_1)
    with IUnop assms translate_unary_run [OF C, of s xs v b "int_ty w" "Unary (int_unop uop)" "int_ty w" env] show ?thesis
      by (auto simp: translate_num_def rt)
  next
    case (FUnop w uop)
    with assms obtain v where "ws = [v]" "typed C G b v (float_ty w)" by (auto simp: typed_list_1)
    with FUnop assms translate_unary_run [OF C, of s xs v b "float_ty w" "Unary (float_unop uop)" "float_ty w" env] show ?thesis
      by (auto simp: translate_num_def rt)
  next
    case (IEqz w)
    with assms obtain v where "ws = [v]" "typed C G b v (int_ty w)" by (auto simp: typed_list_1)
    with IEqz assms translate_eqz_run [OF C, of s xs v b "int_ty w" env] show ?thesis by (auto simp: translate_num_def)
  next
    case (IRelop w rop)
    with assms obtain v1 v2 where "ws = [v1, v2]" "typed C G b v1 (int_ty w)" "typed C G b v2 (int_ty w)" by (auto simp: typed_list_2)
    with IRelop assms translate_compare_run [OF C, of s xs v1 v2 b "int_ty w" "Icmp (int_relop rop)" env] show ?thesis
      by (auto simp: translate_num_def rt)
  next
    case (FRelop w rop)
    with assms obtain v1 v2 where "ws = [v1, v2]" "typed C G b v1 (float_ty w)" "typed C G b v2 (float_ty w)" by (auto simp: typed_list_2)
    with FRelop assms translate_compare_run [OF C, of s xs v1 v2 b "float_ty w" "Fcmp (float_relop rop)" env] show ?thesis
      by (auto simp: translate_num_def rt)
  next
    case (Cvt cop)
    have "canonical (snd (cvt_type cop))" by (cases cop) auto
    moreover from Cvt assms obtain v where "ws = [v]" "typed C G b v (fst (cvt_type cop))" by (auto simp: typed_list_1)
    ultimately show ?thesis
      using Cvt assms translate_unary_run [OF C, of s xs v b "fst (cvt_type cop)" "cvt_inst cop" "snd (cvt_type cop)" env]
      by (auto simp: translate_num_def cvt_inst_typed)
  next
    case (Extend eop)
    have "canonical (snd (extend_types eop))" by (cases eop) auto
    moreover from Extend assms obtain v where "ws = [v]" "typed C G b v (snd (extend_types eop))" by (auto simp: typed_list_1)
    ultimately show ?thesis
      using Extend assms translate_extend_run [OF C, of s xs v b eop env] by (auto simp: translate_num_def)
  qed
qed

section \<open>Arms without control flow\<close>

text \<open>The step succeeds and keeps the invariant; one that uses module entities may fail instead.\<close>

definition good ::
  "'b clif_ops \<Rightarrow> 'b clif_view \<Rightarrow> FuncValidator \<Rightarrow> TranslationEnvironment \<Rightarrow> type_ctx \<Rightarrow> vframe list \<Rightarrow> (unit \<times> 'b tr_st) result \<Rightarrow> bool" where
  "good C G V E T vs r \<longleftrightarrow> (\<exists>st. r = Ok ((), st) \<and> typing_inv C G V E T st vs)"

definition fair ::
  "'b clif_ops \<Rightarrow> 'b clif_view \<Rightarrow> FuncValidator \<Rightarrow> TranslationEnvironment \<Rightarrow> type_ctx \<Rightarrow> vframe list \<Rightarrow> (unit \<times> 'b tr_st) result \<Rightarrow> bool" where
  "fair C G V E T vs r \<longleftrightarrow> (\<forall>u st. r = Ok (u, st) \<longrightarrow> typing_inv C G V E T st vs)"

lemma inv_parts:
  assumes "typing_inv C G V E T (s, env, b) vs"
  shows "env_of E env" "ctx_ok C G E T b" "caches_ok C G T s b" "vs \<noteq> []"
    "reachable s \<Longrightarrow> \<exists>os. vf_ops (last vs) = Some os" "reachable s \<Longrightarrow> \<not> is_unreachable C b"
  using assms by (auto simp: typing_inv_def common_inv_def live_inv_def)

text \<open>Steps that only replace operands.\<close>

lemma replace_good:
  assumes inv: "typing_inv C G V E T (s, env, b) vs" and "reachable s" and "on_top (apply_type ts us) vs = Some vs'"
    and run: "\<And>xs ws. fs_stack s = xs @ ws \<Longrightarrow> typed_list C G b ws ts \<Longrightarrow> list_all canonical ts \<Longrightarrow>
      \<exists>zs b'. step (s, env, b) = Ok ((), s\<lparr>fs_stack := xs @ zs\<rparr>, env, b') \<and> straight C G b b' \<and> typed_list C G b' zs us \<and>
        list_all canonical us"
  shows "good C G V E T vs' (step (s, env, b))"
proof -
  from straight_step [OF assms(1-3)] obtain xs ws where st: "fs_stack s = xs @ ws" "typed_list C G b ws ts" "list_all canonical ts"
    and next_inv: "\<And>s' env' b' zs. straight C G b b' \<Longrightarrow> env_of E env' \<Longrightarrow> caches_ok C G T s' b' \<Longrightarrow>
       control_stack s' = control_stack s \<Longrightarrow> reachable s' \<Longrightarrow> fs_stack s' = xs @ zs \<Longrightarrow> typed_list C G b' zs us \<Longrightarrow>
       list_all canonical us \<Longrightarrow> typing_inv C G V E T (s', env', b') vs'"
    by metis
  from run [OF st] obtain zs b' where r: "step (s, env, b) = Ok ((), s\<lparr>fs_stack := xs @ zs\<rparr>, env, b')"
    "straight C G b b'" "typed_list C G b' zs us" "list_all canonical us" by blast
  have "caches_ok C G T (s\<lparr>fs_stack := xs @ zs\<rparr>) b'"
    by (rule caches_keeps [OF inv_parts(3) [OF inv] straightD(1) [OF r(2)]]) simp_all
  from next_inv [OF r(2) inv_parts(1) [OF inv] this _ _ _ r(3,4)] assms(2) r(1) show ?thesis by (simp add: good_def)
qed

lemma num_good:
  assumes "builder_contract C G" and "typing_inv C G V E T (s, env, b) vs" and "reachable s"
    and "on_top (apply_type (fst (num_type n)) (snd (num_type n))) vs = Some vs'"
  shows "good C G V E T vs' (translate_num C n (s, env, b))"
proof (rule replace_good [OF assms(2-4)])
  fix xs ws assume "fs_stack s = xs @ ws" "typed_list C G b ws (fst (num_type n))"
  from translate_num_run [OF assms(1) prod.collapse [symmetric] this, of env] obtain z b' u where
    "translate_num C n (s, env, b) = Ok ((), s\<lparr>fs_stack := xs @ [z]\<rparr>, env, b')" "straight C G b b'"
    "snd (num_type n) = [u]" "typed C G b' z u" "canonical u" by blast
  then show "\<exists>zs b'. translate_num C n (s, env, b) = Ok ((), s\<lparr>fs_stack := xs @ zs\<rparr>, env, b') \<and> straight C G b b' \<and>
      typed_list C G b' zs (snd (num_type n)) \<and> list_all canonical (snd (num_type n))"
    by (intro exI [of _ "[z]"] exI [of _ b']) simp
qed

lemma canonical_vector_run:
  assumes "typed C G b v t" and "canonical t"
  shows "canonical_vector C v (s, env, b) = Ok (v, s, env, b)"
  using assms by (auto simp: canonical_vector_def optionally_bitcast_vector_def tr_defs typed_def canonical_def)

lemma local_get_good:
  assumes C: "builder_contract C G" and inv: "typing_inv C G V E T (s, env, b) vs" and "reachable s"
    and "tc_local T x = Some t" and "on_top (apply_type [] [t]) vs = Some vs'"
  shows "good C G V E T vs' (translate_local_get C x (s, env, b))"
proof (rule replace_good [OF assms(2,3,5)])
  fix xs ws assume st: "fs_stack s = xs @ ws" "typed_list C G b ws []"
  obtain v b1 where v: "use_var C x b = (v, b1)" by fastforce
  let ?b' = "set_val_label C v x b1"
  have t: "cv_var G b x = Some t" "canonical t" using assms(4) inv_parts(2) [OF inv] by (auto simp: ctx_ok_def)
  note 1 = contract_use_var [OF C v] and 2 = contract_straight(2) [OF C, of b1 v x]
  have "typed C G ?b' v t" using keeps_butD(1) [OF straightD(1) [OF 2] 1(2) [OF t(1)]] .
  with straight_trans [OF 1(1) 2] st v t(2) show "\<exists>zs b'. translate_local_get C x (s, env, b) =
      Ok ((), s\<lparr>fs_stack := xs @ zs\<rparr>, env, b') \<and> straight C G b b' \<and> typed_list C G b' zs [t] \<and> list_all canonical [t]"
    by (intro exI [of _ "[v]"] exI [of _ ?b']) (simp add: translate_local_get_def tr_defs)
qed

lemma define_local_run:
  assumes C: "builder_contract C G" and "typed C G b v t" and "canonical t"
  shows "\<exists>b'. define_local C x v (s, env, b) = Ok ((), s, env, b') \<and> straight C G b b'"
  using canonical_vector_run [OF assms(2,3)] straight_trans [OF contract_straight(1,2) [OF C]]
  by (auto simp: define_local_def tr_defs)

lemma local_set_good:
  assumes C: "builder_contract C G" and "typing_inv C G V E T (s, env, b) vs" and "reachable s"
    and "on_top (apply_type [t] []) vs = Some vs'"
  shows "good C G V E T vs' (tr_then tr_pop1 (define_local C x) (s, env, b))"
proof (rule replace_good [OF assms(2-4)])
  fix xs ws assume st: "fs_stack s = xs @ ws" "typed_list C G b ws [t]" "list_all canonical [t]"
  then obtain v where v: "ws = [v]" "typed C G b v t" "canonical t" by (auto simp: typed_list_1)
  from define_local_run [OF C v(2,3)] st(1) v(1) pop1_append [of s xs v]
  show "\<exists>zs b'. tr_then tr_pop1 (define_local C x) (s, env, b) = Ok ((), s\<lparr>fs_stack := xs @ zs\<rparr>, env, b') \<and>
      straight C G b b' \<and> typed_list C G b' zs [] \<and> list_all canonical []"
    by (intro exI [of _ "[]"]) (simp add: tr_defs)
qed

lemma local_tee_good:
  assumes C: "builder_contract C G" and "typing_inv C G V E T (s, env, b) vs" and "reachable s"
    and "on_top (apply_type [t] [t]) vs = Some vs'"
  shows "good C G V E T vs' (tr_then (tr_read peek1) (define_local C x) (s, env, b))"
proof (rule replace_good [OF assms(2-4)])
  fix xs ws assume st: "fs_stack s = xs @ ws" "typed_list C G b ws [t]" "list_all canonical [t]"
  then obtain v where v: "ws = [v]" "typed C G b v t" "canonical t" by (auto simp: typed_list_1)
  from define_local_run [OF C v(2,3)] obtain b' where b': "define_local C x v (s, env, b) = Ok ((), s, env, b')" "straight C G b b'"
    by blast
  with st(1) v peek1_append [of s xs v] keeps_butD(1) [OF straightD(1) [OF b'(2)] v(2)]
  show "\<exists>zs b'. tr_then (tr_read peek1) (define_local C x) (s, env, b) = Ok ((), s\<lparr>fs_stack := xs @ zs\<rparr>, env, b') \<and>
      straight C G b b' \<and> typed_list C G b' zs [t] \<and> list_all canonical [t]"
    by (intro exI [of _ "[v]"] exI [of _ b']) (simp add: tr_defs)
qed

lemma nothing_good:
  assumes "typing_inv C G V E T (s, env, b) vs" and "reachable s" and "on_top (apply_type [] []) vs = Some vs'"
    and "straight C G b b'"
  shows "good C G V E T vs' (Ok ((), s, env, b'))"
proof -
  have "good C G V E T vs' ((\<lambda>_. Ok ((), s, env, b')) (s, env, b))"
    by (rule replace_good [OF assms(1-3)]) (use assms(4) in \<open>auto intro!: exI [of _ "[]"]\<close>)
  then show ?thesis by simp
qed

lemma check_drop_type:
  "on_top check_drop vs = Some vs' \<Longrightarrow> vf_ops (last vs) = Some os \<Longrightarrow> \<exists>t. on_top (apply_type [t] []) vs = Some vs'"
  by (cases os rule: rev_cases) (auto simp: on_top_Some check_drop_def apply_type_def strip_suffix_Some)

lemma check_select_type:
  "on_top check_select vs = Some vs' \<Longrightarrow> vf_ops (last vs) = Some os \<Longrightarrow>
     \<exists>t. on_top (apply_type [t, t, IR_I32] [t]) vs = Some vs'"
  by (auto simp: on_top_Some check_select_def Let_def split: if_splits)

lemma check_ref_type:
  "on_top (check_ref g) vs = Some vs' \<Longrightarrow> vf_ops (last vs) = Some os \<Longrightarrow>
     \<exists>t r. os = r @ [t] \<and> is_int_ty t \<and> on_top (apply_type (fst (g t)) (snd (g t))) vs = Some vs'"
  by (cases os rule: rev_cases) (auto simp: on_top_Some check_ref_def split: if_splits prod.splits)

lemma drop_good:
  assumes "typing_inv C G V E T (s, env, b) vs" and "reachable s" and "on_top check_drop vs = Some vs'"
  shows "good C G V E T vs' (tr_then tr_pop1 (\<lambda>_. tr_ok ()) (s, env, b))"
proof -
  from check_drop_type [OF assms(3)] inv_parts(5) [OF assms(1,2)] obtain t where "on_top (apply_type [t] []) vs = Some vs'" by blast
  then show ?thesis
  proof (rule replace_good [OF assms(1,2)])
    fix xs ws assume st: "fs_stack s = xs @ ws" "typed_list C G b ws [t]"
    then obtain v where v: "ws = [v]" by (auto simp: typed_list_1)
    with st pop1_append [of s xs v] show "\<exists>zs b'. tr_then tr_pop1 (\<lambda>_. tr_ok ()) (s, env, b) =
        Ok ((), s\<lparr>fs_stack := xs @ zs\<rparr>, env, b') \<and> straight C G b b' \<and> typed_list C G b' zs [] \<and> list_all canonical []"
      by (intro exI [of _ "[]"] exI [of _ b]) (simp add: tr_defs)
  qed
qed

lemma select_good:
  assumes C: "builder_contract C G" and "typing_inv C G V E T (s, env, b) vs" and "reachable s"
    and "on_top check_select vs = Some vs'"
  shows "good C G V E T vs' (translate_select C (s, env, b))"
proof -
  from check_select_type [OF assms(4)] inv_parts(5) [OF assms(2,3)] obtain t where
    "on_top (apply_type [t, t, IR_I32] [t]) vs = Some vs'" by blast
  then show ?thesis
  proof (rule replace_good [OF assms(2,3)])
    fix xs ws assume st: "fs_stack s = xs @ ws" "typed_list C G b ws [t, t, IR_I32]" "list_all canonical [t, t, IR_I32]"
    then obtain x y c where v: "ws = [x, y, c]" "typed C G b x t" "typed C G b y t" "typed C G b c IR_I32" "canonical t"
      by (auto simp: typed_list_3)
    obtain z b' where z: "ins C (Select c x y) b = (z, b')" by fastforce
    have "straight C G b b'" "typed C G b' z t"
      using ins_typed [OF C z, of t] v by (auto simp: typed_def value_args_def result_type_def)
    with st(1) v z pop3_append [of s xs x y c] canonical_vector_run [OF v(2,5)] canonical_vector_run [OF v(3,5)]
    show "\<exists>zs b'. translate_select C (s, env, b) = Ok ((), s\<lparr>fs_stack := xs @ zs\<rparr>, env, b') \<and> straight C G b b' \<and>
        typed_list C G b' zs [t] \<and> list_all canonical [t]"
      by (intro exI [of _ "[z]"] exI [of _ b']) (simp add: translate_select_def tr_defs)
  qed
qed

lemma ref_is_null_run:
  assumes C: "builder_contract C G" and "typed C G b v t" and "is_int_ty t"
  shows "\<exists>z b'. tr_ref_is_null C v (s, env, b) = Ok (z, s, env, b') \<and> straight C G b b' \<and> typed C G b' z IR_I32"
proof -
  obtain c b1 where c: "ins C (Icmp_imm CC_Equal v 0) b = (c, b1)" by fastforce
  from extend_bool_run [OF C c] assms(2,3) obtain z b' where
    "ins C (Convert Uextend IR_I32 c) b1 = (z, b')" "straight C G b b'" "typed C G b' z IR_I32"
    by (auto simp: typed_def value_args_def result_type_def)
  with c show ?thesis by (auto simp: tr_ref_is_null_def translate_ref_is_null_def tr_defs)
qed

lemma ref_is_null_good:
  assumes C: "builder_contract C G" and "typing_inv C G V E T (s, env, b) vs" and "reachable s"
    and "on_top (check_ref (\<lambda>t. ([t], [IR_I32]))) vs = Some vs'"
  shows "good C G V E T vs' (tr_then tr_pop1 (\<lambda>value. tr_then (tr_ref_is_null C value) tr_push1) (s, env, b))"
proof -
  from check_ref_type [OF assms(4)] inv_parts(5) [OF assms(2,3)] obtain t where
    t: "is_int_ty t" and "on_top (apply_type [t] [IR_I32]) vs = Some vs'" by auto
  from this(2) show ?thesis
  proof (rule replace_good [OF assms(2,3)])
    fix xs ws assume st: "fs_stack s = xs @ ws" "typed_list C G b ws [t]"
    then obtain v where v: "ws = [v]" "typed C G b v t" by (auto simp: typed_list_1)
    from ref_is_null_run [OF C v(2) t, of "s\<lparr>fs_stack := xs\<rparr>" env] obtain z b' where
      "tr_ref_is_null C v (s\<lparr>fs_stack := xs\<rparr>, env, b) = Ok (z, s\<lparr>fs_stack := xs\<rparr>, env, b')" "straight C G b b'" "typed C G b' z IR_I32"
      by blast
    with st(1) v(1) pop1_append [of s xs v]
    show "\<exists>zs b'. tr_then tr_pop1 (\<lambda>value. tr_then (tr_ref_is_null C value) tr_push1) (s, env, b) =
        Ok ((), s\<lparr>fs_stack := xs @ zs\<rparr>, env, b') \<and> straight C G b b' \<and> typed_list C G b' zs [IR_I32] \<and> list_all canonical [IR_I32]"
      by (intro exI [of _ "[z]"] exI [of _ b']) (simp add: tr_defs)
  qed
qed

lemma ref_as_non_null_good:
  assumes C: "builder_contract C G" and "typing_inv C G V E T (s, env, b) vs" and "reachable s"
    and "on_top (check_ref (\<lambda>t. ([t], [t]))) vs = Some vs'"
  shows "good C G V E T vs' (translate_ref_as_non_null C (s, env, b))"
proof -
  from check_ref_type [OF assms(4)] inv_parts(5) [OF assms(2,3)] obtain t where
    t: "is_int_ty t" and "on_top (apply_type [t] [t]) vs = Some vs'" by auto
  from this(2) show ?thesis
  proof (rule replace_good [OF assms(2,3)])
    fix xs ws assume st: "fs_stack s = xs @ ws" "typed_list C G b ws [t]" "list_all canonical [t]"
    then obtain v where v: "ws = [v]" "typed C G b v t" by (auto simp: typed_list_1)
    from ref_is_null_run [OF C v(2) t, of "s\<lparr>fs_stack := xs\<rparr>" env] obtain z b1 where
      1: "tr_ref_is_null C v (s\<lparr>fs_stack := xs\<rparr>, env, b) = Ok (z, s\<lparr>fs_stack := xs\<rparr>, env, b1)" "straight C G b b1" by blast
    let ?b' = "snd (ins_inst C (Trapnz z TRAP_NULL_REFERENCE) b1)"
    have 2: "straight C G b ?b'" using straight_trans [OF 1(2) contract_emit [OF C]] by (simp add: branches_def)
    with st v 1(1) pop1_append [of s xs v] keeps_butD(1) [OF straightD(1) [OF 2] v(2)]
    show "\<exists>zs b'. translate_ref_as_non_null C (s, env, b) = Ok ((), s\<lparr>fs_stack := xs @ zs\<rparr>, env, b') \<and> straight C G b b' \<and>
        typed_list C G b' zs [t] \<and> list_all canonical [t]"
      by (intro exI [of _ "[v]"] exI [of _ ?b']) (simp add: translate_ref_as_non_null_def tr_defs)
  qed
qed

end
