(* ===== verification/Entity_Typing.thy ===== *)
theory Entity_Typing
  imports Operator_Typing
begin

text \<open>
  Operators that refer to entities of the module: memory accesses, globals, calls and references.
  Finding an entity can fail, but when such an operator is translated the invariant holds again.
\<close>

section \<open>Partial correctness\<close>

definition whenever :: "('e, 'a) outcome \<Rightarrow> ('a \<Rightarrow> bool) \<Rightarrow> bool" where
  "whenever r P \<longleftrightarrow> (\<forall>a. r = Ok a \<longrightarrow> P a)"

lemma whenever_simps [simp]: "whenever (Ok a) P \<longleftrightarrow> P a" "whenever (Err e) P" "whenever (Panic m) P"
  by (simp_all add: whenever_def)

lemma whenever_then: "whenever r Q \<Longrightarrow> (\<And>a. Q a \<Longrightarrow> whenever (f a) P) \<Longrightarrow> whenever (and_then r f) P"
  by (auto simp: whenever_def)

lemma whenever_pure: "(\<And>a. r = Ok a \<Longrightarrow> whenever (f a) P) \<Longrightarrow> whenever (and_then r f) P"
  by (auto simp: whenever_def)

lemma whenever_map: "whenever r (\<lambda>a. P (f a)) \<Longrightarrow> whenever (map_ok f r) P"
  by (auto simp: whenever_def)

lemma whenever_mono: "whenever r Q \<Longrightarrow> (\<And>a. Q a \<Longrightarrow> P a) \<Longrightarrow> whenever r P"
  by (auto simp: whenever_def)

lemma whenever_if: "(c \<Longrightarrow> whenever r P) \<Longrightarrow> (\<not> c \<Longrightarrow> whenever r' P) \<Longrightarrow> whenever (if c then r else r') P"
  by simp

section \<open>Code emitted by the environment\<close>

definition builds :: "'b clif_ops \<Rightarrow> 'b clif_view \<Rightarrow> 'b \<Rightarrow> 'a \<times> 'b \<Rightarrow> bool" where
  "builds C G a = (\<lambda>(x, b). straight C G a b)"

lemma builds_pair [simp]: "builds C G a (x, b) = straight C G a b"
  by (simp add: builds_def)

lemma builds_ins: "builder_contract C G \<Longrightarrow> straight C G a b \<Longrightarrow> builds C G a (ins C i b)"
  by (cases "ins C i b") (auto intro: straight_trans contract_ins(1))

lemma builds_inst: "builder_contract C G \<Longrightarrow> branches i = [] \<Longrightarrow> straight C G a b \<Longrightarrow> builds C G a (ins_inst C i b)"
  using contract_emit [of C G i b] straight_trans by (cases "ins_inst C i b") auto

lemma builds_gv: "builder_contract C G \<Longrightarrow> straight C G a b \<Longrightarrow> builds C G a (create_global_value C d b)"
  by (cases "create_global_value C d b") (auto intro: straight_trans contract_straight(5))

lemma builds_case:
  "builds C G a p \<Longrightarrow> (\<And>x b. straight C G a b \<Longrightarrow> whenever (f x b) (builds C G a)) \<Longrightarrow>
     whenever (case p of (x, b) \<Rightarrow> f x b) (builds C G a)"
  by (cases p) simp

lemma builds_weaken: "straight C G a b \<Longrightarrow> whenever r (builds C G b) \<Longrightarrow> whenever r (builds C G a)"
  by (auto simp: whenever_def builds_def intro: straight_trans)

lemma builds_then:
  assumes "whenever r (builds C G b0)" and "straight C G a b0"
    and "\<And>x b. straight C G a b \<Longrightarrow> whenever (f (x, b)) (builds C G a)"
  shows "whenever (and_then r f) (builds C G a)"
proof (rule whenever_then [OF builds_weaken [OF assms(2,1)]])
  show "whenever (f p) (builds C G a)" if "builds C G a p" for p using that assms(3) by (cases p) simp
qed

lemma builds_map:
  assumes "whenever r (builds C G b0)" and "straight C G a b0" and "\<And>x b. straight C G a b \<Longrightarrow> builds C G a (g (x, b))"
  shows "whenever (map_ok g r) (builds C G a)"
  unfolding map_ok_def by (rule builds_then [OF assms(1,2)]) (simp add: assms(3))

lemma no_branches [simp]: "branches (Trapnz x code) = []" "branches (Trapz x code) = []" "branches (Trap_inst code) = []"
  "branches (Store opc fl v a off) = []" "branches (Call_inst f vs) = []" "branches (Call_indirect_inst r a vs) = []"
  "branches (Return_inst vs) = []" "branches Fence = []"
  by (simp_all add: branches_def)

lemmas build_rules = whenever_if builds_case builds_ins builds_inst builds_gv

lemma compute_addr_builds:
  assumes C: "builder_contract C G"
  shows "whenever (compute_addr C mem ty index off b) (builds C G b)"
  unfolding compute_addr_def
  by (rule whenever_pure) (intro build_rules C; simp add: builds_ins [OF C])

lemma explicit_check_builds:
  assumes C: "builder_contract C G"
  shows "whenever (explicit_check_oob_condition_and_compute_addr C mem ty index off sp oob b) (builds C G b)"
  unfolding explicit_check_oob_condition_and_compute_addr_def
proof (rule whenever_if)
  show "whenever (and_then (compute_addr C mem ty index off b) (\<lambda>(addr, b1). case ins C (Iconst ty 0) b1 of (null, b2) \<Rightarrow>
      Ok (ins C (Select_spectre_guard oob null addr) b2))) (builds C G b)"
    by (rule builds_then [OF compute_addr_builds [OF C] straight_refl]) (simp only: prod.case, intro build_rules C; simp add: builds_ins [OF C])
  show "whenever (case ins_inst C (Trapnz oob HEAP_OUT_OF_BOUNDS) b of (x, b1) \<Rightarrow> compute_addr C mem ty index off b1) (builds C G b)"
    by (intro build_rules C) (simp_all add: builds_weaken [OF _ compute_addr_builds [OF C]])
qed

lemma cast_index_builds:
  "builder_contract C G \<Longrightarrow> whenever (cast_index_to_pointer_ty C index ity pty b) (builds C G b)"
  unfolding cast_index_to_pointer_ty_def by (intro whenever_if whenever_pure) (simp_all add: builds_ins)

lemma bounds_check_builds:
  assumes C: "builder_contract C G"
  shows "whenever (bounds_check_and_compute_addr C env mem index off sz b) (builds C G b)"
  unfolding bounds_check_and_compute_addr_def Let_def
  apply (rule builds_then [OF cast_index_builds [OF C] straight_refl])
  apply (simp only: prod.case)
  apply (rule whenever_pure)
  apply (intro whenever_if)
  subgoal by (intro build_rules C) simp_all
  subgoal by (rule builds_map [OF compute_addr_builds [OF C]]) simp_all
  subgoal
    by (rule whenever_pure, intro build_rules C, assumption, assumption)
      (rule builds_map [OF explicit_check_builds [OF C]]; simp)
  done

lemma prepare_addr_builds:
  assumes C: "builder_contract C G"
  shows "whenever (prepare_addr C env mem index sz memarg b) (builds C G b)"
proof -
  have fin: "whenever (case r of Unreachable \<Rightarrow> Ok (Unreachable, b') | Reachable a \<Rightarrow> Ok (Reachable (heap_flags, index, a), b')) (builds C G b)"
    if "straight C G b b'" for r b'
    using that by (cases r) simp_all
  show ?thesis
    unfolding prepare_addr_def
    apply (rule builds_then [of _ C G b])
      apply (intro whenever_if bounds_check_builds C)
     apply (rule whenever_pure, intro build_rules C)
       apply simp
      apply assumption
     apply (erule builds_weaken [OF _ bounds_check_builds [OF C]])
    by (simp_all add: fin)
qed


section \<open>Finding entities\<close>

lemma straight_ins: "builder_contract C G \<Longrightarrow> straight C G a b \<Longrightarrow> straight C G a (snd (ins C i b))"
  using builds_ins [of C G a b i] by (simp add: builds_def case_prod_unfold)

lemma straight_inst: "builder_contract C G \<Longrightarrow> branches i = [] \<Longrightarrow> straight C G a b \<Longrightarrow> straight C G a (snd (ins_inst C i b))"
  using builds_inst [of C G i a b] by (simp add: builds_def case_prod_unfold)

lemma straight_gv: "builder_contract C G \<Longrightarrow> straight C G a b \<Longrightarrow> straight C G a (snd (create_global_value C d b))"
  using builds_gv [of C G a b d] by (simp add: builds_def case_prod_unfold)

lemmas straight_rules = straight_ins straight_inst straight_gv

definition ebuilds ::
  "'b clif_ops \<Rightarrow> 'b clif_view \<Rightarrow> TranslationEnvironment \<Rightarrow> 'b \<Rightarrow> 'a \<times> TranslationEnvironment \<times> 'b \<Rightarrow> bool" where
  "ebuilds C G E a = (\<lambda>(x, env, b). env_of E env \<and> straight C G a b)"

lemma env_of_vmctx [simp]: "env_of E env \<Longrightarrow> env_of E (env\<lparr>te_vmctx := x\<rparr>)"
  by (auto simp: env_of_def)

lemma env_vmctx_builds:
  assumes "builder_contract C G" and "env_of E env"
  shows "env_of E (fst (snd (env_vmctx C env b)))" "straight C G b (snd (snd (env_vmctx C env b)))"
  using assms by (auto simp: env_vmctx_def case_prod_unfold split: option.split intro!: straight_rules)

lemma vmctx_val_builds:
  assumes "builder_contract C G" and "env_of E env"
  shows "env_of E (fst (snd (vmctx_val C env b)))" "straight C G b (snd (snd (vmctx_val C env b)))"
  using env_vmctx_builds [OF assms] assms(1) by (auto simp: vmctx_val_def case_prod_unfold intro!: straight_rules)

lemma load_pointer_straight:
  "load_pointer C env base off b = Ok (gv, b') \<Longrightarrow> builder_contract C G \<Longrightarrow> straight C G a b \<Longrightarrow> straight C G a b'"
  using straight_gv [of C G a b] by (auto simp: load_pointer_def) (metis snd_conv)

lemma get_global_location_builds:
  assumes "builder_contract C G" and "env_of E env"
  shows "whenever (get_global_location C env index b) (ebuilds C G E b)"
  using env_vmctx_builds [OF assms, of b] assms(1)
  by (auto simp: whenever_def ebuilds_def get_global_location_def case_prod_unfold split: option.splits intro: load_pointer_straight)

lemma make_table_builds:
  assumes "builder_contract C G" and "env_of E env"
  shows "whenever (make_table C env index b) (ebuilds C G E b)"
  using env_vmctx_builds [OF assms, of b] assms(1)
  by (auto simp: whenever_def ebuilds_def make_table_def case_prod_unfold Let_def
      split: option.splits if_splits intro!: straight_rules intro: load_pointer_straight)

lemma make_memory_builds:
  assumes "builder_contract C G" and "env_of E env"
  shows "whenever (make_memory C env index b) (ebuilds C G E b)"
  using env_vmctx_builds [OF assms, of b] assms(1)
  by (auto simp: whenever_def ebuilds_def make_memory_def case_prod_unfold Let_def
      split: option.splits if_splits intro!: straight_rules intro: load_pointer_straight)


text \<open>Steps that find an entity: the value stack and the frames stay as they are.\<close>

definition entities_ok :: "'b clif_ops \<Rightarrow> 'b clif_view \<Rightarrow> TranslationEnvironment \<Rightarrow> type_ctx \<Rightarrow> 'b tr_st \<Rightarrow> bool" where
  "entities_ok C G E T = (\<lambda>(s, env, b). env_of E env \<and> ctx_ok C G E T b \<and> caches_ok C G T s b)"

definition quiet :: "'b clif_ops \<Rightarrow> 'b clif_view \<Rightarrow> TranslationEnvironment \<Rightarrow> type_ctx \<Rightarrow> 'b tr_st \<Rightarrow> 'b tr_st \<Rightarrow> bool" where
  "quiet C G E T = (\<lambda>(s, env, b) (s', env', b'). entities_ok C G E T (s', env', b') \<and> straight C G b b' \<and>
     fs_stack s' = fs_stack s \<and> control_stack s' = control_stack s \<and> reachable s' = reachable s)"

lemma quiet_intro:
  assumes "entities_ok C G E T (s, env, b)" and "env_of E env'" and "straight C G b b'" and "caches_ok C G T s' b'"
    and "fs_stack s' = fs_stack s" "control_stack s' = control_stack s" "reachable s' = reachable s"
  shows "quiet C G E T (s, env, b) (s', env', b')"
  using assms ctx_keeps straightD(1) [OF assms(3)] by (auto simp: quiet_def entities_ok_def)

lemma value_type_canonical: "value_type ty p = Ok t \<Longrightarrow> p \<in> {IR_I32, IR_I64} \<Longrightarrow> canonical t"
  by (cases ty) (auto simp: reference_type_def canonical_def split: WasmHeapTopTypeInner.splits if_splits)

lemma caches_straight:
  "caches_ok C G T s b \<Longrightarrow> straight C G b b' \<Longrightarrow> fs_globals s' = fs_globals s \<Longrightarrow> fs_functions s' = fs_functions s \<Longrightarrow>
     fs_signatures s' = fs_signatures s \<Longrightarrow> caches_ok C G T s' b'"
  by (rule caches_keeps [OF _ straightD(1)])

lemma quiet_refl: "entities_ok C G E T st \<Longrightarrow> quiet C G E T st st"
  by (cases st) (simp add: quiet_def)

lemma make_global_builds:
  assumes C: "builder_contract C G" and e: "env_of E env" and r: "make_global C env x b = Ok (g, env', b')"
    and "value_type (content_type (globals (te_module E) ! x)) (pointer_type E) = Ok t"
  shows "env_of E env'" "straight C G b b'" "\<exists>gv off. g = CG_Memory gv off t"
  using get_global_location_builds [OF C e, of x b] r assms(4) env_of_types [OF e]
  by (auto simp: make_global_def whenever_def ebuilds_def)

lemma tr_global_quiet:
  assumes C: "builder_contract C G" and ok: "entities_ok C G E T (s, env, b)" and t: "tc_global T x = Some t"
  shows "whenever (tr_global C x (s, env, b)) (\<lambda>(g, st). quiet C G E T (s, env, b) st \<and> (\<exists>gv off. g = CG_Memory gv off t))"
proof (cases "fs_globals s x")
  case (Some g)
  with ok t have "\<exists>gv off. g = CG_Memory gv off t" by (fastforce simp: entities_ok_def caches_ok_def)
  with Some show ?thesis by (simp add: tr_global_def get_global_def quiet_refl [OF ok])
next
  case None
  from ok have e: "env_of E env" and c: "caches_ok C G T s b" and ctx: "ctx_ok C G E T b" by (auto simp: entities_ok_def)
  have ty: "value_type (content_type (globals (te_module E) ! x)) (pointer_type E) = Ok t"
    using ctx t by (simp add: ctx_ok_def)
  show ?thesis
    unfolding whenever_def
  proof (intro allI impI)
    fix a assume a: "tr_global C x (s, env, b) = Ok a"
    with None obtain g env' b' where m: "make_global C env x b = Ok (g, env', b')"
      and a: "a = (g, s\<lparr>fs_globals := (fs_globals s)(x \<mapsto> g)\<rparr>, env', b')"
      by (auto simp: tr_global_def get_global_def)
    note g = make_global_builds [OF C e m ty]
    have "caches_ok C G T s b'" by (rule caches_straight [OF c g(2)]) simp_all
    with g(3) t have "caches_ok C G T (s\<lparr>fs_globals := (fs_globals s)(x \<mapsto> g)\<rparr>) b'" by (auto simp: caches_ok_def)
    with quiet_intro [OF ok g(1,2)] g(3) a
    show "case a of (g, st) \<Rightarrow> quiet C G E T (s, env, b) st \<and> (\<exists>gv off. g = CG_Memory gv off t)" by simp
  qed
qed

lemma tr_memory_quiet:
  assumes C: "builder_contract C G" and ok: "entities_ok C G E T (s, env, b)"
  shows "whenever (tr_memory C x (s, env, b)) (\<lambda>(m, st). quiet C G E T (s, env, b) st)"
proof -
  from ok have e: "env_of E env" and c: "caches_ok C G T s b" by (auto simp: entities_ok_def)
  have "quiet C G E T (s, env, b) (s\<lparr>fs_memories := f\<rparr>, env', b')" if "env_of E env'" "straight C G b b'" for f env' b'
    by (rule quiet_intro [OF ok that caches_straight [OF c that(2)]]) simp_all
  with make_memory_builds [OF C e, of x b] quiet_refl [OF ok] show ?thesis
    by (cases "fs_memories s x") (auto simp: tr_memory_def get_memory_def whenever_def ebuilds_def)
qed

lemma tr_table_quiet:
  assumes C: "builder_contract C G" and ok: "entities_ok C G E T (s, env, b)"
  shows "whenever (tr_table C x (s, env, b)) (\<lambda>(t, st). quiet C G E T (s, env, b) st)"
proof -
  from ok have e: "env_of E env" and c: "caches_ok C G T s b" by (auto simp: entities_ok_def)
  have "quiet C G E T (s, env, b) (s\<lparr>fs_tables := f\<rparr>, env', b')" if "env_of E env'" "straight C G b b'" for f env' b'
    by (rule quiet_intro [OF ok that caches_straight [OF c that(2)]]) simp_all
  with make_table_builds [OF C e, of x b] quiet_refl [OF ok] show ?thesis
    by (cases "fs_tables s x") (auto simp: tr_table_def get_table_def whenever_def ebuilds_def)
qed

text \<open>Functions and signatures have the types that the checker assumes.\<close>

lemma make_indirect_sig_eq: "make_indirect_sig C env x b = map_ok (\<lambda>sg. import_signature C sg b) (func_type_sig env x)"
  by (simp add: make_indirect_sig_def func_type_sig_def map_ok_def and_then_assoc)

lemma make_direct_func_eq:
  "make_direct_func C env x b = and_then (pm_index (mod_functions (te_module env)) x)
     (\<lambda>f. and_then (func_type_sig env (signature f))
     (\<lambda>csig. case import_signature C csig b of (sref, b1) \<Rightarrow>
        Ok (import_function C \<lparr>ef_namespace = NS_WASM_FUNC, ef_index = x, ef_signature = sref,
          ef_colocated = (defined_func_index (te_module env) x \<noteq> None)\<rparr> b1)))"
  by (simp add: make_direct_func_def func_type_sig_def and_then_assoc)

lemma func_type_sig_env: "env_of E env \<Longrightarrow> func_type_sig env x = func_type_sig E x"
  by (simp add: func_type_sig_def env_of_types)

lemma sig_fits_count: "sig_fits ty sg \<Longrightarrow> num_wasm_parameters sg = length (fst ty)"
  by (simp add: sig_fits_def num_wasm_parameters_eq)

lemma tr_indirect_sig_quiet:
  assumes C: "builder_contract C G" and ok: "entities_ok C G E T (s, env, b)" and t: "tc_type T x = Some ty"
  shows "whenever (tr_indirect_sig C x (s, env, b)) (\<lambda>((r, n), st). quiet C G E T (s, env, b) st \<and>
    cv_sig G (snd (snd st)) r \<and> sig_fits ty (signature_of C (snd (snd st)) r) \<and> n = length (fst ty))"
proof (cases "fs_signatures s x")
  case (Some p)
  obtain r n where p: "p = (r, n)" by (cases p)
  from ok have "caches_ok C G T s b" by (simp add: entities_ok_def)
  then have "cv_sig G b r \<and> (\<exists>ty. tc_type T x = Some ty \<and> sig_fits ty (signature_of C b r) \<and> n = length (fst ty))"
    using Some p unfolding caches_ok_def by blast
  with Some p t show ?thesis by (simp add: tr_indirect_sig_def get_indirect_sig_def quiet_refl [OF ok])
next
  case None
  from ok have e: "env_of E env" and c: "caches_ok C G T s b" and ctx: "ctx_ok C G E T b" by (auto simp: entities_ok_def)
  from ctx t obtain sg where sg: "func_type_sig E x = Ok sg" "sig_fits ty sg" unfolding ctx_ok_def by blast
  obtain r b' where r: "import_signature C sg b = (r, b')" by fastforce
  note i = contract_import_signature [OF C r]
  have "caches_ok C G T s b'" by (rule caches_straight [OF c i(1)]) simp_all
  with i(2,3) sg t have "caches_ok C G T (s\<lparr>fs_signatures := (fs_signatures s)(x \<mapsto> (r, length (fst ty)))\<rparr>) b'"
    by (cases ty) (auto simp: caches_ok_def)
  with None r i sg quiet_intro [OF ok e i(1)] sig_fits_count [OF sg(2)] show ?thesis
    by (simp add: tr_indirect_sig_def get_indirect_sig_def make_indirect_sig_eq func_type_sig_env [OF e] Let_def)
qed

lemma tr_direct_func_quiet:
  assumes C: "builder_contract C G" and ok: "entities_ok C G E T (s, env, b)" and t: "tc_func T x = Some ty"
  shows "whenever (tr_direct_func C x (s, env, b)) (\<lambda>((f, n), st). quiet C G E T (s, env, b) st \<and>
    cv_func G (snd (snd st)) f \<and> cv_sig G (snd (snd st)) (ext_func_signature C (snd (snd st)) f) \<and>
    sig_fits ty (signature_of C (snd (snd st)) (ext_func_signature C (snd (snd st)) f)) \<and> n = length (fst ty))"
proof (cases "fs_functions s x")
  case (Some p)
  obtain f n where p: "p = (f, n)" by (cases p)
  from ok have "caches_ok C G T s b" by (simp add: entities_ok_def)
  then have "cv_func G b f \<and> cv_sig G b (ext_func_signature C b f) \<and>
      (\<exists>ty. tc_func T x = Some ty \<and> sig_fits ty (signature_of C b (ext_func_signature C b f)) \<and> n = length (fst ty))"
    using Some p unfolding caches_ok_def by blast
  with Some p t show ?thesis by (simp add: tr_direct_func_def get_direct_func_def quiet_refl [OF ok])
next
  case None
  from ok have e: "env_of E env" and c: "caches_ok C G T s b" and ctx: "ctx_ok C G E T b" by (auto simp: entities_ok_def)
  from ctx t obtain sg where sg: "x < length (mod_functions (te_module E))"
    "func_type_sig E (signature (mod_functions (te_module E) ! x)) = Ok sg" "sig_fits ty sg" unfolding ctx_ok_def by blast
  obtain r b1 where r: "import_signature C sg b = (r, b1)" by fastforce
  note i = contract_import_signature [OF C r]
  let ?d = "\<lparr>ef_namespace = NS_WASM_FUNC, ef_index = x, ef_signature = r,
    ef_colocated = (defined_func_index (te_module E) x \<noteq> None)\<rparr>"
  obtain f b' where f: "import_function C ?d b1 = (f, b')" by fastforce
  note j = contract_import_function [OF C f]
  have st: "straight C G b b'" by (rule straight_trans [OF i(1) j(1)])
  have sig: "cv_sig G b' r" "signature_of C b' r = sg"
    using keeps_butD(9,10) [OF straightD(1) [OF j(1)] i(2)] i(3) by simp_all
  have "caches_ok C G T s b'" by (rule caches_straight [OF c st]) simp_all
  with j(2,3) sig sg t have "caches_ok C G T (s\<lparr>fs_functions := (fs_functions s)(x \<mapsto> (f, length (fst ty)))\<rparr>) b'"
    by (cases ty) (auto simp: caches_ok_def)
  with None r f j sg sig quiet_intro [OF ok e st] sig_fits_count [OF sg(3)] show ?thesis
    by (simp add: tr_direct_func_def get_direct_func_def make_direct_func_eq func_type_sig_env [OF e] env_of_types [OF e] pm_index_Ok Let_def)
qed


section \<open>Calls\<close>

lemma zip_eq_zip: "length xs = length ys \<Longrightarrow> zip_eq xs ys = Ok (zip xs ys)"
  by (induction xs ys rule: list_induct2) simp_all

lemma no_bitcasts:
  "typed_list C G b vs ts \<Longrightarrow> collect (needs_bitcast C b) (zip ts vs) = Ok (map (\<lambda>(t, v). (False, t, v)) (zip ts vs))"
  by (induction vs ts rule: list_all2_induct) (auto simp: needs_bitcast_def typed_def)

lemma apply_no_bitcasts:
  "length ts = length vs \<Longrightarrow> tr_each (apply_bitcast C) (map (\<lambda>(t, v). (False, t, v)) (zip ts vs)) st = Ok (vs, st)"
  by (induction ts vs rule: list_induct2) (simp_all add: tr_defs apply_bitcast_def)

text \<open>Arguments of the right types need no bitcast.\<close>

lemma bitcast_values_same:
  assumes "typed_list C G b vs ts" and "map snd (filter (\<lambda>(i, _). P i) (List.enumerate 0 (ptys b))) = ts"
    and "fs_stack s = xs @ vs"
  shows "bitcast_values C ptys P vs (s, env, b) = Ok (vs, s, env, b)"
proof -
  have l: "length ts = length vs" using list_all2_lengthD [OF assms(1)] by simp
  show ?thesis
    using no_bitcasts [OF assms(1)] apply_no_bitcasts [OF l, of C] assms(2,3)
    by (simp add: bitcast_values_def bitcast_arguments_def zip_eq_zip [OF l] tr_defs poken_append [OF assms(3)])
qed

lemma wasm_parameter_types: "map snd (filter (\<lambda>(i, _). is_wasm_parameter i) (List.enumerate 0 ts)) = drop 2 (ts :: ir_Type list)"
proof -
  have "map snd (filter (\<lambda>(i, _). is_wasm_parameter i) (List.enumerate n us)) = us" if "2 \<le> n" for n and us :: "ir_Type list"
    using that by (induction us arbitrary: n) (simp_all add: is_wasm_parameter_def)
  from this [of "Suc (Suc 0)"] show ?thesis by (cases ts; cases "tl ts") (simp_all add: is_wasm_parameter_def numeral_2_eq_2)
qed

lemma call_args_same:
  assumes "typed_list C G b vs (fst ty)" and "sig_fits ty (signature_of C b sg)" and "fs_stack s = xs @ vs"
    and "n = length (fst ty)"
  shows "call_args C sg n (s, env, b) = Ok (vs, s, env, b)"
proof -
  have n: "n = length vs" using assms(4) list_all2_lengthD [OF assms(1)] by simp
  have "bitcast_wasm_params C sg vs (s, env, b) = Ok (vs, s, env, b)"
    unfolding bitcast_wasm_params_def
    by (rule bitcast_values_same [OF _ wasm_parameter_types assms(3)]) (use assms(1,2) in \<open>simp add: sig_fits_def\<close>)
  with peekn_append [OF assms(3)] show ?thesis by (simp add: call_args_def tr_defs n)
qed

definition call_done ::
  "'b clif_ops \<Rightarrow> 'b clif_view \<Rightarrow> TranslationEnvironment \<Rightarrow> 'b \<Rightarrow> ir_Type list \<Rightarrow> ir_Inst \<times> TranslationEnvironment \<times> 'b \<Rightarrow> bool" where
  "call_done C G E b rs = (\<lambda>(n, env', b'). env_of E env' \<and> straight C G b b' \<and> typed_list C G b' (inst_results C b' n) rs)"

lemma call_inst_done:
  assumes C: "builder_contract C G" and "straight C G a b" and "env_of E env" and "cv_func G a f" and "cv_sig G a (ext_func_signature C a f)"
  shows "call_done C G E a (sig_returns (signature_of C a (ext_func_signature C a f)))
    (fst (ins_inst C (Call_inst f vs) b), env, snd (ins_inst C (Call_inst f vs) b))"
proof -
  obtain n b' where r: "ins_inst C (Call_inst f vs) b = (n, b')" by fastforce
  note k = keeps_butD [OF straightD(1) [OF assms(2)]]
  have e: "ext_func_signature C b f = ext_func_signature C a f" using k(12) [OF assms(4)] .
  show ?thesis
    using contract_call [OF C r] straight_inst [OF C _ assms(2), of "Call_inst f vs"] k(9,10) [OF assms(5)] k(11) [OF assms(4)] assms(3) r
    by (simp add: call_done_def e)
qed

lemma call_indirect_inst_done:
  assumes C: "builder_contract C G" and "straight C G a b" and "env_of E env" and "cv_sig G a r"
  shows "call_done C G E a (sig_returns (signature_of C a r))
    (fst (ins_inst C (Call_indirect_inst r x vs) b), env, snd (ins_inst C (Call_indirect_inst r x vs) b))"
proof -
  obtain n b' where r: "ins_inst C (Call_indirect_inst r x vs) b = (n, b')" by fastforce
  note k = keeps_butD [OF straightD(1) [OF assms(2)]]
  show ?thesis
    using contract_call_indirect [OF C r] straight_inst [OF C _ assms(2), of "Call_indirect_inst r x vs"] k(9,10) [OF assms(4)] assms(3) r
    by (simp add: call_done_def)
qed

lemma direct_call_done:
  assumes C: "builder_contract C G" and e: "env_of E env" and "cv_func G b f" and "cv_sig G b (ext_func_signature C b f)"
  shows "whenever (direct_call C env x f vs b) (call_done C G E b (sig_returns (signature_of C b (ext_func_signature C b f))))"
  using vmctx_val_builds [OF C e, of b]
  by (auto simp: whenever_def direct_call_def case_prod_unfold Let_def split: if_splits
      intro!: call_inst_done [OF C _ _ assms(3,4)] call_indirect_inst_done [OF C _ _ assms(4)] straight_rules C e)


lemma table_prepare_addr_builds:
  assumes "builder_contract C G"
  shows "whenever (table_prepare_addr C t x p spectre b) (builds C G b)"
proof -
  have fork: "straight C G b (snd (if c then p1 else p2))" if "straight C G b (snd p1)" "straight C G b (snd p2)" for c p1 p2
    using that by simp
  have if_keep: "straight C G b (if c then b1 else b2)" if "straight C G b b1" "straight C G b b2" for c b1 b2
    using that by simp
  show ?thesis
    unfolding table_prepare_addr_def Let_def case_prod_unfold
    by (intro whenever_pure whenever_if) (auto simp: case_prod_unfold intro!: straight_rules fork if_keep assms)
qed

lemma check_signature_builds:
  assumes C: "builder_contract C G" and e: "env_of E env"
  shows "whenever (check_indirect_call_type_signature C env tbl x fp b) (ebuilds C G E b)"
  using vmctx_val_builds [OF C e, of b] e
  by (auto simp: whenever_def ebuilds_def check_indirect_call_type_signature_def runtime_type_check_def case_prod_unfold Let_def
      split: WasmHeapTypeInner.splits CanonicalizedTypeIndex.splits if_splits intro!: straight_rules C)

lemma indirect_call_done:
  assumes C: "builder_contract C G" and e: "env_of E env" and sig: "cv_sig G b r"
  shows "whenever (indirect_call C env tbl t x r callee vs b)
    (\<lambda>(n, env', b'). env_of E env' \<and> straight C G b b' \<and>
       (\<forall>call. n = Reachable call \<longrightarrow> call_done C G E b (sig_returns (signature_of C b r)) (call, env', b')))"
proof -
  let ?P = "\<lambda>(n, env', b'). env_of E env' \<and> straight C G b b' \<and>
       (\<forall>call. n = Reachable call \<longrightarrow> call_done C G E b (sig_returns (signature_of C b r)) (call, env', b'))"
  have finish: "whenever (map_ok (\<lambda>(n, b5). (Reachable n, env', b5)) (unchecked_indirect_call C r f ctx vs b4)) ?P"
    if "env_of E env'" "straight C G b b4" for env' b4 f ctx
    using call_indirect_inst_done [OF C that(2,1) sig] that(1) straight_inst [OF C _ that(2)]
    by (cases "caller_vmctx C b4") (simp_all add: unchecked_indirect_call_def case_prod_unfold)
  have check: "whenever (and_then (check_indirect_call_type_signature C env tbl x fp b2)
     (\<lambda>(check, env', b3). case check of
         StaticTrap \<Rightarrow> Ok (Unreachable, env', b3)
       | _ \<Rightarrow> let trap_code = (case check of StaticMatch may_be_null \<Rightarrow>
                  if may_be_null then Some TRAP_INDIRECT_CALL_TO_NULL else None | _ \<Rightarrow> None) in
           case load_func_and_vmctx C env' fp trap_code b3 of ((func_ptr, callee_vmctx), b4) \<Rightarrow>
           map_ok (\<lambda>(n, b5). (Reachable n, env', b5))
             (unchecked_indirect_call C r func_ptr callee_vmctx vs b4))) ?P"
    if "straight C G b b2" for fp b2
  proof (rule whenever_then [OF check_signature_builds [OF C e]])
    fix q :: "CheckIndirectCallTypeSignature \<times> TranslationEnvironment \<times> 'a" assume "ebuilds C G E b2 q"
    moreover obtain c env' b3 where q: "q = (c, env', b3)" by (cases q)
    ultimately have e': "env_of E env'" and st: "straight C G b b3"
      using straight_trans [OF that] by (auto simp: ebuilds_def)
    have ld: "straight C G b (snd (load_func_and_vmctx C env' fp tc b3))" for tc
      by (auto simp: load_func_and_vmctx_def case_prod_unfold intro!: straight_rules C st)
    note finish' = finish [OF e' ld, unfolded case_prod_unfold]
    show "whenever (case q of (check, env', b3) \<Rightarrow> case check of
         StaticTrap \<Rightarrow> Ok (Unreachable, env', b3)
       | _ \<Rightarrow> let trap_code = (case check of StaticMatch may_be_null \<Rightarrow>
                  if may_be_null then Some TRAP_INDIRECT_CALL_TO_NULL else None | _ \<Rightarrow> None) in
           case load_func_and_vmctx C env' fp trap_code b3 of ((func_ptr, callee_vmctx), b4) \<Rightarrow>
           map_ok (\<lambda>(n, b5). (Reachable n, env', b5))
             (unchecked_indirect_call C r func_ptr callee_vmctx vs b4)) ?P"
      using e' st finish' by (cases c) (simp_all add: q Let_def case_prod_unfold)
  qed
  show ?thesis
    unfolding indirect_call_def
  proof (rule whenever_then [OF table_prepare_addr_builds [OF C]], goal_cases)
    case (1 p)
    obtain a fl b1 where p: "p = ((a, fl), b1)" by (cases p) auto
    obtain fp b2 where l: "ins C (Load Op_Load (pointer_type env) fl a 0) b1 = (fp, b2)" by fastforce
    have "straight C G b b2" using 1 straight_ins [OF C, of b b1] l p by (metis builds_pair snd_conv)
    from check [OF this, of fp] show ?case by (simp only: p l prod.case)
  qed
qed


section \<open>Operators on entities\<close>

text \<open>What a step leaves when it returns: the operands \<open>us\<close> above \<open>xs\<close>, or code that is unreachable.\<close>

definition step_done ::
  "'b clif_ops \<Rightarrow> 'b clif_view \<Rightarrow> TranslationEnvironment \<Rightarrow> type_ctx \<Rightarrow> 'b tr_st \<Rightarrow> ir_Value list \<Rightarrow> ir_Type list \<Rightarrow> 'b tr_st \<Rightarrow> bool" where
  "step_done C G E T = (\<lambda>(s, env, b) xs us (s', env', b'). env_of E env' \<and> caches_ok C G T s' b' \<and> straight C G b b' \<and>
     control_stack s' = control_stack s \<and>
     (\<exists>zs. fs_stack s' = xs @ zs \<and> (reachable s' \<longrightarrow> typed_list C G b' zs us \<and> list_all canonical us)))"

lemma whenever_tr:
  "whenever (m st) Q \<Longrightarrow> (\<And>a st'. Q (a, st') \<Longrightarrow> whenever (f a st') P) \<Longrightarrow> whenever (tr_then m f st) P"
  by (auto simp: whenever_def)

lemma entity_fair:
  assumes inv: "typing_inv C G V E T (s, env, b) vs" and "reachable s" and "on_top (apply_type ts us) vs = Some vs'"
    and run: "\<And>xs ws. fs_stack s = xs @ ws \<Longrightarrow> typed_list C G b ws ts \<Longrightarrow> list_all canonical ts \<Longrightarrow>
      entities_ok C G E T (s, env, b) \<Longrightarrow> whenever (step (s, env, b)) (\<lambda>(u, st). step_done C G E T (s, env, b) xs us st)"
  shows "fair C G V E T vs' (step (s, env, b))"
proof (rule straight_step [OF assms(1-3)], goal_cases)
  case (1 xs ws)
  have "typing_inv C G V E T st vs'" if "step_done C G E T (s, env, b) xs us st" for st
  proof (cases st)
    case (fields s' env' b')
    with that show ?thesis using 1(5,6) [of b' env' s'] by (cases "reachable s'") (auto simp: step_done_def)
  qed
  moreover have "entities_ok C G E T (s, env, b)" using inv_parts [OF inv] by (simp add: entities_ok_def)
  ultimately show ?case using run [OF 1(1-3)] by (auto simp: fair_def whenever_def)
qed

lemma step_doneI:
  assumes "quiet C G E T (s0, env, b) (s1, env1, b1)" and "straight C G b1 b2" and "control_stack s0 = control_stack s"
    and "fs_globals s2 = fs_globals s1" "fs_functions s2 = fs_functions s1" "fs_signatures s2 = fs_signatures s1"
    and "control_stack s2 = control_stack s1" "fs_stack s2 = xs @ zs"
    and "reachable s2 \<Longrightarrow> typed_list C G b2 zs us \<and> list_all canonical us"
  shows "step_done C G E T (s, env, b) xs us (s2, env1, b2)"
proof -
  have "straight C G b b2" "env_of E env1" "caches_ok C G T s1 b1"
    using assms(1) straight_trans [OF _ assms(2)] by (auto simp: quiet_def entities_ok_def)
  with caches_straight [OF _ assms(2,4-6)] assms show ?thesis by (auto simp: step_done_def quiet_def)
qed

lemma entities_ok_stack [simp]: "entities_ok C G E T (s\<lparr>fs_stack := xs\<rparr>, env, b) = entities_ok C G E T (s, env, b)"
  by (simp add: entities_ok_def caches_ok_def)

lemma load_typed:
  assumes "builder_contract C G" and "straight C G b b1"
  shows "typed C G (snd (ins C (Load opc ty fl a off) b1)) (fst (ins C (Load opc ty fl a off) b1)) ty"
  using ins_typed [OF assms(1), of "Load opc ty fl a off" b1] by (simp add: value_args_def result_type_def)

lemma global_type_canonical:
  assumes "entities_ok C G E T (s, env, b)" and "tc_global T x = Some t"
  shows "canonical t"
  by (rule value_type_canonical [of "content_type (globals (te_module E) ! x)" "pointer_type E"])
    (use assms in \<open>simp_all add: entities_ok_def ctx_ok_def\<close>)

lemma global_get_fair:
  assumes C: "builder_contract C G" and "typing_inv C G V E T (s, env, b) vs" and "reachable s"
    and t: "tc_global T x = Some t" and "on_top (apply_type [] [t]) vs = Some vs'"
  shows "fair C G V E T vs' (translate_global_get C x (s, env, b))"
proof (rule entity_fair [OF assms(2,3,5)])
  fix xs ws assume st: "fs_stack s = xs @ ws" "typed_list C G b ws []" and ok: "entities_ok C G E T (s, env, b)"
  show "whenever (translate_global_get C x (s, env, b)) (\<lambda>(u, st). step_done C G E T (s, env, b) xs [t] st)"
    unfolding translate_global_get_def
  proof (rule whenever_tr, rule tr_global_quiet [OF C ok t])
    fix g st' assume "case (g, st') of (g, st) \<Rightarrow> quiet C G E T (s, env, b) st \<and> (\<exists>gv off. g = CG_Memory gv off t)"
    moreover obtain s1 env1 b1 where st': "st' = (s1, env1, b1)" by (cases st')
    ultimately obtain gv off where q: "quiet C G E T (s, env, b) (s1, env1, b1)" and g: "g = CG_Memory gv off t" by auto
    let ?ga = "ins C (Global_value (pointer_type env1) gv) b1"
    let ?ld = "ins C (Load Op_Load t global_flags (fst ?ga) off) (snd ?ga)"
    have 1: "straight C G b1 (snd ?ga)" and 2: "straight C G b1 (snd ?ld)" by (intro straight_rules C straight_refl)+
    from q st have stack: "fs_stack s1 = xs" by (simp add: quiet_def)
    have "step_done C G E T (s, env, b) xs [t] (s1\<lparr>fs_stack := xs @ [fst ?ld]\<rparr>, env1, snd ?ld)"
      by (rule step_doneI [OF q 2, of _ _ _ "[fst ?ld]"])
        (use load_typed [OF C 1] global_type_canonical [OF ok t] in simp_all)
    then show "whenever (tr_then (case g of CG_Const val \<Rightarrow> tr_ok val
       | CG_Memory gv offset ty \<Rightarrow> tr_then (tr_ask (\<lambda>env b. pointer_type env))
           (\<lambda>p. tr_then (tr_ins C (Global_value p gv)) (\<lambda>addr. tr_ins C (Load Op_Load ty global_flags addr offset)))
       | CG_Custom \<Rightarrow> translate_custom_global_get x) tr_push1 st') (\<lambda>(u, st). step_done C G E T (s, env, b) xs [t] st)"
      by (simp add: g st' tr_defs case_prod_unfold stack)
  qed
qed


lemma global_set_fair:
  assumes C: "builder_contract C G" and "typing_inv C G V E T (s, env, b) vs" and "reachable s"
    and t: "tc_global T x = Some t" and "on_top (apply_type [t] []) vs = Some vs'"
  shows "fair C G V E T vs' (translate_global_set C x (s, env, b))"
proof (rule entity_fair [OF assms(2,3,5)])
  fix xs ws assume st: "fs_stack s = xs @ ws" "typed_list C G b ws [t]" and ok: "entities_ok C G E T (s, env, b)"
  then obtain v where v: "ws = [v]" "typed C G b v t" by (auto simp: typed_list_1)
  show "whenever (translate_global_set C x (s, env, b)) (\<lambda>(u, st). step_done C G E T (s, env, b) xs [] st)"
    unfolding translate_global_set_def
  proof (rule whenever_tr, rule tr_global_quiet [OF C ok t])
    fix g st' assume "case (g, st') of (g, st) \<Rightarrow> quiet C G E T (s, env, b) st \<and> (\<exists>gv off. g = CG_Memory gv off t)"
    moreover obtain s1 env1 b1 where st': "st' = (s1, env1, b1)" by (cases st')
    ultimately obtain gv off where q: "quiet C G E T (s, env, b) (s1, env1, b1)" and g: "g = CG_Memory gv off t" by auto
    let ?ga = "ins C (Global_value (pointer_type env1) gv) b1"
    let ?b2 = "snd (ins_inst C (Store Op_Store global_flags v (fst ?ga) off) (snd ?ga))"
    have 1: "straight C G b1 (snd ?ga)" and 2: "straight C G b1 ?b2" by (intro straight_rules C straight_refl no_branches)+
    from q have "straight C G b b1" by (simp add: quiet_def)
    then have ty: "value_type_of C (snd ?ga) v = t"
      using keeps_butD(1) [OF straightD(1) [OF straight_trans [OF _ 1]] v(2)] by (simp add: typed_def)
    have same: "optionally_bitcast_vector C v IR_I8X16 (s', env', snd ?ga) = Ok (v, s', env', snd ?ga)" if "is_vector t" for s' env'
      using global_type_canonical [OF ok t] that ty by (auto simp: optionally_bitcast_vector_def tr_defs canonical_def)
    from q st v have stack: "fs_stack s1 = xs @ [v]" by (simp add: quiet_def)
    have "step_done C G E T (s, env, b) xs [] (s1\<lparr>fs_stack := xs\<rparr>, env1, ?b2)"
      by (rule step_doneI [OF q 2, of _ _ _ "[]"]) simp_all
    with same show "whenever ((case g of CG_Const val \<Rightarrow> tr_of (Panic ''global is a constant'')
       | CG_Memory gv offset ty \<Rightarrow> tr_then (tr_ask (\<lambda>env b. pointer_type env))
           (\<lambda>p. tr_then (tr_ins C (Global_value p gv))
           (\<lambda>addr. tr_then tr_pop1
           (\<lambda>v. tr_then (if is_vector ty then optionally_bitcast_vector C v IR_I8X16 else tr_ok v)
           (\<lambda>val. tr_then (tr_type_of C val)
           (\<lambda>vty. tr_then (tr_of (assert_that (ty = vty) ''assertion `left == right` failed''))
           (\<lambda>_. tr_emit C (Store Op_Store global_flags val addr offset)))))))
       | CG_Custom \<Rightarrow> tr_then tr_pop1 (translate_custom_global_set x)) st') (\<lambda>(u, st). step_done C G E T (s, env, b) xs [] st)"
      by (simp add: g st' tr_defs case_prod_unfold pop1_append [OF stack] ty)
  qed
qed

lemma tr_prepare_addr_straight:
  assumes "builder_contract C G"
  shows "whenever (tr_prepare_addr C mem x sz memarg (s, env, b)) (\<lambda>(r, s', env', b'). s' = s \<and> env' = env \<and> straight C G b b')"
  using prepare_addr_builds [OF assms, of env mem x sz memarg b] by (auto simp: tr_prepare_addr_def whenever_def builds_def)

lemma load_fair:
  assumes C: "builder_contract C G" and "typing_inv C G V E T (s, env, b) vs" and "reachable s"
    and "on_top (apply_type [t] [snd (load_opcode l)]) vs = Some vs'"
  shows "fair C G V E T vs' (translate_op_load C l memarg (s, env, b))"
proof (rule entity_fair [OF assms(2-4)])
  fix xs ws assume st: "fs_stack s = xs @ ws" "typed_list C G b ws [t]" and ok: "entities_ok C G E T (s, env, b)"
  then obtain v where v: "ws = [v]" by (auto simp: typed_list_1)
  obtain opc ty where l: "load_opcode l = (opc, ty)" by fastforce
  have can: "canonical ty" using l by (cases l rule: load_opcode.cases) auto
  let ?D = "step_done C G E T (s, env, b) xs [ty]"
  have ok1: "entities_ok C G E T (s\<lparr>fs_stack := xs\<rparr>, env, b)" using ok by simp
  have fin: "whenever ((case r of Unreachable \<Rightarrow> tr_ok Unreachable
       | Reachable (flags, _, base) \<Rightarrow> tr_then (tr_ins C (Load opc ty flags base 0))
           (\<lambda>v. tr_then (tr_push1 v) (\<lambda>_. tr_ok (Reachable ())))) (s1, env1, b2))
      (\<lambda>(r, st'). whenever (unwrap_or_unreachable r tr_ok st') (\<lambda>(u, st). ?D st))"
    if q: "quiet C G E T (s\<lparr>fs_stack := xs\<rparr>, env, b) (s1, env1, b1)" and b2: "straight C G b1 b2" for r s1 env1 b1 b2
  proof (cases r)
    case Unreachable
    have "?D (s1\<lparr>reachable := False\<rparr>, env1, b2)"
      by (rule step_doneI [OF q b2, of _ _ _ "[]"]) (use q in \<open>simp_all add: quiet_def\<close>)
    then show ?thesis by (simp add: Unreachable unwrap_or_unreachable_def tr_defs)
  next
    case (Reachable a)
    obtain fl x base where a: "a = (fl, x, base)" by (cases a)
    let ?ld = "ins C (Load opc ty fl base 0) b2"
    have 2: "straight C G b1 (snd ?ld)" by (intro straight_rules C b2)
    have "?D (s1\<lparr>fs_stack := xs @ [fst ?ld]\<rparr>, env1, snd ?ld)"
      by (rule step_doneI [OF q 2, of _ _ _ "[fst ?ld]"]) (use load_typed [OF C b2] can in simp_all)
    moreover from q have "fs_stack s1 = xs" by (simp add: quiet_def)
    ultimately show ?thesis by (simp add: Reachable a unwrap_or_unreachable_def tr_defs case_prod_unfold)
  qed
  have "whenever (translate_load C memarg opc ty (s, env, b)) (\<lambda>(r, st'). whenever (unwrap_or_unreachable r tr_ok st') (\<lambda>(u, st). ?D st))"
    unfolding translate_load_def
  proof (rule whenever_tr [where Q = "\<lambda>(x, st). st = (s\<lparr>fs_stack := xs\<rparr>, env, b)"], goal_cases)
    case 1
    show ?case using st(1) v pop1_append [of s xs v] by (simp add: tr_defs)
  next
    case (2 a st')
    then have st': "st' = (s\<lparr>fs_stack := xs\<rparr>, env, b)" by simp
    show ?case unfolding st'
    proof (rule whenever_tr, rule tr_memory_quiet [OF C ok1], goal_cases)
      case (1 m st1)
      obtain s1 env1 b1 where st1: "st1 = (s1, env1, b1)" by (cases st1)
      show ?case unfolding st1
      proof (rule whenever_tr, rule tr_prepare_addr_straight [OF C], goal_cases)
        case (1 r st2)
        then show ?case using fin [of s1 env1 b1 _ r] \<open>case (m, st1) of (m, st) \<Rightarrow> quiet C G E T (s\<lparr>fs_stack := xs\<rparr>, env, b) st\<close> st1
          by (cases st2) simp
      qed
    qed
  qed
  then show "whenever (translate_op_load C l memarg (s, env, b)) (\<lambda>(u, st). step_done C G E T (s, env, b) xs [snd (load_opcode l)] st)"
    unfolding translate_op_load_def l prod.case snd_conv by (rule whenever_tr) simp
qed


lemma store_fair:
  assumes C: "builder_contract C G" and "typing_inv C G V E T (s, env, b) vs" and "reachable s"
    and "on_top (apply_type [t, u] []) vs = Some vs'"
  shows "fair C G V E T vs' (translate_store C memarg opc (s, env, b))"
proof (rule entity_fair [OF assms(2-4)])
  fix xs ws assume st: "fs_stack s = xs @ ws" "typed_list C G b ws [t, u]" and ok: "entities_ok C G E T (s, env, b)"
  then obtain x v where v: "ws = [x, v]" by (auto simp: typed_list_2)
  let ?D = "step_done C G E T (s, env, b) xs []"
  have ok1: "entities_ok C G E T (s\<lparr>fs_stack := xs\<rparr>, env, b)" using ok by simp
  have fin: "whenever (unwrap_or_unreachable r (\<lambda>(flags, _, base). tr_emit C (Store opc flags v base 0)) (s1, env1, b2)) (\<lambda>(u, st). ?D st)"
    if q: "quiet C G E T (s\<lparr>fs_stack := xs\<rparr>, env, b) (s1, env1, b1)" and b2: "straight C G b1 b2" for r s1 env1 b1 b2
  proof (cases r)
    case Unreachable
    have "?D (s1\<lparr>reachable := False\<rparr>, env1, b2)"
      by (rule step_doneI [OF q b2, of _ _ _ "[]"]) (use q in \<open>simp_all add: quiet_def\<close>)
    then show ?thesis by (simp add: Unreachable unwrap_or_unreachable_def tr_defs)
  next
    case (Reachable a)
    obtain fl y base where a: "a = (fl, y, base)" by (cases a)
    have 2: "straight C G b1 (snd (ins_inst C (Store opc fl v base 0) b2))" by (intro straight_rules C b2 no_branches)
    have "?D (s1, env1, snd (ins_inst C (Store opc fl v base 0) b2))"
      by (rule step_doneI [OF q 2, of _ _ _ "[]"]) (use q in \<open>simp_all add: quiet_def\<close>)
    then show ?thesis by (simp add: Reachable a unwrap_or_unreachable_def tr_defs case_prod_unfold)
  qed
  let ?rest = "\<lambda>vt. tr_then (tr_memory C (ma_memory memarg))
     (\<lambda>mem. tr_then (tr_prepare_addr C mem x (mem_op_size opc vt) memarg)
     (\<lambda>r. unwrap_or_unreachable r (\<lambda>(flags, _, base). tr_emit C (Store opc flags v base 0))))"
  have eq: "translate_store C memarg opc (s, env, b) = ?rest (value_type_of C b v) (s\<lparr>fs_stack := xs\<rparr>, env, b)"
    using pop1_append [of s "xs @ [x]" v] pop1_append [of "s\<lparr>fs_stack := xs @ [x]\<rparr>" xs x] st(1) v
    by (simp add: translate_store_def tr_pop1_def tr_state_def tr_type_of_def tr_ask_def tr_then_def)
  show "whenever (translate_store C memarg opc (s, env, b)) (\<lambda>(u, st). ?D st)"
    unfolding eq
  proof (rule whenever_tr, rule tr_memory_quiet [OF C ok1], goal_cases)
    case (1 m st1)
    obtain s1 env1 b1 where st1: "st1 = (s1, env1, b1)" by (cases st1)
    show ?case unfolding st1
    proof (rule whenever_tr, rule tr_prepare_addr_straight [OF C], goal_cases)
      case (1 r st2)
      then show ?case using fin [of s1 env1 b1 _ r] \<open>case (m, st1) of (m, st) \<Rightarrow> quiet C G E T (s\<lparr>fs_stack := xs\<rparr>, env, b) st\<close> st1
        by (cases st2) simp
    qed
  qed
qed

lemma ref_null_fair:
  assumes C: "builder_contract C G" and "typing_inv C G V E T (s, env, b) vs" and "reachable s"
    and t: "tc_ref T h = Some t" and "on_top (apply_type [] [t]) vs = Some vs'"
  shows "fair C G V E T vs' (translate_op_ref_null C h (s, env, b))"
proof (rule entity_fair [OF assms(2,3,5)])
  fix xs ws assume st: "fs_stack s = xs @ ws" "typed_list C G b ws []" and ok: "entities_ok C G E T (s, env, b)"
  from ok have e: "env_of E env" and ctx: "ctx_ok C G E T b" by (simp_all add: entities_ok_def)
  from ctx t obtain fl where "block_param_type E (WP_Ref \<lparr>wp_is_nullable = True, wp_heap_type = h\<rparr>) = Ok (t, fl)"
    unfolding ctx_ok_def by blast
  then obtain hty where h: "env_convert_heap_type env h = Ok hty" "env_reference_type env hty = Ok (t, fl)"
    using env_of_types(2) [OF e, of "WP_Ref \<lparr>wp_is_nullable = True, wp_heap_type = h\<rparr>"] by auto
  have ty: "is_int_ty t \<and> canonical t"
    using h(2) ctx env_of_types(1) [OF e]
    by (auto simp: env_reference_type_def reference_type_def ctx_ok_def split: WasmHeapTopTypeInner.splits)
  let ?n = "ins C (Iconst t 0) b"
  have 1: "straight C G b (snd ?n)" and "typed C G (snd ?n) (fst ?n) t"
    using ins_typed [OF C, of "Iconst t 0" b "fst ?n" "snd ?n" t] ty by (auto simp: value_args_def result_type_def)
  moreover have "step_done C G E T (s, env, b) xs [t] (s\<lparr>fs_stack := xs @ [fst ?n]\<rparr>, env, snd ?n)"
    by (rule step_doneI [OF quiet_refl [OF ok] 1, of _ _ _ "[fst ?n]"]) (use calculation ty in simp_all)
  ultimately show "whenever (translate_op_ref_null C h (s, env, b)) (\<lambda>(u, st). step_done C G E T (s, env, b) xs [t] st)"
    using st by (auto simp: translate_op_ref_null_def translate_ref_null_def h whenever_def tr_defs case_prod_unfold)
qed


section \<open>Calls\<close>

lemma finish_call_done:
  assumes q: "quiet C G E T (s0, env, b) (s1, env1, b1)" and cs: "control_stack s0 = control_stack s"
    and d: "call_done C G E b1 us (n, env2, b2)" and "fs_stack s1 = xs @ vs" and "k = length vs" and "list_all canonical us"
  shows "whenever (finish_call C sg k n (s1, env2, b2)) (\<lambda>(u, st). step_done C G E T (s, env, b) xs us st)"
proof -
  have e: "env_of E env2" and 2: "straight C G b1 b2" and ty: "typed_list C G b2 (inst_results C b2 n) us"
    using d by (auto simp: call_done_def)
  let ?st = "(s1\<lparr>fs_stack := xs @ inst_results C b2 n\<rparr>, env1, b2)"
  have "step_done C G E T (s, env, b) xs us ?st"
    by (rule step_doneI [OF q 2 cs, of _ _ "inst_results C b2 n"]) (use ty assms(6) in simp_all)
  then have "step_done C G E T (s, env, b) xs us (s1\<lparr>fs_stack := xs @ inst_results C b2 n\<rparr>, env2, b2)"
    using e by (simp add: step_done_def)
  with popn_append [OF assms(4)] assms(5) show ?thesis
    by (auto simp: whenever_def finish_call_def tr_defs)
qed

lemma signature_canonical:
  assumes "func_type_sig E x = Ok sg" and "pointer_type E \<in> {IR_I32, IR_I64}"
  shows "list_all canonical (drop 2 (sig_params sg))" "list_all canonical (sig_returns sg)"
proof -
  have "list_all canonical us" if "collect (\<lambda>t. value_type t (pointer_type E)) ts = Ok us" for ts us
    using that by (induction ts arbitrary: us) (auto intro: value_type_canonical [OF _ assms(2)])
  with assms(1) show "list_all canonical (drop 2 (sig_params sg))" "list_all canonical (sig_returns sg)"
    by (auto simp: func_type_sig_def wasm_call_signature_def blank_sig_def Let_def)
qed

lemma function_types_canonical:
  assumes "entities_ok C G E T (s, env, b)" and "tc_func T x = Some ty \<or> tc_type T x = Some ty"
  shows "list_all canonical (snd ty)"
proof -
  from assms have p: "pointer_type E \<in> {IR_I32, IR_I64}" and "\<exists>y sg. func_type_sig E y = Ok sg \<and> sig_fits ty sg"
    unfolding entities_ok_def ctx_ok_def by blast+
  then obtain y sg where "func_type_sig E y = Ok sg" "sig_fits ty sg" by blast
  with signature_canonical [OF this(1) p] show ?thesis by (simp add: sig_fits_def)
qed

lemma call_fair:
  assumes C: "builder_contract C G" and "typing_inv C G V E T (s, env, b) vs" and "reachable s"
    and t: "tc_func T x = Some ty" and "on_top (apply_type (fst ty) (snd ty)) vs = Some vs'"
  shows "fair C G V E T vs' (translate_op_call C x (s, env, b))"
proof (rule entity_fair [OF assms(2,3,5)])
  fix xs ws assume st: "fs_stack s = xs @ ws" "typed_list C G b ws (fst ty)" and ok: "entities_ok C G E T (s, env, b)"
  show "whenever (translate_op_call C x (s, env, b)) (\<lambda>(u, st). step_done C G E T (s, env, b) xs (snd ty) st)"
    unfolding translate_op_call_def
  proof (rule whenever_tr, rule tr_direct_func_quiet [OF C ok t], goal_cases)
    case (1 p st1)
    obtain f n where p: "p = (f, n)" by (cases p)
    obtain s1 env1 b1 where st1: "st1 = (s1, env1, b1)" by (cases st1)
    let ?sg = "ext_func_signature C b1 f"
    from 1 have q: "quiet C G E T (s, env, b) (s1, env1, b1)" and f: "cv_func G b1 f" "cv_sig G b1 ?sg"
      "sig_fits ty (signature_of C b1 ?sg)" "n = length (fst ty)" by (simp_all add: p st1)
    from q st have stack: "fs_stack s1 = xs @ ws" and b1: "straight C G b b1" and e: "env_of E env1"
      by (auto simp: quiet_def entities_ok_def)
    have ws: "typed_list C G b1 ws (fst ty)" by (rule keeps_butD(2) [OF straightD(1) [OF b1] st(2)])
    have n: "n = length ws" using f(4) list_all2_lengthD [OF ws] by simp
    note args = call_args_same [OF ws f(3) stack f(4), of env1]
    have "whenever (tr_then (translate_call C x f ws) (finish_call C ?sg n) (s1, env1, b1)) (\<lambda>(u, st). step_done C G E T (s, env, b) xs (snd ty) st)"
    proof (rule whenever_tr [where Q = "\<lambda>(n, s2, env2, b2). s2 = s1 \<and> call_done C G E b1 (snd ty) (n, env2, b2)"], goal_cases)
      case 1
      show ?case using direct_call_done [OF C e f(1,2), of x ws] f(3)
        by (auto simp: whenever_def translate_call_def sig_fits_def)
    next
      case (2 m st2)
      obtain s2 env2 b2 where st2: "st2 = (s2, env2, b2)" by (cases st2)
      have can: "list_all canonical (snd ty)" using function_types_canonical [OF ok, of x] t by simp
      from 2 st2 have "s2 = s1" "call_done C G E b1 (snd ty) (m, env2, b2)" by auto
      with finish_call_done [OF q refl _ stack n can] show ?case by (simp add: st2)
    qed
    then show ?case using args by (simp add: p st1 tr_then_def tr_ask_def)
  qed
qed

lemma call_indirect_fair:
  assumes C: "builder_contract C G" and "typing_inv C G V E T (s, env, b) vs" and "reachable s"
    and t: "tc_type T x = Some ty" and "on_top (apply_type (fst ty @ [IR_I32]) (snd ty)) vs = Some vs'"
  shows "fair C G V E T vs' (translate_op_call_indirect C x tbl (s, env, b))"
proof (rule entity_fair [OF assms(2,3,5)])
  fix xs ws' assume st': "fs_stack s = xs @ ws'" "typed_list C G b ws' (fst ty @ [IR_I32])" and ok: "entities_ok C G E T (s, env, b)"
  from list_all2_split [OF st'(2)] obtain ws c where st: "ws' = ws @ [c]" "typed_list C G b ws (fst ty)"
    by (auto simp: typed_list_1)
  let ?D = "step_done C G E T (s, env, b) xs (snd ty)"
  show "whenever (translate_op_call_indirect C x tbl (s, env, b)) (\<lambda>(u, st). ?D st)"
    unfolding translate_op_call_indirect_def
  proof (rule whenever_tr, rule tr_indirect_sig_quiet [OF C ok t], goal_cases)
    case (1 p st1)
    obtain r n where p: "p = (r, n)" by (cases p)
    obtain s1 env1 b1 where st1: "st1 = (s1, env1, b1)" by (cases st1)
    from 1 have q: "quiet C G E T (s, env, b) (s1, env1, b1)" and r: "cv_sig G b1 r"
      "sig_fits ty (signature_of C b1 r)" "n = length (fst ty)" by (simp_all add: p st1)
    from q st st'(1) have stack: "fs_stack s1 = (xs @ ws) @ [c]" and b1: "straight C G b b1" and ok1: "entities_ok C G E T (s1, env1, b1)"
      and cs: "control_stack s1 = control_stack s" by (auto simp: quiet_def)
    let ?s1 = "s1\<lparr>fs_stack := xs @ ws\<rparr>"
    have ws: "typed_list C G b1 ws (fst ty)" by (rule keeps_butD(2) [OF straightD(1) [OF b1] st(2)])
    have n: "n = length ws" using r(3) list_all2_lengthD [OF ws] by simp
    have args: "call_args C r n (?s1, env1, b1) = Ok (ws, ?s1, env1, b1)"
      by (rule call_args_same [OF ws r(2) _ r(3)]) simp
    have ok1': "entities_ok C G E T (?s1, env1, b1)" using ok1 by simp
    have "whenever (tr_then (tr_table C tbl) (\<lambda>table. tr_then (translate_call_indirect C tbl table x r c ws)
        (\<lambda>call. unwrap_or_unreachable call (finish_call C r n))) (?s1, env1, b1)) (\<lambda>(u, st). ?D st)"
    proof (rule whenever_tr, rule tr_table_quiet [OF C ok1'], goal_cases)
      case (1 table st2)
      obtain s2 env2 b2 where st2: "st2 = (s2, env2, b2)" by (cases st2)
      with 1 have q2: "quiet C G E T (?s1, env1, b1) (s2, env2, b2)" by simp
      then have stack2: "fs_stack s2 = xs @ ws" and b2: "straight C G b1 b2" and e2: "env_of E env2" by (auto simp: quiet_def entities_ok_def)
      have q': "quiet C G E T (s\<lparr>fs_stack := xs @ ws\<rparr>, env, b) (s2, env2, b2)"
        using q2 q straight_trans [OF b1 b2] by (simp add: quiet_def)
      have r2: "cv_sig G b2 r" "signature_of C b2 r = signature_of C b1 r"
        using keeps_butD(9,10) [OF straightD(1) [OF b2] r(1)] by auto
      show ?case unfolding st2
      proof (rule whenever_tr [where Q = "\<lambda>(m, s3, env3, b3). s3 = s2 \<and> env_of E env3 \<and> straight C G b2 b3 \<and>
          (\<forall>call. m = Reachable call \<longrightarrow> call_done C G E b2 (snd ty) (call, env3, b3))"], goal_cases)
        case 1
        show ?case using indirect_call_done [OF C e2 r2(1), of tbl table x c ws] r(2) r2(2)
          by (auto simp: whenever_def translate_call_indirect_def sig_fits_def)
      next
        case (2 m st3)
        obtain s3 env3 b3 where st3: "st3 = (s3, env3, b3)" by (cases st3)
        with 2 have m: "s3 = s2" "env_of E env3" "straight C G b2 b3"
          "\<forall>call. m = Reachable call \<longrightarrow> call_done C G E b2 (snd ty) (call, env3, b3)" by auto
        show ?case
        proof (cases m)
          case (Reachable call)
          have can: "list_all canonical (snd ty)" using function_types_canonical [OF ok, of x] t by simp
          have d: "call_done C G E b2 (snd ty) (call, env3, b3)" using m(4) Reachable by simp
          from finish_call_done [OF q' _ d stack2 n can, of s r] show ?thesis
            by (simp add: st3 m(1) Reachable unwrap_or_unreachable_def)
        next
          case Unreachable
          have "?D (s2\<lparr>reachable := False\<rparr>, env2, b3)"
            by (rule step_doneI [OF q' m(3), of _ _ _ ws]) (use stack2 in simp_all)
          then have "?D (s2\<lparr>reachable := False\<rparr>, env3, b3)" using m(2) by (simp add: step_done_def)
          then show ?thesis by (simp add: Unreachable st3 m(1) unwrap_or_unreachable_def tr_defs)
        qed
      qed
    qed
    then show ?case using args pop1_append [OF stack] by (simp add: p st1 tr_then_def tr_pop1_def tr_state_def)
  qed
qed

text \<open>Operators whose hooks are not implemented never return.\<close>

lemma unimplemented:
  "translate_bulk C bulk st \<noteq> Ok r" "translate_op_return_call C f st \<noteq> Ok r" "translate_op_return_call_indirect C ty tbl st \<noteq> Ok r"
  "translate_op_call_ref V C ty st \<noteq> Ok r" "translate_op_return_call_ref C ty st \<noteq> Ok r"
  by (cases bulk; simp add: translate_bulk_def hook_defs todo_def tr_pops3_def tr_of_def tr_push1_def)
    (auto simp: translate_op_return_call_def translate_op_return_call_indirect_def translate_op_call_ref_def
      translate_op_return_call_ref_def hook_defs todo_def tr_of_def)

end
