(* ===== verification/Control_Typing.thy ===== *)
theory Control_Typing
  imports Entity_Typing
begin

text \<open>
  The operators that change the control flow keep the typing invariant, in reachable code and in
  unreachable code.
\<close>

section \<open>Branch instructions\<close>

lemma canonicalise_same:
  assumes "typed_list C G b vs ts" and "list_all canonical ts"
  shows "canonicalise_v128_values C vs (s, env, b) = Ok (vs, s, env, b)"
proof -
  have "\<not> list_ex (\<lambda>v. is_non_canonical_v128 (value_type_of C b v)) vs"
    using assms by (induction vs ts rule: list_all2_induct) (auto simp: typed_def canonical_def is_non_canonical_v128_def)
  then show ?thesis by (simp add: canonicalise_v128_values_def tr_defs)
qed

text \<open>What a branch does: its targets get it as a predecessor, which did not exist before.\<close>

definition branched :: "'b clif_ops \<Rightarrow> 'b clif_view \<Rightarrow> ir_Block set \<Rightarrow> ir_Inst \<Rightarrow> 'b \<Rightarrow> 'b \<Rightarrow> bool" where
  "branched C G K n b b' \<longleftrightarrow> keeps C G b b' \<and> cv_entered G b' = cv_entered G b \<and> cv_current G b' = cv_current G b \<and>
     (\<not> is_unreachable C b \<longrightarrow> \<not> is_unreachable C b') \<and> n \<notin> cv_insts G b \<and>
     cv_preds G b' = (\<lambda>k. if k \<in> K then insert n (cv_preds G b k) else cv_preds G b k)"

lemma inst_branched:
  assumes "builder_contract C G" and "ins_inst C i b = (n, b')" and "list_all (branch_fits C G b) (branches i)"
  shows "branched C G (fst ` set (branches i)) n b b'"
  using contract_inst [OF assms(1,2)] assms(3) by (simp add: branched_def)

lemma jump_run:
  assumes C: "builder_contract C G" and "cv_block G b k" and "typed_list C G b vs (cv_params G b k)"
    and "list_all canonical (cv_params G b k)"
  obtains n b' where "canonicalise_then_jump C k vs (s, env, b) = Ok (n, s, env, b')" "branched C G {k} n b b'"
proof -
  obtain n b' where i: "ins_inst C (Jump k vs) b = (n, b')" by fastforce
  have "branched C G {k} n b b'"
    using inst_branched [OF C i] assms(2,3) by (simp add: branches_def branch_fits_def)
  moreover have "canonicalise_then_jump C k vs (s, env, b) = Ok (n, s, env, b')"
    using canonicalise_same [OF assms(3,4)] i by (simp add: canonicalise_then_jump_def tr_defs)
  ultimately show thesis using that by blast
qed

lemma brif_run:
  assumes C: "builder_contract C G" and "cv_block G b k" and "typed_list C G b vs (cv_params G b k)"
    and "list_all canonical (cv_params G b k)"
    and "cv_block G b l" and "typed_list C G b ws (cv_params G b l)" and "list_all canonical (cv_params G b l)"
  obtains n b' where "canonicalise_brif C c k vs l ws (s, env, b) = Ok (n, s, env, b')" "branched C G {k, l} n b b'"
proof -
  obtain n b' where i: "ins_inst C (Brif c k vs l ws) b = (n, b')" by fastforce
  have "branched C G {k, l} n b b'"
    using inst_branched [OF C i] assms(2,3,5,6) by (simp add: branches_def branch_fits_def)
  moreover have "canonicalise_brif C c k vs l ws (s, env, b) = Ok (n, s, env, b')"
    using canonicalise_same [OF assms(3,4)] canonicalise_same [OF assms(6,7)] i by (simp add: canonicalise_brif_def tr_defs)
  ultimately show thesis using that by blast
qed

lemma branchedD:
  assumes "branched C G K n b b'"
  shows "keeps C G b b'" "cv_entered G b' = cv_entered G b" "n \<notin> cv_insts G b" "cv_preds G b k \<subseteq> cv_preds G b' k"
    "k \<in> K \<Longrightarrow> n \<in> cv_preds G b' k" "\<not> is_unreachable C b \<Longrightarrow> \<not> is_unreachable C b'" "cv_current G b' = cv_current G b"
  using assms by (auto simp: branched_def)

section \<open>Targets of branches\<close>

text \<open>Frames that are marked as branched to, by branches that were added.\<close>

definition marks :: "'b clif_view \<Rightarrow> 'b \<Rightarrow> 'b \<Rightarrow> ControlStackFrame \<Rightarrow> ControlStackFrame \<Rightarrow> bool" where
  "marks G b b' tf tf' \<longleftrightarrow> tf' = tf \<or>
     tf' = set_branched_to_exit tf \<and> (\<exists>n. n \<in> cv_preds G b' (fr_destination tf) \<and> n \<notin> cv_insts G b)"

lemma marked_simps [simp]: "fr_destination (set_branched_to_exit tf) = fr_destination tf"
  "own_branch (set_branched_to_exit tf) = own_branch tf" "frame_blocks (set_branched_to_exit tf) = frame_blocks tf"
  by (cases tf rule: own_branch.cases; simp; fail)+ (cases tf rule: frame_blocks.cases; simp)

lemma frame_shape_marked:
  "frame_shape G V E b n tf f \<Longrightarrow> frame_shape G V E b n (set_branched_to_exit tf) f"
  by (cases tf) (auto simp: frame_shape_def Let_def split: vkind.splits)

lemma own_branch_old:
  assumes "builder_contract C G" and "frame_ok G V E b n tf f"
  shows "own_branch tf \<subseteq> cv_insts G b"
proof (cases tf rule: own_branch.cases)
  case (1 dst m ph np nr sz ex bt hr)
  then have "m \<in> cv_preds G b dst" using assms(2) by (auto simp: frame_ok_def frame_shape_def Let_def split: vkind.splits)
  with contract_preds [OF assms(1)] 1 show ?thesis by auto
qed auto

lemma frame_ok_marked:
  assumes C: "builder_contract C G" and ok: "frame_ok G V E b n tf f" and k: "keeps C G b b'" and m: "marks G b b' tf tf'"
    and "\<forall>k \<in> set (frame_blocks tf). (cv_entered G b' k \<longrightarrow> cv_entered G b k) \<and> cv_preds G b k \<subseteq> cv_preds G b' k"
  shows "frame_ok G V E b' n tf' f"
proof -
  have 1: "frame_ok G V E b' n tf f" by (rule frame_ok_keeps [OF ok k assms(5)])
  show ?thesis
  proof (cases "tf' = tf")
    case False
    with m obtain x where x: "tf' = set_branched_to_exit tf" "x \<in> cv_preds G b' (fr_destination tf)" "x \<notin> cv_insts G b"
      by (auto simp: marks_def)
    with own_branch_old [OF C ok] have "x \<in> cv_preds G b' (fr_destination tf) - own_branch tf" by blast
    with 1 x(1) show ?thesis by (auto simp: frame_ok_def frame_shape_marked)
  qed (use 1 in simp)
qed

lemma marks_blocks: "marks G b b' tf tf' \<Longrightarrow> frame_blocks tf' = frame_blocks tf"
  by (auto simp: marks_def)

lemma frames_ok_marked:
  assumes C: "builder_contract C G" and ok: "frames_ok G V E b cs vs" and k: "keeps C G b b'" and m: "list_all2 (marks G b b') cs cs'"
    and "\<forall>tf \<in> set cs. \<forall>k \<in> set (frame_blocks tf).
      (cv_entered G b' k \<longrightarrow> cv_entered G b k) \<and> cv_preds G b k \<subseteq> cv_preds G b' k"
  shows "frames_ok G V E b' cs' vs"
proof -
  have "map frame_blocks cs' = map frame_blocks cs"
    using m by (induction cs cs' rule: list_all2_induct) (simp_all add: marks_blocks)
  moreover have "frame_ok G V E b' n (cs' ! i) f" if "i < length cs" "frame_ok G V E b n (cs ! i) f" for i n f
    by (rule frame_ok_marked [OF C that(2) k list_all2_nthD [OF m that(1)]]) (use assms(5) that(1) nth_mem in blast)
  ultimately show ?thesis using ok list_all2_lengthD [OF m] by (simp add: frames_ok_def)
qed


lemma frames_ok_nth:
  "frames_ok G V E b cs vs \<Longrightarrow> i < length vs \<Longrightarrow> frame_ok G V E b (length (stack_types (take i vs))) (cs ! i) (vs ! i)"
  "frames_ok G V E b cs vs \<Longrightarrow> length cs = length vs"
  by (simp_all add: frames_ok_def)

lemma frame_target:
  assumes "frame_ok G V E b n tf f"
  shows "cv_block G b (br_destination tf)" "cv_params G b (br_destination tf) = label_types f"
    "branch_arity tf = length (label_types f)" "list_all canonical (label_types f)"
    "set_branched_to_exit tf = tf \<or> br_destination tf = fr_destination tf"
  using assms
  by (cases tf; cases "vf_kind f"; simp add: frame_ok_def frame_shape_def Let_def label_types_def branch_arity_def)+

lemma branch_target_run:
  assumes ok: "frames_ok G V E b (control_stack s) vs" and d: "frame_at vs d = Some f"
  obtains i k where "i < length (control_stack s)" "k = br_destination (control_stack s ! i)"
    "branch_target d s = Ok ((length (label_types f), k),
       s\<lparr>control_stack := (control_stack s)[i := set_branched_to_exit (control_stack s ! i)]\<rparr>)"
    "cv_block G b k" "cv_params G b k = label_types f" "list_all canonical (label_types f)"
    "set_branched_to_exit (control_stack s ! i) = control_stack s ! i \<or> k = fr_destination (control_stack s ! i)"
proof -
  let ?i = "length vs - 1 - d"
  from d have i: "d < length vs" "f = vs ! ?i" by (auto simp: frame_at_def split: if_splits)
  then have "?i < length vs" by simp
  note t = frame_target [OF frames_ok_nth(1) [OF ok this]]
  have l: "length (control_stack s) = length vs" by (rule frames_ok_nth(2) [OF ok])
  with i have "control_index d s = Ok ?i" by (auto simp: control_index_def Let_def)
  then have "branch_target d s = Ok ((length (label_types f), br_destination (control_stack s ! ?i)),
      s\<lparr>control_stack := (control_stack s)[?i := set_branched_to_exit (control_stack s ! ?i)]\<rparr>)"
    using t(3) i(2) by (simp add: branch_target_def Let_def)
  with t i l show thesis by (intro that [of ?i]) auto
qed

lemma mark_one:
  assumes "i < length cs" and "n \<in> cv_preds G b' k" and "n \<notin> cv_insts G b"
    and "set_branched_to_exit (cs ! i) = cs ! i \<or> k = fr_destination (cs ! i)"
  shows "list_all2 (marks G b b') cs (cs[i := set_branched_to_exit (cs ! i)])"
  using assms by (auto simp: list_all2_conv_all_nth nth_list_update marks_def)

section \<open>Opening and closing the invariant\<close>

definition same_caches :: "FuncTranslationState \<Rightarrow> FuncTranslationState \<Rightarrow> bool" where
  "same_caches s s' \<longleftrightarrow> fs_globals s' = fs_globals s \<and> fs_functions s' = fs_functions s \<and> fs_signatures s' = fs_signatures s"

lemma live_parts:
  assumes "typing_inv C G V E T (s, env, b) vs" and "reachable s"
  obtains us f os where "vs = us @ [f]" "vf_ops f = Some os" "frames_ok G V E b (control_stack s) (us @ [f])"
    "typed_list C G b (fs_stack s) ((stack_types us @ frame_dup f) @ os)" "list_all canonical ((stack_types us @ frame_dup f) @ os)"
    "\<not> is_unreachable C b" "common_inv C G E T (s, env, b) (us @ [f])"
proof -
  from assms have com: "common_inv C G E T (s, env, b) vs" and live: "live_inv C G V E s b vs" by (simp_all add: typing_inv_def)
  from com have "vs \<noteq> []" by (simp add: common_inv_def)
  then obtain us f where vs: "vs = us @ [f]" by (cases vs rule: rev_cases) auto
  with live obtain os where "vf_ops f = Some os" by (auto simp: live_inv_def)
  with vs live com that show thesis by (simp add: live_inv_def segment_Some)
qed

lemma common_step:
  assumes "common_inv C G E T (s, env, b) vs" and "keeps C G b b'" and "same_caches s s'"
    and "vs' \<noteq> []" and "vf_results (hd vs') = vf_results (hd vs)"
  shows "common_inv C G E T (s', env, b') vs'"
  using assms caches_keeps [OF _ assms(2)] by (intro common_keeps [OF assms(1,2) _ _ assms(4,5)]) (auto simp: common_inv_def same_caches_def)

lemma live_intro:
  assumes "common_inv C G E T (s, env, b) vs" and "keeps C G b b'" and "same_caches s s'" and "vf_results (hd (us @ [f])) = vf_results (hd vs)"
    and "frames_ok G V E b' (control_stack s') (us @ [f])" and "vf_ops f = Some os"
    and "typed_list C G b' (fs_stack s') ((stack_types us @ frame_dup f) @ os)" and "list_all canonical ((stack_types us @ frame_dup f) @ os)"
    and "\<not> is_unreachable C b'" and "reachable s'"
  shows "typing_inv C G V E T (s', env, b') (us @ [f])"
  using common_step [OF assms(1-3) _ assms(4)] assms(5-) by (simp add: typing_inv_def live_inv_def segment_Some)

lemma dead_intro:
  assumes "common_inv C G E T (s, env, b) vs" and "keeps C G b b'" and "same_caches s s'" and "vf_results (hd (us @ [f])) = vf_results (hd vs)"
    and "frames_ok G V E b' (control_stack s') (us @ [f])" and "fs_stack s' = xs @ zs"
    and "typed_list C G b' xs (stack_types us @ frame_dup f)" and "list_all canonical (stack_types us @ frame_dup f)"
    and "\<not> reachable s'"
  shows "typing_inv C G V E T (s', env, b') (us @ [f])"
proof -
  have "length (stack_types us @ frame_dup f) = length xs" using list_all2_lengthD [OF assms(7)] by simp
  then have "dead_inv C G V E s' b' (us @ [f])"
    unfolding dead_inv_def
    using assms(5-8) by (intro exI [of _ "control_stack s'"] exI [of _ "[]"] exI [of _ "us @ [f]"]) simp
  with common_step [OF assms(1-3) _ assms(4)] assms(9) show ?thesis by (simp add: typing_inv_def)
qed

text \<open>The checker takes operands of types \<open>ts\<close> from the top frame.\<close>

lemma apply_type_split:
  assumes "on_top (apply_type ts us') (us @ [f]) = Some vs'" and "vf_ops f = Some os"
  obtains r where "os = r @ ts" "vs' = us @ [f\<lparr>vf_ops := Some (r @ us')\<rparr>]"
  using assms by (auto simp: on_top_Some apply_type_def strip_suffix_Some)

lemma leave_split:
  assumes "on_top (leave ts) (us @ [f]) = Some vs'" and "vf_ops f = Some os"
  obtains r where "os = r @ ts" "vs' = us @ [f\<lparr>vf_ops := None\<rparr>]"
  using assms by (auto simp: on_top_Some leave_def give_up_def apply_type_def strip_suffix_Some bind_eq_Some_conv)

lemma hd_results_ops [simp]: "vf_results (hd (us @ [f\<lparr>vf_ops := x\<rparr>])) = vf_results (hd (us @ [f]))"
  by (cases us) simp_all

lemma live_split:
  assumes "typed_list C G b st (B @ r @ ts)"
  obtains xs zs ws where "st = (xs @ zs) @ ws" "typed_list C G b xs B" "typed_list C G b zs r" "typed_list C G b ws ts" "length ws = length ts"
proof -
  from list_all2_split [OF assms] obtain xs ys where 1: "st = xs @ ys" "typed_list C G b xs B" "typed_list C G b ys (r @ ts)" by blast
  from list_all2_split [OF 1(3)] obtain zs ws where 2: "ys = zs @ ws" "typed_list C G b zs r" "typed_list C G b ws ts" by blast
  show thesis by (rule that [OF _ 1(2) 2(2,3)]) (simp_all add: 1 2 list_all2_lengthD [OF 2(3)])
qed

section \<open>Branches that leave\<close>

lemma br_good:
  assumes C: "builder_contract C G" and inv: "typing_inv C G V E T (s, env, b) vs" and "reachable s"
    and chk: "check_branch vs d leave = Some vs'"
  shows "good C G V E T vs' (translate_br C d (s, env, b))"
proof (rule live_parts [OF inv assms(3)])
  fix us f os
  assume vs: "vs = us @ [f]" and os: "vf_ops f = Some os" and ok: "frames_ok G V E b (control_stack s) (us @ [f])"
    and st: "typed_list C G b (fs_stack s) ((stack_types us @ frame_dup f) @ os)"
    and can: "list_all canonical ((stack_types us @ frame_dup f) @ os)" and com: "common_inv C G E T (s, env, b) (us @ [f])"
  from chk obtain g where g: "frame_at (us @ [f]) d = Some g" "on_top (leave (label_types g)) (us @ [f]) = Some vs'"
    by (auto simp: check_branch_def vs split: option.splits)
  obtain r where r: "os = r @ label_types g" "vs' = us @ [f\<lparr>vf_ops := None\<rparr>]" by (rule leave_split [OF g(2) os])
  obtain i k where t: "i < length (control_stack s)" "k = br_destination (control_stack s ! i)"
    "branch_target d s = Ok ((length (label_types g), k),
       s\<lparr>control_stack := (control_stack s)[i := set_branched_to_exit (control_stack s ! i)]\<rparr>)"
    "cv_block G b k" "cv_params G b k = label_types g" "list_all canonical (label_types g)"
    "set_branched_to_exit (control_stack s ! i) = control_stack s ! i \<or> k = fr_destination (control_stack s ! i)"
    by (rule branch_target_run [OF ok g(1)])
  let ?cs = "(control_stack s)[i := set_branched_to_exit (control_stack s ! i)]"
  obtain ys zs ws where x: "fs_stack s = (ys @ zs) @ ws" "typed_list C G b ys (stack_types us @ frame_dup f)"
    "typed_list C G b zs r" "typed_list C G b ws (label_types g)" "length ws = length (label_types g)"
    by (rule live_split [OF st [unfolded r(1)]])
  obtain n b' where j: "canonicalise_then_jump C k ws (s\<lparr>control_stack := ?cs\<rparr>, env, b) = Ok (n, s\<lparr>control_stack := ?cs\<rparr>, env, b')"
    "branched C G {k} n b b'"
    using jump_run [OF C t(4), of ws "s\<lparr>control_stack := ?cs\<rparr>" env] x(4) t(5,6) by auto
  note B = branchedD [OF j(2)]
  let ?s' = "s\<lparr>control_stack := ?cs, fs_stack := ys @ zs, reachable := False\<rparr>"
  have run: "translate_br C d (s, env, b) = Ok ((), ?s', env, b')"
    using t(3) j(1) peekn_append [of "s\<lparr>control_stack := ?cs\<rparr>" "ys @ zs" ws] popn_append [of "s\<lparr>control_stack := ?cs\<rparr>" "ys @ zs" ws] x(1,5)
    by (simp add: translate_br_def tr_defs)
  have "frames_ok G V E b' ?cs (us @ [f])"
    by (rule frames_ok_marked [OF C ok B(1) mark_one [OF t(1) _ B(3) t(7)]]) (use B(2,4,5) in auto)
  then have "typing_inv C G V E T (?s', env, b') vs'"
    unfolding r(2)
    by (intro dead_intro [OF com B(1), of _ _ _ _ ys zs]) (use can keeps_butD(2) [OF B(1) x(2)] in \<open>simp_all add: same_caches_def\<close>)
  with run show ?thesis by (simp add: good_def)
qed


lemma give_up_leave: "vf_ops f = Some os \<Longrightarrow> on_top give_up (us @ [f]) = on_top (leave []) (us @ [f])"
  by (simp add: on_top_def give_up_def leave_def apply_type_def strip_suffix_def)

text \<open>Leaving without a branch.\<close>

lemma leave_straight:
  assumes inv: "typing_inv C G V E T (s, env, b) vs" and "reachable s" and chk: "on_top (leave ts) vs = Some vs'" and b': "straight C G b b'"
    and "fs_stack s = xs @ ws" "length ws = length ts"
  shows "typing_inv C G V E T (s\<lparr>fs_stack := xs, reachable := False\<rparr>, env, b') vs'"
proof (rule live_parts [OF inv assms(2)])
  fix us f os
  assume vs: "vs = us @ [f]" and os: "vf_ops f = Some os" and ok: "frames_ok G V E b (control_stack s) (us @ [f])"
    and st: "typed_list C G b (fs_stack s) ((stack_types us @ frame_dup f) @ os)"
    and can: "list_all canonical ((stack_types us @ frame_dup f) @ os)" and com: "common_inv C G E T (s, env, b) (us @ [f])"
  obtain r where r: "os = r @ ts" "vs' = us @ [f\<lparr>vf_ops := None\<rparr>]" by (rule leave_split [OF chk [unfolded vs] os])
  obtain ys zs us' where x: "fs_stack s = (ys @ zs) @ us'" "typed_list C G b ys (stack_types us @ frame_dup f)"
    "typed_list C G b zs r" "typed_list C G b us' ts" "length us' = length ts"
    by (rule live_split [OF st [unfolded r(1)]])
  have xs: "xs = ys @ zs" using x(1,5) assms(5,6) by (metis append_eq_append_conv)
  show ?thesis
    unfolding r(2)
    by (intro dead_intro [OF com straightD(1) [OF b'], of _ _ _ _ ys zs])
      (use xs can keeps_butD(2) [OF straightD(1) [OF b'] x(2)] frames_ok_straight [OF ok b'] in \<open>simp_all add: same_caches_def\<close>)
qed

lemma unreachable_good:
  assumes C: "builder_contract C G" and inv: "typing_inv C G V E T (s, env, b) vs" and reach: "reachable s" and chk: "on_top give_up vs = Some vs'"
  shows "good C G V E T vs' (tr_then (tr_emit C (Trap_inst TRAP_UNREACHABLE)) (\<lambda>_. tr_set_reachable False) (s, env, b))"
proof -
  obtain us f os where "vs = us @ [f]" "vf_ops f = Some os" by (rule live_parts [OF inv reach])
  with chk give_up_leave [of f os us] have "on_top (leave []) vs = Some vs'" by simp
  from leave_straight [OF inv reach this contract_emit [OF C no_branches(3)], of "fs_stack s" "[]"] show ?thesis
    by (simp add: good_def tr_defs)
qed

lemma hd_frame_returns:
  assumes "frames_ok G V E b (f0 # cs) (vs :: vframe list)"
  shows "num_return_values f0 = length (vf_results (hd vs))"
proof -
  from assms have "frame_ok G V E b 0 f0 (hd vs)" using frames_ok_nth [OF assms] by (cases vs) (fastforce simp: frames_ok_def)+
  then show ?thesis by (cases f0; cases "vf_kind (hd vs)"; simp add: frame_ok_def frame_shape_def Let_def)
qed

lemma return_good:
  assumes C: "builder_contract C G" and inv: "typing_inv C G V E T (s, env, b) vs" and reach: "reachable s"
    and chk: "on_top (leave (vf_results (hd vs))) vs = Some vs'"
  shows "good C G V E T vs' (translate_return C (s, env, b))"
proof (rule live_parts [OF inv reach])
  fix us f os
  assume vs: "vs = us @ [f]" and os: "vf_ops f = Some os" and ok: "frames_ok G V E b (control_stack s) (us @ [f])"
    and st: "typed_list C G b (fs_stack s) ((stack_types us @ frame_dup f) @ os)" and com: "common_inv C G E T (s, env, b) (us @ [f])"
  let ?ts = "vf_results (hd vs)"
  obtain r where r: "os = r @ ?ts" by (rule leave_split [OF chk [unfolded vs] os]) (use vs in simp)
  obtain ys zs ws where x: "fs_stack s = (ys @ zs) @ ws" "typed_list C G b ys (stack_types us @ frame_dup f)"
    "typed_list C G b zs r" "typed_list C G b ws ?ts" "length ws = length ?ts"
    by (rule live_split [OF st [unfolded r]])
  have sig: "sig_returns (func_signature C b) = ?ts" using com by (simp add: common_inv_def vs)
  have "map snd (filter (\<lambda>(i, _). True) (List.enumerate 0 (sig_returns (func_signature C b)))) = ?ts"
    by (simp add: sig case_prod_unfold)
  from bitcast_values_same [where ptys = "\<lambda>b. sig_returns (func_signature C b)" and P = "\<lambda>_. True", OF x(4) this x(1)] have cast: "bitcast_wasm_returns C ws (s, env, b) = Ok (ws, s, env, b)"
    by (simp add: bitcast_wasm_returns_def)
  have "control_stack s \<noteq> []" using frames_ok_nth(2) [OF ok] by auto
  then have count: "map_ok num_return_values (pm_index (control_stack s) 0) = Ok (length ws)"
    using hd_frame_returns [of G V E b "hd (control_stack s)" "tl (control_stack s)" "us @ [f]"] ok x(5)
    by (cases "control_stack s") (simp_all add: vs pm_index_Ok)
  let ?b' = "snd (ins_inst C (Return_inst ws) b)"
  have "translate_return C (s, env, b) = Ok ((), s\<lparr>fs_stack := ys @ zs, reachable := False\<rparr>, env, ?b')"
    using count cast peekn_append [OF x(1)] popn_append [OF x(1)] by (simp add: translate_return_def tr_defs case_prod_unfold)
  with leave_straight [OF inv reach chk contract_emit [OF C no_branches(7)] x(1,5)] show ?thesis by (simp add: good_def)
qed

section \<open>Conditional branches\<close>

text \<open>
  A conditional branch to a frame's block \<open>k\<close> and to a new block, which becomes the current one;
  \<open>flip\<close> says that the new block is the first target.
\<close>

definition either_brif :: "bool \<Rightarrow> 'b clif_ops \<Rightarrow> ir_Value \<Rightarrow> ir_Block \<Rightarrow> ir_Value list \<Rightarrow> ir_Block \<Rightarrow> (ir_Inst, 'b) tr" where
  "either_brif flip C c k ws nb = (if flip then canonicalise_brif C c nb [] k ws else canonicalise_brif C c k ws nb [])"

lemma cond_branch:
  assumes C: "builder_contract C G" and ok: "frames_ok G V E b cs vs" and "i < length cs"
    and "cv_block G b k" "cv_params G b k = ts" "list_all canonical ts"
    and mark: "set_branched_to_exit (cs ! i) = cs ! i \<or> k = fr_destination (cs ! i)" and b1: "straight C G b b1" and ws: "typed_list C G b ws ts"
  obtains nb b2 n b3 where "create_block C b1 = (nb, b2)" "either_brif flip C c k ws nb (s, env, b2) = Ok (n, s, env, b3)"
    "keeps C G b (switch_to_block C nb (seal_block C nb b3))" "\<not> is_unreachable C (switch_to_block C nb (seal_block C nb b3))"
    "frames_ok G V E (switch_to_block C nb (seal_block C nb b3)) (cs[i := set_branched_to_exit (cs ! i)]) vs"
proof -
  obtain nb b2 where nb: "create_block C b1 = (nb, b2)" by fastforce
  note c = contract_create_block [OF C nb]
  have b2: "straight C G b b2" by (rule straight_trans [OF b1 c(1)])
  note K = keeps_butD [OF straightD(1) [OF b2]]
  have k: "cv_block G b2 k" "cv_params G b2 k = ts" "typed_list C G b2 ws ts"
    using K(3,4) [OF assms(4)] K(2) [OF ws] assms(5) by auto
  obtain n b3 where j: "either_brif flip C c k ws nb (s, env, b2) = Ok (n, s, env, b3)" "branched C G {k, nb} n b2 b3"
  proof (cases flip)
    case True
    from brif_run [OF C c(3), of "[]" k ws c s env] k assms(6) c(4) that True show thesis
      by (auto simp: either_brif_def insert_commute)
  next
    case False
    from brif_run [OF C k(1), of ws nb "[]" c s env] k assms(6) c(3,4) that False show thesis by (auto simp: either_brif_def)
  qed
  note B = branchedD [OF j(2)]
  let ?b4 = "seal_block C nb b3" and ?b5 = "switch_to_block C nb (seal_block C nb b3)"
  note S = contract_seal [OF C, where b = b3 and k = nb] and W = contract_switch [OF C, where b = ?b4 and k = nb]
  have keep: "keeps C G b ?b5"
    by (rule keeps_trans' [OF keeps_trans' [OF keeps_trans' [OF straightD(1) [OF b2] B(1)] S(1)] W(1)])
  have new: "n \<notin> cv_insts G b" using B(3) K(6) by blast
  have fresh: "k' \<noteq> nb" if "cv_block G b k'" for k'
    using c(2) keeps_butD(3) [OF straightD(1) [OF b1] that] by blast
  have preds: "cv_preds G b k' \<subseteq> cv_preds G ?b5 k'" for k' using B(4) [of k'] W(2) S(2) straightD(2) [OF b2] by simp
  have "frames_ok G V E ?b5 (cs[i := set_branched_to_exit (cs ! i)]) vs"
    by (rule frames_ok_marked [OF C ok keep mark_one [OF assms(3) _ new mark]])
      (use preds fresh frames_ok_blocks [OF ok] B(2,5) S(2,3) W(2,3) straightD(3) [OF b2] in auto)
  moreover have "\<not> is_unreachable C ?b5" by (rule W(7)) (use B(5) S(2) in auto)
  ultimately show thesis using that [OF nb j(1) keep] by blast
qed


lemma cond_live:
  assumes com: "common_inv C G E T (s, env, b) (us @ [f])" and k: "keeps C G b b'" and "\<not> is_unreachable C b'"
    and "frames_ok G V E b' (control_stack s') (us @ [f])" and "typed_list C G b (fs_stack s') ((stack_types us @ frame_dup f) @ os)"
    and "list_all canonical ((stack_types us @ frame_dup f) @ os)" and "reachable s'" and "same_caches s s'"
  shows "typing_inv C G V E T (s', env, b') (us @ [f\<lparr>vf_ops := Some os\<rparr>])"
  by (rule live_intro [OF com k, where os = os]) (use assms keeps_butD(2) [OF k assms(5)] in simp_all)

lemma br_if_good:
  assumes C: "builder_contract C G" and inv: "typing_inv C G V E T (s, env, b) vs" and reach: "reachable s"
    and chk: "check_branch vs d (\<lambda>ts. apply_type (ts @ [IR_I32]) ts) = Some vs'"
  shows "good C G V E T vs' (translate_br_if C d (s, env, b))"
proof (rule live_parts [OF inv reach])
  fix us f os
  assume vs: "vs = us @ [f]" and os: "vf_ops f = Some os" and ok: "frames_ok G V E b (control_stack s) (us @ [f])"
    and st: "typed_list C G b (fs_stack s) ((stack_types us @ frame_dup f) @ os)"
    and can: "list_all canonical ((stack_types us @ frame_dup f) @ os)" and com: "common_inv C G E T (s, env, b) (us @ [f])"
  from chk obtain g where g: "frame_at (us @ [f]) d = Some g" "on_top (apply_type (label_types g @ [IR_I32]) (label_types g)) (us @ [f]) = Some vs'"
    by (auto simp: check_branch_def vs split: option.splits)
  obtain r where r: "os = r @ label_types g @ [IR_I32]" "vs' = us @ [f\<lparr>vf_ops := Some (r @ label_types g)\<rparr>]"
    by (rule apply_type_split [OF g(2) os])
  obtain ys zs ws' where x: "fs_stack s = (ys @ zs) @ ws'" "typed_list C G b ys (stack_types us @ frame_dup f)"
    "typed_list C G b zs r" "typed_list C G b ws' (label_types g @ [IR_I32])"
    by (rule live_split [OF st [unfolded r(1)]])
  from list_all2_split [OF x(4)] obtain ws c where w: "ws' = ws @ [c]" "typed_list C G b ws (label_types g)"
    by (auto simp: typed_list_1)
  let ?s1 = "s\<lparr>fs_stack := (ys @ zs) @ ws\<rparr>"
  obtain i k where t: "i < length (control_stack ?s1)" "k = br_destination (control_stack ?s1 ! i)"
    "branch_target d ?s1 = Ok ((length (label_types g), k),
       ?s1\<lparr>control_stack := (control_stack ?s1)[i := set_branched_to_exit (control_stack ?s1 ! i)]\<rparr>)"
    "cv_block G b k" "cv_params G b k = label_types g" "list_all canonical (label_types g)"
    "set_branched_to_exit (control_stack ?s1 ! i) = control_stack ?s1 ! i \<or> k = fr_destination (control_stack ?s1 ! i)"
    by (rule branch_target_run [of G V E b ?s1 "us @ [f]" d g]) (use ok g(1) in simp_all)
  then have t': "i < length (control_stack s)" "set_branched_to_exit (control_stack s ! i) = control_stack s ! i \<or> k = fr_destination (control_stack s ! i)"
    by simp_all
  let ?cs = "(control_stack s)[i := set_branched_to_exit (control_stack s ! i)]"
  let ?s2 = "s\<lparr>fs_stack := (ys @ zs) @ ws, control_stack := ?cs\<rparr>"
  obtain nb b2 n b3 where j: "create_block C b = (nb, b2)" "either_brif False C c k ws nb (?s2, env, b2) = Ok (n, ?s2, env, b3)"
    "keeps C G b (switch_to_block C nb (seal_block C nb b3))" "\<not> is_unreachable C (switch_to_block C nb (seal_block C nb b3))"
    "frames_ok G V E (switch_to_block C nb (seal_block C nb b3)) ?cs (us @ [f])"
    by (rule cond_branch [OF C ok t'(1) t(4,5,6) t'(2) straight_refl w(2)])
  have len: "length (label_types g) = length ws" using list_all2_lengthD [OF w(2)] by simp
  have "translate_br_if C d (s, env, b) = Ok ((), ?s2, env, switch_to_block C nb (seal_block C nb b3))"
    using pop1_append [of s "(ys @ zs) @ ws" c] x(1) w(1) t(3) j(1,2) peekn_append [of ?s2 "ys @ zs" ws]
    by (simp add: translate_br_if_def translate_br_if_args_def tr_defs either_brif_def len)
  moreover have "typing_inv C G V E T (?s2, env, switch_to_block C nb (seal_block C nb b3)) vs'"
    unfolding r(2) by (rule cond_live [OF com j(3,4)])
      (use j(5) reach list_all2_appendI [OF x(2) list_all2_appendI [OF x(3) w(2)]] can r(1) in \<open>simp_all add: same_caches_def\<close>)
  ultimately show ?thesis by (simp add: good_def)
qed

lemma br_on_null_good:
  assumes C: "builder_contract C G" and inv: "typing_inv C G V E T (s, env, b) vs" and reach: "reachable s"
    and chk: "check_branch vs d (\<lambda>ts. check_ref (\<lambda>t. (ts @ [t], ts @ [t]))) = Some vs'"
  shows "good C G V E T vs' (translate_br_on_null C d (s, env, b))"
proof (rule live_parts [OF inv reach])
  fix us f os
  assume vs: "vs = us @ [f]" and os: "vf_ops f = Some os" and ok: "frames_ok G V E b (control_stack s) (us @ [f])"
    and st: "typed_list C G b (fs_stack s) ((stack_types us @ frame_dup f) @ os)"
    and can: "list_all canonical ((stack_types us @ frame_dup f) @ os)" and com: "common_inv C G E T (s, env, b) (us @ [f])"
  from chk obtain g where g: "frame_at (us @ [f]) d = Some g" "on_top (check_ref (\<lambda>t. (label_types g @ [t], label_types g @ [t]))) (us @ [f]) = Some vs'"
    by (auto simp: check_branch_def vs split: option.splits)
  from check_ref_type [OF g(2), of os] os obtain t where ty: "is_int_ty t"
    "on_top (apply_type (label_types g @ [t]) (label_types g @ [t])) (us @ [f]) = Some vs'" by auto
  obtain r where r: "os = r @ label_types g @ [t]" "vs' = us @ [f\<lparr>vf_ops := Some (r @ label_types g @ [t])\<rparr>]"
    by (rule apply_type_split [OF ty(2) os])
  obtain ys zs ws' where x: "fs_stack s = (ys @ zs) @ ws'" "typed_list C G b ys (stack_types us @ frame_dup f)"
    "typed_list C G b zs r" "typed_list C G b ws' (label_types g @ [t])"
    by (rule live_split [OF st [unfolded r(1)]])
  from list_all2_split [OF x(4)] obtain ws v where w: "ws' = ws @ [v]" "typed_list C G b ws (label_types g)" "typed C G b v t"
    by (auto simp: typed_list_1)
  let ?s1 = "s\<lparr>fs_stack := (ys @ zs) @ ws\<rparr>"
  obtain i k where t: "i < length (control_stack ?s1)" "k = br_destination (control_stack ?s1 ! i)"
    "branch_target d ?s1 = Ok ((length (label_types g), k),
       ?s1\<lparr>control_stack := (control_stack ?s1)[i := set_branched_to_exit (control_stack ?s1 ! i)]\<rparr>)"
    "cv_block G b k" "cv_params G b k = label_types g" "list_all canonical (label_types g)"
    "set_branched_to_exit (control_stack ?s1 ! i) = control_stack ?s1 ! i \<or> k = fr_destination (control_stack ?s1 ! i)"
    by (rule branch_target_run [of G V E b ?s1 "us @ [f]" d g]) (use ok g(1) in simp_all)
  then have t': "i < length (control_stack s)" "set_branched_to_exit (control_stack s ! i) = control_stack s ! i \<or> k = fr_destination (control_stack s ! i)"
    by simp_all
  let ?cs = "(control_stack s)[i := set_branched_to_exit (control_stack s ! i)]"
  let ?s2 = "s\<lparr>fs_stack := (ys @ zs) @ ws, control_stack := ?cs\<rparr>"
  from ref_is_null_run [OF C w(3) ty(1), of ?s2 env] obtain c b1 where
    c: "tr_ref_is_null C v (?s2, env, b) = Ok (c, ?s2, env, b1)" "straight C G b b1" by blast
  obtain nb b2 n b3 where j: "create_block C b1 = (nb, b2)" "either_brif False C c k ws nb (?s2, env, b2) = Ok (n, ?s2, env, b3)"
    "keeps C G b (switch_to_block C nb (seal_block C nb b3))" "\<not> is_unreachable C (switch_to_block C nb (seal_block C nb b3))"
    "frames_ok G V E (switch_to_block C nb (seal_block C nb b3)) ?cs (us @ [f])"
    by (rule cond_branch [OF C ok t'(1) t(4,5,6) t'(2) c(2) w(2)])
  have len: "length (label_types g) = length ws" using list_all2_lengthD [OF w(2)] by simp
  let ?s3 = "s\<lparr>fs_stack := (ys @ zs) @ ws @ [v], control_stack := ?cs\<rparr>"
  have "translate_br_on_null C d (s, env, b) = Ok ((), ?s3, env, switch_to_block C nb (seal_block C nb b3))"
    using pop1_append [of s "(ys @ zs) @ ws" v] x(1) w(1) t(3) c(1) j(1,2) peekn_append [of ?s2 "ys @ zs" ws]
    by (simp add: translate_br_on_null_def translate_br_if_args_def tr_defs either_brif_def len)
  moreover have "typing_inv C G V E T (?s3, env, switch_to_block C nb (seal_block C nb b3)) vs'"
    unfolding r(2) by (rule cond_live [OF com j(3,4)])
      (use j(5) reach list_all2_appendI [OF x(2) list_all2_appendI [OF x(3) x(4)]] w(1) can r(1) in \<open>simp_all add: same_caches_def\<close>)
  ultimately show ?thesis by (simp add: good_def)
qed

lemma br_on_non_null_good:
  assumes C: "builder_contract C G" and inv: "typing_inv C G V E T (s, env, b) vs" and reach: "reachable s"
    and chk: "check_branch vs d (\<lambda>ts. if ts = [] then (\<lambda>_. None) else check_ref (\<lambda>t. (ts, butlast ts))) = Some vs'"
  shows "good C G V E T vs' (translate_br_on_non_null C d (s, env, b))"
proof (rule live_parts [OF inv reach])
  fix us f os
  assume vs: "vs = us @ [f]" and os: "vf_ops f = Some os" and ok: "frames_ok G V E b (control_stack s) (us @ [f])"
    and st: "typed_list C G b (fs_stack s) ((stack_types us @ frame_dup f) @ os)"
    and can: "list_all canonical ((stack_types us @ frame_dup f) @ os)" and com: "common_inv C G E T (s, env, b) (us @ [f])"
  from chk obtain g where g: "frame_at (us @ [f]) d = Some g" "label_types g \<noteq> []"
    "on_top (check_ref (\<lambda>t. (label_types g, butlast (label_types g)))) (us @ [f]) = Some vs'"
    by (auto simp: check_branch_def vs on_top_def split: option.splits if_splits)
  from check_ref_type [OF g(3), of os] os obtain t r0 where ty: "os = r0 @ [t]" "is_int_ty t"
    "on_top (apply_type (label_types g) (butlast (label_types g))) (us @ [f]) = Some vs'" by auto
  obtain r where r: "os = r @ label_types g" "vs' = us @ [f\<lparr>vf_ops := Some (r @ butlast (label_types g))\<rparr>]"
    by (rule apply_type_split [OF ty(3) os])
  define ls where "ls = butlast (label_types g)"
  have lt: "label_types g = ls @ [t]"
    using r(1) ty(1) g(2) by (metis append_butlast_last_id last_appendR last_snoc ls_def)
  obtain ys zs ws where x: "fs_stack s = (ys @ zs) @ ws" "typed_list C G b ys (stack_types us @ frame_dup f)"
    "typed_list C G b zs r" "typed_list C G b ws (label_types g)"
    by (rule live_split [OF st [unfolded r(1)]])
  from list_all2_split [OF x(4) [unfolded lt]] obtain ws' v where w: "ws = ws' @ [v]" "typed_list C G b ws' ls" "typed C G b v t"
    by (auto simp: typed_list_1)
  obtain i k where t: "i < length (control_stack s)" "k = br_destination (control_stack s ! i)"
    "branch_target d s = Ok ((length (label_types g), k),
       s\<lparr>control_stack := (control_stack s)[i := set_branched_to_exit (control_stack s ! i)]\<rparr>)"
    "cv_block G b k" "cv_params G b k = label_types g" "list_all canonical (label_types g)"
    "set_branched_to_exit (control_stack s ! i) = control_stack s ! i \<or> k = fr_destination (control_stack s ! i)"
    by (rule branch_target_run [OF ok g(1)])
  let ?cs = "(control_stack s)[i := set_branched_to_exit (control_stack s ! i)]"
  let ?s2 = "s\<lparr>control_stack := ?cs\<rparr>"
  from ref_is_null_run [OF C w(3) ty(2), of s env] obtain c b1 where
    c: "tr_ref_is_null C v (s, env, b) = Ok (c, s, env, b1)" "straight C G b b1" by blast
  obtain nb b2 n b3 where j: "create_block C b1 = (nb, b2)" "either_brif True C c k ws nb (?s2, env, b2) = Ok (n, ?s2, env, b3)"
    "keeps C G b (switch_to_block C nb (seal_block C nb b3))" "\<not> is_unreachable C (switch_to_block C nb (seal_block C nb b3))"
    "frames_ok G V E (switch_to_block C nb (seal_block C nb b3)) ?cs (us @ [f])"
    by (rule cond_branch [OF C ok t(1,4-7) c(2) x(4)])
  have len: "length (label_types g) = length ws" using list_all2_lengthD [OF x(4)] by simp
  let ?s3 = "s\<lparr>control_stack := ?cs, fs_stack := (ys @ zs) @ ws'\<rparr>"
  have "translate_br_on_non_null C d (s, env, b) = Ok ((), ?s3, env, switch_to_block C nb (seal_block C nb b3))"
    using peek1_append [of s "(ys @ zs) @ ws'" v] pop1_append [of ?s2 "(ys @ zs) @ ws'" v] x(1) w(1) t(3) c(1) j(1,2) peekn_append [of ?s2 "ys @ zs" ws]
    by (simp add: translate_br_on_non_null_def translate_br_if_args_def tr_defs either_brif_def len)
  moreover have "typing_inv C G V E T (?s3, env, switch_to_block C nb (seal_block C nb b3)) vs'"
    unfolding r(2) ls_def [symmetric] by (rule cond_live [OF com j(3,4)])
      (use j(5) reach list_all2_appendI [OF x(2) list_all2_appendI [OF x(3) w(2)]] can r(1) lt in \<open>simp_all add: same_caches_def\<close>)
  ultimately show ?thesis by (simp add: good_def)
qed

end
