(* ===== verification/Branch_Table_Typing.thy ===== *)
theory Branch_Table_Typing
  imports Control_Typing
begin

text \<open>
  \<open>br_table\<close> keeps the typing invariant: without arguments it branches to the frames' blocks directly,
  with arguments through a block of its own for each target.
\<close>

section \<open>Marking many frames\<close>

definition maybe_marked :: "ControlStackFrame list \<Rightarrow> ControlStackFrame list \<Rightarrow> bool" where
  "maybe_marked = list_all2 (\<lambda>tf tf'. tf' = tf \<or> tf' = set_branched_to_exit tf)"

lemma set_branched_twice [simp]: "set_branched_to_exit (set_branched_to_exit tf) = set_branched_to_exit tf"
  by (cases tf) simp_all

lemma set_branched_target [simp]: "branch_arity (set_branched_to_exit tf) = branch_arity tf"
  "br_destination (set_branched_to_exit tf) = br_destination tf"
  by (cases tf; simp add: branch_arity_def)+

lemma branch_target_marked:
  assumes ok: "frames_ok G V E b cs vs" and d: "frame_at vs d = Some f" and m: "maybe_marked cs (control_stack s)"
  obtains i k where "i < length cs"
    "branch_target d s = Ok ((length (label_types f), k), s\<lparr>control_stack := (control_stack s)[i := set_branched_to_exit (cs ! i)]\<rparr>)"
    "cv_block G b k" "cv_params G b k = label_types f" "list_all canonical (label_types f)"
    "set_branched_to_exit (cs ! i) = cs ! i \<or> k = fr_destination (cs ! i)"
proof -
  let ?i = "length vs - 1 - d"
  from d have i: "d < length vs" "f = vs ! ?i" by (auto simp: frame_at_def split: if_splits)
  then have lt: "?i < length vs" by simp
  note t = frame_target [OF frames_ok_nth(1) [OF ok lt]]
  have l: "length cs = length vs" "length (control_stack s) = length cs"
    using frames_ok_nth(2) [OF ok] m by (simp_all add: maybe_marked_def list_all2_lengthD)
  from m lt l have c: "control_stack s ! ?i = cs ! ?i \<or> control_stack s ! ?i = set_branched_to_exit (cs ! ?i)"
    unfolding maybe_marked_def by (auto dest: list_all2_nthD)
  have "control_index d s = Ok ?i" using i l by (auto simp: control_index_def Let_def)
  then have "branch_target d s = Ok ((length (label_types f), br_destination (cs ! ?i)),
      s\<lparr>control_stack := (control_stack s)[?i := set_branched_to_exit (cs ! ?i)]\<rparr>)"
    using t(3) i(2) c by (auto simp: branch_target_def Let_def)
  with t i l lt show thesis by (intro that [of ?i]) auto
qed

text \<open>Frames marked for branches to the blocks in \<open>K\<close>, which are added later.\<close>

definition marked_for :: "ir_Block set \<Rightarrow> ControlStackFrame list \<Rightarrow> ControlStackFrame list \<Rightarrow> bool" where
  "marked_for K = list_all2 (\<lambda>tf tf'. tf' = tf \<or> tf' = set_branched_to_exit tf \<and> fr_destination tf \<in> K)"

lemma marked_for_maybe: "marked_for K cs cs' \<Longrightarrow> maybe_marked cs cs'"
  unfolding marked_for_def maybe_marked_def by (erule list_all2_mono) blast

lemma marked_for_step:
  assumes "marked_for K cs cs'" and "set_branched_to_exit (cs ! i) = cs ! i \<or> k = fr_destination (cs ! i)"
  shows "marked_for (insert k K) cs (cs'[i := set_branched_to_exit (cs ! i)])"
proof -
  let ?R = "\<lambda>tf tf'. tf' = tf \<or> tf' = set_branched_to_exit tf \<and> fr_destination tf \<in> insert k K"
  have "list_all2 ?R cs cs'" using assms(1) unfolding marked_for_def by (rule list_all2_mono) blast
  moreover have "?R (cs ! i) (set_branched_to_exit (cs ! i))" using assms(2) by auto
  ultimately show ?thesis
    using list_all2_update_cong [of ?R cs cs' "cs ! i" "set_branched_to_exit (cs ! i)" i] by (simp add: marked_for_def)
qed

lemma marked_for_marks:
  assumes "marked_for K cs cs'" and "\<forall>k \<in> K. n \<in> cv_preds G b' k" and "n \<notin> cv_insts G b"
  shows "list_all2 (marks G b b') cs cs'"
  using assms(1) unfolding marked_for_def by (rule list_all2_mono) (use assms(2,3) in \<open>auto simp: marks_def\<close>)

lemma mark_targets:
  assumes ok: "frames_ok G V E b cs vs" and "\<forall>d \<in> set ds. \<exists>g. frame_at vs d = Some g \<and> label_types g = ts"
    and "marked_for K cs (control_stack s)"
  shows "\<exists>ks cs'. tr_each (\<lambda>depth. tr_then (tr_state (branch_target depth)) (\<lambda>(_, dst). tr_ok dst)) ds (s, env, b) =
      Ok (ks, s\<lparr>control_stack := cs'\<rparr>, env, b) \<and> marked_for (set ks \<union> K) cs cs' \<and>
      (\<forall>k \<in> set ks. cv_block G b k \<and> cv_params G b k = ts)"
  using assms(2,3)
proof (induction ds arbitrary: s K)
  case Nil
  then show ?case by (intro exI [of _ "[]"] exI [of _ "control_stack s"]) (simp add: tr_defs)
next
  case (Cons d ds)
  from Cons.prems(1) obtain g where g: "frame_at vs d = Some g" "label_types g = ts" by auto
  obtain i k where t: "i < length cs"
    "branch_target d s = Ok ((length (label_types g), k), s\<lparr>control_stack := (control_stack s)[i := set_branched_to_exit (cs ! i)]\<rparr>)"
    "cv_block G b k" "cv_params G b k = label_types g" "list_all canonical (label_types g)"
    "set_branched_to_exit (cs ! i) = cs ! i \<or> k = fr_destination (cs ! i)"
    by (rule branch_target_marked [OF ok g(1) marked_for_maybe [OF Cons.prems(2)]])
  let ?s = "s\<lparr>control_stack := (control_stack s)[i := set_branched_to_exit (cs ! i)]\<rparr>"
  from Cons.IH [of "insert k K" ?s] Cons.prems(1) marked_for_step [OF Cons.prems(2) t(6)] obtain ks cs' where
    r: "tr_each (\<lambda>depth. tr_then (tr_state (branch_target depth)) (\<lambda>(_, dst). tr_ok dst)) ds (?s, env, b) =
      Ok (ks, ?s\<lparr>control_stack := cs'\<rparr>, env, b)" "marked_for (set ks \<union> insert k K) cs cs'"
      "\<forall>k \<in> set ks. cv_block G b k \<and> cv_params G b k = ts" by auto
  then have "tr_each (\<lambda>depth. tr_then (tr_state (branch_target depth)) (\<lambda>(_, dst). tr_ok dst)) (d # ds) (s, env, b) =
      Ok (k # ks, s\<lparr>control_stack := cs'\<rparr>, env, b)"
    using t(2) by (simp add: tr_then_def tr_ok_def tr_state_def)
  with r(2,3) t(3,4) g(2) show ?case by (intro exI [of _ "k # ks"] exI [of _ cs']) simp
qed

section \<open>Blocks for edges\<close>

text \<open>An edge block that did not exist in \<open>b0\<close>, for a depth in \<open>D\<close>.\<close>

definition edge_ok :: "'b clif_view \<Rightarrow> nat set \<Rightarrow> 'b \<Rightarrow> 'b \<Rightarrow> nat \<times> ir_Block \<Rightarrow> bool" where
  "edge_ok G D b0 b = (\<lambda>(d, k). d \<in> D \<and> \<not> cv_block G b0 k \<and> cv_block G b k \<and> cv_params G b k = [])"

lemma edge_ok_keeps: "edge_ok G D b0 b p \<Longrightarrow> keeps C G b b' \<Longrightarrow> edge_ok G D b0 b' p"
  by (cases p) (auto simp: edge_ok_def keeps_butD(3,4))

lemma edge_block_run:
  assumes C: "builder_contract C G" and "\<forall>p \<in> set seq. edge_ok G D b0 b p" and "d \<in> D" and "straight C G b0 b"
  shows "\<exists>k seq' b'. edge_block C d seq (s, env, b) = Ok ((k, seq'), s, env, b') \<and> straight C G b b' \<and>
    (\<forall>p \<in> set seq'. edge_ok G D b0 b' p) \<and> k \<in> snd ` set seq' \<and> set seq \<subseteq> set seq'"
proof (cases "map_of seq d")
  case (Some k)
  then have "(d, k) \<in> set seq" by (rule map_of_SomeD)
  then have "k \<in> snd ` set seq" by force
  with Some assms(2) show ?thesis by (simp add: edge_block_def tr_defs)
next
  case None
  obtain k b' where k: "create_block C b = (k, b')" by fastforce
  note c = contract_create_block [OF C k]
  have "\<not> cv_block G b0 k" using c(2) keeps_butD(3) [OF straightD(1) [OF assms(4)]] by blast
  then have "edge_ok G D b0 b' (d, k)" using assms(3) c by (simp add: edge_ok_def)
  moreover have "\<forall>p \<in> set seq. edge_ok G D b0 b' p" using assms(2) edge_ok_keeps [OF _ straightD(1) [OF c(1)]] by blast
  ultimately show ?thesis using None k c(1) by (auto simp: edge_block_def tr_defs)
qed

lemma edge_blocks_run:
  assumes C: "builder_contract C G" and "\<forall>p \<in> set seq. edge_ok G D b0 b p" and "set ds \<subseteq> D" and "straight C G b0 b"
  shows "\<exists>ks seq' b'. edge_blocks C ds seq (s, env, b) = Ok ((ks, seq'), s, env, b') \<and> straight C G b b' \<and>
    (\<forall>p \<in> set seq'. edge_ok G D b0 b' p) \<and> set ks \<subseteq> snd ` set seq' \<and> set seq \<subseteq> set seq'"
  using assms(2-4)
proof (induction ds arbitrary: seq b)
  case Nil
  then show ?case by (simp add: tr_defs)
next
  case (Cons d ds)
  from edge_block_run [OF C Cons.prems(1) _ Cons.prems(3), of d s env] Cons.prems(2) obtain k seq1 b1 where
    1: "edge_block C d seq (s, env, b) = Ok ((k, seq1), s, env, b1)" "straight C G b b1"
      "\<forall>p \<in> set seq1. edge_ok G D b0 b1 p" "k \<in> snd ` set seq1" "set seq \<subseteq> set seq1" by auto
  from Cons.IH [OF 1(3) _ straight_trans [OF Cons.prems(3) 1(2)]] Cons.prems(2) obtain ks seq2 b2 where
    2: "edge_blocks C ds seq1 (s, env, b1) = Ok ((ks, seq2), s, env, b2)" "straight C G b1 b2"
      "\<forall>p \<in> set seq2. edge_ok G D b0 b2 p" "set ks \<subseteq> snd ` set seq2" "set seq1 \<subseteq> set seq2" by auto
  have "edge_blocks C (d # ds) seq (s, env, b) = Ok ((k # ks, seq2), s, env, b2)"
    using 1(1) 2(1) by (simp add: tr_then_def tr_ok_def)
  moreover have "set (k # ks) \<subseteq> snd ` set seq2" using 1(4) 2(4,5) by auto
  ultimately show ?case using 1(2,5) 2(2,3,5) straight_trans [OF 1(2) 2(2)] by blast
qed

text \<open>Jumping from every edge block to its target.\<close>

definition edges_inv ::
  "'b clif_ops \<Rightarrow> 'b clif_view \<Rightarrow> 'b \<Rightarrow> ControlStackFrame list \<Rightarrow> 'b \<Rightarrow> ControlStackFrame list \<Rightarrow> bool" where
  "edges_inv C G b cs b' cs' \<longleftrightarrow> keeps C G b b' \<and> (\<forall>k. cv_block G b k \<and> cv_entered G b' k \<longrightarrow> cv_entered G b k) \<and>
     (\<forall>k. cv_preds G b k \<subseteq> cv_preds G b' k) \<and> list_all2 (marks G b b') cs cs'"

lemma marks_mono: "list_all2 (marks G b b') cs cs' \<Longrightarrow> (\<And>k. cv_preds G b' k \<subseteq> cv_preds G b'' k) \<Longrightarrow> list_all2 (marks G b b'') cs cs'"
  by (erule list_all2_mono) (auto simp: marks_def)

lemma marks_maybe: "list_all2 (marks G b b') cs cs' \<Longrightarrow> maybe_marked cs cs'"
  unfolding maybe_marked_def by (erule list_all2_mono) (auto simp: marks_def)

lemma translate_edge_run:
  assumes C: "builder_contract C G" and ok: "frames_ok G V E b cs vs" and inv: "edges_inv C G b cs b1 (control_stack s)"
    and g: "frame_at vs d = Some g" and "fs_stack s = xs @ ws" and ws: "typed_list C G b ws (label_types g)" and "\<not> cv_block G b e"
  shows "\<exists>n cs' b'. translate_edge C (length (label_types g)) (d, e) (s, env, b1) = Ok (n, s\<lparr>control_stack := cs'\<rparr>, env, b') \<and>
    edges_inv C G b cs b' cs'"
proof -
  from inv have k1: "keeps C G b b1" and m1: "list_all2 (marks G b b1) cs (control_stack s)"
    and p1: "cv_preds G b k \<subseteq> cv_preds G b1 k" and e1: "cv_block G b k \<Longrightarrow> cv_entered G b1 k \<Longrightarrow> cv_entered G b k" for k
    by (auto simp: edges_inv_def)
  obtain i k where t: "i < length cs"
    "branch_target d s = Ok ((length (label_types g), k), s\<lparr>control_stack := (control_stack s)[i := set_branched_to_exit (cs ! i)]\<rparr>)"
    "cv_block G b k" "cv_params G b k = label_types g" "list_all canonical (label_types g)"
    "set_branched_to_exit (cs ! i) = cs ! i \<or> k = fr_destination (cs ! i)"
    by (rule branch_target_marked [OF ok g marks_maybe [OF m1]])
  let ?s = "s\<lparr>control_stack := (control_stack s)[i := set_branched_to_exit (cs ! i)]\<rparr>"
  let ?b2 = "switch_to_block C e b1" and ?b3 = "seal_block C e (switch_to_block C e b1)"
  note W = contract_switch [OF C, where b = b1 and k = e] and S = contract_seal [OF C, where b = ?b2 and k = e]
  have k3: "keeps C G b ?b3" by (rule keeps_trans' [OF keeps_trans' [OF k1 W(1)] S(1)])
  note K = keeps_butD [OF k3]
  obtain n b' where j: "canonicalise_then_jump C k ws (?s, env, ?b3) = Ok (n, ?s, env, b')" "branched C G {k} n ?b3 b'"
    by (rule jump_run [OF C K(3) [OF t(3)], of ws ?s env]) (use K(4) [OF t(3)] K(2) [OF ws] t(4,5) in simp_all)
  note B = branchedD [OF j(2)]
  have run: "translate_edge C (length (label_types g)) (d, e) (s, env, b1) = Ok (n, ?s, env, b')"
    using t(2) j(1) peekn_append [of ?s xs ws] assms(5) list_all2_lengthD [OF ws]
    by (simp add: translate_edge_def tr_defs)
  have new: "n \<notin> cv_insts G b" using B(3) K(6) by blast
  have preds: "cv_preds G b1 k' \<subseteq> cv_preds G b' k'" for k' using B(4) [of k'] S(2) W(2) by simp
  have "list_all2 (marks G b b') cs (control_stack s)" by (rule marks_mono [OF m1 preds])
  moreover have "marks G b b' (cs ! i) (set_branched_to_exit (cs ! i))" using B(5) [of k] new t(6) by (auto simp: marks_def)
  ultimately have "list_all2 (marks G b b') cs (control_stack ?s)"
    using list_all2_update_cong [of "marks G b b'" cs "control_stack s" "cs ! i" "set_branched_to_exit (cs ! i)" i] by simp
  moreover have "keeps C G b b'" by (rule keeps_trans' [OF k3 B(1)])
  moreover have "cv_entered G b k'" if "cv_block G b k'" "cv_entered G b' k'" for k'
    using that e1 [of k'] B(2) S(3) W(3) assms(7) by (auto split: if_splits)
  ultimately have "edges_inv C G b cs b' (control_stack ?s)" using p1 preds unfolding edges_inv_def by blast
  with run show ?thesis by (intro exI [of _ n] exI [of _ "control_stack ?s"] exI [of _ b']) simp
qed

lemma translate_edges_run:
  assumes C: "builder_contract C G" and ok: "frames_ok G V E b cs vs" and "edges_inv C G b cs b1 (control_stack s)"
    and "\<forall>(d, e) \<in> set seq. (\<exists>g. frame_at vs d = Some g \<and> label_types g = ts) \<and> \<not> cv_block G b e"
    and "fs_stack s = xs @ ws" and ws: "typed_list C G b ws ts"
  shows "\<exists>ns cs' b'. tr_each (translate_edge C (length ts)) seq (s, env, b1) = Ok (ns, s\<lparr>control_stack := cs'\<rparr>, env, b') \<and>
    edges_inv C G b cs b' cs'"
  using assms(3-5)
proof (induction seq arbitrary: s b1)
  case Nil
  then show ?case by (intro exI [of _ "[]"] exI [of _ "control_stack s"] exI [of _ b1]) (simp add: tr_defs)
next
  case (Cons p seq)
  obtain d e where p: "p = (d, e)" by (cases p)
  with Cons.prems(2) obtain g where g: "frame_at vs d = Some g" "label_types g = ts" "\<not> cv_block G b e" by auto
  from translate_edge_run [OF C ok Cons.prems(1) g(1) Cons.prems(3) _ g(3), of env] ws g(2) obtain n cs1 b2 where
    1: "translate_edge C (length ts) (d, e) (s, env, b1) = Ok (n, s\<lparr>control_stack := cs1\<rparr>, env, b2)" "edges_inv C G b cs b2 cs1" by auto
  from Cons.IH [of b2 "s\<lparr>control_stack := cs1\<rparr>"] 1(2) Cons.prems(2,3) obtain ns cs' b' where
    2: "tr_each (translate_edge C (length ts)) seq (s\<lparr>control_stack := cs1\<rparr>, env, b2) = Ok (ns, s\<lparr>control_stack := cs'\<rparr>, env, b')"
      "edges_inv C G b cs b' cs'" by auto
  have "tr_each (translate_edge C (length ts)) (p # seq) (s, env, b1) = Ok (n # ns, s\<lparr>control_stack := cs'\<rparr>, env, b')"
    using 1(1) 2(1) by (simp add: p tr_then_def tr_ok_def)
  with 2(2) show ?case by blast
qed


section \<open>The operator\<close>

lemma fold_min_in: "fold min ds (d :: nat) \<in> insert d (set ds)"
  by (induction ds arbitrary: d) (auto simp: min_def)

lemma br_table_finish:
  assumes C: "builder_contract C G" and com: "common_inv C G E T (s, env, b) (us @ [f])" and ok: "frames_ok G V E b (control_stack s) (us @ [f])"
    and inv: "edges_inv C G b (control_stack s) b' (control_stack s')" and "fs_stack s' = xs @ zs" and "\<not> reachable s'" and "same_caches s s'"
    and xs: "typed_list C G b xs (stack_types us @ frame_dup f)" and "list_all canonical (stack_types us @ frame_dup f)"
  shows "typing_inv C G V E T (s', env, b') (us @ [f\<lparr>vf_ops := None\<rparr>])"
proof -
  from inv have k: "keeps C G b b'" and m: "list_all2 (marks G b b') (control_stack s) (control_stack s')"
    and e: "\<forall>k. cv_block G b k \<and> cv_entered G b' k \<longrightarrow> cv_entered G b k" and p: "\<forall>k. cv_preds G b k \<subseteq> cv_preds G b' k"
    by (auto simp: edges_inv_def)
  have "frames_ok G V E b' (control_stack s') (us @ [f])"
    by (rule frames_ok_marked [OF C ok k m]) (use e p frames_ok_blocks [OF ok] in blast)
  then show ?thesis
    by (intro dead_intro [OF com k, of _ _ _ _ xs zs]) (use assms(5-7,9) keeps_butD(2) [OF k xs] in simp_all)
qed

lemma br_table_good:
  assumes C: "builder_contract C G" and inv: "typing_inv C G V E T (s, env, b) vs" and reach: "reachable s"
    and same: "list_all (\<lambda>e. map_option label_types (frame_at vs e) = map_option label_types (frame_at vs d)) ds"
    and chk: "check_branch vs d (\<lambda>ts. leave (ts @ [IR_I32])) = Some vs'"
  shows "good C G V E T vs' (translate_br_table C ds d (s, env, b))"
proof (rule live_parts [OF inv reach])
  fix us f os
  assume vs: "vs = us @ [f]" and os: "vf_ops f = Some os" and ok: "frames_ok G V E b (control_stack s) (us @ [f])"
    and st: "typed_list C G b (fs_stack s) ((stack_types us @ frame_dup f) @ os)"
    and can: "list_all canonical ((stack_types us @ frame_dup f) @ os)" and com: "common_inv C G E T (s, env, b) (us @ [f])"
  from chk obtain g where g: "frame_at (us @ [f]) d = Some g" "on_top (leave (label_types g @ [IR_I32])) (us @ [f]) = Some vs'"
    by (auto simp: check_branch_def vs split: option.splits)
  let ?ts = "label_types g" and ?cs = "control_stack s"
  have all: "\<exists>h. frame_at (us @ [f]) e = Some h \<and> label_types h = ?ts" if "e \<in> insert d (set ds)" for e
    using that same g(1) by (auto simp: vs list_all_iff)
  obtain r where r: "os = r @ ?ts @ [IR_I32]" "vs' = us @ [f\<lparr>vf_ops := None\<rparr>]" by (rule leave_split [OF g(2) os])
  obtain ys zs ws' where x: "fs_stack s = (ys @ zs) @ ws'" "typed_list C G b ys (stack_types us @ frame_dup f)"
    "typed_list C G b zs r" "typed_list C G b ws' (?ts @ [IR_I32])"
    by (rule live_split [OF st [unfolded r(1)]])
  from list_all2_split [OF x(4)] obtain ws c where w: "ws' = ws @ [c]" "typed_list C G b ws ?ts"
    by (auto simp: typed_list_1)
  let ?s1 = "s\<lparr>fs_stack := (ys @ zs) @ ws\<rparr>"
  obtain h where h: "frame_at (us @ [f]) (fold min ds d) = Some h" "label_types h = ?ts" using all [OF fold_min_in] by blast
  have count: "map_ok (\<lambda>i. branch_arity (?cs ! i)) (control_index (fold min ds d) s) = Ok (length ?ts)"
  proof (rule branch_target_run [OF ok h(1)])
    fix i k assume "branch_target (fold min ds d) s = Ok ((length (label_types h), k),
       s\<lparr>control_stack := ?cs[i := set_branched_to_exit (?cs ! i)]\<rparr>)"
    then show ?thesis using h(2) by (auto simp: branch_target_def Let_def)
  qed
  have start: "maybe_marked ?cs ?cs" "marked_for {} ?cs ?cs" "list_all2 (marks G b b) ?cs ?cs"
    by (auto simp: maybe_marked_def marked_for_def marks_def intro: list_all2_refl)
  note run = translate_br_table_def tr_then_def tr_read_def count tr_pop1_def tr_state_def pop1_append [of s "(ys @ zs) @ ws" c] x(1) w(1)
  show ?thesis
  proof (cases "?ts = []")
    case True
    have ds: "\<forall>e \<in> set ds. \<exists>g. frame_at (us @ [f]) e = Some g \<and> label_types g = []" using all True by auto
    from mark_targets [OF ok ds, of "{}" ?s1 env] start(2) obtain ks cs1 where
      1: "tr_each (\<lambda>depth. tr_then (tr_state (branch_target depth)) (\<lambda>(_, dst). tr_ok dst)) ds (?s1, env, b) =
        Ok (ks, ?s1\<lparr>control_stack := cs1\<rparr>, env, b)" "marked_for (set ks) ?cs cs1"
        "\<forall>k \<in> set ks. cv_block G b k \<and> cv_params G b k = []" by auto
    obtain i k where t: "i < length ?cs"
      "branch_target d (?s1\<lparr>control_stack := cs1\<rparr>) = Ok ((length ?ts, k), ?s1\<lparr>control_stack := cs1[i := set_branched_to_exit (?cs ! i)]\<rparr>)"
      "cv_block G b k" "cv_params G b k = ?ts" "set_branched_to_exit (?cs ! i) = ?cs ! i \<or> k = fr_destination (?cs ! i)"
      by (rule branch_target_marked [OF ok g(1), of "?s1\<lparr>control_stack := cs1\<rparr>"]) (use marked_for_maybe [OF 1(2)] in simp_all)
    let ?cs' = "cs1[i := set_branched_to_exit (?cs ! i)]"
    obtain n b' where n: "ins_inst C (Br_table c k ks) b = (n, b')" by fastforce
    have br: "branched C G (insert k (set ks)) n b b'"
      using inst_branched [OF C n] 1(3) t(3,4) True by (auto simp: branches_def branch_fits_def list_all_iff image_image)
    note B = branchedD [OF br]
    have "list_all2 (marks G b b') ?cs ?cs'"
      by (rule marked_for_marks [OF marked_for_step [OF 1(2) t(5)]]) (use B(3,5) in blast)+
    then have e: "edges_inv C G b ?cs b' ?cs'" using B(1,2,4) by (simp add: edges_inv_def)
    let ?s' = "?s1\<lparr>control_stack := ?cs', reachable := False\<rparr>"
    have "translate_br_table C ds d (s, env, b) = Ok ((), ?s', env, b')"
      using 1(1) t(2) n True by (simp add: run) (simp add: tr_defs)
    moreover have "typing_inv C G V E T (?s', env, b') vs'"
      unfolding r(2)
      by (rule br_table_finish [OF C com ok, of b' _ ys "zs @ ws"]) (use e x(2) can in \<open>simp_all add: same_caches_def\<close>)
    ultimately show ?thesis by (simp add: good_def)
  next
    case False
    let ?D = "insert d (set ds)"
    from edge_blocks_run [OF C _ set_subset_Cons [of ds d, unfolded list.set], of "[]" b b ?s1 env] obtain ks seq1 b1 where
      1: "edge_blocks C ds [] (?s1, env, b) = Ok ((ks, seq1), ?s1, env, b1)" "straight C G b b1"
        "\<forall>p \<in> set seq1. edge_ok G ?D b b1 p" "set ks \<subseteq> snd ` set seq1" by auto
    from edge_block_run [OF C 1(3) _ 1(2), of d ?s1 env] obtain k seq2 b2 where
      2: "edge_block C d seq1 (?s1, env, b1) = Ok ((k, seq2), ?s1, env, b2)" "straight C G b1 b2"
        "\<forall>p \<in> set seq2. edge_ok G ?D b b2 p" "k \<in> snd ` set seq2" "set seq1 \<subseteq> set seq2" by auto
    obtain n b3 where n: "ins_inst C (Br_table c k ks) b2 = (n, b3)" by fastforce
    have fits: "cv_block G b2 k' \<and> cv_params G b2 k' = []" if "k' \<in> insert k (set ks)" for k'
    proof -
      from that 1(4) 2(4,5) obtain e where "(e, k') \<in> set seq2" by (force simp: image_iff)
      with 2(3) show ?thesis by (auto simp: edge_ok_def)
    qed
    have br: "branched C G (insert k (set ks)) n b2 b3"
      using inst_branched [OF C n] fits by (auto simp: branches_def branch_fits_def list_all_iff image_image)
    note B = branchedD [OF br]
    have b2: "straight C G b b2" by (rule straight_trans [OF 1(2) 2(2)])
    have preds3: "cv_preds G b k' \<subseteq> cv_preds G b3 k'" for k' using B(4) [of k'] straightD(2) [OF b2] by simp
    have e3: "edges_inv C G b ?cs b3 (control_stack ?s1)"
      using keeps_trans' [OF straightD(1) [OF b2] B(1)] B(2) straightD(3) [OF b2] preds3 marks_mono [OF start(3) preds3]
      by (simp add: edges_inv_def)
    have seq: "\<forall>(e, k) \<in> set seq2. (\<exists>g. frame_at (us @ [f]) e = Some g \<and> label_types g = ?ts) \<and> \<not> cv_block G b k"
      using 2(3) all by (auto simp: edge_ok_def)
    from translate_edges_run [OF C ok e3 seq _ w(2), of "ys @ zs" env] obtain ns cs' b' where
      3: "tr_each (translate_edge C (length ?ts)) seq2 (?s1, env, b3) = Ok (ns, ?s1\<lparr>control_stack := cs'\<rparr>, env, b')"
        "edges_inv C G b ?cs b' cs'" by auto
    let ?s' = "s\<lparr>fs_stack := ys @ zs, control_stack := cs', reachable := False\<rparr>"
    have "translate_br_table C ds d (s, env, b) = Ok ((), ?s', env, b')"
      using 1(1) 2(1) n 3(1) False list_all2_lengthD [OF w(2)] popn_append [of "?s1\<lparr>control_stack := cs'\<rparr>" "ys @ zs" ws]
      by (simp add: run) (simp add: tr_defs)
    moreover have "typing_inv C G V E T (?s', env, b') vs'"
      unfolding r(2)
      by (rule br_table_finish [OF C com ok, of b' _ ys zs]) (use 3(2) x(2) can in \<open>simp_all add: same_caches_def\<close>)
    ultimately show ?thesis by (simp add: good_def)
  qed
qed

end
