(* ===== verification/Block_Typing.thy ===== *)
theory Block_Typing
  imports Branch_Table_Typing
begin

text \<open>Blocks, loops and conditionals keep the typing invariant in reachable code.\<close>

section \<open>Entering frames\<close>

lemma block_types_Some:
  assumes "block_types V E bt = Some (same, ps, rs)" and "env_of E env"
  obtains wps wrs pts rts where "blocktype_params_results V bt = Ok (wps, wrs)" "collect (block_param_type env) wps = Ok pts"
    "collect (block_param_type env) wrs = Ok rts" "ps = map fst pts" "rs = map fst rts" "same = (wps = wrs)"
    "length wps = length ps" "length wrs = length rs"
proof -
  have len: "length ys = length xs" if "collect g xs = Ok ys" for g :: "'x \<Rightarrow> ('y, 'z) outcome" and xs ys
    using that by (induction xs arbitrary: ys) auto
  have e: "block_param_type env = block_param_type E" by (rule ext) (rule env_of_types(2) [OF assms(2)])
  from assms(1) obtain wps wrs pts rts where b: "blocktype_params_results V bt = Ok (wps, wrs)"
    "collect (block_param_type E) wps = Ok pts" "collect (block_param_type E) wrs = Ok rts"
    "ps = map fst pts" "rs = map fst rts" "same = (wps = wrs)"
    by (auto simp: block_types_def split: outcome.splits)
  show thesis by (rule that) (use b len [OF b(2)] len [OF b(3)] e in simp_all)
qed

lemma block_param_canonical:
  assumes "collect (block_param_type env) tys = Ok pts" and "pointer_type env \<in> {IR_I32, IR_I64}"
  shows "list_all canonical (map fst pts)"
proof -
  have "canonical t" if "env_reference_type env h = Ok (t, fl)" for h t fl
    using that assms(2) by (cases "top_inner (top_type h)") (auto simp: env_reference_type_def reference_type_def canonical_def)
  then have "canonical t" if "block_param_type env ty = Ok (t, fl)" for ty t fl
    using that by (cases "(env, ty)" rule: block_param_type.cases) (auto simp: canonical_def)
  then show ?thesis using assms(1) by (induction tys arbitrary: pts) auto
qed

lemma enter_split:
  assumes "enter_block kind ts ps rs (us @ [f]) = Some vs'" and "vf_ops f = Some os"
  obtains r where "os = r @ ps @ ts"
    "vs' = (us @ [f\<lparr>vf_ops := Some r\<rparr>]) @ [\<lparr>vf_kind = kind, vf_params = ps, vf_results = rs, vf_ops = Some ps\<rparr>]"
proof -
  from assms obtain ws where w: "on_top (apply_type (ps @ ts) []) (us @ [f]) = Some ws"
    "vs' = ws @ [\<lparr>vf_kind = kind, vf_params = ps, vf_results = rs, vf_ops = Some ps\<rparr>]"
    by (auto simp: enter_block_def)
  obtain r where "os = r @ ps @ ts" "ws = us @ [f\<lparr>vf_ops := Some (r @ [])\<rparr>]" by (rule apply_type_split [OF w(1) assms(2)])
  with w(2) show thesis by (intro that [of r]) simp_all
qed

lemma segment_ops [simp]: "segment (f\<lparr>vf_ops := Some r\<rparr>) = frame_dup f @ r"
  by (simp add: segment_def)

lemma frame_dup_kinds [simp]: "frame_dup \<lparr>vf_kind = VBlock, vf_params = ps, vf_results = rs, vf_ops = x\<rparr> = []"
  "frame_dup \<lparr>vf_kind = VLoop, vf_params = ps, vf_results = rs, vf_ops = x\<rparr> = []"
  "frame_dup \<lparr>vf_kind = VIf True same, vf_params = ps, vf_results = rs, vf_ops = x\<rparr> = ps"
  by (simp_all add: frame_dup_def)

lemma frames_ok_push:
  assumes "frames_ok G V E b cs ws" and "\<forall>f \<in> set ws. vf_ops f \<noteq> None" and "frame_ok G V E b (length (stack_types ws)) tf h"
    and "distinct (frame_blocks tf)" and "\<forall>k \<in> set (frame_blocks tf). \<forall>tf' \<in> set cs. k \<notin> set (frame_blocks tf')"
  shows "frames_ok G V E b (cs @ [tf]) (ws @ [h])"
  using assms unfolding frames_ok_snoc by (auto simp: frames_ok_def)

lemma frames_ops: "frames_ok G V E b cs (us @ [f]) \<Longrightarrow> \<forall>g \<in> set us. vf_ops g \<noteq> None"
  by (simp add: frames_ok_def)

lemma hd_results_push: "vf_results (hd ((us @ [f\<lparr>vf_ops := x\<rparr>]) @ [h])) = vf_results (hd (us @ [f]))"
  by (cases us) simp_all

lemma pointer_ok: "common_inv C G E T (s, env, b) vs \<Longrightarrow> pointer_type env \<in> {IR_I32, IR_I64} \<and> env_of E env"
  by (auto simp: common_inv_def ctx_ok_def env_of_types)

lemma block_good:
  assumes C: "builder_contract C G" and inv: "typing_inv C G V E T (s, env, b) vs" and reach: "reachable s"
    and bt: "block_types V E blockty = Some (same, ps, rs)" and chk: "enter_block VBlock [] ps rs vs = Some vs'"
  shows "good C G V E T vs' (translate_block V C blockty (s, env, b))"
proof (rule live_parts [OF inv reach])
  fix us f os
  assume vs: "vs = us @ [f]" and os: "vf_ops f = Some os" and ok: "frames_ok G V E b (control_stack s) (us @ [f])"
    and st: "typed_list C G b (fs_stack s) ((stack_types us @ frame_dup f) @ os)" and un: "\<not> is_unreachable C b"
    and can: "list_all canonical ((stack_types us @ frame_dup f) @ os)" and com: "common_inv C G E T (s, env, b) (us @ [f])"
  note p = pointer_ok [OF com]
  obtain r where r: "os = r @ ps" "vs' = (us @ [f\<lparr>vf_ops := Some r\<rparr>]) @ [\<lparr>vf_kind = VBlock, vf_params = ps, vf_results = rs, vf_ops = Some ps\<rparr>]"
    using enter_split [OF chk [unfolded vs] os] by auto
  let ?ws = "us @ [f\<lparr>vf_ops := Some r\<rparr>]" and ?h = "\<lparr>vf_kind = VBlock, vf_params = ps, vf_results = rs, vf_ops = Some ps\<rparr>"
  obtain wps wrs pts rts where b: "blocktype_params_results V blockty = Ok (wps, wrs)" "collect (block_param_type env) wps = Ok pts"
    "collect (block_param_type env) wrs = Ok rts" "ps = map fst pts" "rs = map fst rts" "length wps = length ps" "length wrs = length rs"
    by (rule block_types_Some [OF bt]) (use p in blast)+
  obtain k b' where k: "block_with_params C wrs (s, env, b) = Ok (k, s, env, b')" "straight C G b b'"
    "\<not> cv_block G b k" "cv_block G b' k" "cv_params G b' k = map fst rts" "cv_untouched G b' k" "\<not> cv_entered G b' k"
    by (rule block_with_params_run [OF C b(3)])
  have types: "stack_types ?ws @ ps = (stack_types us @ frame_dup f) @ os" by (simp add: r(1))
  have len: "length (fs_stack s) = length (stack_types ?ws) + length ps" using list_all2_lengthD [OF st] by (simp add: r(1))
  let ?tf = "Frame_Block k (length ps) (length rs) (length (stack_types ?ws)) False"
  let ?s' = "s\<lparr>control_stack := control_stack s @ [?tf]\<rparr>"
  have "translate_block V C blockty (s, env, b) = Ok ((), ?s', env, b')"
    using b(1) k(1) len by (simp add: translate_block_def tr_defs push_block_def b(6,7))
  moreover have "frames_ok G V E b' (control_stack s @ [?tf]) (?ws @ [?h])"
  proof (rule frames_ok_push)
    show "frames_ok G V E b' (control_stack s) ?ws" using frames_ok_straight [OF ok k(2)] by simp
    show "frame_ok G V E b' (length (stack_types ?ws)) ?tf ?h"
      using k(4-7) b(4,5) block_param_canonical [OF b(2)] block_param_canonical [OF b(3)] p
      by (auto simp: frame_ok_def frame_shape_def)
  qed (use frames_ops [OF ok] k(3) frames_ok_blocks [OF ok] in auto)
  then have "typing_inv C G V E T (?s', env, b') (?ws @ [?h])"
    by (intro live_intro [OF com straightD(1) [OF k(2)], where os = ps])
      (use keeps_butD(2) [OF straightD(1) [OF k(2)] st] can reach straightD(5) [OF k(2) un] r(1) hd_results_push in
        \<open>simp_all add: same_caches_def\<close>)
  ultimately show ?thesis by (simp add: good_def r(2))
qed

lemma loop_good:
  assumes C: "builder_contract C G" and inv: "typing_inv C G V E T (s, env, b) vs" and reach: "reachable s"
    and bt: "block_types V E blockty = Some (same, ps, rs)" and chk: "enter_block VLoop [] ps rs vs = Some vs'"
  shows "good C G V E T vs' (translate_loop V C blockty (s, env, b))"
proof (rule live_parts [OF inv reach])
  fix us f os
  assume vs: "vs = us @ [f]" and os: "vf_ops f = Some os" and ok: "frames_ok G V E b (control_stack s) (us @ [f])"
    and st: "typed_list C G b (fs_stack s) ((stack_types us @ frame_dup f) @ os)"
    and can: "list_all canonical ((stack_types us @ frame_dup f) @ os)" and com: "common_inv C G E T (s, env, b) (us @ [f])"
  note p = pointer_ok [OF com]
  obtain r where r: "os = r @ ps" "vs' = (us @ [f\<lparr>vf_ops := Some r\<rparr>]) @ [\<lparr>vf_kind = VLoop, vf_params = ps, vf_results = rs, vf_ops = Some ps\<rparr>]"
    using enter_split [OF chk [unfolded vs] os] by auto
  let ?ws = "us @ [f\<lparr>vf_ops := Some r\<rparr>]" and ?h = "\<lparr>vf_kind = VLoop, vf_params = ps, vf_results = rs, vf_ops = Some ps\<rparr>"
  obtain wps wrs pts rts where b: "blocktype_params_results V blockty = Ok (wps, wrs)" "collect (block_param_type env) wps = Ok pts"
    "collect (block_param_type env) wrs = Ok rts" "ps = map fst pts" "rs = map fst rts" "length wps = length ps" "length wrs = length rs"
    by (rule block_types_Some [OF bt]) (use p in blast)+
  have canp: "list_all canonical ps" and canr: "list_all canonical rs"
    using block_param_canonical [OF b(2)] block_param_canonical [OF b(3)] p b(4,5) by simp_all
  obtain l b1 where l: "block_with_params C wps (s, env, b) = Ok (l, s, env, b1)" "straight C G b b1"
    "\<not> cv_block G b l" "cv_block G b1 l" "cv_params G b1 l = map fst pts" "cv_untouched G b1 l" "\<not> cv_entered G b1 l"
    by (rule block_with_params_run [OF C b(2)])
  obtain k b2 where k: "block_with_params C wrs (s, env, b1) = Ok (k, s, env, b2)" "straight C G b1 b2"
    "\<not> cv_block G b1 k" "cv_block G b2 k" "cv_params G b2 k = map fst rts" "cv_untouched G b2 k" "\<not> cv_entered G b2 k"
    by (rule block_with_params_run [OF C b(3)])
  have b2: "straight C G b b2" by (rule straight_trans [OF l(2) k(2)])
  have kl: "k \<noteq> l" using k(3) l(4) by blast
  have types: "stack_types ?ws @ ps = (stack_types us @ frame_dup f) @ os" by (simp add: r(1))
  from list_all2_split [of "typed C G b" "fs_stack s" "stack_types ?ws" ps] st types obtain xs ws where
    x: "fs_stack s = xs @ ws" "typed_list C G b xs (stack_types ?ws)" "typed_list C G b ws ps" by auto
  have lens: "length xs = length (stack_types ?ws)" "length ws = length ps"
    using list_all2_lengthD [OF x(2)] list_all2_lengthD [OF x(3)] by simp_all
  note K2 = keeps_butD [OF straightD(1) [OF k(2)]]
  have l2: "cv_block G b2 l" "cv_params G b2 l = ps" using K2(3,4) [OF l(4)] l(5) b(4) by simp_all
  obtain n b3 where j: "canonicalise_then_jump C l ws (s, env, b2) = Ok (n, s, env, b3)" "branched C G {l} n b2 b3"
    by (rule jump_run [OF C l2(1), of ws s env]) (use l2 canp keeps_butD(2) [OF straightD(1) [OF b2] x(3)] in simp_all)
  note B = branchedD [OF j(2)]
  have k3: "keeps C G b b3" by (rule keeps_trans' [OF straightD(1) [OF b2] B(1)])
  have ent: "\<not> cv_entered G b3 l" "\<not> cv_entered G b3 k" using B(2) straightD(3) [OF k(2)] l(7) k(7) by simp_all
  have unt: "cv_untouched G b3 l" "cv_untouched G b3 k"
    using keeps_butD(5) [OF keeps_trans' [OF straightD(1) [OF k(2)] B(1)] l(4,6) ent(1)] keeps_butD(5) [OF B(1) k(4,6) ent(2)] by simp_all
  have l3: "cv_block G b3 l" "cv_params G b3 l = ps" "cv_block G b3 k" "cv_params G b3 k = rs"
    using keeps_butD(3,4) [OF B(1)] l2 k(4,5) b(5) by simp_all
  let ?bps = "block_params C b3 l" and ?b4 = "switch_to_block C l b3"
  note W = contract_switch [OF C, where b = b3 and k = l]
  have bps: "typed_list C G b3 ?bps ps" using contract_block_params [OF C l3(1) unt(1)] l3(2) by simp
  have k4: "keeps C G b ?b4" by (rule keeps_trans' [OF k3 W(1)])
  let ?tf = "Frame_Loop k l (length ps) (length rs) (length (stack_types ?ws))"
  let ?s' = "s\<lparr>control_stack := control_stack s @ [?tf], fs_stack := xs @ ?bps\<rparr>"
  have "translate_loop V C blockty (s, env, b) = Ok ((), ?s', env, ?b4)"
    using b(1) l(1) k(1) j(1) peekn_append [OF x(1)] popn_append [of "s\<lparr>control_stack := control_stack s @ [?tf]\<rparr>" xs ws] x(1) lens
    by (simp add: translate_loop_def tr_defs push_loop_def b(6,7))
  moreover have "frames_ok G V E ?b4 (control_stack s @ [?tf]) (?ws @ [?h])"
  proof (rule frames_ok_push)
    show "frames_ok G V E ?b4 (control_stack s) ?ws"
    proof -
      have "frames_ok G V E ?b4 (control_stack s) (us @ [f])"
        by (rule frames_ok_keeps [OF ok k4])
          (use W(2,3) B(2) B(4) straightD(2,3) [OF b2] frames_ok_blocks [OF ok] l(3) in \<open>fastforce split: if_splits\<close>)
      then show ?thesis by simp
    qed
    show "frame_ok G V E ?b4 (length (stack_types ?ws)) ?tf ?h"
      using l3 keeps_butD(3,4) [OF W(1)] unt W(3,6) ent kl canp canr by (simp add: frame_ok_def frame_shape_def)
  qed (use frames_ops [OF ok] k(3) keeps_butD(3) [OF straightD(1) [OF l(2)]] frames_ok_blocks [OF ok] in auto)
  then have "typing_inv C G V E T (?s', env, ?b4) (?ws @ [?h])"
    using live_intro [OF com k4, where os = ps and us = ?ws and f = ?h and s' = ?s' and V = V]
      list_all2_appendI [OF keeps_butD(2) [OF k4 x(2)] keeps_butD(2) [OF W(1) bps]] can reach W(7) B(5) r(1) hd_results_push [of us "Some r" f ?h]
    by (auto simp: same_caches_def)
  ultimately show ?thesis by (simp add: good_def r(2))
qed


section \<open>Conditionals\<close>

text \<open>The branch at the head of an \<open>if\<close>: to the consequent \<open>nb\<close> and to the \<open>else\<close> block, or over the whole.\<close>

definition else_branch :: "'b clif_view \<Rightarrow> bool \<Rightarrow> 'b \<Rightarrow> 'b \<Rightarrow> ir_Block \<Rightarrow> ElseData \<Rightarrow> bool" where
  "else_branch G same b b' dst ed = (case ed of
       NoElse n ph \<Rightarrow> same \<and> ph = dst \<and> n \<in> cv_preds G b' dst
     | WithElse eb \<Rightarrow> \<not> same \<and> \<not> cv_block G b eb \<and> eb \<noteq> dst \<and> cv_block G b' eb \<and> cv_preds G b' eb \<noteq> {})"

lemma branch_to_else_run:
  assumes C: "builder_contract C G" and pts: "collect (block_param_type env) wps = Ok pts" and rts: "collect (block_param_type env) wrs = Ok rts"
    and "list_all canonical (map fst pts)" and nb: "cv_block G b nb" "cv_params G b nb = []"
    and st: "fs_stack s = xs @ ws" and ws: "typed_list C G b ws (map fst pts)" and "length wps = length ws"
  obtains dst ed b' where "branch_to_else C c nb wps wrs (s, env, b) = Ok ((dst, ed), s, env, b')" "keeps C G b b'"
    "cv_entered G b' = cv_entered G b" "\<forall>k. cv_preds G b k \<subseteq> cv_preds G b' k" "cv_preds G b' nb \<noteq> {}" "\<not> cv_block G b dst"
    "cv_block G b' dst" "cv_params G b' dst = map fst rts" "cv_untouched G b' dst" "else_branch G (wps = wrs) b b' dst ed" "\<not> cv_entered G b' dst"
proof -
  obtain dst b1 where d: "block_with_params C wrs (s, env, b) = Ok (dst, s, env, b1)" "straight C G b b1"
    "\<not> cv_block G b dst" "cv_block G b1 dst" "cv_params G b1 dst = map fst rts" "cv_untouched G b1 dst" "\<not> cv_entered G b1 dst"
    by (rule block_with_params_run [OF C rts])
  note K1 = keeps_butD [OF straightD(1) [OF d(2)]]
  show thesis
  proof (cases "wps = wrs")
    case True
    then have eq: "map fst pts = map fst rts" using pts rts by simp
    obtain n b2 where j: "canonicalise_brif C c nb [] dst ws (s, env, b1) = Ok (n, s, env, b2)" "branched C G {nb, dst} n b1 b2"
      by (rule brif_run [OF C K1(3) [OF nb(1)] _ _ d(4), of "[]" ws c s env])
        (use K1(4) [OF nb(1)] nb(2) d(5) eq assms(4) K1(2) [OF ws] in simp_all)
    note B = branchedD [OF j(2)]
    have ent: "\<not> cv_entered G b2 dst" using B(2) d(7) by simp
    show thesis
    proof (rule that [of dst "NoElse n dst" b2])
      show "branch_to_else C c nb wps wrs (s, env, b) = Ok ((dst, NoElse n dst), s, env, b2)"
        using d(1) True j(1) peekn_append [OF st] assms(9) by (simp add: branch_to_else_def tr_defs)
      show "keeps C G b b2" by (rule keeps_trans' [OF straightD(1) [OF d(2)] B(1)])
      show "\<forall>k. cv_preds G b k \<subseteq> cv_preds G b2 k" using B(4) straightD(2) [OF d(2)] by simp
      show "cv_untouched G b2 dst" by (rule keeps_butD(5) [OF B(1) d(4,6) ent])
      show "else_branch G (wps = wrs) b b2 dst (NoElse n dst)" using True B(5) [of dst] by (simp add: else_branch_def)
    qed (use B(2,5) straightD(3) [OF d(2)] ent d(3,4,5) keeps_butD(3,4) [OF B(1)] in auto)
  next
    case False
    obtain eb b2 where e: "block_with_params C wps (s, env, b1) = Ok (eb, s, env, b2)" "straight C G b1 b2"
      "\<not> cv_block G b1 eb" "cv_block G b2 eb" "cv_params G b2 eb = map fst pts" "cv_untouched G b2 eb" "\<not> cv_entered G b2 eb"
      by (rule block_with_params_run [OF C pts])
    have b2: "straight C G b b2" by (rule straight_trans [OF d(2) e(2)])
    note K2 = keeps_butD [OF straightD(1) [OF b2]]
    obtain n b3 where j: "canonicalise_brif C c nb [] eb ws (s, env, b2) = Ok (n, s, env, b3)" "branched C G {nb, eb} n b2 b3"
      by (rule brif_run [OF C K2(3) [OF nb(1)] _ _ e(4), of "[]" ws c s env])
        (use K2(4) [OF nb(1)] nb(2) e(5) assms(4) K2(2) [OF ws] in simp_all)
    note B = branchedD [OF j(2)] and S = contract_seal [OF C, where b = b3 and k = eb]
    let ?b4 = "seal_block C eb b3"
    have k24: "keeps C G b2 ?b4" by (rule keeps_trans' [OF B(1) S(1)])
    have k14: "keeps C G b1 ?b4" by (rule keeps_trans' [OF straightD(1) [OF e(2)] k24])
    have ent: "cv_entered G ?b4 = cv_entered G b" using S(3) B(2) straightD(3) [OF b2] by simp
    then have ent': "\<not> cv_entered G ?b4 dst" using d(7) straightD(3) [OF d(2)] by simp
    show thesis
    proof (rule that [of dst "WithElse eb" ?b4])
      show "branch_to_else C c nb wps wrs (s, env, b) = Ok ((dst, WithElse eb), s, env, ?b4)"
        using d(1) False e(1) j(1) peekn_append [OF st] assms(9) by (simp add: branch_to_else_def tr_defs)
      show "keeps C G b ?b4" by (rule keeps_trans' [OF straightD(1) [OF d(2)] k14])
      show "\<forall>k. cv_preds G b k \<subseteq> cv_preds G ?b4 k" using B(4) S(2) straightD(2) [OF b2] by simp
      show "cv_untouched G ?b4 dst" by (rule keeps_butD(5) [OF k14 d(4,6) ent'])
      have "\<not> cv_block G b eb" using e(3) K1(3) by blast
      moreover have "eb \<noteq> dst" using e(3) d(4) by blast
      ultimately show "else_branch G (wps = wrs) b ?b4 dst (WithElse eb)"
        using False B(5) [of eb] S(2) keeps_butD(3) [OF k24 e(4)] by (auto simp: else_branch_def)
    qed (use B(5) S(2) ent ent' d(3,4,5) keeps_butD(3,4) [OF k14] in auto)
  qed
qed

lemma if_good:
  assumes C: "builder_contract C G" and inv: "typing_inv C G V E T (s, env, b) vs" and reach: "reachable s"
    and bt: "block_types V E blockty = Some (same, ps, rs)" and chk: "enter_block (VIf True same) [IR_I32] ps rs vs = Some vs'"
  shows "good C G V E T vs' (translate_if V C blockty (s, env, b))"
proof (rule live_parts [OF inv reach])
  fix us f os
  assume vs: "vs = us @ [f]" and os: "vf_ops f = Some os" and ok: "frames_ok G V E b (control_stack s) (us @ [f])"
    and st: "typed_list C G b (fs_stack s) ((stack_types us @ frame_dup f) @ os)"
    and can: "list_all canonical ((stack_types us @ frame_dup f) @ os)" and com: "common_inv C G E T (s, env, b) (us @ [f])"
  note p = pointer_ok [OF com]
  let ?h = "\<lparr>vf_kind = VIf True same, vf_params = ps, vf_results = rs, vf_ops = Some ps\<rparr>"
  obtain r where r: "os = r @ ps @ [IR_I32]" "vs' = (us @ [f\<lparr>vf_ops := Some r\<rparr>]) @ [?h]"
    by (rule enter_split [OF chk [unfolded vs] os])
  let ?ws = "us @ [f\<lparr>vf_ops := Some r\<rparr>]"
  obtain wps wrs pts rts where b: "blocktype_params_results V blockty = Ok (wps, wrs)" "collect (block_param_type env) wps = Ok pts"
    "collect (block_param_type env) wrs = Ok rts" "ps = map fst pts" "rs = map fst rts" "same = (wps = wrs)"
    "length wps = length ps" "length wrs = length rs"
    by (rule block_types_Some [OF bt]) (use p in blast)+
  have pts_eq: "same \<Longrightarrow> map fst pts = map fst rts" using b(2,3,6) by auto
  have canp: "list_all canonical (map fst pts)" and canr: "list_all canonical (map fst rts)"
    using block_param_canonical [OF b(2)] block_param_canonical [OF b(3)] p by simp_all
  obtain xs zs ws' where x: "fs_stack s = (xs @ zs) @ ws'" "typed_list C G b xs (stack_types us @ frame_dup f)" "typed_list C G b zs r"
    "typed_list C G b ws' (ps @ [IR_I32])" by (rule live_split [OF st [unfolded r(1)]])
  from list_all2_split [OF x(4)] obtain ws c where w: "ws' = ws @ [c]" "typed_list C G b ws ps" by (auto simp: typed_list_1)
  let ?xs = "xs @ zs" and ?s1 = "s\<lparr>fs_stack := (xs @ zs) @ ws\<rparr>"
  have xs: "typed_list C G b ?xs (stack_types ?ws)" using list_all2_appendI [OF x(2,3)] by simp
  have lens: "length ?xs = length (stack_types ?ws)" "length ws = length ps"
    using list_all2_lengthD [OF xs] list_all2_lengthD [OF w(2)] by auto
  obtain nb b1 where nb: "create_block C b = (nb, b1)" by fastforce
  note c = contract_create_block [OF C nb] and K1 = keeps_butD [OF straightD(1) [OF contract_create_block(1) [OF C nb]]]
  have st1: "fs_stack ?s1 = ?xs @ ws" by simp
  have ws1: "typed_list C G b1 ws (map fst pts)" "length wps = length ws" using K1(2) [OF w(2)] b(4,7) lens(2) by simp_all
  obtain dst ed b2 where e: "branch_to_else C c nb wps wrs (?s1, env, b1) = Ok ((dst, ed), ?s1, env, b2)" "keeps C G b1 b2"
    "cv_entered G b2 = cv_entered G b1" "\<forall>k. cv_preds G b1 k \<subseteq> cv_preds G b2 k" "cv_preds G b2 nb \<noteq> {}" "\<not> cv_block G b1 dst"
    "cv_block G b2 dst" "cv_params G b2 dst = map fst rts" "cv_untouched G b2 dst" "else_branch G (wps = wrs) b1 b2 dst ed"
    "\<not> cv_entered G b2 dst"
    by (rule branch_to_else_run [OF C b(2,3) canp c(3,4) st1 ws1])
  let ?b3 = "seal_block C nb b2" and ?b4 = "switch_to_block C nb (seal_block C nb b2)"
  note S = contract_seal [OF C, where b = b2 and k = nb] and W = contract_switch [OF C, where b = ?b3 and k = nb]
  have k24: "keeps C G b2 ?b4" by (rule keeps_trans' [OF S(1) W(1)])
  have k14: "keeps C G b1 ?b4" by (rule keeps_trans' [OF e(2) k24])
  have k4: "keeps C G b ?b4" by (rule keeps_trans' [OF straightD(1) [OF c(1)] k14])
  have nd: "nb \<noteq> dst" using e(6) c(3) by blast
  have ent4: "cv_entered G ?b4 = (cv_entered G b)(nb := True)" using W(3) S(3) e(3) straightD(3) [OF c(1)] by simp
  have preds4: "cv_preds G ?b4 = cv_preds G b2" using W(2) S(2) by simp
  have ent_dst: "\<not> cv_entered G ?b4 dst" using ent4 nd e(3,11) straightD(3) [OF c(1)] by simp
  have fresh: "k \<noteq> nb" "k \<noteq> dst" "ed = WithElse eb \<Longrightarrow> k \<noteq> eb" if "cv_block G b k" for k eb
    using c(2) e(6,10) K1(3) [OF that] that by (auto simp: else_branch_def)
  let ?tf = "Frame_If dst ed (length ps) (length rs) (length (stack_types ?ws) + length ps) False blockty True None"
  let ?s' = "s\<lparr>fs_stack := ?xs @ ws @ ws, control_stack := control_stack s @ [?tf]\<rparr>"
  have "translate_if V C blockty (s, env, b) = Ok ((), ?s', env, ?b4)"
    using pop1_append [of s "?xs @ ws" c] x(1) w(1) nb b(1) e(1) lens b(7,8) reach
    by (simp add: translate_if_def tr_defs push_if_def Let_def)
  moreover have "typing_inv C G V E T (?s', env, ?b4) (?ws @ [?h])"
  proof (rule live_intro [OF com k4, where os = ps])
    show "frames_ok G V E ?b4 (control_stack ?s') (?ws @ [?h])"
    proof -
      have old: "frames_ok G V E ?b4 (control_stack s) (us @ [f])"
        by (rule frames_ok_keeps [OF ok k4])
          (use ent4 preds4 e(4) straightD(2) [OF c(1)] fresh(1) frames_ok_blocks [OF ok] in auto)
      have er: "else_ready G V E ?b4 ?h same dst blockty ed"
        using e(10) preds4 bt b(4,5,6) pts_eq keeps_butD(3) [OF k24] by (cases ed) (auto simp: else_branch_def)
      have "frame_ok G V E ?b4 (length (stack_types ?ws)) ?tf ?h"
        using e(7,8) b(4,5) canp canr er keeps_butD(3,4) [OF k24] keeps_butD(5) [OF k24 e(7,9) ent_dst] ent_dst
        by (auto simp: frame_ok_def frame_shape_def)
      then have "frames_ok G V E ?b4 (control_stack s @ [?tf]) (?ws @ [?h])"
        by (rule frames_ok_push [rotated 2])
          (use old frames_ops [OF ok] frames_ok_blocks [OF ok] fresh e(10) in \<open>cases ed; fastforce simp: else_branch_def\<close>)+
      then show ?thesis by simp
    qed
    show "typed_list C G ?b4 (fs_stack ?s') ((stack_types ?ws @ frame_dup ?h) @ ps)"
      using list_all2_appendI [OF keeps_butD(2) [OF k4 xs] list_all2_appendI [OF keeps_butD(2) [OF k4 w(2)] keeps_butD(2) [OF k4 w(2)]]] by simp
    show "\<not> is_unreachable C ?b4" by (rule W(7)) (use e(5) S(2) in simp)
  qed (use can r(1) reach hd_results_push [of us "Some r" f ?h] in \<open>simp_all add: same_caches_def\<close>)
  ultimately show ?thesis by (simp add: good_def r(2))
qed

end
