(* ===== verification/Else_Typing.thy ===== *)
theory Else_Typing
  imports Block_Typing
begin

text \<open>\<open>else\<close> keeps the typing invariant, whether the consequent ended reachable or not.\<close>

lemma last_blocks_disjoint:
  assumes "frames_ok G V E b (cs @ [tf]) (us @ [f])" and "k \<in> set (frame_blocks tf)" and "tf' \<in> set cs"
  shows "k \<notin> set (frame_blocks tf')"
  using assms by (auto simp: frames_ok_snoc)

text \<open>
  What happens to the blocks on the way into the alternative: the branches to the end of the \<open>if\<close> stay,
  but for the one from its head, and the alternative's block \<open>eb\<close> has a predecessor.
\<close>

definition redirected :: "'b clif_ops \<Rightarrow> 'b clif_view \<Rightarrow> ControlStackFrame list \<Rightarrow> ControlStackFrame \<Rightarrow> ir_Block \<Rightarrow> 'b \<Rightarrow> 'b \<Rightarrow> bool" where
  "redirected C G cs tf eb b b' \<longleftrightarrow> keeps C G b b' \<and> cv_entered G b' = cv_entered G b \<and>
     (\<forall>k. k \<noteq> fr_destination tf \<longrightarrow> cv_preds G b k \<subseteq> cv_preds G b' k) \<and>
     cv_preds G b (fr_destination tf) - own_branch tf \<subseteq> cv_preds G b' (fr_destination tf) \<and>
     cv_preds G b' eb \<noteq> {} \<and> eb \<noteq> fr_destination tf \<and> (\<forall>tf' \<in> set cs. eb \<notin> set (frame_blocks tf'))"

lemma redirect_run:
  assumes C: "builder_contract C G" and pts: "collect (block_param_type env) wps = Ok pts"
    and ok: "frames_ok G V E b (cs @ [tf]) (us @ [f])"
    and tf: "tf = Frame_If dst (NoElse n dst) np nr sz ex bt hr None" and n: "n \<in> cv_preds G b dst"
  obtains eb b1 where "block_with_params C wps (s, env, b) = Ok (eb, s, env, b1)" "straight C G b b1"
    "\<forall>b2 s'. keeps C G b1 b2 \<and> cv_entered G b2 = cv_entered G b1 \<and> (\<forall>k. cv_preds G b1 k \<subseteq> cv_preds G b2 k) \<longrightarrow>
       (\<exists>b'. redirect_else C n dst eb (s', env, b2) = Ok (eb, s', env, b') \<and> redirected C G cs tf eb b b' \<and>
         cv_preds G b' dst = cv_preds G b2 dst - {n} \<and> keeps C G b2 b' \<and> cv_entered G b' = cv_entered G b2)"
proof -
  obtain eb b1 where e: "block_with_params C wps (s, env, b) = Ok (eb, s, env, b1)" "straight C G b b1"
    "\<not> cv_block G b eb" "cv_block G b1 eb" "cv_params G b1 eb = map fst pts" "cv_untouched G b1 eb" "\<not> cv_entered G b1 eb"
    by (rule block_with_params_run [OF C pts])
  have dst: "cv_block G b dst" using frames_ok_blocks [OF ok, of tf dst] by (simp add: tf)
  with e(3) have neq: "dst \<noteq> eb" by blast
  have fresh: "\<forall>tf' \<in> set cs. eb \<notin> set (frame_blocks tf')" using frames_ok_blocks [OF ok] e(3) by auto
  show thesis
  proof (rule that [OF e(1,2)], intro allI impI, elim conjE)
    fix b2 and s' :: FuncTranslationState
    assume k: "keeps C G b1 b2" and ent: "cv_entered G b2 = cv_entered G b1" and "\<forall>k. cv_preds G b1 k \<subseteq> cv_preds G b2 k"
    then have pr: "\<And>k. cv_preds G b1 k \<subseteq> cv_preds G b2 k" by simp
    have n2: "n \<in> cv_preds G b2 dst" using n pr [of dst] straightD(2) [OF e(2)] by auto
    note J = contract_change_jump [OF C neq n2]
    let ?b3 = "change_jump_destination C n dst eb b2"
    note S = contract_seal [OF C, where b = ?b3 and k = eb]
    let ?b' = "seal_block C eb ?b3"
    have k2: "keeps C G b2 ?b'" by (rule keeps_trans' [OF J(1) S(1)])
    have kb: "keeps C G b ?b'" by (rule keeps_trans' [OF straightD(1) [OF e(2)] keeps_trans' [OF k k2]])
    have p: "cv_preds G ?b' = (cv_preds G b2)(dst := cv_preds G b2 dst - {n}, eb := insert n (cv_preds G b2 eb))"
      using S(2) J(4) by simp
    have "redirected C G cs tf eb b ?b'"
      using kb S(3) J(2) ent straightD(2,3) [OF e(2)] p neq fresh pr by (auto simp: redirected_def tf)
    then show "(\<exists>b'. redirect_else C n dst eb (s', env, b2) = Ok (eb, s', env, b') \<and> redirected C G cs tf eb b b' \<and>
         cv_preds G b' dst = cv_preds G b2 dst - {n} \<and> keeps C G b2 b' \<and> cv_entered G b' = cv_entered G b2)"
      using p neq k2 S(3) J(2) by (intro exI [of _ ?b']) (simp add: redirect_else_def tr_defs)
  qed
qed

text \<open>The frame of an \<open>if\<close> whose \<open>else\<close> is still to come.\<close>

lemma pending_frame:
  assumes "frame_ok G V E b n tf f" and "vf_kind f = VIf True same"
  obtains dst ed ex bt where
    "tf = Frame_If dst ed (length (vf_params f)) (length (vf_results f)) (n + length (vf_params f)) ex bt True None"
    "else_ready G V E b f same dst bt ed" "cv_block G b dst" "cv_params G b dst = vf_results f" "cv_untouched G b dst"
    "\<not> cv_entered G b dst" "ex \<longrightarrow> cv_preds G b dst - own_branch tf \<noteq> {}" "list_all canonical (vf_params f @ vf_results f)"
proof -
  from assms(1) have sh: "frame_shape G V E b n tf f" by (simp add: frame_ok_def)
  from sh [unfolded frame_shape_If [OF assms(2)]] obtain ed ex bt where
    1: "tf = Frame_If (fr_destination tf) ed (length (vf_params f)) (length (vf_results f)) (n + length (vf_params f)) ex bt True None"
      "else_ready G V E b f same (fr_destination tf) bt ed" by auto
  have "exit_is_branched_to tf = ex" by (subst 1(1)) simp
  with assms(1) 1 show thesis by (intro that [of "fr_destination tf" ed ex bt]) (simp_all add: frame_ok_def)
qed

text \<open>Entering the alternative.\<close>

lemma enter_else:
  assumes C: "builder_contract C G" and com: "common_inv C G E T (s, env, b) (us @ [f])" and kind: "vf_kind f = VIf True same"
    and ok: "frames_ok G V E b (cs @ [tf]) (us @ [f])"
    and tf: "tf = Frame_If dst ed (length (vf_params f)) (length (vf_results f)) (length (stack_types us) + length (vf_params f)) ex bt True None"
    and red: "redirected C G cs tf eb b b'" and ce: "ce \<Longrightarrow> cv_preds G b' dst \<noteq> {}"
    and xs: "typed_list C G b xs (stack_types us @ vf_params f)" and can: "list_all canonical (stack_types us @ vf_params f)"
    and s': "fs_stack s' = xs" "reachable s'" "same_caches s s'"
      "control_stack s' = cs @ [Frame_If dst ed (length (vf_params f)) (length (vf_results f)) (length (stack_types us) + length (vf_params f)) ex bt True (Some ce)]"
  shows "typing_inv C G V E T (s', env, switch_to_block C eb b') (us @ [f\<lparr>vf_kind := VIf False same, vf_ops := Some (vf_params f)\<rparr>])"
proof -
  let ?tf' = "Frame_If dst ed (length (vf_params f)) (length (vf_results f)) (length (stack_types us) + length (vf_params f)) ex bt True (Some ce)"
  let ?f' = "f\<lparr>vf_kind := VIf False same, vf_ops := Some (vf_params f)\<rparr>" and ?b = "switch_to_block C eb b'"
  note W = contract_switch [OF C, where b = b' and k = eb]
  from red have kb: "keeps C G b b'" and ent: "cv_entered G b' = cv_entered G b"
    and pr: "\<forall>k. k \<noteq> dst \<longrightarrow> cv_preds G b k \<subseteq> cv_preds G b' k" and own: "cv_preds G b dst - own_branch tf \<subseteq> cv_preds G b' dst"
    and eb: "cv_preds G b' eb \<noteq> {}" "eb \<noteq> dst" "\<forall>tf' \<in> set cs. eb \<notin> set (frame_blocks tf')"
    by (auto simp: redirected_def tf)
  have k: "keeps C G b ?b" by (rule keeps_trans' [OF kb W(1)])
  have fo: "frame_ok G V E b (length (stack_types us)) tf f" using ok by (simp add: frames_ok_snoc)
  then have d: "cv_block G b dst" "cv_params G b dst = vf_results f" "cv_untouched G b dst" "\<not> cv_entered G b dst"
    "ex \<longrightarrow> cv_preds G b dst - own_branch tf \<noteq> {}" "list_all canonical (vf_params f @ vf_results f)"
    by (simp_all add: frame_ok_def tf)
  have dst_in: "dst \<in> set (frame_blocks tf)" by (cases ed) (simp_all add: tf)
  have entd: "\<not> cv_entered G ?b dst" using W(3) ent d(4) eb(2) by simp
  have other: "k \<noteq> dst" "k \<noteq> eb" if "tf' \<in> set cs" "k \<in> set (frame_blocks tf')" for tf' k
    using that last_blocks_disjoint [OF ok dst_in] eb(3) by blast+
  have "(cv_entered G ?b k \<longrightarrow> cv_entered G b k) \<and> cv_preds G b k \<subseteq> cv_preds G ?b k" if "k \<noteq> dst" "k \<noteq> eb" for k
    using that W(2,3) ent pr by simp
  then have "frames_ok G V E ?b cs us"
    by (intro frames_ok_keeps [OF frames_ok_butlast [OF ok] k]) (use other in blast)
  moreover have "frame_ok G V E ?b (length (stack_types us)) ?tf' ?f'"
    using d keeps_butD(3,4) [OF k] keeps_butD(5) [OF k d(1,3) entd] entd own W(2) ce
    by (auto simp: frame_ok_def frame_shape_def)
  ultimately have "frames_ok G V E ?b (cs @ [?tf']) (us @ [?f'])"
    by (rule frames_ok_push [OF _ frames_ops [OF ok]]) (use last_blocks_disjoint [OF ok dst_in] in auto)
  moreover have "\<not> is_unreachable C ?b" by (rule W(7) [OF eb(1)])
  moreover have "vf_results (hd (us @ [?f'])) = vf_results (hd (us @ [f]))" by (rule hd_results) simp
  ultimately show ?thesis
    by (intro live_intro [OF com k, where os = "vf_params f"])
      (use s' can keeps_butD(2) [OF k xs] in \<open>simp_all add: frame_dup_def\<close>)
qed

lemma check_else_split:
  assumes "check_else (us @ [f]) = Some vs'" and "\<forall>g \<in> set us. vf_ops g \<noteq> None"
  obtains same where "vf_kind f = VIf True same" "results_ready f" "vs' = us @ [f\<lparr>vf_kind := VIf False same, vf_ops := Some (vf_params f)\<rparr>]"
proof -
  have "\<not> (us \<noteq> [] \<and> vf_ops (last us) = None)" using assms(2) by (cases "us = []") auto
  with assms(1) that show thesis by (auto simp: check_else_def split: vkind.splits bool.splits if_splits)
qed

text \<open>With an \<open>else\<close> block of its own, the \<open>if\<close> has nothing to redirect.\<close>

lemma with_else_redirected:
  assumes ok: "frames_ok G V E b (cs @ [tf]) (us @ [f])" and tf: "tf = Frame_If dst (WithElse eb) np nr sz ex bt hr None"
    and "cv_preds G b eb \<noteq> {}" and "keeps C G b b'" "cv_entered G b' = cv_entered G b" and pr: "\<And>k. cv_preds G b k \<subseteq> cv_preds G b' k"
  shows "redirected C G cs tf eb b b'"
proof -
  have "eb \<noteq> dst" using ok by (auto simp: frames_ok_snoc tf)
  moreover have "\<forall>tf' \<in> set cs. eb \<notin> set (frame_blocks tf')" using last_blocks_disjoint [OF ok] by (simp add: tf)
  ultimately show ?thesis using assms(3-5) pr [of eb] pr by (auto simp: redirected_def tf)
qed

lemma finish_consequent_run:
  assumes C: "builder_contract C G" and ok: "frames_ok G V E b (cs @ [tf]) (us @ [f])" and env: "env_of E env"
    and tf: "tf = Frame_If dst ed np (length (vf_results f)) sz ex bt True None" and er: "else_ready G V E b f same dst bt ed"
    and st: "fs_stack s = xs @ ws" and ws: "typed_list C G b ws (vf_results f)"
  obtains eb b' where
    "finish_consequent V C (Frame_If dst ed np (length (vf_results f)) sz ex bt True (Some True)) (s, env, b) =
       Ok (eb, s\<lparr>fs_stack := xs\<rparr>, env, b')"
    "redirected C G cs tf eb b b'" "cv_preds G b' dst \<noteq> {}"
proof -
  have d: "cv_block G b dst" "cv_params G b dst = vf_results f" "list_all canonical (vf_results f)"
    using ok by (simp_all add: frames_ok_snoc frame_ok_def tf)
  have len: "length ws = length (vf_results f)" using list_all2_lengthD [OF ws] .
  show thesis
  proof (cases ed)
    case (NoElse n ph)
    with er have n: "ph = dst" "n \<in> cv_preds G b dst" "block_types V E bt = Some (same, vf_params f, vf_results f)" "vf_params f = vf_results f"
      by simp_all
    obtain wps wrs pts rts where bt: "blocktype_params_results V bt = Ok (wps, wrs)" "collect (block_param_type env) wps = Ok pts"
      "length wps = length (vf_params f)" by (rule block_types_Some [OF n(3) env])
    have tf': "tf = Frame_If dst (NoElse n dst) np (length (vf_results f)) sz ex bt True None" using tf NoElse n(1) by simp
    obtain eb b1 where e: "block_with_params C wps (s, env, b) = Ok (eb, s, env, b1)" "straight C G b b1"
      and next_b: "\<forall>b2 s'. keeps C G b1 b2 \<and> cv_entered G b2 = cv_entered G b1 \<and> (\<forall>k. cv_preds G b1 k \<subseteq> cv_preds G b2 k) \<longrightarrow>
       (\<exists>b'. redirect_else C n dst eb (s', env, b2) = Ok (eb, s', env, b') \<and> redirected C G cs tf eb b b' \<and>
         cv_preds G b' dst = cv_preds G b2 dst - {n} \<and> keeps C G b2 b' \<and> cv_entered G b' = cv_entered G b2)"
      by (rule redirect_run [where s = s, OF C bt(2) ok tf' n(2)])
    note K = keeps_butD [OF straightD(1) [OF e(2)]]
    obtain m b2 where j: "canonicalise_then_jump C dst ws (s, env, b1) = Ok (m, s, env, b2)" "branched C G {dst} m b1 b2"
      by (rule jump_run [OF C K(3) [OF d(1)], of ws s env]) (use K(4) [OF d(1)] d(2,3) K(2) [OF ws] in simp_all)
    note B = branchedD [OF j(2)]
    from next_b B(1,2,4) obtain b' where
      r: "redirect_else C n dst eb (s\<lparr>fs_stack := xs\<rparr>, env, b2) = Ok (eb, s\<lparr>fs_stack := xs\<rparr>, env, b')"
        "redirected C G cs tf eb b b'" "cv_preds G b' dst = cv_preds G b2 dst - {n}" by meson
    have "m \<noteq> n" using B(3) n(2) contract_preds [OF C, of b dst] K(6) by blast
    with r(3) B(5) have "cv_preds G b' dst \<noteq> {}" by blast
    moreover have "finish_consequent V C (Frame_If dst ed np (length (vf_results f)) sz ex bt True (Some True)) (s, env, b) =
       Ok (eb, s\<lparr>fs_stack := xs\<rparr>, env, b')"
      using bt(1,3) e(1) j(1) r(1) n(1,4) peekn_append [OF st] popn_append [OF st] len NoElse
      by (simp add: finish_consequent_def tr_defs)
    ultimately show thesis using that r(2) by blast
  next
    case (WithElse eb)
    obtain m b2 where j: "canonicalise_then_jump C dst ws (s, env, b) = Ok (m, s, env, b2)" "branched C G {dst} m b b2"
      by (rule jump_run [OF C d(1), of ws s env]) (use d ws in simp_all)
    note B = branchedD [OF j(2)]
    have "finish_consequent V C (Frame_If dst ed np (length (vf_results f)) sz ex bt True (Some True)) (s, env, b) =
       Ok (eb, s\<lparr>fs_stack := xs\<rparr>, env, b2)"
      using j(1) peekn_append [OF st] popn_append [OF st] len WithElse by (simp add: finish_consequent_def tr_defs)
    moreover have "redirected C G cs tf eb b b2"
      by (rule with_else_redirected [OF ok tf [unfolded WithElse] _ B(1,2,4)]) (use er WithElse in simp)
    ultimately show thesis using that B(5) by blast
  qed
qed

lemma drop_consequent_run:
  assumes C: "builder_contract C G" and ok: "frames_ok G V E b (cs @ [tf]) (us @ [f])" and env: "env_of E env"
    and tf: "tf = Frame_If dst ed np nr (length xs) ex bt True None" and er: "else_ready G V E b f same dst bt ed"
    and st: "fs_stack s = xs @ ws"
  obtains eb b' where
    "drop_consequent V C (Frame_If dst ed np nr (length xs) ex bt True (Some False)) (s, env, b) =
       Ok (eb, s\<lparr>fs_stack := xs\<rparr>, env, b')"
    "redirected C G cs tf eb b b'"
proof (cases ed)
  case (NoElse n ph)
  with er have n: "ph = dst" "n \<in> cv_preds G b dst" "block_types V E bt = Some (same, vf_params f, vf_results f)" by simp_all
  obtain wps wrs pts rts where bt: "blocktype_params_results V bt = Ok (wps, wrs)" "collect (block_param_type env) wps = Ok pts"
    by (rule block_types_Some [OF n(3) env])
  have tf': "tf = Frame_If dst (NoElse n dst) np nr (length xs) ex bt True None" using tf NoElse n(1) by simp
  obtain eb b1 where e: "block_with_params C wps (s, env, b) = Ok (eb, s, env, b1)" "straight C G b b1"
    and next_b: "\<forall>b2 s'. keeps C G b1 b2 \<and> cv_entered G b2 = cv_entered G b1 \<and> (\<forall>k. cv_preds G b1 k \<subseteq> cv_preds G b2 k) \<longrightarrow>
     (\<exists>b'. redirect_else C n dst eb (s', env, b2) = Ok (eb, s', env, b') \<and> redirected C G cs tf eb b b' \<and>
       cv_preds G b' dst = cv_preds G b2 dst - {n} \<and> keeps C G b2 b' \<and> cv_entered G b' = cv_entered G b2)"
    by (rule redirect_run [where s = s, OF C bt(2) ok tf' n(2)])
  from next_b [rule_format, of b1 "s\<lparr>fs_stack := xs\<rparr>"] obtain b' where
    r: "redirect_else C n dst eb (s\<lparr>fs_stack := xs\<rparr>, env, b1) = Ok (eb, s\<lparr>fs_stack := xs\<rparr>, env, b')"
      "redirected C G cs tf eb b b'" by auto
  have "drop_consequent V C (Frame_If dst ed np nr (length xs) ex bt True (Some False)) (s, env, b) =
      Ok (eb, s\<lparr>fs_stack := xs\<rparr>, env, b')"
    using bt(1) e(1) r(1) n(1) st NoElse
    by (simp add: drop_consequent_def tr_defs truncate_value_stack_to_else_params_def)
  with that r(2) show thesis by blast
next
  case (WithElse eb)
  have "drop_consequent V C (Frame_If dst ed np nr (length xs) ex bt True (Some False)) (s, env, b) =
      Ok (eb, s\<lparr>fs_stack := xs\<rparr>, env, b)"
    using st WithElse by (simp add: drop_consequent_def tr_defs truncate_value_stack_to_else_params_def)
  moreover have "redirected C G cs tf eb b b"
    by (rule with_else_redirected [OF ok tf [unfolded WithElse]]) (use er WithElse in simp_all)
  ultimately show thesis using that by blast
qed

lemma else_good:
  assumes C: "builder_contract C G" and inv: "typing_inv C G V E T (s, env, b) vs" and reach: "reachable s"
    and chk: "check_else vs = Some vs'"
  shows "good C G V E T vs' (translate_else V C (s, env, b))"
proof (rule live_parts [OF inv reach])
  fix us f os
  assume vs: "vs = us @ [f]" and os: "vf_ops f = Some os" and ok: "frames_ok G V E b (control_stack s) (us @ [f])"
    and st: "typed_list C G b (fs_stack s) ((stack_types us @ frame_dup f) @ os)"
    and can: "list_all canonical ((stack_types us @ frame_dup f) @ os)" and com: "common_inv C G E T (s, env, b) (us @ [f])"
  obtain same where k: "vf_kind f = VIf True same" "results_ready f"
    "vs' = us @ [f\<lparr>vf_kind := VIf False same, vf_ops := Some (vf_params f)\<rparr>]"
    by (rule check_else_split [OF chk [unfolded vs] frames_ops [OF ok]])
  have os': "os = vf_results f" and dup: "frame_dup f = vf_params f" using k(1,2) os by (auto simp: results_ready_def frame_dup_def)
  obtain cs tf where cs: "control_stack s = cs @ [tf]"
    using frames_ok_nth(2) [OF ok] by (cases "control_stack s" rule: rev_cases) auto
  note ok' = ok [unfolded cs]
  have fo: "frame_ok G V E b (length (stack_types us)) tf f" using ok' by (simp add: frames_ok_snoc)
  obtain dst ed ex bt where tf: "tf = Frame_If dst ed (length (vf_params f)) (length (vf_results f)) (length (stack_types us) + length (vf_params f)) ex bt True None"
    "else_ready G V E b f same dst bt ed" by (rule pending_frame [OF fo k(1)])
  from list_all2_split [OF st] obtain xs ws where x: "fs_stack s = xs @ ws" "typed_list C G b xs (stack_types us @ vf_params f)"
    "typed_list C G b ws (vf_results f)" by (auto simp: os' dup)
  let ?tf' = "Frame_If dst ed (length (vf_params f)) (length (vf_results f)) (length (stack_types us) + length (vf_params f)) ex bt True (Some True)"
  let ?s1 = "s\<lparr>control_stack := cs @ [?tf'], reachable := True\<rparr>"
  have env: "env_of E env" using pointer_ok [OF com] by blast
  have st1: "fs_stack ?s1 = xs @ ws" using x(1) by simp
  obtain eb b' where r: "finish_consequent V C ?tf' (?s1, env, b) = Ok (eb, ?s1\<lparr>fs_stack := xs\<rparr>, env, b')"
    "redirected C G cs tf eb b b'" "cv_preds G b' dst \<noteq> {}"
    by (rule finish_consequent_run [OF C ok' env tf st1 x(3)])
  have "translate_else V C (s, env, b) = Ok ((), ?s1\<lparr>fs_stack := xs\<rparr>, env, switch_to_block C eb b')"
    using r(1) reach cs by (simp add: translate_else_def start_else_def tf(1) tr_defs Let_def)
  moreover have "typing_inv C G V E T (?s1\<lparr>fs_stack := xs\<rparr>, env, switch_to_block C eb b') vs'"
    unfolding k(3)
    by (rule enter_else [OF C com k(1) ok' tf(1) r(2) r(3) x(2)]) (use can in \<open>simp_all add: dup same_caches_def\<close>)
  ultimately show ?thesis by (simp add: good_def)
qed

end
