(* ===== verification/Dead_Typing.thy ===== *)
theory Dead_Typing
  imports Else_Typing
begin

text \<open>
  The operators of unreachable code keep the typing invariant: frames are counted, an \<open>else\<close> may make the
  code reachable again, and the rest is skipped.
\<close>

section \<open>Opening and closing the invariant\<close>

lemma dead_parts:
  assumes "typing_inv C G V E T (s, env, b) vs" and "\<not> reachable s"
  obtains L D us f DV xs zs where "control_stack s = L @ D" "vs = (us @ [f]) @ DV" "frames_ok G V E b L (us @ [f])"
    "list_all canonical (stack_types us @ frame_dup f)" "fs_stack s = xs @ zs" "typed_list C G b xs (stack_types us @ frame_dup f)"
    "list_all2 (dead_frame (length xs)) D DV" "common_inv C G E T (s, env, b) ((us @ [f]) @ DV)"
proof -
  from assms have com: "common_inv C G E T (s, env, b) vs" and "dead_inv C G V E s b vs" by (simp_all add: typing_inv_def)
  then obtain L D LV DV where d: "control_stack s = L @ D" "vs = LV @ DV" "LV \<noteq> []" "frames_ok G V E b L LV"
    "list_all canonical (base_types LV)" "length (base_types LV) \<le> length (fs_stack s)"
    "typed_list C G b (take (length (base_types LV)) (fs_stack s)) (base_types LV)"
    "list_all2 (dead_frame (length (base_types LV))) D DV" by (auto simp: dead_inv_def)
  from d(3) obtain us f where LV: "LV = us @ [f]" by (cases LV rule: rev_cases) auto
  let ?n = "length (base_types LV)"
  show thesis
    by (rule that [of L D us f DV "take ?n (fs_stack s)" "drop ?n (fs_stack s)"]) (use d com in \<open>simp_all add: LV\<close>)
qed

lemma dead_more:
  assumes "common_inv C G E T (s, env, b) vs" and "keeps C G b b'" and "same_caches s s'"
    and "vf_results (hd (us @ [f])) = vf_results (hd vs)" and "control_stack s' = L @ D" and "frames_ok G V E b' L (us @ [f])"
    and "fs_stack s' = xs @ zs" and "typed_list C G b' xs (stack_types us @ frame_dup f)" and "list_all canonical (stack_types us @ frame_dup f)"
    and "list_all2 (dead_frame (length xs)) D DV" and "\<not> reachable s'"
  shows "typing_inv C G V E T (s', env, b') ((us @ [f]) @ DV)"
proof -
  have "length (stack_types us @ frame_dup f) = length xs" using list_all2_lengthD [OF assms(8)] by simp
  then have "dead_inv C G V E s' b' ((us @ [f]) @ DV)"
    unfolding dead_inv_def using assms(5-10)
    by (intro exI [of _ L] exI [of _ D] exI [of _ "us @ [f]"] exI [of _ DV]) simp
  moreover have "vf_results (hd ((us @ [f]) @ DV)) = vf_results (hd vs)" using assms(4) by (cases us) simp_all
  then have "common_inv C G E T (s', env, b') ((us @ [f]) @ DV)" by (intro common_step [OF assms(1-3)]) simp_all
  ultimately show ?thesis using assms(11) by (simp add: typing_inv_def)
qed

lemma list_all2_snoc: "list_all2 P (xs @ [x]) (ys @ [y]) \<longleftrightarrow> list_all2 P xs ys \<and> P x y"
  using list_all2_rev [of P "xs @ [x]" "ys @ [y]"] by auto

lemma dead_frame_ops [simp]: "dead_frame n tf (f\<lparr>vf_ops := x\<rparr>) = dead_frame n tf f"
  by (cases tf) simp_all

text \<open>The operands that the checker assumes are of no account.\<close>

lemma dead_ops:
  assumes inv: "typing_inv C G V E T (s, env, b) (ws @ [h])" and dead: "\<not> reachable s"
  shows "typing_inv C G V E T (s, env, b) (ws @ [h\<lparr>vf_ops := x\<rparr>])"
proof (rule dead_parts [OF assms])
  fix L D us f DV xs zs
  assume cs: "control_stack s = L @ D" and vs: "ws @ [h] = (us @ [f]) @ DV" and ok: "frames_ok G V E b L (us @ [f])"
    and can: "list_all canonical (stack_types us @ frame_dup f)" and st: "fs_stack s = xs @ zs"
    and xs: "typed_list C G b xs (stack_types us @ frame_dup f)" and df: "list_all2 (dead_frame (length xs)) D DV"
    and com: "common_inv C G E T (s, env, b) ((us @ [f]) @ DV)"
  have hd: "vf_results (hd (us @ [f])) = vf_results (hd ((us @ [f]) @ DV))" by (cases us) simp_all
  show ?thesis
  proof (cases DV rule: rev_cases)
    case Nil
    then have "typing_inv C G V E T (s, env, b) ((us @ [f\<lparr>vf_ops := x\<rparr>]) @ [])"
      by (intro dead_more [OF com keeps_refl _ _ cs _ st _ _ _ dead]) (use ok can xs df hd in \<open>simp_all add: same_caches_def\<close>)
    with vs Nil show ?thesis by simp
  next
    case (snoc DV' d)
    from df snoc obtain D' tf where D: "D = D' @ [tf]" by (cases D rule: rev_cases) auto
    have "list_all2 (dead_frame (length xs)) D (DV' @ [d\<lparr>vf_ops := x\<rparr>])" using df by (simp add: D snoc list_all2_snoc)
    then have "typing_inv C G V E T (s, env, b) ((us @ [f]) @ DV' @ [d\<lparr>vf_ops := x\<rparr>])"
      by (intro dead_more [OF com keeps_refl _ _ cs _ st _ _ _ dead]) (use ok can xs hd in \<open>simp_all add: same_caches_def\<close>)
    with vs snoc show ?thesis by simp
  qed
qed

lemma dead_push:
  assumes inv: "typing_inv C G V E T (s, env, b) vs" and dead: "\<not> reachable s"
    and tf: "\<And>n. n \<le> length (fs_stack s) \<Longrightarrow> dead_frame n tf h"
  shows "typing_inv C G V E T (s\<lparr>control_stack := control_stack s @ [tf]\<rparr>, env, b) (vs @ [h])"
proof (rule dead_parts [OF inv dead])
  fix L D us f DV xs zs
  assume cs: "control_stack s = L @ D" and vs: "vs = (us @ [f]) @ DV" and ok: "frames_ok G V E b L (us @ [f])"
    and can: "list_all canonical (stack_types us @ frame_dup f)" and st: "fs_stack s = xs @ zs"
    and xs: "typed_list C G b xs (stack_types us @ frame_dup f)" and df: "list_all2 (dead_frame (length xs)) D DV"
    and com: "common_inv C G E T (s, env, b) ((us @ [f]) @ DV)"
  let ?s = "s\<lparr>control_stack := control_stack s @ [tf]\<rparr>"
  have hd: "vf_results (hd (us @ [f])) = vf_results (hd ((us @ [f]) @ DV))" by (cases us) simp_all
  have D: "list_all2 (dead_frame (length xs)) (D @ [tf]) (DV @ [h])" using df tf [of "length xs"] st by (simp add: list_all2_snoc)
  have "typing_inv C G V E T (?s, env, b) ((us @ [f]) @ DV @ [h])"
    by (rule dead_more [OF com keeps_refl _ hd _ ok _ xs can D]) (use cs st dead in \<open>simp_all add: same_caches_def\<close>)
  then show ?thesis by (simp add: vs)
qed

section \<open>The checker on the top frame\<close>

lemma only_ops:
  "apply_type ts us f = Some f' \<Longrightarrow> \<exists>x. f' = f\<lparr>vf_ops := x\<rparr>"
  "give_up f = Some f' \<Longrightarrow> \<exists>x. f' = f\<lparr>vf_ops := x\<rparr>"
  "check_drop f = Some f' \<Longrightarrow> \<exists>x. f' = f\<lparr>vf_ops := x\<rparr>"
  "leave ts f = Some f' \<Longrightarrow> \<exists>x. f' = f\<lparr>vf_ops := x\<rparr>"
proof -
  have same: "\<exists>x. f = f\<lparr>vf_ops := x\<rparr>" for f :: vframe by (rule exI [of _ "vf_ops f"]) simp
  have a: "\<exists>x. f' = f\<lparr>vf_ops := x\<rparr>" if "apply_type ts us f = Some f'" for ts us f f'
    using same that by (auto simp: apply_type_def split: option.splits)
  then show "apply_type ts us f = Some f' \<Longrightarrow> \<exists>x. f' = f\<lparr>vf_ops := x\<rparr>" .
  show "give_up f = Some f' \<Longrightarrow> \<exists>x. f' = f\<lparr>vf_ops := x\<rparr>" by (auto simp: give_up_def)
  show "check_drop f = Some f' \<Longrightarrow> \<exists>x. f' = f\<lparr>vf_ops := x\<rparr>"
    using same by (auto simp: check_drop_def split: option.splits if_splits)
  show "leave ts f = Some f' \<Longrightarrow> \<exists>x. f' = f\<lparr>vf_ops := x\<rparr>"
    by (clarsimp simp: leave_def give_up_def bind_eq_Some_conv) (drule a, auto)
qed

lemma only_ops_select: "check_select f = Some f' \<Longrightarrow> \<exists>x. f' = f\<lparr>vf_ops := x\<rparr>"
  using only_ops(1) [of _ _ f f'] exI [of "\<lambda>x. f = f\<lparr>vf_ops := x\<rparr>" "vf_ops f"]
  by (auto simp: check_select_def Let_def split: option.splits if_splits)

lemma only_ops_ref: "check_ref g f = Some f' \<Longrightarrow> \<exists>x. f' = f\<lparr>vf_ops := x\<rparr>"
  using only_ops(1) [of _ _ f f'] exI [of "\<lambda>x. f = f\<lparr>vf_ops := x\<rparr>" "vf_ops f"]
  by (auto simp: check_ref_def split: option.splits if_splits prod.splits)

text \<open>Operators that change nothing but the operands.\<close>

definition changes_ops :: "vframe list \<Rightarrow> vframe list option \<Rightarrow> bool" where
  "changes_ops vs r \<longleftrightarrow> (\<forall>vs'. r = Some vs' \<longrightarrow> (\<exists>us f x. vs = us @ [f] \<and> vs' = us @ [f\<lparr>vf_ops := x\<rparr>]))"

lemma changes_ops_on_top: "(\<And>f f'. g f = Some f' \<Longrightarrow> \<exists>x. f' = f\<lparr>vf_ops := x\<rparr>) \<Longrightarrow> changes_ops vs (on_top g vs)"
  unfolding changes_ops_def on_top_Some by blast

lemma changes_ops_branch:
  "(\<And>ts f f'. g ts f = Some f' \<Longrightarrow> \<exists>x. f' = f\<lparr>vf_ops := x\<rparr>) \<Longrightarrow> changes_ops vs (check_branch vs d g)"
  unfolding check_branch_def by (cases "frame_at vs d") (auto simp: changes_ops_def on_top_Some)

definition opens :: "Operator \<Rightarrow> bool" where
  "opens oper = (case oper of O_Block bt \<Rightarrow> True | O_Loop bt \<Rightarrow> True | O_If bt \<Rightarrow> True | O_Else \<Rightarrow> True | O_End \<Rightarrow> True | _ \<Rightarrow> False)"

lemma check_changes_ops:
  assumes "\<not> opens oper"
  shows "changes_ops vs (check_operator V E T oper vs)"
proof -
  note intros = changes_ops_on_top changes_ops_branch
  have none: "changes_ops ws None" for ws by (simp add: changes_ops_def)
  have fixed: "changes_ops vs (Option.bind (fixed_type T oper) (\<lambda>(ts, us). on_top (apply_type ts us) vs))"
    using changes_ops_on_top [OF only_ops(1)] none by (cases "fixed_type T oper") auto
  have "changes_ops vs (check_branch vs d (\<lambda>ts. if ts = [] then (\<lambda>_. None) else check_ref (\<lambda>t. (ts, butlast ts))))" for d
    by (rule changes_ops_branch) (auto split: if_splits dest: only_ops_ref)
  then show ?thesis
    using assms fixed none
    by (cases oper)
      (simp_all add: check_operator_def opens_def intros only_ops only_ops_select only_ops_ref split del: if_split split: if_split)
qed

section \<open>Operators\<close>

lemma dead_frame_good:
  assumes inv: "typing_inv C G V E T (s, env, b) vs" and dead: "\<not> reachable s" and chk: "enter_block kind ts ps rs vs = Some vs'"
    and tf: "\<And>n h. n \<le> length (fs_stack s) \<Longrightarrow> vf_kind h = kind \<Longrightarrow> dead_frame n tf h"
  shows "typing_inv C G V E T (s\<lparr>control_stack := control_stack s @ [tf]\<rparr>, env, b) vs'"
proof -
  from chk obtain ws h where w: "on_top (apply_type (ps @ ts) []) vs = Some ws" "vs' = ws @ [h]" "vf_kind h = kind"
    by (auto simp: enter_block_def)
  have "changes_ops vs (on_top (apply_type (ps @ ts) []) vs)" by (rule changes_ops_on_top) (rule only_ops(1))
  with w(1) obtain us f x where "vs = us @ [f]" "ws = us @ [f\<lparr>vf_ops := x\<rparr>]" unfolding changes_ops_def by blast
  with dead_ops [OF _ dead] inv have "typing_inv C G V E T (s, env, b) ws" by simp
  from dead_push [OF this dead tf [OF _ w(3)]] w(2) show ?thesis by simp
qed

lemma unreachable_block_good:
  assumes inv: "typing_inv C G V E T (s, env, b) vs" and dead: "\<not> reachable s"
    and chk: "check_operator V E T oper vs = Some vs'" and oper: "oper \<in> {O_Block bt, O_Loop bt, O_If bt}"
  shows "good C G V E T vs' (translate_unreachable_operator V C oper (s, env, b))"
proof -
  let ?blk = "Frame_Block reserved_value 0 0 (length (fs_stack s)) False"
  let ?if = "Frame_If reserved_value (NoElse reserved_value reserved_value) 0 0 (length (fs_stack s)) False bt False None"
  have blk: "typing_inv C G V E T (s\<lparr>control_stack := control_stack s @ [?blk]\<rparr>, env, b) vs'"
    if "enter_block kind ts ps rs vs = Some vs'" "kind \<in> {VBlock, VLoop}" for kind ts ps rs
    by (rule dead_frame_good [OF inv dead that(1)]) (use that(2) in auto)
  have iff: "typing_inv C G V E T (s\<lparr>control_stack := control_stack s @ [?if]\<rparr>, env, b) vs'"
    if "enter_block (VIf True same) ts ps rs vs = Some vs'" for same ts ps rs
    by (rule dead_frame_good [OF inv dead that]) auto
  have st: "s\<lparr>fs_stack := fs_stack s, control_stack := x\<rparr> = s\<lparr>control_stack := x\<rparr>" for x by simp
  from oper chk show ?thesis
    by (auto simp: check_operator_def translate_unreachable_operator_def good_def tr_modify_def tr_state_def push_block_def push_if_def
        bind_eq_Some_conv dead st intro: blk iff)
qed

lemma check_else_cases:
  assumes "check_else vs = Some vs'"
  obtains ws h same x where "vs = ws @ [h]" "vf_kind h = VIf True same" "vs' = ws @ [h\<lparr>vf_kind := VIf False same, vf_ops := x\<rparr>]"
  using assms by (cases vs rule: rev_cases) (auto simp: check_else_def split: vkind.splits bool.splits if_splits)

text \<open>The \<open>else\<close> of an \<open>if\<close> whose head was unreachable.\<close>

lemma skipped_else_good:
  assumes dead: "\<not> reachable s" and cs: "control_stack s = L @ D @ [tf]" and ok: "frames_ok G V E b L (us @ [f])"
    and can: "list_all canonical (stack_types us @ frame_dup f)" and st: "fs_stack s = xs @ zs"
    and xs: "typed_list C G b xs (stack_types us @ frame_dup f)" and df: "list_all2 (dead_frame (length xs)) (D @ [tf]) (DV @ [d])"
    and com: "common_inv C G E T (s, env, b) ((us @ [f]) @ DV @ [d])" and kind: "vf_kind d = VIf True same"
  shows "good C G V E T ((us @ [f]) @ DV @ [d\<lparr>vf_kind := VIf False same, vf_ops := x\<rparr>]) (start_else C body (s, env, b))"
proof -
  from df have tf: "dead_frame (length xs) tf d" and D: "list_all2 (dead_frame (length xs)) D DV" by (simp_all add: list_all2_snoc)
  from tf kind obtain dst ed nr sz bt where t: "tf = Frame_If dst ed 0 nr sz False bt False None" "length xs \<le> sz" by (cases tf) auto
  let ?tf' = "Frame_If dst ed 0 nr sz False bt False (Some False)"
  let ?s = "s\<lparr>control_stack := L @ D @ [?tf']\<rparr>" and ?d = "d\<lparr>vf_kind := VIf False same, vf_ops := x\<rparr>"
  have hd: "vf_results (hd (us @ [f])) = vf_results (hd ((us @ [f]) @ DV @ [d]))" by (cases us) simp_all
  have D': "list_all2 (dead_frame (length xs)) (D @ [?tf']) (DV @ [?d])" using D t(2) by (simp add: list_all2_snoc)
  have "typing_inv C G V E T (?s, env, b) ((us @ [f]) @ DV @ [?d])"
    by (rule dead_more [OF com keeps_refl _ hd _ ok _ xs can D']) (use st dead in \<open>simp_all add: same_caches_def\<close>)
  moreover have "start_else C body (s, env, b) = Ok ((), ?s, env, b)"
    using cs dead by (simp add: start_else_def t(1) butlast_append)
  ultimately show ?thesis by (simp add: good_def)
qed

lemma unreachable_else_good:
  assumes C: "builder_contract C G" and inv: "typing_inv C G V E T (s, env, b) vs" and dead: "\<not> reachable s"
    and chk: "check_else vs = Some vs'"
  shows "good C G V E T vs' (start_else C (drop_consequent V C) (s, env, b))"
proof (rule dead_parts [OF inv dead])
  fix L D us f DV xs zs
  assume cs: "control_stack s = L @ D" and vs: "vs = (us @ [f]) @ DV" and ok: "frames_ok G V E b L (us @ [f])"
    and can: "list_all canonical (stack_types us @ frame_dup f)" and st: "fs_stack s = xs @ zs"
    and xs: "typed_list C G b xs (stack_types us @ frame_dup f)" and df: "list_all2 (dead_frame (length xs)) D DV"
    and com: "common_inv C G E T (s, env, b) ((us @ [f]) @ DV)"
  show ?thesis
  proof (cases DV rule: rev_cases)
    case (snoc DV' d)
    with df obtain D' tf where D: "D = D' @ [tf]" by (cases D rule: rev_cases) auto
    obtain ws h same x where e: "vs = ws @ [h]" "vf_kind h = VIf True same" "vs' = ws @ [h\<lparr>vf_kind := VIf False same, vf_ops := x\<rparr>]"
      by (rule check_else_cases [OF chk])
    with vs snoc have "h = d" "ws = (us @ [f]) @ DV'" by auto
    with skipped_else_good [OF dead _ ok can st xs df [unfolded D snoc] com [unfolded snoc], of same x "drop_consequent V C"] cs D e
    show ?thesis by simp
  next
    case Nil
    with df vs chk have D: "D = []" and chk': "check_else (us @ [f]) = Some vs'" by simp_all
    obtain same where k: "vf_kind f = VIf True same" "vs' = us @ [f\<lparr>vf_kind := VIf False same, vf_ops := Some (vf_params f)\<rparr>]"
      by (rule check_else_split [OF chk' frames_ops [OF ok]])
    have dup: "frame_dup f = vf_params f" using k(1) by (simp add: frame_dup_def)
    have com': "common_inv C G E T (s, env, b) (us @ [f])" using com Nil by simp
    obtain cs' tf where L: "L = cs' @ [tf]" using frames_ok_nth(2) [OF ok] by (cases L rule: rev_cases) auto
    note ok' = ok [unfolded L]
    have fo: "frame_ok G V E b (length (stack_types us)) tf f" using ok' by (simp add: frames_ok_snoc)
    obtain dst ed ex bt where tf: "tf = Frame_If dst ed (length (vf_params f)) (length (vf_results f)) (length (stack_types us) + length (vf_params f)) ex bt True None"
      "else_ready G V E b f same dst bt ed" by (rule pending_frame [OF fo k(1)])
    have len: "length (stack_types us) + length (vf_params f) = length xs" using list_all2_lengthD [OF xs] by (simp add: dup)
    let ?tf' = "Frame_If dst ed (length (vf_params f)) (length (vf_results f)) (length (stack_types us) + length (vf_params f)) ex bt True (Some False)"
    let ?s1 = "s\<lparr>control_stack := cs' @ [?tf'], reachable := True\<rparr>"
    have env: "env_of E env" using pointer_ok [OF com'] by blast
    have st1: "fs_stack ?s1 = xs @ zs" using st by simp
    obtain eb b' where r: "drop_consequent V C (Frame_If dst ed (length (vf_params f)) (length (vf_results f)) (length xs) ex bt True (Some False)) (?s1, env, b)
        = Ok (eb, ?s1\<lparr>fs_stack := xs\<rparr>, env, b')" "redirected C G cs' tf eb b b'"
      by (rule drop_consequent_run [OF C ok' env tf(1) [unfolded len] tf(2) st1])
    have "start_else C (drop_consequent V C) (s, env, b) = Ok ((), ?s1\<lparr>fs_stack := xs\<rparr>, env, switch_to_block C eb b')"
      using r(1) dead cs L D by (simp add: start_else_def tf(1) tr_defs Let_def len)
    moreover have "typing_inv C G V E T (?s1\<lparr>fs_stack := xs\<rparr>, env, switch_to_block C eb b') vs'"
      unfolding k(2)
      by (rule enter_else [OF C com' k(1) ok' tf(1) r(2), where ce = False and xs = xs])
        (use can xs in \<open>simp_all add: dup same_caches_def\<close>)
    ultimately show ?thesis by (simp add: good_def)
  qed
qed

end
