(* ===== verification/End_Typing.thy ===== *)
theory End_Typing
  imports Dead_Typing
begin

text \<open>\<open>end\<close> keeps the typing invariant; the last one leaves the results of the function on the stack.\<close>

section \<open>The end of the body\<close>

definition ended :: "'b clif_ops \<Rightarrow> 'b clif_view \<Rightarrow> TranslationEnvironment \<Rightarrow> 'b tr_st \<Rightarrow> bool" where
  "ended C G E = (\<lambda>(s, env, b). control_stack s = [] \<and> env_of E env \<and>
     (reachable s \<longrightarrow> \<not> is_unreachable C b \<and> typed_list C G b (fs_stack s) (sig_returns (func_signature C b)) \<and>
        list_all canonical (sig_returns (func_signature C b))))"

definition body_inv ::
  "'b clif_ops \<Rightarrow> 'b clif_view \<Rightarrow> FuncValidator \<Rightarrow> TranslationEnvironment \<Rightarrow> type_ctx \<Rightarrow> 'b tr_st \<Rightarrow> vframe list \<Rightarrow> bool" where
  "body_inv C G V E T st vs = (if vs = [] then ended C G E st else typing_inv C G V E T st vs)"

definition ends ::
  "'b clif_ops \<Rightarrow> 'b clif_view \<Rightarrow> FuncValidator \<Rightarrow> TranslationEnvironment \<Rightarrow> type_ctx \<Rightarrow> vframe list \<Rightarrow> (unit \<times> 'b tr_st) result \<Rightarrow> bool" where
  "ends C G V E T vs r \<longleftrightarrow> (\<exists>st. r = Ok ((), st) \<and> body_inv C G V E T st vs)"

section \<open>Arriving at the code after a block\<close>

text \<open>The builder is at the start of block \<open>k\<close>, which something branches to.\<close>

definition at_start :: "'b clif_ops \<Rightarrow> 'b clif_view \<Rightarrow> ir_Block \<Rightarrow> 'b \<Rightarrow> bool" where
  "at_start C G k b \<longleftrightarrow> cv_block G b k \<and> cv_untouched G b k \<and> cv_current G b = k \<and> \<not> cv_filled G b \<and>
     cv_preds G b k \<noteq> {} \<and> \<not> is_unreachable C b"

lemma switch_at_start:
  assumes "builder_contract C G" and "cv_block G b k" and "cv_untouched G b k" and "cv_preds G b k \<noteq> {}"
  shows "at_start C G k (switch_to_block C k b)"
  using assms contract_switch [OF assms(1), where b = b and k = k] keeps_butD(3) [OF contract_switch(1) [OF assms(1)] assms(2)]
  by (simp add: at_start_def)

lemma seal_at_start:
  assumes C: "builder_contract C G" and "at_start C G k b"
  shows "at_start C G k (seal_block C j b)"
proof -
  note S = contract_seal [OF C, where b = b and k = j]
  from assms(2) have a: "cv_block G b k" "cv_untouched G b (cv_current G b)" "cv_current G b = k" "\<not> cv_filled G b" "cv_preds G b (cv_current G b) \<noteq> {}"
    by (simp_all add: at_start_def)
  show ?thesis using S(2,4,5) S(6) [OF a(4,2)] S(7) [OF a(5)] a keeps_butD(3) [OF S(1) a(1)] by (simp add: at_start_def)
qed

fun header_sealed :: "'b clif_ops \<Rightarrow> ControlStackFrame \<Rightarrow> 'b \<Rightarrow> 'b" where
  "header_sealed C (Frame_Loop dst header np nr sz) b = seal_block C header b"
| "header_sealed C frame b = b"

lemma seal_header_run: "seal_header C tf (s, env, b) = Ok ((), s, env, header_sealed C tf b)"
  by (cases tf) (simp_all add: tr_defs)

lemma header_sealed_facts:
  assumes C: "builder_contract C G"
  shows "keeps C G b (header_sealed C tf b)" "cv_preds G (header_sealed C tf b) = cv_preds G b"
    "cv_entered G (header_sealed C tf b) = cv_entered G b" "at_start C G k b \<Longrightarrow> at_start C G k (header_sealed C tf b)"
  using contract_seal [OF C, where b = b] seal_at_start [OF C, of k b] by (cases tf; simp)+

text \<open>What a frame says about the stack and the block after it.\<close>

lemma frame_end:
  assumes "frame_ok G V E b n tf f"
  shows "num_return_values tf = length (vf_results f)" "truncate_value_stack_to_original_size tf st = Ok (take n st)"
    "cv_block G b (fr_destination tf)" "cv_params G b (fr_destination tf) = vf_results f" "cv_untouched G b (fr_destination tf)"
    "\<not> cv_entered G b (fr_destination tf)" "list_all canonical (vf_results f)" "fr_destination tf \<in> set (frame_blocks tf)"
proof -
  from assms have sh: "frame_shape G V E b n tf f" by (simp add: frame_ok_def)
  then show "num_return_values tf = length (vf_results f)" by (cases tf; cases "vf_kind f"; simp add: frame_shape_def Let_def)
  from sh show "truncate_value_stack_to_original_size tf st = Ok (take n st)"
    by (cases tf; cases "vf_kind f"; auto simp: frame_shape_def Let_def truncate_value_stack_to_original_size_def)
  show "fr_destination tf \<in> set (frame_blocks tf)" by (cases tf rule: frame_blocks.cases) auto
qed (use assms in \<open>simp_all add: frame_ok_def\<close>)

text \<open>After the frame, \<open>k\<close> is at its start and the other blocks are as they were.\<close>

definition arrived :: "'b clif_ops \<Rightarrow> 'b clif_view \<Rightarrow> ir_Block \<Rightarrow> 'b \<Rightarrow> 'b \<Rightarrow> bool" where
  "arrived C G k b b' \<longleftrightarrow> keeps C G b b' \<and> at_start C G k b' \<and> cv_preds G b' = cv_preds G b \<and>
     cv_entered G b' = (cv_entered G b)(k := True)"

lemma arrive_then_header:
  assumes C: "builder_contract C G" and "cv_block G b k" "cv_untouched G b k" "cv_preds G b k \<noteq> {}"
  shows "arrived C G k b (header_sealed C tf (seal_block C k (switch_to_block C k b)))"
proof -
  note W = contract_switch [OF C, where b = b and k = k] and S = contract_seal [OF C, where b = "switch_to_block C k b" and k = k]
  note H = header_sealed_facts [OF C, where b = "seal_block C k (switch_to_block C k b)" and tf = tf]
  show ?thesis
    using keeps_trans' [OF keeps_trans' [OF W(1) S(1)] H(1)] H(4) [OF seal_at_start [OF C switch_at_start [OF assms]]] H(2,3) S(2,3) W(2,3)
    by (simp add: arrived_def)
qed

lemma header_then_arrive:
  assumes C: "builder_contract C G" and "cv_block G b k" "cv_untouched G b k" "cv_preds G b k \<noteq> {}" and "\<not> cv_entered G b k"
  shows "arrived C G k b (seal_block C k (switch_to_block C k (header_sealed C tf b)))"
proof -
  let ?h = "header_sealed C tf b"
  note H = header_sealed_facts [OF C, where b = b and tf = tf]
  note W = contract_switch [OF C, where b = ?h and k = k] and S = contract_seal [OF C, where b = "switch_to_block C k ?h" and k = k]
  have "cv_untouched G ?h k" "cv_block G ?h k" using keeps_butD(5) [OF H(1) assms(2,3)] keeps_butD(3) [OF H(1) assms(2)] H(3) assms(5) by simp_all
  then have "at_start C G k (seal_block C k (switch_to_block C k ?h))"
    using seal_at_start [OF C switch_at_start [OF C]] H(2) assms(4) by simp
  then show ?thesis using keeps_trans' [OF H(1) keeps_trans' [OF W(1) S(1)]] H(2,3) S(2,3) W(2,3) by (simp add: arrived_def)
qed

section \<open>Leaving a frame\<close>

lemma check_end_split:
  assumes "check_end (us @ [f]) = Some vs'"
  obtains "us = []" "vs' = []" | ws g where "us = ws @ [g]" "on_top (apply_type [] (vf_results f)) (ws @ [g]) = Some vs'"
  using assms by (cases us rule: rev_cases) (auto simp: check_end_def butlast_append split: if_splits)

lemma leave_frame:
  assumes C: "builder_contract C G" and com: "common_inv C G E T (s, env, b) (us @ [f])" and ok: "frames_ok G V E b (cs @ [tf]) (us @ [f])"
    and arr: "arrived C G (fr_destination tf) b b'" and xs: "typed_list C G b xs (stack_types us)" and can: "list_all canonical (stack_types us)"
    and chk: "check_end (us @ [f]) = Some vs'"
    and s': "control_stack s' = cs" "fs_stack s' = xs @ block_params C b' (fr_destination tf)" "reachable s'" "same_caches s s'"
  shows "body_inv C G V E T (s', env, b') vs'"
proof -
  let ?k = "fr_destination tf"
  from arr have k: "keeps C G b b'" and start: "at_start C G ?k b'" and pr: "cv_preds G b' = cv_preds G b"
    and ent: "cv_entered G b' = (cv_entered G b)(?k := True)" by (simp_all add: arrived_def)
  have fo: "frame_ok G V E b (length (stack_types us)) tf f" using ok by (simp add: frames_ok_snoc)
  note F = frame_end [OF fo]
  have bps: "typed_list C G b' (block_params C b' ?k) (vf_results f)"
    using contract_block_params [OF C, of b' ?k] start keeps_butD(4) [OF k F(3)] F(4) by (simp add: at_start_def)
  have un: "\<not> is_unreachable C b'" using start by (simp add: at_start_def)
  note xs' = keeps_butD(2) [OF k xs]
  from chk show ?thesis
  proof (cases rule: check_end_split)
    case 1
    with com F(7) bps xs' un s' keeps_butD(8) [OF k] frames_ok_nth(2) [OF ok] show ?thesis
      by (simp add: body_inv_def ended_def common_inv_def)
  next
    case (2 ws g)
    from frames_ops [OF ok] 2(1) obtain os where os: "vf_ops g = Some os" by auto
    obtain r where r: "os = r @ []" "vs' = ws @ [g\<lparr>vf_ops := Some (r @ vf_results f)\<rparr>]" by (rule apply_type_split [OF 2(2) os])
    have types: "stack_types us = (stack_types ws @ frame_dup g) @ os" by (simp add: 2(1) segment_Some [OF os])
    have "frames_ok G V E b' cs (ws @ [g])"
      using frames_ok_keeps [OF frames_ok_butlast [OF ok] k] last_blocks_disjoint [OF ok F(8)] pr ent 2(1) by auto
    moreover have "vf_results (hd (ws @ [g])) = vf_results (hd (us @ [f]))" by (cases ws) (simp_all add: 2(1))
    ultimately have "typing_inv C G V E T (s', env, b') vs'"
      unfolding r(2) by (intro live_intro [OF com k s'(4), where os = "r @ vf_results f"])
        (use s' list_all2_appendI [OF xs' bps] can F(7) un types r(1) in simp_all)
    with r(2) show ?thesis by (simp add: body_inv_def)
  qed
qed

lemma end_good:
  assumes C: "builder_contract C G" and inv: "typing_inv C G V E T (s, env, b) vs" and reach: "reachable s"
    and chk: "check_end vs = Some vs'"
  shows "ends C G V E T vs' (translate_end C (s, env, b))"
proof (rule live_parts [OF inv reach])
  fix us f os
  assume vs: "vs = us @ [f]" and os: "vf_ops f = Some os" and ok: "frames_ok G V E b (control_stack s) (us @ [f])"
    and st: "typed_list C G b (fs_stack s) ((stack_types us @ frame_dup f) @ os)"
    and can: "list_all canonical ((stack_types us @ frame_dup f) @ os)" and com: "common_inv C G E T (s, env, b) (us @ [f])"
  note chk' = chk [unfolded vs]
  have os': "os = vf_results f" using chk' os by (auto simp: check_end_def results_ready_def split: if_splits)
  obtain cs tf where cs: "control_stack s = cs @ [tf]"
    using frames_ok_nth(2) [OF ok] by (cases "control_stack s" rule: rev_cases) auto
  note ok' = ok [unfolded cs]
  have fo: "frame_ok G V E b (length (stack_types us)) tf f" using ok' by (simp add: frames_ok_snoc)
  note F = frame_end [OF fo]
  let ?k = "fr_destination tf"
  obtain xs ds ws where x: "fs_stack s = (xs @ ds) @ ws" "typed_list C G b xs (stack_types us)" "typed_list C G b ws (vf_results f)"
    by (rule live_split [OF st [unfolded os' append_assoc]])
  have len: "length ws = length (vf_results f)" "length xs = length (stack_types us)"
    using list_all2_lengthD [OF x(3)] list_all2_lengthD [OF x(2)] by simp_all
  let ?s1 = "s\<lparr>control_stack := cs\<rparr>"
  obtain n b1 where j: "canonicalise_then_jump C ?k ws (?s1, env, b) = Ok (n, ?s1, env, b1)" "branched C G {?k} n b b1"
    by (rule jump_run [OF C F(3), of ws ?s1 env]) (use F(4,7) x(3) in simp_all)
  note B = branchedD [OF j(2)]
  let ?b' = "header_sealed C tf (seal_block C ?k (switch_to_block C ?k b1))"
  let ?s' = "s\<lparr>control_stack := cs, fs_stack := xs @ block_params C ?b' ?k\<rparr>"
  have run: "translate_end C (s, env, b) = Ok ((), ?s', env, ?b')"
    using cs x(1) j(1) F(1) F(2) [of "xs @ ds @ ws"] len peekn_append [of ?s1 "xs @ ds" ws] seal_header_run [of C tf]
    by (simp add: translate_end_def tr_defs pop_frame_def following_code_def truncate_to_frame_def)
  have ok1: "frames_ok G V E b1 (cs @ [tf]) (us @ [f])" by (rule frames_ok_keeps [OF ok' B(1)]) (use B(2,4) in simp)
  have arr: "arrived C G ?k b1 ?b'"
    by (rule arrive_then_header [OF C keeps_butD(3) [OF B(1) F(3)] keeps_butD(5) [OF B(1) F(3,5)]]) (use B(2,5) F(6) in auto)
  have com1: "common_inv C G E T (s, env, b1) (us @ [f])" by (rule common_step [OF com B(1)]) (simp_all add: same_caches_def)
  have "body_inv C G V E T (?s', env, ?b') vs'"
    by (rule leave_frame [OF C com1 ok1 arr keeps_butD(2) [OF B(1) x(2)] _ chk']) (use can reach in \<open>simp_all add: same_caches_def\<close>)
  with run show ?thesis by (simp add: ends_def)
qed

section \<open>The end of unreachable code\<close>

text \<open>Whenever the code after the block counts as reachable, something branches to it.\<close>

lemma reached_preds:
  assumes "frame_ok G V E b n tf f" and "exit_is_branched_to tf \<or> reachable_anyway tf" and "vf_kind f \<noteq> VIf True False"
  shows "cv_preds G b (fr_destination tf) \<noteq> {}"
proof (cases "exit_is_branched_to tf")
  case True
  with assms(1) show ?thesis by (auto simp: frame_ok_def)
next
  case False
  with assms(2) have any: "reachable_anyway tf" by blast
  from assms(1) have sh: "frame_shape G V E b n tf f" by (simp add: frame_ok_def)
  show ?thesis
  proof (cases "vf_kind f")
    case (VIf pending same)
    from sh [unfolded frame_shape_If [OF VIf]] obtain ed ex bt ce where
      t: "tf = Frame_If (fr_destination tf) ed (length (vf_params f)) (length (vf_results f)) (n + length (vf_params f)) ex bt True ce"
        "pending = (ce = None)" "pending \<longrightarrow> else_ready G V E b f same (fr_destination tf) bt ed"
        "ce = Some True \<longrightarrow> cv_preds G b (fr_destination tf) \<noteq> {}" by (elim exE conjE) (rule that)
    show ?thesis
    proof (cases ce)
      case None
      with t(2,3) VIf assms(3) have "else_ready G V E b f True (fr_destination tf) bt ed" by auto
      then show ?thesis by (cases ed) auto
    next
      case (Some c)
      have "reachable_anyway tf = c" by (subst t(1)) (simp add: Some)
      with any Some t(4) show ?thesis by simp
    qed
  qed (use sh any in \<open>cases tf; simp add: frame_shape_def Let_def\<close>)+
qed

text \<open>Popping a frame that was pushed in unreachable code.\<close>

lemma skipped_end_good:
  assumes dead: "\<not> reachable s" and cs: "control_stack s = L @ D @ [tf]" and ok: "frames_ok G V E b L (us @ [f])"
    and can: "list_all canonical (stack_types us @ frame_dup f)" and st: "fs_stack s = xs @ zs"
    and xs: "typed_list C G b xs (stack_types us @ frame_dup f)" and df: "list_all2 (dead_frame (length xs)) (D @ [tf]) (DV @ [d])"
    and com: "common_inv C G E T (s, env, b) ((us @ [f]) @ DV @ [d])"
  shows "\<exists>s'. translate_unreachable_end C (s, env, b) = Ok ((), s', env, b) \<and> \<not> reachable s' \<and>
    typing_inv C G V E T (s', env, b) ((us @ [f]) @ DV)"
proof -
  from df have tf: "dead_frame (length xs) tf d" and D: "list_all2 (dead_frame (length xs)) D DV" by (simp_all add: list_all2_snoc)
  from tf obtain sz where t: "truncate_value_stack_to_original_size tf (fs_stack s) = Ok (take sz (fs_stack s))" "length xs \<le> sz"
    "\<not> exit_is_branched_to tf" "\<not> reachable_anyway tf" "header_sealed C tf b = b"
    by (cases tf) (auto simp: truncate_value_stack_to_original_size_def elim!: reachable_anyway.elims)
  let ?s = "s\<lparr>control_stack := L @ D, fs_stack := take sz (fs_stack s)\<rparr>"
  have hd: "vf_results (hd (us @ [f])) = vf_results (hd ((us @ [f]) @ DV @ [d]))" by (cases us) simp_all
  have st': "fs_stack ?s = xs @ take (sz - length xs) zs" using st t(2) by simp
  have "typing_inv C G V E T (?s, env, b) ((us @ [f]) @ DV)"
    by (rule dead_more [OF com keeps_refl _ hd _ ok st' xs can D]) (use dead in \<open>simp_all add: same_caches_def\<close>)
  moreover have "translate_unreachable_end C (s, env, b) = Ok ((), ?s, env, b)"
    using cs t(1,3,4,5) seal_header_run [of C tf]
    by (simp add: translate_unreachable_end_def tr_defs pop_frame_def truncate_to_frame_def butlast_append)
  ultimately show ?thesis using dead by auto
qed

text \<open>The end of the innermost frame that was entered in reachable code: the code after it may be reachable.\<close>

lemma dead_to_end:
  assumes C: "builder_contract C G" and dead: "\<not> reachable s" and cs: "control_stack s = cs @ [tf]" and ok: "frames_ok G V E b (cs @ [tf]) (us @ [f])"
    and can: "list_all canonical (stack_types us)" and st: "fs_stack s = xs @ zs" and xs: "typed_list C G b xs (stack_types us)"
    and com: "common_inv C G E T (s, env, b) (us @ [f])" and chk: "check_end (us @ [f]) = Some vs'"
  shows "ends C G V E T vs' (translate_unreachable_end C (s, env, b))"
proof -
  have fo: "frame_ok G V E b (length (stack_types us)) tf f" using ok by (simp add: frames_ok_snoc)
  note F = frame_end [OF fo]
  let ?k = "fr_destination tf" and ?h = "header_sealed C tf b"
  note H = header_sealed_facts [OF C, where b = b and tf = tf]
  have len: "length xs = length (stack_types us)" using list_all2_lengthD [OF xs] .
  show ?thesis
  proof (cases "exit_is_branched_to tf \<or> reachable_anyway tf")
    case True
    let ?b' = "seal_block C ?k (switch_to_block C ?k ?h)"
    let ?s' = "s\<lparr>control_stack := cs, fs_stack := xs @ block_params C ?b' ?k, reachable := True\<rparr>"
    have "vf_kind f \<noteq> VIf True False" using chk by (auto simp: check_end_def split: if_splits)
    then have arr: "arrived C G ?k b ?b'" by (intro header_then_arrive [OF C F(3,5) reached_preds [OF fo True] F(6)])
    have "body_inv C G V E T (?s', env, ?b') vs'"
      by (rule leave_frame [OF C com ok arr xs can chk]) (simp_all add: same_caches_def)
    moreover have "translate_unreachable_end C (s, env, b) = Ok ((), ?s', env, ?b')"
      using cs True F(2) [of "xs @ zs"] st len seal_header_run [of C tf]
      by (simp add: translate_unreachable_end_def tr_defs pop_frame_def truncate_to_frame_def following_code_def)
    ultimately show ?thesis by (simp add: ends_def)
  next
    case False
    let ?s' = "s\<lparr>control_stack := cs, fs_stack := xs\<rparr>"
    have run: "translate_unreachable_end C (s, env, b) = Ok ((), ?s', env, ?h)"
      using cs False F(2) [of "xs @ zs"] st len seal_header_run [of C tf]
      by (simp add: translate_unreachable_end_def tr_defs pop_frame_def truncate_to_frame_def)
    from chk have "body_inv C G V E T (?s', env, ?h) vs'"
    proof (cases rule: check_end_split)
      case 1
      with com dead frames_ok_nth(2) [OF ok] show ?thesis by (simp add: body_inv_def ended_def common_inv_def)
    next
      case (2 ws g)
      from frames_ops [OF ok] 2(1) obtain os where os: "vf_ops g = Some os" by auto
      obtain r where r: "os = r @ []" "vs' = ws @ [g\<lparr>vf_ops := Some (r @ vf_results f)\<rparr>]" by (rule apply_type_split [OF 2(2) os])
      have types: "stack_types us = (stack_types ws @ frame_dup g) @ os" by (simp add: 2(1) segment_Some [OF os])
      from list_all2_split [OF xs [unfolded types]] obtain ys os' where ys: "xs = ys @ os'" "typed_list C G b ys (stack_types ws @ frame_dup g)"
        by blast
      have "frames_ok G V E ?h cs (ws @ [g])"
        using frames_ok_keeps [OF frames_ok_butlast [OF ok] H(1)] H(2,3) 2(1) by simp
      moreover have "vf_results (hd (ws @ [g])) = vf_results (hd (us @ [f]))" by (cases ws) (simp_all add: 2(1))
      ultimately have "typing_inv C G V E T (?s', env, ?h) vs'"
        unfolding r(2) by (intro dead_intro [OF com H(1), where xs = ys and zs = os'])
          (use ys(1) keeps_butD(2) [OF H(1) ys(2)] can types dead in \<open>simp_all add: same_caches_def\<close>)
      with r(2) show ?thesis by (simp add: body_inv_def)
    qed
    with run show ?thesis by (simp add: ends_def)
  qed
qed

lemma unreachable_end_good:
  assumes C: "builder_contract C G" and inv: "typing_inv C G V E T (s, env, b) vs" and dead: "\<not> reachable s"
    and chk: "check_end vs = Some vs'"
  shows "ends C G V E T vs' (translate_unreachable_end C (s, env, b))"
proof (rule dead_parts [OF inv dead])
  fix L D us f DV xs zs
  assume cs: "control_stack s = L @ D" and vs: "vs = (us @ [f]) @ DV" and ok: "frames_ok G V E b L (us @ [f])"
    and can: "list_all canonical (stack_types us @ frame_dup f)" and st: "fs_stack s = xs @ zs"
    and xs: "typed_list C G b xs (stack_types us @ frame_dup f)" and df: "list_all2 (dead_frame (length xs)) D DV"
    and com: "common_inv C G E T (s, env, b) ((us @ [f]) @ DV)"
  show ?thesis
  proof (cases DV rule: rev_cases)
    case (snoc DV' d)
    with df obtain D' tf where D: "D = D' @ [tf]" by (cases D rule: rev_cases) auto
    from skipped_end_good [OF dead _ ok can st xs df [unfolded D snoc] com [unfolded snoc]] cs D obtain s' where
      s': "translate_unreachable_end C (s, env, b) = Ok ((), s', env, b)" "\<not> reachable s'"
        "typing_inv C G V E T (s', env, b) ((us @ [f]) @ DV')" by auto
    have "on_top (apply_type [] (vf_results d)) ((us @ [f]) @ DV') = Some vs'"
      using chk vs snoc by (auto simp: check_end_def butlast_append split: if_splits)
    then have "\<exists>ws h x. (us @ [f]) @ DV' = ws @ [h] \<and> vs' = ws @ [h\<lparr>vf_ops := x\<rparr>]"
      unfolding on_top_Some using only_ops(1) by blast
    with dead_ops [OF _ s'(2)] s'(3) have "typing_inv C G V E T (s', env, b) vs' \<and> vs' \<noteq> []" by (metis snoc_eq_iff_butlast)
    with s'(1) show ?thesis by (simp add: ends_def body_inv_def)
  next
    case Nil
    with df have D: "D = []" by simp
    obtain cs' tf where L: "L = cs' @ [tf]" using frames_ok_nth(2) [OF ok] by (cases L rule: rev_cases) auto
    from list_all2_split [OF xs] obtain ys ds where ys: "xs = ys @ ds" "typed_list C G b ys (stack_types us)" by blast
    show ?thesis
      by (rule dead_to_end [OF C dead _ ok [unfolded L], where xs = ys and zs = "ds @ zs"])
        (use cs L D can st ys com chk vs Nil in simp_all)
  qed
qed

end
