(* ===== verification/Body_Typing.thy ===== *)
theory Body_Typing
  imports End_Typing
begin

text \<open>
  The translation of operators and of bodies is sound for the checker: what the checker accepts is
  translated without hitting an assertion, and the stacks stay in step with the types.
\<close>

section \<open>Operators\<close>

text \<open>Operators that need nothing of the module and that the translator implements.\<close>

definition self_contained :: "Operator \<Rightarrow> bool" where
  "self_contained oper = (case oper of
       O_GlobalGet x \<Rightarrow> False | O_GlobalSet x \<Rightarrow> False | O_Load l m \<Rightarrow> False | O_Store st m \<Rightarrow> False
     | O_Call f \<Rightarrow> False | O_CallIndirect ty tbl \<Rightarrow> False | O_ReturnCall f \<Rightarrow> False | O_ReturnCallIndirect ty tbl \<Rightarrow> False
     | O_CallRef ty \<Rightarrow> False | O_ReturnCallRef ty \<Rightarrow> False | O_RefNull h \<Rightarrow> False | O_Bulk bulk \<Rightarrow> False
     | O_Unsupported proposal \<Rightarrow> False | _ \<Rightarrow> True)"

definition sound ::
  "'b clif_ops \<Rightarrow> 'b clif_view \<Rightarrow> FuncValidator \<Rightarrow> TranslationEnvironment \<Rightarrow> type_ctx \<Rightarrow> bool \<Rightarrow> vframe list \<Rightarrow> (unit \<times> 'b tr_st) result \<Rightarrow> bool" where
  "sound C G V E T must vs r \<longleftrightarrow> (\<forall>u st. r = Ok (u, st) \<longrightarrow> body_inv C G V E T st vs) \<and> (must \<longrightarrow> (\<exists>st. r = Ok ((), st)))"

lemma typing_inv_nonempty: "typing_inv C G V E T st vs \<Longrightarrow> vs \<noteq> []"
  by (cases st) (auto simp: typing_inv_def common_inv_def)

lemma good_sound: "good C G V E T vs r \<Longrightarrow> sound C G V E T must vs r"
  using typing_inv_nonempty by (fastforce simp: good_def sound_def body_inv_def)

lemma fair_sound: "fair C G V E T vs r \<Longrightarrow> sound C G V E T False vs r"
  using typing_inv_nonempty by (fastforce simp: fair_def sound_def body_inv_def)

lemma ends_sound: "ends C G V E T vs r \<Longrightarrow> sound C G V E T must vs r"
  by (auto simp: ends_def sound_def)

lemma unimplemented_sound:
  "sound C G V E T False vs (translate_bulk C bulk st)" "sound C G V E T False vs (translate_op_return_call C f st)"
  "sound C G V E T False vs (translate_op_return_call_indirect C ty tbl st)" "sound C G V E T False vs (translate_op_call_ref W C ty st)"
  "sound C G V E T False vs (translate_op_return_call_ref C ty st)" "sound C G V E T False vs (Err e)"
  by (simp_all add: sound_def unimplemented)

lemma unreachable_operator_sound:
  assumes C: "builder_contract C G" and inv: "typing_inv C G V E T (s, env, b) vs" and dead: "\<not> reachable s"
    and chk: "check_operator V E T oper vs = Some vs'"
  shows "sound C G V E T must vs' (translate_unreachable_operator V C oper (s, env, b))"
proof (cases "opens oper")
  case False
  from check_changes_ops [OF False, of vs V E T] chk obtain us f x where "vs = us @ [f]" "vs' = us @ [f\<lparr>vf_ops := x\<rparr>]"
    unfolding changes_ops_def by blast
  with dead_ops [OF _ dead] inv have "good C G V E T vs' (Ok ((), s, env, b))" by (simp add: good_def)
  moreover have "translate_unreachable_operator V C oper (s, env, b) = Ok ((), s, env, b)"
    using False by (cases oper) (simp_all add: translate_unreachable_operator_def opens_def tr_ok_def)
  ultimately show ?thesis by (simp add: good_sound)
next
  case True
  have block: "sound C G V E T must vs' (translate_unreachable_operator V C op (s, env, b))"
    if "op \<in> {O_Block bt, O_Loop bt, O_If bt}" "op = oper" for op bt
    by (rule good_sound [OF unreachable_block_good [OF inv dead _ that(1)]]) (use chk that(2) in simp)
  from True show ?thesis
  proof (cases oper)
    case O_Else
    with unreachable_else_good [OF C inv dead, of vs'] chk show ?thesis
      by (simp add: good_sound translate_unreachable_operator_def check_operator_def)
  next
    case O_End
    with unreachable_end_good [OF C inv dead, of vs'] chk show ?thesis
      by (simp add: ends_sound translate_unreachable_operator_def check_operator_def)
  qed (use block in \<open>auto simp: opens_def\<close>)
qed

lemma fixed_operator:
  assumes "check_operator V E T oper vs = Some vs'" and "fixed_type T oper \<noteq> None"
  obtains ts us where "fixed_type T oper = Some (ts, us)" "on_top (apply_type ts us) vs = Some vs'"
proof -
  have "check_operator V E T oper vs = Option.bind (fixed_type T oper) (\<lambda>(ts, us). on_top (apply_type ts us) vs)"
    using assms(2) by (cases oper) (simp_all add: check_operator_def fixed_type_def)
  with assms that show thesis by auto
qed

text \<open>The operators with a type of their own.\<close>

lemma fixed_operator_sound:
  assumes C: "builder_contract C G" and inv: "typing_inv C G V E T (s, env, b) vs" and reach: "reachable s"
    and fx: "fixed_type T oper = Some (ts, us)" and chk: "on_top (apply_type ts us) vs = Some vs'"
  shows "sound C G V E T (self_contained oper) vs' (translate_reachable_operator V C oper (s, env, b))"
proof -
  note d = fixed_type_def translate_reachable_operator_def self_contained_def
  show ?thesis
  proof (cases oper)
    case O_Nop
    with nothing_good [OF inv reach] fx chk show ?thesis by (auto simp: d tr_ok_def intro!: good_sound)
  next
    case O_AtomicFence
    with nothing_good [OF inv reach, of vs' "snd (ins_inst C Fence b)"] contract_emit [OF C, of Fence b] fx chk
    show ?thesis by (auto simp: d tr_emit_def tr_defs branches_def intro!: good_sound)
  next
    case (O_LocalGet x)
    with local_get_good [OF C inv reach] fx chk show ?thesis by (auto simp: d intro!: good_sound)
  next
    case (O_LocalSet x)
    with local_set_good [OF C inv reach] fx chk show ?thesis by (auto simp: d intro!: good_sound)
  next
    case (O_LocalTee x)
    with local_tee_good [OF C inv reach] fx chk show ?thesis by (auto simp: d intro!: good_sound)
  next
    case (O_Num n)
    with num_good [OF C inv reach, of n vs'] fx chk show ?thesis by (simp add: d good_sound)
  next
    case (O_GlobalGet x)
    with global_get_fair [OF C inv reach] fx chk show ?thesis by (auto simp: d intro!: fair_sound)
  next
    case (O_GlobalSet x)
    with global_set_fair [OF C inv reach] fx chk show ?thesis by (auto simp: d intro!: fair_sound)
  next
    case (O_Load l m)
    with load_fair [OF C inv reach] fx chk show ?thesis by (auto simp: d intro!: fair_sound)
  next
    case (O_Store l m)
    with store_fair [OF C inv reach] fx chk show ?thesis by (auto simp: d intro!: fair_sound)
  next
    case (O_Call x)
    with call_fair [OF C inv reach] fx chk show ?thesis by (auto simp: d intro!: fair_sound)
  next
    case (O_CallIndirect x tbl)
    with call_indirect_fair [OF C inv reach] fx chk show ?thesis by (auto simp: d intro!: fair_sound)
  next
    case (O_RefNull h)
    with ref_null_fair [OF C inv reach] fx chk show ?thesis by (auto simp: d intro!: fair_sound)
  qed (use fx in \<open>simp_all add: fixed_type_def\<close>)
qed

lemma reachable_operator_sound:
  assumes C: "builder_contract C G" and inv: "typing_inv C G V E T (s, env, b) vs" and reach: "reachable s"
    and chk: "check_operator V E T oper vs = Some vs'"
  shows "sound C G V E T (self_contained oper) vs' (translate_reachable_operator V C oper (s, env, b))"
proof (cases "fixed_type T oper")
  case (Some tu)
  then obtain ts us where "fixed_type T oper = Some (ts, us)" "on_top (apply_type ts us) vs = Some vs'"
    using fixed_operator [OF chk] by auto
  then show ?thesis by (rule fixed_operator_sound [OF C inv reach])
next
  case None
  note d = check_operator_def translate_reachable_operator_def self_contained_def bind_eq_Some_conv
  note goods = br_good br_if_good unreachable_good return_good br_on_null_good br_on_non_null_good
    block_good loop_good if_good else_good select_good ref_is_null_good ref_as_non_null_good
  show ?thesis
  proof (cases oper)
    case O_Drop
    with drop_good [OF inv reach] chk show ?thesis by (simp add: d good_sound)
  next
    case O_End
    with end_good [OF C inv reach] chk show ?thesis by (simp add: d ends_sound)
  next
    case (O_BrTable ds x)
    with br_table_good [OF C inv reach] chk show ?thesis by (auto simp: d split: if_splits intro!: good_sound)
  qed (use None chk in \<open>auto simp: d fixed_type_def unimplemented_sound tr_of_def split: if_splits intro!: good_sound
      intro: goods [OF C inv reach]\<close>)
qed

lemma operator_sound:
  assumes "builder_contract C G" and "typing_inv C G V E T st vs" and "check_operator V E T oper vs = Some vs'"
  shows "sound C G V E T (self_contained oper) vs' (translate_operator V C oper st)"
proof -
  obtain s env b where st: "st = (s, env, b)" by (cases st)
  show ?thesis
    using unreachable_operator_sound [OF assms(1), of V E T s env b vs oper vs' "self_contained oper"] assms(2,3)
      reachable_operator_sound [OF assms(1), of V E T s env b vs oper vs'] inv_parts(6) [of C G V E T s env b vs]
    by (cases "reachable s") (simp_all add: translate_operator_def st)
qed

end
