(* ===== verification/Function_Typing.thy ===== *)
theory Function_Typing
  imports Body_Typing
begin

text \<open>
  The translation of function bodies: a body that the checker accepts is translated to its end, and the
  translator is then ready for the next body.
\<close>

section \<open>The validator's types\<close>

text \<open>The invariant depends on the validator only by the types of the module, which do not change.\<close>

lemma same_types:
  assumes "sub_type_at V = sub_type_at W"
  shows "block_types V E bt = block_types W E bt" "check_operator V E T oper vs = check_operator W E T oper vs"
    "typing_inv C G V E T = typing_inv C G W E T" "body_inv C G V E T = body_inv C G W E T"
proof -
  have "blocktype_params_results V bt = blocktype_params_results W bt" for bt using assms by (cases bt) simp_all
  then show bt: "block_types V E bt = block_types W E bt" for bt by (simp add: block_types_def)
  have "else_ready G V E b f same dst bty ed = else_ready G W E b f same dst bty ed" for b f same dst bty ed
    by (cases ed) (simp_all add: bt)
  then have "frame_shape G V E b n tf f = frame_shape G W E b n tf f" for b n tf f
    by (simp add: frame_shape_def Let_def split: vkind.split)
  then have "frames_ok G V E b tfs us = frames_ok G W E b tfs us" for b tfs us by (simp add: frames_ok_def frame_ok_def)
  then show "typing_inv C G V E T = typing_inv C G W E T"
    by (intro ext) (auto simp: typing_inv_def live_inv_def dead_inv_def)
  then show "body_inv C G V E T = body_inv C G W E T" by (intro ext) (simp add: body_inv_def)
  show "check_operator V E T oper vs = check_operator W E T oper vs"
    by (cases oper) (simp_all add: check_operator_def bt)
qed

lemma typing_inv_straight:
  assumes "typing_inv C G V E T (s, env, b) vs" and "straight C G b b'"
  shows "typing_inv C G V E T (s, env, b') vs"
proof -
  note k = straightD(1) [OF assms(2)] and frames = frames_ok_straight [OF _ assms(2)]
  from assms(1) have c: "common_inv C G E T (s, env, b) vs" by (simp add: typing_inv_def)
  have com: "common_inv C G E T (s, env, b') vs"
    by (rule common_step [OF c k]) (use typing_inv_nonempty [OF assms(1)] in \<open>simp_all add: same_caches_def\<close>)
  have "live_inv C G V E s b' vs" if "live_inv C G V E s b vs"
    using that frames keeps_butD(2) [OF k] straightD(5) [OF assms(2)] by (auto simp: live_inv_def)
  moreover have "dead_inv C G V E s b' vs" if "dead_inv C G V E s b vs"
  proof -
    from that obtain L D LV DV where d: "control_stack s = L @ D" "vs = LV @ DV" "LV \<noteq> []" "frames_ok G V E b L LV"
      "list_all canonical (base_types LV)" "length (base_types LV) \<le> length (fs_stack s)"
      "typed_list C G b (take (length (base_types LV)) (fs_stack s)) (base_types LV)"
      "list_all2 (dead_frame (length (base_types LV))) D DV" by (auto simp: dead_inv_def)
    with frames [OF d(4)] keeps_butD(2) [OF k d(7)] show ?thesis unfolding dead_inv_def by blast
  qed
  ultimately show ?thesis using assms(1) com by (simp add: typing_inv_def split: if_splits)
qed

section \<open>Sequences of operators\<close>

fun check_operators :: "FuncValidator \<Rightarrow> TranslationEnvironment \<Rightarrow> type_ctx \<Rightarrow> Operator list \<Rightarrow> vframe list \<Rightarrow> vframe list option" where
  "check_operators V E T [] vs = Some vs"
| "check_operators V E T (oper # opers) vs = Option.bind (check_operator V E T oper vs) (check_operators V E T opers)"

text \<open>A body whose operators were read without error, at positions that a source location can hold.\<close>

definition reads :: "(nat \<times> Operator) list \<Rightarrow> (nat \<times> Operator result) list" where
  "reads opl = map (\<lambda>(pos, oper). (pos, Ok oper)) opl"

definition accepts :: "'v validator_ops \<Rightarrow> (nat \<times> Operator) list \<Rightarrow> bool" where
  "accepts W opl \<longleftrightarrow> (\<forall>(pos, oper) \<in> set opl. \<forall>v. \<exists>v'. val_op W pos oper v = Ok v')"

lemma check_operator_Nil: "check_operator V E T oper [] = None"
  by (cases oper) (auto simp: check_operator_def on_top_def check_branch_def frame_at_def check_else_def check_end_def
      enter_block_def bind_eq_None_conv split: option.split)

lemma tr_srcloc_run: "pos < u32_bound \<Longrightarrow> tr_srcloc C pos (s, env, b) = Ok ((), s, env, set_srcloc C pos b)"
  by (simp add: tr_srcloc_def cur_srcloc_def try_into_def tr_defs)

lemma translate_operators_run:
  assumes C: "builder_contract C G" and W: "\<And>v. sub_type_at (val_view W v) = sub_type_at V"
    and "accepts W opl" "\<forall>(pos, oper) \<in> set opl. pos < u32_bound \<and> self_contained oper"
    and "check_operators V E T (map snd opl) vs = Some vs'" and "body_inv C G V E T st vs"
  shows "\<exists>v' st'. translate_operators C W (reads opl) v st = Ok (v', st') \<and> body_inv C G V E T st' vs'"
  using assms(3-)
proof (induction opl arbitrary: st v vs)
  case Nil
  then show ?case by (simp add: reads_def tr_ok_def)
next
  case (Cons x opl)
  obtain pos oper where x: "x = (pos, oper)" by (cases x)
  obtain s env b where st: "st = (s, env, b)" by (cases st)
  from Cons.prems(3) x obtain vs1 where chk: "check_operator V E T oper vs = Some vs1" "check_operators V E T (map snd opl) vs1 = Some vs'"
    by (auto simp: bind_eq_Some_conv)
  have "vs \<noteq> []" using chk(1) check_operator_Nil by (cases vs) auto
  with Cons.prems(4) have "typing_inv C G V E T (s, env, b) vs" by (simp add: body_inv_def st)
  from typing_inv_straight [OF this contract_straight(4) [OF C]] have inv: "typing_inv C G V E T (s, env, set_srcloc C pos b) vs" .
  have "sound C G (val_view W v) E T (self_contained oper) vs1 (translate_operator (val_view W v) C oper (s, env, set_srcloc C pos b))"
    by (rule operator_sound [OF C]) (use inv chk(1) in \<open>simp_all add: same_types [OF W]\<close>)
  moreover have "self_contained oper" "pos < u32_bound" using Cons.prems(2) x by simp_all
  ultimately obtain st1 where r: "translate_operator (val_view W v) C oper (s, env, set_srcloc C pos b) = Ok ((), st1)"
    "body_inv C G V E T st1 vs1" by (auto simp: sound_def same_types(4) [OF W])
  from Cons.prems(1) x have "\<exists>v1. val_op W pos oper v = Ok v1" by (simp add: accepts_def)
  then obtain v1 where v1: "val_op W pos oper v = Ok v1" by blast
  from Cons.IH [OF _ _ chk(2) r(2), of v1] Cons.prems(1,2) obtain v' st' where
    "translate_operators C W (reads opl) v1 st1 = Ok (v', st')" "body_inv C G V E T st' vs'"
    by (auto simp: accepts_def)
  with r(1) v1 tr_srcloc_run [OF \<open>pos < u32_bound\<close>, of C s env b] show ?case
    by (simp add: reads_def x st tr_then_def tr_of_def)
qed

section \<open>Bodies\<close>

text \<open>
  The translator at the start of a body with results of types \<open>rs\<close>: one frame, for the block that returns,
  an empty stack, and empty caches.
\<close>

definition body_start ::
  "'b clif_ops \<Rightarrow> 'b clif_view \<Rightarrow> TranslationEnvironment \<Rightarrow> type_ctx \<Rightarrow> ir_Type list \<Rightarrow> 'b tr_st \<Rightarrow> bool" where
  "body_start C G E T rs = (\<lambda>(s, env, b). \<exists>exit_block.
     control_stack s = [Frame_Block exit_block 0 (length rs) 0 False] \<and> fs_stack s = [] \<and> reachable s \<and>
     fs_globals s = Map.empty \<and> fs_functions s = Map.empty \<and> fs_signatures s = Map.empty \<and>
     env_of E env \<and> ctx_ok C G E T b \<and> sig_returns (func_signature C b) = rs \<and> list_all canonical rs \<and>
     cv_block G b exit_block \<and> cv_params G b exit_block = rs \<and> cv_untouched G b exit_block \<and>
     \<not> cv_entered G b exit_block \<and> \<not> is_unreachable C b)"

definition body_frame :: "ir_Type list \<Rightarrow> vframe" where
  "body_frame rs = \<lparr>vf_kind = VBlock, vf_params = [], vf_results = rs, vf_ops = Some []\<rparr>"

lemma body_start_inv:
  assumes "body_start C G E T rs st"
  shows "body_inv C G V E T st [body_frame rs]"
  using assms
  by (cases st) (auto simp: body_start_def body_inv_def typing_inv_def common_inv_def live_inv_def frames_ok_def frame_ok_def
      frame_shape_def caches_ok_def body_frame_def segment_def)

lemma return_results_run:
  assumes "ended C G E (s, env, b)"
  shows "\<exists>b'. return_results C (s, env, b) = Ok ((), s, env, b')"
proof (cases "reachable s \<and> \<not> is_unreachable C b")
  case True
  with assms have ty: "typed_list C G b (fs_stack s) (sig_returns (func_signature C b))" by (simp add: ended_def)
  have sel: "map snd (filter (\<lambda>(i, _). True) (List.enumerate 0 (sig_returns (func_signature C b)))) = sig_returns (func_signature C b)"
    by (simp add: case_prod_unfold)
  have "fs_stack s = [] @ fs_stack s" by simp
  from bitcast_values_same [where ptys = "\<lambda>b. sig_returns (func_signature C b)" and P = "\<lambda>_. True", OF ty sel this, of env]
  have "bitcast_wasm_returns C (fs_stack s) (s, env, b) = Ok (fs_stack s, s, env, b)" by (simp add: bitcast_wasm_returns_def)
  with True show ?thesis by (simp add: return_results_def tr_defs case_prod_unfold)
next
  case False
  then show ?thesis by (auto simp: return_results_def)
qed

end
