(* ===== verification/Vector_Typing.thy ===== *)
theory Vector_Typing
  imports Function_Typing
begin

text \<open>
  The vector operators: whatever vector types their operands have, every instruction that is built for them has
  operands of the types that Cranelift documents, and the result has the type of the operator.
\<close>

section \<open>The typing of vector instructions\<close>

definition int_vector :: "ir_Type \<Rightarrow> bool" where
  "int_vector t \<longleftrightarrow> t \<in> {IR_I8X16, IR_I16X8, IR_I32X4, IR_I64X2}"

definition float_vector :: "ir_Type \<Rightarrow> bool" where
  "float_vector t \<longleftrightarrow> t \<in> {IR_F32X4, IR_F64X2}"

fun lane_count :: "ir_Type \<Rightarrow> nat" where
  "lane_count IR_I8X16 = 16" | "lane_count IR_I16X8 = 8" | "lane_count IR_I32X4 = 4" | "lane_count IR_I64X2 = 2"
| "lane_count IR_F32X4 = 4" | "lane_count IR_F64X2 = 2" | "lane_count _ = 1"

fun widened :: "ir_Type \<Rightarrow> ir_Type option" where
  "widened IR_I8X16 = Some IR_I16X8" | "widened IR_I16X8 = Some IR_I32X4" | "widened IR_I32X4 = Some IR_I64X2" | "widened _ = None"

fun narrowed :: "ir_Type \<Rightarrow> ir_Type option" where
  "narrowed IR_I16X8 = Some IR_I8X16" | "narrowed IR_I32X4 = Some IR_I16X8" | "narrowed IR_I64X2 = Some IR_I32X4" | "narrowed _ = None"

fun truthy :: "ir_Type \<Rightarrow> ir_Type" where
  "truthy IR_F32X4 = IR_I32X4" | "truthy IR_F64X2 = IR_I64X2" | "truthy t = t"

fun convert_vector :: "ir_Cvtop \<Rightarrow> ir_Type \<Rightarrow> ir_Type \<Rightarrow> bool" where
  "convert_vector Fcvt_from_sint t u \<longleftrightarrow> float_vector u \<and> t = truthy u"
| "convert_vector Fcvt_from_uint t u \<longleftrightarrow> float_vector u \<and> t = truthy u"
| "convert_vector Fcvt_to_sint_sat t u \<longleftrightarrow> float_vector t \<and> u = truthy t"
| "convert_vector Fcvt_to_uint_sat t u \<longleftrightarrow> float_vector t \<and> u = truthy t"
| "convert_vector _ t u \<longleftrightarrow> False"

fun unary_vector :: "ir_Vunop \<Rightarrow> ir_Type \<Rightarrow> ir_Type option" where
  "unary_vector Ineg t = (if int_vector t then Some t else None)"
| "unary_vector Iabs t = (if int_vector t then Some t else None)"
| "unary_vector Bnot t = (if is_vector t then Some t else None)"
| "unary_vector Fvpromote_low t = (if t = IR_F32X4 then Some IR_F64X2 else None)"
| "unary_vector Fvdemote t = (if t = IR_F64X2 then Some IR_F32X4 else None)"
| "unary_vector Vany_true t = (if is_vector t then Some IR_I8 else None)"
| "unary_vector Vall_true t = (if is_vector t then Some IR_I8 else None)"
| "unary_vector _ t = widened t"

fun binary_vector :: "ir_Vbinop \<Rightarrow> ir_Type \<Rightarrow> ir_Type option" where
  "binary_vector Swizzle t = (if t = IR_I8X16 then Some t else None)"
| "binary_vector X86_pshufb t = (if t = IR_I8X16 then Some t else None)"
| "binary_vector Snarrow t = narrowed t" | "binary_vector Unarrow t = narrowed t" | "binary_vector Uunarrow t = narrowed t"
| "binary_vector Sqmul_round_sat t = (if t = IR_I16X8 then Some t else None)"
| "binary_vector X86_pmulhrsw t = (if t = IR_I16X8 then Some t else None)"
| "binary_vector X86_pmaddubsw t = (if t = IR_I8X16 then Some IR_I16X8 else None)"
| "binary_vector _ t = (if int_vector t then Some t else None)"

text \<open>The result type of a vector instruction whose operands have fitting types \<open>t\<close>.\<close>

definition vector_result_type :: "(ir_Value \<Rightarrow> ir_Type) \<Rightarrow> inst \<Rightarrow> ir_Type option" where
  "vector_result_type t i = (case i of
       Binary bop x y \<Rightarrow>
         if bop \<in> {Ishl, Ushr, Sshr} then (if int_vector (t x) \<and> is_int_ty (t y) then Some (t x) else None)
         else if t x = t y \<and> (if float_op bop then float_vector (t x) else int_vector (t x)) then Some (t x) else None
     | Unary uop x \<Rightarrow> if (if float_un uop then float_vector (t x) else int_vector (t x)) then Some (t x) else None
     | Convert cop ty x \<Rightarrow> if convert_vector cop (t x) ty then Some ty else None
     | Icmp cc x y \<Rightarrow> if t x = t y \<and> int_vector (t x) then Some (t x) else None
     | Fcmp cc x y \<Rightarrow> if t x = t y \<and> float_vector (t x) then Some (truthy (t x)) else None
     | Vec_unary uop x \<Rightarrow> unary_vector uop (t x)
     | Vec_binary bop x y \<Rightarrow> if t x = t y then binary_vector bop (t x) else None
     | Vec_ternary tern x y z \<Rightarrow>
         if t x = t y \<and> t y = t z \<and> (if tern = Fma then float_vector (t x) else is_vector (t x)) then Some (t x) else None
     | Vec_make mop ty x \<Rightarrow> (case mop of
           Splat \<Rightarrow> if is_vector ty \<and> t x = lane_type ty then Some ty else None
         | Scalar_to_vector \<Rightarrow> if is_vector ty \<and> t x = lane_type ty then Some ty else None
         | Vhigh_bits \<Rightarrow> if is_int_ty ty \<and> is_vector (t x) then Some ty else None
         | X86_cvtt2dq \<Rightarrow> if float_vector (t x) \<and> ty = truthy (t x) then Some ty else None)
     | Insertlane v x lane \<Rightarrow> if is_vector (t v) \<and> t x = lane_type (t v) \<and> lane < lane_count (t v) then Some (t v) else None
     | Extractlane v lane \<Rightarrow> if is_vector (t v) \<and> lane < lane_count (t v) then Some (lane_type (t v)) else None
     | Shuffle x y lanes \<Rightarrow> if t x = IR_I8X16 \<and> t y = IR_I8X16 \<and> length lanes = 16 then Some IR_I8X16 else None
     | _ \<Rightarrow> None)"

definition vector_args :: "inst \<Rightarrow> ir_Value list" where
  "vector_args i = (case i of
       Vec_unary uop x \<Rightarrow> [x] | Vec_binary bop x y \<Rightarrow> [x, y] | Vec_ternary tern x y z \<Rightarrow> [x, y, z] | Vec_make mop ty x \<Rightarrow> [x]
     | Insertlane v x lane \<Rightarrow> [v, x] | Extractlane v lane \<Rightarrow> [v] | Shuffle x y lanes \<Rightarrow> [x, y] | _ \<Rightarrow> value_args i)"

definition vector_contract :: "'b clif_ops \<Rightarrow> 'b clif_view \<Rightarrow> bool" where
  "vector_contract C G \<longleftrightarrow> (\<forall>b i v b' t. ins C i b = (v, b') \<and> (\<forall>x \<in> set (vector_args i). cv_value G b x) \<and>
     vector_result_type (value_type_of C b) i = Some t \<longrightarrow> typed C G b' v t)"

section \<open>The types of vector operators\<close>

text \<open>On the stack a vector may have any vector type; \<open>IR_I8X16\<close> stands for all of them.\<close>

definition holds :: "'b clif_ops \<Rightarrow> 'b clif_view \<Rightarrow> 'b \<Rightarrow> ir_Value \<Rightarrow> ir_Type \<Rightarrow> bool" where
  "holds C G b v t \<longleftrightarrow> cv_value G b v \<and> (if t = IR_I8X16 then is_vector (value_type_of C b v) else value_type_of C b v = t)"

definition int_shape :: "Shape \<Rightarrow> bool" where
  "int_shape sh \<longleftrightarrow> sh \<in> {S_I8x16, S_I16x8, S_I32x4, S_I64x2}"

fun scalar_of :: "Shape \<Rightarrow> ir_Type" where
  "scalar_of S_I8x16 = IR_I32" | "scalar_of S_I16x8 = IR_I32" | "scalar_of S_I32x4 = IR_I32" | "scalar_of S_I64x2 = IR_I64"
| "scalar_of S_F32x4 = IR_F32" | "scalar_of S_F64x2 = IR_F64"

text \<open>Operands and result of the operators that do not access memory.\<close>

definition vector_type :: "VectorOp \<Rightarrow> (ir_Type list \<times> ir_Type) option" where
  "vector_type oper = (let v = IR_I8X16; when = (\<lambda>p x. if p then Some x else None) in case oper of
       V_Const bytes \<Rightarrow> Some ([], v)
     | V_Splat sh \<Rightarrow> Some ([scalar_of sh], v)
     | V_ExtractLaneExtend sh sx lane \<Rightarrow> when (sh \<in> {S_I8x16, S_I16x8} \<and> lane < lane_count (shape_ty sh)) ([v], IR_I32)
     | V_ExtractLane sh lane \<Rightarrow> when (sh \<notin> {S_I8x16, S_I16x8} \<and> lane < lane_count (shape_ty sh)) ([v], scalar_of sh)
     | V_ReplaceLane sh lane \<Rightarrow> when (lane < lane_count (shape_ty sh)) ([v, scalar_of sh], v)
     | V_Shuffle lanes \<Rightarrow> when (length lanes = 16) ([v, v], v)
     | V_Swizzle \<Rightarrow> Some ([v, v], v)
     | V_IBinop sh bop \<Rightarrow> when (int_shape sh) ([v, v], v)
     | V_INeg sh \<Rightarrow> when (int_shape sh) ([v], v)
     | V_IAbs sh \<Rightarrow> when (int_shape sh) ([v], v)
     | V_Popcnt \<Rightarrow> Some ([v], v)
     | V_Bitop bop \<Rightarrow> Some ([v, v], v)
     | V_Not \<Rightarrow> Some ([v], v)
     | V_Shift sh sop \<Rightarrow> when (int_shape sh) ([v, IR_I32], v)
     | V_Bitselect \<Rightarrow> Some ([v, v, v], v)
     | V_AnyTrue \<Rightarrow> Some ([v], IR_I32)
     | V_AllTrue sh \<Rightarrow> when (int_shape sh) ([v], IR_I32)
     | V_Bitmask sh \<Rightarrow> when (int_shape sh) ([v], IR_I32)
     | V_ICmp sh rop \<Rightarrow> when (int_shape sh) ([v, v], v)
     | V_FCmp sh rop \<Rightarrow> when (\<not> int_shape sh) ([v, v], v)
     | V_FBinop sh bop \<Rightarrow> when (\<not> int_shape sh) ([v, v], v)
     | V_PMax sh \<Rightarrow> when (\<not> int_shape sh) ([v, v], v)
     | V_PMin sh \<Rightarrow> when (\<not> int_shape sh) ([v, v], v)
     | V_FUnop sh uop \<Rightarrow> when (\<not> int_shape sh) ([v], v)
     | V_F32x4ConvertI32x4 sx \<Rightarrow> Some ([v], v)
     | V_F64x2ConvertLowI32x4 sx \<Rightarrow> Some ([v], v)
     | V_F64x2PromoteLowF32x4 \<Rightarrow> Some ([v], v)
     | V_F32x4DemoteF64x2Zero \<Rightarrow> Some ([v], v)
     | V_I32x4TruncSatF32x4 sx \<Rightarrow> Some ([v], v)
     | V_I32x4TruncSatF64x2Zero sx \<Rightarrow> Some ([v], v)
     | V_Narrow sh sx \<Rightarrow> when (sh \<in> {S_I16x8, S_I32x4}) ([v, v], v)
     | V_Extend half sh sx \<Rightarrow> when (sh \<in> {S_I8x16, S_I16x8, S_I32x4}) ([v], v)
     | V_ExtAddPairwise sh sx \<Rightarrow> when (sh \<in> {S_I8x16, S_I16x8}) ([v], v)
     | V_I32x4DotI16x8S \<Rightarrow> Some ([v, v], v)
     | V_I16x8Q15MulrSatS \<Rightarrow> Some ([v, v], v)
     | V_ExtMul half sh sx \<Rightarrow> when (sh \<in> {S_I8x16, S_I16x8, S_I32x4}) ([v, v], v)
     | V_RelaxedMax sh \<Rightarrow> when (\<not> int_shape sh) ([v, v], v)
     | V_RelaxedMin sh \<Rightarrow> when (\<not> int_shape sh) ([v, v], v)
     | V_RelaxedSwizzle \<Rightarrow> Some ([v, v], v)
     | V_RelaxedMadd sh \<Rightarrow> when (\<not> int_shape sh) ([v, v, v], v)
     | V_RelaxedNmadd sh \<Rightarrow> when (\<not> int_shape sh) ([v, v, v], v)
     | V_RelaxedLaneselect sh \<Rightarrow> when (int_shape sh) ([v, v, v], v)
     | V_I32x4RelaxedTruncF32x4 sx \<Rightarrow> Some ([v], v)
     | V_I32x4RelaxedTruncF64x2Zero sx \<Rightarrow> Some ([v], v)
     | V_I16x8RelaxedQ15mulrS \<Rightarrow> Some ([v, v], v)
     | V_I16x8RelaxedDotI8x16I7x16S \<Rightarrow> Some ([v, v], v)
     | V_I32x4RelaxedDotI8x16I7x16AddS \<Rightarrow> Some ([v, v, v], v)
     | _ \<Rightarrow> None)"

section \<open>Instructions of known type\<close>

text \<open>A step that leaves the state alone and builds a value of type \<open>t\<close>.\<close>

definition yields :: "'b clif_ops \<Rightarrow> 'b clif_view \<Rightarrow> 'b \<Rightarrow> ir_Type \<Rightarrow> (ir_Value, 'b) tr \<Rightarrow> bool" where
  "yields C G b t m \<longleftrightarrow> (\<forall>s env. \<exists>v b'. m (s, env, b) = Ok (v, s, env, b') \<and> straight C G b b' \<and> typed C G b' v t)"

lemma yieldsD: "yields C G b t m \<Longrightarrow> \<exists>v b'. m (s, env, b) = Ok (v, s, env, b') \<and> straight C G b b' \<and> typed C G b' v t"
  by (simp add: yields_def)

lemma yields_value: "typed C G b v t \<Longrightarrow> yields C G b t (tr_ok v)"
  by (auto simp: yields_def tr_ok_def)

lemma yields_then:
  assumes "yields C G b t m" and "\<And>v b1. straight C G b b1 \<Longrightarrow> typed C G b1 v t \<Longrightarrow> yields C G b1 u (f v)"
  shows "yields C G b u (tr_then m f)"
  unfolding yields_def
proof (intro allI)
  fix s env
  from yieldsD [OF assms(1), of s env] obtain v b1 where 1: "m (s, env, b) = Ok (v, s, env, b1)" "straight C G b b1" "typed C G b1 v t" by blast
  from yieldsD [OF assms(2) [OF 1(2,3)], of s env] obtain w b' where
    2: "f v (s, env, b1) = Ok (w, s, env, b')" "straight C G b1 b'" "typed C G b' w u" by blast
  show "\<exists>v b'. tr_then m f (s, env, b) = Ok (v, s, env, b') \<and> straight C G b b' \<and> typed C G b' v u"
    using 1(1) 2 straight_trans [OF 1(2) 2(2)] by (simp add: tr_then_def)
qed

lemma yields_relaxed: "yields C G b t m \<Longrightarrow> yields C G b t n \<Longrightarrow> yields C G b t (relaxed p m n)"
  by (auto simp: yields_def relaxed_def tr_defs)

lemma straight_typed: "straight C G b b' \<Longrightarrow> typed C G b v t \<Longrightarrow> typed C G b' v t"
  by (rule keeps_butD(1) [OF straightD(1)])

lemma yields_ins:
  assumes "builder_contract C G" and "vector_contract C G" and "\<forall>x \<in> set (vector_args i). cv_value G b x"
    and "result_type (value_type_of C b) i = Some t \<or> vector_result_type (value_type_of C b) i = Some t"
    and "set (value_args i) \<subseteq> set (vector_args i)"
  shows "yields C G b t (tr_ins C i)"
proof -
  obtain v b' where i: "ins C i b = (v, b')" by fastforce
  have "typed C G b' v t" using assms contract_ins(2) [OF assms(1) i] i unfolding vector_contract_def by blast
  with contract_ins(1) [OF assms(1) i] i show ?thesis by (auto simp: yields_def tr_ins_def tr_build_def)
qed

section \<open>Arms of vector operators\<close>

definition fits :: "ir_Type \<Rightarrow> ir_Type \<Rightarrow> bool" where
  "fits u t \<longleftrightarrow> (if t = IR_I8X16 then is_vector u else u = t)"

lemma typed_holds: "typed C G b v u \<Longrightarrow> fits u t \<Longrightarrow> holds C G b v t"
  by (auto simp: typed_def holds_def fits_def)

lemma straight_holds:
  assumes "straight C G b b'" and "holds C G b v t"
  shows "holds C G b' v t"
proof -
  from assms(2) have "typed C G b v (value_type_of C b v)" by (simp add: holds_def typed_def)
  from straight_typed [OF assms(1) this] assms(2) show ?thesis by (auto simp: holds_def typed_def)
qed

lemma vector_bits: "is_vector t \<Longrightarrow> ty_bits t = 128"
  by (cases t) auto

lemma bitcast_yields:
  assumes C: "builder_contract C G" and V: "vector_contract C G" and v: "holds C G b v IR_I8X16" and ty: "is_vector ty"
  shows "yields C G b ty (optionally_bitcast_vector C v ty)"
proof -
  from v have val: "cv_value G b v" "is_vector (value_type_of C b v)" by (simp_all add: holds_def)
  have cast: "yields C G b ty (tr_ins C (Bitcast ty bitcast_flags v))"
    by (rule yields_ins [OF C V]) (use val ty in \<open>simp_all add: vector_args_def value_args_def result_type_def vector_bits\<close>)
  show ?thesis
  proof (cases "value_type_of C b v = ty")
    case True
    with val show ?thesis by (auto simp: yields_def optionally_bitcast_vector_def tr_defs typed_def)
  next
    case False
    then have "optionally_bitcast_vector C v ty (s, env, b) = tr_ins C (Bitcast ty bitcast_flags v) (s, env, b)" for s env
      by (simp add: optionally_bitcast_vector_def tr_defs)
    with cast show ?thesis by (simp add: yields_def)
  qed
qed

text \<open>A step that replaces the operands above \<open>xs\<close> by one value.\<close>

definition puts ::
  "'b clif_ops \<Rightarrow> 'b clif_view \<Rightarrow> FuncTranslationState \<Rightarrow> TranslationEnvironment \<Rightarrow> 'b \<Rightarrow> ir_Value list \<Rightarrow> ir_Type \<Rightarrow> (unit, 'b) tr \<Rightarrow> bool" where
  "puts C G s env b xs t m \<longleftrightarrow> (\<exists>w b'. m (s, env, b) = Ok ((), s\<lparr>fs_stack := xs @ [w]\<rparr>, env, b') \<and> straight C G b b' \<and> holds C G b' w t)"

lemma yields_puts:
  assumes "fs_stack s = xs" and "yields C G b u m" and "fits u t"
  shows "puts C G s env b xs t (tr_then m tr_push1)"
proof -
  from yieldsD [OF assms(2), of s env] obtain w b' where w: "m (s, env, b) = Ok (w, s, env, b')" "straight C G b b'" "typed C G b' w u" by blast
  then show ?thesis using assms(1) typed_holds [OF w(3) assms(3)] by (auto simp: puts_def tr_defs)
qed

lemma pop1_puts:
  assumes "fs_stack s = xs @ [x]" and "yields C G b u (f x)" and "fits u t"
  shows "puts C G s env b xs t (tr_then tr_pop1 (\<lambda>x. tr_then (f x) tr_push1))"
proof -
  have "puts C G (s\<lparr>fs_stack := xs\<rparr>) env b xs t (tr_then (f x) tr_push1)" by (rule yields_puts [OF _ assms(2,3)]) simp
  then show ?thesis using pop1_append [OF assms(1)] by (auto simp: puts_def tr_then_def tr_pop1_def tr_state_def)
qed

lemma pop2_puts:
  assumes "fs_stack s = xs @ [x, y]" and "yields C G b u (f x y)" and "fits u t"
  shows "puts C G s env b xs t (tr_then tr_pop2 (\<lambda>(x, y). tr_then (f x y) tr_push1))"
proof -
  have "puts C G (s\<lparr>fs_stack := xs\<rparr>) env b xs t (tr_then (f x y) tr_push1)" by (rule yields_puts [OF _ assms(2,3)]) simp
  then show ?thesis using pop2_append [OF assms(1)] by (auto simp: puts_def tr_then_def tr_pop2_def tr_state_def)
qed

lemma pop3_puts:
  assumes "fs_stack s = xs @ [x, y, z]" and "yields C G b u (f x y z)" and "fits u t"
  shows "puts C G s env b xs t (tr_then tr_pop3 (\<lambda>(x, y, z). tr_then (f x y z) tr_push1))"
proof -
  have "puts C G (s\<lparr>fs_stack := xs\<rparr>) env b xs t (tr_then (f x y z) tr_push1)" by (rule yields_puts [OF _ assms(2,3)]) simp
  then show ?thesis using pop3_append [OF assms(1)] by (auto simp: puts_def tr_then_def tr_pop3_def tr_state_def)
qed

lemma tr_then_assoc: "tr_then (tr_then m f) g = tr_then m (\<lambda>x. tr_then (f x) g)"
proof (rule ext)
  fix st show "tr_then (tr_then m f) g st = tr_then m (\<lambda>x. tr_then (f x) g) st"
    by (cases "m st") (simp_all add: tr_then_def case_prod_unfold)
qed

lemma tr_then_ok [simp]: "tr_then (tr_ok v) f = f v"
  by (rule ext) (simp add: tr_then_def tr_ok_def)

lemma vec1_puts:
  assumes C: "builder_contract C G" "vector_contract C G" and "fs_stack s = xs @ [x]" and x: "holds C G b x IR_I8X16" and ty: "is_vector ty"
    and f: "\<And>a b1. typed C G b1 a ty \<Longrightarrow> yields C G b1 u (f a)" and "fits u t"
  shows "puts C G s env b xs t (vec1 C ty f)"
proof -
  have "yields C G b u (tr_then (optionally_bitcast_vector C x ty) f)" by (rule yields_then [OF bitcast_yields [OF C x ty]]) (rule f)
  from pop1_puts [where f = "\<lambda>x. tr_then (optionally_bitcast_vector C x ty) f", OF assms(3) this assms(7)] show ?thesis
    by (simp add: vec1_def pop1_with_bitcast_def tr_then_assoc)
qed

lemma vec2_puts:
  assumes C: "builder_contract C G" "vector_contract C G" and "fs_stack s = xs @ [x, y]" and h: "holds C G b x IR_I8X16" "holds C G b y IR_I8X16"
    and ty: "is_vector ty" and f: "\<And>a c b1. straight C G b b1 \<Longrightarrow> typed C G b1 a ty \<Longrightarrow> typed C G b1 c ty \<Longrightarrow> yields C G b1 u (f a c)" and "fits u t"
  shows "puts C G s env b xs t (vec2 C ty f)"
proof -
  let ?f = "\<lambda>x y. tr_then (optionally_bitcast_vector C x ty) (\<lambda>a. tr_then (optionally_bitcast_vector C y ty) (f a))"
  have "yields C G b u (?f x y)"
    by (rule yields_then [OF bitcast_yields [OF C h(1) ty]], rule yields_then, rule bitcast_yields [OF C _ ty], rule straight_holds [OF _ h(2)])
      (auto intro: f straight_typed straight_trans)
  from pop2_puts [where f = ?f, OF assms(3) this assms(8)] show ?thesis
    by (simp add: vec2_def pop2_with_bitcast_def tr_then_assoc case_prod_unfold)
qed

lemma vec3_puts:
  assumes C: "builder_contract C G" "vector_contract C G" and "fs_stack s = xs @ [x, y, z]"
    and h: "holds C G b x IR_I8X16" "holds C G b y IR_I8X16" "holds C G b z IR_I8X16"
    and ty: "is_vector ty" and f: "\<And>a c d b1. typed C G b1 a ty \<Longrightarrow> typed C G b1 c ty \<Longrightarrow> typed C G b1 d ty \<Longrightarrow> yields C G b1 u (f a c d)" and "fits u t"
  shows "puts C G s env b xs t (vec3 C ty f)"
proof -
  let ?f = "\<lambda>x y z. tr_then (optionally_bitcast_vector C x ty) (\<lambda>a. tr_then (optionally_bitcast_vector C y ty)
    (\<lambda>c. tr_then (optionally_bitcast_vector C z ty) (f a c)))"
  have "yields C G b u (?f x y z)"
    by (rule yields_then [OF bitcast_yields [OF C h(1) ty]], rule yields_then, rule bitcast_yields [OF C _ ty], rule straight_holds [OF _ h(2)], assumption,
        rule yields_then, rule bitcast_yields [OF C _ ty], rule straight_holds, assumption, rule straight_holds [OF _ h(3)], assumption)
      (auto intro: f straight_typed)
  from pop3_puts [where f = ?f, OF assms(3) this assms(9)] show ?thesis
    by (simp add: vec3_def pop3_with_bitcast_def tr_then_assoc case_prod_unfold)
qed

section \<open>Instructions of the operators\<close>

lemma shape_facts [simp]: "is_vector (shape_ty sh)" "int_vector (shape_ty sh) \<longleftrightarrow> int_shape sh" "float_vector (shape_ty sh) \<longleftrightarrow> \<not> int_shape sh"
  by (cases sh; simp add: int_vector_def float_vector_def int_shape_def)+

lemma vector_classes: "int_vector t \<Longrightarrow> is_vector t" "float_vector t \<Longrightarrow> is_vector t" "float_vector t \<Longrightarrow> is_vector (truthy t)"
  by (auto simp: int_vector_def float_vector_def)

lemmas vector_defs = vector_result_type_def vector_args_def value_args_def

lemma vec_binop_typed:
  "t a = u \<Longrightarrow> t c = u \<Longrightarrow> int_vector u \<Longrightarrow> vector_result_type t (vec_binop bop a c) = Some u"
  "vector_args (vec_binop bop a c) = [a, c]" "set (value_args (vec_binop bop a c)) \<subseteq> {a, c}"
  by (cases "(bop, a, c)" rule: vec_binop.cases; simp add: vector_defs float_op_def; fail)+

lemma vec_bitop_typed:
  "t a = IR_I8X16 \<Longrightarrow> t c = IR_I8X16 \<Longrightarrow> vector_result_type t (vec_bitop bop a c) = Some IR_I8X16"
  "vector_args (vec_bitop bop a c) = [a, c]" "set (value_args (vec_bitop bop a c)) \<subseteq> {a, c}"
  by (cases "(bop, a, c)" rule: vec_bitop.cases; simp add: vector_defs float_op_def int_vector_def; fail)+

lemma shift_typed:
  "int_vector (t a) \<Longrightarrow> t c = IR_I32 \<Longrightarrow> vector_result_type t (Binary (vec_shift sop) a c) = Some (t a)"
  by (cases sop rule: vec_shift.cases) (simp_all add: vector_defs)

lemma widen_typed: "widened (t a) = Some u \<Longrightarrow> vector_result_type t (Vec_unary (widen half sx) a) = Some u"
  by (cases "(half, sx)" rule: widen.cases) (simp_all add: vector_defs)

lemma extend_yields:
  assumes C: "builder_contract C G" "vector_contract C G" and "typed C G b v t" and "t \<in> {IR_I8, IR_I16}"
  shows "yields C G b IR_I32 (tr_extend C sx v)"
  unfolding tr_extend_def
  by (rule yields_ins [OF C]) (use assms(3,4) in \<open>cases sx; auto simp: typed_def vector_args_def value_args_def result_type_def\<close>)+

lemma widen_yields:
  assumes C: "builder_contract C G" "vector_contract C G" and "typed C G b v t" and "widened t = Some u"
  shows "yields C G b u (tr_ins C (Vec_unary (widen half sx) v))"
  by (rule yields_ins [OF C]) (use assms(3,4) widen_typed [of "value_type_of C b" v u half sx] in \<open>auto simp: typed_def vector_args_def value_args_def\<close>)

lemma vec_binary_yields:
  assumes C: "builder_contract C G" "vector_contract C G" and "typed C G b v t" "typed C G b w t" and "binary_vector bop t = Some u"
  shows "yields C G b u (tr_ins C (Vec_binary bop v w))"
  by (rule yields_ins [OF C]) (use assms(3-) in \<open>auto simp: typed_def vector_defs\<close>)

lemma vec_ternary_yields:
  assumes C: "builder_contract C G" "vector_contract C G" and "typed C G b v t" "typed C G b w t" "typed C G b z t"
    and "if tern = Fma then float_vector t else is_vector t"
  shows "yields C G b t (tr_ins C (Vec_ternary tern v w z))"
  by (rule yields_ins [OF C]) (use assms(3-) in \<open>auto simp: typed_def vector_defs split: if_splits\<close>)

lemma binary_yields:
  assumes C: "builder_contract C G" "vector_contract C G" and "typed C G b v t" "typed C G b w t"
    and "bop \<notin> {Ishl, Ushr, Sshr}" "if float_op bop then float_vector t else int_vector t"
  shows "yields C G b t (tr_ins C (Binary bop v w))"
  by (rule yields_ins [OF C]) (use assms(3-) in \<open>auto simp: typed_def vector_defs split: if_splits\<close>)

lemma convert_yields:
  assumes C: "builder_contract C G" "vector_contract C G" and "typed C G b v t" and "convert_vector cop t u"
  shows "yields C G b u (tr_ins C (Convert cop u v))"
  by (rule yields_ins [OF C]) (use assms(3-) in \<open>auto simp: typed_def vector_defs\<close>)

lemma vec_unary_yields:
  assumes C: "builder_contract C G" "vector_contract C G" and "typed C G b v t" and "unary_vector uop t = Some u"
  shows "yields C G b u (tr_ins C (Vec_unary uop v))"
  by (rule yields_ins [OF C]) (use assms(3-) in \<open>auto simp: typed_def vector_defs\<close>)

lemma narrow_yields:
  assumes C: "builder_contract C G" "vector_contract C G" and v: "typed C G b v IR_I64X2"
  shows "yields C G b IR_I32X4 (narrow_with_zero C sx v)"
proof -
  have "yields C G b IR_I64X2 (tr_ins C (Vconst IR_I64X2 (replicate 16 0)))"
    by (rule yields_ins [OF C]) (simp_all add: vector_args_def value_args_def result_type_def)
  then show ?thesis
    unfolding narrow_with_zero_def
  proof (rule yields_then)
    fix z b1 assume 1: "straight C G b b1" "typed C G b1 z IR_I64X2"
    show "yields C G b1 IR_I32X4 (tr_ins C (Vec_binary (case sx of Signed \<Rightarrow> Snarrow | Unsigned \<Rightarrow> Uunarrow) v z))"
      by (rule vec_binary_yields [OF C straight_typed [OF 1(1) v] 1(2)]) (cases sx; simp)
  qed
qed

lemma pairwise_yields:
  assumes C: "builder_contract C G" "vector_contract C G" and v: "typed C G b v t" and t: "widened t = Some u" "int_vector u"
  shows "yields C G b u (pairwise_widened C sx v)"
  unfolding pairwise_widened_def
proof (rule yields_then [OF widen_yields [OF C v t(1)]])
  fix w b1 assume 1: "straight C G b b1" "typed C G b1 w u"
  show "yields C G b1 u (tr_then (tr_ins C (Vec_unary (widen High sx) v)) (\<lambda>x. tr_ins C (Vec_binary Iadd_pairwise w x)))"
  proof (rule yields_then [OF widen_yields [OF C straight_typed [OF 1(1) v] t(1)]])
    fix x b2 assume 2: "straight C G b1 b2" "typed C G b2 x u"
    show "yields C G b2 u (tr_ins C (Vec_binary Iadd_pairwise w x))"
      by (rule vec_binary_yields [OF C straight_typed [OF 2(1) 1(2)] 2(2)]) (simp add: t(2))
  qed
qed

lemma product_yields:
  assumes C: "builder_contract C G" "vector_contract C G" and v: "typed C G b v t" "typed C G b w t" and t: "widened t = Some u" "int_vector u"
  shows "yields C G b u (extended_product C half sx v w)"
  unfolding extended_product_def
proof (rule yields_then [OF widen_yields [OF C v(1) t(1)]])
  fix x b1 assume 1: "straight C G b b1" "typed C G b1 x u"
  show "yields C G b1 u (tr_then (tr_ins C (Vec_unary (widen half sx) w)) (\<lambda>y. tr_ins C (Binary Imul x y)))"
  proof (rule yields_then [OF widen_yields [OF C straight_typed [OF 1(1) v(2)] t(1)]])
    fix y b2 assume 2: "straight C G b1 b2" "typed C G b2 y u"
    show "yields C G b2 u (tr_ins C (Binary Imul x y))"
      by (rule binary_yields [OF C straight_typed [OF 2(1) 1(2)] 2(2)]) (simp_all add: t(2) float_op_def)
  qed
qed

lemma dot_yields:
  assumes C: "builder_contract C G" "vector_contract C G" and v: "typed C G b v t" "typed C G b w t" and t: "widened t = Some u" "int_vector u"
  shows "yields C G b u (dot_product C v w)"
  unfolding dot_product_def
proof (rule yields_then [OF product_yields [OF C v t]])
  fix x b1 assume 1: "straight C G b b1" "typed C G b1 x u"
  show "yields C G b1 u (tr_then (extended_product C High Signed v w) (\<lambda>y. tr_ins C (Vec_binary Iadd_pairwise x y)))"
  proof (rule yields_then [OF product_yields [OF C straight_typed [OF 1(1) v(1)] straight_typed [OF 1(1) v(2)] t]])
    fix y b2 assume 2: "straight C G b1 b2" "typed C G b2 y u"
    show "yields C G b2 u (tr_ins C (Vec_binary Iadd_pairwise x y))"
      by (rule vec_binary_yields [OF C straight_typed [OF 2(1) 1(2)] 2(2)]) (simp add: t(2))
  qed
qed

lemma pseudo_select_yields:
  assumes C: "builder_contract C G" "vector_contract C G" and v: "typed C G b x t" "typed C G b y t" "typed C G b v t" "typed C G b w t" and t: "float_vector t"
  shows "yields C G b t (pseudo_select C t (x, y) v w)"
proof -
  have cmp: "yields C G b (truthy t) (tr_ins C (Fcmp FC_LessThan x y))"
    by (rule yields_ins [OF C]) (use v t in \<open>auto simp: typed_def vector_defs\<close>)
  have "yields C G b t (tr_then (tr_ins C (Fcmp FC_LessThan x y)) (\<lambda>cmp. tr_then (optionally_bitcast_vector C cmp t)
      (\<lambda>cmp'. tr_ins C (Vec_ternary Bitselect cmp' w v))))"
  proof (rule yields_then [OF cmp])
    fix z b1 assume 1: "straight C G b b1" "typed C G b1 z (truthy t)"
    have "holds C G b1 z IR_I8X16" by (rule typed_holds [OF 1(2)]) (simp add: fits_def vector_classes(3) [OF t])
    from bitcast_yields [OF C this vector_classes(2) [OF t]] show "yields C G b1 t (tr_then (optionally_bitcast_vector C z t)
        (\<lambda>cmp'. tr_ins C (Vec_ternary Bitselect cmp' w v)))"
    proof (rule yields_then)
      fix z' b2 assume 2: "straight C G b1 b2" "typed C G b2 z' t"
      note s = straight_typed [OF straight_trans [OF 1(1) 2(1)]]
      show "yields C G b2 t (tr_ins C (Vec_ternary Bitselect z' w v))"
        by (rule vec_ternary_yields [OF C 2(2) s [OF v(4)] s [OF v(3)]]) (simp add: vector_classes(2) [OF t])
    qed
  qed
  then show ?thesis by (simp add: pseudo_select_def)
qed

lemma multiply_add_yields:
  assumes C: "builder_contract C G" "vector_contract C G" and v: "typed C G b x t" "typed C G b y t" "typed C G b z t" and t: "float_vector t"
  shows "yields C G b t (multiply_add C x y z)"
proof -
  have "yields C G b t (tr_then (tr_ins C (Binary Fmul x y)) (\<lambda>mul. tr_ins C (Binary Fadd mul z)))"
  proof (rule yields_then [OF binary_yields [OF C v(1,2)]])
    fix m b1 assume 1: "straight C G b b1" "typed C G b1 m t"
    show "yields C G b1 t (tr_ins C (Binary Fadd m z))"
      by (rule binary_yields [OF C 1(2) straight_typed [OF 1(1) v(3)]]) (simp_all add: t float_op_def)
  qed (simp_all add: t float_op_def)
  then show ?thesis unfolding multiply_add_def by (rule yields_relaxed [rotated]) (rule vec_ternary_yields [OF C v], simp add: t)
qed

lemma relaxed_dot_yields:
  assumes C: "builder_contract C G" "vector_contract C G" and v: "typed C G b x IR_I8X16" "typed C G b y IR_I8X16"
  shows "yields C G b IR_I16X8 (relaxed_dot C x y)"
  unfolding relaxed_dot_def
  by (rule yields_relaxed, rule dot_yields [OF C v]) (simp_all add: int_vector_def vec_binary_yields [OF C v])

section \<open>The operators\<close>

lemma one_operand:
  "fs_stack s = xs @ ws \<Longrightarrow> list_all2 P ws [t] \<Longrightarrow> (\<And>x. fs_stack s = xs @ [x] \<Longrightarrow> P x t \<Longrightarrow> Q) \<Longrightarrow> Q"
  by (auto simp: list_all2_Cons2)

lemma two_operands:
  "fs_stack s = xs @ ws \<Longrightarrow> list_all2 P ws [t, u] \<Longrightarrow> (\<And>x y. fs_stack s = xs @ [x, y] \<Longrightarrow> P x t \<Longrightarrow> P y u \<Longrightarrow> Q) \<Longrightarrow> Q"
  by (auto simp: list_all2_Cons2)

lemma three_operands:
  "fs_stack s = xs @ ws \<Longrightarrow> list_all2 P ws [t, u, v] \<Longrightarrow>
   (\<And>x y z. fs_stack s = xs @ [x, y, z] \<Longrightarrow> P x t \<Longrightarrow> P y u \<Longrightarrow> P z v \<Longrightarrow> Q) \<Longrightarrow> Q"
  by (auto simp: list_all2_Cons2)

lemma with_type_ok: "type_of oper = Ok ty \<Longrightarrow> with_type oper f = f ty"
  by (rule ext) (simp add: with_type_def tr_then_def tr_of_def)

locale vector_builder =
  fixes C :: "'b clif_ops" and G :: "'b clif_view"
  assumes contract: "builder_contract C G" and vectors: "vector_contract C G"
begin

definition types_arm :: "VectorOp \<Rightarrow> bool" where
  "types_arm oper \<longleftrightarrow> (\<forall>ts t s env b xs ws. vector_type oper = Some (ts, t) \<longrightarrow> fs_stack s = xs @ ws \<longrightarrow>
     list_all2 (holds C G b) ws ts \<longrightarrow> puts C G s env b xs t (translate_vector C oper))"

lemma types_armI:
  assumes "vector_type oper = Some (ts, t)"
    and "\<And>s env b xs ws. fs_stack s = xs @ ws \<Longrightarrow> list_all2 (holds C G b) ws ts \<Longrightarrow> puts C G s env b xs t (translate_vector C oper)"
  shows "types_arm oper"
  using assms by (simp add: types_arm_def)

lemma types_none: "vector_type oper = None \<Longrightarrow> types_arm oper"
  by (simp add: types_arm_def)

lemma types_vec1:
  assumes "vector_type oper = Some ([IR_I8X16], t)" and "translate_vector C oper = vec1 C ty f" and "is_vector ty" and "fits u t"
    and "\<And>a b1. typed C G b1 a ty \<Longrightarrow> yields C G b1 u (f a)"
  shows "types_arm oper"
  by (rule types_armI [OF assms(1)], erule one_operand, assumption, unfold assms(2), rule vec1_puts [OF contract vectors])
    (use assms(3-) in auto)

lemma types_vec2:
  assumes "vector_type oper = Some ([IR_I8X16, IR_I8X16], t)" and "translate_vector C oper = vec2 C ty f" and "is_vector ty" and "fits u t"
    and "\<And>a c b1. typed C G b1 a ty \<Longrightarrow> typed C G b1 c ty \<Longrightarrow> yields C G b1 u (f a c)"
  shows "types_arm oper"
  by (rule types_armI [OF assms(1)], erule two_operands, assumption, unfold assms(2), rule vec2_puts [OF contract vectors], assumption+)
    (use assms(3-) in auto)

lemma types_vec3:
  assumes "vector_type oper = Some ([IR_I8X16, IR_I8X16, IR_I8X16], t)" and "translate_vector C oper = vec3 C ty f" and "is_vector ty" and "fits u t"
    and "\<And>a c d b1. typed C G b1 a ty \<Longrightarrow> typed C G b1 c ty \<Longrightarrow> typed C G b1 d ty \<Longrightarrow> yields C G b1 u (f a c d)"
  shows "types_arm oper"
  by (rule types_armI [OF assms(1)], erule three_operands, assumption, unfold assms(2), rule vec3_puts [OF contract vectors], assumption+)
    (use assms(3-) in auto)

lemmas arm_simps = vector_type_def translate_vector_def with_type_ok type_of_def

text \<open>Comparisons.\<close>

lemma icmp_arm: "int_shape sh \<Longrightarrow> types_arm (V_ICmp sh rop)"
  by (rule types_vec2 [where ty = "shape_ty sh" and f = "\<lambda>a b. tr_ins C (Icmp (int_relop rop) a b)" and u = "shape_ty sh"])
    (auto simp: arm_simps vec2_def pop2_with_bitcast_def translate_vector_icmp_def tr_then_assoc case_prod_unfold fits_def
      intro!: yields_ins [OF contract vectors] simp: vector_defs typed_def)

lemma fcmp_arm: "\<not> int_shape sh \<Longrightarrow> types_arm (V_FCmp sh rop)"
  by (rule types_vec2 [where ty = "shape_ty sh" and f = "\<lambda>a b. tr_ins C (Fcmp (float_relop rop) a b)" and u = "truthy (shape_ty sh)"])
    (auto simp: arm_simps vec2_def pop2_with_bitcast_def translate_vector_fcmp_def tr_then_assoc case_prod_unfold fits_def
      vector_classes(3) intro!: yields_ins [OF contract vectors] simp: vector_defs typed_def)

text \<open>Integer arithmetic.\<close>

lemma ibinop_arm: "int_shape sh \<Longrightarrow> types_arm (V_IBinop sh bop)"
  by (rule types_vec2 [where u = "shape_ty sh"])
    (auto simp: arm_simps fits_def typed_def vec_binop_typed intro!: yields_ins [OF contract vectors] dest: subsetD [OF vec_binop_typed(3)])

lemma ineg_arm: "int_shape sh \<Longrightarrow> types_arm (V_INeg sh)"
  by (rule types_vec1 [where u = "shape_ty sh"]) (auto simp: arm_simps fits_def intro!: vec_unary_yields [OF contract vectors])

lemma iabs_arm: "int_shape sh \<Longrightarrow> types_arm (V_IAbs sh)"
  by (rule types_vec1 [where u = "shape_ty sh"]) (auto simp: arm_simps fits_def intro!: vec_unary_yields [OF contract vectors])

lemma popcnt_arm: "types_arm V_Popcnt"
  by (rule types_vec1 [where u = IR_I8X16])
    (auto simp: arm_simps fits_def typed_def vector_defs float_un_def int_vector_def intro!: yields_ins [OF contract vectors])

lemma bitop_arm: "types_arm (V_Bitop bop)"
  by (rule types_vec2 [where u = IR_I8X16])
    (auto simp: arm_simps fits_def typed_def vec_bitop_typed intro!: yields_ins [OF contract vectors] dest: subsetD [OF vec_bitop_typed(3)])

lemma narrow_arm: "sh \<in> {S_I16x8, S_I32x4} \<Longrightarrow> types_arm (V_Narrow sh sx)"
  by (rule types_vec2 [where u = "the (narrowed (shape_ty sh))"])
    (auto simp: arm_simps fits_def split: Signedness.splits intro!: vec_binary_yields [OF contract vectors])

lemma extend_arm: "sh \<in> {S_I8x16, S_I16x8, S_I32x4} \<Longrightarrow> types_arm (V_Extend half sh sx)"
  by (rule types_vec1 [where u = "the (widened (shape_ty sh))"], simp add: arm_simps, simp add: arm_simps, simp, force simp: fits_def,
      rule widen_yields [OF contract vectors]) auto

lemma extadd_arm: "sh \<in> {S_I8x16, S_I16x8} \<Longrightarrow> types_arm (V_ExtAddPairwise sh sx)"
  by (rule types_vec1 [where u = "the (widened (shape_ty sh))"])
    (auto simp: arm_simps fits_def int_vector_def intro!: pairwise_yields [OF contract vectors])

lemma extmul_arm: "sh \<in> {S_I8x16, S_I16x8, S_I32x4} \<Longrightarrow> types_arm (V_ExtMul half sh sx)"
  by (rule types_vec2 [where u = "the (widened (shape_ty sh))"])
    (auto simp: arm_simps fits_def int_vector_def intro!: product_yields [OF contract vectors])

lemma dot_arm: "types_arm V_I32x4DotI16x8S"
  by (rule types_vec2 [where u = IR_I32X4]) (auto simp: arm_simps fits_def int_vector_def intro!: dot_yields [OF contract vectors])

lemma q15_arm: "types_arm V_I16x8Q15MulrSatS"
  by (rule types_vec2 [where u = IR_I16X8]) (auto simp: arm_simps fits_def intro!: vec_binary_yields [OF contract vectors])

text \<open>Lanes and bits.\<close>

lemma shuffle_arm: "length lanes = 16 \<Longrightarrow> types_arm (V_Shuffle lanes)"
  by (rule types_vec2 [where u = IR_I8X16])
    (auto simp: arm_simps fits_def typed_def vector_defs intro!: yields_ins [OF contract vectors])

lemma swizzle_arm: "types_arm V_Swizzle"
  by (rule types_vec2 [where u = IR_I8X16]) (auto simp: arm_simps fits_def intro!: vec_binary_yields [OF contract vectors])

lemma bitselect_arm: "types_arm V_Bitselect"
  by (rule types_vec3 [where u = IR_I8X16]) (auto simp: arm_simps fits_def intro!: vec_ternary_yields [OF contract vectors])

lemma bitmask_arm: "int_shape sh \<Longrightarrow> types_arm (V_Bitmask sh)"
  by (rule types_vec1 [where u = IR_I32])
    (auto simp: arm_simps fits_def typed_def vector_defs intro!: yields_ins [OF contract vectors])

lemma anytrue_arm: "types_arm V_AnyTrue"
  by (rule types_vec1 [where u = IR_I32])
    (auto simp: arm_simps fits_def intro!: yields_then [where t = IR_I8] vec_unary_yields [OF contract vectors] extend_yields [OF contract vectors])

lemma alltrue_arm: "int_shape sh \<Longrightarrow> types_arm (V_AllTrue sh)"
  by (rule types_vec1 [where u = IR_I32])
    (auto simp: arm_simps fits_def intro!: yields_then [where t = IR_I8] vec_unary_yields [OF contract vectors] extend_yields [OF contract vectors])

lemma extract_yields: "typed C G b v t \<Longrightarrow> is_vector t \<Longrightarrow> lane < lane_count t \<Longrightarrow> yields C G b (lane_type t) (tr_ins C (Extractlane v lane))"
  by (rule yields_ins [OF contract vectors]) (auto simp: typed_def vector_defs)

lemma extract_extend_arm:
  "sh \<in> {S_I8x16, S_I16x8} \<Longrightarrow> lane < lane_count (shape_ty sh) \<Longrightarrow> types_arm (V_ExtractLaneExtend sh sx lane)"
  by (rule types_vec1 [where u = IR_I32])
    (auto simp: arm_simps fits_def intro!: yields_then [OF extract_yields] extend_yields [OF contract vectors])

lemma extract_arm:
  assumes "sh \<notin> {S_I8x16, S_I16x8}" and "lane < lane_count (shape_ty sh)"
  shows "types_arm (V_ExtractLane sh lane)"
proof (rule types_vec1)
  show "vector_type (V_ExtractLane sh lane) = Some ([IR_I8X16], scalar_of sh)" using assms by (simp add: arm_simps)
  show "fits (lane_type (shape_ty sh)) (scalar_of sh)" using assms(1) by (cases sh) (simp_all add: fits_def)
  show "translate_vector C (V_ExtractLane sh lane) = vec1 C (shape_ty sh) (\<lambda>v. tr_ins C (Extractlane v lane))" by (simp add: arm_simps)
qed (use assms(2) in \<open>auto intro: extract_yields\<close>)

lemma not_arm: "types_arm V_Not"
proof (rule types_armI)
  fix s :: FuncTranslationState and env b xs ws assume "fs_stack s = xs @ ws" "list_all2 (holds C G b) ws [IR_I8X16]"
  then obtain x where x: "fs_stack s = xs @ [x]" "holds C G b x IR_I8X16" by (rule one_operand)
  have "yields C G b (value_type_of C b x) (tr_ins C (Vec_unary Bnot x))"
    by (rule vec_unary_yields [OF contract vectors]) (use x(2) in \<open>auto simp: holds_def typed_def\<close>)
  from pop1_puts [where f = "\<lambda>x. tr_ins C (Vec_unary Bnot x)", OF x(1) this] x(2)
  show "puts C G s env b xs IR_I8X16 (translate_vector C V_Not)" by (simp add: arm_simps fits_def holds_def)
qed (simp add: arm_simps)

lemma const_arm: "types_arm (V_Const bytes)"
proof (rule types_armI)
  fix s :: FuncTranslationState and env b xs ws assume "fs_stack s = xs @ ws" "list_all2 (holds C G b) ws []"
  then have "fs_stack s = xs" by simp
  moreover have "yields C G b IR_I8X16 (tr_ins C (Vconst IR_I8X16 bytes))"
    by (rule yields_ins [OF contract vectors]) (simp_all add: vector_args_def value_args_def result_type_def)
  ultimately show "puts C G s env b xs IR_I8X16 (translate_vector C (V_Const bytes))"
    by (simp add: arm_simps yields_puts fits_def)
qed (simp add: arm_simps)

text \<open>A scalar operand of a vector operator is reduced to the type of the lanes.\<close>

lemma lane_yields:
  assumes "holds C G b v (scalar_of sh)"
  shows "yields C G b (lane_type (shape_ty sh))
    (if sh \<in> {S_I8x16, S_I16x8} then tr_ins C (Convert Ireduce (lane_type (shape_ty sh)) v) else tr_ok v)"
  by (cases sh; use assms in \<open>auto simp: holds_def typed_def vector_args_def value_args_def result_type_def
    intro!: yields_value yields_ins [OF contract vectors]\<close>)

lemma splat_arm: "types_arm (V_Splat sh)"
proof (rule types_armI)
  let ?reduce = "\<lambda>v. if sh \<in> {S_I8x16, S_I16x8} then tr_ins C (Convert Ireduce (lane_type (shape_ty sh)) v) else tr_ok v"
  let ?f = "\<lambda>v. tr_then (?reduce v) (\<lambda>w. tr_ins C (Vec_make Splat (shape_ty sh) w))"
  fix s :: FuncTranslationState and env b xs ws assume "fs_stack s = xs @ ws" "list_all2 (holds C G b) ws [scalar_of sh]"
  then obtain x where x: "fs_stack s = xs @ [x]" "holds C G b x (scalar_of sh)" by (rule one_operand)
  have "yields C G b (shape_ty sh) (?f x)"
    by (rule yields_then [OF lane_yields [OF x(2)]], rule yields_ins [OF contract vectors]) (auto simp: typed_def vector_defs)
  from pop1_puts [where f = ?f, OF x(1) this, of IR_I8X16] show "puts C G s env b xs IR_I8X16 (translate_vector C (V_Splat sh))"
    by (simp add: arm_simps fits_def tr_then_assoc)
qed (simp add: arm_simps)

lemma replace_arm:
  assumes "lane < lane_count (shape_ty sh)"
  shows "types_arm (V_ReplaceLane sh lane)"
proof (rule types_armI)
  let ?reduce = "\<lambda>v. if sh \<in> {S_I8x16, S_I16x8} then tr_ins C (Convert Ireduce (lane_type (shape_ty sh)) v) else tr_ok v"
  let ?f = "\<lambda>v w. tr_then (?reduce w) (\<lambda>r. tr_then (optionally_bitcast_vector C v (shape_ty sh)) (\<lambda>v'. tr_ins C (Insertlane v' r lane)))"
  fix s :: FuncTranslationState and env b xs ws assume "fs_stack s = xs @ ws" "list_all2 (holds C G b) ws [IR_I8X16, scalar_of sh]"
  then obtain x y where x: "fs_stack s = xs @ [x, y]" "holds C G b x IR_I8X16" "holds C G b y (scalar_of sh)" by (rule two_operands)
  have "yields C G b (shape_ty sh) (?f x y)"
  proof (rule yields_then [OF lane_yields [OF x(3)]], rule yields_then, rule bitcast_yields [OF contract vectors])
    fix r v b1 b2 assume "typed C G b1 r (lane_type (shape_ty sh))" "straight C G b1 b2" and v: "typed C G b2 v (shape_ty sh)"
    then have "typed C G b2 r (lane_type (shape_ty sh))" by (blast intro: straight_typed)
    with v show "yields C G b2 (shape_ty sh) (tr_ins C (Insertlane v r lane))"
      by (intro yields_ins [OF contract vectors]) (use assms in \<open>auto simp: typed_def vector_defs\<close>)
  qed (use straight_holds [OF _ x(2)] in auto)
  from pop2_puts [where f = ?f, OF x(1) this, of IR_I8X16] show "puts C G s env b xs IR_I8X16 (translate_vector C (V_ReplaceLane sh lane))"
    by (simp add: arm_simps fits_def tr_then_assoc)
qed (use assms in \<open>simp add: arm_simps\<close>)

lemma shift_arm:
  assumes "int_shape sh"
  shows "types_arm (V_Shift sh sop)"
proof (rule types_armI)
  let ?f = "\<lambda>v w. tr_then (optionally_bitcast_vector C v (shape_ty sh)) (\<lambda>v'. tr_ins C (Binary (vec_shift sop) v' w))"
  fix s :: FuncTranslationState and env b xs ws assume "fs_stack s = xs @ ws" "list_all2 (holds C G b) ws [IR_I8X16, IR_I32]"
  then obtain x y where x: "fs_stack s = xs @ [x, y]" "holds C G b x IR_I8X16" "holds C G b y IR_I32" by (rule two_operands)
  have "yields C G b (shape_ty sh) (?f x y)"
  proof (rule yields_then, rule bitcast_yields [OF contract vectors x(2)])
    fix v b1 assume "straight C G b b1" and v: "typed C G b1 v (shape_ty sh)"
    from straight_holds [OF this(1) x(3)] have "typed C G b1 y IR_I32" by (simp add: holds_def typed_def)
    with v show "yields C G b1 (shape_ty sh) (tr_ins C (Binary (vec_shift sop) v y))"
      by (intro yields_ins [OF contract vectors]) (use assms shift_typed [of "value_type_of C b1" v y sop] in \<open>auto simp: typed_def vector_args_def value_args_def\<close>)
  qed simp
  from pop2_puts [where f = ?f, OF x(1) this, of IR_I8X16] show "puts C G s env b xs IR_I8X16 (translate_vector C (V_Shift sh sop))"
    by (simp add: arm_simps fits_def tr_then_assoc)
qed (use assms in \<open>simp add: arm_simps\<close>)

text \<open>Floats and conversions.\<close>

lemma float_binop_shift: "float_binop bop \<notin> {Ishl, Ushr, Sshr}"
  by (cases bop) simp_all

lemma fbinop_arm: "\<not> int_shape sh \<Longrightarrow> types_arm (V_FBinop sh bop)"
  by (rule types_vec2 [where u = "shape_ty sh"], simp add: arm_simps, simp add: arm_simps, simp, simp add: fits_def,
      rule binary_yields [OF contract vectors _ _ float_binop_shift]) simp_all

lemma pmax_arm: "\<not> int_shape sh \<Longrightarrow> types_arm (V_PMax sh)"
  by (rule types_vec2 [where u = "shape_ty sh"]) (auto simp: arm_simps fits_def intro!: pseudo_select_yields [OF contract vectors])

lemma pmin_arm: "\<not> int_shape sh \<Longrightarrow> types_arm (V_PMin sh)"
  by (rule types_vec2 [where u = "shape_ty sh"]) (auto simp: arm_simps fits_def intro!: pseudo_select_yields [OF contract vectors])

lemma funop_arm: "\<not> int_shape sh \<Longrightarrow> types_arm (V_FUnop sh uop)"
  by (rule types_vec1 [where u = "shape_ty sh"])
    (auto simp: arm_simps fits_def typed_def vector_defs intro!: yields_ins [OF contract vectors])

lemma fcvt_types: "t = truthy u \<Longrightarrow> float_vector u \<Longrightarrow> convert_vector (fcvt_from sx) t u"
  "u = truthy t \<Longrightarrow> float_vector t \<Longrightarrow> convert_vector (fcvt_sat sx) t u"
  by (cases sx; simp add: fcvt_from_def fcvt_sat_def)+

lemma float_vectors [simp]: "float_vector IR_F32X4" "float_vector IR_F64X2"
  by (simp_all add: float_vector_def)

lemma convert_arms:
  "types_arm (V_F32x4ConvertI32x4 sx)" "types_arm (V_F64x2ConvertLowI32x4 sx)" "types_arm (V_I32x4TruncSatF32x4 sx)"
  "types_arm (V_I32x4TruncSatF64x2Zero sx)" "types_arm V_F64x2PromoteLowF32x4" "types_arm V_F32x4DemoteF64x2Zero"
proof -
  note R = convert_yields [OF contract vectors] vec_unary_yields [OF contract vectors] fcvt_types
  show "types_arm (V_F32x4ConvertI32x4 sx)" by (rule types_vec1 [where u = IR_F32X4]) (auto simp: arm_simps fits_def intro!: R)
  show "types_arm (V_I32x4TruncSatF32x4 sx)" by (rule types_vec1 [where u = IR_I32X4]) (auto simp: arm_simps fits_def intro!: R)
  show "types_arm V_F64x2PromoteLowF32x4" by (rule types_vec1 [where u = IR_F64X2]) (auto simp: arm_simps fits_def intro!: R)
  show "types_arm V_F32x4DemoteF64x2Zero" by (rule types_vec1 [where u = IR_F32X4]) (auto simp: arm_simps fits_def intro!: R)
  show "types_arm (V_F64x2ConvertLowI32x4 sx)"
    by (rule types_vec1 [where u = IR_F64X2])
      (auto simp: arm_simps fits_def intro!: R yields_then [OF widen_yields [OF contract vectors]])
  show "types_arm (V_I32x4TruncSatF64x2Zero sx)"
    by (rule types_vec1 [where u = IR_I32X4])
      (auto simp: arm_simps fits_def intro!: R yields_then [where t = IR_I64X2] narrow_yields [OF contract vectors])
qed

text \<open>Relaxed operators.\<close>

lemma relaxed_max_arm: "\<not> int_shape sh \<Longrightarrow> types_arm (V_RelaxedMax sh)"
  by (rule types_vec2 [where u = "shape_ty sh"])
    (auto simp: arm_simps fits_def float_op_def intro!: yields_relaxed binary_yields [OF contract vectors] pseudo_select_yields [OF contract vectors])

lemma relaxed_min_arm: "\<not> int_shape sh \<Longrightarrow> types_arm (V_RelaxedMin sh)"
  by (rule types_vec2 [where u = "shape_ty sh"])
    (auto simp: arm_simps fits_def float_op_def intro!: yields_relaxed binary_yields [OF contract vectors] pseudo_select_yields [OF contract vectors])

lemma relaxed_swizzle_arm: "types_arm V_RelaxedSwizzle"
  by (rule types_vec2 [where u = IR_I8X16])
    (auto simp: arm_simps fits_def intro!: yields_relaxed vec_binary_yields [OF contract vectors])

lemma relaxed_q15_arm: "types_arm V_I16x8RelaxedQ15mulrS"
  by (rule types_vec2 [where u = IR_I16X8])
    (auto simp: arm_simps fits_def intro!: yields_relaxed vec_binary_yields [OF contract vectors])

lemma relaxed_dot_arm: "types_arm V_I16x8RelaxedDotI8x16I7x16S"
  by (rule types_vec2 [where u = IR_I16X8]) (auto simp: arm_simps fits_def intro!: relaxed_dot_yields [OF contract vectors])

lemma relaxed_madd_arm: "\<not> int_shape sh \<Longrightarrow> types_arm (V_RelaxedMadd sh)"
  by (rule types_vec3 [where u = "shape_ty sh"]) (auto simp: arm_simps fits_def intro!: multiply_add_yields [OF contract vectors])

lemma relaxed_select_arm: "int_shape sh \<Longrightarrow> types_arm (V_RelaxedLaneselect sh)"
  by (rule types_vec3 [where u = "shape_ty sh"])
    (auto simp: arm_simps fits_def intro!: yields_relaxed vec_ternary_yields [OF contract vectors])

lemma relaxed_nmadd_arm:
  assumes "\<not> int_shape sh"
  shows "types_arm (V_RelaxedNmadd sh)"
proof (rule types_vec3)
  let ?f = "\<lambda>a b c. tr_then (tr_ins C (Unary Fneg a)) (\<lambda>a'. multiply_add C a' b c)"
  show "vector_type (V_RelaxedNmadd sh) = Some ([IR_I8X16, IR_I8X16, IR_I8X16], IR_I8X16)" using assms by (simp add: arm_simps)
  show "translate_vector C (V_RelaxedNmadd sh) = vec3 C (shape_ty sh) ?f" by (simp add: arm_simps)
  fix a c d b assume v: "typed C G b a (shape_ty sh)" "typed C G b c (shape_ty sh)" "typed C G b d (shape_ty sh)"
  have "yields C G b (shape_ty sh) (tr_ins C (Unary Fneg a))"
    by (rule yields_ins [OF contract vectors]) (use v assms in \<open>auto simp: typed_def vector_defs float_un_def\<close>)
  then show "yields C G b (shape_ty sh) (?f a c d)"
    by (rule yields_then) (rule multiply_add_yields [OF contract vectors], auto intro: straight_typed [OF _ v(2)] straight_typed [OF _ v(3)] simp: assms)
qed (simp_all add: fits_def)

lemma cvtt_yields: "typed C G b v t \<Longrightarrow> float_vector t \<Longrightarrow> u = truthy t \<Longrightarrow> yields C G b u (tr_ins C (Vec_make X86_cvtt2dq u v))"
  by (rule yields_ins [OF contract vectors]) (auto simp: typed_def vector_defs)

lemma relaxed_trunc_arms: "types_arm (V_I32x4RelaxedTruncF32x4 sx)" "types_arm (V_I32x4RelaxedTruncF64x2Zero sx)"
proof -
  note R = convert_yields [OF contract vectors] cvtt_yields yields_relaxed
  show "types_arm (V_I32x4RelaxedTruncF32x4 sx)"
    by (cases sx; rule types_vec1 [where u = IR_I32X4]) (auto simp: arm_simps fits_def intro!: R)
  show "types_arm (V_I32x4RelaxedTruncF64x2Zero sx)"
    by (cases sx; rule types_vec1 [where u = IR_I32X4])
      (auto simp: arm_simps fits_def intro!: R yields_then [where t = IR_I64X2] narrow_yields [OF contract vectors])
qed

lemma relaxed_dot_add_arm: "types_arm V_I32x4RelaxedDotI8x16I7x16AddS"
proof (rule types_armI)
  let ?f = "\<lambda>c a b. tr_then (relaxed_dot C a b) (\<lambda>dot. tr_then (pairwise_widened C Signed dot) (\<lambda>dot32. tr_ins C (Binary Iadd dot32 c)))"
  fix s :: FuncTranslationState and env b xs ws assume "fs_stack s = xs @ ws" "list_all2 (holds C G b) ws [IR_I8X16, IR_I8X16, IR_I8X16]"
  then obtain x y z where x: "fs_stack s = xs @ [x, y, z]" "holds C G b x IR_I8X16" "holds C G b y IR_I8X16" "holds C G b z IR_I8X16"
    by (rule three_operands)
  let ?s = "s\<lparr>fs_stack := xs @ [x, y]\<rparr>"
  from yieldsD [OF bitcast_yields [OF contract vectors x(4)], of IR_I32X4 ?s env] obtain c b1 where
    c: "optionally_bitcast_vector C z IR_I32X4 (?s, env, b) = Ok (c, ?s, env, b1)" "straight C G b b1" "typed C G b1 c IR_I32X4" by auto
  have "puts C G ?s env b1 xs IR_I8X16 (vec2 C IR_I8X16 (?f c))"
  proof (rule vec2_puts [OF contract vectors])
    fix v w b2 assume 2: "straight C G b1 b2" "typed C G b2 v IR_I8X16" "typed C G b2 w IR_I8X16"
    show "yields C G b2 IR_I32X4 (?f c v w)"
    proof (rule yields_then [OF relaxed_dot_yields [OF contract vectors 2(2,3)]], rule yields_then, rule pairwise_yields [OF contract vectors, where t = IR_I16X8])
      fix d e b3 b4 assume "straight C G b2 b3" "straight C G b3 b4" and e: "typed C G b4 e IR_I32X4"
      then have "straight C G b1 b4" using 2(1) by (blast intro: straight_trans)
      from binary_yields [OF contract vectors e straight_typed [OF this c(3)]] show "yields C G b4 IR_I32X4 (tr_ins C (Binary Iadd e c))"
        by (simp add: float_op_def int_vector_def)
    qed (simp_all add: int_vector_def)
  qed (use straight_holds [OF c(2)] x(2,3) in \<open>simp_all add: fits_def\<close>)
  with c pop1_append [of s "xs @ [x, y]" z] x(1) straight_trans [OF c(2)]
  show "puts C G s env b xs IR_I8X16 (translate_vector C V_I32x4RelaxedDotI8x16I7x16AddS)"
    by (auto simp: arm_simps puts_def pop1_with_bitcast_def tr_then_def tr_pop1_def tr_state_def)
qed (simp add: arm_simps)

text \<open>Every operator.\<close>

lemmas all_arms = icmp_arm fcmp_arm ibinop_arm ineg_arm iabs_arm popcnt_arm bitop_arm narrow_arm extend_arm extadd_arm extmul_arm dot_arm
  q15_arm shuffle_arm swizzle_arm bitselect_arm bitmask_arm anytrue_arm alltrue_arm extract_extend_arm extract_arm not_arm const_arm
  splat_arm replace_arm shift_arm fbinop_arm pmax_arm pmin_arm funop_arm convert_arms relaxed_max_arm relaxed_min_arm
  relaxed_swizzle_arm relaxed_q15_arm relaxed_dot_arm relaxed_madd_arm relaxed_select_arm relaxed_nmadd_arm relaxed_trunc_arms
  relaxed_dot_add_arm

lemma every_arm: "types_arm oper"
proof (cases "vector_type oper")
  case (Some p)
  then show ?thesis by (cases oper) (auto simp: vector_type_def split: if_splits intro: all_arms)
qed (rule types_none)

end

end
