(* ===== verification/Flow_Builder.thy ===== *)
theory Flow_Builder
  imports Vector_Typing
begin

text \<open>
  A builder that keeps the contract: it records the types of values, the targets and results of instructions,
  and the parameters of blocks. It shows that the contract can be met, and runs the translation on examples.
\<close>

section \<open>The builder\<close>

record flow =
  fl_values :: "ir_Type list"
  fl_insts :: "(ir_Block list \<times> ir_Value list) list"
  fl_blocks :: "(ir_Block \<times> (ir_Type \<times> ir_Value) list) list"
  fl_entered :: "ir_Block list"
  fl_sealed :: "ir_Block list"
  fl_entry :: ir_Block
  fl_current :: ir_Block
  fl_vars :: "nat \<Rightarrow> ir_Type option"
  fl_sigs :: "Signature list"
  fl_funcs :: "SigRef list"
  fl_signature :: Signature

definition flow_type :: "flow \<Rightarrow> ir_Value \<Rightarrow> ir_Type" where
  "flow_type b v = (if v < length (fl_values b) then fl_values b ! v else IR_I32)"

definition flow_value :: "ir_Type \<Rightarrow> flow \<Rightarrow> ir_Value \<times> flow" where
  "flow_value t b = (length (fl_values b), b\<lparr>fl_values := fl_values b @ [t]\<rparr>)"

definition flow_ins :: "inst \<Rightarrow> flow \<Rightarrow> ir_Value \<times> flow" where
  "flow_ins i b = flow_value (case result_type (flow_type b) i of Some t \<Rightarrow> t
     | None \<Rightarrow> (case vector_result_type (flow_type b) i of Some t \<Rightarrow> t | None \<Rightarrow> IR_I32)) b"

definition flow_sig :: "flow \<Rightarrow> SigRef \<Rightarrow> Signature" where
  "flow_sig b r = (if r < length (fl_sigs b) then fl_sigs b ! r else \<lparr>sig_params = [], sig_returns = []\<rparr>)"

definition flow_func :: "flow \<Rightarrow> ir_FuncRef \<Rightarrow> SigRef" where
  "flow_func b f = (if f < length (fl_funcs b) then fl_funcs b ! f else 0)"

definition flow_returns :: "flow \<Rightarrow> inst \<Rightarrow> ir_Type list" where
  "flow_returns b i = (case i of
       Call_inst f vs \<Rightarrow> sig_returns (flow_sig b (flow_func b f))
     | Call_indirect_inst r a vs \<Rightarrow> sig_returns (flow_sig b r)
     | _ \<Rightarrow> [])"

definition flow_inst :: "inst \<Rightarrow> flow \<Rightarrow> ir_Inst \<times> flow" where
  "flow_inst i b = (let n = length (fl_values b); ts = flow_returns b i in
     (length (fl_insts b), b\<lparr>fl_values := fl_values b @ ts,
        fl_insts := fl_insts b @ [(map fst (branches i), [n ..< n + length ts])]\<rparr>))"

definition flow_results :: "flow \<Rightarrow> ir_Inst \<Rightarrow> ir_Value list" where
  "flow_results b n = (if n < length (fl_insts b) then snd (fl_insts b ! n) else [])"

definition flow_preds :: "flow \<Rightarrow> ir_Block \<Rightarrow> ir_Inst set" where
  "flow_preds b k = {n. n < length (fl_insts b) \<and> k \<in> set (fst (fl_insts b ! n))}"

definition flow_params :: "flow \<Rightarrow> ir_Block \<Rightarrow> (ir_Type \<times> ir_Value) list" where
  "flow_params b k = (case map_of (fl_blocks b) k of Some ps \<Rightarrow> ps | None \<Rightarrow> [])"

definition flow_create_block :: "flow \<Rightarrow> ir_Block \<times> flow" where
  "flow_create_block b = (let k = Suc (sum_list (map fst (fl_blocks b) @ fl_entered b)) in
     (k, b\<lparr>fl_blocks := (k, []) # fl_blocks b\<rparr>))"

definition flow_append_param :: "ir_Block \<Rightarrow> ir_Type \<Rightarrow> flow \<Rightarrow> ir_Value \<times> flow" where
  "flow_append_param k t b = (let v = length (fl_values b) in
     (v, b\<lparr>fl_values := fl_values b @ [t], fl_blocks := (k, flow_params b k @ [(t, v)]) # fl_blocks b\<rparr>))"

definition flow_append_params :: "(flow \<Rightarrow> ir_Type list) \<Rightarrow> ir_Block \<Rightarrow> flow \<Rightarrow> flow" where
  "flow_append_params ts k b = fold (\<lambda>t b'. snd (flow_append_param k t b')) (ts b) b"

definition flow_redirect :: "ir_Inst \<Rightarrow> ir_Block \<Rightarrow> ir_Block \<Rightarrow> flow \<Rightarrow> flow" where
  "flow_redirect n k l b = b\<lparr>fl_insts := (fl_insts b)[n := (map (\<lambda>j. if j = k then l else j) (fst (fl_insts b ! n)),
     snd (fl_insts b ! n))]\<rparr>"

text \<open>The current block cannot be reached: it is sealed and nothing branches to it.\<close>

definition flow_unreachable :: "flow \<Rightarrow> bool" where
  "flow_unreachable b \<longleftrightarrow> fl_current b \<noteq> fl_entry b \<and> fl_current b \<in> set (fl_sealed b) \<and>
     \<not> list_ex (\<lambda>(targets, _). fl_current b \<in> set targets) (fl_insts b)"

definition flow_ops :: "flow clif_ops" where
  "flow_ops = \<lparr>ins = flow_ins, ins_inst = flow_inst, inst_results = flow_results, value_type_of = flow_type,
     create_global_value = \<lambda>_ b. (0, b),
     import_signature = \<lambda>sg b. (length (fl_sigs b), b\<lparr>fl_sigs := fl_sigs b @ [sg]\<rparr>),
     import_function = \<lambda>d b. (length (fl_funcs b), b\<lparr>fl_funcs := fl_funcs b @ [ef_signature d]\<rparr>),
     signature_of = flow_sig, ext_func_signature = flow_func, special_vmctx = \<lambda>_. None, func_signature = fl_signature,
     create_block = flow_create_block, append_block_param = flow_append_param, declare_stack_map = \<lambda>_ b. b,
     block_params = \<lambda>b k. map snd (flow_params b k),
     switch_to_block = \<lambda>k b. b\<lparr>fl_current := k, fl_entered := k # fl_entered b\<rparr>,
     seal_block = \<lambda>k b. b\<lparr>fl_sealed := k # fl_sealed b\<rparr>,
     change_jump_destination = flow_redirect,
     use_var = \<lambda>x b. flow_value (case fl_vars b x of Some t \<Rightarrow> t | None \<Rightarrow> IR_I32) b,
     def_var = \<lambda>_ _ b. b, set_val_label = \<lambda>_ _ b. b, is_unreachable = flow_unreachable,
     declare_var = \<lambda>x t b. b\<lparr>fl_vars := (fl_vars b)(x \<mapsto> t)\<rparr>, declare_var_stack_map = \<lambda>_ b. b,
     append_params_for_function_params = flow_append_params (sig_params \<circ> fl_signature),
     append_params_for_function_returns = flow_append_params (sig_returns \<circ> fl_signature),
     ensure_inserted_block = \<lambda>b. b, set_srcloc = \<lambda>_ b. b, finalize = \<lambda>b. b\<rparr>"

definition flow_view :: "flow clif_view" where
  "flow_view = \<lparr>cv_value = \<lambda>b v. v < length (fl_values b), cv_block = \<lambda>b k. map_of (fl_blocks b) k \<noteq> None,
     cv_params = \<lambda>b k. map fst (flow_params b k),
     cv_untouched = \<lambda>b k. list_all (\<lambda>(t, v). v < length (fl_values b) \<and> flow_type b v = t) (flow_params b k),
     cv_entered = \<lambda>b k. k \<in> set (fl_entered b), cv_preds = flow_preds, cv_insts = \<lambda>b. {..<length (fl_insts b)},
     cv_current = fl_current, cv_filled = \<lambda>_. False, cv_var = fl_vars,
     cv_sig = \<lambda>b r. r < length (fl_sigs b), cv_func = \<lambda>b f. f < length (fl_funcs b)\<rparr>"

section \<open>The contract\<close>

lemmas flow_defs = flow_ops_def flow_view_def

lemma flow_typed: "typed flow_ops flow_view b v t \<longleftrightarrow> v < length (fl_values b) \<and> flow_type b v = t"
  by (simp add: typed_def flow_defs)

lemma flow_type_append: "v < length (fl_values b) \<Longrightarrow> fl_values b' = fl_values b @ ts \<Longrightarrow> flow_type b' v = flow_type b v"
  by (simp add: flow_type_def nth_append)

text \<open>States that only have more values, instructions, signatures and functions.\<close>

lemma flow_keeps:
  assumes "fl_values b' = fl_values b @ ts" and "length (fl_insts b) \<le> length (fl_insts b')"
    and "\<And>k. map_of (fl_blocks b) k \<noteq> None \<Longrightarrow> k \<notin> K \<Longrightarrow> map_of (fl_blocks b') k = map_of (fl_blocks b) k"
    and "\<And>k. map_of (fl_blocks b) k \<noteq> None \<Longrightarrow> k \<in> K \<Longrightarrow>
      map_of (fl_blocks b') k \<noteq> None \<and> (cv_untouched flow_view b k \<longrightarrow> cv_untouched flow_view b' k)"
    and "set (fl_entered b) \<subseteq> set (fl_entered b')" and "fl_vars b' = fl_vars b" and "fl_sigs b' = fl_sigs b @ sgs"
    and "fl_funcs b' = fl_funcs b @ fs" and "fl_signature b' = fl_signature b"
  shows "keeps_but K flow_ops flow_view b b'"
proof -
  have ty: "flow_type b' v = flow_type b v" "v < length (fl_values b')" if "v < length (fl_values b)" for v
    using flow_type_append [OF that assms(1)] that assms(1) by simp_all
  have par: "flow_params b' k = flow_params b k" if "map_of (fl_blocks b) k \<noteq> None" "k \<notin> K" for k
    using assms(3) [OF that] by (simp add: flow_params_def)
  have un: "cv_untouched flow_view b' k" if "map_of (fl_blocks b) k \<noteq> None" "cv_untouched flow_view b k" for k
  proof (cases "k \<in> K")
    case False
    with that par [of k] ty show ?thesis by (auto simp: flow_view_def list_all_iff)
  qed (use assms(4) that in blast)
  have blk: "map_of (fl_blocks b') k \<noteq> None" if "map_of (fl_blocks b) k \<noteq> None" for k
    using assms(3,4) [of k] that by (cases "k \<in> K") auto
  show ?thesis
    unfolding keeps_but_def flow_typed
    using ty par un blk assms(2,5-)
    by (auto simp: flow_defs flow_sig_def flow_func_def nth_append)
qed

lemma flow_straight:
  assumes "fl_values b' = fl_values b @ ts" and "fl_insts b' = fl_insts b"
    and "\<And>k. map_of (fl_blocks b) k \<noteq> None \<Longrightarrow> map_of (fl_blocks b') k = map_of (fl_blocks b) k"
    and "fl_entered b' = fl_entered b" and "fl_vars b' = fl_vars b" and "fl_sigs b' = fl_sigs b @ sgs"
    and "fl_funcs b' = fl_funcs b @ fs" and "fl_signature b' = fl_signature b"
    and "fl_current b' = fl_current b" "fl_sealed b' = fl_sealed b" "fl_entry b' = fl_entry b"
  shows "straight flow_ops flow_view b b'"
  unfolding straight_def same_flow_def
  using flow_keeps [OF assms(1) _ _ _ _ assms(5-8), of "{}"] assms
  by (simp add: flow_defs flow_preds_def flow_unreachable_def fun_eq_iff)

lemma flow_value_straight: "straight flow_ops flow_view b (snd (flow_value t b))" "typed flow_ops flow_view (snd (flow_value t b)) (fst (flow_value t b)) t"
  by (rule flow_straight [where ts = "[t]" and sgs = "[]" and fs = "[]"]) (simp_all add: flow_value_def flow_typed flow_type_def)

lemma flow_sum_fresh: "Suc (sum_list xs) \<notin> set (xs :: nat list)"
  using member_le_sum_list [of _ xs] by fastforce

lemma flow_create_contract:
  assumes "flow_create_block b = (k, b')"
  shows "straight flow_ops flow_view b b'" "\<not> cv_block flow_view b k" "cv_block flow_view b' k" "cv_params flow_view b' k = []"
    "cv_untouched flow_view b' k" "\<not> cv_entered flow_view b' k"
proof -
  from assms have b': "b' = b\<lparr>fl_blocks := (k, []) # fl_blocks b\<rparr>" and k: "k = Suc (sum_list (map fst (fl_blocks b) @ fl_entered b))"
    by (auto simp: flow_create_block_def Let_def)
  from k flow_sum_fresh [of "map fst (fl_blocks b) @ fl_entered b"] have fresh: "k \<notin> fst ` set (fl_blocks b)" "k \<notin> set (fl_entered b)" by auto
  then have none: "map_of (fl_blocks b) k = None" by (simp add: map_of_eq_None_iff)
  then show "straight flow_ops flow_view b b'"
    by (intro flow_straight [where ts = "[]" and sgs = "[]" and fs = "[]"]) (auto simp: b')
  show "\<not> cv_block flow_view b k" "cv_block flow_view b' k" "cv_params flow_view b' k = []"
    "cv_untouched flow_view b' k" "\<not> cv_entered flow_view b' k"
    using none fresh(2) by (simp_all add: flow_view_def b' flow_params_def)
qed

lemma flow_append_contract:
  assumes "flow_append_param k t b = (v, b')"
  shows "keeps_but {k} flow_ops flow_view b b'" "same_flow flow_ops flow_view b b'" "cv_params flow_view b' k = cv_params flow_view b k @ [t]"
proof -
  from assms have b': "b' = b\<lparr>fl_values := fl_values b @ [t], fl_blocks := (k, flow_params b k @ [(t, length (fl_values b))]) # fl_blocks b\<rparr>"
    by (auto simp: flow_append_param_def Let_def)
  have par: "flow_params b' k = flow_params b k @ [(t, length (fl_values b))]" by (simp add: b' flow_params_def)
  have ty: "flow_type b' w = flow_type b w" if "w < length (fl_values b)" for w
    by (rule flow_type_append [OF that, where ts = "[t]"]) (simp add: b')
  have new: "flow_type b' (length (fl_values b)) = t" "length (fl_values b') = Suc (length (fl_values b))"
    by (simp_all add: b' flow_type_def)
  have un: "cv_untouched flow_view b' k" if "cv_untouched flow_view b k"
    using that new by (auto simp: flow_view_def list_all_iff par ty less_Suc_eq)
  show "keeps_but {k} flow_ops flow_view b b'"
    by (rule flow_keeps [where ts = "[t]" and sgs = "[]" and fs = "[]"]) (use un in \<open>auto simp: b'\<close>)
  show "same_flow flow_ops flow_view b b'"
    by (simp add: same_flow_def flow_defs flow_preds_def flow_unreachable_def b' fun_eq_iff)
  show "cv_params flow_view b' k = cv_params flow_view b k @ [t]" using par by (simp add: flow_view_def)
qed

lemma flow_inst_contract:
  assumes "flow_inst i b = (n, b')"
  shows "keeps flow_ops flow_view b b'" "cv_entered flow_view b' = cv_entered flow_view b" "cv_current flow_view b' = cv_current flow_view b"
    "\<not> flow_unreachable b \<Longrightarrow> \<not> flow_unreachable b'" "n \<notin> cv_insts flow_view b" "n \<in> cv_insts flow_view b'"
    "cv_preds flow_view b' = (\<lambda>k. if k \<in> fst ` set (branches i) then insert n (cv_preds flow_view b k) else cv_preds flow_view b k)"
    "typed_list flow_ops flow_view b' (flow_results b' n) (flow_returns b i)"
proof -
  let ?m = "length (fl_values b)" and ?ts = "flow_returns b i"
  from assms have n: "n = length (fl_insts b)" and b': "b' = b\<lparr>fl_values := fl_values b @ ?ts,
      fl_insts := fl_insts b @ [(map fst (branches i), [?m ..< ?m + length ?ts])]\<rparr>"
    by (auto simp: flow_inst_def Let_def)
  show "keeps flow_ops flow_view b b'"
    by (rule flow_keeps [where ts = ?ts and sgs = "[]" and fs = "[]"]) (auto simp: b')
  show "cv_entered flow_view b' = cv_entered flow_view b" "cv_current flow_view b' = cv_current flow_view b"
    "n \<notin> cv_insts flow_view b" "n \<in> cv_insts flow_view b'"
    by (simp_all add: flow_view_def b' n)
  show "\<not> flow_unreachable b'" if "\<not> flow_unreachable b" using that by (auto simp: flow_unreachable_def b')
  show "cv_preds flow_view b' = (\<lambda>k. if k \<in> fst ` set (branches i) then insert n (cv_preds flow_view b k) else cv_preds flow_view b k)"
    by (rule ext) (auto simp: flow_view_def flow_preds_def b' n nth_append less_Suc_eq image_iff Bex_def)
  show "typed_list flow_ops flow_view b' (flow_results b' n) ?ts"
    by (auto simp: list_all2_conv_all_nth flow_results_def flow_typed flow_type_def b' n nth_append)
qed

lemma flow_redirect_contract:
  assumes "k \<noteq> l" and "n \<in> flow_preds b k"
  shows "keeps flow_ops flow_view b (flow_redirect n k l b)"
    "flow_preds (flow_redirect n k l b) = (flow_preds b)(k := flow_preds b k - {n}, l := insert n (flow_preds b l))"
proof -
  show "keeps flow_ops flow_view b (flow_redirect n k l b)"
    by (rule flow_keeps [where ts = "[]" and sgs = "[]" and fs = "[]"]) (auto simp: flow_redirect_def)
  show "flow_preds (flow_redirect n k l b) = (flow_preds b)(k := flow_preds b k - {n}, l := insert n (flow_preds b l))"
    using assms by (intro ext) (auto simp: flow_preds_def flow_redirect_def nth_list_update split: if_splits)
qed

lemma flow_same_keeps:
  "keeps flow_ops flow_view b (b\<lparr>fl_current := k, fl_entered := k # fl_entered b\<rparr>)"
  "keeps flow_ops flow_view b (b\<lparr>fl_sealed := k # fl_sealed b\<rparr>)"
  by (rule flow_keeps [where ts = "[]" and sgs = "[]" and fs = "[]"]; auto)+

lemma flow_reachable: "flow_preds b (fl_current b) \<noteq> {} \<Longrightarrow> \<not> flow_unreachable b"
  by (auto simp: flow_unreachable_def flow_preds_def list_ex_iff case_prod_unfold)

lemma flow_fields:
  "switch_to_block flow_ops k b = b\<lparr>fl_current := k, fl_entered := k # fl_entered b\<rparr>"
  "seal_block flow_ops k b = b\<lparr>fl_sealed := k # fl_sealed b\<rparr>" "is_unreachable flow_ops = flow_unreachable"
  "cv_preds flow_view = flow_preds" "cv_insts flow_view b = {..<length (fl_insts b)}" "cv_current flow_view = fl_current"
  "cv_entered flow_view b j \<longleftrightarrow> j \<in> set (fl_entered b)" "\<not> cv_filled flow_view b"
  "cv_untouched flow_view (b\<lparr>fl_current := k, fl_entered := ks\<rparr>) = cv_untouched flow_view b"
  "cv_untouched flow_view (b\<lparr>fl_sealed := ks\<rparr>) = cv_untouched flow_view b"
  "flow_preds (b\<lparr>fl_current := k, fl_entered := ks\<rparr>) = flow_preds b" "flow_preds (b\<lparr>fl_sealed := ks\<rparr>) = flow_preds b"
  by (simp_all add: flow_defs flow_preds_def flow_params_def flow_type_def fun_eq_iff)

lemma flow_contract: "builder_contract flow_ops flow_view"
proof -
  have "instruction_contract flow_ops flow_view"
    unfolding instruction_contract_def
  proof (intro conjI allI impI; (elim conjE)?)
    fix b i v b' assume "ins flow_ops i b = (v, b')"
    then have f: "flow_ins i b = (v, b')" by (simp add: flow_ops_def)
    then show "straight flow_ops flow_view b b'" using flow_value_straight(1) [of b] by (metis flow_ins_def snd_conv)
    fix t assume "result_type (value_type_of flow_ops b) i = Some t"
    with f have "flow_value t b = (v, b')" by (simp add: flow_ops_def flow_ins_def)
    then show "typed flow_ops flow_view b' v t" using flow_value_straight(2) [of t b] by simp
  next
    fix b i n b' assume "ins_inst flow_ops i b = (n, b')"
    then have f: "flow_inst i b = (n, b')" by (simp add: flow_ops_def)
    note I = flow_inst_contract [OF f]
    show "keeps flow_ops flow_view b b'" "cv_entered flow_view b' = cv_entered flow_view b" "cv_current flow_view b' = cv_current flow_view b"
      "n \<notin> cv_insts flow_view b" "n \<in> cv_insts flow_view b'"
      "cv_preds flow_view b' = (\<lambda>k. if k \<in> fst ` set (branches i) then insert n (cv_preds flow_view b k) else cv_preds flow_view b k)"
      by (rule I(1-3) I(5-7))+
    show "\<not> is_unreachable flow_ops b'" if "\<not> is_unreachable flow_ops b" using I(4) that by (simp add: flow_ops_def)
  next
    fix b f vs n b' assume "ins_inst flow_ops (Call_inst f vs) b = (n, b')"
    then have "flow_inst (Call_inst f vs) b = (n, b')" by (simp add: flow_ops_def)
    from flow_inst_contract(8) [OF this] show "typed_list flow_ops flow_view b' (inst_results flow_ops b' n)
        (sig_returns (signature_of flow_ops b (ext_func_signature flow_ops b f)))" by (simp add: flow_ops_def flow_returns_def)
  next
    fix b r a vs n b' assume "ins_inst flow_ops (Call_indirect_inst r a vs) b = (n, b')"
    then have "flow_inst (Call_indirect_inst r a vs) b = (n, b')" by (simp add: flow_ops_def)
    from flow_inst_contract(8) [OF this] show "typed_list flow_ops flow_view b' (inst_results flow_ops b' n)
        (sig_returns (signature_of flow_ops b r))" by (simp add: flow_ops_def flow_returns_def)
  qed
  moreover have "block_contract flow_ops flow_view"
    unfolding block_contract_def Let_def
  proof (intro conjI allI impI; (elim conjE)?)
    fix b k assume "cv_untouched flow_view b k"
    then show "typed_list flow_ops flow_view b (block_params flow_ops b k) (cv_params flow_view b k)"
      using flow_typed [of b]
      by (auto simp: flow_ops_def flow_view_def list_all2_map1 list_all2_map2 list_all2_same list_all_iff simp del: flow_typed)
  next
    fix b k b' assume "create_block flow_ops b = (k, b')"
    then have "flow_create_block b = (k, b')" by (simp add: flow_ops_def)
    note I = flow_create_contract [OF this]
    show "straight flow_ops flow_view b b'" "\<not> cv_block flow_view b k" "cv_block flow_view b' k" "cv_params flow_view b' k = []"
      "cv_untouched flow_view b' k" "\<not> cv_entered flow_view b' k" by (rule I)+
  next
    fix b k t v b' assume "append_block_param flow_ops k t b = (v, b')"
    then have "flow_append_param k t b = (v, b')" by (simp add: flow_ops_def)
    note I = flow_append_contract [OF this]
    show "keeps_but {k} flow_ops flow_view b b'" "same_flow flow_ops flow_view b b'" "cv_params flow_view b' k = cv_params flow_view b k @ [t]"
      by (rule I)+
  next
    fix b n k l assume kl: "k \<noteq> l" and "n \<in> cv_preds flow_view b k"
    then have "n \<in> flow_preds b k" by (simp add: flow_view_def)
    note I = flow_redirect_contract [OF kl this]
    show "keeps flow_ops flow_view b (change_jump_destination flow_ops n k l b)" using I(1) by (simp add: flow_ops_def)
    show "cv_preds flow_view (change_jump_destination flow_ops n k l b) =
       (cv_preds flow_view b)(k := cv_preds flow_view b k - {n}, l := insert n (cv_preds flow_view b l))"
      using I(2) by (simp add: flow_defs)
    show "cv_entered flow_view (change_jump_destination flow_ops n k l b) = cv_entered flow_view b"
      "cv_current flow_view (change_jump_destination flow_ops n k l b) = cv_current flow_view b"
      by (simp_all add: flow_defs flow_redirect_def)
  qed (auto simp: flow_fields flow_same_keeps fun_eq_iff intro!: flow_reachable, auto simp: flow_preds_def)
  moreover have "variable_contract flow_ops flow_view"
    unfolding variable_contract_def
  proof (intro conjI allI impI; (elim conjE)?)
    fix b x v b' assume "use_var flow_ops x b = (v, b')"
    then have f: "flow_value (case fl_vars b x of Some t \<Rightarrow> t | None \<Rightarrow> IR_I32) b = (v, b')" by (simp add: flow_ops_def)
    show "straight flow_ops flow_view b b'" using flow_value_straight(1) [of b] f by (metis snd_conv)
    fix t assume "cv_var flow_view b x = Some t"
    with f have "flow_value t b = (v, b')" by (simp add: flow_view_def)
    then show "typed flow_ops flow_view b' v t" using flow_value_straight(2) [of t b] by simp
  next
    fix b sg r b' assume "import_signature flow_ops sg b = (r, b')"
    then have b': "r = length (fl_sigs b)" "b' = b\<lparr>fl_sigs := fl_sigs b @ [sg]\<rparr>" by (auto simp: flow_ops_def)
    show "straight flow_ops flow_view b b'"
      by (rule flow_straight [where ts = "[]" and sgs = "[sg]" and fs = "[]"]) (simp_all add: b')
    show "cv_sig flow_view b' r" "signature_of flow_ops b' r = sg" by (simp_all add: flow_defs b' flow_sig_def)
  next
    fix b d f b' assume "import_function flow_ops d b = (f, b')"
    then have b': "f = length (fl_funcs b)" "b' = b\<lparr>fl_funcs := fl_funcs b @ [ef_signature d]\<rparr>" by (auto simp: flow_ops_def)
    show "straight flow_ops flow_view b b'"
      by (rule flow_straight [where ts = "[]" and sgs = "[]" and fs = "[ef_signature d]"]) (simp_all add: b')
    show "cv_func flow_view b' f" "ext_func_signature flow_ops b' f = ef_signature d" by (simp_all add: flow_defs b' flow_func_def)
  qed (auto simp: flow_ops_def)
  ultimately show ?thesis by (simp add: builder_contract_def)
qed

text \<open>No instruction has both a scalar and a vector result.\<close>

lemma class_disjoint: "int_vector t \<Longrightarrow> \<not> is_int_ty t" "float_vector t \<Longrightarrow> \<not> is_float_ty t" "is_vector t \<Longrightarrow> \<not> is_int_ty t"
  by (cases t; simp add: int_vector_def float_vector_def is_int_ty_def is_float_ty_def)+

lemma convert_disjoint: "convert_vector cop t u \<Longrightarrow> \<not> convert_fits cop t u"
  by (cases cop) (auto dest: class_disjoint simp: vector_classes)

lemma vector_result_disjoint: "vector_result_type ty i = Some t \<Longrightarrow> result_type ty i = None"
  by (cases i) (auto simp: vector_result_type_def result_type_def dest: class_disjoint convert_disjoint split: if_splits)

interpretation flow_vectors: vector_builder flow_ops flow_view
proof
  show "vector_contract flow_ops flow_view"
    unfolding vector_contract_def
  proof (intro allI impI, elim conjE)
    fix b i v b' t assume "ins flow_ops i b = (v, b')" and t: "vector_result_type (value_type_of flow_ops b) i = Some t"
    with vector_result_disjoint [OF t] have "flow_value t b = (v, b')" by (simp add: flow_ops_def flow_ins_def)
    then show "typed flow_ops flow_view b' v t" using flow_value_straight(2) [of t b] by simp
  qed
qed (rule flow_contract)

end
