(* ===== verification/Translation_Soundness.thy ===== *)
theory Translation_Soundness
  imports Flow_Builder
begin

text \<open>
  What the typing of the translation shows of operators and function bodies, with runs on the builder
  of \<open>Flow_Builder\<close>, and what the translator does with bodies that are not valid.
\<close>

section \<open>Examples\<close>

definition flow_env :: TranslationEnvironment where
  "flow_env = \<lparr>te_isa = \<lparr>isa_pointer_type = IR_I64, isa_page_size_align_log2 = 12, isa_is_x86_64 = False,
     isa_has_native_fma = True, isa_has_lowering = \<lambda>_. False\<rparr>, te_module = module_default,
     te_types = module_types_default, te_offsets = small_offsets, te_vmctx = None, te_relaxed_simd_deterministic = False,
     te_heap_access_spectre_mitigation = True, te_table_access_spectre_mitigation = True\<rparr>"

text \<open>A function from \<open>i32\<close> to \<open>i32\<close> with its entry block 1 and its exit block 2, at the start of its body.\<close>

definition flow_start :: flow where
  "flow_start = \<lparr>fl_values = [IR_I64, IR_I64, IR_I32, IR_I32], fl_insts = [],
     fl_blocks = [(2, [(IR_I32, 3)]), (1, [(IR_I64, 0), (IR_I64, 1), (IR_I32, 2)])], fl_entered = [1], fl_sealed = [1],
     fl_entry = 1, fl_current = 1, fl_vars = [0 \<mapsto> IR_I32], fl_sigs = [], fl_funcs = [],
     fl_signature = \<lparr>sig_params = [IR_I64, IR_I64, IR_I32], sig_returns = [IR_I32]\<rparr>\<rparr>"

definition start_state :: FuncTranslationState where
  "start_state = func_state_new\<lparr>control_stack := [Frame_Block 2 0 1 0 False]\<rparr>"

definition flow_ctx :: type_ctx where
  "flow_ctx = \<lparr>tc_local = [0 \<mapsto> IR_I32], tc_global = Map.empty, tc_func = Map.empty, tc_type = Map.empty,
     tc_index = Map.empty, tc_ref = Map.empty\<rparr>"

definition no_types :: FuncValidator where
  "no_types = \<lparr>sub_type_at = \<lambda>_. None, get_operand_type = \<lambda>_. None\<rparr>"

definition lax_validator :: "unit validator_ops" where
  "lax_validator = \<lparr>val_view = \<lambda>_. no_types, val_define_locals = \<lambda>_ _ _ v. Ok v, val_op = \<lambda>_ _ v. Ok v, val_finish = \<lambda>_ _. Ok ()\<rparr>"

text \<open>An \<open>if\<close> whose alternative leaves the function: \<open>(if (i32.eqz x) 1 else (br 1 x))\<close>.\<close>

definition branching_ops :: "(nat \<times> Operator) list" where
  "branching_ops = [(0, O_LocalGet 0), (2, O_Num (IEqz W32)), (3, O_If (BT_Type WP_I32)), (5, O_Num (I32Const 1)), (7, O_Else),
     (8, O_LocalGet 0), (10, O_Br 1), (12, O_Drop), (13, O_End), (14, O_End)]"

definition body_of :: "(nat \<times> Operator) list \<Rightarrow> FunctionBody" where
  "body_of opl = \<lparr>fb_start = 0, fb_local_count = Ok (), fb_locals = [], fb_operators = reads opl, fb_end = 15\<rparr>"

lemma flow_start_ok: "body_start flow_ops flow_view flow_env flow_ctx [IR_I32] (start_state, flow_env, flow_start)"
proof -
  have "ctx_ok flow_ops flow_view flow_env flow_ctx flow_start"
    by (auto simp: ctx_ok_def flow_env_def flow_ctx_def flow_start_def flow_view_def pointer_type_def split: if_splits)
  moreover have "env_of flow_env flow_env" unfolding env_of_def by (rule exI [of _ "te_vmctx flow_env"]) simp
  ultimately show ?thesis
    by (simp add: body_start_def start_state_def func_state_new_def flow_fields flow_unreachable_def)
      (simp add: flow_start_def flow_defs flow_params_def flow_type_def canonical_def)
qed

section \<open>Valid code\<close>

text \<open>C1. Translating an operator keeps the translator in step with the types: when the checker accepts the operator,
  every value on the translator's stack has the type that the checker expects there, in reachable and in
  unreachable code, every control frame fits its block, and an operator that does not refer to entities of the
  module is translated without an error, a panic or a failed assertion.
\<close>

theorem translate_operator_typed:
  assumes "builder_contract C G" and "typing_inv C G V E T st vs" and "check_operator V E T oper vs = Some vs'"
  shows "(\<forall>u st'. translate_operator V C oper st = Ok (u, st') \<longrightarrow> body_inv C G V E T st' vs') \<and>
    (self_contained oper \<longrightarrow> (\<exists>st'. translate_operator V C oper st = Ok ((), st')))"
  using operator_sound [OF assms] by (simp add: sound_def)

theorem translate_operator_typed_witness:
  "\<exists>st'. translate_operator no_types flow_ops (O_LocalGet 0) (start_state, flow_env, flow_start) = Ok ((), st') \<and>
     body_inv flow_ops flow_view no_types flow_env flow_ctx st' [(body_frame [IR_I32])\<lparr>vf_ops := Some [IR_I32]\<rparr>]"
proof -
  have "typing_inv flow_ops flow_view no_types flow_env flow_ctx (start_state, flow_env, flow_start) [body_frame [IR_I32]]"
    using body_start_inv [OF flow_start_ok] by (simp add: body_inv_def)
  moreover have "check_operator no_types flow_env flow_ctx (O_LocalGet 0) [body_frame [IR_I32]] =
      Some [(body_frame [IR_I32])\<lparr>vf_ops := Some [IR_I32]\<rparr>]"
    by (simp add: check_operator_def fixed_type_def flow_ctx_def on_top_def apply_type_def body_frame_def strip_suffix_def)
  moreover have "self_contained (O_LocalGet 0)" by (simp add: self_contained_def)
  ultimately show ?thesis using translate_operator_typed [OF flow_contract] by blast
qed


text \<open>The example body is well typed; its alternative ends in unreachable code.\<close>

lemma branching_checked: "check_operators no_types flow_env flow_ctx (map snd branching_ops) [body_frame [IR_I32]] = Some []"
  by (simp add: branching_ops_def body_frame_def check_operator_def fixed_type_def flow_ctx_def on_top_def apply_type_def strip_suffix_def
      enter_block_def block_types_def check_else_def results_ready_def check_branch_def frame_at_def label_types_def leave_def
      give_up_def check_drop_def check_end_def)


section \<open>Vector operators\<close>

text \<open>C36. A vector operator other than a memory access finds its operands on the stack at whatever vector types earlier
  operators gave them. It is translated without a panic, on every target and with either setting for relaxed
  operators; each instruction built for it has operands of fitting types, since the result is known to have the type
  of the operator, and the values below the operands are left alone.
\<close>

theorem vector_operator_typed:
  assumes "builder_contract C G" and "vector_contract C G" and "vector_type oper = Some (ts, t)"
    and "reachable s" and "\<not> is_unreachable C b" and "fs_stack s = xs @ ws" and "list_all2 (holds C G b) ws ts"
  shows "\<exists>w b'. translate_operator V C (O_Vector oper) (s, env, b) = Ok ((), s\<lparr>fs_stack := xs @ [w]\<rparr>, env, b') \<and>
    straight C G b b' \<and> holds C G b' w t"
proof -
  from vector_builder.every_arm [OF vector_builder.intro [OF assms(1,2)], of oper] assms(3,6,7)
  have "puts C G s env b xs t (translate_vector C oper)" by (simp add: vector_builder.types_arm_def [OF vector_builder.intro [OF assms(1,2)]])
  then show ?thesis using assms(4,5) by (simp add: puts_def translate_operator_def translate_reachable_operator_def)
qed

definition two_vectors :: flow where
  "two_vectors = flow_start\<lparr>fl_values := fl_values flow_start @ [IR_F32X4, IR_I8X16]\<rparr>"

theorem vector_operator_typed_witness:
  "\<exists>w b'. translate_operator no_types flow_ops (O_Vector V_I32x4DotI16x8S) (start_state\<lparr>fs_stack := [2, 4, 5]\<rparr>, flow_env, two_vectors) =
       Ok ((), start_state\<lparr>fs_stack := [2, w]\<rparr>, flow_env, b') \<and> holds flow_ops flow_view b' w IR_I8X16"
proof -
  let ?s = "start_state\<lparr>fs_stack := [2, 4, 5]\<rparr>"
  have "vector_type V_I32x4DotI16x8S = Some ([IR_I8X16, IR_I8X16], IR_I8X16)" by (simp add: vector_type_def)
  moreover have "reachable ?s" "fs_stack ?s = [2] @ [4, 5]" by (simp_all add: start_state_def func_state_new_def)
  moreover have "\<not> is_unreachable flow_ops two_vectors" "list_all2 (holds flow_ops flow_view two_vectors) [4, 5] [IR_I8X16, IR_I8X16]"
    by (simp_all add: flow_defs flow_unreachable_def two_vectors_def flow_start_def holds_def flow_type_def)
  ultimately show ?thesis
    using vector_operator_typed [OF flow_contract flow_vectors.vectors, of V_I32x4DotI16x8S _ _ ?s two_vectors "[2]" "[4, 5]" no_types flow_env]
    by fastforce
qed

section \<open>Bodies that are not valid\<close>

text \<open>Operators that take an operand from the stack before they look at anything else.\<close>

definition pops_first :: "Operator \<Rightarrow> bool" where
  "pops_first oper = (case oper of
       O_Drop \<Rightarrow> True | O_If bt \<Rightarrow> True | O_BrIf d \<Rightarrow> True | O_LocalSet x \<Rightarrow> True | O_RefIsNull \<Rightarrow> True | O_RefAsNonNull \<Rightarrow> True
     | O_Load l m \<Rightarrow> True | O_Store st m \<Rightarrow> True | O_Num (IEqz w) \<Rightarrow> True | _ \<Rightarrow> False)"

lemma pops_first_panics:
  assumes "pops_first oper" and "fs_stack s = []"
  shows "translate_reachable_operator V C oper (s, env, b) = Panic ''attempted to pop a value from an empty stack''"
proof -
  have "tr_pop1 (s, env, b) = Panic ''attempted to pop a value from an empty stack''"
    using assms(2) by (simp add: tr_pop1_def tr_state_def pop1_def pop_or_def)
  then show ?thesis
    using assms(1)
    by (cases oper) (auto simp: pops_first_def translate_reachable_operator_def translate_if_def translate_br_if_def translate_ref_as_non_null_def
        translate_op_load_def translate_load_def translate_store_def translate_num_def translate_eqz_def tr_then_def
        split: NumOp.splits prod.split)
qed

text \<open>C35. Every operator is translated before it is validated. A body whose first operator pops an operand, which no
  validator accepts since nothing has been pushed, panics with a message about an empty stack instead of failing
  with a validation error, whatever the validator would have said.
\<close>

theorem invalid_body_panics:
  assumes "pops_first oper" and "fb_operators body = (pos, Ok oper) # rest" and "pos < u32_bound"
    and "length (control_stack s) = 1" and "fs_stack s = []" and "reachable s" and "\<not> is_unreachable C (set_srcloc C pos b)"
  shows "translate_function_body C W body v (s, env, b) = Panic ''attempted to pop a value from an empty stack''"
  using assms tr_srcloc_run [OF assms(3), of C s env b]
  by (simp add: translate_function_body_def tr_read_def tr_state_def tr_then_def tr_of_def translate_operator_def pops_first_panics)

definition strict_validator :: "unit validator_ops" where
  "strict_validator = lax_validator\<lparr>val_op := \<lambda>_ _ _. Err (Unsupported ''type mismatch'')\<rparr>"

theorem invalid_body_panics_witness:
  "val_op strict_validator 0 O_Drop () = Err (Unsupported ''type mismatch'') \<and>
   translate_function_body flow_ops strict_validator (body_of [(0, O_Drop), (1, O_End)]) () (start_state, flow_env, flow_start) =
     Panic ''attempted to pop a value from an empty stack''"
  by (intro conjI, simp add: strict_validator_def,
      rule invalid_body_panics [where oper = O_Drop and pos = 0 and rest = "reads [(1, O_End)]"])
    (use flow_start_ok in \<open>simp_all add: pops_first_def body_of_def reads_def start_state_def func_state_new_def body_start_def flow_ops_def\<close>)

end
