(* ===== verification/Host_Store.thy ===== *)
theory Host_Store
  imports Vm_Instance
begin

text \<open>
  The host API around instances: \<open>src/src/store.rs\<close>, \<open>src/src/instance.rs\<close>, the \<open>Extern\<close> of \<open>src/src/lib.rs\<close> and the
  wrappers of \<open>func.rs\<close>, \<open>table.rs\<close>, \<open>memory.rs\<close> and \<open>global.rs\<close> that turn handles into imports. A \<open>Stored\<close> handle is an
  index into a vector of the store. Exports of an instance are put into the store when they are first asked for,
  and their handles are cached in the instance.
\<close>

section \<open>The store\<close>

record Store =
  st_instances :: "Instance list"
  st_exported_funcs :: "nat list"
  st_exported_tables :: "ExportedTable list"
  st_exported_memories :: "ExportedMemory list"
  st_exported_globals :: "ExportedGlobal list"
  st_wasm_vmval_storage :: "VMVal list"
  st_vmctx2instance :: "nat \<rightharpoonup> nat"

definition store_new :: Store where
  "store_new = \<lparr>st_instances = [], st_exported_funcs = [], st_exported_tables = [], st_exported_memories = [],
     st_exported_globals = [], st_wasm_vmval_storage = [], st_vmctx2instance = Map.empty\<rparr>"

definition take_wasm_vmval_storage :: "Store \<Rightarrow> VMVal list \<times> Store" where
  "take_wasm_vmval_storage st = (st_wasm_vmval_storage st, st\<lparr>st_wasm_vmval_storage := []\<rparr>)"

definition return_wasm_vmval_storage :: "VMVal list \<Rightarrow> Store \<Rightarrow> Store" where
  "return_wasm_vmval_storage storage st = st\<lparr>st_wasm_vmval_storage := storage\<rparr>"

definition get_instance_from_vmctx :: "Store \<Rightarrow> nat \<Rightarrow> nat result" where
  "get_instance_from_vmctx st vmctx = expect (st_vmctx2instance st vmctx) ''no entry found for key''"

definition push_instance :: "Instance \<Rightarrow> Store \<Rightarrow> nat \<times> Store" where
  "push_instance inst st = (let handle = length (st_instances st) in
     (handle, st\<lparr>st_vmctx2instance := (st_vmctx2instance st)(vmctx_as_ptr (in_vmctx inst) \<mapsto> handle),
        st_instances := st_instances st @ [inst]\<rparr>))"

definition push_function :: "nat \<Rightarrow> Store \<Rightarrow> nat \<times> Store" where
  "push_function func st = (length (st_exported_funcs st), st\<lparr>st_exported_funcs := st_exported_funcs st @ [func]\<rparr>)"

definition push_table :: "ExportedTable \<Rightarrow> Store \<Rightarrow> nat \<times> Store" where
  "push_table table st = (length (st_exported_tables st), st\<lparr>st_exported_tables := st_exported_tables st @ [table]\<rparr>)"

definition push_memory :: "ExportedMemory \<Rightarrow> Store \<Rightarrow> nat \<times> Store" where
  "push_memory memory st = (length (st_exported_memories st), st\<lparr>st_exported_memories := st_exported_memories st @ [memory]\<rparr>)"

definition push_global :: "ExportedGlobal \<Rightarrow> Store \<Rightarrow> nat \<times> Store" where
  "push_global global st = (length (st_exported_globals st), st\<lparr>st_exported_globals := st_exported_globals st @ [global]\<rparr>)"

text \<open>The accessors of \<open>stored_impls!\<close>: \<open>has\<close>, \<open>get\<close> and \<open>Index::index\<close> for a vector of the store.\<close>

definition stored_has :: "(Store \<Rightarrow> 'a list) \<Rightarrow> Store \<Rightarrow> nat \<Rightarrow> bool" where
  "stored_has field st index \<longleftrightarrow> pm_get (field st) index \<noteq> None"

definition stored_get :: "(Store \<Rightarrow> 'a list) \<Rightarrow> Store \<Rightarrow> nat \<Rightarrow> 'a option" where
  "stored_get field st index = pm_get (field st) index"

definition stored_index :: "(Store \<Rightarrow> 'a list) \<Rightarrow> Store \<Rightarrow> nat \<Rightarrow> 'a result" where
  "stored_index field st index = expect (stored_get field st index) ''called `Option::unwrap()` on a `None` value''"

section \<open>External values\<close>

definition extern_from_export :: "Export \<Rightarrow> Store \<Rightarrow> Extern \<times> Store" where
  "extern_from_export export st = (case export of
       Export_Function e \<Rightarrow> map_prod Extern_Func id (push_function e st)
     | Export_Table e \<Rightarrow> map_prod Extern_Table id (push_table e st)
     | Export_Memory e \<Rightarrow> map_prod Extern_Memory id (push_memory e st)
     | Export_Global e \<Rightarrow> map_prod Extern_Global id (push_global e st))"

fun into_func :: "Extern \<Rightarrow> nat option" where
  "into_func (Extern_Func h) = Some h" | "into_func _ = None"

fun into_table :: "Extern \<Rightarrow> nat option" where
  "into_table (Extern_Table h) = Some h" | "into_table _ = None"

fun into_memory :: "Extern \<Rightarrow> nat option" where
  "into_memory (Extern_Memory h) = Some h" | "into_memory _ = None"

fun into_global :: "Extern \<Rightarrow> nat option" where
  "into_global (Extern_Global h) = Some h" | "into_global _ = None"

text \<open>
  \<open>func_ref.as_ref()\<close>: the address lies in the context of some instance of the store.
\<close>

definition func_ref_at :: "nat \<Rightarrow> Instance \<Rightarrow> VMFuncRefValue option" where
  "func_ref_at a inst = (let base = vmctx_as_ptr (in_vmctx inst) in
     if a < base then None
     else case ctx_cells (in_vmctx inst) (a - base) of Some (FuncRefCell v) \<Rightarrow> Some v | _ \<Rightarrow> None)"

fun first_some :: "('a \<Rightarrow> 'b option) \<Rightarrow> 'a list \<Rightarrow> 'b option" where
  "first_some f [] = None"
| "first_some f (x # xs) = (case f x of Some y \<Rightarrow> Some y | None \<Rightarrow> first_some f xs)"

definition deref_func_ref :: "Store \<Rightarrow> nat \<Rightarrow> VMFuncRefValue result" where
  "deref_func_ref st a = expect (first_some (func_ref_at a) (st_instances st)) ''read of an uninitialised field''"

definition as_vmfunction_import :: "Store \<Rightarrow> nat \<Rightarrow> VMFunctionImportValue result" where
  "as_vmfunction_import st f =
     and_then (stored_index st_exported_funcs st f)
     (\<lambda>a. and_then (deref_func_ref st a)
     (\<lambda>r. Ok \<lparr>fi_wasm_call = fr_wasm_call r, fi_array_call = fr_array_call r, fi_vmctx = fr_vmctx r\<rparr>))"

definition as_vmtable_import :: "Store \<Rightarrow> nat \<Rightarrow> VMImportValue result" where
  "as_vmtable_import st t = map_ok (\<lambda>e. \<lparr>im_from = et_definition e, im_vmctx = et_vmctx e\<rparr>) (stored_index st_exported_tables st t)"

definition as_vmmemory_import :: "Store \<Rightarrow> nat \<Rightarrow> VMImportValue result" where
  "as_vmmemory_import st m = map_ok (\<lambda>e. \<lparr>im_from = em_definition e, im_vmctx = em_vmctx e\<rparr>) (stored_index st_exported_memories st m)"

definition as_vmglobal_import :: "Store \<Rightarrow> nat \<Rightarrow> VMImportValue result" where
  "as_vmglobal_import st g = map_ok (\<lambda>e. \<lparr>im_from = eg_definition e, im_vmctx = eg_vmctx e\<rparr>) (stored_index st_exported_globals st g)"

section \<open>Instances\<close>

definition host_instance_new ::
  "'k os_ops \<Rightarrow> 'k allocator_ops \<Rightarrow> host_addresses \<Rightarrow> Module \<Rightarrow> Imports \<Rightarrow> VMVal list \<Rightarrow> Store \<Rightarrow> ((nat \<times> Store) \<times> VMVal list, 'k) io" where
  "host_instance_new S A H m imports stack st =
     io_then (instance_new_unchecked S A H m imports stack)
     (\<lambda>(inst, stack'). io_pure (Ok (push_instance inst st, stack')))"

definition host_instance_module :: "Store \<Rightarrow> nat \<Rightarrow> Module result" where
  "host_instance_module st self = map_ok in_module (stored_index st_instances st self)"

text \<open>\<open>data.exports[i] = Some(item)\<close>.\<close>

definition cache_export :: "nat \<Rightarrow> nat \<Rightarrow> Extern \<Rightarrow> Store \<Rightarrow> Store result" where
  "cache_export self i item st =
     and_then (stored_index st_instances st self)
     (\<lambda>data. and_then (assert_that (i < length (in_exports data)) ''index out of bounds'')
     (\<lambda>_. Ok (st\<lparr>st_instances := (st_instances st)[self := data\<lparr>in_exports := (in_exports data)[i := Some item]\<rparr>]\<rparr>)))"

definition get_export_inner :: "nat \<Rightarrow> EntityIndex \<Rightarrow> nat \<Rightarrow> Store \<Rightarrow> (Extern \<times> Store) result" where
  "get_export_inner self entity export_name_index st =
     and_then (stored_index st_instances st self)
     (\<lambda>data. and_then (pm_index (in_exports data) export_name_index)
     (\<lambda>cached. case cached of
         Some export \<Rightarrow> Ok (export, st)
       | None \<Rightarrow>
           and_then (get_export_by_index data entity)
           (\<lambda>export. case extern_from_export export st of (item, st1) \<Rightarrow>
              and_then (cache_export self export_name_index item st1) (\<lambda>st2. Ok (item, st2)))))"

text \<open>\<open>IndexMap::get_full\<close>.\<close>

fun get_full :: "('n \<times> 'v) list \<Rightarrow> 'n \<Rightarrow> (nat \<times> 'v) option" where
  "get_full [] name = None"
| "get_full ((n, v) # rest) name = (if n = name then Some (0, v) else map_option (map_prod Suc id) (get_full rest name))"

definition exports_of :: "Instance \<Rightarrow> (string \<times> EntityIndex) list" where
  "exports_of inst = mod_exports (m_translated (in_module inst))"

definition get_export :: "nat \<Rightarrow> string \<Rightarrow> Store \<Rightarrow> (Extern option \<times> Store) result" where
  "get_export self name st =
     and_then (stored_index st_instances st self)
     (\<lambda>inst. case get_full (exports_of inst) name of
         None \<Rightarrow> Ok (None, st)
       | Some (export_name_index, index) \<Rightarrow>
           map_ok (\<lambda>(e, st'). (Some e, st')) (get_export_inner self index export_name_index st))"

definition get_typed :: "(Extern \<Rightarrow> nat option) \<Rightarrow> nat \<Rightarrow> string \<Rightarrow> Store \<Rightarrow> (nat option \<times> Store) result" where
  "get_typed into self name st = map_ok (\<lambda>(e, st'). (Option.bind e into, st')) (get_export self name st)"

text \<open>The lazily filled exports of an instance.\<close>

definition fill_export :: "nat \<Rightarrow> (string \<times> EntityIndex) list \<Rightarrow> Store \<Rightarrow> string \<Rightarrow> Store result" where
  "fill_export self exports st name = (case get_full exports name of
       Some (export_name_index, entity) \<Rightarrow> map_ok snd (get_export_inner self entity export_name_index st)
     | None \<Rightarrow> Ok st)"

definition export_entry :: "(string \<times> EntityIndex) \<times> Extern option \<Rightarrow> (string \<times> Extern) result" where
  "export_entry = (\<lambda>((name, _), export). map_ok (\<lambda>e. (name, e)) (expect export ''called `Option::unwrap()` on a `None` value''))"

definition host_exports :: "nat \<Rightarrow> Store \<Rightarrow> ((string \<times> Extern) list \<times> Store) result" where
  "host_exports self st =
     and_then (stored_index st_instances st self)
     (\<lambda>inst. and_then (if list_ex (\<lambda>e. e = None) (in_exports inst)
          then for_each (fill_export self (exports_of inst)) st (map fst (exports_of inst)) else Ok st)
     (\<lambda>st'. and_then (stored_index st_instances st' self)
     (\<lambda>inst'. and_then (collect export_entry (zip (exports_of inst') (in_exports inst')))
     (\<lambda>es. Ok (es, st')))))"

section \<open>The invariant\<close>

text \<open>What a handle stands for.\<close>

definition extern_value :: "Store \<Rightarrow> Extern \<Rightarrow> Export option" where
  "extern_value st e = (case e of
       Extern_Func h \<Rightarrow> map_option Export_Function (stored_get st_exported_funcs st h)
     | Extern_Table h \<Rightarrow> map_option Export_Table (stored_get st_exported_tables st h)
     | Extern_Memory h \<Rightarrow> map_option Export_Memory (stored_get st_exported_memories st h)
     | Extern_Global h \<Rightarrow> map_option Export_Global (stored_get st_exported_globals st h))"

text \<open>The cached exports of an instance stand for the entities that the module exports.\<close>

definition exports_cached :: "Store \<Rightarrow> Instance \<Rightarrow> bool" where
  "exports_cached st inst \<longleftrightarrow> length (in_exports inst) = length (exports_of inst) \<and>
     (\<forall>j e. pm_get (in_exports inst) j = Some (Some e) \<longrightarrow>
        (\<exists>x. extern_value st e = Some x \<and> get_export_by_index inst (snd (exports_of inst ! j)) = Ok x))"

text \<open>The map from contexts to instances is the inverse of reading the context of an instance.\<close>

definition contexts_known :: "Store \<Rightarrow> bool" where
  "contexts_known st \<longleftrightarrow> (\<forall>p i. st_vmctx2instance st p = Some i \<longleftrightarrow>
     (\<exists>inst. pm_get (st_instances st) i = Some inst \<and> vmctx_as_ptr (in_vmctx inst) = p))"

definition store_inv :: "Store \<Rightarrow> bool" where
  "store_inv st \<longleftrightarrow> contexts_known st \<and> (\<forall>inst \<in> set (st_instances st). exports_cached st inst)"

text \<open>A later store: every handle still stands for the same thing, and instances differ only in what is cached.\<close>

definition same_instance :: "Instance \<Rightarrow> Instance \<Rightarrow> bool" where
  "same_instance inst inst' \<longleftrightarrow> in_module inst' = in_module inst \<and> in_vmctx inst' = in_vmctx inst \<and>
     in_tables inst' = in_tables inst \<and> in_memories inst' = in_memories inst"

definition store_extends :: "Store \<Rightarrow> Store \<Rightarrow> bool" where
  "store_extends st st' \<longleftrightarrow>
     (\<forall>e x. extern_value st e = Some x \<longrightarrow> extern_value st' e = Some x) \<and>
     (\<forall>i inst. pm_get (st_instances st) i = Some inst \<longrightarrow> (\<exists>inst'. pm_get (st_instances st') i = Some inst' \<and> same_instance inst inst'))"

lemma store_extends_refl [simp]: "store_extends st st"
  by (auto simp: store_extends_def same_instance_def)

lemma same_instance_trans: "same_instance a b \<Longrightarrow> same_instance b c \<Longrightarrow> same_instance a c"
  by (simp add: same_instance_def)

lemma store_extends_trans: "store_extends st st' \<Longrightarrow> store_extends st' st'' \<Longrightarrow> store_extends st st''"
  unfolding store_extends_def
proof (intro conjI allI impI; elim conjE)
  fix i inst
  assume a: "\<forall>i inst. pm_get (st_instances st) i = Some inst \<longrightarrow> (\<exists>inst'. pm_get (st_instances st') i = Some inst' \<and> same_instance inst inst')"
    and b: "\<forall>i inst. pm_get (st_instances st') i = Some inst \<longrightarrow> (\<exists>inst'. pm_get (st_instances st'') i = Some inst' \<and> same_instance inst inst')"
    and "pm_get (st_instances st) i = Some inst"
  with a obtain j where "pm_get (st_instances st') i = Some j" "same_instance inst j" by blast
  moreover with b obtain k where "pm_get (st_instances st'') i = Some k" "same_instance j k" by blast
  ultimately show "\<exists>inst'. pm_get (st_instances st'') i = Some inst' \<and> same_instance inst inst'" using same_instance_trans by blast
qed blast

section \<open>Vectors of the store\<close>

text \<open>What the four vectors of exported entities have in common.\<close>

locale stored_vector =
  fixes field :: "Store \<Rightarrow> 'a list" and push :: "'a \<Rightarrow> Store \<Rightarrow> nat \<times> Store"
  assumes push_handle: "fst (push x st) = length (field st)"
    and push_field: "field (snd (push x st)) = field st @ [x]"
begin

lemma push_get: "stored_get field (snd (push x st)) (fst (push x st)) = Some x"
  by (simp add: stored_get_def push_handle push_field pm_get_def)

lemma push_keeps: "stored_get field st h = Some y \<Longrightarrow> stored_get field (snd (push x st)) h = Some y"
  by (auto simp: stored_get_def push_field pm_get_def nth_append split: if_splits)

lemma push_has: "stored_has field (snd (push x st)) (fst (push x st))"
  using push_get [of x st] by (simp add: stored_has_def stored_get_def)

lemma index_of_pushed: "stored_index field (snd (push x st)) (fst (push x st)) = Ok x"
  by (simp add: stored_index_def push_get)

end

interpretation functions_of: stored_vector st_exported_funcs push_function
  by unfold_locales (simp_all add: push_function_def)

interpretation tables_of: stored_vector st_exported_tables push_table
  by unfold_locales (simp_all add: push_table_def)

interpretation memories_of: stored_vector st_exported_memories push_memory
  by unfold_locales (simp_all add: push_memory_def)

interpretation globals_of: stored_vector st_exported_globals push_global
  by unfold_locales (simp_all add: push_global_def)

interpretation instances_of: stored_vector st_instances push_instance
  by unfold_locales (simp_all add: push_instance_def Let_def)

text \<open>Turning an export into a handle.\<close>

lemma push_other [simp]:
  "st_instances (snd (push_function f st)) = st_instances st" "st_instances (snd (push_table t st)) = st_instances st"
  "st_instances (snd (push_memory m st)) = st_instances st" "st_instances (snd (push_global g st)) = st_instances st"
  "st_vmctx2instance (snd (push_function f st)) = st_vmctx2instance st" "st_vmctx2instance (snd (push_table t st)) = st_vmctx2instance st"
  "st_vmctx2instance (snd (push_memory m st)) = st_vmctx2instance st" "st_vmctx2instance (snd (push_global g st)) = st_vmctx2instance st"
  by (simp_all add: push_function_def push_table_def push_memory_def push_global_def)

lemma from_export_value: "extern_value (snd (extern_from_export x st)) (fst (extern_from_export x st)) = Some x"
  by (cases x) (simp_all add: extern_from_export_def extern_value_def functions_of.push_get tables_of.push_get
      memories_of.push_get globals_of.push_get)

lemma from_export_frame [simp]:
  "st_instances (snd (extern_from_export x st)) = st_instances st"
  "st_vmctx2instance (snd (extern_from_export x st)) = st_vmctx2instance st"
  by (cases x; simp add: extern_from_export_def)+

lemma from_export_keeps: "extern_value st e = Some y \<Longrightarrow> extern_value (snd (extern_from_export x st)) e = Some y"
  by (cases x; cases e; auto simp: extern_from_export_def extern_value_def functions_of.push_keeps tables_of.push_keeps
      memories_of.push_keeps globals_of.push_keeps)
     (auto simp: stored_get_def push_function_def push_table_def push_memory_def push_global_def)

lemma from_export_extends: "store_extends st (snd (extern_from_export x st))"
  by (auto simp: store_extends_def from_export_keeps same_instance_def)

section \<open>Exports of an instance\<close>

text \<open>What an instance exports does not depend on what is cached.\<close>

lemma exported_cong:
  assumes "same_instance inst inst'"
  shows "get_export_by_index inst' = get_export_by_index inst" "exports_of inst' = exports_of inst"
proof -
  from assms have m: "in_module inst' = in_module inst" and c: "in_vmctx inst' = in_vmctx inst" by (simp_all add: same_instance_def)
  have f: "get_func_ref inst' = get_func_ref inst" by (rule ext) (simp add: get_func_ref_def m c)
  have ptr: "table_ptr inst' = table_ptr inst" "memory_ptr inst' = memory_ptr inst" "global_ptr inst' = global_ptr inst"
    by (simp_all add: fun_eq_iff table_ptr_def memory_ptr_def global_ptr_def m c)
  have imp: "imported_table inst' = imported_table inst" "imported_memory inst' = imported_memory inst" "imported_global inst' = imported_global inst"
    by (simp_all add: fun_eq_iff imported_table_def imported_memory_def imported_global_def m c)
  have e: "entity_pointers inst' = entity_pointers inst" by (simp add: fun_eq_iff entity_pointers_def c split: option.split)
  show "get_export_by_index inst' = get_export_by_index inst"
    by (simp add: fun_eq_iff get_export_by_index_def get_exported_func_def get_exported_table_def get_exported_memory_def
        get_exported_global_def f ptr imp e m split: EntityIndex.splits)
  show "exports_of inst' = exports_of inst" by (simp add: exports_of_def m)
qed

lemma cached_later:
  assumes "exports_cached st inst" and "\<And>e x. extern_value st e = Some x \<Longrightarrow> extern_value st' e = Some x"
  shows "exports_cached st' inst"
  using assms unfolding exports_cached_def by metis

text \<open>The store after a handle has been cached.\<close>

definition with_cached :: "nat \<Rightarrow> nat \<Rightarrow> Extern \<Rightarrow> Instance \<Rightarrow> Store \<Rightarrow> Store" where
  "with_cached h j e inst st = st\<lparr>st_instances := (st_instances st)[h := inst\<lparr>in_exports := (in_exports inst)[j := Some e]\<rparr>]\<rparr>"

lemma with_cached_instances:
  "st_instances (with_cached h j e inst st) = (st_instances st)[h := inst\<lparr>in_exports := (in_exports inst)[j := Some e]\<rparr>]"
  by (simp add: with_cached_def)

lemma with_cached_value [simp]: "extern_value (with_cached h j e inst st) = extern_value st"
  by (simp add: fun_eq_iff extern_value_def with_cached_def stored_get_def split: Extern.splits)

lemma with_cached_extends: "pm_get (st_instances st) h = Some inst \<Longrightarrow> store_extends st (with_cached h j e inst st)"
  unfolding store_extends_def with_cached_value
  by (auto simp: same_instance_def with_cached_def pm_get_def nth_list_update split: if_splits)

lemma with_cached_inv:
  assumes "store_inv st" and h: "pm_get (st_instances st) h = Some inst" and j: "j < length (exports_of inst)"
    and e: "extern_value st e = Some x" "get_export_by_index inst (snd (exports_of inst ! j)) = Ok x"
  shows "store_inv (with_cached h j e inst st)"
proof -
  let ?new = "inst\<lparr>in_exports := (in_exports inst)[j := Some e]\<rparr>"
  have same: "same_instance inst ?new" by (simp add: same_instance_def)
  have inst: "inst \<in> set (st_instances st)" using h by (auto simp: pm_get_def split: if_splits)
  with assms(1) have old: "exports_cached st inst" by (simp add: store_inv_def)
  then have new: "exports_cached st ?new"
    using e j exported_cong [OF same] unfolding exports_cached_def
    by (auto simp: pm_get_def nth_list_update split: if_splits)
  have "contexts_known (with_cached h j e inst st)"
    using assms(1) h by (auto simp: store_inv_def contexts_known_def with_cached_def pm_get_def nth_list_update split: if_splits)
  moreover have "exports_cached (with_cached h j e inst st) i" if "i \<in> set (st_instances (with_cached h j e inst st))" for i
  proof -
    from that have "i \<in> insert ?new (set (st_instances st))" using set_update_subset_insert by (fastforce simp: with_cached_def)
    with new assms(1) have "exports_cached st i" by (auto simp: store_inv_def)
    then show ?thesis by (rule cached_later) simp
  qed
  ultimately show ?thesis by (simp add: store_inv_def)
qed

lemma from_export_inv: "store_inv st \<Longrightarrow> store_inv (snd (extern_from_export x st))"
  unfolding store_inv_def contexts_known_def using cached_later [OF _ from_export_keeps] by fastforce

text \<open>An export that is asked for is in the store afterwards, and its handle is cached.\<close>

lemma get_export_inner_ok:
  assumes inv: "store_inv st" and h: "pm_get (st_instances st) h = Some inst" and j: "j < length (exports_of inst)"
    and run: "get_export_inner h (snd (exports_of inst ! j)) j st = Ok (e, st')"
  obtains inst' x where "store_inv st'" "store_extends st st'" "pm_get (st_instances st') h = Some inst'" "same_instance inst inst'"
    "pm_get (in_exports inst') j = Some (Some e)" "extern_value st' e = Some x" "get_export_by_index inst (snd (exports_of inst ! j)) = Ok x"
    "\<forall>k \<noteq> j. pm_get (in_exports inst') k = pm_get (in_exports inst) k" "length (in_exports inst') = length (in_exports inst)"
proof (cases "in_exports inst ! j")
  case (Some f)
  have len: "length (in_exports inst) = length (exports_of inst)" and cached: "exports_cached st inst"
    using inv h by (auto simp: store_inv_def exports_cached_def pm_get_def split: if_splits)
  with Some j have cache: "pm_get (in_exports inst) j = Some (Some f)" by (simp add: pm_get_def)
  with run h have "e = f" "st' = st" by (simp_all add: get_export_inner_def stored_index_def stored_get_def pm_index_def)
  moreover obtain x where "extern_value st f = Some x" "get_export_by_index inst (snd (exports_of inst ! j)) = Ok x"
    using cached cache unfolding exports_cached_def by blast
  ultimately show thesis using that [of inst x] inv h cache by (simp add: same_instance_def)
next
  case None
  have len: "length (in_exports inst) = length (exports_of inst)"
    using inv h by (auto simp: store_inv_def exports_cached_def pm_get_def split: if_splits)
  with None j h run obtain x where x: "get_export_by_index inst (snd (exports_of inst ! j)) = Ok x"
    and r: "and_then (cache_export h j (fst (extern_from_export x st)) (snd (extern_from_export x st)))
      (\<lambda>st2. Ok (fst (extern_from_export x st), st2)) = Ok (e, st')"
    by (auto simp: get_export_inner_def stored_index_def stored_get_def pm_index_def case_prod_unfold pm_get_def)
  define st1 where "st1 = snd (extern_from_export x st)"
  have h1: "pm_get (st_instances st1) h = Some inst" using h by (simp add: st1_def)
  from r h1 j len have e: "e = fst (extern_from_export x st)" and st': "st' = with_cached h j e inst st1"
    by (auto simp: cache_export_def stored_index_def stored_get_def with_cached_def st1_def [symmetric])
  have v: "extern_value st1 e = Some x" unfolding e st1_def by (rule from_export_value)
  have ext: "store_extends st st'" unfolding st' using from_export_extends with_cached_extends [OF h1] unfolding st1_def by (rule store_extends_trans)
  have "store_inv st'" unfolding st' by (rule with_cached_inv [OF _ h1 j v x]) (unfold st1_def, rule from_export_inv [OF inv])
  from this ext show thesis
    by (rule that [of "inst\<lparr>in_exports := (in_exports inst)[j := Some e]\<rparr>" x])
      (use h1 j len v x in \<open>auto simp: st' with_cached_instances pm_get_def same_instance_def split: if_splits\<close>)
qed

lemma get_full_nth: "get_full xs name = Some (j, v) \<Longrightarrow> j < length xs \<and> xs ! j = (name, v)"
  by (induction xs name arbitrary: j rule: get_full.induct) (auto split: if_splits)

lemma get_full_None: "get_full xs name = None \<longleftrightarrow> name \<notin> fst ` set xs"
  by (induction xs name rule: get_full.induct) auto

lemma get_full_distinct: "distinct (map fst xs) \<Longrightarrow> j < length xs \<Longrightarrow> get_full xs (fst (xs ! j)) = Some (j, snd (xs ! j))"
proof (induction xs arbitrary: j)
  case (Cons p xs)
  obtain n v where p: "p = (n, v)" by (cases p)
  show ?case
  proof (cases j)
    case (Suc i)
    with Cons.prems have i: "i < length xs" by simp
    then have "fst (xs ! i) \<in> set (map fst xs)" by simp
    with Cons.prems(1) have "n \<noteq> fst (xs ! i)" by (auto simp: p)
    with Cons.IH [OF _ i] Cons.prems(1) show ?thesis by (simp add: Suc p)
  qed (simp add: p)
qed simp

text \<open>Asking again for a cached export.\<close>

lemma get_export_inner_again:
  "pm_get (st_instances st) h = Some inst \<Longrightarrow> pm_get (in_exports inst) j = Some (Some e) \<Longrightarrow> get_export_inner h entity j st = Ok (e, st)"
  by (simp add: get_export_inner_def stored_index_def stored_get_def pm_index_def)

text \<open>Storing an instance whose context is not in the store yet.\<close>

lemma push_instance_inv:
  assumes "store_inv st" and "st_vmctx2instance st (vmctx_as_ptr (in_vmctx inst)) = None"
    and "in_exports inst = replicate (length (exports_of inst)) None"
  shows "store_inv (snd (push_instance inst st))" "store_extends st (snd (push_instance inst st))"
proof -
  let ?st = "snd (push_instance inst st)"
  have st: "st_instances ?st = st_instances st @ [inst]"
    "st_vmctx2instance ?st = (st_vmctx2instance st)(vmctx_as_ptr (in_vmctx inst) \<mapsto> length (st_instances st))"
    by (simp_all add: push_instance_def Let_def)
  have v: "extern_value ?st = extern_value st"
    by (simp add: fun_eq_iff push_instance_def Let_def extern_value_def stored_get_def split: Extern.split)
  have new: "exports_cached ?st inst" using assms(3) by (auto simp: exports_cached_def pm_get_def split: if_splits)
  have old: "exports_cached ?st i" if "i \<in> set (st_instances st)" for i
    using assms(1) that v by (auto simp: store_inv_def intro: cached_later)
  have fresh: "vmctx_as_ptr (in_vmctx (st_instances st ! i)) \<noteq> vmctx_as_ptr (in_vmctx inst)" if "i < length (st_instances st)" for i
  proof
    assume "vmctx_as_ptr (in_vmctx (st_instances st ! i)) = vmctx_as_ptr (in_vmctx inst)"
    with that assms(1) have "st_vmctx2instance st (vmctx_as_ptr (in_vmctx inst)) = Some i"
      by (simp add: store_inv_def contexts_known_def pm_get_def)
    with assms(2) show False by simp
  qed
  have "contexts_known ?st"
    using assms(1,2) fresh unfolding store_inv_def contexts_known_def st by (auto simp: pm_get_def nth_append less_Suc_eq split: if_splits)
  with new old show "store_inv ?st" by (auto simp: store_inv_def st)
  show "store_extends st ?st" unfolding store_extends_def v st by (auto simp: pm_get_def nth_append same_instance_def split: if_splits)
qed

text \<open>Filling in the exports one after the other.\<close>

lemma fill_exports:
  assumes "distinct (map fst (exports_of inst))"
  shows "store_inv st \<Longrightarrow> pm_get (st_instances st) h = Some inst' \<Longrightarrow> same_instance inst inst' \<Longrightarrow> exports_of inst = xs @ ys \<Longrightarrow>
    (\<forall>i < length xs. in_exports inst' ! i \<noteq> None) \<Longrightarrow> for_each (fill_export h (exports_of inst)) st (map fst ys) = Ok st' \<Longrightarrow>
    store_inv st' \<and> store_extends st st' \<and>
    (\<exists>inst''. pm_get (st_instances st') h = Some inst'' \<and> same_instance inst inst'' \<and> None \<notin> set (in_exports inst''))"
proof (induction ys arbitrary: xs st inst')
  case Nil
  then have "length (in_exports inst') = length xs" using exported_cong(2) [OF Nil.prems(3)]
    by (auto simp: store_inv_def exports_cached_def pm_get_def split: if_splits)
  with Nil.prems show ?case by (auto simp: in_set_conv_nth)
next
  case (Cons y ys)
  have e': "exports_of inst' = exports_of inst" using exported_cong(2) [OF Cons.prems(3)] .
  have y: "length xs < length (exports_of inst')" "exports_of inst' ! length xs = y" by (simp_all add: e' Cons.prems(4))
  have full: "get_full (exports_of inst) (fst y) = Some (length xs, snd y)"
    using get_full_distinct [OF assms, of "length xs"] y by (simp add: e')
  from Cons.prems(6) obtain st1 where step: "fill_export h (exports_of inst) st (fst y) = Ok st1"
    and rest: "for_each (fill_export h (exports_of inst)) st1 (map fst ys) = Ok st'" by auto
  from step full obtain e where run: "get_export_inner h (snd (exports_of inst' ! length xs)) (length xs) st = Ok (e, st1)"
    by (auto simp: fill_export_def y(2))
  from get_export_inner_ok [OF Cons.prems(1,2) y(1) run] obtain inst1 where
    I: "store_inv st1" "store_extends st st1" "pm_get (st_instances st1) h = Some inst1" "same_instance inst' inst1"
      "pm_get (in_exports inst1) (length xs) = Some (Some e)" "\<forall>k \<noteq> length xs. pm_get (in_exports inst1) k = pm_get (in_exports inst') k"
      "length (in_exports inst1) = length (in_exports inst')" by metis
  have "in_exports inst1 ! i \<noteq> None" if "i < length (xs @ [y])" for i
  proof (cases "i = length xs")
    case False
    with that have i: "i < length xs" by simp
    have "i < length (in_exports inst1)" using I(5) i by (auto simp: pm_get_def split: if_splits)
    with I(6,7) False have "in_exports inst1 ! i = in_exports inst' ! i" by (auto simp: pm_get_def)
    with Cons.prems(5) i show ?thesis by simp
  qed (use I(5) in \<open>auto simp: pm_get_def split: if_splits\<close>)
  with Cons.IH [OF I(1,3) same_instance_trans [OF Cons.prems(3) I(4)], of "xs @ [y]"] rest Cons.prems(4) store_extends_trans [OF I(2)]
  show ?case by auto
qed

lemma collect_all2: "collect f xs = Ok ys \<Longrightarrow> list_all2 (\<lambda>x y. f x = Ok y) xs ys"
  by (induction xs arbitrary: ys) auto

text \<open>The exports of an instance, in the order of the module.\<close>

lemma host_exports_ok:
  assumes "store_inv st" and inst: "pm_get (st_instances st) h = Some inst" and d: "distinct (map fst (exports_of inst))"
    and run: "host_exports h st = Ok (es, st')"
  shows "store_inv st' \<and> store_extends st st' \<and>
    list_all2 (\<lambda>(name, entity) (name', e). name' = name \<and> (\<exists>x. get_export_by_index inst entity = Ok x \<and> extern_value st' e = Some x))
      (exports_of inst) es"
proof -
  from run inst obtain inst' where
    fill: "(if list_ex (\<lambda>e. e = None) (in_exports inst) then for_each (fill_export h (exports_of inst)) st (map fst (exports_of inst)) else Ok st) = Ok st'"
    and inst': "pm_get (st_instances st') h = Some inst'"
    and es: "collect export_entry (zip (exports_of inst') (in_exports inst')) = Ok es"
    by (auto simp: host_exports_def stored_index_def stored_get_def)
  have "store_inv st' \<and> store_extends st st' \<and> same_instance inst inst'"
  proof (cases "list_ex (\<lambda>e. e = None) (in_exports inst)")
    case True
    with fill have "for_each (fill_export h (exports_of inst)) st (map fst (exports_of inst)) = Ok st'" by simp
    with fill_exports [OF d assms(1) inst, of "[]" "exports_of inst" st'] inst' show ?thesis by (auto simp: same_instance_def)
  qed (use fill inst inst' assms(1) in \<open>simp add: same_instance_def\<close>)
  then have I: "store_inv st'" "store_extends st st'" "same_instance inst inst'" by auto
  have c: "exports_cached st' inst'" using I(1) inst' by (auto simp: store_inv_def pm_get_def split: if_splits)
  then have len: "length (in_exports inst') = length (exports_of inst')" by (simp add: exports_cached_def)
  have e: "exports_of inst' = exports_of inst" "get_export_by_index inst' = get_export_by_index inst" using exported_cong [OF I(3)] by auto
  from collect_all2 [OF es] have "list_all2 (\<lambda>(p, export) r. export = Some (snd r) \<and> fst r = fst p) (zip (exports_of inst') (in_exports inst')) es"
    by (rule list_all2_mono) (auto simp: export_entry_def)
  then have n: "length es = length (exports_of inst)" "\<forall>j < length es. in_exports inst' ! j = Some (snd (es ! j)) \<and> fst (es ! j) = fst (exports_of inst ! j)"
    using len by (auto simp: list_all2_conv_all_nth e)
  have "fst (es ! j) = fst (exports_of inst ! j) \<and> (\<exists>x. get_export_by_index inst (snd (exports_of inst ! j)) = Ok x \<and> extern_value st' (snd (es ! j)) = Some x)"
    if "j < length (exports_of inst)" for j
  proof -
    have "pm_get (in_exports inst') j = Some (Some (snd (es ! j)))" using n that len by (simp add: pm_get_def e)
    with c obtain x where "extern_value st' (snd (es ! j)) = Some x" "get_export_by_index inst (snd (exports_of inst ! j)) = Ok x"
      unfolding exports_cached_def e by blast
    with n that show ?thesis by auto
  qed
  with I(1,2) n(1) show ?thesis by (auto simp: list_all2_conv_all_nth case_prod_unfold)
qed

text \<open>Nothing panics when every exported entity can be read.\<close>

lemma get_export_inner_total:
  assumes inv: "store_inv st" and h: "pm_get (st_instances st) h = Some inst" and j: "j < length (exports_of inst)"
    and x: "get_export_by_index inst (snd (exports_of inst ! j)) = Ok x"
  shows "\<exists>e st'. get_export_inner h (snd (exports_of inst ! j)) j st = Ok (e, st')"
proof -
  have len: "length (in_exports inst) = length (exports_of inst)"
    using inv h by (auto simp: store_inv_def exports_cached_def pm_get_def split: if_splits)
  have "pm_get (st_instances (snd (extern_from_export x st))) h = Some inst" using h by simp
  then show ?thesis
    using h j len x by (cases "in_exports inst ! j")
      (auto simp: get_export_inner_def stored_index_def stored_get_def pm_index_Ok cache_export_def case_prod_unfold)
qed

lemma host_exports_total:
  assumes inv: "store_inv st" and inst: "pm_get (st_instances st) h = Some inst" and d: "distinct (map fst (exports_of inst))"
    and x: "\<forall>p \<in> set (exports_of inst). is_ok (get_export_by_index inst (snd p))"
  shows "\<exists>es st'. host_exports h st = Ok (es, st')"
proof -
  let ?P = "\<lambda>st. store_inv st \<and> (\<exists>inst'. pm_get (st_instances st) h = Some inst' \<and> same_instance inst inst')"
  have "\<exists>st'. for_each (fill_export h (exports_of inst)) st (map fst (exports_of inst)) = Ok st' \<and> ?P st'"
  proof (rule for_each_total [of ?P])
    show "?P st" using inv inst by (auto simp: same_instance_def)
    fix s name assume "name \<in> set (map fst (exports_of inst))" and "?P s"
    then obtain i j where i: "pm_get (st_instances s) h = Some i" "same_instance inst i" "store_inv s"
      and j: "j < length (exports_of inst)" "name = fst (exports_of inst ! j)" by (auto simp: in_set_conv_nth)
    note e = exported_cong [OF i(2)]
    have "exports_of inst ! j \<in> set (exports_of inst)" using j(1) by simp
    with x obtain y where "get_export_by_index i (snd (exports_of i ! j)) = Ok y" unfolding e is_ok_iff by blast
    from get_export_inner_total [OF i(3,1) _ this] j(1) obtain c s' where c: "get_export_inner h (snd (exports_of i ! j)) j s = Ok (c, s')"
      unfolding e by blast
    from get_export_inner_ok [OF i(3,1) _ c] j(1) obtain i' where "store_inv s'" "pm_get (st_instances s') h = Some i'" "same_instance i i'"
      by (auto simp: e)
    with c get_full_distinct [OF d j(1)] same_instance_trans [OF i(2)] show "\<exists>s'. fill_export h (exports_of inst) s name = Ok s' \<and> ?P s'"
      by (auto simp: fill_export_def j(2) e)
  qed
  then obtain st1 where fill: "for_each (fill_export h (exports_of inst)) st (map fst (exports_of inst)) = Ok st1" by blast
  have all: "\<exists>st' inst'. (if list_ex (\<lambda>e. e = None) (in_exports inst) then for_each (fill_export h (exports_of inst)) st (map fst (exports_of inst))
      else Ok st) = Ok st' \<and> pm_get (st_instances st') h = Some inst' \<and> None \<notin> set (in_exports inst')"
  proof (cases "list_ex (\<lambda>e. e = None) (in_exports inst)")
    case True
    with fill_exports [OF d inv inst, of "[]" "exports_of inst" st1] fill show ?thesis by (auto simp: same_instance_def)
  qed (use inst in \<open>auto simp: list_ex_iff\<close>)
  then obtain st' inst' where
    a: "(if list_ex (\<lambda>e. e = None) (in_exports inst) then for_each (fill_export h (exports_of inst)) st (map fst (exports_of inst)) else Ok st) = Ok st'"
      "pm_get (st_instances st') h = Some inst'" "None \<notin> set (in_exports inst')" by blast
  have "collect export_entry (zip (exports_of inst') (in_exports inst')) = Ok (map (\<lambda>(p, e). (fst p, the e)) (zip (exports_of inst') (in_exports inst')))"
  proof (rule collect_Ok_map)
    fix q assume q: "q \<in> set (zip (exports_of inst') (in_exports inst'))"
    obtain name entity export where p: "q = ((name, entity), export)" by (metis surj_pair)
    with q a(3) have "export \<noteq> None" by (metis set_zip_rightD)
    then show "export_entry q = Ok ((\<lambda>(p, e). (fst p, the e)) q)" by (auto simp: export_entry_def p)
  qed
  then show ?thesis using a(1,2) inst by (simp add: host_exports_def stored_index_def stored_get_def)
qed

text \<open>C21. Looking up an export in a consistent store: the handle stands for the entity that the module exports under the
  name (\<open>None\<close> when it exports nothing under it), the store stays consistent, every handle given out before
  still stands for the same entity, and asking again returns the same handle without adding to the store.
\<close>

theorem get_export_ok:
  assumes "store_inv st" and "get_export h name st = Ok (r, st')"
  shows "store_inv st' \<and> store_extends st st' \<and>
    (\<exists>inst. pm_get (st_instances st) h = Some inst \<and> (case r of
        None \<Rightarrow> name \<notin> fst ` set (exports_of inst) \<and> st' = st
      | Some e \<Rightarrow> get_export h name st' = Ok (Some e, st') \<and>
          (\<exists>entity x. (name, entity) \<in> set (exports_of inst) \<and> get_export_by_index inst entity = Ok x \<and> extern_value st' e = Some x)))"
proof -
  from assms(2) obtain inst where inst: "pm_get (st_instances st) h = Some inst"
    by (auto simp: get_export_def stored_index_def stored_get_def)
  show ?thesis
  proof (cases "get_full (exports_of inst) name")
    case None
    with assms inst show ?thesis by (auto simp: get_export_def stored_index_def stored_get_def get_full_None)
  next
    case (Some p)
    obtain j entity where p: "p = (j, entity)" by (cases p)
    with Some get_full_nth have j: "j < length (exports_of inst)" "exports_of inst ! j = (name, entity)" by fastforce+
    from assms(2) inst Some p obtain e where r: "r = Some e" and run: "get_export_inner h (snd (exports_of inst ! j)) j st = Ok (e, st')"
      by (auto simp: get_export_def stored_index_def stored_get_def j(2))
    from get_export_inner_ok [OF assms(1) inst j(1) run] obtain inst' x where
      I: "store_inv st'" "store_extends st st'" "pm_get (st_instances st') h = Some inst'" "same_instance inst inst'"
        "pm_get (in_exports inst') j = Some (Some e)" "extern_value st' e = Some x" "get_export_by_index inst entity = Ok x"
      by (simp add: j(2)) metis
    have "get_export h name st' = Ok (Some e, st')"
      using I(3,5) Some p exported_cong(2) [OF I(4)] get_export_inner_again [OF I(3,5)]
      by (simp add: get_export_def stored_index_def stored_get_def)
    moreover have "(name, entity) \<in> set (exports_of inst)" using j nth_mem by metis
    ultimately show ?thesis using I inst r by auto
  qed
qed

text \<open>An instance that exports its global, alone in a store.\<close>

definition exporting_module :: Module where
  "exporting_module = tiny_module\<lparr>m_translated := (m_translated tiny_module)\<lparr>mod_exports := [(''g'', Global 0)]\<rparr>\<rparr>"

definition exporting_instance :: Instance where
  "exporting_instance = \<lparr>in_module = exporting_module, in_vmctx = tiny_context, in_tables = [], in_memories = [],
     in_dropped_elems = {}, in_dropped_data = {}, in_exports = [None]\<rparr>"

definition exporting_store :: Store where
  "exporting_store = snd (push_instance exporting_instance store_new)"

lemma exporting_store_ok:
  "store_inv exporting_store" "pm_get (st_instances exporting_store) 0 = Some exporting_instance"
  "exports_of exporting_instance = [(''g'', Global 0)]"
proof -
  show e: "exports_of exporting_instance = [(''g'', Global 0)]" by (simp add: exports_of_def exporting_instance_def exporting_module_def)
  have "store_inv store_new" by (simp add: store_new_def store_inv_def contexts_known_def pm_get_def)
  then show "store_inv exporting_store"
    unfolding exporting_store_def by (rule push_instance_inv) (simp_all add: store_new_def e, simp add: exporting_instance_def)
  show "pm_get (st_instances exporting_store) 0 = Some exporting_instance"
    by (simp add: exporting_store_def push_instance_def store_new_def pm_get_def Let_def)
qed

lemma exporting_global: "get_export_by_index exporting_instance (Global 0) =
    Ok (Export_Global \<lparr>eg_definition = 4208, eg_vmctx = 4096, eg_ty = \<lparr>content_type = I32, global_mutable = False, global_shared = False\<rparr>\<rparr>)"
  by (simp add: get_export_by_index_def get_exported_global_def entity_pointers_def defined_global_index_def is_imported_global_def
      global_ptr_def vmctx_vmglobal_definition_def array_offset_def add_chk_def mul_chk_def exporting_instance_def exporting_module_def
      tiny_module_def tiny_offsets_def tiny_context_def module_default_def plus_offset_def vmctx_as_ptr_def map_ok_def Let_def)

theorem get_export_ok_witness:
  "\<exists>e st'. get_export 0 ''g'' exporting_store = Ok (Some e, st') \<and> store_inv st' \<and> get_export 0 ''g'' st' = Ok (Some e, st')"
proof -
  from get_export_inner_total [OF exporting_store_ok(1,2), of 0] exporting_global exporting_store_ok(3) obtain e st' where
    "get_export_inner 0 (Global 0) 0 exporting_store = Ok (e, st')" by fastforce
  then have run: "get_export 0 ''g'' exporting_store = Ok (Some e, st')"
    using exporting_store_ok(2,3) by (simp add: get_export_def stored_index_def stored_get_def)
  from get_export_ok [OF exporting_store_ok(1) run] run show ?thesis by auto
qed

end
