(* ===== verification/Host_Linker.thy ===== *)
theory Host_Linker
  imports Host_Store
begin

text \<open>
  The linker of \<open>src/src/linker.rs\<close>. Names are interned, and definitions are kept in a hash map from pairs of interned
  names; the order in which a hash map is iterated is a parameter. Operations that change the linker return it in
  every case: what was inserted before an error stays inserted.
\<close>

section \<open>The linker\<close>

record ImportKey =
  ik_name :: nat
  ik_module :: nat

record Linker =
  ln_string2idx :: "string \<rightharpoonup> nat"
  ln_strings :: "string list"
  ln_map :: "(ImportKey \<times> Extern) list"

definition linker_new :: Linker where
  "linker_new = \<lparr>ln_string2idx = Map.empty, ln_strings = [], ln_map = []\<rparr>"

definition linker_get :: "Linker \<Rightarrow> string \<Rightarrow> string \<Rightarrow> Extern option" where
  "linker_get ln module name =
     Option.bind (ln_string2idx ln module)
     (\<lambda>m. Option.bind (ln_string2idx ln name)
     (\<lambda>n. map_of (ln_map ln) \<lparr>ik_name = n, ik_module = m\<rparr>))"

definition intern_str :: "string \<Rightarrow> Linker \<Rightarrow> nat \<times> Linker" where
  "intern_str str ln = (case ln_string2idx ln str of
       Some idx \<Rightarrow> (idx, ln)
     | None \<Rightarrow> let idx = length (ln_strings ln) in
         (idx, ln\<lparr>ln_strings := ln_strings ln @ [str], ln_string2idx := (ln_string2idx ln)(str \<mapsto> idx)\<rparr>))"

definition import_key :: "string \<Rightarrow> string option \<Rightarrow> Linker \<Rightarrow> ImportKey \<times> Linker" where
  "import_key module name ln = (case intern_str module ln of (m, ln1) \<Rightarrow> case name of
       None \<Rightarrow> (\<lparr>ik_name = 2 ^ 64 - 1, ik_module = m\<rparr>, ln1)
     | Some str \<Rightarrow> (case intern_str str ln1 of (n, ln2) \<Rightarrow> (\<lparr>ik_name = n, ik_module = m\<rparr>, ln2)))"

definition linker_insert :: "ImportKey \<Rightarrow> Extern \<Rightarrow> (unit, Linker) io" where
  "linker_insert key item ln = (case map_of (ln_map ln) key of
       Some _ \<Rightarrow> (and_then (pm_index (ln_strings ln) (ik_module key))
         (\<lambda>module. and_then (pm_index (ln_strings ln) (ik_name key)) (\<lambda>field. Err (AlreadyDefined module field))), ln)
     | None \<Rightarrow> (Ok (), ln\<lparr>ln_map := (key, item) # ln_map ln\<rparr>))"

fun insert_all :: "(ImportKey \<times> Extern) list \<Rightarrow> (unit, Linker) io" where
  "insert_all [] = io_pure (Ok ())"
| "insert_all ((key, item) # items) = io_then (linker_insert key item) (\<lambda>_. insert_all items)"

text \<open>\<open>iter\<close> is the order of \<open>HashMap::iter\<close>.\<close>

definition alias_module ::
  "((ImportKey \<times> Extern) list \<Rightarrow> (ImportKey \<times> Extern) list) \<Rightarrow> string \<Rightarrow> string \<Rightarrow> (unit, Linker) io" where
  "alias_module iter module as_module ln =
     (case intern_str module ln of (m, ln1) \<Rightarrow> case intern_str as_module ln1 of (a, ln2) \<Rightarrow>
        insert_all (map (\<lambda>(key, def). (\<lparr>ik_name = ik_name key, ik_module = a\<rparr>, def))
          (filter (\<lambda>(key, def). ik_module key = m) (iter (ln_map ln2)))) ln2)"

fun keyed_exports :: "string \<Rightarrow> (string \<times> Extern) list \<Rightarrow> Linker \<Rightarrow> (ImportKey \<times> Extern) list \<times> Linker" where
  "keyed_exports module_name [] ln = ([], ln)"
| "keyed_exports module_name ((name, e) # es) ln = (case import_key module_name (Some name) ln of (key, ln1) \<Rightarrow>
     case keyed_exports module_name es ln1 of (kes, ln2) \<Rightarrow> ((key, e) # kes, ln2))"

definition define_instance :: "string \<Rightarrow> nat \<Rightarrow> (unit, Linker \<times> Store) io" where
  "define_instance module_name inst = (\<lambda>(ln, st). case host_exports inst st of
       Err e \<Rightarrow> (Err e, ln, st)
     | Panic msg \<Rightarrow> (Panic msg, ln, st)
     | Ok (es, st') \<Rightarrow> (case keyed_exports module_name es ln of (kes, ln1) \<Rightarrow>
         case insert_all kes ln1 of (r, ln2) \<Rightarrow> (r, ln2, st')))"

section \<open>Instantiation\<close>

definition resolve_import :: "Linker \<Rightarrow> Store \<Rightarrow> Imports \<Rightarrow> Import \<Rightarrow> Imports result" where
  "resolve_import ln st imports import =
     and_then (ok_or (linker_get ln (import_module import) (import_name import))
        (MissingImport (import_module import) (import_name import) (import_ty import)))
     (\<lambda>def. case (def, import_ty import) of
         (Extern_Func f, ET_Function _) \<Rightarrow> map_ok (\<lambda>v. imports\<lparr>imp_functions := imp_functions imports @ [v]\<rparr>) (as_vmfunction_import st f)
       | (Extern_Table t, ET_Table _) \<Rightarrow> map_ok (\<lambda>v. imports\<lparr>imp_tables := imp_tables imports @ [v]\<rparr>) (as_vmtable_import st t)
       | (Extern_Memory m, ET_Memory _) \<Rightarrow> map_ok (\<lambda>v. imports\<lparr>imp_memories := imp_memories imports @ [v]\<rparr>) (as_vmmemory_import st m)
       | (Extern_Global g, ET_Global _) \<Rightarrow> map_ok (\<lambda>v. imports\<lparr>imp_globals := imp_globals imports @ [v]\<rparr>) (as_vmglobal_import st g)
       | _ \<Rightarrow> Panic ''mismatched import type'')"

definition linker_imports :: "Linker \<Rightarrow> Store \<Rightarrow> Module \<Rightarrow> Imports result" where
  "linker_imports ln st m = for_each (resolve_import ln st) imports_default (mod_imports (m_translated m))"

definition linker_instantiate ::
  "Linker \<Rightarrow> 'k os_ops \<Rightarrow> 'k allocator_ops \<Rightarrow> host_addresses \<Rightarrow> Module \<Rightarrow> VMVal list \<Rightarrow> Store \<Rightarrow> ((nat \<times> Store) \<times> VMVal list, 'k) io" where
  "linker_instantiate ln S A H m stack st =
     io_then (io_pure (linker_imports ln st m)) (\<lambda>imports. host_instance_new S A H m imports stack st)"

section \<open>The invariant\<close>

text \<open>Interned names and the table that finds them are inverse to each other, and keys consist of interned names.\<close>

definition linker_inv :: "Linker \<Rightarrow> bool" where
  "linker_inv ln \<longleftrightarrow> (\<forall>str i. ln_string2idx ln str = Some i \<longleftrightarrow> pm_get (ln_strings ln) i = Some str) \<and>
     (\<forall>key \<in> fst ` set (ln_map ln). ik_module key < length (ln_strings ln) \<and> ik_name key < length (ln_strings ln)) \<and>
     distinct (map fst (ln_map ln))"

text \<open>What a linker means: a map from pairs of names to definitions.\<close>

definition linker_defs :: "Linker \<Rightarrow> string \<times> string \<rightharpoonup> Extern" where
  "linker_defs ln = (\<lambda>(module, name). linker_get ln module name)"

lemma linker_new_inv: "linker_inv linker_new" "linker_defs linker_new = Map.empty"
  by (simp_all add: linker_new_def linker_inv_def linker_defs_def linker_get_def fun_eq_iff pm_get_def)

lemma intern_str_ok:
  assumes inv: "linker_inv ln" and run: "intern_str str ln = (i, ln')"
  shows "linker_inv ln'" "pm_get (ln_strings ln') i = Some str" "linker_get ln' = linker_get ln" "ln_map ln' = ln_map ln"
    "\<And>j s. pm_get (ln_strings ln) j = Some s \<Longrightarrow> pm_get (ln_strings ln') j = Some s"
proof -
  have "linker_inv ln' \<and> pm_get (ln_strings ln') i = Some str \<and> linker_get ln' = linker_get ln \<and> ln_map ln' = ln_map ln \<and>
      (\<forall>j s. pm_get (ln_strings ln) j = Some s \<longrightarrow> pm_get (ln_strings ln') j = Some s)" (is ?all)
  proof (cases "ln_string2idx ln str")
    case None
    with run have ln': "i = length (ln_strings ln)"
      "ln' = ln\<lparr>ln_strings := ln_strings ln @ [str], ln_string2idx := (ln_string2idx ln)(str \<mapsto> length (ln_strings ln))\<rparr>"
      by (auto simp: intern_str_def Let_def)
    have none: "ln_strings ln ! j \<noteq> str" if "j < length (ln_strings ln)" for j
    proof
      assume "ln_strings ln ! j = str"
      with inv that have "ln_string2idx ln str = Some j" by (simp add: linker_inv_def pm_get_def)
      with None show False by simp
    qed
    have "linker_inv ln'" using inv None none by (auto simp: linker_inv_def ln' pm_get_def nth_append less_Suc_eq split: if_splits)
    moreover have "map_of (ln_map ln) \<lparr>ik_name = n, ik_module = m\<rparr> = None" if "m = length (ln_strings ln) \<or> n = length (ln_strings ln)" for m n
      using inv that by (force simp: linker_inv_def map_of_eq_None_iff)
    then have "linker_get ln' = linker_get ln"
      using None by (auto simp: linker_get_def ln' fun_eq_iff split: bind_split)
    ultimately show ?all
      by (auto simp: ln' pm_get_def nth_append)
  next
    case (Some k)
    with run inv show ?all by (auto simp: intern_str_def linker_inv_def)
  qed
  then show "linker_inv ln'" "pm_get (ln_strings ln') i = Some str" "linker_get ln' = linker_get ln" "ln_map ln' = ln_map ln"
    "\<And>j s. pm_get (ln_strings ln) j = Some s \<Longrightarrow> pm_get (ln_strings ln') j = Some s" by auto
qed

text \<open>A key that stands for a pair of names.\<close>

definition key_names :: "Linker \<Rightarrow> ImportKey \<Rightarrow> string \<Rightarrow> string \<Rightarrow> bool" where
  "key_names ln key module name \<longleftrightarrow> pm_get (ln_strings ln) (ik_module key) = Some module \<and> pm_get (ln_strings ln) (ik_name key) = Some name"

lemma import_key_ok:
  assumes "linker_inv ln" and "import_key module (Some name) ln = (key, ln')"
  shows "linker_inv ln'" "key_names ln' key module name" "linker_get ln' = linker_get ln"
    "\<And>k m n. key_names ln k m n \<Longrightarrow> key_names ln' k m n"
proof -
  obtain i ln1 where 1: "intern_str module ln = (i, ln1)" by fastforce
  obtain j ln2 where 2: "intern_str name ln1 = (j, ln2)" by fastforce
  note I = intern_str_ok [OF assms(1) 1]
  note J = intern_str_ok [OF I(1) 2]
  from assms(2) 1 2 have "ln' = ln2" "key = \<lparr>ik_name = j, ik_module = i\<rparr>" by (simp_all add: import_key_def)
  with I J show "linker_inv ln'" "key_names ln' key module name" "linker_get ln' = linker_get ln"
    "\<And>k m n. key_names ln k m n \<Longrightarrow> key_names ln' k m n"
    by (simp_all add: key_names_def)
qed

lemma get_by_key:
  assumes "linker_inv ln" and "key_names ln key module name"
  shows "linker_get ln module name = map_of (ln_map ln) key"
proof -
  have "ln_string2idx ln module = Some (ik_module key)" "ln_string2idx ln name = Some (ik_name key)"
    using assms by (simp_all add: linker_inv_def key_names_def)
  then show ?thesis by (cases key) (simp add: linker_get_def)
qed

lemma insert_ok:
  assumes inv: "linker_inv ln" and key: "key_names ln key module name"
  shows "linker_get ln module name = None \<Longrightarrow> \<exists>ln'. linker_insert key e ln = (Ok (), ln') \<and> linker_inv ln' \<and>
      linker_defs ln' = (linker_defs ln)((module, name) \<mapsto> e) \<and> ln_strings ln' = ln_strings ln"
    "linker_get ln module name \<noteq> None \<Longrightarrow> linker_insert key e ln = (Err (AlreadyDefined module name), ln)"
proof -
  assume "linker_get ln module name = None"
  then have none: "map_of (ln_map ln) key = None" using get_by_key [OF inv key] by simp
  let ?ln = "ln\<lparr>ln_map := (key, e) # ln_map ln\<rparr>"
  have new: "linker_inv ?ln" using inv key none by (auto simp: linker_inv_def key_names_def pm_get_def map_of_eq_None_iff split: if_splits)
  have idx: "ln_string2idx ln m = Some (ik_module key) \<longleftrightarrow> m = module" "ln_string2idx ln n = Some (ik_name key) \<longleftrightarrow> n = name" for m n
    using inv key by (auto simp: linker_inv_def key_names_def)
  have "linker_get ?ln m n = (if m = module \<and> n = name then Some e else linker_get ln m n)" for m n
    using idx(1) [of m] idx(2) [of n] by (cases key) (auto simp: linker_get_def split: bind_split)
  then have "linker_defs ?ln = (linker_defs ln)((module, name) \<mapsto> e)" by (auto simp: linker_defs_def fun_eq_iff)
  with none new show "\<exists>ln'. linker_insert key e ln = (Ok (), ln') \<and> linker_inv ln' \<and>
      linker_defs ln' = (linker_defs ln)((module, name) \<mapsto> e) \<and> ln_strings ln' = ln_strings ln"
    by (auto simp: linker_insert_def)
next
  assume "linker_get ln module name \<noteq> None"
  then show "linker_insert key e ln = (Err (AlreadyDefined module name), ln)"
    using get_by_key [OF inv key] key by (auto simp: linker_insert_def key_names_def pm_index_Ok)
qed

abbreviation named_as :: "Linker \<Rightarrow> string \<Rightarrow> string \<times> Extern \<Rightarrow> ImportKey \<times> Extern \<Rightarrow> bool" where
  "named_as ln module p q \<equiv> snd q = snd p \<and> key_names ln (fst q) module (fst p)"

lemma keyed_exports_ok:
  "linker_inv ln \<Longrightarrow> keyed_exports module es ln = (kes, ln') \<Longrightarrow>
   linker_inv ln' \<and> linker_get ln' = linker_get ln \<and> list_all2 (named_as ln' module) es kes \<and>
   (\<forall>k m n. key_names ln k m n \<longrightarrow> key_names ln' k m n)"
proof (induction module es ln arbitrary: kes ln' rule: keyed_exports.induct)
  case (2 module name e es ln)
  obtain key ln1 where k: "import_key module (Some name) ln = (key, ln1)" by fastforce
  obtain kes1 ln2 where r: "keyed_exports module es ln1 = (kes1, ln2)" by fastforce
  note K = import_key_ok [OF 2(2) k]
  from 2(1) [OF k [symmetric] K(1) r] K 2(3) k r show ?case by auto
qed auto

text \<open>Inserting a list of exports defines them up to the first name that is taken.\<close>

definition defined_under :: "string \<Rightarrow> (string \<times> Extern) list \<Rightarrow> string \<times> string \<rightharpoonup> Extern" where
  "defined_under module es = (\<lambda>(m, n). if m = module then map_of es n else None)"

lemma insert_all_ok:
  assumes "distinct (map fst es)"
  shows "linker_inv ln \<Longrightarrow> list_all2 (named_as ln module) es kes \<Longrightarrow> taken = takeWhile (\<lambda>(n, e). linker_get ln module n = None) es \<Longrightarrow>
    \<exists>ln'. insert_all kes ln = (if taken = es then Ok () else Err (AlreadyDefined module (fst (es ! length taken))), ln') \<and>
      linker_inv ln' \<and> linker_defs ln' = linker_defs ln ++ defined_under module taken"
  using assms
proof (induction es arbitrary: ln kes taken)
  case Nil
  then show ?case by (auto simp: io_pure_def defined_under_def map_add_def fun_eq_iff)
next
  case (Cons p es)
  obtain n e where p: "p = (n, e)" by (cases p)
  from Cons.prems(2) obtain key kes' where kes: "kes = (key, e) # kes'" and key: "key_names ln key module n"
    and rest: "list_all2 (named_as ln module) es kes'" by (auto simp: p list_all2_Cons1)
  show ?case
  proof (cases "linker_get ln module n")
    case (Some d)
    with insert_ok(2) [OF Cons.prems(1) key] Cons.prems(1,3) show ?thesis
      by (auto simp: kes p io_then_def defined_under_def map_add_def fun_eq_iff)
  next
    case None
    from insert_ok(1) [OF Cons.prems(1) key None] obtain ln1 where
      l: "linker_insert key e ln = (Ok (), ln1)" "linker_inv ln1" "linker_defs ln1 = (linker_defs ln)((module, n) \<mapsto> e)" "ln_strings ln1 = ln_strings ln" by blast
    have g: "linker_get ln1 module m = linker_get ln module m" if "m \<in> fst ` set es" for m
      using fun_cong [OF l(3), of "(module, m)"] that Cons.prems(4) by (auto simp: p linker_defs_def)
    have same: "takeWhile (\<lambda>(n, e). linker_get ln1 module n = None) es = takeWhile (\<lambda>(n, e). linker_get ln module n = None) es" (is "_ = ?taken")
      by (rule takeWhile_cong) (use g in force)+
    have "list_all2 (named_as ln1 module) es kes'" using rest by (simp add: key_names_def l(4))
    from Cons.IH [OF l(2) this same [symmetric]] Cons.prems(4) obtain ln' where
      r: "insert_all kes' ln1 = (if ?taken = es then Ok () else Err (AlreadyDefined module (fst (es ! length ?taken))), ln')"
        "linker_inv ln'" "linker_defs ln' = linker_defs ln1 ++ defined_under module ?taken" by auto
    have t: "taken = p # ?taken" using Cons.prems(3) None by (simp add: p)
    have "set ?taken \<subseteq> set es" by (auto dest: set_takeWhileD)
    then have "n \<notin> fst ` set ?taken" using Cons.prems(4) by (auto simp: p)
    then have "map_of ?taken n = None" by (simp add: map_of_eq_None_iff)
    then have "linker_defs ln' = linker_defs ln ++ defined_under module taken"
      unfolding r(3) l(3) t by (auto simp: p defined_under_def map_add_def fun_eq_iff split: option.splits)
    with r(1,2) l(1) show ?thesis by (auto simp: kes t p io_then_def)
  qed
qed

section \<open>Aliases\<close>

text \<open>The entries of a module with their names: each of them under the name that its key stands for.\<close>

lemma names_of_module:
  assumes inv: "linker_inv ln" and m: "pm_get (ln_strings ln) m = Some module" 
    and items: "set items = set (filter (\<lambda>(key, def). ik_module key = m) (ln_map ln))" and dk: "distinct (map fst items)"
  defines "es \<equiv> map (\<lambda>(key, def). (ln_strings ln ! ik_name key, def)) items"
  shows "distinct (map fst es)" and "map_of es = linker_get ln module"
proof -
  have inj: "i = j" if "i < length (ln_strings ln)" "j < length (ln_strings ln)" "ln_strings ln ! i = ln_strings ln ! j" for i j
    using inv that unfolding linker_inv_def pm_get_def by (metis option.inject)
  have key: "ik_module key = m" "ik_name key < length (ln_strings ln)" if "(key, d) \<in> set items" for key d
    using inv that items by (force simp: linker_inv_def)+
  have "inj_on (\<lambda>(key, def). ln_strings ln ! ik_name key) (set items)"
  proof (rule inj_onI, clarify)
    fix k d k' d' assume a: "(k, d) \<in> set items" "(k', d') \<in> set items" "ln_strings ln ! ik_name k = ln_strings ln ! ik_name k'"
    then have "ik_name k = ik_name k'" using inj key by blast
    then have "k = k'" using key(1) [OF a(1)] key(1) [OF a(2)] by (cases k; cases k') simp
    then show "k = k' \<and> d = d'" using a dk by (metis eq_key_imp_eq_value)
  qed
  moreover have "distinct items" using dk by (simp add: distinct_map)
  ultimately show d: "distinct (map fst es)" unfolding es_def by (simp add: distinct_map comp_def case_prod_unfold)
  show "map_of es = linker_get ln module"
  proof
    fix n
    have "map_of es n = Some d \<longleftrightarrow> linker_get ln module n = Some d" for d
    proof -
      have "map_of es n = Some d \<longleftrightarrow> (n, d) \<in> set es" using d by (metis map_of_eq_Some_iff)
      also have "\<dots> \<longleftrightarrow> (\<exists>key. (key, d) \<in> set (ln_map ln) \<and> ik_module key = m \<and> ln_strings ln ! ik_name key = n)"
        unfolding es_def by (auto simp: items)
      also have "\<dots> \<longleftrightarrow> linker_get ln module n = Some d"
      proof
        assume "\<exists>key. (key, d) \<in> set (ln_map ln) \<and> ik_module key = m \<and> ln_strings ln ! ik_name key = n"
        then obtain key where k: "(key, d) \<in> set (ln_map ln)" "ik_module key = m" "ln_strings ln ! ik_name key = n" by blast
        then have "key_names ln key module n" using m inv by (force simp: key_names_def linker_inv_def pm_get_def)
        from get_by_key [OF inv this] k(1) inv show "linker_get ln module n = Some d" by (simp add: linker_inv_def)
      next
        assume "linker_get ln module n = Some d"
        then obtain i j where "ln_string2idx ln module = Some i" "ln_string2idx ln n = Some j" "map_of (ln_map ln) \<lparr>ik_name = j, ik_module = i\<rparr> = Some d"
          by (auto simp: linker_get_def split: Option.bind_splits)
        moreover have "i = m" using inv m calculation(1) unfolding linker_inv_def by (metis option.inject)
        moreover have "ln_strings ln ! j = n" using inv calculation(2) by (simp add: linker_inv_def pm_get_def split: if_splits)
        ultimately show "\<exists>key. (key, d) \<in> set (ln_map ln) \<and> ik_module key = m \<and> ln_strings ln ! ik_name key = n" by (force dest: map_of_SomeD)
      qed
      finally show ?thesis .
    qed
    then show "map_of es n = linker_get ln module n" by (metis not_None_eq)
  qed
qed

text \<open>Aliasing a module under a name without definitions: whatever the order in which the entries are visited, the new name has
  exactly the definitions of the module, and the other names are as before.\<close>

lemma alias_module_ok:
  assumes inv: "linker_inv ln" and iter: "\<And>xs. set (iter xs) = set xs" "\<And>xs. distinct (map fst xs) \<Longrightarrow> distinct (map fst (iter xs))"
    and free: "\<And>n. linker_get ln as_module n = None"
  shows "\<exists>ln'. alias_module iter module as_module ln = (Ok (), ln') \<and> linker_inv ln' \<and>
    linker_defs ln' = (\<lambda>(m, n). linker_defs ln (if m = as_module then module else m, n))"
proof -
  obtain m ln1 where 1: "intern_str module ln = (m, ln1)" by fastforce
  obtain a ln2 where 2: "intern_str as_module ln1 = (a, ln2)" by fastforce
  note i1 = intern_str_ok [OF inv 1]
  note i2 = intern_str_ok [OF i1(1) 2]
  define items where "items = filter (\<lambda>(key, def). ik_module key = m) (iter (ln_map ln2))"
  define es where "es = map (\<lambda>(key, def). (ln_strings ln2 ! ik_name key, def)) items"
  let ?kes = "map (\<lambda>(key, def). (\<lparr>ik_name = ik_name key, ik_module = a\<rparr>, def)) items"
  have get: "linker_get ln2 = linker_get ln" using i1(3) i2(3) by simp
  have set_items: "set items = set (filter (\<lambda>(key, def). ik_module key = m) (ln_map ln2))" by (simp add: items_def iter)
  have "distinct (map fst items)" using iter(2) [of "ln_map ln2"] i2(1) by (simp add: items_def linker_inv_def distinct_map_filter)
  from names_of_module [OF i2(1) i2(5) [OF i1(2)] set_items this] have es: "distinct (map fst es)" "map_of es = linker_get ln module"
    by (simp_all add: es_def get)
  have "ik_name key < length (ln_strings ln2)" if "(key, d) \<in> set items" for key d
    using i2(1) that set_items by (force simp: linker_inv_def)
  then have named: "list_all2 (named_as ln2 as_module) es ?kes"
    using i2(2) by (auto simp: es_def list_all2_map1 list_all2_map2 list_all2_same key_names_def pm_get_def split: if_splits)
  have "es = takeWhile (\<lambda>(n, e). linker_get ln2 as_module n = None) es" using free by (simp add: get case_prod_unfold takeWhile_eq_all_conv [THEN iffD2])
  from insert_all_ok [OF es(1) i2(1) named this] obtain ln' where
    "insert_all ?kes ln2 = (Ok (), ln')" "linker_inv ln'" "linker_defs ln' = linker_defs ln2 ++ defined_under as_module es" by auto
  moreover have "linker_defs ln2 ++ defined_under as_module es = (\<lambda>(m, n). linker_defs ln (if m = as_module then module else m, n))"
    using free by (auto simp: fun_eq_iff map_add_def defined_under_def es(2) linker_defs_def get split: option.split)
  ultimately show ?thesis by (simp add: alias_module_def 1 2 items_def)
qed

section \<open>Resolving imports\<close>

text \<open>A definition that can be turned into an import, and an import that is resolved to a value.\<close>

definition importable :: "Store \<Rightarrow> Extern \<Rightarrow> bool" where
  "importable st e = (case e of
       Extern_Func f \<Rightarrow> is_ok (as_vmfunction_import st f) | Extern_Table t \<Rightarrow> is_ok (as_vmtable_import st t)
     | Extern_Memory m \<Rightarrow> is_ok (as_vmmemory_import st m) | Extern_Global g \<Rightarrow> is_ok (as_vmglobal_import st g))"

definition found :: "Linker \<Rightarrow> Import \<Rightarrow> Extern option" where
  "found ln i = linker_get ln (import_module i) (import_name i)"

definition resolved :: "Linker \<Rightarrow> (nat \<Rightarrow> Extern) \<Rightarrow> (nat \<Rightarrow> 'v result) \<Rightarrow> Import \<Rightarrow> 'v \<Rightarrow> bool" where
  "resolved ln mk as i v \<longleftrightarrow> (\<exists>h. found ln i = Some (mk h) \<and> as h = Ok v)"

fun kind_fits :: "Extern \<Rightarrow> EntityType \<Rightarrow> bool" where
  "kind_fits (Extern_Func _) ty = is_func_type ty" | "kind_fits (Extern_Table _) ty = is_table_type ty"
| "kind_fits (Extern_Memory _) ty = is_memory_type ty" | "kind_fits (Extern_Global _) ty = is_global_type ty"

text \<open>What the loop over the imports has collected.\<close>

definition collected :: "Linker \<Rightarrow> Store \<Rightarrow> Import list \<Rightarrow> Imports \<Rightarrow> bool" where
  "collected ln st is imports \<longleftrightarrow>
     list_all2 (resolved ln Extern_Func (as_vmfunction_import st)) (filter (is_func_type \<circ> import_ty) is) (imp_functions imports) \<and>
     list_all2 (resolved ln Extern_Table (as_vmtable_import st)) (filter (is_table_type \<circ> import_ty) is) (imp_tables imports) \<and>
     list_all2 (resolved ln Extern_Memory (as_vmmemory_import st)) (filter (is_memory_type \<circ> import_ty) is) (imp_memories imports) \<and>
     list_all2 (resolved ln Extern_Global (as_vmglobal_import st)) (filter (is_global_type \<circ> import_ty) is) (imp_globals imports)"

lemma resolve_import_cases:
  "resolve_import ln st imports i = (case found ln i of
       None \<Rightarrow> Err (MissingImport (import_module i) (import_name i) (import_ty i))
     | Some e \<Rightarrow> if \<not> kind_fits e (import_ty i) then Panic ''mismatched import type'' else (case e of
         Extern_Func f \<Rightarrow> map_ok (\<lambda>v. imports\<lparr>imp_functions := imp_functions imports @ [v]\<rparr>) (as_vmfunction_import st f)
       | Extern_Table t \<Rightarrow> map_ok (\<lambda>v. imports\<lparr>imp_tables := imp_tables imports @ [v]\<rparr>) (as_vmtable_import st t)
       | Extern_Memory m \<Rightarrow> map_ok (\<lambda>v. imports\<lparr>imp_memories := imp_memories imports @ [v]\<rparr>) (as_vmmemory_import st m)
       | Extern_Global g \<Rightarrow> map_ok (\<lambda>v. imports\<lparr>imp_globals := imp_globals imports @ [v]\<rparr>) (as_vmglobal_import st g)))"
  by (cases "import_ty i") (simp_all add: resolve_import_def found_def split: option.split Extern.split)

lemma collected_snoc:
  assumes "collected ln st is imports" and "resolve_import ln st imports i = Ok imports'"
  shows "collected ln st (is @ [i]) imports'"
proof -
  from assms(2) obtain e where e: "found ln i = Some e" "kind_fits e (import_ty i)"
    by (auto simp: resolve_import_cases split: option.splits if_splits)
  with assms show ?thesis
    by (cases e; cases "import_ty i") (auto simp: resolve_import_cases collected_def resolved_def list_all2_appendI)
qed

lemma collect_imports:
  "for_each (resolve_import ln st) acc is = Ok imports' \<Longrightarrow> collected ln st pre acc \<Longrightarrow> collected ln st (pre @ is) imports'"
proof (induction "is" arbitrary: pre acc)
  case (Cons i "is")
  from Cons.prems(1) obtain mid where m: "resolve_import ln st acc i = Ok mid" "for_each (resolve_import ln st) mid is = Ok imports'" by auto
  from Cons.IH [OF m(2) collected_snoc [OF Cons.prems(2) m(1)]] show ?case by simp
qed simp

definition stops_at :: "Linker \<Rightarrow> Import \<Rightarrow> Imports result \<Rightarrow> bool" where
  "stops_at ln i r = (case found ln i of
       None \<Rightarrow> r = Err (MissingImport (import_module i) (import_name i) (import_ty i))
     | Some e \<Rightarrow> \<not> kind_fits e (import_ty i) \<and> r = Panic ''mismatched import type'')"

lemma resolve_import_fails:
  assumes "\<And>e. found ln i = Some e \<Longrightarrow> importable st e" and "\<not> is_ok (resolve_import ln st acc i)"
  shows "stops_at ln i (resolve_import ln st acc i)"
proof (cases "found ln i")
  case (Some e)
  with assms(1) have "importable st e" by blast
  with Some assms(2) show ?thesis
    by (cases e) (auto simp: stops_at_def resolve_import_cases importable_def is_ok_iff split: if_splits)
qed (simp add: stops_at_def resolve_import_cases)

lemma resolve_stops:
  assumes "\<And>k e. linker_defs ln k = Some e \<Longrightarrow> importable st e" and "for_each (resolve_import ln st) acc is = r" and "\<not> is_ok r"
  shows "\<exists>pre i post. is = pre @ i # post \<and> (\<forall>j \<in> set pre. \<exists>e. found ln j = Some e \<and> kind_fits e (import_ty j)) \<and> stops_at ln i r"
  using assms(2,3)
proof (induction "is" arbitrary: acc)
  case Nil
  then show ?case by auto
next
  case (Cons i "is")
  show ?case
  proof (cases "is_ok (resolve_import ln st acc i)")
    case True
    then obtain mid where mid: "resolve_import ln st acc i = Ok mid" by (auto simp: is_ok_iff)
    then have i: "\<exists>e. found ln i = Some e \<and> kind_fits e (import_ty i)" by (auto simp: resolve_import_cases split: option.splits if_splits)
    from Cons.prems mid have "for_each (resolve_import ln st) mid is = r" by simp
    from Cons.IH [OF this Cons.prems(2)] obtain pre j post where "is = pre @ j # post"
      "\<forall>k \<in> set pre. \<exists>e. found ln k = Some e \<and> kind_fits e (import_ty k)" "stops_at ln j r" by blast
    with i have "i # is = (i # pre) @ j # post \<and> (\<forall>k \<in> set (i # pre). \<exists>e. found ln k = Some e \<and> kind_fits e (import_ty k)) \<and> stops_at ln j r" by simp
    then show ?thesis by blast
  next
    case False
    have "found ln i = Some e \<Longrightarrow> importable st e" for e using assms(1) [of "(import_module i, import_name i)"] by (simp add: linker_defs_def found_def)
    from resolve_import_fails [OF this False] have "stops_at ln i (resolve_import ln st acc i)" .
    moreover have "r = resolve_import ln st acc i" using False Cons.prems(1) by (cases "resolve_import ln st acc i") auto
    ultimately have "i # is = [] @ i # is \<and> stops_at ln i r" by simp
    then show ?thesis by fastforce
  qed
qed

section \<open>Properties\<close>

text \<open>C20. Defining an instance in the linker refines an update of the map from pairs of names to definitions. The exports of
  the instance become defined under the module name, each by a handle that stands for the exported entity; at the
  first name that is taken the operation stops with an error that names it, and exactly the exports before it
  are defined. Nothing else changes, in particular no definition is replaced.
\<close>

theorem define_instance_refines:
  assumes "linker_inv ln" and "store_inv st" and "pm_get (st_instances st) h = Some inst" and "distinct (map fst (exports_of inst))"
    and "\<forall>p \<in> set (exports_of inst). is_ok (get_export_by_index inst (snd p))"
  shows "\<exists>es taken ln' st'. taken = takeWhile (\<lambda>(n, e). linker_defs ln (module, n) = None) es \<and>
    define_instance module h (ln, st) = (if taken = es then Ok () else Err (AlreadyDefined module (fst (es ! length taken))), ln', st') \<and>
    linker_inv ln' \<and> linker_defs ln' = linker_defs ln ++ defined_under module taken \<and> store_inv st' \<and> store_extends st st' \<and>
    list_all2 (\<lambda>(name, entity) (name', e). name' = name \<and> (\<exists>x. get_export_by_index inst entity = Ok x \<and> extern_value st' e = Some x))
      (exports_of inst) es"
proof -
  from host_exports_total [OF assms(2-5)] obtain es st' where run: "host_exports h st = Ok (es, st')" by blast
  note H = host_exports_ok [OF assms(2-4) run]
  then have "list_all2 (\<lambda>p q. fst p = fst q) (exports_of inst) es" by (auto elim: list_all2_mono)
  then have "map fst es = map fst (exports_of inst)" by (induction rule: list_all2_induct) auto
  with assms(4) have d: "distinct (map fst es)" by simp
  obtain kes ln1 where k: "keyed_exports module es ln = (kes, ln1)" by fastforce
  from keyed_exports_ok [OF assms(1) k] have K: "linker_inv ln1" "linker_get ln1 = linker_get ln" "list_all2 (named_as ln1 module) es kes" by auto
  from insert_all_ok [OF d K(1,3) refl] obtain ln' where
    "insert_all kes ln1 = (if takeWhile (\<lambda>(n, e). linker_get ln1 module n = None) es = es then Ok ()
       else Err (AlreadyDefined module (fst (es ! length (takeWhile (\<lambda>(n, e). linker_get ln1 module n = None) es)))), ln')"
    "linker_inv ln'" "linker_defs ln' = linker_defs ln1 ++ defined_under module (takeWhile (\<lambda>(n, e). linker_get ln1 module n = None) es)" by blast
  moreover have "linker_defs ln1 = linker_defs ln" by (simp add: linker_defs_def K(2))
  ultimately show ?thesis
    using H run k by (intro exI [of _ es] exI [of _ "takeWhile (\<lambda>(n, e). linker_defs ln (module, n) = None) es"] exI [of _ ln'] exI [of _ st'])
      (simp add: define_instance_def linker_defs_def K(2))
qed

theorem define_instance_refines_witness:
  "\<exists>ln' st' e. define_instance ''m'' 0 (linker_new, exporting_store) = (Ok (), ln', st') \<and> linker_get ln' ''m'' ''g'' = Some e"
proof -
  have "distinct (map fst (exports_of exporting_instance))" "\<forall>p \<in> set (exports_of exporting_instance). is_ok (get_export_by_index exporting_instance (snd p))"
    using exporting_global by (simp_all add: exporting_store_ok(3))
  from define_instance_refines [OF linker_new_inv(1) exporting_store_ok(1,2) this, of "''m''"] obtain es taken ln' st' where
    t: "taken = takeWhile (\<lambda>(n, e). linker_defs linker_new (''m'', n) = None) es"
    and run: "define_instance ''m'' 0 (linker_new, exporting_store) = (if taken = es then Ok () else Err (AlreadyDefined ''m'' (fst (es ! length taken))), ln', st')"
    and d: "linker_defs ln' = linker_defs linker_new ++ defined_under ''m'' taken"
    and es: "list_all2 (\<lambda>(name, entity) (name', e). name' = name \<and> (\<exists>x. get_export_by_index exporting_instance entity = Ok x \<and> extern_value st' e = Some x))
      (exports_of exporting_instance) es" by blast
  from es obtain e where e: "es = [(''g'', e)]" by (auto simp: exporting_store_ok(3) list_all2_Cons1)
  with t have "taken = es" by (simp add: linker_new_inv(2))
  moreover with fun_cong [OF d, of "(''m'', ''g'')"] e have "linker_get ln' ''m'' ''g'' = Some e"
    by (simp add: linker_defs_def defined_under_def)
  ultimately show ?thesis using run by auto
qed

text \<open>C19. Resolving the imports of a module. On success there are as many imports of every kind as the module declares, each
  with the value of the definition of its name, in the order of the module: what the initialization of the context
  needs. Otherwise the first import that cannot be resolved decides: a missing definition is an error that
  names it, a definition of another kind is a panic, and nothing else goes wrong.
\<close>

theorem linker_imports_resolved:
  assumes "module_inv (m_translated m)" and "\<forall>k e. linker_defs ln k = Some e \<longrightarrow> importable st e"
  shows "case linker_imports ln st m of
      Ok imports \<Rightarrow> imports_match m imports \<and> collected ln st (mod_imports (m_translated m)) imports
    | r \<Rightarrow> \<exists>pre i post. mod_imports (m_translated m) = pre @ i # post \<and>
        (\<forall>j \<in> set pre. \<exists>e. found ln j = Some e \<and> kind_fits e (import_ty j)) \<and> stops_at ln i r"
proof (cases "is_ok (linker_imports ln st m)")
  case True
  then obtain vs where r: "linker_imports ln st m = Ok vs" by (auto simp: is_ok_iff)
  have "collected ln st [] imports_default" by (simp add: collected_def imports_default_def)
  from collect_imports [OF r [unfolded linker_imports_def] this] have c: "collected ln st (mod_imports (m_translated m)) vs" by simp
  with assms(1) have "imports_match m vs"
    by (auto simp: imports_match_def collected_def module_inv_def counts_wf_def imports_of_def dest!: list_all2_lengthD)
  with c r show ?thesis by simp
next
  case False
  with resolve_stops [OF _ linker_imports_def [of ln st m, symmetric]] assms(2) show ?thesis
    by (cases "linker_imports ln st m") auto
qed

text \<open>A module that imports a global, and a store and a linker that have it.\<close>

definition i32_global :: GlobalDesc where
  "i32_global = \<lparr>content_type = I32, global_mutable = False, global_shared = False\<rparr>"

definition importing_module :: "GlobalDesc \<Rightarrow> Module" where
  "importing_module ty = tiny_module\<lparr>m_translated := module_default\<lparr>globals := [ty], num_imported_globals := 1,
     mod_imports := [\<lparr>import_module = ''m'', import_name = ''g'', import_ty = ET_Global ty\<rparr>]\<rparr>\<rparr>"

definition global_store :: Store where
  "global_store = store_new\<lparr>st_exported_globals := [\<lparr>eg_definition = 4208, eg_vmctx = 4096, eg_ty = i32_global\<rparr>]\<rparr>"

definition global_linker :: Linker where
  "global_linker = \<lparr>ln_string2idx = [''m'' \<mapsto> 0, ''g'' \<mapsto> 1], ln_strings = [''m'', ''g''], ln_map = [(\<lparr>ik_name = 1, ik_module = 0\<rparr>, Extern_Global 0)]\<rparr>"

lemma global_linker_defs: "linker_defs global_linker = [(''m'', ''g'') \<mapsto> Extern_Global 0]"
  by (auto simp: fun_eq_iff linker_defs_def linker_get_def global_linker_def)

lemma import_global_run:
  "linker_imports global_linker global_store (importing_module ty) = Ok (imports_default\<lparr>imp_globals := [\<lparr>im_from = 4208, im_vmctx = 4096\<rparr>]\<rparr>)"
  using fun_cong [OF global_linker_defs, of "(''m'', ''g'')"]
  by (simp add: linker_imports_def importing_module_def resolve_import_def linker_defs_def as_vmglobal_import_def stored_index_def
      stored_get_def global_store_def pm_get_def imports_default_def map_ok_def)

theorem linker_imports_resolved_witness:
  "\<exists>vs. linker_imports global_linker global_store (importing_module i32_global) = Ok vs \<and> imports_match (importing_module i32_global) vs"
proof -
  have "module_inv (m_translated (importing_module i32_global))"
    by (simp add: importing_module_def module_inv_defs module_default_def escaped_refs_def)
  moreover have "\<forall>k e. linker_defs global_linker k = Some e \<longrightarrow> importable global_store e"
    by (auto simp: global_linker_defs importable_def as_vmglobal_import_def stored_index_def stored_get_def global_store_def pm_get_def split: if_splits)
  ultimately show ?thesis using linker_imports_resolved [of "importing_module i32_global" global_linker global_store] import_global_run by simp
qed

text \<open>C37. The types of imports are not compared with the types of the definitions: whatever types the module declares, as long as
  the kinds stay the same, the same values are linked, so that a function can be imported at another type than its own.
\<close>

theorem import_types_unchecked:
  assumes "list_all2 (\<lambda>i j. import_module j = import_module i \<and> import_name j = import_name i \<and>
      (\<forall>e. kind_fits e (import_ty j) = kind_fits e (import_ty i))) (mod_imports (m_translated m)) (mod_imports (m_translated m'))"
    and "linker_imports ln st m = Ok imports"
  shows "linker_imports ln st m' = Ok imports"
proof -
  have "for_each (resolve_import ln st) acc js = Ok r"
    if "list_all2 (\<lambda>i j. import_module j = import_module i \<and> import_name j = import_name i \<and>
      (\<forall>e. kind_fits e (import_ty j) = kind_fits e (import_ty i))) is js" and "for_each (resolve_import ln st) acc is = Ok r" for "is" js acc r
    using that
  proof (induction arbitrary: acc rule: list_all2_induct)
    case (Cons i "is" j js)
    from Cons.prems obtain mid where m: "resolve_import ln st acc i = Ok mid" "for_each (resolve_import ln st) mid is = Ok r" by auto
    have "found ln j = found ln i" using Cons.hyps(1) by (simp add: found_def)
    with m(1) Cons.hyps(1) have "resolve_import ln st acc j = Ok mid" by (auto simp: resolve_import_cases split: option.splits)
    with Cons.IH [OF m(2)] show ?case by simp
  qed simp
  from this [OF assms(1)] assms(2) show ?thesis by (simp add: linker_imports_def)
qed

theorem import_types_unchecked_witness:
  "linker_imports global_linker global_store (importing_module i32_global) = Ok (imports_default\<lparr>imp_globals := [\<lparr>im_from = 4208, im_vmctx = 4096\<rparr>]\<rparr>) \<and>
   linker_imports global_linker global_store (importing_module (i32_global\<lparr>content_type := F64, global_mutable := True\<rparr>)) =
     Ok (imports_default\<lparr>imp_globals := [\<lparr>im_from = 4208, im_vmctx = 4096\<rparr>]\<rparr>)"
proof (rule conjI [OF import_global_run], rule import_types_unchecked [OF _ import_global_run])
  have "kind_fits e (ET_Global a) = kind_fits e (ET_Global b)" for e a b by (cases e) simp_all
  then show "list_all2 (\<lambda>i j. import_module j = import_module i \<and> import_name j = import_name i \<and>
      (\<forall>e. kind_fits e (import_ty j) = kind_fits e (import_ty i))) (mod_imports (m_translated (importing_module i32_global)))
      (mod_imports (m_translated (importing_module (i32_global\<lparr>content_type := F64, global_mutable := True\<rparr>))))"
    by (simp add: importing_module_def)
qed

end
