(* ===== verification/Trap_Handling.thy ===== *)
theory Trap_Handling
  imports Code_Memory VM_Offsets
begin

text \<open>
  Entering and leaving WebAssembly code: \<open>src/src/placeholder/trap_handling/mod.rs\<close> and \<open>backtrace.rs\<close>, the frame layout of
  \<open>src/src/placeholder/arch.rs\<close> and the decision of the signal handler in \<open>src/src/placeholder/signals.rs\<close>. The memory that
  raw pointers reach (fields of contexts, stack frames) is a map from addresses to words. A call thread state lives on
  the native stack at some address; the thread-local \<open>TLS\<close> and the \<open>prev\<close> fields link the states of nested calls.
  \<open>setjmp\<close> and \<open>longjmp\<close> are not executed: a run of WebAssembly code either returns or jumps.
\<close>

section \<open>Architectures\<close>

datatype target_arch = Aarch64 | X86_64 | Riscv64 | S390x

text \<open>On AArch64 the return address is stripped of its authentication code by the \<open>xpaclri\<close> instruction.\<close>

record arch =
  ar_target :: target_arch
  ar_xpaclri :: "nat \<Rightarrow> nat"

type_synonym words = "nat \<Rightarrow> nat"

definition get_next_older_pc_from_fp :: "arch \<Rightarrow> words \<Rightarrow> nat \<Rightarrow> nat" where
  "get_next_older_pc_from_fp A mem fp = (case ar_target A of
       Aarch64 \<Rightarrow> ar_xpaclri A (mem (fp + 8))
     | X86_64 \<Rightarrow> mem (fp + 8)
     | Riscv64 \<Rightarrow> mem (fp + 8)
     | S390x \<Rightarrow> mem (fp + 14 * 8))"

definition NEXT_OLDER_FP_FROM_FP_OFFSET :: nat where
  "NEXT_OLDER_FP_FROM_FP_OFFSET = 0"

definition assert_fp_is_aligned :: "arch \<Rightarrow> nat \<Rightarrow> unit result" where
  "assert_fp_is_aligned A fp = (case ar_target A of
       Aarch64 \<Rightarrow> Ok ()
     | X86_64 \<Rightarrow> assert_that (fp mod 16 = 0) ''stack should always be aligned to 16''
     | Riscv64 \<Rightarrow> assert_that (fp mod 16 = 0) ''stack should always be aligned to 16''
     | S390x \<Rightarrow> assert_that (fp mod 8 = 0) ''stack should always be aligned to 8'')"

section \<open>States of calls\<close>

datatype TrapReason = Wasm_trap Trap | Jit_trap nat "nat option" Trap

record Frame =
  frame_pc :: nat
  frame_fp :: nat

record CallThreadState =
  cts_unwind :: "(TrapReason \<times> Frame list) option"
  cts_offsets :: StaticVMOffsets
  cts_vmctx :: nat
  cts_prev :: nat
  old_last_wasm_exit_fp :: nat
  old_last_wasm_exit_pc :: nat
  old_last_wasm_entry_fp :: nat

record thread =
  th_mem :: words
  th_tls :: "nat option"
  th_states :: "nat \<rightharpoonup> CallThreadState"

text \<open>\<open>*vmctx.byte_add(offset).cast::<usize>()\<close>.\<close>

definition vmctx_word :: "words \<Rightarrow> nat \<Rightarrow> nat result \<Rightarrow> nat result" where
  "vmctx_word mem vmctx off = map_ok (\<lambda>o'. mem (vmctx + o')) off"

lemma offsets_8:
  assumes "ptr_size offs = 8"
  shows "vmctx_last_wasm_exit_fp offs = Ok 32" and "vmctx_last_wasm_exit_pc offs = Ok 40" and "vmctx_last_wasm_entry_fp offs = Ok 48"
  using assms by (simp_all add: static_offset_defs)

lemma vmctx_word_Ok: "vmctx_word mem vmctx off = Ok w \<Longrightarrow> \<exists>d. off = Ok d \<and> w = mem (vmctx + d)"
  by (cases off) (auto simp: vmctx_word_def)

definition call_thread_state_new :: "words \<Rightarrow> nat \<Rightarrow> StaticVMOffsets \<Rightarrow> CallThreadState result" where
  "call_thread_state_new mem vmctx vmoffsets =
     and_then (vmctx_word mem vmctx (vmctx_last_wasm_exit_fp vmoffsets))
     (\<lambda>exit_fp. and_then (vmctx_word mem vmctx (vmctx_last_wasm_exit_pc vmoffsets))
     (\<lambda>exit_pc. and_then (vmctx_word mem vmctx (vmctx_last_wasm_entry_fp vmoffsets))
     (\<lambda>entry_fp. Ok \<lparr>cts_unwind = None, cts_offsets = vmoffsets, cts_vmctx = vmctx, cts_prev = 0,
        old_last_wasm_exit_fp = exit_fp, old_last_wasm_exit_pc = exit_pc, old_last_wasm_entry_fp = entry_fp\<rparr>)))"

text \<open>\<open>&*ptr\<close> for a pointer to a state; there is nothing at an address without a live state.\<close>

definition state_at :: "thread \<Rightarrow> nat \<Rightarrow> CallThreadState result" where
  "state_at th a = expect (th_states th a) ''dangling pointer''"

definition put_state :: "nat \<Rightarrow> CallThreadState \<Rightarrow> thread \<Rightarrow> thread" where
  "put_state a s th = th\<lparr>th_states := (th_states th)(a \<mapsto> s)\<rparr>"

text \<open>\<open>unwrap_or(ptr::null_mut())\<close>.\<close>

definition tls_or_null :: "thread \<Rightarrow> nat" where
  "tls_or_null th = (case th_tls th of Some p \<Rightarrow> p | None \<Rightarrow> 0)"

definition state_push :: "nat \<Rightarrow> thread \<Rightarrow> thread result" where
  "state_push self th =
     and_then (state_at th self)
     (\<lambda>s. and_then (assert_that (cts_prev s = 0) ''assertion failed: self.prev.get().is_null()'')
     (\<lambda>_. Ok ((put_state self (s\<lparr>cts_prev := tls_or_null th\<rparr>) th)\<lparr>th_tls := Some self\<rparr>)))"

definition state_pop :: "nat \<Rightarrow> thread \<Rightarrow> thread result" where
  "state_pop self th =
     and_then (state_at th self)
     (\<lambda>s. and_then (assert_that (tls_or_null th = self) ''assertion failed: ptr::eq(head, self)'')
     (\<lambda>_. Ok ((put_state self (s\<lparr>cts_prev := 0\<rparr>) th)\<lparr>th_tls := Some (cts_prev s)\<rparr>)))"

text \<open>\<open>CallThreadState::iter\<close>: \<open>None\<close> when the list does not end or a pointer dangles.\<close>

partial_function (option) state_iter :: "(nat \<rightharpoonup> CallThreadState) \<Rightarrow> nat \<Rightarrow> CallThreadState list option" where
  "state_iter states p = (if p = 0 then Some []
     else Option.bind (states p) (\<lambda>s. Option.bind (state_iter states (cts_prev s)) (\<lambda>ss. Some (s # ss))))"

section \<open>Backtraces\<close>

text \<open>The loop of \<open>trace_through_wasm\<close>; \<open>f\<close> returns its new state and whether to break.\<close>

function walk_frames ::
  "arch \<Rightarrow> words \<Rightarrow> ('a \<Rightarrow> Frame \<Rightarrow> 'a \<times> bool) \<Rightarrow> nat \<Rightarrow> nat \<Rightarrow> nat \<Rightarrow> 'a \<Rightarrow> ('a \<times> bool) result" where
  "walk_frames A mem f trampoline_fp pc fp acc =
     (if fp = trampoline_fp then Ok (acc, False)
      else if \<not> fp < trampoline_fp then Panic ''trampoline_fp > fp''
      else and_then (assert_fp_is_aligned A fp)
        (\<lambda>_. case f acc \<lparr>frame_pc = pc, frame_fp = fp\<rparr> of (acc', break) \<Rightarrow>
           if break then Ok (acc', True)
           else let next_older_fp = mem (fp + 8 * NEXT_OLDER_FP_FROM_FP_OFFSET) in
             if \<not> fp < next_older_fp then Panic ''next_older_fp > fp''
             else walk_frames A mem f trampoline_fp (get_next_older_pc_from_fp A mem fp) next_older_fp acc'))"
  by pat_completeness auto
termination
  by (relation "measure (\<lambda>(A, mem, f, trampoline_fp, pc, fp, acc). trampoline_fp - fp)") auto

declare walk_frames.simps [simp del]

definition trace_through_wasm ::
  "arch \<Rightarrow> words \<Rightarrow> ('a \<Rightarrow> Frame \<Rightarrow> 'a \<times> bool) \<Rightarrow> nat \<Rightarrow> nat \<Rightarrow> nat \<Rightarrow> 'a \<Rightarrow> ('a \<times> bool) result" where
  "trace_through_wasm A mem f pc fp trampoline_fp acc =
     and_then (assert_that (pc \<noteq> 0) ''assertion failed: pc != 0'')
     (\<lambda>_. and_then (assert_that (fp \<noteq> 0) ''assertion failed: fp != 0'')
     (\<lambda>_. and_then (assert_that (trampoline_fp \<noteq> 0) ''assertion failed: trampoline_fp != 0'')
     (\<lambda>_. walk_frames A mem f trampoline_fp pc fp acc)))"

text \<open>The loop over the activations, which end at the first one with a zero program counter.\<close>

fun trace_activations ::
  "arch \<Rightarrow> words \<Rightarrow> ('a \<Rightarrow> Frame \<Rightarrow> 'a \<times> bool) \<Rightarrow> (nat \<times> nat \<times> nat) list \<Rightarrow> 'a \<Rightarrow> 'a result" where
  "trace_activations A mem f [] acc = Ok acc"
| "trace_activations A mem f ((pc, fp, sp) # acts) acc =
     (if pc = 0 then
        and_then (assert_that (fp = 0) ''assertion failed: fp == 0'')
        (\<lambda>_. and_then (assert_that (sp = 0) ''assertion failed: sp == 0'') (\<lambda>_. Ok acc))
      else and_then (trace_through_wasm A mem f pc fp sp acc)
        (\<lambda>(acc', break). if break then Ok acc' else trace_activations A mem f acts acc'))"

definition saved_activation :: "CallThreadState \<Rightarrow> nat \<times> nat \<times> nat" where
  "saved_activation s = (old_last_wasm_exit_pc s, old_last_wasm_exit_fp s, old_last_wasm_entry_fp s)"

definition trace_with_trap_state ::
  "arch \<Rightarrow> thread \<Rightarrow> nat \<Rightarrow> (nat \<times> nat) option \<Rightarrow> ('a \<Rightarrow> Frame \<Rightarrow> 'a \<times> bool) \<Rightarrow> 'a \<Rightarrow> 'a result" where
  "trace_with_trap_state A th state trap_pc_and_fp f acc =
     and_then (state_at th state)
     (\<lambda>s. and_then (case trap_pc_and_fp of
         Some p \<Rightarrow> Ok p
       | None \<Rightarrow>
           and_then (vmctx_word (th_mem th) (cts_vmctx s) (vmctx_last_wasm_exit_pc (cts_offsets s)))
           (\<lambda>pc. and_then (vmctx_word (th_mem th) (cts_vmctx s) (vmctx_last_wasm_entry_fp (cts_offsets s)))
           (\<lambda>fp. Ok (pc, fp))))
     (\<lambda>(last_wasm_exit_pc, last_wasm_exit_fp).
        and_then (vmctx_word (th_mem th) (cts_vmctx s) (vmctx_last_wasm_entry_fp (cts_offsets s)))
     (\<lambda>last_wasm_entry_fp. and_then (expect (state_iter (th_states th) state) ''dangling pointer'')
     (\<lambda>states. trace_activations A (th_mem th) f
        ((last_wasm_exit_pc, last_wasm_exit_fp, last_wasm_entry_fp) #
           map saved_activation states) acc))))"

definition new_with_trap_state :: "arch \<Rightarrow> thread \<Rightarrow> nat \<Rightarrow> (nat \<times> nat) option \<Rightarrow> Frame list result" where
  "new_with_trap_state A th state trap_pc_and_fp =
     trace_with_trap_state A th state trap_pc_and_fp (\<lambda>frames frame. (frames @ [frame], False)) []"

section \<open>Raising and catching traps\<close>

text \<open>What is written before the jump to the buffer of the state.\<close>

definition unwind_with :: "arch \<Rightarrow> nat \<Rightarrow> TrapReason \<Rightarrow> thread \<Rightarrow> thread result" where
  "unwind_with A self reason th =
     and_then (new_with_trap_state A th self None)
     (\<lambda>backtrace. and_then (state_at th self)
     (\<lambda>s. Ok (put_state self (s\<lparr>cts_unwind := Some (reason, backtrace)\<rparr>) th)))"

definition raise_trap :: "arch \<Rightarrow> TrapReason \<Rightarrow> thread \<Rightarrow> thread result" where
  "raise_trap A reason th =
     and_then (expect (th_tls th) ''called `Option::unwrap()` on a `None` value'')
     (\<lambda>p. and_then (state_at th p) (\<lambda>_. unwind_with A p reason th))"

definition set_jit_trap :: "arch \<Rightarrow> nat \<Rightarrow> nat \<Rightarrow> nat \<Rightarrow> nat option \<Rightarrow> Trap \<Rightarrow> thread \<Rightarrow> thread result" where
  "set_jit_trap A self pc fp faulting_addr trap th =
     and_then (new_with_trap_state A th self (Some (pc, fp)))
     (\<lambda>backtrace. and_then (state_at th self)
     (\<lambda>s. Ok (put_state self (s\<lparr>cts_unwind := Some (Jit_trap pc faulting_addr trap, backtrace)\<rparr>) th)))"

datatype signal = SIGSEGV | SIGBUS | SIGFPE | SIGILL

text \<open>The signal handler: \<open>None\<close> when the signal is left to the previous handler, otherwise it jumps.\<close>

definition trap_handler ::
  "arch \<Rightarrow> code_registry \<Rightarrow> signal \<Rightarrow> nat \<Rightarrow> nat \<Rightarrow> nat \<Rightarrow> thread \<Rightarrow> thread option result" where
  "trap_handler A registry signum si_addr pc fp th = (case th_tls th of
       None \<Rightarrow> Ok None
     | Some info \<Rightarrow> (let faulting_addr = (if signum = SIGSEGV \<or> signum = SIGBUS then Some si_addr else None) in
         case lookup_code registry pc of
             None \<Rightarrow> Ok None
           | Some (code, text_offset) \<Rightarrow>
               and_then (lookup_trap_code code text_offset)
               (\<lambda>trap. case trap of
                   None \<Rightarrow> Ok None
                 | Some t \<Rightarrow> map_ok Some (set_jit_trap A info pc fp faulting_addr t th))))"

text \<open>
  \<open>catch_traps\<close> up to and after the closure: \<open>CallThreadState::with\<close> pushes the state, runs the closure, pops the
  state, and drops it. \<open>jumped\<close> tells whether \<open>setjmp\<close> returned a second time.
\<close>

definition enter_call :: "nat \<Rightarrow> nat \<Rightarrow> StaticVMOffsets \<Rightarrow> thread \<Rightarrow> thread result" where
  "enter_call a caller vmctx_plan th =
     and_then (call_thread_state_new (th_mem th) caller vmctx_plan)
     (\<lambda>s. state_push a (put_state a s th))"

text \<open>\<open>impl Drop for CallThreadState\<close>.\<close>

definition drop_state :: "nat \<Rightarrow> CallThreadState \<Rightarrow> thread \<Rightarrow> thread result" where
  "drop_state a s th =
     and_then (vmctx_last_wasm_exit_fp (cts_offsets s))
     (\<lambda>fp_off. and_then (vmctx_last_wasm_exit_pc (cts_offsets s))
     (\<lambda>pc_off. and_then (vmctx_last_wasm_entry_fp (cts_offsets s))
     (\<lambda>entry_off. Ok (th\<lparr>th_mem := (th_mem th)(cts_vmctx s + fp_off := old_last_wasm_exit_fp s,
        cts_vmctx s + pc_off := old_last_wasm_exit_pc s, cts_vmctx s + entry_off := old_last_wasm_entry_fp s),
        th_states := (th_states th)(a := None)\<rparr>))))"

definition leave_call :: "nat \<Rightarrow> bool \<Rightarrow> thread \<Rightarrow> ((TrapReason \<times> Frame list) option \<times> thread) result" where
  "leave_call a jumped th =
     and_then (state_pop a th)
     (\<lambda>th1. and_then (state_at th1 a)
     (\<lambda>s. and_then (if jumped then map_ok Some (expect (cts_unwind s) ''read of an uninitialised field'') else Ok None)
     (\<lambda>r. and_then (drop_state a s th1) (\<lambda>th2. Ok (r, th2)))))"

definition catch_traps ::
  "nat \<Rightarrow> nat \<Rightarrow> StaticVMOffsets \<Rightarrow> (thread \<Rightarrow> (bool \<times> thread) result) \<Rightarrow> thread \<Rightarrow> ((TrapReason \<times> Frame list) option \<times> thread) result" where
  "catch_traps a caller vmctx_plan closure th =
     and_then (enter_call a caller vmctx_plan th)
     (\<lambda>th1. and_then (closure th1) (\<lambda>(jumped, th2). leave_call a jumped th2))"

section \<open>The list of states\<close>

fun chain :: "(nat \<rightharpoonup> CallThreadState) \<Rightarrow> nat \<Rightarrow> nat list \<Rightarrow> bool" where
  "chain states p [] \<longleftrightarrow> p = 0"
| "chain states p (a # as) \<longleftrightarrow> p = a \<and> a \<noteq> 0 \<and> (\<exists>s. states a = Some s \<and> chain states (cts_prev s) as)"

text \<open>The live states are linked from the innermost call to the outermost.\<close>

definition thread_inv :: "thread \<Rightarrow> nat list \<Rightarrow> bool" where
  "thread_inv th as \<longleftrightarrow> chain (th_states th) (tls_or_null th) as \<and> distinct as \<and> dom (th_states th) = set as"

text \<open>What stays the same while a call is active: everything but the unwind information.\<close>

definition saved :: "CallThreadState \<Rightarrow> StaticVMOffsets \<times> nat \<times> nat \<times> nat \<times> nat \<times> nat" where
  "saved s = (cts_offsets s, cts_vmctx s, cts_prev s, old_last_wasm_exit_fp s, old_last_wasm_exit_pc s, old_last_wasm_entry_fp s)"

definition same_calls :: "thread \<Rightarrow> thread \<Rightarrow> bool" where
  "same_calls th th' \<longleftrightarrow> (\<forall>a. map_option saved (th_states th' a) = map_option saved (th_states th a)) \<and> tls_or_null th' = tls_or_null th"

lemma same_calls_refl [simp]: "same_calls th th"
  by (simp add: same_calls_def)

lemma same_calls_trans: "same_calls th th' \<Longrightarrow> same_calls th' th'' \<Longrightarrow> same_calls th th''"
  by (simp add: same_calls_def)

lemma same_calls_dom: "same_calls th th' \<Longrightarrow> dom (th_states th') = dom (th_states th)"
  by (auto simp: same_calls_def dom_def) (metis map_option_is_None not_None_eq)+

lemma chain_cong:
  "(\<And>a. a \<in> set as \<Longrightarrow> map_option saved (states' a) = map_option saved (states a)) \<Longrightarrow> chain states p as \<Longrightarrow> chain states' p as"
proof (induction as arbitrary: p)
  case (Cons a as)
  from Cons.prems(2) obtain s where s: "states a = Some s" "chain states (cts_prev s) as" by auto
  from Cons.prems(1) [of a] s obtain s' where "states' a = Some s'" "cts_prev s' = cts_prev s" by (auto simp: saved_def map_option_eq_Some)
  with Cons.IH [of "cts_prev s"] Cons.prems s show ?case by auto
qed simp

lemma same_calls_inv: "thread_inv th as \<Longrightarrow> same_calls th th' \<Longrightarrow> thread_inv th' as"
  unfolding thread_inv_def using chain_cong [of as "th_states th'" "th_states th"] same_calls_dom [of th th']
  by (auto simp: same_calls_def)

lemma state_iter_chain: "chain states p as \<Longrightarrow> state_iter states p = Some (map (\<lambda>a. the (states a)) as)"
  by (induction as arbitrary: p) (auto simp: state_iter.simps)

section \<open>Runs\<close>

text \<open>
  What WebAssembly and host code do between entering and leaving a call: they write memory, make further calls through
  \<open>catch_traps\<close> and go on whatever came of them, and end by returning or by jumping out, from a builtin that raises
  a trap or from the signal handler.
\<close>

inductive runs :: "arch \<Rightarrow> code_registry \<Rightarrow> thread \<Rightarrow> bool \<Rightarrow> thread \<Rightarrow> bool" for A R where
  runs_return: "runs A R th False th"
| runs_write: "runs A R (th\<lparr>th_mem := (th_mem th)(p := v)\<rparr>) j th' \<Longrightarrow> runs A R th j th'"
| runs_call: "a \<noteq> 0 \<Longrightarrow> th_states th a = None \<Longrightarrow> enter_call a caller offs th = Ok th1 \<Longrightarrow> runs A R th1 j1 th2 \<Longrightarrow>
    leave_call a j1 th2 = Ok (r, th3) \<Longrightarrow> runs A R th3 j th' \<Longrightarrow> runs A R th j th'"
| runs_raise: "raise_trap A reason th = Ok th' \<Longrightarrow> runs A R th True th'"
| runs_signal: "trap_handler A R signum addr pc fp th = Ok (Some th') \<Longrightarrow> runs A R th True th'"

text \<open>A call, from entering to leaving.\<close>

lemma enter_call_ok:
  assumes "thread_inv th as" and "th_states th a = None" and "a \<noteq> 0" and "enter_call a caller offs th = Ok th1"
  shows "thread_inv th1 (a # as)" and "th_tls th1 = Some a" and "th_mem th1 = th_mem th"
    and "\<forall>x. x \<noteq> a \<longrightarrow> th_states th1 x = th_states th x"
    and "\<exists>s. th_states th1 a = Some s \<and> cts_prev s = tls_or_null th \<and> cts_vmctx s = caller \<and> cts_offsets s = offs \<and>
      Ok (old_last_wasm_exit_fp s) = vmctx_word (th_mem th) caller (vmctx_last_wasm_exit_fp offs) \<and>
      Ok (old_last_wasm_exit_pc s) = vmctx_word (th_mem th) caller (vmctx_last_wasm_exit_pc offs) \<and>
      Ok (old_last_wasm_entry_fp s) = vmctx_word (th_mem th) caller (vmctx_last_wasm_entry_fp offs)"
proof -
  from assms(4) obtain s where s: "call_thread_state_new (th_mem th) caller offs = Ok s" "state_push a (put_state a s th) = Ok th1"
    by (auto simp: enter_call_def)
  from s(1) have c: "cts_prev s = 0" "cts_vmctx s = caller" "cts_offsets s = offs"
    "Ok (old_last_wasm_exit_fp s) = vmctx_word (th_mem th) caller (vmctx_last_wasm_exit_fp offs)"
    "Ok (old_last_wasm_exit_pc s) = vmctx_word (th_mem th) caller (vmctx_last_wasm_exit_pc offs)"
    "Ok (old_last_wasm_entry_fp s) = vmctx_word (th_mem th) caller (vmctx_last_wasm_entry_fp offs)"
    by (auto simp: call_thread_state_new_def)
  from s(2) c(1) have th1: "th1 = th\<lparr>th_states := (th_states th)(a \<mapsto> s\<lparr>cts_prev := tls_or_null th\<rparr>), th_tls := Some a\<rparr>"
    by (auto simp: state_push_def state_at_def put_state_def tls_or_null_def)
  show "th_tls th1 = Some a" "th_mem th1 = th_mem th" "\<forall>x. x \<noteq> a \<longrightarrow> th_states th1 x = th_states th x" by (simp_all add: th1)
  show "\<exists>s. th_states th1 a = Some s \<and> cts_prev s = tls_or_null th \<and> cts_vmctx s = caller \<and> cts_offsets s = offs \<and>
      Ok (old_last_wasm_exit_fp s) = vmctx_word (th_mem th) caller (vmctx_last_wasm_exit_fp offs) \<and>
      Ok (old_last_wasm_exit_pc s) = vmctx_word (th_mem th) caller (vmctx_last_wasm_exit_pc offs) \<and>
      Ok (old_last_wasm_entry_fp s) = vmctx_word (th_mem th) caller (vmctx_last_wasm_entry_fp offs)"
    using c by (simp add: th1)
  have new: "a \<notin> set as" using assms(1,2) by (auto simp: thread_inv_def)
  have "chain (th_states th1) (tls_or_null th) as"
    by (rule chain_cong [of as _ "th_states th"]) (use assms(1) new in \<open>auto simp: th1 thread_inv_def\<close>)
  then show "thread_inv th1 (a # as)" using assms(1,3) new by (auto simp: th1 thread_inv_def tls_or_null_def)
qed

lemma leave_call_ok:
  assumes inv: "thread_inv th as" "th_states th a = None" "a \<noteq> 0" and enter: "enter_call a caller offs th = Ok th1"
    and same: "same_calls th1 th2" and jump: "j \<longrightarrow> (\<exists>s. th_states th2 a = Some s \<and> cts_unwind s \<noteq> None)"
  obtains r th3 where "leave_call a j th2 = Ok (r, th3)" "same_calls th th3" "r \<noteq> None \<longleftrightarrow> j" "th_tls th3 = Some (tls_or_null th)"
    "vmctx_word (th_mem th3) caller (vmctx_last_wasm_exit_fp offs) = vmctx_word (th_mem th) caller (vmctx_last_wasm_exit_fp offs)"
    "vmctx_word (th_mem th3) caller (vmctx_last_wasm_exit_pc offs) = vmctx_word (th_mem th) caller (vmctx_last_wasm_exit_pc offs)"
    "vmctx_word (th_mem th3) caller (vmctx_last_wasm_entry_fp offs) = vmctx_word (th_mem th) caller (vmctx_last_wasm_entry_fp offs)"
    "\<forall>s. j \<and> th_states th2 a = Some s \<longrightarrow> r = cts_unwind s"
proof -
  note E = enter_call_ok [OF inv enter]
  from E(5) obtain s where s: "th_states th1 a = Some s" "cts_prev s = tls_or_null th" "cts_vmctx s = caller" "cts_offsets s = offs"
    and old: "Ok (old_last_wasm_exit_fp s) = vmctx_word (th_mem th) caller (vmctx_last_wasm_exit_fp offs)"
      "Ok (old_last_wasm_exit_pc s) = vmctx_word (th_mem th) caller (vmctx_last_wasm_exit_pc offs)"
      "Ok (old_last_wasm_entry_fp s) = vmctx_word (th_mem th) caller (vmctx_last_wasm_entry_fp offs)" by blast
  from same s(1) obtain s2 where s2: "th_states th2 a = Some s2" "saved s2 = saved s"
    by (auto simp: same_calls_def map_option_eq_Some) (metis map_option_eq_Some option.simps(9))
  have top: "tls_or_null th2 = a" using same E(2) by (simp add: same_calls_def tls_or_null_def)
  obtain o1 o2 o3 where o: "vmctx_last_wasm_exit_fp offs = Ok o1" "vmctx_last_wasm_exit_pc offs = Ok o2" "vmctx_last_wasm_entry_fp offs = Ok o3"
    using old [symmetric] by (auto dest!: vmctx_word_Ok)
  have m: "old_last_wasm_exit_fp s2 = th_mem th (caller + o1)" "old_last_wasm_exit_pc s2 = th_mem th (caller + o2)"
    "old_last_wasm_entry_fp s2 = th_mem th (caller + o3)" "cts_vmctx s2 = caller" "cts_offsets s2 = offs" "cts_prev s2 = tls_or_null th"
    using s2(2) old o s by (simp_all add: saved_def vmctx_word_def)
  define th3 where "th3 = th2\<lparr>th_tls := Some (tls_or_null th), th_mem := (th_mem th2)(caller + o1 := th_mem th (caller + o1),
      caller + o2 := th_mem th (caller + o2), caller + o3 := th_mem th (caller + o3)), th_states := (th_states th2)(a := None)\<rparr>"
  define r where "r = (if j then cts_unwind s2 else None)"
  have "leave_call a j th2 = Ok (r, th3)"
    using s2(1) top m o jump
    by (cases "cts_unwind s2") (auto simp: leave_call_def state_pop_def state_at_def put_state_def drop_state_def r_def th3_def)
  moreover have "same_calls th th3"
    using same E(4) inv(2) by (auto simp: same_calls_def th3_def tls_or_null_def)
  moreover have "r \<noteq> None \<longleftrightarrow> j" using jump s2(1) by (auto simp: r_def)
  ultimately show thesis
    by (rule that) (auto simp: o vmctx_word_def th3_def r_def s2(1))
qed

text \<open>Raising a trap writes the unwind information of the innermost state and nothing else.\<close>

lemma put_unwind:
  assumes "th_states th p = Some s" and "th_tls th = Some p" and "th' = put_state p (s\<lparr>cts_unwind := Some u\<rparr>) th"
  shows "same_calls th th'" and "\<exists>s. th_states th' (tls_or_null th') = Some s \<and> cts_unwind s \<noteq> None"
  using assms by (auto simp: same_calls_def put_state_def saved_def tls_or_null_def)

lemma raise_trap_ok:
  assumes "raise_trap A reason th = Ok th'"
  obtains p s u where "th_states th p = Some s" "th_tls th = Some p" "th' = put_state p (s\<lparr>cts_unwind := Some u\<rparr>) th"
  using assms by (auto simp: raise_trap_def unwind_with_def state_at_def expect_def split: option.splits intro: that)

lemma trap_handler_ok:
  assumes "trap_handler A R signum addr pc fp th = Ok (Some th')"
  obtains p s u where "th_states th p = Some s" "th_tls th = Some p" "th' = put_state p (s\<lparr>cts_unwind := Some u\<rparr>) th"
proof -
  from assms obtain p where p: "th_tls th = Some p" by (cases "th_tls th") (simp_all add: trap_handler_def)
  from assms p obtain fa t where "set_jit_trap A p pc fp fa t th = Ok th'"
    by (auto simp: trap_handler_def Let_def map_ok_def split: option.splits prod.splits)
  then show thesis using p by (auto simp: set_jit_trap_def state_at_def expect_def split: option.splits intro: that)
qed

lemma runs_keep:
  "runs A R th j th' \<Longrightarrow> thread_inv th as \<Longrightarrow>
     same_calls th th' \<and> (j \<longrightarrow> (\<exists>s. th_states th' (tls_or_null th') = Some s \<and> cts_unwind s \<noteq> None))"
proof (induction arbitrary: as rule: runs.induct)
  case (runs_write th p v j th')
  have "same_calls th (th\<lparr>th_mem := (th_mem th)(p := v)\<rparr>)" by (simp add: same_calls_def tls_or_null_def)
  with runs_write show ?case using same_calls_inv same_calls_trans by blast
next
  case (runs_call a th caller offs th1 j1 th2 r th3 j th')
  note E = enter_call_ok [OF runs_call.prems runs_call.hyps(2,1,3)]
  have inner: "same_calls th1 th2" "j1 \<longrightarrow> (\<exists>s. th_states th2 (tls_or_null th2) = Some s \<and> cts_unwind s \<noteq> None)"
    using runs_call.IH(1) [OF E(1)] by auto
  have "tls_or_null th2 = a" using inner(1) E(2) by (simp add: same_calls_def tls_or_null_def)
  then obtain r' th3' where "leave_call a j1 th2 = Ok (r', th3')" and same: "same_calls th th3'"
    using leave_call_ok [OF runs_call.prems runs_call.hyps(2,1,3) inner(1), of j1] inner(2) by metis
  with runs_call.hyps(5) have "th3' = th3" by simp
  with same runs_call.IH(2) [OF same_calls_inv [OF runs_call.prems]] show ?case using same_calls_trans by blast
next
  case (runs_raise reason th th')
  then show ?case by (elim raise_trap_ok) (use put_unwind in blast)
next
  case (runs_signal signum addr pc fp th th')
  then show ?case by (elim trap_handler_ok) (use put_unwind in blast)
qed simp

lemma enter_call_total:
  assumes "ptr_size offs = 8"
  obtains th1 where "enter_call a caller offs th = Ok th1"
  using offsets_8 [OF assms]
  by (simp add: enter_call_def call_thread_state_new_def vmctx_word_def state_push_def state_at_def put_state_def)

lemma leave_call_restores:
  assumes "thread_inv th as" and "a \<noteq> 0" and "th_states th a = None" and "ptr_size offs = 8"
    and "enter_call a caller offs th = Ok th1" and "runs A R th1 jumped th2"
  obtains r th3 where "leave_call a jumped th2 = Ok (r, th3)" "thread_inv th3 as" "same_calls th th3" "r \<noteq> None \<longleftrightarrow> jumped"
    "th_mem th3 (caller + 32) = th_mem th (caller + 32)" "th_mem th3 (caller + 40) = th_mem th (caller + 40)"
    "th_mem th3 (caller + 48) = th_mem th (caller + 48)"
proof -
  note offs = offsets_8 [OF assms(4)] and E = enter_call_ok [OF assms(1,3,2,5)]
  from runs_keep [OF assms(6) E(1)] have keep: "same_calls th1 th2"
    "jumped \<longrightarrow> (\<exists>s. th_states th2 (tls_or_null th2) = Some s \<and> cts_unwind s \<noteq> None)" by auto
  have "tls_or_null th2 = a" using keep(1) E(2) by (simp add: same_calls_def tls_or_null_def)
  then obtain r th3 where L: "leave_call a jumped th2 = Ok (r, th3)" "same_calls th th3" "r \<noteq> None \<longleftrightarrow> jumped"
    "vmctx_word (th_mem th3) caller (Ok 32) = vmctx_word (th_mem th) caller (Ok 32)"
    "vmctx_word (th_mem th3) caller (Ok 40) = vmctx_word (th_mem th) caller (Ok 40)"
    "vmctx_word (th_mem th3) caller (Ok 48) = vmctx_word (th_mem th) caller (Ok 48)"
    using leave_call_ok [OF assms(1,3,2,5) keep(1), of jumped] keep(2) unfolding offs by metis
  then show thesis by (intro that [OF L(1) same_calls_inv [OF assms(1) L(2)] L(2,3)]) (simp_all add: vmctx_word_def)
qed

text \<open>C18. Whatever a WebAssembly call does, be it nested calls, traps or signals, \<open>catch_traps\<close> returns, with a trap
  exactly when the code jumped out; the list of live states is the one before the call, and the three saved fields of
  the caller's context have their old values.\<close>

theorem catch_traps_restores:
  assumes "thread_inv th as" and "a \<noteq> 0" and "th_states th a = None" and "ptr_size offs = 8"
    and "\<And>th1. enter_call a caller offs th = Ok th1 \<Longrightarrow> closure th1 = Ok (jumped, end_of th1) \<and> runs A R th1 jumped (end_of th1)"
  shows "\<exists>r th'. catch_traps a caller offs closure th = Ok (r, th') \<and> thread_inv th' as \<and> same_calls th th' \<and> (r \<noteq> None \<longleftrightarrow> jumped) \<and>
    th_mem th' (caller + 32) = th_mem th (caller + 32) \<and> th_mem th' (caller + 40) = th_mem th (caller + 40) \<and>
    th_mem th' (caller + 48) = th_mem th (caller + 48)"
proof -
  obtain th1 where enter: "enter_call a caller offs th = Ok th1" using enter_call_total [OF assms(4)] .
  with assms(5) have run: "closure th1 = Ok (jumped, end_of th1)" "runs A R th1 jumped (end_of th1)" by blast+
  obtain r th3 where L: "leave_call a jumped (end_of th1) = Ok (r, th3)" "thread_inv th3 as" "same_calls th th3" "r \<noteq> None \<longleftrightarrow> jumped"
    "th_mem th3 (caller + 32) = th_mem th (caller + 32)" "th_mem th3 (caller + 40) = th_mem th (caller + 40)"
    "th_mem th3 (caller + 48) = th_mem th (caller + 48)"
    using leave_call_restores [OF assms(1-4) enter run(2)] .
  then have "catch_traps a caller offs closure th = Ok (r, th3)" by (simp add: catch_traps_def enter run(1))
  with L show ?thesis by blast
qed

text \<open>A builtin that traps after the entry and exit trampolines have written their fields.\<close>

definition trapping_call :: "thread \<Rightarrow> thread" where
  "trapping_call th = put_state 7 ((the (th_states th 7))\<lparr>cts_unwind := Some (Wasm_trap HeapMisaligned, [])\<rparr>)
     (th\<lparr>th_mem := (th_mem th)(1048 := 5120, 1032 := 4096, 1040 := 77)\<rparr>)"

definition idle_thread :: thread where
  "idle_thread = \<lparr>th_mem = (\<lambda>_. 0), th_tls = None, th_states = (\<lambda>_. None)\<rparr>"

lemma trapping_call_runs:
  assumes "enter_call 7 1000 \<lparr>ptr_size = 8\<rparr> idle_thread = Ok th1"
  shows "runs \<lparr>ar_target = X86_64, ar_xpaclri = id\<rparr> R th1 True (trapping_call th1)"
proof -
  have e: "th1 = \<lparr>th_mem = (\<lambda>_. 0), th_tls = Some 7, th_states = [7 \<mapsto> \<lparr>cts_unwind = None, cts_offsets = \<lparr>ptr_size = 8\<rparr>, cts_vmctx = 1000,
      cts_prev = 0, old_last_wasm_exit_fp = 0, old_last_wasm_exit_pc = 0, old_last_wasm_entry_fp = 0\<rparr>]\<rparr>"
    using assms by (simp add: enter_call_def call_thread_state_new_def vmctx_word_def state_push_def state_at_def put_state_def static_offset_defs idle_thread_def tls_or_null_def)
  show ?thesis
    by (rule runs_write [of _ _ _ 1048 5120], rule runs_write [of _ _ _ 1032 4096], rule runs_write [of _ _ _ 1040 77], rule runs_raise [of _ "Wasm_trap HeapMisaligned"])
      (simp add: e trapping_call_def raise_trap_def unwind_with_def new_with_trap_state_def trace_with_trap_state_def state_at_def vmctx_word_def static_offset_defs
        state_iter.simps saved_activation_def trace_through_wasm_def walk_frames.simps put_state_def, blast)
qed

lemma catch_traps_restores_witness:
  "\<exists>r th'. catch_traps 7 1000 \<lparr>ptr_size = 8\<rparr> (\<lambda>th. Ok (True, trapping_call th)) idle_thread = Ok (r, th') \<and> r \<noteq> None \<and>
     thread_inv th' [] \<and> th_mem th' 1032 = 0 \<and> th_mem th' 1040 = 0 \<and> th_mem th' 1048 = 0"
proof -
  have "thread_inv idle_thread []" "th_states idle_thread 7 = None" by (simp_all add: thread_inv_def idle_thread_def tls_or_null_def)
  from catch_traps_restores [OF this(1) _ this(2), of "\<lparr>ptr_size = 8\<rparr>" 1000 "\<lambda>th. Ok (True, trapping_call th)" True trapping_call
      "\<lparr>ar_target = X86_64, ar_xpaclri = id\<rparr>" undefined] trapping_call_runs
  show ?thesis by (auto simp: idle_thread_def)
qed

section \<open>Backtraces of linked frames\<close>

text \<open>The frames of one activation: from the frame at \<open>fp\<close> each frame stores the next older frame pointer and its
  return address, up to the frame of the entry trampoline.\<close>

fun linked_frames :: "arch \<Rightarrow> words \<Rightarrow> nat \<Rightarrow> nat \<Rightarrow> nat \<Rightarrow> Frame list \<Rightarrow> bool" where
  "linked_frames A mem trampoline_fp pc fp [] \<longleftrightarrow> fp = trampoline_fp"
| "linked_frames A mem trampoline_fp pc fp (fr # frs) \<longleftrightarrow>
     frame_pc fr = pc \<and> frame_fp fr = fp \<and> fp < trampoline_fp \<and> fp < mem fp \<and> assert_fp_is_aligned A fp = Ok () \<and>
     linked_frames A mem trampoline_fp (get_next_older_pc_from_fp A mem fp) (mem fp) frs"

definition activation_frames :: "arch \<Rightarrow> words \<Rightarrow> nat \<times> nat \<times> nat \<Rightarrow> Frame list \<Rightarrow> bool" where
  "activation_frames A mem act frs = (case act of (pc, fp, sp) \<Rightarrow>
     pc \<noteq> 0 \<and> fp \<noteq> 0 \<and> sp \<noteq> 0 \<and> linked_frames A mem sp pc fp frs)"

lemma walk_frames_linked:
  "linked_frames A mem tfp pc fp frs \<Longrightarrow>
     walk_frames A mem (\<lambda>frames frame. (frames @ [frame], False)) tfp pc fp acc = Ok (acc @ frs, False)"
  by (induction A mem tfp pc fp frs arbitrary: acc rule: linked_frames.induct)
     (simp_all add: walk_frames.simps NEXT_OLDER_FP_FROM_FP_OFFSET_def Let_def)

lemma trace_activations_linked:
  "list_all2 (activation_frames A mem) acts frss \<Longrightarrow> rest = [] \<or> hd rest = (0, 0, 0) \<Longrightarrow>
     trace_activations A mem (\<lambda>frames frame. (frames @ [frame], False)) (acts @ rest) acc = Ok (acc @ concat frss)"
proof (induction acts frss arbitrary: acc rule: list_all2_induct)
  case Nil
  then show ?case by (cases rest) auto
next
  case (Cons act acts frs frss)
  then obtain pc fp sp where act: "act = (pc, fp, sp)" "0 < pc" "0 < fp" "0 < sp" "linked_frames A mem sp pc fp frs"
    by (cases act) (auto simp: activation_frames_def)
  then show ?case using walk_frames_linked [OF act(5), of acc] Cons by (auto simp: trace_through_wasm_def)
qed

lemma new_with_trap_state_unfold:
  assumes "thread_inv th (a # as)" and "th_states th a = Some s" and "ptr_size (cts_offsets s) = 8"
  shows "new_with_trap_state A th a regs =
    trace_activations A (th_mem th) (\<lambda>frames frame. (frames @ [frame], False))
      ((case regs of Some (pc, fp) \<Rightarrow> (pc, fp, th_mem th (cts_vmctx s + 48))
        | None \<Rightarrow> (th_mem th (cts_vmctx s + 40), th_mem th (cts_vmctx s + 48), th_mem th (cts_vmctx s + 48))) #
       map (\<lambda>a. saved_activation (the (th_states th a))) (a # as)) []"
proof -
  have "chain (th_states th) a (a # as)" using assms(1) by (auto simp: thread_inv_def)
  then have "state_iter (th_states th) a = Some (map (\<lambda>a. the (th_states th a)) (a # as))" by (rule state_iter_chain)
  with assms(2,3) show ?thesis
    by (cases regs) (simp_all add: new_with_trap_state_def trace_with_trap_state_def state_at_def vmctx_word_def offsets_8
        comp_def case_prod_unfold del: list.map trace_activations.simps)
qed


text \<open>Two WebAssembly frames between the exit and the entry trampoline.\<close>

definition two_frames :: words where
  "two_frames = (\<lambda>_. 0)(1032 := 4096, 1040 := 77, 1048 := 4160, 4096 := 4128, 4104 := 88, 4128 := 4160)"

definition two_frames_thread :: thread where
  "two_frames_thread = \<lparr>th_mem = two_frames, th_tls = Some 7,
     th_states = [7 \<mapsto> \<lparr>cts_unwind = None, cts_offsets = \<lparr>ptr_size = 8\<rparr>, cts_vmctx = 1000, cts_prev = 0,
       old_last_wasm_exit_fp = 0, old_last_wasm_exit_pc = 0, old_last_wasm_entry_fp = 0\<rparr>]\<rparr>"

abbreviation (input) x86 :: arch where
  "x86 \<equiv> \<lparr>ar_target = X86_64, ar_xpaclri = id\<rparr>"


text \<open>C39. A trap that a builtin raises is traced from the frame pointer of the entry trampoline rather than from the one the
  exit trampoline saved: of the frames that lie between the two, none is in the backtrace.\<close>

theorem builtin_trap_loses_frames:
  assumes "thread_inv th [a]" and "th_states th a = Some s" and "ptr_size (cts_offsets s) = 8" and "saved_activation s = (0, 0, 0)"
    and "activation_frames A (th_mem th) (th_mem th (cts_vmctx s + 40), th_mem th (cts_vmctx s + 32), th_mem th (cts_vmctx s + 48)) frs"
  shows "new_with_trap_state A th a (Some (th_mem th (cts_vmctx s + 40), th_mem th (cts_vmctx s + 32))) = Ok frs \<and>
    unwind_with A a reason th = Ok (put_state a (s\<lparr>cts_unwind := Some (reason, [])\<rparr>) th)"
proof
  show "new_with_trap_state A th a (Some (th_mem th (cts_vmctx s + 40), th_mem th (cts_vmctx s + 32))) = Ok frs"
    using trace_activations_linked [of A "th_mem th" "[_]" "[frs]" "[(0, 0, 0)]" "[]"] assms(4,5)
    by (simp add: new_with_trap_state_unfold [OF assms(1-3)] assms(2) del: trace_activations.simps)
  have "activation_frames A (th_mem th) (th_mem th (cts_vmctx s + 40), th_mem th (cts_vmctx s + 48), th_mem th (cts_vmctx s + 48)) []"
    using assms(5) by (simp add: activation_frames_def)
  then have "new_with_trap_state A th a None = Ok []"
    using trace_activations_linked [of A "th_mem th" "[_]" "[[]]" "[(0, 0, 0)]" "[]"] assms(4)
    by (simp add: new_with_trap_state_unfold [OF assms(1-3)] assms(2) del: trace_activations.simps)
  then show "unwind_with A a reason th = Ok (put_state a (s\<lparr>cts_unwind := Some (reason, [])\<rparr>) th)"
    by (simp add: unwind_with_def state_at_def assms(2))
qed

lemma builtin_trap_loses_frames_witness:
  "new_with_trap_state x86 two_frames_thread 7 (Some (77, 4096)) = Ok [\<lparr>frame_pc = 77, frame_fp = 4096\<rparr>, \<lparr>frame_pc = 88, frame_fp = 4128\<rparr>] \<and>
   map_ok (\<lambda>th. map_option cts_unwind (th_states th 7)) (unwind_with x86 7 (Wasm_trap HeapMisaligned) two_frames_thread) =
     Ok (Some (Some (Wasm_trap HeapMisaligned, [])))"
proof -
  let ?frs = "[\<lparr>frame_pc = 77, frame_fp = 4096\<rparr>, \<lparr>frame_pc = 88, frame_fp = 4128\<rparr>]"
  let ?s = "the (th_states two_frames_thread 7)"
  have p: "thread_inv two_frames_thread [7]" "th_states two_frames_thread 7 = Some ?s" "ptr_size (cts_offsets ?s) = 8" "saved_activation ?s = (0, 0, 0)"
    "activation_frames x86 (th_mem two_frames_thread) (th_mem two_frames_thread (cts_vmctx ?s + 40), th_mem two_frames_thread (cts_vmctx ?s + 32),
       th_mem two_frames_thread (cts_vmctx ?s + 48)) ?frs"
    by (simp_all add: two_frames_thread_def two_frames_def thread_inv_def tls_or_null_def saved_activation_def activation_frames_def
        assert_fp_is_aligned_def get_next_older_pc_from_fp_def)
  show ?thesis
    using builtin_trap_loses_frames [OF p, of "Wasm_trap HeapMisaligned"] by (simp add: put_state_def) (simp add: two_frames_thread_def two_frames_def)
qed

text \<open>After the outermost call the thread-local pointer is not \<open>None\<close> again but a null pointer, which \<open>raise_trap\<close> and
  the signal handler would follow.\<close>

lemma tls_left_null:
  assumes "th_tls th = Some 0" and "th_states th 0 = None"
  shows "raise_trap A reason th = Panic ''dangling pointer''"
  using assms by (simp add: raise_trap_def state_at_def expect_def)

end
