(* ===== verification/Host_Func.thy ===== *)
theory Host_Func
  imports Host_Store Trap_Handling Type_Registry_Sys
begin

text \<open>
  Calls from the host: \<open>src/src/func.rs\<close> and \<open>src/src/values.rs\<close>. A call looks up the type of the function in the
  type registry, writes the arguments into the array of the store, sets the stack limit of the context, runs the
  array-call entry point of the function inside \<open>catch_traps\<close>, reads the results back from the array, and drops its
  reference to the type. The entry point is compiled code and a parameter of the model: from an address, the context
  of callee and caller and the array it gives the array it leaves and whether it jumped out.
\<close>

section \<open>Values\<close>

text \<open>Floats are kept as their bits; a function reference is a handle of the store.\<close>

datatype Val = Val_I32 int | Val_I64 int | Val_F32 nat | Val_F64 nat | Val_V128 nat | Val_FuncRef "nat option"

datatype HostRef = Ref_Func "nat option"

definition val_from_ref :: "HostRef \<Rightarrow> Val" where
  "val_from_ref r = (case r of Ref_Func f \<Rightarrow> Val_FuncRef f)"

definition ref_null :: "WasmHeapType \<Rightarrow> HostRef result" where
  "ref_null h = (case top_inner (top_type h) of
       Top_Func \<Rightarrow> Ok (Ref_Func None)
     | _ \<Rightarrow> Panic ''not yet implemented: heap type'')"

fun ref_is_null :: "HostRef \<Rightarrow> bool" where
  "ref_is_null (Ref_Func None) = True"
| "ref_is_null (Ref_Func (Some _)) = False"

definition val_null_ref :: "WasmHeapType \<Rightarrow> Val result" where
  "val_null_ref h = map_ok val_from_ref (ref_null h)"

definition null_func_ref :: Val where
  "null_func_ref = Val_FuncRef None"

text \<open>\<open>Func::as_raw\<close>: the address of the function reference.\<close>

definition as_raw :: "Store \<Rightarrow> nat \<Rightarrow> nat result" where
  "as_raw st f = stored_index st_exported_funcs st f"

definition as_vmval :: "Store \<Rightarrow> Val \<Rightarrow> VMVal result" where
  "as_vmval st v = (case v of
       Val_I32 i \<Rightarrow> Ok (vmval_i32 i)
     | Val_I64 i \<Rightarrow> Ok (vmval_i64 i)
     | Val_F32 u \<Rightarrow> Ok (vmval_f32 u)
     | Val_F64 u \<Rightarrow> Ok (vmval_f64 u)
     | Val_V128 b \<Rightarrow> Ok (vmval_v128 b)
     | Val_FuncRef f \<Rightarrow> map_ok vmval_funcref (case f of Some f \<Rightarrow> as_raw st f | None \<Rightarrow> Ok 0))"

definition from_vmval :: "VMVal \<Rightarrow> WasmValType \<Rightarrow> Val result" where
  "from_vmval raw ty = (case ty of
       I32 \<Rightarrow> map_ok Val_I32 (get_i32 raw)
     | I64 \<Rightarrow> map_ok Val_I64 (get_i64 raw)
     | F32 \<Rightarrow> map_ok Val_F32 (get_f32 raw)
     | F64 \<Rightarrow> map_ok Val_F64 (get_f64 raw)
     | V128 \<Rightarrow> map_ok Val_V128 (get_v128 raw)
     | Ref _ \<Rightarrow> Panic ''not yet implemented'')"

section \<open>Entering WebAssembly\<close>

record WasmExecutionGuard =
  stack_limit_ptr :: nat
  prev_stack :: nat

definition enter_wasm :: "nat \<Rightarrow> nat \<Rightarrow> StaticVMOffsets \<Rightarrow> thread \<Rightarrow> (WasmExecutionGuard \<times> thread) result" where
  "enter_wasm stack_pointer vmctx offsets th =
     and_then (expect (if MAX_WASM_STACK \<le> stack_pointer then Some (stack_pointer - MAX_WASM_STACK) else None)
        ''called `Option::unwrap()` on a `None` value'')
     (\<lambda>wasm_stack_limit. and_then (vmctx_stack_limit offsets)
     (\<lambda>off. let ptr = vmctx + off in
        Ok (\<lparr>stack_limit_ptr = ptr, prev_stack = th_mem th ptr\<rparr>, th\<lparr>th_mem := (th_mem th)(ptr := wasm_stack_limit)\<rparr>)))"

definition drop_guard :: "WasmExecutionGuard \<Rightarrow> thread \<Rightarrow> thread" where
  "drop_guard g th = th\<lparr>th_mem := (th_mem th)(stack_limit_ptr g := prev_stack g)\<rparr>"

section \<open>Calls\<close>

type_synonym array_code = "nat \<Rightarrow> nat \<Rightarrow> nat \<Rightarrow> VMVal list \<Rightarrow> thread \<Rightarrow> (bool \<times> VMVal list \<times> thread) result"

record 's host =
  h_store :: Store
  h_registry :: "'s TypeRegistryInner"
  h_thread :: thread

definition func_ty :: "'s slab_ops \<Rightarrow> nat \<Rightarrow> 's host \<Rightarrow> (RegisteredType \<times> 's host) result" where
  "func_ty S self h =
     and_then (stored_index st_exported_funcs (h_store h) self)
     (\<lambda>a. and_then (deref_func_ref (h_store h) a)
     (\<lambda>func_ref. and_then (get_type S (fr_type_index func_ref) (h_registry h))
     (\<lambda>(ty, reg). and_then (expect ty ''called `Option::unwrap()` on a `None` value'')
     (\<lambda>ty. Ok (ty, h\<lparr>h_registry := reg\<rparr>)))))"

text \<open>The error a trap becomes.\<close>

definition trap_error :: "TrapReason \<Rightarrow> Error" where
  "trap_error reason = (case reason of
       Wasm_trap trap_code \<Rightarrow> TrapError trap_code ''k23 builtin produced a trap''
     | Jit_trap _ _ trap_code \<Rightarrow> TrapError trap_code ''JIT-compiled WASM produced a trap'')"

text \<open>
  \<open>call_unchecked_raw\<close>; \<open>frame\<close> is where the call state lies on the native stack. The array is threaded through the
  closure: it is what the code left in it. The guard is dropped on both ways out.
\<close>

definition call_unchecked_raw ::
  "array_code \<Rightarrow> nat \<Rightarrow> nat \<Rightarrow> nat \<Rightarrow> VMVal list \<Rightarrow> 's host \<Rightarrow> (VMVal list result \<times> 's host) result" where
  "call_unchecked_raw code stack_pointer frame self args h =
     and_then (stored_index st_exported_funcs (h_store h) self)
     (\<lambda>a. and_then (deref_func_ref (h_store h) a)
     (\<lambda>func_ref. let vmctx = fr_vmctx func_ref in
        and_then (get_instance_from_vmctx (h_store h) vmctx)
     (\<lambda>i. and_then (host_instance_module (h_store h) i)
     (\<lambda>module. let offsets = static_offsets (m_offsets module) in
        and_then (enter_wasm stack_pointer vmctx offsets (h_thread h))
     (\<lambda>(guard, th). and_then (enter_call frame vmctx offsets th)
     (\<lambda>th1. and_then (code (fr_array_call func_ref) vmctx vmctx args th1)
     (\<lambda>(jumped, args', th2). and_then (leave_call frame jumped th2)
     (\<lambda>(res, th3). let h' = h\<lparr>h_thread := drop_guard guard th3\<rparr> in
        Ok (case res of Some (reason, _) \<Rightarrow> Err (trap_error reason) | None \<Rightarrow> Ok args', h')))))))))"

fun copy_args :: "Store \<Rightarrow> Val list \<Rightarrow> VMVal list \<Rightarrow> VMVal list result" where
  "copy_args st (arg # args) (slot # slots) =
     and_then (as_vmval st arg) (\<lambda>v. map_ok ((#) v) (copy_args st args slots))"
| "copy_args st _ slots = Ok slots"

fun copy_results :: "WasmValType list \<Rightarrow> nat \<Rightarrow> Val list \<Rightarrow> VMVal list \<Rightarrow> Val list result" where
  "copy_results tys i (slot # slots) (vmval # vmvals) =
     and_then (expect (pm_get tys i) ''index out of bounds'')
     (\<lambda>ty. and_then (from_vmval vmval ty) (\<lambda>v. map_ok ((#) v) (copy_results tys (Suc i) slots vmvals)))"
| "copy_results tys i slots _ = Ok slots"

text \<open>\<open>call_unchecked\<close> up to the drop of the type.\<close>

definition call_with_type ::
  "array_code \<Rightarrow> nat \<Rightarrow> nat \<Rightarrow> nat \<Rightarrow> RegisteredType \<Rightarrow> Val list \<Rightarrow> Val list \<Rightarrow> 's host \<Rightarrow> (Val list result \<times> 's host) result" where
  "call_with_type code stack_pointer frame self ty args slots h =
     and_then (unwrap_func (rt_ty ty))
     (\<lambda>ft. let values_vec_size = max (length args) (length (results ft)) in
        case take_wasm_vmval_storage (h_store h) of (values_vec, st) \<Rightarrow>
        and_then (assert_that (values_vec = []) ''assertion failed: values_vec.is_empty()'')
     (\<lambda>_. and_then (copy_args st args (replicate values_vec_size (vmval_v128 0)))
     (\<lambda>values_vec. and_then (call_unchecked_raw code stack_pointer frame self values_vec (h\<lparr>h_store := st\<rparr>))
     (\<lambda>(r, h1). case r of
          Err e \<Rightarrow> Ok (Err e, h1)
        | Panic m \<Rightarrow> Panic m
        | Ok values_vec' \<Rightarrow>
            and_then (copy_results (results ft) 0 slots values_vec')
            (\<lambda>vs. Ok (Ok vs, h1\<lparr>h_store := return_wasm_vmval_storage [] (h_store h1)\<rparr>))))))"

definition drop_func_type :: "'s slab_ops \<Rightarrow> RegisteredType \<Rightarrow> 'a \<times> 's host \<Rightarrow> ('a \<times> 's host) result option" where
  "drop_func_type S ty rh = (case rh of (r, h) \<Rightarrow>
     map_option (map_ok (\<lambda>reg. (r, h\<lparr>h_registry := reg\<rparr>))) (drop_registered_type S ty (h_registry h)))"

definition call_unchecked ::
  "'s slab_ops \<Rightarrow> array_code \<Rightarrow> nat \<Rightarrow> nat \<Rightarrow> nat \<Rightarrow> Val list \<Rightarrow> Val list \<Rightarrow> 's host \<Rightarrow> (Val list result \<times> 's host) result option" where
  "call_unchecked S code stack_pointer frame self args slots h =
     (case func_ty S self h of
        Err e \<Rightarrow> Some (Err e)
      | Panic m \<Rightarrow> Some (Panic m)
      | Ok (ty, h1) \<Rightarrow>
          (case call_with_type code stack_pointer frame self ty args slots h1 of
             Err e \<Rightarrow> Some (Err e)
           | Panic m \<Rightarrow> Some (Panic m)
           | Ok rh \<Rightarrow> drop_func_type S ty rh))"

section \<open>Passing values\<close>

fun is_reference :: "WasmValType \<Rightarrow> bool" where
  "is_reference (Ref _) = True"
| "is_reference _ = False"

text \<open>The values a host may pass at a type; a function reference is null or a handle of the store.\<close>

fun val_typed :: "Store \<Rightarrow> Val \<Rightarrow> WasmValType \<Rightarrow> bool" where
  "val_typed st (Val_I32 i) t \<longleftrightarrow> t = I32 \<and> signed_range 32 i"
| "val_typed st (Val_I64 i) t \<longleftrightarrow> t = I64 \<and> signed_range 64 i"
| "val_typed st (Val_F32 u) t \<longleftrightarrow> t = F32 \<and> u < 2 ^ 32"
| "val_typed st (Val_F64 u) t \<longleftrightarrow> t = F64 \<and> u < 2 ^ 64"
| "val_typed st (Val_V128 u) t \<longleftrightarrow> t = V128 \<and> u < 2 ^ 128"
| "val_typed st (Val_FuncRef f) t \<longleftrightarrow> is_reference t \<and> (\<forall>h. f = Some h \<longrightarrow> stored_has st_exported_funcs st h)"

lemma as_vmval_total: "val_typed st v t \<Longrightarrow> \<exists>raw. as_vmval st v = Ok raw"
  by (cases v) (auto simp: as_vmval_def as_raw_def stored_index_def stored_has_def stored_get_def split: option.split)

lemma from_as_vmval: "val_typed st v t \<Longrightarrow> \<not> is_reference t \<Longrightarrow> as_vmval st v = Ok raw \<Longrightarrow> from_vmval raw t = Ok v"
  by (cases v) (auto simp: as_vmval_def from_vmval_def get_f32_def get_f64_def get_v128_def vmval_f32_def vmval_f64_def
      vmval_v128_def read_union_of)

lemma as_vmvals_total: "list_all2 (val_typed st) vs ts \<Longrightarrow> \<exists>raws. collect (as_vmval st) vs = Ok raws \<and> length raws = length vs"
  by (induction vs ts rule: list_all2_induct) (auto dest: as_vmval_total)

lemma copy_args_collect:
  "collect (as_vmval st) vs = Ok raws \<Longrightarrow> length vs \<le> length slots \<Longrightarrow> copy_args st vs slots = Ok (raws @ drop (length vs) slots)"
  by (induction vs arbitrary: raws slots; case_tac slots) auto

lemma copy_results_collect:
  "list_all2 (val_typed st) vs ts \<Longrightarrow> \<forall>t\<in>set ts. \<not> is_reference t \<Longrightarrow> collect (as_vmval st) vs = Ok raws \<Longrightarrow>
     length slots = length vs \<Longrightarrow> i = length pre \<Longrightarrow> copy_results (pre @ ts) i slots (raws @ rest) = Ok vs"
proof (induction vs ts arbitrary: raws slots pre i rule: list_all2_induct)
  case (Cons v vs t ts)
  from Cons.prems obtain slot slots' where "slots = slot # slots'" by (cases slots) auto
  with Cons.prems Cons.IH [of _ slots' "Suc i" "pre @ [t]"] from_as_vmval [OF Cons.hyps(1)] show ?case
    by (auto simp: pm_get_def nth_append)
qed simp

section \<open>A call\<close>

text \<open>A handle whose function reference belongs to an instance of the store.\<close>

definition callable :: "Store \<Rightarrow> nat \<Rightarrow> VMFuncRefValue \<Rightarrow> bool" where
  "callable st self fr \<longleftrightarrow> (\<exists>a i inst. stored_get st_exported_funcs st self = Some a \<and> deref_func_ref st a = Ok fr \<and>
     st_vmctx2instance st (fr_vmctx fr) = Some i \<and> stored_get st_instances st i = Some inst \<and>
     ptr_size (static_offsets (m_offsets (in_module inst))) = 8)"

text \<open>The fields of a context that a call has to leave as they were.\<close>

definition same_context :: "nat \<Rightarrow> words \<Rightarrow> words \<Rightarrow> bool" where
  "same_context vmctx mem mem' \<longleftrightarrow> mem' (vmctx + 24) = mem (vmctx + 24) \<and> mem' (vmctx + 32) = mem (vmctx + 32) \<and>
     mem' (vmctx + 40) = mem (vmctx + 40) \<and> mem' (vmctx + 48) = mem (vmctx + 48)"

lemma call_unchecked_raw_ok:
  assumes callable: "callable (h_store h) self fr" and stack: "MAX_WASM_STACK \<le> sp"
    and th: "thread_inv (h_thread h) as" "frame \<noteq> 0" "th_states (h_thread h) frame = None"
    and run: "\<And>th1. thread_inv th1 (frame # as) \<Longrightarrow> \<exists>th2. code (fr_array_call fr) (fr_vmctx fr) (fr_vmctx fr) args th1 = Ok (jumped, args', th2) \<and>
      runs A R th1 jumped th2"
  obtains res th' where "call_unchecked_raw code sp frame self args h = Ok (res, h\<lparr>h_thread := th'\<rparr>)"
    "if jumped then \<exists>t m. res = Err (TrapError t m) else res = Ok args'"
    "thread_inv th' as" "same_calls (h_thread h) th'" "same_context (fr_vmctx fr) (th_mem (h_thread h)) (th_mem th')"
proof -
  let ?th = "h_thread h" and ?ctx = "fr_vmctx fr"
  from callable obtain a i inst where c: "stored_get st_exported_funcs (h_store h) self = Some a" "deref_func_ref (h_store h) a = Ok fr"
    "st_vmctx2instance (h_store h) ?ctx = Some i" "stored_get st_instances (h_store h) i = Some inst"
    and offs: "ptr_size (static_offsets (m_offsets (in_module inst))) = 8" by (auto simp: callable_def)
  let ?offs = "static_offsets (m_offsets (in_module inst))"
  define g where "g = \<lparr>stack_limit_ptr = ?ctx + 24, prev_stack = th_mem ?th (?ctx + 24)\<rparr>"
  define th0 where "th0 = ?th\<lparr>th_mem := (th_mem ?th)(?ctx + 24 := sp - MAX_WASM_STACK)\<rparr>"
  have enter: "enter_wasm sp ?ctx ?offs ?th = Ok (g, th0)"
    using stack offs by (simp add: enter_wasm_def static_offset_defs g_def th0_def Let_def)
  have same0: "same_calls ?th th0" by (simp add: same_calls_def th0_def tls_or_null_def)
  have inv0: "thread_inv th0 as" and free: "th_states th0 frame = None" using same_calls_inv [OF th(1) same0] th(3) by (simp_all add: th0_def)
  obtain th1 where th1: "enter_call frame ?ctx ?offs th0 = Ok th1" using enter_call_total [OF offs] .
  from run [OF enter_call_ok(1) [OF inv0 free th(2) th1]] obtain th2 where
    code: "code (fr_array_call fr) ?ctx ?ctx args th1 = Ok (jumped, args', th2)" and runs: "runs A R th1 jumped th2" by blast
  obtain r th3 where L: "leave_call frame jumped th2 = Ok (r, th3)" "thread_inv th3 as" "same_calls th0 th3" "r \<noteq> None \<longleftrightarrow> jumped"
    "th_mem th3 (?ctx + 32) = th_mem th0 (?ctx + 32)" "th_mem th3 (?ctx + 40) = th_mem th0 (?ctx + 40)"
    "th_mem th3 (?ctx + 48) = th_mem th0 (?ctx + 48)" using leave_call_restores [OF inv0 th(2) free offs th1 runs] .
  define res where "res = ((case r of Some (reason, _) \<Rightarrow> Err (trap_error reason) | None \<Rightarrow> Ok args') :: VMVal list result)"
  have "call_unchecked_raw code sp frame self args h = Ok (res, h\<lparr>h_thread := drop_guard g th3\<rparr>)"
    using c by (simp add: call_unchecked_raw_def stored_index_def get_instance_from_vmctx_def host_instance_module_def Let_def
        enter th1 code L(1) res_def)
  moreover have "if jumped then \<exists>t m. res = Err (TrapError t m) else res = Ok args'"
    using L(4) by (auto simp: res_def trap_error_def split: option.splits TrapReason.splits)
  moreover have "same_calls th3 (drop_guard g th3)" by (simp add: same_calls_def drop_guard_def tls_or_null_def)
  moreover have "same_context ?ctx (th_mem ?th) (th_mem (drop_guard g th3))"
    using L(5-7) by (simp add: same_context_def drop_guard_def g_def th0_def)
  ultimately show thesis using same_calls_inv [OF L(2)] same_calls_trans [OF same0 L(3)] same_calls_trans that by blast
qed

text \<open>The function type of a call, and the registration it holds meanwhile.\<close>

lemma func_ty_ok:
  assumes "slab_contract S ok" and inv: "registry_inv S ok ext (h_registry h)" and callable: "callable (h_store h) self fr"
    and ty: "slab_get S (slab_types (h_registry h)) (fr_type_index fr) = Some t"
  obtains rt reg reg' where "func_ty S self h = Ok (rt, h\<lparr>h_registry := reg\<rparr>)" "rt_ty rt = t" "drop_registered_type S rt reg = Some (Ok reg')"
    "registry_inv S ok ext reg'"
proof -
  from get_type_inv [OF inv, of "fr_type_index fr"] ty obtain e reg where
    g: "get_type S (fr_type_index fr) (h_registry h) = Ok (Some \<lparr>rt_entry = e, rt_ty = t, rt_index = fr_type_index fr\<rparr>, reg)"
    and held: "registry_inv S ok (ext(e := ext e + 1)) reg" by auto
  from release_entry_inv [OF assms(1) held, of e] obtain reg' where
    "release_entry S e reg = Some (Ok reg')" "registry_inv S ok ext reg'" by auto
  moreover have "func_ty S self h = Ok (\<lparr>rt_entry = e, rt_ty = t, rt_index = fr_type_index fr\<rparr>, h\<lparr>h_registry := reg\<rparr>)"
    using callable by (auto simp: callable_def func_ty_def stored_index_def g)
  ultimately show thesis using that by (auto simp: drop_registered_type_def)
qed


text \<open>A function of type \<open>i32\<close> to \<open>i64\<close> that returns 42.\<close>

definition answer_type :: WasmSubType where
  "answer_type = \<lparr>is_final = True, supertype = None, composite_type = new_func False \<lparr>params = [I32], results = [I64]\<rparr>\<rparr>"

definition answer_types :: ModuleTypes where
  "answer_types = \<lparr>wasm_types = [answer_type], rec_groups = [(0, 1)], seen_types = Map.empty\<rparr>"

definition answer_ref :: VMFuncRefValue where
  "answer_ref = \<lparr>fr_array_call = 200, fr_wasm_call = 100, fr_vmctx = 4096, fr_type_index = 0\<rparr>"

definition answer_store :: Store where
  "answer_store = snd (push_function 4152 (snd (push_instance
     (exporting_instance\<lparr>in_vmctx := tiny_context\<lparr>ctx_cells := [56 \<mapsto> FuncRefCell answer_ref]\<rparr>\<rparr>) store_new)))"

definition answer_code :: array_code where
  "answer_code addr vmctx caller args th = Ok (False, [vmval_i64 42], th\<lparr>th_mem := (th_mem th)(vmctx + 48 := 9)\<rparr>)"

lemma answer_registered:
  "\<exists>c s. register_module_types list_slab_ops answer_types (registry_default []) = Ok (c, s) \<and>
     registry_inv list_slab_ops (\<lambda>_. True) (\<lambda>e. count_list (collection_rec_groups c) e) s \<and>
     slab_get list_slab_ops (slab_types s) 0 = Some answer_type"
proof -
  have wf: "module_types_wf answer_types" by code_simp
  have bound: "slab_len list_slab_ops (slab_types (registry_default [])) + 3 * length (wasm_types answer_types) < 2 ^ 32"
    by (simp add: answer_types_def registry_default_def list_slab_ops_def)
  have canonical: "canonicalize_for_hash_consing rng f answer_type = (Ok answer_type :: WasmSubType result)"
    "canonicalize_for_runtime_usage g answer_type = (Ok answer_type :: WasmSubType result)" "is_canonicalized_for_runtime_usage answer_type"
    "edges_sub_type answer_type = []" for rng f g by code_simp+
  have "map_ok (\<lambda>(c, s). slab_get list_slab_ops (slab_types s) 0) (register_module_types list_slab_ops answer_types (registry_default [])) = Ok (Some answer_type)"
    by (simp add: register_module_types_def register_group_step_def register_rec_group_def register_new_rec_group_def canonical_rec_group_def
        register_one_type_def insert_one_type_from_rec_group_def link_type_to_entry_def push_engine_type_def trace_rec_group_edges
        canonical answer_types_def registry_default_def list_slab_ops_def get_wasm_type_def pm_get_def pm_push_def try_into_def Let_def upt_conv_Cons)
  with register_module_types_inv [OF list_slab_contract list_registry_inv wf bound] show ?thesis by auto
qed

lemma answer_callable: "callable answer_store 0 answer_ref"
  by (simp add: callable_def answer_store_def push_function_def push_instance_def store_new_def stored_get_def pm_get_def Let_def
      deref_func_ref_def func_ref_at_def vmctx_as_ptr_def tiny_context_def exporting_instance_def exporting_module_def tiny_module_def
      tiny_offsets_def answer_ref_def)


end
