(* ===== verification/Cranelift_Compiler.thy ===== *)
theory Cranelift_Compiler
  imports Vm_Instance Func_Translator
begin

text \<open>
  The compiler of \<open>src/src/cranelift/compiler.rs\<close>: compiling a function body, and the trampolines between the array calling
  convention of the host and the calling convention of WebAssembly code. Instructions are emitted through the
  interface of \<open>Clif\<close>; what else the compiler uses of Cranelift is the record \<open>code_ops\<close>. The pool of
  contexts that the compiler reuses is threaded as a state, since a compilation that fails drops its context.
\<close>

section \<open>Code generation\<close>

text \<open>
  Beside the builder: the frame pointer and return address of the current frame, stack slots, a builder for an
  empty function of a signature, the stack limit of the function, and machine code with its alignment for a finished function.
\<close>

record 'b code_ops =
  co_clif :: "'b clif_ops"
  co_get_frame_pointer :: "ir_Type \<Rightarrow> 'b \<Rightarrow> ir_Value \<times> 'b"
  co_get_return_address :: "ir_Type \<Rightarrow> 'b \<Rightarrow> ir_Value \<times> 'b"
  co_create_sized_stack_slot :: "nat \<Rightarrow> nat \<Rightarrow> 'b \<Rightarrow> nat \<times> 'b"
  co_stack_addr :: "ir_Type \<Rightarrow> nat \<Rightarrow> int \<Rightarrow> 'b \<Rightarrow> ir_Value \<times> 'b"
  co_function :: "Signature \<Rightarrow> 'b"
  co_set_stack_limit :: "GlobalValue \<Rightarrow> 'b \<Rightarrow> 'b"
  co_compile :: "'b \<Rightarrow> (MachBuffer \<times> nat) result"
  co_user_named_funcs :: "'b \<Rightarrow> (nat \<times> nat) list"
  co_preferred_alignment :: nat

text \<open>Sequencing of emitters.\<close>

definition em_then :: "('a, 'b) emitter \<Rightarrow> ('a \<Rightarrow> ('c, 'b) emitter) \<Rightarrow> ('c, 'b) emitter" where
  "em_then m f b = and_then (m b) (\<lambda>(a, b'). f a b')"

definition em_ok :: "'a \<Rightarrow> ('a, 'b) emitter" where
  "em_ok a b = Ok (a, b)"

definition em_of :: "'a result \<Rightarrow> ('a, 'b) emitter" where
  "em_of r b = map_ok (\<lambda>a. (a, b)) r"

definition em_build :: "('b \<Rightarrow> 'a \<times> 'b) \<Rightarrow> ('a, 'b) emitter" where
  "em_build f b = Ok (f b)"

definition em_ask :: "('b \<Rightarrow> 'a) \<Rightarrow> ('a, 'b) emitter" where
  "em_ask f b = Ok (f b, b)"

lemmas em_defs = em_then_def em_ok_def em_of_def em_build_def em_ask_def

section \<open>Checks in trampolines\<close>

definition debug_assert_enough_capacity_for_length :: "'b code_ops \<Rightarrow> nat \<Rightarrow> ir_Value \<Rightarrow> (unit, 'b) emitter" where
  "debug_assert_enough_capacity_for_length K len capacity =
     em_then (em_of (expect (try_into (2 ^ 63) len) ''called `Result::unwrap()` on an `Err` value''))
     (\<lambda>n. em_then (em_build (ins (co_clif K) (Icmp_imm CC_UnsignedGreaterThanOrEqual capacity (int n))))
     (\<lambda>enough_capacity. em_then (em_build (ins_inst (co_clif K) (Trapz enough_capacity TRAP_INTERNAL_ASSERT)))
     (\<lambda>_. em_ok ())))"

definition debug_assert_vmctx_kind :: "'b code_ops \<Rightarrow> ir_Value \<Rightarrow> nat \<Rightarrow> (unit, 'b) emitter" where
  "debug_assert_vmctx_kind K vmctx expected_vmctx_magic =
     em_then (em_build (ins (co_clif K) (Load Op_Load IR_I32 (memflags_trusted\<lparr>mf_little := True\<rparr>) vmctx 0)))
     (\<lambda>magic. em_then (em_build (ins (co_clif K) (Icmp_imm CC_Equal magic (int expected_vmctx_magic))))
     (\<lambda>is_expected_vmctx. em_then (em_build (ins_inst (co_clif K) (Trapz is_expected_vmctx TRAP_INTERNAL_ASSERT)))
     (\<lambda>_. em_ok ())))"

section \<open>Values in arrays\<close>

text \<open>\<open>MemFlags::new().with_notrap().with_endianness(Little)\<close>.\<close>

definition array_flags :: MemFlags where
  "array_flags = memflags_new\<lparr>mf_trap_code := Some None, mf_little := True\<rparr>"

text \<open>\<open>i32::try_from(i.wrapping_mul(value_size)).unwrap()\<close> with 16 bytes a value.\<close>

definition slot_offset :: "nat \<Rightarrow> int result" where
  "slot_offset i = to_i32 (i * 16 mod 2 ^ 64)"

fun load_values :: "'b code_ops \<Rightarrow> ir_Value \<Rightarrow> ir_Type \<Rightarrow> nat \<Rightarrow> WasmValType list \<Rightarrow> (ir_Value list, 'b) emitter" where
  "load_values K values_vec_ptr pointer_ty i [] = em_ok []"
| "load_values K values_vec_ptr pointer_ty i (ty # tys) =
     em_then (em_of (value_type ty pointer_ty))
     (\<lambda>ir_ty. em_then (em_of (slot_offset i))
     (\<lambda>off. em_then (em_build (ins (co_clif K) (Load Op_Load ir_ty array_flags values_vec_ptr off)))
     (\<lambda>val. em_then (load_values K values_vec_ptr pointer_ty (Suc i) tys)
     (\<lambda>vals. em_ok (val # vals)))))"

definition load_values_from_array ::
  "'b code_ops \<Rightarrow> WasmValType list \<Rightarrow> ir_Value \<Rightarrow> ir_Value \<Rightarrow> ir_Type \<Rightarrow> (ir_Value list, 'b) emitter" where
  "load_values_from_array K types values_vec_ptr values_vec_capacity pointer_ty =
     em_then (debug_assert_enough_capacity_for_length K (length types) values_vec_capacity)
     (\<lambda>_. load_values K values_vec_ptr pointer_ty 0 types)"

fun store_values :: "'b code_ops \<Rightarrow> ir_Value \<Rightarrow> nat \<Rightarrow> ir_Value list \<Rightarrow> (unit, 'b) emitter" where
  "store_values K values_vec_ptr i [] = em_ok ()"
| "store_values K values_vec_ptr i (val # vals) =
     em_then (em_of (slot_offset i))
     (\<lambda>off. em_then (em_build (ins_inst (co_clif K) (Store Op_Store array_flags val values_vec_ptr off)))
     (\<lambda>_. store_values K values_vec_ptr (Suc i) vals))"

definition store_values_to_array ::
  "'b code_ops \<Rightarrow> WasmValType list \<Rightarrow> ir_Value list \<Rightarrow> ir_Value \<Rightarrow> ir_Value \<Rightarrow> (unit, 'b) emitter" where
  "store_values_to_array K types vals values_vec_ptr values_vec_capacity =
     em_then (em_of (assert_that (length types = length vals) ''assertion failed: types.len() == values.len()''))
     (\<lambda>_. em_then (debug_assert_enough_capacity_for_length K (length types) values_vec_capacity)
     (\<lambda>_. store_values K values_vec_ptr 0 vals))"

definition allocate_stack_array_and_spill_args ::
  "'b code_ops \<Rightarrow> WasmFuncType \<Rightarrow> ir_Value list \<Rightarrow> ir_Type \<Rightarrow> (ir_Value \<times> nat, 'b) emitter" where
  "allocate_stack_array_and_spill_args K ty args pointer_ty =
     (let values_vec_len = max (length (params ty)) (length (results ty)) in
      em_then (em_of (expect (try_into u32_bound (16 * values_vec_len mod 2 ^ 64)) ''called `Result::unwrap()` on an `Err` value''))
     (\<lambda>values_vec_byte_size.
      em_then (em_of (expect (try_into u32_bound values_vec_len) ''called `Result::unwrap()` on an `Err` value''))
     (\<lambda>values_vec_len. em_then (em_build (co_create_sized_stack_slot K values_vec_byte_size 4))
     (\<lambda>slot. em_then (em_build (co_stack_addr K pointer_ty slot 0))
     (\<lambda>values_vec_ptr. em_then (em_build (ins (co_clif K) (Iconst IR_I32 (int values_vec_len))))
     (\<lambda>len_val. em_then (store_values_to_array K (params ty) args values_vec_ptr len_val)
     (\<lambda>_. em_ok (values_vec_ptr, values_vec_len))))))))"

section \<open>Calls and saved registers\<close>

definition declare_and_call :: "'b code_ops \<Rightarrow> Signature \<Rightarrow> nat \<Rightarrow> ir_Value list \<Rightarrow> (ir_Inst, 'b) emitter" where
  "declare_and_call K sg index args =
     em_then (em_build (import_signature (co_clif K) sg))
     (\<lambda>sig. em_then (em_build (import_function (co_clif K)
        \<lparr>ef_namespace = NS_WASM_FUNC, ef_index = index, ef_signature = sig, ef_colocated = True\<rparr>))
     (\<lambda>callee. em_build (ins_inst (co_clif K) (Call_inst callee args))))"

text \<open>\<open>arch::NEXT_OLDER_FP_FROM_FP_OFFSET\<close> is zero on every architecture.\<close>

definition save_last_wasm_exit_fp_and_pc :: "'b code_ops \<Rightarrow> ir_Type \<Rightarrow> StaticVMOffsets \<Rightarrow> ir_Value \<Rightarrow> (unit, 'b) emitter" where
  "save_last_wasm_exit_fp_and_pc K pointer_ty offsets vmctx =
     em_then (em_build (co_get_frame_pointer K pointer_ty))
     (\<lambda>trampoline_fp. em_then (em_build (ins (co_clif K) (Load Op_Load pointer_ty memflags_trusted trampoline_fp 0)))
     (\<lambda>wasm_fp. em_then (em_of (vmctx_last_wasm_exit_fp offsets))
     (\<lambda>fp_off. em_then (em_build (ins_inst (co_clif K) (Store Op_Store memflags_trusted wasm_fp vmctx (int fp_off))))
     (\<lambda>_. em_then (em_build (co_get_return_address K pointer_ty))
     (\<lambda>wasm_pc. em_then (em_of (vmctx_last_wasm_exit_pc offsets))
     (\<lambda>pc_off. em_then (em_build (ins_inst (co_clif K) (Store Op_Store memflags_trusted wasm_pc vmctx (int pc_off))))
     (\<lambda>_. em_ok ())))))))"

definition array_call_signature :: "ir_Type \<Rightarrow> Signature" where
  "array_call_signature p = (let sig = blank_sig p in sig\<lparr>sig_params := sig_params sig @ [p, p]\<rparr>)"

text \<open>The signature of a builtin: the generated function has no arm, as there are no builtins.\<close>

definition builtin_signature :: "nat \<Rightarrow> Signature result" where
  "builtin_signature i = Panic ''internal error: entered unreachable code''"

definition builtin_functions_total_number :: nat where
  "builtin_functions_total_number = 0"

definition builtin_functions_new :: "ir_FuncRef option list" where
  "builtin_functions_new = replicate builtin_functions_total_number None"

definition load_builtin ::
  "'b code_ops \<Rightarrow> nat \<Rightarrow> ir_FuncRef option list \<Rightarrow> (ir_FuncRef \<times> ir_FuncRef option list, 'b) emitter" where
  "load_builtin K index builtins =
     em_then (em_of (pm_index builtins index))
     (\<lambda>cache. case cache of
         Some f \<Rightarrow> em_ok (f, builtins)
       | None \<Rightarrow>
           em_then (em_of (builtin_signature index))
           (\<lambda>sig. em_then (em_build (import_signature (co_clif K) sig))
           (\<lambda>sg. em_then (em_build (import_function (co_clif K)
              \<lparr>ef_namespace = NS_BUILTIN, ef_index = index, ef_signature = sg, ef_colocated = True\<rparr>))
           (\<lambda>f. em_ok (f, builtins[index := Some f])))))"

section \<open>Trampolines\<close>

text \<open>\<open>FunctionCompiler::builder\<close>.\<close>

definition function_builder :: "'b code_ops \<Rightarrow> Signature \<Rightarrow> ir_Block \<times> 'b" where
  "function_builder K sig = (let C = co_clif K in
     case create_block C (co_function K sig) of (block0, b) \<Rightarrow>
       (block0, seal_block C block0 (switch_to_block C block0 (append_params_for_function_params C block0 b))))"

text \<open>The type of a defined function.\<close>

definition defined_func_type :: "TranslatedModule \<Rightarrow> ModuleTypes \<Rightarrow> FuncIndex \<Rightarrow> WasmFuncType result" where
  "defined_func_type m types index =
     and_then (pm_index (mod_functions m) index)
     (\<lambda>desc. and_then (pm_index (mod_types m) (signature desc))
     (\<lambda>ti. and_then (expect (get_wasm_type types ti) ''called `Option::unwrap()` on a `None` value'') unwrap_func))"

definition emit_array_to_wasm ::
  "'b code_ops \<Rightarrow> ir_Type \<Rightarrow> StaticVMOffsets \<Rightarrow> WasmFuncType \<Rightarrow> Signature \<Rightarrow> FuncIndex \<Rightarrow> ir_Block \<Rightarrow> (unit, 'b) emitter" where
  "emit_array_to_wasm K pointer_ty offsets func_ty wasm_call_sig index block0 =
     em_then (em_ask (\<lambda>b. block_params (co_clif K) b block0))
     (\<lambda>ps. em_then (em_of (assert_that (4 \<le> length ps) ''index out of bounds''))
     (\<lambda>_. let vmctx = ps ! 0; caller_vmctx = ps ! 1; values_vec_ptr = ps ! 2; values_vec_len = ps ! 3 in
      em_then (load_values_from_array K (params func_ty) values_vec_ptr values_vec_len pointer_ty)
     (\<lambda>args. em_then (debug_assert_vmctx_kind K vmctx VMCONTEXT_MAGIC)
     (\<lambda>_. em_then (em_build (co_get_frame_pointer K pointer_ty))
     (\<lambda>fp. em_then (em_of (vmctx_last_wasm_entry_fp offsets))
     (\<lambda>off. em_then (em_build (ins_inst (co_clif K) (Store Op_Store memflags_trusted fp vmctx (int off))))
     (\<lambda>_. em_then (declare_and_call K wasm_call_sig index (vmctx # caller_vmctx # args))
     (\<lambda>call. em_then (em_ask (\<lambda>b. inst_results (co_clif K) b call))
     (\<lambda>rs. em_then (store_values_to_array K (results func_ty) rs values_vec_ptr values_vec_len)
     (\<lambda>_. em_then (em_build (ins_inst (co_clif K) (Return_inst [])))
     (\<lambda>_. em_build (\<lambda>b. ((), finalize (co_clif K) b)))))))))))))"

definition emit_wasm_to_builtin ::
  "'b code_ops \<Rightarrow> ir_Type \<Rightarrow> StaticVMOffsets \<Rightarrow> Signature \<Rightarrow> nat \<Rightarrow> ir_Block \<Rightarrow> (unit, 'b) emitter" where
  "emit_wasm_to_builtin K pointer_ty offsets sig index block0 =
     em_then (em_ask (\<lambda>b. block_params (co_clif K) b block0))
     (\<lambda>ps. em_then (em_of (assert_that (ps \<noteq> []) ''index out of bounds''))
     (\<lambda>_. let vmctx = ps ! 0 in
      em_then (debug_assert_vmctx_kind K vmctx VMCONTEXT_MAGIC)
     (\<lambda>_. em_then (save_last_wasm_exit_fp_and_pc K pointer_ty offsets vmctx)
     (\<lambda>_. em_then (em_of (vmctx_builtin_functions offsets))
     (\<lambda>off. em_then (em_build (ins (co_clif K) (Load Op_Load pointer_ty readonly_flags vmctx (int off))))
     (\<lambda>array_addr. em_then (em_of (to_i32 (index * ty_bytes pointer_ty mod u32_bound)))
     (\<lambda>func_offset. em_then (em_build (ins (co_clif K) (Load Op_Load pointer_ty readonly_flags array_addr func_offset)))
     (\<lambda>func_addr. em_then (em_build (import_signature (co_clif K) sig))
     (\<lambda>sig_ref. em_then (em_build (ins_inst (co_clif K) (Call_indirect_inst sig_ref func_addr ps)))
     (\<lambda>call. em_then (em_ask (\<lambda>b. inst_results (co_clif K) b call))
     (\<lambda>rs. em_then (em_build (ins_inst (co_clif K) (Return_inst rs)))
     (\<lambda>_. em_build (\<lambda>b. ((), finalize (co_clif K) b))))))))))))))"

section \<open>The compiler\<close>

text \<open>What a compilation context keeps from one function to the next is the state of the function translator.\<close>

type_synonym context_pool = "FuncTranslationState list"

record CraneliftCompiler =
  cl_isa :: TargetIsa
  cl_offsets :: StaticVMOffsets

definition cranelift_compiler_new :: "TargetIsa \<Rightarrow> CraneliftCompiler \<times> context_pool" where
  "cranelift_compiler_new isa = (\<lparr>cl_isa = isa, cl_offsets = \<lparr>ptr_size = ty_bytes (isa_pointer_type isa)\<rparr>\<rparr>, [])"

text \<open>\<open>contexts.lock().pop()\<close>, or a new context.\<close>

definition function_compiler :: "(FuncTranslationState, context_pool) io" where
  "function_compiler pool = (if pool = [] then (Ok func_state_new, []) else (Ok (last pool), butlast pool))"

text \<open>The context goes back to the pool only when the function was compiled.\<close>

definition finish_function ::
  "'b code_ops \<Rightarrow> (nat \<times> nat) option \<Rightarrow> FuncTranslationState \<Rightarrow> 'b \<Rightarrow> (CompiledFunction, context_pool) io" where
  "finish_function K body s b =
     io_then (io_pure (co_compile K b))
     (\<lambda>(buffer, buffer_alignment).
        let alignment = max buffer_alignment (co_preferred_alignment K);
            f = compiled_function_new buffer (co_user_named_funcs K b) alignment
        in io_then (io_pure (case body of
              None \<Rightarrow> Ok f
            | Some (offset, len) \<Rightarrow>
                and_then (expect (try_into u32_bound offset) ''called `Result::unwrap()` on an `Err` value'')
                (\<lambda>start. and_then (expect (try_into u32_bound (offset + len)) ''called `Result::unwrap()` on an `Err` value'')
                (\<lambda>_. Ok (f\<lparr>cf_start_srcloc := start\<rparr>)))))
     (\<lambda>f. \<lambda>pool. (Ok f, pool @ [s])))"

text \<open>How a body of the module is read and validated: \<open>get_binary_reader\<close> and \<open>into_validator\<close>, of wasmparser.\<close>

record 'v body_ops =
  bo_read :: "wp_FunctionBody \<Rightarrow> FunctionBody"
  bo_len :: "wp_FunctionBody \<Rightarrow> nat"
  bo_into_validator :: "wp_FuncToValidate \<Rightarrow> 'v"
  bo_validator :: "'v Func_Translator.validator_ops"

text \<open>The function under compilation: its signature and stack limit.\<close>

definition function_with_stack_limit :: "'b code_ops \<Rightarrow> CraneliftCompiler \<Rightarrow> Signature \<Rightarrow> 'b result" where
  "function_with_stack_limit K c sig = (let C = co_clif K in
     case create_global_value C GV_VMContext (co_function K sig) of (vmctx, b1) \<Rightarrow>
       and_then (vmctx_stack_limit (cl_offsets c))
       (\<lambda>off. case create_global_value C (GV_Load vmctx (int off) (isa_pointer_type (cl_isa c)) memflags_trusted) b1 of (stack_limit, b2) \<Rightarrow>
          Ok (co_set_stack_limit K stack_limit b2)))"

definition cl_compile_function ::
  "'b code_ops \<Rightarrow> 'v body_ops \<Rightarrow> CraneliftCompiler \<Rightarrow> ModuleTranslation \<Rightarrow> DefinedFuncIndex \<Rightarrow> FunctionBodyData \<Rightarrow> ModuleTypes \<Rightarrow>
     (CompiledFunction, context_pool) io" where
  "cl_compile_function K B c tr index data types =
     io_then function_compiler
     (\<lambda>s. io_then (io_pure
        (and_then (func_index (tr_module tr) index)
        (\<lambda>fi. and_then (defined_func_type (tr_module tr) types fi)
        (\<lambda>func_ty. and_then (wasm_call_signature (isa_pointer_type (cl_isa c)) func_ty)
        (\<lambda>sig. and_then (function_with_stack_limit K c sig)
        (\<lambda>b. and_then (env_new (cl_isa c) (tr_module tr) types)
        (\<lambda>env. translate_body (co_clif K) (bo_validator B) (bo_read B (body_bytes data)) (bo_into_validator B (body_validator data))
           (s, env, b))))))))
     (\<lambda>((), s', env', b'). finish_function K (Some (fb_start (bo_read B (body_bytes data)), bo_len B (body_bytes data))) s' b'))"

text \<open>A trampoline leaves the state of the translator alone.\<close>

definition cl_trampoline :: "'b code_ops \<Rightarrow> Signature \<Rightarrow> (ir_Block \<Rightarrow> (unit, 'b) emitter) \<Rightarrow> (CompiledFunction, context_pool) io" where
  "cl_trampoline K sig emit =
     io_then function_compiler
     (\<lambda>s. io_then (io_pure (case function_builder K sig of (block0, b) \<Rightarrow> emit block0 b))
     (\<lambda>((), b'). finish_function K None s b'))"

definition cl_array_to_wasm_trampoline ::
  "'b code_ops \<Rightarrow> CraneliftCompiler \<Rightarrow> ModuleTranslation \<Rightarrow> ModuleTypes \<Rightarrow> DefinedFuncIndex \<Rightarrow> (CompiledFunction, context_pool) io" where
  "cl_array_to_wasm_trampoline K c tr types index = (let p = isa_pointer_type (cl_isa c) in
     io_then (io_pure
        (and_then (func_index (tr_module tr) index)
        (\<lambda>fi. and_then (defined_func_type (tr_module tr) types fi)
        (\<lambda>func_ty. map_ok (\<lambda>sig. (fi, func_ty, sig)) (wasm_call_signature p func_ty)))))
     (\<lambda>(fi, func_ty, sig). cl_trampoline K (array_call_signature p) (emit_array_to_wasm K p (cl_offsets c) func_ty sig fi)))"

text \<open>The end of \<open>compile_wasm_to_array_trampoline\<close> is \<open>todo!()\<close>.\<close>

definition cl_wasm_to_array_trampoline :: "'b code_ops \<Rightarrow> CraneliftCompiler \<Rightarrow> WasmFuncType \<Rightarrow> (CompiledFunction, context_pool) io" where
  "cl_wasm_to_array_trampoline K c wasm_func_ty = (let p = isa_pointer_type (cl_isa c) in
     io_then (io_pure (wasm_call_signature p wasm_func_ty))
     (\<lambda>sig. io_then function_compiler
     (\<lambda>s. io_pure (case function_builder K sig of (block0, b) \<Rightarrow>
        let args = block_params (co_clif K) b block0 in
        and_then (assert_that (2 \<le> length args) ''index out of bounds'')
        (\<lambda>_. and_then (allocate_stack_array_and_spill_args K wasm_func_ty (drop 2 args) p b)
        (\<lambda>((args_base, args_len), b1). case ins (co_clif K) (Iconst p (int args_len)) b1 of (_, b2) \<Rightarrow>
           Panic ''not yet implemented''))))))"

definition cl_wasm_to_builtin :: "'b code_ops \<Rightarrow> CraneliftCompiler \<Rightarrow> nat \<Rightarrow> (CompiledFunction, context_pool) io" where
  "cl_wasm_to_builtin K c index = (let p = isa_pointer_type (cl_isa c) in
     io_then (io_pure (builtin_signature index))
     (\<lambda>sig. cl_trampoline K sig (emit_wasm_to_builtin K p (cl_offsets c) sig index)))"

section \<open>Running trampolines\<close>

text \<open>
  A run of the code built so far: the values of the results, a memory of bytes, the trap that ended it, the functions
  that references name, and the parameters of the run: frame pointer, return address, arguments, initial memory,
  and what called functions do.
\<close>

type_synonym bytes = "nat \<Rightarrow> nat option"

definition read_mem :: "bytes \<Rightarrow> nat \<Rightarrow> nat \<Rightarrow> nat list option" where
  "read_mem mem a n = those (map (\<lambda>i. mem (a + i)) [0..<n])"

definition write_mem :: "bytes \<Rightarrow> nat \<Rightarrow> nat list \<Rightarrow> bytes" where
  "write_mem mem a bs = (\<lambda>x. if a \<le> x \<and> x < a + length bs then Some (bs ! (x - a)) else mem x)"

record 'b exec =
  ex_reg :: "'b \<Rightarrow> ir_Value \<Rightarrow> nat option"
  ex_mem :: "'b \<Rightarrow> bytes"
  ex_trap :: "'b \<Rightarrow> TrapCode option"
  ex_name :: "'b \<Rightarrow> ir_FuncRef \<Rightarrow> (nat \<times> nat) option"
  ex_frame_pointer :: nat
  ex_return_address :: nat
  ex_args :: "nat list"
  ex_start :: bytes
  ex_callee :: "nat \<times> nat \<Rightarrow> nat list \<Rightarrow> bytes \<Rightarrow> ((ir_Type \<times> nat) list \<times> bytes) option"

datatype exec_outcome = Results "(ir_Type \<times> nat) list" bytes | Stops TrapCode

text \<open>What Cranelift documents of the instructions in trampolines; \<open>None\<close> leaves an instruction unspecified.\<close>

definition inst_meaning ::
  "(ir_Value \<Rightarrow> nat option) \<Rightarrow> (ir_Value \<Rightarrow> ir_Type) \<Rightarrow> (ir_FuncRef \<Rightarrow> (nat \<times> nat) option) \<Rightarrow>
     (nat \<times> nat \<Rightarrow> nat list \<Rightarrow> bytes \<Rightarrow> ((ir_Type \<times> nat) list \<times> bytes) option) \<Rightarrow> bytes \<Rightarrow> inst \<Rightarrow> exec_outcome option" where
  "inst_meaning reg typ name callee mem i = (case i of
       Load opc ty fl p off \<Rightarrow>
         if opc = Op_Load then Option.bind (reg p) (\<lambda>a.
           map_option (\<lambda>bs. Results [(ty, from_le_bytes bs)] mem) (read_mem mem (nat (int a + off)) (ty_bytes ty)))
         else None
     | Store opc fl x p off \<Rightarrow>
         if opc = Op_Store then Option.bind (reg x) (\<lambda>n. Option.bind (reg p) (\<lambda>a.
           Some (Results [] (write_mem mem (nat (int a + off)) (to_le_bytes (ty_bytes (typ x)) n)))))
         else None
     | Icmp_imm cc x k \<Rightarrow> Option.bind (reg x) (\<lambda>n.
         map_option (\<lambda>r. Results [(IR_I8, bool_value r)] mem) (unsigned_cc cc n (wrap_ty (typ x) k)))
     | Trapz x code \<Rightarrow> map_option (\<lambda>n. if n = 0 then Stops code else Results [] mem) (reg x)
     | Call_inst f args \<Rightarrow> Option.bind (name f) (\<lambda>nm. Option.bind (those (map reg args)) (\<lambda>ns.
         map_option (\<lambda>(rs, m). Results rs m) (callee nm ns mem)))
     | Return_inst vs \<Rightarrow> Some (Results [] mem)
     | _ \<Rightarrow> None)"

definition exec_meaning :: "'b exec \<Rightarrow> 'b code_ops \<Rightarrow> 'b \<Rightarrow> inst \<Rightarrow> exec_outcome option" where
  "exec_meaning R K b i = inst_meaning (ex_reg R b) (value_type_of (co_clif K) b) (ex_name R b) (ex_callee R) (ex_mem R b) i"

text \<open>Results of an instruction; nothing that was known before is forgotten.\<close>

definition known :: "'b exec \<Rightarrow> 'b code_ops \<Rightarrow> 'b \<Rightarrow> ir_Value \<Rightarrow> ir_Type \<times> nat \<Rightarrow> bool" where
  "known R K b v tn \<longleftrightarrow> ex_reg R b v = Some (snd tn) \<and> value_type_of (co_clif K) b v = fst tn"

definition ex_keeps :: "'b exec \<Rightarrow> 'b code_ops \<Rightarrow> 'b \<Rightarrow> 'b \<Rightarrow> bool" where
  "ex_keeps R K b b' \<longleftrightarrow> (\<forall>v tn. known R K b v tn \<longrightarrow> known R K b' v tn) \<and>
     (\<forall>f name. ex_name R b f = Some name \<longrightarrow> ex_name R b' f = Some name)"

definition after :: "'b exec \<Rightarrow> 'b code_ops \<Rightarrow> 'b \<Rightarrow> 'b \<Rightarrow> ir_Value list \<Rightarrow> exec_outcome option \<Rightarrow> bool" where
  "after R K b b' vs out \<longleftrightarrow> ex_keeps R K b b' \<and> (ex_trap R b \<noteq> None \<longrightarrow> ex_trap R b' = ex_trap R b) \<and>
     (ex_trap R b = None \<longrightarrow> (case out of
         None \<Rightarrow> True
       | Some (Stops code) \<Rightarrow> ex_trap R b' = Some code
       | Some (Results rs m) \<Rightarrow> ex_trap R b' = None \<and> ex_mem R b' = m \<and> list_all2 (known R K b') vs rs))"

abbreviation (input) unchanged :: "'b exec \<Rightarrow> 'b \<Rightarrow> exec_outcome option" where
  "unchanged R b \<equiv> Some (Results [] (ex_mem R b))"

fun single_result :: "exec_outcome option \<Rightarrow> exec_outcome option" where
  "single_result (Some (Results [r] m)) = Some (Results [r] m)"
| "single_result (Some (Stops code)) = Some (Stops code)"
| "single_result _ = None"

definition exec_contract :: "'b exec \<Rightarrow> 'b code_ops \<Rightarrow> bool" where
  "exec_contract R K \<longleftrightarrow> (let C = co_clif K in
     (\<forall>i b v b'. ins C i b = (v, b') \<longrightarrow> after R K b b' [v] (single_result (exec_meaning R K b i))) \<and>
     (\<forall>i b n b'. ins_inst C i b = (n, b') \<longrightarrow> after R K b b' (inst_results C b' n) (exec_meaning R K b i)) \<and>
     (\<forall>t b v b'. co_get_frame_pointer K t b = (v, b') \<longrightarrow> after R K b b' [v] (Some (Results [(t, ex_frame_pointer R)] (ex_mem R b)))) \<and>
     (\<forall>t b v b'. co_get_return_address K t b = (v, b') \<longrightarrow> after R K b b' [v] (Some (Results [(t, ex_return_address R)] (ex_mem R b)))) \<and>
     (\<forall>sg b r b'. import_signature C sg b = (r, b') \<longrightarrow> after R K b b' [] (unchanged R b)) \<and>
     (\<forall>d b f b'. import_function C d b = (f, b') \<longrightarrow> after R K b b' [] (unchanged R b) \<and>
        ex_name R b' f = Some (ef_namespace d, ef_index d)) \<and>
     (\<forall>b. after R K b (finalize C b) [] (unchanged R b)) \<and>
     (\<forall>sg block0 b. function_builder K sg = (block0, b) \<longrightarrow> length (ex_args R) = length (sig_params sg) \<longrightarrow>
        ex_trap R b = None \<and> ex_mem R b = ex_start R \<and>
        list_all2 (known R K b) (block_params C b block0) (zip (sig_params sg) (ex_args R))))"

text \<open>A run goes on without a trap.\<close>

definition goes :: "'b exec \<Rightarrow> 'b code_ops \<Rightarrow> 'b \<Rightarrow> 'b \<Rightarrow> bytes \<Rightarrow> bool" where
  "goes R K b b' m \<longleftrightarrow> ex_keeps R K b b' \<and> ex_trap R b' = None \<and> ex_mem R b' = m"

definition slot_holds :: "bytes \<Rightarrow> nat \<Rightarrow> ir_Type \<Rightarrow> nat \<Rightarrow> bool" where
  "slot_holds mem a t n \<longleftrightarrow> map_option from_le_bytes (read_mem mem a (ty_bytes t)) = Some n \<and> n < 256 ^ ty_bytes t"

lemma goes_trans: "goes R K b b1 m1 \<Longrightarrow> goes R K b1 b2 m2 \<Longrightarrow> goes R K b b2 m2"
  by (auto simp: goes_def ex_keeps_def)

lemma goes_known: "goes R K b b' m \<Longrightarrow> known R K b v tn \<Longrightarrow> known R K b' v tn"
  unfolding goes_def ex_keeps_def by blast

lemma goes_known_list: "goes R K b b' m \<Longrightarrow> list_all2 (known R K b) vs tns \<Longrightarrow> list_all2 (known R K b') vs tns"
  by (auto elim: list_all2_mono simp: goes_known)

lemma after_goes:
  assumes "after R K b b' vs (Some (Results rs m))" and "ex_trap R b = None"
  shows "goes R K b b' m" and "list_all2 (known R K b') vs rs"
  using assms by (simp_all add: after_def goes_def)

lemma exec_contractD:
  assumes "exec_contract R K"
  shows "ins (co_clif K) i b = (v, b') \<Longrightarrow> after R K b b' [v] (single_result (exec_meaning R K b i))"
    and "ins_inst (co_clif K) i b = (n, b') \<Longrightarrow> after R K b b' (inst_results (co_clif K) b' n) (exec_meaning R K b i)"
    and "co_get_frame_pointer K t b = (v, b') \<Longrightarrow> after R K b b' [v] (Some (Results [(t, ex_frame_pointer R)] (ex_mem R b)))"
    and "co_get_return_address K t b = (v, b') \<Longrightarrow> after R K b b' [v] (Some (Results [(t, ex_return_address R)] (ex_mem R b)))"
    and "import_signature (co_clif K) sg b = (n, b') \<Longrightarrow> after R K b b' [] (unchanged R b)"
    and "import_function (co_clif K) d b = (n, b') \<Longrightarrow> after R K b b' [] (unchanged R b)"
    and "import_function (co_clif K) d b = (n, b') \<Longrightarrow> ex_name R b' n = Some (ef_namespace d, ef_index d)"
    and "after R K b (finalize (co_clif K) b) [] (unchanged R b)"
    and "function_builder K sg = (n, b) \<Longrightarrow> length (ex_args R) = length (sig_params sg) \<Longrightarrow>
      ex_trap R b = None \<and> ex_mem R b = ex_start R \<and> list_all2 (known R K b) (block_params (co_clif K) b n) (zip (sig_params sg) (ex_args R))"
  using assms by (simp_all add: exec_contract_def Let_def)

lemma run_ins:
  assumes "exec_contract R K" and "ex_trap R b = None" and "exec_meaning R K b i = Some (Results [tn] m)"
  obtains v b' where "ins (co_clif K) i b = (v, b')" "goes R K b b' m" "known R K b' v tn"
proof -
  obtain v b' where r: "ins (co_clif K) i b = (v, b')" by fastforce
  from exec_contractD(1) [OF assms(1) r] have "after R K b b' [v] (Some (Results [tn] m))" by (simp add: assms(3))
  from after_goes [OF this assms(2)] r show thesis by (auto intro: that)
qed

lemma run_inst:
  assumes "exec_contract R K" and "ex_trap R b = None" and "exec_meaning R K b i = Some (Results rs m)"
  obtains n b' where "ins_inst (co_clif K) i b = (n, b')" "goes R K b b' m" "list_all2 (known R K b') (inst_results (co_clif K) b' n) rs"
proof -
  obtain n b' where r: "ins_inst (co_clif K) i b = (n, b')" by fastforce
  from after_goes [OF exec_contractD(2) [OF assms(1) r, unfolded assms(3)] assms(2)] r show thesis by (auto intro: that)
qed

lemma run_frame_pointer:
  assumes "exec_contract R K" and "ex_trap R b = None"
  obtains v b' where "co_get_frame_pointer K t b = (v, b')" "goes R K b b' (ex_mem R b)" "known R K b' v (t, ex_frame_pointer R)"
proof -
  obtain v b' where r: "co_get_frame_pointer K t b = (v, b')" by fastforce
  from after_goes [OF exec_contractD(3) [OF assms(1) r] assms(2)] r show thesis by (auto intro: that)
qed

lemma run_return_address:
  assumes "exec_contract R K" and "ex_trap R b = None"
  obtains v b' where "co_get_return_address K t b = (v, b')" "goes R K b b' (ex_mem R b)" "known R K b' v (t, ex_return_address R)"
proof -
  obtain v b' where r: "co_get_return_address K t b = (v, b')" by fastforce
  from after_goes [OF exec_contractD(4) [OF assms(1) r] assms(2)] r show thesis by (auto intro: that)
qed

text \<open>The instructions of trampolines on known operands.\<close>

lemma meaning_load:
  "known R K b p (tp, a) \<Longrightarrow> slot_holds (ex_mem R b) (a + off) t n \<Longrightarrow>
     exec_meaning R K b (Load Op_Load t fl p (int off)) = Some (Results [(t, n)] (ex_mem R b))"
  by (auto simp: exec_meaning_def inst_meaning_def known_def slot_holds_def simp flip: of_nat_add)

lemma meaning_store:
  "known R K b p (tp, a) \<Longrightarrow> known R K b x (t, n) \<Longrightarrow>
     exec_meaning R K b (Store Op_Store fl x p (int off)) = Some (Results [] (write_mem (ex_mem R b) (a + off) (to_le_bytes (ty_bytes t) n)))"
  by (simp add: exec_meaning_def inst_meaning_def known_def flip: of_nat_add)

text \<open>A comparison followed by a conditional trap.\<close>

lemma run_check:
  assumes C: "exec_contract R K" and nt: "ex_trap R b = None" and x: "known R K b x (t, n)"
    and cc: "unsigned_cc cc n (wrap_ty t k) = Some True"
  obtains v b1 i b2 where "ins (co_clif K) (Icmp_imm cc x k) b = (v, b1)" "ins_inst (co_clif K) (Trapz v code) b1 = (i, b2)"
    "goes R K b b2 (ex_mem R b)"
proof -
  have "exec_meaning R K b (Icmp_imm cc x k) = Some (Results [(IR_I8, 1)] (ex_mem R b))"
    using x cc by (simp add: exec_meaning_def inst_meaning_def known_def bool_value_def)
  from run_ins [OF C nt this] obtain v b1 where 1: "ins (co_clif K) (Icmp_imm cc x k) b = (v, b1)" "goes R K b b1 (ex_mem R b)"
    "known R K b1 v (IR_I8, 1)" .
  then have nt1: "ex_trap R b1 = None" and "exec_meaning R K b1 (Trapz v code) = Some (Results [] (ex_mem R b))"
    by (simp_all add: exec_meaning_def inst_meaning_def known_def goes_def)
  from run_inst [OF C nt1 this(2)] obtain i b2 where "ins_inst (co_clif K) (Trapz v code) b1 = (i, b2)" "goes R K b1 b2 (ex_mem R b)" .
  with 1(1) goes_trans [OF 1(2)] show thesis by (auto intro: that [where v = v and ?b1.0 = b1 and i = i and ?b2.0 = b2])
qed

lemma run_capacity_check:
  assumes C: "exec_contract R K" and nt: "ex_trap R b = None" and cap: "known R K b cap (IR_I64, n)"
    and len: "len \<le> n" "len < 2 ^ 63"
  obtains b' where "debug_assert_enough_capacity_for_length K len cap b = Ok ((), b')" "goes R K b b' (ex_mem R b)"
proof -
  have "wrap_ty IR_I64 (int len) = len" using len(2) by (simp add: wrap_ty_def flip: of_nat_mod)
  with len have "unsigned_cc CC_UnsignedGreaterThanOrEqual n (wrap_ty IR_I64 (int len)) = Some True" by simp
  from run_check [OF C nt cap this, of TRAP_INTERNAL_ASSERT] show thesis
    by (rule) (use len in \<open>auto intro!: that simp: debug_assert_enough_capacity_for_length_def em_defs try_into_def\<close>)
qed

lemma run_vmctx_check:
  assumes C: "exec_contract R K" and nt: "ex_trap R b = None" and ctx: "known R K b vmctx (tc, a)"
    and magic: "slot_holds (ex_mem R b) a IR_I32 mg"
  obtains b' where "debug_assert_vmctx_kind K vmctx mg b = Ok ((), b')" "goes R K b b' (ex_mem R b)"
proof -
  from magic have "exec_meaning R K b (Load Op_Load IR_I32 (memflags_trusted\<lparr>mf_little := True\<rparr>) vmctx 0) = Some (Results [(IR_I32, mg)] (ex_mem R b))"
    using meaning_load [OF ctx, of 0] by simp
  from run_ins [OF C nt this] obtain v b1 where 1: "ins (co_clif K) (Load Op_Load IR_I32 (memflags_trusted\<lparr>mf_little := True\<rparr>) vmctx 0) b = (v, b1)"
    "goes R K b b1 (ex_mem R b)" "known R K b1 v (IR_I32, mg)" .
  have "wrap_ty IR_I32 (int mg) = mg" using magic by (simp add: slot_holds_def wrap_ty_def ty_bytes_def flip: of_nat_mod)
  then have cc: "unsigned_cc CC_Equal mg (wrap_ty IR_I32 (int mg)) = Some True" by simp
  have nt1: "ex_trap R b1 = None" "ex_mem R b1 = ex_mem R b" using 1(2) by (simp_all add: goes_def)
  from run_check [OF C nt1(1) 1(3) cc, of TRAP_INTERNAL_ASSERT] show thesis
    by (rule) (use 1 nt1(2) in \<open>auto intro!: that elim: goes_trans simp: debug_assert_vmctx_kind_def em_defs\<close>)
qed

lemma slot_offset_small: "16 * i < 2 ^ 31 \<Longrightarrow> slot_offset i = Ok (int (16 * i))"
  by (simp add: slot_offset_def to_i32_def try_into_def mult.commute)

text \<open>Loading the arguments out of the array.\<close>

lemma load_values_run:
  assumes C: "exec_contract R K"
  shows "ex_trap R b = None \<Longrightarrow> known R K b ptr (tp, a) \<Longrightarrow> collect (\<lambda>t. value_type t p) tys = Ok ts \<Longrightarrow> length ns = length tys \<Longrightarrow>
    \<forall>j<length ns. slot_holds (ex_mem R b) (a + 16 * (i + j)) (ts ! j) (ns ! j) \<Longrightarrow> 16 * (i + length tys) \<le> 2 ^ 31 \<Longrightarrow>
    \<exists>vs b'. load_values K ptr p i tys b = Ok (vs, b') \<and> goes R K b b' (ex_mem R b) \<and> list_all2 (known R K b') vs (zip ts ns)"
proof (induction tys arbitrary: i b ts ns)
  case Nil
  then show ?case by (auto simp: em_defs goes_def ex_keeps_def)
next
  case (Cons ty tys)
  from Cons.prems(3,4) obtain t ts' n ns' where l: "value_type ty p = Ok t" "collect (\<lambda>t. value_type t p) tys = Ok ts'" "ts = t # ts'"
    "ns = n # ns'" "length ns' = length tys" by (cases ns) auto
  have off: "slot_offset i = Ok (int (16 * i))" using Cons.prems(6) by (intro slot_offset_small) simp
  from Cons.prems(5) l(3,4) have "slot_holds (ex_mem R b) (a + 16 * i) t n" by force
  from run_ins [OF C Cons.prems(1) meaning_load [OF Cons.prems(2) this], of array_flags] obtain v b1 where
    1: "ins (co_clif K) (Load Op_Load t array_flags ptr (int (16 * i))) b = (v, b1)" "goes R K b b1 (ex_mem R b)" "known R K b1 v (t, n)" .
  have nt: "ex_trap R b1 = None" and m: "ex_mem R b1 = ex_mem R b" using 1(2) by (simp_all add: goes_def)
  have "\<forall>j<length ns'. slot_holds (ex_mem R b1) (a + 16 * (Suc i + j)) (ts' ! j) (ns' ! j)"
  proof (intro allI impI)
    fix j assume "j < length ns'"
    with Cons.prems(5) [rule_format, of "Suc j"] show "slot_holds (ex_mem R b1) (a + 16 * (Suc i + j)) (ts' ! j) (ns' ! j)"
      by (simp add: l m)
  qed
  from Cons.IH [OF nt goes_known [OF 1(2) Cons.prems(2)] l(2,5) this] Cons.prems(6) obtain vs b2 where
    2: "load_values K ptr p (Suc i) tys b1 = Ok (vs, b2)" "goes R K b1 b2 (ex_mem R b)" "list_all2 (known R K b2) vs (zip ts' ns')"
    by (auto simp: m)
  then show ?case using l(1) off 1 goes_trans [OF 1(2) 2(2)] goes_known [OF 2(2) 1(3)] by (auto simp: em_defs l(3,4))
qed

text \<open>Storing the results into it.\<close>

fun stored_mem :: "bytes \<Rightarrow> nat \<Rightarrow> nat \<Rightarrow> (ir_Type \<times> nat) list \<Rightarrow> bytes" where
  "stored_mem mem a i [] = mem"
| "stored_mem mem a i ((t, n) # rs) = stored_mem (write_mem mem (a + 16 * i) (to_le_bytes (ty_bytes t) n)) a (Suc i) rs"

lemma store_values_run:
  assumes C: "exec_contract R K"
  shows "ex_trap R b = None \<Longrightarrow> known R K b ptr (tp, a) \<Longrightarrow> list_all2 (known R K b) vs rs \<Longrightarrow> 16 * (i + length vs) \<le> 2 ^ 31 \<Longrightarrow>
    \<exists>b'. store_values K ptr i vs b = Ok ((), b') \<and> goes R K b b' (stored_mem (ex_mem R b) a i rs)"
proof (induction vs arbitrary: i b rs)
  case Nil
  then show ?case by (auto simp: em_defs goes_def ex_keeps_def)
next
  case (Cons v vs)
  from Cons.prems(3) obtain t n rs' where l: "rs = (t, n) # rs'" "known R K b v (t, n)" "list_all2 (known R K b) vs rs'"
    by (cases rs) auto
  have off: "slot_offset i = Ok (int (16 * i))" using Cons.prems(4) by (intro slot_offset_small) simp
  let ?m = "write_mem (ex_mem R b) (a + 16 * i) (to_le_bytes (ty_bytes t) n)"
  from run_inst [OF C Cons.prems(1) meaning_store [OF Cons.prems(2) l(2)], of array_flags "16 * i"] obtain k b1 where
    1: "ins_inst (co_clif K) (Store Op_Store array_flags v ptr (int (16 * i))) b = (k, b1)" "goes R K b b1 ?m" .
  have nt: "ex_trap R b1 = None" and m: "ex_mem R b1 = ?m" using 1(2) by (simp_all add: goes_def)
  from Cons.IH [OF nt goes_known [OF 1(2) Cons.prems(2)] goes_known_list [OF 1(2) l(3)], of "Suc i"] Cons.prems(4) obtain b2 where
    2: "store_values K ptr (Suc i) vs b1 = Ok ((), b2)" "goes R K b1 b2 (stored_mem ?m a (Suc i) rs')" by (auto simp: m)
  then show ?case using off 1(1) goes_trans [OF 1(2) 2(2)] by (auto simp: em_defs l(1))
qed

lemma ty_bytes_le: "ty_bytes t \<le> 16"
  by (cases t) (simp_all add: ty_bytes_def)

lemma stored_mem_other: "x < a + 16 * i \<or> a + 16 * (i + length rs) \<le> x \<Longrightarrow> stored_mem mem a i rs x = mem x"
proof (induction mem a i rs rule: stored_mem.induct)
  case (2 mem a i t n rs)
  then have "stored_mem (write_mem mem (a + 16 * i) (to_le_bytes (ty_bytes t) n)) a (Suc i) rs x = write_mem mem (a + 16 * i) (to_le_bytes (ty_bytes t) n) x"
    by auto
  with 2(2) ty_bytes_le [of t] show ?case by (auto simp: write_mem_def)
qed simp

lemma read_write_mem: "length bs = n \<Longrightarrow> read_mem (write_mem mem a bs) a n = Some bs"
proof -
  assume l: "length bs = n"
  then have "map (\<lambda>i. write_mem mem a bs (a + i)) [0..<n] = map Some bs" by (intro nth_equalityI) (auto simp: write_mem_def)
  then show ?thesis by (simp add: read_mem_def)
qed

lemma read_mem_cong: "(\<And>i. i < n \<Longrightarrow> m (a + i) = m' (a + i)) \<Longrightarrow> read_mem m a n = read_mem m' a n"
  unfolding read_mem_def by (intro arg_cong [of _ _ those] map_cong) auto

lemma stored_mem_slot:
  "j < length rs \<Longrightarrow> \<forall>(t, n)\<in>set rs. n < 256 ^ ty_bytes t \<Longrightarrow>
     slot_holds (stored_mem mem a i rs) (a + 16 * (i + j)) (fst (rs ! j)) (snd (rs ! j))"
proof (induction mem a i rs arbitrary: j rule: stored_mem.induct)
  case (2 mem a i t n rs)
  show ?case
  proof (cases j)
    case 0
    let ?m = "write_mem mem (a + 16 * i) (to_le_bytes (ty_bytes t) n)"
    have "stored_mem ?m a (Suc i) rs (a + 16 * i + k) = ?m (a + 16 * i + k)" if "k < ty_bytes t" for k
      by (rule stored_mem_other) (use that ty_bytes_le [of t] in auto)
    then have "read_mem (stored_mem ?m a (Suc i) rs) (a + 16 * i) (ty_bytes t) = read_mem ?m (a + 16 * i) (ty_bytes t)" by (rule read_mem_cong)
    with 0 2(3) show ?thesis by (simp add: slot_holds_def read_write_mem from_to_le_bytes)
  next
    case (Suc k)
    with 2(2,3) have "k < length rs" "\<forall>(t, n)\<in>set rs. n < 256 ^ ty_bytes t" by auto
    from 2(1) [OF this] Suc show ?thesis by simp
  qed
qed simp

lemma run_call:
  assumes C: "exec_contract R K" and nt: "ex_trap R b = None" and args: "list_all2 (known R K b) vs tns"
    and callee: "ex_callee R (NS_WASM_FUNC, index) (map snd tns) (ex_mem R b) = Some (rs, mem')"
  obtains n b' where "declare_and_call K sg index vs b = Ok (n, b')" "goes R K b b' mem'" "list_all2 (known R K b') (inst_results (co_clif K) b' n) rs"
proof -
  obtain r b1 where 1: "import_signature (co_clif K) sg b = (r, b1)" by fastforce
  note g1 = after_goes(1) [OF exec_contractD(5) [OF C 1] nt]
  then have nt1: "ex_trap R b1 = None" and m1: "ex_mem R b1 = ex_mem R b" by (simp_all add: goes_def)
  let ?d = "\<lparr>ef_namespace = NS_WASM_FUNC, ef_index = index, ef_signature = r, ef_colocated = True\<rparr>"
  obtain f b2 where 2: "import_function (co_clif K) ?d b1 = (f, b2)" by fastforce
  note g2 = after_goes(1) [OF exec_contractD(6) [OF C 2] nt1]
  then have nt2: "ex_trap R b2 = None" and m2: "ex_mem R b2 = ex_mem R b" by (simp_all add: goes_def m1)
  from goes_known_list [OF g2 goes_known_list [OF g1 args]] have "map (ex_reg R b2) vs = map Some (map snd tns)"
    by (induction vs tns rule: list_all2_induct) (simp_all add: known_def)
  then have "exec_meaning R K b2 (Call_inst f vs) = Some (Results rs mem')"
    using exec_contractD(7) [OF C 2] callee by (simp add: exec_meaning_def inst_meaning_def m2 del: map_map)
  from run_inst [OF C nt2 this] obtain n b3 where "ins_inst (co_clif K) (Call_inst f vs) b2 = (n, b3)" "goes R K b2 b3 mem'"
    "list_all2 (known R K b3) (inst_results (co_clif K) b3 n) rs" .
  then show thesis using goes_trans [OF goes_trans [OF g1 g2]] 1 2 by (intro that) (auto simp: declare_and_call_def em_defs)
qed

lemma wasm_call_signature_parts:
  assumes "wasm_call_signature p func_ty = Ok sig"
  obtains ts rs where "collect (\<lambda>t. value_type t p) (params func_ty) = Ok ts" "collect (\<lambda>t. value_type t p) (results func_ty) = Ok rs"
    "sig_params sig = p # p # ts" "sig_returns sig = rs"
  using assms by (auto simp: wasm_call_signature_def Let_def blank_sig_def)

lemma collect_length: "collect f xs = Ok ys \<Longrightarrow> length ys = length xs"
  by (induction xs arbitrary: ys) auto

text \<open>The parts of the entry trampoline.\<close>

lemma run_load_args:
  assumes C: "exec_contract R K" and nt: "ex_trap R b = None" and known: "known R K b ptr (tp, a)" "known R K b cap (IR_I64, n)"
    and len: "length tys \<le> n" "16 * n \<le> 2 ^ 31" and ts: "collect (\<lambda>t. value_type t p) tys = Ok ts" "length ns = length tys"
    and slots: "\<forall>j<length ns. slot_holds (ex_mem R b) (a + 16 * j) (ts ! j) (ns ! j)"
  obtains vs b' where "load_values_from_array K tys ptr cap p b = Ok (vs, b')" "goes R K b b' (ex_mem R b)"
    "list_all2 (known R K b') vs (zip ts ns)"
proof -
  have "length tys < 2 ^ 63" using len by simp
  with run_capacity_check [OF C nt known(2) len(1)] obtain b1 where
    1: "debug_assert_enough_capacity_for_length K (length tys) cap b = Ok ((), b1)" "goes R K b b1 (ex_mem R b)" .
  then have m1: "ex_trap R b1 = None" "ex_mem R b1 = ex_mem R b" by (simp_all add: goes_def)
  have "\<forall>j<length ns. slot_holds (ex_mem R b1) (a + 16 * (0 + j)) (ts ! j) (ns ! j)" using slots by (simp add: m1)
  from load_values_run [OF C m1(1) goes_known [OF 1(2) known(1)] ts this] len obtain vs b2 where
    2: "load_values K ptr p 0 tys b1 = Ok (vs, b2)" "goes R K b1 b2 (ex_mem R b)" "list_all2 (known R K b2) vs (zip ts ns)"
    by (auto simp: m1)
  with 1 goes_trans [OF 1(2) 2(2)] show thesis by (intro that) (simp_all add: load_values_from_array_def em_defs)
qed

lemma run_store_results:
  assumes C: "exec_contract R K" and nt: "ex_trap R b = None" and known: "known R K b ptr (tp, a)" "known R K b cap (IR_I64, n)"
    and vs: "list_all2 (known R K b) vs rs" and len: "length tys = length rs" "length rs \<le> n" "16 * n \<le> 2 ^ 31"
  obtains b' where "store_values_to_array K tys vs ptr cap b = Ok ((), b')" "goes R K b b' (stored_mem (ex_mem R b) a 0 rs)"
proof -
  note l = list_all2_lengthD [OF vs]
  have "length tys \<le> n" "length tys < 2 ^ 63" using len by simp_all
  with run_capacity_check [OF C nt known(2)] obtain b1 where
    1: "debug_assert_enough_capacity_for_length K (length tys) cap b = Ok ((), b1)" "goes R K b b1 (ex_mem R b)" .
  then have m1: "ex_trap R b1 = None" "ex_mem R b1 = ex_mem R b" by (simp_all add: goes_def)
  from store_values_run [OF C m1(1) goes_known [OF 1(2) known(1)] goes_known_list [OF 1(2) vs], of 0] len l obtain b2 where
    2: "store_values K ptr 0 vs b1 = Ok ((), b2)" "goes R K b1 b2 (stored_mem (ex_mem R b) a 0 rs)" by (auto simp: m1)
  with 1 len l goes_trans [OF 1(2) 2(2)] show thesis by (intro that) (simp_all add: store_values_to_array_def em_defs)
qed

lemma run_save_frame_pointer:
  assumes C: "exec_contract R K" and nt: "ex_trap R b = None" and known: "known R K b vmctx (tc, a)"
  obtains fp b1 i b' where "co_get_frame_pointer K IR_I64 b = (fp, b1)"
    "ins_inst (co_clif K) (Store Op_Store memflags_trusted fp vmctx (int off)) b1 = (i, b')"
    "goes R K b b' (write_mem (ex_mem R b) (a + off) (to_le_bytes 8 (ex_frame_pointer R)))"
proof -
  obtain fp b1 where 1: "co_get_frame_pointer K IR_I64 b = (fp, b1)" "goes R K b b1 (ex_mem R b)" "known R K b1 fp (IR_I64, ex_frame_pointer R)"
    using run_frame_pointer [OF C nt] .
  then have m1: "ex_trap R b1 = None" "ex_mem R b1 = ex_mem R b" by (simp_all add: goes_def)
  obtain i b2 where "ins_inst (co_clif K) (Store Op_Store memflags_trusted fp vmctx (int off)) b1 = (i, b2)"
    "goes R K b1 b2 (write_mem (ex_mem R b1) (a + off) (to_le_bytes (ty_bytes IR_I64) (ex_frame_pointer R)))"
    using run_inst [OF C m1(1) meaning_store [OF goes_known [OF 1(2) known] 1(3)]] .
  with 1(1) goes_trans [OF 1(2)] show thesis by (auto intro: that simp: ty_bytes_def m1)
qed

lemma run_return:
  assumes C: "exec_contract R K" and nt: "ex_trap R b = None"
  obtains i b' where "ins_inst (co_clif K) (Return_inst vs) b = (i, b')" "goes R K b (finalize (co_clif K) b') (ex_mem R b)"
proof -
  obtain i b' where 1: "ins_inst (co_clif K) (Return_inst vs) b = (i, b')" "goes R K b b' (ex_mem R b)"
    by (rule run_inst [OF C nt, of "Return_inst vs" "[]" "ex_mem R b"]) (simp add: exec_meaning_def inst_meaning_def)
  then have m1: "ex_trap R b' = None" "ex_mem R b' = ex_mem R b" by (simp_all add: goes_def)
  from after_goes(1) [OF exec_contractD(8) [OF C] m1(1)] have "goes R K b' (finalize (co_clif K) b') (ex_mem R b)" by (simp add: m1)
  with 1 goes_trans [OF 1(2)] show thesis by (auto intro: that)
qed

text \<open>The entry trampoline of a function, run on an array that holds its arguments: it calls the function with the two
  contexts and the arguments, after saving the frame pointer for backtraces, ends without a trap, and leaves
  the results of the function in the array, slot by slot; the rest of memory is as the function left it.\<close>

lemma array_trampoline_runs:
  assumes C: "exec_contract R K" and "ptr_size offsets = 8" and sig: "wasm_call_signature IR_I64 func_ty = Ok sig"
    and start: "function_builder K (array_call_signature IR_I64) = (block0, b)" "ex_args R = [vmctx, caller, ptr, len]"
    and len: "length (params func_ty) \<le> len" "length (results func_ty) \<le> len" "16 * len \<le> 2 ^ 31"
    and args: "length ns = length (params func_ty)" "\<forall>j<length ns. slot_holds (ex_start R) (ptr + 16 * j) (sig_params sig ! (j + 2)) (ns ! j)"
    and magic: "slot_holds (ex_start R) vmctx IR_I32 VMCONTEXT_MAGIC"
    and callee: "ex_callee R (NS_WASM_FUNC, index) (vmctx # caller # ns)
      (write_mem (ex_start R) (vmctx + 48) (to_le_bytes 8 (ex_frame_pointer R))) = Some (rs, mem')"
    and rs: "map fst rs = sig_returns sig" "\<forall>(t, n)\<in>set rs. n < 256 ^ ty_bytes t"
  shows "\<exists>b'. emit_array_to_wasm K IR_I64 offsets func_ty sig index block0 b = Ok ((), b') \<and> ex_trap R b' = None \<and>
    (\<forall>j<length rs. slot_holds (ex_mem R b') (ptr + 16 * j) (fst (rs ! j)) (snd (rs ! j))) \<and>
    (\<forall>x. x < ptr \<or> ptr + 16 * length rs \<le> x \<longrightarrow> ex_mem R b' x = mem' x)"
proof -
  let ?m = "write_mem (ex_start R) (vmctx + 48) (to_le_bytes 8 (ex_frame_pointer R))"
  obtain ts us where ts: "collect (\<lambda>t. value_type t IR_I64) (params func_ty) = Ok ts" "collect (\<lambda>t. value_type t IR_I64) (results func_ty) = Ok us"
    "sig_params sig = IR_I64 # IR_I64 # ts" "sig_returns sig = us" using wasm_call_signature_parts [OF sig] .
  have nrs: "length rs = length (results func_ty)" using rs(1) ts(4) collect_length [OF ts(2)] by (metis length_map)
  from exec_contractD(9) [OF C start(1)] start(2) have s: "ex_trap R b = None" "ex_mem R b = ex_start R"
    "list_all2 (known R K b) (block_params (co_clif K) b block0) [(IR_I64, vmctx), (IR_I64, caller), (IR_I64, ptr), (IR_I64, len)]"
    by (simp_all add: array_call_signature_def blank_sig_def Let_def)
  then obtain v0 v1 v2 v3 where vs: "block_params (co_clif K) b block0 = [v0, v1, v2, v3]" and k: "known R K b v0 (IR_I64, vmctx)"
    "known R K b v1 (IR_I64, caller)" "known R K b v2 (IR_I64, ptr)" "known R K b v3 (IR_I64, len)"
    by (auto simp: list_all2_Cons2)
  have "\<forall>j<length ns. slot_holds (ex_mem R b) (ptr + 16 * j) (ts ! j) (ns ! j)" using args(2) by (simp add: s(2) ts(3))
  from run_load_args [OF C s(1) k(3,4) len(1,3) ts(1) args(1) this] obtain as b1 where
    1: "load_values_from_array K (params func_ty) v2 v3 IR_I64 b = Ok (as, b1)" "goes R K b b1 (ex_start R)" "list_all2 (known R K b1) as (zip ts ns)"
    unfolding s(2) .
  then have m1: "ex_trap R b1 = None" "ex_mem R b1 = ex_start R" by (simp_all add: goes_def)
  obtain b2 where 2: "debug_assert_vmctx_kind K v0 VMCONTEXT_MAGIC b1 = Ok ((), b2)" "goes R K b1 b2 (ex_start R)"
    using run_vmctx_check [OF C m1(1) goes_known [OF 1(2) k(1)], of VMCONTEXT_MAGIC] magic m1(2) by auto
  then have m2: "ex_trap R b2 = None" "ex_mem R b2 = ex_start R" by (simp_all add: goes_def)
  note g2 = goes_trans [OF 1(2) 2(2)]
  obtain fp b3 i b4 where 3: "co_get_frame_pointer K IR_I64 b2 = (fp, b3)" "ins_inst (co_clif K) (Store Op_Store memflags_trusted fp v0 (int 48)) b3 = (i, b4)"
    "goes R K b2 b4 ?m" using run_save_frame_pointer [OF C m2(1) goes_known [OF g2 k(1)], of 48] unfolding m2(2) .
  then have m4: "ex_trap R b4 = None" "ex_mem R b4 = ?m" by (simp_all add: goes_def)
  note g4 = goes_trans [OF g2 3(3)]
  have "list_all2 (known R K b4) (v0 # v1 # as) ((IR_I64, vmctx) # (IR_I64, caller) # zip ts ns)"
    using goes_known [OF g4 k(1)] goes_known [OF g4 k(2)] goes_known_list [OF goes_trans [OF 2(2) 3(3)] 1(3)] by simp
  moreover have "map snd ((IR_I64, vmctx) # (IR_I64, caller) # zip ts ns) = vmctx # caller # ns"
    using args(1) collect_length [OF ts(1)] by simp
  ultimately obtain n b5 where 5: "declare_and_call K sig index (v0 # v1 # as) b4 = Ok (n, b5)" "goes R K b4 b5 mem'"
    "list_all2 (known R K b5) (inst_results (co_clif K) b5 n) rs"
    using run_call [OF C m4(1), of "v0 # v1 # as" _ index rs mem' sig] callee m4(2) by metis
  note g5 = goes_trans [OF g4 5(2)]
  then have m5: "ex_trap R b5 = None" "ex_mem R b5 = mem'" by (simp_all add: goes_def)
  obtain b6 where 6: "store_values_to_array K (results func_ty) (inst_results (co_clif K) b5 n) v2 v3 b5 = Ok ((), b6)"
    "goes R K b5 b6 (stored_mem mem' ptr 0 rs)"
    using run_store_results [OF C m5(1) goes_known [OF g5 k(3)] goes_known [OF g5 k(4)] 5(3), of "results func_ty"] nrs len m5(2) by auto
  then have m6: "ex_trap R b6 = None" "ex_mem R b6 = stored_mem mem' ptr 0 rs" by (simp_all add: goes_def)
  obtain u b7 where 7: "ins_inst (co_clif K) (Return_inst []) b6 = (u, b7)" "goes R K b6 (finalize (co_clif K) b7) (stored_mem mem' ptr 0 rs)"
    using run_return [OF C m6(1), of "[]"] unfolding m6(2) .
  have "emit_array_to_wasm K IR_I64 offsets func_ty sig index block0 b = Ok ((), finalize (co_clif K) b7)"
    using 1(1) 2(1) 3(1,2) 5(1) 6(1) 7(1) assms(2) by (simp add: emit_array_to_wasm_def em_defs vs static_offset_defs)
  then show ?thesis using 7(2) rs(2) stored_mem_slot [of _ rs mem' ptr 0] stored_mem_other [of _ ptr 0 rs mem'] by (auto simp: goes_def)
qed


section \<open>A machine that runs trampolines\<close>

text \<open>A builder that executes what it is given, to show that the contract can hold.\<close>

record runner =
  rn_values :: "(ir_Type \<times> nat) list"
  rn_mem :: bytes
  rn_trap :: "TrapCode option"
  rn_names :: "(nat \<times> nat) list"
  rn_results :: "ir_Value list list"
  rn_params :: nat

text \<open>The run: a frame at address 5000, called on a context at 1000 and an array of one value at 3000; the callee returns 42.\<close>

definition sample_callee :: "nat \<times> nat \<Rightarrow> nat list \<Rightarrow> bytes \<Rightarrow> ((ir_Type \<times> nat) list \<times> bytes) option" where
  "sample_callee name ns mem = Some ([(IR_I64, 42)], mem)"

definition sample_memory :: bytes where
  "sample_memory = write_mem (write_mem (write_mem (\<lambda>_. None) 1000 (to_le_bytes 4 VMCONTEXT_MAGIC)) 3000 (to_le_bytes 8 7)) 5000 (to_le_bytes 8 6000)"

definition sample_args :: "nat list" where
  "sample_args = [1000, 1000, 3000, 1]"

definition runner_reg :: "runner \<Rightarrow> ir_Value \<Rightarrow> nat option" where
  "runner_reg b v = map_option snd (pm_get (rn_values b) v)"

definition runner_type :: "runner \<Rightarrow> ir_Value \<Rightarrow> ir_Type" where
  "runner_type b v = (case pm_get (rn_values b) v of Some tn \<Rightarrow> fst tn | None \<Rightarrow> IR_I64)"

definition runner_results :: "(ir_Type \<times> nat) list \<Rightarrow> runner \<Rightarrow> ir_Value list" where
  "runner_results rs b = [length (rn_values b)..<length (rn_values b) + length rs]"

definition runner_meaning :: "inst \<Rightarrow> runner \<Rightarrow> exec_outcome option" where
  "runner_meaning i b = inst_meaning (runner_reg b) (runner_type b) (pm_get (rn_names b)) sample_callee (rn_mem b) i"

text \<open>The state after an instruction: its results are the next values.\<close>

definition runner_step :: "exec_outcome option \<Rightarrow> runner \<Rightarrow> runner" where
  "runner_step out b = (if rn_trap b \<noteq> None then b else case out of
       Some (Results rs m) \<Rightarrow> b\<lparr>rn_values := rn_values b @ rs, rn_mem := m, rn_results := rn_results b @ [runner_results rs b]\<rparr>
     | Some (Stops code) \<Rightarrow> b\<lparr>rn_trap := Some code\<rparr>
     | None \<Rightarrow> b)"

definition runner_value :: "exec_outcome option \<Rightarrow> runner \<Rightarrow> ir_Value \<times> runner" where
  "runner_value out b = (length (rn_values b), runner_step out b)"

definition runner_inst :: "exec_outcome option \<Rightarrow> runner \<Rightarrow> ir_Inst \<times> runner" where
  "runner_inst out b = (length (rn_results b), runner_step out b)"

definition runner_clif :: "runner clif_ops" where
  "runner_clif = \<lparr>ins = \<lambda>i b. runner_value (single_result (runner_meaning i b)) b, ins_inst = \<lambda>i b. runner_inst (runner_meaning i b) b,
     inst_results = \<lambda>b n. if n < length (rn_results b) then rn_results b ! n else [],
     value_type_of = runner_type, create_global_value = \<lambda>_ b. (0, b), import_signature = \<lambda>_ b. (0, b),
     import_function = \<lambda>d b. (length (rn_names b), b\<lparr>rn_names := rn_names b @ [(ef_namespace d, ef_index d)]\<rparr>),
     signature_of = \<lambda>_ _. \<lparr>sig_params = [], sig_returns = []\<rparr>, ext_func_signature = \<lambda>_ _. 0, special_vmctx = \<lambda>_. None,
     func_signature = \<lambda>_. \<lparr>sig_params = [], sig_returns = []\<rparr>, create_block = \<lambda>b. (0, b),
     append_block_param = \<lambda>_ _ b. (0, b), declare_stack_map = \<lambda>_ b. b, block_params = \<lambda>b _. [0..<rn_params b],
     switch_to_block = \<lambda>_ b. b, seal_block = \<lambda>_ b. b, change_jump_destination = \<lambda>_ _ _ b. b,
     use_var = \<lambda>_ b. (0, b), def_var = \<lambda>_ _ b. b, set_val_label = \<lambda>_ _ b. b, is_unreachable = \<lambda>_. False,
     declare_var = \<lambda>_ _ b. b, declare_var_stack_map = \<lambda>_ b. b, append_params_for_function_params = \<lambda>_ b. b,
     append_params_for_function_returns = \<lambda>_ b. b, ensure_inserted_block = \<lambda>b. b, set_srcloc = \<lambda>_ b. b,
     finalize = \<lambda>b. b\<rparr>"

definition runner_ops :: "runner code_ops" where
  "runner_ops = \<lparr>co_clif = runner_clif,
     co_get_frame_pointer = \<lambda>t b. runner_value (Some (Results [(t, 5000)] (rn_mem b))) b,
     co_get_return_address = \<lambda>t b. runner_value (Some (Results [(t, 77)] (rn_mem b))) b,
     co_create_sized_stack_slot = \<lambda>_ _ b. (0, b), co_stack_addr = \<lambda>_ _ _ b. (0, b),
     co_function = \<lambda>sg. \<lparr>rn_values = zip (sig_params sg) sample_args, rn_mem = sample_memory, rn_trap = None, rn_names = [],
       rn_results = [], rn_params = length (sig_params sg)\<rparr>,
     co_set_stack_limit = \<lambda>_ b. b, co_compile = \<lambda>_. Err (Cranelift '''' ''no code''), co_user_named_funcs = rn_names,
     co_preferred_alignment = 16\<rparr>"

definition runner_exec :: "runner exec" where
  "runner_exec = \<lparr>ex_reg = runner_reg, ex_mem = rn_mem, ex_trap = rn_trap, ex_name = \<lambda>b. pm_get (rn_names b), ex_frame_pointer = 5000,
     ex_return_address = 77, ex_args = sample_args, ex_start = sample_memory, ex_callee = sample_callee\<rparr>"

lemma runner_fields:
  "co_clif runner_ops = runner_clif" "co_get_frame_pointer runner_ops t b = runner_value (Some (Results [(t, 5000)] (rn_mem b))) b"
  "co_get_return_address runner_ops t b = runner_value (Some (Results [(t, 77)] (rn_mem b))) b"
  "co_function runner_ops sg = \<lparr>rn_values = zip (sig_params sg) sample_args, rn_mem = sample_memory, rn_trap = None, rn_names = [],
     rn_results = [], rn_params = length (sig_params sg)\<rparr>"
  by (simp_all add: runner_ops_def)

lemma runner_exec_fields:
  "ex_args runner_exec = sample_args" "ex_start runner_exec = sample_memory" "ex_callee runner_exec = sample_callee"
  "ex_trap runner_exec = rn_trap" "ex_mem runner_exec = rn_mem" "ex_name runner_exec b = pm_get (rn_names b)"
  by (simp_all add: runner_exec_def fun_eq_iff)

lemma runner_known: "known runner_exec runner_ops b v tn \<longleftrightarrow> pm_get (rn_values b) v = Some tn"
  by (auto simp: known_def runner_exec_def runner_ops_def runner_clif_def runner_reg_def runner_type_def split: option.splits)

lemma runner_keeps:
  assumes "rn_values b' = rn_values b @ xs" and "rn_names b' = rn_names b @ ys"
  shows "ex_keeps runner_exec runner_ops b b'"
  using assms unfolding ex_keeps_def runner_known
  by (auto simp: runner_exec_def pm_get_def nth_append split: if_splits)

lemma runner_known_results:
  "rn_values b' = rn_values b @ rs \<Longrightarrow> list_all2 (known runner_exec runner_ops b') (runner_results rs b) rs"
  by (auto simp: list_all2_conv_all_nth runner_results_def runner_known pm_get_def nth_append)

lemma runner_after:
  "after runner_exec runner_ops b (runner_step out b) (case out of Some (Results rs m) \<Rightarrow> runner_results rs b | _ \<Rightarrow> vs) out"
proof -
  have "ex_keeps runner_exec runner_ops b (runner_step out b)"
    by (rule runner_keeps [of _ _ "if rn_trap b = None then case out of Some (Results rs m) \<Rightarrow> rs | _ \<Rightarrow> [] else []" "[]"])
      (auto simp: runner_step_def split: option.split exec_outcome.split)
  moreover have "ex_trap runner_exec = rn_trap" "ex_mem runner_exec = rn_mem" by (simp_all add: runner_exec_def)
  ultimately show ?thesis
    by (auto simp: after_def runner_step_def split: option.split exec_outcome.split intro!: runner_known_results)
qed

lemma runner_after':
  assumes "\<And>rs m. rn_trap b = None \<Longrightarrow> out = Some (Results rs m) \<Longrightarrow> vs = runner_results rs b"
  shows "after runner_exec runner_ops b (runner_step out b) vs out"
  using runner_after [of b out vs] assms
  by (auto simp: after_def runner_exec_def split: option.splits exec_outcome.splits)

lemma runner_contract: "exec_contract runner_exec runner_ops"
proof -
  have sim: "exec_meaning runner_exec runner_ops b i = runner_meaning i b" for b i
    by (simp add: exec_meaning_def runner_meaning_def runner_exec_def runner_fields runner_clif_def)
  have one: "single_result x = Some (Results rs m) \<Longrightarrow> length rs = 1" for x rs m
    by (cases x rule: single_result.cases) auto
  have val: "after runner_exec runner_ops b b' [v] out"
    if "runner_value out b = (v, b')" "\<And>rs m. out = Some (Results rs m) \<Longrightarrow> length rs = 1" for out b v b'
  proof -
    from that(1) have "b' = runner_step out b" "v = length (rn_values b)" by (simp_all add: runner_value_def)
    then show ?thesis using runner_after' [of b out "[v]"] that(2) by (auto simp: runner_results_def)
  qed
  have inst: "after runner_exec runner_ops b b' (inst_results runner_clif b' n) out" if "runner_inst out b = (n, b')" for out b n b'
  proof -
    from that have "b' = runner_step out b" "n = length (rn_results b)" by (simp_all add: runner_inst_def)
    then show ?thesis using runner_after' [of b out "inst_results runner_clif b' n"] by (auto simp: runner_step_def runner_clif_def)
  qed
  have same: "after runner_exec runner_ops b b' [] (Some (Results [] (rn_mem b)))"
    if "rn_values b' = rn_values b" "rn_names b' = rn_names b @ ys" "rn_trap b' = rn_trap b" "rn_mem b' = rn_mem b" for b b' ys
    using runner_keeps [of b' b "[]" ys] that by (auto simp: after_def runner_exec_def)
  have start: "list_all2 (known runner_exec runner_ops (\<lparr>rn_values = zip (sig_params sg) sample_args, rn_mem = sample_memory, rn_trap = None,
      rn_names = [], rn_results = [], rn_params = length (sig_params sg)\<rparr>)) [0..<length (sig_params sg)] (zip (sig_params sg) sample_args)"
    if "length sample_args = length (sig_params sg)" for sg
    using that by (auto simp: list_all2_conv_all_nth runner_known pm_get_def)
  show ?thesis
    unfolding exec_contract_def Let_def sim
  proof (intro conjI allI impI)
    show "after runner_exec runner_ops b b' [v] (single_result (runner_meaning i b))"
      if "ins (co_clif runner_ops) i b = (v, b')" for i b v b'
      by (rule val) (use that one in \<open>simp_all add: runner_fields runner_clif_def\<close>)
    show "after runner_exec runner_ops b b' (inst_results (co_clif runner_ops) b' n) (runner_meaning i b)"
      if "ins_inst (co_clif runner_ops) i b = (n, b')" for i b n b'
      using inst [of "runner_meaning i b" b n b'] that by (simp add: runner_fields runner_clif_def)
    show "after runner_exec runner_ops b b' [v] (Some (Results [(t, ex_frame_pointer runner_exec)] (ex_mem runner_exec b)))"
      if "co_get_frame_pointer runner_ops t b = (v, b')" for t b v b'
      using val [of "Some (Results [(t, 5000)] (rn_mem b))" b v b'] that by (simp add: runner_fields runner_exec_def)
    show "after runner_exec runner_ops b b' [v] (Some (Results [(t, ex_return_address runner_exec)] (ex_mem runner_exec b)))"
      if "co_get_return_address runner_ops t b = (v, b')" for t b v b'
      using val [of "Some (Results [(t, 77)] (rn_mem b))" b v b'] that by (simp add: runner_fields runner_exec_def)
  qed (auto simp: runner_fields runner_clif_def function_builder_def runner_exec_fields pm_get_def Let_def intro!: same start)
qed

lemma slot_holds_write: "k = ty_bytes t \<Longrightarrow> n < 256 ^ k \<Longrightarrow> slot_holds (write_mem mem a (to_le_bytes k n)) a t n"
  by (simp add: slot_holds_def read_write_mem from_to_le_bytes)

lemma slot_holds_other:
  assumes "a + ty_bytes t \<le> a' \<or> a' + length bs \<le> a"
  shows "slot_holds (write_mem mem a' bs) a t n \<longleftrightarrow> slot_holds mem a t n"
proof -
  have "read_mem (write_mem mem a' bs) a (ty_bytes t) = read_mem mem a (ty_bytes t)"
    by (rule read_mem_cong) (use assms in \<open>auto simp: write_mem_def\<close>)
  then show ?thesis by (simp add: slot_holds_def)
qed

definition sample_type :: WasmFuncType where
  "sample_type = \<lparr>params = [I32], results = [I64]\<rparr>"

lemma sample_slots:
  "slot_holds sample_memory 1000 IR_I32 VMCONTEXT_MAGIC" "slot_holds sample_memory 5000 IR_I64 6000"
proof -
  have "VMCONTEXT_MAGIC < 256 ^ 4" by (simp add: VMCONTEXT_MAGIC_def of_char_def)
  then show "slot_holds sample_memory 1000 IR_I32 VMCONTEXT_MAGIC" "slot_holds sample_memory 5000 IR_I64 6000"
    by (simp_all add: sample_memory_def slot_holds_other slot_holds_write ty_bytes_def)
qed


section \<open>Unfinished trampolines\<close>

text \<open>No trampoline from WebAssembly to a host function or to a builtin can be compiled: for every function type, and for every
  builtin index, the compiler panics.\<close>

lemma outgoing_trampolines_panic:
  "\<not> is_ok (fst (cl_wasm_to_array_trampoline K c ft pool))"
  "fst (cl_wasm_to_builtin K c i pool) = Panic ''internal error: entered unreachable code''"
proof -
  show "\<not> is_ok (fst (cl_wasm_to_array_trampoline K c ft pool))"
    by (auto simp: cl_wasm_to_array_trampoline_def io_then_def io_pure_def function_compiler_def is_ok_iff Let_def
        split: outcome.splits prod.splits)
  show "fst (cl_wasm_to_builtin K c i pool) = Panic ''internal error: entered unreachable code''"
    by (simp add: cl_wasm_to_builtin_def builtin_signature_def io_then_def io_pure_def)
qed

end
