(* ===== verification/Host_Call.thy ===== *)
theory Host_Call
  imports Host_Func Cranelift_Compiler
begin

text \<open>
  A host call from end to end of the array: the loops of \<open>Func::call_unchecked\<close> (\<open>src/src/func.rs\<close>) that encode the arguments and
  decode the results, with the entry trampoline of \<open>src/src/cranelift/compiler.rs\<close> in between. The host writes
  values of 16 bytes, of which the trampoline reads as many as the type of the parameter has; what the host
  reads back are bytes that the trampoline stored.
\<close>

section \<open>Values as bits\<close>

text \<open>The bits that stand for a value in compiled code, and back.\<close>

fun val_bits :: "Val \<Rightarrow> nat" where
  "val_bits (Val_I32 i) = unsigned_of 32 i"
| "val_bits (Val_I64 i) = unsigned_of 64 i"
| "val_bits (Val_F32 u) = u"
| "val_bits (Val_F64 u) = u"
| "val_bits (Val_V128 u) = u"
| "val_bits (Val_FuncRef _) = 0"

fun bits_val :: "WasmValType \<Rightarrow> nat \<Rightarrow> Val" where
  "bits_val I32 n = Val_I32 (to_signed 32 n)"
| "bits_val I64 n = Val_I64 (to_signed 64 n)"
| "bits_val F32 n = Val_F32 n"
| "bits_val F64 n = Val_F64 n"
| "bits_val V128 n = Val_V128 n"
| "bits_val (Ref _) n = Val_FuncRef None"

text \<open>The array in memory.\<close>

definition slot_vmval :: "bytes \<Rightarrow> nat \<Rightarrow> VMVal" where
  "slot_vmval mem a = map (\<lambda>j. mem (a + j)) [0..<16]"

definition array_at :: "bytes \<Rightarrow> nat \<Rightarrow> nat \<Rightarrow> VMVal list" where
  "array_at mem ptr len = map (\<lambda>i. slot_vmval mem (ptr + 16 * i)) [0..<len]"

lemma array_at_nth [simp]: "j < len \<Longrightarrow> array_at mem ptr len ! j = slot_vmval mem (ptr + 16 * j)"
  and length_array_at [simp]: "length (array_at mem ptr len) = len"
  by (simp_all add: array_at_def)

lemma slot_holds_union: "slot_holds mem a t n \<longleftrightarrow> read_union (ty_bytes t) (slot_vmval mem a) = Ok n \<and> n < 256 ^ ty_bytes t"
proof -
  have "take (ty_bytes t) (slot_vmval mem a) = map (\<lambda>j. mem (a + j)) [0..<ty_bytes t]"
    using ty_bytes_le [of t] by (simp add: slot_vmval_def take_map)
  then show ?thesis by (auto simp: slot_holds_def read_mem_def read_union_def expect_def split: option.split)
qed

lemma encoded_slot:
  assumes "val_typed st v t" and "\<not> is_reference t" and "as_vmval st v = Ok (slot_vmval mem a)" and "value_type t p = Ok it"
  shows "slot_holds mem a it (val_bits v)"
proof -
  have "read_union (ty_bytes it) (slot_vmval mem a) = Ok (val_bits v) \<and> val_bits v < 256 ^ ty_bytes it"
    using assms mod_unsigned_of [of 32 64] unsigned_of_less [of 32] unsigned_of_less [of 64]
    by (cases v) (auto simp: as_vmval_def vmval_i32_def vmval_i64_def vmval_f32_def vmval_f64_def vmval_v128_def read_union_of ty_bytes_def
        dest!: sym [of _ "slot_vmval mem a"])
  then show ?thesis by (simp add: slot_holds_union)
qed

lemma decoded_slot:
  assumes "slot_holds mem a it n" and "value_type t p = Ok it" and "\<not> is_reference t"
  shows "from_vmval (slot_vmval mem a) t = Ok (bits_val t n)"
  using assms by (cases t) (auto simp: slot_holds_union from_vmval_def get_i32_def get_i64_def get_f32_def get_f64_def get_v128_def ty_bytes_def)

section \<open>Across the trampoline\<close>

lemma collect_nth: "collect f xs = Ok ys \<Longrightarrow> j < length xs \<Longrightarrow> f (xs ! j) = Ok (ys ! j)"
proof (induction xs arbitrary: ys j)
  case (Cons x xs)
  then show ?case by (cases j) auto
qed simp

lemma copy_results_nth:
  "length slots = length ts \<Longrightarrow> length out = length ts \<Longrightarrow> length ts \<le> length vs \<Longrightarrow> i = length pre \<Longrightarrow>
     \<forall>j<length ts. from_vmval (vs ! j) (ts ! j) = Ok (out ! j) \<Longrightarrow> copy_results (pre @ ts) i slots vs = Ok out"
proof (induction slots arbitrary: ts out vs i pre)
  case (Cons slot slots)
  from Cons.prems obtain t ts' o' out' v vs' where l: "ts = t # ts'" "out = o' # out'" "vs = v # vs'"
    by (metis Suc_length_conv Suc_le_length_iff length_Cons)
  from Cons.prems(5) l have "from_vmval v t = Ok o'" by force
  moreover have "\<forall>j<length ts'. from_vmval (vs' ! j) (ts' ! j) = Ok (out' ! j)"
  proof (intro allI impI)
    fix j assume "j < length ts'"
    with Cons.prems(5) [rule_format, of "Suc j"] l show "from_vmval (vs' ! j) (ts' ! j) = Ok (out' ! j)" by simp
  qed
  moreover have "pm_get (pre @ t # ts') (length pre) = Some t" by (simp add: pm_get_def)
  ultimately show ?case using Cons.IH [of ts' out' vs' "Suc i" "pre @ [t]"] Cons.prems l by simp
qed simp

text \<open>The arguments of a host call are in the slots of the array as the trampoline reads them.\<close>

lemma args_in_slots:
  assumes args: "list_all2 (val_typed st) args ts" "\<forall>t\<in>set ts. \<not> is_reference t" and its: "collect (\<lambda>t. value_type t p) ts = Ok its"
    and array: "copy_args st args (replicate len z) = Ok (array_at mem ptr len)" and len: "length args \<le> len" and j: "j < length args"
  shows "slot_holds mem (ptr + 16 * j) (its ! j) (map val_bits args ! j)"
proof -
  obtain raws where raws: "collect (as_vmval st) args = Ok raws" "length raws = length args" using as_vmvals_total [OF args(1)] by blast
  have n: "length args = length ts" using args(1) by (rule list_all2_lengthD)
  from copy_args_collect [OF raws(1), of "replicate len z"] array len have "array_at mem ptr len = raws @ replicate (len - length args) z" by simp
  then have "array_at mem ptr len ! j = raws ! j" using j raws(2) by (simp add: nth_append)
  moreover have "array_at mem ptr len ! j = slot_vmval mem (ptr + 16 * j)" using j len by simp
  ultimately have "as_vmval st (args ! j) = Ok (slot_vmval mem (ptr + 16 * j))" using collect_nth [OF raws(1) j] by simp
  moreover have "val_typed st (args ! j) (ts ! j)" using args(1) j by (simp add: list_all2_conv_all_nth)
  moreover have "\<not> is_reference (ts ! j)" "value_type (ts ! j) p = Ok (its ! j)" using args(2) j n collect_nth [OF its, of j] by simp_all
  ultimately show ?thesis using encoded_slot j by simp
qed


text \<open>The sample run: \<open>i32\<close> 7 goes in, \<open>i64\<close> 42 comes out.\<close>

lemma sample_array: "array_at sample_memory 3000 1 = [vmval_i32 7]"
proof -
  have n: "unsigned_of 64 7 = 7" by (simp add: unsigned_of_def)
  have "slot_vmval sample_memory 3000 = vmval_i32 7"
  proof (rule nth_equalityI)
    fix j assume "j < length (slot_vmval sample_memory 3000)"
    then show "slot_vmval sample_memory 3000 ! j = vmval_i32 7 ! j"
      by (auto simp: slot_vmval_def sample_memory_def write_mem_def vmval_i32_def vmval_i64_def union_of_def nth_append n)
  qed (simp add: slot_vmval_def vmval_i32_def vmval_i64_def union_of_def)
  then show ?thesis by (simp add: array_at_def)
qed


end
