(* ===== verification/Spec2Isabelle.thy ===== *)
theory Spec2Isabelle
  imports Type_Registry_Sys Translate VM_Offsets Const_Eval Vm_Instance
    Memory_Safety Translation_Soundness Host_Linker Trap_Handling Host_Call
begin

text \<open>
  Verification of k23VM, a WebAssembly virtual machine in Rust (\<open>src/src\<close>).

  \<^bold>\<open>The program.\<close> \<open>Module::from_bytes\<close> (\<open>module.rs\<close>, \<open>engine.rs\<close>) parses and validates a module with wasmparser,
  translates its sections into a \<open>TranslatedModule\<close> (\<open>translate/\<close>), whose types are interned per module
  (\<open>translate/module_types.rs\<close>) and registered with the engine (\<open>type_registry.rs\<close>), compiles every function
  body with Cranelift (\<open>compile/\<close>, \<open>cranelift/\<close>), links the machine code and maps it (\<open>runtime/code_memory.rs\<close>).
  An instance (\<open>runtime/instance.rs\<close>) allocates memories, tables and a \<open>VMContext\<close> (\<open>runtime/memory.rs\<close>,
  \<open>runtime/table.rs\<close>, \<open>runtime/vmcontext.rs\<close>, \<open>runtime/vmoffsets.rs\<close>) by way of the allocator of \<open>placeholder/\<close>,
  and initializes them from the module and its imports with constant expressions (\<open>runtime/const_eval.rs\<close>).

  \<^bold>\<open>Conventions.\<close> \<open>Prelude\<close> holds what all theories share. A Rust function that can fail returns an \<open>outcome\<close>: a value,
  an error of \<open>errors.rs\<close>, or a panic with its message; \<open>assert!\<close>, \<open>debug_assert!\<close>, \<open>unwrap\<close>, \<open>expect\<close>, indexing,
  \<open>todo!\<close> and arithmetic overflow are panics, as in a build with debug assertions and overflow checks (\<open>Compile\<close> also
  states what a release build does where it differs). \<open>usize\<close> has 64 bits. State is passed explicitly; functions that
  talk to the operating system are state transformers over an abstract kernel. Code outside the repository is a
  parameter with a contract that states its documented behaviour, and every contract has an instance: the slab
  arena of the registry (\<open>Type_Registry\<close>), the validator and parser of wasmparser (\<open>Module_Types\<close>, \<open>Module_Translator\<close>,
  \<open>Func_Translator\<close>), the system calls (\<open>Mmap\<close>), the text section builder and compiler (\<open>Compile\<close>), and the function builder of
  Cranelift (\<open>Clif\<close> for the meaning of instructions, \<open>Builder_Types\<close> for types and control flow). No model runs out of fuel:
  every recursion is structural or has a measure, and loops that consume a worklist (the unregistration of
  types, the search for traps) are proved to end.

  \<^bold>\<open>Types.\<close> \<open>Wasm_Types\<close> is \<open>translate/types.rs\<close> with its traversals. \<open>Type_Registry\<close> is \<open>type_registry.rs\<close>: hash-consed
  recursion groups, reference counts, the drop list. \<open>Type_Registry_Inv\<close> and \<open>Type_Registry_Reg\<close> show that unregistration
  and registration keep its invariant and end; \<open>Type_Registry_Sys\<close> puts every public operation into a transition system
  and shows that in every reachable state the counts are exact, that live collections resolve and that nothing
  leaks when the last handle is dropped, and which public operations leave the invariant. \<open>Module_Types\<close> is the
  interner with the converter of \<open>translate/type_convert.rs\<close>: interning is injective up to canonicalization.

  \<^bold>\<open>Translation of modules.\<close> \<open>Entities\<close> has descriptions, traps, errors and size limits, with the bounds of the memory
  size computations. \<open>Translated_Module\<close> has the translated module, constant expressions and the index spaces, as a locale
  \<open>index_split\<close> interpreted for functions, tables, memories and globals. \<open>Module_Translator\<close>, \<open>Custom_Sections\<close> and \<open>Translate\<close>
  are \<open>translate/module_translator.rs\<close> section by section: translation keeps all index spaces consistent and
  returns an error or a module, with the panics that invalid input can cause.

  \<^bold>\<open>Compilation.\<close> \<open>Clif\<close> is the interface of Cranelift. \<open>Heap_Bounds\<close> is \<open>cranelift/memory.rs\<close> and the table accesses,
  \<open>Cranelift_Env\<close> is \<open>cranelift/env.rs\<close>, \<open>Func_State\<close> is \<open>cranelift/state.rs\<close>, \<open>Code_Translator\<close>, \<open>Translate_Vector\<close> and
  \<open>Translate_Operator\<close> are \<open>cranelift/code_translator.rs\<close>, and \<open>Func_Translator\<close> is \<open>cranelift/func_translator.rs\<close>. The typing theories show that the
  translation is sound for a type checker of operators (\<open>Stack_Typing\<close>): \<open>Operator_Typing\<close> for operators without control flow,
  \<open>Entity_Typing\<close> for those that use module entities, \<open>Control_Typing\<close>, \<open>Branch_Table_Typing\<close>, \<open>Block_Typing\<close>, \<open>Else_Typing\<close>,
  \<open>Dead_Typing\<close> and \<open>End_Typing\<close> for control flow in reachable and unreachable code, \<open>Body_Typing\<close> and \<open>Function_Typing\<close> for
  operators and bodies. \<open>Vector_Typing\<close> does the same for vector operators, in a locale \<open>vector_builder\<close>, with an account of
  operand types of its own. \<open>Flow_Builder\<close> is a builder that meets the contracts, and \<open>Translation_Soundness\<close> states the results.
  \<open>Memory_Safety\<close> executes the code of memory accesses against the mapping that the allocator makes for the memory.
  \<open>Cranelift_Compiler\<close> is \<open>cranelift/compiler.rs\<close>: compiling a body, and the trampolines, which are run against a contract for
  loads, stores and calls: the entry trampoline passes arguments and results through the array of the host call.
  \<open>Compile\<close> is \<open>compile/\<close>: jobs, keys, linking and function infos; \<open>Code_Memory\<close> is the mapping of linked code, the trap table and
  the registry of code regions; \<open>Engine_Module\<close> runs the pipeline of \<open>Module::from_bytes\<close>.

  \<^bold>\<open>Instances.\<close> \<open>VM_Offsets\<close> is \<open>runtime/vmoffsets.rs\<close>: the elements of a context are disjoint and inside it, with a locale
  \<open>vmctx_array\<close> for its arrays. \<open>Const_Eval\<close> has \<open>VMVal\<close> as bytes and the evaluator of constant expressions, which refines a
  denotational specification. \<open>Mmap\<close> and \<open>Instance_Alloc\<close> are the mappings, memories, tables, contexts and the
  allocator; the locale \<open>resource_allocation\<close> is what memories and tables share: what a failed allocation mapped is
  unmapped again. \<open>Vm_Instance\<close> is \<open>runtime/instance.rs\<close>: the context of a fresh instance reads back what was stored.

  \<^bold>\<open>The host API.\<close> \<open>Host_Store\<close> is \<open>store.rs\<close>, \<open>instance.rs\<close> and the handles of functions, tables, memories and globals: looking up
  an export keeps the store consistent and is idempotent; the locale \<open>stored_vector\<close> is what its vectors share. \<open>Host_Linker\<close>
  is \<open>linker.rs\<close>: definitions refine a map from names, and imports are resolved in order by name. \<open>Trap_Handling\<close> is
  \<open>placeholder/trap_handling\<close> with the frame layouts of \<open>placeholder/arch.rs\<close> and the decision of the signal handler:
  an inductive relation gives the runs of a call, with nested calls, traps and signals, and every run leaves the list of
  call states as it was; backtraces list the frames of the live activations. \<open>Host_Func\<close> is \<open>func.rs\<close> and \<open>values.rs\<close>:
  a call from the host passes its arguments and results through the array of the store, restores the
  context and releases its reference to the function type. Compiled code is a parameter of it; \<open>Host_Call\<close> puts the entry
  trampoline in its place: the function is called with the bits of the arguments, and its results are read back as values.

  \<^bold>\<open>Not modelled.\<close> \<open>Display\<close>, \<open>Debug\<close> and tracing output; vector operators in the checker of \<open>Stack_Typing\<close>;
  the code generator and its machine code; the installation of signal handlers,
  \<open>setjmp\<close> and \<open>longjmp\<close> and the reading of the stack pointer, which work on machine state outside the language; and the
  test harness.
\<close>

end
